(* ===== verification/Prelude.thy ===== *)
theory Prelude
  imports Main "HOL-Library.Sublist" "HOL-Library.Word" "HOL-Library.Multiset" "HOL-Library.Char_ord"
    "HOL-Library.List_Lexorder"
begin

text \<open>
  Shared vocabulary of the development: byte strings with the operations of Rust's
  \<open>str\<close> that the crates use (\<open>strip_prefix\<close>, \<open>split\<close>, \<open>split_once\<close>, \<open>trim_end_matches\<close>,
  \<open>find\<close>, \<open>join\<close>, \<open>parse::<u64>\<close>, \<open>to_string\<close>), header maps as the sequence of
  name/value pairs that \<open>HeaderMap::iter\<close> yields, and the generic lemmas the component
  theories rest on.  A Rust \<open>str\<close> is its UTF-8 bytes, so a \<open>string\<close> here is a list of
  bytes and \<open>length\<close> is Rust's \<open>len()\<close>.
\<close>

named_theorems str_simps "rewrite rules for the string operations"
named_theorems hdr_simps "rewrite rules for header maps"
named_theorems prefix_simps "rewrite rules for mapping keys into and out of a backend prefix"

type_synonym header_map = "(string \<times> string) list"
type_synonym u64 = "64 word"
type_synonym u32 = "32 word"
type_synonym u8 = "8 word"

subsection \<open>Prefixes and suffixes\<close>

fun strip_prefix :: "'a list \<Rightarrow> 'a list \<Rightarrow> 'a list option" where
  "strip_prefix [] s = Some s"
| "strip_prefix (p # ps) [] = None"
| "strip_prefix (p # ps) (c # cs) = (if p = c then strip_prefix ps cs else None)"

definition starts_with :: "'a list \<Rightarrow> 'a list \<Rightarrow> bool" where
  "starts_with s p = (strip_prefix p s \<noteq> None)"

definition strip_suffix :: "'a list \<Rightarrow> 'a list \<Rightarrow> 'a list option" where
  "strip_suffix p s = map_option rev (strip_prefix (rev p) (rev s))"

definition ends_with :: "'a list \<Rightarrow> 'a list \<Rightarrow> bool" where
  "ends_with s p = (strip_suffix p s \<noteq> None)"

lemma strip_prefix_eq_Some [simp]: "strip_prefix p s = Some r \<longleftrightarrow> s = p @ r"
  by (induction p s rule: strip_prefix.induct) auto

lemma strip_prefix_append [simp]: "strip_prefix p (p @ s) = Some s"
  by simp

lemma strip_prefix_self [simp, prefix_simps]: "strip_prefix p p = Some []"
  by simp

lemma strip_prefix_eq_None: "strip_prefix p s = None \<longleftrightarrow> \<not> prefix p s"
  by (induction p s rule: strip_prefix.induct) auto

lemma starts_with_prefix: "starts_with s p \<longleftrightarrow> prefix p s"
  by (simp add: starts_with_def strip_prefix_eq_None)

lemma starts_with_iff: "starts_with s p \<longleftrightarrow> (\<exists>r. s = p @ r)"
  by (simp add: starts_with_prefix prefix_def)

lemma starts_with_append [simp]: "starts_with (p @ r) p"
  by (simp add: starts_with_iff)

lemma starts_with_Nil [simp]: "starts_with s []"
  by (simp add: starts_with_def)

lemma starts_with_Cons [simp]:
  "starts_with [] (p # ps) = False"
  "starts_with (c # cs) (p # ps) \<longleftrightarrow> p = c \<and> starts_with cs ps"
  by (auto simp: starts_with_def)

lemma strip_suffix_eq_Some [simp]: "strip_suffix p s = Some r \<longleftrightarrow> s = r @ p"
  by (auto simp: strip_suffix_def) (metis rev_append rev_rev_ident)

lemma strip_suffix_append [simp]: "strip_suffix p (r @ p) = Some r"
  by simp

lemma strip_suffix_snoc [simp]: "strip_suffix (c # p) (r @ c # p) = Some r"
  by simp

lemma ends_with_iff: "ends_with s p \<longleftrightarrow> (\<exists>r. s = r @ p)"
proof -
  have "ends_with s p \<longleftrightarrow> (\<exists>r. strip_suffix p s = Some r)"
    by (auto simp only: ends_with_def)
  then show ?thesis by simp
qed

lemma ends_with_append [simp]: "ends_with (r @ p) p"
  by (auto simp: ends_with_iff)

lemma ends_with_Nil [simp]: "ends_with s []"
  by (simp add: ends_with_iff)

lemma ends_with_single: "ends_with s [c] \<longleftrightarrow> s \<noteq> [] \<and> last s = c"
  by (auto simp: ends_with_iff) (metis append_butlast_last_id)

subsection \<open>Trimming\<close>

definition trim_start_matches :: "'a \<Rightarrow> 'a list \<Rightarrow> 'a list" where
  "trim_start_matches c s = dropWhile (\<lambda>x. x = c) s"

definition trim_end_matches :: "'a \<Rightarrow> 'a list \<Rightarrow> 'a list" where
  "trim_end_matches c s = rev (dropWhile (\<lambda>x. x = c) (rev s))"

text \<open>\<open>str::trim\<close> on the ASCII white space a header value can hold.\<close>

definition is_ws :: "char \<Rightarrow> bool" where
  "is_ws c \<longleftrightarrow> c = CHR '' '' \<or> (9 \<le> (of_char c :: nat) \<and> (of_char c :: nat) \<le> 13)"

definition trim_ws :: "string \<Rightarrow> string" where
  "trim_ws s = rev (dropWhile is_ws (rev (dropWhile is_ws s)))"

lemma trim_end_matches_decomp: "\<exists>n. s = trim_end_matches c s @ replicate n c"
proof -
  have "rev s = takeWhile (\<lambda>x. x = c) (rev s) @ dropWhile (\<lambda>x. x = c) (rev s)" by simp
  moreover have "takeWhile (\<lambda>x. x = c) (rev s)
      = replicate (length (takeWhile (\<lambda>x. x = c) (rev s))) c"
    by (metis (mono_tags, lifting) replicate_length_same set_takeWhileD)
  ultimately have "s = rev (dropWhile (\<lambda>x. x = c) (rev s))
      @ replicate (length (takeWhile (\<lambda>x. x = c) (rev s))) c"
    by (metis rev_append rev_replicate rev_rev_ident)
  then show ?thesis unfolding trim_end_matches_def by blast
qed

lemma trim_end_matches_not_end: "\<not> ends_with (trim_end_matches c s) [c]"
  using hd_dropWhile [of "\<lambda>x. x = c" "rev s"]
  by (auto simp: ends_with_single trim_end_matches_def last_rev simp del: dropWhile_eq_Nil_conv)

lemma trim_end_matches_id: "\<not> ends_with s [c] \<Longrightarrow> trim_end_matches c s = s"
  by (cases s rule: rev_cases) (auto simp: trim_end_matches_def ends_with_single)

lemma trim_end_matches_snoc [simp]: "trim_end_matches c (s @ [c]) = trim_end_matches c s"
  by (simp add: trim_end_matches_def)

lemma trim_end_matches_Nil [simp]: "trim_end_matches c [] = []"
  by (simp add: trim_end_matches_def)

lemma trim_end_matches_idem [simp]:
  "trim_end_matches c (trim_end_matches c s) = trim_end_matches c s"
  by (rule trim_end_matches_id, rule trim_end_matches_not_end)

lemma trim_start_matches_Nil [simp]: "trim_start_matches c [] = []"
  by (simp add: trim_start_matches_def)

lemma trim_start_matches_Cons [simp]:
  "trim_start_matches c (x # s) = (if x = c then trim_start_matches c s else x # s)"
  by (simp add: trim_start_matches_def)

lemma trim_start_matches_id: "\<not> starts_with s [c] \<Longrightarrow> trim_start_matches c s = s"
  by (cases s) auto

subsection \<open>Splitting and joining\<close>

fun split_on :: "'a \<Rightarrow> 'a list \<Rightarrow> 'a list list" where
  "split_on c [] = [[]]"
| "split_on c (x # xs) =
     (if x = c then [] # split_on c xs
      else (case split_on c xs of [] \<Rightarrow> [[x]] | p # ps \<Rightarrow> (x # p) # ps))"

fun join_with :: "'a list \<Rightarrow> 'a list list \<Rightarrow> 'a list" where
  "join_with sep [] = []"
| "join_with sep [x] = x"
| "join_with sep (x # y # zs) = x @ sep @ join_with sep (y # zs)"

fun split_once :: "'a \<Rightarrow> 'a list \<Rightarrow> ('a list \<times> 'a list) option" where
  "split_once c [] = None"
| "split_once c (x # xs) =
     (if x = c then Some ([], xs)
      else map_option (\<lambda>(a, b). (x # a, b)) (split_once c xs))"

fun splitn :: "nat \<Rightarrow> 'a \<Rightarrow> 'a list \<Rightarrow> 'a list list" where
  "splitn 0 c s = []"
| "splitn (Suc 0) c s = [s]"
| "splitn (Suc (Suc n)) c s =
     (case split_once c s of None \<Rightarrow> [s] | Some (a, b) \<Rightarrow> a # splitn (Suc n) c b)"

text \<open>The first occurrence of a pattern: Rust's \<open>find\<close>, as the text before and after it.\<close>

fun split_once_str :: "'a list \<Rightarrow> 'a list \<Rightarrow> ('a list \<times> 'a list) option" where
  "split_once_str p [] = (if p = [] then Some ([], []) else None)"
| "split_once_str p (x # xs) =
     (case strip_prefix p (x # xs) of
        Some r \<Rightarrow> Some ([], r)
      | None \<Rightarrow> map_option (\<lambda>(a, b). (x # a, b)) (split_once_str p xs))"

lemma split_on_not_Nil [simp]: "split_on c s \<noteq> []"
  by (induction s) (auto split: list.splits)

lemma split_on_append:
  "c \<notin> set p \<Longrightarrow> split_on c (p @ c # s) = p # split_on c s"
  by (induction p) auto

lemma split_on_no_sep: "c \<notin> set p \<Longrightarrow> split_on c p = [p]"
  by (induction p) auto

lemma split_on_pieces: "p \<in> set (split_on c s) \<Longrightarrow> c \<notin> set p"
  by (induction s arbitrary: p) (auto split: list.splits if_splits)

lemma join_with_split_on [simp]: "join_with [c] (split_on c s) = s"
proof (induction s)
  case (Cons x xs)
  show ?case
  proof (cases "split_on c xs")
    case Nil
    then show ?thesis by simp
  next
    case (Cons p ps)
    with Cons.IH show ?thesis by (cases ps) auto
  qed
qed simp

lemma split_on_join_with:
  "xs \<noteq> [] \<Longrightarrow> (\<And>x. x \<in> set xs \<Longrightarrow> c \<notin> set x) \<Longrightarrow> split_on c (join_with [c] xs) = xs"
  by (induction xs rule: induct_list012) (auto simp: split_on_no_sep split_on_append)

lemma split_once_Some:
  "split_once c s = Some (a, b) \<longleftrightarrow> s = a @ c # b \<and> c \<notin> set a"
proof (induction s arbitrary: a)
  case (Cons x xs)
  then show ?case by (cases a) auto
qed simp

lemma split_once_None: "split_once c s = None \<longleftrightarrow> c \<notin> set s"
  by (induction s) auto

lemma split_once_append [simp]: "c \<notin> set a \<Longrightarrow> split_once c (a @ c # b) = Some (a, b)"
  by (simp add: split_once_Some)

lemma splitn_3_iff:
  "splitn 3 c s = [a, b, d] \<longleftrightarrow> s = a @ c # b @ c # d \<and> c \<notin> set a \<and> c \<notin> set b"
proof
  assume "s = a @ c # b @ c # d \<and> c \<notin> set a \<and> c \<notin> set b"
  then show "splitn 3 c s = [a, b, d]" by (simp add: numeral_3_eq_3)
qed (auto simp: numeral_3_eq_3 split_once_Some split: option.splits)

lemma splitn_length: "length (splitn n c s) \<le> n"
  by (induction n c s rule: splitn.induct) (auto split: option.splits)

lemma splitn_join: "0 < n \<Longrightarrow> join_with [c] (splitn n c s) = s"
proof (induction n c s rule: splitn.induct)
  case (3 n c s)
  show ?case
  proof (cases "split_once c s")
    case None
    then show ?thesis by simp
  next
    case (Some ab)
    obtain a b where ab: "ab = (a, b)" by (cases ab)
    with Some have s: "s = a @ c # b" by (simp add: split_once_Some)
    from 3 Some ab have "join_with [c] (splitn (Suc n) c b) = b" by simp
    moreover have "splitn (Suc n) c b \<noteq> []"
      by (cases n) (auto split: option.splits)
    ultimately show ?thesis using Some ab s
      by (cases "splitn (Suc n) c b") auto
  qed
qed auto

lemma splitn_butlast_pieces: "p \<in> set (butlast (splitn n c s)) \<Longrightarrow> c \<notin> set p"
proof (induction n c s rule: splitn.induct)
  case (3 n c s)
  show ?case
  proof (cases "split_once c s")
    case None
    with "3.prems" show ?thesis by simp
  next
    case (Some ab)
    obtain a b where ab: "ab = (a, b)" by (cases ab)
    with Some "3.prems" have "p = a \<or> p \<in> set (butlast (splitn (Suc n) c b))"
      by (auto split: if_splits)
    with "3.IH" [OF Some ab [symmetric]] Some ab show ?thesis by (auto simp: split_once_Some)
  qed
qed auto

text \<open>Fewer pieces than asked for: the text ran out of separators.\<close>

lemma splitn_short: "length (splitn n c s) < n \<Longrightarrow> p \<in> set (splitn n c s) \<Longrightarrow> c \<notin> set p"
proof (induction n c s rule: splitn.induct)
  case (3 n c s)
  show ?case
  proof (cases "split_once c s")
    case None
    with "3.prems" show ?thesis by (simp add: split_once_None)
  next
    case (Some ab)
    obtain a b where ab: "ab = (a, b)" by (cases ab)
    with Some "3.prems" have "p = a \<or> p \<in> set (splitn (Suc n) c b)"
      "length (splitn (Suc n) c b) < Suc n" by auto
    with "3.IH" [OF Some ab [symmetric]] Some ab show ?thesis by (auto simp: split_once_Some)
  qed
qed auto

lemma join_with_append:
  "xs \<noteq> [] \<Longrightarrow> ys \<noteq> [] \<Longrightarrow> join_with sep (xs @ ys) = join_with sep xs @ sep @ join_with sep ys"
  by (induction xs rule: induct_list012) (cases ys; simp)+

lemma split_once_str_sound:
  "split_once_str p s = Some (a, b) \<Longrightarrow> s = a @ p @ b"
proof (induction s arbitrary: a)
  case Nil
  then show ?case by (auto split: if_splits)
next
  case (Cons x xs)
  show ?case
  proof (cases "strip_prefix p (x # xs)")
    case None
    with Cons show ?thesis by auto
  next
    case (Some r)
    with Cons.prems show ?thesis by auto
  qed
qed

lemma split_once_str_None: "split_once_str p s = None \<Longrightarrow> s \<noteq> a @ p @ b"
proof (induction s arbitrary: a)
  case Nil
  then show ?case by (auto split: if_splits)
next
  case (Cons x xs)
  then have n: "strip_prefix p (x # xs) = None" and r: "split_once_str p xs = None"
    by (auto split: option.splits)
  show ?case
  proof (cases a)
    case Nil
    with n show ?thesis by (metis append_Nil option.distinct(1) strip_prefix_append)
  next
    case (Cons y ys)
    with Cons.IH [OF r] show ?thesis by auto
  qed
qed

text \<open>The leftmost occurrence is at least as far left as any other.\<close>

lemma split_once_str_leftmost:
  "split_once_str p s = Some (a, b) \<Longrightarrow> s = a' @ p @ b' \<Longrightarrow> length a \<le> length a'"
proof (induction s arbitrary: a a')
  case Nil
  then show ?case by (auto split: if_splits)
next
  case (Cons x xs)
  show ?case
  proof (cases "strip_prefix p (x # xs)")
    case (Some r)
    with Cons.prems(1) have "a = []" by (simp del: strip_prefix_eq_Some)
    then show ?thesis by simp
  next
    case None
    with Cons.prems(1) obtain c where c: "split_once_str p xs = Some (c, b)" "a = x # c"
      by (auto simp del: strip_prefix_eq_Some)
    from None Cons.prems(2) obtain d where d: "a' = x # d" "xs = d @ p @ b'"
      by (cases a') (auto simp del: strip_prefix_eq_Some)
    show ?thesis using Cons.IH [OF c(1) d(2)] c d by simp
  qed
qed

lemma split_once_str_first:
  "c \<notin> set a \<Longrightarrow> split_once_str (c # p) (a @ c # p @ b) = Some (a, b)"
  by (induction a) auto

lemma split_once_str_absent: "c \<notin> set a \<Longrightarrow> split_once_str (c # p) a = None"
  by (induction a) auto

text \<open>
  \<open>str::chars\<close> as the groups of bytes that make one scalar value each (a byte in
  \<open>0x80..0xBF\<close> continues the character before it), and \<open>str::split\<close> by a string pattern;
  the empty pattern matches at every character boundary.
\<close>

definition is_continuation :: "char \<Rightarrow> bool" where
  "is_continuation c \<longleftrightarrow> 128 \<le> (of_char c :: nat) \<and> (of_char c :: nat) < 192"

fun utf8_chars :: "string \<Rightarrow> string list" where
  "utf8_chars [] = []"
| "utf8_chars (c # cs) =
     (case utf8_chars cs of
        (d # ds) # gs \<Rightarrow> if is_continuation d then (c # d # ds) # gs else [c] # (d # ds) # gs
      | gs \<Rightarrow> [c] # gs)"

function split_str :: "string \<Rightarrow> string \<Rightarrow> string list" where
  "split_str sep s =
     (if sep = [] then [] # utf8_chars s @ [[]]
      else (case split_once_str sep s of
              None \<Rightarrow> [s]
            | Some (a, b) \<Rightarrow> a # split_str sep b))"
  by pat_completeness auto
termination
  by (relation "measure (\<lambda>(sep, s). length s)") (auto dest!: split_once_str_sound)

declare split_str.simps [simp del]

lemma split_str_append:
  "c \<notin> set a \<Longrightarrow> split_str (c # p) (a @ c # p @ b) = a # split_str (c # p) b"
  by (subst split_str.simps) (simp add: split_once_str_first)

lemma split_str_absent: "c \<notin> set a \<Longrightarrow> split_str (c # p) a = [a]"
  by (subst split_str.simps) (simp add: split_once_str_absent)

lemma join_with_split_str: "sep \<noteq> [] \<Longrightarrow> join_with sep (split_str sep s) = s"
proof (induction sep s rule: split_str.induct)
  case (1 sep s)
  show ?case
  proof (cases "split_once_str sep s")
    case None
    with "1.prems" show ?thesis by (simp add: split_str.simps [of sep s])
  next
    case (Some ab)
    obtain a b where ab: "ab = (a, b)" by (cases ab)
    from Some ab have s: "s = a @ sep @ b" by (simp add: split_once_str_sound)
    from 1 Some ab have "join_with sep (split_str sep b) = b" by simp
    moreover have "split_str sep b \<noteq> []"
      by (subst split_str.simps) (auto split: option.splits)
    ultimately have "join_with sep (a # split_str sep b) = a @ sep @ b"
      by (cases "split_str sep b") auto
    moreover have "split_str sep s = a # split_str sep b"
      using Some ab "1.prems" by (simp add: split_str.simps [of sep s])
    ultimately show ?thesis using s by (simp only:)
  qed
qed

lemma split_str_join_with:
  "xs \<noteq> [] \<Longrightarrow> (\<And>x. x \<in> set xs \<Longrightarrow> c \<notin> set x) \<Longrightarrow> split_str (c # p) (join_with (c # p) xs) = xs"
  by (induction xs rule: induct_list012) (auto simp: split_str_absent split_str_append)

subsection \<open>Numbers as text\<close>

definition digit_char :: "nat \<Rightarrow> char" where
  "digit_char d = char_of (48 + d)"

fun nat_to_string :: "nat \<Rightarrow> string" where
  "nat_to_string n =
     (if n < 10 then [digit_char n] else nat_to_string (n div 10) @ [digit_char (n mod 10)])"

declare nat_to_string.simps [simp del]

definition is_digit :: "char \<Rightarrow> bool" where
  "is_digit c \<longleftrightarrow> 48 \<le> (of_char c :: nat) \<and> (of_char c :: nat) \<le> 57"

fun digits_value :: "nat \<Rightarrow> string \<Rightarrow> nat option" where
  "digits_value acc [] = Some acc"
| "digits_value acc (c # cs) =
     (if is_digit c then digits_value (acc * 10 + ((of_char c :: nat) - 48)) cs else None)"

text \<open>
  Rust's \<open>str::parse\<close> for an unsigned integer type below \<open>bound\<close>: an optional \<open>+\<close>, at
  least one digit, and an error on overflow.
\<close>

definition parse_unsigned :: "nat \<Rightarrow> string \<Rightarrow> nat option" where
  "parse_unsigned bound s =
     (let ds = (case s of c # cs \<Rightarrow> if c = CHR ''+'' then cs else s | [] \<Rightarrow> [])
      in if ds = [] then None
         else (case digits_value 0 ds of
                 Some v \<Rightarrow> if v < bound then Some v else None
               | None \<Rightarrow> None))"

definition parse_u64 :: "string \<Rightarrow> u64 option" where
  "parse_u64 s = map_option of_nat (parse_unsigned (2 ^ 64) s)"

definition parse_u32 :: "string \<Rightarrow> u32 option" where
  "parse_u32 s = map_option of_nat (parse_unsigned (2 ^ 32) s)"

lemma is_digit_digit_char [simp]: "d < 10 \<Longrightarrow> is_digit (digit_char d)"
  by (simp add: is_digit_def digit_char_def)

lemma of_char_digit_char: "d < 10 \<Longrightarrow> (of_char (digit_char d) :: nat) = 48 + d"
  by (simp add: digit_char_def)

lemma digits_value_append:
  "digits_value acc (xs @ ys) = Option.bind (digits_value acc xs) (\<lambda>a. digits_value a ys)"
  by (induction acc xs rule: digits_value.induct) auto

lemma digits_value_nat_to_string: "digits_value 0 (nat_to_string n) = Some n"
proof (induction n rule: nat_to_string.induct)
  case (1 n)
  show ?case
  proof (cases "n < 10")
    case True
    then show ?thesis
      by (subst nat_to_string.simps) (simp add: of_char_digit_char)
  next
    case False
    with 1 show ?thesis
      by (subst nat_to_string.simps) (simp add: digits_value_append of_char_digit_char)
  qed
qed

lemma nat_to_string_digits: "c \<in> set (nat_to_string n) \<Longrightarrow> is_digit c"
proof (induction n arbitrary: c rule: nat_to_string.induct)
  case (1 n)
  show ?case
  proof (cases "n < 10")
    case True
    with "1.prems" show ?thesis by (subst (asm) nat_to_string.simps) auto
  next
    case False
    with 1 show ?thesis by (subst (asm) (2) nat_to_string.simps) auto
  qed
qed

lemma nat_to_string_not_Nil [simp]: "nat_to_string n \<noteq> []"
  by (subst nat_to_string.simps) simp

lemma parse_unsigned_nat_to_string: "n < b \<Longrightarrow> parse_unsigned b (nat_to_string n) = Some n"
proof -
  assume "n < b"
  obtain d ds where ds: "nat_to_string n = d # ds"
    by (cases "nat_to_string n") auto
  then have "is_digit d" using nat_to_string_digits [of d n] by simp
  then have "d \<noteq> CHR ''+''" by (auto simp: is_digit_def)
  moreover have "digits_value 0 (d # ds) = Some n"
    using digits_value_nat_to_string [of n] ds by simp
  ultimately show ?thesis using \<open>n < b\<close>
    by (simp add: parse_unsigned_def ds del: digits_value.simps)
qed

subsection \<open>ASCII case\<close>

definition ascii_lower :: "char \<Rightarrow> char" where
  "ascii_lower c =
     (if 65 \<le> (of_char c :: nat) \<and> (of_char c :: nat) \<le> 90 then char_of ((of_char c :: nat) + 32) else c)"

definition eq_ignore_ascii_case :: "string \<Rightarrow> string \<Rightarrow> bool" where
  "eq_ignore_ascii_case a b \<longleftrightarrow> map ascii_lower a = map ascii_lower b"

definition is_ascii_alphanumeric :: "char \<Rightarrow> bool" where
  "is_ascii_alphanumeric c \<longleftrightarrow>
     (let n = (of_char c :: nat) in
      (48 \<le> n \<and> n \<le> 57) \<or> (65 \<le> n \<and> n \<le> 90) \<or> (97 \<le> n \<and> n \<le> 122))"

subsection \<open>Header maps\<close>

text \<open>
  An \<open>http::HeaderMap\<close> as the list of (lower-case name, value) pairs its iterator yields.
  A value is a byte string; \<open>HeaderValue::to_str\<close> succeeds on visible ASCII and tabs only.
\<close>

definition hv_to_str :: "string \<Rightarrow> string option" where
  "hv_to_str v =
     (if list_all (\<lambda>c. (32 \<le> (of_char c :: nat) \<and> (of_char c :: nat) < 127) \<or> (of_char c :: nat) = 9) v
      then Some v else None)"

definition hm_get :: "header_map \<Rightarrow> string \<Rightarrow> string option" where
  "hm_get h n = map_of h (map ascii_lower n)"

definition hm_contains :: "header_map \<Rightarrow> string \<Rightarrow> bool" where
  "hm_contains h n = (hm_get h n \<noteq> None)"

definition hm_str :: "header_map \<Rightarrow> string \<Rightarrow> string option" where
  "hm_str h n = Option.bind (hm_get h n) hv_to_str"

text \<open>\<open>HeaderMap::insert\<close>: the name keeps one value, in the place of its first one.\<close>

fun hm_insert :: "string \<Rightarrow> string \<Rightarrow> header_map \<Rightarrow> header_map" where
  "hm_insert n v [] = [(n, v)]"
| "hm_insert n v ((m, w) # h) =
     (if m = n then (n, v) # filter (\<lambda>(k, _). k \<noteq> n) h else (m, w) # hm_insert n v h)"

lemma map_of_filter_ne:
  "map_of (filter (\<lambda>(k, _). k \<noteq> n) h) m = (if m = n then None else map_of h m)"
  by (induction h) auto

lemma map_of_hm_insert [hdr_simps]: "map_of (hm_insert n v h) = (map_of h)(n \<mapsto> v)"
  by (induction n v h rule: hm_insert.induct) (auto simp: map_of_filter_ne fun_eq_iff)

lemma fst_hm_insert [hdr_simps]: "fst ` set (hm_insert n v h) = insert n (fst ` set h)"
  by (induction n v h rule: hm_insert.induct) force+

lemma distinct_hm_insert [hdr_simps]:
  "distinct (map fst h) \<Longrightarrow> distinct (map fst (hm_insert n v h))"
proof (induction n v h rule: hm_insert.induct)
  case (2 n v m w h)
  then show ?case
    by (auto simp: distinct_map_filter) (metis fst_conv fst_hm_insert image_eqI insert_iff list.set_map)+
qed simp

lemma set_hm_insert: "set (hm_insert n v h) \<subseteq> insert (n, v) (set h)"
  by (induction n v h rule: hm_insert.induct) auto

text \<open>\<open>HeaderValue::from_str\<close> accepts a tab and every byte from 32 on but DEL.\<close>

definition hv_valid :: "string \<Rightarrow> bool" where
  "hv_valid v =
     list_all (\<lambda>c. (32 \<le> (of_char c :: nat) \<and> (of_char c :: nat) \<noteq> 127) \<or> (of_char c :: nat) = 9) v"

lemma hv_valid_append [simp]: "hv_valid (a @ b) \<longleftrightarrow> hv_valid a \<and> hv_valid b"
  by (simp add: hv_valid_def)

lemma hv_valid_Nil [simp]: "hv_valid []"
  by (simp add: hv_valid_def)

lemma hv_valid_join:
  "(\<And>x. x \<in> set xs \<Longrightarrow> hv_valid x) \<Longrightarrow> hv_valid sep \<Longrightarrow> hv_valid (join_with sep xs)"
  by (induction sep xs rule: join_with.induct) simp_all

definition hm_keys :: "header_map \<Rightarrow> string list" where
  "hm_keys h = remdups (map fst h)"

definition lower_names :: "header_map \<Rightarrow> bool" where
  "lower_names h \<longleftrightarrow> (\<forall>n \<in> fst ` set h. map ascii_lower n = n)"

lemma lower_names_insert [hdr_simps]:
  "map ascii_lower n = n \<Longrightarrow> lower_names h \<Longrightarrow> lower_names (hm_insert n v h)"
  by (auto simp: lower_names_def fst_hm_insert)

lemma hm_get_insert [hdr_simps]:
  "hm_get (hm_insert n v h) m = (if map ascii_lower m = n then Some v else hm_get h m)"
  by (simp add: hm_get_def map_of_hm_insert)

lemma set_hm_keys [hdr_simps]: "set (hm_keys h) = fst ` set h"
  by (simp add: hm_keys_def)

subsection \<open>Results\<close>

definition map_error :: "('e \<Rightarrow> 'f) \<Rightarrow> 'e + 'a \<Rightarrow> 'f + 'a" where
  "map_error f r = (case r of Inl e \<Rightarrow> Inl (f e) | Inr a \<Rightarrow> Inr a)"

definition ok_or :: "'e \<Rightarrow> 'a option \<Rightarrow> 'e + 'a" where
  "ok_or e x = (case x of None \<Rightarrow> Inl e | Some a \<Rightarrow> Inr a)"

definition the_or :: "'a \<Rightarrow> 'a option \<Rightarrow> 'a" where
  "the_or d x = (case x of None \<Rightarrow> d | Some a \<Rightarrow> a)"

lemma ok_or_simps [simp]: "ok_or e None = Inl e" "ok_or e (Some a) = Inr a"
  by (simp_all add: ok_or_def)

lemma the_or_simps [simp]: "the_or d None = d" "the_or d (Some a) = a"
  by (simp_all add: the_or_def)

lemma ok_or_eq_Inr [simp]: "ok_or e x = Inr a \<longleftrightarrow> x = Some a"
  by (cases x) auto

lemma map_error_simps [simp]: "map_error f (Inl e) = Inl (f e)" "map_error f (Inr a) = Inr a"
  by (simp_all add: map_error_def)

lemma map_error_eq_Inr [simp]: "map_error f r = Inr a \<longleftrightarrow> r = Inr a"
  by (cases r) auto

lemma find_Some_iff_first:
  "List.find P xs = Some x \<Longrightarrow> x \<in> set xs \<and> P x"
  by (induction xs) (auto split: if_splits)

lemma find_None_iff_all: "List.find P xs = None \<longleftrightarrow> (\<forall>x \<in> set xs. \<not> P x)"
  by (induction xs) auto

subsection \<open>Parameters with repeated names\<close>

text \<open>The values a list of pairs gives one name, in order.\<close>

definition values_of :: "string \<Rightarrow> (string \<times> 'a) list \<Rightarrow> 'a list" where
  "values_of k ps = map snd (filter (\<lambda>(k', _). k' = k) ps)"

lemma values_of_Cons [simp]: "values_of k ((k', v) # ps) = (if k' = k then v # values_of k ps else values_of k ps)"
  by (simp add: values_of_def)

lemma values_of_Nil [simp]: "values_of k [] = []"
  by (simp add: values_of_def)

lemma values_of_append [simp]: "values_of k (ps @ qs) = values_of k ps @ values_of k qs"
  by (simp add: values_of_def)

lemma values_of_Nil_iff: "values_of k ps = [] \<longleftrightarrow> k \<notin> fst ` set ps"
  by (force simp: values_of_def filter_empty_conv)

end
