(* ===== verification/Types.thy ===== *)
theory Types
  imports Prelude
begin

text \<open>
  The data the whole gateway shares: \<open>crates/core/src/types.rs\<close> (bucket, role and credential
  configuration, actions, access scopes, the parsed \<open>S3Operation\<close>) and
  \<open>crates/core/src/error.rs\<close> (the error type, its S3 code, HTTP status and safe message).
  A \<open>HashMap\<close> is a partial function, a \<open>DateTime<Utc>\<close> a number of nanoseconds.
\<close>

subsection \<open>Errors (error.rs)\<close>

datatype proxy_error =
    BucketNotFound string
  | NoSuchKey string
  | AccessDenied
  | SignatureDoesNotMatch
  | InvalidRequest string
  | MalformedXml string
  | NotImplemented string
  | EntityTooLarge
  | MissingAuth
  | ExpiredCredentials
  | InvalidOidcToken string
  | RoleNotFound string
  | BackendError string
  | BackendAuthError string
  | PreconditionFailed
  | NotModified
  | ConfigError string
  | Internal string

fun display_error :: "proxy_error \<Rightarrow> string" where
  "display_error (BucketNotFound m) = ''bucket not found: '' @ m"
| "display_error (NoSuchKey m) = ''no such key: '' @ m"
| "display_error AccessDenied = ''access denied''"
| "display_error SignatureDoesNotMatch = ''signature mismatch''"
| "display_error (InvalidRequest m) = ''invalid request: '' @ m"
| "display_error (MalformedXml m) = ''malformed XML: '' @ m"
| "display_error (NotImplemented m) = ''not implemented: '' @ m"
| "display_error EntityTooLarge = ''entity too large''"
| "display_error MissingAuth = ''missing authentication''"
| "display_error ExpiredCredentials = ''expired credentials''"
| "display_error (InvalidOidcToken m) = ''invalid OIDC token: '' @ m"
| "display_error (RoleNotFound m) = ''role not found: '' @ m"
| "display_error (BackendError m) = ''backend error: '' @ m"
| "display_error (BackendAuthError m) = ''backend authentication failed: '' @ m"
| "display_error PreconditionFailed = ''precondition failed''"
| "display_error NotModified = ''not modified''"
| "display_error (ConfigError m) = ''config error: '' @ m"
| "display_error (Internal m) = ''internal error: '' @ m"

fun s3_error_code :: "proxy_error \<Rightarrow> string" where
  "s3_error_code (BucketNotFound _) = ''NoSuchBucket''"
| "s3_error_code (NoSuchKey _) = ''NoSuchKey''"
| "s3_error_code AccessDenied = ''AccessDenied''"
| "s3_error_code SignatureDoesNotMatch = ''SignatureDoesNotMatch''"
| "s3_error_code (InvalidRequest _) = ''InvalidRequest''"
| "s3_error_code (MalformedXml _) = ''MalformedXML''"
| "s3_error_code (NotImplemented _) = ''NotImplemented''"
| "s3_error_code EntityTooLarge = ''EntityTooLarge''"
| "s3_error_code MissingAuth = ''AccessDenied''"
| "s3_error_code ExpiredCredentials = ''ExpiredToken''"
| "s3_error_code (InvalidOidcToken _) = ''InvalidIdentityToken''"
| "s3_error_code (RoleNotFound _) = ''AccessDenied''"
| "s3_error_code (BackendError _) = ''ServiceUnavailable''"
| "s3_error_code (BackendAuthError _) = ''BackendAuthenticationFailed''"
| "s3_error_code PreconditionFailed = ''PreconditionFailed''"
| "s3_error_code NotModified = ''NotModified''"
| "s3_error_code (ConfigError _) = ''InternalError''"
| "s3_error_code (Internal _) = ''InternalError''"

fun status_code :: "proxy_error \<Rightarrow> nat" where
  "status_code (BucketNotFound _) = 404"
| "status_code (NoSuchKey _) = 404"
| "status_code AccessDenied = 403"
| "status_code MissingAuth = 403"
| "status_code ExpiredCredentials = 403"
| "status_code SignatureDoesNotMatch = 403"
| "status_code (InvalidRequest _) = 400"
| "status_code (MalformedXml _) = 400"
| "status_code (NotImplemented _) = 501"
| "status_code EntityTooLarge = 400"
| "status_code (InvalidOidcToken _) = 400"
| "status_code (RoleNotFound _) = 403"
| "status_code PreconditionFailed = 412"
| "status_code NotModified = 304"
| "status_code (BackendError _) = 503"
| "status_code (BackendAuthError _) = 502"
| "status_code (ConfigError _) = 500"
| "status_code (Internal _) = 500"

fun safe_message :: "proxy_error \<Rightarrow> string" where
  "safe_message (BackendError _) = ''Service unavailable''"
| "safe_message (ConfigError _) = ''Internal server error''"
| "safe_message (Internal _) = ''Internal server error''"
| "safe_message (BackendAuthError code) = ''Failed to obtain backend credentials: '' @ code"
| "safe_message other = display_error other"

text \<open>
  \<open>object_store::Error\<close>: the variants the code matches on, and every other one by its
  \<open>to_string()\<close>.
\<close>

datatype object_store_error =
    OsNotFound string
  | OsPrecondition
  | OsNotModified
  | OsOther string

fun from_object_store_error :: "object_store_error \<Rightarrow> proxy_error" where
  "from_object_store_error (OsNotFound path) = NoSuchKey path"
| "from_object_store_error OsPrecondition = PreconditionFailed"
| "from_object_store_error OsNotModified = NotModified"
| "from_object_store_error (OsOther m) = BackendError m"

text \<open>
  What a fallible function that may also panic (\<open>unwrap\<close>, \<open>expect\<close>) comes to.
\<close>

datatype 'a outcome = Ok 'a | Err proxy_error | Panic

fun of_result :: "proxy_error + 'a \<Rightarrow> 'a outcome" where
  "of_result (Inl e) = Err e"
| "of_result (Inr a) = Ok a"

fun outcome_bind :: "'a outcome \<Rightarrow> ('a \<Rightarrow> 'b outcome) \<Rightarrow> 'b outcome" where
  "outcome_bind (Ok a) f = f a"
| "outcome_bind (Err e) f = Err e"
| "outcome_bind Panic f = Panic"

lemma outcome_bind_eq_Ok [simp]: "outcome_bind x f = Ok b \<longleftrightarrow> (\<exists>a. x = Ok a \<and> f a = Ok b)"
  by (cases x) auto

lemma of_result_eq [simp]:
  "of_result r = Ok a \<longleftrightarrow> r = Inr a"
  "of_result r = Err e \<longleftrightarrow> r = Inl e"
  "of_result r \<noteq> Panic"
  by (cases r; auto)+

subsection \<open>Bucket configuration\<close>

datatype backend_type = S3 | Azure | Gcs

fun backend_type_str :: "backend_type \<Rightarrow> string" where
  "backend_type_str S3 = ''s3''"
| "backend_type_str Azure = ''azure''"
| "backend_type_str Gcs = ''gcs''"

definition backend_type_from_str :: "string \<Rightarrow> proxy_error + backend_type" where
  "backend_type_from_str s =
     (if s = ''s3'' then Inr S3
      else if s = ''az'' \<or> s = ''azure'' then Inr Azure
      else if s = ''gcs'' \<or> s = ''gs'' then Inr Gcs
      else Inl (ConfigError
        (''unsupported backend_type: '' @ [CHR 0x27] @ s @ [CHR 0x27] @ '' (expected s3, azure, or gcs)'')))"

record bucket_owner =
  owner_id :: string
  owner_display_name :: string

record bucket_config =
  bc_name :: string
  bc_backend_type :: backend_type
  bc_backend_prefix :: "string option"
  bc_anonymous_access :: bool
  bc_allowed_roles :: "string list"
  bc_backend_options :: "string \<rightharpoonup> string"

definition redacted_option_keys :: "string list" where
  "redacted_option_keys = [''secret_access_key'', ''access_key'', ''service_account_key'', ''token'']"

text \<open>The options as \<open>Debug\<close> prints them.\<close>

definition redacted_options :: "bucket_config \<Rightarrow> string \<rightharpoonup> string" where
  "redacted_options c = (\<lambda>k. map_option
     (\<lambda>v. if k \<in> set redacted_option_keys then ''[REDACTED]'' else v) (bc_backend_options c k))"

definition is_s3_backend :: "bucket_config \<Rightarrow> bool" where
  "is_s3_backend c \<longleftrightarrow> bc_backend_type c = S3"

definition bc_option :: "bucket_config \<Rightarrow> string \<Rightarrow> string option" where
  "bc_option c k = bc_backend_options c k"

subsection \<open>Actions, scopes, roles and credentials\<close>

datatype action =
    ActGetObject
  | ActGetObjectVersion
  | ActHeadObject
  | ActPutObject
  | ActListBucket
  | ActCreateMultipartUpload
  | ActUploadPart
  | ActCompleteMultipartUpload
  | ActAbortMultipartUpload
  | ActDeleteObject

record access_scope =
  sc_bucket :: string
  sc_prefixes :: "string list"
  sc_actions :: "action list"

record role_config =
  role_id :: string
  role_name :: string
  trusted_oidc_issuers :: "string list"
  required_audiences :: "string list"
  subject_conditions :: "string list"
  allow_missing_exp_from :: "string list"
  role_allowed_scopes :: "access_scope list"
  max_session_duration_secs :: u64

text \<open>What the audience key of a role holds when it is read: absent or \<open>null\<close>, one string, a list.\<close>

datatype one_or_many = One string | Many "string list"

fun deserialize_audiences :: "one_or_many option \<Rightarrow> string list" where
  "deserialize_audiences None = []"
| "deserialize_audiences (Some (One s)) = [s]"
| "deserialize_audiences (Some (Many v)) = v"

record stored_credential =
  cred_access_key_id :: string
  cred_secret_access_key :: string
  cred_principal_name :: string
  cred_allowed_scopes :: "access_scope list"
  cred_created_at :: int
  cred_expires_at :: "int option"
  cred_enabled :: bool

record temporary_credentials =
  tc_access_key_id :: string
  tc_secret_access_key :: string
  tc_session_token :: string
  tc_expiration :: int
  tc_allowed_scopes :: "access_scope list"
  tc_assumed_role_id :: string
  tc_source_identity :: string

record backend_credentials =
  be_access_key_id :: string
  be_secret_access_key :: string
  be_session_token :: string
  be_expiration :: int

definition apply_to :: "backend_credentials \<Rightarrow> bucket_config \<Rightarrow> bucket_config" where
  "apply_to cr c = c\<lparr>bc_backend_options := (bc_backend_options c)
     (''access_key_id'' \<mapsto> be_access_key_id cr,
      ''secret_access_key'' \<mapsto> be_secret_access_key cr,
      ''token'' \<mapsto> be_session_token cr,
      ''skip_signature'' := None)\<rparr>"

record authenticated_identity =
  principal_name :: string
  id_allowed_scopes :: "access_scope list"

datatype resolved_identity =
    Anonymous
  | Authenticated authenticated_identity

subsection \<open>Operations\<close>

datatype http_method = GET | HEAD | PUT | POST | DELETE | OtherMethod string

fun method_str :: "http_method \<Rightarrow> string" where
  "method_str GET = ''GET''"
| "method_str HEAD = ''HEAD''"
| "method_str PUT = ''PUT''"
| "method_str POST = ''POST''"
| "method_str DELETE = ''DELETE''"
| "method_str (OtherMethod m) = m"

datatype s3_operation =
    GetObject string string "string option"
  | HeadObject string string
  | PutObject string string
  | CreateMultipartUpload string string
  | UploadPart string string string u32
  | CompleteMultipartUpload string string string
  | AbortMultipartUpload string string string
  | DeleteObject string string
  | CopyObject string string string string "string option"
  | DeleteObjects string
  | ListBucket string "string option"
  | ListBuckets

fun op_method :: "s3_operation \<Rightarrow> http_method" where
  "op_method (GetObject _ _ _) = GET"
| "op_method (ListBucket _ _) = GET"
| "op_method ListBuckets = GET"
| "op_method (HeadObject _ _) = HEAD"
| "op_method (PutObject _ _) = PUT"
| "op_method (UploadPart _ _ _ _) = PUT"
| "op_method (CopyObject _ _ _ _ _) = PUT"
| "op_method (DeleteObject _ _) = DELETE"
| "op_method (AbortMultipartUpload _ _ _) = DELETE"
| "op_method (CreateMultipartUpload _ _) = POST"
| "op_method (CompleteMultipartUpload _ _ _) = POST"
| "op_method (DeleteObjects _) = POST"

fun op_action :: "s3_operation \<Rightarrow> action" where
  "op_action (GetObject _ _ None) = ActGetObject"
| "op_action (GetObject _ _ (Some _)) = ActGetObjectVersion"
| "op_action (HeadObject _ _) = ActHeadObject"
| "op_action (PutObject _ _) = ActPutObject"
| "op_action (CopyObject _ _ _ _ _) = ActPutObject"
| "op_action (ListBucket _ _) = ActListBucket"
| "op_action (CreateMultipartUpload _ _) = ActCreateMultipartUpload"
| "op_action (UploadPart _ _ _ _) = ActUploadPart"
| "op_action (CompleteMultipartUpload _ _ _) = ActCompleteMultipartUpload"
| "op_action (AbortMultipartUpload _ _ _) = ActAbortMultipartUpload"
| "op_action (DeleteObject _ _) = ActDeleteObject"
| "op_action (DeleteObjects _) = ActDeleteObject"
| "op_action ListBuckets = ActListBucket"

fun op_bucket :: "s3_operation \<Rightarrow> string option" where
  "op_bucket (GetObject b _ _) = Some b"
| "op_bucket (HeadObject b _) = Some b"
| "op_bucket (PutObject b _) = Some b"
| "op_bucket (ListBucket b _) = Some b"
| "op_bucket (CreateMultipartUpload b _) = Some b"
| "op_bucket (UploadPart b _ _ _) = Some b"
| "op_bucket (CompleteMultipartUpload b _ _) = Some b"
| "op_bucket (AbortMultipartUpload b _ _) = Some b"
| "op_bucket (DeleteObject b _) = Some b"
| "op_bucket (CopyObject b _ _ _ _) = Some b"
| "op_bucket (DeleteObjects b) = Some b"
| "op_bucket ListBuckets = None"

fun op_key :: "s3_operation \<Rightarrow> string" where
  "op_key (GetObject _ k _) = k"
| "op_key (HeadObject _ k) = k"
| "op_key (PutObject _ k) = k"
| "op_key (CreateMultipartUpload _ k) = k"
| "op_key (UploadPart _ k _ _) = k"
| "op_key (CompleteMultipartUpload _ k _) = k"
| "op_key (AbortMultipartUpload _ k _) = k"
| "op_key (CopyObject _ k _ _ _) = k"
| "op_key (DeleteObject _ k) = k"
| "op_key (ListBucket _ _) = ''''"
| "op_key ListBuckets = ''''"
| "op_key (DeleteObjects _) = ''''"

subsection \<open>Lemmas\<close>

lemma op_bucket_None_iff: "op_bucket op = None \<longleftrightarrow> op = ListBuckets"
  by (cases op) auto

lemma backend_type_roundtrip [simp]: "backend_type_from_str (backend_type_str b) = Inr b"
  by (cases b) (auto simp: backend_type_from_str_def)

lemma apply_to_options [simp]:
  "bc_option (apply_to cr c) ''access_key_id'' = Some (be_access_key_id cr)"
  "bc_option (apply_to cr c) ''secret_access_key'' = Some (be_secret_access_key cr)"
  "bc_option (apply_to cr c) ''token'' = Some (be_session_token cr)"
  "bc_option (apply_to cr c) ''skip_signature'' = None"
  by (simp_all add: apply_to_def bc_option_def)

lemma apply_to_frame [simp]:
  "bc_name (apply_to cr c) = bc_name c"
  "bc_backend_type (apply_to cr c) = bc_backend_type c"
  "bc_backend_prefix (apply_to cr c) = bc_backend_prefix c"
  "bc_anonymous_access (apply_to cr c) = bc_anonymous_access c"
  by (simp_all add: apply_to_def)

end
