(* ===== verification/RouteHandler.thy ===== *)
theory RouteHandler
  imports Types
begin

text \<open>
  \<open>crates/core/src/route_handler.rs\<close> and \<open>router.rs\<close>: what a handler may answer, the request
  as handlers see it, the response header filter, and routing.  A route handler is the
  function from the request to its answer; the \<open>matchit\<close> router is a pair of parameters
  (insertion, which fails on a conflict, and lookup).
\<close>

datatype proxy_response_body = BodyBytes string | BodyEmpty

definition body_from_bytes :: "string \<Rightarrow> proxy_response_body" where
  "body_from_bytes bytes = (if bytes = [] then BodyEmpty else BodyBytes bytes)"

record forward_request =
  fw_method :: http_method
  fw_url :: string
  fw_headers :: header_map
  fw_request_id :: string

definition should_bypass_cache :: "forward_request \<Rightarrow> bool" where
  "should_bypass_cache f \<longleftrightarrow> fw_method f = HEAD \<or> hm_contains (fw_headers f) ''range''"

definition accept_encoding :: "forward_request \<Rightarrow> string option" where
  "accept_encoding f =
     (if (fw_method f = GET \<or> fw_method f = HEAD) \<and> \<not> hm_contains (fw_headers f) ''range''
      then Some ''br, gzip'' else None)"

record proxy_result =
  pr_status :: nat
  pr_headers :: header_map
  pr_body :: proxy_response_body

definition json_result :: "nat \<Rightarrow> string \<Rightarrow> proxy_result" where
  "json_result status body =
     \<lparr>pr_status = status, pr_headers = [(''content-type'', ''application/json'')],
      pr_body = body_from_bytes body\<rparr>"

definition xml_result :: "nat \<Rightarrow> string \<Rightarrow> proxy_result" where
  "xml_result status body =
     \<lparr>pr_status = status, pr_headers = [(''content-type'', ''application/xml'')],
      pr_body = body_from_bytes body\<rparr>"

record pending_request =
  pd_operation :: s3_operation
  pd_bucket_config :: bucket_config
  pd_original_headers :: header_map
  pd_request_id :: string
  pd_identity :: resolved_identity

datatype handler_action =
    Response proxy_result
  | Forward forward_request
  | NeedsBody pending_request

subsection \<open>Filtering response headers\<close>

definition response_header_denylist :: "string list" where
  "response_header_denylist =
     [''transfer-encoding'', ''connection'', ''keep-alive'', ''proxy-connection'', ''te'',
      ''trailer'', ''upgrade'',
      ''proxy-authenticate'', ''proxy-authorization'', ''www-authenticate'', ''set-cookie'',
      ''forwarded'', ''x-forwarded-for'', ''x-forwarded-proto'', ''x-forwarded-host'',
      ''x-forwarded-port'', ''via'',
      ''x-amz-server-side-encryption-customer-key-md5'',
      ''x-amz-server-side-encryption-aws-kms-key-id'',
      ''x-ms-encryption-key-sha256'', ''x-goog-encryption-key-sha256'']"

definition filter_response_headers :: "header_map \<Rightarrow> header_map" where
  "filter_response_headers source =
     foldl (\<lambda>out (n, v). if n \<in> set response_header_denylist then out else hm_insert n v out)
       [] source"

subsection \<open>The request\<close>

type_synonym params = "(string \<times> string) list"

definition params_get :: "params \<Rightarrow> string \<Rightarrow> string option" where
  "params_get ps key = map_option snd (List.find (\<lambda>(k, _). k = key) ps)"

definition form_body_max_bytes :: nat where
  "form_body_max_bytes = 64 * 1024"

record request_info =
  ri_method :: http_method
  ri_path :: string
  ri_query :: "string option"
  ri_headers :: header_map
  ri_source_ip :: "string option"
  ri_params :: params
  ri_signing_path :: "string option"
  ri_signing_query :: "string option"
  ri_copy_source :: "string option"
  ri_form_body :: "string option"

definition new_request_info ::
  "http_method \<Rightarrow> string \<Rightarrow> string option \<Rightarrow> header_map \<Rightarrow> string option \<Rightarrow> request_info" where
  "new_request_info method path query headers source_ip =
     \<lparr>ri_method = method, ri_path = path, ri_query = query, ri_headers = headers,
      ri_source_ip = source_ip, ri_params = [], ri_signing_path = None,
      ri_signing_query = None, ri_copy_source = None, ri_form_body = None\<rparr>"

definition with_form_body :: "request_info \<Rightarrow> string option \<Rightarrow> request_info" where
  "with_form_body r b = r\<lparr>ri_form_body := b\<rparr>"

definition with_signing_path :: "request_info \<Rightarrow> string \<Rightarrow> request_info" where
  "with_signing_path r p = r\<lparr>ri_signing_path := Some p\<rparr>"

definition with_signing_query :: "request_info \<Rightarrow> string option \<Rightarrow> request_info" where
  "with_signing_query r q = r\<lparr>ri_signing_query := q\<rparr>"

definition with_copy_source :: "request_info \<Rightarrow> string option \<Rightarrow> request_info" where
  "with_copy_source r c = r\<lparr>ri_copy_source := c\<rparr>"

definition is_form_urlencoded_post :: "request_info \<Rightarrow> bool" where
  "is_form_urlencoded_post r \<longleftrightarrow> ri_method r = POST \<and>
     (case hm_str (ri_headers r) ''content-type'' of
        None \<Rightarrow> False
      | Some v \<Rightarrow> eq_ignore_ascii_case (trim_ws (hd (split_on CHR '';'' v)))
                    ''application/x-www-form-urlencoded'')"

definition should_collect_form_body :: "request_info \<Rightarrow> bool" where
  "should_collect_form_body r \<longleftrightarrow> is_form_urlencoded_post r \<and>
     (case Option.bind (hm_str (ri_headers r) ''content-length'') (parse_unsigned (2 ^ 64)) of
        None \<Rightarrow> False
      | Some len \<Rightarrow> len \<le> form_body_max_bytes)"

subsection \<open>The router\<close>

type_synonym route_handler = "request_info \<Rightarrow> proxy_result option"

record 'r matchit =
  mi_new :: 'r
  mi_insert :: "string \<Rightarrow> route_handler \<Rightarrow> 'r \<Rightarrow> 'r option"
  mi_at :: "'r \<Rightarrow> string \<Rightarrow> (route_handler \<times> params) option"

definition router_route :: "'r matchit \<Rightarrow> 'r \<Rightarrow> string \<Rightarrow> route_handler \<Rightarrow> 'r outcome" where
  "router_route mi r path handler = (case mi_insert mi path handler r of None \<Rightarrow> Panic | Some r' \<Rightarrow> Ok r')"

definition router_dispatch :: "'r matchit \<Rightarrow> 'r \<Rightarrow> request_info \<Rightarrow> handler_action option" where
  "router_dispatch mi r req =
     (case mi_at mi r (ri_path req) of
        None \<Rightarrow> None
      | Some (handler, ps) \<Rightarrow> map_option Response (handler (req\<lparr>ri_params := ps\<rparr>)))"

subsection \<open>Lemmas\<close>

lemma hm_contains_insert [hdr_simps]:
  "hm_contains (hm_insert n v h) m \<longleftrightarrow> map ascii_lower m = n \<or> hm_contains h m"
  by (simp add: hm_contains_def hm_get_insert)

lemma filter_step:
  "map_of (foldl (\<lambda>out (n, v). if n \<in> D then out else hm_insert n v out) out src) n =
     (if n \<in> D \<or> values_of n src = [] then map_of out n else Some (last (values_of n src)))"
  by (induction src arbitrary: out) (auto simp: map_of_hm_insert split: if_splits)

lemma filter_names:
  "fst ` set (foldl (\<lambda>out (n, v). if n \<in> D then out else hm_insert n v out) out src) =
     fst ` set out \<union> (fst ` set src - D)"
proof (induction src arbitrary: out)
  case (Cons p src)
  obtain n v where p: "p = (n, v)" by (cases p)
  show ?case by (cases "n \<in> D") (simp_all add: p Cons.IH fst_hm_insert insert_Diff_if)
qed simp

lemma filter_distinct:
  "distinct (map fst out) \<Longrightarrow>
     distinct (map fst (foldl (\<lambda>out (n, v). if n \<in> D then out else hm_insert n v out) out src))"
proof (induction src arbitrary: out)
  case (Cons p src)
  obtain n v where p: "p = (n, v)" by (cases p)
  from Cons show ?case by (simp add: p distinct_hm_insert)
qed simp

lemma router_dispatch_response:
  "router_dispatch mi r req = Some a \<Longrightarrow> \<exists>p. a = Response p"
  by (auto simp: router_dispatch_def split: option.splits)

subsection \<open>Properties\<close>

text \<open>
  The header filter as a function of names: no denied header passes, every other name
  does, exactly once, and with the last of the values the backend gave it, so of a header
  that may repeat only one value survives.
\<close>

theorem response_headers_filtered:
  "map_of (filter_response_headers h) n =
     (if n \<in> set response_header_denylist \<or> values_of n h = [] then None
      else Some (last (values_of n h)))
   \<and> fst ` set (filter_response_headers h) = fst ` set h - set response_header_denylist
   \<and> distinct (map fst (filter_response_headers h))"
  using filter_step [of "set response_header_denylist" "[]" h n]
    filter_names [of "set response_header_denylist" "[]" h]
    filter_distinct [of "[]" "set response_header_denylist" h]
  by (simp add: filter_response_headers_def)

end
