(* ===== verification/Response.thy ===== *)
theory Response
  imports Types
begin

text \<open>
  \<open>crates/core/src/api/response.rs\<close>: the S3 response bodies.  \<open>quick_xml::se::to_string\<close> is the
  parameter \<open>xs\<close>; it is given the value as an \<open>xml_doc\<close>, one constructor per serialized type,
  and may fail (\<open>None\<close>).  \<open>usize\<close> counters are \<open>nat\<close>: none is computed with.
\<close>

record error_response =
  er_code :: string
  er_message :: string
  er_resource :: string
  er_request_id :: string

record initiate_multipart_upload_result =
  im_bucket :: string
  im_key :: string
  im_upload_id :: string

record complete_multipart_upload_result =
  cm_location :: string
  cm_bucket :: string
  cm_key :: string
  cm_etag :: string

record complete_part =
  cp_part_number :: u32
  cp_etag :: string

record complete_multipart_upload_request =
  cmr_parts :: "complete_part list"

record bucket_entry =
  ben_name :: string
  ben_creation_date :: string

record bucket_list =
  bl_buckets :: "bucket_entry list"

record list_all_my_buckets_result =
  lamb_owner :: bucket_owner
  lamb_buckets :: bucket_list

record list_contents =
  lc_key :: string
  lc_last_modified :: string
  lc_etag :: string
  lc_size :: u64
  lc_storage_class :: string

record list_common_prefix =
  lcp_prefix :: string

record list_bucket_result =
  lbr_xmlns :: string
  lbr_name :: string
  lbr_prefix :: string
  lbr_delimiter :: string
  lbr_encoding_type :: "string option"
  lbr_max_keys :: nat
  lbr_is_truncated :: bool
  lbr_key_count :: nat
  lbr_start_after :: "string option"
  lbr_continuation_token :: "string option"
  lbr_next_continuation_token :: "string option"
  lbr_contents :: "list_contents list"
  lbr_common_prefixes :: "list_common_prefix list"

record list_bucket_result_v1 =
  lb1_xmlns :: string
  lb1_name :: string
  lb1_prefix :: string
  lb1_delimiter :: string
  lb1_encoding_type :: "string option"
  lb1_max_keys :: nat
  lb1_is_truncated :: bool
  lb1_marker :: string
  lb1_next_marker :: "string option"
  lb1_contents :: "list_contents list"
  lb1_common_prefixes :: "list_common_prefix list"

datatype xml_doc =
    XError error_response
  | XInitiate initiate_multipart_upload_result
  | XComplete complete_multipart_upload_result
  | XBuckets list_all_my_buckets_result
  | XList list_bucket_result
  | XListV1 list_bucket_result_v1

definition xml_declaration :: string where
  "xml_declaration = ''<?xml version='' @ [CHR 0x22] @ ''1.0'' @ [CHR 0x22] @ '' encoding='' @ [CHR 0x22]
     @ ''UTF-8'' @ [CHR 0x22] @ ''?>'' @ [CHR 0x0A]"

definition from_proxy_error :: "proxy_error \<Rightarrow> string \<Rightarrow> string \<Rightarrow> bool \<Rightarrow> error_response" where
  "from_proxy_error err resource request_id debug =
     \<lparr>er_code = s3_error_code err,
      er_message = (if debug then display_error err else safe_message err),
      er_resource = resource, er_request_id = request_id\<rparr>"

definition slow_down :: "string \<Rightarrow> error_response" where
  "slow_down request_id =
     \<lparr>er_code = ''SlowDown'', er_message = ''Please reduce your request rate.'',
      er_resource = [], er_request_id = request_id\<rparr>"

definition error_to_xml :: "(xml_doc \<Rightarrow> string option) \<Rightarrow> error_response \<Rightarrow> string" where
  "error_to_xml xs e = xml_declaration @
     the_or ''<Error><Code>InternalError</Code></Error>'' (xs (XError e))"

definition initiate_to_xml ::
  "(xml_doc \<Rightarrow> string option) \<Rightarrow> initiate_multipart_upload_result \<Rightarrow> string" where
  "initiate_to_xml xs r = xml_declaration @ the_or [] (xs (XInitiate r))"

definition complete_to_xml ::
  "(xml_doc \<Rightarrow> string option) \<Rightarrow> complete_multipart_upload_result \<Rightarrow> string" where
  "complete_to_xml xs r = xml_declaration @ the_or [] (xs (XComplete r))"

definition buckets_to_xml ::
  "(xml_doc \<Rightarrow> string option) \<Rightarrow> list_all_my_buckets_result \<Rightarrow> string" where
  "buckets_to_xml xs r = xml_declaration @ the_or [] (xs (XBuckets r))"

definition list_to_xml :: "(xml_doc \<Rightarrow> string option) \<Rightarrow> list_bucket_result \<Rightarrow> string" where
  "list_to_xml xs r = xml_declaration @ the_or [] (xs (XList r))"

definition list_v1_to_xml :: "(xml_doc \<Rightarrow> string option) \<Rightarrow> list_bucket_result_v1 \<Rightarrow> string" where
  "list_v1_to_xml xs r = xml_declaration @ the_or [] (xs (XListV1 r))"

subsection \<open>What an error tells the client\<close>

text \<open>The class of an error, its payload dropped.\<close>

fun opaque_error :: "proxy_error \<Rightarrow> bool" where
  "opaque_error (BackendError _) = True"
| "opaque_error (ConfigError _) = True"
| "opaque_error (Internal _) = True"
| "opaque_error _ = False"

lemma opaque_error_status: "opaque_error e \<Longrightarrow> status_code e \<in> {500, 503}"
  by (cases e) auto

lemma opaque_error_message:
  "opaque_error e \<Longrightarrow> opaque_error e' \<Longrightarrow> s3_error_code e = s3_error_code e' \<Longrightarrow>
     safe_message e = safe_message e'"
  by (cases e; cases e'; simp)

lemma safe_message_transparent: "\<not> opaque_error e \<Longrightarrow> (\<forall>c. e \<noteq> BackendAuthError c) \<Longrightarrow>
    safe_message e = display_error e"
  by (cases e) auto

text \<open>
  C37. Outside debug mode the body of an opaque error (backend, configuration, internal) is a
  function of its S3 code, the resource and the request id alone: nothing of the payload of
  the error, which may quote a backend response or a configuration value, reaches the client.
\<close>

theorem error_response_noninterference:
  assumes "opaque_error e" "opaque_error e'" "s3_error_code e = s3_error_code e'"
  shows "error_to_xml xs (from_proxy_error e res rid False)
    = error_to_xml xs (from_proxy_error e' res rid False)"
  using opaque_error_message [OF assms] assms(3) by (simp add: from_proxy_error_def)

theorem error_response_noninterference_witness:
  "error_to_xml (\<lambda>_. None) (from_proxy_error (Internal ''disk /srv/a'') ''/b'' ''1'' False)
    = error_to_xml (\<lambda>_. None) (from_proxy_error (ConfigError ''key xyz'') ''/b'' ''1'' False)"
  by (rule error_response_noninterference) simp_all

text \<open>
  C6. The documentation of \<open>safe_message\<close> promises a generic message for every server-side
  status; two of them are not: a 501 and a 502 carry their payload to the client.
\<close>

theorem safe_message_not_generic_for_5xx:
  "status_code (NotImplemented m) = 501 \<and> safe_message (NotImplemented m) = ''not implemented: '' @ m
   \<and> status_code (BackendAuthError m) = 502
   \<and> safe_message (BackendAuthError m) = ''Failed to obtain backend credentials: '' @ m"
  by simp

end
