(* ===== verification/Authorize.thy ===== *)
theory Authorize
  imports Types
begin

text \<open>
  \<open>crates/core/src/auth/authorize.rs\<close>: the scope check.  \<open>url::form_urlencoded::parse\<close> (a
  third-party function the LIST arm calls to read \<open>prefix\<close>) is the parameter \<open>fp\<close>.
  The specification is in terms of path boundaries: a prefix covers a key when it is a
  prefix of it that ends at a segment boundary.
\<close>

definition key_matches_prefix :: "string \<Rightarrow> string \<Rightarrow> bool" where
  "key_matches_prefix key p =
     (if ends_with p ''/'' \<or> p = [] then starts_with key p
      else key = p \<or> (length key > length p \<and> starts_with key p \<and> key ! length p = CHR ''/''))"

text \<open>The key a scope's prefixes are checked against.\<close>

definition auth_key :: "(string \<Rightarrow> (string \<times> string) list) \<Rightarrow> s3_operation \<Rightarrow> string" where
  "auth_key fp op =
     (case op of
        ListBucket _ raw_query \<Rightarrow>
          the_or [] (Option.bind raw_query
            (\<lambda>q. map_option snd (List.find (\<lambda>(k, _). k = ''prefix'') (fp q))))
      | _ \<Rightarrow> op_key op)"

definition scope_grants :: "bool \<Rightarrow> string \<Rightarrow> action \<Rightarrow> string \<Rightarrow> access_scope \<Rightarrow> bool" where
  "scope_grants ignore_prefix bucket act key sc =
     (if sc_bucket sc \<noteq> bucket then False
      else if act \<notin> set (sc_actions sc) then False
      else if ignore_prefix \<or> sc_prefixes sc = [] then True
      else list_ex (key_matches_prefix key) (sc_prefixes sc))"

fun is_delete_objects :: "s3_operation \<Rightarrow> bool" where
  "is_delete_objects (DeleteObjects _) = True"
| "is_delete_objects _ = False"

definition authorize ::
  "(string \<Rightarrow> (string \<times> string) list) \<Rightarrow> resolved_identity \<Rightarrow> s3_operation \<Rightarrow> bucket_config
   \<Rightarrow> proxy_error + unit" where
  "authorize fp identity op config =
     (case identity of
        Anonymous \<Rightarrow>
          if bc_anonymous_access config \<and> op_action op \<in> {ActGetObject, ActHeadObject, ActListBucket}
          then Inr () else Inl AccessDenied
      | Authenticated i \<Rightarrow>
          (let bucket = the_or [] (op_bucket op);
               key = auth_key fp op;
               ignore_prefix = is_delete_objects op
           in if list_ex (scope_grants ignore_prefix bucket (op_action op) key) (id_allowed_scopes i)
              then Inr () else Inl AccessDenied))"

definition key_authorized :: "resolved_identity \<Rightarrow> string \<Rightarrow> action \<Rightarrow> string \<Rightarrow> bool" where
  "key_authorized identity bucket act key =
     (case identity of
        Anonymous \<Rightarrow> False
      | Authenticated i \<Rightarrow>
          list_ex (\<lambda>sc. sc_bucket sc = bucket \<and> act \<in> set (sc_actions sc) \<and>
             (sc_prefixes sc = [] \<or> list_ex (key_matches_prefix key) (sc_prefixes sc)))
            (id_allowed_scopes i))"

subsection \<open>Specification\<close>

text \<open>
  The slash-separated segments a prefix names: a trailing slash only closes its last segment.
\<close>

definition prefix_segments :: "string \<Rightarrow> string list" where
  "prefix_segments p = (if ends_with p ''/'' then butlast (split_on CHR ''/'' p) else split_on CHR ''/'' p)"

text \<open>
  What a prefix covers, said on segments: the prefix's segments begin the key's, and when the
  prefix is closed by a slash the key goes on after them.
\<close>

definition covers :: "string \<Rightarrow> string \<Rightarrow> bool" where
  "covers p key \<longleftrightarrow> p = [] \<or>
     (prefix (prefix_segments p) (split_on CHR ''/'' key) \<and>
      (ends_with p ''/'' \<longrightarrow> length (prefix_segments p) < length (split_on CHR ''/'' key)))"

definition granted :: "authenticated_identity \<Rightarrow> string \<Rightarrow> action \<Rightarrow> string \<Rightarrow> bool" where
  "granted i bucket act key \<longleftrightarrow>
     (\<exists>sc \<in> set (id_allowed_scopes i). sc_bucket sc = bucket \<and> act \<in> set (sc_actions sc) \<and>
        (sc_prefixes sc = [] \<or> (\<exists>p \<in> set (sc_prefixes sc). covers p key)))"

definition granted_somewhere :: "authenticated_identity \<Rightarrow> string \<Rightarrow> action \<Rightarrow> bool" where
  "granted_somewhere i bucket act \<longleftrightarrow>
     (\<exists>sc \<in> set (id_allowed_scopes i). sc_bucket sc = bucket \<and> act \<in> set (sc_actions sc))"

subsection \<open>Lemmas\<close>

lemma split_on_prefix_iff:
  "prefix (split_on c p) (split_on c k) \<longleftrightarrow> k = p \<or> (\<exists>r. k = p @ c # r)"
proof
  assume "prefix (split_on c p) (split_on c k)"
  then obtain zs where zs: "split_on c k = split_on c p @ zs" by (auto simp: prefix_def)
  have "join_with [c] (split_on c p @ zs) =
      (if zs = [] then p else p @ c # join_with [c] zs)"
  proof -
    have "xs \<noteq> [] \<Longrightarrow> join_with [c] (xs @ zs)
        = (if zs = [] then join_with [c] xs else join_with [c] xs @ c # join_with [c] zs)" for xs
      by (induction xs rule: induct_list012) (cases zs; simp)+
    then show ?thesis using join_with_split_on [of c p] by simp
  qed
  with zs show "k = p \<or> (\<exists>r. k = p @ c # r)"
    by (metis join_with_split_on)
next
  have app: "split_on c (p @ c # r) = split_on c p @ split_on c r" for p r
    by (induction p) (auto split: list.splits)
  assume "k = p \<or> (\<exists>r. k = p @ c # r)"
  then show "prefix (split_on c p) (split_on c k)" by (auto simp: app)
qed

lemma split_on_append_sep: "split_on c (p @ c # r) = split_on c p @ split_on c r"
  by (induction p) (auto split: list.splits)

lemma key_matches_prefix_iff:
  "key_matches_prefix k p \<longleftrightarrow>
     (if ends_with p ''/'' \<or> p = [] then prefix p k else k = p \<or> (\<exists>r. k = p @ CHR ''/'' # r))"
proof (cases "ends_with p ''/'' \<or> p = []")
  case True
  then show ?thesis by (simp add: key_matches_prefix_def starts_with_prefix)
next
  case False
  have "length k > length p \<and> starts_with k p \<and> k ! length p = CHR ''/''
      \<longleftrightarrow> (\<exists>r. k = p @ CHR ''/'' # r)"
  proof
    assume a: "length k > length p \<and> starts_with k p \<and> k ! length p = CHR ''/''"
    then obtain s where s: "k = p @ s" by (auto simp: starts_with_iff)
    with a have "s \<noteq> []" "hd s = CHR ''/''" by (auto simp: nth_append hd_conv_nth)
    with s show "\<exists>r. k = p @ CHR ''/'' # r" by (metis list.collapse)
  qed auto
  with False show ?thesis by (simp add: key_matches_prefix_def)
qed

lemma key_matches_prefix_covers: "key_matches_prefix k p \<longleftrightarrow> covers p k"
proof (cases "ends_with p ''/''")
  case True
  then obtain q where q: "p = q @ ''/''" by (auto simp: ends_with_iff)
  have segs: "prefix_segments p = split_on CHR ''/'' q"
    using True q by (simp add: prefix_segments_def split_on_append_sep)
  have "prefix p k \<longleftrightarrow> (\<exists>r. k = q @ CHR ''/'' # r)"
    by (auto simp: q prefix_def)
  also have "\<dots> \<longleftrightarrow> prefix (split_on CHR ''/'' q) (split_on CHR ''/'' k) \<and>
      length (split_on CHR ''/'' q) < length (split_on CHR ''/'' k)"
    by (auto simp: split_on_prefix_iff split_on_append_sep)
  finally show ?thesis using True q segs
    by (auto simp: key_matches_prefix_iff covers_def)
next
  case False
  then show ?thesis
    by (auto simp: key_matches_prefix_iff covers_def prefix_segments_def split_on_prefix_iff)
qed

lemma scope_grants_iff:
  "scope_grants ig b a k sc \<longleftrightarrow> sc_bucket sc = b \<and> a \<in> set (sc_actions sc) \<and>
     (ig \<or> sc_prefixes sc = [] \<or> (\<exists>p \<in> set (sc_prefixes sc). covers p k))"
  by (simp add: scope_grants_def list_ex_iff key_matches_prefix_covers)

lemma key_authorized_granted:
  "key_authorized (Authenticated i) b a k \<longleftrightarrow> granted i b a k"
  by (auto simp: key_authorized_def granted_def list_ex_iff key_matches_prefix_covers)

lemma key_authorized_Anonymous [simp]: "\<not> key_authorized Anonymous b a k"
  by (simp add: key_authorized_def)

lemma authorize_Authenticated_iff:
  "authorize fp (Authenticated i) op cfg = Inr () \<longleftrightarrow>
     (if is_delete_objects op then granted_somewhere i (the_or [] (op_bucket op)) (op_action op)
      else granted i (the_or [] (op_bucket op)) (op_action op) (auth_key fp op))"
  by (auto simp: authorize_def Let_def list_ex_iff scope_grants_iff granted_def granted_somewhere_def)

lemma authorize_Anonymous_iff:
  "authorize fp Anonymous op cfg = Inr () \<longleftrightarrow>
     bc_anonymous_access cfg \<and> op_action op \<in> {ActGetObject, ActHeadObject, ActListBucket}"
  by (simp add: authorize_def)

lemma authorize_error: "authorize fp i op cfg = Inl e \<Longrightarrow> e = AccessDenied"
  by (auto simp: authorize_def Let_def split: resolved_identity.splits if_splits)

lemma granted_imp_somewhere: "granted i b a k \<Longrightarrow> granted_somewhere i b a"
  by (auto simp: granted_def granted_somewhere_def)

subsection \<open>Properties\<close>

text \<open>
  C2. The scope check lets a request through exactly when the specification grants it: an
  anonymous caller only to read a bucket open to anonymous access, an authenticated one only
  when a scope names the bucket and the action and, unless it has no prefixes (or the request
  is a batch delete, checked key by key later), has a prefix that covers the key at a path
  segment boundary.
\<close>

theorem authorize_characterised:
  "authorize fp identity op config = Inr () \<longleftrightarrow>
     (case identity of
        Anonymous \<Rightarrow> bc_anonymous_access config
          \<and> op_action op \<in> {ActGetObject, ActHeadObject, ActListBucket}
      | Authenticated i \<Rightarrow>
          if is_delete_objects op then granted_somewhere i (the_or [] (op_bucket op)) ActDeleteObject
          else granted i (the_or [] (op_bucket op)) (op_action op) (auth_key fp op))"
proof (cases identity)
  case Anonymous
  then show ?thesis by (simp add: authorize_Anonymous_iff)
next
  case (Authenticated i)
  then show ?thesis by (cases op) (simp_all add: authorize_Authenticated_iff)
qed

end
