(* ===== verification/Listing.thy ===== *)
theory Listing
  imports Response Authorize
begin

text \<open>
  \<open>crates/core/src/api/list.rs\<close> and \<open>list_rewrite.rs\<close>: the parameters of a LIST request, the
  backend prefix it becomes, and the entries of the answer rewritten back to client keys.
  Third-party code is a parameter: \<open>fp\<close> is \<open>form_urlencoded::parse\<close>, \<open>pe\<close> is
  \<open>utf8_percent_encode\<close> for a set of bytes, \<open>fmt\<close> formats a time, \<open>xs\<close> serializes XML.
\<close>

record list_query_params =
  lq_prefix :: string
  lq_delimiter :: string
  lq_max_keys :: nat
  lq_continuation_token :: "string option"
  lq_start_after :: "string option"
  lq_encoding_type :: "string option"
  lq_marker :: "string option"
  lq_is_v2 :: bool

record list_scan =
  ls_prefix :: "string option"
  ls_delimiter :: "string option"
  ls_max_keys :: "string option"
  ls_continuation_token :: "string option"
  ls_start_after :: "string option"
  ls_encoding_type :: "string option"
  ls_marker :: "string option"
  ls_is_v2 :: bool

definition empty_scan :: list_scan where
  "empty_scan = \<lparr>ls_prefix = None, ls_delimiter = None, ls_max_keys = None,
     ls_continuation_token = None, ls_start_after = None, ls_encoding_type = None,
     ls_marker = None, ls_is_v2 = False\<rparr>"

text \<open>One turn of the loop over the query parameters.\<close>

definition scan_param :: "list_scan \<Rightarrow> string \<times> string \<Rightarrow> list_scan" where
  "scan_param s kv =
     (case kv of (k, v) \<Rightarrow>
       if k = ''prefix'' then s\<lparr>ls_prefix := Some v\<rparr>
       else if k = ''delimiter'' then s\<lparr>ls_delimiter := Some v\<rparr>
       else if k = ''max-keys'' then s\<lparr>ls_max_keys := Some v\<rparr>
       else if k = ''continuation-token'' then s\<lparr>ls_continuation_token := Some v\<rparr>
       else if k = ''start-after'' then s\<lparr>ls_start_after := Some v\<rparr>
       else if k = ''encoding-type'' then s\<lparr>ls_encoding_type := Some v\<rparr>
       else if k = ''marker'' then s\<lparr>ls_marker := Some v\<rparr>
       else if k = ''list-type'' \<and> v = ''2'' then s\<lparr>ls_is_v2 := True\<rparr>
       else s)"

definition parse_list_query_params ::
  "(string \<Rightarrow> (string \<times> string) list) \<Rightarrow> string option \<Rightarrow> list_query_params" where
  "parse_list_query_params fp raw_query =
     (let s = (case raw_query of None \<Rightarrow> empty_scan | Some q \<Rightarrow> foldl scan_param empty_scan (fp q))
      in \<lparr>lq_prefix = the_or [] (ls_prefix s), lq_delimiter = the_or [] (ls_delimiter s),
          lq_max_keys = min (the_or 1000 (Option.bind (ls_max_keys s) (parse_unsigned (2 ^ 64)))) 1000,
          lq_continuation_token = ls_continuation_token s, lq_start_after = ls_start_after s,
          lq_encoding_type = ls_encoding_type s, lq_marker = ls_marker s, lq_is_v2 = ls_is_v2 s\<rparr>)"

definition build_list_prefix :: "bucket_config \<Rightarrow> string \<Rightarrow> string" where
  "build_list_prefix config client_prefix =
     (case bc_backend_prefix config of
        Some p \<Rightarrow>
          (let bp = trim_end_matches CHR ''/'' p
           in if bp = [] then client_prefix else bp @ ''/'' @ client_prefix)
      | None \<Rightarrow> client_prefix)"

text \<open>What the backend's listing holds (\<open>object_store::ListResult\<close>).\<close>

record object_meta =
  om_location :: string
  om_last_modified :: int
  om_size :: u64
  om_e_tag :: "string option"

record list_result =
  lr_common_prefixes :: "string list"
  lr_objects :: "object_meta list"

record list_rewrite =
  lw_strip_prefix :: string
  lw_add_prefix :: string

record list_entries =
  le_contents :: "list_contents list"
  le_common_prefixes :: "list_common_prefix list"
  le_prefix_value :: string
  le_url_encode :: bool

text \<open>The bytes \<open>S3_ENCODE_SET\<close> escapes.\<close>

definition s3_encode_set :: "char \<Rightarrow> bool" where
  "s3_encode_set c \<longleftrightarrow> \<not> is_ascii_alphanumeric c \<and> c \<notin> set ''-._~/''"

definition s3_encode :: "((char \<Rightarrow> bool) \<Rightarrow> string \<Rightarrow> string) \<Rightarrow> string \<Rightarrow> bool \<Rightarrow> string" where
  "s3_encode pe s url_encode = (if \<not> url_encode then s else pe s3_encode_set s)"

definition rewrite_key :: "string \<Rightarrow> string \<Rightarrow> list_rewrite option \<Rightarrow> string" where
  "rewrite_key raw strip rewrite =
     (let key = (if strip \<noteq> [] then the_or raw (strip_prefix strip raw) else raw)
      in case rewrite of
           None \<Rightarrow> key
         | Some w \<Rightarrow>
             (let key = (if lw_strip_prefix w \<noteq> [] then the_or key (strip_prefix (lw_strip_prefix w) key)
                         else key)
              in if lw_add_prefix w \<noteq> [] then
                   (if key = [] \<or> starts_with key ''/'' \<or> ends_with (lw_add_prefix w) ''/''
                    then lw_add_prefix w @ key
                    else lw_add_prefix w @ ''/'' @ key)
                 else key))"

definition trimmed_backend_prefix :: "bucket_config \<Rightarrow> string" where
  "trimmed_backend_prefix config = trim_end_matches CHR ''/'' (the_or [] (bc_backend_prefix config))"

definition list_strip_prefix :: "bucket_config \<Rightarrow> string" where
  "list_strip_prefix config =
     (let bp = trimmed_backend_prefix config in if bp = [] then [] else bp @ ''/'')"

definition is_directory_marker ::
  "bucket_config \<Rightarrow> string \<Rightarrow> string list \<Rightarrow> object_meta \<Rightarrow> bool" where
  "is_directory_marker config client_prefix common_prefixes obj \<longleftrightarrow>
     om_size obj = 0 \<and>
     (om_location obj \<in> set common_prefixes \<or>
      om_location obj = trimmed_backend_prefix config \<or>
      om_location obj = trim_end_matches CHR ''/'' (list_strip_prefix config @ client_prefix))"

definition list_content ::
  "((char \<Rightarrow> bool) \<Rightarrow> string \<Rightarrow> string) \<Rightarrow> (int \<Rightarrow> string) \<Rightarrow> string \<Rightarrow> list_rewrite option \<Rightarrow> bool
   \<Rightarrow> object_meta \<Rightarrow> list_contents" where
  "list_content pe fmt strip rewrite url_encode obj =
     \<lparr>lc_key = s3_encode pe (rewrite_key (om_location obj) strip rewrite) url_encode,
      lc_last_modified = fmt (om_last_modified obj),
      lc_etag = the_or [CHR 0x22, CHR 0x22] (om_e_tag obj),
      lc_size = om_size obj,
      lc_storage_class = ''STANDARD''\<rparr>"

definition collect_list_entries ::
  "((char \<Rightarrow> bool) \<Rightarrow> string \<Rightarrow> string) \<Rightarrow> (int \<Rightarrow> string) \<Rightarrow> string \<Rightarrow> string option \<Rightarrow> list_result
   \<Rightarrow> bucket_config \<Rightarrow> list_rewrite option \<Rightarrow> list_entries" where
  "collect_list_entries pe fmt client_prefix encoding_type res config rewrite =
     (let strip = list_strip_prefix config;
          url_encode = (encoding_type = Some ''url'')
      in \<lparr>le_contents =
            map (list_content pe fmt strip rewrite url_encode)
              (filter (\<lambda>obj. \<not> is_directory_marker config client_prefix (lr_common_prefixes res) obj)
                (lr_objects res)),
          le_common_prefixes =
            map (\<lambda>p. \<lparr>lcp_prefix = s3_encode pe (rewrite_key (p @ ''/'') strip rewrite) url_encode\<rparr>)
              (lr_common_prefixes res),
          le_prefix_value =
            (case rewrite of
               Some w \<Rightarrow> if lw_add_prefix w \<noteq> [] then lw_add_prefix w @ client_prefix else client_prefix
             | None \<Rightarrow> client_prefix),
          le_url_encode = url_encode\<rparr>)"

record list_xml_params =
  lx_bucket_name :: string
  lx_client_prefix :: string
  lx_delimiter :: string
  lx_max_keys :: nat
  lx_is_truncated :: bool
  lx_key_count :: nat
  lx_start_after :: "string option"
  lx_continuation_token :: "string option"
  lx_next_continuation_token :: "string option"
  lx_encoding_type :: "string option"

record list_xml_params_v1 =
  l1_bucket_name :: string
  l1_client_prefix :: string
  l1_delimiter :: string
  l1_max_keys :: nat
  l1_is_truncated :: bool
  l1_marker :: string
  l1_next_marker :: "string option"
  l1_encoding_type :: "string option"

definition s3_xmlns :: string where
  "s3_xmlns = ''http://s3.amazonaws.com/doc/2006-03-01/''"

definition list_bucket_result_of ::
  "((char \<Rightarrow> bool) \<Rightarrow> string \<Rightarrow> string) \<Rightarrow> (int \<Rightarrow> string) \<Rightarrow> list_xml_params \<Rightarrow> list_result
   \<Rightarrow> bucket_config \<Rightarrow> list_rewrite option \<Rightarrow> list_bucket_result" where
  "list_bucket_result_of pe fmt params res config rewrite =
     (let e = collect_list_entries pe fmt (lx_client_prefix params) (lx_encoding_type params)
                res config rewrite
      in \<lparr>lbr_xmlns = s3_xmlns, lbr_name = lx_bucket_name params,
          lbr_prefix = s3_encode pe (le_prefix_value e) (le_url_encode e),
          lbr_delimiter = s3_encode pe (lx_delimiter params) (le_url_encode e),
          lbr_encoding_type = lx_encoding_type params, lbr_max_keys = lx_max_keys params,
          lbr_is_truncated = lx_is_truncated params, lbr_key_count = lx_key_count params,
          lbr_start_after =
            map_option (\<lambda>s. s3_encode pe s (le_url_encode e)) (lx_start_after params),
          lbr_continuation_token = lx_continuation_token params,
          lbr_next_continuation_token = lx_next_continuation_token params,
          lbr_contents = le_contents e, lbr_common_prefixes = le_common_prefixes e\<rparr>)"

definition build_list_xml ::
  "(xml_doc \<Rightarrow> string option) \<Rightarrow> ((char \<Rightarrow> bool) \<Rightarrow> string \<Rightarrow> string) \<Rightarrow> (int \<Rightarrow> string)
   \<Rightarrow> list_xml_params \<Rightarrow> list_result \<Rightarrow> bucket_config \<Rightarrow> list_rewrite option \<Rightarrow> string" where
  "build_list_xml xs pe fmt params res config rewrite =
     list_to_xml xs (list_bucket_result_of pe fmt params res config rewrite)"

definition list_bucket_result_v1_of ::
  "((char \<Rightarrow> bool) \<Rightarrow> string \<Rightarrow> string) \<Rightarrow> (int \<Rightarrow> string) \<Rightarrow> list_xml_params_v1 \<Rightarrow> list_result
   \<Rightarrow> bucket_config \<Rightarrow> list_rewrite option \<Rightarrow> list_bucket_result_v1" where
  "list_bucket_result_v1_of pe fmt params res config rewrite =
     (let e = collect_list_entries pe fmt (l1_client_prefix params) (l1_encoding_type params)
                res config rewrite
      in \<lparr>lb1_xmlns = s3_xmlns, lb1_name = l1_bucket_name params,
          lb1_prefix = s3_encode pe (le_prefix_value e) (le_url_encode e),
          lb1_delimiter = s3_encode pe (l1_delimiter params) (le_url_encode e),
          lb1_encoding_type = l1_encoding_type params, lb1_max_keys = l1_max_keys params,
          lb1_is_truncated = l1_is_truncated params, lb1_marker = l1_marker params,
          lb1_next_marker = l1_next_marker params,
          lb1_contents = le_contents e, lb1_common_prefixes = le_common_prefixes e\<rparr>)"

definition build_list_xml_v1 ::
  "(xml_doc \<Rightarrow> string option) \<Rightarrow> ((char \<Rightarrow> bool) \<Rightarrow> string \<Rightarrow> string) \<Rightarrow> (int \<Rightarrow> string)
   \<Rightarrow> list_xml_params_v1 \<Rightarrow> list_result \<Rightarrow> bucket_config \<Rightarrow> list_rewrite option \<Rightarrow> string" where
  "build_list_xml_v1 xs pe fmt params res config rewrite =
     list_v1_to_xml xs (list_bucket_result_v1_of pe fmt params res config rewrite)"

subsection \<open>Lemmas\<close>

lemma build_list_prefix_alt: "build_list_prefix c p = list_strip_prefix c @ p"
  by (auto simp: build_list_prefix_def list_strip_prefix_def trimmed_backend_prefix_def Let_def
      split: option.splits)

lemma rewrite_key_append [prefix_simps]: "rewrite_key (s @ k) s None = k"
  by (simp add: rewrite_key_def)

lemma rewrite_key_rewrite:
  "rewrite_key (s @ lw_strip_prefix w @ k) s (Some w) =
     (if lw_add_prefix w = [] then k
      else if k = [] \<or> starts_with k ''/'' \<or> ends_with (lw_add_prefix w) ''/'' then lw_add_prefix w @ k
      else lw_add_prefix w @ ''/'' @ k)"
  by (simp add: rewrite_key_def Let_def prefix_simps)

lemma scan_prefix:
  "ls_prefix (foldl scan_param s ps) =
     (if values_of ''prefix'' ps = [] then ls_prefix s else Some (last (values_of ''prefix'' ps)))"
proof (induction ps arbitrary: s)
  case (Cons kv ps)
  obtain k v where kv: "kv = (k, v)" by (cases kv)
  have "k \<noteq> ''prefix'' \<Longrightarrow> ls_prefix (scan_param s kv) = ls_prefix s"
    by (simp add: kv scan_param_def)
  moreover have "k = ''prefix'' \<Longrightarrow> ls_prefix (scan_param s kv) = Some v"
    by (simp add: kv scan_param_def)
  ultimately show ?case using Cons.IH [of "scan_param s kv"] by (simp add: kv)
qed simp

lemma lq_prefix_last:
  "lq_prefix (parse_list_query_params fp (Some q)) =
     (if values_of ''prefix'' (fp q) = [] then [] else last (values_of ''prefix'' (fp q)))"
  by (simp add: parse_list_query_params_def Let_def scan_prefix empty_scan_def)

lemma auth_key_first:
  "auth_key fp (ListBucket b (Some q)) =
     (case values_of ''prefix'' (fp q) of [] \<Rightarrow> [] | v # _ \<Rightarrow> v)"
proof -
  have "map_option snd (List.find (\<lambda>(k, _). k = ''prefix'') ps)
      = (case values_of ''prefix'' ps of [] \<Rightarrow> None | v # _ \<Rightarrow> Some v)" for ps :: "(string \<times> string) list"
    by (induction ps) auto
  then show ?thesis by (simp add: auth_key_def split: list.splits)
qed

lemma lq_max_keys_bound: "lq_max_keys (parse_list_query_params fp rq) \<le> 1000"
  by (simp add: parse_list_query_params_def Let_def)

lemma covers_closed_append: "covers p k \<Longrightarrow> ends_with p ''/'' \<Longrightarrow> covers p (k @ r)"
  by (auto simp: key_matches_prefix_covers [symmetric] key_matches_prefix_iff prefix_def)

lemma granted_closed_append:
  assumes "granted i b a k"
    and "\<And>sc p. sc \<in> set (id_allowed_scopes i) \<Longrightarrow> p \<in> set (sc_prefixes sc) \<Longrightarrow> ends_with p ''/''"
  shows "granted i b a (k @ r)"
  using assms unfolding granted_def by (blast intro: covers_closed_append)

lemma collect_contents:
  "le_contents (collect_list_entries pe fmt cp enc res cfg w) =
     map (list_content pe fmt (list_strip_prefix cfg) w (enc = Some ''url''))
       (filter (\<lambda>obj. \<not> is_directory_marker cfg cp (lr_common_prefixes res) obj) (lr_objects res))"
  by (simp add: collect_list_entries_def Let_def)

text \<open>The rewrites the path mapping attaches strip nothing and add a prefix closed by a slash.\<close>

definition added_prefix :: "list_rewrite option \<Rightarrow> string \<Rightarrow> bool" where
  "added_prefix rewrite a \<longleftrightarrow>
     (rewrite = None \<and> a = []) \<or>
     (rewrite = Some \<lparr>lw_strip_prefix = [], lw_add_prefix = a\<rparr> \<and> (a = [] \<or> ends_with a ''/''))"

lemma rewrite_key_adds:
  assumes "added_prefix rewrite a"
  shows "rewrite_key (strip @ k) strip rewrite = a @ k"
  using assms rewrite_key_rewrite[of strip "the rewrite" k]
  by (auto simp: added_prefix_def rewrite_key_append)

lemma list_strip_prefix_asked: "list_strip_prefix cfg = build_list_prefix cfg []"
  by (simp add: build_list_prefix_alt)

text \<open>An object the answer leaves out: an empty one whose key, but for slashes, is a folder of the listing.\<close>

definition folder_marker :: "bucket_config \<Rightarrow> string \<Rightarrow> string list \<Rightarrow> object_meta \<Rightarrow> bool" where
  "folder_marker config listed common_prefixes obj \<longleftrightarrow>
     om_size obj = 0 \<and>
     (om_location obj \<in> set common_prefixes \<or>
      (\<exists>n. listed = om_location obj @ replicate n CHR ''/'') \<or>
      (\<exists>n. the_or [] (bc_backend_prefix config) = om_location obj @ replicate n CHR ''/''))"

lemma trim_end_matches_iff:
  assumes "\<not> ends_with t [c]"
  shows "t = trim_end_matches c s \<longleftrightarrow> (\<exists>n. s = t @ replicate n c)"
proof
  show "t = trim_end_matches c s \<Longrightarrow> \<exists>n. s = t @ replicate n c" using trim_end_matches_decomp[of s c] by simp
  assume "\<exists>n. s = t @ replicate n c"
  then obtain n where "s = t @ replicate n c" by blast
  moreover have "trim_end_matches c (t @ replicate n c) = trim_end_matches c t"
    by (induction n) (simp_all add: replicate_append_same[symmetric] flip: append_assoc)
  ultimately show "t = trim_end_matches c s" using trim_end_matches_id[OF assms] by simp
qed

lemma marker_is_folder:
  assumes "\<not> ends_with (om_location obj) ''/''"
  shows "is_directory_marker cfg p cps obj \<longleftrightarrow> folder_marker cfg (build_list_prefix cfg p) cps obj"
  unfolding is_directory_marker_def folder_marker_def trimmed_backend_prefix_def build_list_prefix_alt
    trim_end_matches_iff[OF assms] by blast

subsection \<open>Properties\<close>

text \<open>
  C33. A page of a listing, read back by the client.  The backend is asked for the keys under the
  client's prefix behind the backend prefix; its locations never end in a slash, and one that is not
  under the listed prefix is the empty object of the listed folder.  Then the page has, in order, one
  entry for each object that is not the empty object of a folder, with the object's own size, time and
  tag; its key is the backend key less the backend prefix, behind the prefix a rewrite adds,
  percent-encoded when the client asks for that; so are the common prefixes, closed by a slash.
\<close>

theorem listing_maps_back:
  assumes "\<And>obj. obj \<in> set (lr_objects res) \<Longrightarrow> \<not> ends_with (om_location obj) ''/''"
    and "\<And>obj. obj \<in> set (lr_objects res) \<Longrightarrow> starts_with (om_location obj) (build_list_prefix cfg p) \<or>
      om_size obj = 0 \<and> (\<exists>n. build_list_prefix cfg p = om_location obj @ replicate n CHR ''/'')"
    and "\<And>q. q \<in> set (lr_common_prefixes res) \<Longrightarrow> starts_with (q @ ''/'') (build_list_prefix cfg p)"
    and "added_prefix rewrite a" and "client = (\<lambda>location. drop (length (build_list_prefix cfg [])) location)"
    and "encoded = (if enc = Some ''url'' then pe (\<lambda>c. \<not> is_ascii_alphanumeric c \<and> c \<notin> set ''-._~/'') else (\<lambda>s. s))"
    and "page = collect_list_entries pe fmt p enc res cfg rewrite"
    and "shown = filter (\<lambda>obj. \<not> folder_marker cfg (build_list_prefix cfg p) (lr_common_prefixes res) obj) (lr_objects res)"
  shows "map (\<lambda>c. (lc_key c, lc_size c, lc_last_modified c, lc_etag c)) (le_contents page) =
      map (\<lambda>obj. (encoded (a @ client (om_location obj)), om_size obj, fmt (om_last_modified obj),
             the_or [CHR 0x22, CHR 0x22] (om_e_tag obj))) shown
    \<and> map lcp_prefix (le_common_prefixes page) =
      map (\<lambda>q. encoded (a @ client (q @ ''/''))) (lr_common_prefixes res)
    \<and> (\<forall>obj \<in> set shown. \<exists>k. client (om_location obj) = p @ k \<and> om_location obj = build_list_prefix cfg (p @ k))"
proof (intro conjI)
  let ?root = "list_strip_prefix cfg"
  have client: "client (?root @ k) = k" for k by (simp add: assms(5) list_strip_prefix_asked)
  have enc: "s3_encode pe s (enc = Some ''url'') = encoded s" for s
    by (simp add: s3_encode_def assms(6) s3_encode_set_def[abs_def])
  have keys: "s3_encode pe (rewrite_key x ?root rewrite) (enc = Some ''url'') = encoded (a @ client x)"
    if x: "starts_with x (build_list_prefix cfg p)" for x
  proof -
    obtain k where x: "x = ?root @ p @ k" using x by (auto simp: starts_with_iff build_list_prefix_alt)
    show ?thesis unfolding x rewrite_key_adds[OF assms(4)] enc client ..
  qed
  have marker: "is_directory_marker cfg p (lr_common_prefixes res) obj \<longleftrightarrow>
      folder_marker cfg (build_list_prefix cfg p) (lr_common_prefixes res) obj" if "obj \<in> set (lr_objects res)" for obj
    using marker_is_folder[OF assms(1)[OF that]] .
  have under: "starts_with (om_location obj) (build_list_prefix cfg p)" if "obj \<in> set shown" for obj
    using that assms(2)[of obj] by (auto simp: assms(8) folder_marker_def)
  have "le_contents page = map (list_content pe fmt ?root rewrite (enc = Some ''url'')) shown"
    unfolding assms(7,8) collect_contents using marker by (simp cong: filter_cong)
  then show "map (\<lambda>c. (lc_key c, lc_size c, lc_last_modified c, lc_etag c)) (le_contents page) =
      map (\<lambda>obj. (encoded (a @ client (om_location obj)), om_size obj, fmt (om_last_modified obj),
             the_or [CHR 0x22, CHR 0x22] (om_e_tag obj))) shown"
    using keys[OF under] by (simp add: list_content_def)
  show "map lcp_prefix (le_common_prefixes page) =
      map (\<lambda>q. encoded (a @ client (q @ ''/''))) (lr_common_prefixes res)"
    using keys[OF assms(3)] by (simp add: assms(7) collect_list_entries_def Let_def)
  show "\<forall>obj \<in> set shown. \<exists>k. client (om_location obj) = p @ k \<and> om_location obj = build_list_prefix cfg (p @ k)"
    using under client by (fastforce simp: starts_with_iff build_list_prefix_alt)
qed

definition demo_prefix_config :: bucket_config where
  "demo_prefix_config = \<lparr>bc_name = ''b'', bc_backend_type = S3, bc_backend_prefix = Some ''root/'',
     bc_anonymous_access = False, bc_allowed_roles = [], bc_backend_options = Map.empty\<rparr>"

definition demo_listing :: list_result where
  "demo_listing = \<lparr>lr_common_prefixes = [''root/a/sub''],
     lr_objects = [\<lparr>om_location = ''root/a/x'', om_last_modified = 0, om_size = 3, om_e_tag = None\<rparr>]\<rparr>"

text \<open>The folder itself, an empty object that is no folder, and one with content; a prefix added.\<close>

definition demo_folder :: list_result where
  "demo_folder = \<lparr>lr_common_prefixes = [''root/a/sub''],
     lr_objects = [\<lparr>om_location = ''root/a'', om_last_modified = 0, om_size = 0, om_e_tag = None\<rparr>,
       \<lparr>om_location = ''root/a/.keep'', om_last_modified = 1, om_size = 0, om_e_tag = None\<rparr>,
       \<lparr>om_location = ''root/a/x'', om_last_modified = 2, om_size = 3, om_e_tag = Some ''t''\<rparr>]\<rparr>"

theorem listing_maps_back_witness:
  "map (\<lambda>c. (lc_key c, lc_size c)) (le_contents (collect_list_entries (\<lambda>_ s. s) (\<lambda>_. []) ''a/'' (Some ''url'')
      demo_folder demo_prefix_config (Some \<lparr>lw_strip_prefix = [], lw_add_prefix = ''m/''\<rparr>))) =
   [(''m/a/.keep'', 0), (''m/a/x'', 3)]"
proof -
  let ?asked = "build_list_prefix demo_prefix_config ''a/''"
  have asked: "?asked = ''root/a/''" "build_list_prefix demo_prefix_config [] = ''root/''"
    by (simp_all add: build_list_prefix_def demo_prefix_config_def trim_end_matches_def)
  have slash: "\<exists>n. ''/'' = replicate n CHR ''/''" by (rule exI[of _ 1]) simp
  have under: "starts_with (om_location obj) ?asked \<or>
      om_size obj = 0 \<and> (\<exists>n. ?asked = om_location obj @ replicate n CHR ''/'')"
    if "obj \<in> set (lr_objects demo_folder)" for obj
    using that unfolding asked by (simp add: demo_folder_def, elim disjE) (simp_all add: slash)
  have plain: "\<not> ends_with (om_location obj) ''/''" if "obj \<in> set (lr_objects demo_folder)" for obj
    using that by (auto simp: demo_folder_def ends_with_single)
  have common: "starts_with (q @ ''/'') ?asked" if "q \<in> set (lr_common_prefixes demo_folder)" for q
    using that unfolding asked by (simp add: demo_folder_def)
  have added: "added_prefix (Some \<lparr>lw_strip_prefix = [], lw_add_prefix = ''m/''\<rparr>) ''m/''"
    by (simp add: added_prefix_def ends_with_single)
  note page = listing_maps_back[where res = demo_folder and pe = "\<lambda>_ s. s" and fmt = "\<lambda>_. []" and enc = "Some ''url''",
      OF plain under common added refl refl refl refl, THEN conjunct1, THEN arg_cong[where f = "map (\<lambda>(k, n, t, e). (k, n))"]]
  show ?thesis
    using page unfolding asked
    by (simp add: demo_folder_def demo_prefix_config_def folder_marker_def slash comp_def)
qed

text \<open>
  What the scope check of a LIST sees and what is listed: the check reads the first
  \<open>prefix\<close> parameter, the listing uses the last, so they agree exactly when these do.
\<close>

theorem list_prefix_checked_and_used:
  "auth_key fp (ListBucket b (Some q)) = lq_prefix (parse_list_query_params fp (Some q)) \<longleftrightarrow>
     (case values_of ''prefix'' (fp q) of [] \<Rightarrow> True | v # vs \<Rightarrow> v = last (v # vs))"
  by (simp add: auth_key_first lq_prefix_last split: list.splits)

text \<open>
  C34. A listing stays inside the caller's scopes when the query gives one \<open>prefix\<close> and every
  scope prefix is closed by a slash: then each key the backend may return under the listed
  prefix is one the caller may list.
\<close>

theorem listing_stays_in_scope:
  assumes "authorize fp (Authenticated i) (ListBucket b (Some q)) cfg = Inr ()"
    and "values_of ''prefix'' (fp q) = [v]"
    and "\<And>sc p. sc \<in> set (id_allowed_scopes i) \<Longrightarrow> p \<in> set (sc_prefixes sc) \<Longrightarrow> ends_with p ''/''"
  shows "granted i b ActListBucket (lq_prefix (parse_list_query_params fp (Some q)) @ r)"
proof (rule granted_closed_append [OF _ assms(3)])
  show "granted i b ActListBucket (lq_prefix (parse_list_query_params fp (Some q)))"
    using assms(1,2) by (simp add: authorize_Authenticated_iff auth_key_first lq_prefix_last)
qed

definition scoped_identity :: "string list \<Rightarrow> authenticated_identity" where
  "scoped_identity ps = \<lparr>principal_name = ''p'', id_allowed_scopes =
     [\<lparr>sc_bucket = ''b'', sc_prefixes = ps, sc_actions = [ActListBucket]\<rparr>]\<rparr>"

theorem listing_stays_in_scope_witness:
  "granted (scoped_identity [''data/'']) ''b'' ActListBucket (lq_prefix (parse_list_query_params
     (\<lambda>_. [(''prefix'', ''data/x'')]) (Some ''prefix=data/x'')) @ ''yz'')"
  by (rule listing_stays_in_scope [where cfg = demo_prefix_config and v = "''data/x''"])
    (simp_all add: authorize_Authenticated_iff auth_key_first granted_def scoped_identity_def
      ends_with_single key_matches_prefix_covers [symmetric] key_matches_prefix_iff)

text \<open>
  Without those two conditions it does not.  A second \<open>prefix\<close> parameter lists a prefix
  the scopes do not grant, and a scope prefix without a closing slash lets its holder list the
  sibling keys that merely start with its text.
\<close>

theorem listing_leaves_scope:
  shows "authorize (\<lambda>_. [(''prefix'', ''data/''), (''prefix'', ''secret/'')])
      (Authenticated (scoped_identity [''data/''])) (ListBucket ''b'' (Some ''q'')) demo_prefix_config = Inr ()
    \<and> lq_prefix (parse_list_query_params (\<lambda>_. [(''prefix'', ''data/''), (''prefix'', ''secret/'')])
        (Some ''q'')) = ''secret/''
    \<and> \<not> granted (scoped_identity [''data/'']) ''b'' ActListBucket ''secret/''
    \<and> authorize (\<lambda>_. [(''prefix'', ''data'')])
        (Authenticated (scoped_identity [''data''])) (ListBucket ''b'' (Some ''q'')) demo_prefix_config = Inr ()
    \<and> starts_with ''data-private/k'' (lq_prefix (parse_list_query_params (\<lambda>_. [(''prefix'', ''data'')])
        (Some ''q'')))
    \<and> \<not> granted (scoped_identity [''data'']) ''b'' ActListBucket ''data-private/k''"
  by (simp add: authorize_Authenticated_iff auth_key_first lq_prefix_last granted_def
      scoped_identity_def key_matches_prefix_covers [symmetric] key_matches_prefix_iff
      ends_with_single)

end
