(* ===== verification/Middleware.thy ===== *)
theory Middleware
  imports RouteHandler Listing
begin

text \<open>
  \<open>crates/core/src/middleware.rs\<close>: the context a middleware sees, the record of a completed
  request, and the chain (\<open>Next::run\<close>).  What the code does to the outside world is a trace:
  every asynchronous step returns its outcome with the list of calls it made, so that the
  order of authorization and backend access is part of the result.  The typed extension map
  of a context is left out: nothing in the gateway reads it.
\<close>

subsection \<open>Calls and traces\<close>

record list_options =
  lo_offset :: "string option"
  lo_delimiter :: "string option"
  lo_max_keys :: "nat option"
  lo_page_token :: "string option"

datatype backend_call =
    CallRaw http_method string header_map string
  | CallList bucket_config "string option" list_options
  | CallForward forward_request

type_synonym 'a traced = "'a outcome \<times> backend_call list"

definition t_of :: "'a outcome \<Rightarrow> 'a traced" where
  "t_of r = (r, [])"

definition t_call :: "backend_call \<Rightarrow> 'a outcome \<Rightarrow> 'a traced" where
  "t_call c r = (r, [c])"

fun t_bind :: "'a traced \<Rightarrow> ('a \<Rightarrow> 'b traced) \<Rightarrow> 'b traced" where
  "t_bind (Ok a, w) f = (case f a of (r, w') \<Rightarrow> (r, w @ w'))"
| "t_bind (Err e, w) f = (Err e, w)"
| "t_bind (Panic, w) f = (Panic, w)"

lemma t_bind_of [simp]:
  "t_bind (t_of (Ok a)) f = f a"
  "t_bind (t_of (Err e)) f = (Err e, [])"
  "t_bind (t_of Panic) f = (Panic, [])"
  by (simp_all add: t_of_def split: prod.splits)

lemma t_bind_Ok:
  "t_bind m f = (Ok b, w) \<longleftrightarrow> (\<exists>a w1 w2. m = (Ok a, w1) \<and> f a = (Ok b, w2) \<and> w = w1 @ w2)"
  by (cases "(m, f)" rule: t_bind.cases) (auto split: prod.splits)

lemma t_bind_calls:
  "c \<in> set (snd (t_bind m f)) \<Longrightarrow> c \<in> set (snd m) \<or> (\<exists>a. fst m = Ok a \<and> c \<in> set (snd (f a)))"
  by (cases "(m, f)" rule: t_bind.cases) (auto split: prod.splits)

lemma snd_t_of [simp]: "snd (t_of r) = []" "fst (t_of r) = r"
  by (simp_all add: t_of_def)

lemma snd_t_call [simp]: "snd (t_call c r) = [c]" "fst (t_call c r) = r"
  by (simp_all add: t_call_def)

lemma snd_t_bind: "snd (t_bind m f) = snd m @ (case fst m of Ok a \<Rightarrow> snd (f a) | _ \<Rightarrow> [])"
  by (cases "(m, f)" rule: t_bind.cases) (auto split: prod.splits)

subsection \<open>Contexts\<close>

record completed_request =
  cq_request_id :: string
  cq_identity :: "resolved_identity option"
  cq_operation :: "s3_operation option"
  cq_bucket :: "string option"
  cq_status :: nat
  cq_response_bytes :: "u64 option"
  cq_request_bytes :: "u64 option"
  cq_was_forwarded :: bool
  cq_source_ip :: "string option"

record dispatch_context =
  dc_identity :: resolved_identity
  dc_operation :: s3_operation
  dc_bucket_config :: "bucket_config option"
  dc_headers :: header_map
  dc_source_ip :: "string option"
  dc_request_id :: string
  dc_list_rewrite :: "list_rewrite option"
  dc_display_name :: "string option"

type_synonym dispatch = "dispatch_context \<Rightarrow> handler_action traced"
type_synonym middleware = "dispatch_context \<Rightarrow> dispatch \<Rightarrow> handler_action traced"

text \<open>\<open>Next::run\<close>: the first middleware gets the rest of the chain as its \<open>next\<close>.\<close>

fun next_run :: "middleware list \<Rightarrow> dispatch \<Rightarrow> dispatch_context \<Rightarrow> handler_action traced" where
  "next_run [] dispatch ctx = dispatch ctx"
| "next_run (first # rest) dispatch ctx = first ctx (next_run rest dispatch)"

subsection \<open>The contract of a middleware\<close>

text \<open>
  \<open>next\<close> is consumed by its call, so a middleware answers for itself (a response or an error,
  with calls of its own) or hands a context on once and passes the outcome through.  What it
  hands on keeps the operation, the identity and the headers.
\<close>

definition same_request :: "dispatch_context \<Rightarrow> dispatch_context \<Rightarrow> bool" where
  "same_request a b \<longleftrightarrow> dc_operation a = dc_operation b \<and> dc_identity a = dc_identity b \<and>
     dc_headers a = dc_headers b \<and> dc_request_id a = dc_request_id b"

fun own_answer :: "handler_action outcome \<Rightarrow> bool" where
  "own_answer (Ok (Response _)) = True"
| "own_answer (Ok _) = False"
| "own_answer (Err _) = True"
| "own_answer Panic = True"

locale lawful_middleware =
  fixes handle :: middleware
  assumes handle_law:
    "own_answer (fst (handle ctx next)) \<or>
     (\<exists>ctx' w. same_request ctx ctx' \<and> handle ctx next = (fst (next ctx'), w @ snd (next ctx')))"

lemma same_request_refl [simp]: "same_request a a"
  by (simp add: same_request_def)

lemma same_request_trans: "same_request a b \<Longrightarrow> same_request b c \<Longrightarrow> same_request a c"
  by (simp add: same_request_def)

context lawful_middleware
begin

lemma forwards_only_next:
  assumes "fst (handle ctx next) = Ok a" "\<not> own_answer (Ok a)"
  shows "\<exists>ctx'. same_request ctx ctx' \<and> fst (next ctx') = Ok a"
  using handle_law [of ctx "next"] assms by (metis fst_conv)

end

text \<open>A chain of lawful middleware forwards only what the dispatch at its end forwards.\<close>

lemma next_run_origin:
  assumes "\<And>m. m \<in> set ms \<Longrightarrow> lawful_middleware m"
    and "fst (next_run ms dispatch ctx) = Ok a" "\<not> own_answer (Ok a)"
  shows "\<exists>ctx'. same_request ctx ctx' \<and> fst (dispatch ctx') = Ok a"
  using assms
proof (induction ms arbitrary: ctx)
  case Nil
  then show ?case by (auto intro: exI [of _ ctx])
next
  case (Cons m ms)
  have "lawful_middleware m" using Cons.prems(1) by simp
  then obtain ctx' where c: "same_request ctx ctx'" "fst (next_run ms dispatch ctx') = Ok a"
    using lawful_middleware.forwards_only_next [of m ctx "next_run ms dispatch" a] Cons.prems(2,3)
    by auto
  with Cons.IH [of ctx'] Cons.prems(1,3) show ?case
    by (meson list.set_intros(2) same_request_trans)
qed

lemma next_run_append: "next_run (xs @ ys) d = next_run xs (next_run ys d)"
  by (induction xs) auto

end
