(* ===== verification/Request.thy ===== *)
theory Request
  imports Types
begin

text \<open>
  \<open>crates/core/src/api/request.rs\<close>: from method, path, query and headers to an
  \<open>S3Operation\<close>, with the key validation every keyed operation goes through.
  Third-party functions are parameters: \<open>fp\<close> is \<open>url::form_urlencoded::parse\<close>, \<open>pd\<close> is
  \<open>percent_decode_str(..).decode_utf8()\<close> (\<open>None\<close> for bytes that are not UTF-8).
\<close>

datatype host_style = PathStyle | VirtualHosted string

subsection \<open>Debug formatting of a string in an error message\<close>

definition hex_digit :: "nat \<Rightarrow> char" where
  "hex_digit n = (if n < 10 then char_of (48 + n) else char_of (87 + n))"

text \<open>
  Text is bytes here.  Those from 128 on stay as they are, as do the printable characters they encode in Rust;
  the few that Rust escapes as not printable are not told apart.
\<close>

definition debug_char :: "char \<Rightarrow> string" where
  "debug_char c =
     (let n = (of_char c :: nat); bs = CHR 0x5C in
      if n = 34 \<or> n = 92 then [bs, c]
      else if n = 0 then [bs, CHR ''0'']
      else if n = 9 then [bs, CHR ''t'']
      else if n = 10 then [bs, CHR ''n'']
      else if n = 13 then [bs, CHR ''r'']
      else if n < 16 then [bs, CHR ''u'', CHR 0x7B, hex_digit n, CHR 0x7D]
      else if n < 32 \<or> n = 127 then
        [bs, CHR ''u'', CHR 0x7B, hex_digit (n div 16), hex_digit (n mod 16), CHR 0x7D]
      else [c])"

definition debug_str :: "string \<Rightarrow> string" where
  "debug_str s = CHR 0x22 # concat (map debug_char s) @ [CHR 0x22]"

subsection \<open>Keys\<close>

definition degenerate_segment :: "string \<Rightarrow> bool" where
  "degenerate_segment seg \<longleftrightarrow> seg = [] \<or> seg = ''.'' \<or> seg = ''..''"

definition validate_key :: "string \<Rightarrow> proxy_error + unit" where
  "validate_key key =
     (if key = [] then Inr ()
      else if list_ex degenerate_segment (split_on CHR ''/'' key)
        \<or> list_ex (\<lambda>b. (of_char b :: nat) < 32 \<or> (of_char b :: nat) = 127) key
      then Inl (InvalidRequest (''invalid object key '' @ debug_str key @
        '': empty, `.`, or `..` path segments, leading/trailing slashes, and control characters are not allowed''))
      else Inr ())"

definition parse_path_style :: "string \<Rightarrow> proxy_error + (string \<times> string)" where
  "parse_path_style path =
     (let trimmed = trim_start_matches CHR ''/'' path in
      if trimmed = [] then Inl (InvalidRequest ''empty path'')
      else (case split_once CHR ''/'' trimmed of
              Some (bucket, key) \<Rightarrow> Inr (bucket, key)
            | None \<Rightarrow> Inr (trimmed, [])))"

definition parse_query_params ::
  "(string \<Rightarrow> (string \<times> string) list) \<Rightarrow> string option \<Rightarrow> (string \<times> string) list" where
  "parse_query_params fp query = (case query of None \<Rightarrow> [] | Some q \<Rightarrow> fp q)"

definition find_param :: "string \<Rightarrow> (string \<times> string) list \<Rightarrow> string option" where
  "find_param k ps = map_option snd (List.find (\<lambda>(k', _). k' = k) ps)"

definition has_param :: "string \<Rightarrow> (string \<times> string) list \<Rightarrow> bool" where
  "has_param k ps = list_ex (\<lambda>(k', _). k' = k) ps"

subsection \<open>The copy source\<close>

definition parse_copy_source ::
  "(string \<Rightarrow> string option) \<Rightarrow> string \<Rightarrow> proxy_error + (string \<times> string \<times> string option)" where
  "parse_copy_source pd raw =
     (let s = the_or raw (strip_prefix ''/'' raw);
          (path, version) = (case split_once_str ''?versionId='' s of
             Some (p, v) \<Rightarrow> (p, if v = [] then None else Some v)
           | None \<Rightarrow> (s, None))
      in case split_once CHR ''/'' path of
           None \<Rightarrow> Inl (InvalidRequest ''x-amz-copy-source must be `bucket/key`'')
         | Some (bucket, key_encoded) \<Rightarrow>
             if bucket = [] then Inl (InvalidRequest ''x-amz-copy-source has an empty bucket'')
             else (case pd key_encoded of
                     None \<Rightarrow> Inl (InvalidRequest ''x-amz-copy-source key is not valid UTF-8'')
                   | Some key \<Rightarrow>
                       if key = [] then Inl (InvalidRequest ''x-amz-copy-source has an empty key'')
                       else Inr (bucket, key, version)))"

definition build_copy_object ::
  "(string \<Rightarrow> (string \<times> string) list) \<Rightarrow> (string \<Rightarrow> string option) \<Rightarrow> string \<Rightarrow> string \<Rightarrow> string
   \<Rightarrow> string option \<Rightarrow> proxy_error + s3_operation" where
  "build_copy_object fp pd dest_bucket dest_key copy_source query =
     (if has_param ''uploadId'' (parse_query_params fp query)
      then Inl (NotImplemented ''server-side multipart copy (UploadPartCopy) is not supported'')
      else (case validate_key dest_key of
              Inl e \<Rightarrow> Inl e
            | Inr _ \<Rightarrow>
                (case parse_copy_source pd copy_source of
                   Inl e \<Rightarrow> Inl e
                 | Inr (src_bucket, src_key, src_version) \<Rightarrow>
                     (case validate_key src_key of
                        Inl e \<Rightarrow> Inl e
                      | Inr _ \<Rightarrow>
                          Inr (CopyObject dest_bucket dest_key src_bucket src_key src_version)))))"

subsection \<open>Operations\<close>

definition build_s3_operation ::
  "(string \<Rightarrow> (string \<times> string) list) \<Rightarrow> http_method \<Rightarrow> string \<Rightarrow> string \<Rightarrow> string option
   \<Rightarrow> proxy_error + s3_operation" where
  "build_s3_operation fp method bucket key query =
     (case validate_key key of
        Inl e \<Rightarrow> Inl e
      | Inr _ \<Rightarrow>
         (let params = parse_query_params fp query;
              upload_id = find_param ''uploadId'' params;
              has_uploads = has_param ''uploads'' params;
              has_delete = has_param ''delete'' params
          in case method of
               GET \<Rightarrow> Inr (if key = [] then ListBucket bucket query else GetObject bucket key None)
             | HEAD \<Rightarrow> Inr (HeadObject bucket key)
             | PUT \<Rightarrow>
                 (case upload_id of
                    Some uid \<Rightarrow>
                      (case Option.bind (find_param ''partNumber'' params) parse_u32 of
                         None \<Rightarrow> Inl (InvalidRequest ''missing partNumber'')
                       | Some part \<Rightarrow> Inr (UploadPart bucket key uid part))
                  | None \<Rightarrow> Inr (PutObject bucket key))
             | POST \<Rightarrow>
                 if has_uploads then Inr (CreateMultipartUpload bucket key)
                 else (case upload_id of
                         Some uid \<Rightarrow> Inr (CompleteMultipartUpload bucket key uid)
                       | None \<Rightarrow>
                           if has_delete then Inr (DeleteObjects bucket)
                           else Inl (InvalidRequest ''unsupported POST operation''))
             | DELETE \<Rightarrow>
                 (case upload_id of
                    Some uid \<Rightarrow> Inr (AbortMultipartUpload bucket key uid)
                  | None \<Rightarrow>
                      if key \<noteq> [] then Inr (DeleteObject bucket key)
                      else Inl (InvalidRequest ''unsupported DELETE operation''))
             | OtherMethod m \<Rightarrow> Inl (InvalidRequest (''unsupported method: '' @ m))))"

definition parse_s3_request ::
  "(string \<Rightarrow> (string \<times> string) list) \<Rightarrow> (string \<Rightarrow> string option) \<Rightarrow> http_method \<Rightarrow> string
   \<Rightarrow> string option \<Rightarrow> header_map \<Rightarrow> host_style \<Rightarrow> string option \<Rightarrow> proxy_error + s3_operation" where
  "parse_s3_request fp pd method uri_path query headers host_style copy_source_override =
     (if host_style = PathStyle \<and> trim_start_matches CHR ''/'' uri_path = [] then
        (if method = GET then Inr ListBuckets
         else Inl (InvalidRequest ''unsupported operation on /''))
      else
        (case (case host_style of
                 PathStyle \<Rightarrow> parse_path_style uri_path
               | VirtualHosted bucket \<Rightarrow> Inr (bucket, trim_start_matches CHR ''/'' uri_path)) of
           Inl e \<Rightarrow> Inl e
         | Inr (bucket, key) \<Rightarrow>
             if method = PUT \<and> hm_contains headers ''x-amz-copy-source'' then
               (case (case copy_source_override of
                        Some mapped \<Rightarrow> Inr mapped
                      | None \<Rightarrow> ok_or (InvalidRequest ''x-amz-copy-source is not valid UTF-8'')
                                  (hm_str headers ''x-amz-copy-source'')) of
                  Inl e \<Rightarrow> Inl e
                | Inr copy_source \<Rightarrow> build_copy_object fp pd bucket key copy_source query)
             else build_s3_operation fp method bucket key query))"

subsection \<open>Specification of a key and its lemmas\<close>

definition safe_key :: "string \<Rightarrow> bool" where
  "safe_key key \<longleftrightarrow>
     list_all (\<lambda>seg. seg \<noteq> [] \<and> seg \<noteq> ''.'' \<and> seg \<noteq> ''..'') (split_on CHR ''/'' key) \<and>
     list_all (\<lambda>b. 32 \<le> (of_char b :: nat) \<and> (of_char b :: nat) \<noteq> 127) key"

lemma validate_key_iff: "validate_key key = Inr u \<longleftrightarrow> key = [] \<or> safe_key key"
  by (auto simp: validate_key_def safe_key_def degenerate_segment_def list_ex_iff list_all_iff not_less
      dest: leD)

lemma validate_key_error: "validate_key key = Inl e \<Longrightarrow> status_code e = 400"
  by (auto simp: validate_key_def split: if_splits)

lemma safe_key_no_leading: "safe_key key \<Longrightarrow> \<not> starts_with key ''/''"
  by (cases key) (auto simp: safe_key_def)

lemma split_on_last_Nil: "ends_with s [c] \<Longrightarrow> last (split_on c s) = []"
proof -
  have "split_on c (r @ [c]) = split_on c r @ [[]]" for r
    by (induction r) (auto split: list.splits)
  then show "ends_with s [c] \<Longrightarrow> last (split_on c s) = []"
    by (auto simp: ends_with_iff)
qed

lemma safe_key_no_trailing: "safe_key key \<Longrightarrow> \<not> ends_with key ''/''"
  using split_on_last_Nil [of key "CHR ''/''"] last_in_set [OF split_on_not_Nil [of "CHR ''/''" key]]
  by (auto simp: safe_key_def list_all_iff)

lemma safe_key_not_Nil: "safe_key key \<Longrightarrow> key \<noteq> []"
  by (auto simp: safe_key_def)

lemma parse_path_style_first:
  "parse_path_style (CHR ''/'' # b @ CHR ''/'' # k) = Inr (b, k)"
  if "b \<noteq> []" "CHR ''/'' \<notin> set b"
proof -
  have "\<not> starts_with (b @ CHR ''/'' # k) ''/''" using that by (cases b) auto
  then show ?thesis using that
    by (simp add: parse_path_style_def trim_start_matches_id Let_def)
qed

lemma parse_path_style_bucket:
  "parse_path_style (CHR ''/'' # b) = Inr (b, [])" if "b \<noteq> []" "CHR ''/'' \<notin> set b"
proof -
  have "\<not> starts_with b ''/''" using that by (cases b) auto
  moreover have "split_once CHR ''/'' b = None" using that by (simp add: split_once_None)
  ultimately show ?thesis using that
    by (simp add: parse_path_style_def trim_start_matches_id Let_def)
qed

lemma build_s3_operation_safe:
  assumes "build_s3_operation fp m b k q = Inr op"
  shows "op_bucket op = Some b \<and> (op_key op = [] \<or> safe_key (op_key op)) \<and>
    (op_key op = k \<or> op_key op = [])"
  using assms
  by (auto simp: build_s3_operation_def Let_def validate_key_iff
      split: sum.splits http_method.splits option.splits if_splits)

lemma build_s3_operation_unversioned:
  "build_s3_operation fp m b k q \<noteq> Inr (GetObject b' k' (Some v))"
  by (auto simp: build_s3_operation_def Let_def
      split: sum.splits http_method.splits option.splits if_splits)

lemma build_s3_operation_method:
  "build_s3_operation fp m b k q = Inr op \<Longrightarrow> op_method op = m"
  by (auto simp: build_s3_operation_def Let_def
      split: sum.splits http_method.splits option.splits if_splits)

lemma build_copy_object_safe:
  assumes "build_copy_object fp pd b k cs q = Inr op"
  shows "\<exists>sb sk sv. op = CopyObject b k sb sk sv \<and> (k = [] \<or> safe_key k) \<and> sb \<noteq> [] \<and> safe_key sk"
  using assms
  by (auto simp: build_copy_object_def parse_copy_source_def Let_def validate_key_iff
      split: sum.splits option.splits if_splits prod.splits)

lemma parse_s3_request_cases:
  assumes "parse_s3_request fp pd m u q h hs ov = Inr op"
  shows "(op = ListBuckets \<and> m = GET) \<or> (\<exists>b k. build_s3_operation fp m b k q = Inr op) \<or>
    (m = PUT \<and> (\<exists>b k cs. build_copy_object fp pd b k cs q = Inr op))"
  using assms
  by (auto simp: parse_s3_request_def split: sum.splits option.splits if_splits host_style.splits) blast+

lemma op_action_versioned: "op_action op = ActGetObjectVersion \<longleftrightarrow> (\<exists>b k v. op = GetObject b k (Some v))"
  by (cases op rule: op_action.cases) simp_all

lemma build_s3_operation_no_copy: "build_s3_operation fp m b k q \<noteq> Inr (CopyObject b' k' sb sk sv)"
  by (auto simp: build_s3_operation_def Let_def
      split: sum.splits http_method.splits option.splits if_splits)

subsection \<open>Properties\<close>

text \<open>
  The keys of an operation, the source of a copy included.
\<close>

definition op_keys :: "s3_operation \<Rightarrow> string list" where
  "op_keys op = op_key op # (case op of CopyObject _ _ _ sk _ \<Rightarrow> [sk] | _ \<Rightarrow> [])"

text \<open>
  C4. Whatever the path, the query and the headers hold, an operation that parsing accepts
  names only safe keys: no empty, \<open>.\<close> or \<open>..\<close> segment, no slash at either end and no control
  byte, in the destination and in the copy source alike; it has the method of the request,
  and no read of a named version ever comes out of a request line.
\<close>

theorem parsed_operation_safe:
  assumes "parse_s3_request fp pd m u q h hs ov = Inr op"
  shows "list_all (\<lambda>k. k = [] \<or> safe_key k) (op_keys op) \<and> op_method op = m
    \<and> op_action op \<noteq> ActGetObjectVersion"
  using parse_s3_request_cases [OF assms]
proof (elim disjE exE conjE)
  assume "op = ListBuckets" "m = GET"
  then show ?thesis by (simp add: op_keys_def)
next
  fix b k assume plain: "build_s3_operation fp m b k q = Inr op"
  then have "op_action op \<noteq> ActGetObjectVersion" "op_keys op = [op_key op]"
    using build_s3_operation_unversioned build_s3_operation_no_copy
    by (auto simp: op_action_versioned op_keys_def split: s3_operation.splits)
  then show ?thesis
    using build_s3_operation_safe [OF plain] build_s3_operation_method [OF plain] by simp
next
  fix b k cs assume "m = PUT" "build_copy_object fp pd b k cs q = Inr op"
  from build_copy_object_safe [OF this(2)] this(1) show ?thesis
    by (auto simp: op_keys_def)
qed

theorem parsed_operation_safe_witness:
  "list_all (\<lambda>k. k = [] \<or> safe_key k) (op_keys (CopyObject ''b'' ''d/e'' ''s'' ''x/y'' None))
    \<and> op_method (CopyObject ''b'' ''d/e'' ''s'' ''x/y'' None) = PUT
    \<and> op_action (CopyObject ''b'' ''d/e'' ''s'' ''x/y'' None) \<noteq> ActGetObjectVersion"
  by (rule parsed_operation_safe [of "\<lambda>_. []" Some PUT "''/b/d/e''" None
        "[(''x-amz-copy-source'', ''/s/x/y'')]" PathStyle None]) code_simp

end
