(* ===== verification/SigV4.thy ===== *)
theory SigV4
  imports Types
begin

text \<open>
  \<open>crates/core/src/auth/sigv4.rs\<close> (parsing and verifying an inbound signature) and
  \<open>crates/core/src/backend/request_signer.rs\<close> (signing an outbound request).
  The primitives of the crypto crates are parameters, collected in a record: the hex SHA-256
  digest, HMAC-SHA256 (or the message of the error its constructor gives) and hex encoding;
  so is chrono's formatting of the time, already applied.
\<close>

record crypto =
  cr_sha256_hex :: "string \<Rightarrow> string"
  cr_hmac :: "string \<Rightarrow> string \<Rightarrow> string + string"
  cr_hex :: "string \<Rightarrow> string"

text \<open>The parts of a \<open>url::Url\<close> the signer reads.\<close>

record parsed_url =
  url_str :: string
  url_host :: "string option"
  url_port :: "nat option"
  url_path :: string
  url_query :: "string option"

record sigv4_auth =
  sa_access_key_id :: string
  sa_date_stamp :: string
  sa_region :: string
  sa_service :: string
  sa_signed_headers :: "string list"
  sa_signature :: string

subsection \<open>Parsing the Authorization header\<close>

fun auth_part :: "string option \<times> string option \<times> string option \<Rightarrow> string
    \<Rightarrow> string option \<times> string option \<times> string option" where
  "auth_part (cred, sh, sig) part =
     (case strip_prefix ''Credential='' part of
        Some val \<Rightarrow> (Some val, sh, sig)
      | None \<Rightarrow>
         (case strip_prefix ''SignedHeaders='' part of
            Some val \<Rightarrow> (cred, Some val, sig)
          | None \<Rightarrow>
             (case strip_prefix ''Signature='' part of
                Some val \<Rightarrow> (cred, sh, Some val)
              | None \<Rightarrow> (cred, sh, sig))))"

definition parse_sigv4_auth :: "string \<Rightarrow> proxy_error + sigv4_auth" where
  "parse_sigv4_auth auth_header =
     (case strip_prefix ''AWS4-HMAC-SHA256 '' auth_header of
        None \<Rightarrow> Inl (InvalidRequest ''invalid auth scheme'')
      | Some rest \<Rightarrow>
         (case foldl auth_part (None, None, None) (split_str '', '' rest) of
            (None, _, _) \<Rightarrow> Inl (InvalidRequest ''missing Credential'')
          | (Some _, None, _) \<Rightarrow> Inl (InvalidRequest ''missing SignedHeaders'')
          | (Some _, Some _, None) \<Rightarrow> Inl (InvalidRequest ''missing Signature'')
          | (Some credential, Some signed_headers, Some signature) \<Rightarrow>
              (let cred_parts = split_on CHR ''/'' credential in
               if length cred_parts \<noteq> 5 \<or> cred_parts ! 4 \<noteq> ''aws4_request''
               then Inl (InvalidRequest ''malformed credential scope'')
               else Inr \<lparr>sa_access_key_id = cred_parts ! 0, sa_date_stamp = cred_parts ! 1,
                         sa_region = cred_parts ! 2, sa_service = cred_parts ! 3,
                         sa_signed_headers = split_on CHR '';'' signed_headers,
                         sa_signature = signature\<rparr>)))"

subsection \<open>Canonical forms and the signing key\<close>

definition canonicalize_query_string :: "string \<Rightarrow> string" where
  "canonicalize_query_string query =
     (if query = [] then []
      else join_with ''&''
        (sort (map (\<lambda>p. if CHR ''='' \<in> set p then p else p @ ''='')
          (filter (\<lambda>p. p \<noteq> []) (split_on CHR ''&'' query)))))"

definition hmac_sha256 :: "crypto \<Rightarrow> string \<Rightarrow> string \<Rightarrow> proxy_error + string" where
  "hmac_sha256 cr key data = map_error Internal (cr_hmac cr key data)"

definition derive_signing_key ::
  "crypto \<Rightarrow> string \<Rightarrow> string \<Rightarrow> string \<Rightarrow> string \<Rightarrow> proxy_error + string" where
  "derive_signing_key cr secret date_stamp region service =
     (case hmac_sha256 cr (''AWS4'' @ secret) date_stamp of
        Inl e \<Rightarrow> Inl e
      | Inr k_date \<Rightarrow>
         (case hmac_sha256 cr k_date region of
            Inl e \<Rightarrow> Inl e
          | Inr k_region \<Rightarrow>
             (case hmac_sha256 cr k_region service of
                Inl e \<Rightarrow> Inl e
              | Inr k_service \<Rightarrow> hmac_sha256 cr k_service ''aws4_request'')))"

definition canonical_header :: "header_map \<Rightarrow> string \<Rightarrow> string" where
  "canonical_header headers name =
     name @ '':'' @ trim_ws (the_or [] (hm_str headers name)) @ [CHR 0x0A]"

definition canonical_request ::
  "http_method \<Rightarrow> string \<Rightarrow> string \<Rightarrow> header_map \<Rightarrow> string list \<Rightarrow> string \<Rightarrow> string" where
  "canonical_request method uri_path query headers names payload_hash =
     join_with [CHR 0x0A]
       [method_str method, uri_path, canonicalize_query_string query,
        concat (map (canonical_header headers) names), join_with '';'' names, payload_hash]"

definition credential_scope :: "string \<Rightarrow> string \<Rightarrow> string \<Rightarrow> string" where
  "credential_scope date_stamp region service =
     date_stamp @ ''/'' @ region @ ''/'' @ service @ ''/aws4_request''"

definition string_to_sign :: "crypto \<Rightarrow> string \<Rightarrow> string \<Rightarrow> string \<Rightarrow> string" where
  "string_to_sign cr amz_date scope creq =
     join_with [CHR 0x0A] [''AWS4-HMAC-SHA256'', amz_date, scope, cr_sha256_hex cr creq]"

subsection \<open>Verification\<close>

definition byte_of :: "char \<Rightarrow> u8" where
  "byte_of c = of_nat (of_char c)"

definition constant_time_eq :: "u8 list \<Rightarrow> u8 list \<Rightarrow> bool" where
  "constant_time_eq a b =
     (if length a \<noteq> length b then False
      else foldl (\<lambda>acc (x, y). or acc (xor x y)) 0 (zip a b) = 0)"

definition verify_sigv4_signature ::
  "crypto \<Rightarrow> http_method \<Rightarrow> string \<Rightarrow> string \<Rightarrow> header_map \<Rightarrow> sigv4_auth \<Rightarrow> string \<Rightarrow> string
   \<Rightarrow> proxy_error + bool" where
  "verify_sigv4_signature cr method uri_path query_string headers auth secret payload_hash =
     (let creq = canonical_request method uri_path query_string headers (sa_signed_headers auth)
                   payload_hash;
          scope = credential_scope (sa_date_stamp auth) (sa_region auth) (sa_service auth);
          amz_date = the_or [] (hm_str headers ''x-amz-date'');
          sts = string_to_sign cr amz_date scope creq
      in case derive_signing_key cr secret (sa_date_stamp auth) (sa_region auth) (sa_service auth) of
           Inl e \<Rightarrow> Inl e
         | Inr signing_key \<Rightarrow>
            (case hmac_sha256 cr signing_key sts of
               Inl e \<Rightarrow> Inl e
             | Inr mac \<Rightarrow>
                 Inr (constant_time_eq (map byte_of (cr_hex cr mac)) (map byte_of (sa_signature auth)))))"

subsection \<open>Outbound signing\<close>

record s3_request_signer =
  sg_access_key_id :: string
  sg_secret_access_key :: string
  sg_region :: string
  sg_service :: string
  sg_session_token :: "string option"

definition new_signer :: "string \<Rightarrow> string \<Rightarrow> string \<Rightarrow> string option \<Rightarrow> s3_request_signer" where
  "new_signer ak sk region token =
     \<lparr>sg_access_key_id = ak, sg_secret_access_key = sk, sg_region = region, sg_service = ''s3'',
      sg_session_token = token\<rparr>"

definition host_header :: "string \<Rightarrow> nat option \<Rightarrow> string" where
  "host_header host port = (case port of Some p \<Rightarrow> host @ '':'' @ nat_to_string p | None \<Rightarrow> host)"

text \<open>
  The headers set before signing.  A value that is no valid header value makes \<open>parse().unwrap()\<close>
  panic.
\<close>

definition insert_or_panic :: "string \<Rightarrow> string \<Rightarrow> header_map \<Rightarrow> header_map outcome" where
  "insert_or_panic n v h = (if hv_valid v then Ok (hm_insert n v h) else Panic)"

definition signing_headers ::
  "s3_request_signer \<Rightarrow> parsed_url \<Rightarrow> string \<Rightarrow> string \<Rightarrow> header_map \<Rightarrow> header_map outcome" where
  "signing_headers sg url amz_date payload_hash headers =
     outcome_bind (insert_or_panic ''x-amz-date'' amz_date headers) (\<lambda>h1.
     outcome_bind (insert_or_panic ''x-amz-content-sha256'' payload_hash h1) (\<lambda>h2.
     outcome_bind (case sg_session_token sg of
                     Some token \<Rightarrow> insert_or_panic ''x-amz-security-token'' token h2
                   | None \<Rightarrow> Ok h2) (\<lambda>h3.
     case url_host url of
       None \<Rightarrow> Err (Internal ''no host in URL'')
     | Some host \<Rightarrow> insert_or_panic ''host'' (host_header host (url_port url)) h3)))"

definition authorization_value ::
  "s3_request_signer \<Rightarrow> string \<Rightarrow> string list \<Rightarrow> string \<Rightarrow> string" where
  "authorization_value sg date_stamp names signature =
     ''AWS4-HMAC-SHA256 Credential='' @ sg_access_key_id sg @ ''/'' @
     credential_scope date_stamp (sg_region sg) (sg_service sg) @
     '', SignedHeaders='' @ join_with '';'' names @ '', Signature='' @ signature"

definition sign_request ::
  "crypto \<Rightarrow> s3_request_signer \<Rightarrow> string \<Rightarrow> string \<Rightarrow> http_method \<Rightarrow> parsed_url \<Rightarrow> header_map
   \<Rightarrow> string \<Rightarrow> header_map outcome" where
  "sign_request cr sg date_stamp amz_date method url headers payload_hash =
     outcome_bind (signing_headers sg url amz_date payload_hash headers) (\<lambda>h.
       let names = sort (hm_keys h);
           creq = canonical_request method (url_path url) (the_or [] (url_query url)) h names payload_hash;
           scope = credential_scope date_stamp (sg_region sg) (sg_service sg);
           sts = string_to_sign cr amz_date scope creq
       in outcome_bind (of_result (derive_signing_key cr (sg_secret_access_key sg) date_stamp
                                     (sg_region sg) (sg_service sg))) (\<lambda>signing_key.
          outcome_bind (of_result (hmac_sha256 cr signing_key sts)) (\<lambda>mac.
          insert_or_panic ''authorization'' (authorization_value sg date_stamp names (cr_hex cr mac)) h)))"

definition hash_payload :: "crypto \<Rightarrow> string \<Rightarrow> string" where
  "hash_payload cr payload = cr_sha256_hex cr payload"

definition unsigned_payload :: string where
  "unsigned_payload = ''UNSIGNED-PAYLOAD''"

subsection \<open>Comparing signatures\<close>

lemma or_xor_zero: "or a (xor x y) = (0::u8) \<longleftrightarrow> a = 0 \<and> x = y"
proof -
  have "xor x y = 0 \<longleftrightarrow> x = y"
    by (metis xor_self_eq xor.assoc xor.right_neutral xor.left_neutral)
  then show ?thesis by (simp add: or_eq_0_iff)
qed

lemma fold_xor_zero:
  "foldl (\<lambda>acc (x, y). or acc (xor x y)) a (zip xs ys) = (0::u8)
     \<longleftrightarrow> a = 0 \<and> (\<forall>(x, y) \<in> set (zip xs ys). x = y)"
proof (induction xs arbitrary: a ys)
  case (Cons x xs)
  then show ?case by (cases ys) (auto simp: or_xor_zero)
qed simp

lemma constant_time_eq_iff: "constant_time_eq a b \<longleftrightarrow> a = b"
proof (cases "length a = length b")
  case True
  then have "(\<forall>(x, y) \<in> set (zip a b). x = y) \<longleftrightarrow> a = b"
    by (induction a b rule: list_induct2) auto
  with True show ?thesis by (simp add: constant_time_eq_def fold_xor_zero)
qed (auto simp: constant_time_eq_def)

lemma byte_of_inj: "inj byte_of"
proof (rule injI)
  fix c d
  assume "byte_of c = byte_of d"
  then have "(of_char c :: nat) = of_char d"
    by (simp add: byte_of_def of_nat_eq_iff word_of_nat_eq_iff take_bit_nat_eq_self)
  then show "c = d" by simp
qed

lemma constant_time_eq_bytes: "constant_time_eq (map byte_of a) (map byte_of b) \<longleftrightarrow> a = b"
  by (simp add: constant_time_eq_iff inj_map_eq_map [OF byte_of_inj])

subsection \<open>The canonical query\<close>

definition query_item :: "string \<Rightarrow> string" where
  "query_item p = (if CHR ''='' \<in> set p then p else p @ ''='')"

lemma canonicalize_query_string_alt:
  "canonicalize_query_string q =
     join_with ''&'' (sort (map query_item (filter (\<lambda>p. p \<noteq> []) (split_on CHR ''&'' q))))"
proof -
  have "query_item = (\<lambda>p. if CHR ''='' \<in> set p then p else p @ ''='')"
    by (simp add: fun_eq_iff query_item_def)
  then show ?thesis by (simp add: canonicalize_query_string_def)
qed

lemma canonicalize_query_perm:
  assumes "mset (split_on CHR ''&'' p) = mset (split_on CHR ''&'' q)"
  shows "canonicalize_query_string p = canonicalize_query_string q"
proof -
  have "mset (map query_item (filter (\<lambda>p. p \<noteq> []) (split_on CHR ''&'' p)))
      = mset (map query_item (filter (\<lambda>p. p \<noteq> []) (split_on CHR ''&'' q)))"
    using assms by (simp add: mset_filter)
  then have "sort (map query_item (filter (\<lambda>p. p \<noteq> []) (split_on CHR ''&'' p)))
      = sort (map query_item (filter (\<lambda>p. p \<noteq> []) (split_on CHR ''&'' q)))"
    by (metis properties_for_sort mset_sort sorted_sort)
  then show ?thesis by (simp add: canonicalize_query_string_alt)
qed

lemma query_item_idem: "query_item (query_item p) = query_item p"
  by (simp add: query_item_def)

lemma query_item_clean: "CHR ''&'' \<notin> set p \<Longrightarrow> CHR ''&'' \<notin> set (query_item p)"
  by (simp add: query_item_def)

lemma canonicalize_query_idem:
  "canonicalize_query_string (canonicalize_query_string q) = canonicalize_query_string q"
proof -
  define items where "items = sort (map query_item (filter (\<lambda>p. p \<noteq> []) (split_on CHR ''&'' q)))"
  have sorted: "sorted items" by (simp add: items_def)
  have fixed: "query_item p = p \<and> p \<noteq> [] \<and> CHR ''&'' \<notin> set p" if "p \<in> set items" for p
    using that by (auto simp: items_def query_item_idem query_item_clean dest: split_on_pieces)
      (auto simp: query_item_def split: if_splits)
  have q: "canonicalize_query_string q = join_with ''&'' items"
    by (simp add: canonicalize_query_string_alt items_def)
  show ?thesis
  proof (cases "items = []")
    case True
    then have "canonicalize_query_string q = []" using q by simp
    then show ?thesis by (simp add: canonicalize_query_string_def)
  next
    case False
    then have "split_on CHR ''&'' (join_with ''&'' items) = items"
      using fixed by (intro split_on_join_with) auto
    moreover have "filter (\<lambda>p. p \<noteq> []) items = items" "map query_item items = items"
      using fixed by (auto intro!: filter_True map_idI)
    ultimately show ?thesis
      using sorted unfolding q
      by (simp add: canonicalize_query_string_alt [of "join_with ''&'' items"] sorted_sort_id)
  qed
qed

subsection \<open>Signing, then verifying\<close>

text \<open>
  What the wire format needs of the parts that are put between separators: none holds the
  separator itself.  Header names are lower-case tokens.
\<close>

definition clean_part :: "string \<Rightarrow> bool" where
  "clean_part s \<longleftrightarrow> CHR ''/'' \<notin> set s \<and> CHR '','' \<notin> set s"

definition clean_names :: "header_map \<Rightarrow> bool" where
  "clean_names h \<longleftrightarrow> (\<forall>n \<in> fst ` set h. map ascii_lower n = n \<and> CHR '','' \<notin> set n \<and> CHR '';'' \<notin> set n
     \<and> n \<noteq> ''authorization'')"

definition clean_signer :: "s3_request_signer \<Rightarrow> bool" where
  "clean_signer sg \<longleftrightarrow> clean_part (sg_access_key_id sg) \<and> clean_part (sg_region sg) \<and>
     clean_part (sg_service sg)"

lemma clean_names_insert:
  "clean_names h \<Longrightarrow> map ascii_lower n = n \<Longrightarrow> CHR '','' \<notin> set n \<Longrightarrow> CHR '';'' \<notin> set n \<Longrightarrow>
     n \<noteq> ''authorization'' \<Longrightarrow> clean_names (hm_insert n v h)"
  by (auto simp: clean_names_def fst_hm_insert)

lemma no_comma_join: "c \<notin> set sep \<Longrightarrow> (\<And>x. x \<in> set xs \<Longrightarrow> c \<notin> set x) \<Longrightarrow> c \<notin> set (join_with sep xs)"
  by (induction sep xs rule: join_with.induct) auto

lemma split_on_five:
  assumes "clean_part a" "clean_part b" "clean_part c" "clean_part d"
  shows "split_on CHR ''/'' (a @ ''/'' @ b @ ''/'' @ c @ ''/'' @ d @ ''/aws4_request'')
    = [a, b, c, d, ''aws4_request'']"
  using assms by (simp add: clean_part_def split_on_append)

lemma parse_authorization_value:
  assumes sg: "clean_signer sg" "clean_part date"
    and names: "names \<noteq> []" "\<And>n. n \<in> set names \<Longrightarrow> CHR '','' \<notin> set n \<and> CHR '';'' \<notin> set n"
    and sig: "CHR '','' \<notin> set sig"
  shows "parse_sigv4_auth (authorization_value sg date names sig) =
    Inr \<lparr>sa_access_key_id = sg_access_key_id sg, sa_date_stamp = date, sa_region = sg_region sg,
        sa_service = sg_service sg, sa_signed_headers = names, sa_signature = sig\<rparr>"
proof -
  define cred where "cred = sg_access_key_id sg @ ''/'' @ credential_scope date (sg_region sg) (sg_service sg)"
  define sh where "sh = join_with '';'' names"
  have av: "authorization_value sg date names sig = ''AWS4-HMAC-SHA256 '' @
      join_with '', '' [''Credential='' @ cred, ''SignedHeaders='' @ sh, ''Signature='' @ sig]"
    by (simp add: authorization_value_def cred_def sh_def)
  have "CHR '','' \<notin> set cred"
    using sg by (auto simp: cred_def credential_scope_def clean_signer_def clean_part_def)
  moreover have "CHR '','' \<notin> set sh"
    using names unfolding sh_def by (intro no_comma_join) auto
  ultimately have parts: "split_str '', '' (join_with '', ''
      [''Credential='' @ cred, ''SignedHeaders='' @ sh, ''Signature='' @ sig])
      = [''Credential='' @ cred, ''SignedHeaders='' @ sh, ''Signature='' @ sig]"
    using sig by (intro split_str_join_with) auto
  have five: "split_on CHR ''/'' cred
      = [sg_access_key_id sg, date, sg_region sg, sg_service sg, ''aws4_request'']"
    using sg unfolding cred_def credential_scope_def clean_signer_def
    by (intro split_on_five) auto
  have semi: "split_on CHR '';'' sh = names"
    using names unfolding sh_def by (intro split_on_join_with) auto
  show ?thesis
    unfolding av parse_sigv4_auth_def strip_prefix_append option.case parts
    by (simp add: five semi)
qed

lemma canonical_header_frame:
  "map ascii_lower n = n \<Longrightarrow> n \<noteq> m \<Longrightarrow>
     canonical_header (hm_insert m v h) n = canonical_header h n"
  by (simp add: canonical_header_def hm_str_def hm_get_insert)

lemma canonical_request_frame:
  assumes "\<And>n. n \<in> set names \<Longrightarrow> map ascii_lower n = n \<and> n \<noteq> m"
  shows "canonical_request me u q (hm_insert m v h) names ph = canonical_request me u q h names ph"
proof -
  have "map (canonical_header (hm_insert m v h)) names = map (canonical_header h) names"
    using assms by (auto intro: canonical_header_frame)
  then show ?thesis unfolding canonical_request_def by (simp only:)
qed

lemma insert_or_panic_Ok [simp]:
  "insert_or_panic n v h = Ok h' \<longleftrightarrow> hv_valid v \<and> h' = hm_insert n v h"
  by (auto simp: insert_or_panic_def)

lemma signing_headers_Ok:
  assumes "signing_headers sg url amz ph h0 = Ok h" "clean_names h0"
  shows "clean_names h \<and> hm_get h ''x-amz-date'' = Some amz \<and> hm_keys h \<noteq> []
    \<and> hm_get h ''x-amz-content-sha256'' = Some ph"
proof -
  have keys: "hm_keys (hm_insert n v k) \<noteq> []" for n v k
    using set_hm_keys [of "hm_insert n v k"] by (auto simp: fst_hm_insert)
  show ?thesis
    using assms
    by (auto simp: signing_headers_def clean_names_insert hm_get_insert keys ascii_lower_def
        split: option.splits)
qed

lemma sign_then_verify:
  assumes sign: "sign_request cr sg date amz me url h0 ph = Ok h"
    and clean: "clean_names h0" "clean_signer sg" "clean_part date"
    and amz: "hv_to_str amz = Some amz"
    and hex: "\<And>b. CHR '','' \<notin> set (cr_hex cr b)"
  shows "\<exists>v auth. hm_get h ''authorization'' = Some v \<and> parse_sigv4_auth v = Inr auth \<and>
    sa_access_key_id auth = sg_access_key_id sg \<and>
    verify_sigv4_signature cr me (url_path url) (the_or [] (url_query url)) h auth
      (sg_secret_access_key sg) ph = Inr True"
proof -
  from sign obtain h1 key mac where h1: "signing_headers sg url amz ph h0 = Ok h1"
    and key: "derive_signing_key cr (sg_secret_access_key sg) date (sg_region sg) (sg_service sg) = Inr key"
    and mac: "hmac_sha256 cr key (string_to_sign cr amz
        (credential_scope date (sg_region sg) (sg_service sg))
        (canonical_request me (url_path url) (the_or [] (url_query url)) h1 (sort (hm_keys h1)) ph)) = Inr mac"
    and h: "h = hm_insert ''authorization''
        (authorization_value sg date (sort (hm_keys h1)) (cr_hex cr mac)) h1"
    by (auto simp: sign_request_def Let_def)
  note c1 = signing_headers_Ok [OF h1 clean(1)]
  define names where "names = sort (hm_keys h1)"
  have names: "names \<noteq> []" "\<And>n. n \<in> set names \<Longrightarrow> map ascii_lower n = n \<and> n \<noteq> ''authorization''
      \<and> CHR '','' \<notin> set n \<and> CHR '';'' \<notin> set n"
    using c1 by (auto simp: names_def clean_names_def set_hm_keys)
      (metis length_0_conv length_sort)
  have parse: "parse_sigv4_auth (authorization_value sg date names (cr_hex cr mac)) =
      Inr \<lparr>sa_access_key_id = sg_access_key_id sg, sa_date_stamp = date, sa_region = sg_region sg,
        sa_service = sg_service sg, sa_signed_headers = names, sa_signature = cr_hex cr mac\<rparr>"
    using names clean hex by (intro parse_authorization_value) auto
  have creq: "canonical_request me u q h names ph = canonical_request me u q h1 names ph" for u q
    unfolding h using names(2) by (intro canonical_request_frame) auto
  have "hm_str h ''x-amz-date'' = Some amz"
    using c1 amz by (simp add: h hm_str_def hm_get_insert ascii_lower_def)
  moreover have "hm_get h ''authorization'' = Some (authorization_value sg date names (cr_hex cr mac))"
    by (simp add: h names_def hm_get_insert ascii_lower_def)
  ultimately show ?thesis
    using parse key mac creq
    by (simp add: verify_sigv4_signature_def Let_def constant_time_eq_bytes names_def)
qed

subsection \<open>Properties\<close>

text \<open>
  C8. Signing then verifying: the Authorization header the outbound signer attaches parses,
  names the signer's access key, and verifies against the signed headers under the same
  secret, whatever the digest, the HMAC and the hex encoding (as long as hex text has no
  comma) do.
\<close>

theorem signed_request_verifies:
  assumes "sign_request cr sg date amz me url h0 ph = Ok h"
    and "clean_names h0" "clean_signer sg" "clean_part date"
    and "hv_to_str amz = Some amz"
    and "\<And>b. CHR '','' \<notin> set (cr_hex cr b)"
  shows "\<exists>v auth. hm_get h ''authorization'' = Some v \<and> parse_sigv4_auth v = Inr auth \<and>
    sa_access_key_id auth = sg_access_key_id sg \<and>
    verify_sigv4_signature cr me (url_path url) (the_or [] (url_query url)) h auth
      (sg_secret_access_key sg) ph = Inr True"
  using assms by (rule sign_then_verify)

definition demo_crypto :: crypto where
  "demo_crypto = \<lparr>cr_sha256_hex = (\<lambda>s. ''e3b0''), cr_hmac = (\<lambda>k d. Inr (k @ d)),
     cr_hex = (\<lambda>b. if b = [] then ''00'' else ''a1'')\<rparr>"

definition demo_url :: parsed_url where
  "demo_url = \<lparr>url_str = ''http://s3.test/b/k?uploads'', url_host = Some ''s3.test'', url_port = None, url_path = ''/b/k'',
     url_query = Some ''uploads''\<rparr>"

definition demo_signer :: s3_request_signer where
  "demo_signer = new_signer ''AK'' ''sk'' ''us-east-1'' None"

lemma demo_signs:
  "\<exists>h. sign_request demo_crypto demo_signer ''20240101'' ''20240101T000000Z'' POST demo_url
     [(''accept'', ''x'')] unsigned_payload = Ok h"
proof -
  have "hv_valid (join_with '';'' (sort [''accept'', ''x-amz-date'', ''x-amz-content-sha256'', ''host'']))"
    by (rule hv_valid_join) (auto simp: hv_valid_def)
  then show ?thesis
    by (simp add: sign_request_def signing_headers_def demo_crypto_def demo_url_def demo_signer_def
        new_signer_def Let_def derive_signing_key_def hmac_sha256_def host_header_def
        unsigned_payload_def authorization_value_def hm_keys_def hv_valid_def
        insert_or_panic_def credential_scope_def del: sort_key_simps)
qed

theorem signed_request_verifies_witness:
  "\<exists>h v auth. sign_request demo_crypto demo_signer ''20240101'' ''20240101T000000Z'' POST demo_url
       [(''accept'', ''x'')] unsigned_payload = Ok h
    \<and> hm_get h ''authorization'' = Some v \<and> parse_sigv4_auth v = Inr auth
    \<and> verify_sigv4_signature demo_crypto POST ''/b/k'' ''uploads'' h auth ''sk'' unsigned_payload = Inr True"
proof -
  obtain h where h: "sign_request demo_crypto demo_signer ''20240101'' ''20240101T000000Z'' POST
      demo_url [(''accept'', ''x'')] unsigned_payload = Ok h"
    using demo_signs by blast
  have "clean_names [(''accept'', ''x'')]" "clean_signer demo_signer" "clean_part ''20240101''"
    "hv_to_str ''20240101T000000Z'' = Some ''20240101T000000Z''"
    "\<And>b. CHR '','' \<notin> set (cr_hex demo_crypto b)"
    by (simp_all add: clean_names_def clean_signer_def clean_part_def demo_signer_def new_signer_def
        hv_to_str_def ascii_lower_def demo_crypto_def)
  from signed_request_verifies [OF h this] h show ?thesis
    by (auto simp: demo_signer_def new_signer_def demo_url_def)
qed

text \<open>
  C4. The comparison of signatures, a fold over the bytes that never stops early, decides
  equality.
\<close>

theorem constant_time_eq_decides: "constant_time_eq a b \<longleftrightarrow> a = b"
  by (rule constant_time_eq_iff)

text \<open>
  The canonical query is canonical: it is a fixed point, and two queries with the same
  parameters in another order have the same one.
\<close>

theorem canonical_query_canonical:
  "canonicalize_query_string (canonicalize_query_string q) = canonicalize_query_string q
   \<and> (mset (split_on CHR ''&'' p) = mset (split_on CHR ''&'' q)
      \<longrightarrow> canonicalize_query_string p = canonicalize_query_string q)"
  using canonicalize_query_idem canonicalize_query_perm by blast

theorem canonical_query_canonical_witness:
  "canonicalize_query_string ''b=2&delete&a=1'' = canonicalize_query_string ''a=1&b=2&delete''"
  using canonical_query_canonical [of "''a=1&b=2&delete''" "''b=2&delete&a=1''"]
  by simp

end
