(* ===== verification/Identity.thy ===== *)
theory Identity
  imports SigV4
begin

text \<open>
  \<open>crates/core/src/auth/identity.rs\<close>: from the headers of a request to the identity behind
  it.  The credential registry (\<open>get_credential\<close>), the resolver of session tokens and the
  clock are arguments, as the code takes them.
\<close>

type_synonym credential_lookup = "string \<Rightarrow> proxy_error + stored_credential option"
type_synonym token_resolver = "string \<Rightarrow> proxy_error + temporary_credentials option"

text \<open>The two exits of a signature check: its own error, or a mismatch.\<close>

definition require_signature ::
  "crypto \<Rightarrow> http_method \<Rightarrow> string \<Rightarrow> string \<Rightarrow> header_map \<Rightarrow> sigv4_auth \<Rightarrow> string \<Rightarrow> string
   \<Rightarrow> authenticated_identity \<Rightarrow> proxy_error + resolved_identity" where
  "require_signature cr method path query headers sig secret payload_hash who =
     (case verify_sigv4_signature cr method path query headers sig secret payload_hash of
        Inl e \<Rightarrow> Inl e
      | Inr matched \<Rightarrow> if matched then Inr (Authenticated who) else Inl SignatureDoesNotMatch)"

definition resolve_temporary ::
  "crypto \<Rightarrow> http_method \<Rightarrow> string \<Rightarrow> string \<Rightarrow> header_map \<Rightarrow> sigv4_auth \<Rightarrow> string
   \<Rightarrow> token_resolver option \<Rightarrow> string \<Rightarrow> proxy_error + resolved_identity" where
  "resolve_temporary cr method path query headers sig payload_hash resolver session_token =
     (case resolver of
        None \<Rightarrow> Inl AccessDenied
      | Some resolve \<Rightarrow>
         (case resolve session_token of
            Inl e \<Rightarrow> Inl e
          | Inr None \<Rightarrow> Inl AccessDenied
          | Inr (Some creds) \<Rightarrow>
              if \<not> constant_time_eq (map byte_of (sa_access_key_id sig))
                     (map byte_of (tc_access_key_id creds))
              then Inl AccessDenied
              else require_signature cr method path query headers sig
                     (tc_secret_access_key creds) payload_hash
                     \<lparr>principal_name = tc_source_identity creds,
                      id_allowed_scopes = tc_allowed_scopes creds\<rparr>))"

definition resolve_long_lived ::
  "crypto \<Rightarrow> int \<Rightarrow> http_method \<Rightarrow> string \<Rightarrow> string \<Rightarrow> header_map \<Rightarrow> sigv4_auth \<Rightarrow> string
   \<Rightarrow> credential_lookup \<Rightarrow> proxy_error + resolved_identity" where
  "resolve_long_lived cr now method path query headers sig payload_hash get_credential =
     (case get_credential (sa_access_key_id sig) of
        Inl e \<Rightarrow> Inl e
      | Inr None \<Rightarrow> Inl AccessDenied
      | Inr (Some cred) \<Rightarrow>
          if \<not> cred_enabled cred then Inl AccessDenied
          else if (case cred_expires_at cred of None \<Rightarrow> False | Some t \<Rightarrow> t \<le> now)
          then Inl ExpiredCredentials
          else require_signature cr method path query headers sig
                 (cred_secret_access_key cred) payload_hash
                 \<lparr>principal_name = cred_principal_name cred,
                  id_allowed_scopes = cred_allowed_scopes cred\<rparr>)"

definition resolve_identity ::
  "crypto \<Rightarrow> int \<Rightarrow> http_method \<Rightarrow> string \<Rightarrow> string \<Rightarrow> header_map \<Rightarrow> credential_lookup
   \<Rightarrow> token_resolver option \<Rightarrow> proxy_error + resolved_identity" where
  "resolve_identity cr now method path query headers get_credential resolver =
     (case hm_str headers ''authorization'' of
        None \<Rightarrow> Inr Anonymous
      | Some auth_header \<Rightarrow>
         (case parse_sigv4_auth auth_header of
            Inl e \<Rightarrow> Inl e
          | Inr sig \<Rightarrow>
             (let payload_hash = the_or ''UNSIGNED-PAYLOAD'' (hm_str headers ''x-amz-content-sha256'')
              in case hm_str headers ''x-amz-security-token'' of
                   Some token \<Rightarrow>
                     resolve_temporary cr method path query headers sig payload_hash resolver token
                 | None \<Rightarrow>
                     resolve_long_lived cr now method path query headers sig payload_hash
                       get_credential)))"

subsection \<open>Specification\<close>

text \<open>
  What the request must prove: it carries a parsed signature that verifies under the secret of
  a live credential, the credential its session token stands for or the one its access key
  names, and the identity is that credential's.
\<close>

definition live_credential :: "int \<Rightarrow> stored_credential \<Rightarrow> bool" where
  "live_credential now c \<longleftrightarrow> cred_enabled c \<and> (\<forall>t. cred_expires_at c = Some t \<longrightarrow> now < t)"

definition proven_identity ::
  "int \<Rightarrow> header_map \<Rightarrow> credential_lookup \<Rightarrow> token_resolver option \<Rightarrow> sigv4_auth
   \<Rightarrow> string \<Rightarrow> authenticated_identity \<Rightarrow> bool" where
  "proven_identity now headers get_credential resolver sig secret who \<longleftrightarrow>
     (case hm_str headers ''x-amz-security-token'' of
        Some token \<Rightarrow>
          (\<exists>resolve c. resolver = Some resolve \<and> resolve token = Inr (Some c) \<and>
             sa_access_key_id sig = tc_access_key_id c \<and> secret = tc_secret_access_key c \<and>
             who = \<lparr>principal_name = tc_source_identity c, id_allowed_scopes = tc_allowed_scopes c\<rparr>)
      | None \<Rightarrow>
          (\<exists>c. get_credential (sa_access_key_id sig) = Inr (Some c) \<and> live_credential now c \<and>
             secret = cred_secret_access_key c \<and>
             who = \<lparr>principal_name = cred_principal_name c, id_allowed_scopes = cred_allowed_scopes c\<rparr>))"

subsection \<open>Lemmas\<close>

lemma require_signature_eq [simp]:
  "require_signature cr m p q h sig secret ph who = Inr i \<longleftrightarrow>
     verify_sigv4_signature cr m p q h sig secret ph = Inr True \<and> i = Authenticated who"
  by (auto simp: require_signature_def split: sum.splits)

lemma resolve_temporary_eq:
  "resolve_temporary cr m p q h sig ph resolver token = Inr i \<longleftrightarrow>
     (\<exists>resolve c. resolver = Some resolve \<and> resolve token = Inr (Some c) \<and>
        sa_access_key_id sig = tc_access_key_id c \<and>
        verify_sigv4_signature cr m p q h sig (tc_secret_access_key c) ph = Inr True \<and>
        i = Authenticated \<lparr>principal_name = tc_source_identity c, id_allowed_scopes = tc_allowed_scopes c\<rparr>)"
  by (auto simp: resolve_temporary_def constant_time_eq_bytes split: option.splits sum.splits)

lemma resolve_long_lived_eq:
  "resolve_long_lived cr now m p q h sig ph gc = Inr i \<longleftrightarrow>
     (\<exists>c. gc (sa_access_key_id sig) = Inr (Some c) \<and> live_credential now c \<and>
        verify_sigv4_signature cr m p q h sig (cred_secret_access_key c) ph = Inr True \<and>
        i = Authenticated \<lparr>principal_name = cred_principal_name c, id_allowed_scopes = cred_allowed_scopes c\<rparr>)"
  by (auto simp: resolve_long_lived_def live_credential_def split: option.splits sum.splits)

lemma resolve_identity_Anonymous:
  "resolve_identity cr now m p q h gc res = Inr Anonymous \<longleftrightarrow> hm_str h ''authorization'' = None"
  by (auto simp: resolve_identity_def Let_def resolve_temporary_eq resolve_long_lived_eq
      split: option.splits sum.splits)

lemma resolve_identity_Authenticated:
  "resolve_identity cr now m p q h gc res = Inr (Authenticated who) \<longleftrightarrow>
     (\<exists>a sig secret. hm_str h ''authorization'' = Some a \<and> parse_sigv4_auth a = Inr sig \<and>
        proven_identity now h gc res sig secret who \<and>
        verify_sigv4_signature cr m p q h sig secret
          (the_or ''UNSIGNED-PAYLOAD'' (hm_str h ''x-amz-content-sha256'')) = Inr True)"
  by (auto simp: resolve_identity_def Let_def resolve_temporary_eq resolve_long_lived_eq
      proven_identity_def split: option.splits sum.splits)

subsection \<open>Properties\<close>

text \<open>
  C3. An identity is authenticated only by a signature that verifies under the secret of a live
  credential: a session token yields the identity sealed in it, and only when its access key is
  the one that signed; without a token the access key must name an enabled, unexpired
  credential.  A request without a readable Authorization header is anonymous, and no failed
  check ever falls back to anonymous.
\<close>

theorem identity_proven:
  "resolve_identity cr now m p q h gc res = Inr who \<longleftrightarrow>
     (case who of
        Anonymous \<Rightarrow> hm_str h ''authorization'' = None
      | Authenticated i \<Rightarrow>
          (\<exists>a sig secret. hm_str h ''authorization'' = Some a \<and> parse_sigv4_auth a = Inr sig \<and>
             proven_identity now h gc res sig secret i \<and>
             verify_sigv4_signature cr m p q h sig secret
               (the_or ''UNSIGNED-PAYLOAD'' (hm_str h ''x-amz-content-sha256'')) = Inr True))"
  by (cases who) (simp_all add: resolve_identity_Anonymous resolve_identity_Authenticated)

end
