(* ===== verification/BatchDelete.thy ===== *)
theory BatchDelete
  imports Response
begin

text \<open>
  \<open>crates/core/src/api/delete.rs\<close>: the body of a batch delete, the body sent on to the backend,
  the backend's answer and the one built for the client.  \<open>quick_xml\<close> is third-party: reading
  is the parameters \<open>rd\<close> and \<open>rr\<close> (the value, or the text of the error), writing is \<open>xd\<close>,
  given the document as a \<open>delete_doc\<close>.
\<close>

record delete_object_entry =
  doe_key :: string

record delete_request =
  dr_quiet :: bool
  dr_objects :: "delete_object_entry list"

definition delete_max_keys :: nat where
  "delete_max_keys = 1000"

definition parse_delete_request ::
  "(string \<Rightarrow> string + delete_request) \<Rightarrow> string \<Rightarrow> proxy_error + delete_request" where
  "parse_delete_request rd body =
     (case rd body of
        Inl e \<Rightarrow> Inl (MalformedXml (''malformed delete body: '' @ e))
      | Inr req \<Rightarrow>
          if dr_objects req = [] then Inl (MalformedXml ''delete request names no objects'')
          else if length (dr_objects req) > delete_max_keys
          then Inl (MalformedXml (''delete request names '' @ nat_to_string (length (dr_objects req))
                 @ '' objects, exceeding the '' @ nat_to_string delete_max_keys @ ''-key limit''))
          else Inr req)"

definition delete_keys :: "delete_request \<Rightarrow> string list" where
  "delete_keys req = map doe_key (dr_objects req)"

record delete_error =
  de_key :: string
  de_code :: string
  de_message :: string

record delete_body =
  db_quiet :: bool
  db_objects :: "string list"

record delete_result_xml =
  dx_xmlns :: string
  dx_deleted :: "string list"
  dx_errors :: "delete_error list"

datatype delete_doc =
    DeleteBody delete_body
  | DeleteResult delete_result_xml

definition build_backend_delete_body :: "(delete_doc \<Rightarrow> string option) \<Rightarrow> string list \<Rightarrow> string" where
  "build_backend_delete_body xd backend_keys =
     xml_declaration @ the_or [] (xd (DeleteBody \<lparr>db_quiet = False, db_objects = backend_keys\<rparr>))"

record backend_outcome =
  bo_deleted :: "string list"
  bo_errors :: "delete_error list"

definition parse_backend_result ::
  "(string \<Rightarrow> string + (string list \<times> delete_error list)) \<Rightarrow> string \<Rightarrow> proxy_error + backend_outcome" where
  "parse_backend_result rr xml =
     (case rr xml of
        Inl e \<Rightarrow> Inl (BackendError (''malformed delete result: '' @ e))
      | Inr (deleted, errors) \<Rightarrow> Inr \<lparr>bo_deleted = deleted, bo_errors = errors\<rparr>)"

definition delete_result_of :: "string list \<Rightarrow> delete_error list \<Rightarrow> bool \<Rightarrow> delete_result_xml" where
  "delete_result_of deleted errors quiet =
     \<lparr>dx_xmlns = ''http://s3.amazonaws.com/doc/2006-03-01/'',
      dx_deleted = (if quiet then [] else deleted), dx_errors = errors\<rparr>"

definition build_delete_result ::
  "(delete_doc \<Rightarrow> string option) \<Rightarrow> string list \<Rightarrow> delete_error list \<Rightarrow> bool \<Rightarrow> string" where
  "build_delete_result xd deleted errors quiet =
     xml_declaration @ the_or [] (xd (DeleteResult (delete_result_of deleted errors quiet)))"

subsection \<open>Lemmas\<close>

lemma parse_delete_request_bounds:
  "parse_delete_request rd body = Inr req \<Longrightarrow>
     rd body = Inr req \<and> delete_keys req \<noteq> [] \<and> length (delete_keys req) \<le> 1000"
  by (auto simp: parse_delete_request_def delete_max_keys_def delete_keys_def split: sum.splits if_splits)

lemma parse_delete_request_error:
  "parse_delete_request rd body = Inl e \<Longrightarrow> status_code e = 400 \<and> s3_error_code e = ''MalformedXML''"
  by (auto simp: parse_delete_request_def split: sum.splits if_splits)

text \<open>
  When reading undoes writing, the backend reads the keys it is sent: all of them, in order.
\<close>

lemma backend_body_read_back:
  assumes "\<And>b. rd (xml_declaration @ the_or [] (xd (DeleteBody b))) =
      Inr \<lparr>dr_quiet = db_quiet b, dr_objects = map (\<lambda>k. \<lparr>doe_key = k\<rparr>) (db_objects b)\<rparr>"
    and "keys \<noteq> []" "length keys \<le> 1000"
  shows "\<exists>req. parse_delete_request rd (build_backend_delete_body xd keys) = Inr req \<and>
    delete_keys req = keys \<and> \<not> dr_quiet req"
  using assms
  by (simp add: parse_delete_request_def build_backend_delete_body_def delete_max_keys_def
      delete_keys_def comp_def)

end
