(* ===== verification/Backend.thy ===== *)
theory Backend
  imports SigV4 Request
begin

text \<open>
  \<open>crates/core/src/backend/\<close>: the URL and the signature of a raw backend request
  (\<open>multipart.rs\<close>), the store builder (\<open>mod.rs\<close>), the signer of presigned URLs and its
  credential-less variant (\<open>url_signer.rs\<close>); and \<open>aws_chunked.rs\<close>.  Parameters: \<open>pe\<close> is
  \<open>utf8_percent_encode\<close>, \<open>fs\<close> the \<open>form_urlencoded::Serializer\<close>, \<open>up\<close> is \<open>Url::parse\<close>, and
  \<open>object_store\<close> recognizes configuration keys and builds stores.
\<close>

subsection \<open>Streaming uploads (aws\_chunked.rs)\<close>

datatype streaming_upload = StreamUnsigned | StreamSigned

definition contains_str :: "string \<Rightarrow> string \<Rightarrow> bool" where
  "contains_str s p = (split_once_str p s \<noteq> None)"

definition streaming_upload_of :: "header_map \<Rightarrow> (streaming_upload \<times> string) option" where
  "streaming_upload_of headers =
     Option.bind (hm_str headers ''x-amz-content-sha256'') (\<lambda>sentinel.
     Option.bind (strip_prefix ''STREAMING-'' sentinel) (\<lambda>variant.
     Some (if contains_str variant ''UNSIGNED'' then StreamUnsigned else StreamSigned, sentinel)))"

subsection \<open>URLs of raw requests (multipart.rs)\<close>

definition s3_path_encode_set :: "char \<Rightarrow> bool" where
  "s3_path_encode_set c \<longleftrightarrow> \<not> is_ascii_alphanumeric c \<and> c \<notin> set ''-._~/''"

definition url_base :: "bucket_config \<Rightarrow> string" where
  "url_base config = trim_end_matches CHR ''/'' (the_or [] (bc_option config ''endpoint''))"

definition url_bucket :: "bucket_config \<Rightarrow> string" where
  "url_bucket config = the_or [] (bc_option config ''bucket_name'')"

definition backend_key :: "bucket_config \<Rightarrow> string \<Rightarrow> string" where
  "backend_key config key =
     (case bc_backend_prefix config of
        Some p \<Rightarrow> trim_end_matches CHR ''/'' p @ ''/'' @ key
      | None \<Rightarrow> key)"

definition url_query_of :: "((string \<times> string) list \<Rightarrow> string) \<Rightarrow> s3_operation \<Rightarrow> string" where
  "url_query_of fs op =
     (case op of
        CreateMultipartUpload _ _ \<Rightarrow> ''?uploads''
      | UploadPart _ _ upload_id part \<Rightarrow>
          ''?'' @ fs [(''partNumber'', nat_to_string (unat part)), (''uploadId'', upload_id)]
      | CompleteMultipartUpload _ _ upload_id \<Rightarrow> ''?'' @ fs [(''uploadId'', upload_id)]
      | AbortMultipartUpload _ _ upload_id \<Rightarrow> ''?'' @ fs [(''uploadId'', upload_id)]
      | _ \<Rightarrow> [])"

fun is_batch_delete :: "s3_operation \<Rightarrow> bool" where
  "is_batch_delete (DeleteObjects _) = True"
| "is_batch_delete _ = False"

definition build_backend_url ::
  "((char \<Rightarrow> bool) \<Rightarrow> string \<Rightarrow> string) \<Rightarrow> ((string \<times> string) list \<Rightarrow> string)
   \<Rightarrow> bucket_config \<Rightarrow> s3_operation \<Rightarrow> proxy_error + string" where
  "build_backend_url pe fs config op =
     (let base = url_base config; bucket = url_bucket config in
      if is_batch_delete op then
        Inr (if bucket = [] then base @ ''?delete'' else base @ ''/'' @ bucket @ ''?delete'')
      else
        (case validate_key (op_key op) of
           Inl e \<Rightarrow> Inl e
         | Inr _ \<Rightarrow>
            (let key = pe s3_path_encode_set (backend_key config (op_key op));
                 url = (if bucket = [] then base @ ''/'' @ key
                        else base @ ''/'' @ bucket @ ''/'' @ key)
             in Inr (url @ url_query_of fs op))))"

definition sign_s3_request ::
  "crypto \<Rightarrow> (string \<Rightarrow> string + parsed_url) \<Rightarrow> string \<Rightarrow> string \<Rightarrow> http_method \<Rightarrow> string
   \<Rightarrow> header_map \<Rightarrow> bucket_config \<Rightarrow> string \<Rightarrow> header_map outcome" where
  "sign_s3_request cr up date_stamp amz_date method url headers config payload_hash =
     (let access_key = the_or [] (bc_option config ''access_key_id'');
          secret_key = the_or [] (bc_option config ''secret_access_key'');
          region = the_or ''us-east-1'' (bc_option config ''region'');
          has_credentials = access_key \<noteq> [] \<and> secret_key \<noteq> []
      in case up url of
           Inl e \<Rightarrow> Err (Internal (''invalid backend URL: '' @ e))
         | Inr parsed \<Rightarrow>
             if has_credentials then
               sign_request cr (new_signer access_key secret_key region (bc_option config ''token''))
                 date_stamp amz_date method parsed headers payload_hash
             else
               (case url_host parsed of
                  None \<Rightarrow> Err (Internal ''no host in URL'')
                | Some host \<Rightarrow>
                    insert_or_panic ''host'' (host_header host (url_port parsed)) headers))"

subsection \<open>Store builders (mod.rs)\<close>

text \<open>
  A builder is the options its provider recognized; \<open>recognized\<close> says which keys parse as one
  of the provider's, \<open>azure\<close> and \<open>gcp\<close> are the crate's features.
\<close>

datatype store_builder =
    SbS3 "string \<rightharpoonup> string"
  | SbAzure "string \<rightharpoonup> string"
  | SbGcs "string \<rightharpoonup> string"

definition with_options :: "(string \<Rightarrow> bool) \<Rightarrow> bucket_config \<Rightarrow> string \<rightharpoonup> string" where
  "with_options recognized config = (\<lambda>k. if recognized k then bc_backend_options config k else None)"

definition create_builder ::
  "bool \<Rightarrow> bool \<Rightarrow> (backend_type \<Rightarrow> string \<Rightarrow> bool) \<Rightarrow> bucket_config \<Rightarrow> proxy_error + store_builder" where
  "create_builder azure gcp recognized config =
     (case bc_backend_type config of
        S3 \<Rightarrow> Inr (SbS3 (with_options (recognized S3) config))
      | Azure \<Rightarrow>
          if azure then Inr (SbAzure (with_options (recognized Azure) config))
          else Inl (ConfigError
            (''Azure backend support not enabled (requires '' @ [CHR 0x27] @ ''azure'' @ [CHR 0x27] @ '' feature)''))
      | Gcs \<Rightarrow>
          if gcp then Inr (SbGcs (with_options (recognized Gcs) config))
          else Inl (ConfigError
            (''GCS backend support not enabled (requires '' @ [CHR 0x27] @ ''gcp'' @ [CHR 0x27] @ '' feature)'')))"

fun provider_name :: "store_builder \<Rightarrow> string" where
  "provider_name (SbS3 _) = ''S3''"
| "provider_name (SbAzure _) = ''Azure''"
| "provider_name (SbGcs _) = ''GCS''"

definition build_paginated_store ::
  "(store_builder \<Rightarrow> string + 'store) \<Rightarrow> store_builder \<Rightarrow> proxy_error + 'store" where
  "build_paginated_store mk b =
     map_error (\<lambda>e. ConfigError (''failed to build '' @ provider_name b @ '' paginated store: '' @ e)) (mk b)"

definition build_presigner ::
  "(store_builder \<Rightarrow> string + 'signer) \<Rightarrow> store_builder \<Rightarrow> proxy_error + 'signer" where
  "build_presigner mk b =
     map_error (\<lambda>e. ConfigError (''failed to build '' @ provider_name b @ '' signer: '' @ e)) (mk b)"

subsection \<open>Signers of URLs (url\_signer.rs)\<close>

record unsigned_url_signer =
  us_endpoint :: string
  us_bucket :: string

definition unsigned_from_config :: "bucket_config \<Rightarrow> unsigned_url_signer" where
  "unsigned_from_config config =
     (case bc_backend_type config of
        Azure \<Rightarrow>
          \<lparr>us_endpoint = ''https://'' @ the_or [] (bc_option config ''account_name'')
              @ ''.blob.core.windows.net'',
           us_bucket = the_or [] (bc_option config ''container_name'')\<rparr>
      | Gcs \<Rightarrow>
          \<lparr>us_endpoint = ''https://storage.googleapis.com'',
           us_bucket = the_or [] (bc_option config ''bucket_name'')\<rparr>
      | S3 \<Rightarrow>
          \<lparr>us_endpoint = trim_end_matches CHR ''/''
              (the_or ''https://s3.amazonaws.com'' (bc_option config ''endpoint'')),
           us_bucket = the_or [] (bc_option config ''bucket_name'')\<rparr>)"

definition unsigned_url_string ::
  "((char \<Rightarrow> bool) \<Rightarrow> string \<Rightarrow> string) \<Rightarrow> unsigned_url_signer \<Rightarrow> string \<Rightarrow> string" where
  "unsigned_url_string pe s path =
     (let key = pe s3_path_encode_set path in
      if us_bucket s = [] then
        (if key = [] then us_endpoint s @ ''/'' else us_endpoint s @ ''/'' @ key)
      else if key = [] then us_endpoint s @ ''/'' @ us_bucket s
      else us_endpoint s @ ''/'' @ us_bucket s @ ''/'' @ key)"

definition unsigned_signed_url ::
  "((char \<Rightarrow> bool) \<Rightarrow> string \<Rightarrow> string) \<Rightarrow> (string \<Rightarrow> string + 'url) \<Rightarrow> unsigned_url_signer
   \<Rightarrow> string \<Rightarrow> object_store_error + 'url" where
  "unsigned_signed_url pe parse_url s path =
     map_error OsOther (parse_url (unsigned_url_string pe s path))"

datatype 'signer url_signer = Unsigned unsigned_url_signer | Presigner 'signer

definition build_signer ::
  "bool \<Rightarrow> bool \<Rightarrow> (backend_type \<Rightarrow> string \<Rightarrow> bool) \<Rightarrow> (store_builder \<Rightarrow> string + 'signer)
   \<Rightarrow> bucket_config \<Rightarrow> proxy_error + 'signer url_signer" where
  "build_signer azure gcp recognized mk config =
     (let has_creds = the_or [] (bc_option config ''access_key_id'') \<noteq> []
            \<and> the_or [] (bc_option config ''secret_access_key'') \<noteq> []
      in if \<not> has_creds then Inr (Unsigned (unsigned_from_config config))
         else (case create_builder azure gcp recognized config of
                 Inl e \<Rightarrow> Inl e
               | Inr b \<Rightarrow>
                  (case build_presigner mk b of Inl e \<Rightarrow> Inl e | Inr s \<Rightarrow> Inr (Presigner s))))"

subsection \<open>Lemmas\<close>

lemma backend_key_inj [simp]: "backend_key c k = backend_key c k' \<longleftrightarrow> k = k'"
  by (simp add: backend_key_def split: option.splits)

definition url_root :: "bucket_config \<Rightarrow> string" where
  "url_root config =
     (if url_bucket config = [] then url_base config @ ''/''
      else url_base config @ ''/'' @ url_bucket config @ ''/'')"

lemma build_backend_url_eq:
  assumes "\<not> is_batch_delete op"
  shows "build_backend_url pe fs c op = Inr u \<longleftrightarrow>
    (op_key op = [] \<or> safe_key (op_key op)) \<and>
    u = url_root c @ pe s3_path_encode_set (backend_key c (op_key op)) @ url_query_of fs op"
proof (cases "validate_key (op_key op)")
  case (Inl e)
  then have "\<not> (op_key op = [] \<or> safe_key (op_key op))"
    using validate_key_iff [of "op_key op" "()"] by auto
  with Inl assms show ?thesis by (auto simp: build_backend_url_def Let_def)
next
  case (Inr v)
  then have "op_key op = [] \<or> safe_key (op_key op)"
    using validate_key_iff [of "op_key op" v] by auto
  with Inr assms show ?thesis by (auto simp: build_backend_url_def url_root_def Let_def)
qed

lemma url_query_of_shape: "url_query_of fs op = [] \<or> (\<exists>r. url_query_of fs op = CHR ''?'' # r)"
  by (cases op) (auto simp: url_query_of_def)

lemma takeWhile_query:
  "CHR ''?'' \<notin> set a \<Longrightarrow> q = [] \<or> (\<exists>r. q = CHR ''?'' # r) \<Longrightarrow>
     takeWhile (\<lambda>c. c \<noteq> CHR ''?'') (a @ q) = a"
  by (induction a) auto

lemma append_query_split:
  assumes "a @ q = a' @ q'" "CHR ''?'' \<notin> set a" "CHR ''?'' \<notin> set a'"
    and "q = [] \<or> (\<exists>r. q = CHR ''?'' # r)" "q' = [] \<or> (\<exists>r. q' = CHR ''?'' # r)"
  shows "a = a' \<and> q = q'"
  using takeWhile_query [OF assms(2,4)] takeWhile_query [OF assms(3,5)] assms(1) by auto

subsection \<open>Properties\<close>

text \<open>
  What the documentation of \<open>percent_encoding\<close> says \<open>utf8_percent_encode\<close> does with the bytes of a string,
  and how a server reads an encoded path.
\<close>

definition hex_char :: "nat \<Rightarrow> char" where
  "hex_char n = char_of (if n < 10 then 48 + n else 55 + n)"

definition hex_value :: "char \<Rightarrow> nat" where
  "hex_value c = (if of_char c < (58 :: nat) then of_char c - 48 else of_char c - 55)"

definition percent_encoded :: "(char \<Rightarrow> bool) \<Rightarrow> string \<Rightarrow> string" where
  "percent_encoded P s = concat (map (\<lambda>c.
     if P c \<or> 128 \<le> (of_char c :: nat) then [CHR ''%'', hex_char (of_char c div 16), hex_char (of_char c mod 16)]
     else [c]) s)"

fun percent_decoded :: "string \<Rightarrow> string" where
  "percent_decoded [] = []"
| "percent_decoded (c # cs) =
     (if c = CHR ''%'' \<and> 2 \<le> length cs
      then char_of (16 * hex_value (cs ! 0) + hex_value (cs ! 1)) # percent_decoded (drop 2 cs)
      else c # percent_decoded cs)"

lemma hex_value_char [simp]: "n < 16 \<Longrightarrow> hex_value (hex_char n) = n"
  by (simp add: hex_value_def hex_char_def of_char_of)

lemma percent_encoded_Cons:
  "percent_encoded P [] = []"
  "percent_encoded P (c # s) =
     (if P c \<or> 128 \<le> (of_char c :: nat) then [CHR ''%'', hex_char (of_char c div 16), hex_char (of_char c mod 16)]
      else [c]) @ percent_encoded P s"
  by (simp_all add: percent_encoded_def)

lemma high_digit: "(of_char c :: nat) div 16 < 16"
  by (rule less_mult_imp_div_less) simp

lemma percent_decoded_encoded:
  assumes "P CHR ''%''"
  shows "percent_decoded (percent_encoded P s) = s"
proof (induction s)
  case (Cons c s)
  have "char_of (16 * (of_char c div 16) + of_char c mod 16 :: nat) = c" by simp
  then show ?case using Cons assms high_digit[of c] by (auto simp: percent_encoded_Cons)
qed (simp add: percent_encoded_Cons)

definition path_char :: "char \<Rightarrow> bool" where
  "path_char c \<longleftrightarrow> is_ascii_alphanumeric c \<or> c \<in> set ''-._~/%''"

lemma hex_char_alphanumeric: "n < 16 \<Longrightarrow> is_ascii_alphanumeric (hex_char n)"
  by (simp add: is_ascii_alphanumeric_def hex_char_def of_char_of)

lemma percent_encoded_path_chars: "c \<in> set (percent_encoded s3_path_encode_set s) \<Longrightarrow> path_char c"
proof (induction s)
  case (Cons x s)
  show ?case
    using Cons high_digit[of x] by (auto simp: percent_encoded_Cons path_char_def hex_char_alphanumeric s3_path_encode_set_def
        split: if_splits)
qed (simp add: percent_encoded_Cons)

text \<open>The upload, and the part of it, that a request is about.\<close>

definition upload_of :: "s3_operation \<Rightarrow> (string \<times> nat option) option" where
  "upload_of op = (case op of
     UploadPart _ _ upload_id part \<Rightarrow> Some (upload_id, Some (unat part))
   | CompleteMultipartUpload _ _ upload_id \<Rightarrow> Some (upload_id, None)
   | AbortMultipartUpload _ _ upload_id \<Rightarrow> Some (upload_id, None)
   | _ \<Rightarrow> None)"

lemma nat_to_string_inj [simp]: "nat_to_string m = nat_to_string n \<longleftrightarrow> m = n"
  by (metis digits_value_nat_to_string option.inject)

lemma same_query_same_upload:
  assumes "\<And>ps qs. fs ps = fs qs \<Longrightarrow> ps = qs" "\<And>k v ps. CHR ''='' \<in> set (fs ((k, v) # ps))"
    and "url_query_of fs op = url_query_of fs op'"
  shows "upload_of op = upload_of op'"
proof -
  have "fs ((k, v) # ps) \<noteq> ''uploads''" for k v ps using assms(2)[of k v ps] by auto
  then show ?thesis
    using assms(1,3) by (cases op; cases op') (auto simp: url_query_of_def upload_of_def dest!: assms(1))
qed

text \<open>
  C35. The URL of a raw request addresses one object of the configured bucket.  With percent encoding as
  documented, it exists only for a key without degenerate segments and is the endpoint, the bucket, and a
  path made of letters, digits, \<open>-._~/\<close> and escapes, which the server decodes to the backend prefix, one
  slash and the key; a query follows or nothing.  Two operations with the same URL name the same key, and,
  with form serialization as documented, the same upload and part.
\<close>

theorem backend_url_addresses_key:
  assumes "\<And>P s. pe P s = percent_encoded P s"
    and "\<And>ps qs. fs ps = fs qs \<Longrightarrow> ps = qs" "\<And>k v ps. CHR ''='' \<in> set (fs ((k, v) # ps))"
    and "\<not> is_batch_delete op" "build_backend_url pe fs c op = Inr u"
  shows "(\<exists>path query. u = url_base c @ ''/'' @ (if url_bucket c = [] then [] else url_bucket c @ ''/'') @ path @ query
      \<and> list_all path_char path \<and> (query = [] \<or> hd query = CHR ''?'')
      \<and> percent_decoded path =
          (case bc_backend_prefix c of None \<Rightarrow> [] | Some p \<Rightarrow> trim_end_matches CHR ''/'' p @ ''/'') @ op_key op)
    \<and> (op_key op = [] \<or> safe_key (op_key op))
    \<and> (\<forall>op'. \<not> is_batch_delete op' \<and> build_backend_url pe fs c op' = Inr u \<longrightarrow>
         op_key op' = op_key op \<and> upload_of op' = upload_of op)"
proof (intro conjI allI impI)
  let ?enc = "\<lambda>op. percent_encoded s3_path_encode_set (backend_key c (op_key op))"
  have url: "u = url_root c @ ?enc x @ url_query_of fs x"
    if "\<not> is_batch_delete x" "build_backend_url pe fs c x = Inr u" for x
    using that by (simp add: build_backend_url_eq assms(1))
  have decoded: "percent_decoded (?enc x) = backend_key c (op_key x)" for x
    by (rule percent_decoded_encoded) (simp add: s3_path_encode_set_def is_ascii_alphanumeric_def)
  have chars: "list_all path_char (?enc x)" for x
    using percent_encoded_path_chars by (simp add: list_all_iff)
  show "op_key op = [] \<or> safe_key (op_key op)" using assms(4,5) by (simp add: build_backend_url_eq)
  have "u = url_base c @ ''/'' @ (if url_bucket c = [] then [] else url_bucket c @ ''/'') @ ?enc op @ url_query_of fs op"
    using url[OF assms(4,5)] by (simp add: url_root_def)
  moreover have "url_query_of fs op = [] \<or> hd (url_query_of fs op) = CHR ''?''"
    using url_query_of_shape[of fs op] by auto
  moreover have "backend_key c (op_key op) =
      (case bc_backend_prefix c of None \<Rightarrow> [] | Some p \<Rightarrow> trim_end_matches CHR ''/'' p @ ''/'') @ op_key op"
    by (simp add: backend_key_def split: option.split)
  ultimately show "\<exists>path query. u = url_base c @ ''/'' @ (if url_bucket c = [] then [] else url_bucket c @ ''/'') @ path @ query
      \<and> list_all path_char path \<and> (query = [] \<or> hd query = CHR ''?'')
      \<and> percent_decoded path =
          (case bc_backend_prefix c of None \<Rightarrow> [] | Some p \<Rightarrow> trim_end_matches CHR ''/'' p @ ''/'') @ op_key op"
    using decoded[of op] chars[of op] by metis
  fix op' assume same: "\<not> is_batch_delete op' \<and> build_backend_url pe fs c op' = Inr u"
  have no: "CHR ''?'' \<notin> set (?enc x)" for x
    using chars[of x] by (auto simp: list_all_iff path_char_def is_ascii_alphanumeric_def dest!: bspec)
  have "?enc op' @ url_query_of fs op' = ?enc op @ url_query_of fs op"
    using url[OF assms(4,5)] url[of op'] same by simp
  from append_query_split[OF this no no url_query_of_shape url_query_of_shape]
  have "?enc op' = ?enc op" "url_query_of fs op' = url_query_of fs op" by auto
  moreover from this(1) have "backend_key c (op_key op') = backend_key c (op_key op)"
    using decoded[of op] decoded[of op'] by simp
  ultimately show "op_key op' = op_key op" "upload_of op' = upload_of op"
    by (simp, intro same_query_same_upload[of fs] assms(2,3))
qed

definition demo_bucket :: "string option \<Rightarrow> bucket_config" where
  "demo_bucket p = \<lparr>bc_name = ''b'', bc_backend_type = S3, bc_backend_prefix = p,
     bc_anonymous_access = False, bc_allowed_roles = [],
     bc_backend_options = [''endpoint'' \<mapsto> ''http://m:9000/'', ''bucket_name'' \<mapsto> ''store'']\<rparr>"

text \<open>A form serialization: escaped names and values, every pair closed by an ampersand.\<close>

definition demo_serialize :: "(string \<times> string) list \<Rightarrow> string" where
  "demo_serialize ps = concat (map (\<lambda>(k, v). percent_encoded s3_path_encode_set k @ ''='' @
     percent_encoded s3_path_encode_set v @ ''&'') ps)"

lemma split_at:
  assumes "c \<notin> set a" "c \<notin> set a'" "a @ c # r = a' @ c # r'"
  shows "a = a' \<and> r = r'"
  using assms by (induction a arbitrary: a') (auto simp: Cons_eq_append_conv)

lemma demo_serialize_inj: "demo_serialize ps = demo_serialize qs \<Longrightarrow> ps = qs"
proof (induction ps arbitrary: qs)
  case Nil
  then show ?case by (cases qs) (auto simp: demo_serialize_def)
next
  case (Cons p ps)
  let ?e = "percent_encoded s3_path_encode_set"
  have no: "CHR ''='' \<notin> set (?e s)" "CHR ''&'' \<notin> set (?e s)" for s
    using percent_encoded_path_chars[of "CHR ''=''" s] percent_encoded_path_chars[of "CHR ''&''" s]
    by (auto simp: path_char_def is_ascii_alphanumeric_def)
  have inj: "?e s = ?e t \<Longrightarrow> s = t" for s t
  proof -
    have "s3_path_encode_set CHR ''%''" by (simp add: s3_path_encode_set_def is_ascii_alphanumeric_def)
    then show "?e s = ?e t \<Longrightarrow> s = t" by (metis percent_decoded_encoded)
  qed
  obtain k v where p: "p = (k, v)" by (cases p)
  obtain q qs' where "qs = q # qs'" using Cons.prems p by (cases qs) (auto simp: demo_serialize_def)
  moreover obtain k' v' where "q = (k', v')" by (cases q)
  ultimately have qs: "qs = (k', v') # qs'" by simp
  have "?e k @ CHR ''='' # ?e v @ CHR ''&'' # demo_serialize ps = ?e k' @ CHR ''='' # ?e v' @ CHR ''&'' # demo_serialize qs'"
    using Cons.prems by (simp add: p qs demo_serialize_def)
  from split_at[OF no(1) no(1) this] have k: "?e k = ?e k'"
    "?e v @ CHR ''&'' # demo_serialize ps = ?e v' @ CHR ''&'' # demo_serialize qs'" by auto
  from split_at[OF no(2) no(2) k(2)] have "?e v = ?e v'" "demo_serialize ps = demo_serialize qs'" by auto
  then show ?case using k(1) inj Cons.IH by (simp add: p qs)
qed

theorem backend_url_addresses_key_witness:
  "build_backend_url percent_encoded demo_serialize (demo_bucket (Some ''root/'')) (AbortMultipartUpload ''b'' ''a x?'' ''1'') =
     Inr ''http://m:9000/store/root/a%20x%3F?uploadId=1&'' \<and>
   (\<lambda>op'. (op_key op', upload_of op')) ` {op'. \<not> is_batch_delete op' \<and>
       build_backend_url percent_encoded demo_serialize (demo_bucket (Some ''root/'')) op' =
         Inr ''http://m:9000/store/root/a%20x%3F?uploadId=1&''} =
     {(''a x?'', Some (''1'', None))}"
proof -
  have u: "build_backend_url percent_encoded demo_serialize (demo_bucket (Some ''root/'')) (AbortMultipartUpload ''b'' ''a x?'' ''1'') =
      Inr ''http://m:9000/store/root/a%20x%3F?uploadId=1&''"
    by code_simp
  from backend_url_addresses_key [OF refl demo_serialize_inj _ _ u] have same:
    "op_key op' = ''a x?'' \<and> upload_of op' = Some (''1'', None)"
    if "\<not> is_batch_delete op'" "build_backend_url percent_encoded demo_serialize (demo_bucket (Some ''root/'')) op' =
      Inr ''http://m:9000/store/root/a%20x%3F?uploadId=1&''" for op'
    using that by (simp add: demo_serialize_def upload_of_def)
  show ?thesis
  proof (intro conjI u set_eqI iffI)
    fix x assume "x \<in> {(''a x?'', Some (''1'' :: string, None :: nat option))}"
    then show "x \<in> image (\<lambda>op'. (op_key op', upload_of op')) {op'. \<not> is_batch_delete op' \<and>
       build_backend_url percent_encoded demo_serialize (demo_bucket (Some ''root/'')) op' =
         Inr ''http://m:9000/store/root/a%20x%3F?uploadId=1&''}"
      using u by (intro image_eqI[of _ _ "AbortMultipartUpload ''b'' ''a x?'' ''1''"]) (simp_all add: upload_of_def)
  qed (use same in auto)
qed

text \<open>
  The presigner is chosen by the S3 option names alone: an Azure or GCS bucket configured
  with the credential its documentation names, \<open>access_key\<close> or \<open>service_account_key\<close>, gets
  the signer of anonymous backends.
\<close>

theorem azure_gcs_credentials_unsigned:
  assumes "bc_backend_type c \<in> {Azure, Gcs}"
    and "bc_option c ''access_key_id'' = None"
  shows "build_signer azure gcp recognized mk c = Inr (Unsigned (unsigned_from_config c))"
  using assms(2) by (simp add: build_signer_def Let_def)

theorem azure_gcs_credentials_unsigned_witness:
  "build_signer True True (\<lambda>_ _. True) (\<lambda>b. Inr b)
      ((demo_bucket None)\<lparr>bc_backend_type := Azure,
         bc_backend_options := [''account_name'' \<mapsto> ''acc'', ''access_key'' \<mapsto> ''secret'']\<rparr>)
    = Inr (Unsigned \<lparr>us_endpoint = ''https://acc.blob.core.windows.net'', us_bucket = []\<rparr>)"
  by (subst azure_gcs_credentials_unsigned)
    (simp_all add: bc_option_def unsigned_from_config_def demo_bucket_def)

end
