(* ===== verification/GatewayBase.thy ===== *)
theory GatewayBase
  imports Middleware Request Identity BatchDelete Backend
begin

text \<open>
  \<open>crates/core/src/proxy.rs\<close>, the parts below the pipeline: configuration, sizes, host style,
  error responses, mapping keys into and out of a backend prefix, and copying headers.
  The crates the gateway calls are collected in the record \<open>libs\<close>; the registries, the
  runtime's backend and the credential resolver in the record \<open>gateway\<close>, beside the fields of
  \<open>ProxyGateway\<close> itself.
\<close>

subsection \<open>What the gateway is built from\<close>

record libs =
  lib_form_parse :: "string \<Rightarrow> (string \<times> string) list"
  lib_percent_decode :: "string \<Rightarrow> string option"
  lib_percent_encode :: "(char \<Rightarrow> bool) \<Rightarrow> string \<Rightarrow> string"
  lib_form_serialize :: "(string \<times> string) list \<Rightarrow> string"
  lib_url_parse :: "string \<Rightarrow> string + parsed_url"
  lib_path_parse :: "string \<Rightarrow> string + string"
  lib_time_format :: "int \<Rightarrow> string"
  lib_xml :: "xml_doc \<Rightarrow> string option"
  lib_xml_delete :: "delete_doc \<Rightarrow> string option"
  lib_read_delete :: "string \<Rightarrow> string + delete_request"
  lib_read_delete_result :: "string \<Rightarrow> string + (string list \<times> delete_error list)"
  lib_crypto :: crypto
  lib_md5_base64 :: "string \<Rightarrow> string"

text \<open>The time of a request, as the stamps a signature needs.\<close>

record stamps =
  st_now :: int
  st_date :: string
  st_amz_date :: string

record raw_response =
  rr_status :: nat
  rr_headers :: header_map
  rr_body :: string

record 's forward_response =
  fr_status :: nat
  fr_headers :: header_map
  fr_body :: 's
  fr_content_length :: "u64 option"

record paginated_result =
  pg_result :: list_result
  pg_page_token :: "string option"

type_synonym url_signing = "http_method \<Rightarrow> string \<Rightarrow> object_store_error + string"
type_synonym list_store = "string option \<Rightarrow> list_options \<Rightarrow> object_store_error + paginated_result"

text \<open>\<open>ProxyBackend\<close>: \<open>'b\<close> is the request body of the runtime, \<open>'s\<close> its streaming response body.\<close>

record ('b, 's) proxy_backend =
  pb_forward :: "forward_request \<Rightarrow> 'b \<Rightarrow> proxy_error + 's forward_response"
  pb_create_paginated_store :: "bucket_config \<Rightarrow> proxy_error + list_store"
  pb_create_signer :: "bucket_config \<Rightarrow> proxy_error + url_signing"
  pb_send_raw :: "http_method \<Rightarrow> string \<Rightarrow> header_map \<Rightarrow> string \<Rightarrow> proxy_error + raw_response"

record resolved_bucket =
  rb_config :: bucket_config
  rb_list_rewrite :: "list_rewrite option"
  rb_display_name :: "string option"

text \<open>\<open>BucketRegistry\<close>.\<close>

record bucket_registry =
  br_get_bucket :: "string \<Rightarrow> resolved_identity \<Rightarrow> s3_operation \<Rightarrow> proxy_error + resolved_bucket"
  br_list_buckets :: "resolved_identity \<Rightarrow> proxy_error + bucket_entry list"
  br_authorize_key :: "string \<Rightarrow> resolved_identity \<Rightarrow> action \<Rightarrow> string \<Rightarrow> bool"
  br_bucket_owner :: bucket_owner

definition default_bucket_owner :: bucket_owner where
  "default_bucket_owner = \<lparr>owner_id = ''multistore-proxy'', owner_display_name = ''multistore-proxy''\<rparr>"

definition default_authorize_key :: "string \<Rightarrow> resolved_identity \<Rightarrow> action \<Rightarrow> string \<Rightarrow> bool" where
  "default_authorize_key name identity act key = key_authorized identity name act key"

record ('b, 's, 'r) gateway =
  gw_libs :: libs
  gw_backend :: "('b, 's) proxy_backend"
  gw_bucket_registry :: bucket_registry
  gw_credentials :: credential_lookup
  gw_middleware :: "middleware list"
  gw_virtual_host_domain :: "string option"
  gw_credential_resolver :: "token_resolver option"
  gw_matchit :: "'r matchit"
  gw_router :: 'r
  gw_debug_errors :: bool
  gw_user_agent :: string
  gw_server_timing :: bool
  gw_max_request_body_size :: "u64 option"

definition new_gateway ::
  "libs \<Rightarrow> 'r matchit \<Rightarrow> string \<Rightarrow> ('b, 's) proxy_backend \<Rightarrow> bucket_registry \<Rightarrow> credential_lookup
   \<Rightarrow> string option \<Rightarrow> ('b, 's, 'r) gateway" where
  "new_gateway libs mi default_user_agent backend buckets credentials domain =
     \<lparr>gw_libs = libs, gw_backend = backend, gw_bucket_registry = buckets,
      gw_credentials = credentials, gw_middleware = [],
      gw_virtual_host_domain = domain, gw_credential_resolver = None, gw_matchit = mi,
      gw_router = mi_new mi, gw_debug_errors = False, gw_user_agent = default_user_agent,
      gw_server_timing = True, gw_max_request_body_size = None\<rparr>"

definition with_middleware :: "('b, 's, 'r) gateway \<Rightarrow> middleware \<Rightarrow> ('b, 's, 'r) gateway" where
  "with_middleware gw m = gw\<lparr>gw_middleware := gw_middleware gw @ [m]\<rparr>"

definition with_credential_resolver ::
  "('b, 's, 'r) gateway \<Rightarrow> token_resolver \<Rightarrow> ('b, 's, 'r) gateway" where
  "with_credential_resolver gw r = gw\<lparr>gw_credential_resolver := Some r\<rparr>"

definition with_router :: "('b, 's, 'r) gateway \<Rightarrow> 'r \<Rightarrow> ('b, 's, 'r) gateway" where
  "with_router gw r = gw\<lparr>gw_router := r\<rparr>"

definition with_debug_errors :: "('b, 's, 'r) gateway \<Rightarrow> bool \<Rightarrow> ('b, 's, 'r) gateway" where
  "with_debug_errors gw b = gw\<lparr>gw_debug_errors := b\<rparr>"

definition with_user_agent :: "('b, 's, 'r) gateway \<Rightarrow> string \<Rightarrow> ('b, 's, 'r) gateway" where
  "with_user_agent gw ua = gw\<lparr>gw_user_agent := ua\<rparr>"

definition with_server_timing :: "('b, 's, 'r) gateway \<Rightarrow> bool \<Rightarrow> ('b, 's, 'r) gateway" where
  "with_server_timing gw b = gw\<lparr>gw_server_timing := b\<rparr>"

definition with_max_request_body_size :: "('b, 's, 'r) gateway \<Rightarrow> u64 \<Rightarrow> ('b, 's, 'r) gateway" where
  "with_max_request_body_size gw n = gw\<lparr>gw_max_request_body_size := Some n\<rparr>"

subsection \<open>Constants\<close>

definition presigned_url_ttl_secs :: nat where
  "presigned_url_ttl_secs = 300"

definition signed_aws_chunked_unsupported :: string where
  "signed_aws_chunked_unsupported =
     ''aws-chunked uploads with signed chunks (x-amz-content-sha256: STREAMING-AWS4-HMAC-SHA256-PAYLOAD) are not supported; configure the client to use a trailing checksum (the default) or multipart''"

definition aws_chunked_forward_headers :: "string list" where
  "aws_chunked_forward_headers =
     [''content-type'', ''content-encoding'', ''x-amz-decoded-content-length'', ''x-amz-trailer'',
      ''if-match'', ''if-none-match'']"

definition plain_part_forward_headers :: "string list" where
  "plain_part_forward_headers =
     [''content-type'', ''content-md5'', ''x-amz-sdk-checksum-algorithm'', ''x-amz-checksum-crc32'',
      ''x-amz-checksum-crc32c'', ''x-amz-checksum-crc64nvme'', ''x-amz-checksum-sha1'',
      ''x-amz-checksum-sha256'']"

definition read_forward_headers :: "string list" where
  "read_forward_headers =
     [''range'', ''if-match'', ''if-none-match'', ''if-modified-since'', ''if-unmodified-since'']"

definition put_forward_headers :: "string list" where
  "put_forward_headers =
     [''content-type'', ''content-length'', ''content-md5'', ''content-disposition'',
      ''content-encoding'', ''content-language'', ''cache-control'', ''expires'', ''if-match'',
      ''if-none-match'']"

subsection \<open>Host style, sizes, classification\<close>

definition determine_host_style :: "header_map \<Rightarrow> string option \<Rightarrow> host_style" where
  "determine_host_style headers virtual_host_domain =
     (case virtual_host_domain of
        None \<Rightarrow> PathStyle
      | Some domain \<Rightarrow>
         (case hm_str headers ''host'' of
            None \<Rightarrow> PathStyle
          | Some host \<Rightarrow>
             (case strip_suffix (''.'' @ domain) (hd (split_on CHR '':'' host)) of
                None \<Rightarrow> PathStyle
              | Some bucket \<Rightarrow> VirtualHosted bucket)))"

definition content_length :: "header_map \<Rightarrow> u64 option" where
  "content_length headers = Option.bind (hm_str headers ''content-length'') parse_u64"

definition check_upload_size :: "u64 option \<Rightarrow> header_map \<Rightarrow> proxy_error + unit" where
  "check_upload_size max_size headers =
     (case (max_size, content_length headers) of
        (Some m, Some len) \<Rightarrow> if len > m then Inl EntityTooLarge else Inr ()
      | _ \<Rightarrow> Inr ())"

fun buffered_op :: "s3_operation \<Rightarrow> bool" where
  "buffered_op (CreateMultipartUpload _ _) = True"
| "buffered_op (CompleteMultipartUpload _ _ _) = True"
| "buffered_op (AbortMultipartUpload _ _ _) = True"
| "buffered_op (DeleteObjects _) = True"
| "buffered_op _ = False"

definition parse_operation :: "libs \<Rightarrow> string option \<Rightarrow> request_info \<Rightarrow> proxy_error + s3_operation" where
  "parse_operation lib domain req =
     parse_s3_request (lib_form_parse lib) (lib_percent_decode lib) (ri_method req) (ri_path req)
       (ri_query req) (ri_headers req) (determine_host_style (ri_headers req) domain)
       (ri_copy_source req)"

definition op_needs_buffered_body :: "libs \<Rightarrow> string option \<Rightarrow> request_info \<Rightarrow> bool" where
  "op_needs_buffered_body lib domain req =
     (case parse_operation lib domain req of Inl _ \<Rightarrow> False | Inr op \<Rightarrow> buffered_op op)"

definition require_s3_backend :: "bucket_config \<Rightarrow> proxy_error + unit" where
  "require_s3_backend config =
     (if is_s3_backend config then Inr ()
      else Inl (InvalidRequest (''operation not supported for '' @ [CHR 0x27]
        @ backend_type_str (bc_backend_type config) @ [CHR 0x27] @ '' backends'')))"

subsection \<open>Error responses\<close>

definition error_response ::
  "(xml_doc \<Rightarrow> string option) \<Rightarrow> proxy_error \<Rightarrow> string \<Rightarrow> string \<Rightarrow> bool \<Rightarrow> proxy_result" where
  "error_response xs err resource request_id debug =
     \<lparr>pr_status = status_code err, pr_headers = [(''content-type'', ''application/xml'')],
      pr_body = body_from_bytes (error_to_xml xs (from_proxy_error err resource request_id debug))\<rparr>"

subsection \<open>Keys in and out of the backend prefix\<close>

definition apply_backend_prefix :: "bucket_config \<Rightarrow> string \<Rightarrow> string" where
  "apply_backend_prefix config key =
     (case bc_backend_prefix config of
        Some p \<Rightarrow>
          (let p = trim_end_matches CHR ''/'' p in if p = [] then key else p @ ''/'' @ key)
      | None \<Rightarrow> key)"

definition strip_backend_prefix :: "bucket_config \<Rightarrow> string \<Rightarrow> string" where
  "strip_backend_prefix config key =
     (case bc_backend_prefix config of
        Some p \<Rightarrow>
          (let p = trim_end_matches CHR ''/'' p in
           if p = [] then key
           else the_or key (Option.bind (strip_prefix p key) (strip_prefix ''/'')))
      | None \<Rightarrow> key)"

definition build_object_path :: "(string \<Rightarrow> string + string) \<Rightarrow> bucket_config \<Rightarrow> string \<Rightarrow> proxy_error + string" where
  "build_object_path parse_path config key =
     map_error (\<lambda>e. InvalidRequest (''invalid object key: '' @ e))
       (parse_path (apply_backend_prefix config key))"

definition same_s3_endpoint :: "bucket_config \<Rightarrow> bucket_config \<Rightarrow> bool" where
  "same_s3_endpoint a b \<longleftrightarrow> is_s3_backend a \<and> is_s3_backend b \<and>
     bc_option a ''endpoint'' = bc_option b ''endpoint'' \<and>
     bc_option a ''region'' = bc_option b ''region''"

definition build_copy_source_header ::
  "((char \<Rightarrow> bool) \<Rightarrow> string \<Rightarrow> string) \<Rightarrow> bucket_config \<Rightarrow> string \<Rightarrow> string option \<Rightarrow> proxy_error + string" where
  "build_copy_source_header pe src_config src_key src_version =
     (let src_bucket = the_or [] (bc_option src_config ''bucket_name'') in
      if src_bucket = []
      then Inl (NotImplemented ''copy from a backend without a bucket name is not supported'')
      else
        (let encoded = pe s3_path_encode_set (apply_backend_prefix src_config src_key);
             value = ''/'' @ src_bucket @ ''/'' @ encoded
         in Inr (case src_version of None \<Rightarrow> value | Some v \<Rightarrow> value @ ''?versionId='' @ v)))"

definition copy_forward_names :: "string list" where
  "copy_forward_names =
     [''content-type'', ''content-disposition'', ''content-encoding'', ''content-language'',
      ''cache-control'', ''expires'', ''x-amz-metadata-directive'', ''x-amz-tagging-directive'',
      ''x-amz-tagging'', ''x-amz-acl'', ''x-amz-storage-class'',
      ''x-amz-website-redirect-location'', ''x-amz-copy-source-if-match'',
      ''x-amz-copy-source-if-none-match'', ''x-amz-copy-source-if-modified-since'',
      ''x-amz-copy-source-if-unmodified-since'']"

definition is_copy_forward_header :: "string \<Rightarrow> bool" where
  "is_copy_forward_header name \<longleftrightarrow> name \<in> set copy_forward_names \<or>
     starts_with name ''x-amz-meta-'' \<or> starts_with name ''x-amz-server-side-encryption''"

subsection \<open>Copying headers\<close>

definition pick_headers :: "string list \<Rightarrow> header_map \<Rightarrow> header_map \<Rightarrow> header_map" where
  "pick_headers names original init =
     foldl (\<lambda>h n. case hm_get original n of Some v \<Rightarrow> hm_insert n v h | None \<Rightarrow> h) init names"

definition copy_headers :: "(string \<Rightarrow> bool) \<Rightarrow> header_map \<Rightarrow> header_map \<Rightarrow> header_map" where
  "copy_headers wanted original init =
     foldl (\<lambda>h (n, v). if wanted n then hm_insert n v h else h) init original"

subsection \<open>Lemmas\<close>

lemma apply_backend_prefix_alt [prefix_simps]:
  "apply_backend_prefix c k = list_strip_prefix c @ k"
  by (auto simp: apply_backend_prefix_def list_strip_prefix_def trimmed_backend_prefix_def Let_def
      split: option.splits)

lemma strip_apply [prefix_simps]: "strip_backend_prefix c (apply_backend_prefix c k) = k"
  by (auto simp: apply_backend_prefix_def strip_backend_prefix_def Let_def split: option.splits)

lemma apply_backend_prefix_inj: "apply_backend_prefix c k = apply_backend_prefix c k' \<longleftrightarrow> k = k'"
  by (simp add: apply_backend_prefix_alt)

lemma pick_headers_names:
  "fst ` set (pick_headers names original init) \<subseteq> fst ` set init \<union> set names"
proof (induction names arbitrary: init)
  case (Cons n names)
  show ?case
  proof (cases "hm_get original n")
    case None
    then show ?thesis using Cons.IH [of init] by (auto simp: pick_headers_def)
  next
    case (Some v)
    then have "pick_headers (n # names) original init = pick_headers names original (hm_insert n v init)"
      by (simp add: pick_headers_def)
    moreover have "fst ` set (pick_headers names original (hm_insert n v init))
        \<subseteq> insert n (fst ` set init) \<union> set names"
      using Cons.IH [of "hm_insert n v init"] by (simp add: fst_hm_insert)
    ultimately show ?thesis by auto
  qed
qed (simp add: pick_headers_def)

lemma copy_headers_names:
  "fst ` set (copy_headers wanted original init) \<subseteq> fst ` set init \<union> {n. wanted n}"
proof (induction original arbitrary: init)
  case (Cons p original)
  obtain n v where p: "p = (n, v)" by (cases p)
  show ?case
  proof (cases "wanted n")
    case False
    then show ?thesis using Cons.IH [of init] by (simp add: copy_headers_def p)
  next
    case True
    then have "copy_headers wanted (p # original) init = copy_headers wanted original (hm_insert n v init)"
      by (simp add: copy_headers_def p)
    moreover have "fst ` set (copy_headers wanted original (hm_insert n v init))
        \<subseteq> insert n (fst ` set init) \<union> {n. wanted n}"
      using Cons.IH [of "hm_insert n v init"] by (simp add: fst_hm_insert)
    ultimately show ?thesis using True by auto
  qed
qed (simp add: copy_headers_def)

lemma check_upload_size_iff:
  "check_upload_size m h = Inr u \<longleftrightarrow> (\<forall>max len. m = Some max \<longrightarrow> content_length h = Some len \<longrightarrow> len \<le> max)"
  by (auto simp: check_upload_size_def not_less split: option.splits)

lemma check_upload_size_error: "check_upload_size m h = Inl e \<Longrightarrow> e = EntityTooLarge"
  by (auto simp: check_upload_size_def split: option.splits if_splits)

lemma determine_host_style_virtual:
  "determine_host_style h d = VirtualHosted b \<longleftrightarrow>
     (\<exists>domain host. d = Some domain \<and> hm_str h ''host'' = Some host \<and>
        hd (split_on CHR '':'' host) = b @ ''.'' @ domain)"
  by (auto simp: determine_host_style_def simp del: strip_suffix_eq_Some
      simp: strip_suffix_eq_Some [symmetric] split: option.splits)

lemma error_response_body [simp]:
  "pr_status (error_response xs e r i d) = status_code e"
  by (simp add: error_response_def)

subsection \<open>A concrete gateway\<close>

text \<open>One instance of every parameter, for the examples.\<close>

definition demo_libs :: libs where
  "demo_libs =
     \<lparr>lib_form_parse = (\<lambda>_. []), lib_percent_decode = Some, lib_percent_encode = percent_encoded,
      lib_form_serialize = (\<lambda>_. ''u=1''),
      lib_url_parse = (\<lambda>u. Inr \<lparr>url_str = u, url_host = Some ''m'', url_port = Some 9000,
                               url_path = ''/store'', url_query = None\<rparr>),
      lib_path_parse = (\<lambda>p. if p = [] then Inl ''empty'' else Inr p), lib_time_format = (\<lambda>_. ''t''),
      lib_xml = (\<lambda>_. Some ''<x/>''), lib_xml_delete = (\<lambda>_. Some ''<d/>''),
      lib_read_delete = (\<lambda>_. Inr \<lparr>dr_quiet = False,
         dr_objects = [\<lparr>doe_key = ''a''\<rparr>, \<lparr>doe_key = ''b''\<rparr>]\<rparr>),
      lib_read_delete_result = (\<lambda>_. Inr ([''a''], [])), lib_crypto = demo_crypto,
      lib_md5_base64 = (\<lambda>_. ''md5='')\<rparr>"

definition demo_stamps :: stamps where
  "demo_stamps = \<lparr>st_now = 0, st_date = ''20240101'', st_amz_date = ''20240101T000000Z''\<rparr>"

definition demo_backend :: "(string, string) proxy_backend" where
  "demo_backend =
     \<lparr>pb_forward = (\<lambda>f b. Inr \<lparr>fr_status = 200, fr_headers = [], fr_body = b, fr_content_length = None\<rparr>),
      pb_create_paginated_store = (\<lambda>_. Inl (Internal ''no store'')),
      pb_create_signer = (\<lambda>_. Inr (\<lambda>_ p. Inr (''http://m:9000/'' @ p))),
      pb_send_raw = (\<lambda>_ _ _ _. Inr \<lparr>rr_status = 200, rr_headers = [], rr_body = ''ok''\<rparr>)\<rparr>"

definition demo_matchit :: "unit matchit" where
  "demo_matchit = \<lparr>mi_new = (), mi_insert = (\<lambda>_ _ _. Some ()), mi_at = (\<lambda>_ _. None)\<rparr>"

definition demo_gateway :: "bucket_registry \<Rightarrow> (string, string, unit) gateway" where
  "demo_gateway reg = new_gateway demo_libs demo_matchit ''multistore/0'' demo_backend reg
     (\<lambda>_. Inr None) None"

lemma demo_gateway_fields [simp]:
  "gw_libs (demo_gateway reg) = demo_libs" "gw_bucket_registry (demo_gateway reg) = reg"
  "gw_backend (demo_gateway reg) = demo_backend" "gw_middleware (demo_gateway reg) = []"
  "gw_virtual_host_domain (demo_gateway reg) = None"
  "gw_max_request_body_size (demo_gateway reg) = None"
  "gw_matchit (demo_gateway reg) = demo_matchit"
  "gw_user_agent (demo_gateway reg) = ''multistore/0''"
  "gw_credential_resolver (demo_gateway reg) = None"
  by (simp_all add: demo_gateway_def new_gateway_def)

end
