(* ===== verification/Dispatch.thy ===== *)
theory Dispatch
  imports GatewayBase
begin

text \<open>
  \<open>ProxyGateway::dispatch_operation\<close> and what it calls (\<open>crates/core/src/proxy.rs\<close>): presigned
  forwards, header-signed streaming forwards, listing, multipart control operations, batch
  delete and server-side copy.  Each returns its outcome with the trace of backend calls.
\<close>

subsection \<open>Forwards\<close>

definition build_forward ::
  "('b, 's, 'r) gateway \<Rightarrow> http_method \<Rightarrow> bucket_config \<Rightarrow> string \<Rightarrow> header_map \<Rightarrow> string list
   \<Rightarrow> string \<Rightarrow> forward_request outcome" where
  "build_forward gw method config key original names request_id =
     outcome_bind (of_result (pb_create_signer (gw_backend gw) config)) (\<lambda>signer.
     outcome_bind (of_result (build_object_path (lib_path_parse (gw_libs gw)) config key)) (\<lambda>path.
     outcome_bind (of_result (map_error from_object_store_error (signer method path))) (\<lambda>url.
     outcome_bind (insert_or_panic ''user-agent'' (gw_user_agent gw) (pick_headers names original [])) (\<lambda>h.
     Ok \<lparr>fw_method = method, fw_url = url, fw_headers = h, fw_request_id = request_id\<rparr>))))"

definition build_streaming_forward ::
  "('b, 's, 'r) gateway \<Rightarrow> stamps \<Rightarrow> bucket_config \<Rightarrow> s3_operation \<Rightarrow> string \<Rightarrow> string list
   \<Rightarrow> header_map \<Rightarrow> string \<Rightarrow> forward_request outcome" where
  "build_streaming_forward gw st config op payload_hash names original request_id =
     (let lib = gw_libs gw in
      outcome_bind (of_result (build_backend_url (lib_percent_encode lib) (lib_form_serialize lib) config op))
        (\<lambda>raw_url.
      outcome_bind (of_result (map_error (\<lambda>e. Internal (''invalid backend URL: '' @ e))
          (lib_url_parse lib raw_url))) (\<lambda>url.
      outcome_bind (sign_s3_request (lib_crypto lib) (lib_url_parse lib) (st_date st) (st_amz_date st)
          PUT (url_str url) (pick_headers names original []) config payload_hash) (\<lambda>h.
      outcome_bind (insert_or_panic ''user-agent'' (gw_user_agent gw)
          (case hm_get original ''content-length'' of
             Some cl \<Rightarrow> hm_insert ''content-length'' cl h | None \<Rightarrow> h)) (\<lambda>h.
      Ok \<lparr>fw_method = PUT, fw_url = url_str url, fw_headers = h, fw_request_id = request_id\<rparr>)))))"

definition try_streaming_forward ::
  "('b, 's, 'r) gateway \<Rightarrow> stamps \<Rightarrow> bucket_config \<Rightarrow> s3_operation \<Rightarrow> header_map \<Rightarrow> string
   \<Rightarrow> forward_request option outcome" where
  "try_streaming_forward gw st config op original request_id =
     (case streaming_upload_of original of
        Some (StreamUnsigned, sentinel) \<Rightarrow>
          if \<not> is_s3_backend config then
            Err (InvalidRequest (''aws-chunked streaming uploads are not supported for '' @ [CHR 0x27]
              @ backend_type_str (bc_backend_type config) @ [CHR 0x27] @ '' backends''))
          else outcome_bind (build_streaming_forward gw st config op sentinel
                 aws_chunked_forward_headers original request_id) (\<lambda>f. Ok (Some f))
      | Some (StreamSigned, _) \<Rightarrow> Err (NotImplemented signed_aws_chunked_unsupported)
      | None \<Rightarrow> Ok None)"

subsection \<open>Listing\<close>

definition list_offset :: "bucket_config \<Rightarrow> list_query_params \<Rightarrow> string option" where
  "list_offset config ps =
     map_option (build_list_prefix config) (if lq_is_v2 ps then lq_start_after ps else lq_marker ps)"

definition list_options_of :: "bucket_config \<Rightarrow> list_query_params \<Rightarrow> list_options" where
  "list_options_of config ps =
     \<lparr>lo_offset = list_offset config ps,
      lo_delimiter = (if lq_delimiter ps = [] then None else Some (lq_delimiter ps)),
      lo_max_keys = Some (lq_max_keys ps), lo_page_token = lq_continuation_token ps\<rparr>"

definition next_marker :: "paginated_result \<Rightarrow> string option" where
  "next_marker page =
     (if pg_page_token page \<noteq> None \<and> lr_objects (pg_result page) \<noteq> []
      then Some (om_location (last (lr_objects (pg_result page)))) else None)"

definition list_xml ::
  "libs \<Rightarrow> bucket_config \<Rightarrow> list_query_params \<Rightarrow> list_rewrite option \<Rightarrow> string option
   \<Rightarrow> paginated_result \<Rightarrow> string" where
  "list_xml lib config ps rewrite display_name page =
     (let bucket_name = the_or (bc_name config) display_name;
          res = pg_result page;
          is_truncated = (pg_page_token page \<noteq> None)
      in if lq_is_v2 ps then
           build_list_xml (lib_xml lib) (lib_percent_encode lib) (lib_time_format lib)
             \<lparr>lx_bucket_name = bucket_name, lx_client_prefix = lq_prefix ps,
              lx_delimiter = lq_delimiter ps, lx_max_keys = lq_max_keys ps,
              lx_is_truncated = is_truncated,
              lx_key_count = length (lr_objects res) + length (lr_common_prefixes res),
              lx_start_after = lq_start_after ps, lx_continuation_token = lq_continuation_token ps,
              lx_next_continuation_token = pg_page_token page,
              lx_encoding_type = lq_encoding_type ps\<rparr> res config rewrite
         else
           build_list_xml_v1 (lib_xml lib) (lib_percent_encode lib) (lib_time_format lib)
             \<lparr>l1_bucket_name = bucket_name, l1_client_prefix = lq_prefix ps,
              l1_delimiter = lq_delimiter ps, l1_max_keys = lq_max_keys ps,
              l1_is_truncated = is_truncated, l1_marker = the_or [] (lq_marker ps),
              l1_next_marker = next_marker page, l1_encoding_type = lq_encoding_type ps\<rparr> res config rewrite)"

definition handle_list ::
  "('b, 's, 'r) gateway \<Rightarrow> bucket_config \<Rightarrow> string option \<Rightarrow> list_rewrite option \<Rightarrow> string option
   \<Rightarrow> proxy_result traced" where
  "handle_list gw config raw_query rewrite display_name =
     t_bind (t_of (of_result (pb_create_paginated_store (gw_backend gw) config))) (\<lambda>store.
       let ps = parse_list_query_params (lib_form_parse (gw_libs gw)) raw_query;
           full_prefix = build_list_prefix config (lq_prefix ps);
           pre = (if full_prefix = [] then None else Some full_prefix);
           opts = list_options_of config ps
       in t_bind (t_call (CallList config pre opts)
                   (of_result (map_error from_object_store_error (store pre opts)))) (\<lambda>page.
          t_of (Ok \<lparr>pr_status = 200, pr_headers = [(''content-type'', ''application/xml'')],
                    pr_body = BodyBytes (list_xml (gw_libs gw) config ps rewrite display_name page)\<rparr>)))"

subsection \<open>Raw operations\<close>

definition raw_result :: "raw_response \<Rightarrow> proxy_result" where
  "raw_result r =
     \<lparr>pr_status = rr_status r, pr_headers = filter_response_headers (rr_headers r),
      pr_body = body_from_bytes (rr_body r)\<rparr>"

definition send_raw ::
  "('b, 's, 'r) gateway \<Rightarrow> http_method \<Rightarrow> string \<Rightarrow> header_map \<Rightarrow> string \<Rightarrow> raw_response traced" where
  "send_raw gw method url headers body =
     t_call (CallRaw method url headers body) (of_result (pb_send_raw (gw_backend gw) method url headers body))"

definition gw_sign ::
  "('b, 's, 'r) gateway \<Rightarrow> stamps \<Rightarrow> http_method \<Rightarrow> string \<Rightarrow> header_map \<Rightarrow> bucket_config \<Rightarrow> string
   \<Rightarrow> header_map outcome" where
  "gw_sign gw st method url headers config payload_hash =
     sign_s3_request (lib_crypto (gw_libs gw)) (lib_url_parse (gw_libs gw)) (st_date st)
       (st_amz_date st) method url headers config payload_hash"

definition gw_backend_url :: "('b, 's, 'r) gateway \<Rightarrow> bucket_config \<Rightarrow> s3_operation \<Rightarrow> proxy_error + string" where
  "gw_backend_url gw config op =
     build_backend_url (lib_percent_encode (gw_libs gw)) (lib_form_serialize (gw_libs gw)) config op"

definition is_multipart_forward_header :: "string \<Rightarrow> bool" where
  "is_multipart_forward_header n \<longleftrightarrow>
     n \<in> {''content-type'', ''content-length'', ''content-md5'', ''if-match'', ''if-none-match''} \<or>
     starts_with n ''x-amz-checksum'' \<or> n = ''x-amz-sdk-checksum-algorithm''"

definition execute_multipart ::
  "('b, 's, 'r) gateway \<Rightarrow> stamps \<Rightarrow> pending_request \<Rightarrow> string \<Rightarrow> proxy_result traced" where
  "execute_multipart gw st pending body =
     t_bind (t_of (of_result (gw_backend_url gw (pd_bucket_config pending) (pd_operation pending)))) (\<lambda>url.
     t_bind (t_of (insert_or_panic ''user-agent'' (gw_user_agent gw)
         (copy_headers is_multipart_forward_header (pd_original_headers pending) []))) (\<lambda>h.
       let payload_hash = (if body = [] then unsigned_payload
                           else hash_payload (lib_crypto (gw_libs gw)) body);
           method = op_method (pd_operation pending)
       in t_bind (t_of (gw_sign gw st method url h (pd_bucket_config pending) payload_hash)) (\<lambda>h.
          t_bind (send_raw gw method url h body) (\<lambda>raw.
          t_of (Ok (raw_result raw))))))"

subsection \<open>Batch delete\<close>

definition denied_entry :: "string \<Rightarrow> delete_error" where
  "denied_entry key = \<lparr>de_key = key, de_code = ''AccessDenied'', de_message = ''Access Denied''\<rparr>"

text \<open>The loop that partitions the keys: backend keys of those allowed, errors of the others.\<close>

fun partition_keys ::
  "(string \<Rightarrow> bool) \<Rightarrow> bucket_config \<Rightarrow> string list \<Rightarrow> string list \<times> delete_error list" where
  "partition_keys allowed config [] = ([], [])"
| "partition_keys allowed config (key # keys) =
     (case partition_keys allowed config keys of
        (ok, errs) \<Rightarrow>
          if allowed key then (apply_backend_prefix config key # ok, errs)
          else (ok, denied_entry key # errs))"

definition unparseable_delete_result :: proxy_error where
  "unparseable_delete_result = BackendError ''backend returned an unparseable delete result''"

definition delete_outcome ::
  "libs \<Rightarrow> bucket_config \<Rightarrow> delete_error list \<Rightarrow> raw_response
   \<Rightarrow> proxy_error + (string list \<times> delete_error list)" where
  "delete_outcome lib config errors raw =
     (if rr_status raw \<ge> 300
      then Inl (BackendError (''backend rejected batch delete with status '' @ nat_to_string (rr_status raw)))
      else (case parse_backend_result (lib_read_delete_result lib) (rr_body raw) of
              Inl _ \<Rightarrow> Inl unparseable_delete_result
            | Inr oc \<Rightarrow>
                Inr (map (strip_backend_prefix config) (bo_deleted oc),
                     errors @ map (\<lambda>e. e\<lparr>de_key := strip_backend_prefix config (de_key e)\<rparr>) (bo_errors oc))))"

definition send_batch_delete ::
  "('b, 's, 'r) gateway \<Rightarrow> stamps \<Rightarrow> bucket_config \<Rightarrow> s3_operation \<Rightarrow> string list \<Rightarrow> delete_error list
   \<Rightarrow> (string list \<times> delete_error list) traced" where
  "send_batch_delete gw st config op backend_keys errors =
     (let lib = gw_libs gw;
          body = build_backend_delete_body (lib_xml_delete lib) backend_keys;
          md5 = lib_md5_base64 lib body
      in t_bind (t_of (of_result (gw_backend_url gw config op))) (\<lambda>url.
         t_bind (t_of (if hv_valid md5
                       then Ok [(''content-type'', ''application/xml''), (''content-md5'', md5)]
                       else Err (Internal ''invalid content-md5 header''))) (\<lambda>h.
         t_bind (t_of (insert_or_panic ''user-agent'' (gw_user_agent gw) h)) (\<lambda>h.
         t_bind (t_of (gw_sign gw st POST url h config (hash_payload (lib_crypto lib) body))) (\<lambda>h.
         t_bind (send_raw gw POST url h body) (\<lambda>raw.
         t_of (of_result (delete_outcome lib config errors raw))))))))"

definition execute_delete_objects ::
  "('b, 's, 'r) gateway \<Rightarrow> stamps \<Rightarrow> pending_request \<Rightarrow> string \<Rightarrow> proxy_result traced" where
  "execute_delete_objects gw st pending body =
     (let lib = gw_libs gw;
          config = pd_bucket_config pending;
          bucket = the_or [] (op_bucket (pd_operation pending))
      in t_bind (t_of (of_result (parse_delete_request (lib_read_delete lib) body))) (\<lambda>req.
           case partition_keys
                  (br_authorize_key (gw_bucket_registry gw) bucket (pd_identity pending) ActDeleteObject)
                  config (delete_keys req) of
             (ok, errors) \<Rightarrow>
               t_bind (if ok = [] then t_of (Ok ([], errors))
                       else send_batch_delete gw st config (pd_operation pending) ok errors)
                 (\<lambda>(deleted, errors).
                   t_of (Ok (xml_result 200
                     (build_delete_result (lib_xml_delete lib) deleted errors (dr_quiet req)))))))"

subsection \<open>Copy\<close>

definition execute_copy ::
  "('b, 's, 'r) gateway \<Rightarrow> stamps \<Rightarrow> bucket_config \<Rightarrow> bucket_config \<Rightarrow> s3_operation \<Rightarrow> string
   \<Rightarrow> string option \<Rightarrow> header_map \<Rightarrow> proxy_result traced" where
  "execute_copy gw st dest_config src_config op src_key src_version original =
     (if \<not> same_s3_endpoint src_config dest_config then
        t_of (Err (NotImplemented
          ''cross-store copy (source and destination on different backends) is not supported''))
      else
        t_bind (t_of (of_result (build_copy_source_header (lib_percent_encode (gw_libs gw)) src_config
                 src_key src_version))) (\<lambda>copy_source.
        t_bind (t_of (of_result (gw_backend_url gw dest_config op))) (\<lambda>url.
        t_bind (t_of (if hv_valid copy_source then Ok [(''x-amz-copy-source'', copy_source)]
                      else Err (Internal ''invalid x-amz-copy-source header value''))) (\<lambda>h.
        t_bind (t_of (insert_or_panic ''user-agent'' (gw_user_agent gw)
                 (copy_headers is_copy_forward_header original h))) (\<lambda>h.
        t_bind (t_of (gw_sign gw st PUT url h dest_config (hash_payload (lib_crypto (gw_libs gw)) []))) (\<lambda>h.
        t_bind (send_raw gw PUT url h []) (\<lambda>raw.
        t_of (Ok (raw_result raw)))))))))"

subsection \<open>Lemmas\<close>

lemma partition_keys_eq:
  "partition_keys allowed c keys =
     (map (apply_backend_prefix c) (filter allowed keys), map denied_entry (filter (\<lambda>k. \<not> allowed k) keys))"
  by (induction keys) auto

lemma calls_send_raw [simp]: "snd (send_raw gw m u h b) = [CallRaw m u h b]"
  by (simp add: send_raw_def)

text \<open>The calls of a bind come from its parts.\<close>

lemma t_bind_of_calls:
  "c \<in> set (snd (t_bind (t_of x) f)) \<longleftrightarrow> (\<exists>a. x = Ok a \<and> c \<in> set (snd (f a)))"
  by (cases x) auto

lemma t_bind_call_calls:
  "c \<in> set (snd (t_bind (t_call d x) f)) \<longleftrightarrow> c = d \<or> (\<exists>a. x = Ok a \<and> c \<in> set (snd (f a)))"
  by (cases x) (auto simp: t_call_def split: prod.splits)

lemma t_bind_raw_calls:
  "c \<in> set (snd (t_bind (send_raw gw m u h b) f)) \<longleftrightarrow>
     c = CallRaw m u h b \<or> (\<exists>a. fst (send_raw gw m u h b) = Ok a \<and> c \<in> set (snd (f a)))"
  by (simp add: send_raw_def t_bind_call_calls)

lemmas call_simps = t_bind_of_calls t_bind_call_calls t_bind_raw_calls

lemma send_batch_delete_calls:
  assumes "c \<in> set (snd (send_batch_delete gw st cfg op keys errs))"
  shows "\<exists>u h. gw_backend_url gw cfg op = Inr u \<and>
    c = CallRaw POST u h (build_backend_delete_body (lib_xml_delete (gw_libs gw)) keys)"
  using assms by (auto simp: send_batch_delete_def Let_def call_simps)

lemma execute_copy_calls:
  assumes "c \<in> set (snd (execute_copy gw st d s op k v h))"
  shows "\<exists>u h' cs. same_s3_endpoint s d \<and> gw_backend_url gw d op = Inr u \<and>
    build_copy_source_header (lib_percent_encode (gw_libs gw)) s k v = Inr cs \<and> c = CallRaw PUT u h' []"
  using assms by (auto simp: execute_copy_def call_simps split: if_splits)

lemma handle_list_calls:
  assumes "c \<in> set (snd (handle_list gw cfg q w n))"
  shows "c = CallList cfg
    (let p = build_list_prefix cfg (lq_prefix (parse_list_query_params (lib_form_parse (gw_libs gw)) q))
     in if p = [] then None else Some p)
    (list_options_of cfg (parse_list_query_params (lib_form_parse (gw_libs gw)) q))"
  using assms by (auto simp: handle_list_def Let_def call_simps)

lemma execute_delete_objects_eq:
  assumes "parse_delete_request (lib_read_delete (gw_libs gw)) body = Inr req"
    and "allowed = br_authorize_key (gw_bucket_registry gw) (the_or [] (op_bucket (pd_operation p)))
           (pd_identity p) ActDeleteObject"
  shows "execute_delete_objects gw st p body =
    t_bind (if filter allowed (delete_keys req) = []
            then t_of (Ok ([], map denied_entry (filter (\<lambda>k. \<not> allowed k) (delete_keys req))))
            else send_batch_delete gw st (pd_bucket_config p) (pd_operation p)
              (map (apply_backend_prefix (pd_bucket_config p)) (filter allowed (delete_keys req)))
              (map denied_entry (filter (\<lambda>k. \<not> allowed k) (delete_keys req))))
      (\<lambda>(deleted, errors). t_of (Ok (xml_result 200
         (build_delete_result (lib_xml_delete (gw_libs gw)) deleted errors (dr_quiet req)))))"
  using assms by (simp add: execute_delete_objects_def Let_def partition_keys_eq)

subsection \<open>Properties\<close>

lemma send_batch_delete_iff:
  "send_batch_delete gw st cfg op keys errs = (Ok x, w) \<longleftrightarrow>
     (let body = build_backend_delete_body (lib_xml_delete (gw_libs gw)) keys; md5 = lib_md5_base64 (gw_libs gw) body
      in hv_valid md5 \<and> (\<exists>u h0 h raw. gw_backend_url gw cfg op = Inr u \<and>
        insert_or_panic ''user-agent'' (gw_user_agent gw)
          [(''content-type'', ''application/xml''), (''content-md5'', md5)] = Ok h0 \<and>
        gw_sign gw st POST u h0 cfg (hash_payload (lib_crypto (gw_libs gw)) body) = Ok h \<and>
        pb_send_raw (gw_backend gw) POST u h body = Inr raw \<and>
        delete_outcome (gw_libs gw) cfg errs raw = Inr x \<and> w = [CallRaw POST u h body]))"
  by (auto simp: send_batch_delete_def Let_def t_bind_Ok t_of_def send_raw_def t_call_def split: if_splits)

lemma delete_outcome_iff:
  "delete_outcome lib cfg errs raw = Inr x \<longleftrightarrow>
     rr_status raw < 300 \<and> (\<exists>gone failed. lib_read_delete_result lib (rr_body raw) = Inr (gone, failed) \<and>
       x = (map (strip_backend_prefix cfg) gone,
            errs @ map (\<lambda>e. e\<lparr>de_key := strip_backend_prefix cfg (de_key e)\<rparr>) failed))"
  by (auto simp: delete_outcome_def parse_backend_result_def split: sum.splits)

lemma batch_delete_url:
  "gw_backend_url gw cfg (DeleteObjects b) = Inr u \<longleftrightarrow>
     u = url_base cfg @ (if url_bucket cfg = [] then [] else ''/'' @ url_bucket cfg) @ ''?delete''"
  by (auto simp: gw_backend_url_def build_backend_url_def Let_def)

text \<open>
  C5. A batch delete, key by key.  It succeeds exactly when the registry allows none of the keys, and then nothing
  is sent, or when the backend accepts one signed POST to the bucket's \<open>?delete\<close> whose body names exactly the
  allowed keys, mapped under the backend prefix, and answers with a result that can be read.  The response lists
  as deleted what the backend reports deleted, mapped back, and as errors an \<open>AccessDenied\<close> for each key that is
  not allowed, ahead of the backend's own.  When it fails, no other call was made.
\<close>

theorem batch_delete_keys:
  assumes "parse_delete_request (lib_read_delete (gw_libs gw)) body = Inr req" "pd_operation p = DeleteObjects b"
    and "allowed = br_authorize_key (gw_bucket_registry gw) b (pd_identity p) ActDeleteObject"
    and "denied = map denied_entry (filter (\<lambda>k. \<not> allowed k) (delete_keys req))"
    and "cfg = pd_bucket_config p"
    and "sent = build_backend_delete_body (lib_xml_delete (gw_libs gw))
           (map (apply_backend_prefix cfg) (filter allowed (delete_keys req)))"
    and "u = url_base cfg @ (if url_bucket cfg = [] then [] else ''/'' @ url_bucket cfg) @ ''?delete''"
  shows "(execute_delete_objects gw st p body = (Ok r, calls) \<longleftrightarrow>
       (if filter allowed (delete_keys req) = [] then
          calls = [] \<and> r = xml_result 200 (build_delete_result (lib_xml_delete (gw_libs gw)) [] denied (dr_quiet req))
        else hv_valid (lib_md5_base64 (gw_libs gw) sent) \<and>
         (\<exists>h0 h raw gone failed.
            insert_or_panic ''user-agent'' (gw_user_agent gw)
              [(''content-type'', ''application/xml''), (''content-md5'', lib_md5_base64 (gw_libs gw) sent)] = Ok h0 \<and>
            gw_sign gw st POST u h0 cfg (hash_payload (lib_crypto (gw_libs gw)) sent) = Ok h \<and>
            calls = [CallRaw POST u h sent] \<and> pb_send_raw (gw_backend gw) POST u h sent = Inr raw \<and>
            rr_status raw < 300 \<and> lib_read_delete_result (gw_libs gw) (rr_body raw) = Inr (gone, failed) \<and>
            r = xml_result 200 (build_delete_result (lib_xml_delete (gw_libs gw))
                  (map (strip_backend_prefix cfg) gone)
                  (denied @ map (\<lambda>e. e\<lparr>de_key := strip_backend_prefix cfg (de_key e)\<rparr>) failed) (dr_quiet req)))))
    \<and> (\<forall>c \<in> set (snd (execute_delete_objects gw st p body)). filter allowed (delete_keys req) \<noteq> [] \<and>
         (\<exists>h. c = CallRaw POST u h sent))"
proof -
  have al: "allowed = br_authorize_key (gw_bucket_registry gw) (the_or [] (op_bucket (pd_operation p)))
      (pd_identity p) ActDeleteObject" using assms(2,3) by simp
  note eq = execute_delete_objects_eq [OF assms(1) al, of st, folded assms(4) assms(5)]
  have url: "gw_backend_url gw cfg (pd_operation p) = Inr v \<longleftrightarrow> v = u" for v
    unfolding assms(2) assms(7) by (rule batch_delete_url)
  show ?thesis
  proof (cases "filter allowed (delete_keys req) = []")
    case True
    then show ?thesis by (auto simp: eq t_of_def)
  next
    case False
    have "\<exists>h. c = CallRaw POST u h sent" if "c \<in> set (snd (execute_delete_objects gw st p body))" for c
    proof -
      have "c \<in> set (snd (send_batch_delete gw st cfg (pd_operation p)
          (map (apply_backend_prefix cfg) (filter allowed (delete_keys req))) denied))"
        using that False unfolding eq by (auto dest!: t_bind_calls split: prod.splits)
      from send_batch_delete_calls [OF this] show ?thesis using url assms(6) by auto
    qed
    moreover have "execute_delete_objects gw st p body = (Ok r, calls) \<longleftrightarrow>
      (\<exists>d e. send_batch_delete gw st cfg (pd_operation p)
          (map (apply_backend_prefix cfg) (filter allowed (delete_keys req))) denied = (Ok (d, e), calls) \<and>
        r = xml_result 200 (build_delete_result (lib_xml_delete (gw_libs gw)) d e (dr_quiet req)))"
      using False by (auto simp: eq t_bind_Ok t_of_def)
    ultimately show ?thesis
      using False by (simp add: send_batch_delete_iff delete_outcome_iff url assms(6)[symmetric] Let_def) blast
  qed
qed

definition demo_registry :: bucket_registry where
  "demo_registry = \<lparr>br_get_bucket = (\<lambda>n _ _. Inl (BucketNotFound n)), br_list_buckets = (\<lambda>_. Inr []),
     br_authorize_key = (\<lambda>_ _ _ k. k = ''a''), br_bucket_owner = default_bucket_owner\<rparr>"

definition demo_pending :: pending_request where
  "demo_pending = \<lparr>pd_operation = DeleteObjects ''b'', pd_bucket_config = demo_bucket (Some ''root/''),
     pd_original_headers = [], pd_request_id = ''1'', pd_identity = Anonymous\<rparr>"

theorem batch_delete_keys_witness:
  "\<exists>h. execute_delete_objects (demo_gateway demo_registry) demo_stamps demo_pending ''<Delete/>'' =
     (Ok (xml_result 200 (build_delete_result (lib_xml_delete demo_libs) [''a'']
        [denied_entry ''b''] False)),
      [CallRaw POST ''http://m:9000/store?delete'' h
         (build_backend_delete_body (lib_xml_delete demo_libs) [''root/a''])])"
proof -
  let ?req = "\<lparr>dr_quiet = False, dr_objects = [\<lparr>doe_key = ''a''\<rparr>, \<lparr>doe_key = ''b''\<rparr>]\<rparr>"
  have "parse_delete_request (lib_read_delete (gw_libs (demo_gateway demo_registry))) ''<Delete/>'' = Inr ?req"
    "pd_operation demo_pending = DeleteObjects ''b''"
    by (simp_all add: demo_libs_def parse_delete_request_def delete_max_keys_def demo_pending_def)
  note iff = batch_delete_keys [OF this refl refl refl refl refl, of demo_stamps, THEN conjunct1]
  show ?thesis
    unfolding iff
    by (simp add: demo_registry_def delete_keys_def demo_pending_def apply_backend_prefix_def url_base_def
        url_bucket_def bc_option_def demo_bucket_def trim_end_matches_def demo_libs_def demo_backend_def
        hv_valid_def insert_or_panic_def gw_sign_def sign_s3_request_def strip_backend_prefix_def
        host_header_def nat_to_string.simps digit_char_def)
qed

text \<open>
  The raw URL and the presigned path disagree on the backend key exactly for a backend prefix
  that is empty or made of slashes alone: the raw URL then has one more slash, so a multipart
  upload and a download of the same key address different objects.
\<close>

theorem raw_and_presigned_key_disagree:
  "backend_key c k \<noteq> apply_backend_prefix c k \<longleftrightarrow>
     bc_backend_prefix c \<noteq> None \<and> trimmed_backend_prefix c = []"
  by (auto simp: backend_key_def apply_backend_prefix_def trimmed_backend_prefix_def Let_def
      split: option.splits)

text \<open>
  Version 1 pagination under a backend prefix: the \<open>NextMarker\<close> of a truncated page is
  the backend's own key, and sent back as \<open>marker\<close> it is prefixed a second time, so the next
  page starts from a key under the prefix twice.
\<close>

theorem next_marker_prefixed_twice:
  assumes "pg_page_token page \<noteq> None" "lr_objects (pg_result page) \<noteq> []"
    and "om_location (last (lr_objects (pg_result page))) = apply_backend_prefix c k"
  shows "list_offset c (ps\<lparr>lq_is_v2 := False, lq_marker := next_marker page\<rparr>)
    = Some (apply_backend_prefix c (apply_backend_prefix c k))"
  using assms by (simp add: list_offset_def next_marker_def build_list_prefix_alt prefix_simps)

theorem next_marker_prefixed_twice_witness:
  "list_offset demo_prefix_config ((parse_list_query_params (\<lambda>_. []) None)
      \<lparr>lq_is_v2 := False, lq_marker := next_marker \<lparr>pg_result = demo_listing, pg_page_token = Some ''t''\<rparr>\<rparr>)
    = Some (apply_backend_prefix demo_prefix_config (apply_backend_prefix demo_prefix_config ''a/x''))"
  by (rule next_marker_prefixed_twice)
    (simp_all add: demo_listing_def apply_backend_prefix_def demo_prefix_config_def
      trim_end_matches_def)

end
