(* ===== verification/Gateway.thy ===== *)
theory Gateway
  imports Dispatch
begin

text \<open>
  The pipeline of \<open>ProxyGateway\<close> (\<open>crates/core/src/proxy.rs\<close>): dispatch of a parsed,
  authorized operation, resolution of a request, completion of an operation that needed its
  body, and \<open>handle_request\<close> itself.
\<close>

subsection \<open>Dispatch (dispatch\_operation)\<close>

definition pending_of :: "dispatch_context \<Rightarrow> bucket_config \<Rightarrow> pending_request" where
  "pending_of ctx config =
     \<lparr>pd_operation = dc_operation ctx, pd_bucket_config = config,
      pd_original_headers = dc_headers ctx, pd_request_id = dc_request_id ctx,
      pd_identity = dc_identity ctx\<rparr>"

definition dispatch_list_buckets :: "('b, 's, 'r) gateway \<Rightarrow> dispatch_context \<Rightarrow> handler_action outcome" where
  "dispatch_list_buckets gw ctx =
     outcome_bind (of_result (br_list_buckets (gw_bucket_registry gw) (dc_identity ctx))) (\<lambda>buckets.
     Ok (Response (xml_result 200 (buckets_to_xml (lib_xml (gw_libs gw))
       \<lparr>lamb_owner = br_bucket_owner (gw_bucket_registry gw), lamb_buckets = \<lparr>bl_buckets = buckets\<rparr>\<rparr>))))"

definition dispatch_put ::
  "('b, 's, 'r) gateway \<Rightarrow> stamps \<Rightarrow> dispatch_context \<Rightarrow> bucket_config \<Rightarrow> string \<Rightarrow> handler_action outcome" where
  "dispatch_put gw st ctx config key =
     outcome_bind (of_result (check_upload_size (gw_max_request_body_size gw) (dc_headers ctx))) (\<lambda>_.
     outcome_bind (try_streaming_forward gw st config (dc_operation ctx) (dc_headers ctx)
         (dc_request_id ctx)) (\<lambda>streamed.
     case streamed of
       Some f \<Rightarrow> Ok (Forward f)
     | None \<Rightarrow> outcome_bind (build_forward gw PUT config key (dc_headers ctx) put_forward_headers
                 (dc_request_id ctx)) (\<lambda>f. Ok (Forward f))))"

definition dispatch_upload_part ::
  "('b, 's, 'r) gateway \<Rightarrow> stamps \<Rightarrow> dispatch_context \<Rightarrow> bucket_config \<Rightarrow> handler_action outcome" where
  "dispatch_upload_part gw st ctx config =
     outcome_bind (of_result (require_s3_backend config)) (\<lambda>_.
     outcome_bind (of_result (check_upload_size (gw_max_request_body_size gw) (dc_headers ctx))) (\<lambda>_.
     outcome_bind (try_streaming_forward gw st config (dc_operation ctx) (dc_headers ctx)
         (dc_request_id ctx)) (\<lambda>streamed.
     case streamed of
       Some f \<Rightarrow> Ok (Forward f)
     | None \<Rightarrow> outcome_bind (build_streaming_forward gw st config (dc_operation ctx) unsigned_payload
                 plain_part_forward_headers (dc_headers ctx) (dc_request_id ctx)) (\<lambda>f. Ok (Forward f)))))"

definition dispatch_copy ::
  "('b, 's, 'r) gateway \<Rightarrow> stamps \<Rightarrow> dispatch_context \<Rightarrow> bucket_config \<Rightarrow> string \<Rightarrow> string
   \<Rightarrow> string option \<Rightarrow> handler_action traced" where
  "dispatch_copy gw st ctx config src_bucket src_key src_version =
     t_bind (t_of (of_result (require_s3_backend config))) (\<lambda>_.
     t_bind (t_of (of_result (br_get_bucket (gw_bucket_registry gw) src_bucket (dc_identity ctx)
              (GetObject src_bucket src_key src_version)))) (\<lambda>src.
     t_bind (execute_copy gw st config (rb_config src) (dc_operation ctx) src_key src_version
              (dc_headers ctx)) (\<lambda>r. t_of (Ok (Response r)))))"

definition dispatch_operation ::
  "('b, 's, 'r) gateway \<Rightarrow> stamps \<Rightarrow> dispatch_context \<Rightarrow> handler_action traced" where
  "dispatch_operation gw st ctx =
     (if dc_operation ctx = ListBuckets then t_of (dispatch_list_buckets gw ctx)
      else case dc_bucket_config ctx of
        None \<Rightarrow> t_of Panic
      | Some config \<Rightarrow>
         (let forward = (\<lambda>method key names.
                t_of (outcome_bind (build_forward gw method config key (dc_headers ctx) names
                  (dc_request_id ctx)) (\<lambda>f. Ok (Forward f))))
          in case dc_operation ctx of
               GetObject _ key _ \<Rightarrow> forward GET key read_forward_headers
             | HeadObject _ key \<Rightarrow> forward HEAD key read_forward_headers
             | PutObject _ key \<Rightarrow> t_of (dispatch_put gw st ctx config key)
             | DeleteObject _ key \<Rightarrow> forward DELETE key []
             | ListBucket _ raw_query \<Rightarrow>
                 t_bind (handle_list gw config raw_query (dc_list_rewrite ctx) (dc_display_name ctx))
                   (\<lambda>r. t_of (Ok (Response r)))
             | UploadPart _ _ _ _ \<Rightarrow> t_of (dispatch_upload_part gw st ctx config)
             | CreateMultipartUpload _ _ \<Rightarrow>
                 t_of (outcome_bind (of_result (require_s3_backend config))
                   (\<lambda>_. Ok (NeedsBody (pending_of ctx config))))
             | CompleteMultipartUpload _ _ _ \<Rightarrow>
                 t_of (outcome_bind (of_result (require_s3_backend config))
                   (\<lambda>_. Ok (NeedsBody (pending_of ctx config))))
             | AbortMultipartUpload _ _ _ \<Rightarrow>
                 t_of (outcome_bind (of_result (require_s3_backend config))
                   (\<lambda>_. Ok (NeedsBody (pending_of ctx config))))
             | DeleteObjects _ \<Rightarrow>
                 t_of (if \<not> is_s3_backend config
                       then Err (NotImplemented (''batch delete not supported for '' @ [CHR 0x27]
                              @ backend_type_str (bc_backend_type config) @ [CHR 0x27] @ '' backends''))
                       else outcome_bind (of_result (check_upload_size (gw_max_request_body_size gw)
                              (dc_headers ctx))) (\<lambda>_. Ok (NeedsBody (pending_of ctx config))))
             | CopyObject _ _ src_bucket src_key src_version \<Rightarrow>
                 dispatch_copy gw st ctx config src_bucket src_key src_version
             | ListBuckets \<Rightarrow> t_of (Err (Internal ''unexpected operation''))))"

subsection \<open>Resolution (resolve\_request\_with\_metadata)\<close>

record request_metadata =
  md_request_id :: string
  md_identity :: "resolved_identity option"
  md_operation :: "s3_operation option"
  md_bucket :: "string option"
  md_source_ip :: "string option"

definition error_result ::
  "('b, 's, 'r) gateway \<Rightarrow> proxy_error \<Rightarrow> string \<Rightarrow> string \<Rightarrow> string option
   \<Rightarrow> handler_action \<times> request_metadata" where
  "error_result gw err path request_id source_ip =
     (Response (error_response (lib_xml (gw_libs gw)) err path request_id (gw_debug_errors gw)),
      \<lparr>md_request_id = request_id, md_identity = None, md_operation = None, md_bucket = None,
       md_source_ip = source_ip\<rparr>)"

definition resolve_bucket ::
  "('b, 's, 'r) gateway \<Rightarrow> resolved_identity \<Rightarrow> s3_operation \<Rightarrow> proxy_error + resolved_bucket option" where
  "resolve_bucket gw identity op =
     (case op_bucket op of
        None \<Rightarrow> Inr None
      | Some name \<Rightarrow>
         (case br_get_bucket (gw_bucket_registry gw) name identity op of
            Inl e \<Rightarrow> Inl e | Inr r \<Rightarrow> Inr (Some r)))"

definition request_identity ::
  "('b, 's, 'r) gateway \<Rightarrow> stamps \<Rightarrow> request_info \<Rightarrow> proxy_error + resolved_identity" where
  "request_identity gw st req =
     resolve_identity (lib_crypto (gw_libs gw)) (st_now st) (ri_method req)
       (the_or (ri_path req) (ri_signing_path req))
       (the_or [] (case ri_signing_query req of Some q \<Rightarrow> Some q | None \<Rightarrow> ri_query req))
       (ri_headers req) (gw_credentials gw) (gw_credential_resolver gw)"

definition context_of ::
  "request_info \<Rightarrow> string \<Rightarrow> resolved_identity \<Rightarrow> s3_operation \<Rightarrow> resolved_bucket option
   \<Rightarrow> dispatch_context" where
  "context_of req request_id identity op resolved =
     \<lparr>dc_identity = identity, dc_operation = op, dc_bucket_config = map_option rb_config resolved,
      dc_headers = ri_headers req, dc_source_ip = ri_source_ip req, dc_request_id = request_id,
      dc_list_rewrite = Option.bind resolved rb_list_rewrite,
      dc_display_name = Option.bind resolved rb_display_name\<rparr>"

definition resolve_request_with_metadata ::
  "('b, 's, 'r) gateway \<Rightarrow> stamps \<Rightarrow> string \<Rightarrow> request_info \<Rightarrow> (handler_action \<times> request_metadata) traced" where
  "resolve_request_with_metadata gw st request_id req =
     (let fail = (\<lambda>e. error_result gw e (ri_path req) request_id (ri_source_ip req)) in
      case parse_operation (gw_libs gw) (gw_virtual_host_domain gw) req of
        Inl e \<Rightarrow> t_of (Ok (fail e))
      | Inr op \<Rightarrow>
         (case request_identity gw st req of
            Inl e \<Rightarrow> t_of (Ok (fail e))
          | Inr identity \<Rightarrow>
             (case resolve_bucket gw identity op of
                Inl e \<Rightarrow> t_of (Ok (fail e))
              | Inr resolved \<Rightarrow>
                 (case next_run (gw_middleware gw) (dispatch_operation gw st)
                         (context_of req request_id identity op resolved) of
                    (Ok action, w) \<Rightarrow>
                      (Ok (action, \<lparr>md_request_id = request_id, md_identity = Some identity,
                                    md_operation = Some op, md_bucket = op_bucket op,
                                    md_source_ip = ri_source_ip req\<rparr>), w)
                  | (Err e, w) \<Rightarrow> (Ok (fail e), w)
                  | (Panic, w) \<Rightarrow> (Panic, w)))))"

definition resolve_request ::
  "('b, 's, 'r) gateway \<Rightarrow> stamps \<Rightarrow> string \<Rightarrow> http_method \<Rightarrow> string \<Rightarrow> string option \<Rightarrow> header_map
   \<Rightarrow> string option \<Rightarrow> handler_action traced" where
  "resolve_request gw st request_id method path query headers source_ip =
     t_bind (resolve_request_with_metadata gw st request_id
              (new_request_info method path query headers source_ip)) (\<lambda>(action, _). t_of (Ok action))"

subsection \<open>Completion with the body (handle\_with\_body)\<close>

definition handle_with_body ::
  "('b, 's, 'r) gateway \<Rightarrow> stamps \<Rightarrow> pending_request \<Rightarrow> string \<Rightarrow> proxy_result traced" where
  "handle_with_body gw st pending body =
     (case (if is_batch_delete (pd_operation pending) then execute_delete_objects gw st pending body
            else execute_multipart gw st pending body) of
        (Err e, w) \<Rightarrow>
          (Ok (error_response (lib_xml (gw_libs gw)) e (op_key (pd_operation pending))
             (pd_request_id pending) (gw_debug_errors gw)), w)
      | (r, w) \<Rightarrow> (r, w))"

subsection \<open>Lemmas\<close>

lemma fst_t_bind_Ok: "fst (t_bind m f) = Ok b \<longleftrightarrow> (\<exists>a. fst m = Ok a \<and> fst (f a) = Ok b)"
  by (cases "(m, f)" rule: t_bind.cases) (auto split: prod.splits)

text \<open>Which operations dispatch to which kind of action.\<close>

lemma dispatch_needs_body:
  "fst (dispatch_operation gw st ctx) = Ok (NeedsBody p) \<Longrightarrow>
     buffered_op (dc_operation ctx) \<and> pd_operation p = dc_operation ctx"
  by (auto simp: dispatch_operation_def Let_def dispatch_list_buckets_def dispatch_put_def
      dispatch_upload_part_def dispatch_copy_def pending_of_def fst_t_bind_Ok
      split: if_splits option.splits s3_operation.splits)

lemma dispatch_forward:
  "fst (dispatch_operation gw st ctx) = Ok (Forward f) \<Longrightarrow> \<not> buffered_op (dc_operation ctx)"
  by (auto simp: dispatch_operation_def Let_def dispatch_list_buckets_def dispatch_put_def
      dispatch_upload_part_def dispatch_copy_def pending_of_def fst_t_bind_Ok
      split: if_splits option.splits s3_operation.splits)

lemma dispatch_calls:
  assumes "c \<in> set (snd (dispatch_operation gw st ctx))"
  shows "(\<exists>b q. dc_operation ctx = ListBucket b q) \<or>
    (\<exists>b k sb sk sv. dc_operation ctx = CopyObject b k sb sk sv)"
  using assms
  by (auto simp: dispatch_operation_def Let_def split: if_splits option.splits s3_operation.splits)

text \<open>What a request must pass before anything is dispatched.\<close>

definition admitted ::
  "('b, 's, 'r) gateway \<Rightarrow> stamps \<Rightarrow> request_info \<Rightarrow> s3_operation \<Rightarrow> resolved_identity
   \<Rightarrow> resolved_bucket option \<Rightarrow> bool" where
  "admitted gw st req op identity resolved \<longleftrightarrow>
     parse_operation (gw_libs gw) (gw_virtual_host_domain gw) req = Inr op \<and>
     request_identity gw st req = Inr identity \<and> resolve_bucket gw identity op = Inr resolved"

lemma resolve_not_admitted:
  assumes "\<And>op i r. \<not> admitted gw st req op i r"
  shows "\<exists>p md. resolve_request_with_metadata gw st rid req = (Ok (Response p, md), [])"
  using assms
  by (auto simp: resolve_request_with_metadata_def admitted_def error_result_def Let_def t_of_def
      split: sum.splits)

lemma resolve_admitted:
  assumes "admitted gw st req op i r"
  shows "resolve_request_with_metadata gw st rid req =
    (case next_run (gw_middleware gw) (dispatch_operation gw st) (context_of req rid i op r) of
       (Ok action, w) \<Rightarrow>
         (Ok (action, \<lparr>md_request_id = rid, md_identity = Some i, md_operation = Some op,
                       md_bucket = op_bucket op, md_source_ip = ri_source_ip req\<rparr>), w)
     | (Err e, w) \<Rightarrow> (Ok (error_result gw e (ri_path req) rid (ri_source_ip req)), w)
     | (Panic, w) \<Rightarrow> (Panic, w))"
  using assms by (simp add: resolve_request_with_metadata_def admitted_def Let_def)

lemma admitted_unique:
  "admitted gw st req op i r \<Longrightarrow> admitted gw st req op' i' r' \<Longrightarrow> op' = op \<and> i' = i \<and> r' = r"
  by (auto simp: admitted_def)

text \<open>The action a request resolves to comes from the dispatch of its own operation.\<close>

lemma resolve_origin:
  assumes lawful: "\<And>m. m \<in> set (gw_middleware gw) \<Longrightarrow> lawful_middleware m"
    and res: "fst (resolve_request_with_metadata gw st rid req) = Ok (act, md)"
    and act: "\<not> own_answer (Ok act)"
  shows "\<exists>op ctx. parse_operation (gw_libs gw) (gw_virtual_host_domain gw) req = Inr op \<and>
    dc_operation ctx = op \<and> fst (dispatch_operation gw st ctx) = Ok act"
proof (cases "\<exists>op i r. admitted gw st req op i r")
  case False
  then obtain p where "act = Response p" using resolve_not_admitted [of gw st req rid] res by auto
  with act show ?thesis by simp
next
  case True
  then obtain op i r where adm: "admitted gw st req op i r" by blast
  have "fst (next_run (gw_middleware gw) (dispatch_operation gw st) (context_of req rid i op r)) = Ok act"
    using res act
    by (auto simp: resolve_admitted [OF adm] error_result_def split: prod.splits outcome.splits)
  from next_run_origin [OF lawful this act] obtain ctx where
    "same_request (context_of req rid i op r) ctx" "fst (dispatch_operation gw st ctx) = Ok act"
    by blast
  with adm show ?thesis by (auto simp: same_request_def context_of_def admitted_def)
qed

subsection \<open>Properties\<close>

text \<open>
  C6. A server-side copy reaches the backend only after its source has been resolved for this
  caller as a read of that object (and version), on the same S3 endpoint as the destination;
  the one call is a signed PUT without a body to the destination.
\<close>

theorem copy_source_read_authorized:
  assumes "c \<in> set (snd (dispatch_operation gw st ctx))"
    and "dc_operation ctx = CopyObject b k sb sk sv" "dc_bucket_config ctx = Some cfg"
  shows "\<exists>src u h. br_get_bucket (gw_bucket_registry gw) sb (dc_identity ctx) (GetObject sb sk sv) = Inr src
    \<and> same_s3_endpoint (rb_config src) cfg
    \<and> gw_backend_url gw cfg (CopyObject b k sb sk sv) = Inr u \<and> c = CallRaw PUT u h []"
proof -
  from assms obtain src where
    src: "br_get_bucket (gw_bucket_registry gw) sb (dc_identity ctx) (GetObject sb sk sv) = Inr src"
    and c: "c \<in> set (snd (execute_copy gw st cfg (rb_config src) (CopyObject b k sb sk sv) sk sv (dc_headers ctx)))"
    by (auto simp: dispatch_operation_def dispatch_copy_def Let_def call_simps dest!: t_bind_calls)
  from execute_copy_calls [OF c] src show ?thesis by blast
qed

definition open_registry :: bucket_registry where
  "open_registry = \<lparr>br_get_bucket = (\<lambda>n _ _. Inr \<lparr>rb_config = demo_bucket None,
       rb_list_rewrite = None, rb_display_name = None\<rparr>),
     br_list_buckets = (\<lambda>_. Inr []), br_authorize_key = default_authorize_key,
     br_bucket_owner = default_bucket_owner\<rparr>"

definition demo_copy_context :: dispatch_context where
  "demo_copy_context = \<lparr>dc_identity = Anonymous, dc_operation = CopyObject ''b'' ''k'' ''s'' ''x'' None,
     dc_bucket_config = Some (demo_bucket None), dc_headers = [], dc_source_ip = None,
     dc_request_id = ''1'', dc_list_rewrite = None, dc_display_name = None\<rparr>"

lemma demo_copy_call:
  "\<exists>c. c \<in> set (snd (dispatch_operation (demo_gateway open_registry) demo_stamps demo_copy_context))"
  by (simp add: dispatch_operation_def dispatch_copy_def demo_copy_context_def open_registry_def
      demo_bucket_def require_s3_backend_def is_s3_backend_def execute_copy_def same_s3_endpoint_def
      build_copy_source_header_def bc_option_def gw_backend_url_def build_backend_url_def
      demo_libs_def url_base_def url_bucket_def trim_end_matches_def validate_key_def
      degenerate_segment_def apply_backend_prefix_def backend_key_def url_query_of_def
      percent_encoded_def s3_path_encode_set_def is_ascii_alphanumeric_def
      hv_valid_def insert_or_panic_def copy_headers_def gw_sign_def sign_s3_request_def
      host_header_def Let_def call_simps snd_t_bind nat_to_string.simps digit_char_def)

theorem copy_source_read_authorized_witness:
  "\<exists>u h. CallRaw PUT u h [] \<in> set (snd (dispatch_operation (demo_gateway open_registry) demo_stamps
     demo_copy_context))"
proof -
  obtain c where c: "c \<in> set (snd (dispatch_operation (demo_gateway open_registry) demo_stamps demo_copy_context))"
    using demo_copy_call by blast
  from copy_source_read_authorized [OF c, of "''b''" "''k''" "''s''" "''x''" None "demo_bucket None"]
  obtain u h where "c = CallRaw PUT u h []"
    by (auto simp: demo_copy_context_def)
  with c show ?thesis by auto
qed

end
