(* ===== verification/Registry.thy ===== *)
theory Registry
  imports GatewayBase
begin

text \<open>
  The contract the gateway relies on when it asks a bucket registry for a bucket
  (\<open>crates/core/src/registry/bucket.rs\<close>): a resolved bucket is an authorized one, and per-key
  authorization never goes beyond the caller's scopes.
\<close>

locale authorizing_registry =
  fixes fp :: "string \<Rightarrow> (string \<times> string) list"
    and reg :: bucket_registry
  assumes get_bucket_authorizes:
    "br_get_bucket reg name identity op = Inr rb \<Longrightarrow> op_bucket op = Some name \<Longrightarrow>
       authorize fp identity op (rb_config rb) = Inr ()"
    and authorize_key_scoped:
    "br_authorize_key reg name identity act key \<Longrightarrow> key_authorized identity name act key"
begin

text \<open>What an authenticated caller holds when a bucket is resolved for an operation.\<close>

lemma resolved_grant:
  assumes "br_get_bucket reg name (Authenticated i) op = Inr rb" "op_bucket op = Some name"
    "\<not> is_delete_objects op"
  shows "granted i name (op_action op) (auth_key fp op)"
  using get_bucket_authorizes [OF assms(1,2)] assms(2,3)
  by (simp add: authorize_Authenticated_iff)

text \<open>An anonymous caller only ever resolves a bucket to read it.\<close>

lemma resolved_anonymous:
  assumes "br_get_bucket reg name Anonymous op = Inr rb" "op_bucket op = Some name"
  shows "bc_anonymous_access (rb_config rb) \<and> op_action op \<in> {ActGetObject, ActHeadObject, ActListBucket}"
  using get_bucket_authorizes [OF assms] by (simp add: authorize_Anonymous_iff)

lemma authorized_key_grant:
  "br_authorize_key reg name identity act key \<Longrightarrow> \<exists>i. identity = Authenticated i \<and> granted i name act key"
  using authorize_key_scoped [of name identity act key]
  by (cases identity) (simp_all add: key_authorized_granted)

end

end
