(* ===== verification/StaticConfig.thy ===== *)
theory StaticConfig
  imports Registry
begin

text \<open>
  \<open>crates/static-config/src/lib.rs\<close>: the configuration read from a file, its validation, and
  the provider that serves buckets, credentials and roles from it.  Deserialization is a
  parameter (\<open>toml\<close>, \<open>json\<close>), as is reading the file.
\<close>

record static_config =
  scf_owner_id :: "string option"
  scf_owner_display_name :: "string option"
  scf_buckets :: "bucket_config list"
  scf_roles :: "role_config list"
  scf_credentials :: "stored_credential list"

subsection \<open>Validation\<close>

text \<open>
  The three loops have one shape: each entry has an identifier that must be non-empty and new,
  and may have further complaints of its own.
\<close>

fun check_ids ::
  "(nat \<Rightarrow> string) \<Rightarrow> (string \<Rightarrow> string) \<Rightarrow> nat \<Rightarrow> string list \<Rightarrow> (string \<times> string list) list \<Rightarrow> string list" where
  "check_ids empty_msg dup_msg i seen [] = []"
| "check_ids empty_msg dup_msg i seen ((ident, extra) # entries) =
     (if ident = [] then [empty_msg i]
      else if ident \<in> set seen then [dup_msg ident] else [])
     @ extra
     @ check_ids empty_msg dup_msg (Suc i) (if ident = [] then seen else ident # seen) entries"

definition role_complaints :: "role_config \<Rightarrow> string list" where
  "role_complaints role =
     (if trusted_oidc_issuers role = []
      then [''role '' @ debug_str (role_id role) @ '' has no trusted_oidc_issuers (will never accept a token)'']
      else [])
     @ (if required_audiences role = []
        then [''role '' @ debug_str (role_id role) @ '' has no required_audiences (will never accept a token)'']
        else [])
     @ (if subject_conditions role = []
        then [''role '' @ debug_str (role_id role) @ '' has no subject_conditions (will never accept a token; use ''
              @ [CHR 0x22] @ ''*'' @ [CHR 0x22] @ '' for any subject)'']
        else [])"

definition validate_buckets :: "static_config \<Rightarrow> string list" where
  "validate_buckets c =
     check_ids (\<lambda>i. ''bucket['' @ nat_to_string i @ ''] has an empty name'')
       (\<lambda>n. ''duplicate bucket name: '' @ debug_str n) 0 []
       (map (\<lambda>b. (bc_name b, [])) (scf_buckets c))"

definition validate_roles :: "static_config \<Rightarrow> string list" where
  "validate_roles c =
     check_ids (\<lambda>i. ''role['' @ nat_to_string i @ ''] has an empty role_id'')
       (\<lambda>n. ''duplicate role_id: '' @ debug_str n) 0 []
       (map (\<lambda>r. (role_id r, role_complaints r)) (scf_roles c))"

definition validate_credentials :: "static_config \<Rightarrow> string list" where
  "validate_credentials c =
     check_ids (\<lambda>i. ''credential['' @ nat_to_string i @ ''] has an empty access_key_id'')
       (\<lambda>n. ''duplicate credential access_key_id: '' @ debug_str n) 0 []
       (map (\<lambda>r. (cred_access_key_id r, [])) (scf_credentials c))"

definition validate_config :: "static_config \<Rightarrow> proxy_error + unit" where
  "validate_config c =
     (let errors = validate_buckets c @ validate_roles c @ validate_credentials c
      in if errors = [] then Inr () else Inl (ConfigError (join_with ''; '' errors)))"

subsection \<open>The provider\<close>

definition from_config :: "static_config \<Rightarrow> proxy_error + static_config" where
  "from_config c = (case validate_config c of Inl e \<Rightarrow> Inl e | Inr _ \<Rightarrow> Inr c)"

definition from_text :: "(string \<Rightarrow> string + static_config) \<Rightarrow> string \<Rightarrow> proxy_error + static_config" where
  "from_text parse text_input =
     (case parse text_input of Inl e \<Rightarrow> Inl (ConfigError e) | Inr c \<Rightarrow> from_config c)"

definition from_file ::
  "(string \<Rightarrow> string + string) \<Rightarrow> (string \<Rightarrow> string + static_config) \<Rightarrow> (string \<Rightarrow> string + static_config)
   \<Rightarrow> string \<Rightarrow> proxy_error + static_config" where
  "from_file read_file toml json path =
     (case read_file path of
        Inl e \<Rightarrow> Inl (ConfigError e)
      | Inr content \<Rightarrow> if ends_with path ''.json'' then from_text json content else from_text toml content)"

definition static_bucket_owner :: "static_config \<Rightarrow> bucket_owner" where
  "static_bucket_owner c =
     \<lparr>owner_id = the_or ''multistore-proxy'' (scf_owner_id c),
      owner_display_name = the_or ''multistore-proxy'' (scf_owner_display_name c)\<rparr>"

definition static_get_bucket ::
  "(string \<Rightarrow> (string \<times> string) list) \<Rightarrow> static_config \<Rightarrow> string \<Rightarrow> resolved_identity \<Rightarrow> s3_operation
   \<Rightarrow> proxy_error + resolved_bucket" where
  "static_get_bucket fp c name identity op =
     (case List.find (\<lambda>b. bc_name b = name) (scf_buckets c) of
        None \<Rightarrow> Inl (BucketNotFound name)
      | Some config \<Rightarrow>
         (case authorize fp identity op config of
            Inl e \<Rightarrow> Inl e
          | Inr _ \<Rightarrow> Inr \<lparr>rb_config = config, rb_list_rewrite = None, rb_display_name = None\<rparr>))"

definition static_list_buckets :: "static_config \<Rightarrow> resolved_identity \<Rightarrow> proxy_error + bucket_entry list" where
  "static_list_buckets c identity =
     Inr (map (\<lambda>b. \<lparr>ben_name = bc_name b, ben_creation_date = ''2024-01-01T00:00:00.000Z''\<rparr>)
       (scf_buckets c))"

definition static_get_credential :: "static_config \<Rightarrow> credential_lookup" where
  "static_get_credential c access_key_id =
     Inr (List.find (\<lambda>r. cred_access_key_id r = access_key_id) (scf_credentials c))"

definition static_get_role :: "static_config \<Rightarrow> string \<Rightarrow> proxy_error + role_config option" where
  "static_get_role c ident = Inr (List.find (\<lambda>r. role_id r = ident) (scf_roles c))"

definition static_registry :: "(string \<Rightarrow> (string \<times> string) list) \<Rightarrow> static_config \<Rightarrow> bucket_registry" where
  "static_registry fp c =
     \<lparr>br_get_bucket = static_get_bucket fp c, br_list_buckets = static_list_buckets c,
      br_authorize_key = default_authorize_key, br_bucket_owner = static_bucket_owner c\<rparr>"

subsection \<open>Lemmas\<close>

lemma check_ids_Nil:
  "check_ids em dm i seen entries = [] \<longleftrightarrow>
     distinct (map fst entries) \<and> [] \<notin> fst ` set entries \<and> (\<forall>(_, extra) \<in> set entries. extra = [])
     \<and> set seen \<inter> fst ` set entries = {}"
  by (induction em dm i seen entries rule: check_ids.induct) auto

lemma validate_config_iff:
  "validate_config c = Inr () \<longleftrightarrow>
     validate_buckets c = [] \<and> validate_roles c = [] \<and> validate_credentials c = []"
  by (simp add: validate_config_def Let_def)

lemma find_by_key:
  assumes "distinct (map f xs)" "x \<in> set xs"
  shows "List.find (\<lambda>y. f y = f x) xs = Some x"
  using assms by (induction xs) (auto simp: image_iff)

lemma static_get_bucket_eq:
  "static_get_bucket fp c name identity op = Inr rb \<longleftrightarrow>
     (\<exists>b. List.find (\<lambda>b. bc_name b = name) (scf_buckets c) = Some b \<and>
        authorize fp identity op b = Inr () \<and>
        rb = \<lparr>rb_config = b, rb_list_rewrite = None, rb_display_name = None\<rparr>)"
  by (auto simp: static_get_bucket_def split: option.splits sum.splits)

interpretation static: authorizing_registry fp "static_registry fp c" for fp c
proof
  fix name identity op rb
  assume "br_get_bucket (static_registry fp c) name identity op = Inr rb"
  then show "authorize fp identity op (rb_config rb) = Inr ()"
    by (auto simp: static_registry_def static_get_bucket_eq)
next
  fix name identity act key
  assume "br_authorize_key (static_registry fp c) name identity act key"
  then show "key_authorized identity name act key"
    by (simp add: static_registry_def default_authorize_key_def)
qed

subsection \<open>Properties\<close>

text \<open>
  A configuration is accepted exactly when every bucket, role and credential has a
  non-empty identifier used once and every role can accept some token, that is names an
  issuer, an audience and a subject.
\<close>

theorem config_accepted_iff:
  "from_config c = Inr c' \<longleftrightarrow> c' = c \<and>
     distinct (map bc_name (scf_buckets c)) \<and> [] \<notin> bc_name ` set (scf_buckets c) \<and>
     distinct (map role_id (scf_roles c)) \<and> [] \<notin> role_id ` set (scf_roles c) \<and>
     distinct (map cred_access_key_id (scf_credentials c)) \<and>
     [] \<notin> cred_access_key_id ` set (scf_credentials c) \<and>
     list_all (\<lambda>r. trusted_oidc_issuers r \<noteq> [] \<and> required_audiences r \<noteq> [] \<and> subject_conditions r \<noteq> [])
       (scf_roles c)"
proof -
  have "validate_config c = Inr () \<longleftrightarrow>
     distinct (map bc_name (scf_buckets c)) \<and> [] \<notin> bc_name ` set (scf_buckets c) \<and>
     distinct (map role_id (scf_roles c)) \<and> [] \<notin> role_id ` set (scf_roles c) \<and>
     distinct (map cred_access_key_id (scf_credentials c)) \<and>
     [] \<notin> cred_access_key_id ` set (scf_credentials c) \<and>
     list_all (\<lambda>r. trusted_oidc_issuers r \<noteq> [] \<and> required_audiences r \<noteq> [] \<and> subject_conditions r \<noteq> [])
       (scf_roles c)"
    unfolding validate_config_iff validate_buckets_def validate_roles_def validate_credentials_def
      check_ids_Nil
    by (auto simp: comp_def image_image role_complaints_def list_all_iff split: if_splits)
  then show ?thesis
    by (auto simp: from_config_def split: sum.splits)
qed

text \<open>
  In an accepted configuration every bucket can be reached under its own name by whoever
  is authorized for it, and by nobody else; an unknown name is \<open>NoSuchBucket\<close>.
\<close>

theorem static_bucket_reachable:
  assumes "from_config c0 = Inr c" "b \<in> set (scf_buckets c)"
  shows "static_get_bucket fp c (bc_name b) identity op =
    (case authorize fp identity op b of
       Inl e \<Rightarrow> Inl e | Inr _ \<Rightarrow> Inr \<lparr>rb_config = b, rb_list_rewrite = None, rb_display_name = None\<rparr>)"
proof -
  have "c = c0" "distinct (map bc_name (scf_buckets c))"
    using assms(1) by (auto simp: from_config_def validate_config_iff validate_buckets_def
        check_ids_Nil comp_def split: sum.splits)
  then show ?thesis using find_by_key [of bc_name "scf_buckets c" b] assms(2)
    by (simp add: static_get_bucket_def)
qed

definition demo_config :: static_config where
  "demo_config = \<lparr>scf_owner_id = None, scf_owner_display_name = None,
     scf_buckets = [demo_bucket None], scf_roles = [], scf_credentials = []\<rparr>"

theorem static_bucket_reachable_witness:
  "static_get_bucket (\<lambda>_. []) demo_config ''b'' Anonymous (GetObject ''b'' ''k'' None) = Inl AccessDenied"
proof -
  have "from_config demo_config = Inr demo_config"
    by (simp add: from_config_def validate_config_iff demo_config_def validate_config_def
        validate_buckets_def validate_roles_def validate_credentials_def demo_bucket_def)
  from static_bucket_reachable [OF this, of "demo_bucket None" "\<lambda>_. []" Anonymous "GetObject ''b'' ''k'' None"]
  show ?thesis by (simp add: demo_config_def demo_bucket_def authorize_def)
qed

end
