(* ===== verification/HandleRequest.thy ===== *)
theory HandleRequest
  imports Gateway StaticConfig
begin

text \<open>
  \<open>ProxyGateway::handle_request\<close> (\<open>crates/core/src/proxy.rs\<close>): routing first, then reading the
  body of the operations that need it, resolution, the action, the notification of every
  middleware, and the \<open>Server-Timing\<close> header.  The clock readings of a request are the record
  \<open>clock\<close>; \<open>collect\<close> is the runtime's body reader, \<open>Inl\<close> the text of its error.
\<close>

datatype 's gateway_response =
    GwResponse proxy_result
  | GwForward "'s forward_response"

record clock =
  ck_total_start :: int
  ck_dispatch_start :: int
  ck_backend_start :: int
  ck_end :: int

subsection \<open>Server-Timing\<close>

definition elapsed_ms :: "int \<Rightarrow> int \<Rightarrow> nat" where
  "elapsed_ms now start = nat (max 0 ((now - start) div 1000000))"

definition server_timing_value :: "int \<Rightarrow> int \<Rightarrow> int option \<Rightarrow> int option \<Rightarrow> string" where
  "server_timing_value now began dispatch backend =
     ''total;dur='' @ nat_to_string (elapsed_ms now began)
     @ (case dispatch of None \<Rightarrow> [] | Some d \<Rightarrow> '', dispatch;dur='' @ nat_to_string (elapsed_ms now d))
     @ (case backend of None \<Rightarrow> [] | Some b \<Rightarrow> '', backend;dur='' @ nat_to_string (elapsed_ms now b))"

definition inject_server_timing ::
  "bool \<Rightarrow> int \<Rightarrow> int \<Rightarrow> int option \<Rightarrow> int option \<Rightarrow> header_map \<Rightarrow> header_map" where
  "inject_server_timing enabled now began dispatch backend headers =
     (if \<not> enabled then headers
      else (let v = server_timing_value now began dispatch backend in
            if hv_valid v then hm_insert ''server-timing'' v headers else headers))"

definition stamp_response ::
  "('b, 's, 'r) gateway \<Rightarrow> clock \<Rightarrow> int option \<Rightarrow> int option \<Rightarrow> 's gateway_response \<Rightarrow> 's gateway_response" where
  "stamp_response gw ck dispatch backend r =
     (let inject = inject_server_timing (gw_server_timing gw) (ck_end ck) (ck_total_start ck) dispatch backend
      in case r of
           GwResponse p \<Rightarrow> GwResponse (p\<lparr>pr_headers := inject (pr_headers p)\<rparr>)
         | GwForward f \<Rightarrow> GwForward (f\<lparr>fr_headers := inject (fr_headers f)\<rparr>))"

definition gw_error :: "('b, 's, 'r) gateway \<Rightarrow> proxy_error \<Rightarrow> string \<Rightarrow> string \<Rightarrow> proxy_result" where
  "gw_error gw e path request_id =
     error_response (lib_xml (gw_libs gw)) e path request_id (gw_debug_errors gw)"

definition early_error ::
  "('b, 's, 'r) gateway \<Rightarrow> clock \<Rightarrow> proxy_error \<Rightarrow> string \<Rightarrow> string \<Rightarrow> int option \<Rightarrow> 's gateway_response" where
  "early_error gw ck e path request_id dispatch =
     stamp_response gw ck dispatch None (GwResponse (gw_error gw e path request_id))"

subsection \<open>Forwarding\<close>

definition forward_to_backend ::
  "('b, 's, 'r) gateway \<Rightarrow> forward_request \<Rightarrow> 'b \<Rightarrow> 's forward_response traced" where
  "forward_to_backend gw fwd body =
     t_bind (t_call (CallForward fwd) (of_result (pb_forward (gw_backend gw) fwd body))) (\<lambda>resp.
     t_of (Ok (resp\<lparr>fr_headers := filter_response_headers (fr_headers resp)\<rparr>)))"

subsection \<open>A route matched\<close>

definition handle_routed ::
  "('b, 's, 'r) gateway \<Rightarrow> clock \<Rightarrow> request_info \<Rightarrow> 'b \<Rightarrow> handler_action \<Rightarrow> 's gateway_response traced" where
  "handle_routed gw ck req body act =
     (case act of
        Response r \<Rightarrow> t_of (Ok (stamp_response gw ck None None (GwResponse r)))
      | Forward fwd \<Rightarrow>
         (case forward_to_backend gw fwd body of
            (Ok resp, w) \<Rightarrow>
              (Ok (stamp_response gw ck None (Some (ck_backend_start ck)) (GwForward resp)), w)
          | (Err e, w) \<Rightarrow>
              (Ok (stamp_response gw ck None (Some (ck_backend_start ck))
                 (GwResponse (gw_error gw e (ri_path req) []))), w)
          | (Panic, w) \<Rightarrow> (Panic, w))
      | NeedsBody _ \<Rightarrow>
          t_of (Ok (stamp_response gw ck None None
            (GwResponse (gw_error gw (Internal ''unexpected NeedsBody from route handler'')
               (ri_path req) [])))))"

subsection \<open>Reading the body ahead\<close>

text \<open>
  The body as the later steps find it: still there to stream, already read, or the error to
  answer with.
\<close>

datatype body_state = Streaming | Buffered string | BodyError proxy_error

definition prebuffer ::
  "('b, 's, 'r) gateway \<Rightarrow> ('b \<Rightarrow> string + string) \<Rightarrow> request_info \<Rightarrow> 'b \<Rightarrow> body_state" where
  "prebuffer gw collect req body =
     (if op_needs_buffered_body (gw_libs gw) (gw_virtual_host_domain gw) req then
        (case check_upload_size (gw_max_request_body_size gw) (ri_headers req) of
           Inl e \<Rightarrow> BodyError e
         | Inr _ \<Rightarrow>
            (case collect body of
               Inr bytes \<Rightarrow> Buffered bytes
             | Inl _ \<Rightarrow> BodyError (Internal ''failed to read request body'')))
      else Streaming)"

subsection \<open>The action\<close>

record 's acted =
  ac_response :: "'s gateway_response"
  ac_status :: nat
  ac_bytes :: "u64 option"
  ac_forwarded :: bool
  ac_backend_start :: "int option"

definition response_body_bytes :: "proxy_response_body \<Rightarrow> u64 option" where
  "response_body_bytes b = (case b of BodyBytes s \<Rightarrow> Some (of_nat (length s)) | BodyEmpty \<Rightarrow> Some 0)"

definition acted_response :: "proxy_result \<Rightarrow> bool \<Rightarrow> u64 option \<Rightarrow> int option \<Rightarrow> 's acted" where
  "acted_response r forwarded bytes start =
     \<lparr>ac_response = GwResponse r, ac_status = pr_status r, ac_bytes = bytes,
      ac_forwarded = forwarded, ac_backend_start = start\<rparr>"

text \<open>\<open>None\<close> is the early return of a forward whose body is gone.\<close>

definition run_action ::
  "('b, 's, 'r) gateway \<Rightarrow> stamps \<Rightarrow> clock \<Rightarrow> request_info \<Rightarrow> 'b \<Rightarrow> body_state \<Rightarrow> request_metadata
   \<Rightarrow> handler_action \<Rightarrow> 's acted option traced" where
  "run_action gw st ck req body bs md act =
     (let start = Some (ck_backend_start ck) in
      case act of
        Response r \<Rightarrow>
          t_of (Ok (Some (acted_response r False (response_body_bytes (pr_body r)) None)))
      | Forward fwd \<Rightarrow>
          if bs \<noteq> Streaming then t_of (Ok None)
          else
           (case forward_to_backend gw fwd body of
              (Ok resp, w) \<Rightarrow>
                (Ok (Some \<lparr>ac_response = GwForward resp, ac_status = fr_status resp,
                           ac_bytes = fr_content_length resp, ac_forwarded = True,
                           ac_backend_start = start\<rparr>), w)
            | (Err e, w) \<Rightarrow>
                (Ok (Some (acted_response (gw_error gw e (ri_path req) (md_request_id md)) True None start)), w)
            | (Panic, w) \<Rightarrow> (Panic, w))
      | NeedsBody pending \<Rightarrow>
         (case bs of
            Buffered bytes \<Rightarrow>
              t_bind (handle_with_body gw st pending bytes) (\<lambda>r.
                t_of (Ok (Some (acted_response r False (response_body_bytes (pr_body r)) start))))
          | _ \<Rightarrow>
              t_of (Ok (Some (acted_response
                (gw_error gw (Internal ''request body unavailable'') (ri_path req) (md_request_id md))
                False None start)))))"

definition completed_of ::
  "request_info \<Rightarrow> request_metadata \<Rightarrow> 's acted \<Rightarrow> completed_request" where
  "completed_of req md a =
     \<lparr>cq_request_id = md_request_id md, cq_identity = md_identity md,
      cq_operation = md_operation md, cq_bucket = md_bucket md, cq_status = ac_status a,
      cq_response_bytes = ac_bytes a, cq_request_bytes = content_length (ri_headers req),
      cq_was_forwarded = ac_forwarded a, cq_source_ip = md_source_ip md\<rparr>"

subsection \<open>handle\_request\<close>

text \<open>
  The answer, with the notification that each registered middleware gets after dispatch.
\<close>

record 's handled =
  hd_response :: "'s gateway_response"
  hd_notified :: "completed_request list"

definition handle_pipeline ::
  "('b, 's, 'r) gateway \<Rightarrow> stamps \<Rightarrow> clock \<Rightarrow> string \<Rightarrow> request_info \<Rightarrow> 'b \<Rightarrow> body_state
   \<Rightarrow> 's handled traced" where
  "handle_pipeline gw st ck request_id req body bs =
     t_bind (resolve_request_with_metadata gw st request_id req) (\<lambda>(act, md).
     t_bind (run_action gw st ck req body bs md act) (\<lambda>r.
     case r of
       None \<Rightarrow>
         t_of (Ok \<lparr>hd_response = early_error gw ck (Internal ''request body already consumed'')
                     (ri_path req) (md_request_id md) (Some (ck_dispatch_start ck)),
                   hd_notified = []\<rparr>)
     | Some a \<Rightarrow>
         t_of (Ok \<lparr>hd_response = stamp_response gw ck (Some (ck_dispatch_start ck))
                     (ac_backend_start a) (ac_response a),
                   hd_notified = map (\<lambda>_. completed_of req md a) (gw_middleware gw)\<rparr>)))"

definition handle_request ::
  "('b, 's, 'r) gateway \<Rightarrow> stamps \<Rightarrow> clock \<Rightarrow> string \<Rightarrow> ('b \<Rightarrow> string + string) \<Rightarrow> request_info \<Rightarrow> 'b
   \<Rightarrow> 's handled traced" where
  "handle_request gw st ck request_id collect req body =
     (case router_dispatch (gw_matchit gw) (gw_router gw) req of
        Some act \<Rightarrow>
          t_bind (handle_routed gw ck req body act) (\<lambda>r.
            t_of (Ok \<lparr>hd_response = r, hd_notified = []\<rparr>))
      | None \<Rightarrow>
         (case prebuffer gw collect req body of
            BodyError e \<Rightarrow>
              t_of (Ok \<lparr>hd_response = early_error gw ck e (ri_path req) [] None, hd_notified = []\<rparr>)
          | bs \<Rightarrow> handle_pipeline gw st ck request_id req body bs))"

subsection \<open>Lemmas\<close>

lemma handle_routed_calls:
  "router_dispatch mi r req = Some act \<Longrightarrow> snd (handle_routed gw ck req' body act) = []"
  using router_dispatch_response [of mi r req act] by (auto simp: handle_routed_def)

lemma handle_not_admitted:
  assumes "\<And>op i r. \<not> admitted gw st req op i r"
  shows "snd (handle_request gw st ck rid collect req body) = []"
proof -
  obtain p md where res: "resolve_request_with_metadata gw st rid req = (Ok (Response p, md), [])"
    using resolve_not_admitted [OF assms] by blast
  have "snd (handle_pipeline gw st ck rid req body bs) = []" for bs
    by (simp add: handle_pipeline_def res run_action_def Let_def t_of_def)
  then show ?thesis
    by (auto simp: handle_request_def handle_routed_calls snd_t_bind
        split: option.splits body_state.splits outcome.splits)
qed

lemma handle_calls_admitted:
  "c \<in> set (snd (handle_request gw st ck rid collect req body)) \<Longrightarrow> \<exists>op i r. admitted gw st req op i r"
  using handle_not_admitted [of gw st req ck rid collect body] by force

lemma prebuffer_Streaming:
  "prebuffer gw collect req body = Streaming \<longleftrightarrow>
     \<not> op_needs_buffered_body (gw_libs gw) (gw_virtual_host_domain gw) req"
  by (auto simp: prebuffer_def split: sum.splits)

text \<open>Inside the contract of a bucket registry, admission is authorization.\<close>

lemma admitted_authorized:
  assumes "authorizing_registry fp (gw_bucket_registry gw)"
    and "admitted gw st req op i r" "op_bucket op = Some name"
  shows "\<exists>rb. r = Some rb \<and> br_get_bucket (gw_bucket_registry gw) name i op = Inr rb
    \<and> authorize fp i op (rb_config rb) = Inr ()"
  using assms(2,3) authorizing_registry.get_bucket_authorizes [OF assms(1)]
  by (auto simp: admitted_def resolve_bucket_def split: sum.splits)

subsection \<open>Properties\<close>

text \<open>
  C1. No request reaches the backend unauthorized.  If handling a request makes any backend
  call at all, raw, listing or forward, then the request parsed to an operation, its identity
  was resolved (by a verified signature, or as anonymous), and, with the static registry, its
  bucket is configured and the scope check passed for that identity and operation; this holds
  whatever the router's handlers and the middleware do.
\<close>

theorem backend_calls_authorized:
  assumes "c \<in> set (snd (handle_request gw st ck rid collect req body))"
    and "gw_bucket_registry gw = static_registry fp conf"
  shows "\<exists>op i. parse_operation (gw_libs gw) (gw_virtual_host_domain gw) req = Inr op \<and>
    request_identity gw st req = Inr i \<and>
    (case op_bucket op of
       None \<Rightarrow> op = ListBuckets
     | Some name \<Rightarrow> \<exists>b. List.find (\<lambda>b. bc_name b = name) (scf_buckets conf) = Some b
                       \<and> authorize fp i op b = Inr ())"
proof -
  from handle_calls_admitted [OF assms(1)] obtain op i r where adm: "admitted gw st req op i r"
    by blast
  have "\<exists>b. List.find (\<lambda>b. bc_name b = name) (scf_buckets conf) = Some b \<and> authorize fp i op b = Inr ()"
    if "op_bucket op = Some name" for name
    using admitted_authorized [OF _ adm that, of fp] static.authorizing_registry_axioms assms(2)
    by (auto simp: static_registry_def static_get_bucket_eq)
  with adm show ?thesis
    by (auto simp: admitted_def op_bucket_None_iff split: option.splits)
qed

text \<open>
  C7. The classifier that reads a body ahead never drifts from dispatch.  With middleware
  that keeps its contract, an action that needs the body finds it read (or the request was
  already answered with the reading error), and an action that streams finds it unread, so
  neither fail-closed branch of \<open>handle_request\<close> is ever taken.
\<close>

theorem body_always_available:
  assumes "\<And>m. m \<in> set (gw_middleware gw) \<Longrightarrow> lawful_middleware m"
    and "fst (resolve_request_with_metadata gw st rid req) = Ok (act, md)"
  shows "case act of
      NeedsBody _ \<Rightarrow> prebuffer gw collect req body \<noteq> Streaming
    | Forward _ \<Rightarrow> prebuffer gw collect req body = Streaming
    | Response _ \<Rightarrow> True"
proof (cases act)
  case (NeedsBody p)
  from resolve_origin [OF assms] NeedsBody dispatch_needs_body show ?thesis
    by (fastforce simp: prebuffer_Streaming op_needs_buffered_body_def)
next
  case (Forward f)
  from resolve_origin [OF assms] Forward dispatch_forward show ?thesis
    by (fastforce simp: prebuffer_Streaming op_needs_buffered_body_def)
qed simp

text \<open>An anonymous download from a public bucket, to evaluate.\<close>

definition demo_public_config :: static_config where
  "demo_public_config = \<lparr>scf_owner_id = None, scf_owner_display_name = None,
     scf_buckets = [(demo_bucket None)\<lparr>bc_anonymous_access := True\<rparr>], scf_roles = [], scf_credentials = []\<rparr>"

definition demo_download_gateway :: "(string, string, unit) gateway" where
  "demo_download_gateway = demo_gateway (static_registry (\<lambda>_. []) demo_public_config)"

definition demo_download :: request_info where
  "demo_download = new_request_info GET ''/b/k'' None [] None"

definition demo_clock :: clock where
  "demo_clock = \<lparr>ck_total_start = 0, ck_dispatch_start = 0, ck_backend_start = 0, ck_end = 0\<rparr>"

lemma demo_download_admitted:
  "admitted demo_download_gateway demo_stamps demo_download (GetObject ''b'' ''k'' None) Anonymous
     (Some \<lparr>rb_config = (demo_bucket None)\<lparr>bc_anonymous_access := True\<rparr>, rb_list_rewrite = None,
            rb_display_name = None\<rparr>)"
proof -
  have "parse_operation demo_libs None demo_download = Inr (GetObject ''b'' ''k'' None)"
    by (simp add: parse_operation_def demo_download_def new_request_info_def demo_libs_def
        parse_s3_request_def determine_host_style_def parse_path_style_def Let_def
        build_s3_operation_def validate_key_def degenerate_segment_def hm_str_def hm_get_def
        hm_contains_def parse_query_params_def find_param_def has_param_def)
  moreover have "request_identity demo_download_gateway demo_stamps demo_download = Inr Anonymous"
    by (simp add: request_identity_def resolve_identity_Anonymous demo_download_def
        new_request_info_def hm_str_def hm_get_def)
  ultimately show ?thesis
    by (simp add: admitted_def resolve_bucket_def demo_download_gateway_def static_registry_def
        static_get_bucket_def demo_public_config_def demo_bucket_def authorize_def)
qed

lemma demo_download_resolves:
  "\<exists>f md. resolve_request_with_metadata demo_download_gateway demo_stamps ''1'' demo_download
     = (Ok (Forward f, md), [])"
  unfolding resolve_admitted [OF demo_download_admitted]
  by (simp add: demo_download_gateway_def
      dispatch_operation_def context_of_def build_forward_def demo_backend_def Let_def
      build_object_path_def demo_libs_def apply_backend_prefix_def demo_bucket_def
      insert_or_panic_def hv_valid_def t_of_def)

lemma demo_download_calls:
  "\<exists>f. CallForward f \<in> set (snd (handle_request demo_download_gateway demo_stamps demo_clock ''1''
     (\<lambda>b. Inr b) demo_download []))"
proof -
  obtain f md where r: "resolve_request_with_metadata demo_download_gateway demo_stamps ''1'' demo_download
     = (Ok (Forward f, md), [])" using demo_download_resolves by blast
  have "prebuffer demo_download_gateway (\<lambda>b. Inr b) demo_download [] = Streaming"
    using demo_download_admitted by (simp add: prebuffer_Streaming op_needs_buffered_body_def admitted_def)
  then show ?thesis
    by (simp add: handle_request_def router_dispatch_def demo_download_gateway_def demo_matchit_def
        handle_pipeline_def snd_t_bind r [unfolded demo_download_gateway_def] run_action_def
        forward_to_backend_def demo_backend_def t_call_def t_of_def)
qed

theorem backend_calls_authorized_witness:
  "\<exists>op i. parse_operation (gw_libs demo_download_gateway) None demo_download = Inr op \<and>
     request_identity demo_download_gateway demo_stamps demo_download = Inr i"
proof -
  obtain f where f: "CallForward f \<in> set (snd (handle_request demo_download_gateway demo_stamps demo_clock ''1''
     (\<lambda>b. Inr b) demo_download []))" using demo_download_calls by blast
  have "gw_bucket_registry demo_download_gateway = static_registry (\<lambda>_. []) demo_public_config"
    "gw_virtual_host_domain demo_download_gateway = None"
    by (simp_all add: demo_download_gateway_def)
  with backend_calls_authorized [OF f] show ?thesis by fastforce
qed

theorem body_always_available_witness:
  "prebuffer demo_download_gateway (\<lambda>b. Inr b) demo_download [] = Streaming"
proof -
  obtain f md where r: "resolve_request_with_metadata demo_download_gateway demo_stamps ''1'' demo_download
     = (Ok (Forward f, md), [])" using demo_download_resolves by blast
  have m: "\<And>m. m \<in> set (gw_middleware demo_download_gateway) \<Longrightarrow> lawful_middleware m"
    by (simp add: demo_download_gateway_def)
  show ?thesis
    using body_always_available [OF m, of demo_download_gateway demo_stamps "''1''" demo_download "Forward f" md "\<lambda>b. Inr b" "[]"] r by simp
qed

end
