(* ===== verification/PathMapping.thy ===== *)
theory PathMapping
  imports StaticConfig
begin

text \<open>
  \<open>crates/path-mapping/src/lib.rs\<close>: folding leading path segments into one bucket name, on
  request paths, list queries and copy sources, and the registry wrapper that undoes it in
  responses.  Slicing past the end of the segments panics, so parsing is an \<open>outcome\<close>.
  \<open>percent_decode_str(..).decode_utf8_lossy()\<close> and \<open>utf8_percent_encode\<close> are the parameters
  \<open>pdl\<close> and \<open>pe\<close>.
\<close>

record path_mapping =
  pm_bucket_segments :: nat
  pm_bucket_separator :: string
  pm_display_bucket_segments :: nat

record rewrite_result =
  rw_path :: string
  rw_query :: "string option"
  rw_signing_path :: string
  rw_signing_query :: "string option"

record mapped_path =
  mp_bucket :: string
  mp_key :: "string option"
  mp_display_bucket :: string
  mp_key_prefix :: string
  mp_segments :: "string list"

subsection \<open>Parsing\<close>

definition display_bucket_of :: "path_mapping \<Rightarrow> string list \<Rightarrow> string" where
  "display_bucket_of m segments = join_with ''/'' (take (pm_display_bucket_segments m) segments)"

definition key_prefix_of :: "path_mapping \<Rightarrow> string list \<Rightarrow> string" where
  "key_prefix_of m segments =
     (if pm_display_bucket_segments m < pm_bucket_segments m
      then join_with ''/'' (drop (pm_display_bucket_segments m) (take (pm_bucket_segments m) segments)) @ ''/''
      else [])"

definition parse_path :: "path_mapping \<Rightarrow> string \<Rightarrow> mapped_path option outcome" where
  "parse_path m path =
     (let trimmed = the_or path (strip_prefix ''/'' path); n = pm_bucket_segments m in
      if trimmed = [] then Ok None
      else
       (let parts = splitn (n + 1) CHR ''/'' trimmed in
        if length parts < n then Ok None
        else if list_ex (\<lambda>p. p = []) (take n parts) then Ok None
        else
         (let segments = take n parts;
              key = (if length parts > n \<and> parts ! n \<noteq> [] then Some (parts ! n) else None)
          in if length segments < pm_display_bucket_segments m then Panic
             else Ok (Some \<lparr>mp_bucket = join_with (pm_bucket_separator m) segments, mp_key = key,
                            mp_display_bucket = display_bucket_of m segments,
                            mp_key_prefix = key_prefix_of m segments, mp_segments = segments\<rparr>))))"

definition parse_bucket_name :: "path_mapping \<Rightarrow> string \<Rightarrow> mapped_path option outcome" where
  "parse_bucket_name m bucket_name =
     (let segments = split_str (pm_bucket_separator m) bucket_name in
      if length segments \<noteq> pm_bucket_segments m then Ok None
      else if list_ex (\<lambda>p. p = []) segments then Ok None
      else if length segments < pm_display_bucket_segments m then Panic
      else Ok (Some \<lparr>mp_bucket = bucket_name, mp_key = None,
                     mp_display_bucket = display_bucket_of m segments,
                     mp_key_prefix = key_prefix_of m segments, mp_segments = segments\<rparr>))"

subsection \<open>Query strings\<close>

definition is_list_request :: "string \<Rightarrow> bool" where
  "is_list_request query = list_ex (\<lambda>p. starts_with p ''list-type='') (split_on CHR ''&'' query)"

fun find_query_value :: "string \<Rightarrow> string list \<Rightarrow> string option" where
  "find_query_value key [] = None"
| "find_query_value key (pair # ps) =
     (case split_once CHR ''='' pair of
        Some (k, v) \<Rightarrow> if k = key then Some v else find_query_value key ps
      | None \<Rightarrow> find_query_value key ps)"

definition extract_query_param :: "(string \<Rightarrow> string) \<Rightarrow> string \<Rightarrow> string \<Rightarrow> string option" where
  "extract_query_param pdl query key = map_option pdl (find_query_value key (split_on CHR ''&'' query))"

definition query_value_encode :: "char \<Rightarrow> bool" where
  "query_value_encode c \<longleftrightarrow> (of_char c :: nat) < 32 \<or> (of_char c :: nat) \<ge> 127 \<or> c \<in> set '' #&=+''"

definition rewrite_prefix_in_query ::
  "((char \<Rightarrow> bool) \<Rightarrow> string \<Rightarrow> string) \<Rightarrow> string \<Rightarrow> string \<Rightarrow> string" where
  "rewrite_prefix_in_query pe query new_prefix =
     (let encoded = pe query_value_encode new_prefix in
      join_with ''&'' (map (\<lambda>pair. if starts_with pair ''prefix='' then ''prefix='' @ encoded else pair)
        (split_on CHR ''&'' query)))"

subsection \<open>Rewriting\<close>

definition rewrite_prefix_to_bucket ::
  "((char \<Rightarrow> bool) \<Rightarrow> string \<Rightarrow> string) \<Rightarrow> path_mapping \<Rightarrow> string \<Rightarrow> string \<Rightarrow> string
   \<Rightarrow> string \<times> string option" where
  "rewrite_prefix_to_bucket pe m account pre query_str =
     (let (product, remaining) = (case split_once CHR ''/'' pre of Some pr \<Rightarrow> pr | None \<Rightarrow> (pre, []))
      in (''/'' @ account @ pm_bucket_separator m @ product,
          Some (rewrite_prefix_in_query pe query_str remaining)))"

definition pass_through :: "string \<Rightarrow> string option \<Rightarrow> rewrite_result" where
  "pass_through path query =
     \<lparr>rw_path = path, rw_query = query, rw_signing_path = path, rw_signing_query = query\<rparr>"

definition rewrite_request ::
  "((char \<Rightarrow> bool) \<Rightarrow> string \<Rightarrow> string) \<Rightarrow> (string \<Rightarrow> string) \<Rightarrow> path_mapping \<Rightarrow> string
   \<Rightarrow> string option \<Rightarrow> rewrite_result outcome" where
  "rewrite_request pe pdl m path query =
     outcome_bind (parse_path m path) (\<lambda>parsed.
       case parsed of
         Some mapped \<Rightarrow>
           Ok ((pass_through path query)\<lparr>rw_path :=
             ''/'' @ mp_bucket mapped @ (case mp_key mapped of Some k \<Rightarrow> ''/'' @ k | None \<Rightarrow> [])\<rparr>)
       | None \<Rightarrow>
          (let trimmed = trim_end_matches CHR ''/'' (trim_start_matches CHR ''/'' path);
               query_str = the_or [] query
           in if trimmed \<noteq> [] \<and> CHR ''/'' \<notin> set trimmed \<and> is_list_request query_str then
                (case extract_query_param pdl query_str ''prefix'' of
                   Some pre \<Rightarrow>
                     if pre \<noteq> [] then
                       (case rewrite_prefix_to_bucket pe m trimmed pre query_str of
                          (p, q) \<Rightarrow> Ok ((pass_through path query)\<lparr>rw_path := p, rw_query := q\<rparr>))
                     else Ok (pass_through path query)
                 | None \<Rightarrow> Ok (pass_through path query))
              else Ok (pass_through path query)))"

definition rewrite_copy_source :: "path_mapping \<Rightarrow> string \<Rightarrow> string option outcome" where
  "rewrite_copy_source m copy_source =
     (let v = the_or copy_source (strip_prefix ''/'' copy_source);
          (path, version) = (case split_once_str ''?versionId='' v of
             Some (p, ver) \<Rightarrow> (p, Some ver) | None \<Rightarrow> (v, None))
      in outcome_bind (parse_path m (''/'' @ path)) (\<lambda>parsed.
           Ok (case parsed of
                 None \<Rightarrow> None
               | Some mapped \<Rightarrow>
                  (case mp_key mapped of
                     None \<Rightarrow> None
                   | Some key \<Rightarrow>
                       Some (''/'' @ mp_bucket mapped @ ''/'' @ key
                         @ (case version of Some ver \<Rightarrow> ''?versionId='' @ ver | None \<Rightarrow> []))))))"

subsection \<open>The registry wrapper\<close>

text \<open>
  A panic of \<open>parse_bucket_name\<close> takes the request down; the wrapper is defined for mappings
  that cannot panic, \<open>pm_display_bucket_segments \<le> pm_bucket_segments\<close>, and on the others it
  answers with an internal error.
\<close>

definition apply_mapping :: "mapped_path option \<Rightarrow> resolved_bucket \<Rightarrow> resolved_bucket" where
  "apply_mapping mapped rb =
     (case mapped of
        None \<Rightarrow> rb
      | Some mp \<Rightarrow>
         (let rb = rb\<lparr>rb_display_name := Some (mp_display_bucket mp)\<rparr> in
          if mp_key_prefix mp \<noteq> []
          then rb\<lparr>rb_list_rewrite := Some \<lparr>lw_strip_prefix = [], lw_add_prefix = mp_key_prefix mp\<rparr>\<rparr>
          else rb))"

definition mapped_get_bucket ::
  "path_mapping \<Rightarrow> bucket_registry \<Rightarrow> string \<Rightarrow> resolved_identity \<Rightarrow> s3_operation
   \<Rightarrow> resolved_bucket outcome" where
  "mapped_get_bucket m reg name identity op =
     outcome_bind (parse_bucket_name m name) (\<lambda>mapped.
     outcome_bind (of_result (br_get_bucket reg name identity op)) (\<lambda>rb. Ok (apply_mapping mapped rb)))"

fun outcome_result :: "'a outcome \<Rightarrow> proxy_error + 'a" where
  "outcome_result (Ok a) = Inr a"
| "outcome_result (Err e) = Inl e"
| "outcome_result Panic = Inl (Internal ''panic'')"

definition mapped_registry :: "path_mapping \<Rightarrow> bucket_registry \<Rightarrow> bucket_registry" where
  "mapped_registry m reg =
     reg\<lparr>br_get_bucket := \<lambda>name identity op. outcome_result (mapped_get_bucket m reg name identity op)\<rparr>"

subsection \<open>Lemmas\<close>

definition trimmed_path :: "string \<Rightarrow> string" where
  "trimmed_path path = the_or path (strip_prefix ''/'' path)"

lemma splitn_segments:
  assumes "0 < n" "n \<le> length (splitn (n + 1) c t)"
  shows "\<exists>rest. t = join_with [c] (take n (splitn (n + 1) c t)) @ rest \<and>
    (rest = [] \<longleftrightarrow> length (splitn (n + 1) c t) = n) \<and>
    (length (splitn (n + 1) c t) > n \<longrightarrow> rest = c # splitn (n + 1) c t ! n)"
    and "\<And>p. p \<in> set (take n (splitn (n + 1) c t)) \<Longrightarrow> c \<notin> set p"
proof -
  let ?parts = "splitn (n + 1) c t"
  have le: "length ?parts \<le> n + 1" by (rule splitn_length)
  have j: "join_with [c] ?parts = t" by (rule splitn_join) simp
  consider "length ?parts = n" | "length ?parts = n + 1" using le assms(2) by linarith
  then show "\<exists>rest. t = join_with [c] (take n ?parts) @ rest \<and> (rest = [] \<longleftrightarrow> length ?parts = n) \<and>
    (length ?parts > n \<longrightarrow> rest = c # ?parts ! n)"
  proof cases
    case 1
    then show ?thesis using j by simp
  next
    case 2
    then have "?parts = take n ?parts @ [?parts ! n]"
      by (metis Suc_eq_plus1 lessI take_Suc_conv_app_nth take_all_iff order_refl)
    moreover have "take n ?parts \<noteq> []" using assms(1) 2 by auto
    ultimately have "t = join_with [c] (take n ?parts) @ c # ?parts ! n"
      using j join_with_append [of "take n ?parts" "[?parts ! n]" "[c]"] by simp
    then show ?thesis using 2 by (intro exI [of _ "c # ?parts ! n"]) simp
  qed
  show "c \<notin> set p" if "p \<in> set (take n ?parts)" for p
  proof (cases "length ?parts = n + 1")
    case True
    then have "take n ?parts = butlast ?parts" by (simp add: butlast_conv_take)
    with that show ?thesis using splitn_butlast_pieces by metis
  next
    case False
    then have "length ?parts < n + 1" using le by simp
    with that show ?thesis using splitn_short [of "n + 1" c t p] in_set_takeD by metis
  qed
qed

lemma parse_path_Some:
  assumes "parse_path m path = Ok (Some mp)" "0 < pm_bucket_segments m"
  shows "\<exists>rest. trimmed_path path = join_with ''/'' (mp_segments mp) @ rest \<and>
      (case mp_key mp of Some k \<Rightarrow> rest = CHR ''/'' # k | None \<Rightarrow> rest = [] \<or> rest = ''/'')"
    and "length (mp_segments mp) = pm_bucket_segments m"
    and "\<And>p. p \<in> set (mp_segments mp) \<Longrightarrow> p \<noteq> [] \<and> CHR ''/'' \<notin> set p"
    and "mp_bucket mp = join_with (pm_bucket_separator m) (mp_segments mp)"
    and "mp_display_bucket mp = display_bucket_of m (mp_segments mp)"
    and "mp_key_prefix mp = key_prefix_of m (mp_segments mp)"
    and "mp_key mp \<noteq> Some []"
proof -
  let ?n = "pm_bucket_segments m"
  let ?t = "trimmed_path path"
  let ?parts = "splitn (?n + 1) CHR ''/'' ?t"
  from assms(1) have le: "?n \<le> length ?parts"
    and ne: "\<not> list_ex (\<lambda>p. p = []) (take ?n ?parts)"
    and mp: "mp = \<lparr>mp_bucket = join_with (pm_bucket_separator m) (take ?n ?parts),
        mp_key = (if length ?parts > ?n \<and> ?parts ! ?n \<noteq> [] then Some (?parts ! ?n) else None),
        mp_display_bucket = display_bucket_of m (take ?n ?parts),
        mp_key_prefix = key_prefix_of m (take ?n ?parts), mp_segments = take ?n ?parts\<rparr>"
    by (auto simp: parse_path_def trimmed_path_def [symmetric] Let_def split: if_splits)
  note seg = splitn_segments [OF assms(2) le]
  from seg(1) show "\<exists>rest. ?t = join_with ''/'' (mp_segments mp) @ rest \<and>
      (case mp_key mp of Some k \<Rightarrow> rest = CHR ''/'' # k | None \<Rightarrow> rest = [] \<or> rest = ''/'')"
    using le by (auto simp: mp)
  show "length (mp_segments mp) = ?n" using le by (simp add: mp)
  show "p \<noteq> [] \<and> CHR ''/'' \<notin> set p" if "p \<in> set (mp_segments mp)" for p
    using that seg(2) ne by (auto simp: mp list_ex_iff)
  show "mp_bucket mp = join_with (pm_bucket_separator m) (mp_segments mp)"
    "mp_display_bucket mp = display_bucket_of m (mp_segments mp)"
    "mp_key_prefix mp = key_prefix_of m (mp_segments mp)" "mp_key mp \<noteq> Some []"
    by (simp_all add: mp)
qed

lemma outcome_result_eq [simp]: "outcome_result x = Inr a \<longleftrightarrow> x = Ok a"
  by (cases x) auto

lemma mapped_get_bucket_config:
  assumes "mapped_get_bucket m reg name identity op = Ok rb"
  shows "\<exists>rb0. br_get_bucket reg name identity op = Inr rb0 \<and> rb_config rb = rb_config rb0"
  using assms by (auto simp: mapped_get_bucket_def apply_mapping_def Let_def split: option.splits)

text \<open>The wrapper keeps the contract of the registry it wraps.\<close>

locale mapped_over_registry = authorizing_registry +
  fixes mapping :: path_mapping

sublocale mapped_over_registry \<subseteq> mapped: authorizing_registry fp "mapped_registry mapping reg"
proof
  fix name identity op rb
  assume "br_get_bucket (mapped_registry mapping reg) name identity op = Inr rb" "op_bucket op = Some name"
  then show "authorize fp identity op (rb_config rb) = Inr ()"
    using mapped_get_bucket_config [of mapping reg name identity op rb]
      get_bucket_authorizes [of name identity op]
    by (auto simp: mapped_registry_def)
next
  fix name identity act key
  assume "br_authorize_key (mapped_registry mapping reg) name identity act key"
  then show "key_authorized identity name act key"
    using authorize_key_scoped by (simp add: mapped_registry_def)
qed

interpretation mapped_static: mapped_over_registry fp "static_registry fp c" m for fp c m
  by unfold_locales

lemma rewrite_request_signing:
  "rewrite_request pe pdl m path query = Ok r \<Longrightarrow> rw_signing_path r = path \<and> rw_signing_query r = query"
proof (cases "parse_path m path")
  case (Ok x)
  then show "rewrite_request pe pdl m path query = Ok r \<Longrightarrow> ?thesis"
    by (cases x) (auto simp: rewrite_request_def pass_through_def Let_def split: option.splits if_splits prod.splits)
qed (simp_all add: rewrite_request_def)

lemma join_with_free: "c \<notin> set sep \<Longrightarrow> (\<And>x. x \<in> set xs \<Longrightarrow> c \<notin> set x) \<Longrightarrow> c \<notin> set (join_with sep xs)"
  by (induction sep xs rule: join_with.induct) auto

lemma parse_path_display:
  "parse_path m path = Ok (Some mp) \<Longrightarrow> pm_display_bucket_segments m \<le> length (mp_segments mp)"
  by (auto simp: parse_path_def Let_def split: if_splits)

lemma splitn_joined:
  assumes "segs \<noteq> []" "\<And>s. s \<in> set segs \<Longrightarrow> c \<notin> set s"
  shows "splitn (Suc (length segs)) c (join_with [c] segs) = segs"
    and "splitn (Suc (length segs)) c (join_with [c] segs @ c # k) = segs @ [k]"
  using assms by (induction segs rule: induct_list012) (auto simp: split_once_None[THEN iffD2])

text \<open>Parsing a path from its segments and what follows them.\<close>

lemma parse_path_joined:
  assumes "length segs = pm_bucket_segments m" "segs \<noteq> []" "pm_display_bucket_segments m \<le> pm_bucket_segments m"
    and "\<And>s. s \<in> set segs \<Longrightarrow> s \<noteq> [] \<and> CHR ''/'' \<notin> set s"
  shows "parse_path m (''/'' @ join_with ''/'' segs @ (case key of None \<Rightarrow> [] | Some k \<Rightarrow> ''/'' @ k)) =
    Ok (Some \<lparr>mp_bucket = join_with (pm_bucket_separator m) segs, mp_key = (if key = Some [] then None else key),
              mp_display_bucket = display_bucket_of m segs, mp_key_prefix = key_prefix_of m segs, mp_segments = segs\<rparr>)"
proof -
  have first: "join_with ''/'' segs \<noteq> []"
    using assms(2,4) by (cases segs rule: remdups_adj.cases) auto
  have full: "\<not> list_ex (\<lambda>p. p = []) segs" using assms(4) by (auto simp: list_ex_iff)
  have free: "CHR ''/'' \<notin> set s" if "s \<in> set segs" for s using assms(4)[OF that] by simp
  note parts = splitn_joined[OF assms(2) free, unfolded assms(1)]
  show ?thesis
    using first full parts assms(1,3)
    by (cases key) (auto simp: parse_path_def Let_def nth_append)
qed

lemma key_prefix_of_all: "length segs = pm_bucket_segments m \<Longrightarrow>
    key_prefix_of m segs = (if pm_display_bucket_segments m < length segs
      then join_with ''/'' (drop (pm_display_bucket_segments m) segs) @ ''/'' else [])"
  by (simp add: key_prefix_of_def)

text \<open>The prefix that the wrapper has added to listed keys is closed by a slash.\<close>

lemma mapping_adds_prefix:
  assumes "parse_bucket_name m name = Ok (Some mp)" "rb_list_rewrite rb = None"
  shows "added_prefix (rb_list_rewrite (apply_mapping (Some mp) rb)) (mp_key_prefix mp)"
  using assms by (auto simp: apply_mapping_def parse_bucket_name_def Let_def added_prefix_def key_prefix_of_def
      split: if_splits)

subsection \<open>Properties\<close>

text \<open>
  C36. Folding and unfolding a path.  Take a client path of as many non-empty segments as the mapping folds,
  followed by a key, when no segment holds the first byte of the separator and the separator no slash.  The
  request is rewritten so that the gateway splits it into the segments joined by the separator as its bucket
  and exactly the key the client gave; the query and what is signed stay the client's own; and from that bucket
  name the registry wrapper gets back the segments, the first of them as the bucket it shows and the others as
  the prefix of the keys it lists.
\<close>

theorem mapped_path_roundtrip:
  assumes "length segs = pm_bucket_segments m" "segs \<noteq> []" "pm_display_bucket_segments m \<le> pm_bucket_segments m"
    and "pm_bucket_separator m = c # cs" "CHR ''/'' \<notin> set (c # cs)"
    and "\<And>s. s \<in> set segs \<Longrightarrow> s \<noteq> [] \<and> CHR ''/'' \<notin> set s \<and> c \<notin> set s"
    and "path = ''/'' @ join_with ''/'' segs @ (case key of None \<Rightarrow> [] | Some k \<Rightarrow> ''/'' @ k)"
    and "bucket = join_with (c # cs) segs"
  shows "\<exists>r. rewrite_request pe pdl m path query = Ok r
    \<and> parse_path_style (rw_path r) = Inr (bucket, the_or [] key)
    \<and> rw_query r = query \<and> rw_signing_path r = path \<and> rw_signing_query r = query
    \<and> parse_bucket_name m bucket = Ok (Some \<lparr>mp_bucket = bucket, mp_key = None,
        mp_display_bucket = join_with ''/'' (take (pm_display_bucket_segments m) segs),
        mp_key_prefix = (if pm_display_bucket_segments m < length segs
          then join_with ''/'' (drop (pm_display_bucket_segments m) segs) @ ''/'' else []),
        mp_segments = segs\<rparr>)"
proof -
  have seg: "s \<noteq> [] \<and> CHR ''/'' \<notin> set s" "c \<notin> set s" if "s \<in> set segs" for s using assms(6)[OF that] by auto
  note parsed = parse_path_joined[OF assms(1-3) seg(1), of key, folded assms(7), unfolded assms(4), folded assms(8)]
  have b: "bucket \<noteq> []" using assms(2,6,8) by (cases segs rule: remdups_adj.cases) auto
  have slash: "CHR ''/'' \<notin> set bucket" unfolding assms(8) using seg(1) assms(5) by (intro join_with_free) auto
  have split: "split_str (c # cs) bucket = segs"
    unfolding assms(8) using assms(2) seg(2) by (intro split_str_join_with) auto
  have "parse_bucket_name m bucket = Ok (Some \<lparr>mp_bucket = bucket, mp_key = None,
        mp_display_bucket = join_with ''/'' (take (pm_display_bucket_segments m) segs),
        mp_key_prefix = (if pm_display_bucket_segments m < length segs
          then join_with ''/'' (drop (pm_display_bucket_segments m) segs) @ ''/'' else []),
        mp_segments = segs\<rparr>)"
    using assms(1,3) seg(1)
    by (auto simp: parse_bucket_name_def assms(4) split Let_def list_ex_iff display_bucket_of_def key_prefix_of_all)
  then show ?thesis
    using parse_path_style_first [OF b slash] parse_path_style_bucket [OF b slash]
    by (cases key) (auto simp: rewrite_request_def pass_through_def parsed)
qed

definition demo_mapping :: path_mapping where
  "demo_mapping = \<lparr>pm_bucket_segments = 2, pm_bucket_separator = '':'', pm_display_bucket_segments = 1\<rparr>"

lemma demo_parse: "parse_path demo_mapping ''/acme/data/a/b'' =
    Ok (Some \<lparr>mp_bucket = ''acme:data'', mp_key = Some ''a/b'', mp_display_bucket = ''acme'',
              mp_key_prefix = ''data/'', mp_segments = [''acme'', ''data'']\<rparr>)"
  by (simp add: parse_path_def demo_mapping_def numeral_3_eq_3 numeral_2_eq_2 display_bucket_of_def
      key_prefix_of_def)

theorem mapped_path_roundtrip_witness:
  "(\<exists>r. rewrite_request (\<lambda>_ s. s) (\<lambda>s. s) demo_mapping ''/acme/data/a/b'' (Some ''x=1'') = Ok r \<and>
     parse_path_style (rw_path r) = Inr (''acme:data'', ''a/b'')) \<and>
   parse_bucket_name demo_mapping ''acme:data'' =
     Ok (Some \<lparr>mp_bucket = ''acme:data'', mp_key = None, mp_display_bucket = ''acme'',
               mp_key_prefix = ''data/'', mp_segments = [''acme'', ''data'']\<rparr>)"
proof -
  have "s \<noteq> [] \<and> CHR ''/'' \<notin> set s \<and> CHR '':'' \<notin> set s" if "s \<in> set [''acme'', ''data'']" for s
    using that by auto
  note rt = mapped_path_roundtrip [where m = demo_mapping and segs = "[''acme'', ''data'']" and cs = "[]" and key = "Some ''a/b''"
      and query = "Some ''x=1''" and pe = "\<lambda>_ s. s" and pdl = "\<lambda>s. s", OF _ _ _ _ _ this refl refl]
  obtain r where "rewrite_request (\<lambda>_ s. s) (\<lambda>s. s) demo_mapping ''/acme/data/a/b'' (Some ''x=1'') = Ok r"
    "parse_path_style (rw_path r) = Inr (''acme:data'', ''a/b'')"
    "parse_bucket_name demo_mapping ''acme:data'' =
     Ok (Some \<lparr>mp_bucket = ''acme:data'', mp_key = None, mp_display_bucket = ''acme'',
               mp_key_prefix = ''data/'', mp_segments = [''acme'', ''data'']\<rparr>)"
    using rt by (simp add: demo_mapping_def) blast
  then show ?thesis by blast
qed

text \<open>
  What the client sees leads back to what it asked for: the display bucket, the key prefix
  added to listed keys and the key put together are the client's own path.
\<close>

theorem display_names_rebuild_path:
  assumes "parse_path m path = Ok (Some mp)" "mp_key mp = Some k"
    and "0 < pm_display_bucket_segments m" "pm_display_bucket_segments m < pm_bucket_segments m"
  shows "trimmed_path path = mp_display_bucket mp @ ''/'' @ mp_key_prefix mp @ k"
proof -
  have n: "0 < pm_bucket_segments m" using assms(3,4) by simp
  note ps = parse_path_Some [OF assms(1) n]
  let ?d = "pm_display_bucket_segments m"
  have "take ?d (mp_segments mp) \<noteq> []" "drop ?d (mp_segments mp) \<noteq> []"
    using ps(2) assms(3,4) by auto
  from join_with_append [OF this, of "''/''"]
  have "join_with ''/'' (mp_segments mp)
      = join_with ''/'' (take ?d (mp_segments mp)) @ ''/'' @ join_with ''/'' (drop ?d (mp_segments mp))"
    by simp
  then show ?thesis using ps(1,2,5,6) assms(2,4)
    by (simp add: display_bucket_of_def key_prefix_of_def)
qed

theorem display_names_rebuild_path_witness:
  "trimmed_path ''/acme/data/a/b'' = ''acme'' @ ''/'' @ ''data/'' @ ''a/b''"
  using display_names_rebuild_path [OF demo_parse] by (simp add: demo_mapping_def)

text \<open>
  Without the condition on the segments the mapping is not injective: two client paths
  with different segments fold to the same internal bucket and key.
\<close>

theorem mapped_paths_collide:
  "\<exists>r r'. rewrite_request pe pdl demo_mapping ''/a:b/c/k'' None = Ok r
     \<and> rewrite_request pe pdl demo_mapping ''/a/b:c/k'' None = Ok r'
     \<and> rw_path r = ''/a:b:c/k'' \<and> rw_path r' = rw_path r"
  by (simp add: rewrite_request_def pass_through_def parse_path_def demo_mapping_def numeral_3_eq_3
      numeral_2_eq_2 display_bucket_of_def key_prefix_of_def)

end
