(* ===== verification/StsRequest.thy ===== *)
theory StsRequest
  imports Response Request
begin

text \<open>
  \<open>crates/sts/src/request.rs\<close> (which parameter strings are STS calls, and what they ask for)
  and \<open>crates/sts/src/responses.rs\<close> (the documents that answer them).  The form parser, the
  XML serializer and the RFC 3339 printer are parameters.
\<close>

record sts_request =
  sr_role_arn :: string
  sr_web_identity_token :: string
  sr_duration_seconds :: "u64 option"

definition parse_sts_params :: "(string \<times> string) list \<Rightarrow> proxy_error + sts_request" where
  "parse_sts_params ps =
     (case find_param ''RoleArn'' ps of
        None \<Rightarrow> Inl (InvalidRequest ''missing RoleArn'')
      | Some role_arn \<Rightarrow>
         (case find_param ''WebIdentityToken'' ps of
            None \<Rightarrow> Inl (InvalidRequest ''missing WebIdentityToken'')
          | Some token \<Rightarrow>
              Inr \<lparr>sr_role_arn = role_arn, sr_web_identity_token = token,
                   sr_duration_seconds = Option.bind (find_param ''DurationSeconds'' ps) parse_u64\<rparr>))"

definition try_parse_sts_request ::
  "(string \<Rightarrow> (string \<times> string) list) \<Rightarrow> string option \<Rightarrow> (proxy_error + sts_request) option" where
  "try_parse_sts_request fp query =
     (case query of
        None \<Rightarrow> None
      | Some q \<Rightarrow>
         (let ps = fp q in
          if find_param ''Action'' ps = Some ''AssumeRoleWithWebIdentity''
          then Some (parse_sts_params ps) else None))"

definition is_get_caller_identity ::
  "(string \<Rightarrow> (string \<times> string) list) \<Rightarrow> string option \<Rightarrow> bool" where
  "is_get_caller_identity fp ps =
     (case ps of
        None \<Rightarrow> False
      | Some q \<Rightarrow> list_ex (\<lambda>(k, v). k = ''Action'' \<and> v = ''GetCallerIdentity'') (fp q))"

subsection \<open>Responses\<close>

record sts_credentials =
  stc_access_key_id :: string
  stc_secret_access_key :: string
  stc_session_token :: string
  stc_expiration :: string

record assumed_role_user =
  aru_assumed_role_id :: string
  aru_arn :: string

record assume_role_result =
  arr_credentials :: sts_credentials
  arr_assumed_role_user :: assumed_role_user

record assume_role_response =
  ars_result :: assume_role_result

record caller_identity_result =
  cir_arn :: string
  cir_user_id :: string
  cir_account :: string

datatype sts_doc = XAssumeRole assume_role_response | XCallerIdentity caller_identity_result

definition assume_role_to_xml :: "(sts_doc \<Rightarrow> string option) \<Rightarrow> assume_role_response \<Rightarrow> string" where
  "assume_role_to_xml xs r = xml_declaration @ the_or [] (xs (XAssumeRole r))"

definition build_sts_response ::
  "(sts_doc \<Rightarrow> string option) \<Rightarrow> (int \<Rightarrow> string) \<Rightarrow> temporary_credentials \<Rightarrow> nat \<times> string" where
  "build_sts_response xs rfc3339 creds =
     (200, assume_role_to_xml xs
        \<lparr>ars_result =
           \<lparr>arr_credentials =
              \<lparr>stc_access_key_id = tc_access_key_id creds,
               stc_secret_access_key = tc_secret_access_key creds,
               stc_session_token = tc_session_token creds,
               stc_expiration = rfc3339 (tc_expiration creds)\<rparr>,
            arr_assumed_role_user =
              \<lparr>aru_assumed_role_id = tc_assumed_role_id creds,
               aru_arn = tc_assumed_role_id creds\<rparr>\<rparr>\<rparr>)"

definition synthetic_account_id :: string where
  "synthetic_account_id = ''000000000000''"

definition build_caller_identity_response ::
  "(sts_doc \<Rightarrow> string option) \<Rightarrow> temporary_credentials \<Rightarrow> string" where
  "build_caller_identity_response xs creds =
     xml_declaration @ the_or [] (xs (XCallerIdentity
       \<lparr>cir_arn = ''arn:aws:sts::'' @ synthetic_account_id @ '':assumed-role/''
          @ tc_assumed_role_id creds @ ''/'' @ tc_source_identity creds,
        cir_user_id = tc_assumed_role_id creds @ '':'' @ tc_source_identity creds,
        cir_account = synthetic_account_id\<rparr>))"

fun sts_error_parts :: "proxy_error \<Rightarrow> nat \<times> string \<times> string" where
  "sts_error_parts (RoleNotFound r) = (400, ''MalformedPolicyDocument'', ''role not found: '' @ r)"
| "sts_error_parts (InvalidOidcToken m) = (400, ''InvalidIdentityToken'', m)"
| "sts_error_parts (InvalidRequest m) = (400, ''InvalidParameterValue'', m)"
| "sts_error_parts AccessDenied = (403, ''AccessDenied'', ''access denied'')"
| "sts_error_parts SignatureDoesNotMatch =
     (403, ''SignatureDoesNotMatch'', ''the request signature does not match'')"
| "sts_error_parts ExpiredCredentials =
     (403, ''ExpiredToken'', ''the security token included in the request is expired'')"
| "sts_error_parts _ = (500, ''InternalError'', ''internal error'')"

definition build_sts_error_response :: "proxy_error \<Rightarrow> nat \<times> string" where
  "build_sts_error_response err =
     (case sts_error_parts err of
        (status, code, message) \<Rightarrow>
          (status, xml_declaration @ ''<ErrorResponse><Error><Code>'' @ code @ ''</Code><Message>''
             @ message @ ''</Message></Error></ErrorResponse>''))"

subsection \<open>Lemmas\<close>

text \<open>The message goes into the document as it is, unescaped.\<close>

lemma sts_error_message_unescaped:
  "build_sts_error_response (InvalidOidcToken m) =
     (400, xml_declaration @ ''<ErrorResponse><Error><Code>InvalidIdentityToken</Code><Message>'' @ m
        @ ''</Message></Error></ErrorResponse>'')"
  by (simp add: build_sts_error_response_def)

lemma sts_error_status: "fst (build_sts_error_response e) \<in> {400, 403, 500}"
  by (cases e) (auto simp: build_sts_error_response_def)

lemma sts_error_not_ok [simp]: "fst (build_sts_error_response e) \<noteq> 200"
  using sts_error_status [of e] by auto

lemma build_sts_response_status [simp]: "fst (build_sts_response xs fmt c) = 200"
  by (simp add: build_sts_response_def)

lemma find_param_values_of:
  "find_param k ps = (case values_of k ps of [] \<Rightarrow> None | v # _ \<Rightarrow> Some v)"
  by (induction ps) (auto simp: find_param_def)

subsection \<open>Properties\<close>

text \<open>
  The first value of each parameter decides: a string is an AssumeRoleWithWebIdentity call
  exactly when its first Action says so, whatever other Action follows; such a call is accepted
  exactly when RoleArn and WebIdentityToken are given, and a duration that is not an unsigned
  64-bit number counts as absent.  A GetCallerIdentity anywhere among the Actions makes it one.
\<close>

theorem sts_call_recognised:
  "try_parse_sts_request fp (Some q) =
     (case values_of ''Action'' (fp q) of
        a # _ \<Rightarrow>
          if a = ''AssumeRoleWithWebIdentity'' then
            Some (case (values_of ''RoleArn'' (fp q), values_of ''WebIdentityToken'' (fp q)) of
                    (r # _, t # _) \<Rightarrow>
                      Inr \<lparr>sr_role_arn = r, sr_web_identity_token = t,
                           sr_duration_seconds =
                             (case values_of ''DurationSeconds'' (fp q) of [] \<Rightarrow> None | d # _ \<Rightarrow> parse_u64 d)\<rparr>
                  | ([], _) \<Rightarrow> Inl (InvalidRequest ''missing RoleArn'')
                  | (_ # _, []) \<Rightarrow> Inl (InvalidRequest ''missing WebIdentityToken''))
          else None
      | [] \<Rightarrow> None)
   \<and> (is_get_caller_identity fp (Some q) \<longleftrightarrow> ''GetCallerIdentity'' \<in> set (values_of ''Action'' (fp q)))"
proof
  show "is_get_caller_identity fp (Some q) \<longleftrightarrow> ''GetCallerIdentity'' \<in> set (values_of ''Action'' (fp q))"
    unfolding is_get_caller_identity_def values_of_def by (force simp: list_ex_iff)
qed (simp add: try_parse_sts_request_def parse_sts_params_def find_param_values_of Let_def split: list.split)

end
