(* ===== verification/SealedToken.thy ===== *)
theory SealedToken
  imports Identity StsRequest RouteHandler
begin

text \<open>
  \<open>crates/sts/src/sealed_token.rs\<close> (credentials sealed into the session token) and
  \<open>crates/sts/src/caller_identity.rs\<close> (a caller proves its session).  AES-256-GCM, base64 and
  the JSON codec of the credentials are parameters (\<open>sealing\<close>): a key is what
  \<open>Aes256Gcm::new_from_slice\<close> made of 32 bytes.  The locale states what the gateway's identity
  resolution asks of a session token resolver; the sealed token is its interpretation.
\<close>

record 'key sealing =
  se_b64_decode :: "string \<Rightarrow> string + string"
  se_url_encode :: "string \<Rightarrow> string"
  se_url_decode :: "string \<Rightarrow> string option"
  se_new_key :: "string \<Rightarrow> string + 'key"
  se_encrypt :: "'key \<Rightarrow> string \<Rightarrow> string \<Rightarrow> string + string"
  se_decrypt :: "'key \<Rightarrow> string \<Rightarrow> string \<Rightarrow> string option"
  se_to_json :: "temporary_credentials \<Rightarrow> string + string"
  se_from_json :: "string \<Rightarrow> string + temporary_credentials"

definition nonce_len :: nat where
  "nonce_len = 12"

definition token_key_from_base64 :: "'key sealing \<Rightarrow> string \<Rightarrow> proxy_error + 'key" where
  "token_key_from_base64 se encoded =
     (case se_b64_decode se (trim_ws encoded) of
        Inl e \<Rightarrow> Inl (ConfigError (''invalid SESSION_TOKEN_KEY base64: '' @ e))
      | Inr bytes \<Rightarrow>
          if length bytes \<noteq> 32
          then Inl (ConfigError (''SESSION_TOKEN_KEY must be 32 bytes, got '' @ nat_to_string (length bytes)))
          else map_error (\<lambda>e. ConfigError (''AES key error: '' @ e)) (se_new_key se bytes))"

definition seal ::
  "'key sealing \<Rightarrow> string \<Rightarrow> 'key \<Rightarrow> temporary_credentials \<Rightarrow> proxy_error + string" where
  "seal se nonce key creds =
     (case se_to_json se creds of
        Inl e \<Rightarrow> Inl (Internal (''seal json: '' @ e))
      | Inr plaintext \<Rightarrow>
         (case se_encrypt se key nonce plaintext of
            Inl e \<Rightarrow> Inl (Internal (''seal encrypt: '' @ e))
          | Inr ciphertext \<Rightarrow> Inr (se_url_encode se (nonce @ ciphertext))))"

definition unseal ::
  "'key sealing \<Rightarrow> int \<Rightarrow> 'key \<Rightarrow> string \<Rightarrow> proxy_error + temporary_credentials option" where
  "unseal se now key token =
     (case se_url_decode se token of
        None \<Rightarrow> Inr None
      | Some blob \<Rightarrow>
          if length blob \<le> nonce_len then Inr None
          else (case se_decrypt se key (take nonce_len blob) (drop nonce_len blob) of
                  None \<Rightarrow> Inr None
                | Some plaintext \<Rightarrow>
                   (case se_from_json se plaintext of
                      Inl e \<Rightarrow> Inl (Internal (''unseal json: '' @ e))
                    | Inr creds \<Rightarrow>
                        if tc_expiration creds \<le> now then Inl ExpiredCredentials
                        else Inr (Some creds))))"

subsection \<open>GetCallerIdentity\<close>

text \<open>\<open>None\<close> is a gateway without \<open>SESSION_TOKEN_KEY\<close>; otherwise the key's \<open>unseal\<close>.\<close>

definition resolve_caller_identity ::
  "crypto \<Rightarrow> (sts_doc \<Rightarrow> string option) \<Rightarrow> request_info \<Rightarrow> token_resolver option
   \<Rightarrow> proxy_error + string" where
  "resolve_caller_identity cr xs req token_key =
     (case token_key of
        None \<Rightarrow> Inl (ConfigError ''STS requires SESSION_TOKEN_KEY to be configured'')
      | Some unseal_token \<Rightarrow>
     (case hm_str (ri_headers req) ''x-amz-security-token'' of
        None \<Rightarrow> Inl AccessDenied
      | Some session_token \<Rightarrow>
     (case unseal_token session_token of
        Inl e \<Rightarrow> Inl e
      | Inr None \<Rightarrow> Inl AccessDenied
      | Inr (Some creds) \<Rightarrow>
     (case hm_str (ri_headers req) ''authorization'' of
        None \<Rightarrow> Inl AccessDenied
      | Some auth_header \<Rightarrow>
     (case parse_sigv4_auth auth_header of
        Inl e \<Rightarrow> Inl e
      | Inr sig \<Rightarrow>
          if \<not> constant_time_eq (map byte_of (sa_access_key_id sig))
                 (map byte_of (tc_access_key_id creds))
          then Inl AccessDenied
          else
            (let body = the_or [] (ri_form_body req);
                 payload_hash = (case hm_str (ri_headers req) ''x-amz-content-sha256'' of
                                   Some h \<Rightarrow> h | None \<Rightarrow> cr_sha256_hex cr body);
                 signing_path = the_or (ri_path req) (ri_signing_path req);
                 signing_query = the_or [] (case ri_signing_query req of
                                   Some q \<Rightarrow> Some q | None \<Rightarrow> ri_query req)
             in case verify_sigv4_signature cr (ri_method req) signing_path signing_query
                       (ri_headers req) sig (tc_secret_access_key creds) payload_hash of
                  Inl e \<Rightarrow> Inl e
                | Inr ok \<Rightarrow>
                    if \<not> ok then Inl SignatureDoesNotMatch
                    else Inr (build_caller_identity_response xs creds)))))))"

definition handle_get_caller_identity ::
  "crypto \<Rightarrow> (sts_doc \<Rightarrow> string option) \<Rightarrow> request_info \<Rightarrow> token_resolver option \<Rightarrow> nat \<times> string" where
  "handle_get_caller_identity cr xs req token_key =
     (case resolve_caller_identity cr xs req token_key of
        Inr xml \<Rightarrow> (200, xml)
      | Inl e \<Rightarrow> build_sts_error_response e)"

subsection \<open>What a resolver of session tokens owes the gateway\<close>

text \<open>
  The client is \<open>resolve_identity\<close>: it never looks at an expiration itself, so every resolver
  has to answer only with credentials that are still valid, and that somebody issued.
\<close>

locale session_resolver =
  fixes resolve :: "int \<Rightarrow> token_resolver"
    and issued :: "string \<Rightarrow> temporary_credentials \<Rightarrow> bool"
  assumes fresh: "resolve now token = Inr (Some c) \<Longrightarrow> now < tc_expiration c"
    and genuine: "resolve now token = Inr (Some c) \<Longrightarrow> issued token c"
begin

lemma identity_of_live_session:
  assumes "resolve_identity cr now m p q h gc (Some (resolve now)) = Inr (Authenticated who)"
    and "hm_str h ''x-amz-security-token'' = Some token"
  shows "\<exists>c. issued token c \<and> now < tc_expiration c \<and> principal_name who = tc_source_identity c
    \<and> id_allowed_scopes who = tc_allowed_scopes c"
  using assms fresh genuine
  by (fastforce simp: resolve_identity_Authenticated proven_identity_def)

lemma caller_of_live_session:
  assumes "resolve_caller_identity cr xs req (Some (resolve now)) = Inr xml"
  shows "\<exists>token c. hm_str (ri_headers req) ''x-amz-security-token'' = Some token \<and> issued token c
    \<and> now < tc_expiration c \<and> xml = build_caller_identity_response xs c"
  using assms fresh genuine
  by (fastforce simp: resolve_caller_identity_def Let_def split: option.splits sum.splits if_splits)

end

text \<open>A token is sealed under a key when its blob decrypts, nonce first, to the credentials.\<close>

definition sealed_under ::
  "'key sealing \<Rightarrow> 'key \<Rightarrow> string \<Rightarrow> temporary_credentials \<Rightarrow> bool" where
  "sealed_under se key token c \<longleftrightarrow>
     (\<exists>nonce ct pt. se_url_decode se token = Some (nonce @ ct) \<and> length nonce = nonce_len \<and> ct \<noteq> [] \<and>
        se_decrypt se key nonce ct = Some pt \<and> se_from_json se pt = Inr c)"

lemma unseal_Some:
  "unseal se now key token = Inr (Some c) \<longleftrightarrow> sealed_under se key token c \<and> now < tc_expiration c"
proof
  assume "unseal se now key token = Inr (Some c)"
  then obtain blob pt where b: "se_url_decode se token = Some blob" "nonce_len < length blob"
      "se_decrypt se key (take nonce_len blob) (drop nonce_len blob) = Some pt"
      "se_from_json se pt = Inr c" "now < tc_expiration c"
    by (auto simp: unseal_def not_le split: option.splits sum.splits if_splits)
  then show "sealed_under se key token c \<and> now < tc_expiration c"
    unfolding sealed_under_def
    by (intro conjI exI [of _ "take nonce_len blob"] exI [of _ "drop nonce_len blob"] exI [of _ pt])
      (auto simp: nonce_len_def)
qed (auto simp: unseal_def sealed_under_def)

lemma unseal_seal:
  assumes dec: "\<And>b. se_url_decode se (se_url_encode se b) = Some b"
    and aes: "\<And>n p c. length n = 12 \<Longrightarrow> se_encrypt se key n p = Inr c \<Longrightarrow> se_decrypt se key n c = Some p \<and> c \<noteq> []"
    and json: "\<And>t. se_to_json se creds = Inr t \<Longrightarrow> se_from_json se t = Inr creds"
    and nonce: "length nonce = 12"
    and sealed: "seal se nonce key creds = Inr token"
  shows "unseal se now key token =
     (if now < tc_expiration creds then Inr (Some creds) else Inl ExpiredCredentials)"
proof -
  from sealed obtain pt ct where "se_to_json se creds = Inr pt" "se_encrypt se key nonce pt = Inr ct"
      "token = se_url_encode se (nonce @ ct)"
    by (auto simp: seal_def split: sum.splits)
  with dec aes [OF nonce] json nonce show ?thesis by (auto simp: unseal_def nonce_len_def)
qed

interpretation sealed: session_resolver "\<lambda>now. unseal se now key" "sealed_under se key"
  by unfold_locales (auto simp: unseal_Some)

subsection \<open>Properties\<close>

text \<open>
  C13. What a key seals it opens again until the expiration, and from that moment on the same
  token is an expired credential; the library hypotheses are that base64, decryption and the
  JSON codec undo their counterparts.
\<close>

theorem sealed_token_roundtrip:
  assumes dec: "\<And>b. se_url_decode se (se_url_encode se b) = Some b"
    and aes: "\<And>n p c. length n = 12 \<Longrightarrow> se_encrypt se key n p = Inr c \<Longrightarrow> se_decrypt se key n c = Some p \<and> c \<noteq> []"
    and json: "\<And>t. se_to_json se creds = Inr t \<Longrightarrow> se_from_json se t = Inr creds"
    and nonce: "length nonce = 12"
    and sealed: "seal se nonce key creds = Inr token"
  shows "unseal se now key token =
     (if now < tc_expiration creds then Inr (Some creds) else Inl ExpiredCredentials)"
  using assms by (rule unseal_seal)

text \<open>A sealing to evaluate: the nonce is repeated in front of the text, as a tag would be.\<close>

definition demo_credentials :: temporary_credentials where
  "demo_credentials = \<lparr>tc_access_key_id = ''STSPRXYa'', tc_secret_access_key = ''k'',
     tc_session_token = [], tc_expiration = 50, tc_allowed_scopes = [],
     tc_assumed_role_id = ''ci'', tc_source_identity = ''repo:a''\<rparr>"

definition demo_sealing :: "string sealing" where
  "demo_sealing = \<lparr>se_b64_decode = Inr, se_url_encode = (\<lambda>s. s), se_url_decode = Some,
     se_new_key = Inr, se_encrypt = (\<lambda>k n p. Inr (n @ p)),
     se_decrypt = (\<lambda>k n c. strip_prefix n c), se_to_json = (\<lambda>c. Inr (tc_source_identity c)),
     se_from_json = (\<lambda>t. Inr (demo_credentials\<lparr>tc_source_identity := t\<rparr>))\<rparr>"

theorem sealed_token_roundtrip_witness:
  "unseal demo_sealing 49 [] (''nnnnnnnnnnnn'' @ ''nnnnnnnnnnnn'' @ ''repo:a'') = Inr (Some demo_credentials)
   \<and> unseal demo_sealing 50 [] (''nnnnnnnnnnnn'' @ ''nnnnnnnnnnnn'' @ ''repo:a'') = Inl ExpiredCredentials"
proof -
  have enc: "se_encrypt demo_sealing k n p = Inr (n @ p)" "se_decrypt demo_sealing k n c = strip_prefix n c"
    "se_url_decode demo_sealing b = Some b" "se_url_encode demo_sealing b = b" for k n p c b
    by (simp_all add: demo_sealing_def)
  have json: "se_to_json demo_sealing demo_credentials = Inr ''repo:a''"
    "se_from_json demo_sealing ''repo:a'' = Inr demo_credentials"
    by (simp_all add: demo_sealing_def demo_credentials_def)
  have "seal demo_sealing ''nnnnnnnnnnnn'' [] demo_credentials
      = Inr (''nnnnnnnnnnnn'' @ ''nnnnnnnnnnnn'' @ ''repo:a'')"
    by (simp add: seal_def enc json)
  then have "unseal demo_sealing now [] (''nnnnnnnnnnnn'' @ ''nnnnnnnnnnnn'' @ ''repo:a'') =
      (if now < tc_expiration demo_credentials then Inr (Some demo_credentials) else Inl ExpiredCredentials)"
    for now
    by (rule sealed_token_roundtrip [rotated -1]) (auto simp: enc json)
  then show ?thesis by (simp add: demo_credentials_def)
qed

text \<open>
  C12. A request that carries a session token is authenticated only while the credentials
  sealed in that token are valid, and only as their principal with their scopes: the
  expiration cannot be outlived and the token decides the identity.
\<close>

theorem session_token_decides_identity:
  assumes "resolve_identity cr now m p q h gc (Some (unseal se now key)) = Inr (Authenticated who)"
    and "hm_str h ''x-amz-security-token'' = Some token"
  shows "\<exists>c. sealed_under se key token c \<and> now < tc_expiration c
    \<and> principal_name who = tc_source_identity c \<and> id_allowed_scopes who = tc_allowed_scopes c"
  by (rule sealed.identity_of_live_session [OF assms])


text \<open>A request that carries the sealed token above and a signature under its secret.\<close>

definition demo_session_headers :: header_map where
  "demo_session_headers =
     [(''host'', ''s3.test''), (''x-amz-security-token'', ''nnnnnnnnnnnn'' @ ''nnnnnnnnnnnn'' @ ''repo:a''),
      (''authorization'', ''AWS4-HMAC-SHA256 Credential=STSPRXYa/20240101/us-east-1/s3/aws4_request''
         @ '', SignedHeaders=host'' @ '', Signature=a1'')]"

lemma demo_session_parses:
  "parse_sigv4_auth (''AWS4-HMAC-SHA256 Credential=STSPRXYa/20240101/us-east-1/s3/aws4_request''
         @ '', SignedHeaders=host'' @ '', Signature=a1'') =
     Inr \<lparr>sa_access_key_id = ''STSPRXYa'', sa_date_stamp = ''20240101'', sa_region = ''us-east-1'',
          sa_service = ''s3'', sa_signed_headers = [''host''], sa_signature = ''a1''\<rparr>"
  by (simp add: parse_sigv4_auth_def split_str.simps)

lemma demo_session_identity:
  "resolve_identity demo_crypto 49 POST ''/b/k'' [] demo_session_headers (\<lambda>_. Inr None)
     (Some (unseal demo_sealing 49 [])) =
   Inr (Authenticated \<lparr>principal_name = ''repo:a'', id_allowed_scopes = []\<rparr>)"
proof -
  have h: "hm_str demo_session_headers ''authorization'' =
      Some (''AWS4-HMAC-SHA256 Credential=STSPRXYa/20240101/us-east-1/s3/aws4_request''
         @ '', SignedHeaders=host'' @ '', Signature=a1'')"
    "hm_str demo_session_headers ''x-amz-security-token'' =
      Some (''nnnnnnnnnnnn'' @ ''nnnnnnnnnnnn'' @ ''repo:a'')"
    by (simp_all add: demo_session_headers_def hm_str_def hm_get_def hv_to_str_def ascii_lower_def)
  have u: "unseal demo_sealing 49 [] (''nnnnnnnnnnnn'' @ ''nnnnnnnnnnnn'' @ ''repo:a'')
      = Inr (Some demo_credentials)"
    by (simp add: unseal_def demo_sealing_def nonce_len_def demo_credentials_def)
  have v: "verify_sigv4_signature demo_crypto m p q hs
      \<lparr>sa_access_key_id = ''STSPRXYa'', sa_date_stamp = ''20240101'', sa_region = ''us-east-1'',
          sa_service = ''s3'', sa_signed_headers = [''host''], sa_signature = ''a1''\<rparr> ''k'' ph = Inr True" for m p q hs ph
    by (simp add: verify_sigv4_signature_def demo_crypto_def Let_def derive_signing_key_def
        hmac_sha256_def constant_time_eq_def)
  show ?thesis
    unfolding resolve_identity_def Let_def h demo_session_parses u resolve_temporary_def
    by (simp add: u [simplified] v demo_session_parses [simplified])
      (simp add: demo_credentials_def constant_time_eq_iff v)
qed

theorem session_token_decides_identity_witness:
  "\<exists>c. sealed_under demo_sealing [] (''nnnnnnnnnnnn'' @ ''nnnnnnnnnnnn'' @ ''repo:a'') c
    \<and> 49 < tc_expiration c \<and> ''repo:a'' = tc_source_identity c \<and> [] = tc_allowed_scopes c"
  using session_token_decides_identity [OF demo_session_identity]
  by (simp add: demo_session_headers_def hm_str_def hm_get_def hv_to_str_def ascii_lower_def)

end
