(* ===== verification/Json.thy ===== *)
theory Json
  imports Types
begin

text \<open>
  JSON values (\<open>serde_json::Value\<close>) with the accessors the code uses, and the integer and
  duration arithmetic of tokens: \<open>i64\<close> values as integers, with the wrap-around of a release
  build written out, and whole seconds of a chrono duration in nanoseconds.
\<close>

datatype json =
    JNull
  | JBool bool
  | JInt int
  | JFloat string
  | JString string
  | JArray "json list"
  | JObject "(string \<times> json) list"

fun json_get :: "json \<Rightarrow> string \<Rightarrow> json option" where
  "json_get (JObject fs) k = map_of fs k"
| "json_get _ k = None"

fun as_str :: "json \<Rightarrow> string option" where
  "as_str (JString s) = Some s"
| "as_str _ = None"

definition i64_range :: "int \<Rightarrow> bool" where
  "i64_range n \<longleftrightarrow> - (2 ^ 63) \<le> n \<and> n < 2 ^ 63"

fun as_i64 :: "json \<Rightarrow> int option" where
  "as_i64 (JInt n) = (if i64_range n then Some n else None)"
| "as_i64 _ = None"

definition json_str :: "json \<Rightarrow> string \<Rightarrow> string option" where
  "json_str j k = Option.bind (json_get j k) as_str"

definition json_i64 :: "json \<Rightarrow> string \<Rightarrow> int option" where
  "json_i64 j k = Option.bind (json_get j k) as_i64"

text \<open>The value an \<open>i64\<close> operation leaves when its result does not fit.\<close>

definition wrap_i64 :: "int \<Rightarrow> int" where
  "wrap_i64 n = (n + 2 ^ 63) mod 2 ^ 64 - 2 ^ 63"

lemma wrap_i64_id [simp]: "i64_range n \<Longrightarrow> wrap_i64 n = n"
  by (simp add: wrap_i64_def i64_range_def)

lemma wrap_i64_range: "i64_range (wrap_i64 n)"
  by (simp add: wrap_i64_def i64_range_def)

lemma wrap_i64_above: "2 ^ 63 \<le> n \<Longrightarrow> n < 2 ^ 63 + 2 ^ 64 \<Longrightarrow> wrap_i64 n = n - 2 ^ 64"
  using minus_mod_self2 [of "n + 2 ^ 63" "2 ^ 64", symmetric]
  by (simp add: wrap_i64_def)

lemma wrap_i64_below: "- (2 ^ 63) - 2 ^ 64 \<le> n \<Longrightarrow> n < - (2 ^ 63) \<Longrightarrow> wrap_i64 n = n + 2 ^ 64"
  using mod_add_self2 [of "n + 2 ^ 63" "2 ^ 64", symmetric]
  by (simp add: wrap_i64_def)

text \<open>\<open>Duration::num_seconds\<close> rounds towards zero.\<close>

definition num_seconds :: "int \<Rightarrow> int" where
  "num_seconds d = (if 0 \<le> d then d div 1000000000 else - ((- d) div 1000000000))"

text \<open>A stamp of this age still counts under a lifetime in seconds.\<close>

definition within_ttl :: "int \<Rightarrow> int \<Rightarrow> nat \<Rightarrow> bool" where
  "within_ttl now stamp ttl \<longleftrightarrow> 0 \<le> num_seconds (now - stamp) \<and> num_seconds (now - stamp) < int ttl"

lemma within_ttl_iff:
  "stamp \<le> now \<Longrightarrow> within_ttl now stamp ttl \<longleftrightarrow> now < stamp + int ttl * 1000000000"
  by (auto simp: within_ttl_def num_seconds_def)

lemma within_ttl_age: "within_ttl now stamp ttl \<Longrightarrow> now < stamp + int ttl * 1000000000 + 1000000000 \<and> stamp < now + 1000000000"
  by (auto simp: within_ttl_def num_seconds_def split: if_splits)

end
