(* ===== verification/Jwks.thy ===== *)
theory Jwks
  imports Json Request
begin

text \<open>
  \<open>crates/sts/src/jwks.rs\<close>: the keys of an identity provider, the verification of a token
  against one of them, and the cache in front of the provider.  HTTP, base64, the JSON readers
  and RSA are parameters; the cache is a state whose two maps sit behind separate locks, so an
  exchange is a check and, on a miss, a completion that any other exchange may precede.
\<close>

record jwk_key =
  jk_kid :: string
  jk_kty :: string
  jk_alg :: "string option"
  jk_n :: "string option"
  jk_e :: "string option"
  jk_use :: "string option"

record jwks_response =
  jw_keys :: "jwk_key list"

record 'pk jwt_libs =
  jl_http_get :: "string \<Rightarrow> string + string"
  jl_read_json :: "string \<Rightarrow> string + json"
  jl_read_jwks :: "string \<Rightarrow> string + jwks_response"
  jl_b64url_decode :: "string \<Rightarrow> string + string"
  jl_rsa_new :: "string \<Rightarrow> string \<Rightarrow> string + 'pk"
  jl_signature :: "string \<Rightarrow> string + string"
  jl_rsa_verify :: "'pk \<Rightarrow> string \<Rightarrow> string \<Rightarrow> string + unit"

definition fetch_jwks :: "'pk jwt_libs \<Rightarrow> string \<Rightarrow> proxy_error + jwks_response" where
  "fetch_jwks jl url =
     (let issuer = trim_end_matches CHR ''/'' url in
      if \<not> starts_with issuer ''https://''
      then Inl (ConfigError (''OIDC issuer must use HTTPS: '' @ issuer))
      else
       (case jl_http_get jl (issuer @ ''/.well-known/openid-configuration'') of
          Inl e \<Rightarrow> Inl (InvalidOidcToken (''failed to fetch OIDC config: '' @ e))
        | Inr config_resp \<Rightarrow>
       (case jl_read_json jl config_resp of
          Inl e \<Rightarrow> Inl (InvalidOidcToken (''invalid OIDC config: '' @ e))
        | Inr config \<Rightarrow>
       (case json_str config ''jwks_uri'' of
          None \<Rightarrow> Inl (InvalidOidcToken ''OIDC config missing jwks_uri'')
        | Some jwks_uri \<Rightarrow>
       (case jl_http_get jl jwks_uri of
          Inl e \<Rightarrow> Inl (InvalidOidcToken (''failed to fetch JWKS: '' @ e))
        | Inr jwks_resp \<Rightarrow>
            map_error (\<lambda>e. InvalidOidcToken (''invalid JWKS: '' @ e)) (jl_read_jwks jl jwks_resp))))))"

definition find_key :: "jwks_response \<Rightarrow> string \<Rightarrow> proxy_error + jwk_key" where
  "find_key jwks kid =
     ok_or (InvalidOidcToken (''key '' @ [CHR 0x27] @ kid @ [CHR 0x27] @ '' not found in JWKS''))
       (List.find (\<lambda>k. jk_kid k = kid) (jw_keys jwks))"

definition base64url_decode :: "'pk jwt_libs \<Rightarrow> string \<Rightarrow> proxy_error + string" where
  "base64url_decode jl input =
     map_error (\<lambda>e. InvalidOidcToken (''base64url decode error: '' @ e)) (jl_b64url_decode jl input)"

definition decode_jwt_segment :: "'pk jwt_libs \<Rightarrow> string \<Rightarrow> proxy_error + json" where
  "decode_jwt_segment jl segment =
     (case base64url_decode jl segment of
        Inl e \<Rightarrow> Inl e
      | Inr bytes \<Rightarrow> map_error (\<lambda>e. InvalidOidcToken (''invalid JWT JSON: '' @ e)) (jl_read_json jl bytes))"

definition rsa_public_key_from_components ::
  "'pk jwt_libs \<Rightarrow> string \<Rightarrow> string \<Rightarrow> proxy_error + 'pk" where
  "rsa_public_key_from_components jl n e =
     (case base64url_decode jl n of
        Inl err \<Rightarrow> Inl err
      | Inr n_bytes \<Rightarrow>
         (case base64url_decode jl e of
            Inl err \<Rightarrow> Inl err
          | Inr e_bytes \<Rightarrow>
              map_error (\<lambda>x. InvalidOidcToken (''invalid RSA key: '' @ x)) (jl_rsa_new jl n_bytes e_bytes)))"

definition audience_allowed :: "json option \<Rightarrow> string list \<Rightarrow> bool" where
  "audience_allowed aud_claim accepted =
     (if accepted = [] then False
      else case aud_claim of
             Some (JString aud) \<Rightarrow> list_ex (\<lambda>a. a = aud) accepted
           | Some (JArray auds) \<Rightarrow>
               list_ex (\<lambda>a. case as_str a of None \<Rightarrow> False | Some s \<Rightarrow> list_ex (\<lambda>x. x = s) accepted) auds
           | _ \<Rightarrow> False)"

definition debug_strs :: "string list \<Rightarrow> string" where
  "debug_strs xs = ''['' @ join_with '', '' (map debug_str xs) @ '']''"

definition clock_skew_secs :: int where
  "clock_skew_secs = 60"

definition validate_claims ::
  "json \<Rightarrow> json \<Rightarrow> string \<Rightarrow> role_config \<Rightarrow> int \<Rightarrow> proxy_error + unit" where
  "validate_claims header claims issuer role now =
     (let typ = json_str header ''typ'';
          token_issuer = the_or [] (json_str claims ''iss'') in
      if typ \<noteq> None \<and> \<not> eq_ignore_ascii_case (the typ) ''JWT''
      then Inl (InvalidOidcToken (''unsupported token type: '' @ the typ))
      else if token_issuer \<noteq> issuer
      then Inl (InvalidOidcToken (''issuer mismatch: expected '' @ issuer @ '', got '' @ token_issuer))
      else if \<not> audience_allowed (json_get claims ''aud'') (required_audiences role)
      then Inl (InvalidOidcToken (''audience mismatch: expected one of '' @ debug_strs (required_audiences role)))
      else
        (case (case json_i64 claims ''exp'' of
                 Some t \<Rightarrow>
                   if now > wrap_i64 (t + clock_skew_secs)
                   then Some (InvalidOidcToken ''token has expired'') else None
               | None \<Rightarrow>
                   if \<not> list_ex (\<lambda>i. i = issuer) (allow_missing_exp_from role)
                   then Some (InvalidOidcToken ''token has no exp claim'') else None) of
           Some e \<Rightarrow> Inl e
         | None \<Rightarrow>
            (case json_i64 claims ''nbf'' of
               Some nbf \<Rightarrow>
                 if now < wrap_i64 (nbf - clock_skew_secs)
                 then Inl (InvalidOidcToken ''token is not yet valid'') else Inr ()
             | None \<Rightarrow> Inr ())))"

definition verify_token ::
  "'pk jwt_libs \<Rightarrow> int \<Rightarrow> string \<Rightarrow> jwk_key \<Rightarrow> string \<Rightarrow> role_config \<Rightarrow> proxy_error + json" where
  "verify_token jl now token key issuer role =
     (case jk_n key of None \<Rightarrow> Inl (InvalidOidcToken (''JWK missing '' @ [CHR 0x27] @ ''n'' @ [CHR 0x27] @ '' component''))
      | Some n \<Rightarrow>
     (case jk_e key of None \<Rightarrow> Inl (InvalidOidcToken (''JWK missing '' @ [CHR 0x27] @ ''e'' @ [CHR 0x27] @ '' component''))
      | Some e \<Rightarrow>
     (case splitn 3 CHR ''.'' token of
        [header_b64, payload_b64, signature_b64] \<Rightarrow>
         (case decode_jwt_segment jl header_b64 of
            Inl er \<Rightarrow> Inl er
          | Inr header \<Rightarrow>
             (let alg = the_or [] (json_str header ''alg'') in
              if alg \<noteq> ''RS256'' then Inl (InvalidOidcToken (''unsupported JWT algorithm: '' @ alg))
              else case rsa_public_key_from_components jl n e of
                Inl er \<Rightarrow> Inl er
              | Inr public_key \<Rightarrow>
             (case base64url_decode jl signature_b64 of
                Inl er \<Rightarrow> Inl er
              | Inr signature_bytes \<Rightarrow>
             (case jl_signature jl signature_bytes of
                Inl er \<Rightarrow> Inl (InvalidOidcToken (''invalid signature: '' @ er))
              | Inr signature \<Rightarrow>
             (case jl_rsa_verify jl public_key (header_b64 @ ''.'' @ payload_b64) signature of
                Inl er \<Rightarrow> Inl (InvalidOidcToken (''JWT signature verification failed: '' @ er))
              | Inr _ \<Rightarrow>
             (case decode_jwt_segment jl payload_b64 of
                Inl er \<Rightarrow> Inl er
              | Inr claims \<Rightarrow>
                 (case validate_claims header claims issuer role now of
                    Inl er \<Rightarrow> Inl er
                  | Inr _ \<Rightarrow> Inr claims)))))))
      | _ \<Rightarrow> Inl (InvalidOidcToken ''malformed JWT''))))"

subsection \<open>The cache\<close>

record jwks_cache =
  kc_ttl :: nat
  kc_failure_ttl :: nat
  kc_entries :: "string \<rightharpoonup> int \<times> jwks_response"
  kc_failures :: "string \<rightharpoonup> int"

definition new_jwks_cache :: "nat \<Rightarrow> jwks_cache" where
  "new_jwks_cache ttl = \<lparr>kc_ttl = ttl, kc_failure_ttl = 30, kc_entries = Map.empty, kc_failures = Map.empty\<rparr>"

definition get_cached :: "jwks_cache \<Rightarrow> int \<Rightarrow> string \<Rightarrow> jwks_response option" where
  "get_cached c now issuer =
     (case kc_entries c issuer of
        None \<Rightarrow> None
      | Some (fetched_at, jwks) \<Rightarrow> if within_ttl now fetched_at (kc_ttl c) then Some jwks else None)"

definition backoff_error :: "string \<Rightarrow> proxy_error" where
  "backoff_error issuer = InvalidOidcToken (''JWKS fetch for '' @ [CHR 0x27] @ issuer @ [CHR 0x27]
     @ '' recently failed, retrying after backoff'')"

text \<open>The check: an answer without the network, or \<open>None\<close> for a fetch.\<close>

definition check_cache :: "jwks_cache \<Rightarrow> int \<Rightarrow> int \<Rightarrow> string \<Rightarrow> (proxy_error + jwks_response) option" where
  "check_cache c now now' issuer =
     (case get_cached c now issuer of
        Some jwks \<Rightarrow> Some (Inr jwks)
      | None \<Rightarrow>
         (case kc_failures c issuer of
            Some failed_at \<Rightarrow>
              if within_ttl now' failed_at (kc_failure_ttl c) then Some (Inl (backoff_error issuer)) else None
          | None \<Rightarrow> None))"

text \<open>The completion of a fetch at time \<open>now\<close>.\<close>

fun store_fetched :: "jwks_cache \<Rightarrow> int \<Rightarrow> string \<Rightarrow> proxy_error + jwks_response \<Rightarrow> jwks_cache" where
  "store_fetched c now issuer (Inr jwks) =
     c\<lparr>kc_entries := (kc_entries c)(issuer \<mapsto> (now, jwks)), kc_failures := (kc_failures c)(issuer := None)\<rparr>"
| "store_fetched c now issuer (Inl e) = c\<lparr>kc_failures := (kc_failures c)(issuer \<mapsto> now)\<rparr>"

definition get_or_fetch ::
  "jwks_cache \<Rightarrow> int \<Rightarrow> int \<Rightarrow> int \<Rightarrow> (string \<Rightarrow> proxy_error + jwks_response) \<Rightarrow> string
   \<Rightarrow> jwks_cache \<times> (proxy_error + jwks_response)" where
  "get_or_fetch c now now' done_at fetch issuer =
     (case check_cache c now now' issuer of
        Some r \<Rightarrow> (c, r)
      | None \<Rightarrow> (store_fetched c done_at issuer (fetch issuer), fetch issuer))"

subsection \<open>Token verification\<close>

lemma audience_allowed_iff:
  "audience_allowed aud accepted \<longleftrightarrow>
     (\<exists>a \<in> set accepted. aud = Some (JString a) \<or> (\<exists>auds. aud = Some (JArray auds) \<and> JString a \<in> set auds))"
proof -
  have arr: "list_ex (\<lambda>a. case as_str a of None \<Rightarrow> False | Some s \<Rightarrow> list_ex (\<lambda>x. x = s) accepted) auds
      \<longleftrightarrow> (\<exists>a \<in> set accepted. JString a \<in> set auds)" for auds
  proof (induction auds)
    case (Cons j auds)
    then show ?case by (cases j) (auto simp: list_ex_iff)
  qed simp
  show ?thesis
    unfolding audience_allowed_def arr by (auto simp: list_ex_iff split: option.split json.split)
qed

text \<open>The four parts of a claims check, each without the arithmetic of the code.\<close>

definition typ_accepted :: "json \<Rightarrow> bool" where
  "typ_accepted header \<longleftrightarrow> (\<forall>t. json_str header ''typ'' = Some t \<longrightarrow> eq_ignore_ascii_case t ''JWT'')"

definition expiry_accepted :: "json \<Rightarrow> string \<Rightarrow> role_config \<Rightarrow> int \<Rightarrow> bool" where
  "expiry_accepted claims issuer role now \<longleftrightarrow>
     (case json_i64 claims ''exp'' of
        Some t \<Rightarrow> now \<le> t + 60 \<and> i64_range (t + 60)
      | None \<Rightarrow> issuer \<in> set (allow_missing_exp_from role))"

definition not_before_accepted :: "json \<Rightarrow> int \<Rightarrow> bool" where
  "not_before_accepted claims now \<longleftrightarrow>
     (\<forall>t. json_i64 claims ''nbf'' = Some t \<longrightarrow> t - 60 \<le> now \<and> i64_range (t - 60))"

lemma json_i64_range: "json_i64 j k = Some t \<Longrightarrow> i64_range t"
proof -
  assume "json_i64 j k = Some t"
  then obtain v where "as_i64 v = Some t" by (auto simp: json_i64_def bind_eq_Some_conv)
  then show ?thesis by (cases v) (auto split: if_splits)
qed

lemma wrap_exp:
  "i64_range t \<Longrightarrow> 0 \<le> now \<Longrightarrow> now < 2 ^ 63 - 60 \<Longrightarrow>
     now \<le> wrap_i64 (t + 60) \<longleftrightarrow> now \<le> t + 60 \<and> i64_range (t + 60)"
  using wrap_i64_above [of "t + 60"] wrap_i64_id [of "t + 60"]
  by (cases "i64_range (t + 60)") (auto simp: i64_range_def)

lemma wrap_nbf:
  "i64_range t \<Longrightarrow> 0 \<le> now \<Longrightarrow> now < 2 ^ 63 - 60 \<Longrightarrow>
     wrap_i64 (t - 60) \<le> now \<longleftrightarrow> t - 60 \<le> now \<and> i64_range (t - 60)"
  using wrap_i64_below [of "t - 60"] wrap_i64_id [of "t - 60"]
  by (cases "i64_range (t - 60)") (auto simp: i64_range_def)

lemma validate_claims_iff:
  assumes "0 \<le> now" "now < 2 ^ 63 - 60"
  shows "validate_claims header claims issuer role now = Inr () \<longleftrightarrow>
     typ_accepted header \<and> the_or [] (json_str claims ''iss'') = issuer \<and>
     audience_allowed (json_get claims ''aud'') (required_audiences role) \<and>
     expiry_accepted claims issuer role now \<and> not_before_accepted claims now"
proof -
  have e: "now > wrap_i64 (t + clock_skew_secs) \<longleftrightarrow> \<not> (now \<le> t + 60 \<and> i64_range (t + 60))"
    if "json_i64 claims ''exp'' = Some t" for t
    using wrap_exp [OF json_i64_range [OF that] assms] by (auto simp: clock_skew_secs_def)
  have n: "now < wrap_i64 (t - clock_skew_secs) \<longleftrightarrow> \<not> (t - 60 \<le> now \<and> i64_range (t - 60))"
    if "json_i64 claims ''nbf'' = Some t" for t
    using wrap_nbf [OF json_i64_range [OF that] assms] by (auto simp: clock_skew_secs_def)
  show ?thesis
    unfolding validate_claims_def typ_accepted_def expiry_accepted_def not_before_accepted_def Let_def
    by (auto simp: e n list_ex_iff split: option.splits)
qed

lemma verify_token_iff:
  "verify_token jl now token key issuer role = Inr claims \<longleftrightarrow>
     (\<exists>n e hd pl sg header pk sgb signature.
        jk_n key = Some n \<and> jk_e key = Some e \<and> splitn 3 CHR ''.'' token = [hd, pl, sg] \<and>
        decode_jwt_segment jl hd = Inr header \<and> json_str header ''alg'' = Some ''RS256'' \<and>
        rsa_public_key_from_components jl n e = Inr pk \<and> base64url_decode jl sg = Inr sgb \<and>
        jl_signature jl sgb = Inr signature \<and>
        jl_rsa_verify jl pk (hd @ ''.'' @ pl) signature = Inr () \<and>
        decode_jwt_segment jl pl = Inr claims \<and>
        validate_claims header claims issuer role now = Inr ())" (is "?L \<longleftrightarrow> ?R")
proof
  assume ?L
  then show ?R
    unfolding verify_token_def Let_def
    by (cases "json_str (projr (decode_jwt_segment jl (hd (splitn 3 CHR ''.'' token)))) ''alg''")
      (auto split: option.splits list.splits sum.splits if_splits)
qed (auto simp: verify_token_def Let_def)

subsection \<open>Runs of the cache\<close>

text \<open>
  What a cache shared by concurrent exchanges goes through, newest event first.  Any exchange
  may run between the start of a fetch and its completion; the clock does not go back.
\<close>

datatype cache_event =
    Served string jwks_response int
  | Refused string int
  | Started string int
  | Finished string "proxy_error + jwks_response" int

fun event_time :: "cache_event \<Rightarrow> int" where
  "event_time (Served _ _ t) = t"
| "event_time (Refused _ t) = t"
| "event_time (Started _ t) = t"
| "event_time (Finished _ _ t) = t"

definition in_flight :: "cache_event list \<Rightarrow> string \<Rightarrow> bool" where
  "in_flight l i \<longleftrightarrow> length (filter (\<lambda>e. case e of Finished j _ _ \<Rightarrow> j = i | _ \<Rightarrow> False) l)
     < length (filter (\<lambda>e. case e of Started j _ \<Rightarrow> j = i | _ \<Rightarrow> False) l)"

definition not_before_log :: "int \<Rightarrow> cache_event list \<Rightarrow> bool" where
  "not_before_log now l \<longleftrightarrow> (\<forall>e \<in> set l. event_time e \<le> now)"

inductive cache_run :: "nat \<Rightarrow> cache_event list \<Rightarrow> jwks_cache \<Rightarrow> bool" for ttl where
  run_new: "cache_run ttl [] (new_jwks_cache ttl)"
| run_serve: "cache_run ttl l c \<Longrightarrow> not_before_log now l \<Longrightarrow> now \<le> now' \<Longrightarrow>
    check_cache c now now' i = Some (Inr j) \<Longrightarrow> cache_run ttl (Served i j now # l) c"
| run_refuse: "cache_run ttl l c \<Longrightarrow> not_before_log now l \<Longrightarrow> now \<le> now' \<Longrightarrow>
    check_cache c now now' i = Some (Inl e) \<Longrightarrow> cache_run ttl (Refused i now' # l) c"
| run_start: "cache_run ttl l c \<Longrightarrow> not_before_log now l \<Longrightarrow> now \<le> now' \<Longrightarrow>
    check_cache c now now' i = None \<Longrightarrow> cache_run ttl (Started i now' # l) c"
| run_finish: "cache_run ttl l c \<Longrightarrow> not_before_log now l \<Longrightarrow> in_flight l i \<Longrightarrow>
    cache_run ttl (Finished i r now # l) (store_fetched c now i r)"

inductive_cases run_serveE: "cache_run ttl (Served i j t # l) c"
inductive_cases run_startE: "cache_run ttl (Started i t # l) c"

text \<open>The last success and the last completion of an issuer, read off the history.\<close>

fun last_success :: "cache_event list \<Rightarrow> string \<Rightarrow> (int \<times> jwks_response) option" where
  "last_success [] i = None"
| "last_success (Finished k (Inr j) t # l) i = (if k = i then Some (t, j) else last_success l i)"
| "last_success (_ # l) i = last_success l i"

fun last_failure :: "cache_event list \<Rightarrow> string \<Rightarrow> int option" where
  "last_failure [] i = None"
| "last_failure (Finished k (Inr j) t # l) i = (if k = i then None else last_failure l i)"
| "last_failure (Finished k (Inl e) t # l) i = (if k = i then Some t else last_failure l i)"
| "last_failure (_ # l) i = last_failure l i"

lemma cache_run_state:
  "cache_run ttl l c \<Longrightarrow>
     kc_ttl c = ttl \<and> kc_failure_ttl c = 30 \<and> kc_entries c = last_success l \<and> kc_failures c = last_failure l"
proof (induction rule: cache_run.induct)
  case (run_finish l c now i r)
  then show ?case by (cases r) (auto simp: fun_eq_iff)
qed (auto simp: new_jwks_cache_def fun_eq_iff)

lemma last_success_in: "last_success l i = Some (t, j) \<Longrightarrow> Finished i (Inr j) t \<in> set l"
  by (induction l i rule: last_success.induct) (auto split: if_splits)

lemma last_failure_in: "last_failure l i = Some t \<Longrightarrow> \<exists>e. Finished i (Inl e) t \<in> set l"
  by (induction l i rule: last_failure.induct) (auto split: if_splits)

lemma cache_run_finished_le:
  "cache_run ttl l c \<Longrightarrow> Finished i (Inr j) t \<in> set l \<Longrightarrow> \<exists>t' j'. last_success l i = Some (t', j') \<and> t \<le> t'"
proof (induction arbitrary: t j rule: cache_run.induct)
  case (run_finish l c now k r)
  from run_finish.prems consider "Finished i (Inr j) t \<in> set l" | "k = i" "r = Inr j" "t = now" by auto
  then show ?case
  proof cases
    case 1
    with run_finish obtain t' j' where "last_success l i = Some (t', j')" "t \<le> t'" by blast
    moreover from 1 run_finish.hyps(2) have "t \<le> now" by (auto simp: not_before_log_def)
    ultimately show ?thesis by (cases r) auto
  qed auto
qed auto

lemma check_cache_served:
  "check_cache c now now' i = Some (Inr j) \<longleftrightarrow>
     (\<exists>t. kc_entries c i = Some (t, j) \<and> within_ttl now t (kc_ttl c))"
  by (auto simp: check_cache_def get_cached_def split: option.splits if_splits)

lemma check_cache_miss:
  "check_cache c now now' i = None \<longleftrightarrow>
     (\<forall>t j. kc_entries c i = Some (t, j) \<longrightarrow> \<not> within_ttl now t (kc_ttl c)) \<and>
     (\<forall>t. kc_failures c i = Some t \<longrightarrow> \<not> within_ttl now' t (kc_failure_ttl c))"
  by (auto simp: check_cache_def get_cached_def split: option.splits if_splits)

lemma cache_run_served_fresh:
  assumes "cache_run ttl (Served i j now # l) c"
  shows "\<exists>t. Finished i (Inr j) t \<in> set l \<and> t \<le> now \<and> now < t + int ttl * 1000000000"
proof -
  from assms obtain c0 now' where r: "cache_run ttl l c0" "not_before_log now l"
      "check_cache c0 now now' i = Some (Inr j)"
    by (auto elim: run_serveE)
  from r(3) cache_run_state [OF r(1)] obtain t where t: "last_success l i = Some (t, j)"
      "within_ttl now t ttl"
    by (auto simp: check_cache_served)
  from last_success_in [OF t(1)] r(2) have "t \<le> now" by (auto simp: not_before_log_def)
  with t last_success_in [OF t(1)] show ?thesis by (auto simp: within_ttl_iff)
qed

lemma cache_run_start_due:
  assumes "cache_run ttl (Started i now # l) c"
  shows "(\<forall>j t. Finished i (Inr j) t \<in> set l \<longrightarrow> t + int ttl * 1000000000 \<le> now)
    \<and> (\<forall>t. last_failure l i = Some t \<longrightarrow> t + 30 * 1000000000 \<le> now)"
proof -
  from assms obtain now0 c0 where r: "cache_run ttl l c0" "not_before_log now0 l" "now0 \<le> now"
      "check_cache c0 now0 now i = None"
    by (auto elim: run_startE)
  note st = cache_run_state [OF r(1)]
  have "t + int ttl * 1000000000 \<le> now" if f: "Finished i (Inr j) t \<in> set l" for j t
  proof -
    obtain t' j' where t': "last_success l i = Some (t', j')" "t \<le> t'"
      using cache_run_finished_le [OF r(1) f] by blast
    with last_success_in [OF t'(1)] r(2) have "t' \<le> now0" by (auto simp: not_before_log_def)
    with r(4) st t' have "t' + int ttl * 1000000000 \<le> now0"
      by (auto simp: check_cache_miss within_ttl_iff not_less)
    with t' r(3) show ?thesis by linarith
  qed
  moreover have "t + 30 * 1000000000 \<le> now" if f: "last_failure l i = Some t" for t
  proof -
    from last_failure_in [OF f] r(2,3) have "t \<le> now" by (fastforce simp: not_before_log_def)
    with r(4) st f show ?thesis by (auto simp: check_cache_miss within_ttl_iff not_less)
  qed
  ultimately show ?thesis by blast
qed

subsection \<open>Properties\<close>

text \<open>
  C11. The claims a verification returns are the ones the signature covers: the token splits into
  header, payload and signature, the header says RS256, the key built from the given JWK verifies
  the signature over exactly \<open>header.payload\<close>, and the claims are that payload and passed the
  claims check.  A token with any other algorithm, \<open>none\<close> included, is never accepted.
\<close>

theorem verified_claims_are_signed:
  "verify_token jl now token key issuer role = Inr claims \<longleftrightarrow>
     (\<exists>n e hd pl sg header pk sgb signature.
        jk_n key = Some n \<and> jk_e key = Some e \<and> token = hd @ ''.'' @ pl @ ''.'' @ sg \<and>
        CHR ''.'' \<notin> set hd \<and> CHR ''.'' \<notin> set pl \<and>
        decode_jwt_segment jl hd = Inr header \<and> json_str header ''alg'' = Some ''RS256'' \<and>
        rsa_public_key_from_components jl n e = Inr pk \<and> base64url_decode jl sg = Inr sgb \<and>
        jl_signature jl sgb = Inr signature \<and>
        jl_rsa_verify jl pk (hd @ ''.'' @ pl) signature = Inr () \<and>
        decode_jwt_segment jl pl = Inr claims \<and>
        validate_claims header claims issuer role now = Inr ())"
  unfolding verify_token_iff splitn_3_iff by simp

text \<open>
  A claims set is accepted exactly when the header does not claim another token type, the
  issuer is the expected one, some accepted audience is among the audiences, the token is within
  its validity with a minute of skew, and only an issuer the role vouches for leaves out the
  expiration.  A role without audiences accepts nothing, and an \<open>exp\<close> or \<open>nbf\<close> at the end of
  the \<open>i64\<close> range, where adding the skew wraps around, is refused.
\<close>

theorem claims_accepted_iff:
  assumes "0 \<le> now" "now < 2 ^ 63 - 60"
  shows "validate_claims header claims issuer role now = Inr () \<longleftrightarrow>
     typ_accepted header \<and> the_or [] (json_str claims ''iss'') = issuer \<and>
     (\<exists>a \<in> set (required_audiences role). json_get claims ''aud'' = Some (JString a) \<or>
        (\<exists>auds. json_get claims ''aud'' = Some (JArray auds) \<and> JString a \<in> set auds)) \<and>
     expiry_accepted claims issuer role now \<and> not_before_accepted claims now"
  unfolding validate_claims_iff [OF assms] audience_allowed_iff ..

definition demo_role :: role_config where
  "demo_role = \<lparr>role_id = ''ci'', role_name = ''ci'', trusted_oidc_issuers = [''https://i''],
     required_audiences = [''s3''], subject_conditions = [''repo:a/*''], allow_missing_exp_from = [],
     role_allowed_scopes = [\<lparr>sc_bucket = ''data'', sc_prefixes = [''{org}/''], sc_actions = [ActGetObject]\<rparr>],
     max_session_duration_secs = 3600\<rparr>"

theorem claims_accepted_iff_witness:
  "validate_claims JNull (JObject [(''iss'', JString ''https://i''), (''aud'', JArray [JString ''s3'']),
     (''exp'', JInt 1000)]) ''https://i'' demo_role 1060 = Inr ()"
  unfolding claims_accepted_iff [of 1060, simplified]
  by (simp add: demo_role_def typ_accepted_def expiry_accepted_def not_before_accepted_def json_str_def
      json_i64_def i64_range_def)

text \<open>
  C10. The key cache: under any interleaving of exchanges, a key set is served only from a
  successful fetch of that very issuer younger than the lifetime, and a fetch starts only when
  every success so far is older than that and the last fetch, if it failed, failed at least
  thirty seconds ago.
\<close>

theorem key_cache_fresh_and_rate_limited:
  "(cache_run ttl (Served i j now # l) c \<longrightarrow>
      (\<exists>t. Finished i (Inr j) t \<in> set l \<and> t \<le> now \<and> now < t + int ttl * 1000000000))
   \<and> (cache_run ttl (Started i now # l) c \<longrightarrow>
      (\<forall>j t. Finished i (Inr j) t \<in> set l \<longrightarrow> t + int ttl * 1000000000 \<le> now)
      \<and> (\<forall>t. last_failure l i = Some t \<longrightarrow> t + 30 * 1000000000 \<le> now))"
  using cache_run_served_fresh cache_run_start_due by blast

definition demo_run :: "cache_event list" where
  "demo_run = [Served ''i'' \<lparr>jw_keys = []\<rparr> 7, Finished ''i'' (Inr \<lparr>jw_keys = []\<rparr>) 5, Started ''i'' 2]"

lemma demo_cache_run: "\<exists>c. cache_run 60 demo_run c"
proof -
  have a: "cache_run 60 [Started ''i'' 2] (new_jwks_cache 60)"
    by (rule run_start [OF run_new, of 1 2])
      (auto simp: not_before_log_def check_cache_def get_cached_def new_jwks_cache_def)
  have b: "cache_run 60 [Finished ''i'' (Inr \<lparr>jw_keys = []\<rparr>) 5, Started ''i'' 2]
      (store_fetched (new_jwks_cache 60) 5 ''i'' (Inr \<lparr>jw_keys = []\<rparr>))"
    by (rule run_finish [OF a]) (auto simp: not_before_log_def in_flight_def)
  have "cache_run 60 demo_run (store_fetched (new_jwks_cache 60) 5 ''i'' (Inr \<lparr>jw_keys = []\<rparr>))"
    unfolding demo_run_def
    by (rule run_serve [OF b, of 7 7])
      (auto simp: not_before_log_def check_cache_served new_jwks_cache_def within_ttl_def num_seconds_def)
  then show ?thesis ..
qed

theorem key_cache_fresh_and_rate_limited_witness:
  "\<exists>t. Finished ''i'' (Inr \<lparr>jw_keys = []\<rparr>) t \<in> set (tl demo_run) \<and> t \<le> 7 \<and> 7 < t + 60 * 1000000000"
  using demo_cache_run key_cache_fresh_and_rate_limited
    [of 60 "''i''" "\<lparr>jw_keys = []\<rparr>" 7 "tl demo_run"]
  by (auto simp: demo_run_def)

end
