(* ===== verification/Sts.thy ===== *)
theory Sts
  imports SealedToken Jwks Authorize
begin

text \<open>
  \<open>crates/sts/src\<close>: \<open>lib.rs\<close> (AssumeRoleWithWebIdentity, subject conditions), \<open>sts.rs\<close> (scope
  templates, minting) and \<open>route_handler.rs\<close>.  The key cache is the state of the exchange; the
  clock readings and the bytes drawn from the operating system are inputs of one call.  A panic
  (\<open>clamp\<close> with its bounds crossed, a chrono overflow) is a value, a template that never stops
  expanding the value \<open>None\<close>.
\<close>

subsection \<open>Subject conditions (lib.rs)\<close>

fun match_middle :: "string list \<Rightarrow> string \<Rightarrow> string option" where
  "match_middle [] remaining = Some remaining"
| "match_middle (part # parts) remaining =
     (if part = [] then match_middle parts remaining
      else case split_once_str part remaining of
             Some (_, rest) \<Rightarrow> match_middle parts rest
           | None \<Rightarrow> None)"

definition subject_matches :: "string \<Rightarrow> string \<Rightarrow> bool" where
  "subject_matches subject pattern =
     (if pattern = ''*'' then True
      else
       (let parts = split_on CHR ''*'' pattern in
        if length parts = 1 then subject = pattern
        else case strip_prefix (parts ! 0) subject of
               None \<Rightarrow> False
             | Some remaining \<Rightarrow>
                (case match_middle (butlast (tl parts)) remaining of
                   None \<Rightarrow> False
                 | Some remaining \<Rightarrow>
                     (let lst = last parts in if lst \<noteq> [] then ends_with remaining lst else True))))"

definition subject_allowed :: "string \<Rightarrow> string list \<Rightarrow> bool" where
  "subject_allowed subject conditions = list_ex (subject_matches subject) conditions"

subsection \<open>Scope templates and minting (sts.rs)\<close>

definition missing_claim :: "string \<Rightarrow> proxy_error" where
  "missing_claim key = InvalidOidcToken (''token has no string claim '' @ [CHR 0x27] @ key @ [CHR 0x27]
     @ '', which an access scope requires'')"

partial_function (option) resolve_template :: "json \<Rightarrow> string \<Rightarrow> (proxy_error + string) option" where
  "resolve_template claims template =
     (case split_once CHR ''{'' template of
        None \<Rightarrow> Some (Inr template)
      | Some (before, rest) \<Rightarrow>
         (case split_once CHR ''}'' rest of
            None \<Rightarrow> Some (Inr template)
          | Some (key, after) \<Rightarrow>
             (case json_str claims key of
                None \<Rightarrow> Some (Inl (missing_claim key))
              | Some v \<Rightarrow> resolve_template claims (before @ v @ after))))"

text \<open>Collecting into a \<open>Result\<close>: the first error, or every value.\<close>

fun collect_results :: "('a \<Rightarrow> ('e + 'b) option) \<Rightarrow> 'a list \<Rightarrow> ('e + 'b list) option" where
  "collect_results f [] = Some (Inr [])"
| "collect_results f (x # xs) =
     (case f x of
        None \<Rightarrow> None
      | Some (Inl e) \<Rightarrow> Some (Inl e)
      | Some (Inr y) \<Rightarrow>
         (case collect_results f xs of
            None \<Rightarrow> None
          | Some (Inl e) \<Rightarrow> Some (Inl e)
          | Some (Inr ys) \<Rightarrow> Some (Inr (y # ys))))"

definition resolve_scope :: "json \<Rightarrow> access_scope \<Rightarrow> (proxy_error + access_scope) option" where
  "resolve_scope claims scope =
     (case resolve_template claims (sc_bucket scope) of
        None \<Rightarrow> None
      | Some (Inl e) \<Rightarrow> Some (Inl e)
      | Some (Inr bucket) \<Rightarrow>
         (case collect_results (resolve_template claims) (sc_prefixes scope) of
            None \<Rightarrow> None
          | Some (Inl e) \<Rightarrow> Some (Inl e)
          | Some (Inr ps) \<Rightarrow>
              Some (Inr \<lparr>sc_bucket = bucket, sc_prefixes = ps, sc_actions = sc_actions scope\<rparr>)))"

definition resolve_scopes :: "access_scope list \<Rightarrow> json \<Rightarrow> (proxy_error + access_scope list) option" where
  "resolve_scopes scopes claims = collect_results (resolve_scope claims) scopes"

definition generate_random_id :: "(string \<Rightarrow> string) \<Rightarrow> nat \<Rightarrow> string \<Rightarrow> string" where
  "generate_random_id encode len bytes = take len (filter is_ascii_alphanumeric (encode bytes))"

record mint_inputs =
  mt_id_bytes :: string
  mt_secret_bytes :: string
  mt_token_bytes :: string
  mt_now :: int

text \<open>
  \<open>add_seconds now n\<close> is \<open>now + Duration::seconds(n)\<close>, \<open>None\<close> where chrono panics.  The outer
  \<open>None\<close> is a template loop that does not end.
\<close>

definition mint_temporary_credentials ::
  "(string \<Rightarrow> string) \<Rightarrow> (int \<Rightarrow> int \<Rightarrow> int option) \<Rightarrow> mint_inputs \<Rightarrow> role_config \<Rightarrow> string \<Rightarrow> u64
   \<Rightarrow> string \<Rightarrow> json \<Rightarrow> temporary_credentials outcome option" where
  "mint_temporary_credentials encode add_seconds mi role source_identity duration key_prefix claims =
     (case resolve_scopes (role_allowed_scopes role) claims of
        None \<Rightarrow> None
      | Some (Inl e) \<Rightarrow> Some (Err e)
      | Some (Inr scopes) \<Rightarrow>
         (case add_seconds (mt_now mi) (sint duration) of
            None \<Rightarrow> Some Panic
          | Some expiration \<Rightarrow>
              Some (Ok \<lparr>tc_access_key_id = key_prefix @ generate_random_id encode 16 (mt_id_bytes mi),
                        tc_secret_access_key = generate_random_id encode 40 (mt_secret_bytes mi),
                        tc_session_token = encode (mt_token_bytes mi),
                        tc_expiration = expiration,
                        tc_allowed_scopes = scopes,
                        tc_assumed_role_id = role_id role,
                        tc_source_identity = source_identity\<rparr>)))"

subsection \<open>The exchange (lib.rs)\<close>

definition jwt_decode_unverified :: "'pk jwt_libs \<Rightarrow> string \<Rightarrow> proxy_error + (json \<times> json)" where
  "jwt_decode_unverified jl token =
     (case splitn 3 CHR ''.'' token of
        header_b64 # payload_b64 # _ \<Rightarrow>
         (case decode_jwt_segment jl header_b64 of
            Inl e \<Rightarrow> Inl e
          | Inr header \<Rightarrow>
             (case decode_jwt_segment jl payload_b64 of
                Inl e \<Rightarrow> Inl e
              | Inr claims \<Rightarrow> Inr (header, claims)))
      | _ \<Rightarrow> Inl (InvalidOidcToken ''malformed JWT''))"

definition min_session_duration_secs :: u64 where
  "min_session_duration_secs = 900"

text \<open>\<open>Ord::clamp\<close> panics when its bounds are the wrong way round.\<close>

definition session_duration :: "u64 option \<Rightarrow> u64 \<Rightarrow> u64 outcome" where
  "session_duration requested mx =
     (if mx < min_session_duration_secs then Panic
      else Ok (min (max (the_or 3600 requested) min_session_duration_secs) mx))"

record ('pk, 'key) sts_env =
  sv_jwt :: "'pk jwt_libs"
  sv_sealing :: "'key sealing"
  sv_add_seconds :: "int \<Rightarrow> int \<Rightarrow> int option"
  sv_form_parse :: "string \<Rightarrow> (string \<times> string) list"
  sv_xml :: "sts_doc \<Rightarrow> string option"
  sv_rfc3339 :: "int \<Rightarrow> string"
  sv_crypto :: crypto

record sts_inputs =
  si_now :: int
  si_now_failed :: int
  si_now_done :: int
  si_timestamp :: int
  si_mint :: mint_inputs
  si_nonce :: string

type_synonym role_lookup = "string \<Rightarrow> proxy_error + role_config option"

text \<open>From the verified claims on: subject, duration, minting and sealing.\<close>

definition issue_session ::
  "('pk, 'key) sts_env \<Rightarrow> sts_inputs \<Rightarrow> role_config \<Rightarrow> u64 option \<Rightarrow> string \<Rightarrow> 'key \<Rightarrow> json
   \<Rightarrow> temporary_credentials outcome option" where
  "issue_session sv si role requested key_prefix key claims =
     (let subject = the_or [] (json_str claims ''sub'') in
      if \<not> subject_allowed subject (subject_conditions role)
      then Some (Err (InvalidOidcToken (''subject '' @ [CHR 0x27] @ subject @ [CHR 0x27]
             @ '' does not match any conditions'')))
      else
       (case session_duration requested (max_session_duration_secs role) of
          Panic \<Rightarrow> Some Panic
        | Err e \<Rightarrow> Some (Err e)
        | Ok duration \<Rightarrow>
           (case mint_temporary_credentials (se_url_encode (sv_sealing sv)) (sv_add_seconds sv)
                   (si_mint si) role subject duration key_prefix claims of
              Some (Ok creds) \<Rightarrow>
                (case seal (sv_sealing sv) (si_nonce si) key creds of
                   Inl e \<Rightarrow> Some (Err e)
                 | Inr token \<Rightarrow> Some (Ok (creds\<lparr>tc_session_token := token\<rparr>)))
            | r \<Rightarrow> r)))"

definition assume_role_with_web_identity ::
  "('pk, 'key) sts_env \<Rightarrow> sts_inputs \<Rightarrow> role_lookup \<Rightarrow> sts_request \<Rightarrow> string \<Rightarrow> 'key \<Rightarrow> jwks_cache
   \<Rightarrow> jwks_cache \<times> temporary_credentials outcome option" where
  "assume_role_with_web_identity sv si get_role req key_prefix key c =
     (case get_role (sr_role_arn req) of
        Inl e \<Rightarrow> (c, Some (Err e))
      | Inr None \<Rightarrow> (c, Some (Err (RoleNotFound (sr_role_arn req))))
      | Inr (Some role) \<Rightarrow>
     (case jwt_decode_unverified (sv_jwt sv) (sr_web_identity_token req) of
        Inl e \<Rightarrow> (c, Some (Err e))
      | Inr (header, insecure_claims) \<Rightarrow>
     (case json_str insecure_claims ''iss'' of
        None \<Rightarrow> (c, Some (Err (InvalidOidcToken ''missing iss claim'')))
      | Some issuer \<Rightarrow>
          if \<not> list_ex (\<lambda>i. i = issuer) (trusted_oidc_issuers role)
          then (c, Some (Err (InvalidOidcToken (''untrusted issuer: '' @ issuer))))
          else
           (let alg = the_or [] (json_str header ''alg'') in
            if alg \<noteq> ''RS256''
            then (c, Some (Err (InvalidOidcToken (''unsupported JWT algorithm: '' @ alg))))
            else
             (case get_or_fetch c (si_now si) (si_now_failed si) (si_now_done si)
                     (fetch_jwks (sv_jwt sv)) issuer of
                (c', Inl e) \<Rightarrow> (c', Some (Err e))
              | (c', Inr jwks) \<Rightarrow>
                 (case json_str header ''kid'' of
                    None \<Rightarrow> (c', Some (Err (InvalidOidcToken ''JWT missing kid'')))
                  | Some kid \<Rightarrow>
                     (case find_key jwks kid of
                        Inl e \<Rightarrow> (c', Some (Err e))
                      | Inr jwk \<Rightarrow>
                         (case verify_token (sv_jwt sv) (si_timestamp si) (sr_web_identity_token req)
                                 jwk issuer role of
                            Inl e \<Rightarrow> (c', Some (Err e))
                          | Inr claims \<Rightarrow>
                              (c', issue_session sv si role (sr_duration_seconds req) key_prefix key
                                     claims)))))))))"

definition try_handle_sts ::
  "('pk, 'key) sts_env \<Rightarrow> sts_inputs \<Rightarrow> role_lookup \<Rightarrow> string option \<Rightarrow> string option \<Rightarrow> 'key option
   \<Rightarrow> jwks_cache \<Rightarrow> (jwks_cache \<times> (nat \<times> string) outcome option) option" where
  "try_handle_sts sv si get_role query form_body token_key c =
     (case (case try_parse_sts_request (sv_form_parse sv) query of
              Some r \<Rightarrow> Some r
            | None \<Rightarrow> try_parse_sts_request (sv_form_parse sv) form_body) of
        None \<Rightarrow> None
      | Some (Inl e) \<Rightarrow> Some (c, Some (Ok (build_sts_error_response e)))
      | Some (Inr req) \<Rightarrow>
         (case token_key of
            None \<Rightarrow> Some (c, Some (Ok (build_sts_error_response
                       (ConfigError ''STS requires SESSION_TOKEN_KEY to be configured''))))
          | Some key \<Rightarrow>
             (case assume_role_with_web_identity sv si get_role req ''STSPRXY'' key c of
                (c', None) \<Rightarrow> Some (c', None)
              | (c', Some Panic) \<Rightarrow> Some (c', Some Panic)
              | (c', Some (Err e)) \<Rightarrow> Some (c', Some (Ok (build_sts_error_response e)))
              | (c', Some (Ok creds)) \<Rightarrow>
                  Some (c', Some (Ok (build_sts_response (sv_xml sv) (sv_rfc3339 sv) creds))))))"

subsection \<open>The route handler\<close>

definition sts_handle ::
  "('pk, 'key) sts_env \<Rightarrow> sts_inputs \<Rightarrow> role_lookup \<Rightarrow> 'key option \<Rightarrow> int \<Rightarrow> jwks_cache \<Rightarrow> request_info
   \<Rightarrow> (jwks_cache \<times> proxy_result outcome option) option" where
  "sts_handle sv si get_role token_key now c req =
     (if is_get_caller_identity (sv_form_parse sv) (ri_query req)
        \<or> is_get_caller_identity (sv_form_parse sv) (ri_form_body req)
      then (case handle_get_caller_identity (sv_crypto sv) (sv_xml sv) req
                   (map_option (unseal (sv_sealing sv) now) token_key) of
              (status, xml) \<Rightarrow> Some (c, Some (Ok (xml_result status xml))))
      else
       (case try_handle_sts sv si get_role (ri_query req) (ri_form_body req) token_key c of
          None \<Rightarrow> None
        | Some (c', r) \<Rightarrow>
            Some (c', map_option (\<lambda>a. outcome_bind a (\<lambda>(status, xml). Ok (xml_result status xml))) r)))"

definition with_sts :: "'r matchit \<Rightarrow> 'r \<Rightarrow> string \<Rightarrow> route_handler \<Rightarrow> 'r outcome" where
  "with_sts mi router path handler =
     outcome_bind (router_route mi router path handler) (\<lambda>router.
       let with_slash = trim_end_matches CHR ''/'' path @ ''/'' in
       if with_slash = path then Ok router else router_route mi router with_slash handler)"

subsection \<open>The glob specification\<close>

text \<open>A star stands for any sequence of characters, everything else for itself.\<close>

fun glob_matches :: "string \<Rightarrow> string \<Rightarrow> bool" where
  "glob_matches [] s = (s = [])"
| "glob_matches (p # ps) [] = (p = CHR ''*'' \<and> glob_matches ps [])"
| "glob_matches (p # ps) (c # s) =
     (if p = CHR ''*'' then glob_matches ps (c # s) \<or> glob_matches (p # ps) s
      else c = p \<and> glob_matches ps s)"

lemma glob_literal:
  "CHR ''*'' \<notin> set l \<Longrightarrow> glob_matches (l @ p) s \<longleftrightarrow> (\<exists>r. s = l @ r \<and> glob_matches p r)"
proof (induction l arbitrary: s)
  case (Cons c l)
  then show ?case by (cases s) auto
qed simp

lemma glob_star: "glob_matches (CHR ''*'' # p) s \<longleftrightarrow> (\<exists>a r. s = a @ r \<and> glob_matches p r)"
proof (induction s)
  case Nil
  then show ?case by simp
next
  case (Cons c s)
  have "glob_matches (CHR ''*'' # p) (c # s) \<longleftrightarrow>
      glob_matches p (c # s) \<or> (\<exists>a r. s = a @ r \<and> glob_matches p r)"
    using Cons by simp
  also have "\<dots> \<longleftrightarrow> (\<exists>a r. c # s = a @ r \<and> glob_matches p r)"
    by (metis Cons_eq_append_conv append_Cons)
  finally show ?case .
qed

lemma glob_all: "glob_matches ''*'' s"
  by (simp add: glob_star)

text \<open>The pieces after the first star: each found in turn, the last one at the end.\<close>

fun parts_match :: "string list \<Rightarrow> string \<Rightarrow> bool" where
  "parts_match [] s = True"
| "parts_match [q] s = ends_with s q"
| "parts_match (q # q' # qs) s = (\<exists>a r. s = a @ q @ r \<and> parts_match (q' # qs) r)"

lemma parts_match_glob:
  "ps \<noteq> [] \<Longrightarrow> (\<And>x. x \<in> set ps \<Longrightarrow> CHR ''*'' \<notin> set x) \<Longrightarrow>
     glob_matches (CHR ''*'' # join_with ''*'' ps) s \<longleftrightarrow> parts_match ps s"
proof (induction ps arbitrary: s rule: induct_list012)
  case (2 q)
  then show ?case
    using glob_literal [of q "[]"] by (auto simp: glob_star ends_with_iff simp del: glob_matches.simps(3))
next
  case (3 q q' qs)
  have lit: "glob_matches (q @ CHR ''*'' # join_with ''*'' (q' # qs)) t \<longleftrightarrow>
      (\<exists>r. t = q @ r \<and> parts_match (q' # qs) r)" for t
    using 3 glob_literal [of q "CHR ''*'' # join_with ''*'' (q' # qs)" t] by auto
  have "glob_matches (CHR ''*'' # join_with ''*'' (q # q' # qs)) s \<longleftrightarrow>
      (\<exists>a t. s = a @ t \<and> glob_matches (q @ CHR ''*'' # join_with ''*'' (q' # qs)) t)"
    by (simp add: glob_star del: glob_matches.simps)
  then show ?case unfolding lit by auto
qed simp

lemma parts_match_mono: "parts_match ps r \<Longrightarrow> parts_match ps (x @ r)"
proof (induction ps r arbitrary: x rule: parts_match.induct)
  case (2 q s)
  then show ?case by (auto simp: ends_with_iff)
next
  case (3 q q' qs s)
  then obtain a r where "s = a @ q @ r" "parts_match (q' # qs) r" by auto
  then have "x @ s = (x @ a) @ q @ r" "parts_match (q' # qs) r" by simp_all
  then show ?case by (metis parts_match.simps(3))
qed simp

text \<open>Taking the leftmost occurrence loses no match.\<close>

lemma match_middle_parts:
  "(case match_middle qs s of None \<Rightarrow> False | Some r \<Rightarrow> ends_with r l) \<longleftrightarrow> parts_match (qs @ [l]) s"
proof (induction qs arbitrary: s)
  case (Cons q qs)
  obtain q' qs' where t: "qs @ [l] = q' # qs'" by (cases "qs @ [l]") auto
  have step: "parts_match ((q # qs) @ [l]) s \<longleftrightarrow> (\<exists>a r. s = a @ q @ r \<and> parts_match (qs @ [l]) r)"
    by (simp add: t)
  show ?case
  proof (cases "q = []")
    case True
    with Cons step show ?thesis by (auto intro: parts_match_mono)
  next
    case False
    show ?thesis
    proof (cases "split_once_str q s")
      case None
      with split_once_str_None [OF None] False step show ?thesis by auto
    next
      case (Some ab)
      obtain a b where ab: "split_once_str q s = Some (a, b)" using Some by (cases ab) auto
      have s: "s = a @ q @ b" by (rule split_once_str_sound [OF ab])
      have "parts_match (qs @ [l]) b" if "s = a' @ q @ r" "parts_match (qs @ [l]) r" for a' r
      proof -
        have "length a \<le> length a'" by (rule split_once_str_leftmost [OF ab that(1)])
        then have "length (a @ q) \<le> length (a' @ q)" by simp
        with s that(1) obtain x where "b = x @ r"
          by (metis append.assoc append_eq_append_conv_if append_take_drop_id)
        with that(2) show ?thesis by (simp add: parts_match_mono)
      qed
      with s step Cons [of b] ab False show ?thesis by auto
    qed
  qed
qed simp

lemma subject_matches_glob: "subject_matches subject pattern \<longleftrightarrow> glob_matches pattern subject"
proof (cases "pattern = ''*''")
  case True
  then show ?thesis using glob_all by (simp add: subject_matches_def)
next
  case False
  obtain p ps where parts: "split_on CHR ''*'' pattern = p # ps" by (cases "split_on CHR ''*'' pattern") auto
  have free: "CHR ''*'' \<notin> set x" if "x \<in> set (p # ps)" for x
    using split_on_pieces [of x "CHR ''*''" pattern] that parts by simp
  have pat: "pattern = join_with ''*'' (p # ps)" using join_with_split_on [of "CHR ''*''" pattern] parts by simp
  show ?thesis
  proof (cases ps)
    case Nil
    with pat free glob_literal [of p "[]" subject] have "glob_matches pattern subject \<longleftrightarrow> subject = pattern"
      by auto
    with False parts Nil show ?thesis by (simp add: subject_matches_def Let_def)
  next
    case (Cons q qs)
    have "glob_matches pattern subject \<longleftrightarrow>
        (\<exists>r. subject = p @ r \<and> glob_matches (CHR ''*'' # join_with ''*'' ps) r)"
      using free glob_literal [of p "CHR ''*'' # join_with ''*'' ps" subject] pat Cons by simp
    also have "\<dots> \<longleftrightarrow> (\<exists>r. subject = p @ r \<and> parts_match ps r)"
      using parts_match_glob [of ps] free Cons by simp
    also have "\<dots> \<longleftrightarrow> (\<exists>r. subject = p @ r \<and>
        (case match_middle (butlast ps) r of None \<Rightarrow> False | Some r \<Rightarrow> ends_with r (last ps)))"
      using match_middle_parts [where qs = "butlast ps" and l = "last ps"] Cons by simp
    also have "\<dots> \<longleftrightarrow> subject_matches subject pattern"
      using False parts Cons
      by (auto simp: subject_matches_def Let_def split: option.splits)
    finally show ?thesis ..
  qed
qed

subsection \<open>Templates\<close>

text \<open>One pass over the template: every placeholder replaced by its claim, which is not read again.\<close>

function subst_template :: "json \<Rightarrow> string \<Rightarrow> proxy_error + string" where
  "subst_template claims t =
     (case split_once CHR ''{'' t of
        None \<Rightarrow> Inr t
      | Some (before, rest) \<Rightarrow>
         (case split_once CHR ''}'' rest of
            None \<Rightarrow> Inr t
          | Some (key, after) \<Rightarrow>
             (case json_str claims key of
                None \<Rightarrow> Inl (missing_claim key)
              | Some v \<Rightarrow>
                 (case subst_template claims after of
                    Inl e \<Rightarrow> Inl e
                  | Inr r \<Rightarrow> Inr (before @ v @ r)))))"
  by pat_completeness auto
termination
  by (relation "measure (\<lambda>(c, t). length t)") (auto simp: split_once_Some)

declare subst_template.simps [simp del]

lemma split_once_prepend:
  "c \<notin> set a \<Longrightarrow> split_once c (a @ s) = map_option (\<lambda>(x, y). (a @ x, y)) (split_once c s)"
proof (induction a)
  case (Cons x a)
  then show ?case by (cases "split_once c s") auto
qed (simp add: option.map_ident_strong case_prod_unfold)

lemma resolve_template_pass:
  assumes clean: "\<And>k v. json_str claims k = Some v \<Longrightarrow> CHR ''{'' \<notin> set v"
  shows "CHR ''{'' \<notin> set d \<Longrightarrow> resolve_template claims (d @ t) =
     Some (case subst_template claims t of Inl e \<Rightarrow> Inl e | Inr r \<Rightarrow> Inr (d @ r))"
proof (induction "length t" arbitrary: d t rule: less_induct)
  case less
  note unfold_both = resolve_template.simps [of claims "d @ t"] subst_template.simps [of claims t]
  show ?case
  proof (cases "split_once CHR ''{'' t")
    case None
    with less.prems show ?thesis by (simp add: unfold_both split_once_prepend)
  next
    case (Some p)
    then obtain b rest where b: "split_once CHR ''{'' t = Some (b, rest)" by (cases p) auto
    show ?thesis
    proof (cases "split_once CHR ''}'' rest")
      case None
      with b less.prems show ?thesis by (simp add: unfold_both split_once_prepend)
    next
      case (Some q)
      then obtain key after where k: "split_once CHR ''}'' rest = Some (key, after)" by (cases q) auto
      show ?thesis
      proof (cases "json_str claims key")
        case None
        with b k less.prems show ?thesis by (simp add: unfold_both split_once_prepend)
      next
        case (Some v)
        have "length after < length t" "CHR ''{'' \<notin> set (d @ b @ v)"
          using b k less.prems clean [OF Some] by (auto simp: split_once_Some)
        from less.hyps [OF this] b k Some less.prems show ?thesis
          by (simp add: unfold_both split_once_prepend split: sum.split)
      qed
    qed
  qed
qed

lemma resolve_template_single_pass:
  "(\<And>k v. json_str claims k = Some v \<Longrightarrow> CHR ''{'' \<notin> set v) \<Longrightarrow>
     resolve_template claims t = Some (subst_template claims t)"
  using resolve_template_pass [of claims "[]" t] by (auto split: sum.splits)

definition placeholder :: "string \<Rightarrow> string" where
  "placeholder k = CHR ''{'' # k @ ''}''"

lemma resolve_template_plain: "CHR ''{'' \<notin> set t \<Longrightarrow> resolve_template claims t = Some (Inr t)"
  by (subst resolve_template.simps) (simp add: split_once_None[THEN iffD2])

lemma split_placeholder:
  assumes "CHR ''{'' \<notin> set d" "CHR ''}'' \<notin> set k"
  shows "split_once CHR ''{'' (d @ placeholder k @ e) = Some (d, k @ CHR ''}'' # e)"
    "split_once CHR ''}'' (k @ CHR ''}'' # e) = Some (k, e)"
  using assms by (simp_all add: placeholder_def split_once_Some)

lemma resolve_template_step:
  assumes "CHR ''{'' \<notin> set d" "CHR ''}'' \<notin> set k" "json_str claims k = Some v"
  shows "resolve_template claims (d @ placeholder k @ e) = resolve_template claims (d @ v @ e)"
  using assms by (subst resolve_template.simps) (simp add: split_placeholder)

lemma resolve_template_loops:
  assumes k: "CHR ''}'' \<notin> set k" and v: "json_str claims k = Some (a @ placeholder k @ b)" "CHR ''{'' \<notin> set a"
    and d: "CHR ''{'' \<notin> set d"
  shows "resolve_template claims (d @ placeholder k @ e) = None"
proof -
  have "c = claims \<longrightarrow> (\<forall>d e. CHR ''{'' \<notin> set d \<longrightarrow> t \<noteq> d @ placeholder k @ e)"
    if m: "resolve_template c t = Some y" for c t y
  proof (rule resolve_template.raw_induct [OF _ m])
    fix rt c t y
    assume ih: "\<And>c t y. rt c t = Some y \<Longrightarrow> c = claims \<longrightarrow> (\<forall>d e. CHR ''{'' \<notin> set d \<longrightarrow> t \<noteq> d @ placeholder k @ e)"
      and step: "(case split_once CHR ''{'' t of None \<Rightarrow> Some (Inr t)
        | Some (before, rest) \<Rightarrow> (case split_once CHR ''}'' rest of None \<Rightarrow> Some (Inr t)
           | Some (key, after) \<Rightarrow> (case json_str c key of None \<Rightarrow> Some (Inl (missing_claim key))
              | Some v \<Rightarrow> rt c (before @ v @ after)))) = Some y"
    show "c = claims \<longrightarrow> (\<forall>d e. CHR ''{'' \<notin> set d \<longrightarrow> t \<noteq> d @ placeholder k @ e)"
    proof (intro impI allI notI)
      fix d e assume "c = claims" "CHR ''{'' \<notin> set d" "t = d @ placeholder k @ e"
      then have "rt claims ((d @ a) @ placeholder k @ (b @ e)) = Some y" "CHR ''{'' \<notin> set (d @ a)"
        using step k v by (simp_all add: split_placeholder)
      with ih show False by blast
    qed
  qed
  then have "resolve_template claims (d @ placeholder k @ e) \<noteq> Some y" for y using d by blast
  then show ?thesis by (cases "resolve_template claims (d @ placeholder k @ e)") auto
qed

subsection \<open>The exchange\<close>

lemma session_duration_Ok:
  "session_duration r mx = Ok d \<Longrightarrow> min_session_duration_secs \<le> d \<and> d \<le> mx"
  by (auto simp: session_duration_def min_session_duration_secs_def not_less split: if_splits)

lemma subject_allowed_glob:
  "subject_allowed s cs \<longleftrightarrow> (\<exists>p \<in> set cs. glob_matches p s)"
  by (auto simp: subject_allowed_def list_ex_iff subject_matches_glob)

lemma issue_session_Ok:
  "issue_session sv si role req kp key claims = Some (Ok creds) \<Longrightarrow>
   (\<exists>p \<in> set (subject_conditions role). glob_matches p (the_or [] (json_str claims ''sub'')))
   \<and> resolve_scopes (role_allowed_scopes role) claims = Some (Inr (tc_allowed_scopes creds))
   \<and> tc_source_identity creds = the_or [] (json_str claims ''sub'')
   \<and> tc_assumed_role_id creds = role_id role
   \<and> (\<exists>d. 900 \<le> d \<and> d \<le> max_session_duration_secs role
        \<and> sv_add_seconds sv (mt_now (si_mint si)) (sint d) = Some (tc_expiration creds))
   \<and> (\<exists>inner. seal (sv_sealing sv) (si_nonce si) key (creds\<lparr>tc_session_token := inner\<rparr>)
        = Inr (tc_session_token creds))"
  by (auto simp: issue_session_def Let_def mint_temporary_credentials_def subject_allowed_glob
      min_session_duration_secs_def
      split: if_splits outcome.splits option.splits sum.splits dest!: session_duration_Ok)

lemma assume_role_Ok:
  "assume_role_with_web_identity sv si gr req kp key c = (c', Some (Ok creds)) \<Longrightarrow>
   \<exists>role issuer jwks jwk claims.
     gr (sr_role_arn req) = Inr (Some role) \<and> issuer \<in> set (trusted_oidc_issuers role)
   \<and> get_or_fetch c (si_now si) (si_now_failed si) (si_now_done si) (fetch_jwks (sv_jwt sv)) issuer
       = (c', Inr jwks)
   \<and> jwk \<in> set (jw_keys jwks)
   \<and> verify_token (sv_jwt sv) (si_timestamp si) (sr_web_identity_token req) jwk issuer role = Inr claims
   \<and> issue_session sv si role (sr_duration_seconds req) kp key claims = Some (Ok creds)"
  unfolding assume_role_with_web_identity_def Let_def
  by (auto simp: list_ex_iff find_key_def split: sum.splits option.splits prod.splits if_splits
      dest!: find_Some_iff_first)

lemma jwt_decode_local:
  "jwt_decode_unverified (jl\<lparr>jl_http_get := g, jl_read_jwks := rk\<rparr>) token = jwt_decode_unverified jl token"
proof -
  have "decode_jwt_segment (jl\<lparr>jl_http_get := g, jl_read_jwks := rk\<rparr>) = decode_jwt_segment jl"
    unfolding decode_jwt_segment_def base64url_decode_def fun_eq_iff by (simp split: sum.split)
  then show ?thesis unfolding jwt_decode_unverified_def by (simp only:)
qed

lemma assume_role_untrusted:
  assumes "gr (sr_role_arn req) = Inr (Some role)"
    and "jwt_decode_unverified (sv_jwt sv) (sr_web_identity_token req) = Inr (header, claims)"
    and "json_str claims ''iss'' = Some issuer" "issuer \<notin> set (trusted_oidc_issuers role)"
  shows "assume_role_with_web_identity sv si gr req kp key c =
     (c, Some (Err (InvalidOidcToken (''untrusted issuer: '' @ issuer))))"
  using assms by (simp add: assume_role_with_web_identity_def list_ex_iff)

subsection \<open>Properties\<close>

text \<open>
  C30. Subject conditions are globs: the greedy scan over the pieces between the stars accepts
  exactly the subjects the pattern describes, and a role without conditions allows no subject.
\<close>

theorem subject_conditions_are_globs:
  "subject_allowed subject conditions \<longleftrightarrow> (\<exists>p \<in> set conditions. glob_matches p subject)"
  by (rule subject_allowed_glob)

text \<open>
  C31. The template loop ends and is a single pass over the template whenever no string claim
  holds an opening brace: no claim is then read as a template.
\<close>

theorem template_single_pass:
  assumes "\<And>k v. json_str claims k = Some v \<Longrightarrow> CHR ''{'' \<notin> set v"
  shows "resolve_template claims t = Some (subst_template claims t)"
  by (rule resolve_template_single_pass [OF assms])

theorem template_single_pass_witness:
  "resolve_template (JObject [(''sub'', JString ''al'')]) ''d/{sub}/'' = Some (Inr ''d/al/'')"
proof -
  have "resolve_template (JObject [(''sub'', JString ''al'')]) ''d/{sub}/''
      = Some (subst_template (JObject [(''sub'', JString ''al'')]) ''d/{sub}/'')"
    by (rule template_single_pass) (auto simp: json_str_def split: if_splits)
  then show ?thesis by (simp add: subst_template.simps json_str_def)
qed

text \<open>
  An empty claim leaves an empty prefix, and the minted scope covers every key of the bucket, although
  the mint promises to refuse what it cannot resolve.
\<close>

lemma empty_claim_widens:
  assumes "CHR ''}'' \<notin> set k" "json_str claims k = Some []" "CHR ''{'' \<notin> set b" "act \<in> set acts"
  shows "resolve_scopes [\<lparr>sc_bucket = b, sc_prefixes = [placeholder k], sc_actions = acts\<rparr>] claims
     = Some (Inr [\<lparr>sc_bucket = b, sc_prefixes = [[]], sc_actions = acts\<rparr>])"
    and "key_authorized (Authenticated \<lparr>principal_name = who,
       id_allowed_scopes = [\<lparr>sc_bucket = b, sc_prefixes = [[]], sc_actions = acts\<rparr>]\<rparr>) b act key"
proof -
  have "resolve_template claims (placeholder k) = Some (Inr [])"
    using resolve_template_step [of "[]" k claims "[]" "[]"] assms(1,2) by (simp add: resolve_template_plain)
  then show "resolve_scopes [\<lparr>sc_bucket = b, sc_prefixes = [placeholder k], sc_actions = acts\<rparr>] claims
     = Some (Inr [\<lparr>sc_bucket = b, sc_prefixes = [[]], sc_actions = acts\<rparr>])"
    using assms(3) by (simp add: resolve_scopes_def resolve_scope_def resolve_template_plain)
qed (use assms(4) in \<open>simp add: key_authorized_def key_matches_prefix_def\<close>)

text \<open>
  C32. A claim is expanded again: the first placeholder of a template is replaced by its claim and the
  result is read from its start.  So a claim that holds its own placeholder, ahead of any other brace,
  keeps the exchange in the loop for ever, and one that is the placeholder of another claim selects
  that claim.
\<close>

theorem template_claims_expand_again:
  assumes "CHR ''{'' \<notin> set d" "CHR ''}'' \<notin> set k" "json_str claims k = Some v"
  shows "resolve_template claims (d @ placeholder k @ e) = resolve_template claims (d @ v @ e)
   \<and> (\<forall>a b. v = a @ placeholder k @ b \<and> CHR ''{'' \<notin> set a \<longrightarrow> resolve_template claims (d @ placeholder k @ e) = None)
   \<and> (\<forall>j w. v = placeholder j \<and> CHR ''}'' \<notin> set j \<and> json_str claims j = Some w \<and> CHR ''{'' \<notin> set (w @ e)
        \<longrightarrow> resolve_template claims (d @ placeholder k @ e) = Some (Inr (d @ w @ e)))"
proof (intro conjI allI impI)
  show "resolve_template claims (d @ placeholder k @ e) = resolve_template claims (d @ v @ e)"
    by (rule resolve_template_step [OF assms])
  fix j w assume "v = placeholder j \<and> CHR ''}'' \<notin> set j \<and> json_str claims j = Some w \<and> CHR ''{'' \<notin> set (w @ e)"
  then show "resolve_template claims (d @ placeholder k @ e) = Some (Inr (d @ w @ e))"
    using resolve_template_step [of d k claims v e] resolve_template_step [of d j claims w e] assms
    by (simp add: resolve_template_plain)
qed (use resolve_template_loops assms in blast)

theorem template_claims_expand_again_witness:
  "resolve_template (JObject [(''sub'', JString ''{sub}'')]) ''d/{sub}'' = None
   \<and> resolve_template (JObject [(''sub'', JString ''{org}''), (''org'', JString ''acme'')]) ''d/{sub}/''
       = Some (Inr ''d/acme/'')"
proof
  have "''d/{sub}'' = ''d/'' @ placeholder ''sub'' @ []" by (simp add: placeholder_def)
  then show "resolve_template (JObject [(''sub'', JString ''{sub}'')]) ''d/{sub}'' = None"
    using template_claims_expand_again [of "''d/''" "''sub''" "JObject [(''sub'', JString ''{sub}'')]" "''{sub}''" "[]"]
    by (force simp: json_str_def placeholder_def)
  have "''d/{sub}/'' = ''d/'' @ placeholder ''sub'' @ ''/''" by (simp add: placeholder_def)
  then show "resolve_template (JObject [(''sub'', JString ''{org}''), (''org'', JString ''acme'')]) ''d/{sub}/''
       = Some (Inr ''d/acme/'')"
    using template_claims_expand_again [of "''d/''" "''sub''"
        "JObject [(''sub'', JString ''{org}''), (''org'', JString ''acme'')]" "''{org}''" "''/''"]
    by (force simp: json_str_def placeholder_def)
qed

text \<open>
  C9. What an exchange that succeeds has established: the role exists and trusts the issuer, the
  token verifies under a key of that issuer's key set, the subject matches a condition of the
  role, the scopes of the session are the role's templates over the verified claims, its lifetime
  is between fifteen minutes and the role's maximum, and its session token seals exactly these
  credentials.
\<close>

theorem minted_session_is_backed:
  assumes "assume_role_with_web_identity sv si gr req kp key c = (c', Some (Ok creds))"
  shows "\<exists>role issuer jwks jwk claims.
     gr (sr_role_arn req) = Inr (Some role) \<and> issuer \<in> set (trusted_oidc_issuers role)
   \<and> get_or_fetch c (si_now si) (si_now_failed si) (si_now_done si) (fetch_jwks (sv_jwt sv)) issuer
       = (c', Inr jwks)
   \<and> jwk \<in> set (jw_keys jwks)
   \<and> verify_token (sv_jwt sv) (si_timestamp si) (sr_web_identity_token req) jwk issuer role = Inr claims
   \<and> (\<exists>p \<in> set (subject_conditions role). glob_matches p (tc_source_identity creds))
   \<and> tc_source_identity creds = the_or [] (json_str claims ''sub'')
   \<and> resolve_scopes (role_allowed_scopes role) claims = Some (Inr (tc_allowed_scopes creds))
   \<and> (\<exists>d. 900 \<le> d \<and> d \<le> max_session_duration_secs role
        \<and> sv_add_seconds sv (mt_now (si_mint si)) (sint d) = Some (tc_expiration creds))
   \<and> (\<exists>inner. seal (sv_sealing sv) (si_nonce si) key (creds\<lparr>tc_session_token := inner\<rparr>)
        = Inr (tc_session_token creds))"
  using assume_role_Ok [OF assms] by (fastforce dest: issue_session_Ok)

text \<open>An exchange to evaluate: one role, one key, a token \<open>h.p.s\<close>.\<close>

definition demo_claims :: json where
  "demo_claims = JObject [(''iss'', JString ''https://i''), (''aud'', JString ''s3''),
     (''exp'', JInt 1000), (''sub'', JString ''repo:a/b''), (''org'', JString ''acme'')]"

definition demo_jwk :: jwk_key where
  "demo_jwk = \<lparr>jk_kid = ''1'', jk_kty = ''RSA'', jk_alg = None, jk_n = Some ''n'', jk_e = Some ''e'', jk_use = None\<rparr>"

definition demo_jwt :: "string jwt_libs" where
  "demo_jwt = \<lparr>jl_http_get = Inr,
     jl_read_json = (\<lambda>s. if s = ''h'' then Inr (JObject [(''alg'', JString ''RS256''), (''kid'', JString ''1'')])
                        else if s = ''p'' then Inr demo_claims
                        else Inr (JObject [(''jwks_uri'', JString ''k'')])),
     jl_read_jwks = (\<lambda>_. Inr \<lparr>jw_keys = [demo_jwk]\<rparr>),
     jl_b64url_decode = Inr, jl_rsa_new = (\<lambda>n e. Inr (n @ e)), jl_signature = Inr,
     jl_rsa_verify = (\<lambda>k m s. if s = ''s'' then Inr () else Inl ''bad'')\<rparr>"

definition demo_sts_env :: "(string, string) sts_env" where
  "demo_sts_env = \<lparr>sv_jwt = demo_jwt, sv_sealing = demo_sealing,
     sv_add_seconds = (\<lambda>now n. Some (now + n * 1000000000)), sv_form_parse = (\<lambda>_. []),
     sv_xml = (\<lambda>_. None), sv_rfc3339 = (\<lambda>_. []), sv_crypto = demo_crypto\<rparr>"

definition demo_sts_inputs :: sts_inputs where
  "demo_sts_inputs = \<lparr>si_now = 0, si_now_failed = 0, si_now_done = 0, si_timestamp = 900,
     si_mint = \<lparr>mt_id_bytes = ''x'', mt_secret_bytes = ''y'', mt_token_bytes = ''z'', mt_now = 0\<rparr>,
     si_nonce = ''nnnnnnnnnnnn''\<rparr>"

definition demo_lookup :: role_lookup where
  "demo_lookup arn = Inr (if arn = ''ci'' then Some demo_role else None)"

definition demo_sts_request :: sts_request where
  "demo_sts_request = \<lparr>sr_role_arn = ''ci'', sr_web_identity_token = ''h.p.s'', sr_duration_seconds = None\<rparr>"

lemma demo_verify: "verify_token demo_jwt 900 ''h.p.s'' demo_jwk ''https://i'' demo_role = Inr demo_claims"
proof -
  have "validate_claims (JObject [(''alg'', JString ''RS256''), (''kid'', JString ''1'')]) demo_claims
      ''https://i'' demo_role 900 = Inr ()"
    by (subst validate_claims_iff)
      (simp_all add: demo_claims_def demo_role_def typ_accepted_def expiry_accepted_def
        not_before_accepted_def json_str_def json_i64_def i64_range_def audience_allowed_def)
  then show ?thesis
    by (simp add: verify_token_def demo_jwt_def demo_jwk_def decode_jwt_segment_def base64url_decode_def
        rsa_public_key_from_components_def numeral_3_eq_3 json_str_def)
qed

lemma demo_issue:
  "issue_session demo_sts_env demo_sts_inputs demo_role None kp [] demo_claims =
     Some (Ok \<lparr>tc_access_key_id = kp @ ''x'', tc_secret_access_key = ''y'',
       tc_session_token = ''nnnnnnnnnnnn'' @ ''nnnnnnnnnnnn'' @ ''repo:a/b'',
       tc_expiration = 3600000000000,
       tc_allowed_scopes = [\<lparr>sc_bucket = ''data'', sc_prefixes = [''acme/''], sc_actions = [ActGetObject]\<rparr>],
       tc_assumed_role_id = ''ci'', tc_source_identity = ''repo:a/b''\<rparr>)"
proof -
  have t: "resolve_template demo_claims t = Some (subst_template demo_claims t)" for t
    by (rule resolve_template_single_pass) (auto simp: demo_claims_def json_str_def split: if_splits)
  have j: "json_str demo_claims ''sub'' = Some ''repo:a/b''" "json_str demo_claims ''org'' = Some ''acme''"
    by (simp_all add: demo_claims_def json_str_def)
  have r: "resolve_scopes (role_allowed_scopes demo_role) demo_claims =
      Some (Inr [\<lparr>sc_bucket = ''data'', sc_prefixes = [''acme/''], sc_actions = [ActGetObject]\<rparr>])"
    by (simp add: resolve_scopes_def resolve_scope_def t subst_template.simps j demo_role_def)
  have a: "subject_allowed ''repo:a/b'' (subject_conditions demo_role)"
    by (simp add: subject_allowed_glob demo_role_def)
  have d: "session_duration None (max_session_duration_secs demo_role) = Ok 3600"
    by (simp add: session_duration_def min_session_duration_secs_def demo_role_def)
  show ?thesis
    by (simp add: issue_session_def Let_def j a d mint_temporary_credentials_def r demo_sts_env_def
        demo_sts_inputs_def generate_random_id_def is_ascii_alphanumeric_def demo_sealing_def seal_def)
      (simp add: demo_role_def)
qed

lemma demo_exchange:
  "\<exists>c' creds. assume_role_with_web_identity demo_sts_env demo_sts_inputs demo_lookup demo_sts_request
     ''STSPRXY'' [] (new_jwks_cache 60) = (c', Some (Ok creds)) \<and> tc_source_identity creds = ''repo:a/b''"
proof -
  have u: "jwt_decode_unverified demo_jwt ''h.p.s'' =
      Inr (JObject [(''alg'', JString ''RS256''), (''kid'', JString ''1'')], demo_claims)"
    by (simp add: jwt_decode_unverified_def numeral_3_eq_3 decode_jwt_segment_def base64url_decode_def demo_jwt_def)
  have f: "fetch_jwks demo_jwt ''https://i'' = Inr \<lparr>jw_keys = [demo_jwk]\<rparr>"
    by (simp add: fetch_jwks_def demo_jwt_def json_str_def trim_end_matches_def Let_def)
  have g: "get_or_fetch (new_jwks_cache 60) 0 0 0 (fetch_jwks demo_jwt) ''https://i''
      = (store_fetched (new_jwks_cache 60) 0 ''https://i'' (Inr \<lparr>jw_keys = [demo_jwk]\<rparr>), Inr \<lparr>jw_keys = [demo_jwk]\<rparr>)"
    by (simp add: get_or_fetch_def check_cache_def get_cached_def new_jwks_cache_def f)
  have i: "json_str demo_claims ''iss'' = Some ''https://i''" by (simp add: demo_claims_def json_str_def)
  have k: "find_key \<lparr>jw_keys = [demo_jwk]\<rparr> ''1'' = Inr demo_jwk" by (simp add: find_key_def demo_jwk_def)
  have hd: "json_str (JObject [(''alg'', JString ''RS256''), (''kid'', JString ''1'')]) ''alg'' = Some ''RS256''"
    "json_str (JObject [(''alg'', JString ''RS256''), (''kid'', JString ''1'')]) ''kid'' = Some ''1''"
    by (simp_all add: json_str_def)
  have e: "sv_jwt demo_sts_env = demo_jwt" by (simp add: demo_sts_env_def)
  have n: "si_now demo_sts_inputs = 0" "si_now_failed demo_sts_inputs = 0" "si_now_done demo_sts_inputs = 0"
    "si_timestamp demo_sts_inputs = 900" by (simp_all add: demo_sts_inputs_def)
  have rq: "sr_role_arn demo_sts_request = ''ci''" "sr_web_identity_token demo_sts_request = ''h.p.s''"
    "sr_duration_seconds demo_sts_request = None" "demo_lookup ''ci'' = Inr (Some demo_role)"
    "trusted_oidc_issuers demo_role = [''https://i'']"
    by (simp_all add: demo_sts_request_def demo_lookup_def demo_role_def)
  show ?thesis
    unfolding assume_role_with_web_identity_def rq e n
    by (simp add: u i rq g k demo_verify demo_issue hd)
qed

theorem minted_session_is_backed_witness:
  "\<exists>p \<in> set (subject_conditions demo_role). glob_matches p ''repo:a/b''"
proof -
  obtain c' creds where "assume_role_with_web_identity demo_sts_env demo_sts_inputs demo_lookup demo_sts_request
      ''STSPRXY'' [] (new_jwks_cache 60) = (c', Some (Ok creds))" "tc_source_identity creds = ''repo:a/b''"
    using demo_exchange by blast
  with minted_session_is_backed show ?thesis by (fastforce simp: demo_lookup_def demo_sts_request_def)
qed

text \<open>
  No request leaves the gateway for an issuer the role does not trust: the exchange answers
  the same whatever the network would have said, and the key cache is left as it was.
\<close>

theorem untrusted_issuer_stays_local:
  assumes "gr (sr_role_arn req) = Inr (Some role)"
    and "jwt_decode_unverified (sv_jwt sv) (sr_web_identity_token req) = Inr (header, claims)"
    and "json_str claims ''iss'' = Some issuer" "issuer \<notin> set (trusted_oidc_issuers role)"
  shows "assume_role_with_web_identity (sv\<lparr>sv_jwt := (sv_jwt sv)\<lparr>jl_http_get := g, jl_read_jwks := rk\<rparr>\<rparr>)
       si gr req kp key c
     = (c, Some (Err (InvalidOidcToken (''untrusted issuer: '' @ issuer))))"
  using assms by (intro assume_role_untrusted) (auto simp: jwt_decode_local)

theorem untrusted_issuer_stays_local_witness:
  "assume_role_with_web_identity
     (demo_sts_env\<lparr>sv_jwt := demo_jwt\<lparr>jl_http_get := (\<lambda>_. Inl ''offline''), jl_read_jwks := (\<lambda>_. Inl [])\<rparr>\<rparr>)
     demo_sts_inputs (\<lambda>_. Inr (Some (demo_role\<lparr>trusted_oidc_issuers := []\<rparr>))) demo_sts_request ''K'' []
     (new_jwks_cache 60) = (new_jwks_cache 60, Some (Err (InvalidOidcToken ''untrusted issuer: https://i'')))"
  using untrusted_issuer_stays_local [of "\<lambda>_. Inr (Some (demo_role\<lparr>trusted_oidc_issuers := []\<rparr>))"
      demo_sts_request "demo_role\<lparr>trusted_oidc_issuers := []\<rparr>" demo_sts_env
      "JObject [(''alg'', JString ''RS256''), (''kid'', JString ''1'')]" demo_claims "''https://i''"]
  by (simp add: demo_sts_env_def demo_sts_request_def jwt_decode_unverified_def numeral_3_eq_3
      decode_jwt_segment_def base64url_decode_def demo_jwt_def demo_claims_def json_str_def)

text \<open>
  A role whose maximal session is shorter than fifteen minutes can never be assumed: every
  exchange that gets as far as the lifetime panics in \<open>clamp\<close>, whatever duration it asks for.
\<close>

theorem short_role_maximum_panics:
  assumes "subject_allowed (the_or [] (json_str claims ''sub'')) (subject_conditions role)"
    and "max_session_duration_secs role < 900"
  shows "issue_session sv si role requested kp key claims = Some Panic"
  using assms by (simp add: issue_session_def session_duration_def min_session_duration_secs_def)

theorem short_role_maximum_panics_witness:
  "issue_session demo_sts_env demo_sts_inputs (demo_role\<lparr>max_session_duration_secs := 600\<rparr>) (Some 600) ''K'' []
     demo_claims = Some Panic"
  by (rule short_role_maximum_panics)
    (simp_all add: subject_allowed_glob demo_role_def demo_claims_def json_str_def)

end
