(* ===== verification/Metering.thy ===== *)
theory Metering
  imports Middleware Response
begin

text \<open>
  \<open>crates/metering/src/lib.rs\<close>: the quota check before a request and the usage event after it.
  The checker and the recorder are the integrator's; they are parameters.
\<close>

record usage_event =
  ue_request_id :: string
  ue_identity :: "resolved_identity option"
  ue_operation :: "s3_operation option"
  ue_bucket :: "string option"
  ue_status :: nat
  ue_bytes_transferred :: u64
  ue_was_forwarded :: bool
  ue_source_ip :: "string option"

text \<open>\<open>Some message\<close> is \<open>Err(QuotaExceeded)\<close>.\<close>

type_synonym quota_checker =
  "resolved_identity \<Rightarrow> s3_operation \<Rightarrow> string option \<Rightarrow> u64 \<Rightarrow> string option \<Rightarrow> string option"

definition estimated_bytes :: "header_map \<Rightarrow> u64" where
  "estimated_bytes headers = the_or 0 (Option.bind (hm_str headers ''content-length'') parse_u64)"

definition slow_down_response :: "(xml_doc \<Rightarrow> string option) \<Rightarrow> string \<Rightarrow> proxy_result" where
  "slow_down_response xs request_id =
     \<lparr>pr_status = 429, pr_headers = [(''content-type'', ''application/xml'')],
      pr_body = BodyBytes (error_to_xml xs (slow_down request_id))\<rparr>"

definition metering_handle :: "(xml_doc \<Rightarrow> string option) \<Rightarrow> quota_checker \<Rightarrow> middleware" where
  "metering_handle xs check ctx next =
     (case check (dc_identity ctx) (dc_operation ctx) (map_option bc_name (dc_bucket_config ctx))
             (estimated_bytes (dc_headers ctx)) (dc_source_ip ctx) of
        Some _ \<Rightarrow> t_of (Ok (Response (slow_down_response xs (dc_request_id ctx))))
      | None \<Rightarrow> next ctx)"

definition metering_after_dispatch :: "completed_request \<Rightarrow> usage_event" where
  "metering_after_dispatch completed =
     \<lparr>ue_request_id = cq_request_id completed, ue_identity = cq_identity completed,
      ue_operation = cq_operation completed, ue_bucket = cq_bucket completed,
      ue_status = cq_status completed,
      ue_bytes_transferred = the_or 0 (case cq_response_bytes completed of
         Some n \<Rightarrow> Some n | None \<Rightarrow> cq_request_bytes completed),
      ue_was_forwarded = cq_was_forwarded completed, ue_source_ip = cq_source_ip completed\<rparr>"

definition noop_recorder :: "usage_event \<Rightarrow> unit" where
  "noop_recorder event = ()"

definition noop_quota_checker :: quota_checker where
  "noop_quota_checker identity op bucket bytes ip = None"

interpretation metering: lawful_middleware "metering_handle xs check" for xs check
proof
  fix ctx :: dispatch_context and "next" :: dispatch
  show "own_answer (fst (metering_handle xs check ctx next)) \<or>
      (\<exists>ctx' w. same_request ctx ctx' \<and>
         metering_handle xs check ctx next = (fst (next ctx'), w @ snd (next ctx')))"
    by (auto simp: metering_handle_def split: option.splits intro!: exI [of _ ctx] exI [of _ "[]"])
qed

text \<open>
  A metering middleware anywhere in the chain decides before the backend: over quota the
  answer is the 429 of this request and nothing behind the middleware runs, not even the
  middleware after it; within quota the rest of the chain runs on the unchanged context.
\<close>

theorem metering_decides_before_backend:
  "next_run (metering_handle xs check # ms) dispatch ctx =
     (if check (dc_identity ctx) (dc_operation ctx) (map_option bc_name (dc_bucket_config ctx))
           (estimated_bytes (dc_headers ctx)) (dc_source_ip ctx) \<noteq> None
      then (Ok (Response (slow_down_response xs (dc_request_id ctx))), [])
      else next_run ms dispatch ctx)"
  by (auto simp: metering_handle_def t_of_def)

end
