(* ===== verification/CredentialCache.thy ===== *)
theory CredentialCache
  imports Types
begin

text \<open>
  \<open>crates/oidc-provider/src/cache.rs\<close>: the credential cache with its renewal claims, and the
  contract of a cache in front of a fetch.  The map lock is held for a claim or a completion, so
  these are the atomic steps; any caller may run between them.
\<close>

subsection \<open>The cache\<close>

definition seconds :: "int \<Rightarrow> int" where
  "seconds n = n * 1000000000"

definition refresh_lead_secs :: int where
  "refresh_lead_secs = 60"

definition min_serve_secs :: int where
  "min_serve_secs = 5"

definition claim_timeout_secs :: int where
  "claim_timeout_secs = 30"

definition scoped_key :: "string \<Rightarrow> string \<Rightarrow> string" where
  "scoped_key scope subject = scope @ [CHR 0x1F] @ subject"

record entry =
  en_creds :: backend_credentials
  en_renewing_since :: "int option"

type_synonym credential_cache = "string \<rightharpoonup> entry"

datatype cache_action = Serve backend_credentials | Fetch

definition new_credential_cache :: credential_cache where
  "new_credential_cache = Map.empty"

definition claim :: "credential_cache \<Rightarrow> int \<Rightarrow> string \<Rightarrow> credential_cache \<times> cache_action" where
  "claim c now key =
     (case c key of
        None \<Rightarrow> (c, Fetch)
      | Some entry \<Rightarrow>
          if be_expiration (en_creds entry) > now + seconds refresh_lead_secs
          then (c, Serve (en_creds entry))
          else
           (let claimed = (case en_renewing_since entry of
                             None \<Rightarrow> False | Some t \<Rightarrow> now < t + seconds claim_timeout_secs)
            in if claimed \<and> be_expiration (en_creds entry) > now + seconds min_serve_secs
               then (c, Serve (en_creds entry))
               else (c(key \<mapsto> entry\<lparr>en_renewing_since := Some now\<rparr>), Fetch)))"

fun complete :: "credential_cache \<Rightarrow> string \<Rightarrow> 'e + backend_credentials \<Rightarrow> credential_cache" where
  "complete c key (Inr creds) = c(key \<mapsto> \<lparr>en_creds = creds, en_renewing_since = None\<rparr>)"
| "complete c key (Inl e) =
     (case c key of None \<Rightarrow> c | Some entry \<Rightarrow> c(key \<mapsto> entry\<lparr>en_renewing_since := None\<rparr>))"

definition cache_get_or_fetch ::
  "credential_cache \<Rightarrow> int \<Rightarrow> string \<Rightarrow> 'e + backend_credentials
   \<Rightarrow> credential_cache \<times> ('e + backend_credentials)" where
  "cache_get_or_fetch c now key fetched =
     (case claim c now key of
        (c', Serve creds) \<Rightarrow> (c', Inr creds)
      | (c', Fetch) \<Rightarrow> (complete c' key fetched, fetched))"

subsection \<open>A cache in front of a fetch\<close>

text \<open>
  What any number of callers do to a shared cache, newest event first: a lookup that is answered,
  a lookup that starts a fetch, a fetch that completes.
\<close>

datatype ('v, 'e) fetch_event =
    Answered string 'v int
  | Fetching string int
  | Completed string "'e + 'v" int

inductive fetch_run ::
  "('c \<Rightarrow> int \<Rightarrow> string \<Rightarrow> 'c \<times> 'v option) \<Rightarrow> ('c \<Rightarrow> int \<Rightarrow> string \<Rightarrow> 'e + 'v \<Rightarrow> 'c) \<Rightarrow> 'c
   \<Rightarrow> ('v, 'e) fetch_event list \<Rightarrow> 'c \<Rightarrow> bool" for check settle c0 where
  run_init: "fetch_run check settle c0 [] c0"
| run_answer: "fetch_run check settle c0 l c \<Longrightarrow> check c now k = (c', Some v) \<Longrightarrow>
    fetch_run check settle c0 (Answered k v now # l) c'"
| run_fetch: "fetch_run check settle c0 l c \<Longrightarrow> check c now k = (c', None) \<Longrightarrow>
    fetch_run check settle c0 (Fetching k now # l) c'"
| run_complete: "fetch_run check settle c0 l c \<Longrightarrow>
    fetch_run check settle c0 (Completed k r now # l) (settle c now k r)"

inductive_cases run_answerE: "fetch_run check settle c0 (Answered k v t # l) c"
inductive_cases run_fetchE: "fetch_run check settle c0 (Fetching k t # l) c"

locale fetch_cache =
  fixes check :: "'c \<Rightarrow> int \<Rightarrow> string \<Rightarrow> 'c \<times> 'v option"
    and settle :: "'c \<Rightarrow> int \<Rightarrow> string \<Rightarrow> 'e + 'v \<Rightarrow> 'c"
    and c0 :: 'c
    and serves :: "'c \<Rightarrow> string \<Rightarrow> int \<Rightarrow> 'v \<Rightarrow> bool"
    and live :: "'v \<Rightarrow> int \<Rightarrow> int \<Rightarrow> bool"
  assumes init: "\<not> serves c0 k t v"
    and check_serves: "check c now k = (c', Some v) \<Longrightarrow> serves c k now v"
    and check_keeps: "check c now k = (c', a) \<Longrightarrow> serves c' k' t v \<Longrightarrow> serves c k' t v"
    and settle_ok: "serves (settle c s k (Inr w)) k' t v \<Longrightarrow>
      serves c k' t v \<or> (k' = k \<and> v = w \<and> live w s t)"
    and settle_error: "serves (settle c s k (Inl e)) k' t v \<Longrightarrow> serves c k' t v"
begin

lemma run_serves:
  "fetch_run check settle c0 l c \<Longrightarrow> serves c k t v \<Longrightarrow> \<exists>s. Completed k (Inr v) s \<in> set l \<and> live v s t"
proof (induction arbitrary: k t v rule: fetch_run.induct)
  case run_init
  then show ?case by (simp add: init)
next
  case (run_answer l c now k' c' v')
  then show ?case using check_keeps by fastforce
next
  case (run_fetch l c now k' c')
  then show ?case using check_keeps by fastforce
next
  case (run_complete l c k' r now)
  then show ?case by (cases r) (use settle_ok settle_error in fastforce)+
qed

lemma answers_are_fetched:
  assumes "fetch_run check settle c0 (Answered k v now # l) c"
  shows "\<exists>s. Completed k (Inr v) s \<in> set l \<and> live v s now"
proof -
  from assms obtain c1 where "fetch_run check settle c0 l c1" "check c1 now k = (c, Some v)"
    by (auto elim: run_answerE)
  with check_serves run_serves show ?thesis by blast
qed

end

subsection \<open>The credential cache fulfils it\<close>

definition claim_check :: "credential_cache \<Rightarrow> int \<Rightarrow> string \<Rightarrow> credential_cache \<times> backend_credentials option" where
  "claim_check c now k = (case claim c now k of (c', Serve v) \<Rightarrow> (c', Some v) | (c', Fetch) \<Rightarrow> (c', None))"

definition complete_at :: "credential_cache \<Rightarrow> int \<Rightarrow> string \<Rightarrow> 'e + backend_credentials \<Rightarrow> credential_cache" where
  "complete_at c now k r = complete c k r"

definition servable :: "credential_cache \<Rightarrow> string \<Rightarrow> int \<Rightarrow> backend_credentials \<Rightarrow> bool" where
  "servable c k t v \<longleftrightarrow> (\<exists>e. c k = Some e \<and> en_creds e = v) \<and> t + seconds min_serve_secs < be_expiration v"

lemma claim_Serve:
  "claim c now k = (c', Serve v) \<longleftrightarrow> c' = c \<and> (\<exists>e. c k = Some e \<and> en_creds e = v \<and>
     (now + seconds refresh_lead_secs < be_expiration v \<or>
      (now + seconds min_serve_secs < be_expiration v \<and>
       (\<exists>t. en_renewing_since e = Some t \<and> now < t + seconds claim_timeout_secs))))"
  by (auto simp: claim_def Let_def split: option.splits if_splits)

lemma claim_keeps: "claim c now k = (c', a) \<Longrightarrow> map_option en_creds (c' k') = map_option en_creds (c k')"
  by (auto simp: claim_def Let_def split: option.splits if_splits)

lemma claim_check_Some: "claim_check c now k = (c', Some v) \<longleftrightarrow> claim c now k = (c', Serve v)"
  by (auto simp: claim_check_def split: prod.splits cache_action.splits)

interpretation credentials: fetch_cache claim_check complete_at new_credential_cache servable
    "\<lambda>v s t. t + seconds min_serve_secs < be_expiration v"
proof
  fix k t v
  show "\<not> servable new_credential_cache k t v" by (simp add: servable_def new_credential_cache_def)
next
  fix c now k c' v
  assume "claim_check c now k = (c', Some v)"
  then show "servable c k now v"
    by (auto simp: claim_check_Some claim_Serve servable_def seconds_def refresh_lead_secs_def
        min_serve_secs_def)
next
  fix c now k c' a k' t v
  assume "claim_check c now k = (c', a)" "servable c' k' t v"
  moreover from this(1) have "map_option en_creds (c' k') = map_option en_creds (c k')"
    using claim_keeps [of c now k c'] by (auto simp: claim_check_def split: prod.splits cache_action.splits)
  ultimately show "servable c k' t v"
    by (auto simp: servable_def map_option_case split: option.splits)
next
  fix c s k w k' t v
  assume "servable (complete_at c s k (Inr w)) k' t v"
  then show "servable c k' t v \<or> (k' = k \<and> v = w \<and> t + seconds min_serve_secs < be_expiration w)"
    by (auto simp: servable_def complete_at_def split: if_splits)
next
  fix c s k e k' t v
  assume "servable (complete_at c s k (Inl e)) k' t v"
  then show "servable c k' t v"
    by (auto simp: servable_def complete_at_def split: option.splits if_splits)
qed

text \<open>The credential at hand: the one the last successful fetch of the key brought.\<close>

definition held_event :: "string \<Rightarrow> ('v, 'e) fetch_event \<Rightarrow> 'v option" where
  "held_event k ev = (case ev of Completed k' (Inr v) s \<Rightarrow> if k' = k then Some v else None | _ \<Rightarrow> None)"

fun held :: "string \<Rightarrow> ('v, 'e) fetch_event list \<Rightarrow> 'v option" where
  "held k [] = None"
| "held k (ev # l) = (case held_event k ev of Some v \<Rightarrow> Some v | None \<Rightarrow> held k l)"

abbreviation credential_run ::
  "(backend_credentials, 'e) fetch_event list \<Rightarrow> credential_cache \<Rightarrow> bool" where
  "credential_run \<equiv> fetch_run claim_check complete_at new_credential_cache"

lemma claim_check_creds: "claim_check c now k = (c', a) \<Longrightarrow> map_option en_creds (c' k') = map_option en_creds (c k')"
  using claim_keeps [of c now k c'] by (auto simp: claim_check_def split: prod.splits cache_action.splits)

lemma run_held: "credential_run l c \<Longrightarrow> map_option en_creds (c k) = held k l"
proof (induction rule: fetch_run.induct)
  case run_init
  then show ?case by (simp add: new_credential_cache_def)
next
  case (run_complete l c k' r now)
  then show ?case by (cases r) (auto simp: complete_at_def held_event_def split: option.splits)
qed (simp_all add: claim_check_creds held_event_def)

lemma claim_check_None:
  "claim_check c t k = (c', None) \<Longrightarrow> c k = Some e \<Longrightarrow>
     c' = c(k \<mapsto> e\<lparr>en_renewing_since := Some t\<rparr>) \<and>
     (\<forall>u. en_renewing_since e = Some u \<longrightarrow>
        u + seconds claim_timeout_secs \<le> t \<or> be_expiration (en_creds e) \<le> t + seconds min_serve_secs)"
  by (auto simp: claim_check_def claim_def Let_def split: if_splits)

lemma claim_check_elsewhere: "claim_check c t k = (c', a) \<Longrightarrow> k' \<noteq> k \<or> a \<noteq> None \<Longrightarrow> c' k' = c k'"
  by (auto simp: claim_check_def claim_def Let_def split: option.splits if_splits)

text \<open>A claim stands, with its time or a later one, until a fetch of the key completes.\<close>

lemma claim_stands:
  assumes "credential_run (l1 @ Fetching k t # l2) c" "\<And>r s. Completed k r s \<notin> set l1"
    and "held k l2 = Some v" "now + seconds min_serve_secs < be_expiration v"
  shows "\<exists>e u. c k = Some e \<and> en_creds e = v \<and> en_renewing_since e = Some u \<and> (t \<le> u \<or> now < u)"
  using assms(1,2)
proof (induction l1 arbitrary: c)
  case Nil
  then obtain c0 where run: "credential_run l2 c0" and check: "claim_check c0 t k = (c, None)"
    by (auto elim: run_fetchE)
  obtain e where e: "c0 k = Some e" "en_creds e = v" using run_held[OF run, of k] assms(3) by auto
  show ?case using claim_check_None[OF check e(1)] e(2) by simp
next
  case (Cons ev l1)
  have later: "\<And>r s. Completed k r s \<notin> set l1" using Cons.prems(2) by simp
  from Cons.prems(1) show ?case unfolding append_Cons
  proof (cases rule: fetch_run.cases)
    case (run_answer c0 now' k' v')
    then show ?thesis using Cons.IH[OF run_answer(2) later] claim_check_elsewhere[OF run_answer(3), of k] by simp
  next
    case (run_fetch c0 t' k')
    from Cons.IH[OF run_fetch(2) later] obtain e u where e: "c0 k = Some e" "en_creds e = v"
      "en_renewing_since e = Some u" "t \<le> u \<or> now < u" by blast
    show ?thesis
    proof (cases "k' = k")
      case True
      with claim_check_None[OF run_fetch(3)[unfolded True] e(1)] e assms(4) show ?thesis
        by (auto simp: seconds_def claim_timeout_secs_def min_serve_secs_def)
    qed (use e claim_check_elsewhere[OF run_fetch(3), of k] in simp)
  next
    case (run_complete c0 k' r s)
    then have "k' \<noteq> k" using Cons.prems(2) by auto
    then have "c k = c0 k" using run_complete(2) by (cases r) (auto simp: complete_at_def split: option.split)
    then show ?thesis using Cons.IH[OF run_complete(3) later] by simp
  qed
qed

lemma scoped_key_inj:
  assumes "CHR 0x1F \<notin> set s" "CHR 0x1F \<notin> set s'"
  shows "scoped_key s a = scoped_key s' a' \<longleftrightarrow> s = s' \<and> a = a'"
proof
  assume "scoped_key s a = scoped_key s' a'"
  then have "split_once (CHR 0x1F) (s @ CHR 0x1F # a) = split_once (CHR 0x1F) (s' @ CHR 0x1F # a')"
    by (simp add: scoped_key_def)
  then show "s = s' \<and> a = a'" using assms by simp
qed simp

subsection \<open>Properties\<close>

text \<open>
  C39. Under any interleaving of callers, a credential is handed out from the cache only for the
  scope and the subject it was minted for, and never with five seconds of life left or less.
\<close>

theorem cached_credentials_fit:
  assumes "fetch_run claim_check complete_at new_credential_cache (Answered (scoped_key s a) v now # l) c"
    and "CHR 0x1F \<notin> set s"
  shows "now + 5 * 1000000000 < be_expiration v \<and>
    (\<exists>t. Completed (scoped_key s a) (Inr v) t \<in> set l) \<and>
    (CHR 0x1F \<notin> set s' \<and> scoped_key s' a' = scoped_key s a \<longrightarrow> s' = s \<and> a' = a)"
  using credentials.answers_are_fetched [OF assms(1)] scoped_key_inj assms(2)
  by (auto simp: seconds_def min_serve_secs_def)

definition demo_backend_creds :: backend_credentials where
  "demo_backend_creds = \<lparr>be_access_key_id = ''A'', be_secret_access_key = ''s'', be_session_token = ''t'',
     be_expiration = 100 * 1000000000\<rparr>"

theorem cached_credentials_fit_witness:
  "\<exists>c. fetch_run claim_check (complete_at :: _ \<Rightarrow> _ \<Rightarrow> _ \<Rightarrow> string + _ \<Rightarrow> _) new_credential_cache
     [Answered (scoped_key ''arn'' ''sub'') demo_backend_creds 1,
      Completed (scoped_key ''arn'' ''sub'') (Inr demo_backend_creds) 0] c
   \<and> 1 + 5 * 1000000000 < be_expiration demo_backend_creds"
proof -
  let ?k = "scoped_key ''arn'' ''sub''"
  let ?l = "[Completed ?k (Inr demo_backend_creds) 0] :: (backend_credentials, string) fetch_event list"
  have "fetch_run claim_check complete_at new_credential_cache ?l
      (complete_at new_credential_cache 0 ?k (Inr demo_backend_creds :: string + _))"
    by (intro run_complete run_init)
  then have r: "fetch_run claim_check complete_at new_credential_cache (Answered ?k demo_backend_creds 1 # ?l)
      (complete_at new_credential_cache 0 ?k (Inr demo_backend_creds :: string + _))"
    by (rule run_answer) (simp add: claim_check_Some claim_Serve complete_at_def seconds_def
        refresh_lead_secs_def demo_backend_creds_def)
  moreover have "1 + 5 * 1000000000 < be_expiration demo_backend_creds"
    using cached_credentials_fit [OF r] by simp
  ultimately show ?thesis by blast
qed

text \<open>
  C40. A renewal is single-flighted and nobody waits.  In any run of any callers, once one of them has
  started to renew a credential, and until a fetch of that key completes, every lookup of the next thirty
  seconds is answered with the credential at hand as long as that has more than five seconds to live, so none
  starts a second renewal; and when the renewal fails inside the refresh lead, the next lookup tries again.
\<close>

theorem renewal_single_flight:
  assumes "credential_run (l1 @ Fetching k t # l2) c" "\<And>r s. Completed k r s \<notin> set l1"
    and "held k l2 = Some v" "now < t + 30 * 1000000000" "now + 5 * 1000000000 < be_expiration v"
  shows "claim c now k = (c, Serve v)
    \<and> (be_expiration v \<le> now + 60 * 1000000000 \<longrightarrow> snd (claim (complete c k (Inl err)) now k) = Fetch)"
proof -
  have "now + seconds min_serve_secs < be_expiration v" using assms(5) by (simp add: seconds_def min_serve_secs_def)
  from claim_stands[OF assms(1-3) this] obtain e u where e: "c k = Some e" "en_creds e = v"
    "en_renewing_since e = Some u" "t \<le> u \<or> now < u" by blast
  then have "now < u + 30 * 1000000000" using assms(4) by auto
  then show ?thesis using e assms(5)
    by (auto simp: claim_def Let_def seconds_def refresh_lead_secs_def min_serve_secs_def claim_timeout_secs_def)
qed

abbreviation demo_run :: "(backend_credentials, string) fetch_event list" where
  "demo_run \<equiv> [Fetching ''k'' (50 * 1000000000), Completed ''k'' (Inr demo_backend_creds) 0]"

lemma demo_claimed:
  "\<exists>c. credential_run demo_run c"
proof -
  have "credential_run [Completed ''k'' (Inr demo_backend_creds :: string + _) 0]
      (complete_at new_credential_cache 0 ''k'' (Inr demo_backend_creds :: string + _))"
    by (intro run_complete run_init)
  then have "credential_run demo_run
      [''k'' \<mapsto> \<lparr>en_creds = demo_backend_creds, en_renewing_since = Some (50 * 1000000000)\<rparr>]"
    by (rule run_fetch) (simp add: claim_check_def claim_def complete_at_def seconds_def refresh_lead_secs_def
        demo_backend_creds_def new_credential_cache_def)
  then show ?thesis by blast
qed

theorem renewal_single_flight_witness:
  "\<exists>c. credential_run demo_run c \<and> claim c (60 * 1000000000) ''k'' = (c, Serve demo_backend_creds)"
proof -
  obtain c where c: "credential_run demo_run c" using demo_claimed by blast
  from renewal_single_flight [of "[]" "''k''" "50 * 1000000000" "[Completed ''k'' (Inr demo_backend_creds) 0]" c,
      OF _ _ _, of demo_backend_creds "60 * 1000000000"] c show ?thesis
    by (auto simp: held_event_def demo_backend_creds_def)
qed

text \<open>
  The bounds are needed.  A renewal that takes longer than thirty seconds and then fails takes the claim
  from the caller that has claimed since, and a third one starts while that one is still renewing.
\<close>

lemma late_failure_releases_claim:
  assumes "claim c t k = (c', Fetch)" "c k = Some e" "be_expiration (en_creds e) \<le> now + seconds refresh_lead_secs"
  shows "snd (claim (complete c' k (Inl err)) now k) = Fetch"
  using assms by (auto simp: claim_def Let_def split: if_splits)

end
