(* ===== verification/OidcProvider.thy ===== *)
theory OidcProvider
  imports CredentialCache Jwks Middleware
begin

text \<open>
  \<open>crates/oidc-provider/src\<close>: minting assertions (\<open>jwt.rs\<close>), publishing the keys (\<open>jwks.rs\<close>,
  \<open>discovery.rs\<close>, \<open>route_handler.rs\<close>), trading an assertion for cloud credentials
  (\<open>exchange/aws.rs\<close>, \<open>azure.rs\<close>, \<open>gcp.rs\<close>), the provider (\<open>lib.rs\<close>) and the middleware that puts
  the credentials into a bucket's options (\<open>backend_auth.rs\<close>).  HTTP, base64, the JSON printer and
  readers, XML and RSA are parameters; \<open>None\<close> is a chrono overflow, which panics.
\<close>

datatype oidc_error =
    KeyError string
  | SigningError string
  | ExchangeError string
  | StsError string string
  | HttpError string

fun oidc_to_proxy_error :: "oidc_error \<Rightarrow> proxy_error" where
  "oidc_to_proxy_error (StsError code message) =
     (if code = ''AccessDenied'' then AccessDenied else BackendAuthError code)"
| "oidc_to_proxy_error (KeyError detail) = BackendAuthError ''ProviderKeyError''"
| "oidc_to_proxy_error (SigningError detail) = BackendAuthError ''SigningError''"
| "oidc_to_proxy_error (HttpError detail) = BackendError detail"
| "oidc_to_proxy_error (ExchangeError detail) = BackendError detail"

record ('sk, 'pk) oidc_libs =
  ol_b64url_encode :: "string \<Rightarrow> string"
  ol_print_json :: "json \<Rightarrow> string"
  ol_read_json :: "string \<Rightarrow> string + json"
  ol_from_pem :: "string \<Rightarrow> string + 'sk"
  ol_public_key :: "'sk \<Rightarrow> 'pk"
  ol_rsa_sign :: "'sk \<Rightarrow> string \<Rightarrow> string"
  ol_rsa_n :: "'pk \<Rightarrow> string"
  ol_rsa_e :: "'pk \<Rightarrow> string"
  ol_add_seconds :: "int \<Rightarrow> int \<Rightarrow> int option"
  ol_timestamp :: "int \<Rightarrow> int"
  ol_rfc3339 :: "string \<Rightarrow> string + int"
  ol_post_form :: "string \<Rightarrow> (string \<times> string) list \<Rightarrow> oidc_error + string"
  ol_read_sts_error :: "string \<Rightarrow> string + (string \<times> string)"
  ol_read_sts_response :: "string \<Rightarrow> string + backend_credentials"

subsection \<open>Assertions (jwt.rs)\<close>

record 'sk jwt_signer =
  js_private_key :: 'sk
  js_kid :: string
  js_ttl_seconds :: int

definition signer_from_pem ::
  "('sk, 'pk) oidc_libs \<Rightarrow> string \<Rightarrow> string \<Rightarrow> int \<Rightarrow> oidc_error + 'sk jwt_signer" where
  "signer_from_pem ol pem kid ttl =
     (case ol_from_pem ol pem of
        Inl e \<Rightarrow> Inl (KeyError (''failed to parse private key: '' @ e))
      | Inr k \<Rightarrow> Inr \<lparr>js_private_key = k, js_kid = kid, js_ttl_seconds = ttl\<rparr>)"

text \<open>\<open>Map::insert\<close>: an existing key keeps its place.\<close>

fun json_insert :: "string \<Rightarrow> json \<Rightarrow> (string \<times> json) list \<Rightarrow> (string \<times> json) list" where
  "json_insert k v [] = [(k, v)]"
| "json_insert k v ((k', v') # fs) = (if k' = k then (k, v) # fs else (k', v') # json_insert k v fs)"

definition jwt_header :: "string \<Rightarrow> json" where
  "jwt_header kid = JObject [(''alg'', JString ''RS256''), (''typ'', JString ''JWT''), (''kid'', JString kid)]"

definition jwt_payload ::
  "string \<Rightarrow> string \<Rightarrow> string \<Rightarrow> int \<Rightarrow> int \<Rightarrow> string \<Rightarrow> (string \<times> string) list \<Rightarrow> json" where
  "jwt_payload issuer subject audience exp_s now_s jti extra =
     JObject (foldl (\<lambda>fs (k, v). json_insert k (JString v) fs)
       [(''iss'', JString issuer), (''sub'', JString subject), (''aud'', JString audience),
        (''exp'', JInt exp_s), (''iat'', JInt now_s), (''nbf'', JInt now_s), (''jti'', JString jti)] extra)"

definition sign_jwt ::
  "('sk, 'pk) oidc_libs \<Rightarrow> 'sk jwt_signer \<Rightarrow> int \<Rightarrow> string \<Rightarrow> string \<Rightarrow> string \<Rightarrow> string
   \<Rightarrow> (string \<times> string) list \<Rightarrow> string option" where
  "sign_jwt ol js now jti subject issuer audience extra =
     (case ol_add_seconds ol now (js_ttl_seconds js) of
        None \<Rightarrow> None
      | Some until \<Rightarrow>
         (let header_b64 = ol_b64url_encode ol (ol_print_json ol (jwt_header (js_kid js)));
              payload_b64 = ol_b64url_encode ol (ol_print_json ol
                (jwt_payload issuer subject audience (ol_timestamp ol until) (ol_timestamp ol now) jti extra));
              signing_input = header_b64 @ ''.'' @ payload_b64;
              sig_b64 = ol_b64url_encode ol (ol_rsa_sign ol (js_private_key js) signing_input)
          in Some (signing_input @ ''.'' @ sig_b64)))"

subsection \<open>Published keys (jwks.rs, discovery.rs)\<close>

definition jwk_entry :: "('sk, 'pk) oidc_libs \<Rightarrow> 'pk \<times> string \<Rightarrow> json" where
  "jwk_entry ol = (\<lambda>(pk, kid). JObject
     [(''kty'', JString ''RSA''), (''alg'', JString ''RS256''), (''use'', JString ''sig''),
      (''kid'', JString kid), (''n'', JString (ol_b64url_encode ol (ol_rsa_n ol pk))),
      (''e'', JString (ol_b64url_encode ol (ol_rsa_e ol pk)))])"

definition jwks_json :: "('sk, 'pk) oidc_libs \<Rightarrow> ('pk \<times> string) list \<Rightarrow> string" where
  "jwks_json ol keys = ol_print_json ol (JObject [(''keys'', JArray (map (jwk_entry ol) keys))])"

definition openid_configuration_json :: "('sk, 'pk) oidc_libs \<Rightarrow> string \<Rightarrow> string \<Rightarrow> string" where
  "openid_configuration_json ol issuer jwks_uri = ol_print_json ol (JObject
     [(''issuer'', JString issuer), (''jwks_uri'', JString jwks_uri),
      (''response_types_supported'', JArray [JString ''id_token'']),
      (''subject_types_supported'', JArray [JString ''public'']),
      (''id_token_signing_alg_values_supported'', JArray [JString ''RS256''])])"

subsection \<open>The discovery routes (route handler)\<close>

definition oidc_config_handler :: "('sk, 'pk) oidc_libs \<Rightarrow> string \<Rightarrow> string \<Rightarrow> route_handler" where
  "oidc_config_handler ol issuer jwks_uri req =
     (if method_str (ri_method req) \<noteq> ''GET'' then None
      else Some (json_result 200 (openid_configuration_json ol issuer jwks_uri)))"

definition oidc_jwks_handler :: "('sk, 'pk) oidc_libs \<Rightarrow> 'sk jwt_signer list \<Rightarrow> route_handler" where
  "oidc_jwks_handler ol signers req =
     (if method_str (ri_method req) \<noteq> ''GET'' then None
      else Some (json_result 200 (jwks_json ol
             (map (\<lambda>s. (ol_public_key ol (js_private_key s), js_kid s)) signers))))"

definition with_oidc_discovery ::
  "'r matchit \<Rightarrow> ('sk, 'pk) oidc_libs \<Rightarrow> 'r \<Rightarrow> string \<Rightarrow> 'sk jwt_signer list \<Rightarrow> 'r outcome" where
  "with_oidc_discovery mi ol router issuer signers =
     (let jwks_uri = issuer @ ''/.well-known/jwks.json'' in
      outcome_bind (router_route mi router ''/.well-known/openid-configuration''
        (oidc_config_handler ol issuer jwks_uri)) (\<lambda>router.
      router_route mi router ''/.well-known/jwks.json'' (oidc_jwks_handler ol signers)))"

subsection \<open>The AWS exchange\<close>

record aws_exchange =
  ae_role_arn :: string
  ae_sts_endpoint :: string
  ae_session_name :: string
  ae_duration_seconds :: "u32 option"
  ae_session_policy :: "string option"

definition new_aws_exchange :: "string \<Rightarrow> aws_exchange" where
  "new_aws_exchange arn =
     \<lparr>ae_role_arn = arn, ae_sts_endpoint = ''https://sts.amazonaws.com'', ae_session_name = ''s3-proxy'',
      ae_duration_seconds = None, ae_session_policy = None\<rparr>"

definition session_name_char :: "string \<Rightarrow> char" where
  "session_name_char ch =
     (case ch of
        [c] \<Rightarrow> if is_ascii_alphanumeric c \<or> c \<in> set ''+=,.@-_'' then c else CHR ''_''
      | _ \<Rightarrow> CHR ''_'')"

definition sts_session_name :: "string \<Rightarrow> string" where
  "sts_session_name subject =
     (let name = take 64 (map session_name_char (utf8_chars subject))
      in if length name < 2 then ''s3-proxy'' else name)"

definition aws_form_pairs :: "aws_exchange \<Rightarrow> string \<Rightarrow> (string \<times> string) list" where
  "aws_form_pairs ae jwt =
     [(''Action'', ''AssumeRoleWithWebIdentity''), (''Version'', ''2011-06-15''),
      (''RoleArn'', ae_role_arn ae), (''RoleSessionName'', ae_session_name ae), (''WebIdentityToken'', jwt)]
     @ (case ae_duration_seconds ae of
          Some d \<Rightarrow> [(''DurationSeconds'', nat_to_string (unat d))] | None \<Rightarrow> [])
     @ (case ae_session_policy ae of Some p \<Rightarrow> [(''Policy'', p)] | None \<Rightarrow> [])"

text \<open>The two errors of \<open>FederationError\<close>, already converted the way \<open>lib.rs\<close> converts them.\<close>

definition parse_sts_response :: "('sk, 'pk) oidc_libs \<Rightarrow> string \<Rightarrow> oidc_error + backend_credentials" where
  "parse_sts_response ol xml =
     (if split_once_str ''<ErrorResponse'' xml \<noteq> None then
        (case ol_read_sts_error ol xml of
           Inl e \<Rightarrow> Inl (ExchangeError e)
         | Inr (code, message) \<Rightarrow> Inl (StsError code message))
      else map_error ExchangeError (ol_read_sts_response ol xml))"

definition aws_exchange_token ::
  "('sk, 'pk) oidc_libs \<Rightarrow> aws_exchange \<Rightarrow> string \<Rightarrow> oidc_error + backend_credentials" where
  "aws_exchange_token ol ae jwt =
     (case ol_post_form ol (ae_sts_endpoint ae) (aws_form_pairs ae jwt) of
        Inl e \<Rightarrow> Inl e
      | Inr body \<Rightarrow> parse_sts_response ol body)"

subsection \<open>The Azure exchange\<close>

record azure_exchange =
  az_tenant_id :: string
  az_client_id :: string
  az_scope :: string

definition new_azure_exchange :: "string \<Rightarrow> string \<Rightarrow> azure_exchange" where
  "new_azure_exchange tenant_id client_id =
     \<lparr>az_tenant_id = tenant_id, az_client_id = client_id,
      az_scope = ''https://storage.azure.com/.default''\<rparr>"

definition azure_token_endpoint :: "azure_exchange \<Rightarrow> string" where
  "azure_token_endpoint az =
     ''https://login.microsoftonline.com/'' @ az_tenant_id az @ ''/oauth2/v2.0/token''"

text \<open>The error of an answer that has an \<open>error\<close> member; the dash is the three bytes of U+2014.\<close>

definition described_error :: "('sk, 'pk) oidc_libs \<Rightarrow> string \<Rightarrow> json \<Rightarrow> json \<Rightarrow> oidc_error" where
  "described_error ol label parsed err =
     (let desc = the_or ''unknown error'' (json_str parsed ''error_description'')
      in ExchangeError (label @ '' error: '' @ ol_print_json ol err
           @ '' '' @ [CHR 0xE2, CHR 0x80, CHR 0x94] @ '' '' @ desc))"

text \<open>A bearer token takes the place of the session token; the key pair is empty.\<close>

definition bearer_credentials :: "string \<Rightarrow> int \<Rightarrow> backend_credentials" where
  "bearer_credentials token until =
     \<lparr>be_access_key_id = [], be_secret_access_key = [], be_session_token = token, be_expiration = until\<rparr>"

definition parse_azure_token_response ::
  "('sk, 'pk) oidc_libs \<Rightarrow> int \<Rightarrow> string \<Rightarrow> (oidc_error + backend_credentials) option" where
  "parse_azure_token_response ol now body =
     (case ol_read_json ol body of
        Inl e \<Rightarrow> Some (Inl (ExchangeError (''invalid Azure token response: '' @ e)))
      | Inr parsed \<Rightarrow>
         (case json_get parsed ''error'' of
            Some err \<Rightarrow> Some (Inl (described_error ol ''Azure AD'' parsed err))
          | None \<Rightarrow>
             (case json_str parsed ''access_token'' of
                None \<Rightarrow> Some (Inl (ExchangeError ''missing access_token''))
              | Some token \<Rightarrow>
                 (case json_i64 parsed ''expires_in'' of
                    None \<Rightarrow> Some (Inl (ExchangeError ''missing expires_in''))
                  | Some expires_in \<Rightarrow>
                     map_option (\<lambda>until. Inr (bearer_credentials token until))
                       (ol_add_seconds ol now expires_in)))))"

definition azure_exchange_token ::
  "('sk, 'pk) oidc_libs \<Rightarrow> azure_exchange \<Rightarrow> int \<Rightarrow> string \<Rightarrow> (oidc_error + backend_credentials) option" where
  "azure_exchange_token ol az now jwt =
     (case ol_post_form ol (azure_token_endpoint az)
             [(''grant_type'', ''client_credentials''),
              (''client_assertion_type'', ''urn:ietf:params:oauth:client-assertion-type:jwt-bearer''),
              (''client_assertion'', jwt), (''client_id'', az_client_id az), (''scope'', az_scope az)] of
        Inl e \<Rightarrow> Some (Inl e)
      | Inr body \<Rightarrow> parse_azure_token_response ol now body)"

subsection \<open>The GCP exchange\<close>

record gcp_exchange =
  gc_provider_resource_name :: string
  gc_service_account_email :: string
  gc_sts_endpoint :: string
  gc_scopes :: "string list"

definition new_gcp_exchange :: "string \<Rightarrow> string \<Rightarrow> gcp_exchange" where
  "new_gcp_exchange provider email =
     \<lparr>gc_provider_resource_name = provider, gc_service_account_email = email,
      gc_sts_endpoint = ''https://sts.googleapis.com/v1/token'',
      gc_scopes = [''https://www.googleapis.com/auth/cloud-platform'']\<rparr>"

definition generate_access_token_url :: "gcp_exchange \<Rightarrow> string" where
  "generate_access_token_url gc =
     ''https://iamcredentials.googleapis.com/v1/projects/-/serviceAccounts/''
       @ gc_service_account_email gc @ '':generateAccessToken''"

definition parse_sts_token_response :: "('sk, 'pk) oidc_libs \<Rightarrow> string \<Rightarrow> oidc_error + string" where
  "parse_sts_token_response ol body =
     (case ol_read_json ol body of
        Inl e \<Rightarrow> Inl (ExchangeError (''invalid GCP STS response: '' @ e))
      | Inr parsed \<Rightarrow>
         (case json_get parsed ''error'' of
            Some err \<Rightarrow> Inl (described_error ol ''GCP STS'' parsed err)
          | None \<Rightarrow> ok_or (ExchangeError ''missing access_token in STS response'') (json_str parsed ''access_token'')))"

definition parse_generate_access_token_response ::
  "('sk, 'pk) oidc_libs \<Rightarrow> string \<Rightarrow> oidc_error + backend_credentials" where
  "parse_generate_access_token_response ol body =
     (case ol_read_json ol body of
        Inl e \<Rightarrow> Inl (ExchangeError (''invalid generateAccessToken response: '' @ e))
      | Inr parsed \<Rightarrow>
         (case json_str parsed ''accessToken'' of
            None \<Rightarrow> Inl (ExchangeError ''missing accessToken'')
          | Some token \<Rightarrow>
             (case json_str parsed ''expireTime'' of
                None \<Rightarrow> Inl (ExchangeError ''missing expireTime'')
              | Some expire_time \<Rightarrow>
                 (case ol_rfc3339 ol expire_time of
                    Inl e \<Rightarrow> Inl (ExchangeError (''invalid expireTime: '' @ e))
                  | Inr until \<Rightarrow> Inr (bearer_credentials token until)))))"

definition gcp_exchange_token ::
  "('sk, 'pk) oidc_libs \<Rightarrow> gcp_exchange \<Rightarrow> string \<Rightarrow> oidc_error + backend_credentials" where
  "gcp_exchange_token ol gc jwt =
     (case ol_post_form ol (gc_sts_endpoint gc)
             [(''grant_type'', ''urn:ietf:params:oauth:grant-type:token-exchange''),
              (''audience'', gc_provider_resource_name gc),
              (''scope'', ''https://www.googleapis.com/auth/cloud-platform''),
              (''requested_token_type'', ''urn:ietf:params:oauth:token-type:access_token''),
              (''subject_token_type'', ''urn:ietf:params:oauth:token-type:jwt''), (''subject_token'', jwt)] of
        Inl e \<Rightarrow> Inl e
      | Inr sts_body \<Rightarrow>
         (case parse_sts_token_response ol sts_body of
            Inl e \<Rightarrow> Inl e
          | Inr federated_token \<Rightarrow>
             (case ol_post_form ol (generate_access_token_url gc)
                     [(''scope'', join_with '','' (gc_scopes gc)), (''_bearer_token'', federated_token)] of
                Inl e \<Rightarrow> Inl e
              | Inr iam_body \<Rightarrow> parse_generate_access_token_response ol iam_body)))"

subsection \<open>The provider (lib.rs)\<close>

text \<open>The cache is threaded through; the \<open>HttpExchange\<close> is \<open>ol_post_form\<close>.\<close>

record 'sk oidc_provider =
  op_signer :: "'sk jwt_signer"
  op_issuer :: string
  op_audience :: string

definition new_oidc_provider :: "'sk jwt_signer \<Rightarrow> string \<Rightarrow> string \<Rightarrow> credential_cache \<times> 'sk oidc_provider" where
  "new_oidc_provider js issuer audience =
     (new_credential_cache, \<lparr>op_signer = js, op_issuer = issuer, op_audience = audience\<rparr>)"

text \<open>A caller's clock readings and the random \<open>jti\<close>.  A panic leaves the claim as it was taken.\<close>

record fetch_stamps =
  fs_claimed :: int
  fs_signed :: int
  fs_jti :: string

definition get_credentials ::
  "('sk, 'pk) oidc_libs \<Rightarrow> 'sk oidc_provider \<Rightarrow> credential_cache \<Rightarrow> fetch_stamps \<Rightarrow> string
   \<Rightarrow> (string \<Rightarrow> (oidc_error + backend_credentials) option) \<Rightarrow> string \<Rightarrow> (string \<times> string) list
   \<Rightarrow> credential_cache \<times> (oidc_error + backend_credentials) option" where
  "get_credentials ol pv c st cache_key exchange subject extra =
     (let key = scoped_key cache_key subject in
      case claim c (fs_claimed st) key of
        (c', Serve creds) \<Rightarrow> (c', Some (Inr creds))
      | (c', Fetch) \<Rightarrow>
         (case Option.bind (sign_jwt ol (op_signer pv) (fs_signed st) (fs_jti st) subject
                  (op_issuer pv) (op_audience pv) extra) exchange of
            None \<Rightarrow> (c', None)
          | Some fetched \<Rightarrow> (complete c' key fetched, Some fetched)))"

subsection \<open>Backend credentials for a bucket (backend\_auth.rs)\<close>

definition resolve_aws ::
  "('sk, 'pk) oidc_libs \<Rightarrow> 'sk oidc_provider \<Rightarrow> credential_cache \<Rightarrow> fetch_stamps \<Rightarrow> bucket_config
   \<Rightarrow> credential_cache \<times> (string \<rightharpoonup> string) outcome" where
  "resolve_aws ol pv c st config =
     (case bc_option config ''oidc_role_arn'' of
        None \<Rightarrow> (c, Err (ConfigError (''auth_type=oidc requires '' @ [CHR 0x27] @ ''oidc_role_arn'' @ [CHR 0x27]
                      @ '' in backend_options'')))
      | Some role_arn \<Rightarrow>
         (let subject = the_or ''s3-proxy'' (bc_option config ''oidc_subject'');
              exchange = (new_aws_exchange role_arn)\<lparr>ae_session_name := sts_session_name subject\<rparr>
          in case get_credentials ol pv c st role_arn (\<lambda>jwt. Some (aws_exchange_token ol exchange jwt)) subject [] of
               (c', None) \<Rightarrow> (c', Panic)
             | (c', Some (Inl e)) \<Rightarrow> (c', Err (oidc_to_proxy_error e))
             | (c', Some (Inr creds)) \<Rightarrow>
                 (c', Ok ((bc_backend_options (apply_to creds config))
                        (''auth_type'' := None, ''oidc_role_arn'' := None, ''oidc_subject'' := None)))))"

definition unsupported_oidc :: "backend_type \<Rightarrow> proxy_error" where
  "unsupported_oidc other =
     ConfigError (''OIDC backend auth not yet supported for backend_type '' @ [CHR 0x27]
       @ backend_type_str other @ [CHR 0x27])"

text \<open>The cache afterwards and the context handed on, or the error.\<close>

definition aws_backend_context ::
  "('sk, 'pk) oidc_libs \<Rightarrow> 'sk oidc_provider \<Rightarrow> credential_cache \<Rightarrow> fetch_stamps \<Rightarrow> dispatch_context
   \<Rightarrow> credential_cache \<times> dispatch_context outcome" where
  "aws_backend_context ol pv c st ctx =
     (case dc_bucket_config ctx of
        None \<Rightarrow> (c, Ok ctx)
      | Some config \<Rightarrow>
          if bc_option config ''auth_type'' \<noteq> Some ''oidc'' then (c, Ok ctx)
          else
           (case bc_backend_type config of
              S3 \<Rightarrow>
               (case resolve_aws ol pv c st config of
                  (c', Ok options) \<Rightarrow>
                    (c', Ok (ctx\<lparr>dc_bucket_config := Some (config\<lparr>bc_backend_options := options\<rparr>)\<rparr>))
                | (c', Err e) \<Rightarrow> (c', Err e)
                | (c', Panic) \<Rightarrow> (c', Panic))
            | other \<Rightarrow> (c, Err (unsupported_oidc other))))"

definition aws_backend_auth ::
  "('sk, 'pk) oidc_libs \<Rightarrow> 'sk oidc_provider \<Rightarrow> credential_cache \<Rightarrow> fetch_stamps \<Rightarrow> middleware" where
  "aws_backend_auth ol pv c st ctx next = t_bind (t_of (snd (aws_backend_context ol pv c st ctx))) next"

datatype 'sk maybe_oidc_auth_mode = Enabled "'sk oidc_provider" | Disabled

definition maybe_oidc_auth ::
  "('sk, 'pk) oidc_libs \<Rightarrow> 'sk maybe_oidc_auth_mode \<Rightarrow> credential_cache \<Rightarrow> fetch_stamps \<Rightarrow> middleware" where
  "maybe_oidc_auth ol auth c st ctx next =
     (case auth of
        Enabled pv \<Rightarrow> aws_backend_auth ol pv c st ctx next
      | Disabled \<Rightarrow>
          if Option.bind (dc_bucket_config ctx) (\<lambda>config. bc_option config ''auth_type'') = Some ''oidc''
          then t_of (Err (ConfigError ''bucket requires auth_type=oidc but no OIDC provider is configured''))
          else next ctx)"

subsection \<open>What the middleware hands on\<close>

interpretation oidc_auth: lawful_middleware "maybe_oidc_auth ol auth c st" for ol auth c st
proof
  fix ctx :: dispatch_context and "next" :: dispatch
  have same: "same_request ctx ctx'" if "snd (aws_backend_context ol pv c st ctx) = Ok ctx'" for pv ctx'
    using that
    by (auto simp: aws_backend_context_def same_request_def
        split: option.splits if_splits backend_type.splits prod.splits outcome.splits)
  show "own_answer (fst (maybe_oidc_auth ol auth c st ctx next)) \<or>
      (\<exists>ctx' w. same_request ctx ctx' \<and>
         maybe_oidc_auth ol auth c st ctx next = (fst (next ctx'), w @ snd (next ctx')))"
  proof (cases auth)
    case (Enabled pv)
    show ?thesis
    proof (cases "snd (aws_backend_context ol pv c st ctx)")
      case (Ok ctx')
      then show ?thesis
        using same[OF Ok] by (auto simp: maybe_oidc_auth_def aws_backend_auth_def Enabled intro!: exI[of _ ctx'] exI[of _ "[]"])
    qed (simp_all add: maybe_oidc_auth_def aws_backend_auth_def Enabled)
  next
    case Disabled
    then show ?thesis by (auto simp: maybe_oidc_auth_def intro!: exI[of _ ctx] exI[of _ "[]"])
  qed
qed

text \<open>The credentials a bucket asks for: those of its role for its subject.\<close>

definition asked_credentials ::
  "('sk, 'pk) oidc_libs \<Rightarrow> 'sk oidc_provider \<Rightarrow> credential_cache \<Rightarrow> fetch_stamps \<Rightarrow> bucket_config \<Rightarrow> string
   \<Rightarrow> credential_cache \<times> (oidc_error + backend_credentials) option" where
  "asked_credentials ol pv c st config role =
     (let subject = the_or ''s3-proxy'' (bc_option config ''oidc_subject'')
      in get_credentials ol pv c st role
           (\<lambda>jwt. Some (aws_exchange_token ol ((new_aws_exchange role)\<lparr>ae_session_name := sts_session_name subject\<rparr>) jwt))
           subject [])"

lemma resolve_aws_Ok:
  assumes "resolve_aws ol pv c st config = (c', Ok options)"
  shows "\<exists>role creds. bc_option config ''oidc_role_arn'' = Some role \<and>
    asked_credentials ol pv c st config role = (c', Some (Inr creds)) \<and>
    options = (bc_backend_options (apply_to creds config))
      (''auth_type'' := None, ''oidc_role_arn'' := None, ''oidc_subject'' := None)"
proof (cases "bc_option config ''oidc_role_arn''")
  case None
  then show ?thesis using assms by (simp add: resolve_aws_def)
next
  case (Some role)
  obtain d r where "asked_credentials ol pv c st config role = (d, r)" by fastforce
  then show ?thesis
    using assms by (auto simp: resolve_aws_def Some asked_credentials_def Let_def split: option.splits sum.splits)
qed

text \<open>A bucket that asks for federated credentials reaches the rest of the chain with the
  credentials of its role and subject in its options and without the options that asked, or not at
  all; the rest of its configuration is unchanged.\<close>

lemma federated_bucket_options:
  assumes "dc_bucket_config ctx = Some config" "bc_option config ''auth_type'' = Some ''oidc''"
    and "aws_backend_context ol pv c st ctx = (c', Ok ctx')"
  shows "\<exists>role creds config'. bc_option config ''oidc_role_arn'' = Some role \<and>
    asked_credentials ol pv c st config role = (c', Some (Inr creds)) \<and>
    ctx' = ctx\<lparr>dc_bucket_config := Some config'\<rparr> \<and>
    bc_option config' ''access_key_id'' = Some (be_access_key_id creds) \<and>
    bc_option config' ''secret_access_key'' = Some (be_secret_access_key creds) \<and>
    bc_option config' ''token'' = Some (be_session_token creds) \<and>
    bc_option config' ''skip_signature'' = None \<and> bc_option config' ''auth_type'' = None \<and>
    config'\<lparr>bc_backend_options := bc_backend_options config\<rparr> = config"
proof -
  obtain options where run: "resolve_aws ol pv c st config = (c', Ok options)"
    and ctx: "ctx' = ctx\<lparr>dc_bucket_config := Some (config\<lparr>bc_backend_options := options\<rparr>)\<rparr>"
    using assms by (auto simp: aws_backend_context_def split: backend_type.splits prod.splits outcome.splits)
  obtain role creds where r: "bc_option config ''oidc_role_arn'' = Some role"
    "asked_credentials ol pv c st config role = (c', Some (Inr creds))"
    "options = (bc_backend_options (apply_to creds config))
      (''auth_type'' := None, ''oidc_role_arn'' := None, ''oidc_subject'' := None)"
    using resolve_aws_Ok[OF run] by blast
  show ?thesis
    by (rule exI[of _ role], rule exI[of _ creds], rule exI[of _ "config\<lparr>bc_backend_options := options\<rparr>"])
      (simp add: ctx r(1,2), simp add: r(3) bc_option_def apply_to_def)
qed

text \<open>Served credentials have time left; fetched ones answer this caller's assertion.\<close>

lemma get_credentials_source:
  assumes "get_credentials ol pv c st key exchange subject extra = (c', Some (Inr creds))"
  shows "claim c (fs_claimed st) (scoped_key key subject) = (c', Serve creds) \<or>
    (\<exists>token. sign_jwt ol (op_signer pv) (fs_signed st) (fs_jti st) subject (op_issuer pv) (op_audience pv) extra
        = Some token \<and> exchange token = Some (Inr creds) \<and>
      c' (scoped_key key subject) = Some \<lparr>en_creds = creds, en_renewing_since = None\<rparr>)"
  using assms
  by (auto simp: get_credentials_def Let_def split: prod.splits cache_action.splits option.splits Option.bind_splits)

end
