(* ===== verification/HostSetup.thy ===== *)
theory HostSetup
  imports HandleRequest OidcProvider Sts
begin

text \<open>
  What every host does to put a gateway together (\<open>examples/cf-workers/src/lib.rs\<close>,
  \<open>examples/server/src/server.rs\<close>, \<open>examples/lambda/src/main.rs\<close>): the stores and signers of a bucket, the
  provider of backend credentials, the routes, and the gateway itself.  The route of the token service
  is a parameter, since each host gives it its own credentials and cache.
\<close>

subsection \<open>Stores and signers\<close>

text \<open>How a store is built: whether over the fetch connector, and the retries, where they are set.\<close>

record store_settings =
  ss_fetch_connector :: bool
  ss_max_retries :: "nat option"

record 'signer store_libs =
  sl_azure :: bool
  sl_gcp :: bool
  sl_recognized :: "backend_type \<Rightarrow> string \<Rightarrow> bool"
  sl_build :: "store_settings \<Rightarrow> store_builder \<Rightarrow> string + list_store"
  sl_signer :: "store_builder \<Rightarrow> string + 'signer"
  sl_sign :: "'signer \<Rightarrow> url_signing"
  sl_percent_encode :: "(char \<Rightarrow> bool) \<Rightarrow> string \<Rightarrow> string"
  sl_parse_url :: "string \<Rightarrow> string + string"

definition host_paginated_store ::
  "'signer store_libs \<Rightarrow> store_settings \<Rightarrow> bucket_config \<Rightarrow> proxy_error + list_store" where
  "host_paginated_store sl settings config =
     (case create_builder (sl_azure sl) (sl_gcp sl) (sl_recognized sl) config of
        Inl e \<Rightarrow> Inl e
      | Inr b \<Rightarrow> build_paginated_store (sl_build sl settings) b)"

definition host_signer :: "'signer store_libs \<Rightarrow> bucket_config \<Rightarrow> proxy_error + url_signing" where
  "host_signer sl config =
     (case build_signer (sl_azure sl) (sl_gcp sl) (sl_recognized sl) (sl_signer sl) config of
        Inl e \<Rightarrow> Inl e
      | Inr (Unsigned u) \<Rightarrow> Inr (\<lambda>method path. unsigned_signed_url (sl_percent_encode sl) (sl_parse_url sl) u path)
      | Inr (Presigner s) \<Rightarrow> Inr (sl_sign sl s))"

subsection \<open>Backend credentials\<close>

definition oidc_setup ::
  "('sk, 'pk) oidc_libs \<Rightarrow> string option \<Rightarrow> string option
   \<Rightarrow> oidc_error + ('sk maybe_oidc_auth_mode \<times> (string \<times> 'sk jwt_signer) option)" where
  "oidc_setup ol key_pem issuer =
     (case (key_pem, issuer) of
        (Some pem, Some iss) \<Rightarrow>
         (case signer_from_pem ol pem ''proxy-key-1'' 300 of
            Inl e \<Rightarrow> Inl e
          | Inr js \<Rightarrow> Inr (Enabled (snd (new_oidc_provider js iss ''sts.amazonaws.com'')), Some (iss, js)))
      | _ \<Rightarrow> Inr (Disabled, None))"

subsection \<open>Routes and gateway\<close>

definition host_router ::
  "'r matchit \<Rightarrow> ('sk, 'pk) oidc_libs \<Rightarrow> (string \<times> 'sk jwt_signer) option \<Rightarrow> route_handler \<Rightarrow> 'r outcome" where
  "host_router mi ol published sts =
     outcome_bind (case published of
         Some (iss, js) \<Rightarrow> with_oidc_discovery mi ol (mi_new mi) iss [js]
       | None \<Rightarrow> Ok (mi_new mi)) (\<lambda>router. with_sts mi router ''/.sts'' sts)"

definition host_gateway ::
  "libs \<Rightarrow> 'r matchit \<Rightarrow> string \<Rightarrow> ('b, 's) proxy_backend \<Rightarrow> bucket_registry \<Rightarrow> credential_lookup
   \<Rightarrow> string option \<Rightarrow> middleware \<Rightarrow> 'r \<Rightarrow> token_resolver option \<Rightarrow> ('b, 's, 'r) gateway" where
  "host_gateway libs mi user_agent backend buckets credentials domain auth router resolver =
     (let gw = with_router (with_middleware
            (new_gateway libs mi user_agent backend buckets credentials domain) auth) router
      in case resolver of None \<Rightarrow> gw | Some r \<Rightarrow> with_credential_resolver gw r)"

definition load_token_key :: "'key sealing \<Rightarrow> string option \<Rightarrow> proxy_error + 'key option" where
  "load_token_key se secret =
     (case secret of
        None \<Rightarrow> Inr None
      | Some v \<Rightarrow> (case token_key_from_base64 se v of Inl e \<Rightarrow> Inl e | Inr key \<Rightarrow> Inr (Some key)))"

subsection \<open>Header maps\<close>

text \<open>\<open>HeaderMap::append\<close>: the values of a name stay together.\<close>

fun hm_append :: "string \<Rightarrow> string \<Rightarrow> header_map \<Rightarrow> header_map" where
  "hm_append n v [] = [(n, v)]"
| "hm_append n v ((m, w) # h) =
     (if m = n \<and> n \<notin> set (map fst h) then (m, w) # (n, v) # h else (m, w) # hm_append n v h)"

lemma values_of_hm_append: "values_of m (hm_append n v h) = values_of m h @ (if m = n then [v] else [])"
proof (induction n v h rule: hm_append.induct)
  case (2 n v m' w h)
  then show ?case
    using values_of_Nil_iff[of n h] by (cases "m' = n \<and> n \<notin> set (map fst h)") auto
qed simp

text \<open>A gateway a host builds has the registry it was given and the lawful chain it was given.\<close>

lemma host_gateway_parts:
  "gw_bucket_registry (host_gateway libs mi ua be buckets creds domain auth router resolver) = buckets"
  "gw_middleware (host_gateway libs mi ua be buckets creds domain auth router resolver) = [auth]"
  "gw_backend (host_gateway libs mi ua be buckets creds domain auth router resolver) = be"
  "gw_router (host_gateway libs mi ua be buckets creds domain auth router resolver) = router"
  by (simp_all add: host_gateway_def new_gateway_def with_router_def with_middleware_def
      with_credential_resolver_def Let_def split: option.splits)

end
