(* ===== verification/Bandwidth.thy ===== *)
theory Bandwidth
  imports Metering
begin

text \<open>
  \<open>examples/cf-workers/src/bandwidth.rs\<close> and \<open>metering.rs\<close>: the Durable Object that counts the bytes
  of one bucket and one caller in a sliding window, and the quota checker and usage recorder that ask
  it.  The runtime runs one event of an object at a time and may drop the object's memory between
  two events, never its storage; a storage call that fails is an input (\<open>faults\<close>).  Sums and products
  of \<open>u64\<close> wrap, as in a release build.
\<close>

subsection \<open>The object\<close>

record bw_entry =
  bw_ts :: u64
  bw_bytes :: u64

record meter =
  mt_entries :: "bw_entry list"
  mt_loaded :: bool
  mt_stored :: "bw_entry list option"
  mt_alarm :: "nat option"

record faults =
  get_fails :: bool
  put_fails :: bool
  alarm_fails :: bool

definition no_faults :: faults where
  "no_faults = \<lparr>get_fails = False, put_fails = False, alarm_fails = False\<rparr>"

text \<open>\<open>Failed\<close> is the error of the handler.\<close>

datatype meter_answer =
    Answer nat string
  | Failed string

text \<open>A new instance over the storage that is there.\<close>

definition meter_new :: "meter \<Rightarrow> meter" where
  "meter_new mt = mt\<lparr>mt_entries := [], mt_loaded := False\<rparr>"

definition first_meter :: meter where
  "first_meter = \<lparr>mt_entries = [], mt_loaded = False, mt_stored = None, mt_alarm = None\<rparr>"

definition ensure_loaded :: "faults \<Rightarrow> meter \<Rightarrow> meter option" where
  "ensure_loaded fl mt =
     (if mt_loaded mt then Some mt
      else if get_fails fl then None
      else Some (mt\<lparr>mt_entries := the_or (mt_entries mt) (mt_stored mt), mt_loaded := True\<rparr>))"

definition persist :: "meter \<Rightarrow> meter" where
  "persist mt = mt\<lparr>mt_stored := Some (mt_entries mt)\<rparr>"

definition saturating_sub :: "u64 \<Rightarrow> u64 \<Rightarrow> u64" where
  "saturating_sub a b = (if b \<le> a then a - b else 0)"

definition saturating_add :: "u64 \<Rightarrow> u64 \<Rightarrow> u64" where
  "saturating_add a b = (if unat a + unat b < 2 ^ 64 then a + b else - 1)"

definition prune :: "u64 \<Rightarrow> u64 \<Rightarrow> meter \<Rightarrow> meter" where
  "prune now_ms window_ms mt =
     (let cutoff = saturating_sub now_ms window_ms
      in mt\<lparr>mt_entries := filter (\<lambda>e. cutoff \<le> bw_ts e) (mt_entries mt)\<rparr>)"

definition total_bytes :: "meter \<Rightarrow> u64" where
  "total_bytes mt = sum_list (map bw_bytes (mt_entries mt))"

record query_params =
  qp_bytes :: "u64 option"
  qp_limit :: "u64 option"
  qp_window :: "u64 option"

text \<open>The last parameter of a name counts, also when it is not a number.\<close>

definition parse_query :: "(string \<times> string) list \<Rightarrow> query_params" where
  "parse_query pairs =
     foldl (\<lambda>q (k, v).
         if k = ''bytes'' then q\<lparr>qp_bytes := parse_u64 v\<rparr>
         else if k = ''limit'' then q\<lparr>qp_limit := parse_u64 v\<rparr>
         else if k = ''window'' then q\<lparr>qp_window := parse_u64 v\<rparr>
         else q)
       \<lparr>qp_bytes = None, qp_limit = None, qp_window = None\<rparr> pairs"

definition handle_check :: "faults \<Rightarrow> u64 \<Rightarrow> query_params \<Rightarrow> meter \<Rightarrow> meter \<times> meter_answer" where
  "handle_check fl now_ms ps mt =
     (let bytes = the_or 0 (qp_bytes ps) in
      case qp_limit ps of
        None \<Rightarrow> (mt, Failed (''missing '' @ [CHR 0x27] @ ''limit'' @ [CHR 0x27] @ '' param''))
      | Some limit \<Rightarrow>
         (case qp_window ps of
            None \<Rightarrow> (mt, Failed (''missing '' @ [CHR 0x27] @ ''window'' @ [CHR 0x27] @ '' param''))
          | Some window_secs \<Rightarrow>
             (case ensure_loaded fl mt of
                None \<Rightarrow> (mt, Failed ''storage'')
              | Some mt \<Rightarrow>
                 (let mt = prune now_ms (window_secs * 1000) mt
                  in (mt, if limit < saturating_add (total_bytes mt) bytes
                          then Answer 429 ''Rate limit exceeded'' else Answer 200 ''OK'')))))"

definition handle_record :: "faults \<Rightarrow> u64 \<Rightarrow> query_params \<Rightarrow> meter \<Rightarrow> meter \<times> meter_answer" where
  "handle_record fl now_ms ps mt =
     (case qp_bytes ps of
        None \<Rightarrow> (mt, Failed (''missing '' @ [CHR 0x27] @ ''bytes'' @ [CHR 0x27] @ '' param''))
      | Some bytes \<Rightarrow>
         (case qp_window ps of
            None \<Rightarrow> (mt, Failed (''missing '' @ [CHR 0x27] @ ''window'' @ [CHR 0x27] @ '' param''))
          | Some window_secs \<Rightarrow>
             (case ensure_loaded fl mt of
                None \<Rightarrow> (mt, Failed ''storage'')
              | Some mt \<Rightarrow>
                 (let window_ms = window_secs * 1000;
                      mt = prune now_ms window_ms mt;
                      mt = mt\<lparr>mt_entries := mt_entries mt @ [\<lparr>bw_ts = now_ms, bw_bytes = bytes\<rparr>]\<rparr>
                  in if put_fails fl then (mt, Failed ''storage'')
                     else if alarm_fails fl then (persist mt, Failed ''storage'')
                     else ((persist mt)\<lparr>mt_alarm := Some (unat now_ms + unat window_ms)\<rparr>, Answer 200 ''recorded'')))))"

definition meter_fetch ::
  "faults \<Rightarrow> u64 \<Rightarrow> http_method \<Rightarrow> string \<Rightarrow> (string \<times> string) list \<Rightarrow> meter \<Rightarrow> meter \<times> meter_answer" where
  "meter_fetch fl now_ms method path pairs mt =
     (if method = GET \<and> path = ''/check'' then handle_check fl now_ms (parse_query pairs) mt
      else if method = POST \<and> path = ''/record'' then handle_record fl now_ms (parse_query pairs) mt
      else (mt, Answer 404 ''Not Found''))"

text \<open>The runtime takes the alarm off before it calls the handler.\<close>

definition meter_alarm :: "faults \<Rightarrow> meter \<Rightarrow> meter \<times> meter_answer" where
  "meter_alarm fl mt =
     (let mt = mt\<lparr>mt_alarm := None\<rparr> in
      case ensure_loaded fl mt of
        None \<Rightarrow> (mt, Failed ''storage'')
      | Some mt \<Rightarrow>
         (let mt = mt\<lparr>mt_entries := []\<rparr>
          in if put_fails fl then (mt, Failed ''storage'') else (persist mt, Answer 200 ''alarm handled'')))"

subsection \<open>The checker and the recorder\<close>

record bucket_quota =
  bq_limit_bytes :: "u64 option"
  bq_window_secs :: u64

definition do_key :: "string \<Rightarrow> resolved_identity \<Rightarrow> string option \<Rightarrow> string" where
  "do_key bucket identity source_ip =
     (let identity_part =
        (case identity of
           Anonymous \<Rightarrow> ''anon:'' @ the_or ''unknown'' source_ip
         | Authenticated i \<Rightarrow> ''auth:'' @ principal_name i)
      in bucket @ '':'' @ identity_part)"

text \<open>The call of an object by its key: the status it answers with, or an error.\<close>

type_synonym object_fetch = "string \<Rightarrow> http_method \<Rightarrow> string \<Rightarrow> string + nat"

definition do_check_quota :: "(string \<rightharpoonup> bucket_quota) \<Rightarrow> object_fetch \<Rightarrow> quota_checker" where
  "do_check_quota quotas fetch identity operation bucket n source_ip =
     (case bucket of
        None \<Rightarrow> None
      | Some bucket \<Rightarrow>
         (case quotas bucket of
            None \<Rightarrow> None
          | Some quota \<Rightarrow>
             (case bq_limit_bytes quota of
                None \<Rightarrow> None
              | Some limit \<Rightarrow>
                 (case fetch (do_key bucket identity source_ip) GET
                         (''https://do/check?bytes='' @ nat_to_string (unat n)
                           @ ''&limit='' @ nat_to_string (unat limit)
                           @ ''&window='' @ nat_to_string (unat (bq_window_secs quota))) of
                    Inl e \<Rightarrow> None
                  | Inr status \<Rightarrow>
                      if status = 429
                      then Some (''Bandwidth quota exceeded for bucket '' @ [CHR 0x27] @ bucket @ [CHR 0x27])
                      else None))))"

text \<open>The request a recorded event makes, if it makes one.\<close>

definition do_record_operation ::
  "(string \<rightharpoonup> bucket_quota) \<Rightarrow> usage_event \<Rightarrow> (string \<times> http_method \<times> string) option" where
  "do_record_operation quotas event =
     (case ue_bucket event of
        None \<Rightarrow> None
      | Some bucket \<Rightarrow>
          if ue_bytes_transferred event = 0 then None
          else
           (case quotas bucket of
              None \<Rightarrow> None
            | Some quota \<Rightarrow>
               (case ue_identity event of
                  None \<Rightarrow> None
                | Some identity \<Rightarrow>
                    Some (do_key bucket identity (ue_source_ip event), POST,
                      ''https://do/record?bytes='' @ nat_to_string (unat (ue_bytes_transferred event))
                        @ ''&window='' @ nat_to_string (unat (bq_window_secs quota))))))"

subsection \<open>The window\<close>

text \<open>
  What happens to an object that is always asked with the same window of \<open>w\<close> seconds: records,
  checks, alarms at or after their time, and restarts, the clock never going back.  The log has every
  record, the newest first.
\<close>

inductive meter_run :: "u64 \<Rightarrow> bw_entry list \<Rightarrow> u64 \<Rightarrow> meter \<Rightarrow> bool" for w where
  meter_first: "meter_run w [] now first_meter"
| meter_record: "meter_run w log now mt \<Longrightarrow> now \<le> t \<Longrightarrow> qp_window (parse_query ps) = Some w \<Longrightarrow>
    qp_bytes (parse_query ps) = Some b \<Longrightarrow>
    meter_run w (\<lparr>bw_ts = t, bw_bytes = b\<rparr> # log) t (fst (meter_fetch no_faults t POST ''/record'' ps mt))"
| meter_check: "meter_run w log now mt \<Longrightarrow> now \<le> t \<Longrightarrow> qp_window (parse_query ps) = Some w \<Longrightarrow>
    meter_run w log t (fst (meter_fetch no_faults t GET ''/check'' ps mt))"
| meter_alarmed: "meter_run w log now mt \<Longrightarrow> now \<le> t \<Longrightarrow> mt_alarm mt = Some a \<Longrightarrow> a \<le> unat t \<Longrightarrow>
    meter_run w log t (fst (meter_alarm no_faults mt))"
| meter_restart: "meter_run w log now mt \<Longrightarrow> meter_run w log now (meter_new mt)"

text \<open>The milliseconds of the window, and the records that are in it at a time.\<close>

definition window_ms :: "u64 \<Rightarrow> nat" where
  "window_ms w = unat w * 1000"

definition inside :: "u64 \<Rightarrow> u64 \<Rightarrow> bw_entry \<Rightarrow> bool" where
  "inside w t e \<longleftrightarrow> unat t < unat (bw_ts e) + window_ms w"

definition inside_or_edge :: "u64 \<Rightarrow> u64 \<Rightarrow> bw_entry \<Rightarrow> bool" where
  "inside_or_edge w t e \<longleftrightarrow> unat t \<le> unat (bw_ts e) + window_ms w"

definition bytes_of :: "bw_entry multiset \<Rightarrow> nat" where
  "bytes_of M = sum_mset (image_mset (\<lambda>e. unat (bw_bytes e)) M)"

lemma bytes_of_mono: "M \<subseteq># N \<Longrightarrow> bytes_of M \<le> bytes_of N"
  by (auto simp: bytes_of_def subset_mset.le_iff_add)

definition held :: "meter \<Rightarrow> bw_entry list" where
  "held mt = (if mt_loaded mt then mt_entries mt else the_or [] (mt_stored mt))"

text \<open>A copy of the records: some of them, all of those in the window among them.\<close>

definition copy_of :: "u64 \<Rightarrow> u64 \<Rightarrow> bw_entry list \<Rightarrow> bw_entry list \<Rightarrow> bool" where
  "copy_of w t log es \<longleftrightarrow> mset es \<subseteq># mset log \<and> filter_mset (inside w t) (mset log) \<subseteq># mset es"

definition meter_ok :: "u64 \<Rightarrow> bw_entry list \<Rightarrow> u64 \<Rightarrow> meter \<Rightarrow> bool" where
  "meter_ok w log now mt \<longleftrightarrow>
     (\<forall>e \<in> set log. bw_ts e \<le> now) \<and> (\<not> mt_loaded mt \<longrightarrow> mt_entries mt = []) \<and>
     copy_of w now log (held mt) \<and> copy_of w now log (the_or [] (mt_stored mt)) \<and>
     (\<forall>a. mt_alarm mt = Some a \<longrightarrow> (\<forall>e \<in> set log. unat (bw_ts e) + window_ms w \<le> a))"

lemma meter_okD:
  assumes "meter_ok w log now mt"
  shows "e \<in> set log \<Longrightarrow> bw_ts e \<le> now" "\<not> mt_loaded mt \<Longrightarrow> mt_entries mt = []"
    "copy_of w now log (held mt)" "copy_of w now log (the_or [] (mt_stored mt))"
    "mt_alarm mt = Some a \<Longrightarrow> e \<in> set log \<Longrightarrow> unat (bw_ts e) + window_ms w \<le> a"
  using assms unfolding meter_ok_def by blast+

lemma inside_later: "now \<le> t \<Longrightarrow> inside w t e \<Longrightarrow> inside w now e"
  by (auto simp: inside_def word_le_nat_alt)

lemma filter_mset_weaker: "(\<And>x. P x \<Longrightarrow> Q x) \<Longrightarrow> filter_mset P M \<subseteq># filter_mset Q M"
  by (induction M) (auto intro: subset_mset.order_trans)

lemma filter_mset_none: "(\<And>x. x \<in># M \<Longrightarrow> \<not> P x) \<Longrightarrow> filter_mset P M = {#}"
  by (induction M) auto

lemma filter_mset_absorb: "(\<And>x. P x \<Longrightarrow> Q x) \<Longrightarrow> filter_mset Q (filter_mset P M) = filter_mset P M"
  by (induction M) auto

lemma copy_add:
  assumes "copy_of w t log es"
  shows "copy_of w t (e # log) (es @ [e])"
proof -
  have "mset es \<subseteq># add_mset e (mset es)" using mset_subset_eq_add_left[of "mset es" "{#e#}"] by simp
  then show ?thesis using assms by (auto simp: copy_of_def intro: subset_mset.order_trans)
qed

lemma copy_later:
  assumes "copy_of w now log es" "now \<le> t"
  shows "copy_of w t log es"
proof -
  have "filter_mset (inside w t) (mset log) \<subseteq># filter_mset (inside w now) (mset log)"
    by (rule filter_mset_weaker) (rule inside_later[OF assms(2)])
  then show ?thesis using assms(1) by (auto simp: copy_of_def intro: subset_mset.order_trans)
qed

lemma cutoff_iff:
  assumes "window_ms w < 2 ^ 64"
  shows "saturating_sub t (w * 1000) \<le> bw_ts e \<longleftrightarrow> inside_or_edge w t e"
proof -
  have w: "unat (w * 1000) = window_ms w"
    using assms by (simp add: window_ms_def unat_word_ariths)
  show ?thesis
  proof (cases "w * 1000 \<le> t")
    case True
    then have "unat (t - w * 1000) = unat t - window_ms w" by (simp add: unat_sub w)
    then show ?thesis using True by (auto simp: saturating_sub_def inside_or_edge_def word_le_nat_alt w)
  next
    case False
    then show ?thesis by (auto simp: saturating_sub_def inside_or_edge_def word_le_nat_alt w)
  qed
qed

lemma inside_edge: "inside w t e \<Longrightarrow> inside_or_edge w t e"
  by (simp add: inside_def inside_or_edge_def)

lemma prune_copy:
  assumes "window_ms w < 2 ^ 64" "copy_of w t log (mt_entries mt)"
  shows "copy_of w t log (mt_entries (prune t (w * 1000) mt))"
proof -
  let ?es = "mt_entries mt"
  have pruned: "mset (mt_entries (prune t (w * 1000) mt)) = filter_mset (inside_or_edge w t) (mset ?es)"
    using cutoff_iff[OF assms(1)] by (simp add: prune_def Let_def)
  have "filter_mset (inside w t) (mset log) = filter_mset (inside_or_edge w t) (filter_mset (inside w t) (mset log))"
    by (rule filter_mset_absorb[symmetric]) (rule inside_edge)
  also have "\<dots> \<subseteq># filter_mset (inside_or_edge w t) (mset ?es)"
    using assms(2) by (intro multiset_filter_mono) (simp add: copy_of_def)
  finally show ?thesis
    using assms(2) subset_mset.order_trans[OF multiset_filter_subset[of "inside_or_edge w t" "mset ?es"]]
    unfolding copy_of_def pruned by blast
qed

lemma ensure_loaded_no_faults:
  assumes "\<not> mt_loaded mt \<longrightarrow> mt_entries mt = []"
  shows "ensure_loaded no_faults mt = Some (mt\<lparr>mt_entries := held mt, mt_loaded := True\<rparr>)"
  using assms by (simp add: ensure_loaded_def no_faults_def held_def)

text \<open>Every event keeps the object in order.\<close>

lemma meter_run_ok:
  assumes "window_ms w < 2 ^ 64"
  shows "meter_run w log now mt \<Longrightarrow> meter_ok w log now mt"
proof (induction rule: meter_run.induct)
  case (meter_first now)
  show ?case by (simp add: meter_ok_def first_meter_def copy_of_def held_def)
next
  case (meter_restart log now mt)
  then show ?case by (auto simp: meter_ok_def meter_new_def held_def)
next
  case (meter_check log now mt t ps)
  note ok = meter_okD[OF meter_check.IH]
  have "copy_of w t log (held mt)" by (rule copy_later[OF ok(3) meter_check.hyps(2)])
  from prune_copy[OF assms, of t log "mt\<lparr>mt_entries := held mt, mt_loaded := True\<rparr>"] this
  have pruned: "copy_of w t log (mt_entries (prune t (w * 1000) (mt\<lparr>mt_entries := held mt, mt_loaded := True\<rparr>)))" by simp
  have stored: "copy_of w t log (the_or [] (mt_stored mt))" by (rule copy_later[OF ok(4) meter_check.hyps(2)])
  have run: "fst (meter_fetch no_faults t GET ''/check'' ps mt) = mt \<or>
      fst (meter_fetch no_faults t GET ''/check'' ps mt) = prune t (w * 1000) (mt\<lparr>mt_entries := held mt, mt_loaded := True\<rparr>)"
    using ok(2) meter_check.hyps(3)
    by (auto simp: meter_fetch_def handle_check_def ensure_loaded_no_faults Let_def split: option.split)
  have "meter_ok w log t mt"
    using ok meter_check.hyps(2) copy_later unfolding meter_ok_def by fastforce
  moreover have "meter_ok w log t (prune t (w * 1000) (mt\<lparr>mt_entries := held mt, mt_loaded := True\<rparr>))"
    using pruned stored ok(1,5) meter_check.hyps(2) unfolding meter_ok_def held_def
    by (fastforce simp: prune_def Let_def)
  ultimately show ?case using run by metis
next
  case (meter_record log now mt t ps b)
  note ok = meter_okD[OF meter_record.IH]
  let ?e = "\<lparr>bw_ts = t, bw_bytes = b\<rparr>"
  let ?mt = "prune t (w * 1000) (mt\<lparr>mt_entries := held mt, mt_loaded := True\<rparr>)"
  have "copy_of w t log (held mt)" by (rule copy_later[OF ok(3) meter_record.hyps(2)])
  from prune_copy[OF assms, of t log "mt\<lparr>mt_entries := held mt, mt_loaded := True\<rparr>"] this
  have pruned: "copy_of w t log (mt_entries ?mt)" by simp
  have w: "unat (w * 1000) = window_ms w" using assms by (simp add: window_ms_def unat_word_ariths)
  have run: "fst (meter_fetch no_faults t POST ''/record'' ps mt) =
      ?mt\<lparr>mt_entries := mt_entries ?mt @ [?e], mt_stored := Some (mt_entries ?mt @ [?e]),
          mt_alarm := Some (unat t + window_ms w)\<rparr>"
    using ok(2) meter_record.hyps(3,4)
    by (simp add: meter_fetch_def handle_record_def ensure_loaded_no_faults persist_def Let_def w) (simp add: no_faults_def)
  have copy: "copy_of w t (?e # log) (mt_entries ?mt @ [?e])"
    by (rule copy_add[OF pruned])
  have "mt_loaded ?mt" by (simp add: prune_def Let_def)
  moreover have "unat (bw_ts f) \<le> unat t" if "f \<in> set log" for f
    using ok(1)[OF that] meter_record.hyps(2) by (simp add: word_le_nat_alt)
  ultimately show ?case
    unfolding run meter_ok_def using copy ok(1) meter_record.hyps(2) by (auto simp: held_def word_le_nat_alt)
next
  case (meter_alarmed log now mt t a)
  note ok = meter_okD[OF meter_alarmed.IH]
  have "fst (meter_alarm no_faults mt) = mt\<lparr>mt_entries := [], mt_loaded := True, mt_stored := Some [], mt_alarm := None\<rparr>"
    using ok(2) by (simp add: meter_alarm_def ensure_loaded_def no_faults_def persist_def Let_def)
  moreover have "\<not> inside w t e" if "e \<in> set log" for e
    using ok(5)[OF meter_alarmed.hyps(3) that] meter_alarmed.hyps(4) by (simp add: inside_def)
  then have "filter_mset (inside w t) (mset log) = {#}" by (intro filter_mset_none) auto
  moreover have "bw_ts e \<le> t" if "e \<in> set log" for e using ok(1)[OF that] meter_alarmed.hyps(2) by (rule order_trans)
  ultimately show ?case by (simp add: meter_ok_def held_def copy_of_def)
qed

lemma unat_add_fits: "unat a + unat b < 2 ^ 64 \<Longrightarrow> unat (a + b :: u64) = unat a + unat b"
  by (simp add: unat_word_ariths)

lemma unat_total:
  "bytes_of (mset es) < 2 ^ 64 \<Longrightarrow> unat (sum_list (map bw_bytes es)) = bytes_of (mset es)"
proof (induction es)
  case (Cons e es)
  then show ?case by (simp add: bytes_of_def unat_add_fits)
qed (simp add: bytes_of_def)

definition window_bytes :: "(bw_entry \<Rightarrow> bool) \<Rightarrow> bw_entry list \<Rightarrow> nat" where
  "window_bytes P log = bytes_of (mset (filter P log))"

text \<open>
  C38. A bandwidth object that has been asked with one window, through records, checks, late alarms and
  restarts in any order, refuses a request whose bytes go over the limit together with the bytes
  recorded less than a window ago, and refuses only if they do so with the records that are exactly a
  window old counted as well; it gives no other answer.
\<close>
theorem bandwidth_window:
  assumes run: "meter_run w log now mt" and t: "now \<le> t"
    and ps: "qp_window (parse_query ps) = Some w" "qp_limit (parse_query ps) = Some limit"
    and fits: "window_ms w < 2 ^ 64" "bytes_of (mset log) + unat (the_or 0 (qp_bytes (parse_query ps))) < 2 ^ 64"
  shows "\<exists>used. window_bytes (inside w t) log \<le> used \<and> used \<le> window_bytes (inside_or_edge w t) log \<and>
    snd (meter_fetch no_faults t GET ''/check'' ps mt) =
      (if unat limit < used + unat (the_or 0 (qp_bytes (parse_query ps)))
       then Answer 429 ''Rate limit exceeded'' else Answer 200 ''OK'')"
proof -
  note ok = meter_okD[OF meter_run_ok[OF fits(1) run]]
  let ?bytes = "the_or 0 (qp_bytes (parse_query ps))"
  let ?mt = "prune t (w * 1000) (mt\<lparr>mt_entries := held mt, mt_loaded := True\<rparr>)"
  let ?used = "bytes_of (mset (mt_entries ?mt))"
  have "copy_of w t log (held mt)" by (rule copy_later[OF ok(3) t])
  from prune_copy[OF fits(1), of t log "mt\<lparr>mt_entries := held mt, mt_loaded := True\<rparr>"] this
  have copy: "filter_mset (inside w t) (mset log) \<subseteq># mset (mt_entries ?mt)" "mset (mt_entries ?mt) \<subseteq># mset log"
    by (simp_all add: copy_of_def)
  have "filter_mset (inside_or_edge w t) (mset (mt_entries ?mt)) = mset (mt_entries ?mt)"
    using cutoff_iff[OF fits(1), of t] filter_mset_absorb[of "inside_or_edge w t" "inside_or_edge w t"]
    by (simp add: prune_def Let_def)
  then have edge: "mset (mt_entries ?mt) \<subseteq># filter_mset (inside_or_edge w t) (mset log)"
    using multiset_filter_mono[OF copy(2)] by metis
  have fit: "?used + unat ?bytes < 2 ^ 64" using bytes_of_mono[OF copy(2)] fits(2) by linarith
  then have used: "unat (total_bytes ?mt) = ?used" by (simp add: total_bytes_def unat_total)
  have "unat (saturating_add (total_bytes ?mt) ?bytes) = ?used + unat ?bytes"
    using fit by (simp add: saturating_add_def used unat_add_fits)
  then have "snd (meter_fetch no_faults t GET ''/check'' ps mt) =
      (if unat limit < ?used + unat ?bytes then Answer 429 ''Rate limit exceeded'' else Answer 200 ''OK'')"
    using ok(2) ps by (simp add: meter_fetch_def handle_check_def ensure_loaded_no_faults Let_def word_less_nat_alt)
  then show ?thesis
    using bytes_of_mono[OF copy(1)] bytes_of_mono[OF edge] unfolding window_bytes_def mset_filter by blast
qed

definition demo_params :: "string \<Rightarrow> (string \<times> string) list" where
  "demo_params bytes = [(''bytes'', bytes), (''limit'', ''100''), (''window'', ''10'')]"

lemma bandwidth_window_witness:
  "\<exists>mt. meter_run 10 [\<lparr>bw_ts = 0, bw_bytes = 60\<rparr>] 0 mt \<and>
     snd (meter_fetch no_faults 5000 GET ''/check'' (demo_params ''50'') mt) = Answer 429 ''Rate limit exceeded''"
proof -
  let ?ps = "demo_params ''60''" and ?qs = "demo_params ''50''"
  let ?mt = "fst (meter_fetch no_faults 0 POST ''/record'' ?ps first_meter)"
  have ps: "qp_window (parse_query ?ps) = Some 10" "qp_bytes (parse_query ?ps) = Some 60"
    "qp_window (parse_query ?qs) = Some 10" "qp_bytes (parse_query ?qs) = Some 50" "qp_limit (parse_query ?qs) = Some 100"
    by (simp_all add: demo_params_def parse_query_def parse_u64_def parse_unsigned_def is_digit_def)
  have run: "meter_run 10 [\<lparr>bw_ts = 0, bw_bytes = 60\<rparr>] 0 ?mt"
    by (rule meter_record[OF meter_first _ ps(1,2)]) simp
  have "snd (meter_fetch no_faults 5000 GET ''/check'' ?qs ?mt) = Answer 429 ''Rate limit exceeded''"
    using bandwidth_window[OF run, of 5000 ?qs 100] ps
    by (auto simp: window_bytes_def bytes_of_def inside_def inside_or_edge_def window_ms_def split: if_splits)
  then show ?thesis using run by blast
qed

text \<open>Bucket names without a colon and callers determine the object.\<close>

lemma do_key_inj:
  assumes "CHR '':'' \<notin> set b" "CHR '':'' \<notin> set b'" "do_key b i ip = do_key b' i' ip'"
  shows "b = b' \<and> (case (i, i') of
      (Anonymous, Anonymous) \<Rightarrow> the_or ''unknown'' ip = the_or ''unknown'' ip'
    | (Authenticated x, Authenticated y) \<Rightarrow> principal_name x = principal_name y
    | _ \<Rightarrow> False)"
proof -
  have "split_once (CHR '':'') (do_key b i ip) = split_once (CHR '':'') (do_key b' i' ip')" using assms(3) by simp
  then show ?thesis
    using assms(1,2) by (cases i; cases i') (auto simp: do_key_def Let_def)
qed

end
