(* ===== verification/Workers.thy ===== *)
theory Workers
  imports Bandwidth OidcProvider
begin

text \<open>
  What the Workers host computes itself: header helpers and the length of an upload
  (\<open>crates/cf-workers/src\<close>: \<open>cors.rs\<close>, \<open>response.rs\<close>, \<open>headers.rs\<close>, \<open>backend.rs\<close>), the request as the
  gateway sees it (\<open>request.rs\<close>), and the rate limiter (\<open>examples/cf-workers/src/rate_limit.rs\<close>).  The
  JavaScript objects themselves are left out.
\<close>

subsection \<open>Headers\<close>

definition cors_pairs :: "(string \<times> string) list" where
  "cors_pairs =
     [(''access-control-allow-origin'', ''*''), (''access-control-allow-methods'', ''GET, HEAD, OPTIONS''),
      (''access-control-allow-headers'', ''*''), (''access-control-expose-headers'', ''*'')]"

definition add_cors_headers :: "header_map \<Rightarrow> header_map" where
  "add_cors_headers headers =
     foldl (\<lambda>h (n, v). if hv_valid v then hm_insert n v h else h) headers cors_pairs"

definition set_no_transform :: "header_map \<Rightarrow> header_map" where
  "set_no_transform headers =
     (let insert_value = (\<lambda>v. if hv_valid v then hm_insert ''cache-control'' v headers else headers) in
      case hm_str headers ''cache-control'' of
        Some v \<Rightarrow>
          if list_ex (\<lambda>d. eq_ignore_ascii_case (trim_ws d) ''no-transform'') (split_on (CHR '','') v) then headers
          else if trim_ws v \<noteq> [] then insert_value (v @ '', no-transform'')
          else insert_value ''no-transform''
      | None \<Rightarrow> insert_value ''no-transform'')"

text \<open>\<open>Headers.set\<close> replaces: of a repeated header the last readable value passes.\<close>

definition ws_headers :: "header_map \<Rightarrow> header_map" where
  "ws_headers headers =
     foldl (\<lambda>ws (key, v). case hv_to_str v of Some s \<Rightarrow> hm_insert key s ws | None \<Rightarrow> ws) [] headers"

definition fixed_body_length :: "header_map \<Rightarrow> u64 option" where
  "fixed_body_length headers =
     (let chunked = (case hm_str headers ''content-encoding'' of
                       Some v \<Rightarrow> split_once_str ''aws-chunked'' v \<noteq> None | None \<Rightarrow> False)
      in if chunked then None
         else Option.bind (hm_str headers ''content-length'') parse_u64)"

subsection \<open>Requests\<close>

record request_parts =
  rp_method :: http_method
  rp_path :: string
  rp_signing_path :: string
  rp_query :: "string option"
  rp_headers :: header_map
  rp_form_body :: "string option"

text \<open>Parameters: the URI parser (path and query) and the lossy percent decoder.\<close>

definition request_from_web ::
  "(string \<Rightarrow> string + http_method) \<Rightarrow> (string \<Rightarrow> string + string \<times> string option) \<Rightarrow> (string \<Rightarrow> string)
   \<Rightarrow> string \<Rightarrow> string \<Rightarrow> header_map \<Rightarrow> string + request_parts" where
  "request_from_web parse_method parse_uri percent_decode method url headers =
     (case parse_method method of
        Inl e \<Rightarrow> Inl (''invalid method: '' @ e)
      | Inr m \<Rightarrow>
         (case parse_uri url of
            Inl e \<Rightarrow> Inl (''invalid URL: '' @ e)
          | Inr (path, query) \<Rightarrow>
              Inr \<lparr>rp_method = m, rp_path = percent_decode path, rp_signing_path = path, rp_query = query,
                   rp_headers = headers, rp_form_body = None\<rparr>))"

definition as_request_info :: "request_parts \<Rightarrow> request_info" where
  "as_request_info p =
     with_form_body (with_signing_path
       (new_request_info (rp_method p) (rp_path p) (rp_query p) (rp_headers p) None) (rp_signing_path p))
       (rp_form_body p)"

text \<open>The parts and the body to pass on, which yields the bytes that were collected.\<close>

definition absorb_form_body ::
  "(string \<Rightarrow> string) \<Rightarrow> ('b \<Rightarrow> string + string) \<Rightarrow> (string \<Rightarrow> string + 'b) \<Rightarrow> request_parts \<Rightarrow> 'b
   \<Rightarrow> string + request_parts \<times> 'b" where
  "absorb_form_body utf8_lossy collect from_bytes p body =
     (if \<not> should_collect_form_body (as_request_info p) then Inr (p, body)
      else
       (case collect body of
          Inl e \<Rightarrow> Inl e
        | Inr bytes \<Rightarrow>
           (case from_bytes bytes of
              Inl e \<Rightarrow> Inl e
            | Inr b \<Rightarrow> Inr (p\<lparr>rp_form_body := Some (utf8_lossy bytes)\<rparr>, b))))"

subsection \<open>The rate limiter\<close>

text \<open>A limiter's answer for a key: whether the request passes, or its own failure, which lets it pass.\<close>

type_synonym limiter = "string \<Rightarrow> string + bool"

definition rate_limit_key :: "dispatch_context \<Rightarrow> string" where
  "rate_limit_key ctx =
     (case dc_identity ctx of
        Anonymous \<Rightarrow> the_or ''anonymous'' (dc_source_ip ctx)
      | Authenticated i \<Rightarrow> principal_name i)"

definition rate_limited_response :: "(xml_doc \<Rightarrow> string option) \<Rightarrow> string \<Rightarrow> proxy_result" where
  "rate_limited_response xs request_id =
     \<lparr>pr_status = 503, pr_headers = [(''content-type'', ''application/xml'')],
      pr_body = BodyBytes (error_to_xml xs (slow_down request_id))\<rparr>"

definition rate_limiter :: "(xml_doc \<Rightarrow> string option) \<Rightarrow> limiter \<Rightarrow> limiter \<Rightarrow> middleware" where
  "rate_limiter xs anon_limiter auth_limiter ctx next =
     (let lim = (case dc_identity ctx of Anonymous \<Rightarrow> anon_limiter | Authenticated i \<Rightarrow> auth_limiter)
      in case lim (rate_limit_key ctx) of
           Inr True \<Rightarrow> next ctx
         | Inr False \<Rightarrow> t_of (Ok (Response (rate_limited_response xs (dc_request_id ctx))))
         | Inl e \<Rightarrow> next ctx)"

interpretation rate_limit: lawful_middleware "rate_limiter xs anon auth" for xs anon auth
proof
  fix ctx :: dispatch_context and "next" :: dispatch
  show "own_answer (fst (rate_limiter xs anon auth ctx next)) \<or>
      (\<exists>ctx' w. same_request ctx ctx' \<and>
         rate_limiter xs anon auth ctx next = (fst (next ctx'), w @ snd (next ctx')))"
    by (auto simp: rate_limiter_def Let_def split: sum.splits bool.splits
        intro!: exI [of _ ctx] exI [of _ "[]"])
qed

text \<open>The chain the example host installs.\<close>

definition worker_chain ::
  "('sk, 'pk) oidc_libs \<Rightarrow> 'sk maybe_oidc_auth_mode \<Rightarrow> credential_cache \<Rightarrow> fetch_stamps
   \<Rightarrow> (xml_doc \<Rightarrow> string option) \<Rightarrow> (limiter \<times> limiter) option
   \<Rightarrow> ((string \<rightharpoonup> bucket_quota) \<times> object_fetch) option \<Rightarrow> middleware list" where
  "worker_chain ol auth c st xs limiters meter =
     maybe_oidc_auth ol auth c st
       # (case limiters of Some (anon, known) \<Rightarrow> [rate_limiter xs anon known] | None \<Rightarrow> [])
       @ (case meter of Some (quotas, fetch) \<Rightarrow> [metering_handle xs (do_check_quota quotas fetch)] | None \<Rightarrow> [])"

lemma worker_chain_lawful: "m \<in> set (worker_chain ol auth c st xs limiters meter) \<Longrightarrow> lawful_middleware m"
  using oidc_auth.lawful_middleware_axioms rate_limit.lawful_middleware_axioms metering.lawful_middleware_axioms
  by (auto simp: worker_chain_def split: option.splits)

subsection \<open>Facts\<close>

text \<open>Afterwards the client's side of the connection sees the directive.\<close>

definition no_transform :: "string \<Rightarrow> bool" where
  "no_transform v \<longleftrightarrow> list_ex (\<lambda>d. eq_ignore_ascii_case (trim_ws d) ''no-transform'') (split_on (CHR '','') v)"

lemma split_on_at: "split_on c (a @ c # b) = split_on c a @ split_on c b"
proof (induction a)
  case (Cons x a)
  then show ?case using split_on_not_Nil[of c a] by (cases "split_on c a") auto
qed simp

lemma no_transform_plain: "no_transform ''no-transform''" "hv_to_str ''no-transform'' = Some ''no-transform''"
    "hv_valid ''no-transform''" "map ascii_lower ''cache-control'' = ''cache-control''"
  by code_simp+

lemma no_transform_added: "no_transform (v @ '', no-transform'')"
proof -
  have "list_ex (\<lambda>d. eq_ignore_ascii_case (trim_ws d) ''no-transform'') (split_on (CHR '','') '' no-transform'')"
    by code_simp
  then show ?thesis using split_on_at[of "CHR '',''" v "'' no-transform''"] by (simp add: no_transform_def)
qed

lemma readable_added:
  assumes "hv_to_str v = Some v"
  shows "hv_valid (v @ '', no-transform'')" "hv_to_str (v @ '', no-transform'') = Some (v @ '', no-transform'')"
proof -
  have "hv_to_str '', no-transform'' = Some '', no-transform''" "hv_valid '', no-transform''" by code_simp+
  then show "hv_valid (v @ '', no-transform'')" "hv_to_str (v @ '', no-transform'') = Some (v @ '', no-transform'')"
    using assms by (auto simp: hv_to_str_def hv_valid_def list_all_iff split: if_splits)
qed

lemma hm_str_insert:
  "map ascii_lower n = n \<Longrightarrow> hm_str (hm_insert n v h) n = hv_to_str v"
  by (simp add: hm_str_def hm_get_def map_of_hm_insert)

lemma directive_is_set:
  "\<exists>v. hm_str (set_no_transform h) ''cache-control'' = Some v \<and> no_transform v"
proof (cases "hm_str h ''cache-control''")
  case None
  then show ?thesis
    using hm_str_insert[OF no_transform_plain(4)] no_transform_plain by (simp add: set_no_transform_def Let_def del: list.map)
next
  case (Some v)
  then have "hv_to_str v = Some v" by (auto simp: hm_str_def hv_to_str_def split: Option.bind_splits if_splits)
  then show ?thesis
    using hm_str_insert[OF no_transform_plain(4)] no_transform_plain no_transform_added[of v] readable_added[of v] Some
    by (auto simp: set_no_transform_def Let_def no_transform_def[symmetric] simp del: list.map hv_valid_append)
qed

text \<open>A form body is collected without loss: the body passed on yields what the one that came did.\<close>

lemma absorbed_body_unchanged:
  assumes "\<And>bytes b. from_bytes bytes = Inr b \<Longrightarrow> collect b = Inr bytes"
    and "absorb_form_body utf8_lossy collect from_bytes p body = Inr (p', body')"
  shows "collect body' = collect body \<and>
    (p' = p \<or> (\<exists>bytes. collect body = Inr bytes \<and> p' = p\<lparr>rp_form_body := Some (utf8_lossy bytes)\<rparr>))"
  using assms by (auto simp: absorb_form_body_def split: if_splits sum.splits)

text \<open>The path that is signed is the one that came, whatever the decoder does.\<close>

lemma signed_path_is_raw:
  assumes "request_from_web pm pu pd m url h = Inr p"
  shows "\<exists>path query. pu url = Inr (path, query) \<and> ri_signing_path (as_request_info p) = Some path \<and>
    ri_path (as_request_info p) = pd path"
  using assms by (auto simp: request_from_web_def as_request_info_def new_request_info_def with_form_body_def with_signing_path_def split: sum.splits)

end
