(* ===== verification/WorkerHost.thy ===== *)
theory WorkerHost
  imports HostSetup Workers StaticConfig
begin

text \<open>
  The Workers host around the gateway: the backend over the Fetch API and the answer for the client
  (\<open>crates/cf-workers/src\<close>: \<open>backend.rs\<close>, \<open>body.rs\<close>, \<open>response.rs\<close>, \<open>noop_creds.rs\<close>), the connector
  \<open>object_store\<close> uses (\<open>fetch_connector.rs\<close>), the log (\<open>tracing_layer.rs\<close>), and how the example puts
  a gateway together (\<open>examples/cf-workers/src/lib.rs\<close>).  Parameters: the fetch, the constructors of the
  browser's objects (which may fail), \<open>HeaderName::from_bytes\<close>, \<open>Url::parse\<close> and the store builders.  A
  stream is the bytes it yields.
\<close>

subsection \<open>What is fetched\<close>

datatype fetch_body = NoBody | RawStream string | FixedStream u64 string | BytesBody string

record fetch_request =
  fq_method :: http_method
  fq_url :: string
  fq_headers :: header_map
  fq_no_store :: bool
  fq_body :: fetch_body

record js_response =
  jr_status :: nat
  jr_headers :: "(string \<times> string) list"
  jr_body :: "string option"

text \<open>
  Reading a response fails when it is asked for or when it is awaited.  \<open>wk_new_response\<close>: whether a
  response can be made around a body.
\<close>

datatype read_error = NotAsked string | NotRead string

record worker_libs =
  wk_fixed_stream :: "u64 \<Rightarrow> string + unit"
  wk_new_request :: "fetch_request \<Rightarrow> string + unit"
  wk_fetch :: "fetch_request \<Rightarrow> string + js_response"
  wk_header_name :: "string \<Rightarrow> string option"
  wk_new_response :: "string \<Rightarrow> string + unit"
  wk_array_buffer :: "string option \<Rightarrow> read_error + string"

definition headermap_from_js :: "(string \<Rightarrow> string option) \<Rightarrow> (string \<times> string) list \<Rightarrow> header_map" where
  "headermap_from_js header_name entries =
     foldl (\<lambda>headers (key, v).
         (case header_name key of
            None \<Rightarrow> headers
          | Some name \<Rightarrow> if hv_valid v then hm_append name v headers else headers)) [] entries"

subsection \<open>The backend\<close>

text \<open>\<open>JsBody\<close>: the stream of a request, if it has a body.\<close>

type_synonym js_body = "string option"

definition js_body_from_bytes :: "worker_libs \<Rightarrow> string \<Rightarrow> string + js_body" where
  "js_body_from_bytes wl bytes =
     (if bytes = [] then Inr None
      else case wk_new_response wl bytes of
             Inl e \<Rightarrow> Inl (''Response::new failed: '' @ e)
           | Inr _ \<Rightarrow> Inr (Some bytes))"

definition collect_js_body :: "worker_libs \<Rightarrow> js_body \<Rightarrow> string + string" where
  "collect_js_body wl body =
     (case body of
        None \<Rightarrow> Inr []
      | Some stream \<Rightarrow>
         (case wk_new_response wl stream of
            Inl e \<Rightarrow> Inl (''Response::new failed: '' @ e)
          | Inr _ \<Rightarrow>
             map_error (\<lambda>e. case e of
                 NotAsked e \<Rightarrow> ''arrayBuffer() failed: '' @ e
               | NotRead e \<Rightarrow> ''arrayBuffer await failed: '' @ e) (wk_array_buffer wl (Some stream))))"

definition put_body :: "worker_libs \<Rightarrow> forward_request \<Rightarrow> js_body \<Rightarrow> proxy_error + fetch_body" where
  "put_body wl request body =
     (if fw_method request \<noteq> PUT then Inr NoBody
      else
       (case body of
          None \<Rightarrow> Inr NoBody
        | Some stream \<Rightarrow>
           (case fixed_body_length (fw_headers request) of
              Some len \<Rightarrow>
               (case wk_fixed_stream wl len of
                  Inl e \<Rightarrow> Inl (Internal (''FixedLengthStream init failed: '' @ e))
                | Inr _ \<Rightarrow> Inr (FixedStream len stream))
            | None \<Rightarrow> Inr (RawStream stream))))"

definition worker_fetch ::
  "worker_libs \<Rightarrow> (string \<Rightarrow> proxy_error) \<Rightarrow> fetch_request \<Rightarrow> proxy_error + js_response" where
  "worker_fetch wl unmakeable fq =
     (case wk_new_request wl fq of
        Inl e \<Rightarrow> Inl (unmakeable (''failed to create request: '' @ e))
      | Inr _ \<Rightarrow> map_error (\<lambda>e. BackendError (''fetch failed: '' @ e)) (wk_fetch wl fq))"

text \<open>\<open>WorkerBackend::forward\<close>.\<close>

definition forward_headers :: "forward_request \<Rightarrow> header_map" where
  "forward_headers request =
     (let headers = ws_headers (fw_headers request) in
      case accept_encoding request of None \<Rightarrow> headers | Some e \<Rightarrow> hm_insert ''accept-encoding'' e headers)"

definition worker_forward ::
  "worker_libs \<Rightarrow> forward_request \<Rightarrow> js_body \<Rightarrow> proxy_error + js_response forward_response" where
  "worker_forward wl request body =
     (case put_body wl request body of
        Inl e \<Rightarrow> Inl e
      | Inr b \<Rightarrow>
         (case worker_fetch wl Internal
                 \<lparr>fq_method = fw_method request, fq_url = fw_url request, fq_headers = forward_headers request,
                  fq_no_store = should_bypass_cache request, fq_body = b\<rparr> of
            Inl e \<Rightarrow> Inl e
          | Inr resp \<Rightarrow>
             (let headers = headermap_from_js (wk_header_name wl) (jr_headers resp)
              in Inr \<lparr>fr_status = jr_status resp, fr_headers = headers, fr_body = resp,
                      fr_content_length = content_length headers\<rparr>)))"

definition worker_send_raw ::
  "worker_libs \<Rightarrow> http_method \<Rightarrow> string \<Rightarrow> header_map \<Rightarrow> string \<Rightarrow> proxy_error + raw_response" where
  "worker_send_raw wl method url headers body =
     (case worker_fetch wl BackendError
             \<lparr>fq_method = method, fq_url = url, fq_headers = ws_headers headers, fq_no_store = False,
              fq_body = (if body = [] then NoBody else BytesBody body)\<rparr> of
        Inl e \<Rightarrow> Inl e
      | Inr resp \<Rightarrow>
         (case wk_array_buffer wl (jr_body resp) of
            Inl (NotAsked e) \<Rightarrow> Inl (Internal (''arrayBuffer() failed: '' @ e))
          | Inl (NotRead e) \<Rightarrow> Inl (Internal (''failed to read response: '' @ e))
          | Inr bytes \<Rightarrow>
              Inr \<lparr>rr_status = jr_status resp, rr_headers = headermap_from_js (wk_header_name wl) (jr_headers resp),
                   rr_body = bytes\<rparr>))"

definition worker_backend :: "worker_libs \<Rightarrow> 'signer store_libs \<Rightarrow> (js_body, js_response) proxy_backend" where
  "worker_backend wl sl =
     \<lparr>pb_forward = worker_forward wl,
      pb_create_paginated_store = host_paginated_store sl \<lparr>ss_fetch_connector = True, ss_max_retries = Some 0\<rparr>,
      pb_create_signer = host_signer sl, pb_send_raw = worker_send_raw wl\<rparr>"

text \<open>\<open>NoopCredentialRegistry\<close>.\<close>

definition noop_get_credential :: credential_lookup where
  "noop_get_credential access_key_id = Inr None"

definition noop_get_role :: role_lookup where
  "noop_get_role role = Inr None"

subsection \<open>The connector of \<open>object_store\<close>\<close>

record http_response =
  hp_status :: nat
  hp_headers :: header_map
  hp_body :: "(string + string) list"

definition connector_request :: "http_method \<Rightarrow> string \<Rightarrow> header_map \<Rightarrow> fetch_request" where
  "connector_request method uri headers =
     \<lparr>fq_method = method, fq_url = uri, fq_headers = ws_headers headers, fq_no_store = False, fq_body = NoBody\<rparr>"

text \<open>The chunks of a body until it ends or fails.\<close>

fun relay_chunks :: "(string + string) list \<Rightarrow> (string + string) list" where
  "relay_chunks [] = []"
| "relay_chunks (Inr bytes # chunks) = Inr bytes # relay_chunks chunks"
| "relay_chunks (Inl e # chunks) = [Inl e]"

text \<open>What came back: the status, the headers, the chunks or, without a stream, the bytes.\<close>

definition fetch_inner ::
  "(string \<Rightarrow> string option) \<Rightarrow> string + nat \<times> (string \<times> string) list \<times> ((string + string) list + (string + string))
   \<Rightarrow> string + http_response" where
  "fetch_inner header_name fetched =
     (case fetched of
        Inl e \<Rightarrow> Inl e
      | Inr (status, entries, body) \<Rightarrow>
         (let headers = foldl (\<lambda>h (key, v).
                 (case header_name key of
                    None \<Rightarrow> h
                  | Some name \<Rightarrow> if hv_valid v then hm_insert name v h else h)) [] entries;
              status = (if 100 \<le> status \<and> status \<le> 999 then status else 500)
          in case body of
               Inl chunks \<Rightarrow> Inr \<lparr>hp_status = status, hp_headers = headers, hp_body = relay_chunks chunks\<rparr>
             | Inr (Inl e) \<Rightarrow> Inl e
             | Inr (Inr bytes) \<Rightarrow> Inr \<lparr>hp_status = status, hp_headers = headers, hp_body = [Inr bytes]\<rparr>))"

text \<open>\<open>None\<close>: the task that fetches went away before it answered.\<close>

definition do_fetch :: "(string + http_response) option \<Rightarrow> string + http_response" where
  "do_fetch answer = (case answer of None \<Rightarrow> Inl ''fetch channel dropped'' | Some r \<Rightarrow> r)"

text \<open>A call of the service; its request has no body, whatever the request it was given has.\<close>

definition connector_call ::
  "(fetch_request \<Rightarrow> string + unit) \<Rightarrow> (fetch_request \<Rightarrow> (string + http_response) option)
   \<Rightarrow> http_method \<Rightarrow> string \<Rightarrow> header_map \<Rightarrow> string + http_response" where
  "connector_call new_request fetched method uri headers =
     (let request = connector_request method uri headers in
      case new_request request of
        Inl e \<Rightarrow> Inl e
      | Inr _ \<Rightarrow> do_fetch (fetched request))"

subsection \<open>The answer for the client\<close>

text \<open>The headers are those handed to the constructor of the response.\<close>

record web_response =
  wr_status :: nat
  wr_headers :: header_map
  wr_body :: "string option"

text \<open>\<open>constructs\<close>: whether the browser makes a response of this status with this body.\<close>

definition response_from_proxy_result ::
  "(nat \<Rightarrow> string option \<Rightarrow> bool) \<Rightarrow> proxy_result \<Rightarrow> web_response outcome" where
  "response_from_proxy_result constructs result =
     (let body = (case pr_body result of BodyEmpty \<Rightarrow> None | BodyBytes bytes \<Rightarrow> Some bytes) in
      if constructs (pr_status result) body
      then Ok \<lparr>wr_status = pr_status result, wr_headers = ws_headers (pr_headers result), wr_body = body\<rparr>
      else Panic)"

definition web_error_response ::
  "(nat \<Rightarrow> string option \<Rightarrow> bool) \<Rightarrow> nat \<Rightarrow> string \<Rightarrow> web_response outcome" where
  "web_error_response constructs status message =
     (if constructs status (Some message)
      then Ok \<lparr>wr_status = status, wr_headers = [], wr_body = Some message\<rparr>
      else if constructs 200 None then Ok \<lparr>wr_status = 200, wr_headers = [], wr_body = None\<rparr>
      else Panic)"

definition response_from_forward ::
  "(nat \<Rightarrow> string option \<Rightarrow> bool) \<Rightarrow> js_response forward_response \<Rightarrow> web_response outcome" where
  "response_from_forward constructs resp =
     (if constructs (fr_status resp) (jr_body (fr_body resp))
      then Ok \<lparr>wr_status = fr_status resp, wr_headers = ws_headers (set_no_transform (fr_headers resp)),
               wr_body = jr_body (fr_body resp)\<rparr>
      else web_error_response constructs 502 ''Bad Gateway'')"

definition into_web_sys ::
  "(nat \<Rightarrow> string option \<Rightarrow> bool) \<Rightarrow> js_response gateway_response \<Rightarrow> web_response outcome" where
  "into_web_sys constructs r =
     (case r of
        GwResponse p \<Rightarrow> response_from_proxy_result constructs p
      | GwForward f \<Rightarrow> response_from_forward constructs f)"

subsection \<open>The gateway of the example\<close>

text \<open>What the host's environment holds: a variable as text, or as an object.\<close>

definition load_config_from_env ::
  "(string \<Rightarrow> string + static_config) \<Rightarrow> string option \<Rightarrow> string + static_config \<Rightarrow> (string + proxy_error) + static_config" where
  "load_config_from_env read_json var object_var =
     (case var of
        Some config \<Rightarrow> map_error Inr (from_text read_json config)
      | None \<Rightarrow>
         (case object_var of
            Inl e \<Rightarrow> Inl (Inl e)
          | Inr config \<Rightarrow> map_error Inr (from_config config)))"

definition load_rate_limiter :: "limiter option \<Rightarrow> limiter option \<Rightarrow> (limiter \<times> limiter) option" where
  "load_rate_limiter anon known = Option.bind anon (\<lambda>a. Option.bind known (\<lambda>k. Some (a, k)))"

definition load_bandwidth_meter ::
  "(string \<Rightarrow> string + (string \<rightharpoonup> bucket_quota)) \<Rightarrow> string option \<Rightarrow> string + (string \<rightharpoonup> bucket_quota)
   \<Rightarrow> object_fetch option \<Rightarrow> ((string \<rightharpoonup> bucket_quota) \<times> object_fetch) option" where
  "load_bandwidth_meter read_json var object_var namespace =
     (case (case var of Some v \<Rightarrow> read_json v | None \<Rightarrow> object_var) of
        Inl e \<Rightarrow> None
      | Inr quotas \<Rightarrow> map_option (Pair quotas) namespace)"

definition worker_gateway ::
  "libs \<Rightarrow> 'r matchit \<Rightarrow> string \<Rightarrow> (js_body, js_response) proxy_backend \<Rightarrow> bucket_registry \<Rightarrow> credential_lookup
   \<Rightarrow> string option \<Rightarrow> middleware \<Rightarrow> 'r \<Rightarrow> (limiter \<times> limiter) option
   \<Rightarrow> ((string \<rightharpoonup> bucket_quota) \<times> object_fetch) option \<Rightarrow> token_resolver option \<Rightarrow> string option
   \<Rightarrow> (js_body, js_response, 'r) gateway" where
  "worker_gateway libs mi user_agent backend buckets credentials domain auth router limiters meter resolver max_upload =
     (let gw = with_router (with_middleware
            (new_gateway libs mi user_agent backend buckets credentials domain) auth) router;
          gw = (case limiters of None \<Rightarrow> gw
                | Some (anon, known) \<Rightarrow> with_middleware gw (rate_limiter (lib_xml libs) anon known));
          gw = (case meter of None \<Rightarrow> gw
                | Some (quotas, fetch) \<Rightarrow>
                    with_middleware gw (metering_handle (lib_xml libs) (do_check_quota quotas fetch)));
          gw = (case resolver of None \<Rightarrow> gw | Some r \<Rightarrow> with_credential_resolver gw r)
      in case Option.bind max_upload parse_u64 of
           None \<Rightarrow> gw
         | Some n \<Rightarrow> with_max_request_body_size gw n)"

text \<open>What an event reads before it has a gateway, in order; \<open>Inl\<close> is its error.\<close>

datatype setup_error = KeyError proxy_error | SignerError oidc_error | LoadError "string + proxy_error"

definition worker_setup ::
  "'key sealing \<Rightarrow> ('sk, 'pk) oidc_libs \<Rightarrow> (string \<Rightarrow> string + static_config) \<Rightarrow> string option
   \<Rightarrow> string option \<Rightarrow> string option \<Rightarrow> string option \<Rightarrow> string + static_config
   \<Rightarrow> setup_error + 'key option \<times> 'sk maybe_oidc_auth_mode \<times> (string \<times> 'sk jwt_signer) option \<times> static_config" where
  "worker_setup se ol read_json secret key_pem issuer var object_var =
     (case load_token_key se secret of
        Inl e \<Rightarrow> Inl (KeyError e)
      | Inr key \<Rightarrow>
         (case oidc_setup ol key_pem issuer of
            Inl e \<Rightarrow> Inl (SignerError e)
          | Inr (mode, published) \<Rightarrow>
             (case load_config_from_env read_json var object_var of
                Inl e \<Rightarrow> Inl (LoadError e)
              | Inr config \<Rightarrow> Inr (key, mode, published, config))))"

text \<open>A request as it comes: method, URL, header entries and body.  \<open>Inl\<close> is the error of the event.\<close>

record web_request =
  wq_method :: string
  wq_url :: string
  wq_headers :: "(string \<times> string) list"
  wq_body :: js_body

record request_libs =
  rl_method :: "string \<Rightarrow> string + http_method"
  rl_uri :: "string \<Rightarrow> string + string \<times> string option"
  rl_percent_decode :: "string \<Rightarrow> string"
  rl_utf8_lossy :: "string \<Rightarrow> string"
  rl_constructs :: "nat \<Rightarrow> string option \<Rightarrow> bool"

definition worker_request ::
  "worker_libs \<Rightarrow> request_libs \<Rightarrow> web_request \<Rightarrow> string + request_parts \<times> js_body" where
  "worker_request wl rl req =
     (case request_from_web (rl_method rl) (rl_uri rl) (rl_percent_decode rl) (wq_method req) (wq_url req)
             (headermap_from_js (wk_header_name wl) (wq_headers req)) of
        Inl e \<Rightarrow> Inl e
      | Inr parts \<Rightarrow>
          absorb_form_body (rl_utf8_lossy rl) (collect_js_body wl) (js_body_from_bytes wl) parts (wq_body req))"

definition worker_event ::
  "worker_libs \<Rightarrow> request_libs \<Rightarrow> (js_body, js_response, 'r) gateway \<Rightarrow> stamps \<Rightarrow> clock \<Rightarrow> string
   \<Rightarrow> web_request \<Rightarrow> string + web_response traced" where
  "worker_event wl rl gw st ck request_id req =
     (case worker_request wl rl req of
        Inl e \<Rightarrow> Inl e
      | Inr (parts, body) \<Rightarrow>
          Inr (t_bind (handle_request gw st ck request_id (collect_js_body wl) (as_request_info parts) body)
                 (\<lambda>h. t_of (into_web_sys (rl_constructs rl) (hd_response h)))))"

subsection \<open>The log\<close>

datatype log_level = LevelError | LevelWarn | LevelInfo | LevelDebug | LevelTrace

fun level_rank :: "log_level \<Rightarrow> nat" where
  "level_rank LevelError = 0"
| "level_rank LevelWarn = 1"
| "level_rank LevelInfo = 2"
| "level_rank LevelDebug = 3"
| "level_rank LevelTrace = 4"

fun level_name :: "log_level \<Rightarrow> string" where
  "level_name LevelError = ''ERROR''"
| "level_name LevelWarn = ''WARN''"
| "level_name LevelInfo = ''INFO''"
| "level_name LevelDebug = ''DEBUG''"
| "level_name LevelTrace = ''TRACE''"

definition subscriber_enabled :: "log_level \<Rightarrow> log_level \<Rightarrow> bool" where
  "subscriber_enabled max_level level = (level_rank level \<le> level_rank max_level)"

text \<open>A value as the visitor gets it: by \<open>Debug\<close> or \<open>Display\<close> already text, or a string to quote.\<close>

datatype log_value = DebugValue string | StrValue string | PlainValue string

fun visit_field :: "string \<times> string list \<Rightarrow> string \<times> log_value \<Rightarrow> string \<times> string list" where
  "visit_field (message, fs) (name, DebugValue v) =
     (if name = ''message'' then (v, fs) else (message, fs @ [name @ ''='' @ v]))"
| "visit_field (message, fs) (name, StrValue v) =
     (if name = ''message'' then (v, fs) else (message, fs @ [name @ ''='' @ [CHR 0x22] @ v @ [CHR 0x22]]))"
| "visit_field (message, fs) (name, PlainValue v) = (message, fs @ [name @ ''='' @ v])"

datatype console = ConsoleError string | ConsoleWarn string | ConsoleLog string

definition log_event :: "log_level \<Rightarrow> string \<Rightarrow> (string \<times> log_value) list \<Rightarrow> console" where
  "log_event level target values =
     (let (message, fs) = foldl visit_field ([], []) values;
          start = ''['' @ level_name level @ ''] '' @ target @ '': '' @ message;
          msg = (if fs = [] then start else start @ '' { '' @ join_with '', '' fs @ '' }'')
      in case level of
           LevelError \<Rightarrow> ConsoleError msg
         | LevelWarn \<Rightarrow> ConsoleWarn msg
         | _ \<Rightarrow> ConsoleLog msg)"

subsection \<open>Facts\<close>

text \<open>The middleware of the gateway is the chain that is lawful.\<close>

lemma worker_gateway_chain:
  "gw_middleware (worker_gateway libs mi ua be buckets creds domain (maybe_oidc_auth ol auth c st) router limiters
     meter resolver max_upload) = worker_chain ol auth c st (lib_xml libs) limiters meter"
  by (auto simp: worker_gateway_def worker_chain_def new_gateway_def with_router_def with_middleware_def
      with_credential_resolver_def with_max_request_body_size_def Let_def split: option.splits prod.splits)

lemma worker_gateway_registry:
  "gw_bucket_registry (worker_gateway libs mi ua be buckets creds domain auth router limiters meter resolver max_upload)
     = buckets"
  by (auto simp: worker_gateway_def new_gateway_def with_router_def with_middleware_def
      with_credential_resolver_def with_max_request_body_size_def Let_def split: option.splits prod.splits)

end
