(* ===== verification/CachedRegistry.thy ===== *)
theory CachedRegistry
  imports StaticConfig CredentialCache Sts
begin

text \<open>
  \<open>examples/server/src/cached.rs\<close>: a provider with an in-memory cache of roles and credentials in
  front of another.  A lookup reads the map, asks the provider when nothing fresh is there, and stores
  the answer; the locks are held for the reading and for the storing, so any caller may run between
  them.  The locks are never poisoned: nothing panics while it holds one.
\<close>

subsection \<open>The cache\<close>

record 'v cache_entry =
  ce_value :: 'v
  ce_inserted_at :: int

type_synonym 'v lookup_cache = "string \<rightharpoonup> 'v cache_entry"

definition entry_expired :: "int \<Rightarrow> int \<Rightarrow> 'v cache_entry \<Rightarrow> bool" where
  "entry_expired ttl now e = (now - ce_inserted_at e > ttl)"

definition cached_check :: "int \<Rightarrow> 'v lookup_cache \<Rightarrow> int \<Rightarrow> string \<Rightarrow> 'v lookup_cache \<times> 'v option" where
  "cached_check ttl c now k =
     (c, case c k of
           None \<Rightarrow> None
         | Some e \<Rightarrow> if entry_expired ttl now e then None else Some (ce_value e))"

text \<open>An error is handed on and leaves the cache alone.\<close>

definition cached_settle :: "'v lookup_cache \<Rightarrow> int \<Rightarrow> string \<Rightarrow> 'e + 'v \<Rightarrow> 'v lookup_cache" where
  "cached_settle c now k r =
     (case r of Inl e \<Rightarrow> c | Inr v \<Rightarrow> c(k \<mapsto> \<lparr>ce_value = v, ce_inserted_at = now\<rparr>))"

text \<open>One caller alone: the clock when it looks, and when it stores.\<close>

definition cached_lookup ::
  "int \<Rightarrow> 'v lookup_cache \<Rightarrow> int \<Rightarrow> int \<Rightarrow> (string \<Rightarrow> 'e + 'v) \<Rightarrow> string \<Rightarrow> 'v lookup_cache \<times> ('e + 'v)" where
  "cached_lookup ttl c looked stored fetch k =
     (case cached_check ttl c looked k of
        (c, Some v) \<Rightarrow> (c, Inr v)
      | (c, None) \<Rightarrow> (cached_settle c stored k (fetch k), fetch k))"

subsection \<open>The provider\<close>

record cache_state =
  cs_roles :: "role_config option lookup_cache"
  cs_credentials :: "stored_credential option lookup_cache"

record cached_provider =
  cp_cache :: cache_state
  cp_ttl :: int

definition new_cached_provider :: "int \<Rightarrow> cached_provider" where
  "new_cached_provider ttl = \<lparr>cp_cache = \<lparr>cs_roles = Map.empty, cs_credentials = Map.empty\<rparr>, cp_ttl = ttl\<rparr>"

definition cached_get_role ::
  "role_lookup \<Rightarrow> cached_provider \<Rightarrow> int \<Rightarrow> int \<Rightarrow> string \<Rightarrow> cached_provider \<times> (proxy_error + role_config option)" where
  "cached_get_role inner cp looked stored role =
     (let (roles, r) = cached_lookup (cp_ttl cp) (cs_roles (cp_cache cp)) looked stored inner role
      in (cp\<lparr>cp_cache := (cp_cache cp)\<lparr>cs_roles := roles\<rparr>\<rparr>, r))"

definition cached_get_credential ::
  "credential_lookup \<Rightarrow> cached_provider \<Rightarrow> int \<Rightarrow> int \<Rightarrow> string
   \<Rightarrow> cached_provider \<times> (proxy_error + stored_credential option)" where
  "cached_get_credential inner cp looked stored access_key =
     (let (creds, r) = cached_lookup (cp_ttl cp) (cs_credentials (cp_cache cp)) looked stored inner access_key
      in (cp\<lparr>cp_cache := (cp_cache cp)\<lparr>cs_credentials := creds\<rparr>\<rparr>, r))"

text \<open>Buckets are delegated; \<open>authorize_key\<close> is not, so the trait's default takes its place.\<close>

definition cached_registry :: "bucket_registry \<Rightarrow> bucket_registry" where
  "cached_registry inner =
     \<lparr>br_get_bucket = br_get_bucket inner, br_list_buckets = br_list_buckets inner,
      br_authorize_key = default_authorize_key, br_bucket_owner = br_bucket_owner inner\<rparr>"

subsection \<open>The contracts\<close>

definition fresh_entry :: "int \<Rightarrow> 'v lookup_cache \<Rightarrow> string \<Rightarrow> int \<Rightarrow> 'v \<Rightarrow> bool" where
  "fresh_entry ttl c k t v \<longleftrightarrow> (\<exists>e. c k = Some e \<and> ce_value e = v \<and> t - ce_inserted_at e \<le> ttl)"

interpretation cached: fetch_cache "cached_check ttl" cached_settle Map.empty "fresh_entry ttl"
    "\<lambda>v s t. t - s \<le> ttl" for ttl
proof
  fix k t v
  show "\<not> fresh_entry ttl Map.empty k t v" by (simp add: fresh_entry_def)
next
  fix c now k c' v
  assume "cached_check ttl c now k = (c', Some v)"
  then show "fresh_entry ttl c k now v"
    by (auto simp: cached_check_def fresh_entry_def entry_expired_def split: option.splits if_splits)
next
  fix c now k c' a k' t v
  assume "cached_check ttl c now k = (c', a)" "fresh_entry ttl c' k' t v"
  then show "fresh_entry ttl c k' t v" by (simp add: cached_check_def)
next
  fix c s k w k' t v
  assume "fresh_entry ttl (cached_settle c s k (Inr w)) k' t v"
  then show "fresh_entry ttl c k' t v \<or> (k' = k \<and> v = w \<and> t - s \<le> ttl)"
    by (auto simp: fresh_entry_def cached_settle_def split: if_splits)
next
  fix c s k e k' t v
  assume "fresh_entry ttl (cached_settle c s k (Inl e)) k' t v"
  then show "fresh_entry ttl c k' t v" by (simp add: cached_settle_def)
qed

text \<open>A cached registry authorizes what the registry behind it does, or less.\<close>

locale cached_over_registry = authorizing_registry

sublocale cached_over_registry \<subseteq> cached: authorizing_registry fp "cached_registry reg"
proof
  fix name identity op rb
  assume "br_get_bucket (cached_registry reg) name identity op = Inr rb" "op_bucket op = Some name"
  then show "authorize fp identity op (rb_config rb) = Inr ()"
    using get_bucket_authorizes by (simp add: cached_registry_def)
next
  fix name identity act key
  assume "br_authorize_key (cached_registry reg) name identity act key"
  then show "key_authorized identity name act key"
    by (simp add: cached_registry_def default_authorize_key_def)
qed

interpretation cached_static: cached_over_registry fp "static_registry fp c" for fp c
  by unfold_locales

text \<open>
  Under any interleaving of callers, a role or credential answered from the cache is one the
  provider answered for the same key at most one lifetime ago, and an error of the provider is never
  answered from the cache.
\<close>
lemma cached_lookups_fresh:
  assumes "fetch_run (cached_check ttl) cached_settle Map.empty (Answered k v now # l) c"
  shows "\<exists>stored. Completed k (Inr v) stored \<in> set l \<and> now - stored \<le> ttl"
  using cached.answers_are_fetched[OF assms] .

end
