(* ===== verification/NativeHost.thy ===== *)
theory NativeHost
  imports HostSetup WorkerHost CachedRegistry
begin

text \<open>
  The server and the Lambda host (\<open>examples/server/src\<close>: \<open>client.rs\<close>, \<open>axum_helpers.rs\<close>, \<open>server.rs\<close>,
  \<open>bin/multistore-server.rs\<close>; \<open>examples/lambda/src\<close>: \<open>client.rs\<close>, \<open>main.rs\<close>): their backends over \<open>reqwest\<close>,
  the gateway they build, and how they hand a request to it and its answer to the client.  The HTTP
  client, the readers of bodies and the text decoder are parameters; sockets and runtimes are left out.
\<close>

subsection \<open>The HTTP client\<close>

record http_request =
  hq_method :: http_method
  hq_url :: string
  hq_headers :: header_map
  hq_body :: "string option"

text \<open>\<open>nr_bytes\<close>: what reading the body yields, or the error of the reading.\<close>

record native_response =
  nr_status :: nat
  nr_headers :: header_map
  nr_content_length :: "u64 option"
  nr_bytes :: "string + string"

type_synonym http_client = "http_request \<Rightarrow> string + native_response"

definition native_send_raw ::
  "http_client \<Rightarrow> http_method \<Rightarrow> string \<Rightarrow> header_map \<Rightarrow> string \<Rightarrow> proxy_error + raw_response" where
  "native_send_raw send method url headers body =
     (case send \<lparr>hq_method = method, hq_url = url, hq_headers = headers,
                 hq_body = (if body = [] then None else Some body)\<rparr> of
        Inl e \<Rightarrow> Inl (BackendError e)
      | Inr resp \<Rightarrow>
         (case nr_bytes resp of
            Inl e \<Rightarrow> Inl (BackendError (''failed to read raw response body: '' @ e))
          | Inr bytes \<Rightarrow> Inr \<lparr>rr_status = nr_status resp, rr_headers = nr_headers resp, rr_body = bytes\<rparr>))"

text \<open>\<open>HttpExchange\<close> for the exchanges of the identity provider; \<open>form\<close> is the encoder of the client.\<close>

definition exchange_post_form ::
  "http_client \<Rightarrow> ((string \<times> string) list \<Rightarrow> string) \<Rightarrow> string \<Rightarrow> (string \<times> string) list \<Rightarrow> oidc_error + string" where
  "exchange_post_form send form url pairs =
     (case send \<lparr>hq_method = POST, hq_url = url,
                 hq_headers = [(''content-type'', ''application/x-www-form-urlencoded'')],
                 hq_body = Some (form pairs)\<rparr> of
        Inl e \<Rightarrow> Inl (HttpError e)
      | Inr resp \<Rightarrow> map_error HttpError (nr_bytes resp))"

subsection \<open>The server's backend\<close>

text \<open>The response streams: its body is read later, by the client's connection.\<close>

definition server_forward ::
  "http_client \<Rightarrow> forward_request \<Rightarrow> string \<Rightarrow> proxy_error + native_response forward_response" where
  "server_forward send request body =
     (case send \<lparr>hq_method = fw_method request, hq_url = fw_url request, hq_headers = fw_headers request,
                 hq_body = (if fw_method request = PUT then Some body else None)\<rparr> of
        Inl e \<Rightarrow> Inl (BackendError e)
      | Inr resp \<Rightarrow>
          Inr \<lparr>fr_status = nr_status resp, fr_headers = nr_headers resp, fr_body = resp,
               fr_content_length = nr_content_length resp\<rparr>)"

definition native_store_settings :: store_settings where
  "native_store_settings = \<lparr>ss_fetch_connector = False, ss_max_retries = None\<rparr>"

definition server_backend :: "http_client \<Rightarrow> 'signer store_libs \<Rightarrow> (string, native_response) proxy_backend" where
  "server_backend send sl =
     \<lparr>pb_forward = server_forward send, pb_create_paginated_store = host_paginated_store sl native_store_settings,
      pb_create_signer = host_signer sl, pb_send_raw = native_send_raw send\<rparr>"

subsection \<open>Lambda's backend\<close>

datatype lambda_body = LambdaEmpty | LambdaText string | LambdaBinary string

fun body_to_bytes :: "lambda_body \<Rightarrow> string" where
  "body_to_bytes LambdaEmpty = []"
| "body_to_bytes (LambdaText s) = s"
| "body_to_bytes (LambdaBinary b) = b"

definition lambda_forward ::
  "http_client \<Rightarrow> forward_request \<Rightarrow> lambda_body \<Rightarrow> proxy_error + lambda_body forward_response" where
  "lambda_forward send request body =
     (case send \<lparr>hq_method = fw_method request, hq_url = fw_url request, hq_headers = fw_headers request,
                 hq_body = (if fw_method request = PUT then Some (body_to_bytes body) else None)\<rparr> of
        Inl e \<Rightarrow> Inl (Internal (''forward request failed: '' @ e))
      | Inr resp \<Rightarrow>
         (case nr_bytes resp of
            Inl e \<Rightarrow> Inl (Internal (''failed to read backend response: '' @ e))
          | Inr bytes \<Rightarrow>
              Inr \<lparr>fr_status = nr_status resp, fr_headers = nr_headers resp, fr_body = LambdaBinary bytes,
                   fr_content_length = nr_content_length resp\<rparr>))"

definition lambda_backend :: "http_client \<Rightarrow> 'signer store_libs \<Rightarrow> (lambda_body, lambda_body) proxy_backend" where
  "lambda_backend send sl =
     \<lparr>pb_forward = lambda_forward send, pb_create_paginated_store = host_paginated_store sl native_store_settings,
      pb_create_signer = host_signer sl, pb_send_raw = native_send_raw send\<rparr>"

subsection \<open>Answers\<close>

text \<open>The builder keeps a bad status for \<open>body\<close>, whose result is unwrapped.\<close>

datatype 's native_body = Held string | Streamed 's

record 's native_answer =
  na_status :: nat
  na_headers :: header_map
  na_body :: "'s native_body"

definition build_response :: "nat \<Rightarrow> header_map \<Rightarrow> 's native_body \<Rightarrow> 's native_answer outcome" where
  "build_response status headers body =
     (if 100 \<le> status \<and> status \<le> 999
      then Ok \<lparr>na_status = status, na_headers = headers, na_body = body\<rparr> else Panic)"

definition build_proxy_response :: "proxy_result \<Rightarrow> 's native_answer outcome" where
  "build_proxy_response result =
     build_response (pr_status result) (pr_headers result)
       (Held (case pr_body result of BodyBytes b \<Rightarrow> b | BodyEmpty \<Rightarrow> []))"

definition answer_gateway :: "'s gateway_response \<Rightarrow> 's native_answer outcome" where
  "answer_gateway r =
     (case r of
        GwResponse p \<Rightarrow> build_proxy_response p
      | GwForward f \<Rightarrow> build_response (fr_status f) (fr_headers f) (Streamed (fr_body f)))"

subsection \<open>Requests\<close>

text \<open>The path is that of the URI, as it came.\<close>

record native_request =
  nq_method :: http_method
  nq_path :: string
  nq_query :: "string option"
  nq_headers :: header_map

definition native_request_info :: "native_request \<Rightarrow> request_info" where
  "native_request_info q = new_request_info (nq_method q) (nq_path q) (nq_query q) (nq_headers q) None"

definition form_body_error :: "'s native_answer" where
  "form_body_error = \<lparr>na_status = 400, na_headers = [], na_body = Held ''form body too large or unreadable''\<rparr>"

text \<open>\<open>to_bytes\<close> reads at most so many bytes, \<open>None\<close> any number; a form body is read and put back.\<close>

definition server_request ::
  "(string \<Rightarrow> nat option \<Rightarrow> string + string) \<Rightarrow> (string \<Rightarrow> string) \<Rightarrow> native_request \<Rightarrow> string
   \<Rightarrow> (request_info \<times> string) option" where
  "server_request to_bytes utf8_lossy q body =
     (let info = native_request_info q in
      if should_collect_form_body info then
        (case to_bytes body (Some (form_body_max_bytes)) of
           Inr bytes \<Rightarrow> Some (with_form_body info (Some (utf8_lossy bytes)), bytes)
         | Inl e \<Rightarrow> None)
      else Some (with_form_body info None, body))"

definition server_request_handler ::
  "(string, native_response, 'r) gateway \<Rightarrow> stamps \<Rightarrow> clock \<Rightarrow> string
   \<Rightarrow> (string \<Rightarrow> nat option \<Rightarrow> string + string) \<Rightarrow> (string \<Rightarrow> string) \<Rightarrow> native_request \<Rightarrow> string
   \<Rightarrow> native_response native_answer traced" where
  "server_request_handler gw st ck request_id to_bytes utf8_lossy q body =
     (case server_request to_bytes utf8_lossy q body of
        None \<Rightarrow> t_of (Ok form_body_error)
      | Some (info, body) \<Rightarrow>
          t_bind (handle_request gw st ck request_id (\<lambda>b. to_bytes b None) info body)
            (\<lambda>h. t_of (answer_gateway (hd_response h))))"

definition lambda_form_body :: "(string \<Rightarrow> string) \<Rightarrow> lambda_body \<Rightarrow> string" where
  "lambda_form_body utf8_lossy body =
     (case body of LambdaText s \<Rightarrow> s | LambdaBinary b \<Rightarrow> utf8_lossy b | LambdaEmpty \<Rightarrow> [])"

definition lambda_request_handler ::
  "(lambda_body, lambda_body, 'r) gateway \<Rightarrow> stamps \<Rightarrow> clock \<Rightarrow> string \<Rightarrow> (string \<Rightarrow> string)
   \<Rightarrow> native_request \<Rightarrow> lambda_body \<Rightarrow> lambda_body native_answer traced" where
  "lambda_request_handler gw st ck request_id utf8_lossy q body =
     (let info = native_request_info q;
          form_body = (if should_collect_form_body info then Some (lambda_form_body utf8_lossy body) else None)
      in t_bind (handle_request gw st ck request_id (\<lambda>b. Inr (body_to_bytes b)) (with_form_body info form_body) body)
           (\<lambda>h. t_of (answer_gateway (hd_response h))))"

subsection \<open>Starting the server\<close>

text \<open>The value after the first occurrence of a flag.\<close>

definition flag_value :: "string list \<Rightarrow> string \<Rightarrow> string option" where
  "flag_value args flag =
     (case dropWhile (\<lambda>a. a \<noteq> flag) args of _ # v # _ \<Rightarrow> Some v | _ \<Rightarrow> None)"

record 'addr server_args =
  sa_config_path :: string
  sa_listen_addr :: 'addr
  sa_domain :: "string option"

definition server_arguments :: "(string \<Rightarrow> 'addr option) \<Rightarrow> 'addr \<Rightarrow> string list \<Rightarrow> 'addr server_args" where
  "server_arguments parse_addr any_addr args =
     \<lparr>sa_config_path = the_or ''config.toml'' (flag_value args ''--config''),
      sa_listen_addr = the_or any_addr (Option.bind (flag_value args ''--listen'') parse_addr),
      sa_domain = flag_value args ''--domain''\<rparr>"

record ('addr, 'key) server_config =
  sv_listen_addr :: 'addr
  sv_virtual_host_domain :: "string option"
  sv_token_key :: "'key option"
  sv_oidc_key :: "string option"
  sv_oidc_issuer :: "string option"

definition default_server_config :: "'addr \<Rightarrow> ('addr, 'key) server_config" where
  "default_server_config any_addr =
     \<lparr>sv_listen_addr = any_addr, sv_virtual_host_domain = None, sv_token_key = None, sv_oidc_key = None,
      sv_oidc_issuer = None\<rparr>"

text \<open>The gateway that \<open>run\<close> serves, from what it is given; \<open>auth\<close> makes the middleware of the provider.\<close>

definition native_gateway ::
  "libs \<Rightarrow> 'r matchit \<Rightarrow> string \<Rightarrow> ('sk, 'pk) oidc_libs \<Rightarrow> ('b, 's) proxy_backend \<Rightarrow> bucket_registry
   \<Rightarrow> credential_lookup \<Rightarrow> string option \<Rightarrow> string option \<Rightarrow> string option \<Rightarrow> route_handler
   \<Rightarrow> ('sk maybe_oidc_auth_mode \<Rightarrow> middleware) \<Rightarrow> token_resolver option
   \<Rightarrow> oidc_error + ('b, 's, 'r) gateway outcome" where
  "native_gateway libs mi user_agent ol backend buckets credentials domain key_pem issuer sts auth resolver =
     (case oidc_setup ol key_pem issuer of
        Inl e \<Rightarrow> Inl e
      | Inr (mode, published) \<Rightarrow>
          Inr (outcome_bind (host_router mi ol published sts) (\<lambda>router.
            Ok (host_gateway libs mi user_agent backend buckets credentials domain (auth mode) router resolver))))"

text \<open>
  What the programs read first: the file, then the key of the tokens, and Lambda the provider too, which
  the server's \<open>run\<close> reads.  The server puts a cache of sixty seconds, counted in
  nanoseconds, before the file's lookups.
\<close>

definition server_setup ::
  "'key sealing \<Rightarrow> (string \<Rightarrow> proxy_error + static_config) \<Rightarrow> 'addr server_args
   \<Rightarrow> string option \<Rightarrow> string option \<Rightarrow> string option
   \<Rightarrow> proxy_error + (static_config \<times> cached_provider) \<times> ('addr, 'key) server_config" where
  "server_setup se read_config args secret key_pem issuer =
     (case read_config (sa_config_path args) of
        Inl e \<Rightarrow> Inl e
      | Inr config \<Rightarrow>
         (case load_token_key se secret of
            Inl e \<Rightarrow> Inl e
          | Inr key \<Rightarrow>
              Inr ((config, new_cached_provider (60 * 10 ^ 9)),
                   \<lparr>sv_listen_addr = sa_listen_addr args, sv_virtual_host_domain = sa_domain args,
                    sv_token_key = key, sv_oidc_key = key_pem, sv_oidc_issuer = issuer\<rparr>)))"

definition lambda_setup ::
  "'key sealing \<Rightarrow> ('sk, 'pk) oidc_libs \<Rightarrow> (string \<Rightarrow> proxy_error + static_config) \<Rightarrow> string option
   \<Rightarrow> string option \<Rightarrow> string option \<Rightarrow> string option
   \<Rightarrow> setup_error + static_config \<times> 'key option \<times> 'sk maybe_oidc_auth_mode \<times> (string \<times> 'sk jwt_signer) option" where
  "lambda_setup se ol read_config config_path secret key_pem issuer =
     (case read_config (the_or ''config.toml'' config_path) of
        Inl e \<Rightarrow> Inl (LoadError (Inr e))
      | Inr config \<Rightarrow>
         (case load_token_key se secret of
            Inl e \<Rightarrow> Inl (KeyError e)
          | Inr key \<Rightarrow>
             (case oidc_setup ol key_pem issuer of
                Inl e \<Rightarrow> Inl (SignerError e)
              | Inr (mode, published) \<Rightarrow> Inr (config, key, mode, published))))"

subsection \<open>Facts\<close>

text \<open>Every host asks the gateway's question before a backend: no call without an admitted operation.\<close>

lemma host_calls:
  "c \<in> set (snd (t_bind m (\<lambda>h. t_of (f h)))) \<Longrightarrow> c \<in> set (snd m)"
  by (auto simp: snd_t_bind split: outcome.splits)

lemma server_calls_admitted:
  assumes "c \<in> set (snd (server_request_handler gw st ck rid to_bytes lossy q body))"
  shows "\<exists>info op i r. admitted gw st info op i r \<and> ri_path info = nq_path q \<and> ri_method info = nq_method q"
proof -
  obtain info b where i: "server_request to_bytes lossy q body = Some (info, b)"
    using assms by (cases "server_request to_bytes lossy q body") (auto simp: server_request_handler_def)
  with assms have "c \<in> set (snd (t_bind (handle_request gw st ck rid (\<lambda>b. to_bytes b None) info b)
      (\<lambda>h. t_of (answer_gateway (hd_response h)))))"
    by (simp add: server_request_handler_def)
  note host_calls[OF this]
  moreover have "ri_path info = nq_path q \<and> ri_method info = nq_method q"
    using i by (auto simp: server_request_def native_request_info_def new_request_info_def with_form_body_def
        Let_def split: if_splits sum.splits)
  moreover obtain op i' r where "admitted gw st info op i' r"
    using handle_calls_admitted[OF calculation(1)] by auto
  ultimately show ?thesis
    by blast
qed

lemma lambda_calls_admitted:
  assumes "c \<in> set (snd (lambda_request_handler gw st ck rid lossy q body))"
  shows "\<exists>info op i r. admitted gw st info op i r \<and> ri_path info = nq_path q \<and> ri_method info = nq_method q"
  using handle_calls_admitted[OF host_calls[OF assms[unfolded lambda_request_handler_def Let_def]]]
  by (fastforce simp: native_request_info_def new_request_info_def with_form_body_def split: if_splits)

lemma worker_calls_admitted:
  assumes "worker_event wl rl gw st ck rid req = Inr t" "c \<in> set (snd t)"
  shows "\<exists>parts body op i r. worker_request wl rl req = Inr (parts, body) \<and> admitted gw st (as_request_info parts) op i r"
proof -
  obtain parts body where w: "worker_request wl rl req = Inr (parts, body)"
    "t = t_bind (handle_request gw st ck rid (collect_js_body wl) (as_request_info parts) body)
           (\<lambda>h. t_of (into_web_sys (rl_constructs rl) (hd_response h)))"
    using assms(1) by (auto simp: worker_event_def split: sum.splits)
  moreover obtain op i r where "admitted gw st (as_request_info parts) op i r"
    using handle_calls_admitted[OF host_calls[OF assms(2)[unfolded w(2)]]] by auto
  ultimately show ?thesis
    by blast
qed

text \<open>The body of a mislabeled form reaches the gateway as it came.\<close>

lemma server_body_intact:
  assumes "\<And>b n. n \<ge> length b \<Longrightarrow> to_bytes b (Some n) = Inr b" "length body \<le> form_body_max_bytes"
    and "server_request to_bytes lossy q body = Some (info, body')"
  shows "body' = body"
  using assms by (auto simp: server_request_def Let_def split: if_splits sum.splits)

text \<open>
  The Workers host decodes the path before it looks for a key, the native hosts do not: the key of the
  same request differs as soon as the client escapes a character.
\<close>

lemma hosts_disagree_on_keys:
  fixes decode :: "string \<Rightarrow> string"
  assumes "decode ''/b/my%20key'' = ''/b/my key''"
  shows "parse_operation demo_libs None (native_request_info
           \<lparr>nq_method = GET, nq_path = ''/b/my%20key'', nq_query = None, nq_headers = []\<rparr>)
         = Inr (GetObject ''b'' ''my%20key'' None) \<and>
     (\<exists>parts. request_from_web (\<lambda>_. Inr GET) (\<lambda>u. Inr (u, None)) decode ''GET'' ''/b/my%20key'' [] = Inr parts \<and>
        parse_operation demo_libs None (as_request_info parts) = Inr (GetObject ''b'' ''my key'' None))"
  by (simp add: assms request_from_web_def as_request_info_def with_form_body_def with_signing_path_def
      parse_operation_def native_request_info_def new_request_info_def demo_libs_def
      parse_s3_request_def determine_host_style_def parse_path_style_def Let_def
      build_s3_operation_def validate_key_def degenerate_segment_def hm_str_def hm_get_def
      hm_contains_def parse_query_params_def find_param_def has_param_def)

end
