(* ===== verification/JsBase.thy ===== *)
theory JsBase
  imports Complex_Main Prelude "HOL-Library.AList" "HOL-Library.Word"
begin

text \<open>
  What the models of the JavaScript sources share: numbers with the infinities and \<open>NaN\<close>, arrays
  read and written by index, \<open>Map\<close> objects, and the 32-bit conversion of the bit operators.  A
  finite number is a real, so rounding is not modelled, and there is one zero.  A \<open>Map\<close> is an
  association list in insertion order: \<open>set\<close> is \<open>AList.update\<close> (an old key keeps its place, a new
  one goes to the end), \<open>delete\<close> is \<open>AList.delete\<close>, \<open>get\<close> is \<open>map_of\<close>.
\<close>

named_theorems js_simps

subsection \<open>Numbers\<close>

datatype jsnum = JNum real | JInf | JNegInf | JNaN

fun js_lt :: "jsnum \<Rightarrow> jsnum \<Rightarrow> bool" where
  "js_lt (JNum a) (JNum b) = (a < b)"
| "js_lt (JNum a) JInf = True"
| "js_lt JNegInf (JNum b) = True"
| "js_lt JNegInf JInf = True"
| "js_lt _ _ = False"

fun js_eq :: "jsnum \<Rightarrow> jsnum \<Rightarrow> bool" where
  "js_eq (JNum a) (JNum b) = (a = b)"
| "js_eq JInf JInf = True"
| "js_eq JNegInf JNegInf = True"
| "js_eq _ _ = False"

definition js_le :: "jsnum \<Rightarrow> jsnum \<Rightarrow> bool" where
  "js_le a b = (js_lt a b \<or> js_eq a b)"

fun js_neg :: "jsnum \<Rightarrow> jsnum" where
  "js_neg (JNum a) = JNum (- a)"
| "js_neg JInf = JNegInf"
| "js_neg JNegInf = JInf"
| "js_neg JNaN = JNaN"

fun js_add :: "jsnum \<Rightarrow> jsnum \<Rightarrow> jsnum" where
  "js_add (JNum a) (JNum b) = JNum (a + b)"
| "js_add JNaN _ = JNaN"
| "js_add _ JNaN = JNaN"
| "js_add JInf JNegInf = JNaN"
| "js_add JNegInf JInf = JNaN"
| "js_add JInf _ = JInf"
| "js_add _ JInf = JInf"
| "js_add JNegInf _ = JNegInf"
| "js_add _ JNegInf = JNegInf"

definition js_sub :: "jsnum \<Rightarrow> jsnum \<Rightarrow> jsnum" where
  "js_sub a b = js_add a (js_neg b)"

definition js_min :: "jsnum \<Rightarrow> jsnum \<Rightarrow> jsnum" where
  "js_min a b = (if a = JNaN \<or> b = JNaN then JNaN else if js_lt b a then b else a)"

definition js_max :: "jsnum \<Rightarrow> jsnum \<Rightarrow> jsnum" where
  "js_max a b = (if a = JNaN \<or> b = JNaN then JNaN else if js_lt a b then b else a)"

definition js_div :: "jsnum \<Rightarrow> jsnum \<Rightarrow> jsnum" where
  "js_div a b =
     (case (a, b) of
        (JNum x, JNum y) \<Rightarrow> if y \<noteq> 0 then JNum (x / y) else if x = 0 then JNaN else if x > 0 then JInf else JNegInf
      | (JNum x, JInf) \<Rightarrow> JNum 0
      | (JNum x, JNegInf) \<Rightarrow> JNum 0
      | (JInf, JNum y) \<Rightarrow> if y \<ge> 0 then JInf else JNegInf
      | (JNegInf, JNum y) \<Rightarrow> if y \<ge> 0 then JNegInf else JInf
      | _ \<Rightarrow> JNaN)"

definition js_sign :: "jsnum \<Rightarrow> jsnum" where
  "js_sign a = (if a = JNaN then JNaN else if js_lt a (JNum 0) then JNum (- 1) else if js_lt (JNum 0) a then JNum 1 else JNum 0)"

definition js_mul :: "jsnum \<Rightarrow> jsnum \<Rightarrow> jsnum" where
  "js_mul a b =
     (case (a, b) of
        (JNum x, JNum y) \<Rightarrow> JNum (x * y)
      | _ \<Rightarrow>
         (case (js_sign a, js_sign b) of
            (JNum x, JNum y) \<Rightarrow> if x * y = 0 then JNaN else if x * y > 0 then JInf else JNegInf
          | _ \<Rightarrow> JNaN))"

definition js_log :: "jsnum \<Rightarrow> jsnum" where
  "js_log a =
     (case a of
        JNum x \<Rightarrow> if x > 0 then JNum (ln x) else if x = 0 then JNegInf else JNaN
      | JInf \<Rightarrow> JInf
      | _ \<Rightarrow> JNaN)"

definition js_abs :: "jsnum \<Rightarrow> jsnum" where
  "js_abs a = (if js_lt a (JNum 0) then js_neg a else a)"

definition js_sqrt :: "jsnum \<Rightarrow> jsnum" where
  "js_sqrt a =
     (case a of JNum x \<Rightarrow> if x < 0 then JNaN else JNum (sqrt x) | JInf \<Rightarrow> JInf | _ \<Rightarrow> JNaN)"

definition is_finite :: "jsnum \<Rightarrow> bool" where
  "is_finite a = (case a of JNum _ \<Rightarrow> True | _ \<Rightarrow> False)"

lemma js_lt_irrefl [simp]: "\<not> js_lt a a"
  by (cases a) auto

lemma js_lt_trans: "js_lt a b \<Longrightarrow> js_lt b c \<Longrightarrow> js_lt a c"
  by (cases a; cases b; cases c) auto

lemma js_lt_asym: "js_lt a b \<Longrightarrow> \<not> js_lt b a"
  by (cases a; cases b) auto

lemma js_lt_neg_trans: "b \<noteq> JNaN \<Longrightarrow> \<not> js_lt a b \<Longrightarrow> \<not> js_lt b c \<Longrightarrow> \<not> js_lt a c"
  by (cases a; cases b; cases c) auto

lemma js_sub_neg_iff: "a \<noteq> JNaN \<Longrightarrow> b \<noteq> JNaN \<Longrightarrow> js_lt (js_sub a b) (JNum 0) \<longleftrightarrow> js_lt a b"
  by (cases a; cases b) (auto simp: js_sub_def)

subsection \<open>32-bit integers\<close>

definition to_int32 :: "int \<Rightarrow> int" where
  "to_int32 n = sint (word_of_int n :: 32 word)"

lemma to_int32_range: "- (2 ^ 31) \<le> to_int32 n" "to_int32 n < 2 ^ 31"
  using sint_greater_eq[of "word_of_int n :: 32 word"] sint_less[of "word_of_int n :: 32 word"]
  by (simp_all add: to_int32_def)

lemma to_int32_id: "- (2 ^ 31) \<le> n \<Longrightarrow> n < 2 ^ 31 \<Longrightarrow> to_int32 n = n"
  by (simp add: to_int32_def signed_of_int signed_take_bit_int_eq_self)

lemma word_of_to_int32: "(word_of_int (to_int32 n) :: 32 word) = word_of_int n"
  by (simp add: to_int32_def)

subsection \<open>Arrays\<close>

definition js_get :: "'a list \<Rightarrow> nat \<Rightarrow> 'a option" where
  "js_get xs i = (if i < length xs then Some (xs ! i) else None)"

text \<open>Writing at the length extends the array by one; the sources never write further out.\<close>

definition js_set :: "'a list \<Rightarrow> nat \<Rightarrow> 'a \<Rightarrow> 'a list" where
  "js_set xs i v = (if i = length xs then xs @ [v] else xs[i := v])"

fun index_of :: "'a list \<Rightarrow> 'a \<Rightarrow> nat option" where
  "index_of [] x = None"
| "index_of (y # ys) x = (if y = x then Some 0 else map_option Suc (index_of ys x))"

definition slice_from :: "nat \<Rightarrow> 'a list \<Rightarrow> 'a list" where
  "slice_from n xs = drop n xs"

definition splice_in :: "'a list \<Rightarrow> nat \<Rightarrow> 'a \<Rightarrow> 'a list" where
  "splice_in xs i x = take i xs @ x # drop i xs"

definition js_swap :: "'a list \<Rightarrow> nat \<Rightarrow> nat \<Rightarrow> 'a list" where
  "js_swap xs i j = xs[i := xs ! j, j := xs ! i]"

lemma js_get_in [simp, js_simps]: "i < length xs \<Longrightarrow> js_get xs i = Some (xs ! i)"
  by (simp add: js_get_def)

lemma js_get_out [simp, js_simps]: "length xs \<le> i \<Longrightarrow> js_get xs i = None"
  by (simp add: js_get_def)

lemma js_get_eq_Some: "js_get xs i = Some x \<longleftrightarrow> i < length xs \<and> xs ! i = x"
  by (auto simp: js_get_def)

lemma index_of_Some: "index_of xs x = Some i \<Longrightarrow> i < length xs \<and> xs ! i = x"
  by (induction xs arbitrary: i) (auto split: if_splits)

lemma index_of_None: "index_of xs x = None \<longleftrightarrow> x \<notin> set xs"
  by (induction xs) auto

lemma mset_splice_in: "mset (splice_in xs i x) = add_mset x (mset xs)"
  by (simp add: splice_in_def) (metis append_take_drop_id mset_append)

lemma length_splice_in [simp]: "length (splice_in xs i x) = Suc (length xs)"
  by (simp add: splice_in_def)

lemma mset_js_swap: "i < length xs \<Longrightarrow> j < length xs \<Longrightarrow> mset (js_swap xs i j) = mset xs"
  by (simp add: js_swap_def mset_swap)

text \<open>\<open>Array.prototype.sort\<close> is stable; \<open>cmp x y > 0\<close> puts \<open>y\<close> first.\<close>

fun js_insert :: "('a \<Rightarrow> 'a \<Rightarrow> jsnum) \<Rightarrow> 'a \<Rightarrow> 'a list \<Rightarrow> 'a list" where
  "js_insert cmp x [] = [x]"
| "js_insert cmp x (y # ys) = (if js_lt (JNum 0) (cmp x y) then y # js_insert cmp x ys else x # y # ys)"

definition js_sort :: "('a \<Rightarrow> 'a \<Rightarrow> jsnum) \<Rightarrow> 'a list \<Rightarrow> 'a list" where
  "js_sort cmp xs = foldr (js_insert cmp) xs []"

lemma mset_js_insert [simp]: "mset (js_insert cmp x ys) = add_mset x (mset ys)"
  by (induction ys) auto

lemma mset_js_sort [simp]: "mset (js_sort cmp xs) = mset xs"
  unfolding js_sort_def by (induction xs) auto

lemma set_js_sort [simp]: "set (js_sort cmp xs) = set xs"
  by (metis mset_js_sort set_mset_mset)

lemma length_js_sort [simp]: "length (js_sort cmp xs) = length xs"
  by (metis mset_js_sort size_mset)

subsection \<open>Strings\<close>

definition ascii_upper :: "char \<Rightarrow> char" where
  "ascii_upper c = (let n = of_char c in if 97 \<le> (n::nat) \<and> n \<le> 122 then char_of (n - 32) else c)"

definition is_upper :: "char \<Rightarrow> bool" where
  "is_upper c = (65 \<le> (of_char c :: nat) \<and> (of_char c :: nat) \<le> 90)"

text \<open>\<open>\w\<close>: a letter, a digit or an underscore.\<close>

definition is_word_char :: "char \<Rightarrow> bool" where
  "is_word_char c = (is_ascii_alphanumeric c \<or> c = CHR ''_'')"

definition digit_of :: "char \<Rightarrow> nat option" where
  "digit_of c =
     (let n = of_char c :: nat in
      if 48 \<le> n \<and> n \<le> 57 then Some (n - 48)
      else if 97 \<le> n \<and> n \<le> 122 then Some (n - 87)
      else if 65 \<le> n \<and> n \<le> 90 then Some (n - 55)
      else None)"

fun digits_prefix :: "nat \<Rightarrow> nat \<Rightarrow> string \<Rightarrow> nat" where
  "digits_prefix radix acc [] = acc"
| "digits_prefix radix acc (c # cs) =
     (case digit_of c of
        Some d \<Rightarrow> if d < radix then digits_prefix radix (acc * radix + d) cs else acc
      | None \<Rightarrow> acc)"

definition starts_digit :: "nat \<Rightarrow> string \<Rightarrow> bool" where
  "starts_digit radix s =
     (case s of [] \<Rightarrow> False | c # _ \<Rightarrow> (case digit_of c of Some d \<Rightarrow> d < radix | None \<Rightarrow> False))"

text \<open>\<open>parseInt(s, radix)\<close>; \<open>None\<close> is \<open>NaN\<close>.\<close>

definition js_parse_int :: "nat \<Rightarrow> string \<Rightarrow> int option" where
  "js_parse_int radix s =
     (let s = dropWhile is_ws s;
          (sign, s) = (case s of c # cs \<Rightarrow> if c = CHR ''-'' then (-1, cs) else if c = CHR ''+'' then (1, cs) else (1, s)
                       | [] \<Rightarrow> (1, s));
          s = (if radix = 16 then
                 (case s of c # d # cs \<Rightarrow> if c = CHR ''0'' \<and> (d = CHR ''x'' \<or> d = CHR ''X'') then cs else s | _ \<Rightarrow> s)
               else s)
      in if starts_digit radix s then Some (sign * int (digits_prefix radix 0 s)) else None)"

text \<open>A decimal literal: a sign, \<open>\d+\<close> or \<open>\d*\.\d+\<close>, an exponent.\<close>

definition split_sign :: "string \<Rightarrow> int \<times> string" where
  "split_sign s =
     (case s of
        c # cs \<Rightarrow> if c = CHR ''-'' then (-1, cs) else if c = CHR ''+'' then (1, cs) else (1, s)
      | [] \<Rightarrow> (1, s))"

definition all_digits :: "string \<Rightarrow> bool" where
  "all_digits s = (s \<noteq> [] \<and> list_all is_digit s)"

definition mantissa_value :: "string \<Rightarrow> real option" where
  "mantissa_value s =
     (let i = takeWhile (\<lambda>c. c \<noteq> CHR ''.'') s; f = dropWhile (\<lambda>c. c \<noteq> CHR ''.'') s
      in case f of
           [] \<Rightarrow> if all_digits i then Some (real (digits_prefix 10 0 i)) else None
         | _ # f \<Rightarrow> if (i = [] \<or> all_digits i) \<and> all_digits f
                  then Some (real (digits_prefix 10 0 (i @ f)) / 10 ^ length f) else None)"

definition exponent_value :: "string \<Rightarrow> int option" where
  "exponent_value s =
     (case s of
        [] \<Rightarrow> Some 0
      | _ # e \<Rightarrow> (let (sg, e) = split_sign e in if all_digits e then Some (sg * int (digits_prefix 10 0 e)) else None))"

definition number_value :: "string \<Rightarrow> real option" where
  "number_value s =
     (let (sg, s) = split_sign s; isexp = (\<lambda>c. c = CHR ''e'' \<or> c = CHR ''E'')
      in case (mantissa_value (takeWhile (\<lambda>c. \<not> isexp c) s), exponent_value (dropWhile (\<lambda>c. \<not> isexp c) s)) of
           (Some m, Some e) \<Rightarrow> Some (of_int sg * (if 0 \<le> e then m * 10 ^ nat e else m / 10 ^ nat (- e)))
         | _ \<Rightarrow> None)"

definition is_number_char :: "char \<Rightarrow> bool" where
  "is_number_char c = (is_digit c \<or> c \<in> set ''+-.eE'')"

text \<open>\<open>Math.round\<close>: halves go up.\<close>

definition js_round :: "real \<Rightarrow> int" where
  "js_round x = \<lfloor>x + 1 / 2\<rfloor>"

subsection \<open>Objects\<close>

text \<open>
  An object literal is an association list of its own properties in insertion order.  A read also
  finds the members of \<open>Object.prototype\<close>; \<open>Object.keys\<close> lists array indices first, in order.
\<close>

datatype 'v js_prop = Own 'v | Inherited string

definition object_prototype :: "string list" where
  "object_prototype =
     [''constructor'', ''__defineGetter__'', ''__defineSetter__'', ''hasOwnProperty'', ''__lookupGetter__'',
      ''__lookupSetter__'', ''isPrototypeOf'', ''propertyIsEnumerable'', ''toString'', ''valueOf'',
      ''__proto__'', ''toLocaleString'']"

definition obj_get :: "(string \<times> 'v) list \<Rightarrow> string \<Rightarrow> 'v js_prop option" where
  "obj_get obj k =
     (case map_of obj k of
        Some v \<Rightarrow> Some (Own v)
      | None \<Rightarrow> if k \<in> set object_prototype then Some (Inherited k) else None)"

definition is_index_key :: "string \<Rightarrow> bool" where
  "is_index_key k =
     (k \<noteq> [] \<and> list_all is_digit k \<and> (hd k = CHR ''0'' \<longrightarrow> k = ''0'') \<and> digits_prefix 10 0 k < 4294967295)"

definition object_keys :: "(string \<times> 'v) list \<Rightarrow> string list" where
  "object_keys obj =
     (let ks = map fst obj
      in sort_key (digits_prefix 10 0) (filter is_index_key ks) @ filter (\<lambda>k. \<not> is_index_key k) ks)"

lemma set_object_keys [simp]: "set (object_keys obj) = fst ` set obj"
  by (auto simp: object_keys_def Let_def)

lemma distinct_object_keys: "distinct (map fst obj) \<Longrightarrow> distinct (object_keys obj)"
  by (auto simp: object_keys_def Let_def)

subsection \<open>Map objects\<close>

lemma map_of_update [js_simps]: "map_of (AList.update k v m) = (map_of m)(k \<mapsto> v)"
  by (rule update_conv')

lemma map_of_delete [js_simps]: "map_of (AList.delete k m) = (map_of m)(k := None)"
  by (rule delete_conv')

lemma distinct_update_keys [simp]: "distinct (map fst m) \<Longrightarrow> distinct (map fst (AList.update k v m))"
  by (rule distinct_update)

lemma distinct_delete_keys [simp]: "distinct (map fst m) \<Longrightarrow> distinct (map fst (AList.delete k m))"
  by (rule distinct_delete)

end
