(* ===== verification/CyHeap.thy ===== *)
theory CyHeap
  imports JsBase "HOL-Library.Multiset"
begin

text \<open>
  The binary heap that cytoscape's graph algorithms use (\<open>cytoscape.js\<close>, \<open>requireHeap$1\<close>): an
  array in heap order under a comparison function.  \<open>_siftup\<close> moves the hole at a position down
  to a leaf along the smaller children and then sifts the item up from there.  A comparison
  \<open>cmp(x, y) < 0\<close> is \<open>below cmp x y\<close>.
\<close>

type_synonym 'a comparison = "'a \<Rightarrow> 'a \<Rightarrow> jsnum"

definition below :: "'a comparison \<Rightarrow> 'a \<Rightarrow> 'a \<Rightarrow> bool" where
  "below cmp x y = js_lt (cmp x y) (JNum 0)"

definition default_cmp :: "'a::ord \<Rightarrow> 'a \<Rightarrow> jsnum" where
  "default_cmp x y = (if x < y then JNum (-1) else if y < x then JNum 1 else JNum 0)"

subsection \<open>Sifting\<close>

function siftdown_loop :: "'a comparison \<Rightarrow> 'a list \<Rightarrow> nat \<Rightarrow> nat \<Rightarrow> 'a \<Rightarrow> 'a list \<times> nat" where
  "siftdown_loop cmp xs startpos pos newitem =
     (if startpos < pos then
        (let parentpos = (pos - 1) div 2; parent = xs ! parentpos
         in if below cmp newitem parent
            then siftdown_loop cmp (xs[pos := parent]) startpos parentpos newitem
            else (xs, pos))
      else (xs, pos))"
  by pat_completeness auto
termination
  by (relation "measure (\<lambda>(cmp, xs, startpos, pos, newitem). pos)") auto

definition siftdown :: "'a comparison \<Rightarrow> 'a list \<Rightarrow> nat \<Rightarrow> nat \<Rightarrow> 'a list" where
  "siftdown cmp xs startpos pos =
     (let newitem = xs ! pos; (ys, p) = siftdown_loop cmp xs startpos pos newitem
      in ys[p := newitem])"

definition smaller_child :: "'a comparison \<Rightarrow> 'a list \<Rightarrow> nat \<Rightarrow> nat" where
  "smaller_child cmp xs pos =
     (let childpos = 2 * pos + 1; rightpos = childpos + 1
      in if rightpos < length xs \<and> \<not> below cmp (xs ! childpos) (xs ! rightpos)
         then rightpos else childpos)"

function siftup_loop :: "'a comparison \<Rightarrow> 'a list \<Rightarrow> nat \<Rightarrow> 'a list \<times> nat" where
  "siftup_loop cmp xs pos =
     (if 2 * pos + 1 < length xs then
        (let c = smaller_child cmp xs pos in siftup_loop cmp (xs[pos := xs ! c]) c)
      else (xs, pos))"
  by pat_completeness auto
termination
  by (relation "measure (\<lambda>(cmp, xs, pos). length xs - pos)") (auto simp: smaller_child_def Let_def)

definition siftup :: "'a comparison \<Rightarrow> 'a list \<Rightarrow> nat \<Rightarrow> 'a list" where
  "siftup cmp xs pos =
     (let newitem = xs ! pos; (ys, p) = siftup_loop cmp xs pos
      in siftdown cmp (ys[p := newitem]) pos p)"

subsection \<open>Operations on an array\<close>

function insort_loop :: "'a comparison \<Rightarrow> 'a list \<Rightarrow> 'a \<Rightarrow> nat \<Rightarrow> nat \<Rightarrow> nat" where
  "insort_loop cmp a x lo hi =
     (if lo < hi then
        (let mid = (lo + hi) div 2
         in if below cmp x (a ! mid) then insort_loop cmp a x lo mid
            else insort_loop cmp a x (mid + 1) hi)
      else lo)"
  by pat_completeness auto
termination
  by (relation "measure (\<lambda>(cmp, a, x, lo, hi). hi - lo)") auto

definition heap_insort :: "'a comparison \<Rightarrow> 'a list \<Rightarrow> 'a \<Rightarrow> int option \<Rightarrow> nat option \<Rightarrow> string + 'a list" where
  "heap_insort cmp a x lo hi =
     (let lo = the_or 0 lo
      in if lo < 0 then Inl ''lo must be non-negative''
         else Inr (splice_in a (insort_loop cmp a x (nat lo) (the_or (length a) hi)) x))"

definition heappush :: "'a comparison \<Rightarrow> 'a list \<Rightarrow> 'a \<Rightarrow> 'a list" where
  "heappush cmp xs x = siftdown cmp (xs @ [x]) 0 (length xs)"

definition heappop :: "'a comparison \<Rightarrow> 'a list \<Rightarrow> 'a list \<times> 'a option" where
  "heappop cmp xs =
     (if xs = [] then ([], None)
      else (let lastelt = last xs; ys = butlast xs
            in if ys = [] then (ys, Some lastelt)
               else (siftup cmp (ys[0 := lastelt]) 0, Some (ys ! 0))))"

definition heapreplace :: "'a comparison \<Rightarrow> 'a list \<Rightarrow> 'a \<Rightarrow> 'a list \<times> 'a option" where
  "heapreplace cmp xs x = (siftup cmp (js_set xs 0 x) 0, js_get xs 0)"

definition heappushpop :: "'a comparison \<Rightarrow> 'a list \<Rightarrow> 'a \<Rightarrow> 'a list \<times> 'a" where
  "heappushpop cmp xs x =
     (if xs \<noteq> [] \<and> below cmp (xs ! 0) x then (siftup cmp (xs[0 := x]) 0, xs ! 0) else (xs, x))"

definition heapify :: "'a comparison \<Rightarrow> 'a list \<Rightarrow> 'a list" where
  "heapify cmp xs = foldl (siftup cmp) xs (rev [0..<length xs div 2])"

definition update_item :: "'a comparison \<Rightarrow> 'a list \<Rightarrow> 'a \<Rightarrow> 'a list" where
  "update_item cmp xs x =
     (case index_of xs x of
        None \<Rightarrow> xs
      | Some pos \<Rightarrow> siftup cmp (siftdown cmp xs 0 pos) pos)"

definition nlargest :: "'a comparison \<Rightarrow> 'a list \<Rightarrow> nat \<Rightarrow> 'a list" where
  "nlargest cmp xs n =
     (let result = take n xs
      in if result = [] then result
         else rev (js_sort cmp (foldl (\<lambda>h x. fst (heappushpop cmp h x)) (heapify cmp result) (drop n xs))))"

text \<open>Popping \<open>n\<close> times, or until nothing is left.\<close>

fun pop_times :: "('q \<Rightarrow> 'q \<times> 'a option) \<Rightarrow> nat \<Rightarrow> 'q \<Rightarrow> 'q \<times> 'a list" where
  "pop_times pop 0 q = (q, [])"
| "pop_times pop (Suc n) q =
     (case pop q of
        (q', None) \<Rightarrow> (q', [])
      | (q', Some x) \<Rightarrow> (let (q'', rest) = pop_times pop n q' in (q'', x # rest)))"

text \<open>The short-result branch keeps the best \<open>n\<close> seen so far sorted; the other one heapifies the
  array and pops.  The array as the call leaves it comes first.\<close>

definition nsmallest_step :: "'a comparison \<Rightarrow> 'a list \<Rightarrow> 'a \<Rightarrow> 'a list" where
  "nsmallest_step cmp result x =
     (if below cmp x (last result)
      then butlast (splice_in result (insort_loop cmp result x 0 (length result)) x)
      else result)"

definition nsmallest :: "'a comparison \<Rightarrow> 'a list \<Rightarrow> nat \<Rightarrow> 'a list \<times> 'a list" where
  "nsmallest cmp xs n =
     (if n * 10 \<le> length xs then
        (let result = js_sort cmp (take n xs)
         in if result = [] then (xs, result)
            else (xs, foldl (nsmallest_step cmp) result (drop n xs)))
      else pop_times (heappop cmp) (min n (length xs)) (heapify cmp xs))"

subsection \<open>The Heap object\<close>

record 'a heap =
  hp_cmp :: "'a comparison"
  hp_nodes :: "'a list"

definition new_heap :: "'a::ord comparison option \<Rightarrow> 'a heap" where
  "new_heap cmp = \<lparr>hp_cmp = the_or default_cmp cmp, hp_nodes = []\<rparr>"

definition heap_push :: "'a heap \<Rightarrow> 'a \<Rightarrow> 'a heap" where
  "heap_push h x = h\<lparr>hp_nodes := heappush (hp_cmp h) (hp_nodes h) x\<rparr>"

definition heap_pop :: "'a heap \<Rightarrow> 'a heap \<times> 'a option" where
  "heap_pop h = (let (xs, r) = heappop (hp_cmp h) (hp_nodes h) in (h\<lparr>hp_nodes := xs\<rparr>, r))"

definition heap_peek :: "'a heap \<Rightarrow> 'a option" where
  "heap_peek h = js_get (hp_nodes h) 0"

definition heap_contains :: "'a heap \<Rightarrow> 'a \<Rightarrow> bool" where
  "heap_contains h x = (index_of (hp_nodes h) x \<noteq> None)"

definition heap_replace :: "'a heap \<Rightarrow> 'a \<Rightarrow> 'a heap \<times> 'a option" where
  "heap_replace h x = (let (xs, r) = heapreplace (hp_cmp h) (hp_nodes h) x in (h\<lparr>hp_nodes := xs\<rparr>, r))"

definition heap_pushpop :: "'a heap \<Rightarrow> 'a \<Rightarrow> 'a heap \<times> 'a" where
  "heap_pushpop h x = (let (xs, r) = heappushpop (hp_cmp h) (hp_nodes h) x in (h\<lparr>hp_nodes := xs\<rparr>, r))"

definition heap_heapify :: "'a heap \<Rightarrow> 'a heap" where
  "heap_heapify h = h\<lparr>hp_nodes := heapify (hp_cmp h) (hp_nodes h)\<rparr>"

definition heap_update_item :: "'a heap \<Rightarrow> 'a \<Rightarrow> 'a heap" where
  "heap_update_item h x = h\<lparr>hp_nodes := update_item (hp_cmp h) (hp_nodes h) x\<rparr>"

definition heap_clear :: "'a heap \<Rightarrow> 'a heap" where
  "heap_clear h = h\<lparr>hp_nodes := []\<rparr>"

definition heap_empty :: "'a heap \<Rightarrow> bool" where
  "heap_empty h = (length (hp_nodes h) = 0)"

definition heap_size :: "'a heap \<Rightarrow> nat" where
  "heap_size h = length (hp_nodes h)"

text \<open>\<open>clone\<close> builds the copy with \<open>new Heap3()\<close>, so the copy compares by the default.\<close>

definition heap_clone :: "'a::ord heap \<Rightarrow> 'a heap" where
  "heap_clone h = (new_heap None)\<lparr>hp_nodes := hp_nodes h\<rparr>"

definition heap_to_array :: "'a heap \<Rightarrow> 'a list" where
  "heap_to_array h = hp_nodes h"

subsection \<open>Heap order\<close>

text \<open>A comparison the heap may rely on: a strict weak order.\<close>

locale comparator =
  fixes cmp :: "'a comparison"
  assumes below_asym: "below cmp x y \<Longrightarrow> \<not> below cmp y x"
    and below_neg_trans: "\<not> below cmp x y \<Longrightarrow> \<not> below cmp y z \<Longrightarrow> \<not> below cmp x z"

definition par :: "nat \<Rightarrow> nat" where
  "par i = (i - 1) div 2"

text \<open>Heap order for the items whose parent is at \<open>t\<close> or later, and the same with the item at \<open>p\<close>
  exempt (its children must still respect its parent).\<close>

definition heap_from :: "'a comparison \<Rightarrow> nat \<Rightarrow> 'a list \<Rightarrow> bool" where
  "heap_from cmp t xs = (\<forall>i. 0 < i \<longrightarrow> i < length xs \<longrightarrow> t \<le> par i \<longrightarrow> \<not> below cmp (xs ! i) (xs ! par i))"

abbreviation is_heap :: "'a comparison \<Rightarrow> 'a list \<Rightarrow> bool" where
  "is_heap cmp \<equiv> heap_from cmp 0"

definition detour :: "'a comparison \<Rightarrow> nat \<Rightarrow> 'a list \<Rightarrow> nat \<Rightarrow> bool" where
  "detour cmp t xs p =
     (0 < p \<longrightarrow> t \<le> par p \<longrightarrow>
       (\<forall>i. 0 < i \<longrightarrow> i < length xs \<longrightarrow> par i = p \<longrightarrow> \<not> below cmp (xs ! i) (xs ! par p)))"

definition heap_but :: "'a comparison \<Rightarrow> nat \<Rightarrow> 'a list \<Rightarrow> nat \<Rightarrow> bool" where
  "heap_but cmp t xs p =
     ((\<forall>i. 0 < i \<longrightarrow> i < length xs \<longrightarrow> t \<le> par i \<longrightarrow> i \<noteq> p \<longrightarrow> \<not> below cmp (xs ! i) (xs ! par i))
      \<and> detour cmp t xs p)"

definition heap_hole :: "'a comparison \<Rightarrow> nat \<Rightarrow> 'a list \<Rightarrow> nat \<Rightarrow> bool" where
  "heap_hole cmp t xs p =
     ((\<forall>i. 0 < i \<longrightarrow> i < length xs \<longrightarrow> t \<le> par i \<longrightarrow> i \<noteq> p \<longrightarrow> par i \<noteq> p \<longrightarrow> \<not> below cmp (xs ! i) (xs ! par i))
      \<and> detour cmp t xs p)"

text \<open>\<open>s\<close> is \<open>p\<close> or one of its ancestors.\<close>

function above :: "nat \<Rightarrow> nat \<Rightarrow> bool" where
  "above s p = (if p \<le> s then p = s else above s (par p))"
  by pat_completeness auto
termination
  by (relation "measure snd") (auto simp: par_def)

declare above.simps [simp del] siftdown_loop.simps [simp del] siftup_loop.simps [simp del]

lemma par_less: "0 < p \<Longrightarrow> par p < p"
  by (auto simp: par_def)

lemma par_child [simp]: "par (Suc (2 * p)) = p" "par (Suc (Suc (2 * p))) = p"
  by (auto simp: par_def)

lemma par_eq_iff: "0 < i \<Longrightarrow> par i = p \<longleftrightarrow> i = 2 * p + 1 \<or> i = 2 * p + 2"
  by (auto simp: par_def)

lemma above_refl [simp]: "above s s"
  by (simp add: above.simps)

lemma above_0 [simp]: "above 0 p"
proof (induction p rule: less_induct)
  case (less p)
  then show ?case by (cases "p = 0") (auto simp: above.simps[of 0 p] par_less)
qed

lemma above_par: "above s p \<Longrightarrow> s < p \<Longrightarrow> above s (par p) \<and> s \<le> par p"
  by (subst (asm) above.simps) (auto simp: above.simps[of s "par p"] split: if_splits)

lemma above_child: "above s p \<Longrightarrow> s \<le> p \<Longrightarrow> 0 < c \<Longrightarrow> par c = p \<Longrightarrow> above s c"
  using par_less[of c] by (subst above.simps) auto

lemma mset_shift_hole:
  assumes "p < length xs" "c < length xs" "p \<noteq> c"
  shows "mset (xs[p := xs ! c, c := x]) = mset (xs[p := x])"
proof -
  have "xs[p := xs ! c, c := x] = (xs[p := x])[p := (xs[p := x]) ! c, c := (xs[p := x]) ! p]"
    using assms by (simp add: list_eq_iff_nth_eq nth_list_update)
  then show ?thesis using assms by (simp only: mset_swap length_list_update)
qed

subsection \<open>Sifting keeps the items and restores the order\<close>

lemma siftdown_loop_par:
  "siftdown_loop cmp xs s p x =
     (if s < p \<and> below cmp x (xs ! par p) then siftdown_loop cmp (xs[p := xs ! par p]) s (par p) x
      else (xs, p))"
  by (subst siftdown_loop.simps) (simp add: par_def Let_def)

lemma siftdown_loop_mset:
  "p < length xs \<Longrightarrow> siftdown_loop cmp xs s p x = (ys, q)
   \<Longrightarrow> mset (ys[q := x]) = mset (xs[p := x]) \<and> q < length ys \<and> length ys = length xs"
proof (induction p arbitrary: xs rule: less_induct)
  case (less p)
  show ?case
  proof (cases "s < p \<and> below cmp x (xs ! par p)")
    case True
    then have "siftdown_loop cmp (xs[p := xs ! par p]) s (par p) x = (ys, q)"
      using less.prems(2) siftdown_loop_par[of cmp xs s p x] by simp
    moreover have "mset (xs[p := xs ! par p, par p := x]) = mset (xs[p := x])"
      using True less.prems par_less[of p] by (intro mset_shift_hole) auto
    ultimately show ?thesis
      using less.IH[of "par p" "xs[p := xs ! par p]"] True less.prems(1) par_less[of p] by simp
  next
    case False
    then have "(ys, q) = (xs, p)"
      using less.prems(2) siftdown_loop_par[of cmp xs s p x] by auto
    then show ?thesis using less.prems by simp
  qed
qed

lemma siftup_loop_mset:
  "p < length xs \<Longrightarrow> siftup_loop cmp xs p = (ys, q)
   \<Longrightarrow> mset (ys[q := x]) = mset (xs[p := x]) \<and> q < length ys \<and> length ys = length xs"
proof (induction cmp xs p arbitrary: ys q rule: siftup_loop.induct)
  case (1 cmp xs p)
  let ?c = "smaller_child cmp xs p"
  show ?case
  proof (cases "2 * p + 1 < length xs")
    case True
    then have c: "p < ?c" "?c < length xs"
      by (auto simp: smaller_child_def Let_def)
    have "siftup_loop cmp (xs[p := xs ! ?c]) ?c = (ys, q)"
      using True "1.prems" by (simp add: siftup_loop.simps[of cmp xs p] Let_def)
    moreover have "mset (xs[p := xs ! ?c, ?c := x]) = mset (xs[p := x])"
      using c "1.prems" by (intro mset_shift_hole) auto
    ultimately show ?thesis
      using "1.IH"[of ?c ys q] True c by simp
  next
    case False
    then show ?thesis using "1.prems" by (auto simp: siftup_loop.simps[of cmp xs p])
  qed
qed

lemma siftdown_mset:
  assumes "p < length xs" shows "mset (siftdown cmp xs s p) = mset xs"
proof -
  obtain ys q where "siftdown_loop cmp xs s p (xs ! p) = (ys, q)" by fastforce
  then show ?thesis using siftdown_loop_mset[OF assms, of cmp s "xs ! p" ys q] by (simp add: siftdown_def)
qed

lemma siftup_mset:
  assumes "p < length xs" shows "mset (siftup cmp xs p) = mset xs"
proof -
  obtain ys q where "siftup_loop cmp xs p = (ys, q)" by fastforce
  then show ?thesis
    using siftup_loop_mset[OF assms, of cmp ys q "xs ! p"] by (simp add: siftup_def siftdown_mset)
qed

lemma length_siftdown [simp]: "p < length xs \<Longrightarrow> length (siftdown cmp xs s p) = length xs"
  using siftdown_mset[THEN arg_cong[where f = size]] by simp

lemma length_siftup [simp]: "p < length xs \<Longrightarrow> length (siftup cmp xs p) = length xs"
  using siftup_mset[THEN arg_cong[where f = size]] by simp

lemmas sift_mset = siftdown_mset siftup_mset

context comparator
begin

lemma heap_from_but:
  "heap_from cmp t xs \<longleftrightarrow>
     heap_but cmp t xs p
     \<and> (0 < p \<longrightarrow> p < length xs \<longrightarrow> t \<le> par p \<longrightarrow> \<not> below cmp (xs ! p) (xs ! par p))"
proof (intro iffI conjI impI)
  assume h: "heap_from cmp t xs"
  have "\<not> below cmp (xs ! i) (xs ! par p)"
    if i: "0 < i" "i < length xs" "par i = p" "0 < p" "t \<le> par p" for i
  proof -
    have "p < length xs" "t \<le> par i" using i par_less[of i] par_less[of p] by auto
    then show ?thesis using h i below_neg_trans[of "xs ! i" "xs ! p" "xs ! par p"]
      unfolding heap_from_def by blast
  qed
  then show "heap_but cmp t xs p" using h unfolding heap_but_def heap_from_def detour_def by blast
next
  assume "heap_from cmp t xs" "0 < p" "p < length xs" "t \<le> par p"
  then show "\<not> below cmp (xs ! p) (xs ! par p)" unfolding heap_from_def by blast
next
  assume "heap_but cmp t xs p
     \<and> (0 < p \<longrightarrow> p < length xs \<longrightarrow> t \<le> par p \<longrightarrow> \<not> below cmp (xs ! p) (xs ! par p))"
  then show "heap_from cmp t xs" unfolding heap_from_def heap_but_def by blast
qed

lemma below_irrefl [simp]: "\<not> below cmp x x"
  using below_asym by blast

lemma heap_but_up:
  assumes h: "heap_but cmp t (xs[p := x]) p" and p: "p < length xs" "0 < p" "t \<le> par p"
    and less: "below cmp x (xs ! par p)"
  shows "heap_but cmp t (xs[p := xs ! par p, par p := x]) (par p)"
proof -
  let ?q = "par p" and ?Y = "xs[p := x]"
  have q: "?q < p" "?q < length xs" using par_less[of p] p by auto
  have up: "\<not> below cmp (xs ! ?q) x" using less below_asym by blast
  have but: "\<not> below cmp (xs ! i) (?Y ! par i)"
    if "0 < i" "i < length xs" "t \<le> par i" "i \<noteq> p" for i
    using h that by (auto simp: heap_but_def)
  have "detour cmp t ?Y p" using h by (simp add: heap_but_def)
  then have via': "\<not> below cmp (?Y ! i) (?Y ! ?q)" if "0 < i" "i < length xs" "par i = p" for i
    using that p unfolding detour_def by simp
  have via: "\<not> below cmp (xs ! i) (xs ! ?q)" if "0 < i" "i < length xs" "par i = p" for i
    using via'[OF that] that q par_less[of i] by simp
  have sib: "\<not> below cmp (xs ! i) (xs ! ?q)" if "0 < i" "i < length xs" "par i = ?q" "i \<noteq> p" for i
    using but[of i] that p q by simp
  have one: "\<not> below cmp (xs[p := xs ! ?q, ?q := x] ! i) (xs[p := xs ! ?q, ?q := x] ! par i)"
    if i: "0 < i" "i < length xs" "t \<le> par i" "i \<noteq> ?q" for i
  proof -
    consider "i = p" | "i \<noteq> p" "par i = p" | "i \<noteq> p" "par i = ?q" | "i \<noteq> p" "par i \<noteq> p" "par i \<noteq> ?q"
      by blast
    then show ?thesis
    proof cases
      case 1 then show ?thesis using up q i by simp
    next
      case 2 then show ?thesis using via[of i] q i p(1) by simp
    next
      case 3
      then show ?thesis using below_neg_trans[OF sib[of i] up] q i by simp
    next
      case 4 then show ?thesis using but[of i] i q by simp
    qed
  qed
  have two: "\<not> below cmp (xs[p := xs ! ?q, ?q := x] ! i) (xs[p := xs ! ?q, ?q := x] ! par ?q)"
    if i: "0 < i" "i < length xs" "par i = ?q" and qq: "0 < ?q" "t \<le> par ?q" for i
  proof -
    have pq: "par ?q < ?q" using par_less qq by blast
    have g: "\<not> below cmp (xs ! ?q) (xs ! par ?q)"
      using but[of ?q] q qq pq by simp
    show ?thesis
    proof (cases "i = p")
      case True then show ?thesis using g q pq p by simp
    next
      case False
      then show ?thesis using below_neg_trans[OF sib[of i] g] i q pq par_less[of i] by simp
    qed
  qed
  show ?thesis
    unfolding heap_but_def detour_def using one two by simp
qed

lemma siftdown_loop_heap:
  "p < length xs \<Longrightarrow> heap_but cmp t (xs[p := x]) p \<Longrightarrow> above s p \<Longrightarrow> s \<le> p \<Longrightarrow> t \<le> s
   \<Longrightarrow> (0 < s \<Longrightarrow> t \<le> par s \<Longrightarrow> \<not> below cmp x (xs ! par s))
   \<Longrightarrow> siftdown_loop cmp xs s p x = (ys, q) \<Longrightarrow> heap_from cmp t (ys[q := x])"
proof (induction p arbitrary: xs rule: less_induct)
  case (less p)
  show ?case
  proof (cases "s < p \<and> below cmp x (xs ! par p)")
    case True
    have pp: "above s (par p)" "s \<le> par p" using above_par less.prems(3) True by auto
    have "siftdown_loop cmp (xs[p := xs ! par p]) s (par p) x = (ys, q)"
      using less.prems(7) siftdown_loop_par[of cmp xs s p x] True by simp
    moreover have "heap_but cmp t (xs[p := xs ! par p, par p := x]) (par p)"
      using heap_but_up[OF less.prems(2,1)] True pp less.prems(5) by simp
    moreover have "\<not> below cmp x (xs[p := xs ! par p] ! par s)" if "0 < s" "t \<le> par s"
      using less.prems(6)[OF that] par_less[of s] that True by simp
    ultimately show ?thesis
      using less.IH[of "par p" "xs[p := xs ! par p]"] True pp less.prems(1,5) par_less[of p] by simp
  next
    case False
    then have "(ys, q) = (xs, p)"
      using less.prems(7) siftdown_loop_par[of cmp xs s p x] by auto
    moreover have "\<not> below cmp (xs[p := x] ! p) (xs[p := x] ! par p)" if "0 < p" "t \<le> par p"
      using False less.prems(1,4,6) that par_less[of p] by (cases "s < p") auto
    ultimately show ?thesis
      using less.prems(2) by (subst heap_from_but[where p = p]) auto
  qed
qed

lemma heap_hole_down:
  assumes h: "heap_hole cmp t xs p" and p: "2 * p + 1 < length xs" and tp: "t \<le> p"
  defines "c \<equiv> smaller_child cmp xs p"
  shows "heap_hole cmp t (xs[p := xs ! c]) c"
proof -
  let ?Z = "xs[p := xs ! c]"
  have c: "c = 2 * p + 1 \<or> c = 2 * p + 2" "c < length xs"
    using p by (auto simp: c_def smaller_child_def Let_def)
  then have pc: "par c = p" "p < c" "0 < c" by auto
  have sib: "\<not> below cmp (xs ! i) (xs ! c)" if "0 < i" "i < length xs" "par i = p" for i
    using that(2,3) below_asym par_eq_iff[OF that(1), of p]
    by (auto simp: c_def smaller_child_def Let_def)
  have hole: "\<not> below cmp (xs ! i) (xs ! par i)"
    if "0 < i" "i < length xs" "t \<le> par i" "i \<noteq> p" "par i \<noteq> p" for i
    using h that by (auto simp: heap_hole_def)
  have det: "\<not> below cmp (xs ! c) (xs ! par p)" if "0 < p" "t \<le> par p"
    using h that c pc by (simp add: heap_hole_def detour_def)
  have one: "\<not> below cmp (?Z ! i) (?Z ! par i)"
    if i: "0 < i" "i < length xs" "t \<le> par i" "i \<noteq> c" "par i \<noteq> c" for i
  proof (cases "i = p")
    case True then show ?thesis using det i c(2) par_less[of p] pc by simp
  next
    case False
    then show ?thesis using sib[of i] hole[of i] i c(2) pc by (cases "par i = p") auto
  qed
  have two: "\<not> below cmp (?Z ! i) (?Z ! par c)" if i: "0 < i" "i < length xs" "par i = c" for i
    using hole[of i] i pc tp par_less[of i] by simp
  show ?thesis unfolding heap_hole_def detour_def using one two by simp
qed

lemma siftup_loop_hole:
  "p < length xs \<Longrightarrow> heap_hole cmp t xs p \<Longrightarrow> above s p \<Longrightarrow> s \<le> p \<Longrightarrow> t \<le> s
   \<Longrightarrow> siftup_loop cmp xs p = (ys, q)
   \<Longrightarrow> heap_hole cmp t ys q \<and> above s q \<and> s \<le> q \<and> length ys \<le> 2 * q + 1
       \<and> (\<forall>i. i < s \<longrightarrow> ys ! i = xs ! i)"
proof (induction "length xs - p" arbitrary: xs p rule: less_induct)
  case less
  let ?c = "smaller_child cmp xs p"
  show ?case
  proof (cases "2 * p + 1 < length xs")
    case True
    have c: "par ?c = p" "p < ?c" "0 < ?c" "?c < length xs"
      using True by (auto simp: smaller_child_def Let_def)
    have "siftup_loop cmp (xs[p := xs ! ?c]) ?c = (ys, q)"
      using True less.prems by (simp add: siftup_loop.simps[of cmp xs p] Let_def)
    moreover have "heap_hole cmp t (xs[p := xs ! ?c]) ?c"
      using heap_hole_down[OF less.prems(2) True] less.prems by simp
    moreover have "above s ?c"
      using above_child[OF less.prems(3,4) c(3,1)] .
    ultimately show ?thesis
      using less.hyps[of "xs[p := xs ! ?c]" ?c] less.prems(1,4,5) c by simp
  next
    case False
    then have "(ys, q) = (xs, p)"
      using less.prems(6) by (auto simp: siftup_loop.simps[of cmp xs p])
    then show ?thesis using False less.prems by simp
  qed
qed

lemma siftdown_heap:
  assumes "p < length xs" "heap_but cmp t xs p" "above s p" "s \<le> p" "t \<le> s"
    "0 < s \<Longrightarrow> t \<le> par s \<Longrightarrow> \<not> below cmp (xs ! p) (xs ! par s)"
  shows "heap_from cmp t (siftdown cmp xs s p)"
proof -
  obtain ys q where "siftdown_loop cmp xs s p (xs ! p) = (ys, q)" by fastforce
  then show ?thesis
    using siftdown_loop_heap[of p xs t "xs ! p" s ys q] assms by (simp add: siftdown_def)
qed

lemma siftup_heap:
  assumes p: "p < length xs" and hole: "heap_hole cmp t xs p" and t: "t \<le> p"
    and top: "0 < p \<Longrightarrow> t \<le> par p \<Longrightarrow> \<not> below cmp (xs ! p) (xs ! par p)"
  shows "heap_from cmp t (siftup cmp xs p)"
proof -
  obtain ys q where loop: "siftup_loop cmp xs p = (ys, q)" by fastforce
  have l: "q < length ys" "length ys = length xs" using siftup_loop_mset[OF p loop, of "xs ! p"] by auto
  have hq: "heap_hole cmp t ys q" "above p q" "p \<le> q" "length ys \<le> 2 * q + 1"
      "\<forall>i. i < p \<longrightarrow> ys ! i = xs ! i"
    using siftup_loop_hole[OF p hole _ _ t loop] by auto
  let ?Y = "ys[q := xs ! p]"
  have leaf: "par i \<noteq> q" if "0 < i" "i < length ys" for i
    using that hq(4) par_eq_iff[OF that(1)] by auto
  have "\<not> below cmp (?Y ! i) (?Y ! par i)" if "0 < i" "i < length ys" "t \<le> par i" "i \<noteq> q" for i
    using hq(1) leaf[of i] that by (simp add: heap_hole_def)
  moreover have "detour cmp t ?Y q" using leaf by (auto simp: detour_def)
  ultimately have "heap_but cmp t ?Y q" by (simp add: heap_but_def)
  moreover have "\<not> below cmp (?Y ! q) (?Y ! par p)" if "0 < p" "t \<le> par p"
    using top[OF that] par_less[OF that(1)] hq(3,5) l by simp
  ultimately have "heap_from cmp t (siftdown cmp ?Y p q)"
    using siftdown_heap[of q ?Y t p] hq l t by simp
  then show ?thesis by (simp add: siftup_def loop)
qed

lemma heap_from_hole: "heap_from cmp t xs \<Longrightarrow> heap_hole cmp t xs p"
  using heap_from_but[where t = t and xs = xs and p = p] unfolding heap_hole_def heap_but_def by blast

lemma heap_root_least: "is_heap cmp xs \<Longrightarrow> i < length xs \<Longrightarrow> \<not> below cmp (xs ! i) (xs ! 0)"
proof (induction i rule: less_induct)
  case (less i)
  show ?case
  proof (cases "i = 0")
    case False
    then show ?thesis
      using less par_less[of i] below_neg_trans[of "xs ! i" "xs ! par i" "xs ! 0"]
      by (auto simp: heap_from_def)
  qed simp
qed

subsection \<open>The operations\<close>

lemma heap_push_order: "is_heap cmp xs \<Longrightarrow> is_heap cmp (heappush cmp xs x)"
  unfolding heappush_def
proof (rule siftdown_heap)
  assume h: "is_heap cmp xs"
  have "par i \<noteq> length xs" if "0 < i" "i < length (xs @ [x])" for i
    using par_less[OF that(1)] that(2) by simp
  moreover have "\<not> below cmp ((xs @ [x]) ! i) ((xs @ [x]) ! par i)" if "0 < i" "i < length xs" for i
    using h par_less[of i] that by (simp add: heap_from_def nth_append)
  ultimately show "heap_but cmp 0 (xs @ [x]) (length xs)"
    unfolding heap_but_def detour_def by (auto simp: less_Suc_eq)
qed simp_all

lemma heap_pop_order: "is_heap cmp xs \<Longrightarrow> is_heap cmp (fst (heappop cmp xs))"
proof -
  assume h: "is_heap cmp xs"
  have "is_heap cmp (siftup cmp ((butlast xs)[0 := last xs]) 0)" if "butlast xs \<noteq> []"
  proof (rule siftup_heap)
    let ?Z = "(butlast xs)[0 := last xs]"
    have "\<not> below cmp (?Z ! i) (?Z ! par i)" if "0 < i" "i < length xs - 1" "par i \<noteq> 0" for i
      using h par_less[of i] that by (simp add: heap_from_def nth_butlast)
    then show "heap_hole cmp 0 ?Z 0" by (simp add: heap_hole_def detour_def)
  qed (use that in \<open>cases xs rule: rev_cases; simp\<close>)+
  then show ?thesis by (auto simp: heappop_def Let_def heap_from_def)
qed

lemma heap_replace_order:
  assumes h: "is_heap cmp xs" and "xs \<noteq> []" shows "is_heap cmp (siftup cmp (xs[0 := x]) 0)"
proof (rule siftup_heap)
  show "heap_hole cmp 0 (xs[0 := x]) 0"
    using h by (simp add: heap_hole_def detour_def heap_from_def)
qed (use assms in simp_all)

lemma heapify_order: "is_heap cmp (heapify cmp xs)"
proof -
  have "length (foldl (siftup cmp) xs (rev [k..<length xs div 2])) = length xs
        \<and> heap_from cmp k (foldl (siftup cmp) xs (rev [k..<length xs div 2]))"
    if "k \<le> length xs div 2" for k
    using that
  proof (induction "length xs div 2 - k" arbitrary: k)
    case 0
    have "\<not> k \<le> par i" if "0 < i" "i < length xs" for i
      using 0 that by (auto simp: par_def)
    then show ?case using 0 by (auto simp: heap_from_def)
  next
    case (Suc n)
    let ?ys = "foldl (siftup cmp) xs (rev [Suc k..<length xs div 2])"
    have IH: "length ?ys = length xs" "heap_from cmp (Suc k) ?ys" using Suc by auto
    have k: "k < length xs" using Suc by linarith
    have "heap_hole cmp k ?ys k"
      using IH(2) par_less[of k] by (auto simp: heap_hole_def detour_def heap_from_def Suc_le_eq)
    moreover have "\<not> (0 < k \<and> k \<le> par k)" using par_less[of k] by auto
    ultimately have "heap_from cmp k (siftup cmp ?ys k)"
      using IH(1) k by (intro siftup_heap) auto
    moreover have "[k..<length xs div 2] = k # [Suc k..<length xs div 2]"
      using Suc by (intro upt_conv_Cons) linarith
    ultimately show ?case using IH(1) k by simp
  qed
  from this[of 0] show ?thesis by (simp add: heapify_def)
qed

text \<open>An item whose key has fallen, or risen, is moved to its place.\<close>

lemma update_order:
  assumes but: "heap_hole cmp 0 xs p" and p: "p < length xs"
  shows "is_heap cmp (siftup cmp (siftdown cmp xs 0 p) p)"
proof (cases "0 < p \<and> below cmp (xs ! p) (xs ! par p)")
  case True
  have lt: "\<not> below cmp (xs ! i) (xs ! p)" if "0 < i" "i < length xs" "par i = p" for i
  proof -
    have "\<not> below cmp (xs ! i) (xs ! par p)"
      using but that True by (simp add: heap_hole_def detour_def)
    moreover have "\<not> below cmp (xs ! par p) (xs ! p)" using True below_asym by blast
    ultimately show ?thesis using below_neg_trans by blast
  qed
  have "heap_but cmp 0 xs p"
    using but lt unfolding heap_but_def heap_hole_def by blast
  then have h: "is_heap cmp (siftdown cmp xs 0 p)"
    using siftdown_heap[of p xs 0 0] p by simp
  show ?thesis
  proof (rule siftup_heap)
    show "\<not> below cmp (siftdown cmp xs 0 p ! p) (siftdown cmp xs 0 p ! par p)" if "0 < p"
      using h p that by (simp add: heap_from_def)
  qed (use p heap_from_hole[OF h] in simp_all)
next
  case False
  then have "siftdown_loop cmp xs 0 p (xs ! p) = (xs, p)"
    by (subst siftdown_loop_par) auto
  then have "siftdown cmp xs 0 p = xs" by (simp add: siftdown_def)
  then show ?thesis using siftup_heap[of p xs 0] but p False by auto
qed

end

lemma heappush_mset: "mset (heappush cmp xs x) = add_mset x (mset xs)"
  by (simp add: heappush_def siftdown_mset)

lemma heappop_None: "snd (heappop cmp xs) = None \<longleftrightarrow> xs = []"
  by (simp add: heappop_def Let_def)

lemma heappop_Some:
  "heappop cmp xs = (ys, Some x) \<Longrightarrow> xs \<noteq> [] \<and> x = xs ! 0 \<and> mset xs = add_mset x (mset ys)"
proof (cases xs rule: rev_cases)
  case (snoc zs z)
  assume "heappop cmp xs = (ys, Some x)"
  then show ?thesis
  proof (cases zs)
    case (Cons a as)
    then show ?thesis using \<open>heappop cmp xs = _\<close> snoc
      by (auto simp: heappop_def Let_def siftup_mset)
  qed (use snoc in \<open>auto simp: heappop_def\<close>)
qed (simp add: heappop_def)

lemma heapify_mset: "mset (heapify cmp xs) = mset xs"
proof -
  have "mset (foldl (siftup cmp) ys ps) = mset ys \<and> length (foldl (siftup cmp) ys ps) = length ys"
    if "\<forall>p \<in> set ps. p < length ys" for ps ys
    using that by (induction ps arbitrary: ys) (auto simp: siftup_mset)
  moreover have "\<forall>p \<in> set (rev [0..<length xs div 2]). p < length xs" by auto
  ultimately show ?thesis by (simp add: heapify_def)
qed

subsection \<open>The interface the algorithms rely on\<close>

locale priority_queue =
  fixes before :: "'a \<Rightarrow> 'a \<Rightarrow> bool"
    and push :: "'q \<Rightarrow> 'a \<Rightarrow> 'q"
    and pop :: "'q \<Rightarrow> 'q \<times> 'a option"
    and items :: "'q \<Rightarrow> 'a multiset"
    and ok :: "'q \<Rightarrow> bool"
  assumes not_before_trans: "\<not> before x y \<Longrightarrow> \<not> before y z \<Longrightarrow> \<not> before x z"
    and ok_push: "ok q \<Longrightarrow> ok (push q x)"
    and items_push: "ok q \<Longrightarrow> items (push q x) = add_mset x (items q)"
    and pop_None: "ok q \<Longrightarrow> pop q = (q', None) \<Longrightarrow> items q = {#} \<and> items q' = {#} \<and> ok q'"
    and pop_Some: "ok q \<Longrightarrow> pop q = (q', Some x)
      \<Longrightarrow> ok q' \<and> items q = add_mset x (items q') \<and> (\<forall>y. y \<in># items q' \<longrightarrow> \<not> before y x)"

context priority_queue
begin

lemma pop_times_sorted:
  "ok q \<Longrightarrow> pop_times pop n q = (q', xs) \<Longrightarrow>
     ok q' \<and> items q = mset xs + items q' \<and> sorted_wrt (\<lambda>x y. \<not> before y x) xs
     \<and> (\<forall>x y. x \<in> set xs \<longrightarrow> y \<in># items q' \<longrightarrow> \<not> before y x)
     \<and> length xs = min n (size (items q))"
proof (induction n arbitrary: q xs)
  case 0
  then show ?case by auto
next
  case (Suc n)
  obtain q1 r where pop: "pop q = (q1, r)" by fastforce
  show ?case
  proof (cases r)
    case None
    then have "xs = []" "q' = q1" using Suc.prems(2) pop by auto
    then show ?thesis using pop_None[OF Suc.prems(1)] pop None by auto
  next
    case (Some x)
    obtain ys where ys: "pop_times pop n q1 = (q', ys)" "xs = x # ys"
      using Suc.prems(2) pop Some by (auto split: prod.splits)
    have p: "ok q1" "items q = add_mset x (items q1)" "\<forall>y. y \<in># items q1 \<longrightarrow> \<not> before y x"
      using pop_Some[OF Suc.prems(1)] pop Some by auto
    from Suc.IH[OF p(1) ys(1)] have ok: "ok q'" and items: "items q1 = mset ys + items q'"
      and sorted: "sorted_wrt (\<lambda>x y. \<not> before y x) ys"
      and rest: "\<And>u v. u \<in> set ys \<Longrightarrow> v \<in># items q' \<Longrightarrow> \<not> before v u"
      and lys: "length ys = min n (size (items q1))" by blast+
    have least: "\<not> before y x" if "y \<in> set ys \<or> y \<in># items q'" for y
      using p(3) that unfolding items by auto
    have len: "length xs = min (Suc n) (size (items q))"
      using lys p(2) ys(2) by simp
    have "items q = mset xs + items q'" using items p(2) ys(2) by simp
    moreover have "sorted_wrt (\<lambda>x y. \<not> before y x) xs" using sorted least ys(2) by simp
    moreover have "\<not> before v u" if "u \<in> set xs" "v \<in># items q'" for u v
      using rest[of u v] least[of v] that ys(2) by auto
    ultimately show ?thesis using ok len by blast
  qed
qed

end

sublocale comparator \<subseteq> arr: priority_queue "below cmp" "heappush cmp" "heappop cmp" mset "is_heap cmp"
proof
  fix q q' :: "'a list" and x y z :: 'a
  show "\<not> below cmp x y \<Longrightarrow> \<not> below cmp y z \<Longrightarrow> \<not> below cmp x z" by (rule below_neg_trans)
  show "is_heap cmp q \<Longrightarrow> is_heap cmp (heappush cmp q x)" by (rule heap_push_order)
  show "mset (heappush cmp q x) = add_mset x (mset q)" by (rule heappush_mset)
  show "mset q = {#} \<and> mset q' = {#} \<and> is_heap cmp q'"
    if "is_heap cmp q" "heappop cmp q = (q', None)"
    using that heap_pop_order[of q] heappop_None[of cmp q] by (auto simp: heappop_def)
  show "is_heap cmp q' \<and> mset q = add_mset x (mset q') \<and> (\<forall>y. y \<in># mset q' \<longrightarrow> \<not> below cmp y x)"
    if h: "is_heap cmp q" and pop: "heappop cmp q = (q', Some x)"
  proof -
    have x: "x = q ! 0" "mset q = add_mset x (mset q')" using heappop_Some[OF pop] by auto
    have "\<not> below cmp y x" if "y \<in> set q'" for y
    proof -
      have "y \<in># mset q" using that x(2) by simp
      then obtain i where "i < length q" "q ! i = y" by (auto simp: in_set_conv_nth)
      then show ?thesis using heap_root_least[OF h] x(1) by auto
    qed
    then show ?thesis using x(2) heap_pop_order[OF h] pop by simp
  qed
qed

interpretation by_default: comparator "default_cmp :: 'a::linorder \<Rightarrow> 'a \<Rightarrow> jsnum"
  by unfold_locales (auto simp: below_def default_cmp_def split: if_splits)

lemma below_default [simp]: "below default_cmp x y \<longleftrightarrow> x < (y::'a::linorder)"
  by (auto simp: below_def default_cmp_def)

text \<open>Popping a heapified array sorts it.\<close>

lemma pop_times_heapify:
  fixes xs :: "'a::linorder list"
  assumes "pop_times (heappop default_cmp) n (heapify default_cmp xs) = (ys, zs)"
  shows "zs = take n (sort xs) \<and> mset ys + mset zs = mset xs"
proof -
  have p: "mset (heapify default_cmp xs) = mset zs + mset ys" "sorted zs"
      "\<forall>x y. x \<in> set zs \<longrightarrow> y \<in># mset ys \<longrightarrow> \<not> y < x" "length zs = min n (length xs)"
    using by_default.arr.pop_times_sorted[OF by_default.heapify_order assms]
    by (simp_all add: not_less sorted_wrt_iff_nth_less sorted_iff_nth_mono_less heapify_mset)
  have "sorted (zs @ sort ys)" using p(2,3) by (auto simp: sorted_append not_less)
  moreover have "mset (zs @ sort ys) = mset xs" using p(1) by (simp add: heapify_mset)
  ultimately have "sort xs = zs @ sort ys" by (metis properties_for_sort)
  moreover have "length zs = n \<or> ys = []"
    using p(4) arg_cong[OF p(1), of size] by (auto simp: heapify_mset min_def split: if_splits)
  ultimately show ?thesis using p(1,4) by (auto simp: heapify_mset)
qed

subsection \<open>The n smallest items\<close>

lemma js_sort_default: "js_sort default_cmp xs = sort (xs :: 'a::linorder list)"
proof -
  have "js_insert default_cmp x ys = insort x ys" for x :: 'a and ys
    by (induction ys) (auto simp: default_cmp_def)
  then show ?thesis by (simp add: js_sort_def sort_key_def fun_eq_iff[symmetric] cong: foldr_cong)
qed

declare insort_loop.simps [simp del]

lemma insort_loop_position:
  fixes a :: "'a::linorder list"
  shows "sorted a \<Longrightarrow> lo \<le> hi \<Longrightarrow> hi \<le> length a \<Longrightarrow> (\<And>i. i < lo \<Longrightarrow> a ! i \<le> x)
   \<Longrightarrow> (\<And>i. hi \<le> i \<Longrightarrow> i < length a \<Longrightarrow> x < a ! i)
   \<Longrightarrow> (let p = insort_loop default_cmp a x lo hi
        in p \<le> length a \<and> (\<forall>i. i < p \<longrightarrow> a ! i \<le> x) \<and> (\<forall>i. p \<le> i \<longrightarrow> i < length a \<longrightarrow> x < a ! i))"
proof (induction "hi - lo" arbitrary: lo hi rule: less_induct)
  case less
  let ?mid = "(lo + hi) div 2"
  show ?case
  proof (cases "lo < hi")
    case True
    then have mid: "lo \<le> ?mid" "?mid < hi" "?mid < length a" using less.prems(3) by auto
    have le: "a ! i \<le> a ! j" if "i \<le> j" "j < length a" for i j
      using less.prems(1) that by (simp add: sorted_nth_mono)
    show ?thesis
    proof (cases "x < a ! ?mid")
      case below: True
      have "x < a ! i" if "?mid \<le> i" "i < length a" for i
        using below le[OF that] by order
      moreover have "insort_loop default_cmp a x lo hi = insort_loop default_cmp a x lo ?mid"
        using True below by (subst insort_loop.simps) (simp add: Let_def)
      ultimately show ?thesis
        using less.hyps[of ?mid lo] less.prems(1,4) mid by simp
    next
      case above: False
      have "a ! i \<le> x" if "i < ?mid + 1" for i
        using above le[of i ?mid] that mid(3) by (auto simp: not_less)
      moreover have "insort_loop default_cmp a x lo hi = insort_loop default_cmp a x (?mid + 1) hi"
        using True above by (subst insort_loop.simps) (simp add: Let_def)
      ultimately show ?thesis
        using less.hyps[of hi "?mid + 1"] less.prems(1,3,5) mid by simp
    qed
  next
    case False
    then show ?thesis
      using less.prems by (subst insort_loop.simps) (auto simp: Let_def)
  qed
qed

lemma splice_in_insort:
  fixes a :: "'a::linorder list"
  assumes "sorted a"
  shows "splice_in a (insort_loop default_cmp a x 0 (length a)) x = insort x a"
proof -
  obtain p where p: "p = insort_loop default_cmp a x 0 (length a)" "p \<le> length a"
      "\<forall>i. i < p \<longrightarrow> a ! i \<le> x" "\<forall>i. p \<le> i \<longrightarrow> i < length a \<longrightarrow> x < a ! i"
    using insort_loop_position[OF assms, of 0 "length a" x] by (auto simp: Let_def)
  have "\<forall>u \<in> set (take p a). u \<le> x" "\<forall>u \<in> set (drop p a). x < u"
    using p(2,3,4) by (auto simp: in_set_conv_nth)
  then have "sorted (splice_in a p x)"
    using assms sorted_append[of "take p a" "drop p a"]
    by (fastforce simp: splice_in_def sorted_append)
  then have "sort (x # a) = splice_in a p x"
    by (intro properties_for_sort) (simp_all add: mset_splice_in)
  then show ?thesis using assms p(1) by (simp add: sorted_sort_id)
qed

lemma take_insort: "take n (insort x zs) = take n (insort x (take n zs))"
proof (induction zs arbitrary: n)
  case (Cons z zs)
  show ?case
  proof (cases n)
    case (Suc m)
    then show ?thesis using Cons.IH[of m] by (cases m) auto
  qed simp
qed simp

lemma nsmallest_step_take:
  fixes r :: "'a::linorder list"
  assumes "sorted r" "r \<noteq> []"
  shows "nsmallest_step default_cmp r x = take (length r) (insort x r)"
proof (cases "x < last r")
  case True
  then show ?thesis
    using assms by (simp add: nsmallest_step_def splice_in_insort butlast_conv_take)
next
  case False
  obtain ys y where r: "r = ys @ [y]" using assms(2) by (cases r rule: rev_cases) auto
  then have "sorted (r @ [x])" using assms(1) False by (auto simp: sorted_append not_less)
  then have "sort (x # r) = r @ [x]" by (intro properties_for_sort) simp_all
  then have "insort x r = r @ [x]" using assms(1) by (simp add: sorted_sort_id)
  then show ?thesis using False by (simp add: nsmallest_step_def)
qed

lemma nsmallest_fold:
  fixes ys :: "'a::linorder list"
  assumes "n \<le> length ys" "0 < n"
  shows "foldl (nsmallest_step default_cmp) (take n (sort ys)) xs = take n (sort (ys @ xs))"
  using assms
proof (induction xs arbitrary: ys)
  case (Cons x xs)
  have l: "length (take n (sort ys)) = n" using Cons.prems by simp
  then have "take n (sort ys) \<noteq> []" using Cons.prems(2) by (metis length_0_conv less_irrefl)
  moreover have "sorted (take n (sort ys))" by (simp add: sorted_wrt_take)
  ultimately have "nsmallest_step default_cmp (take n (sort ys)) x = take n (insort x (take n (sort ys)))"
    using nsmallest_step_take[of "take n (sort ys)" x] l by simp
  also have "\<dots> = take n (insort x (sort ys))" by (rule take_insort[symmetric])
  also have "insort x (sort ys) = sort (ys @ [x])"
    by (intro properties_for_sort[symmetric]) (auto simp: sorted_insort)
  finally show ?case using Cons.IH[of "ys @ [x]"] Cons.prems by simp
qed simp

lemma nsmallest_sorts:
  fixes xs :: "'a::linorder list"
  shows "snd (nsmallest default_cmp xs n) = take n (sort xs)
         \<and> mset (fst (nsmallest default_cmp xs n)) + (if n * 10 \<le> length xs then {#} else mset (take n (sort xs)))
           = mset xs"
proof (cases "n * 10 \<le> length xs")
  case True
  have "foldl (nsmallest_step default_cmp) (sort (take n xs)) (drop n xs) = take n (sort xs)" if "0 < n"
    using nsmallest_fold[of n "take n xs" "drop n xs"] True that by simp
  moreover have "sort (take n xs) = [] \<longleftrightarrow> n = 0"
  proof -
    have "length (sort (take n xs)) = n" using True by simp
    then show ?thesis by (metis length_0_conv)
  qed
  ultimately show ?thesis
    using True by (cases "n = 0") (simp_all add: nsmallest_def js_sort_default Let_def)
next
  case False
  obtain ys zs where p: "pop_times (heappop default_cmp) (min n (length xs)) (heapify default_cmp xs) = (ys, zs)"
    by fastforce
  have "take (min n (length xs)) (sort xs) = take n (sort xs)" by (simp add: min_def)
  then show ?thesis
    using pop_times_heapify[OF p] p False by (auto simp: nsmallest_def)
qed

end
