(* ===== verification/CyUtil.thy ===== *)
theory CyUtil
  imports JsBase
begin

text \<open>
  The utilities at the head of \<open>cytoscape.js\<close>: memoized functions, colours, nested maps, hashes,
  default options, arrays, and the stand-ins for \<open>Map\<close> and \<open>Set\<close>.  A property read of an object
  literal also finds the members of \<open>Object.prototype\<close>.
\<close>

subsection \<open>Memoized functions\<close>

definition memo_key :: "string list \<Rightarrow> string" where
  "memo_key args =
     (case args of [a] \<Rightarrow> a | [] \<Rightarrow> ''undefined'' | _ \<Rightarrow> join_with ''$'' args)"

text \<open>A call of a memoized function; \<open>truthy\<close> decides \<open>!ret\<close>.  The cache is an object literal, so
  its reads find the members of \<open>Object.prototype\<close>.\<close>

definition memoized ::
  "('v \<Rightarrow> bool) \<Rightarrow> (string list \<Rightarrow> 'v) \<Rightarrow> (string list \<Rightarrow> string)
   \<Rightarrow> (string \<times> 'v) list \<Rightarrow> string list \<Rightarrow> (string \<times> 'v) list \<times> 'v js_prop" where
  "memoized truthy f key_fn cache args =
     (let k = key_fn args; compute = (let r = f args in (AList.update k r cache, Own r))
      in case obj_get cache k of
           Some (Own r) \<Rightarrow> if truthy r then (cache, Own r) else compute
         | Some (Inherited m) \<Rightarrow> (cache, Inherited m)
         | None \<Rightarrow> compute)"

definition camel2dash :: "string \<Rightarrow> string" where
  "camel2dash str = concat (map (\<lambda>c. if is_upper c then [CHR ''-'', ascii_lower c] else [c]) str)"

fun dash2camel :: "string \<Rightarrow> string" where
  "dash2camel (c # d # cs) =
     (if c = CHR ''-'' \<and> is_word_char d then ascii_upper d # dash2camel cs
      else c # dash2camel (d # cs))"
| "dash2camel cs = cs"

text \<open>\<open>str[0]\<close> of an empty string is \<open>undefined\<close>, whose method call throws (\<open>None\<close>).\<close>

definition prepend_camel :: "string \<Rightarrow> string \<Rightarrow> string option" where
  "prepend_camel pre str = (case str of [] \<Rightarrow> None | c # cs \<Rightarrow> Some (pre @ ascii_upper c # cs))"

definition prepend_camel_key :: "string \<Rightarrow> string \<Rightarrow> string" where
  "prepend_camel_key pre str = pre @ ''$'' @ str"

definition empty_string :: "string option \<Rightarrow> bool" where
  "empty_string obj =
     (case obj of None \<Rightarrow> True | Some s \<Rightarrow> s = [] \<or> list_all is_ws s)"

definition capitalize :: "string \<Rightarrow> string" where
  "capitalize str =
     (if empty_string (Some str) then str
      else (case str of [] \<Rightarrow> [] | c # cs \<Rightarrow> ascii_upper c # cs))"

text \<open>\<open>slice(-0)\<close> is the whole string.\<close>

definition js_ends_with :: "string \<Rightarrow> string \<Rightarrow> bool" where
  "js_ends_with s suf =
     ((if suf = [] then s else drop (length s - length suf) s) = suf)"

definition ascending :: "real \<Rightarrow> real \<Rightarrow> int" where
  "ascending a b = (if a < b then -1 else if a > b then 1 else 0)"

definition descending :: "real \<Rightarrow> real \<Rightarrow> int" where
  "descending a b = -1 * ascending a b"

subsection \<open>Colours\<close>

definition colors :: "(string \<times> int list) list" where
  "colors =
  [
    (''transparent'', [0, 0, 0, 0]), (''aliceblue'', [240, 248, 255]),
    (''antiquewhite'', [250, 235, 215]), (''aqua'', [0, 255, 255]),
    (''aquamarine'', [127, 255, 212]), (''azure'', [240, 255, 255]), (''beige'', [245, 245, 220]),
    (''bisque'', [255, 228, 196]), (''black'', [0, 0, 0]), (''blanchedalmond'', [255, 235, 205]),
    (''blue'', [0, 0, 255]), (''blueviolet'', [138, 43, 226]), (''brown'', [165, 42, 42]),
    (''burlywood'', [222, 184, 135]), (''cadetblue'', [95, 158, 160]),
    (''chartreuse'', [127, 255, 0]), (''chocolate'', [210, 105, 30]), (''coral'', [255, 127, 80]),
    (''cornflowerblue'', [100, 149, 237]), (''cornsilk'', [255, 248, 220]),
    (''crimson'', [220, 20, 60]), (''cyan'', [0, 255, 255]), (''darkblue'', [0, 0, 139]),
    (''darkcyan'', [0, 139, 139]), (''darkgoldenrod'', [184, 134, 11]),
    (''darkgray'', [169, 169, 169]), (''darkgreen'', [0, 100, 0]), (''darkgrey'', [169, 169, 169]),
    (''darkkhaki'', [189, 183, 107]), (''darkmagenta'', [139, 0, 139]),
    (''darkolivegreen'', [85, 107, 47]), (''darkorange'', [255, 140, 0]),
    (''darkorchid'', [153, 50, 204]), (''darkred'', [139, 0, 0]), (''darksalmon'', [233, 150, 122]),
    (''darkseagreen'', [143, 188, 143]), (''darkslateblue'', [72, 61, 139]),
    (''darkslategray'', [47, 79, 79]), (''darkslategrey'', [47, 79, 79]),
    (''darkturquoise'', [0, 206, 209]), (''darkviolet'', [148, 0, 211]),
    (''deeppink'', [255, 20, 147]), (''deepskyblue'', [0, 191, 255]), (''dimgray'', [105, 105, 105]),
    (''dimgrey'', [105, 105, 105]), (''dodgerblue'', [30, 144, 255]), (''firebrick'', [178, 34, 34]),
    (''floralwhite'', [255, 250, 240]), (''forestgreen'', [34, 139, 34]),
    (''fuchsia'', [255, 0, 255]), (''gainsboro'', [220, 220, 220]),
    (''ghostwhite'', [248, 248, 255]), (''gold'', [255, 215, 0]), (''goldenrod'', [218, 165, 32]),
    (''gray'', [128, 128, 128]), (''grey'', [128, 128, 128]), (''green'', [0, 128, 0]),
    (''greenyellow'', [173, 255, 47]), (''honeydew'', [240, 255, 240]),
    (''hotpink'', [255, 105, 180]), (''indianred'', [205, 92, 92]), (''indigo'', [75, 0, 130]),
    (''ivory'', [255, 255, 240]), (''khaki'', [240, 230, 140]), (''lavender'', [230, 230, 250]),
    (''lavenderblush'', [255, 240, 245]), (''lawngreen'', [124, 252, 0]),
    (''lemonchiffon'', [255, 250, 205]), (''lightblue'', [173, 216, 230]),
    (''lightcoral'', [240, 128, 128]), (''lightcyan'', [224, 255, 255]),
    (''lightgoldenrodyellow'', [250, 250, 210]), (''lightgray'', [211, 211, 211]),
    (''lightgreen'', [144, 238, 144]), (''lightgrey'', [211, 211, 211]),
    (''lightpink'', [255, 182, 193]), (''lightsalmon'', [255, 160, 122]),
    (''lightseagreen'', [32, 178, 170]), (''lightskyblue'', [135, 206, 250]),
    (''lightslategray'', [119, 136, 153]), (''lightslategrey'', [119, 136, 153]),
    (''lightsteelblue'', [176, 196, 222]), (''lightyellow'', [255, 255, 224]),
    (''lime'', [0, 255, 0]), (''limegreen'', [50, 205, 50]), (''linen'', [250, 240, 230]),
    (''magenta'', [255, 0, 255]), (''maroon'', [128, 0, 0]), (''mediumaquamarine'', [102, 205, 170]),
    (''mediumblue'', [0, 0, 205]), (''mediumorchid'', [186, 85, 211]),
    (''mediumpurple'', [147, 112, 219]), (''mediumseagreen'', [60, 179, 113]),
    (''mediumslateblue'', [123, 104, 238]), (''mediumspringgreen'', [0, 250, 154]),
    (''mediumturquoise'', [72, 209, 204]), (''mediumvioletred'', [199, 21, 133]),
    (''midnightblue'', [25, 25, 112]), (''mintcream'', [245, 255, 250]),
    (''mistyrose'', [255, 228, 225]), (''moccasin'', [255, 228, 181]),
    (''navajowhite'', [255, 222, 173]), (''navy'', [0, 0, 128]), (''oldlace'', [253, 245, 230]),
    (''olive'', [128, 128, 0]), (''olivedrab'', [107, 142, 35]), (''orange'', [255, 165, 0]),
    (''orangered'', [255, 69, 0]), (''orchid'', [218, 112, 214]),
    (''palegoldenrod'', [238, 232, 170]), (''palegreen'', [152, 251, 152]),
    (''paleturquoise'', [175, 238, 238]), (''palevioletred'', [219, 112, 147]),
    (''papayawhip'', [255, 239, 213]), (''peachpuff'', [255, 218, 185]), (''peru'', [205, 133, 63]),
    (''pink'', [255, 192, 203]), (''plum'', [221, 160, 221]), (''powderblue'', [176, 224, 230]),
    (''purple'', [128, 0, 128]), (''red'', [255, 0, 0]), (''rosybrown'', [188, 143, 143]),
    (''royalblue'', [65, 105, 225]), (''saddlebrown'', [139, 69, 19]), (''salmon'', [250, 128, 114]),
    (''sandybrown'', [244, 164, 96]), (''seagreen'', [46, 139, 87]), (''seashell'', [255, 245, 238]),
    (''sienna'', [160, 82, 45]), (''silver'', [192, 192, 192]), (''skyblue'', [135, 206, 235]),
    (''slateblue'', [106, 90, 205]), (''slategray'', [112, 128, 144]),
    (''slategrey'', [112, 128, 144]), (''snow'', [255, 250, 250]), (''springgreen'', [0, 255, 127]),
    (''steelblue'', [70, 130, 180]), (''tan'', [210, 180, 140]), (''teal'', [0, 128, 128]),
    (''thistle'', [216, 191, 216]), (''tomato'', [255, 99, 71]), (''turquoise'', [64, 224, 208]),
    (''violet'', [238, 130, 238]), (''wheat'', [245, 222, 179]), (''white'', [255, 255, 255]),
    (''whitesmoke'', [245, 245, 245]), (''yellow'', [255, 255, 0]), (''yellowgreen'', [154, 205, 50])
  ]"

definition hex_pair :: "char \<Rightarrow> char \<Rightarrow> int option" where
  "hex_pair a b = js_parse_int 16 [a, b]"

text \<open>Channels that do not parse are \<open>NaN\<close> (\<open>None\<close>); the outer \<open>None\<close> is \<open>undefined\<close>.\<close>

definition hex2tuple :: "string \<Rightarrow> int option list option" where
  "hex2tuple hex =
     (case hex of
        [h, a, b, c] \<Rightarrow> if h = CHR ''#'' then Some [hex_pair a a, hex_pair b b, hex_pair c c] else None
      | [h, a, b, c, d, e, f] \<Rightarrow>
          if h = CHR ''#'' then Some [hex_pair a b, hex_pair c d, hex_pair e f] else None
      | _ \<Rightarrow> None)"

text \<open>
  The regular expressions \<open>hsla\<close> and \<open>rgba\<close>.  No character of a number can start what may follow
  one, so a number is the whole run of number characters.
\<close>

definition scan_number :: "string \<Rightarrow> (string \<times> string) option" where
  "scan_number s =
     (let n = takeWhile is_number_char s
      in if number_value n = None then None else Some (n, dropWhile is_number_char s))"

definition scan_comma :: "string \<Rightarrow> string option" where
  "scan_comma s =
     (case dropWhile is_ws s of c # cs \<Rightarrow> if c = CHR '','' then Some (dropWhile is_ws cs) else None | [] \<Rightarrow> None)"

definition scan_percent :: "string \<Rightarrow> bool \<times> string" where
  "scan_percent s = (case s of c # cs \<Rightarrow> if c = CHR ''%'' then (True, cs) else (False, s) | [] \<Rightarrow> (False, s))"

text \<open>The optional fourth number and the closing parenthesis at the end.\<close>

definition scan_alpha :: "string \<Rightarrow> string option option" where
  "scan_alpha s =
     (if s = '')'' then Some None
      else (case scan_comma s of
              None \<Rightarrow> None
            | Some s \<Rightarrow>
               (case scan_number s of
                  Some (n, r) \<Rightarrow> if r = '')'' then Some (Some n) else None
                | None \<Rightarrow> None)))"

definition scan_open :: "string \<Rightarrow> string \<Rightarrow> string option" where
  "scan_open name s =
     (case strip_prefix name s of
        None \<Rightarrow> None
      | Some r \<Rightarrow> strip_prefix ''('' (case r of c # cs \<Rightarrow> if c = CHR ''a'' then cs else r | [] \<Rightarrow> r))"

definition match_channels ::
  "string \<Rightarrow> string \<Rightarrow> ((string \<times> bool) \<times> (string \<times> bool) \<times> (string \<times> bool) \<times> string option) option" where
  "match_channels name str =
     Option.bind (scan_open name str) (\<lambda>s.
     Option.bind (scan_number s) (\<lambda>(n1, s). let (p1, s) = scan_percent s in
     Option.bind (scan_comma s) (\<lambda>s.
     Option.bind (scan_number s) (\<lambda>(n2, s). let (p2, s) = scan_percent s in
     Option.bind (scan_comma s) (\<lambda>s.
     Option.bind (scan_number s) (\<lambda>(n3, s). let (p3, s) = scan_percent s in
     Option.bind (scan_alpha s) (\<lambda>a.
       Some ((n1, p1), (n2, p2), (n3, p3), a))))))))"

definition match_hsla :: "string \<Rightarrow> (string \<times> string \<times> string \<times> string option) option" where
  "match_hsla s =
     (case match_channels ''hsl'' s of
        Some ((h, False), (s, True), (l, True), a) \<Rightarrow> Some (h, s, l, a)
      | _ \<Rightarrow> None)"

definition num :: "string \<Rightarrow> real" where
  "num s = (case number_value s of Some x \<Rightarrow> x | None \<Rightarrow> 0)"

definition hue2rgb :: "real \<Rightarrow> real \<Rightarrow> real \<Rightarrow> real" where
  "hue2rgb p q t =
     (let t = (if t < 0 then t + 1 else t); t = (if t > 1 then t - 1 else t)
      in if t < 1 / 6 then p + (q - p) * 6 * t
         else if t < 1 / 2 then q
         else if t < 2 / 3 then p + (q - p) * (2 / 3 - t) * 6
         else p)"

text \<open>JavaScript's \<open>%\<close> has the sign of its left argument, here never negative.\<close>

definition hue_degrees :: "int \<Rightarrow> int" where
  "hue_degrees h = (if h < 0 then (360 - (-1 * h) mod 360) mod 360 else if h > 360 then h mod 360 else h)"

definition alpha_ok :: "string option \<Rightarrow> bool" where
  "alpha_ok a = (case a of None \<Rightarrow> True | Some a \<Rightarrow> 0 \<le> num a \<and> num a \<le> 1)"

definition parse_int_or_0 :: "string \<Rightarrow> int" where
  "parse_int_or_0 s = (case js_parse_int 10 s of Some n \<Rightarrow> n | None \<Rightarrow> 0)"

text \<open>\<open>parseInt\<close> of a matched hue such as \<open>.5\<close> is \<open>NaN\<close>, which \<open>Math.round\<close> keeps: the three
  channels are then \<open>NaN\<close> unless the colour is grey.\<close>

definition hsl2tuple :: "string \<Rightarrow> (int option \<times> int option \<times> int option \<times> real option) option" where
  "hsl2tuple hsl =
     (case match_hsla hsl of
        None \<Rightarrow> None
      | Some (mh, ms, ml, ma) \<Rightarrow>
         (let s = num ms; l = num ml
          in if s < 0 \<or> s > 100 then None
             else if l < 0 \<or> l > 100 then None
             else if \<not> alpha_ok ma then None
             else
              (let s = s / 100; l = l / 100; a = map_option num ma
               in if s = 0 then (let g = Some (js_round (l * 255)) in Some (g, g, g, a))
                  else
                   (let q = (if l < 1 / 2 then l * (1 + s) else l + s - l * s); p = 2 * l - q;
                        channel = (\<lambda>d. case js_parse_int 10 mh of
                                     None \<Rightarrow> None
                                   | Some h \<Rightarrow> Some (js_round (255 * hue2rgb p q (real_of_int (hue_degrees h) / 360 + d))))
                    in Some (channel (1 / 3), channel 0, channel (- 1 / 3), a)))))"

definition rgb_channel :: "string \<times> bool \<Rightarrow> real" where
  "rgb_channel = (\<lambda>(n, pct). if pct then num n / 100 * 255 else num n)"

definition rgb2tuple :: "string \<Rightarrow> (int list \<times> real option) option" where
  "rgb2tuple rgb =
     (case match_channels ''rgb'' rgb of
        None \<Rightarrow> None
      | Some (r, g, b, alpha) \<Rightarrow>
         (let cs = map rgb_channel [r, g, b]
          in if \<not> list_all (\<lambda>c. 0 \<le> c \<and> c \<le> 255) cs then None
             else if (snd r \<or> snd g \<or> snd b) \<and> \<not> (snd r \<and> snd g \<and> snd b) then None
             else if \<not> alpha_ok alpha then None
             else Some (map floor cs, map_option num alpha)))"

definition colorname2tuple :: "string \<Rightarrow> int list js_prop option" where
  "colorname2tuple color = obj_get colors (map ascii_lower color)"

datatype color_arg = ColorArray "real option list" | ColorString string

text \<open>The first reading that is not \<open>undefined\<close>; arrays, and inherited functions, are truthy.\<close>

definition color2tuple :: "color_arg \<Rightarrow> real option list js_prop option" where
  "color2tuple color =
     (case color of
        ColorArray t \<Rightarrow> Some (Own t)
      | ColorString c \<Rightarrow>
         (case colorname2tuple c of
            Some (Own t) \<Rightarrow> Some (Own (map (Some \<circ> real_of_int) t))
          | Some (Inherited m) \<Rightarrow> Some (Inherited m)
          | None \<Rightarrow>
         (case hex2tuple c of
            Some t \<Rightarrow> Some (Own (map (map_option real_of_int) t))
          | None \<Rightarrow>
         (case rgb2tuple c of
            Some (t, a) \<Rightarrow> Some (Own (map (Some \<circ> real_of_int) t @ (case a of None \<Rightarrow> [] | Some a \<Rightarrow> [Some a])))
          | None \<Rightarrow>
         (case hsl2tuple c of
            Some (r, g, b, a) \<Rightarrow> Some (Own (map (map_option real_of_int) [r, g, b] @ [a]))
          | None \<Rightarrow> None)))))"

subsection \<open>Hashes\<close>

definition default_hash_seed :: int where "default_hash_seed = 9261"

definition hash_k :: int where "hash_k = 65599"

definition default_hash_seed_alt :: int where "default_hash_seed_alt = 5381"

definition hash_step :: "int \<Rightarrow> int \<Rightarrow> int" where
  "hash_step hash v = to_int32 (hash * hash_k + v)"

definition hash_iterable_ints :: "int list \<Rightarrow> int option \<Rightarrow> int" where
  "hash_iterable_ints vs seed = foldl hash_step (the_or default_hash_seed seed) vs"

definition hash_int :: "int \<Rightarrow> int option \<Rightarrow> int" where
  "hash_int n seed = to_int32 (the_or default_hash_seed seed * hash_k + n)"

definition hash_int_alt :: "int \<Rightarrow> int option \<Rightarrow> int" where
  "hash_int_alt n seed =
     (let seed = the_or default_hash_seed_alt seed in to_int32 (to_int32 (seed * 2 ^ 5) + seed + n))"

definition combine_hashes :: "int \<Rightarrow> int \<Rightarrow> int" where
  "combine_hashes hash1 hash2 = hash1 * 2097152 + hash2"

definition combine_hashes_array :: "int \<times> int \<Rightarrow> int" where
  "combine_hashes_array hashes = fst hashes * 2097152 + snd hashes"

definition hash_arrays :: "int \<times> int \<Rightarrow> int \<times> int \<Rightarrow> int \<times> int" where
  "hash_arrays hashes1 hashes2 =
     (hash_int (fst hashes1) (Some (fst hashes2)), hash_int_alt (snd hashes1) (Some (snd hashes2)))"

definition hash_ints_array :: "int list \<Rightarrow> int option \<Rightarrow> int" where
  "hash_ints_array ints seed = hash_iterable_ints ints seed"

definition hash_string :: "string \<Rightarrow> int option \<Rightarrow> int" where
  "hash_string str seed = hash_iterable_ints (map of_char str) seed"

definition hash_strings_array :: "string list \<Rightarrow> int option" where
  "hash_strings_array strs =
     (case strs of
        [] \<Rightarrow> None
      | s # ss \<Rightarrow> Some (foldl (\<lambda>hash str. hash_string str (Some hash)) (hash_string s None) ss))"

subsection \<open>Points\<close>

type_synonym point = "real \<times> real"

record box =
  bx_x1 :: real
  bx_y1 :: real
  bx_x2 :: real
  bx_y2 :: real
  bx_w :: real
  bx_h :: real

definition rotate_point :: "real \<Rightarrow> real \<Rightarrow> real \<Rightarrow> real \<Rightarrow> real \<Rightarrow> point" where
  "rotate_point x y centerX centerY angle_degrees =
     (let a = angle_degrees * pi / 180
      in (cos a * (x - centerX) - sin a * (y - centerY) + centerX,
          sin a * (x - centerX) + cos a * (y - centerY) + centerY))"

definition move_point_by_box_aspect :: "real \<Rightarrow> real \<Rightarrow> real \<Rightarrow> real \<Rightarrow> real \<Rightarrow> real \<Rightarrow> point" where
  "move_point_by_box_aspect x y boxX boxY skewX skewY =
     ((x - boxX) * skewX + boxX, (y - boxY) * skewY + boxY)"

text \<open>A box without height or width divides by zero; the caller's boxes have both.\<close>

definition rotate_pos_and_skew_by_box :: "point \<Rightarrow> box \<Rightarrow> real \<Rightarrow> point" where
  "rotate_pos_and_skew_by_box pos b angle_degrees =
     (if angle_degrees = 0 then pos
      else
       (let centerX = (bx_x1 b + bx_x2 b) / 2; centerY = (bx_y1 b + bx_y2 b) / 2;
            skewX = bx_w b / bx_h b; skewY = 1 / skewX;
            rotated = rotate_point (fst pos) (snd pos) centerX centerY angle_degrees
        in move_point_by_box_aspect (fst rotated) (snd rotated) centerX centerY skewX skewY))"

subsection \<open>Identifiers, options, arrays\<close>

text \<open>\<open>rand a\<close> is the value of \<open>Math.random()\<close> at step \<open>a\<close>.\<close>

definition hex_digit :: "nat \<Rightarrow> char" where
  "hex_digit d = ''0123456789abcdef'' ! d"

definition uuid_char :: "(nat \<Rightarrow> real) \<Rightarrow> nat \<Rightarrow> char" where
  "uuid_char rand a =
     (if and (a * 51) 52 \<noteq> 0 then
        hex_digit (if xor a 15 \<noteq> 0
                   then xor 8 (nat \<lfloor>rand a * (if xor a 20 \<noteq> 0 then 16 else 4)\<rfloor>)
                   else 4)
      else CHR ''-'')"

definition uuid :: "(nat \<Rightarrow> real) \<Rightarrow> string" where
  "uuid rand = map (uuid_char rand) [1..<37]"

definition fill_defaults :: "(string \<times> 'v) list \<Rightarrow> (string \<times> 'v) list option \<Rightarrow> (string \<times> 'v) list" where
  "fill_defaults defaults opts =
     map (\<lambda>key. (key,
           case (case opts of None \<Rightarrow> None | Some o' \<Rightarrow> map_of o' key) of
             None \<Rightarrow> the (map_of defaults key)
           | Some v \<Rightarrow> v)) (object_keys defaults)"

fun remove_below :: "'a list \<Rightarrow> 'a \<Rightarrow> nat \<Rightarrow> 'a list" where
  "remove_below arr x 0 = arr"
| "remove_below arr x (Suc i) =
     remove_below (if arr ! i = x then take i arr @ drop (Suc i) arr else arr) x i"

definition remove_from_array :: "'a list \<Rightarrow> 'a \<Rightarrow> 'a list" where
  "remove_from_array arr x = remove_below arr x (length arr)"

definition push_all :: "'a list \<Rightarrow> 'a list \<Rightarrow> 'a list" where
  "push_all arr other = foldl (\<lambda>arr x. arr @ [x]) arr other"

text \<open>A property name under a prefix, in camel case; \<open>None\<close> when \<open>prependCamel\<close> throws.\<close>

definition prefixed_name :: "string \<Rightarrow> string \<Rightarrow> string option" where
  "prefixed_name name pre = (if pre \<noteq> [] then prepend_camel pre name else Some name)"

definition get_prefixed_property :: "(string \<times> 'v) list \<Rightarrow> string \<Rightarrow> string \<Rightarrow> 'v js_prop option option" where
  "get_prefixed_property obj name pre = map_option (obj_get obj) (prefixed_name name pre)"

definition set_prefixed_property ::
  "(string \<times> 'v) list \<Rightarrow> string \<Rightarrow> string \<Rightarrow> 'v \<Rightarrow> (string \<times> 'v) list option" where
  "set_prefixed_property obj name pre v = map_option (\<lambda>n. AList.update n v obj) (prefixed_name name pre)"

subsection \<open>ObjectMap and ObjectSet\<close>

text \<open>The values of an \<open>ObjectMap\<close>; deleting a key stores \<open>undefined\<close>.\<close>

type_synonym 'v object_map = "(string \<times> 'v option) list"

definition om_set :: "'v object_map \<Rightarrow> string \<Rightarrow> 'v \<Rightarrow> 'v object_map" where
  "om_set m key v = AList.update key (Some v) m"

definition om_delete :: "'v object_map \<Rightarrow> string \<Rightarrow> 'v object_map" where
  "om_delete m key = AList.update key None m"

definition om_clear :: "'v object_map \<Rightarrow> 'v object_map" where
  "om_clear m = []"

definition om_get :: "'v object_map \<Rightarrow> string \<Rightarrow> 'v js_prop option" where
  "om_get m key =
     (case obj_get m key of
        Some (Own (Some v)) \<Rightarrow> Some (Own v)
      | Some (Own None) \<Rightarrow> None
      | Some (Inherited k) \<Rightarrow> Some (Inherited k)
      | None \<Rightarrow> None)"

definition om_has :: "'v object_map \<Rightarrow> string \<Rightarrow> bool" where
  "om_has m key = (om_get m key \<noteq> None)"

record object_set =
  os_obj :: "(string \<times> nat) list"
  os_size :: int

definition empty_object_set :: object_set where
  "empty_object_set = \<lparr>os_obj = [], os_size = 0\<rparr>"

definition os_has :: "object_set \<Rightarrow> string \<Rightarrow> bool" where
  "os_has s v = (map_of (os_obj s) v = Some 1)"

definition os_add :: "object_set \<Rightarrow> string \<Rightarrow> object_set" where
  "os_add s v =
     (if map_of (os_obj s) v \<noteq> Some 1
      then s\<lparr>os_obj := AList.update v 1 (os_obj s), os_size := os_size s + 1\<rparr> else s)"

definition os_delete :: "object_set \<Rightarrow> string \<Rightarrow> object_set" where
  "os_delete s v =
     (if map_of (os_obj s) v = Some 1
      then s\<lparr>os_obj := AList.update v 0 (os_obj s), os_size := os_size s - 1\<rparr> else s)"

definition os_clear :: "object_set \<Rightarrow> object_set" where
  "os_clear s = s\<lparr>os_obj := []\<rparr>"

definition os_to_array :: "object_set \<Rightarrow> string list" where
  "os_to_array s = filter (os_has s) (object_keys (os_obj s))"

definition new_object_set :: "string list option \<Rightarrow> object_set" where
  "new_object_set arr = foldl os_add empty_object_set (the_or [] arr)"

end
