(* ===== verification/CyGraph.thy ===== *)
theory CyGraph
  imports CyHeap CyUtil
begin

text \<open>
  Elements and collections of \<open>cytoscape.js\<close>: set operations, traversal, and breadth- and
  depth-first search.  An element is known by its id; the graph is the list of elements in the
  order they were restored, so \<open>node_edges g v\<close> is the \<open>_private.edges\<close> of a node, and a collection
  is a list of elements.  Selectors (strings) are left out: every argument is a collection or a
  function.
\<close>

datatype element =
    NodeE string
  | EdgeE string string string

type_synonym collection = "element list"

fun ele_id :: "element \<Rightarrow> string" where
  "ele_id (NodeE i) = i"
| "ele_id (EdgeE i s t) = i"

fun is_node :: "element \<Rightarrow> bool" where
  "is_node (NodeE i) = True"
| "is_node (EdgeE i s t) = False"

definition is_edge :: "element \<Rightarrow> bool" where
  "is_edge e = (\<not> is_node e)"

text \<open>The ids of the end nodes; \<open>None\<close> for a node.\<close>

fun source :: "element \<Rightarrow> string option" where
  "source (EdgeE i s t) = Some s"
| "source (NodeE i) = None"

fun target :: "element \<Rightarrow> string option" where
  "target (EdgeE i s t) = Some t"
| "target (NodeE i) = None"

definition is_loop :: "element \<Rightarrow> bool" where
  "is_loop e = (is_edge e \<and> source e = target e)"

definition is_simple :: "element \<Rightarrow> bool" where
  "is_simple e = (is_edge e \<and> source e \<noteq> target e)"

definition node_edges :: "collection \<Rightarrow> string \<Rightarrow> collection" where
  "node_edges g v = filter (\<lambda>e. source e = Some v \<or> target e = Some v) g"

subsection \<open>Collections as sets\<close>

definition has_id :: "collection \<Rightarrow> string \<Rightarrow> bool" where
  "has_id c i = (i \<in> set (map ele_id c))"

definition has_ele :: "collection \<Rightarrow> element \<Rightarrow> bool" where
  "has_ele c e = has_id c (ele_id e)"

text \<open>\<open>merge\<close> adds what is new, in place; \<open>spawn(eles, true)\<close> merges into nothing.\<close>

definition merge_one :: "collection \<Rightarrow> element \<Rightarrow> collection" where
  "merge_one c e = (if has_id c (ele_id e) then c else c @ [e])"

definition merge :: "collection \<Rightarrow> collection \<Rightarrow> collection" where
  "merge c to_add = foldl merge_one c to_add"

definition spawn_unique :: "element list \<Rightarrow> collection" where
  "spawn_unique es = merge [] es"

text \<open>Removal moves the last element into the gap.\<close>

definition unmerge_at :: "collection \<Rightarrow> nat \<Rightarrow> collection" where
  "unmerge_at c i =
     (if length c > 1 \<and> i \<noteq> length c - 1 then (butlast c)[i := last c] else butlast c)"

definition unmerge_one :: "collection \<Rightarrow> element \<Rightarrow> collection" where
  "unmerge_one c e =
     (case index_of (map ele_id c) (ele_id e) of None \<Rightarrow> c | Some i \<Rightarrow> unmerge_at c i)"

definition unmerge :: "collection \<Rightarrow> collection \<Rightarrow> collection" where
  "unmerge c to_remove = foldl unmerge_one c to_remove"

fun unmerge_by_below :: "(element \<Rightarrow> bool) \<Rightarrow> collection \<Rightarrow> nat \<Rightarrow> collection" where
  "unmerge_by_below P c 0 = c"
| "unmerge_by_below P c (Suc i) =
     unmerge_by_below P (if P (c ! i) then unmerge_at c i else c) i"

definition unmerge_by :: "collection \<Rightarrow> (element \<Rightarrow> bool) \<Rightarrow> collection" where
  "unmerge_by c P = unmerge_by_below P c (length c)"

definition nodes_of :: "collection \<Rightarrow> collection" where
  "nodes_of c = filter is_node c"

definition edges_of :: "collection \<Rightarrow> collection" where
  "edges_of c = filter is_edge c"

definition by_group :: "collection \<Rightarrow> collection \<times> collection" where
  "by_group c =
     foldl (\<lambda>(ns, es). \<lambda>e. if is_node e then (ns @ [e], es) else (ns, es @ [e])) ([], []) c"

definition filter_eles :: "collection \<Rightarrow> (element \<Rightarrow> nat \<Rightarrow> bool) option \<Rightarrow> collection" where
  "filter_eles c f =
     (case f of
        None \<Rightarrow> c
      | Some f \<Rightarrow> map ((!) c) (filter (\<lambda>i. f (c ! i) i) [0..<length c]))"

definition not_in :: "collection \<Rightarrow> collection option \<Rightarrow> collection" where
  "not_in c to_remove =
     (case to_remove of None \<Rightarrow> c | Some r \<Rightarrow> filter (\<lambda>e. \<not> has_ele r e) c)"

definition absolute_complement :: "collection \<Rightarrow> collection \<Rightarrow> collection" where
  "absolute_complement g c = not_in g (Some c)"

definition intersect :: "collection \<Rightarrow> collection \<Rightarrow> collection" where
  "intersect c other =
     (let (small, large) = (if length c < length other then (c, other) else (other, c))
      in filter (has_ele large) small)"

definition xor_eles :: "collection \<Rightarrow> collection \<Rightarrow> collection" where
  "xor_eles c other = filter (\<lambda>e. \<not> has_ele other e) c @ filter (\<lambda>e. \<not> has_ele c e) other"

definition diff_eles :: "collection \<Rightarrow> collection \<Rightarrow> collection \<times> collection \<times> collection" where
  "diff_eles c other =
     (filter (\<lambda>e. \<not> has_ele other e) c, filter (\<lambda>e. \<not> has_ele c e) other,
      merge (merge [] (filter (has_ele other) c)) (filter (has_ele c) other))"

definition add_eles :: "collection \<Rightarrow> collection option \<Rightarrow> collection" where
  "add_eles c to_add =
     (case to_add of None \<Rightarrow> c | Some a \<Rightarrow> c @ filter (\<lambda>e. \<not> has_ele c e) a)"

definition map_eles :: "collection \<Rightarrow> (element \<Rightarrow> nat \<Rightarrow> 'a) \<Rightarrow> 'a list" where
  "map_eles c f = map (\<lambda>i. f (c ! i) i) [0..<length c]"

definition reduce_eles :: "collection \<Rightarrow> ('a \<Rightarrow> element \<Rightarrow> nat \<Rightarrow> 'a) \<Rightarrow> 'a \<Rightarrow> 'a" where
  "reduce_eles c f a = foldl (\<lambda>v i. f v (c ! i) i) a [0..<length c]"

definition max_ele :: "collection \<Rightarrow> (element \<Rightarrow> jsnum) \<Rightarrow> jsnum \<times> element option" where
  "max_ele c val =
     foldl (\<lambda>(m, me). \<lambda>e. if js_lt m (val e) then (val e, Some e) else (m, me)) (JNegInf, None) c"

definition min_ele :: "collection \<Rightarrow> (element \<Rightarrow> jsnum) \<Rightarrow> jsnum \<times> element option" where
  "min_ele c val =
     foldl (\<lambda>(m, me). \<lambda>e. if js_lt (val e) m then (val e, Some e) else (m, me)) (JInf, None) c"

subsection \<open>Traversal\<close>

definition ends :: "element \<Rightarrow> element list" where
  "ends e = (case e of EdgeE i s t \<Rightarrow> [NodeE s, NodeE t] | NodeE i \<Rightarrow> [])"

definition connected_edges :: "collection \<Rightarrow> collection \<Rightarrow> collection" where
  "connected_edges g c = spawn_unique (concat (map (\<lambda>n. node_edges g (ele_id n)) (filter is_node c)))"

definition connected_nodes :: "collection \<Rightarrow> collection" where
  "connected_nodes c = spawn_unique (concat (map ends (filter is_edge c)))"

text \<open>\<open>roots\<close> and \<open>leaves\<close>: a node is disqualified by an edge from, or to, another node.\<close>

definition disqualifies :: "bool \<Rightarrow> bool \<Rightarrow> string \<Rightarrow> element \<Rightarrow> bool" where
  "disqualifies no_incoming no_outgoing v e =
     (no_incoming \<and> target e = Some v \<and> source e \<noteq> Some v
      \<or> no_outgoing \<and> source e = Some v \<and> target e \<noteq> Some v)"

definition dag_extremity :: "bool \<Rightarrow> bool \<Rightarrow> collection \<Rightarrow> collection \<Rightarrow> collection" where
  "dag_extremity no_incoming no_outgoing g c =
     spawn_unique (filter (\<lambda>n. is_node n
       \<and> \<not> list_ex (disqualifies no_incoming no_outgoing (ele_id n)) (connected_edges g [n])) c)"

definition dag_one_hop :: "bool \<Rightarrow> collection \<Rightarrow> collection \<Rightarrow> collection" where
  "dag_one_hop outgoing g c =
     spawn_unique (concat (map (\<lambda>n. concat (map (\<lambda>e.
        case e of
          NodeE i \<Rightarrow> []
        | EdgeE i s t \<Rightarrow>
            if outgoing \<and> s = ele_id n then [e, NodeE t]
            else if \<not> outgoing \<and> t = ele_id n then [e, NodeE s]
            else []) (connected_edges g [n]))) (filter is_node c)))"

text \<open>All hops: the elements reached, in order, until a hop brings nothing new.\<close>

partial_function (option) dag_hops_loop ::
  "bool \<Rightarrow> collection \<Rightarrow> collection \<Rightarrow> collection \<Rightarrow> collection option" where
  "dag_hops_loop outgoing g eles seen =
     (let hop = dag_one_hop outgoing g eles; new = filter (\<lambda>e. \<not> has_ele seen e) hop
      in if hop = [] then Some seen
         else if new = [] then Some seen
         else dag_hops_loop outgoing g hop (seen @ new))"

declare dag_hops_loop.simps [code]

definition dag_all_hops :: "bool \<Rightarrow> collection \<Rightarrow> collection \<Rightarrow> collection option" where
  "dag_all_hops outgoing g c = map_option spawn_unique (dag_hops_loop outgoing g c [])"

definition other_end :: "string \<Rightarrow> element \<Rightarrow> element list" where
  "other_end v e = (case e of EdgeE i s t \<Rightarrow> [if v = s then NodeE t else NodeE s] | NodeE i \<Rightarrow> [])"

definition neighborhood :: "collection \<Rightarrow> collection \<Rightarrow> collection" where
  "neighborhood g c =
     spawn_unique (concat (map (\<lambda>n. concat (map (\<lambda>e. other_end (ele_id n) e @ [e])
       (connected_edges g [n]))) (nodes_of c)))"

definition closed_neighborhood :: "collection \<Rightarrow> collection \<Rightarrow> collection" where
  "closed_neighborhood g c = add_eles (neighborhood g c) (Some c)"

definition edges_with :: "bool \<Rightarrow> collection \<Rightarrow> collection \<Rightarrow> collection \<Rightarrow> collection" where
  "edges_with this_is_src g c others =
     spawn_unique (concat (map (\<lambda>n. filter (\<lambda>e.
        case e of
          NodeE i \<Rightarrow> False
        | EdgeE i s t \<Rightarrow>
           (let this_to_other = has_id c s \<and> has_id others t;
                other_to_this = has_id others s \<and> has_id c t
            in (this_to_other \<or> other_to_this) \<and> (this_is_src \<longrightarrow> this_to_other)))
       (node_edges g (ele_id n))) others))"

definition parallel_edges :: "bool \<Rightarrow> collection \<Rightarrow> collection \<Rightarrow> collection" where
  "parallel_edges codirected g c =
     spawn_unique (concat (map (\<lambda>e1.
        case e1 of
          NodeE i \<Rightarrow> []
        | EdgeE i s1 t1 \<Rightarrow>
            filter (\<lambda>e2. source e2 = Some s1 \<and> target e2 = Some t1
                       \<or> \<not> codirected \<and> target e2 = Some s1 \<and> source e2 = Some t1) (node_edges g s1))
       (edges_of c)))"

subsection \<open>Search\<close>

text \<open>What \<open>defineSearch\<close> keeps while it runs.  A stack is a queue read from the other end; the
  visit function answers \<open>Some True\<close> for found, \<open>Some False\<close> to stop, \<open>None\<close> to go on.\<close>

record search =
  se_queue :: "string list"
  se_connected :: "string list"
  se_connected_by :: "(string \<times> element) list"
  se_depth :: "(string \<times> nat) list"
  se_visited :: "string list"
  se_count :: nat
  se_found :: "string option"

type_synonym visit = "string \<Rightarrow> element option \<Rightarrow> string option \<Rightarrow> nat \<Rightarrow> nat \<Rightarrow> bool option"

definition start_search :: "bool \<Rightarrow> collection \<Rightarrow> search" where
  "start_search bfs roots =
     foldl (\<lambda>s v. if is_node v then
              s\<lparr>se_queue := ele_id v # se_queue s,
                se_visited := (if bfs then ele_id v # se_visited s else se_visited s),
                se_connected := (if bfs then se_connected s @ [ele_id v] else se_connected s),
                se_depth := AList.update (ele_id v) 0 (se_depth s)\<rparr>
            else s)
       \<lparr>se_queue = [], se_connected = [], se_connected_by = [], se_depth = [], se_visited = [],
        se_count = 0, se_found = None\<rparr> roots"

definition search_edges :: "bool \<Rightarrow> collection \<Rightarrow> collection \<Rightarrow> string \<Rightarrow> collection" where
  "search_edges directed g c v =
     filter (\<lambda>e. (\<not> directed \<or> source e = Some v) \<and> has_ele (edges_of c) e) (connected_edges g [NodeE v])"

definition search_step_edge :: "bool \<Rightarrow> collection \<Rightarrow> string \<Rightarrow> search \<Rightarrow> element \<Rightarrow> search" where
  "search_step_edge bfs c v s e =
     (case filter (\<lambda>n. ele_id n \<noteq> v \<and> has_ele (nodes_of c) n) (connected_nodes [e]) of
        [] \<Rightarrow> s
      | w # _ \<Rightarrow>
         (let wid = ele_id w in
          if wid \<in> set (se_visited s) then s
          else s\<lparr>se_queue := se_queue s @ [wid],
                 se_visited := (if bfs then wid # se_visited s else se_visited s),
                 se_connected := (if bfs then se_connected s @ [wid] else se_connected s),
                 se_connected_by := AList.update wid e (se_connected_by s),
                 se_depth := AList.update wid (the_or 0 (map_of (se_depth s) v) + 1) (se_depth s)\<rparr>))"

definition previous_node :: "string \<Rightarrow> element option \<Rightarrow> string option" where
  "previous_node v prev_edge =
     (case prev_edge of None \<Rightarrow> None | Some e \<Rightarrow> if source e = Some v then target e else source e)"

text \<open>One turn of the loop on the vertex taken from the queue: the flag says whether to go on.\<close>

definition search_turn :: "bool \<Rightarrow> bool \<Rightarrow> visit \<Rightarrow> collection \<Rightarrow> collection \<Rightarrow> string \<Rightarrow> search \<Rightarrow> search \<times> bool" where
  "search_turn bfs directed visit g c v s =
     (if \<not> bfs \<and> v \<in> set (se_visited s) then (s, True)
      else
       (let s = (if bfs then s else s\<lparr>se_visited := v # se_visited s, se_connected := se_connected s @ [v]\<rparr>);
            depth = the_or 0 (map_of (se_depth s) v);
            prev_edge = map_of (se_connected_by s) v;
            ret = visit v prev_edge (previous_node v prev_edge) (se_count s) depth;
            s = s\<lparr>se_count := se_count s + 1\<rparr>
        in case ret of
             Some True \<Rightarrow> (s\<lparr>se_found := Some v\<rparr>, False)
           | Some False \<Rightarrow> (s, False)
           | None \<Rightarrow> (foldl (search_step_edge bfs c v) s (search_edges directed g c v), True)))"

partial_function (option) search_loop ::
  "bool \<Rightarrow> bool \<Rightarrow> visit \<Rightarrow> collection \<Rightarrow> collection \<Rightarrow> search \<Rightarrow> search option" where
  "search_loop bfs directed visit g c s =
     (case se_queue s of
        [] \<Rightarrow> Some s
      | q # qs \<Rightarrow>
         (let (v, rest) = (if bfs then (q, qs) else (last (q # qs), butlast (q # qs)));
              (s, go_on) = search_turn bfs directed visit g c v (s\<lparr>se_queue := rest\<rparr>)
          in if go_on then search_loop bfs directed visit g c s else Some s))"

declare search_loop.simps [code]

text \<open>The elements of the search tree in order, each node after the edge that led to it.\<close>

definition search_path :: "search \<Rightarrow> element list" where
  "search_path s =
     concat (map (\<lambda>v. (case map_of (se_connected_by s) v of None \<Rightarrow> [] | Some e \<Rightarrow> [e]) @ [NodeE v])
       (se_connected s))"

definition search_eles ::
  "bool \<Rightarrow> bool \<Rightarrow> visit \<Rightarrow> collection \<Rightarrow> collection \<Rightarrow> collection \<Rightarrow> (element list \<times> string option) option" where
  "search_eles bfs directed visit g c roots =
     map_option (\<lambda>s. (search_path s, se_found s))
       (search_loop bfs directed visit g c (start_search bfs roots))"

definition breadth_first_search ::
  "bool \<Rightarrow> visit \<Rightarrow> collection \<Rightarrow> collection \<Rightarrow> collection \<Rightarrow> (element list \<times> string option) option" where
  "breadth_first_search = search_eles True"

definition depth_first_search ::
  "bool \<Rightarrow> visit \<Rightarrow> collection \<Rightarrow> collection \<Rightarrow> collection \<Rightarrow> (element list \<times> string option) option" where
  "depth_first_search = search_eles False"

end
