(* ===== verification/CyPaths.thy ===== *)
theory CyPaths
  imports CyGraph
begin

text \<open>
  Shortest paths, spanning trees and cuts of \<open>cytoscape.js\<close>: \<open>dijkstra\<close>, \<open>kruskal\<close>, \<open>aStar\<close>,
  \<open>floydWarshall\<close>, \<open>bellmanFord\<close> and \<open>kargerStein\<close>.  \<open>g\<close> is the graph and \<open>c\<close> the collection the
  algorithm is called on; weights and distances are numbers with the infinities.  Objects indexed
  by ids are association lists: no id is the name of a member of \<open>Object.prototype\<close>.
\<close>

type_synonym weight = "element \<Rightarrow> jsnum"

definition no_loops :: "collection \<Rightarrow> collection" where
  "no_loops es = unmerge_by es is_loop"

subsection \<open>Dijkstra\<close>

record dijkstra_state =
  dj_dist :: "(string \<times> jsnum) list"
  dj_prev :: "(string \<times> (string \<times> element option)) list"
  dj_known :: "(string \<times> jsnum) list"
  dj_queue :: "string list"

definition get_dist :: "(string \<times> jsnum) list \<Rightarrow> string \<Rightarrow> jsnum" where
  "get_dist d v = the_or JNaN (map_of d v)"

definition dist_cmp :: "(string \<times> jsnum) list \<Rightarrow> string comparison" where
  "dist_cmp d a b = js_sub (get_dist d a) (get_dist d b)"

definition dijkstra_start :: "collection \<Rightarrow> string \<Rightarrow> dijkstra_state" where
  "dijkstra_start ns origin =
     foldl (\<lambda>s n.
        (let v = ele_id n; d = AList.update v (if v = origin then JNum 0 else JInf) (dj_dist s)
         in s\<lparr>dj_dist := d, dj_queue := heappush (dist_cmp d) (dj_queue s) v\<rparr>))
       \<lparr>dj_dist = [], dj_prev = [], dj_known = [], dj_queue = []\<rparr> ns"

definition dist_between ::
  "bool \<Rightarrow> weight \<Rightarrow> collection \<Rightarrow> collection \<Rightarrow> string \<Rightarrow> string \<Rightarrow> element option \<times> jsnum" where
  "dist_between directed w g es u v =
     foldl (\<lambda>(best, d). \<lambda>e. if js_lt (w e) d \<or> best = None then (Some e, w e) else (best, d))
       (None, JInf) (intersect (edges_with directed g [NodeE u] [NodeE v]) es)"

definition dijkstra_relax ::
  "bool \<Rightarrow> weight \<Rightarrow> collection \<Rightarrow> collection \<Rightarrow> string \<Rightarrow> jsnum \<Rightarrow> dijkstra_state \<Rightarrow> string \<Rightarrow> dijkstra_state" where
  "dijkstra_relax directed w g es u du s v =
     (let (edge, d) = dist_between directed w g es u v; alt = js_add du d
      in if js_lt alt (get_dist (dj_dist s) v)
         then (let dist = AList.update v alt (dj_dist s)
               in s\<lparr>dj_dist := dist, dj_queue := update_item (dist_cmp dist) (dj_queue s) v,
                    dj_prev := AList.update v (u, edge) (dj_prev s)\<rparr>)
         else s)"

definition dijkstra_turn ::
  "bool \<Rightarrow> weight \<Rightarrow> collection \<Rightarrow> collection \<Rightarrow> collection \<Rightarrow> string \<Rightarrow> dijkstra_state \<Rightarrow> dijkstra_state" where
  "dijkstra_turn directed w g ns es u s =
     (let du = get_dist (dj_dist s) u; s = s\<lparr>dj_known := AList.update u du (dj_known s)\<rparr>
      in if du = JInf then s
         else foldl (dijkstra_relax directed w g es u du) s
                (map ele_id (intersect (neighborhood g [NodeE u]) ns)))"

partial_function (option) dijkstra_loop ::
  "bool \<Rightarrow> weight \<Rightarrow> collection \<Rightarrow> collection \<Rightarrow> collection \<Rightarrow> dijkstra_state \<Rightarrow> dijkstra_state option" where
  "dijkstra_loop directed w g ns es s =
     (case heappop (dist_cmp (dj_dist s)) (dj_queue s) of
        (q, None) \<Rightarrow> Some s
      | (q, Some u) \<Rightarrow>
          dijkstra_loop directed w g ns es (dijkstra_turn directed w g ns es u (s\<lparr>dj_queue := q\<rparr>)))"

declare dijkstra_loop.simps [code]

definition dijkstra :: "collection \<Rightarrow> collection \<Rightarrow> string \<Rightarrow> weight \<Rightarrow> bool \<Rightarrow> dijkstra_state option" where
  "dijkstra g c origin w directed =
     (let (ns, es) = by_group c
      in dijkstra_loop directed w g ns (no_loops es) (dijkstra_start ns origin))"

definition dijkstra_distance_to :: "dijkstra_state \<Rightarrow> string \<Rightarrow> jsnum option" where
  "dijkstra_distance_to s v = map_of (dj_known s) v"

text \<open>The path back to the root; an edge is missing only if the step came from an infinite distance.\<close>

partial_function (option) dijkstra_back ::
  "(string \<times> (string \<times> element option)) list \<Rightarrow> string \<Rightarrow> element list \<Rightarrow> element list option" where
  "dijkstra_back prev v acc =
     (case map_of prev v of
        None \<Rightarrow> Some acc
      | Some (u, e) \<Rightarrow> dijkstra_back prev u (NodeE u # (case e of None \<Rightarrow> [] | Some e \<Rightarrow> [e]) @ acc))"

declare dijkstra_back.simps [code]

definition dijkstra_path_to :: "dijkstra_state \<Rightarrow> string \<Rightarrow> element list option" where
  "dijkstra_path_to s v = dijkstra_back (dj_prev s) v [NodeE v]"

subsection \<open>Kruskal\<close>

fun find_set :: "collection list \<Rightarrow> string \<Rightarrow> nat option" where
  "find_set [] v = None"
| "find_set (t # ts) v = (if has_id t v then Some 0 else map_option Suc (find_set ts v))"

definition remove_at :: "'a list \<Rightarrow> nat \<Rightarrow> 'a list" where
  "remove_at xs i = take i xs @ drop (Suc i) xs"

text \<open>The tree and the forest after an edge; \<open>None\<close> when an end is not among the nodes, where the
  source reads a set that is not there.\<close>

definition kruskal_edge ::
  "collection \<times> collection list \<Rightarrow> element \<Rightarrow> (collection \<times> collection list) option" where
  "kruskal_edge = (\<lambda>(A, forest) e.
     (case (Option.bind (source e) (find_set forest), Option.bind (target e) (find_set forest)) of
        (Some i, Some j) \<Rightarrow>
          if i \<noteq> j
          then Some (merge_one A e, remove_at (forest[i := merge (forest ! i) (forest ! j)]) j)
          else Some (A, forest)
      | _ \<Rightarrow> None))"

fun fold_option :: "('a \<Rightarrow> 'b \<Rightarrow> 'a option) \<Rightarrow> 'a \<Rightarrow> 'b list \<Rightarrow> 'a option" where
  "fold_option f a [] = Some a"
| "fold_option f a (x # xs) = (case f a x of None \<Rightarrow> None | Some a' \<Rightarrow> fold_option f a' xs)"

definition kruskal :: "collection \<Rightarrow> weight \<Rightarrow> collection option" where
  "kruskal c w =
     (let (ns, es) = by_group c; S = js_sort (\<lambda>a b. js_sub (w a) (w b)) es
      in map_option fst (fold_option kruskal_edge (ns, map (\<lambda>n. [n]) ns) S))"

subsection \<open>A*\<close>

record astar_state =
  as_g :: "(string \<times> jsnum) list"
  as_f :: "(string \<times> jsnum) list"
  as_closed :: "string list"
  as_open :: "string list"
  as_open_ids :: "string list"
  as_came_from :: "(string \<times> string) list"
  as_came_edge :: "(string \<times> element) list"
  as_steps :: nat

record astar_result =
  ar_found :: bool
  ar_distance :: "jsnum option"
  ar_path :: "element list option"
  ar_steps :: nat

definition add_to_open :: "astar_state \<Rightarrow> string \<Rightarrow> astar_state" where
  "add_to_open s v =
     s\<lparr>as_open := heappush (dist_cmp (as_f s)) (as_open s) v, as_open_ids := List.insert v (as_open_ids s)\<rparr>"

definition astar_start :: "(string \<Rightarrow> jsnum) \<Rightarrow> string \<Rightarrow> astar_state" where
  "astar_start h origin =
     (let s = add_to_open \<lparr>as_g = [], as_f = [], as_closed = [], as_open = [], as_open_ids = [],
                as_came_from = [], as_came_edge = [], as_steps = 0\<rparr> origin
      in s\<lparr>as_g := [(origin, JNum 0)], as_f := [(origin, h origin)]\<rparr>)"

definition astar_score :: "(string \<Rightarrow> jsnum) \<Rightarrow> string \<Rightarrow> string \<Rightarrow> element \<Rightarrow> jsnum \<Rightarrow> astar_state \<Rightarrow> astar_state" where
  "astar_score h v wid e score s =
     s\<lparr>as_g := AList.update wid score (as_g s), as_f := AList.update wid (js_add score (h wid)) (as_f s)\<rparr>"

definition came :: "string \<Rightarrow> string \<Rightarrow> element \<Rightarrow> astar_state \<Rightarrow> astar_state" where
  "came v wid e s =
     s\<lparr>as_came_from := AList.update wid v (as_came_from s), as_came_edge := AList.update wid e (as_came_edge s)\<rparr>"

text \<open>A better score of a vertex that is already open changes the score but not the heap.\<close>

definition astar_edge ::
  "bool \<Rightarrow> weight \<Rightarrow> (string \<Rightarrow> jsnum) \<Rightarrow> collection \<Rightarrow> string \<Rightarrow> astar_state \<Rightarrow> element \<Rightarrow> astar_state" where
  "astar_edge directed w h c v s e =
     (case e of
        NodeE i \<Rightarrow> s
      | EdgeE i src tgt \<Rightarrow>
         if \<not> has_id c i then s
         else if directed \<and> src \<noteq> v then s
         else
          (let wid = (if src \<noteq> v then src else tgt) in
           if \<not> has_id c wid then s
           else if wid \<in> set (as_closed s) then s
           else
            (let score = js_add (get_dist (as_g s) v) (w e) in
             if wid \<notin> set (as_open_ids s)
             then came v wid e (add_to_open (astar_score h v wid e score s) wid)
             else if js_lt score (get_dist (as_g s) wid)
             then came v wid e (astar_score h v wid e score s)
             else s)))"

partial_function (option) astar_back ::
  "(string \<times> string) list \<Rightarrow> (string \<times> element) list \<Rightarrow> string \<Rightarrow> element list \<Rightarrow> element list option" where
  "astar_back from edge v acc =
     (let acc = (case map_of edge v of None \<Rightarrow> NodeE v # acc | Some e \<Rightarrow> e # NodeE v # acc)
      in case map_of from v of
           None \<Rightarrow> Some acc
         | Some u \<Rightarrow> astar_back from edge u acc)"

declare astar_back.simps [code]

partial_function (option) astar_loop ::
  "bool \<Rightarrow> weight \<Rightarrow> (string \<Rightarrow> jsnum) \<Rightarrow> collection \<Rightarrow> collection \<Rightarrow> string \<Rightarrow> astar_state \<Rightarrow> astar_result option" where
  "astar_loop directed w h g c goal s =
     (case heappop (dist_cmp (as_f s)) (as_open s) of
        (q, None) \<Rightarrow> Some \<lparr>ar_found = False, ar_distance = None, ar_path = None, ar_steps = as_steps s\<rparr>
      | (q, Some v) \<Rightarrow>
         (let s = s\<lparr>as_open := q, as_open_ids := removeAll v (as_open_ids s), as_steps := as_steps s + 1\<rparr>
          in if v = goal then
               map_option (\<lambda>p. \<lparr>ar_found = True, ar_distance = map_of (as_g s) v, ar_path = Some p,
                                ar_steps = as_steps s\<rparr>)
                 (astar_back (as_came_from s) (as_came_edge s) goal [])
             else astar_loop directed w h g c goal
                    (foldl (astar_edge directed w h c v) (s\<lparr>as_closed := v # as_closed s\<rparr>) (node_edges g v))))"

declare astar_loop.simps [code]

definition a_star ::
  "collection \<Rightarrow> collection \<Rightarrow> string \<Rightarrow> string \<Rightarrow> weight \<Rightarrow> (string \<Rightarrow> jsnum) \<Rightarrow> bool \<Rightarrow> astar_result option" where
  "a_star g c origin goal w h directed = astar_loop directed w h g c goal (astar_start h origin)"

subsection \<open>Floyd and Warshall\<close>

record floyd =
  fw_dist :: "jsnum list"
  fw_next :: "nat option list"
  fw_edge_next :: "element option list"

definition floyd_init :: "nat \<Rightarrow> floyd" where
  "floyd_init N =
     \<lparr>fw_dist = map (\<lambda>n. let j = n mod N; i = (n - j) div N in if i = j then JNum 0 else JInf) [0..<N * N],
      fw_next = replicate (N * N) None, fw_edge_next = replicate (N * N) None\<rparr>"

definition floyd_set_edge :: "nat \<Rightarrow> nat \<Rightarrow> nat \<Rightarrow> jsnum \<Rightarrow> element \<Rightarrow> floyd \<Rightarrow> floyd" where
  "floyd_set_edge N s t d e f =
     (let st = s * N + t
      in if js_lt d (fw_dist f ! st)
         then f\<lparr>fw_dist := (fw_dist f)[st := d], fw_next := (fw_next f)[st := Some t],
                fw_edge_next := (fw_edge_next f)[st := Some e]\<rparr>
         else f)"

text \<open>\<open>None\<close>: an end outside the collection, where \<open>indexOf\<close> throws.\<close>

definition node_index :: "collection \<Rightarrow> string \<Rightarrow> nat option" where
  "node_index ns v = index_of (map ele_id ns) v"

definition floyd_edge :: "weight \<Rightarrow> bool \<Rightarrow> collection \<Rightarrow> floyd \<Rightarrow> element \<Rightarrow> floyd option" where
  "floyd_edge w directed ns f e =
     (if is_loop e then Some f
      else case (Option.bind (source e) (node_index ns), Option.bind (target e) (node_index ns)) of
             (Some s, Some t) \<Rightarrow>
               (let N = length ns; f = floyd_set_edge N s t (w e) e f
                in Some (if directed then f else floyd_set_edge N t s (w e) e f))
           | _ \<Rightarrow> None)"

definition floyd_relax :: "nat \<Rightarrow> nat \<Rightarrow> nat \<Rightarrow> floyd \<Rightarrow> nat \<Rightarrow> floyd" where
  "floyd_relax N k i f j =
     (let ik = i * N + k; ij = i * N + j; kj = k * N + j; via = js_add (fw_dist f ! ik) (fw_dist f ! kj)
      in if js_lt via (fw_dist f ! ij)
         then f\<lparr>fw_dist := (fw_dist f)[ij := via], fw_next := (fw_next f)[ij := fw_next f ! ik]\<rparr>
         else f)"

definition floyd_round :: "nat \<Rightarrow> floyd \<Rightarrow> nat \<Rightarrow> floyd" where
  "floyd_round N f k = foldl (\<lambda>f i. foldl (floyd_relax N k i) f [0..<N]) f [0..<N]"

definition floyd_warshall :: "collection \<Rightarrow> weight \<Rightarrow> bool \<Rightarrow> floyd option" where
  "floyd_warshall c w directed =
     (let (ns, es) = by_group c; N = length ns
      in map_option (\<lambda>f. foldl (floyd_round N) f [0..<N])
           (fold_option (floyd_edge w directed ns) (floyd_init N) es))"

definition floyd_distance :: "collection \<Rightarrow> floyd \<Rightarrow> string \<Rightarrow> string \<Rightarrow> jsnum option" where
  "floyd_distance ns f u v =
     (case (node_index ns u, node_index ns v) of
        (Some i, Some j) \<Rightarrow> js_get (fw_dist f) (i * length ns + j)
      | _ \<Rightarrow> None)"

partial_function (option) floyd_walk ::
  "collection \<Rightarrow> floyd \<Rightarrow> nat \<Rightarrow> nat \<Rightarrow> collection \<Rightarrow> collection option" where
  "floyd_walk ns f i j path =
     (if i = j then Some path
      else case fw_next f ! (i * length ns + j) of
             None \<Rightarrow> floyd_walk ns f i j path
           | Some k \<Rightarrow>
              (let path = (case fw_edge_next f ! (i * length ns + k) of None \<Rightarrow> path | Some e \<Rightarrow> merge_one path e)
               in floyd_walk ns f k j (merge_one path (ns ! k))))"

declare floyd_walk.simps [code]

definition floyd_path :: "collection \<Rightarrow> floyd \<Rightarrow> string \<Rightarrow> string \<Rightarrow> collection option" where
  "floyd_path ns f u v =
     (case (node_index ns u, node_index ns v) of
        (Some i, Some j) \<Rightarrow>
          if i = j then Some [ns ! i]
          else if fw_next f ! (i * length ns + j) = None then Some []
          else floyd_walk ns f i j [ns ! i]
      | _ \<Rightarrow> None)"

subsection \<open>Bellman and Ford\<close>

record info =
  in_dist :: jsnum
  in_pred :: "string option"
  in_edge :: "element option"

type_synonym infos = "(string \<times> info) list"

text \<open>The entry of a vertex the collection does not have is created empty: its distance is
  \<open>undefined\<close>, which compares like \<open>NaN\<close>.\<close>

definition get_info :: "infos \<Rightarrow> string \<Rightarrow> info" where
  "get_info m v = the_or \<lparr>in_dist = JNaN, in_pred = None, in_edge = None\<rparr> (map_of m v)"

definition bellman_start :: "collection \<Rightarrow> string \<Rightarrow> infos" where
  "bellman_start ns origin =
     foldl (\<lambda>m n. AList.update (ele_id n)
        \<lparr>in_dist = (if ele_id n = origin then JNum 0 else JInf), in_pred = None, in_edge = None\<rparr> m) [] ns"

definition check_for_edge_replacement ::
  "string \<Rightarrow> string \<Rightarrow> element \<Rightarrow> jsnum \<Rightarrow> infos \<times> bool \<Rightarrow> infos \<times> bool" where
  "check_for_edge_replacement n1 n2 e w = (\<lambda>(m, replaced).
     (let i1 = get_info m n1; i2 = get_info m n2; d = js_add (in_dist i1) w
      in if js_lt d (in_dist i2) \<and> in_edge i1 \<noteq> Some e
         then (AList.update n2 (i2\<lparr>in_dist := d, in_pred := Some n1, in_edge := Some e\<rparr>) m, True)
         else (m, replaced)))"

definition bellman_edge :: "weight \<Rightarrow> bool \<Rightarrow> infos \<times> bool \<Rightarrow> element \<Rightarrow> infos \<times> bool" where
  "bellman_edge w directed mr e =
     (case e of
        NodeE i \<Rightarrow> mr
      | EdgeE i s t \<Rightarrow>
         (let mr = check_for_edge_replacement s t e (w e) mr
          in if directed then mr else check_for_edge_replacement t s e (w e) mr))"

text \<open>At most \<open>n\<close> rounds, fewer when one replaces nothing.\<close>

fun bellman_rounds :: "weight \<Rightarrow> bool \<Rightarrow> collection \<Rightarrow> nat \<Rightarrow> infos \<Rightarrow> bool \<Rightarrow> infos \<times> bool" where
  "bellman_rounds w directed es 0 m replaced = (m, replaced)"
| "bellman_rounds w directed es (Suc n) m replaced =
     (let (m, replaced) = foldl (bellman_edge w directed) (m, False) es
      in if \<not> replaced then (m, replaced) else bellman_rounds w directed es n m replaced)"

text \<open>An edge that could still be relaxed after all rounds.\<close>

definition relaxable :: "weight \<Rightarrow> infos \<Rightarrow> element \<Rightarrow> string \<Rightarrow> string \<Rightarrow> bool" where
  "relaxable w m e u v = js_lt (js_add (in_dist (get_info m u)) (w e)) (in_dist (get_info m v))"

definition negative_starts :: "weight \<Rightarrow> bool \<Rightarrow> infos \<Rightarrow> element \<Rightarrow> string list" where
  "negative_starts w directed m e =
     (case e of
        NodeE i \<Rightarrow> []
      | EdgeE i s t \<Rightarrow>
          (if relaxable w m e s t then [s] else []) @ (if \<not> directed \<and> relaxable w m e t s then [t] else []))"

fun str_lt :: "string \<Rightarrow> string \<Rightarrow> bool" where
  "str_lt a [] = False"
| "str_lt [] (b # bs) = True"
| "str_lt (a # as) (b # bs) =
     ((of_char a :: nat) < of_char b \<or> a = b \<and> str_lt as bs)"

text \<open>Following the predecessors from a start until a vertex comes again.  Vertices stand at even
  positions and edges between them; an entry is \<open>None\<close> where the edge is \<open>null\<close>.  The outer \<open>None\<close>
  is the exception thrown on a missing predecessor.\<close>

partial_function (option) cycle_loop ::
  "infos \<Rightarrow> element option list \<Rightarrow> string option \<Rightarrow> (element option list \<times> string) option" where
  "cycle_loop m cycle v =
     (case v of
        None \<Rightarrow> None
      | Some v \<Rightarrow>
          if Some (NodeE v) \<in> set cycle then Some (cycle, v)
          else cycle_loop m (cycle @ [Some (NodeE v), in_edge (get_info m v)]) (in_pred (get_info m v)))"

declare cycle_loop.simps [code]

definition opt_id :: "element option \<Rightarrow> string" where
  "opt_id e = (case e of None \<Rightarrow> [] | Some e \<Rightarrow> ele_id e)"

definition rotate_to_smallest :: "element option list \<Rightarrow> element option list" where
  "rotate_to_smallest cycle =
     (let k = foldl (\<lambda>k c. if str_lt (opt_id (cycle ! c)) (opt_id (cycle ! k)) then c else k) 0
                (filter (\<lambda>c. even c \<and> 0 < c) [0..<length cycle])
      in drop k cycle @ take k cycle)"

definition negative_cycle :: "infos \<Rightarrow> string \<Rightarrow> element option list option" where
  "negative_cycle m v =
     map_option (\<lambda>(cycle, u).
       (let cycle = dropWhile (\<lambda>e. e \<noteq> Some (NodeE u)) cycle; cycle = rotate_to_smallest cycle
        in cycle @ [hd cycle]))
       (cycle_loop m [Some (NodeE v), in_edge (get_info m v)] (in_pred (get_info m v)))"

definition add_cycle ::
  "infos \<Rightarrow> element option list list \<times> string list \<Rightarrow> string \<Rightarrow> (element option list list \<times> string list) option" where
  "add_cycle m = (\<lambda>(cycles, ids) v.
     map_option (\<lambda>cycle.
       (let i = join_with '','' (map opt_id cycle)
        in if i \<in> set ids then (cycles, ids) else (cycles @ [cycle], ids @ [i]))) (negative_cycle m v))"

record bellman_result =
  bf_info :: infos
  bf_has_negative :: bool
  bf_cycles :: "element option list list"

text \<open>With \<open>findNegativeWeightCycles: false\<close> the search stops at the first such edge.\<close>

definition bellman_ford ::
  "collection \<Rightarrow> weight \<Rightarrow> bool \<Rightarrow> string \<Rightarrow> bool \<Rightarrow> bellman_result option" where
  "bellman_ford c w directed origin find_cycles =
     (let (ns, es) = by_group c; es = no_loops es;
          (m, replaced) = bellman_rounds w directed es (length ns - 1) (bellman_start ns origin) False;
          bad = filter (\<lambda>e. negative_starts w directed m e \<noteq> []) es
      in if \<not> replaced \<or> bad = [] then Some \<lparr>bf_info = m, bf_has_negative = False, bf_cycles = []\<rparr>
         else if \<not> find_cycles then Some \<lparr>bf_info = m, bf_has_negative = True, bf_cycles = []\<rparr>
         else map_option (\<lambda>(cycles, ids). \<lparr>bf_info = m, bf_has_negative = True, bf_cycles = cycles\<rparr>)
                (fold_option (add_cycle m) ([], []) (concat (map (negative_starts w directed m) bad))))"

definition bellman_distance_to :: "bellman_result \<Rightarrow> string \<Rightarrow> jsnum" where
  "bellman_distance_to r v = in_dist (get_info (bf_info r) v)"

partial_function (option) bellman_path_loop ::
  "infos \<Rightarrow> string \<Rightarrow> string option \<Rightarrow> element list \<Rightarrow> element list option" where
  "bellman_path_loop m start v path =
     (case v of
        None \<Rightarrow> Some []
      | Some v \<Rightarrow>
         (let i = get_info m v; path = NodeE v # path
          in if v = start then Some path
             else bellman_path_loop m start (in_pred i)
                    (case in_edge i of None \<Rightarrow> path | Some e \<Rightarrow> e # path)))"

declare bellman_path_loop.simps [code]

definition bellman_path_to :: "bellman_result \<Rightarrow> string \<Rightarrow> string \<Rightarrow> element list option" where
  "bellman_path_to r start v = bellman_path_loop (bf_info r) start (Some v) []"

subsection \<open>Karger and Stein\<close>

text \<open>An edge is its index and the meta nodes of its ends.  \<open>collapse\<close> also returns the changed
  node map; it throws when there is no edge left.\<close>

type_synonym cut_edge = "nat \<times> nat \<times> nat"

definition collapse ::
  "nat \<Rightarrow> nat list \<Rightarrow> cut_edge list \<Rightarrow> string + (nat list \<times> cut_edge list)" where
  "collapse edge_index node_map remaining =
     (if remaining = [] then Inl ''Karger-Stein must be run on a connected (sub)graph''
      else
       (let (i, s, t) = remaining ! edge_index; p1 = node_map ! s; p2 = node_map ! t;
            es = filter (\<lambda>(i, s, t). \<not> (node_map ! s = p1 \<and> node_map ! t = p2
                                       \<or> node_map ! s = p2 \<and> node_map ! t = p1)) remaining;
            es = map (\<lambda>(i, s, t). if s = p2 then (i, p1, t) else if t = p2 then (i, s, p1) else (i, s, t)) es
        in Inr (map (\<lambda>p. if p = p2 then p1 else p) node_map, es)))"

text \<open>\<open>rand n\<close> is the \<open>n\<close>-th value of \<open>Math.random()\<close>; the counter of values used is returned.\<close>

fun contract_until ::
  "(nat \<Rightarrow> real) \<Rightarrow> nat \<Rightarrow> nat list \<Rightarrow> cut_edge list \<Rightarrow> nat \<Rightarrow> nat \<Rightarrow> string + (nat \<times> nat list \<times> cut_edge list)" where
  "contract_until rand k node_map remaining 0 limit = Inr (k, node_map, remaining)"
| "contract_until rand k node_map remaining (Suc n) limit =
     (if Suc n > limit then
        (case collapse (nat \<lfloor>rand k * real (length remaining)\<rfloor>) node_map remaining of
           Inl e \<Rightarrow> Inl e
         | Inr (node_map, remaining) \<Rightarrow> contract_until rand (Suc k) node_map remaining n limit)
      else Inr (k, node_map, remaining))"

record cut_state =
  ct_size :: "nat option"
  ct_edges :: "cut_edge list"
  ct_map :: "nat list"
  ct_used :: nat

definition smaller_cut :: "nat \<Rightarrow> nat option \<Rightarrow> bool" where
  "smaller_cut n size' = (case size' of None \<Rightarrow> True | Some m \<Rightarrow> n < m)"

definition karger_iteration ::
  "(nat \<Rightarrow> real) \<Rightarrow> nat \<Rightarrow> nat \<Rightarrow> cut_edge list \<Rightarrow> cut_state \<Rightarrow> nat \<Rightarrow> string + cut_state" where
  "karger_iteration rand num_nodes stop_size edges s iter =
     (case contract_until rand (ct_used s) [0..<num_nodes] edges num_nodes stop_size of
        Inl e \<Rightarrow> Inl e
      | Inr (k, node_map, es) \<Rightarrow>
         (case contract_until rand k node_map es stop_size 2 of
            Inl e \<Rightarrow> Inl e
          | Inr (k, m1, res1) \<Rightarrow>
             (case contract_until rand k node_map es stop_size 2 of
                Inl e \<Rightarrow> Inl e
              | Inr (k, m2, res2) \<Rightarrow>
                  Inr (if length res1 \<le> length res2 \<and> smaller_cut (length res1) (ct_size s)
                       then \<lparr>ct_size = Some (length res1), ct_edges = res1, ct_map = m1, ct_used = k\<rparr>
                       else if length res2 \<le> length res1 \<and> smaller_cut (length res2) (ct_size s)
                       then \<lparr>ct_size = Some (length res2), ct_edges = res2, ct_map = m2, ct_used = k\<rparr>
                       else s\<lparr>ct_used := k\<rparr>))))"

fun fold_result :: "('a \<Rightarrow> 'b \<Rightarrow> 'e + 'a) \<Rightarrow> 'a \<Rightarrow> 'b list \<Rightarrow> 'e + 'a" where
  "fold_result f a [] = Inr a"
| "fold_result f a (x # xs) = (case f a x of Inl e \<Rightarrow> Inl e | Inr a' \<Rightarrow> fold_result f a' xs)"

record cut_result =
  cr_cut :: collection
  cr_components :: "collection \<times> collection"
  cr_partition1 :: collection
  cr_partition2 :: collection

definition construct_component ::
  "collection \<Rightarrow> collection \<Rightarrow> collection \<Rightarrow> collection \<Rightarrow> collection" where
  "construct_component g c cutset part =
     foldl (\<lambda>cmp n. merge (merge_one cmp n)
        (filter (\<lambda>e. has_ele c e \<and> \<not> has_ele cutset e) (connected_edges g [n]))) [] part"

definition karger_iterations :: "nat \<Rightarrow> nat" where
  "karger_iterations num_nodes = nat \<lceil>(ln (real num_nodes) / ln 2) ^ 2\<rceil>"

definition karger_stop_size :: "nat \<Rightarrow> nat" where
  "karger_stop_size num_nodes = nat \<lfloor>real num_nodes / sqrt 2\<rfloor>"

definition sequence_opt :: "'a option list \<Rightarrow> 'a list option" where
  "sequence_opt xs = (if None \<in> set xs then None else Some (map the xs))"

definition karger_edges :: "collection \<Rightarrow> collection \<Rightarrow> cut_edge list option" where
  "karger_edges ns es =
     sequence_opt (map (\<lambda>i. case es ! i of
        EdgeE e s t \<Rightarrow> (case (node_index ns s, node_index ns t) of (Some a, Some b) \<Rightarrow> Some (i, a, b) | _ \<Rightarrow> None)
      | NodeE _ \<Rightarrow> None) [0..<length es])"

text \<open>\<open>Inl\<close>: an exception, also that of \<open>indexOf\<close> for an end outside the collection.\<close>

definition karger_stein :: "(nat \<Rightarrow> real) \<Rightarrow> collection \<Rightarrow> collection \<Rightarrow> string + cut_result" where
  "karger_stein rand g c =
     (let (ns, es) = by_group c; es = no_loops es; n = length ns
      in if n < 2 then Inl ''At least 2 nodes are required for Karger-Stein algorithm''
         else case karger_edges ns es of
           None \<Rightarrow> Inl ''TypeError''
         | Some ces \<Rightarrow>
            (case fold_result (karger_iteration rand n (karger_stop_size n) ces)
                    \<lparr>ct_size = None, ct_edges = [], ct_map = replicate n 0, ct_used = 0\<rparr>
                    [0..<karger_iterations n + 1] of
               Inl e \<Rightarrow> Inl e
             | Inr s \<Rightarrow>
                (let cutset = map (\<lambda>(i, a, b). es ! i) (ct_edges s);
                     in1 = (\<lambda>i. ct_map s ! i = ct_map s ! 0);
                     p1 = map ((!) ns) (filter in1 [0..<n]); p2 = map ((!) ns) (filter (\<lambda>i. \<not> in1 i) [0..<n])
                 in Inr \<lparr>cr_cut = cutset,
                         cr_components = (construct_component g c cutset p1, construct_component g c cutset p2),
                         cr_partition1 = p1, cr_partition2 = p2\<rparr>)))"

end
