(* ===== verification/CyConnect.thy ===== *)
theory CyConnect
  imports CyPaths
begin

text \<open>
  Connectivity in \<open>cytoscape.js\<close>: degrees, Euler trails (\<open>hierholzer\<close>), biconnected components
  (\<open>hopcroftTarjanBiconnected\<close>), strongly connected components (\<open>tarjanStronglyConnected\<close>) and
  \<open>components\<close>.  \<open>None\<close> is an exception or a loop that does not end.
\<close>

subsection \<open>Degrees\<close>

definition degree_sum :: "(element \<Rightarrow> nat) \<Rightarrow> collection \<Rightarrow> bool \<Rightarrow> string \<Rightarrow> nat" where
  "degree_sum f g include_loops v =
     foldl (\<lambda>d e. if \<not> include_loops \<and> is_loop e then d else d + f e) 0 (node_edges g v)"

definition degree :: "collection \<Rightarrow> bool \<Rightarrow> string \<Rightarrow> nat" where
  "degree = degree_sum (\<lambda>e. if source e = target e then 2 else 1)"

definition indegree :: "collection \<Rightarrow> bool \<Rightarrow> string \<Rightarrow> nat" where
  "indegree g include_loops v = degree_sum (\<lambda>e. if target e = Some v then 1 else 0) g include_loops v"

definition outdegree :: "collection \<Rightarrow> bool \<Rightarrow> string \<Rightarrow> nat" where
  "outdegree g include_loops v = degree_sum (\<lambda>e. if source e = Some v then 1 else 0) g include_loops v"

definition degree_bound ::
  "(collection \<Rightarrow> bool \<Rightarrow> string \<Rightarrow> nat) \<Rightarrow> (nat \<Rightarrow> nat \<Rightarrow> bool) \<Rightarrow> collection \<Rightarrow> collection \<Rightarrow> bool \<Rightarrow> nat option" where
  "degree_bound deg better g c include_loops =
     foldl (\<lambda>ret n. let d = deg g include_loops (ele_id n)
                    in case ret of None \<Rightarrow> Some d | Some r \<Rightarrow> if better d r then Some d else ret)
       None (nodes_of c)"

definition min_degree :: "collection \<Rightarrow> collection \<Rightarrow> bool \<Rightarrow> nat option" where
  "min_degree = degree_bound degree (<)"

definition max_degree :: "collection \<Rightarrow> collection \<Rightarrow> bool \<Rightarrow> nat option" where
  "max_degree = degree_bound degree (>)"

definition min_indegree :: "collection \<Rightarrow> collection \<Rightarrow> bool \<Rightarrow> nat option" where
  "min_indegree = degree_bound indegree (<)"

definition max_indegree :: "collection \<Rightarrow> collection \<Rightarrow> bool \<Rightarrow> nat option" where
  "max_indegree = degree_bound indegree (>)"

definition min_outdegree :: "collection \<Rightarrow> collection \<Rightarrow> bool \<Rightarrow> nat option" where
  "min_outdegree = degree_bound outdegree (<)"

definition max_outdegree :: "collection \<Rightarrow> collection \<Rightarrow> bool \<Rightarrow> nat option" where
  "max_outdegree = degree_bound outdegree (>)"

definition total_degree :: "collection \<Rightarrow> collection \<Rightarrow> bool \<Rightarrow> nat" where
  "total_degree g c include_loops =
     foldl (\<lambda>total n. total + degree g include_loops (ele_id n)) 0 (nodes_of c)"

subsection \<open>Components\<close>

text \<open>\<open>self2\<close> is the collection; a search without a visit result walks over a component.\<close>

partial_function (option) components_loop ::
  "collection \<Rightarrow> collection \<Rightarrow> collection \<Rightarrow> collection list \<Rightarrow> collection list option" where
  "components_loop g c unvisited comps =
     (case unvisited of
        [] \<Rightarrow> Some comps
      | r # _ \<Rightarrow>
          Option.bind (search_loop True False (\<lambda>_ _ _ _ _. None) g c (start_search True [r]))
            (\<lambda>s. let visited = map NodeE (se_connected s);
                     unvisited = unmerge (unmerge_one unvisited r) visited;
                     cmpt = merge [r] visited;
                     es = concat (map (\<lambda>n. filter (\<lambda>e. has_ele c e \<and> list_all (has_ele cmpt) (ends e))
                            (connected_edges g [n])) cmpt)
                 in components_loop g c unvisited (comps @ [merge cmpt es])))"

declare components_loop.simps [code]

definition components :: "collection \<Rightarrow> collection \<Rightarrow> collection list option" where
  "components g c = components_loop g c (nodes_of c) []"

subsection \<open>Euler trails\<close>

record euler_prep =
  eu_nodes :: "(string \<times> string list) list"
  eu_edges :: "(string \<times> (string option \<times> string)) list"
  eu_odd_in :: "string option"
  eu_odd_out :: "string option"
  eu_dflag :: bool

definition euler_empty :: euler_prep where
  "euler_empty = \<lparr>eu_nodes = [], eu_edges = [], eu_odd_in = None, eu_odd_out = None, eu_dflag = False\<rparr>"

text \<open>\<open>d1 == 1\<close>, \<open>d2 == 1\<close>, or a larger difference.\<close>

definition note_directed :: "collection \<Rightarrow> string \<Rightarrow> euler_prep \<Rightarrow> euler_prep" where
  "note_directed g v p =
     (let d1 = int (indegree g True v) - int (outdegree g True v); d2 = - d1
      in if d1 = 1 then
           (if eu_odd_in p \<noteq> None then p\<lparr>eu_dflag := True\<rparr> else p\<lparr>eu_odd_in := Some v\<rparr>)
         else if d2 = 1 then
           (if eu_odd_out p \<noteq> None then p\<lparr>eu_dflag := True\<rparr> else p\<lparr>eu_odd_out := Some v\<rparr>)
         else if d2 > 1 \<or> d1 > 1 then p\<lparr>eu_dflag := True\<rparr>
         else p)"

definition note_undirected :: "collection \<Rightarrow> string \<Rightarrow> euler_prep \<Rightarrow> euler_prep" where
  "note_undirected g v p =
     (if odd (degree g True v) then
        (if eu_odd_in p = None then p\<lparr>eu_odd_in := Some v\<rparr>
         else if eu_odd_out p = None then p\<lparr>eu_odd_out := Some v\<rparr>
         else p\<lparr>eu_dflag := True\<rparr>)
      else p)"

definition euler_prepare :: "bool \<Rightarrow> collection \<Rightarrow> euler_prep \<Rightarrow> element \<Rightarrow> euler_prep" where
  "euler_prepare directed g p e =
     (case e of
        NodeE v \<Rightarrow>
          (let p = (if directed then note_directed g v p else note_undirected g v p);
               out = (if directed then filter is_edge (dag_one_hop True g [NodeE v]) else connected_edges g [NodeE v])
           in p\<lparr>eu_nodes := AList.update v (map ele_id out) (eu_nodes p)\<rparr>)
      | EdgeE i s t \<Rightarrow>
          p\<lparr>eu_edges := AList.update i (if directed then None else Some s, t) (eu_edges p)\<rparr>)"

text \<open>Where to start: \<open>Inl ()\<close> is the empty result.\<close>

definition euler_start :: "bool \<Rightarrow> collection \<Rightarrow> string option \<Rightarrow> euler_prep \<Rightarrow> unit + string" where
  "euler_start directed c start p =
     (if eu_dflag p then Inl ()
      else case (eu_odd_out p, eu_odd_in p) of
             (Some oo, Some oi) \<Rightarrow>
               if directed then
                 (if start \<noteq> None \<and> start \<noteq> Some oo then Inl () else Inr oo)
               else (case start of
                       Some v \<Rightarrow> if oo \<noteq> v \<and> oi \<noteq> v then Inl () else Inr v
                     | None \<Rightarrow> Inr oo)
           | _ \<Rightarrow> (case start of
                     Some v \<Rightarrow> Inr v
                   | None \<Rightarrow> (case c of e # _ \<Rightarrow> Inr (ele_id e) | [] \<Rightarrow> Inl ())))"

text \<open>A walk takes the first unused edge at each vertex; the tour is built from its end.\<close>

partial_function (option) euler_walk ::
  "bool \<Rightarrow> (string \<times> (string option \<times> string)) list \<Rightarrow> (string \<times> string list) list \<Rightarrow> string
   \<Rightarrow> string list \<Rightarrow> ((string \<times> string list) list \<times> string list) option" where
  "euler_walk directed edges nodes v tour =
     (case map_of nodes v of
        None \<Rightarrow> None
      | Some [] \<Rightarrow> Some (nodes, tour)
      | Some (adj # rest) \<Rightarrow>
         (case map_of edges adj of
            None \<Rightarrow> None
          | Some (tail, head) \<Rightarrow>
             (let nodes = AList.update v rest nodes;
                  away = (if v \<noteq> head then Some head else if \<not> directed \<and> tail \<noteq> Some v then tail else None)
              in case away of
                   None \<Rightarrow> euler_walk directed edges nodes v (v # adj # tour)
                 | Some u \<Rightarrow>
                    (case map_of nodes u of
                       None \<Rightarrow> None
                     | Some es \<Rightarrow>
                         euler_walk directed edges (AList.update u (filter (\<lambda>e. e \<noteq> adj) es) nodes) u
                           (u # adj # tour)))))"

declare euler_walk.simps [code]

text \<open>While the tour is longer than one vertex: a vertex with no unused edge goes to the trail with
  the edge before it, any other is replaced by a walk from it.\<close>

partial_function (option) euler_splice ::
  "bool \<Rightarrow> (string \<times> (string option \<times> string)) list \<Rightarrow> (string \<times> string list) list \<Rightarrow> string list
   \<Rightarrow> string list \<Rightarrow> ((string \<times> string list) list \<times> string list) option" where
  "euler_splice directed edges nodes tour trail =
     (case tour of
        [] \<Rightarrow> None
      | [v] \<Rightarrow> Some (nodes, v # trail)
      | v # e # rest \<Rightarrow>
         (case map_of nodes v of
            None \<Rightarrow> None
          | Some [] \<Rightarrow> euler_splice directed edges nodes rest (e # v # trail)
          | Some _ \<Rightarrow>
              Option.bind (euler_walk directed edges nodes v [v])
                (\<lambda>(nodes, sub). euler_splice directed edges nodes (sub @ e # rest) trail)))"

declare euler_splice.simps [code]

text \<open>The outer \<open>None\<close> is an exception; the inner one is \<open>found: false\<close>.\<close>

definition hierholzer :: "collection \<Rightarrow> collection \<Rightarrow> string option \<Rightarrow> bool \<Rightarrow> string list option option" where
  "hierholzer g c start directed =
     (let p = foldl (euler_prepare directed g) euler_empty c
      in case euler_start directed c start p of
           Inl () \<Rightarrow> Some None
         | Inr v \<Rightarrow>
             Option.bind (euler_walk directed (eu_edges p) (eu_nodes p) v [v]) (\<lambda>(nodes, tour).
             map_option (\<lambda>(nodes, trail). if list_all (\<lambda>(v, es). es = []) nodes then Some trail else None)
               (euler_splice directed (eu_edges p) nodes tour [])))"

subsection \<open>Strongly connected components\<close>

record scc_node =
  sn_index :: nat
  sn_low :: nat
  sn_explored :: bool

record scc =
  sc_nodes :: "(string \<times> scc_node) list"
  sc_index :: nat
  sc_stack :: "string list"
  sc_components :: "collection list"
  sc_cut :: collection

definition scc_enter :: "string \<Rightarrow> scc \<Rightarrow> scc" where
  "scc_enter v st =
     st\<lparr>sc_stack := v # sc_stack st,
        sc_nodes := AList.update v \<lparr>sn_index = sc_index st, sn_low = sc_index st, sn_explored = False\<rparr> (sc_nodes st),
        sc_index := sc_index st + 1\<rparr>"

text \<open>The vertices above and including \<open>v\<close> leave the stack, which is kept with its top first.\<close>

definition scc_pop :: "collection \<Rightarrow> string \<Rightarrow> nat \<Rightarrow> scc \<Rightarrow> scc" where
  "scc_pop g v index st =
     (let popped = takeWhile (\<lambda>u. u \<noteq> v) (sc_stack st) @ [v];
          nodes = foldl (\<lambda>m u. AList.update u
                    (case map_of m u of
                       Some n \<Rightarrow> n\<lparr>sn_low := index, sn_explored := True\<rparr>
                     | None \<Rightarrow> \<lparr>sn_index = index, sn_low = index, sn_explored = True\<rparr>) m) (sc_nodes st) popped;
          comp_nodes = merge [] (map NodeE popped);
          cpt = merge comp_nodes (edges_with False g comp_nodes comp_nodes)
      in st\<lparr>sc_stack := drop (length popped) (sc_stack st), sc_nodes := nodes,
            sc_components := sc_components st @ [cpt], sc_cut := not_in (sc_cut st) (Some cpt)\<rparr>)"

definition scc_finish :: "collection \<Rightarrow> string \<Rightarrow> scc \<Rightarrow> scc" where
  "scc_finish g v st =
     (case map_of (sc_nodes st) v of
        None \<Rightarrow> st
      | Some n \<Rightarrow> if sn_index n = sn_low n then scc_pop g v (sn_index n) st else st)"

definition scc_lower :: "string \<Rightarrow> string \<Rightarrow> scc \<Rightarrow> scc" where
  "scc_lower v t st =
     (case (map_of (sc_nodes st) v, map_of (sc_nodes st) t) of
        (Some n, Some m) \<Rightarrow>
          if sn_explored m then st
          else st\<lparr>sc_nodes := AList.update v (n\<lparr>sn_low := min (sn_low n) (sn_low m)\<rparr>) (sc_nodes st)\<rparr>
      | _ \<Rightarrow> st)"

definition scc_edges :: "collection \<Rightarrow> collection \<Rightarrow> string \<Rightarrow> collection" where
  "scc_edges g c v = (if has_id c v then intersect (connected_edges g [NodeE v]) c else [])"

text \<open>The recursion of \<open>stronglyConnectedSearch\<close> and its loop over the edges in one.\<close>

partial_function (option) scc_visit ::
  "collection \<Rightarrow> collection \<Rightarrow> string \<Rightarrow> collection \<Rightarrow> scc \<Rightarrow> scc option" where
  "scc_visit g c v es st =
     (case es of
        [] \<Rightarrow> Some (scc_finish g v st)
      | e # es \<Rightarrow>
         (case target e of
            None \<Rightarrow> scc_visit g c v es st
          | Some t \<Rightarrow>
              if t = v then scc_visit g c v es st
              else
                Option.bind
                  (if map_of (sc_nodes st) t = None then scc_visit g c t (scc_edges g c t) (scc_enter t st)
                   else Some st)
                  (\<lambda>st. scc_visit g c v es (scc_lower v t st))))"

declare scc_visit.simps [code]

definition tarjan_strongly_connected :: "collection \<Rightarrow> collection \<Rightarrow> (collection \<times> collection list) option" where
  "tarjan_strongly_connected g c =
     map_option (\<lambda>st. (sc_cut st, sc_components st))
       (fold_option (\<lambda>st e.
          if is_node e \<and> map_of (sc_nodes st) (ele_id e) = None
          then scc_visit g c (ele_id e) (scc_edges g c (ele_id e)) (scc_enter (ele_id e) st)
          else Some st)
        \<lparr>sc_nodes = [], sc_index = 0, sc_stack = [], sc_components = [], sc_cut = c\<rparr> c)"

subsection \<open>Biconnected components\<close>

record bicon_node =
  bn_id :: nat
  bn_low :: nat
  bn_cut :: bool

record bicon =
  bi_nodes :: "(string \<times> bicon_node) list"
  bi_next :: nat
  bi_edge_count :: nat
  bi_components :: "collection list"
  bi_stack :: "(string \<times> string \<times> element) list"
  bi_visited :: "string list"

definition bicon_cut :: "bicon \<Rightarrow> string \<Rightarrow> bool" where
  "bicon_cut b v = (case map_of (bi_nodes b) v of None \<Rightarrow> False | Some n \<Rightarrow> bn_cut n)"

definition add_to_component :: "collection \<Rightarrow> collection \<Rightarrow> bicon \<Rightarrow> collection \<Rightarrow> element \<Rightarrow> collection" where
  "add_to_component g c b cpt e =
     foldl (\<lambda>cpt n.
        (let es = intersect (connected_edges g [n]) c; cpt = merge_one cpt n
         in merge cpt (if bicon_cut b (ele_id n) then filter is_loop es else es)))
       (merge_one cpt e) (intersect (connected_nodes [e]) c)"

text \<open>The stack is kept with its top first; running out of it throws.\<close>

definition build_component :: "collection \<Rightarrow> collection \<Rightarrow> string \<Rightarrow> string \<Rightarrow> bicon \<Rightarrow> bicon option" where
  "build_component g c x y b =
     (case dropWhile (\<lambda>(a, d, e). a \<noteq> x \<or> d \<noteq> y) (bi_stack b) of
        [] \<Rightarrow> None
      | (a, d, e) # rest \<Rightarrow>
         (let cutset = map (\<lambda>(a, d, e). e) (takeWhile (\<lambda>(a, d, e). a \<noteq> x \<or> d \<noteq> y) (bi_stack b)) @ [e]
          in Some (b\<lparr>bi_stack := rest,
                     bi_components := bi_components b @ [foldl (add_to_component g c b) [] cutset]\<rparr>)))"

definition bicon_enter :: "string \<Rightarrow> string \<Rightarrow> string option \<Rightarrow> bicon \<Rightarrow> bicon" where
  "bicon_enter origin v parent b =
     b\<lparr>bi_edge_count := (if parent = Some origin then bi_edge_count b + 1 else bi_edge_count b),
       bi_nodes := AList.update v \<lparr>bn_id = bi_next b, bn_low = bi_next b, bn_cut = False\<rparr> (bi_nodes b),
       bi_next := bi_next b + 1\<rparr>"

definition bicon_lower :: "string \<Rightarrow> nat \<Rightarrow> bicon \<Rightarrow> bicon" where
  "bicon_lower v low b =
     (case map_of (bi_nodes b) v of
        None \<Rightarrow> b
      | Some n \<Rightarrow> b\<lparr>bi_nodes := AList.update v (n\<lparr>bn_low := min (bn_low n) low\<rparr>) (bi_nodes b)\<rparr>)"

definition push_edge :: "string \<Rightarrow> string \<Rightarrow> element \<Rightarrow> bicon \<Rightarrow> bicon" where
  "push_edge v t e b =
     (if ele_id e \<in> set (bi_visited b) then b
      else b\<lparr>bi_visited := ele_id e # bi_visited b, bi_stack := (v, t, e) # bi_stack b\<rparr>)"

definition bicon_return :: "collection \<Rightarrow> collection \<Rightarrow> string \<Rightarrow> string \<Rightarrow> bicon \<Rightarrow> bicon option" where
  "bicon_return g c v t b =
     (case (map_of (bi_nodes b) v, map_of (bi_nodes b) t) of
        (Some n, Some m) \<Rightarrow>
         (let low = min (bn_low n) (bn_low m);
              cuts = (bn_id n \<le> bn_low m);
              b = b\<lparr>bi_nodes := AList.update v (n\<lparr>bn_low := low, bn_cut := (cuts \<or> bn_cut n)\<rparr>) (bi_nodes b)\<rparr>
          in if cuts then build_component g c v t b else Some b)
      | _ \<Rightarrow> None)"

definition bicon_edges :: "collection \<Rightarrow> collection \<Rightarrow> string \<Rightarrow> collection" where
  "bicon_edges g c v = (if has_id c v then intersect (connected_edges g [NodeE v]) c else [])"

definition bicon_open ::
  "collection \<Rightarrow> collection \<Rightarrow> string \<Rightarrow> string \<Rightarrow> string option \<Rightarrow> bicon \<Rightarrow> bicon" where
  "bicon_open g c origin v parent b =
     (let b = bicon_enter origin v parent b
      in if bicon_edges g c v = [] then b\<lparr>bi_components := bi_components b @ [[NodeE v]]\<rparr> else b)"

partial_function (option) bicon_visit ::
  "collection \<Rightarrow> collection \<Rightarrow> string \<Rightarrow> string \<Rightarrow> string option \<Rightarrow> collection \<Rightarrow> bicon \<Rightarrow> bicon option" where
  "bicon_visit g c origin v parent es b =
     (case es of
        [] \<Rightarrow> Some b
      | NodeE i # es \<Rightarrow> bicon_visit g c origin v parent es b
      | EdgeE i s t' # es \<Rightarrow>
         (let t = (if s = v then t' else s) in
          if parent = Some t then bicon_visit g c origin v parent es b
          else
           (let b = push_edge v t (EdgeE i s t') b in
            case map_of (bi_nodes b) t of
              None \<Rightarrow>
                Option.bind (bicon_visit g c origin t (Some v) (bicon_edges g c t) (bicon_open g c origin t (Some v) b))
                  (\<lambda>b. Option.bind (bicon_return g c v t b) (bicon_visit g c origin v parent es))
            | Some m \<Rightarrow> bicon_visit g c origin v parent es (bicon_lower v (bn_id m) b))))"

declare bicon_visit.simps [code]

definition bicon_from :: "collection \<Rightarrow> collection \<Rightarrow> bicon \<Rightarrow> element \<Rightarrow> bicon option" where
  "bicon_from g c b e =
     (let v = ele_id e in
      if is_node e \<and> map_of (bi_nodes b) v = None then
        map_option (\<lambda>b. case map_of (bi_nodes b) v of
             None \<Rightarrow> b
           | Some n \<Rightarrow> b\<lparr>bi_nodes := AList.update v (n\<lparr>bn_cut := (bi_edge_count b > 1)\<rparr>) (bi_nodes b)\<rparr>)
          (bicon_visit g c v v None (bicon_edges g c v) (bicon_open g c v v None (b\<lparr>bi_edge_count := 0\<rparr>)))
      else Some b)"

definition hopcroft_tarjan_biconnected :: "collection \<Rightarrow> collection \<Rightarrow> (collection \<times> collection list) option" where
  "hopcroft_tarjan_biconnected g c =
     map_option (\<lambda>b. (map NodeE (filter (bicon_cut b) (object_keys (bi_nodes b))), bi_components b))
       (fold_option (bicon_from g c)
          \<lparr>bi_nodes = [], bi_next = 0, bi_edge_count = 0, bi_components = [], bi_stack = [], bi_visited = []\<rparr> c)"

end
