(* ===== verification/CyMath.thy ===== *)
theory CyMath
  imports CyUtil
begin

text \<open>
  The geometry of \<open>cytoscape.js\<close>: positions, statistics, bounding boxes, curves, polygons and
  their intersections.  A point object is a pair, and a flat array of coordinates is the list of
  its points.  Where a division by zero would let the source go on with an infinity or \<open>NaN\<close>, the
  definition returns \<open>None\<close>; bounding boxes, which start out infinite, are over \<open>jsnum\<close>.
\<close>

subsection \<open>Positions and statistics\<close>

definition copy_position :: "point \<Rightarrow> point" where
  "copy_position p = (fst p, snd p)"

definition model_to_rendered_position :: "point \<Rightarrow> real \<Rightarrow> point \<Rightarrow> point" where
  "model_to_rendered_position p zoom pan = (fst p * zoom + fst pan, snd p * zoom + snd pan)"

definition rendered_to_model_position :: "point \<Rightarrow> real \<Rightarrow> point \<Rightarrow> point option" where
  "rendered_to_model_position p zoom pan =
     (if zoom = 0 then None else Some ((fst p - fst pan) / zoom, (snd p - snd pan) / zoom))"

definition array2point :: "'a list \<Rightarrow> 'a option \<times> 'a option" where
  "array2point arr = (js_get arr 0, js_get arr 1)"

text \<open>Reading past the end gives \<open>undefined\<close>, which is not finite and so is passed over.\<close>

definition in_range :: "'a list \<Rightarrow> nat \<Rightarrow> nat \<Rightarrow> 'a list" where
  "in_range arr bgn fin = map ((!) arr) (filter (\<lambda>i. i < length arr) [bgn..<fin])"

definition array_min :: "jsnum list \<Rightarrow> nat option \<Rightarrow> nat option \<Rightarrow> jsnum" where
  "array_min arr bgn fin =
     foldl (\<lambda>m v. if is_finite v then js_min v m else m) JInf
       (in_range arr (the_or 0 bgn) (the_or (length arr) fin))"

definition array_max :: "jsnum list \<Rightarrow> nat option \<Rightarrow> nat option \<Rightarrow> jsnum" where
  "array_max arr bgn fin =
     foldl (\<lambda>m v. if is_finite v then js_max v m else m) JNegInf
       (in_range arr (the_or 0 bgn) (the_or (length arr) fin))"

definition array_mean :: "jsnum list \<Rightarrow> nat option \<Rightarrow> nat option \<Rightarrow> jsnum" where
  "array_mean arr bgn fin =
     (let (total, n) = foldl (\<lambda>(total, n). \<lambda>v. case v of JNum x \<Rightarrow> (total + x, n + 1) | _ \<Rightarrow> (total, n)) (0, 0)
            (in_range arr (the_or 0 bgn) (the_or (length arr) fin))
      in if n = (0::nat) then JNaN else JNum (total / real n))"

text \<open>\<open>median\<close>: holes become \<open>-Infinity\<close> and are counted, or everything is spliced out; the array is
  sorted; the result is read at the middle, shifted.  \<open>None\<close> is \<open>undefined\<close> and, in the mean of two
  reads, \<open>NaN\<close>.\<close>

definition median_holes :: "bool \<Rightarrow> jsnum list \<Rightarrow> jsnum list \<times> nat" where
  "median_holes include_holes arr =
     (if include_holes
      then (map (\<lambda>v. if is_finite v then v else JNegInf) arr, length (filter (\<lambda>v. \<not> is_finite v) arr))
      else ([], 0))"

definition js_half :: "jsnum \<Rightarrow> jsnum" where
  "js_half a = (case a of JNum x \<Rightarrow> JNum (x / 2) | _ \<Rightarrow> a)"

definition median :: "jsnum list \<Rightarrow> nat option \<Rightarrow> nat option \<Rightarrow> bool \<Rightarrow> bool \<Rightarrow> jsnum option" where
  "median arr bgn fin sort2 include_holes =
     (let bgn = the_or 0 bgn; fin = the_or (length arr) fin;
          (arr, off) = median_holes include_holes (drop bgn (take fin arr));
          arr = (if sort2 then js_sort js_sub arr else arr);
          len = length arr; mid = len div 2
      in if len mod 2 \<noteq> 0 then js_get arr (mid + 1 + off)
         else if mid + off = 0 then None
         else (case (js_get arr (mid - 1 + off), js_get arr (mid + off)) of
                 (Some a, Some b) \<Rightarrow> Some (js_half (js_add a b))
               | _ \<Rightarrow> None))"

definition deg2rad :: "real \<Rightarrow> real" where
  "deg2rad deg = pi * deg / 180"

definition signum :: "real \<Rightarrow> int" where
  "signum x = (if x > 0 then 1 else if x < 0 then -1 else 0)"

definition sqdist :: "point \<Rightarrow> point \<Rightarrow> real" where
  "sqdist p1 p2 = (let dx = fst p2 - fst p1; dy = snd p2 - snd p1 in dx * dx + dy * dy)"

definition point_dist :: "point \<Rightarrow> point \<Rightarrow> real" where
  "point_dist p1 p2 = sqrt (sqdist p1 p2)"

definition in_place_sum_normalize :: "real list \<Rightarrow> real list option" where
  "in_place_sum_normalize v =
     (let total = foldl (+) 0 v in if v \<noteq> [] \<and> total = 0 then None else Some (map (\<lambda>x. x / total) v))"

definition qbezier_at :: "real \<Rightarrow> real \<Rightarrow> real \<Rightarrow> real \<Rightarrow> real" where
  "qbezier_at p0 p1 p2 t = (1 - t) * (1 - t) * p0 + 2 * (1 - t) * t * p1 + t * t * p2"

definition qbezier_pt_at :: "point \<Rightarrow> point \<Rightarrow> point \<Rightarrow> real \<Rightarrow> point" where
  "qbezier_pt_at p0 p1 p2 t =
     (qbezier_at (fst p0) (fst p1) (fst p2) t, qbezier_at (snd p0) (snd p1) (snd p2) t)"

definition line_at :: "point \<Rightarrow> point \<Rightarrow> real option \<Rightarrow> real option \<Rightarrow> point option" where
  "line_at p0 p1 t d =
     (let vx = fst p1 - fst p0; vy = snd p1 - snd p0; vec_dist = point_dist p0 p1;
          t = the_or 0 t; d = the_or (t * vec_dist) d
      in if vec_dist = 0 then None
         else Some (fst p0 + vx / vec_dist * d, snd p0 + vy / vec_dist * d))"

definition js_bound :: "real \<Rightarrow> real \<Rightarrow> real \<Rightarrow> real" where
  "js_bound lo val hi = max lo (min hi val)"

subsection \<open>Bounding boxes\<close>

record bbox =
  bb_x1 :: jsnum
  bb_y1 :: jsnum
  bb_x2 :: jsnum
  bb_y2 :: jsnum
  bb_w :: jsnum
  bb_h :: jsnum

text \<open>The fields a caller gives; \<open>None\<close> is \<open>null\<close> or \<open>undefined\<close>.\<close>

record bbox_spec =
  sp_x1 :: "jsnum option"
  sp_y1 :: "jsnum option"
  sp_x2 :: "jsnum option"
  sp_y2 :: "jsnum option"
  sp_w :: "jsnum option"
  sp_h :: "jsnum option"

definition empty_bbox :: bbox where
  "empty_bbox = \<lparr>bb_x1 = JInf, bb_y1 = JInf, bb_x2 = JNegInf, bb_y2 = JNegInf, bb_w = JNum 0, bb_h = JNum 0\<rparr>"

definition make_bounding_box :: "bbox_spec option \<Rightarrow> bbox option" where
  "make_bounding_box bb =
     (case bb of
        None \<Rightarrow> Some empty_bbox
      | Some s \<Rightarrow>
         (case (sp_x1 s, sp_y1 s) of
            (Some a1, Some b1) \<Rightarrow>
              (case (sp_x2 s, sp_y2 s) of
                 (Some a2, Some b2) \<Rightarrow>
                   if js_le a1 a2 \<and> js_le b1 b2
                   then Some \<lparr>bb_x1 = a1, bb_y1 = b1, bb_x2 = a2, bb_y2 = b2, bb_w = js_sub a2 a1, bb_h = js_sub b2 b1\<rparr>
                   else None
               | _ \<Rightarrow> None)
          | _ \<Rightarrow> None))"

text \<open>The second form, by width and height, is tried when the first does not apply.\<close>

definition make_bounding_box_by_size :: "bbox_spec \<Rightarrow> bbox option" where
  "make_bounding_box_by_size s =
     (case (sp_x1 s, sp_y1 s, sp_w s, sp_h s) of
        (Some a1, Some b1, Some wd, Some ht) \<Rightarrow>
          if js_le (JNum 0) wd \<and> js_le (JNum 0) ht
          then Some \<lparr>bb_x1 = a1, bb_y1 = b1, bb_x2 = js_add a1 wd, bb_y2 = js_add b1 ht, bb_w = wd, bb_h = ht\<rparr>
          else None
      | _ \<Rightarrow> None)"

definition new_bounding_box :: "bbox_spec option \<Rightarrow> bbox option" where
  "new_bounding_box bb =
     (case make_bounding_box bb of
        Some b \<Rightarrow> Some b
      | None \<Rightarrow> (case bb of None \<Rightarrow> None | Some s \<Rightarrow> make_bounding_box_by_size s))"

definition copy_bounding_box :: "bbox \<Rightarrow> bbox" where
  "copy_bounding_box bb = \<lparr>bb_x1 = bb_x1 bb, bb_y1 = bb_y1 bb, bb_x2 = bb_x2 bb, bb_y2 = bb_y2 bb, bb_w = bb_w bb, bb_h = bb_h bb\<rparr>"

definition clear_bounding_box :: "bbox \<Rightarrow> bbox" where
  "clear_bounding_box bb = bb\<lparr>bb_x1 := JInf, bb_y1 := JInf, bb_x2 := JNegInf, bb_y2 := JNegInf, bb_w := JNum 0, bb_h := JNum 0\<rparr>"

definition with_size :: "bbox \<Rightarrow> bbox" where
  "with_size bb = bb\<lparr>bb_w := js_sub (bb_x2 bb) (bb_x1 bb), bb_h := js_sub (bb_y2 bb) (bb_y1 bb)\<rparr>"

definition update_bounding_box :: "bbox \<Rightarrow> bbox \<Rightarrow> bbox" where
  "update_bounding_box bb1 bb2 =
     with_size (bb1\<lparr>bb_x1 := js_min (bb_x1 bb1) (bb_x1 bb2), bb_x2 := js_max (bb_x2 bb1) (bb_x2 bb2),
                    bb_y1 := js_min (bb_y1 bb1) (bb_y1 bb2), bb_y2 := js_max (bb_y2 bb1) (bb_y2 bb2)\<rparr>)"

definition expand_bounding_box_by_point :: "bbox \<Rightarrow> real \<Rightarrow> real \<Rightarrow> bbox" where
  "expand_bounding_box_by_point bb x y =
     with_size (bb\<lparr>bb_x1 := js_min (bb_x1 bb) (JNum x), bb_x2 := js_max (bb_x2 bb) (JNum x),
                   bb_y1 := js_min (bb_y1 bb) (JNum y), bb_y2 := js_max (bb_y2 bb) (JNum y)\<rparr>)"

definition expand_bounding_box :: "bbox \<Rightarrow> real option \<Rightarrow> bbox" where
  "expand_bounding_box bb padding =
     (let p = JNum (the_or 0 padding)
      in with_size (bb\<lparr>bb_x1 := js_sub (bb_x1 bb) p, bb_x2 := js_add (bb_x2 bb) p,
                       bb_y1 := js_sub (bb_y1 bb) p, bb_y2 := js_add (bb_y2 bb) p\<rparr>))"

text \<open>Any other number of paddings leaves the sides \<open>undefined\<close>, which makes every field \<open>NaN\<close>.\<close>

definition side_paddings :: "real list \<Rightarrow> jsnum \<times> jsnum \<times> jsnum \<times> jsnum" where
  "side_paddings padding =
     (case padding of
        [p] \<Rightarrow> (JNum p, JNum p, JNum p, JNum p)
      | [p, q] \<Rightarrow> (JNum p, JNum q, JNum p, JNum q)
      | [p, q, r, s] \<Rightarrow> (JNum p, JNum q, JNum r, JNum s)
      | _ \<Rightarrow> (JNaN, JNaN, JNaN, JNaN))"

definition expand_bounding_box_sides :: "bbox \<Rightarrow> real list option \<Rightarrow> bbox" where
  "expand_bounding_box_sides bb padding =
     (let (top, right, bottom, left) = side_paddings (the_or [0] padding)
      in with_size (bb\<lparr>bb_x1 := js_sub (bb_x1 bb) left, bb_x2 := js_add (bb_x2 bb) right,
                       bb_y1 := js_sub (bb_y1 bb) top, bb_y2 := js_add (bb_y2 bb) bottom\<rparr>))"

definition assign_bounding_box :: "bbox \<Rightarrow> bbox \<Rightarrow> bbox" where
  "assign_bounding_box bb1 bb2 =
     with_size (bb1\<lparr>bb_x1 := bb_x1 bb2, bb_y1 := bb_y1 bb2, bb_x2 := bb_x2 bb2, bb_y2 := bb_y2 bb2\<rparr>)"

definition bounding_boxes_intersect :: "bbox \<Rightarrow> bbox \<Rightarrow> bool" where
  "bounding_boxes_intersect bb1 bb2 =
     (if js_lt (bb_x2 bb2) (bb_x1 bb1) then False
      else if js_lt (bb_x2 bb1) (bb_x1 bb2) then False
      else if js_lt (bb_x2 bb1) (bb_x1 bb2) then False
      else if js_lt (bb_x2 bb2) (bb_x1 bb1) then False
      else if js_lt (bb_y2 bb1) (bb_y1 bb2) then False
      else if js_lt (bb_y2 bb2) (bb_y1 bb1) then False
      else if js_lt (bb_y2 bb2) (bb_y1 bb1) then False
      else if js_lt (bb_y2 bb1) (bb_y1 bb2) then False
      else True)"

definition in_bounding_box :: "bbox \<Rightarrow> jsnum \<Rightarrow> jsnum \<Rightarrow> bool" where
  "in_bounding_box bb x y =
     (js_le (bb_x1 bb) x \<and> js_le x (bb_x2 bb) \<and> js_le (bb_y1 bb) y \<and> js_le y (bb_y2 bb))"

definition point_in_bounding_box :: "bbox \<Rightarrow> point \<Rightarrow> bool" where
  "point_in_bounding_box bb pt = in_bounding_box bb (JNum (fst pt)) (JNum (snd pt))"

definition bounding_box_in_bounding_box :: "bbox \<Rightarrow> bbox \<Rightarrow> bool" where
  "bounding_box_in_bounding_box bb1 bb2 =
     (in_bounding_box bb1 (bb_x1 bb2) (bb_y1 bb2) \<and> in_bounding_box bb1 (bb_x2 bb2) (bb_y2 bb2))"

subsection \<open>Polygons pushed outward\<close>

definition pt_add :: "point \<Rightarrow> point \<Rightarrow> point" where
  "pt_add a b = (fst a + fst b, snd a + snd b)"

definition pt_sub :: "point \<Rightarrow> point \<Rightarrow> point" where
  "pt_sub a b = (fst a - fst b, snd a - snd b)"

definition pt_scale :: "point \<Rightarrow> real \<Rightarrow> point" where
  "pt_scale v s = (fst v * s, snd v * s)"

definition pt_cross :: "point \<Rightarrow> point \<Rightarrow> real" where
  "pt_cross u v = fst u * snd v - snd u * fst v"

definition hypot :: "real \<Rightarrow> real \<Rightarrow> real" where
  "hypot x y = sqrt (x * x + y * y)"

definition pt_normalize :: "point \<Rightarrow> point" where
  "pt_normalize v =
     (let len = hypot (fst v) (snd v) in if len = 0 then (0, 0) else (fst v / len, snd v / len))"

definition next_point :: "'a list \<Rightarrow> nat \<Rightarrow> 'a" where
  "next_point pts i = pts ! ((i + 1) mod length pts)"

definition signed_area :: "point list \<Rightarrow> real" where
  "signed_area pts =
     foldl (\<lambda>A i. let p = pts ! i; q = next_point pts i in A + (fst p * snd q - fst q * snd p))
       0 [0..<length pts] / 2"

definition intersect_lines :: "point \<Rightarrow> point \<Rightarrow> point \<Rightarrow> point \<Rightarrow> point" where
  "intersect_lines p1 p2 p3 p4 =
     (let r = pt_sub p2 p1; s = pt_sub p4 p3; denom = pt_cross r s
      in if \<bar>denom\<bar> < 1 / 10 ^ 9 then pt_add p1 (pt_scale r (1 / 2))
         else (let t = pt_cross (pt_sub p3 p1) s / denom in pt_add p1 (pt_scale r t)))"

definition edge_normal :: "point list \<Rightarrow> nat \<Rightarrow> point" where
  "edge_normal pts i =
     (let edge = pt_sub (next_point pts i) (pts ! i) in pt_normalize (snd edge, - fst edge))"

definition offset_edge :: "point list \<Rightarrow> real \<Rightarrow> nat \<Rightarrow> point \<times> point" where
  "offset_edge pts d i =
     (let nrm = edge_normal pts i
      in (pt_add (pts ! i) (pt_scale nrm d), pt_add (next_point pts i) (pt_scale nrm d)))"

definition inflate_polygon :: "point list \<Rightarrow> real \<Rightarrow> string + point list" where
  "inflate_polygon polygon d =
     (if length polygon < 3 then Inl ''Need at least 3 vertices''
      else
       (let pts = (if signed_area polygon < 0 then rev polygon else polygon); n = length pts;
            edges = map (offset_edge pts d) [0..<n]
        in Inr (map (\<lambda>i. let prev = edges ! ((i + n - 1) mod n); curr = edges ! i
                         in intersect_lines (fst prev) (snd prev) (fst curr) (snd curr)) [0..<n])))"

text \<open>The first point is read even when there is none; its coordinates are then \<open>NaN\<close> (\<open>None\<close>).\<close>

definition transform_points :: "point list \<Rightarrow> real \<Rightarrow> real \<Rightarrow> real \<Rightarrow> real \<Rightarrow> point list option" where
  "transform_points points centerX centerY w h =
     (let halfW = w / 2; halfH = h / 2
      in if points = [] then None
         else Some (map (\<lambda>p. (centerX + halfW * fst p, centerY + halfH * snd p)) points))"

definition miter_box :: "point list \<Rightarrow> real \<Rightarrow> real \<Rightarrow> real \<Rightarrow> real \<Rightarrow> real \<Rightarrow> string + bbox" where
  "miter_box pts centerX centerY w h stroke_width =
     (case inflate_polygon (the_or [] (transform_points pts centerX centerY w h)) stroke_width of
        Inl e \<Rightarrow> Inl e
      | Inr offset_points \<Rightarrow>
          Inr (foldl (\<lambda>bb pt. expand_bounding_box_by_point bb (fst pt) (snd pt)) empty_bbox offset_points))"

subsection \<open>Lines, circles, ellipses\<close>

definition in_line_vicinity :: "real \<Rightarrow> real \<Rightarrow> real \<Rightarrow> real \<Rightarrow> real \<Rightarrow> real \<Rightarrow> real \<Rightarrow> bool" where
  "in_line_vicinity x y lx1 ly1 lx2 ly2 tolerance =
     (let t = tolerance; a1 = min lx1 lx2; a2 = max lx1 lx2; b1 = min ly1 ly2; b2 = max ly1 ly2
      in a1 - t \<le> x \<and> x \<le> a2 + t \<and> b1 - t \<le> y \<and> y \<le> b2 + t)"

definition in_bezier_vicinity :: "point \<Rightarrow> point \<Rightarrow> point \<Rightarrow> point \<Rightarrow> real \<Rightarrow> bool" where
  "in_bezier_vicinity p p1 p2 p3 tolerance =
     (let a1 = min (min (fst p1) (fst p3)) (fst p2) - tolerance;
          a2 = max (max (fst p1) (fst p3)) (fst p2) + tolerance;
          b1 = min (min (snd p1) (snd p3)) (snd p2) - tolerance;
          b2 = max (max (snd p1) (snd p3)) (snd p2) + tolerance
      in if fst p < a1 \<or> fst p > a2 \<or> snd p < b1 \<or> snd p > b2 then False else True)"

definition solve_quadratic :: "real \<Rightarrow> real \<Rightarrow> real \<Rightarrow> real \<Rightarrow> real list option" where
  "solve_quadratic a b c val =
     (let c = c - val; r = b * b - 4 * a * c
      in if r < 0 then Some []
         else if a = 0 then None
         else (let sqrt_r = sqrt r; denom = 2 * a in Some [(- b + sqrt_r) / denom, (- b - sqrt_r) / denom]))"

definition cube_root :: "real \<Rightarrow> real" where
  "cube_root x = (if x < 0 then - ((- x) powr (1 / 3)) else x powr (1 / 3))"

text \<open>The six numbers written to \<open>result\<close>: the real and imaginary parts of three roots.\<close>

definition solve_cubic :: "real \<Rightarrow> real \<Rightarrow> real \<Rightarrow> real \<Rightarrow> real list" where
  "solve_cubic a b c d =
     (let a = (if a = 0 then 1 / 100000 else a); b = b / a; c = c / a; d = d / a;
          q = (3 * c - b * b) / 9;
          r = (- (27 * d) + b * (9 * c - 2 * (b * b))) / 54;
          discriminant = q * q * q + r * r; term1 = b / 3
      in if discriminant > 0 then
           (let s = cube_root (r + sqrt discriminant); t = cube_root (r - sqrt discriminant);
                re = - (term1 + (s + t) / 2); im = sqrt 3 * (- t + s) / 2
            in [- term1 + s + t, 0, re, im, re, - im])
         else if discriminant = 0 then
           (let r13 = cube_root r; re = - (r13 + term1) in [- term1 + 2 * r13, 0, re, 0, re, 0])
         else
           (let q = - q; dum1 = arccos (r / sqrt (q * q * q)); r13 = 2 * sqrt q
            in [- term1 + r13 * cos (dum1 / 3), 0, - term1 + r13 * cos ((dum1 + 2 * pi) / 3), 0,
                - term1 + r13 * cos ((dum1 + 4 * pi) / 3), 0]))"

definition bezier_square_coefficients ::
  "point \<Rightarrow> point \<Rightarrow> point \<Rightarrow> point \<Rightarrow> real \<times> real \<times> real \<times> real" where
  "bezier_square_coefficients p p1 p2 p3 =
     (let (x, y) = p; (u1, v1) = p1; (u2, v2) = p2; (u3, v3) = p3
      in (1 * u1 * u1 - 4 * u1 * u2 + 2 * u1 * u3 + 4 * u2 * u2 - 4 * u2 * u3 + u3 * u3
            + v1 * v1 - 4 * v1 * v2 + 2 * v1 * v3 + 4 * v2 * v2 - 4 * v2 * v3 + v3 * v3,
          1 * 9 * u1 * u2 - 3 * u1 * u1 - 3 * u1 * u3 - 6 * u2 * u2 + 3 * u2 * u3
            + 9 * v1 * v2 - 3 * v1 * v1 - 3 * v1 * v3 - 6 * v2 * v2 + 3 * v2 * v3,
          1 * 3 * u1 * u1 - 6 * u1 * u2 + u1 * u3 - u1 * x + 2 * u2 * u2 + 2 * u2 * x - u3 * x
            + 3 * v1 * v1 - 6 * v1 * v2 + v1 * v3 - v1 * y + 2 * v2 * v2 + 2 * v2 * y - v3 * y,
          1 * u1 * u2 - u1 * u1 + u1 * x - u2 * x + v1 * v2 - v1 * v1 + v1 * y - v2 * y))"

definition sqdist_to_quadratic_bezier :: "point \<Rightarrow> point \<Rightarrow> point \<Rightarrow> point \<Rightarrow> real" where
  "sqdist_to_quadratic_bezier p p1 p2 p3 =
     (let (a, b, c, d) = bezier_square_coefficients p p1 p2 p3; roots = solve_cubic a b c d;
          params = map (\<lambda>i. roots ! i)
            (filter (\<lambda>i. \<bar>roots ! (i + 1)\<bar> < 1 / 10 ^ 7 \<and> 0 \<le> roots ! i \<and> roots ! i \<le> 1) [0, 2, 4]) @ [1, 0];
          sq = (\<lambda>t. let cx = (1 - t) ^ 2 * fst p1 + 2 * (1 - t) * t * fst p2 + t * t * fst p3;
                       cy = (1 - t) ^ 2 * snd p1 + 2 * (1 - t) * t * snd p2 + t * t * snd p3
                   in (cx - fst p) ^ 2 + (cy - snd p) ^ 2)
      in foldl (\<lambda>m t. if m \<ge> 0 then (if sq t < m then sq t else m) else sq t) (- 1) params)"

definition sqdist_to_finite_line :: "real \<Rightarrow> real \<Rightarrow> real \<Rightarrow> real \<Rightarrow> real \<Rightarrow> real \<Rightarrow> real option" where
  "sqdist_to_finite_line x y x1 y1 x2 y2 =
     (let ox = x - x1; oy = y - y1; lx = x2 - x1; ly = y2 - y1;
          line_sq = lx * lx + ly * ly; hyp_sq = ox * ox + oy * oy; dot_product = ox * lx + oy * ly
      in if line_sq = 0 then None
         else (let adj_sq = dot_product * dot_product / line_sq
               in if dot_product < 0 then Some hyp_sq
                  else if adj_sq > line_sq then Some ((x - x2) * (x - x2) + (y - y2) * (y - y2))
                  else Some (hyp_sq - adj_sq)))"

definition mid_of_three :: "real \<Rightarrow> real \<Rightarrow> real \<Rightarrow> real" where
  "mid_of_three a b c =
     (if b \<le> a \<and> a \<le> c \<or> c \<le> a \<and> a \<le> b then a
      else if a \<le> b \<and> b \<le> c \<or> c \<le> b \<and> b \<le> a then b
      else c)"

definition finite_lines_intersect ::
  "real \<Rightarrow> real \<Rightarrow> real \<Rightarrow> real \<Rightarrow> real \<Rightarrow> real \<Rightarrow> real \<Rightarrow> real \<Rightarrow> bool \<Rightarrow> point option" where
  "finite_lines_intersect x1 y1 x2 y2 x3 y3 x4 y4 infinite_lines =
     (let dx13 = x1 - x3; dx21 = x2 - x1; dx43 = x4 - x3;
          dy13 = y1 - y3; dy21 = y2 - y1; dy43 = y4 - y3;
          ua_t = dx43 * dy13 - dy43 * dx13; ub_t = dx21 * dy13 - dy21 * dx13;
          u_b = dy43 * dx21 - dx43 * dy21
      in if u_b \<noteq> 0 then
           (let ua = ua_t / u_b; ub = ub_t / u_b; threshold = 1 / 1000;
                lo = 0 - threshold; hi = 1 + threshold
            in if lo \<le> ua \<and> ua \<le> hi \<and> lo \<le> ub \<and> ub \<le> hi then Some (x1 + ua * dx21, y1 + ua * dy21)
               else if \<not> infinite_lines then None
               else Some (x1 + ua * dx21, y1 + ua * dy21))
         else if ua_t = 0 \<or> ub_t = 0 then
           (if mid_of_three x1 x2 x4 = x4 then Some (x4, y4)
            else if mid_of_three x1 x2 x3 = x3 then Some (x3, y3)
            else if mid_of_three x3 x4 x2 = x2 then Some (x2, y2)
            else None)
         else None)"

definition intersect_line_ellipse :: "point \<Rightarrow> real \<Rightarrow> real \<Rightarrow> real \<Rightarrow> real \<Rightarrow> point option option" where
  "intersect_line_ellipse p centerX centerY wradius hradius =
     (if wradius = 0 \<or> hradius = 0 then None
      else
       (let disp_x = (centerX - fst p) / wradius; disp_y = (centerY - snd p) / hradius;
            len = sqrt (disp_x * disp_x + disp_y * disp_y); new_length = len - 1
        in if new_length < 0 then Some None
           else (let prop' = new_length / len
                 in Some (Some ((centerX - fst p) * prop' + fst p, (centerY - snd p) * prop' + snd p)))))"

definition check_in_ellipse :: "real \<Rightarrow> real \<Rightarrow> real \<Rightarrow> real \<Rightarrow> real \<Rightarrow> real \<Rightarrow> real \<Rightarrow> bool option" where
  "check_in_ellipse x y w h centerX centerY padding =
     (if w / 2 + padding = 0 \<or> h / 2 + padding = 0 then None
      else (let x = (x - centerX) / (w / 2 + padding); y = (y - centerY) / (h / 2 + padding)
            in Some (x * x + y * y \<le> 1)))"

text \<open>The flat result holds no, one or two points.\<close>

definition intersect_line_circle ::
  "real \<Rightarrow> real \<Rightarrow> real \<Rightarrow> real \<Rightarrow> real \<Rightarrow> real \<Rightarrow> real \<Rightarrow> point list option" where
  "intersect_line_circle x1 y1 x2 y2 centerX centerY radius =
     (let dx = x2 - x1; dy = y2 - y1; fx = x1 - centerX; fy = y1 - centerY;
          a = dx * dx + dy * dy; b = 2 * (fx * dx + fy * dy); c = fx * fx + fy * fy - radius * radius;
          discriminant = b * b - 4 * a * c
      in if discriminant < 0 then Some []
         else if a = 0 then None
         else
          (let t1 = (- b + sqrt discriminant) / (2 * a); t2 = (- b - sqrt discriminant) / (2 * a);
               params = filter (\<lambda>t. 0 \<le> t \<and> t \<le> 1) [min t1 t2, max t1 t2];
               pos = (\<lambda>t. (t * dx + x1, t * dy + y1))
           in Some (case params of
                      [s, t] \<Rightarrow> if s = t then [pos s] else [pos s, pos t]
                    | _ \<Rightarrow> map pos params)))"

subsection \<open>Points and polygons\<close>

definition crossing_above :: "real \<Rightarrow> real \<Rightarrow> point \<Rightarrow> point \<Rightarrow> bool" where
  "crossing_above x y p q =
     (let (x1, y1) = p; (x2, y2) = q
      in if x1 = x \<and> x2 = x then False
         else if x1 \<ge> x \<and> x \<ge> x2 \<or> x1 \<le> x \<and> x \<le> x2
         then (x - x1) / (x2 - x1) * (y2 - y1) + y1 > y
         else False)"

definition point_inside_polygon_points :: "real \<Rightarrow> real \<Rightarrow> point list \<Rightarrow> bool" where
  "point_inside_polygon_points x y points =
     (length (filter (\<lambda>i. crossing_above x y (points ! i) (next_point points i)) [0..<length points]) mod 2 \<noteq> 0)"

text \<open>A line set is a list of lines, each a pair of points.\<close>

definition join_lines :: "(point \<times> point) list \<Rightarrow> point option list" where
  "join_lines lines =
     map (\<lambda>i. let (p, q) = lines ! i; (r, s) = next_point lines i
              in finite_lines_intersect (fst p) (snd p) (fst q) (snd q) (fst r) (snd r) (fst s) (snd s) True)
       [0..<length lines]"

definition expand_line :: "point \<Rightarrow> point \<Rightarrow> real \<Rightarrow> (point \<times> point) option" where
  "expand_line p q pad =
     (let ox = snd q - snd p; oy = - (fst q - fst p); len = sqrt (ox * ox + oy * oy)
      in if len = 0 then None
         else (let nx = ox / len; ny = oy / len
               in Some ((fst p + nx * pad, snd p + ny * pad), (fst q + nx * pad, snd q + ny * pad))))"

definition expand_polygon :: "point list \<Rightarrow> real \<Rightarrow> (point \<times> point) option list" where
  "expand_polygon points pad =
     map (\<lambda>i. expand_line (points ! i) (next_point points i) pad) [0..<length points]"

text \<open>A padded outline exists when no side has length zero and no two neighbours are parallel.\<close>

definition sequence_options :: "'a option list \<Rightarrow> 'a list option" where
  "sequence_options xs = (if None \<in> set xs then None else Some (map the xs))"

definition padded_polygon :: "point list \<Rightarrow> real \<Rightarrow> point list option" where
  "padded_polygon points padding =
     (if padding > 0
      then Option.bind (sequence_options (expand_polygon points (- padding)))
             (\<lambda>lines. sequence_options (join_lines lines))
      else Some points)"

definition polygon_angle :: "point + real \<Rightarrow> real option" where
  "polygon_angle direction =
     (case direction of
        Inl (dx, dy) \<Rightarrow>
          if dx = 0 \<and> dy = 0 then None
          else if dx = 0 then Some (- (if dy > 0 then pi / 2 else - (pi / 2)) - pi / 2)
          else (let angle = arctan (dy / dx) in Some (if dx < 0 then angle + pi / 2 else - angle - pi / 2))
      | Inr angle \<Rightarrow> Some angle)"

definition point_inside_polygon ::
  "real \<Rightarrow> real \<Rightarrow> point list \<Rightarrow> real \<Rightarrow> real \<Rightarrow> real \<Rightarrow> real \<Rightarrow> point + real \<Rightarrow> real \<Rightarrow> bool option" where
  "point_inside_polygon x y base_points centerX centerY w h direction padding =
     Option.bind (polygon_angle direction) (\<lambda>angle.
       (let c = cos (- angle); s = sin (- angle);
            transformed = map (\<lambda>(px, py). (w / 2 * (px * c - py * s) + centerX,
                                           h / 2 * (py * c + px * s) + centerY)) base_points
        in map_option (point_inside_polygon_points x y) (padded_polygon transformed padding)))"

record corner =
  co_startX :: real
  co_startY :: real
  co_stopX :: real
  co_stopY :: real
  co_cx :: real
  co_cy :: real
  co_radius :: real

text \<open>One corner for each base point.\<close>

definition point_inside_round_polygon :: "real \<Rightarrow> real \<Rightarrow> corner list \<Rightarrow> bool" where
  "point_inside_round_polygon x y corners =
     (if list_ex (\<lambda>c. (co_cx c - x) ^ 2 + (co_cy c - y) ^ 2 \<le> co_radius c ^ 2) corners then True
      else point_inside_polygon_points x y
             (concat (map (\<lambda>c. [(co_startX c, co_startY c), (co_stopX c, co_stopY c)]) corners)))"

definition polygon_intersect_line ::
  "real \<Rightarrow> real \<Rightarrow> point list \<Rightarrow> real \<Rightarrow> real \<Rightarrow> (real \<times> real) option \<Rightarrow> real \<Rightarrow> point list option" where
  "polygon_intersect_line x y base_points centerX centerY dims padding =
     Option.bind
       (case dims of
          None \<Rightarrow> Some base_points
        | Some (w, h) \<Rightarrow>
            padded_polygon (map (\<lambda>(px, py). (px * w + centerX, py * h + centerY)) base_points) padding)
       (\<lambda>points. Some (List.map_filter (\<lambda>i.
          let (p, q) = (points ! i, next_point points i)
          in finite_lines_intersect x y centerX centerY (fst p) (snd p) (fst q) (snd q) False) [0..<length points]))"

text \<open>The circle hits of every corner, then the straight sides; of more than one the nearest point
  is kept, the last of several.  The side before the first corner is stored last.\<close>

definition corner_sides :: "corner list \<Rightarrow> (point \<times> point) list" where
  "corner_sides corners =
     map (\<lambda>i. let c = corners ! i; n = next_point corners i
              in ((co_stopX c, co_stopY c), (co_startX n, co_startY n))) [0..<length corners]"

definition nearest_point :: "real \<Rightarrow> real \<Rightarrow> point list \<Rightarrow> point" where
  "nearest_point x y ps =
     (let sq = (\<lambda>p. (fst p - x) ^ 2 + (snd p - y) ^ 2)
      in foldl (\<lambda>best p. if sq p \<le> sq best then p else best) (hd ps) (tl ps))"

definition round_polygon_intersect_line ::
  "real \<Rightarrow> real \<Rightarrow> real \<Rightarrow> real \<Rightarrow> corner list \<Rightarrow> point list option" where
  "round_polygon_intersect_line x y centerX centerY corners =
     Option.bind (sequence_options (map (\<lambda>c. intersect_line_circle x y centerX centerY (co_cx c) (co_cy c) (co_radius c)) corners))
       (\<lambda>hits.
         (let arcs = concat (map (\<lambda>ps. case ps of [] \<Rightarrow> [] | p # _ \<Rightarrow> [p]) hits);
              sides = List.map_filter (\<lambda>(p, q). finite_lines_intersect x y centerX centerY
                        (fst p) (snd p) (fst q) (snd q) False) (corner_sides corners);
              all' = arcs @ sides
          in Some (if length all' > 1 then [nearest_point x y all'] else all')))"

definition shorten_intersection :: "point \<Rightarrow> point \<Rightarrow> real \<Rightarrow> point option" where
  "shorten_intersection intersection offset amount =
     (let dx = fst intersection - fst offset; dy = snd intersection - snd offset;
          len = sqrt (dx * dx + dy * dy)
      in if len = 0 then None
         else (let ratio = (len - amount) / len; ratio = (if ratio < 0 then 1 / 100000 else ratio)
               in Some (fst offset + ratio * dx, snd offset + ratio * dy)))"

subsection \<open>Regular polygons and rounded rectangles\<close>

definition get_round_rectangle_radius :: "real \<Rightarrow> real \<Rightarrow> real" where
  "get_round_rectangle_radius w h = min (min (w / 4) (h / 4)) 8"

definition get_round_polygon_radius :: "real \<Rightarrow> real \<Rightarrow> real" where
  "get_round_polygon_radius w h = min (min (w / 10) (h / 10)) 8"

definition get_cut_rectangle_corner_length :: real where
  "get_cut_rectangle_corner_length = 8"

definition bezier_pts_to_quad_coeff :: "real \<Rightarrow> real \<Rightarrow> real \<Rightarrow> real \<times> real \<times> real" where
  "bezier_pts_to_quad_coeff p0 p1 p2 = (p0 - 2 * p1 + p2, 2 * (p1 - p0), p0)"

record barrel =
  ba_heightOffset :: real
  ba_widthOffset :: real
  ba_ctrlPtOffsetPct :: real

definition get_barrel_curve_constants :: "real \<Rightarrow> real \<Rightarrow> barrel" where
  "get_barrel_curve_constants w h =
     \<lparr>ba_heightOffset = min 15 (5 / 100 * h), ba_widthOffset = min 100 (25 / 100 * w),
      ba_ctrlPtOffsetPct = 5 / 100\<rparr>"

definition generate_unit_ngon_points :: "nat \<Rightarrow> real \<Rightarrow> point list" where
  "generate_unit_ngon_points sides rotation =
     (let increment = 1 / real sides * 2 * pi;
          start = (if sides mod 2 = 0 then pi / 2 + increment / 2 else pi / 2) + rotation
      in map (\<lambda>i. let a = real i * increment + start in (cos a, sin (- a))) [0..<sides])"

definition coordinate_range :: "jsnum \<times> jsnum \<Rightarrow> real list \<Rightarrow> jsnum \<times> jsnum" where
  "coordinate_range rng cs = foldl (\<lambda>(lo, hi). \<lambda>c. (js_min lo (JNum c), js_max hi (JNum c))) rng cs"

text \<open>Both axes are scaled to a width of two; the second pass goes on from the extremes of the first.
  \<open>None\<close>: no points, or points on a line along an axis.\<close>

definition fit_polygon_to_square :: "point list \<Rightarrow> point list option" where
  "fit_polygon_to_square points =
     (let rx = coordinate_range (JInf, JNegInf) (map fst points);
          ry = coordinate_range (JInf, JNegInf) (map snd points)
      in case (js_sub (snd rx) (fst rx), js_sub (snd ry) (fst ry)) of
           (JNum wx, JNum wy) \<Rightarrow>
             if wx = 0 \<or> wy = 0 then None
             else
              (let sx = 2 / wx; sy = 2 / wy; scaled = map (\<lambda>(px, py). (px * sx, py * sy)) points;
                   min_y = fst (coordinate_range ry (map snd scaled))
               in Some (case min_y of
                          JNum m \<Rightarrow> if m < -1 then map (\<lambda>(px, py). (px, py + (-1 - m))) scaled else scaled
                        | _ \<Rightarrow> scaled))
         | _ \<Rightarrow> None)"

definition generate_unit_ngon_points_fit_to_square :: "nat \<Rightarrow> real \<Rightarrow> point list option" where
  "generate_unit_ngon_points_fit_to_square sides rotation =
     fit_polygon_to_square (generate_unit_ngon_points sides rotation)"

text \<open>
  The line from a point to the centre of a rounded rectangle: the four straight sides in turn, then
  the four corners.  A corner counts when the first hit of its circle lies on its outer side.
  \<open>radius\<close> is \<open>None\<close> for \<open>auto\<close>.
\<close>

definition corner_hit :: "point \<Rightarrow> point \<Rightarrow> real \<Rightarrow> point \<Rightarrow> (point \<Rightarrow> bool) \<Rightarrow> point option option" where
  "corner_hit p node r centre outer =
     (case intersect_line_circle (fst p) (snd p) (fst node) (snd node) (fst centre) (snd centre) r of
        None \<Rightarrow> None
      | Some hits \<Rightarrow> Some (case hits of [] \<Rightarrow> None | q # _ \<Rightarrow> if outer q then Some q else None))"

definition first_side ::
  "point \<Rightarrow> point \<Rightarrow> (bool \<times> point \<times> point) list \<Rightarrow> point option" where
  "first_side p node sides =
     (case List.map_filter (\<lambda>(on, s, e).
        if on then finite_lines_intersect (fst p) (snd p) (fst node) (snd node) (fst s) (snd s) (fst e) (snd e) False
        else None) sides of
        [] \<Rightarrow> None | q # _ \<Rightarrow> Some q)"

fun first_corner :: "(unit \<Rightarrow> point option option) list \<Rightarrow> point option option" where
  "first_corner [] = Some None"
| "first_corner (c # cs) =
     (case c () of None \<Rightarrow> None | Some (Some q) \<Rightarrow> Some (Some q) | Some None \<Rightarrow> first_corner cs)"

definition round_rectangle_intersect_line ::
  "point \<Rightarrow> point \<Rightarrow> real \<Rightarrow> real \<Rightarrow> real \<Rightarrow> real option \<Rightarrow> point option option" where
  "round_rectangle_intersect_line p node w h padding radius =
     (let halfW = w / 2; halfH = h / 2; (nx, ny) = node;
          r = min (min (the_or (get_round_rectangle_radius w h) radius) halfW) halfH;
          do_width = (r \<noteq> halfW); do_height = (r \<noteq> halfH);
          left = nx - halfW - padding; right = nx + halfW + padding;
          top = ny - halfH - padding; bottom = ny + halfH + padding;
          inner_left = nx - halfW + r; inner_right = nx + halfW - r;
          inner_top = ny - halfH + r; inner_bottom = ny + halfH - r
      in case first_side p node
           [(do_width, (inner_left - padding, top), (inner_right + padding, top)),
            (do_height, (right, inner_top - padding), (right, inner_bottom + padding)),
            (do_width, (inner_left - padding, bottom), (inner_right + padding, bottom)),
            (do_height, (left, inner_top - padding), (left, inner_bottom + padding))] of
           Some q \<Rightarrow> Some (Some q)
         | None \<Rightarrow> first_corner
            [\<lambda>_. corner_hit p node (r + padding) (inner_left, inner_top)
                   (\<lambda>q. fst q \<le> inner_left \<and> snd q \<le> inner_top),
             \<lambda>_. corner_hit p node (r + padding) (inner_right, inner_top)
                   (\<lambda>q. fst q \<ge> inner_right \<and> snd q \<le> inner_top),
             \<lambda>_. corner_hit p node (r + padding) (inner_right, inner_bottom)
                   (\<lambda>q. fst q \<ge> inner_right \<and> snd q \<ge> inner_bottom),
             \<lambda>_. corner_hit p node (r + padding) (inner_left, inner_bottom)
                   (\<lambda>q. fst q \<le> inner_left \<and> snd q \<ge> inner_bottom)])"

subsection \<open>Separating axes\<close>

text \<open>The axis of a side of length zero is \<open>NaN\<close> (\<open>None\<close>); nothing is ever apart along it.\<close>

definition sat_axis :: "point \<Rightarrow> point \<Rightarrow> point option" where
  "sat_axis p q =
     (let ex = fst q - fst p; ey = snd q - snd p; nx = - ey; ny = ex; len = sqrt (nx * nx + ny * ny)
      in if len = 0 then None else Some (nx / len, ny / len))"

definition sat_axes :: "point list \<Rightarrow> point option list" where
  "sat_axes polygon = map (\<lambda>i. sat_axis (polygon ! i) (next_point polygon i)) [0..<length polygon]"

definition sat_project :: "point list \<Rightarrow> point \<Rightarrow> jsnum \<times> jsnum" where
  "sat_project polygon axis =
     foldl (\<lambda>(lo, hi). \<lambda>p. let pr = JNum (fst p * fst axis + snd p * snd axis) in (js_min lo pr, js_max hi pr))
       (JInf, JNegInf) polygon"

definition sat_overlaps :: "jsnum \<times> jsnum \<Rightarrow> jsnum \<times> jsnum \<Rightarrow> bool" where
  "sat_overlaps p q = (\<not> (js_lt (snd p) (fst q) \<or> js_lt (snd q) (fst p)))"

definition sat_polygon_intersection :: "point list \<Rightarrow> point list \<Rightarrow> bool" where
  "sat_polygon_intersection poly1 poly2 =
     list_all (\<lambda>axis. case axis of
                  None \<Rightarrow> True
                | Some a \<Rightarrow> sat_overlaps (sat_project poly1 a) (sat_project poly2 a))
       (sat_axes poly1 @ sat_axes poly2)"

subsection \<open>What the geometry guarantees\<close>

text \<open>A bounding box with finite corners in order.\<close>

definition proper_box :: "bbox \<Rightarrow> bool" where
  "proper_box b =
     (case (bb_x1 b, bb_x2 b, bb_y1 b, bb_y2 b) of
        (JNum a1, JNum a2, JNum b1, JNum b2) \<Rightarrow> a1 \<le> a2 \<and> b1 \<le> b2
      | _ \<Rightarrow> False)"

lemma proper_boxE:
  assumes "proper_box b"
  obtains a1 a2 b1 b2 where "bb_x1 b = JNum a1" "bb_x2 b = JNum a2" "bb_y1 b = JNum b1" "bb_y2 b = JNum b2"
    "a1 \<le> a2" "b1 \<le> b2"
  using assms by (auto simp: proper_box_def split: jsnum.splits)

lemma js_le_JNum [simp]: "js_le (JNum a) (JNum b) \<longleftrightarrow> a \<le> b"
  by (auto simp: js_le_def)

lemma intersect_iff_common_point:
  assumes "proper_box b" "proper_box c"
  shows "bounding_boxes_intersect b c \<longleftrightarrow> (\<exists>p. point_in_bounding_box b p \<and> point_in_bounding_box c p)"
proof -
  obtain a1 a2 b1 b2 where b: "bb_x1 b = JNum a1" "bb_x2 b = JNum a2" "bb_y1 b = JNum b1" "bb_y2 b = JNum b2"
    "a1 \<le> a2" "b1 \<le> b2" using assms(1) by (rule proper_boxE)
  obtain c1 c2 d1 d2 where c: "bb_x1 c = JNum c1" "bb_x2 c = JNum c2" "bb_y1 c = JNum d1" "bb_y2 c = JNum d2"
    "c1 \<le> c2" "d1 \<le> d2" using assms(2) by (rule proper_boxE)
  show ?thesis
  proof
    assume "bounding_boxes_intersect b c"
    then have "point_in_bounding_box b (max a1 c1, max b1 d1)" "point_in_bounding_box c (max a1 c1, max b1 d1)"
      using b c by (auto simp: bounding_boxes_intersect_def point_in_bounding_box_def in_bounding_box_def
          split: if_splits)
    then show "\<exists>p. point_in_bounding_box b p \<and> point_in_bounding_box c p" by blast
  next
    assume "\<exists>p. point_in_bounding_box b p \<and> point_in_bounding_box c p"
    then show "bounding_boxes_intersect b c"
      using b c by (auto simp: bounding_boxes_intersect_def point_in_bounding_box_def in_bounding_box_def)
  qed
qed

text \<open>The projections of points on an axis lie between the extremes of the polygon's.\<close>

lemma sat_project_bounds:
  assumes "poly \<noteq> []"
  obtains lo hi where "sat_project poly a = (JNum lo, JNum hi)"
    "\<And>p. p \<in> set poly \<Longrightarrow> lo \<le> fst p * fst a + snd p * snd a \<and> fst p * fst a + snd p * snd a \<le> hi"
proof -
  let ?f = "\<lambda>p. fst p * fst a + snd p * snd a"
  let ?step = "\<lambda>(lo, hi). \<lambda>p. (js_min lo (JNum (?f p)), js_max hi (JNum (?f p)))"
  have fold: "\<exists>lo' hi'. foldl ?step (JNum lo, JNum hi) ps = (JNum lo', JNum hi') \<and> lo' \<le> lo \<and> hi \<le> hi'
        \<and> (\<forall>p \<in> set ps. lo' \<le> ?f p \<and> ?f p \<le> hi')" for lo hi ps
  proof (induction ps arbitrary: lo hi)
    case (Cons p ps)
    let ?lo = "if ?f p < lo then ?f p else lo" and ?hi = "if hi < ?f p then ?f p else hi"
    have step: "?step (JNum lo, JNum hi) p = (JNum ?lo, JNum ?hi)"
      by (simp add: js_min_def js_max_def)
    obtain lo' hi' where h: "foldl ?step (JNum ?lo, JNum ?hi) ps = (JNum lo', JNum hi')"
      "lo' \<le> ?lo" "?hi \<le> hi'" "\<forall>p \<in> set ps. lo' \<le> ?f p \<and> ?f p \<le> hi'"
      using Cons.IH by blast
    have "lo' \<le> lo" "hi \<le> hi'" "lo' \<le> ?f p" "?f p \<le> hi'"
      using h(2,3) by (auto split: if_splits)
    moreover have "foldl ?step (JNum lo, JNum hi) (p # ps) = (JNum lo', JNum hi')"
      using h(1) step by (simp only: foldl.simps)
    ultimately show ?case using h(4) by (intro exI[of _ lo'] exI[of _ hi']) simp
  qed simp
  obtain q qs where q: "poly = q # qs" using assms by (cases poly) auto
  then have p: "sat_project poly a = foldl ?step (JNum (?f q), JNum (?f q)) qs"
    by (simp add: sat_project_def Let_def js_min_def js_max_def)
  obtain lo hi where h: "foldl ?step (JNum (?f q), JNum (?f q)) qs = (JNum lo, JNum hi)"
    "lo \<le> ?f q" "?f q \<le> hi" "\<forall>p \<in> set qs. lo \<le> ?f p \<and> ?f p \<le> hi"
    using fold by blast
  show thesis
  proof (rule that)
    show "sat_project poly a = (JNum lo, JNum hi)" using p h(1) by simp
    show "lo \<le> ?f p \<and> ?f p \<le> hi" if "p \<in> set poly" for p
      using that h(2-4) q by auto
  qed
qed

text \<open>A mean of the points of a polygon, with the given weights.\<close>

definition mixture :: "real list \<Rightarrow> point list \<Rightarrow> point" where
  "mixture ws poly =
     (sum_list (map2 (\<lambda>w p. w * fst p) ws poly), sum_list (map2 (\<lambda>w p. w * snd p) ws poly))"

definition weights :: "real list \<Rightarrow> point list \<Rightarrow> bool" where
  "weights ws poly = (length ws = length poly \<and> list_all (\<lambda>w. 0 \<le> w) ws \<and> sum_list ws = 1)"

lemma mixture_between:
  assumes "length ws = length poly" "list_all (\<lambda>w. 0 \<le> w) ws"
    and "\<And>p. p \<in> set poly \<Longrightarrow> lo \<le> fst p * u + snd p * v \<and> fst p * u + snd p * v \<le> hi"
  shows "lo * sum_list ws \<le> fst (mixture ws poly) * u + snd (mixture ws poly) * v
    \<and> fst (mixture ws poly) * u + snd (mixture ws poly) * v \<le> hi * sum_list ws"
  using assms
proof (induction ws poly rule: list_induct2)
  case (Cons w ws p poly)
  have "lo * sum_list ws \<le> fst (mixture ws poly) * u + snd (mixture ws poly) * v
    \<and> fst (mixture ws poly) * u + snd (mixture ws poly) * v \<le> hi * sum_list ws"
    using Cons.IH Cons.prems by simp
  moreover have "w * lo \<le> w * (fst p * u + snd p * v)" "w * (fst p * u + snd p * v) \<le> w * hi"
    using Cons.prems by (auto intro!: mult_left_mono)
  ultimately show ?case by (simp add: mixture_def algebra_simps)
qed (simp add: mixture_def)

lemma sat_common_point:
  assumes "weights ws poly1" "weights vs poly2" "mixture ws poly1 = mixture vs poly2"
  shows "sat_polygon_intersection poly1 poly2"
proof -
  have ne: "poly1 \<noteq> []" "poly2 \<noteq> []" using assms(1,2) by (auto simp: weights_def)
  have "sat_overlaps (sat_project poly1 a) (sat_project poly2 a)" for a
  proof -
    obtain lo1 hi1 where 1: "sat_project poly1 a = (JNum lo1, JNum hi1)"
      "\<And>p. p \<in> set poly1 \<Longrightarrow> lo1 \<le> fst p * fst a + snd p * snd a \<and> fst p * fst a + snd p * snd a \<le> hi1"
      using sat_project_bounds[OF ne(1)] by metis
    obtain lo2 hi2 where 2: "sat_project poly2 a = (JNum lo2, JNum hi2)"
      "\<And>p. p \<in> set poly2 \<Longrightarrow> lo2 \<le> fst p * fst a + snd p * snd a \<and> fst p * fst a + snd p * snd a \<le> hi2"
      using sat_project_bounds[OF ne(2)] by metis
    show ?thesis
      using mixture_between[of ws poly1 lo1 "fst a" "snd a" hi1]
        mixture_between[of vs poly2 lo2 "fst a" "snd a" hi2] 1 2 assms
      by (simp add: weights_def sat_overlaps_def)
  qed
  then show ?thesis by (auto simp: sat_polygon_intersection_def list_all_iff split: option.splits)
qed

end
