(* ===== verification/CyCentral.thy ===== *)
theory CyCentral
  imports CyConnect CyMath
begin

text \<open>
  Centralities of \<open>cytoscape.js\<close>: \<open>pageRank\<close>, \<open>degreeCentrality\<close>, \<open>closenessCentrality\<close>,
  \<open>betweennessCentrality\<close> and their normalized forms.  Matrices are arrays in row order; weights are
  finite.  An edge whose end is not in the collection is \<open>None\<close>: the source then writes to a cell of
  another pair.
\<close>

subsection \<open>PageRank\<close>

definition pagerank_add_edge ::
  "(element \<Rightarrow> real) \<Rightarrow> collection \<Rightarrow> real list \<times> real list \<Rightarrow> element \<Rightarrow> (real list \<times> real list) option" where
  "pagerank_add_edge w ns = (\<lambda>(matrix, column_sum) e.
     (if source e = target e then Some (matrix, column_sum)
      else case (Option.bind (source e) (node_index ns), Option.bind (target e) (node_index ns)) of
             (Some s, Some t) \<Rightarrow>
               (let n = t * length ns + s
                in Some (matrix[n := matrix ! n + w e], column_sum[s := column_sum ! s + w e]))
           | _ \<Rightarrow> None))"

definition pagerank_columns :: "nat \<Rightarrow> real \<Rightarrow> real list \<Rightarrow> real list \<Rightarrow> real list" where
  "pagerank_columns N additional matrix column_sum =
     map (\<lambda>n. let j = n mod N in
            if column_sum ! j = 0 then 1 / real N + additional
            else matrix ! n / column_sum ! j + additional) [0..<N * N]"

definition mat_vec :: "nat \<Rightarrow> real list \<Rightarrow> real list \<Rightarrow> real list" where
  "mat_vec N matrix v =
     map (\<lambda>i. foldl (\<lambda>acc j. acc + matrix ! (i * N + j) * v ! j) 0 [0..<N]) [0..<N]"

definition sq_diff :: "real list \<Rightarrow> real list \<Rightarrow> real" where
  "sq_diff a b = foldl (\<lambda>acc (x, y). acc + (x - y) * (x - y)) 0 (zip a b)"

text \<open>\<open>None\<close> when the vector sums to zero and cannot be normalized.\<close>

fun pagerank_iterate :: "nat \<Rightarrow> nat \<Rightarrow> real \<Rightarrow> real list \<Rightarrow> real list \<Rightarrow> real list option" where
  "pagerank_iterate 0 N precision matrix eigenvector = Some eigenvector"
| "pagerank_iterate (Suc n) N precision matrix eigenvector =
     (case in_place_sum_normalize (mat_vec N matrix eigenvector) of
        None \<Rightarrow> None
      | Some temp \<Rightarrow>
          if sq_diff eigenvector temp < precision then Some temp
          else pagerank_iterate n N precision matrix temp)"

definition page_rank :: "collection \<Rightarrow> real \<Rightarrow> real \<Rightarrow> nat \<Rightarrow> (element \<Rightarrow> real) \<Rightarrow> real list option" where
  "page_rank c damping precision iterations w =
     (let (ns, es) = by_group c; N = length ns; additional = (1 - damping) / real N
      in Option.bind (fold_option (pagerank_add_edge w ns) (replicate (N * N) 0, replicate N 0) es)
           (\<lambda>(matrix, column_sum).
              pagerank_iterate iterations N precision (pagerank_columns N additional matrix column_sum)
                (replicate N 1)))"

definition page_rank_of :: "collection \<Rightarrow> real list \<Rightarrow> string \<Rightarrow> real option" where
  "page_rank_of c eigenvector v = Option.bind (node_index (nodes_of c) v) (js_get eigenvector)"

subsection \<open>Degree centrality\<close>

text \<open>\<open>Math.pow(0, 0)\<close> is 1.\<close>

definition js_pow :: "real \<Rightarrow> real \<Rightarrow> real" where
  "js_pow a b = (if b = 0 then 1 else a powr b)"

definition weight_sum :: "(element \<Rightarrow> real) \<Rightarrow> collection \<Rightarrow> real" where
  "weight_sum w es = foldl (\<lambda>s e. s + w e) 0 es"

definition alpha_degree :: "(element \<Rightarrow> real) \<Rightarrow> real \<Rightarrow> collection \<Rightarrow> real" where
  "alpha_degree w alpha es = js_pow (real (length es)) (1 - alpha) * js_pow (weight_sum w es) alpha"

definition degree_centrality ::
  "collection \<Rightarrow> collection \<Rightarrow> (element \<Rightarrow> real) \<Rightarrow> real \<Rightarrow> string \<Rightarrow> real" where
  "degree_centrality g c w alpha v =
     alpha_degree w alpha (intersect (connected_edges g [NodeE v]) c)"

definition directed_degree_centrality ::
  "collection \<Rightarrow> collection \<Rightarrow> (element \<Rightarrow> real) \<Rightarrow> real \<Rightarrow> string \<Rightarrow> real \<times> real" where
  "directed_degree_centrality g c w alpha v =
     (let es = connected_edges g [NodeE v];
          incoming = filter (\<lambda>e. target e = Some v \<and> has_ele c e) es;
          outgoing = filter (\<lambda>e. source e = Some v \<and> has_ele c e) es
      in (alpha_degree w alpha incoming, alpha_degree w alpha outgoing))"

definition largest :: "real list \<Rightarrow> real" where
  "largest xs = foldl (\<lambda>m x. if m < x then x else m) 0 xs"

definition normalized_by :: "real \<Rightarrow> real \<Rightarrow> real" where
  "normalized_by m x = (if m = 0 then 0 else x / m)"

definition degree_centrality_normalized ::
  "collection \<Rightarrow> collection \<Rightarrow> (element \<Rightarrow> real) \<Rightarrow> real \<Rightarrow> string \<Rightarrow> real" where
  "degree_centrality_normalized g c w alpha v =
     (let deg = degree_centrality g c w alpha; m = largest (map (deg \<circ> ele_id) (nodes_of c))
      in normalized_by m (deg v))"

definition directed_degree_centrality_normalized ::
  "collection \<Rightarrow> collection \<Rightarrow> (element \<Rightarrow> real) \<Rightarrow> real \<Rightarrow> string \<Rightarrow> real \<times> real" where
  "directed_degree_centrality_normalized g c w alpha v =
     (let deg = directed_degree_centrality g c w alpha; ns = nodes_of c;
          max_in = largest (map (fst \<circ> deg \<circ> ele_id) ns); max_out = largest (map (snd \<circ> deg \<circ> ele_id) ns)
      in (normalized_by max_in (fst (deg v)), normalized_by max_out (snd (deg v))))"

subsection \<open>Closeness\<close>

text \<open>\<open>1 / d\<close>: infinite at zero, zero at infinity.\<close>

definition js_recip :: "jsnum \<Rightarrow> jsnum" where
  "js_recip d =
     (case d of JNum x \<Rightarrow> if x = 0 then JInf else JNum (1 / x) | JNaN \<Rightarrow> JNaN | _ \<Rightarrow> JNum 0)"

definition total_closeness :: "bool \<Rightarrow> jsnum list \<Rightarrow> jsnum" where
  "total_closeness harmonic ds =
     (let total = foldl (\<lambda>acc d. js_add acc (if harmonic then js_recip d else d)) (JNum 0) ds
      in if harmonic then total else js_recip total)"

definition closeness_centrality ::
  "collection \<Rightarrow> collection \<Rightarrow> weight \<Rightarrow> bool \<Rightarrow> bool \<Rightarrow> string \<Rightarrow> jsnum option" where
  "closeness_centrality g c w directed harmonic origin =
     map_option (\<lambda>s. total_closeness harmonic
         (map (\<lambda>n. the_or JNaN (dijkstra_distance_to s (ele_id n)))
            (filter (\<lambda>n. ele_id n \<noteq> origin) (nodes_of c))))
       (dijkstra g c origin w directed)"

definition closenesses :: "collection \<Rightarrow> weight \<Rightarrow> bool \<Rightarrow> bool \<Rightarrow> (string \<times> jsnum) list option" where
  "closenesses c w directed harmonic =
     map_option (\<lambda>f. let ns = nodes_of c; N = length ns in
         map (\<lambda>i. (ele_id (ns ! i),
                  total_closeness harmonic (map (\<lambda>j. fw_dist f ! (i * N + j)) (filter (\<lambda>j. i \<noteq> j) [0..<N]))))
           [0..<N])
       (floyd_warshall c w directed)"

definition closeness_centrality_normalized ::
  "collection \<Rightarrow> weight \<Rightarrow> bool \<Rightarrow> bool \<Rightarrow> string \<Rightarrow> jsnum option" where
  "closeness_centrality_normalized c w directed harmonic v =
     map_option (\<lambda>cs.
       (let m = foldl (\<lambda>m (u, x). if js_lt m x then x else m) (JNum 0) cs
        in if js_eq m (JNum 0) then JNum 0 else js_div (the_or JNaN (map_of cs v)) m))
       (closenesses c w directed harmonic)"

subsection \<open>Betweenness\<close>

text \<open>One source: the vertices in the order they were taken, their predecessors, path counts and
  distances.  Entries exist for every vertex of the collection.\<close>

record brandes =
  br_stack :: "string list"
  br_pred :: "(string \<times> string list) list"
  br_count :: "(string \<times> real) list"
  br_dist :: "(string \<times> jsnum) list"
  br_queue :: "string list"

definition brandes_start :: "collection \<Rightarrow> string \<Rightarrow> brandes" where
  "brandes_start ns s =
     (let ids = map ele_id ns; d = AList.update s (JNum 0) (map (\<lambda>v. (v, JInf)) ids)
      in \<lparr>br_stack = [], br_pred = map (\<lambda>v. (v, [])) ids,
          br_count = AList.update s 1 (map (\<lambda>v. (v, 0)) ids),
          br_dist = d, br_queue = heappush (dist_cmp d) [] s\<rparr>)"

definition num_of :: "(string \<times> real) list \<Rightarrow> string \<Rightarrow> real" where
  "num_of m v = the_or 0 (map_of m v)"

definition count_path :: "string \<Rightarrow> string \<Rightarrow> brandes \<Rightarrow> brandes" where
  "count_path v u b =
     b\<lparr>br_count := AList.update u (num_of (br_count b) u + num_of (br_count b) v) (br_count b),
       br_pred := AList.update u (the_or [] (map_of (br_pred b) u) @ [v]) (br_pred b)\<rparr>"

definition brandes_weighted ::
  "collection \<Rightarrow> weight \<Rightarrow> string \<Rightarrow> brandes \<Rightarrow> string \<Rightarrow> brandes option" where
  "brandes_weighted g w v b u =
     (case (case edges_with True g [NodeE v] [NodeE u] of
              [] \<Rightarrow> edges_with True g [NodeE u] [NodeE v] | es \<Rightarrow> es) of
        [] \<Rightarrow> None
      | e # _ \<Rightarrow>
         (let alt = js_add (get_dist (br_dist b) v) (w e);
              b = (if js_lt alt (get_dist (br_dist b) u) then
                     (let d = AList.update u alt (br_dist b)
                      in b\<lparr>br_dist := d,
                           br_queue := (if u \<in> set (br_queue b) then update_item (dist_cmp d) (br_queue b) u
                                        else heappush (dist_cmp d) (br_queue b) u),
                           br_count := AList.update u 0 (br_count b),
                           br_pred := AList.update u [] (br_pred b)\<rparr>)
                   else b)
          in Some (if js_eq (get_dist (br_dist b) u) alt then count_path v u b else b)))"

text \<open>Here a vertex is pushed while its distance is still infinite, and gets its distance after.\<close>

definition brandes_unweighted :: "string \<Rightarrow> brandes \<Rightarrow> string \<Rightarrow> brandes" where
  "brandes_unweighted v b u =
     (let alt = js_add (get_dist (br_dist b) v) (JNum 1);
          b = (if js_eq (get_dist (br_dist b) u) JInf
               then b\<lparr>br_queue := heappush (dist_cmp (br_dist b)) (br_queue b) u,
                      br_dist := AList.update u alt (br_dist b)\<rparr>
               else b)
      in if js_eq (get_dist (br_dist b) u) alt then count_path v u b else b)"

definition adjacent :: "bool \<Rightarrow> collection \<Rightarrow> string \<Rightarrow> string list" where
  "adjacent directed g v =
     map ele_id (filter is_node (if directed then dag_one_hop True g [NodeE v] else neighborhood g [NodeE v]))"

partial_function (option) brandes_loop ::
  "collection \<Rightarrow> weight option \<Rightarrow> bool \<Rightarrow> brandes \<Rightarrow> brandes option" where
  "brandes_loop g w directed b =
     (case heappop (dist_cmp (br_dist b)) (br_queue b) of
        (q, None) \<Rightarrow> Some b
      | (q, Some v) \<Rightarrow>
         (let b = b\<lparr>br_queue := q, br_stack := v # br_stack b\<rparr>
          in Option.bind
               (case w of
                  Some f \<Rightarrow> fold_option (brandes_weighted g f v) b (adjacent directed g v)
                | None \<Rightarrow> Some (foldl (brandes_unweighted v) b (adjacent directed g v)))
               (brandes_loop g w directed)))"

declare brandes_loop.simps [code]

text \<open>The dependencies, from the vertex taken last; the centralities and their maximum.\<close>

definition accumulate_one :: "brandes \<Rightarrow> string \<Rightarrow> (string \<times> real) list \<Rightarrow> (string \<times> real) list" where
  "accumulate_one b u dep =
     foldl (\<lambda>dep v. AList.update v (num_of dep v + num_of (br_count b) v / num_of (br_count b) u * (1 + num_of dep u)) dep)
       dep (the_or [] (map_of (br_pred b) u))"

definition set_centrality ::
  "string \<Rightarrow> real \<Rightarrow> (string \<times> real) list \<times> real \<Rightarrow> (string \<times> real) list \<times> real" where
  "set_centrality v x = (\<lambda>(C, m). (AList.update v x C, if x > m then x else m))"

definition accumulate ::
  "collection \<Rightarrow> string \<Rightarrow> brandes \<Rightarrow> (string \<times> real) list \<times> real \<Rightarrow> (string \<times> real) list \<times> real" where
  "accumulate ns s b Cm =
     snd (foldl (\<lambda>(dep, Cm) u.
            (let dep = accumulate_one b u dep
             in (dep, if u \<noteq> s then set_centrality u (num_of (fst Cm) u + num_of dep u) Cm else Cm)))
          (map (\<lambda>n. (ele_id n, 0)) ns, Cm) (br_stack b))"

definition betweenness_centrality ::
  "collection \<Rightarrow> collection \<Rightarrow> weight option \<Rightarrow> bool \<Rightarrow> ((string \<times> real) list \<times> real) option" where
  "betweenness_centrality g c w directed =
     (let ns = nodes_of c
      in fold_option (\<lambda>Cm s. map_option (\<lambda>b. accumulate ns s b Cm)
                        (brandes_loop g w directed (brandes_start ns s)))
           (map (\<lambda>n. (ele_id n, 0)) ns, 0) (map ele_id ns))"

definition betweenness_of :: "(string \<times> real) list \<times> real \<Rightarrow> string \<Rightarrow> real option" where
  "betweenness_of Cm v = map_of (fst Cm) v"

definition betweenness_normalized_of :: "(string \<times> real) list \<times> real \<Rightarrow> string \<Rightarrow> real option" where
  "betweenness_normalized_of Cm v =
     (if snd Cm = 0 then Some 0 else map_option (\<lambda>x. x / snd Cm) (map_of (fst Cm) v))"

end
