(* ===== verification/PathFacts.thy ===== *)
theory PathFacts
  imports CyPaths
begin

text \<open>
  Facts for the algorithms on paths of \<open>cytoscape.js\<close>: a heap compares its own items only, so the
  queue ordered by distance keeps its order when one distance changes; collections of a graph whose
  elements have distinct ids are sets; and the lightest of several parallel edges.
\<close>

subsection \<open>The heap looks at its items only\<close>

definition agree :: "'a comparison \<Rightarrow> 'a comparison \<Rightarrow> 'a set \<Rightarrow> bool" where
  "agree cmp cmp' S \<longleftrightarrow> (\<forall>x \<in> S. \<forall>y \<in> S. below cmp x y = below cmp' x y)"

lemma agreeD: "agree cmp cmp' S \<Longrightarrow> x \<in> S \<Longrightarrow> y \<in> S \<Longrightarrow> below cmp x y = below cmp' x y"
  by (simp add: agree_def)

lemma siftdown_loop_range:
  "set xs \<subseteq> S \<Longrightarrow> p < length xs \<Longrightarrow>
     set (fst (siftdown_loop cmp xs s p x)) \<subseteq> S \<and> length (fst (siftdown_loop cmp xs s p x)) = length xs"
proof (induction cmp xs s p x rule: siftdown_loop.induct)
  case (1 cmp xs s p x)
  have "set (xs[p := xs ! ((p - 1) div 2)]) \<subseteq> S" using "1.prems" by (intro set_update_subsetI) auto
  then show ?case
    using "1.IH"[OF _ refl refl] "1.prems" by (simp add: siftdown_loop.simps[of _ xs s p x] Let_def)
qed

lemma siftdown_loop_agree:
  "agree cmp cmp' S \<Longrightarrow> set xs \<subseteq> S \<Longrightarrow> x \<in> S \<Longrightarrow> p < length xs \<Longrightarrow>
     siftdown_loop cmp xs s p x = siftdown_loop cmp' xs s p x"
proof (induction cmp xs s p x rule: siftdown_loop.induct)
  case (1 cmp xs s p x)
  have S: "xs ! ((p - 1) div 2) \<in> S" using "1.prems"(2,4) by auto
  have "below cmp x (xs ! ((p - 1) div 2)) = below cmp' x (xs ! ((p - 1) div 2))"
    by (rule agreeD[OF "1.prems"(1,3) S])
  then show ?case
    using "1.IH"[OF _ refl refl _ "1.prems"(1) set_update_subsetI[OF "1.prems"(2) S] "1.prems"(3)] "1.prems"(4)
    by (simp add: siftdown_loop.simps[of _ xs s p x] Let_def)
qed

lemma siftdown_agree:
  assumes "agree cmp cmp' S" "set xs \<subseteq> S" "p < length xs"
  shows "siftdown cmp xs s p = siftdown cmp' xs s p"
proof -
  have "xs ! p \<in> S" using assms(2,3) nth_mem by blast
  from siftdown_loop_agree[OF assms(1,2) this assms(3)] show ?thesis by (simp add: siftdown_def Let_def)
qed

lemma smaller_child_less: "2 * p + 1 < length xs \<Longrightarrow> smaller_child cmp xs p < length xs"
  by (simp add: smaller_child_def Let_def)

lemma siftup_loop_range:
  "set xs \<subseteq> S \<Longrightarrow> p < length xs \<Longrightarrow>
     set (fst (siftup_loop cmp xs p)) \<subseteq> S \<and> length (fst (siftup_loop cmp xs p)) = length xs \<and>
     snd (siftup_loop cmp xs p) < length xs"
proof (induction cmp xs p rule: siftup_loop.induct)
  case (1 cmp xs p)
  show ?case
  proof (cases "2 * p + 1 < length xs")
    case True
    note c = smaller_child_less[OF True, of cmp]
    have "set (xs[p := xs ! smaller_child cmp xs p]) \<subseteq> S" using "1.prems" c by (intro set_update_subsetI) auto
    then show ?thesis using "1.IH"[OF True refl] c True by (simp add: siftup_loop.simps[of _ xs p] Let_def)
  qed (use "1.prems" in \<open>simp add: siftup_loop.simps[of _ xs p]\<close>)
qed

lemma siftup_loop_agree:
  "agree cmp cmp' S \<Longrightarrow> set xs \<subseteq> S \<Longrightarrow> p < length xs \<Longrightarrow> siftup_loop cmp xs p = siftup_loop cmp' xs p"
proof (induction cmp xs p rule: siftup_loop.induct)
  case (1 cmp xs p)
  show ?case
  proof (cases "2 * p + 1 < length xs")
    case True
    have "below cmp (xs ! i) (xs ! j) = below cmp' (xs ! i) (xs ! j)" if "i < length xs" "j < length xs" for i j
      using agreeD[OF "1.prems"(1)] "1.prems"(2) nth_mem that by blast
    then have same: "smaller_child cmp' xs p = smaller_child cmp xs p"
      using True by (auto simp: smaller_child_def Let_def)
    note c = smaller_child_less[OF True, of cmp]
    have "set (xs[p := xs ! smaller_child cmp xs p]) \<subseteq> S" using "1.prems" c by (intro set_update_subsetI) auto
    then show ?thesis
      using "1.IH"[OF True refl "1.prems"(1)] c True by (simp add: siftup_loop.simps[of _ xs p] same Let_def)
  qed (simp add: siftup_loop.simps[of _ xs p])
qed

lemma siftup_agree:
  assumes "agree cmp cmp' S" "set xs \<subseteq> S" "p < length xs"
  shows "siftup cmp xs p = siftup cmp' xs p"
proof -
  note l = siftup_loop_range[OF assms(2,3), of cmp]
  have "xs ! p \<in> S" using assms(2,3) nth_mem by blast
  then have "set ((fst (siftup_loop cmp xs p))[snd (siftup_loop cmp xs p) := xs ! p]) \<subseteq> S"
    using l by (intro set_update_subsetI) auto
  from siftdown_agree[OF assms(1) this] l show ?thesis
    by (simp add: siftup_def Let_def case_prod_beta siftup_loop_agree[OF assms, symmetric])
qed

lemma heappush_agree: "agree cmp cmp' S \<Longrightarrow> set (xs @ [x]) \<subseteq> S \<Longrightarrow> heappush cmp xs x = heappush cmp' xs x"
  by (simp add: heappush_def siftdown_agree)

lemma heappop_agree:
  assumes "agree cmp cmp' S" "set xs \<subseteq> S"
  shows "heappop cmp xs = heappop cmp' xs"
proof (cases "butlast xs = []")
  case False
  then have "set ((butlast xs)[0 := last xs]) \<subseteq> S"
    using assms(2) last_in_set[of xs] by (intro set_update_subsetI) (fastforce dest: in_set_butlastD)+
  moreover have "0 < length ((butlast xs)[0 := last xs])" using False by (simp del: length_butlast)
  ultimately have "siftup cmp ((butlast xs)[0 := last xs]) 0 = siftup cmp' ((butlast xs)[0 := last xs]) 0"
    by (rule siftup_agree[OF assms(1)])
  then show ?thesis using False by (simp add: heappop_def Let_def)
qed (simp add: heappop_def)

lemma update_item_agree:
  assumes "agree cmp cmp' S" "set xs \<subseteq> S"
  shows "update_item cmp xs x = update_item cmp' xs x"
proof (cases "index_of xs x")
  case (Some p)
  then have p: "p < length xs" by (simp add: index_of_Some)
  have "mset (siftdown cmp xs 0 p) = mset xs" using p by (simp add: siftdown_mset)
  then have "set (siftdown cmp xs 0 p) \<subseteq> S" using assms(2) mset_eq_setD by blast
  then show ?thesis
    using siftdown_agree[OF assms p] siftup_agree[OF assms(1)] p by (simp add: update_item_def Some)
qed (simp add: update_item_def)

lemma is_heap_agree:
  assumes "agree cmp cmp' S" "set xs \<subseteq> S"
  shows "is_heap cmp xs = is_heap cmp' xs"
proof -
  have "below cmp (xs ! i) (xs ! par i) = below cmp' (xs ! i) (xs ! par i)" if "0 < i" "i < length xs" for i
  proof -
    have "par i < length xs" using par_less[OF that(1)] that(2) by simp
    then show ?thesis using agreeD[OF assms(1)] that(2) assms(2) nth_mem by blast
  qed
  then show ?thesis unfolding heap_from_def by blast
qed

subsection \<open>The queue ordered by distance\<close>

text \<open>Distances that are numbers or infinity, and an order of all strings that agrees with them.\<close>

definition a_distance :: "jsnum \<Rightarrow> bool" where
  "a_distance a \<longleftrightarrow> a = JInf \<or> (\<exists>x. a = JNum x)"

definition proper_on :: "(string \<times> jsnum) list \<Rightarrow> string set \<Rightarrow> bool" where
  "proper_on d S \<longleftrightarrow> (\<forall>v \<in> S. a_distance (get_dist d v))"

definition filled :: "(string \<times> jsnum) list \<Rightarrow> string \<Rightarrow> jsnum" where
  "filled d v = (if a_distance (get_dist d v) then get_dist d v else JInf)"

definition filled_cmp :: "(string \<times> jsnum) list \<Rightarrow> string comparison" where
  "filled_cmp d a b = js_sub (filled d a) (filled d b)"

lemma a_distance_filled [simp]: "a_distance (filled d v)"
  by (simp add: filled_def a_distance_def)

lemma below_js_sub:
  "a_distance a \<Longrightarrow> a_distance b \<Longrightarrow> js_lt (js_sub a b) (JNum 0) = js_lt a b"
  by (auto simp: a_distance_def js_sub_def)

lemma filled_comparator: "comparator (filled_cmp d)"
proof
  show "below (filled_cmp d) x y \<Longrightarrow> \<not> below (filled_cmp d) y x" for x y
    by (simp add: below_def filled_cmp_def below_js_sub js_lt_asym)
  show "\<not> below (filled_cmp d) x y \<Longrightarrow> \<not> below (filled_cmp d) y z \<Longrightarrow> \<not> below (filled_cmp d) x z" for x y z
    using js_lt_neg_trans[of "filled d y" "filled d x" "filled d z"] a_distance_filled[of d y]
    unfolding below_def filled_cmp_def below_js_sub[OF a_distance_filled a_distance_filled]
    by (auto simp: a_distance_def)
qed

lemma below_dist_cmp:
  "proper_on d S \<Longrightarrow> x \<in> S \<Longrightarrow> y \<in> S \<Longrightarrow> below (dist_cmp d) x y = js_lt (get_dist d x) (get_dist d y)"
  by (simp add: below_def dist_cmp_def below_js_sub proper_on_def)

lemma dist_agree: "proper_on d S \<Longrightarrow> agree (dist_cmp d) (filled_cmp d) S"
  by (simp add: agree_def below_def dist_cmp_def filled_cmp_def filled_def proper_on_def)

lemma queue_push:
  assumes "proper_on d S" "set (q @ [v]) \<subseteq> S" "is_heap (dist_cmp d) q"
  shows "is_heap (dist_cmp d) (heappush (dist_cmp d) q v)"
proof -
  note a = dist_agree[OF assms(1)]
  have q: "set q \<subseteq> S" using assms(2) by simp
  have "set (heappush (dist_cmp d) q v) = set (q @ [v])"
    using mset_eq_setD[of "heappush (dist_cmp d) q v" "q @ [v]"] by (simp add: heappush_mset)
  then have "set (heappush (dist_cmp d) q v) \<subseteq> S" using assms(2) by simp
  then show ?thesis
    using comparator.heap_push_order[OF filled_comparator[of d], of q v] assms(3)
    by (simp add: is_heap_agree[OF a] q heappush_agree[OF a assms(2), symmetric])
qed

lemma queue_pop:
  assumes "proper_on d (set q)" "is_heap (dist_cmp d) q" "heappop (dist_cmp d) q = (q', Some u)"
  shows "is_heap (dist_cmp d) q' \<and> mset q = add_mset u (mset q') \<and>
    (\<forall>v \<in> set q'. \<not> js_lt (get_dist d v) (get_dist d u))"
proof -
  note a = dist_agree[OF assms(1)]
  have pop: "heappop (filled_cmp d) q = (q', Some u)" using assms(3) heappop_agree[OF a] by simp
  have m: "mset q = add_mset u (mset q')" using heappop_Some[OF assms(3)] by blast
  have heap: "is_heap (filled_cmp d) q" using assms(2) is_heap_agree[OF a] by simp
  have "set q = insert u (set q')" using arg_cong[OF m, of set_mset] by simp
  then have sub: "set q' \<subseteq> set q" "u \<in> set q" by auto
  have "is_heap (filled_cmp d) q'"
    using comparator.heap_pop_order[OF filled_comparator heap] pop by simp
  then have "is_heap (dist_cmp d) q'" using is_heap_agree[OF a sub(1)] by simp
  moreover have "\<not> js_lt (get_dist d v) (get_dist d u)" if "v \<in> set q'" for v
  proof -
    have "\<not> below (filled_cmp d) v u"
      using comparator.heap_root_least[OF filled_comparator heap] that sub heappop_Some[OF pop]
      by (metis in_set_conv_nth subset_iff)
    then show ?thesis using agreeD[OF a] below_dist_cmp[OF assms(1)] that sub by (metis subset_iff)
  qed
  ultimately show ?thesis using m by blast
qed

text \<open>The queue after the distance of one vertex was changed.\<close>

lemma get_dist_update: "get_dist (AList.update v x d) u = (if u = v then x else get_dist d u)"
  by (simp add: get_dist_def js_simps)

lemma queue_update:
  fixes v
  assumes "proper_on d (set q)" "is_heap (dist_cmp d) q" "distinct q" "a_distance x"
  defines "d' \<equiv> AList.update v x d"
  shows "is_heap (dist_cmp d') (update_item (dist_cmp d') q v)"
    and "mset (update_item (dist_cmp d') q v) = mset q"
proof -
  have proper: "proper_on d' (set q)" using assms(1,4) by (auto simp: proper_on_def d'_def get_dist_update)
  note a = dist_agree[OF assms(1)] and a' = dist_agree[OF proper]
  have heap: "is_heap (filled_cmp d) q" using assms(2) is_heap_agree[OF a] by simp
  have same: "below (filled_cmp d') y z = below (filled_cmp d) y z" if "y \<noteq> v" "z \<noteq> v" for y z
    using that by (simp add: below_def filled_cmp_def filled_def d'_def get_dist_update)
  have "is_heap (dist_cmp d') (update_item (dist_cmp d') q v) \<and> mset (update_item (dist_cmp d') q v) = mset q"
  proof (cases "index_of q v")
    case None
    then have v: "v \<notin> set q" by (simp add: index_of_None)
    have "below (dist_cmp d') y z = below (dist_cmp d) y z" if "y \<in> set q" "z \<in> set q" for y z
    proof -
      have "y \<noteq> v" "z \<noteq> v" using v that by blast+
      then show ?thesis using same agreeD[OF a that] agreeD[OF a' that] by simp
    qed
    then have "agree (dist_cmp d') (dist_cmp d) (set q)" by (simp add: agree_def)
    from is_heap_agree[OF this] show ?thesis using assms(2) by (simp add: update_item_def None)
  next
    case (Some p)
    then have p: "p < length q" "q ! p = v" using index_of_Some[OF Some] by simp_all
    have other: "q ! i \<noteq> v" if "i < length q" "i \<noteq> p" for i
      using assms(3) p that nth_eq_iff_index_eq by blast
    have hole: "heap_hole (filled_cmp d) 0 q p"
      by (rule comparator.heap_from_hole[OF filled_comparator heap])
    have "heap_hole (filled_cmp d') 0 q p"
      unfolding heap_hole_def detour_def
    proof (intro conjI allI impI)
      fix i assume i: "0 < i" "i < length q" "0 \<le> par i" "i \<noteq> p" "par i \<noteq> p"
      have "par i < length q" using par_less[OF i(1)] i(2) by simp
      then show "\<not> below (filled_cmp d') (q ! i) (q ! par i)"
        using hole i other by (simp add: same heap_hole_def)
    next
      fix i assume i: "0 < p" "0 < i" "i < length q" "par i = p"
      have "i \<noteq> p" "par p < length q" "par p \<noteq> p" using par_less[OF i(2)] par_less[OF i(1)] i p by auto
      then show "\<not> below (filled_cmp d') (q ! i) (q ! par p)"
        using hole i other by (simp add: same heap_hole_def detour_def)
    qed
    then have "is_heap (filled_cmp d') (siftup (filled_cmp d') (siftdown (filled_cmp d') q 0 p) p)"
      by (rule comparator.update_order[OF filled_comparator _ p(1)])
    moreover have "update_item (dist_cmp d') q v = update_item (filled_cmp d') q v"
      by (rule update_item_agree[OF a']) simp
    moreover have m: "mset (update_item (dist_cmp d') q v) = mset q"
      using p(1) by (simp add: update_item_def Some siftdown_mset siftup_mset)
    ultimately show ?thesis
      using is_heap_agree[OF a', of "update_item (dist_cmp d') q v"] mset_eq_setD[OF m]
      by (simp add: update_item_def Some)
  qed
  then show "is_heap (dist_cmp d') (update_item (dist_cmp d') q v)"
    "mset (update_item (dist_cmp d') q v) = mset q" by simp_all
qed

subsection \<open>Collections of a graph\<close>

text \<open>A graph: ids are distinct, edges have both ends.\<close>

definition graph :: "collection \<Rightarrow> bool" where
  "graph g \<longleftrightarrow> distinct (map ele_id g) \<and>
     list_all (\<lambda>e. case e of NodeE i \<Rightarrow> True | EdgeE i s t \<Rightarrow> NodeE s \<in> set g \<and> NodeE t \<in> set g) g"

lemma graph_id: "graph g \<Longrightarrow> a \<in> set g \<Longrightarrow> b \<in> set g \<Longrightarrow> ele_id a = ele_id b \<Longrightarrow> a = b"
  by (auto simp: graph_def distinct_map inj_on_def)

lemma graph_ends: "graph g \<Longrightarrow> EdgeE i s t \<in> set g \<Longrightarrow> NodeE s \<in> set g \<and> NodeE t \<in> set g"
  by (fastforce simp: graph_def list_all_iff)

lemma has_ele_iff: "graph g \<Longrightarrow> set c \<subseteq> set g \<Longrightarrow> e \<in> set g \<Longrightarrow> has_ele c e \<longleftrightarrow> e \<in> set c"
  using graph_id[of g] by (auto simp: has_ele_def has_id_def)

lemma set_merge:
  assumes "graph g" "set xs \<subseteq> set g" "set c \<subseteq> set g"
  shows "set (merge c xs) = set c \<union> set xs"
  using assms(2,3)
proof (induction xs arbitrary: c)
  case (Cons x xs)
  have "has_id c (ele_id x) \<longleftrightarrow> x \<in> set c"
    using has_ele_iff[OF assms(1) Cons.prems(2)] Cons.prems(1) by (simp add: has_ele_def)
  then have one: "set (merge_one c x) = insert x (set c)" by (auto simp: merge_one_def)
  then show ?case using Cons.IH[of "merge_one c x"] Cons.prems by (simp add: merge_def)
qed (simp add: merge_def)

lemma set_spawn_unique: "graph g \<Longrightarrow> set xs \<subseteq> set g \<Longrightarrow> set (spawn_unique xs) = set xs"
  using set_merge[of g xs "[]"] by (simp add: spawn_unique_def)

lemma set_intersect:
  assumes "graph g" "set a \<subseteq> set g" "set b \<subseteq> set g"
  shows "set (intersect a b) = set a \<inter> set b"
  using has_ele_iff[OF assms(1,2)] has_ele_iff[OF assms(1,3)] assms(2,3)
  by (auto simp: intersect_def Let_def subset_iff split: if_splits)

lemma set_node_edges: "set (node_edges g v) \<subseteq> set g"
  by (auto simp: node_edges_def)

lemma set_connected_edges:
  assumes "graph g"
  shows "set (connected_edges g [NodeE v]) = set (node_edges g v)"
  using set_spawn_unique[OF assms set_node_edges] by (simp add: connected_edges_def)

text \<open>An edge that leads from one vertex to another.\<close>

definition joins :: "bool \<Rightarrow> element \<Rightarrow> string \<Rightarrow> string \<Rightarrow> bool" where
  "joins directed e u v \<longleftrightarrow>
     source e = Some u \<and> target e = Some v \<or> \<not> directed \<and> source e = Some v \<and> target e = Some u"

lemma set_edges_with:
  assumes "graph g"
  shows "set (edges_with directed g [NodeE u] [NodeE v]) = {e \<in> set g. joins directed e u v}"
proof -
  have "edges_with directed g [NodeE u] [NodeE v] = spawn_unique (filter (\<lambda>e. joins directed e u v) (node_edges g v))"
    unfolding edges_with_def
    by (simp, rule arg_cong[where f = spawn_unique], rule filter_cong)
      (auto simp: joins_def has_id_def Let_def split: element.splits)
  moreover have "set (filter (\<lambda>e. joins directed e u v) (node_edges g v)) \<subseteq> set g" by (auto simp: node_edges_def)
  ultimately have "set (edges_with directed g [NodeE u] [NodeE v])
      = set (filter (\<lambda>e. joins directed e u v) (node_edges g v))"
    using set_spawn_unique[OF assms] by simp
  then show ?thesis by (auto simp: node_edges_def joins_def)
qed

lemma neighbor_iff:
  assumes "graph g" "set ns \<subseteq> set g" "list_all is_node ns"
  shows "v \<in> set (map ele_id (intersect (neighborhood g [NodeE u]) ns)) \<longleftrightarrow>
    NodeE v \<in> set ns \<and> (\<exists>e \<in> set g. joins False e u v)"
proof -
  let ?near = "concat (map (\<lambda>e. other_end u e @ [e]) (connected_edges g [NodeE u]))"
  note edges = set_connected_edges[OF assms(1), of u]
  have one: "set (other_end u e @ [e]) \<subseteq> set g" if "e \<in> set (node_edges g u)" for e
    using that set_node_edges[of g u] graph_ends[OF assms(1)]
    by (cases e rule: element.exhaust) (auto simp: other_end_def subset_iff)
  have sub: "set ?near \<subseteq> set g" using one by (simp only: set_concat set_map edges image_image) blast
  have "set (neighborhood g [NodeE u]) = set ?near"
    using set_spawn_unique[OF assms(1) sub] by (simp add: neighborhood_def nodes_of_def)
  then have "set (intersect (neighborhood g [NodeE u]) ns) = set ?near \<inter> set ns"
    using set_intersect[OF assms(1) _ assms(2)] sub by simp
  moreover have "NodeE v \<in> set (other_end u e @ [e]) \<longleftrightarrow> joins False e u v" if "e \<in> set (node_edges g u)" for e
    using that by (cases e rule: element.exhaust) (auto simp: other_end_def node_edges_def joins_def)
  then have "NodeE v \<in> set ?near \<longleftrightarrow> (\<exists>e \<in> set (node_edges g u). joins False e u v)"
    by (simp only: set_concat set_map edges image_image) blast
  moreover have "e \<in> set (node_edges g u)" if "e \<in> set g" "joins False e u v" for e
    using that by (auto simp: node_edges_def joins_def)
  moreover have "e = NodeE (ele_id e)" if "e \<in> set ns" for e
    using assms(3) that by (cases e) (auto simp: list_all_iff)
  moreover have "v \<in> set (map ele_id (intersect (neighborhood g [NodeE u]) ns)) \<longleftrightarrow>
      NodeE v \<in> set (intersect (neighborhood g [NodeE u]) ns)"
  proof
    assume "v \<in> set (map ele_id (intersect (neighborhood g [NodeE u]) ns))"
    then obtain e where "e \<in> set (intersect (neighborhood g [NodeE u]) ns)" "v = ele_id e" by auto
    then show "NodeE v \<in> set (intersect (neighborhood g [NodeE u]) ns)" using calculation by (metis Int_iff)
  qed force
  ultimately show ?thesis using set_node_edges[of g u] by auto
qed

text \<open>Removal from the end: what is left is what the predicate does not hold of.\<close>

lemma mset_unmerge_at:
  assumes "i < length c"
  shows "add_mset (c ! i) (mset (unmerge_at c i)) = mset c"
proof -
  have c: "c = butlast c @ [last c]" using assms by (intro append_butlast_last_id[symmetric]) auto
  show ?thesis
  proof (cases "i = length c - 1")
    case True
    moreover have "c \<noteq> []" using assms by auto
    ultimately have "c ! i = last c" by (simp add: last_conv_nth)
    then show ?thesis using True arg_cong[OF c, of mset] by (simp add: unmerge_at_def)
  next
    case False
    then have i: "i < length (butlast c)" using assms by simp
    then have "c ! i = butlast c ! i" by (simp add: nth_butlast)
    then have "add_mset (c ! i) (mset ((butlast c)[i := last c])) = add_mset (last c) (mset (butlast c))"
      using i mset_update[OF i, of "last c"] nth_mem_mset[OF i] by simp
    also have "\<dots> = mset c" using arg_cong[OF c, of mset] by simp
    finally show ?thesis using i by (auto simp: unmerge_at_def)
  qed
qed

lemma nth_unmerge_at:
  assumes "i < length c" "i \<le> j" "j < length (unmerge_at c i)"
  shows "\<exists>k. i < k \<and> k < length c \<and> unmerge_at c i ! j = c ! k \<or> j \<noteq> i \<and> unmerge_at c i ! j = c ! j \<and> j < length c"
proof (cases "i = length c - 1")
  case False
  have "c \<noteq> []" using assms(1) by auto
  then show ?thesis
    using assms False by (cases "j = i") (auto simp: unmerge_at_def last_conv_nth nth_butlast split: if_splits)
qed (use assms in \<open>simp add: unmerge_at_def\<close>)

lemma length_unmerge_at: "length (unmerge_at c i) = length c - 1"
  by (simp add: unmerge_at_def)

lemma unmerge_by_below_mset:
  "n \<le> length c \<Longrightarrow> (\<forall>j. n \<le> j \<longrightarrow> j < length c \<longrightarrow> \<not> P (c ! j)) \<Longrightarrow>
     mset (unmerge_by_below P c n) = filter_mset (\<lambda>e. \<not> P e) (mset c)"
proof (induction n arbitrary: c)
  case 0
  then have "\<forall>e \<in># mset c. \<not> P e" by (auto simp: in_set_conv_nth)
  then have "filter_mset (\<lambda>e. \<not> P e) (mset c) = filter_mset (\<lambda>e. True) (mset c)"
    by (intro filter_mset_cong0) simp
  then show ?case by simp
next
  case (Suc i)
  show ?case
  proof (cases "P (c ! i)")
    case True
    have "\<not> P (unmerge_at c i ! j)" if "i \<le> j" "j < length (unmerge_at c i)" for j
      using nth_unmerge_at[OF _ that] Suc.prems by (metis Suc_le_eq le_neq_implies_less that(1))
    then have "mset (unmerge_by_below P (unmerge_at c i) i) = filter_mset (\<lambda>e. \<not> P e) (mset (unmerge_at c i))"
      using Suc.prems(1) by (intro Suc.IH) (simp_all add: length_unmerge_at)
    also have "\<dots> = filter_mset (\<lambda>e. \<not> P e) (mset c)"
      using mset_unmerge_at[of i c] Suc.prems(1) True by (metis Suc_le_eq filter_mset_add_mset)
    finally show ?thesis using True by simp
  next
    case False
    then have "\<forall>j. i \<le> j \<longrightarrow> j < length c \<longrightarrow> \<not> P (c ! j)"
      using Suc.prems(2) by (metis Suc_leI le_neq_implies_less)
    then show ?thesis using Suc.IH[of c] Suc.prems(1) False by simp
  qed
qed

lemma set_no_loops: "set (no_loops es) = {e \<in> set es. \<not> is_loop e}"
proof -
  have "mset (no_loops es) = filter_mset (\<lambda>e. \<not> is_loop e) (mset es)"
    unfolding no_loops_def unmerge_by_def by (rule unmerge_by_below_mset) auto
  then have "set_mset (mset (no_loops es)) = {e \<in> set es. \<not> is_loop e}" by simp
  then show ?thesis by simp
qed

lemma by_group_filters: "by_group c = (filter is_node c, filter is_edge c)"
proof -
  have "foldl (\<lambda>(ns, es). \<lambda>e. if is_node e then (ns @ [e], es) else (ns, es @ [e])) (ns, es) c
      = (ns @ filter is_node c, es @ filter is_edge c)" for ns es
    by (induction c arbitrary: ns es) (auto simp: is_edge_def)
  then show ?thesis by (simp add: by_group_def)
qed

subsection \<open>The lightest edge\<close>

definition weighted :: "weight \<Rightarrow> element set \<Rightarrow> bool" where
  "weighted w E \<longleftrightarrow> (\<forall>e \<in> E. \<exists>r \<ge> 0. w e = JNum r)"

lemma lightest_edge:
  assumes "weighted w (set L)"
  shows "case foldl (\<lambda>(best, d). \<lambda>e. if js_lt (w e) d \<or> best = None then (Some e, w e) else (best, d)) (None, JInf) L of
      (None, d) \<Rightarrow> L = [] \<and> d = JInf
    | (Some e, d) \<Rightarrow> e \<in> set L \<and> d = w e \<and> (\<forall>e' \<in> set L. \<not> js_lt (w e') d)"
  using assms
proof (induction L rule: rev_induct)
  case (snoc e L)
  have w: "weighted w (set L)" using snoc.prems by (simp add: weighted_def)
  obtain r where r: "w e = JNum r" using snoc.prems by (auto simp: weighted_def)
  obtain b d where bd: "foldl (\<lambda>(best, d). \<lambda>e. if js_lt (w e) d \<or> best = None then (Some e, w e) else (best, d))
      (None, JInf) L = (b, d)" by fastforce
  show ?case
  proof (cases b)
    case None then show ?thesis using snoc.IH[OF w] bd r by simp
  next
    case (Some e0)
    then have e0: "e0 \<in> set L" "d = w e0" "\<forall>e' \<in> set L. \<not> js_lt (w e') (w e0)"
      using snoc.IH[OF w] bd by auto
    obtain r0 where r0: "w e0 = JNum r0" using e0(1) w by (auto simp: weighted_def)
    have "\<not> js_lt (w e') (JNum r)" if "r < r0" "e' \<in> set L" for e'
      using e0(2,3) that r0 w by (fastforce simp: weighted_def)
    then show ?thesis using bd Some e0 r r0 by auto
  qed
qed simp

lemma dist_between_spec:
  assumes "graph g" "set E \<subseteq> set g" "weighted w (set E)" "dist_between directed w g E u v = (b, d)"
  shows "d = JInf \<or> (\<exists>e r. e \<in> set E \<and> joins directed e u v \<and> w e = JNum r \<and> d = JNum r \<and> b = Some e)"
    and "e \<in> set E \<Longrightarrow> joins directed e u v \<Longrightarrow> \<exists>r r'. w e = JNum r' \<and> d = JNum r \<and> 0 \<le> r \<and> r \<le> r'"
proof -
  let ?L = "intersect (edges_with directed g [NodeE u] [NodeE v]) E"
  have "set (edges_with directed g [NodeE u] [NodeE v]) \<subseteq> set g" by (auto simp: set_edges_with[OF assms(1)])
  then have L: "set ?L = {e \<in> set E. joins directed e u v}"
    using set_intersect[OF assms(1) _ assms(2)] set_edges_with[OF assms(1)] assms(2) by auto
  then have "weighted w (set ?L)" using assms(3) by (simp add: weighted_def)
  note least = lightest_edge[OF this, folded dist_between_def, unfolded assms(4)]
  show "d = JInf \<or> (\<exists>e r. e \<in> set E \<and> joins directed e u v \<and> w e = JNum r \<and> d = JNum r \<and> b = Some e)"
    using least L assms(3) by (cases b) (auto simp: weighted_def)
  show "\<exists>r r'. w e = JNum r' \<and> d = JNum r \<and> 0 \<le> r \<and> r \<le> r'" if e: "e \<in> set E" "joins directed e u v"
  proof (cases b)
    case None
    then show ?thesis using least L e by auto
  next
    case (Some e0)
    then have e0: "e0 \<in> set E" "d = w e0" "\<not> js_lt (w e) d" using least L e by auto
    obtain r r' where "w e0 = JNum r" "0 \<le> r" "w e = JNum r'" using assms(3) e0(1) e(1) unfolding weighted_def by metis
    then show ?thesis using e0 by auto
  qed
qed

end
