(* ===== verification/ShortestPaths.thy ===== *)
theory ShortestPaths
  imports PathFacts
begin

text \<open>
  \<open>dijkstra\<close> of \<open>cytoscape.js\<close> finds the weights of lightest walks: on a graph whose elements have
  distinct ids and whose edges have their ends, with weights that are numbers from zero on, the loop
  ends, and every distance it keeps is the least weight of a walk from the root, or infinity when
  there is none.
\<close>

subsection \<open>Walks\<close>

inductive walk :: "bool \<Rightarrow> weight \<Rightarrow> collection \<Rightarrow> string \<Rightarrow> real \<Rightarrow> string \<Rightarrow> bool" for directed w c origin where
  walk_start: "NodeE origin \<in> set c \<Longrightarrow> walk directed w c origin 0 origin"
| walk_edge: "walk directed w c origin x u \<Longrightarrow> e \<in> set c \<Longrightarrow> joins directed e u v \<Longrightarrow> NodeE v \<in> set c
    \<Longrightarrow> w e = JNum r \<Longrightarrow> walk directed w c origin (x + r) v"

lemma walk_node: "walk directed w c origin x u \<Longrightarrow> NodeE u \<in> set c"
  by (induction rule: walk.induct) auto

lemma joins_edge: "joins directed e u v \<Longrightarrow> is_edge e"
  by (cases e) (auto simp: joins_def is_edge_def)

lemma walk_from_zero:
  assumes "weighted w {e \<in> set c. is_edge e}"
  shows "walk directed w c origin x u \<Longrightarrow> 0 \<le> x"
proof (induction rule: walk.induct)
  case (walk_edge x u e v r)
  then have "0 \<le> r" using assms joins_edge[of directed e u v] by (fastforce simp: weighted_def)
  then show ?case using walk_edge.IH by simp
qed simp

subsection \<open>The invariant\<close>

text \<open>\<open>V\<close> the vertices, \<open>E\<close> the edges without loops, \<open>K\<close> the vertices taken from the queue.\<close>

definition relaxed :: "bool \<Rightarrow> weight \<Rightarrow> string set \<Rightarrow> element set \<Rightarrow> (string \<times> jsnum) list \<Rightarrow> string \<Rightarrow> bool" where
  "relaxed directed w V E d k \<longleftrightarrow>
     (\<forall>x e v r. get_dist d k = JNum x \<longrightarrow> e \<in> E \<longrightarrow> joins directed e k v \<longrightarrow> v \<in> V \<longrightarrow> w e = JNum r \<longrightarrow>
        (\<exists>y. get_dist d v = JNum y \<and> y \<le> x + r))"

definition sound :: "bool \<Rightarrow> weight \<Rightarrow> collection \<Rightarrow> string \<Rightarrow> string set \<Rightarrow> string set \<Rightarrow> dijkstra_state \<Rightarrow> bool" where
  "sound directed w c origin V K s \<longleftrightarrow>
     K \<union> set (dj_queue s) = V \<and> K \<inter> set (dj_queue s) = {} \<and> distinct (dj_queue s) \<and>
     is_heap (dist_cmp (dj_dist s)) (dj_queue s) \<and>
     (\<forall>v \<in> V. get_dist (dj_dist s) v = JInf \<or> (\<exists>x. get_dist (dj_dist s) v = JNum x \<and> walk directed w c origin x v)) \<and>
     get_dist (dj_dist s) origin = JNum 0 \<and>
     (\<forall>k \<in> K. \<forall>q \<in> set (dj_queue s). \<not> js_lt (get_dist (dj_dist s) q) (get_dist (dj_dist s) k)) \<and>
     (\<forall>k \<in> K. map_of (dj_known s) k = Some (get_dist (dj_dist s) k))"

lemma soundD:
  assumes "sound directed w c origin V K s"
  shows "K \<union> set (dj_queue s) = V" "K \<inter> set (dj_queue s) = {}" "distinct (dj_queue s)"
    "is_heap (dist_cmp (dj_dist s)) (dj_queue s)"
    "v \<in> V \<Longrightarrow> get_dist (dj_dist s) v = JInf \<or> (\<exists>x. get_dist (dj_dist s) v = JNum x \<and> walk directed w c origin x v)"
    "get_dist (dj_dist s) origin = JNum 0"
    "k \<in> K \<Longrightarrow> q \<in> set (dj_queue s) \<Longrightarrow> \<not> js_lt (get_dist (dj_dist s) q) (get_dist (dj_dist s) k)"
    "k \<in> K \<Longrightarrow> map_of (dj_known s) k = Some (get_dist (dj_dist s) k)"
  using assms unfolding sound_def by blast+

lemma sound_proper:
  assumes "sound directed w c origin V K s"
  shows "proper_on (dj_dist s) V"
  using soundD(5)[OF assms] by (auto simp: proper_on_def a_distance_def)

text \<open>Distances fall, and keep their values on \<open>K\<close>.\<close>

definition falls :: "string set \<Rightarrow> string set \<Rightarrow> dijkstra_state \<Rightarrow> dijkstra_state \<Rightarrow> bool" where
  "falls V K s s' \<longleftrightarrow>
     (\<forall>v \<in> V. \<forall>y. get_dist (dj_dist s) v = JNum y \<longrightarrow> (\<exists>y' \<le> y. get_dist (dj_dist s') v = JNum y')) \<and>
     (\<forall>k \<in> K. get_dist (dj_dist s') k = get_dist (dj_dist s) k)"

lemma falls_refl [simp]: "falls V K s s"
  by (auto simp: falls_def)

lemma falls_trans: "falls V K a b \<Longrightarrow> falls V K b c \<Longrightarrow> falls V K a c"
  unfolding falls_def by (metis order_trans)

lemma falls_relaxed:
  assumes "falls V K s s'" "relaxed directed w V E (dj_dist s) k" "k \<in> K"
  shows "relaxed directed w V E (dj_dist s') k"
  unfolding relaxed_def
proof (intro allI impI)
  fix x e v r
  assume "get_dist (dj_dist s') k = JNum x" "e \<in> E" "joins directed e k v" "v \<in> V" "w e = JNum r"
  then obtain y where "get_dist (dj_dist s) v = JNum y" "y \<le> x + r"
    using assms unfolding falls_def relaxed_def by metis
  then show "\<exists>y. get_dist (dj_dist s') v = JNum y \<and> y \<le> x + r"
    using assms(1) \<open>v \<in> V\<close> unfolding falls_def by (metis order_trans)
qed

text \<open>One neighbour.\<close>

lemma relax_step:
  assumes g: "graph g" "set es \<subseteq> set g" "weighted w (set es)"
    and c: "set es \<subseteq> set c" "V = {v. NodeE v \<in> set c}" "weighted w {e \<in> set c. is_edge e}"
    and s: "sound directed w c origin V K s" and u: "u \<in> K" "get_dist (dj_dist s) u = JNum x"
    and K: "\<And>k. k \<in> K \<Longrightarrow> \<not> js_lt (JNum x) (get_dist (dj_dist s) k)" and v: "v \<in> V"
  defines "s' \<equiv> dijkstra_relax directed w g es u (JNum x) s v"
  shows "sound directed w c origin V K s' \<and> falls V K s s' \<and>
    (\<forall>e r. e \<in> set es \<longrightarrow> joins directed e u v \<longrightarrow> w e = JNum r \<longrightarrow>
       (\<exists>y. get_dist (dj_dist s') v = JNum y \<and> y \<le> x + r))"
proof -
  obtain b d where bd: "dist_between directed w g es u v = (b, d)" by fastforce
  note spec = dist_between_spec[OF g bd]
  note inv = soundD[OF s]
  have uV: "u \<in> V" using u(1) inv(1) by blast
  have walk: "walk directed w c origin x u" using inv(5)[OF uV] u(2) by auto
  have x: "0 \<le> x" by (rule walk_from_zero[OF c(3) walk])
  show ?thesis
  proof (cases "js_lt (js_add (JNum x) d) (get_dist (dj_dist s) v)")
    case False
    then have s': "s' = s" by (simp add: s'_def dijkstra_relax_def bd Let_def)
    have "\<exists>y. get_dist (dj_dist s) v = JNum y \<and> y \<le> x + r"
      if e: "e \<in> set es" "joins directed e u v" "w e = JNum r" for e r
    proof -
      obtain r0 where "d = JNum r0" "r0 \<le> r" using spec(2)[OF e(1,2)] e(3) by auto
      then show ?thesis using False inv(5)[OF v] by auto
    qed
    then show ?thesis using s unfolding s' by auto
  next
    case True
    then obtain e r where e: "e \<in> set es" "joins directed e u v" "w e = JNum r" "d = JNum r" "b = Some e"
      using spec(1) by auto
    have r: "0 \<le> r" using g(3) e(1,3) by (auto simp: weighted_def)
    let ?d = "AList.update v (JNum (x + r)) (dj_dist s)"
    have s': "s' = s\<lparr>dj_dist := ?d, dj_queue := update_item (dist_cmp ?d) (dj_queue s) v,
        dj_prev := AList.update v (u, b) (dj_prev s)\<rparr>"
      using True by (simp add: s'_def dijkstra_relax_def bd Let_def e(4))
    have lt: "js_lt (JNum (x + r)) (get_dist (dj_dist s) v)" using True by (simp add: e(4))
    have vK: "v \<notin> K"
    proof
      assume "v \<in> K"
      then have "\<not> js_lt (JNum x) (get_dist (dj_dist s) v)" by (rule K)
      then show False using lt r inv(5)[OF v] by auto
    qed
    have origin: "v \<noteq> origin" using lt x r inv(6) by auto
    have "set (dj_queue s) \<subseteq> V" using inv(1) by blast
    then have "proper_on (dj_dist s) (set (dj_queue s))"
      using sound_proper[OF s] by (auto simp: proper_on_def)
    note q = queue_update[OF this inv(4,3), of "JNum (x + r)" v, simplified a_distance_def, simplified]
    have queue: "set (dj_queue s') = set (dj_queue s)" "distinct (dj_queue s')"
      using q(2) inv(3) mset_eq_setD[OF q(2)] mset_eq_imp_distinct_iff[OF q(2)] by (simp_all add: s')
    have dist: "get_dist (dj_dist s') z = (if z = v then JNum (x + r) else get_dist (dj_dist s) z)" for z
      by (simp add: s' get_dist_update)
    have "NodeE v \<in> set c" using v c(2) by simp
    then have walk': "walk directed w c origin (x + r) v"
      using walk_edge[OF walk _ e(2) _ e(3)] e(1) c(1) by blast
    have keep: "get_dist (dj_dist s') k = get_dist (dj_dist s) k" if "k \<in> K" for k using vK that by (auto simp: dist)
    have "sound directed w c origin V K s'"
      unfolding sound_def
    proof (intro conjI ballI)
      show "K \<union> set (dj_queue s') = V" "K \<inter> set (dj_queue s') = {}" "distinct (dj_queue s')"
        using inv(1,2) queue by simp_all
      show "is_heap (dist_cmp (dj_dist s')) (dj_queue s')" using q(1) by (simp add: s')
      show "get_dist (dj_dist s') origin = JNum 0" using origin inv(6) by (simp add: dist)
      show "get_dist (dj_dist s') z = JInf \<or> (\<exists>x. get_dist (dj_dist s') z = JNum x \<and> walk directed w c origin x z)"
        if "z \<in> V" for z
        using inv(5)[OF that] walk' by (auto simp: dist)
      show "\<not> js_lt (get_dist (dj_dist s') q) (get_dist (dj_dist s') k)" if "k \<in> K" "q \<in> set (dj_queue s')" for k q
      proof (cases "q = v")
        case True
        have "\<not> js_lt (JNum (x + r)) (get_dist (dj_dist s) k)"
          using K[OF that(1)] r inv(5)[of k] inv(1) that(1) by auto
        then show ?thesis using True keep[OF that(1)] by (simp add: dist)
      next
        case False
        then show ?thesis using inv(7)[OF that(1)] that(2) keep[OF that(1)] by (simp add: dist queue)
      qed
      show "map_of (dj_known s') k = Some (get_dist (dj_dist s') k)" if "k \<in> K" for k
        using inv(8)[OF that] keep[OF that] by (simp add: s')
    qed
    moreover have "falls V K s s'"
      using lt keep by (auto simp: falls_def dist)
    moreover have "\<exists>y. get_dist (dj_dist s') v = JNum y \<and> y \<le> x + r'"
      if "e' \<in> set es" "joins directed e' u v" "w e' = JNum r'" for e' r'
      using spec(2)[OF that(1,2)] that(3) by (auto simp: dist e(4))
    ultimately show ?thesis by blast
  qed
qed

text \<open>All neighbours.\<close>

lemma relax_all:
  assumes g: "graph g" "set es \<subseteq> set g" "weighted w (set es)"
    and c: "set es \<subseteq> set c" "V = {v. NodeE v \<in> set c}" "weighted w {e \<in> set c. is_edge e}"
    and s: "sound directed w c origin V K s" and u: "u \<in> K" "get_dist (dj_dist s) u = JNum x"
    and K: "\<And>k. k \<in> K \<Longrightarrow> \<not> js_lt (JNum x) (get_dist (dj_dist s) k)" and vs: "set vs \<subseteq> V"
  shows "sound directed w c origin V K (foldl (dijkstra_relax directed w g es u (JNum x)) s vs) \<and>
    falls V K s (foldl (dijkstra_relax directed w g es u (JNum x)) s vs) \<and>
    (\<forall>v e r. v \<in> set vs \<longrightarrow> e \<in> set es \<longrightarrow> joins directed e u v \<longrightarrow> w e = JNum r \<longrightarrow>
       (\<exists>y. get_dist (dj_dist (foldl (dijkstra_relax directed w g es u (JNum x)) s vs)) v = JNum y \<and> y \<le> x + r))"
  using s u(2) K vs
proof (induction vs arbitrary: s)
  case (Cons v vs)
  let ?s = "dijkstra_relax directed w g es u (JNum x) s v"
  let ?final = "foldl (dijkstra_relax directed w g es u (JNum x)) ?s vs"
  have step: "sound directed w c origin V K ?s" "falls V K s ?s"
    "\<And>e r. e \<in> set es \<Longrightarrow> joins directed e u v \<Longrightarrow> w e = JNum r \<Longrightarrow> \<exists>y. get_dist (dj_dist ?s) v = JNum y \<and> y \<le> x + r"
    using relax_step[OF g c Cons.prems(1) u(1) Cons.prems(2,3)] Cons.prems(4) by simp_all
  have same: "get_dist (dj_dist ?s) k = get_dist (dj_dist s) k" if "k \<in> K" for k
    using step(2) that by (simp add: falls_def)
  have IH: "sound directed w c origin V K ?final" "falls V K ?s ?final"
    "\<And>z e r. z \<in> set vs \<Longrightarrow> e \<in> set es \<Longrightarrow> joins directed e u z \<Longrightarrow> w e = JNum r \<Longrightarrow>
       \<exists>y. get_dist (dj_dist ?final) z = JNum y \<and> y \<le> x + r"
    using Cons.IH[OF step(1)] Cons.prems(2-4) same u(1) by simp_all
  have "\<exists>y. get_dist (dj_dist ?final) z = JNum y \<and> y \<le> x + r"
    if z: "z \<in> set (v # vs)" "e \<in> set es" "joins directed e u z" "w e = JNum r" for z e r
  proof (cases "z \<in> set vs")
    case True then show ?thesis using IH(3) z by blast
  next
    case False
    then have "z = v" using z(1) by simp
    then obtain y where "get_dist (dj_dist ?s) v = JNum y" "y \<le> x + r" using step(3) z by blast
    then show ?thesis using IH(2) Cons.prems(4) \<open>z = v\<close> unfolding falls_def by (metis list.set_intros(1) order_trans subset_iff)
  qed
  then show ?case using IH(1) falls_trans[OF step(2) IH(2)] by simp
qed simp

text \<open>One turn of the loop.\<close>

lemma dijkstra_turn_sound:
  assumes g: "graph g" "set es \<subseteq> set g" "weighted w (set es)"
    and c: "set es \<subseteq> set c" "V = {v. NodeE v \<in> set c}" "weighted w {e \<in> set c. is_edge e}"
    and ns: "set ns = {e \<in> set c. is_node e}" "set ns \<subseteq> set g"
    and s: "sound directed w c origin V K s" "\<forall>k \<in> K. relaxed directed w V (set es) (dj_dist s) k"
    and pop: "heappop (dist_cmp (dj_dist s)) (dj_queue s) = (q, Some u)"
  defines "s' \<equiv> dijkstra_turn directed w g ns es u (s\<lparr>dj_queue := q\<rparr>)"
  shows "sound directed w c origin V (insert u K) s' \<and>
    (\<forall>k \<in> insert u K. relaxed directed w V (set es) (dj_dist s') k) \<and> mset (dj_queue s') = mset q"
proof -
  note inv = soundD[OF s(1)]
  have "set (dj_queue s) \<subseteq> V" using inv(1) by blast
  then have "proper_on (dj_dist s) (set (dj_queue s))" using sound_proper[OF s(1)] by (auto simp: proper_on_def)
  note pq = queue_pop[OF this inv(4) pop]
  have queue: "mset (dj_queue s) = mset (u # q)" using pq by simp
  have set_q: "set (dj_queue s) = insert u (set q)" "distinct (u # q)"
    using mset_eq_setD[OF queue] mset_eq_imp_distinct_iff[OF queue] inv(3) by simp_all
  have uV: "u \<in> V" "u \<notin> K" using set_q inv(1,2) by auto
  let ?du = "get_dist (dj_dist s) u"
  let ?s = "s\<lparr>dj_queue := q, dj_known := AList.update u ?du (dj_known s)\<rparr>"
  have uK: "\<not> js_lt ?du (get_dist (dj_dist s) k)" if "k \<in> insert u K" for k
    using that inv(7)[of k u] set_q js_lt_irrefl by auto
  have sound: "sound directed w c origin V (insert u K) ?s"
    unfolding sound_def
  proof (intro conjI ballI)
    show "insert u K \<union> set (dj_queue ?s) = V" "insert u K \<inter> set (dj_queue ?s) = {}" "distinct (dj_queue ?s)"
      using inv(1,2) set_q by auto
    show "is_heap (dist_cmp (dj_dist ?s)) (dj_queue ?s)" using pq by simp
    show "get_dist (dj_dist ?s) origin = JNum 0" using inv(6) by simp
    show "get_dist (dj_dist ?s) z = JInf \<or> (\<exists>x. get_dist (dj_dist ?s) z = JNum x \<and> walk directed w c origin x z)"
      if "z \<in> V" for z using inv(5)[OF that] by simp
    show "\<not> js_lt (get_dist (dj_dist ?s) z) (get_dist (dj_dist ?s) k)" if "k \<in> insert u K" "z \<in> set (dj_queue ?s)" for k z
      using that pq inv(7)[of k z] set_q by auto
    show "map_of (dj_known ?s) k = Some (get_dist (dj_dist ?s) k)" if "k \<in> insert u K" for k
      using that inv(8)[of k] uV(2) by (auto simp: js_simps)
  qed
  show ?thesis
  proof (cases "?du = JInf")
    case True
    then have "s' = ?s" by (simp add: s'_def dijkstra_turn_def Let_def)
    then show ?thesis using sound s(2) True by (auto simp: relaxed_def)
  next
    case False
    then obtain x where x: "?du = JNum x" using inv(5)[OF uV(1)] by auto
    let ?vs = "map ele_id (intersect (neighborhood g [NodeE u]) ns)"
    have s': "s' = foldl (dijkstra_relax directed w g es u (JNum x)) ?s ?vs"
      by (simp add: s'_def dijkstra_turn_def Let_def x)
    have nodes: "list_all is_node ns" using ns(1) by (auto simp: list_all_iff)
    have near: "v \<in> set ?vs \<longleftrightarrow> v \<in> V \<and> (\<exists>e \<in> set g. joins False e u v)" for v
      unfolding neighbor_iff[OF g(1) ns(2) nodes] by (simp add: ns(1) c(2))
    then have "set ?vs \<subseteq> V" by blast
    then have all: "sound directed w c origin V (insert u K) s'" "falls V (insert u K) ?s s'"
      "\<And>v e r. v \<in> set ?vs \<Longrightarrow> e \<in> set es \<Longrightarrow> joins directed e u v \<Longrightarrow> w e = JNum r \<Longrightarrow>
         \<exists>y. get_dist (dj_dist s') v = JNum y \<and> y \<le> x + r"
      using relax_all[OF g c sound, of u x ?vs] uK x unfolding s' by simp_all
    have u: "relaxed directed w V (set es) (dj_dist s') u"
      unfolding relaxed_def
    proof (intro allI impI)
      fix y e v r
      assume y: "get_dist (dj_dist s') u = JNum y" and e: "e \<in> set es" "joins directed e u v" "v \<in> V" "w e = JNum r"
      have "y = x" using y all(2) x by (simp add: falls_def)
      moreover have "v \<in> set ?vs" using e g(2) near by (auto simp: joins_def)
      ultimately show "\<exists>z. get_dist (dj_dist s') v = JNum z \<and> z \<le> y + r" using all(3) e by blast
    qed
    have "relaxed directed w V (set es) (dj_dist s') k" if "k \<in> K" for k
      using falls_relaxed[OF all(2), of directed w "set es" k] s(2) that by simp
    moreover have "mset (dj_queue s') = mset q"
    proof -
      have fin: "set (dj_queue s') = set q" "distinct (dj_queue s')"
        using soundD(1-3)[OF all(1)] soundD(1-3)[OF sound] by auto
      then show ?thesis using set_q(2) by (simp add: set_eq_iff_mset_eq_distinct)
    qed
    ultimately show ?thesis using all(1) u by blast
  qed
qed

text \<open>The loop.\<close>

lemma dijkstra_loop_sound:
  assumes g: "graph g" "set es \<subseteq> set g" "weighted w (set es)"
    and c: "set es \<subseteq> set c" "V = {v. NodeE v \<in> set c}" "weighted w {e \<in> set c. is_edge e}"
    and ns: "set ns = {e \<in> set c. is_node e}" "set ns \<subseteq> set g"
    and s: "sound directed w c origin V K s" "\<forall>k \<in> K. relaxed directed w V (set es) (dj_dist s) k"
  shows "\<exists>s'. dijkstra_loop directed w g ns es s = Some s' \<and> sound directed w c origin V V s' \<and>
    (\<forall>k \<in> V. relaxed directed w V (set es) (dj_dist s') k)"
  using s
proof (induction "length (dj_queue s)" arbitrary: s K)
  case 0
  then have "dj_queue s = []" by simp
  then have "heappop (dist_cmp (dj_dist s)) (dj_queue s) = ([], None)" by (simp add: heappop_def)
  moreover have "K = V" using soundD(1)[OF "0.prems"(1)] \<open>dj_queue s = []\<close> by simp
  ultimately show ?case using "0.prems" by (simp add: dijkstra_loop.simps)
next
  case (Suc n)
  obtain q r where pop: "heappop (dist_cmp (dj_dist s)) (dj_queue s) = (q, r)" by fastforce
  have "dj_queue s \<noteq> []" using Suc.hyps(2) by auto
  then obtain u where u: "r = Some u" using heappop_None[of "dist_cmp (dj_dist s)" "dj_queue s"] pop by auto
  let ?s = "dijkstra_turn directed w g ns es u (s\<lparr>dj_queue := q\<rparr>)"
  note turn = dijkstra_turn_sound[OF g c ns Suc.prems pop[unfolded u]]
  have "mset (dj_queue s) = add_mset u (mset q)" using heappop_Some[OF pop[unfolded u]] by blast
  then have "length (dj_queue s) = Suc (length q)" by (metis mset.simps(2) mset_eq_length list.size(4) add.right_neutral add_Suc_right)
  moreover have "length (dj_queue ?s) = length q" using turn mset_eq_length by blast
  ultimately have "n = length (dj_queue ?s)" using Suc.hyps(2) by simp
  from Suc.hyps(1)[OF this] turn have "\<exists>s'. dijkstra_loop directed w g ns es ?s = Some s' \<and>
      sound directed w c origin V V s' \<and> (\<forall>k \<in> V. relaxed directed w V (set es) (dj_dist s') k)" by blast
  then show ?case by (subst dijkstra_loop.simps) (simp add: pop u)
qed

text \<open>The start.\<close>

lemma dijkstra_start_queue:
  fixes origin
  assumes "distinct (map ele_id ns)"
  defines "s \<equiv> dijkstra_start ns origin"
  shows "mset (dj_queue s) = mset (map ele_id ns) \<and> is_heap (dist_cmp (dj_dist s)) (dj_queue s) \<and>
    (\<forall>v \<in> set (map ele_id ns). get_dist (dj_dist s) v = (if v = origin then JNum 0 else JInf))"
  using assms(1) unfolding s_def
proof (induction ns rule: rev_induct)
  case Nil
  show ?case by (simp add: dijkstra_start_def heap_from_def)
next
  case (snoc n ns)
  let ?s = "dijkstra_start ns origin" and ?v = "ele_id n"
  let ?x = "if ?v = origin then JNum 0 else JInf"
  let ?d = "AList.update ?v ?x (dj_dist ?s)"
  have s: "dijkstra_start (ns @ [n]) origin = ?s\<lparr>dj_dist := ?d, dj_queue := heappush (dist_cmp ?d) (dj_queue ?s) ?v\<rparr>"
    by (simp add: dijkstra_start_def Let_def)
  have IH: "mset (dj_queue ?s) = mset (map ele_id ns)" "is_heap (dist_cmp (dj_dist ?s)) (dj_queue ?s)"
    "\<And>v. v \<in> set (map ele_id ns) \<Longrightarrow> get_dist (dj_dist ?s) v = (if v = origin then JNum 0 else JInf)"
    using snoc by fastforce+
  have ids: "set (dj_queue ?s) = set (map ele_id ns)" by (rule mset_eq_setD[OF IH(1)])
  have new: "?v \<notin> set (dj_queue ?s)" using snoc.prems ids by simp
  then have same: "get_dist ?d v = get_dist (dj_dist ?s) v" if "v \<in> set (dj_queue ?s)" for v
    using that by (auto simp: get_dist_update)
  have "agree (dist_cmp (dj_dist ?s)) (dist_cmp ?d) (set (dj_queue ?s))"
    unfolding agree_def below_def dist_cmp_def using same by simp
  then have heap: "is_heap (dist_cmp ?d) (dj_queue ?s)" using IH(2) is_heap_agree by blast
  have dist: "get_dist ?d v = (if v = origin then JNum 0 else JInf)" if "v \<in> set (map ele_id (ns @ [n]))" for v
    using that IH(3) by (auto simp: get_dist_update)
  then have proper: "proper_on ?d (set (map ele_id (ns @ [n])))" by (auto simp: proper_on_def a_distance_def)
  have "set (dj_queue ?s @ [?v]) \<subseteq> set (map ele_id (ns @ [n]))" using ids by auto
  from queue_push[OF proper this heap] show ?case using dist IH(1) unfolding s by (simp add: heappush_mset)
qed

lemma dijkstra_start_sound:
  assumes "distinct (map ele_id ns)" "V = set (map ele_id ns)" "origin \<in> V" "NodeE origin \<in> set c"
  shows "sound directed w c origin V {} (dijkstra_start ns origin)"
proof -
  let ?s = "dijkstra_start ns origin"
  have start: "mset (dj_queue ?s) = mset (map ele_id ns)" "is_heap (dist_cmp (dj_dist ?s)) (dj_queue ?s)"
    "\<And>v. v \<in> V \<Longrightarrow> get_dist (dj_dist ?s) v = (if v = origin then JNum 0 else JInf)"
    using dijkstra_start_queue[OF assms(1), of origin] assms(2) by auto
  have "set (dj_queue ?s) = V" using mset_eq_setD[OF start(1)] assms(2) by simp
  moreover have "distinct (dj_queue ?s)" using mset_eq_imp_distinct_iff[OF start(1)] assms(1) by simp
  ultimately show ?thesis using start assms(3) walk_start[OF assms(4)] unfolding sound_def by auto
qed

subsection \<open>The distances\<close>

lemma node_of_id: "is_node e \<Longrightarrow> e = NodeE (ele_id e)"
  by (induction e) auto

lemma joins_loop: "joins directed e u v \<Longrightarrow> is_loop e \<Longrightarrow> u = v"
  by (cases e) (auto simp: joins_def is_loop_def)

text \<open>A walk never beats a relaxed distance.\<close>

lemma relaxed_below_walks:
  assumes "\<And>v. v \<in> V \<Longrightarrow> relaxed directed w V E d v" "get_dist d origin = JNum 0"
    "E = {e \<in> set c. is_edge e \<and> \<not> is_loop e}" "V = {v. NodeE v \<in> set c}" "weighted w {e \<in> set c. is_edge e}"
  shows "walk directed w c origin x v \<Longrightarrow> \<exists>y \<le> x. get_dist d v = JNum y"
proof (induction rule: walk.induct)
  case walk_start
  then show ?case using assms(2) by auto
next
  case (walk_edge x u e v r)
  then obtain y where y: "y \<le> x" "get_dist d u = JNum y" by blast
  have u: "u \<in> V" using walk_node[OF walk_edge.hyps(1)] assms(4) by simp
  have e: "is_edge e" by (rule joins_edge[OF walk_edge.hyps(3)])
  then have r: "0 \<le> r" using assms(5) walk_edge.hyps(2,5) by (fastforce simp: weighted_def)
  show ?case
  proof (cases "is_loop e")
    case True
    then have "u = v" by (rule joins_loop[OF walk_edge.hyps(3)])
    then show ?thesis using y r by (intro exI[of _ y]) simp
  next
    case False
    then have "e \<in> E" using e walk_edge.hyps(2) assms(3) by simp
    then obtain z where "get_dist d v = JNum z" "z \<le> y + r"
      using assms(1)[OF u] y(2) walk_edge.hyps assms(4) unfolding relaxed_def by blast
    then show ?thesis using y(1) by (intro exI[of _ z]) simp
  qed
qed

text \<open>The vertices, their distances, and what the distances are.\<close>

definition lightest :: "bool \<Rightarrow> weight \<Rightarrow> collection \<Rightarrow> string \<Rightarrow> string \<Rightarrow> jsnum \<Rightarrow> bool" where
  "lightest directed w c origin v d \<longleftrightarrow>
     (\<exists>x. d = JNum x \<and> walk directed w c origin x v \<and> (\<forall>y. walk directed w c origin y v \<longrightarrow> x \<le> y)) \<or>
     (d = JInf \<and> (\<nexists>y. walk directed w c origin y v))"

text \<open>
  C20. Called on part of a graph whose elements have distinct ids and whose edges have their ends, with
  a root of that part and weights that are numbers from zero on, \<open>dijkstra\<close> ends, and for every node
  of the part \<open>distanceTo\<close> is the least weight of a walk from the root inside the part, or infinity
  when there is no walk.
\<close>
theorem dijkstra_shortest:
  assumes g: "graph g" "set c \<subseteq> set g" "distinct (map ele_id c)" and origin: "NodeE origin \<in> set c"
    and w: "weighted w {e \<in> set c. is_edge e}"
  shows "\<exists>s. dijkstra g c origin w directed = Some s \<and>
    (\<forall>v. NodeE v \<in> set c \<longrightarrow> (\<exists>d. dijkstra_distance_to s v = Some d \<and> lightest directed w c origin v d))"
proof -
  define V where "V = {v. NodeE v \<in> set c}"
  define ns where "ns = filter is_node c"
  define es where "es = no_loops (filter is_edge c)"
  have es: "set es = {e \<in> set c. is_edge e \<and> \<not> is_loop e}" by (auto simp: es_def set_no_loops)
  have "weighted w (set es)" using w by (auto simp: weighted_def es)
  moreover have "set es \<subseteq> set g" "set es \<subseteq> set c" using g(2) by (auto simp: es)
  ultimately have E: "set es \<subseteq> set g" "weighted w (set es)" "set es \<subseteq> set c" by simp_all
  have N: "set ns = {e \<in> set c. is_node e}" "set ns \<subseteq> set g" using g(2) by (auto simp: ns_def)
  have V: "V = set (map ele_id ns)"
  proof (intro equalityI subsetI)
    fix v assume "v \<in> V"
    then have "NodeE v \<in> set ns" by (simp add: V_def ns_def)
    then show "v \<in> set (map ele_id ns)" by force
  next
    fix v assume "v \<in> set (map ele_id ns)"
    then obtain e where e: "e \<in> set c" "is_node e" "v = ele_id e" by (auto simp: ns_def)
    have "e = NodeE v" using e(2,3) node_of_id[of e] by simp
    then show "v \<in> V" using e(1) by (simp add: V_def)
  qed
  have "distinct (map ele_id ns)" using g(3) by (auto simp: ns_def distinct_map inj_on_def)
  note start = dijkstra_start_sound[OF this V _ origin, of directed w]
  have "origin \<in> V" using origin by (simp add: V_def)
  from dijkstra_loop_sound[OF g(1) E V_def w N start[OF this]]
  obtain s where s: "dijkstra_loop directed w g ns es (dijkstra_start ns origin) = Some s"
    "sound directed w c origin V V s" "\<And>k. k \<in> V \<Longrightarrow> relaxed directed w V (set es) (dj_dist s) k" by auto
  note below = relaxed_below_walks[OF s(3) soundD(6)[OF s(2)] es V_def w]
  have "\<exists>d. dijkstra_distance_to s v = Some d \<and> lightest directed w c origin v d" if "NodeE v \<in> set c" for v
  proof -
    have v: "v \<in> V" using that by (simp add: V_def)
    show ?thesis
      using soundD(5,8)[OF s(2) v] below[of _ v] by (fastforce simp: dijkstra_distance_to_def lightest_def)
  qed
  moreover have "dijkstra g c origin w directed = Some s"
    using s(1) by (simp add: dijkstra_def by_group_filters ns_def es_def)
  ultimately show ?thesis by blast
qed


definition demo_graph :: collection where
  "demo_graph = [NodeE ''a'', NodeE ''b'', NodeE ''c'', NodeE ''d'', EdgeE ''ab'' ''a'' ''b'',
     EdgeE ''bc'' ''b'' ''c'', EdgeE ''ac'' ''a'' ''c'', EdgeE ''aa'' ''a'' ''a'']"

definition demo_weight :: weight where
  "demo_weight e = (if ele_id e = ''ac'' then JNum 5 else JNum 1)"

lemma dijkstra_shortest_witness:
  "graph demo_graph \<and> weighted demo_weight {e \<in> set demo_graph. is_edge e} \<and>
   (\<exists>s. dijkstra demo_graph demo_graph ''a'' demo_weight False = Some s \<and>
    (\<forall>v. NodeE v \<in> set demo_graph \<longrightarrow>
      (\<exists>d. dijkstra_distance_to s v = Some d \<and> lightest False demo_weight demo_graph ''a'' v d)))"
proof -
  have g: "graph demo_graph" by (simp add: graph_def demo_graph_def)
  have w: "weighted demo_weight {e \<in> set demo_graph. is_edge e}"
    by (simp add: weighted_def demo_weight_def)
  have d: "distinct (map ele_id demo_graph)" "NodeE ''a'' \<in> set demo_graph" by (simp_all add: demo_graph_def)
  show ?thesis using g w dijkstra_shortest[OF g subset_refl d(1,2) w, of False] by simp
qed

end
