(* ===== verification/SpanningForest.thy ===== *)
theory SpanningForest
  imports PathFacts
begin

text \<open>
  \<open>kruskal\<close> of \<open>cytoscape.js\<close> finds a spanning forest of least weight: its edges link what the
  collection links, no edge is on a cycle, and no set of edges that links as much weighs less.
\<close>

subsection \<open>Links\<close>

definition links :: "element set \<Rightarrow> (string \<times> string) set" where
  "links E = {(u, v). \<exists>e \<in> E. joins False e u v}"

definition linked :: "element set \<Rightarrow> string \<Rightarrow> string \<Rightarrow> bool" where
  "linked E u v \<longleftrightarrow> (u, v) \<in> (links E)\<^sup>*"

lemma joins_sym: "joins False e u v \<longleftrightarrow> joins False e v u"
  by (auto simp: joins_def)

lemma linked_refl [simp]: "linked E u u"
  by (simp add: linked_def)

lemma linked_trans: "linked E u v \<Longrightarrow> linked E v x \<Longrightarrow> linked E u x"
  unfolding linked_def by (rule rtrancl_trans)

lemma linked_edge: "e \<in> E \<Longrightarrow> joins False e u v \<Longrightarrow> linked E u v"
  by (auto simp: linked_def links_def)

lemma linked_sym: "linked E u v \<longleftrightarrow> linked E v u"
proof -
  have "sym (links E)" by (auto simp: links_def joins_sym intro!: symI)
  then show ?thesis unfolding linked_def by (meson sym_rtrancl symE)
qed

lemma linked_mono: "linked E u v \<Longrightarrow> E \<subseteq> F \<Longrightarrow> linked F u v"
  unfolding linked_def by (rule rtrancl_mono[THEN subsetD]) (auto simp: links_def)

lemma linked_within:
  assumes "\<And>e a b. e \<in> E \<Longrightarrow> joins False e a b \<Longrightarrow> linked F a b"
  shows "linked E u v \<Longrightarrow> linked F u v"
  unfolding linked_def[of E]
  by (induction rule: rtrancl_induct) (auto simp: links_def intro: linked_trans assms)

lemma linked_insert:
  assumes "joins False e s t"
  shows "linked (insert e E) u v \<longleftrightarrow>
    linked E u v \<or> linked E u s \<and> linked E t v \<or> linked E u t \<and> linked E s v" (is "_ \<longleftrightarrow> ?R v")
proof
  have ends: "a = s \<and> b = t \<or> a = t \<and> b = s" if "joins False e a b" for a b
    using assms that by (auto simp: joins_def)
  assume "linked (insert e E) u v"
  then show "?R v" unfolding linked_def[of "insert e E"]
  proof (induction rule: rtrancl_induct)
    case (step a b)
    from step.hyps(2) obtain f where f: "f = e \<or> f \<in> E" "joins False f a b" by (auto simp: links_def)
    show ?case
    proof (cases "f \<in> E")
      case True
      then have "linked E a b" using f(2) by (rule linked_edge)
      then show ?thesis using step.IH by (blast intro: linked_trans)
    next
      case False
      then show ?thesis using f ends step.IH linked_refl by (metis linked_sym)
    qed
  qed simp
next
  have e: "linked (insert e E) s t" "linked (insert e E) t s"
    using linked_edge[OF insertI1 assms] linked_sym by blast+
  have up: "linked E a b \<Longrightarrow> linked (insert e E) a b" for a b by (rule linked_mono) auto
  assume "?R v"
  then show "linked (insert e E) u v" using e up by (blast intro: linked_trans)
qed

text \<open>No edge lies on a cycle.\<close>

definition forest_like :: "element set \<Rightarrow> bool" where
  "forest_like T \<longleftrightarrow> (\<forall>e \<in> T. \<forall>s t. joins False e s t \<longrightarrow> \<not> linked (T - {e}) s t)"

lemma forest_insert:
  assumes "forest_like T" "joins False e s t" "\<not> linked T s t"
  shows "forest_like (insert e T)"
  unfolding forest_like_def
proof (intro ballI allI impI)
  fix f a b assume f: "f \<in> insert e T" "joins False f a b"
  have e: "e \<notin> T" using linked_edge assms(2,3) by blast
  show "\<not> linked (insert e T - {f}) a b"
  proof (cases "f = e")
    case True
    then have "a = s \<and> b = t \<or> a = t \<and> b = s" using assms(2) f(2) by (auto simp: joins_def)
    then show ?thesis using assms(3) True e linked_sym by auto
  next
    case False
    then have T: "f \<in> T" "insert e T - {f} = insert e (T - {f})" using f(1) by auto
    have no: "\<not> linked (T - {f}) a b" using assms(1) T(1) f(2) by (simp add: forest_like_def)
    have ab: "linked T a b" "linked T b a" using linked_edge[OF T(1) f(2)] linked_sym by blast+
    have up: "linked (T - {f}) x y \<Longrightarrow> linked T x y" for x y by (rule linked_mono) auto
    show ?thesis
      unfolding T(2) linked_insert[OF assms(2)]
      using no assms(3) up ab by (meson linked_sym linked_trans)
  qed
qed

subsection \<open>The cut an edge of the forest makes\<close>

lemma crossing_edge:
  assumes "linked B s t" "\<not> linked T s t" "finite B"
  shows "\<exists>f a b. f \<in> B \<and> joins False f a b \<and> \<not> linked T a b \<and> linked (B - {f}) s a \<and> linked (B - {f}) b t"
proof -
  have "\<exists>P. P \<subseteq> B \<and> linked P s t \<and> (\<forall>f \<in> P. \<not> linked (P - {f}) s t)"
    using assms(3,1)
  proof (induction B rule: finite_psubset_induct)
    case (psubset B)
    show ?case
    proof (cases "\<exists>f \<in> B. linked (B - {f}) s t")
      case True
      then obtain f where "f \<in> B" "linked (B - {f}) s t" by blast
      then show ?thesis using psubset.IH[of "B - {f}"] by blast
    qed (use psubset.prems in blast)
  qed
  then obtain P where P: "P \<subseteq> B" "linked P s t" "\<And>f. f \<in> P \<Longrightarrow> \<not> linked (P - {f}) s t" by blast
  obtain f a b where f: "f \<in> P" "joins False f a b" "\<not> linked T a b"
    using linked_within[of P T s t] P(2) assms(2) by blast
  have "linked (insert f (P - {f})) s t" using P(2) f(1) by (simp add: insert_absorb)
  then have "linked (P - {f}) s a \<and> linked (P - {f}) b t \<or> linked (P - {f}) s b \<and> linked (P - {f}) a t"
    using P(3)[OF f(1)] unfolding linked_insert[OF f(2)] by blast
  moreover have "linked (P - {f}) x y \<Longrightarrow> linked (B - {f}) x y" for x y 
    using P(1) by (elim linked_mono) auto
  ultimately show ?thesis using f P(1) joins_sym linked_sym by blast
qed

subsection \<open>No spanning set weighs less\<close>

text \<open>\<open>T\<close> links the ends of every edge by edges that are not heavier.\<close>

definition bottleneck :: "(element \<Rightarrow> real) \<Rightarrow> element set \<Rightarrow> element set \<Rightarrow> bool" where
  "bottleneck W E T \<longleftrightarrow> (\<forall>e \<in> E. \<forall>s t. joins False e s t \<longrightarrow> linked {f \<in> T. W f \<le> W e} s t)"

lemma edge_joins: "is_edge e \<Longrightarrow> \<exists>s t. joins False e s t"
  by (cases e) (auto simp: is_edge_def joins_def)

lemma exchange_edge:
  assumes "forest_like T" "bottleneck W E T" "B \<subseteq> E" "finite B" "e \<in> T - B" "joins False e s t" "linked B s t"
  shows "\<exists>f. f \<in> B - T \<and> W e \<le> W f \<and> (\<forall>u v. linked B u v \<longrightarrow> linked (insert e (B - {f})) u v)"
proof -
  have e: "e \<in> T" "e \<notin> B" using assms(5) by auto
  then have "\<not> linked (T - {e}) s t" using assms(1,6) by (simp add: forest_like_def)
  from crossing_edge[OF assms(7) this assms(4)] obtain f a b
    where f: "f \<in> B" "joins False f a b" "\<not> linked (T - {e}) a b" "linked (B - {f}) s a" "linked (B - {f}) b t" by blast
  have "f \<notin> T - {e}" using f(2,3) linked_edge by blast
  then have "f \<in> B - T" using f(1) e by auto
  moreover have "W e \<le> W f"
  proof (rule ccontr)
    assume "\<not> W e \<le> W f"
    then have "{g \<in> T. W g \<le> W f} \<subseteq> T - {e}" by auto
    moreover have "linked {g \<in> T. W g \<le> W f} a b" using assms(2,3) f(1,2) by (auto simp: bottleneck_def)
    ultimately show False using f(3) linked_mono by blast
  qed
  moreover have "linked (insert e (B - {f})) u v" if "linked B u v" for u v
  proof (rule linked_within[OF _ that])
    fix g x y assume g: "g \<in> B" "joins False g x y"
    show "linked (insert e (B - {f})) x y"
    proof (cases "g = f")
      case True
      then have "a = x \<and> b = y \<or> a = y \<and> b = x" using f(2) g(2) by (auto simp: joins_def)
      moreover have "linked (insert e (B - {f})) a b"
        unfolding linked_insert[OF assms(6)] using f(4,5) linked_sym by blast
      ultimately show ?thesis using linked_sym by blast
    next
      case False
      then show ?thesis using g by (intro linked_edge) auto
    qed
  qed
  ultimately show ?thesis by blast
qed

lemma spanning_weight:
  assumes T: "forest_like T" "bottleneck W E T" "T \<subseteq> E" and E: "\<And>e. e \<in> E \<Longrightarrow> is_edge e \<and> 0 \<le> W e" "finite E"
  shows "B \<subseteq> E \<Longrightarrow> (\<And>u v. linked E u v \<Longrightarrow> linked B u v) \<Longrightarrow> sum W T \<le> sum W B"
proof (induction "card (T - B)" arbitrary: B)
  case 0
  have "finite (T - B)" using T(3) E(2) finite_subset by blast
  then have "T \<subseteq> B" using 0(1) by simp
  then show ?case using E 0(2) finite_subset by (intro sum_mono2) auto
next
  case (Suc n)
  have "T - B \<noteq> {}" using Suc.hyps(2) by (metis card.empty nat.distinct(1))
  then obtain e where e: "e \<in> T - B" by blast
  then obtain s t where st: "joins False e s t" using edge_joins T(3) E(1) by blast
  have fin: "finite B" "finite (T - B)" using Suc.prems(1) T(3) E(2) finite_subset by blast+
  have "linked B s t" using Suc.prems(2) linked_edge[OF _ st] e T(3) by blast
  from exchange_edge[OF T(1,2) Suc.prems(1) fin(1) e st this] obtain f
    where f: "f \<in> B - T" "W e \<le> W f" "\<And>u v. linked B u v \<Longrightarrow> linked (insert e (B - {f})) u v" by blast
  have "T - insert e (B - {f}) = (T - B) - {e}" using f(1) by auto
  then have "n = card (T - insert e (B - {f}))" using Suc.hyps(2) e fin(2) by simp
  moreover have "insert e (B - {f}) \<subseteq> E" using Suc.prems(1) e T(3) by auto
  ultimately have "sum W T \<le> sum W (insert e (B - {f}))" using Suc.hyps(1) f(3) Suc.prems(2) by blast
  also have "\<dots> = W e + (sum W B - W f)" using e f(1) fin(1) by (simp add: sum_diff1)
  finally show ?case using f(2) by simp
qed

subsection \<open>The forest of node sets\<close>

definition ids :: "collection \<Rightarrow> string set" where
  "ids c = set (map ele_id c)"

lemma ids_merge: "ids (merge a b) = ids a \<union> ids b"
proof -
  have "ids (merge_one a e) = insert (ele_id e) (ids a)" for a e
    by (auto simp: merge_one_def has_id_def ids_def)
  then show ?thesis unfolding merge_def by (induction b arbitrary: a) (auto simp: ids_def)
qed

text \<open>Every node is in one set of the forest, and two nodes are in the same when \<open>T\<close> links them.\<close>

definition keeps :: "string set \<Rightarrow> element set \<Rightarrow> string set multiset \<Rightarrow> bool" where
  "keeps V T M \<longleftrightarrow>
     (\<forall>v \<in> V. size {#P \<in># M. v \<in> P#} = 1) \<and>
     (\<forall>u \<in> V. \<forall>v \<in> V. (\<exists>P. P \<in># M \<and> u \<in> P \<and> v \<in> P) \<longleftrightarrow> linked T u v)"

lemma none_filtered: "filter_mset P M = {#} \<longleftrightarrow> (\<forall>x. x \<in># M \<longrightarrow> \<not> P x)"
  by (induction M) auto

lemma keeps_union:
  assumes "keeps V T (add_mset P (add_mset Q M))" "s \<in> P" "t \<in> Q" "s \<in> V" "t \<in> V" "joins False e s t"
  shows "keeps V (insert e T) (add_mset (P \<union> Q) M) \<and> \<not> linked T s t"
proof -
  let ?M = "add_mset P (add_mset Q M)"
  have one: "size {#X \<in># ?M. v \<in> X#} = 1" if "v \<in> V" for v using assms(1) that by (simp add: keeps_def)
  have same: "(\<exists>X. X \<in># ?M \<and> u \<in> X \<and> v \<in> X) \<longleftrightarrow> linked T u v" if "u \<in> V" "v \<in> V" for u v
    using assms(1) that by (simp add: keeps_def)
  have apart: "v \<in> P \<Longrightarrow> v \<notin> Q" "v \<in> P \<or> v \<in> Q \<Longrightarrow> \<forall>X. X \<in># M \<longrightarrow> v \<notin> X" if "v \<in> V" for v
    using one[OF that] by (auto split: if_splits simp: none_filtered)
  have P: "v \<in> P \<longleftrightarrow> linked T s v" and Q: "v \<in> Q \<longleftrightarrow> linked T t v" if "v \<in> V" for v
    using same[OF assms(4) that] same[OF assms(5) that] apart[OF assms(4)] apart[OF assms(5)] assms(2,3)
    by auto
  have "\<not> linked T s t" using P[OF assms(5)] apart[OF assms(5)] assms(3) by blast
  moreover have "size {#X \<in># add_mset (P \<union> Q) M. v \<in> X#} = 1" if "v \<in> V" for v
    using one[OF that] by (cases "v \<in> P"; cases "v \<in> Q") simp_all
  moreover have "(\<exists>X. X \<in># add_mset (P \<union> Q) M \<and> u \<in> X \<and> v \<in> X) \<longleftrightarrow> linked (insert e T) u v"
    if uv: "u \<in> V" "v \<in> V" for u v
  proof -
    have "(\<exists>X. X \<in># add_mset (P \<union> Q) M \<and> u \<in> X \<and> v \<in> X) \<longleftrightarrow>
        linked T u v \<or> u \<in> P \<and> v \<in> Q \<or> u \<in> Q \<and> v \<in> P"
      using same[OF uv] by auto
    then show ?thesis
      unfolding linked_insert[OF assms(6)] P[OF uv(1)] P[OF uv(2)] Q[OF uv(1)] Q[OF uv(2)]
      by (simp add: linked_sym[of T u])
  qed
  ultimately show ?thesis by (simp add: keeps_def)
qed

lemma find_set_Some:
  "find_set forest v = Some i \<Longrightarrow> i < length forest \<and> v \<in> ids (forest ! i)"
  by (induction forest arbitrary: i) (auto simp: ids_def has_id_def split: if_splits)

lemma find_set_None: "find_set forest v = None \<Longrightarrow> t \<in> set forest \<Longrightarrow> v \<notin> ids t"
  by (induction forest) (auto simp: ids_def has_id_def split: if_splits)

lemma mset_remove_at: "i < length xs \<Longrightarrow> mset xs = add_mset (xs ! i) (mset (remove_at xs i))"
  by (simp add: remove_at_def) (metis Cons_nth_drop_Suc append_take_drop_id mset.simps(2) mset_append union_mset_add_mset_right)

lemma join_sets:
  assumes "i < length xs" "j < length xs" "i \<noteq> j"
  shows "\<exists>R. mset xs = add_mset (xs ! i) (add_mset (xs ! j) R) \<and> mset (remove_at (xs[i := x]) j) = add_mset x R"
proof -
  define K where "K = {..<length xs} - {i} - {j}"
  have K: "{..<length xs} = insert i (insert j K)" "i \<notin> insert j K" "j \<notin> K" "finite K"
    using assms by (auto simp: K_def)
  let ?I = "mset_set K"
  have all: "mset ys = add_mset (ys ! i) (add_mset (ys ! j) (image_mset ((!) ys) ?I))" if "length ys = length xs" for ys :: "'a list"
  proof -
    have "mset ys = image_mset ((!) ys) (mset_set {..<length xs})"
      by (metis map_nth mset_map mset_upt atLeast0LessThan that)
    then show ?thesis using K(2-4) unfolding K(1) by simp
  qed
  let ?ys = "xs[i := x]"
  have "?ys ! k = xs ! k" if "k \<in> K" for k using K(2) that by (cases "k = i") auto
  then have "image_mset ((!) ?ys) ?I = image_mset ((!) xs) ?I" using K(4) by (intro image_mset_cong) auto
  moreover have "mset ?ys = add_mset (xs ! j) (mset (remove_at ?ys j))"
    using mset_remove_at[of j ?ys] assms by simp
  ultimately have "mset (remove_at ?ys j) = add_mset x (image_mset ((!) xs) ?I)"
    using all[of ?ys] assms by (simp add: add_mset_commute)
  then show ?thesis using all[of xs] by blast
qed

subsection \<open>The algorithm\<close>

definition weight_of :: "weight \<Rightarrow> element \<Rightarrow> real" where
  "weight_of w e = (case w e of JNum r \<Rightarrow> r | _ \<Rightarrow> 0)"

lemma sorted_js_sort:
  assumes "\<And>e. e \<in> set es \<Longrightarrow> w e = JNum (W e)"
  shows "sorted_wrt (\<lambda>a b. W a \<le> W b) (js_sort (\<lambda>a b. js_sub (w a) (w b)) es)"
proof -
  let ?cmp = "\<lambda>a b. js_sub (w a) (w b)"
  have "sorted_wrt (\<lambda>a b. W a \<le> W b) (js_insert ?cmp x ys)"
    if "sorted_wrt (\<lambda>a b. W a \<le> W b) ys" "w x = JNum (W x)" "\<forall>y \<in> set ys. w y = JNum (W y)" for x ys
    using that
  proof (induction ys)
    case (Cons y ys)
    have set: "set (js_insert ?cmp x ys) = insert x (set ys)"
      using mset_eq_setD[of "js_insert ?cmp x ys" "x # ys"] by simp
    show ?case using Cons set by (auto simp: js_sub_def)
  qed simp
  then have "sorted_wrt (\<lambda>a b. W a \<le> W b) (foldr (js_insert ?cmp) es [])" using assms
  proof (induction es)
    case (Cons e es)
    have "set (foldr (js_insert ?cmp) es []) = set es" using set_js_sort[of ?cmp es] by (simp only: js_sort_def)
    then show ?case using Cons by simp
  qed simp
  then show ?thesis by (simp add: js_sort_def)
qed

definition kruskal_ok ::
  "string set \<Rightarrow> collection \<Rightarrow> (element \<Rightarrow> real) \<Rightarrow> element set \<Rightarrow> element set \<Rightarrow> collection \<times> collection list \<Rightarrow> bool" where
  "kruskal_ok V ns W S T st \<longleftrightarrow>
     set (fst st) = set ns \<union> T \<and> T \<subseteq> S \<and> forest_like T \<and> bottleneck W S T \<and>
     keeps V T (image_mset ids (mset (snd st)))"

lemma find_set_found:
  assumes "keeps V T (image_mset ids (mset forest))" "v \<in> V"
  shows "\<exists>i. find_set forest v = Some i"
proof (rule ccontr)
  assume "\<nexists>i. find_set forest v = Some i"
  then have "find_set forest v = None" by simp
  then have "{#P \<in># image_mset ids (mset forest). v \<in> P#} = {#}"
    using find_set_None by (auto simp: none_filtered)
  moreover have "size {#P \<in># image_mset ids (mset forest). v \<in> P#} = 1" using assms by (simp add: keeps_def)
  ultimately show False by (metis size_empty zero_neq_one)
qed

lemma bottleneck_insert:
  assumes "bottleneck W S T" "T \<subseteq> T'" "joins False e s t" "linked T' s t" "\<And>f. f \<in> T' \<Longrightarrow> W f \<le> W e"
  shows "bottleneck W (insert e S) T'"
  unfolding bottleneck_def
proof (intro ballI allI impI)
  fix f a b assume f: "f \<in> insert e S" "joins False f a b"
  show "linked {g \<in> T'. W g \<le> W f} a b"
  proof (cases "f = e")
    case True
    then have "a = s \<and> b = t \<or> a = t \<and> b = s" using assms(3) f(2) by (auto simp: joins_def)
    moreover have "{g \<in> T'. W g \<le> W f} = T'" using assms(5) True by auto
    ultimately show ?thesis using assms(4) linked_sym by auto
  next
    case False
    then have "linked {g \<in> T. W g \<le> W f} a b" using assms(1) f by (auto simp: bottleneck_def)
    then show ?thesis using assms(2) by (elim linked_mono) auto
  qed
qed

lemma kruskal_edge_ok:
  assumes ok: "kruskal_ok V ns W S T st" and e: "source e = Some s" "target e = Some t" "s \<in> V" "t \<in> V"
    and new: "\<not> has_ele (fst st) e" and heavy: "\<And>f. f \<in> S \<Longrightarrow> W f \<le> W e"
  shows "\<exists>st' T'. kruskal_edge st e = Some st' \<and> kruskal_ok V ns W (insert e S) T' st' \<and> set (fst st') \<subseteq> insert e (set (fst st))"
proof -
  obtain A forest where st: "st = (A, forest)" by fastforce
  have inv: "set A = set ns \<union> T" "T \<subseteq> S" "forest_like T" "bottleneck W S T" "keeps V T (image_mset ids (mset forest))"
    using ok by (simp_all add: kruskal_ok_def st)
  have j: "joins False e s t" using e by (simp add: joins_def)
  obtain i k where f: "find_set forest s = Some i" "find_set forest t = Some k"
    using find_set_found[OF inv(5)] e(3,4) by blast
  have i: "i < length forest" "s \<in> ids (forest ! i)" using find_set_Some[OF f(1)] by simp_all
  have k: "k < length forest" "t \<in> ids (forest ! k)" using find_set_Some[OF f(2)] by simp_all
  show ?thesis
  proof (cases "i = k")
    case True
    have "ids (forest ! i) \<in># image_mset ids (mset forest)" using i(1) by simp
    then have "linked T s t" using inv(5) e(3,4) i k True unfolding keeps_def by blast
    then have "bottleneck W (insert e S) T"
      by (rule bottleneck_insert[OF inv(4) subset_refl j]) (use inv(2) heavy in blast)
    then have "kruskal_ok V ns W (insert e S) T st" using inv by (auto simp: kruskal_ok_def st)
    moreover have "kruskal_edge st e = Some st" by (simp add: kruskal_edge_def st e f True)
    ultimately show ?thesis by blast
  next
    case False
    let ?forest = "remove_at (forest[i := merge (forest ! i) (forest ! k)]) k"
    have run: "kruskal_edge st e = Some (A @ [e], ?forest)"
      using new by (simp add: kruskal_edge_def st e f False merge_one_def has_ele_def)
    obtain R where R: "mset forest = add_mset (forest ! i) (add_mset (forest ! k) R)"
      "mset ?forest = add_mset (merge (forest ! i) (forest ! k)) R"
      using join_sets[OF i(1) k(1) False] by blast
    have "keeps V T (add_mset (ids (forest ! i)) (add_mset (ids (forest ! k)) (image_mset ids R)))"
      using inv(5) by (simp add: R)
    from keeps_union[OF this i(2) k(2) e(3,4) j]
    have keep: "keeps V (insert e T) (image_mset ids (mset ?forest))" "\<not> linked T s t"
      by (simp_all add: R ids_merge)
    have "bottleneck W (insert e S) (insert e T)"
      by (rule bottleneck_insert[OF inv(4) _ j linked_edge[OF insertI1 j]]) (use inv(2) heavy in blast)+
    then have "kruskal_ok V ns W (insert e S) (insert e T) (A @ [e], ?forest)"
      using inv keep forest_insert[OF inv(3) j keep(2)] by (auto simp: kruskal_ok_def)
    then show ?thesis using run st by auto
  qed
qed

lemma kruskal_fold_ok:
  assumes "kruskal_ok V ns W S T st" "sorted_wrt (\<lambda>a b. W a \<le> W b) es" "distinct (map ele_id es)"
    "\<And>e. e \<in> set es \<Longrightarrow> \<exists>s t. source e = Some s \<and> target e = Some t \<and> s \<in> V \<and> t \<in> V"
    "\<And>e. e \<in> set es \<Longrightarrow> \<not> has_ele (fst st) e" "\<And>f e. f \<in> S \<Longrightarrow> e \<in> set es \<Longrightarrow> W f \<le> W e"
  shows "\<exists>st' T'. fold_option kruskal_edge st es = Some st' \<and> kruskal_ok V ns W (S \<union> set es) T' st'"
  using assms
proof (induction es arbitrary: S T st)
  case (Cons e es)
  obtain s t where ends: "source e = Some s" "target e = Some t" "s \<in> V" "t \<in> V"
    using Cons.prems(4)[of e] by auto
  obtain st1 T1 where step: "kruskal_edge st e = Some st1" "kruskal_ok V ns W (insert e S) T1 st1"
    "set (fst st1) \<subseteq> insert e (set (fst st))"
    using kruskal_edge_ok[OF Cons.prems(1) ends] Cons.prems(5,6) by force
  have "\<not> has_ele (fst st1) f" if "f \<in> set es" for f
  proof
    assume "has_ele (fst st1) f"
    then obtain x where "x \<in> set (fst st1)" "ele_id x = ele_id f" by (auto simp: has_ele_def has_id_def)
    moreover have "ele_id e \<noteq> ele_id f" using Cons.prems(3) that by (metis distinct.simps(2) image_eqI list.simps(9) set_map)
    ultimately have "x \<in> set (fst st)" "ele_id x = ele_id f" using step(3) by auto
    then have "has_ele (fst st) f" unfolding has_ele_def has_id_def set_map by (metis image_eqI)
    then show False using Cons.prems(5)[of f] that by simp
  qed
  moreover have "W f \<le> W g" if "f \<in> insert e S" "g \<in> set es" for f g
    using that Cons.prems(2,6) by auto
  ultimately obtain st' T' where "fold_option kruskal_edge st1 es = Some st'" "kruskal_ok V ns W (insert e S \<union> set es) T' st'"
    using Cons.IH[OF step(2)] Cons.prems(2-4) by auto
  then show ?case using step(1) by auto
qed auto

text \<open>The start: every node in a set of its own.\<close>

lemma keeps_start:
  assumes "list_all is_node ns" "distinct (map ele_id ns)"
  shows "keeps (ids ns) {} (image_mset ids (mset (map (\<lambda>n. [n]) ns)))"
proof -
  have "size {#P \<in># image_mset ids (mset (map (\<lambda>n. [n]) ns)). v \<in> P#} = (if v \<in> ids ns then 1 else 0)" for v
    using assms(2) by (induction ns) (auto simp: ids_def)
  moreover have "linked {} u v \<longleftrightarrow> u = v" for u v by (simp add: linked_def links_def)
  ultimately show ?thesis by (auto simp: keeps_def ids_def)
qed

subsection \<open>The minimum spanning forest\<close>

text \<open>\<open>B\<close>, elements of the collection, links the nodes the collection links.\<close>

definition spans :: "collection \<Rightarrow> element set \<Rightarrow> bool" where
  "spans c B \<longleftrightarrow> B \<subseteq> set c \<and> (\<forall>u v. linked (set c) u v \<longrightarrow> linked B u v)"

definition total_weight :: "weight \<Rightarrow> element set \<Rightarrow> real" where
  "total_weight w B = sum (weight_of w) {e \<in> B. is_edge e}"

lemma linked_edges: "linked {e \<in> B. is_edge e} u v \<longleftrightarrow> linked B u v"
proof -
  have "is_edge e" if "joins False e a b" for e a b using that by (cases e) (auto simp: joins_def is_edge_def)
  then have "links {e \<in> B. is_edge e} = links B" by (auto simp: links_def)
  then show ?thesis by (simp add: linked_def)
qed

lemma forest_edges: "forest_like {e \<in> B. is_edge e} \<longleftrightarrow> forest_like B"
proof -
  have same: "{e \<in> B. is_edge e} - {f} = {e \<in> B - {f}. is_edge e}" for f by auto
  have "is_edge e" if "joins False e a b" for e a b using that by (cases e) (auto simp: joins_def is_edge_def)
  then show ?thesis unfolding forest_like_def same linked_edges by blast
qed

lemma weighted_number:
  assumes "weighted w E" "e \<in> E"
  shows "w e = JNum (weight_of w e) \<and> 0 \<le> weight_of w e"
  using assms by (fastforce simp: weighted_def weight_of_def)

lemma kruskal_run:
  assumes c: "graph c" and w: "weighted w {e \<in> set c. is_edge e}"
  defines "E \<equiv> {e \<in> set c. is_edge e}"
  shows "\<exists>A T. kruskal c w = Some A \<and> set A = {e \<in> set c. is_node e} \<union> T \<and> T \<subseteq> E \<and>
    forest_like T \<and> bottleneck (weight_of w) E T"
proof -
  let ?ns = "filter is_node c" and ?es = "filter is_edge c" and ?W = "weight_of w"
  let ?S = "js_sort (\<lambda>a b. js_sub (w a) (w b)) ?es" and ?start = "(?ns, map (\<lambda>n. [n]) ?ns)"
  have ids: "distinct (map ele_id c)" using c by (simp add: graph_def)
  then have part: "distinct (map ele_id (filter P c))" for P by (auto simp: distinct_map inj_on_def)
  have S: "set ?S = E" by (auto simp: E_def)
  have sorted: "sorted_wrt (\<lambda>a b. ?W a \<le> ?W b) ?S"
    by (rule sorted_js_sort) (use weighted_number[OF w] in auto)
  have "distinct (map ele_id ?S)"
    using mset_eq_imp_distinct_iff[of "map ele_id ?S" "map ele_id ?es"] part by simp
  note S = S sorted this
  have start: "kruskal_ok (ids ?ns) ?ns ?W {} {} ?start"
    using keeps_start[OF _ part, of is_node] by (simp add: kruskal_ok_def forest_like_def bottleneck_def list_all_iff)
  have ends: "\<exists>s t. source e = Some s \<and> target e = Some t \<and> s \<in> ids ?ns \<and> t \<in> ids ?ns" if "e \<in> set ?S" for e
  proof -
    have e: "e \<in> set c" "is_edge e" using that by auto
    then obtain i s t where "e = EdgeE i s t" by (metis element.exhaust is_edge_def is_node.simps(1))
    then show ?thesis using graph_ends[OF c, of i s t] e(1) by (force simp: ids_def)
  qed
  have fresh: "\<not> has_ele ?ns e" if "e \<in> set ?S" for e
  proof
    assume "has_ele ?ns e"
    then obtain n where "n \<in> set c" "is_node n" "ele_id n = ele_id e" by (auto simp: has_ele_def has_id_def)
    then show False using graph_id[OF c, of n e] that by (auto simp: is_edge_def)
  qed
  obtain st T where run: "fold_option kruskal_edge ?start ?S = Some st" "kruskal_ok (ids ?ns) ?ns ?W ({} \<union> set ?S) T st"
    using kruskal_fold_ok[OF start S(2,3) ends] fresh by fastforce
  have "kruskal c w = Some (fst st)" using run(1) by (simp add: kruskal_def by_group_filters)
  moreover have "set (fst st) = {e \<in> set c. is_node e} \<union> T" "T \<subseteq> E" "forest_like T" "bottleneck ?W E T"
    using run(2) unfolding S(1) by (auto simp: kruskal_ok_def)
  ultimately show ?thesis by blast
qed

lemma bottleneck_links:
  assumes "bottleneck W E T" "linked E u v"
  shows "linked T u v"
proof (rule linked_within[OF _ assms(2)])
  fix e a b assume "e \<in> E" "joins False e a b"
  then have "linked {f \<in> T. W f \<le> W e} a b" using assms(1) by (simp add: bottleneck_def)
  then show "linked T a b" by (rule linked_mono) auto
qed

text \<open>
  C21. Called on a collection whose elements have distinct ids and whose edges have their ends, with
  weights that are numbers from zero on, \<open>kruskal\<close> returns the nodes with edges of the collection that
  span it without a cycle, and no spanning set of elements has edges of smaller total weight.
\<close>
theorem kruskal_minimum_forest:
  assumes c: "graph c" and w: "weighted w {e \<in> set c. is_edge e}"
  shows "\<exists>A. kruskal c w = Some A \<and> {e \<in> set A. is_node e} = {e \<in> set c. is_node e} \<and> spans c (set A) \<and>
    forest_like (set A) \<and> (\<forall>B. spans c B \<longrightarrow> total_weight w (set A) \<le> total_weight w B)"
proof -
  let ?E = "{e \<in> set c. is_edge e}"
  obtain A T where T: "kruskal c w = Some A" "set A = {e \<in> set c. is_node e} \<union> T" "T \<subseteq> ?E" "forest_like T"
    "bottleneck (weight_of w) ?E T" using kruskal_run[OF c w] by blast
  have edges: "{e \<in> set A. is_edge e} = T" using T(2,3) by (auto simp: is_edge_def)
  have "linked (set A) u v" if "linked (set c) u v" for u v
    using bottleneck_links[OF T(5)] that linked_edges[of "set c"] linked_edges[of "set A"] edges by simp
  then have "spans c (set A)" using T(2,3) by (auto simp: spans_def)
  moreover have "total_weight w (set A) \<le> total_weight w B" if B: "spans c B" for B
    unfolding total_weight_def edges
  proof (rule spanning_weight[OF T(4,5,3)])
    show "linked {e \<in> B. is_edge e} u v" if "linked ?E u v" for u v
      using that B linked_edges[of "set c"] linked_edges[of B] by (simp add: spans_def)
  qed (use B weighted_number[OF w] in \<open>auto simp: spans_def\<close>)
  moreover have "{e \<in> set A. is_node e} = {e \<in> set c. is_node e}" using T(2,3) by (auto simp: is_edge_def)
  moreover have "forest_like (set A)" using T(4) forest_edges[of "set A"] edges by simp
  ultimately show ?thesis using T(1) by blast
qed

definition demo_square :: collection where
  "demo_square = [NodeE ''a'', NodeE ''b'', NodeE ''c'', EdgeE ''ab'' ''a'' ''b'', EdgeE ''bc'' ''b'' ''c'',
     EdgeE ''ca'' ''c'' ''a'', EdgeE ''aa'' ''a'' ''a'']"

definition square_weight :: weight where
  "square_weight e = (if ele_id e = ''ab'' then JNum 3 else JNum 1)"

lemma kruskal_minimum_forest_witness:
  "graph demo_square \<and> weighted square_weight {e \<in> set demo_square. is_edge e} \<and>
   (\<exists>A. kruskal demo_square square_weight = Some A \<and> spans demo_square (set A) \<and> forest_like (set A))"
proof -
  have c: "graph demo_square" by (simp add: graph_def demo_square_def)
  have w: "weighted square_weight {e \<in> set demo_square. is_edge e}"
    by (simp add: weighted_def square_weight_def)
  show ?thesis using c w kruskal_minimum_forest[OF c w] by blast
qed

end
