(* ===== verification/CyCluster.thy ===== *)
theory CyCluster
  imports CyPaths CyMath
begin

text \<open>
  Clustering of \<open>cytoscape.js\<close>: \<open>markovClustering\<close>, \<open>kMeans\<close>, \<open>kMedoids\<close>, \<open>fuzzyCMeans\<close>,
  \<open>hierarchicalClustering\<close> and \<open>affinityPropagation\<close>.  Matrices are arrays in row order.  Attributes are
  total functions from elements to numbers, \<open>rand n\<close> is the \<open>n\<close>-th value of \<open>Math.random()\<close>, and \<open>None\<close>
  is an exception or a loop that does not end.
\<close>

subsection \<open>Numbers\<close>

definition odd_integer :: "real \<Rightarrow> bool" where
  "odd_integer y \<longleftrightarrow> y = of_int \<lfloor>y\<rfloor> \<and> odd \<lfloor>y\<rfloor>"

text \<open>\<open>Math.pow\<close>; there is one zero, taken as positive.\<close>

definition num_pow :: "jsnum \<Rightarrow> jsnum \<Rightarrow> jsnum" where
  "num_pow a b =
     (case b of
        JNaN \<Rightarrow> JNaN
      | JInf \<Rightarrow>
          (if a = JNaN \<or> js_abs a = JNum 1 then JNaN else if js_lt (js_abs a) (JNum 1) then JNum 0 else JInf)
      | JNegInf \<Rightarrow>
          (if a = JNaN \<or> js_abs a = JNum 1 then JNaN else if js_lt (js_abs a) (JNum 1) then JInf else JNum 0)
      | JNum y \<Rightarrow>
          if y = 0 then JNum 1
          else (case a of
             JNaN \<Rightarrow> JNaN
           | JInf \<Rightarrow> if y > 0 then JInf else JNum 0
           | JNegInf \<Rightarrow> if y < 0 then JNum 0 else if odd_integer y then JNegInf else JInf
           | JNum x \<Rightarrow>
               if x = 0 then (if y > 0 then JNum 0 else JInf)
               else if x > 0 then JNum (x powr y)
               else if y \<noteq> of_int \<lfloor>y\<rfloor> then JNaN
               else JNum (if odd_integer y then - ((- x) powr y) else (- x) powr y)))"

definition num_round :: "jsnum \<Rightarrow> jsnum" where
  "num_round a = (case a of JNum x \<Rightarrow> JNum (of_int (js_round x)) | _ \<Rightarrow> a)"

text \<open>\<open>!==\<close>\<close>

definition js_neq :: "jsnum \<Rightarrow> jsnum \<Rightarrow> bool" where
  "js_neq a b = (\<not> js_eq a b)"

subsection \<open>Markov clustering\<close>

record markov_options =
  mo_expand_factor :: nat
  mo_inflate_factor :: real
  mo_mult_factor :: real
  mo_max_iterations :: nat
  mo_attributes :: "(element \<Rightarrow> jsnum) list"

definition markov_defaults :: markov_options where
  "markov_defaults = \<lparr>mo_expand_factor = 2, mo_inflate_factor = 2, mo_mult_factor = 1,
     mo_max_iterations = 20, mo_attributes = [\<lambda>e. JNum 1]\<rparr>"

definition edge_similarity :: "element \<Rightarrow> (element \<Rightarrow> jsnum) list \<Rightarrow> jsnum" where
  "edge_similarity e attributes = foldl (\<lambda>total f. js_add total (f e)) (JNum 0) attributes"

definition add_loops :: "jsnum list \<Rightarrow> nat \<Rightarrow> jsnum \<Rightarrow> jsnum list" where
  "add_loops M n val = foldl (\<lambda>M i. M[i * n + i := val]) M [0..<n]"

definition normalize_column :: "nat \<Rightarrow> jsnum list \<Rightarrow> nat \<Rightarrow> jsnum list" where
  "normalize_column n M col =
     (let total = foldl (\<lambda>s row. js_add s (M ! (row * n + col))) (JNum 0) [0..<n]
      in foldl (\<lambda>M row. M[row * n + col := js_div (M ! (row * n + col)) total]) M [0..<n])"

definition normalize_columns :: "jsnum list \<Rightarrow> nat \<Rightarrow> jsnum list" where
  "normalize_columns M n = foldl (normalize_column n) M [0..<n]"

definition mmult :: "jsnum list \<Rightarrow> jsnum list \<Rightarrow> nat \<Rightarrow> jsnum list" where
  "mmult A B n =
     concat (map (\<lambda>i.
       foldl (\<lambda>row k. map (\<lambda>j. js_add (row ! j) (js_mul (A ! (i * n + k)) (B ! (k * n + j)))) [0..<n])
         (replicate n (JNum 0)) [0..<n]) [0..<n])"

definition expand_matrix :: "jsnum list \<Rightarrow> nat \<Rightarrow> nat \<Rightarrow> jsnum list" where
  "expand_matrix M n factor = foldl (\<lambda>M' p. mmult M' M n) M [1..<factor]"

definition inflate_matrix :: "jsnum list \<Rightarrow> nat \<Rightarrow> real \<Rightarrow> jsnum list" where
  "inflate_matrix M n factor = normalize_columns (map (\<lambda>x. num_pow x (JNum factor)) M) n"

definition rounded :: "jsnum \<Rightarrow> nat \<Rightarrow> jsnum" where
  "rounded x digits = js_div (num_round (js_mul x (JNum (10 ^ digits)))) (JNum (10 ^ digits))"

definition has_converged :: "jsnum list \<Rightarrow> jsnum list \<Rightarrow> nat \<Rightarrow> nat \<Rightarrow> bool" where
  "has_converged M M' n2 digits =
     list_all (\<lambda>i. \<not> js_neq (rounded (M ! i) digits) (rounded (M' ! i) digits)) [0..<n2]"

definition markov_assign :: "jsnum list \<Rightarrow> nat \<Rightarrow> collection \<Rightarrow> collection list" where
  "markov_assign M n ns =
     filter (\<lambda>cluster. cluster \<noteq> [])
       (map (\<lambda>i. map ((!) ns) (filter (\<lambda>j. js_lt (JNum 0) (rounded (M ! (i * n + j)) 3)) [0..<n])) [0..<n])"

text \<open>\<open>c1\<close> is a duplicate of \<open>c2\<close> already when it is the beginning of \<open>c2\<close>.\<close>

definition is_duplicate :: "collection \<Rightarrow> collection \<Rightarrow> bool" where
  "is_duplicate c1 c2 =
     list_all (\<lambda>i. i < length c2 \<and> ele_id (c1 ! i) = ele_id (c2 ! i)) [0..<length c1]"

text \<open>\<open>None\<close>: the list got shorter than \<open>i\<close>, and \<open>clusters[i]\<close> is undefined.\<close>

function duplicates_of :: "nat \<Rightarrow> nat \<Rightarrow> collection list \<Rightarrow> collection list option" where
  "duplicates_of i j clusters =
     (if j < length clusters then
        if i = j then duplicates_of i (Suc j) clusters
        else if length clusters \<le> i then None
        else if is_duplicate (clusters ! i) (clusters ! j) then duplicates_of i (Suc j) (remove_at clusters j)
        else duplicates_of i (Suc j) clusters
      else Some clusters)"
  by pat_completeness auto
termination
  by (relation "measure (\<lambda>(i, j, cs). length cs - j)") (auto simp: remove_at_def)

declare duplicates_of.simps [simp del]

lemma duplicates_of_length: "duplicates_of i j cs = Some cs' \<Longrightarrow> length cs' \<le> length cs"
proof (induction i j cs rule: duplicates_of.induct)
  case (1 i j cs)
  then show ?case
    by (subst (asm) (4) duplicates_of.simps) (fastforce simp: remove_at_def split: if_splits)
qed

function remove_duplicates :: "nat \<Rightarrow> collection list \<Rightarrow> collection list option" where
  "remove_duplicates i clusters =
     (if i < length clusters then
        (case duplicates_of i 0 clusters of None \<Rightarrow> None | Some cs \<Rightarrow> remove_duplicates (Suc i) cs)
      else Some clusters)"
  by pat_completeness auto
termination
  by (relation "measure (\<lambda>(i, cs). length cs - i)") (auto dest!: duplicates_of_length)

declare remove_duplicates.simps [simp del]

text \<open>An end outside the collection has no position, and the edge writes to no cell.\<close>

definition markov_add_edge ::
  "(element \<Rightarrow> jsnum) list \<Rightarrow> collection \<Rightarrow> jsnum list \<Rightarrow> element \<Rightarrow> jsnum list" where
  "markov_add_edge attributes ns M e =
     (let n = length ns; sim = edge_similarity e attributes in
      case (Option.bind (source e) (node_index ns), Option.bind (target e) (node_index ns)) of
        (Some i, Some j) \<Rightarrow>
          (let M = M[i * n + j := js_add (M ! (i * n + j)) sim]
           in M[j * n + i := js_add (M ! (j * n + i)) sim])
      | _ \<Rightarrow> M)"

fun markov_loop :: "nat \<Rightarrow> nat \<Rightarrow> nat \<Rightarrow> real \<Rightarrow> jsnum list \<Rightarrow> jsnum list" where
  "markov_loop 0 n expand_factor inflate_factor M = M"
| "markov_loop (Suc iterations) n expand_factor inflate_factor M =
     (let M' = expand_matrix M n expand_factor; M'' = inflate_matrix M' n inflate_factor
      in if has_converged M'' M' (n * n) 4 then M''
         else markov_loop iterations n expand_factor inflate_factor M'')"

definition markov_clustering :: "collection \<Rightarrow> markov_options \<Rightarrow> collection list option" where
  "markov_clustering c opts =
     (let ns = nodes_of c; n = length ns;
          M = foldl (markov_add_edge (mo_attributes opts) ns) (replicate (n * n) (JNum 0)) (edges_of c);
          M = normalize_columns (add_loops M n (JNum (mo_mult_factor opts))) n;
          M = markov_loop (mo_max_iterations opts) n (mo_expand_factor opts) (mo_inflate_factor opts) M
      in remove_duplicates 0 (markov_assign M n ns))"

subsection \<open>Distances\<close>

definition abs_diff :: "jsnum \<Rightarrow> jsnum \<Rightarrow> jsnum" where
  "abs_diff p q = js_abs (js_sub q p)"

definition add_abs_diff :: "jsnum \<Rightarrow> jsnum \<Rightarrow> jsnum \<Rightarrow> jsnum" where
  "add_abs_diff acc p q = js_add acc (abs_diff p q)"

definition add_squared_diff :: "jsnum \<Rightarrow> jsnum \<Rightarrow> jsnum \<Rightarrow> jsnum" where
  "add_squared_diff acc p q = js_add acc (num_pow (js_sub q p) (JNum 2))"

definition max_abs_diff :: "jsnum \<Rightarrow> jsnum \<Rightarrow> jsnum \<Rightarrow> jsnum" where
  "max_abs_diff current p q = js_max current (abs_diff p q)"

definition get_distance ::
  "nat \<Rightarrow> (nat \<Rightarrow> jsnum) \<Rightarrow> (nat \<Rightarrow> jsnum) \<Rightarrow> jsnum \<Rightarrow> (jsnum \<Rightarrow> jsnum \<Rightarrow> jsnum \<Rightarrow> jsnum)
   \<Rightarrow> (jsnum \<Rightarrow> jsnum) \<Rightarrow> jsnum" where
  "get_distance len get_p get_q init visit post =
     post (foldl (\<lambda>ret d. visit ret (get_p d) (get_q d)) init [0..<len])"

definition named_distance :: "string \<Rightarrow> nat \<Rightarrow> (nat \<Rightarrow> jsnum) \<Rightarrow> (nat \<Rightarrow> jsnum) \<Rightarrow> jsnum" where
  "named_distance name len get_p get_q =
     (if name \<in> set [''squaredEuclidean'', ''squared-euclidean'', ''squaredeuclidean'']
      then get_distance len get_p get_q (JNum 0) add_squared_diff id
      else if name = ''manhattan'' then get_distance len get_p get_q (JNum 0) add_abs_diff id
      else if name = ''max'' then get_distance len get_p get_q JNegInf max_abs_diff id
      else if 2 \<le> len then get_distance len get_p get_q (JNum 0) add_squared_diff js_sqrt
      else get_distance len get_p get_q (JNum 0) add_abs_diff id)"

text \<open>A name, or a function, called with the two nodes alone when there are no attributes.\<close>

datatype 'p metric =
    Method string
  | Custom "'p \<Rightarrow> element \<Rightarrow> jsnum" "nat \<Rightarrow> (nat \<Rightarrow> jsnum) \<Rightarrow> (nat \<Rightarrow> jsnum) \<Rightarrow> 'p \<Rightarrow> element \<Rightarrow> jsnum"

definition clustering_distance ::
  "'p metric \<Rightarrow> nat \<Rightarrow> (nat \<Rightarrow> jsnum) \<Rightarrow> (nat \<Rightarrow> jsnum) \<Rightarrow> 'p \<Rightarrow> element \<Rightarrow> jsnum" where
  "clustering_distance m len get_p get_q node_p node_q =
     (case m of
        Method name \<Rightarrow> named_distance name len get_p get_q
      | Custom of_nodes of_all \<Rightarrow>
          if len = 0 then of_nodes node_p node_q else of_all len get_p get_q node_p node_q)"

subsection \<open>k-means\<close>

text \<open>\<open>testCentroids\<close>: an array, \<open>null\<close>, or something else.\<close>

datatype 'c test_start = GivenStart "'c list" | NullStart | NumberStart | OtherStart

record 'c k_options =
  ko_k :: nat
  ko_m :: real
  ko_sensitivity :: real
  ko_distance :: "'c metric"
  ko_max_iterations :: nat
  ko_attributes :: "(element \<Rightarrow> jsnum) list"
  ko_test_mode :: bool
  ko_test_start :: "'c test_start"

definition k_defaults :: "'c k_options" where
  "k_defaults = \<lparr>ko_k = 2, ko_m = 2, ko_sensitivity = 1 / 10000, ko_distance = Method ''euclidean'',
     ko_max_iterations = 10, ko_attributes = [], ko_test_mode = False, ko_test_start = NullStart\<rparr>"

type_synonym centroid = "jsnum list"

text \<open>A coordinate that is not there is \<open>undefined\<close>, which counts as \<open>NaN\<close>.\<close>

definition coordinate :: "centroid \<Rightarrow> nat \<Rightarrow> jsnum" where
  "coordinate p i = the_or JNaN (js_get p i)"

definition centroid_dist :: "centroid metric \<Rightarrow> element \<Rightarrow> centroid \<Rightarrow> (element \<Rightarrow> jsnum) list \<Rightarrow> jsnum" where
  "centroid_dist m node p attributes =
     clustering_distance m (length attributes) (coordinate p) (\<lambda>i. (attributes ! i) node) p node"

definition medoid_dist :: "element metric \<Rightarrow> element \<Rightarrow> element \<Rightarrow> (element \<Rightarrow> jsnum) list \<Rightarrow> jsnum" where
  "medoid_dist m node p attributes =
     clustering_distance m (length attributes) (\<lambda>i. (attributes ! i) p) (\<lambda>i. (attributes ! i) node) p node"

definition random_centroids ::
  "(nat \<Rightarrow> real) \<Rightarrow> collection \<Rightarrow> nat \<Rightarrow> (element \<Rightarrow> jsnum) list \<Rightarrow> centroid list" where
  "random_centroids rand ns k attributes =
     (let ndim = length attributes in
      map (\<lambda>c. map (\<lambda>i.
          (let lo = fst (min_ele ns (attributes ! i)); hi = fst (max_ele ns (attributes ! i))
           in js_add (js_mul (JNum (rand (c * ndim + i))) (js_sub hi lo)) lo)) [0..<ndim]) [0..<k])"

definition classify :: "('c \<Rightarrow> jsnum) \<Rightarrow> 'c list \<Rightarrow> nat" where
  "classify d_of centers =
     fst (foldl (\<lambda>(best, least). \<lambda>i. let d = d_of (centers ! i) in if js_lt d least then (i, d) else (best, least))
       (0, JInf) [0..<length centers])"

type_synonym assignment = "(string \<times> nat) list"

definition assign_nodes :: "(element \<Rightarrow> 'c \<Rightarrow> jsnum) \<Rightarrow> 'c list \<Rightarrow> collection \<Rightarrow> assignment \<Rightarrow> assignment" where
  "assign_nodes d_of centers ns a =
     foldl (\<lambda>a node. AList.update (ele_id node) (classify (d_of node) centers) a) a ns"

definition build_cluster :: "nat \<Rightarrow> collection \<Rightarrow> assignment \<Rightarrow> collection" where
  "build_cluster c ns a = filter (\<lambda>node. map_of a (ele_id node) = Some c) ns"

definition values_converged :: "jsnum \<Rightarrow> jsnum \<Rightarrow> real \<Rightarrow> bool" where
  "values_converged v1 v2 threshold = js_le (js_abs (js_sub v2 v1)) (JNum threshold)"

definition cluster_mean :: "(element \<Rightarrow> jsnum) list \<Rightarrow> collection \<Rightarrow> centroid" where
  "cluster_mean attributes cluster =
     map (\<lambda>f. js_div (foldl (\<lambda>s node. js_add s (f node)) (JNum 0) cluster) (JNum (real (length cluster)))) attributes"

record 'c k_state =
  ks_centers :: "'c list"
  ks_clusters :: "collection option list"
  ks_moving :: bool

text \<open>An empty cluster keeps its center and what it held before.\<close>

definition k_means_cluster ::
  "centroid k_options \<Rightarrow> collection \<Rightarrow> assignment \<Rightarrow> centroid k_state \<Rightarrow> nat \<Rightarrow> centroid k_state option" where
  "k_means_cluster opts ns a s c =
     (let cluster = build_cluster c ns a in
      if cluster = [] then Some s
      else
       (let moved = cluster_mean (ko_attributes opts) cluster in
        case js_get (ks_centers s) c of
          None \<Rightarrow> if ko_attributes opts \<noteq> [] then None
                  else Some (s\<lparr>ks_centers := js_set (ks_centers s) c moved,
                               ks_clusters := (ks_clusters s)[c := Some cluster]\<rparr>)
        | Some old \<Rightarrow>
            Some (s\<lparr>ks_centers := (ks_centers s)[c := moved],
                    ks_clusters := (ks_clusters s)[c := Some cluster],
                    ks_moving := ks_moving s \<or>
                      list_ex (\<lambda>d. \<not> values_converged (moved ! d) (coordinate old d) (ko_sensitivity opts))
                        [0..<length (ko_attributes opts)]\<rparr>)))"

fun k_means_loop ::
  "nat \<Rightarrow> centroid k_options \<Rightarrow> collection \<Rightarrow> assignment \<Rightarrow> centroid k_state \<Rightarrow> centroid k_state option" where
  "k_means_loop 0 opts ns a s = Some s"
| "k_means_loop (Suc iterations) opts ns a s =
     (if \<not> ks_moving s then Some s
      else
       (let a = assign_nodes (\<lambda>node p. centroid_dist (ko_distance opts) node p (ko_attributes opts))
                  (ks_centers s) ns a
        in case fold_option (k_means_cluster opts ns a) (s\<lparr>ks_moving := False\<rparr>) [0..<ko_k opts] of
             None \<Rightarrow> None
           | Some s \<Rightarrow> k_means_loop iterations opts ns a s))"

definition start_centroids :: "(nat \<Rightarrow> real) \<Rightarrow> centroid k_options \<Rightarrow> collection \<Rightarrow> centroid list option" where
  "start_centroids rand opts ns =
     (let random = random_centroids rand ns (ko_k opts) (ko_attributes opts) in
      if ko_test_mode opts then
        (case ko_test_start opts of GivenStart cs \<Rightarrow> Some cs | NullStart \<Rightarrow> None | _ \<Rightarrow> Some random)
      else Some random)"

text \<open>\<open>centroids\<close> is read first when a node is classified or a cluster moves.\<close>

definition k_means :: "(nat \<Rightarrow> real) \<Rightarrow> collection \<Rightarrow> centroid k_options \<Rightarrow> collection option list option" where
  "k_means rand c opts =
     (let ns = nodes_of c; clusters = replicate (ko_k opts) None in
      if ko_max_iterations opts = 0 \<or> ns = [] then Some clusters
      else
       (case start_centroids rand opts ns of
          None \<Rightarrow> None
        | Some cs \<Rightarrow>
            map_option ks_clusters (k_means_loop (ko_max_iterations opts) opts ns []
              \<lparr>ks_centers = cs, ks_clusters = clusters, ks_moving = True\<rparr>)))"

subsection \<open>k-medoids\<close>

text \<open>\<open>rand r\<close> lies in \<open>[0, 1)\<close>.  Fewer than 50 nodes are drawn without repetition, and the draw is
  repeated until a new node comes up; an empty collection has \<open>undefined\<close> at every position.\<close>

definition drawn_node :: "collection \<Rightarrow> real \<Rightarrow> element option" where
  "drawn_node ns r = js_get ns (nat \<lfloor>r * real (length ns)\<rfloor>)"

definition seen_before :: "element option \<Rightarrow> element option list \<Rightarrow> bool" where
  "seen_before node medoids = list_ex (\<lambda>m. node = m) medoids"

partial_function (option) draw_new ::
  "(nat \<Rightarrow> real) \<Rightarrow> collection \<Rightarrow> element option list \<Rightarrow> nat \<Rightarrow> (element option \<times> nat) option" where
  "draw_new rand ns medoids r =
     (let node = drawn_node ns (rand r) in
      if seen_before node medoids then draw_new rand ns medoids (Suc r) else Some (node, Suc r))"

declare draw_new.simps [code]

definition random_medoids :: "(nat \<Rightarrow> real) \<Rightarrow> collection \<Rightarrow> nat \<Rightarrow> element option list option" where
  "random_medoids rand ns k =
     (if length ns < 50 then
        map_option fst (fold_option (\<lambda>(medoids, r). \<lambda>i.
            map_option (\<lambda>(node, r). (medoids @ [node], r)) (draw_new rand ns medoids r)) ([], 0) [0..<k])
      else Some (map (\<lambda>i. drawn_node ns (rand i)) [0..<k]))"

definition find_cost :: "element \<Rightarrow> collection \<Rightarrow> (element \<Rightarrow> jsnum) list \<Rightarrow> jsnum" where
  "find_cost potential cluster attributes =
     foldl (\<lambda>cost node. js_add cost (medoid_dist (Method ''manhattan'') node potential attributes)) (JNum 0) cluster"

text \<open>Writing past the end leaves holes.\<close>

definition js_put :: "'a option list \<Rightarrow> nat \<Rightarrow> 'a \<Rightarrow> 'a option list" where
  "js_put xs i v =
     (if i < length xs then xs[i := Some v] else xs @ replicate (i - length xs) None @ [Some v])"

text \<open>The medoid, its cost, and whether one moved.\<close>

definition better_medoid ::
  "(element \<Rightarrow> jsnum) list \<Rightarrow> collection \<Rightarrow> element \<times> jsnum \<times> bool \<Rightarrow> element \<Rightarrow> element \<times> jsnum \<times> bool" where
  "better_medoid attributes cluster = (\<lambda>(medoid, least, moving) node.
     (let cost = find_cost node cluster attributes
      in if js_lt cost least then (node, cost, True) else (medoid, least, moving)))"

definition k_medoids_cluster ::
  "element k_options \<Rightarrow> collection \<Rightarrow> assignment \<Rightarrow> element k_state \<Rightarrow> nat \<Rightarrow> element k_state" where
  "k_medoids_cluster opts ns a s m =
     (let cluster = build_cluster m ns a in
      if cluster = [] then s
      else
       (let medoid = ks_centers s ! m;
            (moved, _, moving) = foldl (better_medoid (ko_attributes opts) cluster)
              (medoid, find_cost medoid cluster (ko_attributes opts), ks_moving s) cluster
        in s\<lparr>ks_centers := (ks_centers s)[m := moved], ks_moving := moving,
             ks_clusters := js_put (ks_clusters s) m cluster\<rparr>))"

fun k_medoids_loop ::
  "nat \<Rightarrow> element k_options \<Rightarrow> collection \<Rightarrow> assignment \<Rightarrow> element k_state \<Rightarrow> element k_state" where
  "k_medoids_loop 0 opts ns a s = s"
| "k_medoids_loop (Suc iterations) opts ns a s =
     (if \<not> ks_moving s then s
      else
       (let a = assign_nodes (\<lambda>node p. medoid_dist (ko_distance opts) node p (ko_attributes opts))
                  (ks_centers s) ns a
        in k_medoids_loop iterations opts ns a
             (foldl (k_medoids_cluster opts ns a) (s\<lparr>ks_moving := False\<rparr>) [0..<length (ks_centers s)])))"

text \<open>\<open>Some None\<close>: a number leaves \<open>medoids\<close> undefined, and \<open>null\<close> has no length either.\<close>

definition start_medoids ::
  "(nat \<Rightarrow> real) \<Rightarrow> element k_options \<Rightarrow> collection \<Rightarrow> element option list option option" where
  "start_medoids rand opts ns =
     (if ko_test_mode opts then
        (case ko_test_start opts of
           NumberStart \<Rightarrow> Some None
         | NullStart \<Rightarrow> Some None
         | GivenStart ms \<Rightarrow> Some (Some (map Some ms))
         | OtherStart \<Rightarrow> map_option Some (random_medoids rand ns (ko_k opts)))
      else map_option Some (random_medoids rand ns (ko_k opts)))"

text \<open>Without nodes no medoid is looked at; with nodes every medoid is one.\<close>

definition k_medoids :: "(nat \<Rightarrow> real) \<Rightarrow> collection \<Rightarrow> element k_options \<Rightarrow> collection option list option" where
  "k_medoids rand c opts =
     (let ns = nodes_of c; clusters = replicate (ko_k opts) None in
      case start_medoids rand opts ns of
        None \<Rightarrow> None
      | Some None \<Rightarrow> if ko_max_iterations opts = 0 then Some clusters else None
      | Some (Some ms) \<Rightarrow>
          if ns = [] then Some clusters
          else map_option (\<lambda>ms. ks_clusters (k_medoids_loop (ko_max_iterations opts) opts ns []
                 \<lparr>ks_centers = ms, ks_clusters = clusters, ks_moving = True\<rparr>)) (sequence_opt ms))"

subsection \<open>Fuzzy c-means\<close>

definition matrices_converged :: "jsnum list list \<Rightarrow> jsnum list list \<Rightarrow> real \<Rightarrow> bool" where
  "matrices_converged v1 v2 threshold =
     list_all (\<lambda>i. list_all (\<lambda>j. \<not> js_lt (JNum threshold) (js_abs (js_sub (v1 ! i ! j) (v2 ! i ! j))))
       [0..<length (v1 ! i)]) [0..<length v1]"

definition update_centroids ::
  "nat \<Rightarrow> collection \<Rightarrow> jsnum list list \<Rightarrow> centroid k_options \<Rightarrow> centroid list" where
  "update_centroids n_centroids ns U opts =
     (let weight = (\<lambda>n c. num_pow (U ! n ! c) (JNum (ko_m opts))) in
      map (\<lambda>c. map (\<lambda>f.
          (let (numerator, denominator) = foldl (\<lambda>(num, den). \<lambda>n.
                 (js_add num (js_mul (weight n c) (f (ns ! n))), js_add den (weight n c)))
               (JNum 0, JNum 0) [0..<length ns]
           in js_div numerator denominator)) (ko_attributes opts)) [0..<n_centroids])"

definition update_membership :: "centroid list \<Rightarrow> collection \<Rightarrow> centroid k_options \<Rightarrow> jsnum list list" where
  "update_membership centroids ns opts =
     (let d_of = (\<lambda>n c. centroid_dist (ko_distance opts) (ns ! n) (centroids ! c) (ko_attributes opts));
          pow = js_div (JNum 2) (JNum (ko_m opts - 1))
      in map (\<lambda>n. map (\<lambda>c.
           js_div (JNum 1) (foldl (\<lambda>s k. js_add s (num_pow (js_div (d_of n c) (d_of n k)) pow)) (JNum 0)
             [0..<length centroids])) [0..<length centroids]) [0..<length ns])"

text \<open>\<open>None\<close>: no membership is above \<open>-Infinity\<close>, and the code pushes to \<open>clusters[-1]\<close>.\<close>

definition best_membership :: "jsnum list \<Rightarrow> nat option" where
  "best_membership row =
     snd (foldl (\<lambda>(greatest, index). \<lambda>c. if js_lt greatest (row ! c) then (row ! c, Some c) else (greatest, index))
       (JNegInf, None) [0..<length row])"

definition fuzzy_assign :: "collection \<Rightarrow> jsnum list list \<Rightarrow> nat \<Rightarrow> collection list option" where
  "fuzzy_assign ns U k =
     fold_option (\<lambda>clusters n. map_option (\<lambda>c. clusters[c := clusters ! c @ [ns ! n]]) (best_membership (U ! n)))
       (replicate k []) [0..<length U]"

definition random_membership :: "(nat \<Rightarrow> real) \<Rightarrow> nat \<Rightarrow> nat \<Rightarrow> jsnum list list" where
  "random_membership rand n k =
     map (\<lambda>i. let row = map (\<lambda>j. JNum (rand (i * k + j))) [0..<k]; acc = foldl js_add (JNum 0) row
              in map (\<lambda>x. js_div x acc) row) [0..<n]"

fun fuzzy_loop :: "nat \<Rightarrow> centroid k_options \<Rightarrow> collection \<Rightarrow> jsnum list list \<Rightarrow> jsnum list list" where
  "fuzzy_loop 0 opts ns U = U"
| "fuzzy_loop (Suc iterations) opts ns U =
     (let centroids = update_centroids (ko_k opts) ns U opts; U' = update_membership centroids ns opts
      in if matrices_converged U' U (ko_sensitivity opts) then U' else fuzzy_loop iterations opts ns U')"

definition fuzzy_c_means ::
  "(nat \<Rightarrow> real) \<Rightarrow> collection \<Rightarrow> centroid k_options \<Rightarrow> (collection list \<times> jsnum list list) option" where
  "fuzzy_c_means rand c opts =
     (let ns = nodes_of c;
          U = fuzzy_loop (ko_max_iterations opts) opts ns (random_membership rand (length ns) (ko_k opts))
      in map_option (\<lambda>clusters. (clusters, U)) (fuzzy_assign ns U (ko_k opts)))"

end
