(* ===== verification/CyLinkage.thy ===== *)
theory CyLinkage
  imports CyCluster
begin

text \<open>
  \<open>hierarchicalClustering\<close> and \<open>affinityPropagation\<close> of \<open>cytoscape.js\<close>.  The clusters of the first are
  objects that the arrays \<open>clusters\<close> and \<open>index\<close> share and that a merge changes, so they live in a
  store and the arrays hold positions in it.  A read of a missing key is \<open>NaN\<close> in a comparison, and
  \<open>None\<close> is an exception or a loop that does not end.
\<close>

definition node_distance ::
  "element metric \<Rightarrow> (element \<Rightarrow> jsnum) list \<Rightarrow> element \<Rightarrow> element \<Rightarrow> jsnum" where
  "node_distance m attributes n1 n2 =
     clustering_distance m (length attributes) (\<lambda>i. (attributes ! i) n1) (\<lambda>i. (attributes ! i) n2) n1 n2"

subsection \<open>Hierarchical clustering\<close>

text \<open>\<open>value\<close> is an array of nodes, in dendrogram mode one node; a merge in dendrogram mode has no
  \<open>value\<close> but a \<open>left\<close> and a \<open>right\<close>.\<close>

datatype cluster_body = Members "element list" | Joined cluster_body cluster_body

record cluster_object =
  co_body :: cluster_body
  co_key :: "nat option"
  co_index :: "nat option"

record linkage_options =
  lo_distance :: "element metric"
  lo_linkage :: string
  lo_mode :: string
  lo_threshold :: jsnum
  lo_add_dendrogram :: bool
  lo_depth :: int
  lo_attributes :: "(element \<Rightarrow> jsnum) list"

definition linkage_defaults :: linkage_options where
  "linkage_defaults = \<lparr>lo_distance = Method ''euclidean'', lo_linkage = ''min'', lo_mode = ''threshold'',
     lo_threshold = JInf, lo_add_dendrogram = False, lo_depth = 0, lo_attributes = []\<rparr>"

definition linkage_aliases :: "(string \<times> string) list" where
  "linkage_aliases = [(''single'', ''min''), (''complete'', ''max'')]"

definition preferred_linkage :: "linkage_options \<Rightarrow> linkage_options" where
  "preferred_linkage opts = opts\<lparr>lo_linkage := the_or (lo_linkage opts) (map_of linkage_aliases (lo_linkage opts))\<rparr>"

type_synonym dist_table = "nat \<Rightarrow> nat \<Rightarrow> jsnum"

record linkage_state =
  ls_objects :: "cluster_object list"
  ls_clusters :: "nat list"
  ls_index :: "nat list"
  ls_dists :: dist_table
  ls_mins :: "nat \<Rightarrow> nat"

abbreviation object_at :: "linkage_state \<Rightarrow> nat \<Rightarrow> cluster_object" where
  "object_at s r \<equiv> ls_objects s ! r"

text \<open>\<open>dists[k1][k2]\<close> with keys that may be \<open>null\<close>.\<close>

definition dist_at :: "dist_table \<Rightarrow> nat option \<Rightarrow> nat option \<Rightarrow> jsnum option" where
  "dist_at D k1 k2 =
     (case k1 of None \<Rightarrow> None | Some a \<Rightarrow> Some (case k2 of None \<Rightarrow> JNaN | Some b \<Rightarrow> D a b))"

definition set_dist :: "dist_table \<Rightarrow> nat \<Rightarrow> nat \<Rightarrow> jsnum \<Rightarrow> dist_table" where
  "set_dist D a b d = (let D = D(a := (D a)(b := d)) in D(b := (D b)(a := d)))"

definition closest_step :: "linkage_state \<Rightarrow> nat \<times> jsnum \<Rightarrow> nat \<Rightarrow> (nat \<times> jsnum) option" where
  "closest_step s = (\<lambda>(min_key, least) r.
     (case co_key (object_at s r) of
        None \<Rightarrow> None
      | Some key \<Rightarrow>
          (let d = ls_dists s key (ls_mins s key)
           in Some (if js_lt d least then (key, d) else (min_key, least)))))"

definition closest_key :: "linkage_state \<Rightarrow> (nat \<times> jsnum) option" where
  "closest_key s = fold_option (closest_step s) (0, JInf) (ls_clusters s)"

definition merging_ends :: "linkage_options \<Rightarrow> linkage_state \<Rightarrow> jsnum \<Rightarrow> bool" where
  "merging_ends opts s least =
     (lo_mode opts = ''threshold'' \<and> js_le (lo_threshold opts) least \<or>
      lo_mode opts = ''dendrogram'' \<and> length (ls_clusters s) = 1)"

definition body_nodes :: "cluster_body \<Rightarrow> element list" where
  "body_nodes b = (case b of Members es \<Rightarrow> es | Joined _ _ \<Rightarrow> [])"

definition merged_body :: "linkage_options \<Rightarrow> cluster_body \<Rightarrow> cluster_body \<Rightarrow> cluster_body" where
  "merged_body opts b1 b2 =
     (if lo_mode opts = ''dendrogram'' then Joined b1 b2 else Members (body_nodes b1 @ body_nodes b2))"

text \<open>The distance of the first nodes; a merge in dendrogram mode has none, and an attribute or a
  function applied to \<open>undefined\<close> counts as an exception.\<close>

definition first_distance :: "linkage_options \<Rightarrow> cluster_body \<Rightarrow> cluster_body \<Rightarrow> jsnum option" where
  "first_distance opts b1 b2 =
     (case (body_nodes b1, body_nodes b2) of
        (p # _, q # _) \<Rightarrow> Some (node_distance (lo_distance opts) (lo_attributes opts) p q)
      | _ \<Rightarrow>
          (case lo_distance opts of
             Method name \<Rightarrow>
               if lo_attributes opts = [] then Some (named_distance name 0 (\<lambda>i. JNaN) (\<lambda>i. JNaN)) else None
           | Custom _ _ \<Rightarrow> None))"

text \<open>\<open>size\<close> is no field of a cluster, so \<open>mean\<close> computes with \<open>undefined\<close>.\<close>

definition linked_distance ::
  "linkage_options \<Rightarrow> dist_table \<Rightarrow> cluster_object \<Rightarrow> cluster_object \<Rightarrow> cluster_object \<Rightarrow> jsnum option" where
  "linked_distance opts D c1 c2 cur =
     (if co_key c1 = co_key cur then Some JInf
      else if lo_linkage opts \<in> set [''min'', ''max'', ''mean''] then
        (case (dist_at D (co_key c1) (co_key cur), dist_at D (co_key c2) (co_key cur)) of
           (Some a, Some b) \<Rightarrow>
             Some (if lo_linkage opts = ''min'' then (if js_lt b a then b else a)
                   else if lo_linkage opts = ''max'' then (if js_lt a b then b else a)
                   else JNaN)
         | _ \<Rightarrow> None)
      else first_distance opts (co_body cur) (co_body c1))"

definition update_dist ::
  "linkage_options \<Rightarrow> cluster_object list \<Rightarrow> cluster_object \<Rightarrow> cluster_object \<Rightarrow> dist_table \<Rightarrow> nat \<Rightarrow>
   dist_table option" where
  "update_dist opts objects c1 c2 D r =
     (case linked_distance opts D c1 c2 (objects ! r) of
        None \<Rightarrow> None
      | Some d \<Rightarrow>
          (case (co_key c1, co_key (objects ! r)) of
             (Some a, Some b) \<Rightarrow> Some (set_dist D a b d)
           | _ \<Rightarrow> None))"

definition nearest_key :: "dist_table \<Rightarrow> nat list \<Rightarrow> nat \<Rightarrow> nat" where
  "nearest_key D keys key1 =
     foldl (\<lambda>m key2. if js_lt (D key1 key2) (D key1 m) then key2 else m) key1 keys"

definition live_keys :: "cluster_object list \<Rightarrow> nat list \<Rightarrow> nat list" where
  "live_keys objects clusters = List.map_filter (\<lambda>r. co_key (objects ! r)) clusters"

definition update_min ::
  "dist_table \<Rightarrow> nat list \<Rightarrow> nat option \<Rightarrow> nat option \<Rightarrow> (nat \<Rightarrow> nat) \<Rightarrow> nat \<Rightarrow> nat \<Rightarrow> nat" where
  "update_min D keys k1 k2 mins key =
     (if Some (mins key) = k1 \<or> Some (mins key) = k2 then mins(key := nearest_key D keys key) else mins)"

definition set_indices :: "cluster_object list \<Rightarrow> nat list \<Rightarrow> cluster_object list" where
  "set_indices objects clusters =
     foldl (\<lambda>objects i. objects[clusters ! i := (objects ! (clusters ! i))\<lparr>co_index := Some i\<rparr>])
       objects [0..<length clusters]"

definition retire :: "cluster_object list \<Rightarrow> nat \<Rightarrow> cluster_object list" where
  "retire objects r = objects[r := (objects ! r)\<lparr>co_key := None, co_index := None\<rparr>]"

text \<open>Writing at \<open>null\<close> or \<open>undefined\<close> changes no entry, and \<open>splice\<close> reads either as 0.\<close>

definition replace_merged :: "nat list \<Rightarrow> cluster_object \<Rightarrow> cluster_object \<Rightarrow> nat \<Rightarrow> nat list" where
  "replace_merged clusters c1 c2 r =
     remove_at (case co_index c1 of Some i \<Rightarrow> clusters[i := r] | None \<Rightarrow> clusters) (the_or 0 (co_index c2))"

definition merge_pair ::
  "linkage_options \<Rightarrow> linkage_state \<Rightarrow> nat \<Rightarrow> nat \<Rightarrow> linkage_state option" where
  "merge_pair opts s r1 r2 =
     (let c1 = object_at s r1; c2 = object_at s r2; r = length (ls_objects s);
          objects = ls_objects s @ [\<lparr>co_body = merged_body opts (co_body c1) (co_body c2),
                                     co_key = co_key c1, co_index = None\<rparr>];
          clusters = replace_merged (ls_clusters s) c1 c2 r
      in case fold_option (update_dist opts objects c1 c2) (ls_dists s) clusters of
           None \<Rightarrow> None
         | Some D \<Rightarrow>
            (let keys = live_keys objects clusters in
             Some \<lparr>ls_objects = retire (retire (set_indices objects clusters) r1) r2,
               ls_clusters = clusters,
               ls_index = (case co_key c1 of Some k \<Rightarrow> (ls_index s)[k := r] | None \<Rightarrow> ls_index s),
               ls_dists = D,
               ls_mins = foldl (update_min D keys (co_key c1) (co_key c2)) (ls_mins s) keys\<rparr>))"

definition merge_closest :: "linkage_options \<Rightarrow> linkage_state \<Rightarrow> (bool \<times> linkage_state) option" where
  "merge_closest opts s =
     (case closest_key s of
        None \<Rightarrow> None
      | Some (min_key, least) \<Rightarrow>
          if merging_ends opts s least then Some (False, s)
          else
            (case (js_get (ls_index s) min_key, js_get (ls_index s) (ls_mins s min_key)) of
               (Some r1, Some r2) \<Rightarrow> map_option (Pair True) (merge_pair opts s r1 r2)
             | _ \<Rightarrow> None))"

partial_function (option) merge_all :: "linkage_options \<Rightarrow> linkage_state \<Rightarrow> linkage_state option" where
  "merge_all opts s =
     (case merge_closest opts s of
        None \<Rightarrow> None
      | Some (again, s') \<Rightarrow> if again then merge_all opts s' else Some s')"

declare merge_all.simps [code]

definition first_cell ::
  "linkage_options \<Rightarrow> collection \<Rightarrow> dist_table \<times> (nat \<Rightarrow> nat) \<Rightarrow> nat \<times> nat \<Rightarrow> dist_table \<times> (nat \<Rightarrow> nat)" where
  "first_cell opts ns = (\<lambda>(D, mins) (i, j).
     (let d = (if i = j then JInf else node_distance (lo_distance opts) (lo_attributes opts) (ns ! i) (ns ! j));
          D = set_dist D i j d
      in (D, if js_lt d (D i (mins i)) then mins(i := j) else mins)))"

definition linkage_start :: "linkage_options \<Rightarrow> collection \<Rightarrow> linkage_state" where
  "linkage_start opts ns =
     (let n = length ns;
          (D, mins) = foldl (first_cell opts ns) (\<lambda>i j. JNaN, \<lambda>i. 0)
            (concat (map (\<lambda>i. map (Pair i) [0..<Suc i]) [0..<n]))
      in \<lparr>ls_objects = map (\<lambda>i. \<lparr>co_body = Members [ns ! i], co_key = Some i, co_index = Some i\<rparr>) [0..<n],
          ls_clusters = [0..<n], ls_index = [0..<n], ls_dists = D, ls_mins = mins\<rparr>)"

fun all_children :: "cluster_body \<Rightarrow> element list" where
  "all_children (Members es) = es"
| "all_children (Joined left right) = all_children left @ all_children right"

fun clusters_from_tree :: "cluster_body \<Rightarrow> int \<Rightarrow> collection list" where
  "clusters_from_tree (Members es) k = (if k = 0 then [[]] else [es])"
| "clusters_from_tree (Joined left right) k =
     (if k = 0 then [all_children left @ all_children right]
      else if k = 1 then [all_children left, all_children right]
      else clusters_from_tree left (k - 1) @ clusters_from_tree right (k - 1))"

text \<open>What is added to the graph: a node for each merge, with edges from its two parts.\<close>

datatype dendrogram_part = AddNode string | AddEdge string string

fun build_dendrogram :: "cluster_body \<Rightarrow> string \<times> dendrogram_part list" where
  "build_dendrogram (Members es) = (case es of e # _ \<Rightarrow> (ele_id e, []) | [] \<Rightarrow> ([], []))"
| "build_dendrogram (Joined left right) =
     (let (l, adds_l) = build_dendrogram left; (r, adds_r) = build_dendrogram right; i = l @ '','' @ r
      in (i, adds_l @ adds_r @ [AddNode i, AddEdge l i, AddEdge r i]))"

definition hierarchical_clustering ::
  "collection \<Rightarrow> linkage_options \<Rightarrow> (collection list \<times> dendrogram_part list) option" where
  "hierarchical_clustering c opts =
     (let opts = preferred_linkage opts; ns = nodes_of c in
      case merge_all opts (linkage_start opts ns) of
        None \<Rightarrow> None
      | Some s \<Rightarrow>
          (let bodies = map (\<lambda>r. co_body (object_at s r)) (ls_clusters s) in
           if lo_mode opts = ''dendrogram'' then
             (case bodies of
                [] \<Rightarrow> Some ([], [])
              | b # _ \<Rightarrow> Some (clusters_from_tree b (lo_depth opts),
                              if lo_add_dendrogram opts then snd (build_dendrogram b) else []))
           else Some (map body_nodes bodies, [])))"

subsection \<open>Affinity propagation\<close>

datatype preference = NamedPreference string | NumberPreference jsnum | OtherPreference

record affinity_options =
  ao_distance :: "element metric"
  ao_preference :: preference
  ao_damping :: jsnum
  ao_max_iterations :: nat
  ao_min_iterations :: nat
  ao_attributes :: "(element \<Rightarrow> jsnum) list"

datatype affinity_error = BadDamping | BadPreference

text \<open>\<open>undefined\<close> is \<open>NaN\<close> for the damping and \<open>OtherPreference\<close> for the preference.\<close>

definition affinity_check :: "affinity_options \<Rightarrow> affinity_error + affinity_options" where
  "affinity_check opts =
     (if \<not> (js_le (JNum (1 / 2)) (ao_damping opts) \<and> js_lt (ao_damping opts) (JNum 1)) then Inl BadDamping
      else if \<not> (case ao_preference opts of
                   NamedPreference name \<Rightarrow> name \<in> set [''median'', ''mean'', ''min'', ''max'']
                 | NumberPreference x \<Rightarrow> x \<noteq> JNaN
                 | OtherPreference \<Rightarrow> False) then Inl BadPreference
      else Inr opts)"

definition node_similarity :: "affinity_options \<Rightarrow> element \<Rightarrow> element \<Rightarrow> jsnum" where
  "node_similarity opts n1 n2 = js_neg (node_distance (ao_distance opts) (ao_attributes opts) n1 n2)"

definition preference_value :: "jsnum list \<Rightarrow> preference \<Rightarrow> jsnum" where
  "preference_value S p =
     (case p of
        NumberPreference x \<Rightarrow> x
      | NamedPreference name \<Rightarrow>
          if name = ''median'' then the_or JNaN (median S None None True True)
          else if name = ''mean'' then array_mean S None None
          else if name = ''min'' then array_min S None None
          else if name = ''max'' then array_max S None None
          else JNaN
      | OtherPreference \<Rightarrow> JNaN)"

definition similarity_matrix :: "affinity_options \<Rightarrow> collection \<Rightarrow> jsnum list" where
  "similarity_matrix opts ns =
     (let n = length ns;
          S = concat (map (\<lambda>i. map (\<lambda>j. if i = j then JNegInf else node_similarity opts (ns ! i) (ns ! j))
                [0..<n]) [0..<n]);
          p = preference_value S (ao_preference opts)
      in foldl (\<lambda>S i. S[i * n + i := p]) S [0..<n])"

definition damped :: "jsnum \<Rightarrow> jsnum \<Rightarrow> jsnum \<Rightarrow> jsnum" where
  "damped damping new old = js_add (js_mul (js_sub (JNum 1) damping) new) (js_mul damping old)"

definition row_maxima :: "nat \<Rightarrow> jsnum list \<Rightarrow> jsnum list \<Rightarrow> nat \<Rightarrow> jsnum \<times> jsnum \<times> nat option" where
  "row_maxima n S A i =
     foldl (\<lambda>(m1, m2, mi). \<lambda>j.
         (let AS = js_add (A ! (i * n + j)) (S ! (i * n + j))
          in if js_le m1 AS then (AS, m1, Some j) else if js_lt m2 AS then (m1, AS, mi) else (m1, m2, mi)))
       (JNegInf, JNegInf, None) [0..<n]"

text \<open>Without a maximum, in a row of \<open>NaN\<close>, the last write hits the cell before the row, with \<open>NaN\<close>.\<close>

definition update_responsibility ::
  "nat \<Rightarrow> jsnum \<Rightarrow> jsnum list \<Rightarrow> jsnum list \<Rightarrow> jsnum list \<Rightarrow> nat \<Rightarrow> jsnum list" where
  "update_responsibility n damping S A R i =
     (let old = (\<lambda>j. R ! (i * n + j)); (m1, m2, mi) = row_maxima n S A i;
          R' = foldl (\<lambda>R' j. R'[i * n + j := damped damping (js_sub (S ! (i * n + j)) m1) (old j)]) R [0..<n]
      in case mi of
           Some k \<Rightarrow> R'[i * n + k := damped damping (js_sub (S ! (i * n + k)) m2) (old k)]
         | None \<Rightarrow> if i = 0 then R' else R'[i * n - 1 := JNaN])"

definition update_availability ::
  "nat \<Rightarrow> jsnum \<Rightarrow> jsnum list \<Rightarrow> jsnum list \<Rightarrow> nat \<Rightarrow> jsnum list" where
  "update_availability n damping R A i =
     (let old = (\<lambda>j. A ! (j * n + i)); Rp = (\<lambda>j. js_max (JNum 0) (R ! (j * n + i)));
          acc = foldl (\<lambda>s j. js_add s (Rp j)) (JNum 0) [0..<n];
          acc = js_sub acc (Rp i); Rp = Rp(i := R ! (i * n + i)); acc = js_add acc (Rp i);
          A' = foldl (\<lambda>A' j. A'[j * n + i := damped damping (js_min (JNum 0) (js_sub acc (Rp j))) (old j)]) A [0..<n]
      in A'[i * n + i := damped damping (js_sub acc (Rp i)) (old i)])"

definition is_exemplar :: "nat \<Rightarrow> jsnum list \<Rightarrow> jsnum list \<Rightarrow> nat \<Rightarrow> bool" where
  "is_exemplar n R A i = js_lt (JNum 0) (js_add (R ! (i * n + i)) (A ! (i * n + i)))"

text \<open>The last \<open>minIterations\<close> decisions agree for each node.\<close>

definition decisions_settled :: "nat \<Rightarrow> nat \<Rightarrow> bool list \<Rightarrow> bool" where
  "decisions_settled n min_iterations e =
     list_all (\<lambda>i. let se = length (filter (\<lambda>j. e ! (j * n + i)) [0..<min_iterations]) in se = 0 \<or> se = min_iterations)
       [0..<n]"

type_synonym affinity_state = "jsnum list \<times> jsnum list \<times> bool list"

text \<open>A round, and whether the loop ends after it.\<close>

definition affinity_round ::
  "affinity_options \<Rightarrow> nat \<Rightarrow> jsnum list \<Rightarrow> nat \<Rightarrow> affinity_state \<Rightarrow> affinity_state \<times> bool" where
  "affinity_round opts n S iter = (\<lambda>(R, A, e).
     (let R = foldl (update_responsibility n (ao_damping opts) S A) R [0..<n];
          A = foldl (update_availability n (ao_damping opts) R) A [0..<n];
          m = ao_min_iterations opts;
          e = foldl (\<lambda>e i. e[iter mod m * n + i := is_exemplar n R A i]) e [0..<n]
      in ((R, A, e),
          list_ex (is_exemplar n R A) [0..<n] \<and> (m \<le> iter + 1 \<or> iter + 1 = ao_max_iterations opts) \<and>
          decisions_settled n m e)))"

fun affinity_loop ::
  "nat \<Rightarrow> affinity_options \<Rightarrow> nat \<Rightarrow> jsnum list \<Rightarrow> nat \<Rightarrow> affinity_state \<Rightarrow> affinity_state" where
  "affinity_loop 0 opts n S iter s = s"
| "affinity_loop (Suc left) opts n S iter s =
     (let (s, ended) = affinity_round opts n S iter s
      in if ended then s else affinity_loop left opts n S (Suc iter) s)"

definition find_exemplars :: "nat \<Rightarrow> jsnum list \<Rightarrow> jsnum list \<Rightarrow> nat list" where
  "find_exemplars n R A = filter (is_exemplar n R A) [0..<n]"

definition best_exemplar :: "nat \<Rightarrow> jsnum list \<Rightarrow> nat option list \<Rightarrow> nat \<Rightarrow> nat option" where
  "best_exemplar n S exemplars i =
     fst (foldl (\<lambda>(index, greatest). \<lambda>e.
         (case e of
            None \<Rightarrow> (index, greatest)
          | Some e \<Rightarrow> if js_lt greatest (S ! (i * n + e)) then (Some e, S ! (i * n + e)) else (index, greatest)))
       (None, JNegInf) exemplars)"

text \<open>Only an index above 0 is pushed, so what follows a node without one moves to the left.\<close>

definition assign_exemplars :: "nat \<Rightarrow> jsnum list \<Rightarrow> nat option list \<Rightarrow> nat option list" where
  "assign_exemplars n S exemplars =
     (let pushed = filter (\<lambda>x. case x of None \<Rightarrow> False | Some e \<Rightarrow> 0 < e) (map (best_exemplar n S exemplars) [0..<n])
      in foldl (\<lambda>clusters x. case x of None \<Rightarrow> clusters | Some e \<Rightarrow> js_put clusters e e) pushed exemplars)"

definition central_member :: "nat \<Rightarrow> jsnum list \<Rightarrow> nat option list \<Rightarrow> nat option \<Rightarrow> nat option" where
  "central_member n S clusters exemplar =
     (let ii = filter (\<lambda>c. clusters ! c = exemplar) [0..<length clusters] in
      fst (foldl (\<lambda>(best, greatest). \<lambda>i.
          (let s = foldl (\<lambda>s j. js_add s (S ! (j * n + i))) (JNum 0) ii
           in if js_lt greatest s then (Some i, s) else (best, greatest))) (None, JNegInf) ii))"

definition affinity_assign :: "nat \<Rightarrow> jsnum list \<Rightarrow> nat list \<Rightarrow> nat option list \<times> nat option list" where
  "affinity_assign n S exemplars =
     (let clusters = assign_exemplars n S (map Some exemplars);
          moved = map (\<lambda>e. central_member n S clusters (Some e)) exemplars
      in (assign_exemplars n S moved, moved))"

definition affinity_propagation :: "collection \<Rightarrow> affinity_options \<Rightarrow> affinity_error + collection list" where
  "affinity_propagation c opts =
     (case affinity_check opts of
        Inl e \<Rightarrow> Inl e
      | Inr opts \<Rightarrow>
          (let ns = nodes_of c; n = length ns; S = similarity_matrix opts ns;
               zeros = replicate (n * n) (JNum 0);
               (R, A, e) = affinity_loop (ao_max_iterations opts) opts n S 0
                 (zeros, zeros, replicate (n * ao_min_iterations opts) False);
               (indices, exemplars) = affinity_assign n S (find_exemplars n R A)
           in Inr (map (\<lambda>x. case x of
                     None \<Rightarrow> []
                   | Some k \<Rightarrow> map ((!) ns) (filter (\<lambda>i. i < length indices \<and> indices ! i = Some k) [0..<n]))
                 exemplars)))"

end
