(* ===== verification/LinkageFacts.thy ===== *)
theory LinkageFacts
  imports CyLinkage
begin

text \<open>
  Single linkage with a threshold.  The invariant of the merge loop ties the store of cluster objects
  to disjoint sets of nodes, the distance table to the least distance between them, and the table of
  nearest clusters to that one; the result is the connected components of the nodes closer than the
  threshold.
\<close>

subsection \<open>Removing from a list\<close>

lemma length_remove_at [simp]: "i < length xs \<Longrightarrow> length (remove_at xs i) = length xs - 1"
  by (auto simp: remove_at_def)

lemma map_remove_at: "map f (remove_at xs i) = remove_at (map f xs) i"
  by (simp add: remove_at_def take_map drop_map)

lemma remove_at_split: "i < length xs \<Longrightarrow> \<exists>ys zs. xs = ys @ xs ! i # zs \<and> remove_at xs i = ys @ zs"
  by (metis id_take_nth_drop remove_at_def)

lemma set_remove_at: "distinct xs \<Longrightarrow> i < length xs \<Longrightarrow> set (remove_at xs i) = set xs - {xs ! i}"
proof -
  assume *: "distinct xs" "i < length xs"
  obtain ys x zs where s: "xs = ys @ x # zs" "x = xs ! i" "remove_at xs i = ys @ zs"
    using remove_at_split[OF *(2)] by blast
  have "set xs = insert x (set ys \<union> set zs)" "x \<notin> set ys \<union> set zs"
    using *(1) unfolding s(1) by auto
  then show ?thesis
    using s(2,3) by auto
qed

lemma distinct_remove_at: "distinct xs \<Longrightarrow> distinct (remove_at xs i)"
  by (metis remove_at_def append_take_drop_id distinct_append distinct_drop distinct_take
      set_drop_subset_set_drop set_take_disj_set_drop_if_distinct Suc_n_not_le_n le_SucI nle_le)

subsection \<open>The store\<close>

lemma set_indices_aux:
  assumes "distinct rs" "set rs \<subseteq> {..<length objects}" "m \<le> length rs"
  defines "f \<equiv> \<lambda>objects i. objects[rs ! i := (objects ! (rs ! i))\<lparr>co_index := Some i\<rparr>]"
  shows "length (foldl f objects [0..<m]) = length objects \<and>
         (\<forall>i<m. foldl f objects [0..<m] ! (rs ! i) = (objects ! (rs ! i))\<lparr>co_index := Some i\<rparr>) \<and>
         (\<forall>r. r \<notin> set (take m rs) \<longrightarrow> foldl f objects [0..<m] ! r = objects ! r)"
  using assms(3)
proof (induction m)
  case 0
  then show ?case by simp
next
  case (Suc m)
  let ?o = "foldl f objects [0..<m]"
  have IH: "length ?o = length objects"
    "\<And>i. i < m \<Longrightarrow> ?o ! (rs ! i) = (objects ! (rs ! i))\<lparr>co_index := Some i\<rparr>"
    "\<And>r. r \<notin> set (take m rs) \<Longrightarrow> ?o ! r = objects ! r"
    using Suc by auto
  have m: "m < length rs" "rs ! m < length objects"
    using Suc.prems assms(2) by (auto simp: subset_iff)
  have "rs ! m \<notin> set (take m rs)"
    using assms(1) m(1) by (auto simp: in_set_conv_nth nth_eq_iff_index_eq)
  moreover have "rs ! m \<noteq> rs ! i" if "i < m" for i
    using that assms(1) m(1) by (simp add: nth_eq_iff_index_eq)
  moreover have "foldl f objects [0..<Suc m] = ?o[rs ! m := (?o ! (rs ! m))\<lparr>co_index := Some m\<rparr>]"
    by (simp add: f_def)
  ultimately show ?case
    using IH m by (auto simp: take_Suc_conv_app_nth less_Suc_eq)
qed

lemma set_indices_at:
  assumes "distinct rs" "set rs \<subseteq> {..<length objects}"
  shows length_set_indices: "length (set_indices objects rs) = length objects"
    and nth_set_indices: "i < length rs \<Longrightarrow>
           set_indices objects rs ! (rs ! i) = (objects ! (rs ! i))\<lparr>co_index := Some i\<rparr>"
  using set_indices_aux[OF assms order_refl] by (simp_all add: set_indices_def)

lemma retire_simps [simp]:
  "length (retire objects r) = length objects" "r' \<noteq> r \<Longrightarrow> retire objects r ! r' = objects ! r'"
  by (simp_all add: retire_def)

subsection \<open>Distances\<close>

definition least_between :: "dist_table \<Rightarrow> nat set \<Rightarrow> nat set \<Rightarrow> jsnum \<Rightarrow> bool" where
  "least_between d A B v \<longleftrightarrow> (\<exists>i\<in>A. \<exists>j\<in>B. v = d i j) \<and> (\<forall>i\<in>A. \<forall>j\<in>B. \<not> js_lt (d i j) v)"

lemma least_between_sym: "(\<And>i j. d i j = d j i) \<Longrightarrow> least_between d A B v \<Longrightarrow> least_between d B A v"
  unfolding least_between_def by metis

lemma lesser_le:
  "\<not> js_lt x u \<Longrightarrow> \<not> js_lt x (if js_lt v u then v else u)"
  "v \<noteq> JNaN \<Longrightarrow> \<not> js_lt x v \<Longrightarrow> \<not> js_lt x (if js_lt v u then v else u)"
  by (auto dest: js_lt_trans js_lt_neg_trans)

lemma least_between_Un:
  assumes "least_between d A C u" "least_between d B C v" "v \<noteq> JNaN"
  shows "least_between d (A \<union> B) C (if js_lt v u then v else u)"
  unfolding least_between_def
proof (intro conjI ballI)
  show "\<exists>i\<in>A \<union> B. \<exists>j\<in>C. (if js_lt v u then v else u) = d i j"
    using assms(1,2) by (auto simp: least_between_def)
  show "\<not> js_lt (d i j) (if js_lt v u then v else u)" if "i \<in> A \<union> B" "j \<in> C" for i j
    using that assms lesser_le(1)[of "d i j" u v] lesser_le(2)[of v "d i j" u]
    unfolding least_between_def Un_iff by blast
qed

lemma nearest_key_spec:
  assumes "\<forall>k'\<in>set keys. D k k' \<noteq> JNaN" "D k k \<noteq> JNaN"
  shows "nearest_key D keys k \<in> insert k (set keys) \<and>
         (\<forall>k'\<in>insert k (set keys). \<not> js_lt (D k k') (D k (nearest_key D keys k)))"
  using assms(1)
proof (induction keys rule: rev_induct)
  case Nil
  then show ?case by (simp add: nearest_key_def)
next
  case (snoc x keys)
  let ?m = "nearest_key D keys k"
  have IH: "?m \<in> insert k (set keys)" "\<And>k'. k' \<in> insert k (set keys) \<Longrightarrow> \<not> js_lt (D k k') (D k ?m)"
    using snoc by auto
  have "D k ?m \<noteq> JNaN"
    using IH(1) snoc.prems assms(2) by auto
  moreover have "nearest_key D (keys @ [x]) k = (if js_lt (D k x) (D k ?m) then x else ?m)"
    by (simp add: nearest_key_def)
  ultimately show ?case
    using IH lesser_le(1)[of _ "D k ?m" "D k x"] lesser_le(2)[of "D k x" _ "D k ?m"] snoc.prems
    by (cases "js_lt (D k x) (D k ?m)") auto
qed

lemma update_min_other: "k \<noteq> key \<Longrightarrow> update_min D ks k1 k2 mins key k = mins k"
  by (simp add: update_min_def)

lemma update_mins_at:
  assumes "distinct keys"
  shows "foldl (update_min D ks k1 k2) mins keys k =
           (if k \<in> set keys \<and> (Some (mins k) = k1 \<or> Some (mins k) = k2) then nearest_key D ks k else mins k)"
  using assms by (induction keys rule: rev_induct) (auto simp: update_min_def)

text \<open>The row of the merged cluster.\<close>

definition merged_row :: "dist_table \<Rightarrow> nat \<Rightarrow> nat \<Rightarrow> nat \<Rightarrow> jsnum" where
  "merged_row D k1 k2 y = (if y = k1 then JInf else if js_lt (D k2 y) (D k1 y) then D k2 y else D k1 y)"

lemma fold_dists:
  assumes "lo_linkage opts = ''min''" "co_key c1 = Some k1" "co_key c2 = Some k2" "k1 \<noteq> k2"
    and "map (\<lambda>r. co_key (objects ! r)) rs = map Some keys" "distinct keys" "k2 \<notin> set keys"
  shows "fold_option (update_dist opts objects c1 c2) D rs =
           Some (\<lambda>x y. if x = k1 \<and> y \<in> set keys then merged_row D k1 k2 y
                       else if y = k1 \<and> x \<in> set keys then merged_row D k1 k2 x else D x y)"
  using assms(5,6,7)
proof (induction rs arbitrary: D keys)
  case Nil
  then show ?case by simp
next
  case (Cons r rs)
  then obtain b keys' where k: "keys = b # keys'" "co_key (objects ! r) = Some b"
    "map (\<lambda>r. co_key (objects ! r)) rs = map Some keys'" "distinct keys'" "b \<notin> set keys'" "k2 \<noteq> b" "k2 \<notin> set keys'"
    by (cases keys) auto
  let ?D = "set_dist D k1 b (merged_row D k1 k2 b)"
  have "update_dist opts objects c1 c2 D r = Some ?D"
    using assms(1-4) k(2) by (auto simp: update_dist_def linked_distance_def dist_at_def merged_row_def)
  moreover have "merged_row ?D k1 k2 y = merged_row D k1 k2 y" if "y \<in> set keys'" for y
    using that k(5,6) assms(4) by (auto simp: merged_row_def set_dist_def Let_def)
  ultimately have "fold_option (update_dist opts objects c1 c2) D (r # rs) =
      Some (\<lambda>x y. if x = k1 \<and> y \<in> set keys' then merged_row D k1 k2 y
                  else if y = k1 \<and> x \<in> set keys' then merged_row D k1 k2 x else ?D x y)"
    using Cons.IH[OF k(3,4,7), of ?D] by (simp add: fun_eq_iff)
  then show ?case
    using k(1,5) by (auto simp: set_dist_def Let_def fun_eq_iff)
qed

text \<open>The fold keeps the first least entry; \<open>f\<close> reads the entry of a key.\<close>

lemma closest_fold:
  fixes s :: linkage_state
  defines "f \<equiv> \<lambda>k. ls_dists s k (ls_mins s k)"
  assumes "map (\<lambda>r. co_key (object_at s r)) rs = map Some ks" "\<forall>k\<in>set ks. f k \<noteq> JNaN" "m \<noteq> JNaN"
    and "m = JInf \<or> mk \<in> K \<and> m = f mk"
  shows "\<exists>mk' m'. fold_option (closest_step s) (mk, m) rs = Some (mk', m') \<and> \<not> js_lt m m' \<and>
           (\<forall>k\<in>set ks. \<not> js_lt (f k) m') \<and> (m' = JInf \<or> mk' \<in> K \<union> set ks \<and> m' = f mk')"
  using assms(2-5)
proof (induction rs arbitrary: ks m mk K)
  case Nil
  then show ?case by simp
next
  case (Cons r rs)
  then obtain k ks' where k: "ks = k # ks'" "co_key (object_at s r) = Some k"
    "map (\<lambda>r. co_key (object_at s r)) rs = map Some ks'"
    by (cases ks) auto
  define m1 where "m1 = (if js_lt (f k) m then f k else m)"
  define mk1 where "mk1 = (if js_lt (f k) m then k else mk)"
  have "m1 \<noteq> JNaN" "m1 = JInf \<or> mk1 \<in> insert k K \<and> m1 = f mk1"
    using Cons.prems k(1) by (auto simp: m1_def mk1_def)
  then obtain mk' m' where IH: "fold_option (closest_step s) (mk1, m1) rs = Some (mk', m')" "\<not> js_lt m1 m'"
    "\<forall>k\<in>set ks'. \<not> js_lt (f k) m'" "m' = JInf \<or> mk' \<in> insert k K \<union> set ks' \<and> m' = f mk'"
    using Cons.IH[OF k(3), of m1 mk1 "insert k K"] Cons.prems(2) k(1) by auto
  have "closest_step s (mk, m) r = Some (mk1, m1)"
    using k(2) by (simp add: closest_step_def m1_def mk1_def f_def Let_def)
  moreover have "\<not> js_lt m m1" "\<not> js_lt (f k) m1"
    by (auto simp: m1_def dest: js_lt_asym)
  then have "\<not> js_lt m m'" "\<not> js_lt (f k) m'"
    using IH(2) js_lt_neg_trans \<open>m1 \<noteq> JNaN\<close> by blast+
  ultimately show ?case
    using IH k(1) by auto
qed

subsection \<open>A merge\<close>

text \<open>The live clusters have the keys \<open>ks\<close> and hold the nodes at the positions \<open>mem k\<close>.\<close>

definition live_object :: "collection \<Rightarrow> nat list \<Rightarrow> nat \<Rightarrow> nat \<Rightarrow> cluster_object" where
  "live_object ns js k p = \<lparr>co_body = Members (map ((!) ns) js), co_key = Some k, co_index = Some p\<rparr>"

definition linked :: "collection \<Rightarrow> linkage_state \<Rightarrow> nat list \<Rightarrow> (nat \<Rightarrow> nat list) \<Rightarrow> bool" where
  "linked ns s ks mem \<longleftrightarrow>
     distinct ks \<and> set ks \<subseteq> {..<length ns} \<and> length (ls_index s) = length ns \<and>
     ls_clusters s = map ((!) (ls_index s)) ks \<and> distinct (ls_clusters s) \<and>
     set (ls_clusters s) \<subseteq> {..<length (ls_objects s)} \<and>
     (\<forall>p<length ks. object_at s (ls_index s ! (ks ! p)) = live_object ns (mem (ks ! p)) (ks ! p) p)"

lemma linked_keys:
  assumes "linked ns s ks mem"
  shows "map (\<lambda>r. co_key (object_at s r)) (ls_clusters s) = map Some ks"
  using assms by (intro nth_equalityI) (auto simp: linked_def live_object_def)

lemma linked_bodies:
  assumes "linked ns s ks mem"
  shows "map (\<lambda>r. co_body (object_at s r)) (ls_clusters s) = map (\<lambda>k. Members (map ((!) ns) (mem k))) ks"
  using assms by (intro nth_equalityI) (auto simp: linked_def live_object_def)

definition merged_table :: "dist_table \<Rightarrow> nat \<Rightarrow> nat \<Rightarrow> nat list \<Rightarrow> dist_table" where
  "merged_table D k1 k2 ks =
     (\<lambda>x y. if x = k1 \<and> y \<in> set ks then merged_row D k1 k2 y
            else if y = k1 \<and> x \<in> set ks then merged_row D k1 k2 x else D x y)"

definition merged_mins :: "dist_table \<Rightarrow> (nat \<Rightarrow> nat) \<Rightarrow> nat \<Rightarrow> nat \<Rightarrow> nat list \<Rightarrow> nat \<Rightarrow> nat" where
  "merged_mins D mins k1 k2 ks =
     (\<lambda>k. if k \<in> set ks \<and> (mins k = k1 \<or> mins k = k2) then nearest_key D ks k else mins k)"

lemma live_keys_map: "map (\<lambda>r. co_key (objects ! r)) rs = map Some ks \<Longrightarrow> live_keys objects rs = ks"
  by (induction rs arbitrary: ks) (auto simp: live_keys_def List.map_filter_def)

lemma merge_pair_linked:
  assumes l: "linked ns s ks mem" and pq: "p < length ks" "q < length ks" "p \<noteq> q"
    and opts: "lo_mode opts = ''threshold''" "lo_linkage opts = ''min''"
  defines "k1 \<equiv> ks ! p" and "k2 \<equiv> ks ! q" and "ks' \<equiv> remove_at ks q"
  shows "\<exists>s'. merge_pair opts s (ls_index s ! k1) (ls_index s ! k2) = Some s' \<and>
           linked ns s' ks' (mem(k1 := mem k1 @ mem k2)) \<and>
           ls_dists s' = merged_table (ls_dists s) k1 k2 ks' \<and>
           ls_mins s' = merged_mins (ls_dists s') (ls_mins s) k1 k2 ks'"
proof -
  let ?r1 = "ls_index s ! k1" and ?r2 = "ls_index s ! k2" and ?r = "length (ls_objects s)"
  let ?mem = "mem(k1 := mem k1 @ mem k2)" and ?c1 = "live_object ns (mem k1) k1 p"
  let ?c2 = "live_object ns (mem k2) k2 q"
  define index where "index = (ls_index s)[k1 := ?r]"
  define clusters where "clusters = map ((!) index) ks'"
  define objects where "objects = ls_objects s @ [\<lparr>co_body = Members (map ((!) ns) (mem k1 @ mem k2)),
    co_key = Some k1, co_index = None\<rparr>]"
  note l = l[unfolded linked_def]
  have k: "k1 \<noteq> k2" "k1 \<in> set ks" "k2 \<in> set ks" "k1 < length (ls_index s)"
    using l pq by (auto simp: k1_def k2_def nth_eq_iff_index_eq subset_iff)
  have ks': "set ks' = set ks - {k2}" "distinct ks'"
    using l pq by (simp_all add: ks'_def k2_def set_remove_at distinct_remove_at)
  have c: "object_at s ?r1 = ?c1" "object_at s ?r2 = ?c2"
    using l pq by (auto simp: k1_def k2_def)
  have "map ((!) index) ks = (ls_clusters s)[p := ?r]"
    using l pq k(4) by (intro nth_equalityI) (auto simp: index_def k1_def nth_list_update nth_eq_iff_index_eq)
  then have cl: "clusters = replace_merged (ls_clusters s) ?c1 ?c2 ?r"
    by (simp add: clusters_def ks'_def map_remove_at replace_merged_def live_object_def the_or_def)
  have old: "ls_index s ! k \<in> set (ls_clusters s)" "ls_index s ! k < ?r" if "k \<in> set ks" for k
    using l that by (auto simp: subset_iff)
  have ref: "index ! k = (if k = k1 then ?r else ls_index s ! k)" if "k \<in> set ks" for k
    using k(4) by (auto simp: index_def)
  have inj: "ls_index s ! k = ls_index s ! k' \<longleftrightarrow> k = k'" if "k \<in> set ks" "k' \<in> set ks" for k k'
    using l that by (auto simp: distinct_map inj_on_def)
  have obj: "objects ! (index ! k) = (object_at s (ls_index s ! k))\<lparr>co_body := Members (map ((!) ns) (?mem k)),
      co_index := if k = k1 then None else co_index (object_at s (ls_index s ! k))\<rparr>" if "k \<in> set ks" for k
    using that l ref[OF that] old[OF that] c(1)
    by (auto simp: objects_def nth_append live_object_def in_set_conv_nth)
  have keys: "map (\<lambda>r. co_key (objects ! r)) clusters = map Some ks'"
    using obj ks'(1) l by (auto simp: clusters_def live_object_def in_set_conv_nth)
  have dc: "distinct clusters" "set clusters \<subseteq> {..<length objects}"
    using ks' inj ref old(2) unfolding clusters_def distinct_map inj_on_def objects_def
    by (auto simp: less_Suc_eq dest: less_imp_neq) (metis less_irrefl)+
  let ?D = "merged_table (ls_dists s) k1 k2 ks'"
  let ?s = "\<lparr>ls_objects = retire (retire (set_indices objects clusters) ?r1) ?r2, ls_clusters = clusters,
    ls_index = index, ls_dists = ?D, ls_mins = merged_mins ?D (ls_mins s) k1 k2 ks'\<rparr>"
  have "fold_option (update_dist opts objects ?c1 ?c2) (ls_dists s) clusters = Some ?D"
    using fold_dists[OF opts(2) _ _ k(1) keys ks'(2)] ks'(1) by (simp add: merged_table_def live_object_def)
  moreover have "foldl (update_min ?D ks' (Some k1) (Some k2)) (ls_mins s) ks' = ls_mins ?s"
    using ks'(2) by (auto simp: update_mins_at merged_mins_def)
  ultimately have step: "merge_pair opts s ?r1 ?r2 = Some ?s"
    using opts(1) live_keys_map[OF keys] unfolding merge_pair_def Let_def c cl[symmetric]
    by (simp add: live_object_def merged_body_def body_nodes_def objects_def[symmetric, simplified] index_def)
  have "object_at ?s (index ! (ks' ! i)) = live_object ns (?mem (ks' ! i)) (ks' ! i) i"
    if i: "i < length ks'" for i
  proof -
    have ki: "ks' ! i \<in> set ks" "ks' ! i \<noteq> k2"
      using i ks'(1) nth_mem[OF i] by auto
    have "index ! (ks' ! i) \<noteq> ?r1" "index ! (ks' ! i) \<noteq> ?r2"
      using ki ref[OF ki(1)] inj[OF ki(1)] k old(2)[OF k(2)] old(2)[OF k(3)] by auto
    moreover have "object_at s (ls_index s ! (ks' ! i)) = live_object ns (mem (ks' ! i)) (ks' ! i) j"
      if "j < length ks" "ks ! j = ks' ! i" for j
      using l that by metis
    then have "\<exists>j. object_at s (ls_index s ! (ks' ! i)) = live_object ns (mem (ks' ! i)) (ks' ! i) j"
      using ki(1) by (auto simp: in_set_conv_nth)
    moreover have "set_indices objects clusters ! (index ! (ks' ! i)) = (objects ! (index ! (ks' ! i)))\<lparr>co_index := Some i\<rparr>"
      using nth_set_indices[OF dc, of i] i by (simp add: clusters_def)
    ultimately show ?thesis
      using obj[OF ki(1)] by (auto simp: live_object_def)
  qed
  moreover have "length index = length ns"
    using l by (simp add: index_def)
  ultimately have "linked ns ?s ks' ?mem"
    using l ks' dc clusters_def length_set_indices[OF dc]
    by (simp add: linked_def subset_iff del: fun_upd_apply)
  then show ?thesis
    using step by auto
qed

subsection \<open>The tables\<close>

definition table_ok :: "dist_table \<Rightarrow> dist_table \<Rightarrow> nat set \<Rightarrow> (nat \<Rightarrow> nat set) \<Rightarrow> bool" where
  "table_ok d D K M \<longleftrightarrow>
     (\<forall>k\<in>K. D k k = JInf) \<and>
     (\<forall>k\<in>K. \<forall>k'\<in>K. k \<noteq> k' \<longrightarrow> D k k' = D k' k \<and> is_finite (D k k') \<and> least_between d (M k) (M k') (D k k'))"

lemma table_not_nan: "table_ok d D K M \<Longrightarrow> k \<in> K \<Longrightarrow> k' \<in> K \<Longrightarrow> D k k' \<noteq> JNaN"
  unfolding table_ok_def by (cases "k = k'") (force simp: is_finite_def)+

lemma merged_table_at:
  "x \<in> set ks \<Longrightarrow> y \<in> set ks \<Longrightarrow>
   merged_table D k1 k2 ks x y =
     (if x = k1 then merged_row D k1 k2 y else if y = k1 then merged_row D k1 k2 x else D x y)"
  by (simp add: merged_table_def)

lemma merged_row_least:
  assumes "table_ok d D K M" "k1 \<in> K" "k2 \<in> K" "y \<in> K" "y \<noteq> k1" "y \<noteq> k2"
  shows "is_finite (merged_row D k1 k2 y) \<and> least_between d (M k1 \<union> M k2) (M y) (merged_row D k1 k2 y)"
proof -
  have "is_finite (D k1 y)" "is_finite (D k2 y)" "least_between d (M k1) (M y) (D k1 y)"
    "least_between d (M k2) (M y) (D k2 y)"
    using assms by (simp_all add: table_ok_def)
  then show ?thesis
    using least_between_Un[of d "M k1" "M y" "D k1 y" "M k2" "D k2 y"] assms(5)
      table_not_nan[OF assms(1,3,4)]
    by (auto simp: merged_row_def)
qed

lemma table_merged:
  assumes t: "table_ok d D K M" and d: "\<And>i j. d i j = d j i" and k: "k1 \<in> K" "k2 \<in> K" "k1 \<noteq> k2"
    and ks: "set ks = K - {k2}"
  shows "table_ok d (merged_table D k1 k2 ks) (set ks) (M(k1 := M k1 \<union> M k2))"
proof -
  have row: "is_finite (merged_row D k1 k2 y)" "least_between d (M k1 \<union> M k2) (M y) (merged_row D k1 k2 y)"
    "least_between d (M y) (M k1 \<union> M k2) (merged_row D k1 k2 y)" if "y \<in> set ks" "y \<noteq> k1" for y
    using merged_row_least[OF t k(1,2), of y] that ks least_between_sym[OF d] by auto
  show ?thesis
    using t row ks by (auto simp: table_ok_def merged_table_at merged_row_def[of D k1 k2 k1])
qed

definition mins_ok :: "dist_table \<Rightarrow> (nat \<Rightarrow> nat) \<Rightarrow> nat set \<Rightarrow> bool" where
  "mins_ok D mins K \<longleftrightarrow>
     (\<forall>k\<in>K. mins k \<in> K) \<and>
     (\<forall>k\<in>K. \<forall>k'\<in>K. k \<noteq> k' \<longrightarrow>
        \<not> js_lt (D k k') (D k (mins k)) \<or> \<not> js_lt (D k k') (D k' (mins k')))"

lemma mins_merged:
  assumes m: "mins_ok D mins K" and k: "k1 \<in> K" "k1 \<noteq> k2" "mins k1 = k2"
    and ks: "set ks = K - {k2}" and t: "table_ok d D' (set ks) M" and D': "D' = merged_table D k1 k2 ks"
  shows "mins_ok D' (merged_mins D' mins k1 k2 ks) (set ks)"
proof -
  let ?m = "merged_mins D' mins k1 k2 ks"
  have near: "?m k \<in> set ks \<and> (\<forall>k'\<in>set ks. \<not> js_lt (D' k k') (D' k (?m k)))"
    if "k \<in> set ks" "mins k = k1 \<or> mins k = k2" for k
    using nearest_key_spec[of ks D' k] that table_not_nan[OF t] by (auto simp: merged_mins_def insert_absorb)
  have far: "?m k = mins k \<and> mins k \<in> set ks \<and> D' k (mins k) = D k (mins k)"
    if "k \<in> set ks" "mins k \<noteq> k1" "mins k \<noteq> k2" for k
    using that m k ks by (auto simp: merged_mins_def mins_ok_def D' merged_table_at)
  have "?m k \<in> set ks" if "k \<in> set ks" for k
    using near far that by metis
  moreover have "\<not> js_lt (D' k k') (D' k (?m k)) \<or> \<not> js_lt (D' k k') (D' k' (?m k'))"
    if "k \<in> set ks" "k' \<in> set ks" "k \<noteq> k'" for k k'
  proof (cases "(mins k = k1 \<or> mins k = k2) \<or> (mins k' = k1 \<or> mins k' = k2)")
    case True
    moreover have "D' k k' = D' k' k"
      using t that by (simp add: table_ok_def)
    ultimately show ?thesis
      using near that by metis
  next
    case False
    then have "k \<noteq> k1" "k' \<noteq> k1"
      using k(3) by auto
    then have "D' k k' = D k k'"
      using that by (simp add: D' merged_table_at)
    then show ?thesis
      using far[OF that(1)] far[OF that(2)] False m that ks by (auto simp: mins_ok_def)
  qed
  ultimately show ?thesis
    by (simp add: mins_ok_def)
qed

subsection \<open>The parts\<close>

definition pair_distance :: "linkage_options \<Rightarrow> collection \<Rightarrow> dist_table" where
  "pair_distance opts ns i j =
     node_distance (lo_distance opts) (lo_attributes opts) (ns ! max i j) (ns ! min i j)"

lemma pair_distance_sym: "pair_distance opts ns i j = pair_distance opts ns j i"
  by (simp add: pair_distance_def max.commute min.commute)

text \<open>Two nodes closer than the threshold, and the parts of the nodes that the live clusters are.\<close>

definition closer :: "linkage_options \<Rightarrow> collection \<Rightarrow> (nat \<times> nat) set" where
  "closer opts ns =
     {(i, j). i < length ns \<and> j < length ns \<and> i \<noteq> j \<and> js_lt (pair_distance opts ns i j) (lo_threshold opts)}"

lemma sym_closer: "sym (closer opts ns)"
  using pair_distance_sym by (auto simp: closer_def sym_def)

definition parts_ok :: "(nat \<times> nat) set \<Rightarrow> nat \<Rightarrow> nat list \<Rightarrow> (nat \<Rightarrow> nat list) \<Rightarrow> bool" where
  "parts_ok R n ks mem \<longleftrightarrow>
     mset (concat (map mem ks)) = mset [0..<n] \<and>
     (\<forall>k\<in>set ks. mem k \<noteq> [] \<and> (\<forall>i\<in>set (mem k). \<forall>j\<in>set (mem k). (i, j) \<in> R\<^sup>*))"

lemma mset_concat_upd:
  "distinct ks \<Longrightarrow> k \<in> set ks \<Longrightarrow>
   mset (concat (map (mem(k := mem k @ js)) ks)) = mset js + mset (concat (map mem ks))"
proof (induction ks)
  case (Cons a ks)
  show ?case
  proof (cases "k = a")
    case True
    then have "map (mem(k := mem k @ js)) ks = map mem ks"
      using Cons.prems by auto
    then show ?thesis
      using True by (simp del: fun_upd_apply map_eq_conv add: fun_upd_same)
  qed (use Cons in auto)
qed simp

lemma parts_merged:
  assumes p: "parts_ok R n ks mem" and ks: "distinct ks" "q < length ks" "ks ! q = k2"
    and k: "k1 \<in> set ks" "k1 \<noteq> k2" and R: "sym R" "\<exists>i\<in>set (mem k1). \<exists>j\<in>set (mem k2). (i, j) \<in> R"
  shows "parts_ok R n (remove_at ks q) (mem(k1 := mem k1 @ mem k2))"
proof -
  let ?ks = "remove_at ks q"
  have s: "set ?ks = set ks - {k2}" "distinct ?ks" "k2 \<in> set ks"
    using ks by (auto simp: set_remove_at distinct_remove_at)
  obtain ys zs where "ks = ys @ k2 # zs" "?ks = ys @ zs"
    using remove_at_split[OF ks(2)] ks(3) by auto
  then have "mset (concat (map mem ks)) = mset (mem k2) + mset (concat (map mem ?ks))"
    by simp
  then have "mset (concat (map (mem(k1 := mem k1 @ mem k2)) ?ks)) = mset [0..<n]"
    using mset_concat_upd[OF s(2), of k1 mem "mem k2"] s(1) k p by (simp add: parts_ok_def)
  moreover have "(i, j) \<in> R\<^sup>*" if "i \<in> set (mem k1 @ mem k2)" "j \<in> set (mem k1 @ mem k2)" for i j
  proof -
    obtain a b where ab: "a \<in> set (mem k1)" "b \<in> set (mem k2)" "(a, b) \<in> R" "(b, a) \<in> R"
      using R by (auto simp: sym_def)
    have in1: "(x, y) \<in> R\<^sup>*" if "x \<in> set (mem k1)" "y \<in> set (mem k1)" for x y
      using p k(1) that by (auto simp: parts_ok_def)
    have in2: "(x, y) \<in> R\<^sup>*" if "x \<in> set (mem k2)" "y \<in> set (mem k2)" for x y
      using p s(3) that by (auto simp: parts_ok_def)
    have "(x, a) \<in> R\<^sup>* \<and> (a, x) \<in> R\<^sup>*" if "x \<in> set (mem k1 @ mem k2)" for x
      using that in1[of x a] in1[of a x] in2[of x b] in2[of b x] ab
      by (auto intro: rtrancl_into_rtrancl converse_rtrancl_into_rtrancl)
    then show ?thesis
      using that by (meson rtrancl_trans)
  qed
  ultimately show ?thesis
    using p s(1) by (auto simp: parts_ok_def)
qed

lemma parts_elements:
  assumes "parts_ok R n ks mem" "k \<in> set ks"
  shows "set (mem k) \<subseteq> {..<n}"
  using assms mset_eq_setD[of "concat (map mem ks)" "[0..<n]"] by (auto simp: parts_ok_def)

lemma parts_disjoint:
  assumes "parts_ok R n ks mem" "distinct ks" "k \<in> set ks" "k' \<in> set ks" "k \<noteq> k'"
  shows "set (mem k) \<inter> set (mem k') = {}"
proof -
  have "distinct (concat (map mem ks))"
    using assms(1) mset_eq_imp_distinct_iff[of "concat (map mem ks)" "[0..<n]"] by (simp add: parts_ok_def)
  then show ?thesis
    using assms(2-5)
    by (induction ks) (auto simp: disjoint_iff)
qed

text \<open>When every two clusters are at least the threshold apart, the parts are the components.\<close>

lemma parts_components:
  assumes p: "parts_ok R n ks mem" and "distinct ks" and R: "R \<subseteq> {..<n} \<times> {..<n}"
    and apart: "\<And>k k' i j. k \<in> set ks \<Longrightarrow> k' \<in> set ks \<Longrightarrow> k \<noteq> k' \<Longrightarrow> i \<in> set (mem k) \<Longrightarrow> j \<in> set (mem k') \<Longrightarrow>
                  (i, j) \<notin> R"
    and "k \<in> set ks" "i \<in> set (mem k)"
  shows "j \<in> set (mem k) \<longleftrightarrow> (i, j) \<in> R\<^sup>*"
proof
  show "(i, j) \<in> R\<^sup>*" if "j \<in> set (mem k)"
    using that assms by (auto simp: parts_ok_def)
  show "j \<in> set (mem k)" if "(i, j) \<in> R\<^sup>*"
    using that
  proof induction
    case (step y z)
    have "set (concat (map mem ks)) = {..<n}"
      using p mset_eq_setD[of "concat (map mem ks)" "[0..<n]"] by (auto simp: parts_ok_def)
    moreover have "z < n"
      using step.hyps(2) R by auto
    ultimately obtain k' where "k' \<in> set ks" "z \<in> set (mem k')"
      by auto
    then show ?case
      using apart[OF assms(5), of k' y z] step by metis
  qed (rule assms)
qed

subsection \<open>The merge loop\<close>

definition clustered ::
  "linkage_options \<Rightarrow> collection \<Rightarrow> linkage_state \<Rightarrow> nat list \<Rightarrow> (nat \<Rightarrow> nat list) \<Rightarrow> bool" where
  "clustered opts ns s ks mem \<longleftrightarrow>
     linked ns s ks mem \<and> table_ok (pair_distance opts ns) (ls_dists s) (set ks) (\<lambda>k. set (mem k)) \<and>
     mins_ok (ls_dists s) (ls_mins s) (set ks) \<and> parts_ok (closer opts ns) (length ns) ks mem"

definition single_linkage :: "linkage_options \<Rightarrow> bool" where
  "single_linkage opts \<longleftrightarrow>
     lo_mode opts = ''threshold'' \<and> lo_linkage opts = ''min'' \<and> lo_threshold opts \<noteq> JNaN"

lemma closest_key_live:
  assumes "clustered opts ns s ks mem"
  shows "\<exists>mk m. closest_key s = Some (mk, m) \<and> m \<noteq> JNaN \<and>
           (\<forall>k\<in>set ks. \<not> js_lt (ls_dists s k (ls_mins s k)) m) \<and>
           (m = JInf \<or> mk \<in> set ks \<and> m = ls_dists s mk (ls_mins s mk))"
proof -
  have nan: "\<forall>k\<in>set ks. ls_dists s k (ls_mins s k) \<noteq> JNaN"
    using assms table_not_nan unfolding clustered_def mins_ok_def by blast
  have "map (\<lambda>r. co_key (object_at s r)) (ls_clusters s) = map Some ks"
    using assms linked_keys[of ns s ks mem] by (simp add: clustered_def)
  from closest_fold[OF this nan, of JInf 0 "{}"] show ?thesis
    using nan by (auto simp: closest_key_def)
qed

lemma merge_closest_pair:
  assumes c: "clustered opts ns s ks mem" and o: "single_linkage opts"
    and k: "k1 \<in> set ks" "k2 = ls_mins s k1" "js_lt (ls_dists s k1 k2) (lo_threshold opts)"
  shows "\<exists>s' ks' mem'. merge_pair opts s (ls_index s ! k1) (ls_index s ! k2) = Some s' \<and>
           clustered opts ns s' ks' mem' \<and> length ks' < length ks"
proof -
  have l: "linked ns s ks mem" and t: "table_ok (pair_distance opts ns) (ls_dists s) (set ks) (\<lambda>k. set (mem k))"
    and m: "mins_ok (ls_dists s) (ls_mins s) (set ks)" and p: "parts_ok (closer opts ns) (length ns) ks mem"
    using c by (auto simp: clustered_def)
  have d: "distinct ks"
    using l by (simp add: linked_def)
  have k2: "k2 \<in> set ks" "k1 \<noteq> k2"
    using m k t by (auto simp: mins_ok_def table_ok_def)
  obtain i j where ij: "i < length ks" "ks ! i = k1" "j < length ks" "ks ! j = k2"
    using k(1) k2(1) by (auto simp: in_set_conv_nth)
  have ne: "i \<noteq> j" and mode: "lo_mode opts = ''threshold''" "lo_linkage opts = ''min''"
    using ij k2(2) o by (auto simp: single_linkage_def)
  let ?ks = "remove_at ks j" and ?mem = "mem(k1 := mem k1 @ mem k2)"
  obtain s' where s': "merge_pair opts s (ls_index s ! k1) (ls_index s ! k2) = Some s'" "linked ns s' ?ks ?mem"
    "ls_dists s' = merged_table (ls_dists s) k1 k2 ?ks"
    "ls_mins s' = merged_mins (ls_dists s') (ls_mins s) k1 k2 ?ks"
    using merge_pair_linked[OF l ij(1,3) ne mode, unfolded ij(2,4)] by blast
  have ks: "set ?ks = set ks - {k2}"
    using d ij by (simp add: set_remove_at)
  have "table_ok (pair_distance opts ns) (ls_dists s') (set ?ks) (\<lambda>k. set (?mem k))"
    using table_merged[OF t pair_distance_sym k(1) k2 ks] by (simp add: s'(3) fun_upd_def if_distrib cong: if_cong)
  moreover from this have "mins_ok (ls_dists s') (ls_mins s') (set ?ks)"
    using mins_merged[OF m k(1) k2(2) k(2)[symmetric] ks] s'(3,4) by auto
  moreover have "\<exists>a\<in>set (mem k1). \<exists>b\<in>set (mem k2). (a, b) \<in> closer opts ns"
  proof -
    obtain a b where "a \<in> set (mem k1)" "b \<in> set (mem k2)" "ls_dists s k1 k2 = pair_distance opts ns a b"
      using t k(1) k2 by (auto simp: table_ok_def least_between_def) metis
    moreover from this have "a < length ns" "b < length ns" "a \<noteq> b"
      using parts_elements[OF p k(1)] parts_elements[OF p k2(1)] parts_disjoint[OF p d k(1) k2] by auto
    ultimately show ?thesis
      using k(3) by (auto simp: closer_def)
  qed
  then have "parts_ok (closer opts ns) (length ns) ?ks ?mem"
    using parts_merged[OF p d ij(3,4) k(1) k2(2) sym_closer] by simp
  moreover have "length ?ks < length ks"
    using ij by simp
  ultimately show ?thesis
    using s'(1,2) unfolding clustered_def by blast
qed

lemma merge_closest_cases:
  assumes c: "clustered opts ns s ks mem" and o: "single_linkage opts"
  shows "merge_closest opts s = Some (False, s) \<and>
           (\<forall>k\<in>set ks. \<forall>k'\<in>set ks. k \<noteq> k' \<longrightarrow> \<not> js_lt (ls_dists s k k') (lo_threshold opts)) \<or>
         (\<exists>s' ks' mem'. merge_closest opts s = Some (True, s') \<and> clustered opts ns s' ks' mem' \<and>
            length ks' < length ks)"
proof -
  obtain mk m where m: "closest_key s = Some (mk, m)" "m \<noteq> JNaN" "m = JInf \<or> mk \<in> set ks \<and> m = ls_dists s mk (ls_mins s mk)"
    and least: "\<And>k. k \<in> set ks \<Longrightarrow> \<not> js_lt (ls_dists s k (ls_mins s k)) m"
    using closest_key_live[OF c] by blast
  have t: "table_ok (pair_distance opts ns) (ls_dists s) (set ks) (\<lambda>k. set (mem k))"
    and mo: "mins_ok (ls_dists s) (ls_mins s) (set ks)"
    using c by (auto simp: clustered_def)
  have thr: "lo_threshold opts \<noteq> JNaN" "lo_mode opts = ''threshold''"
    using o by (auto simp: single_linkage_def)
  show ?thesis
  proof (cases "js_lt m (lo_threshold opts)")
    case True
    then have "m \<noteq> JInf"
      by (cases "lo_threshold opts") auto
    then have k: "mk \<in> set ks" "js_lt (ls_dists s mk (ls_mins s mk)) (lo_threshold opts)"
      using m(3) True by auto
    have "\<not> merging_ends opts s m"
      using True thr(2) by (cases m; cases "lo_threshold opts") (auto simp: merging_ends_def js_le_def)
    moreover have "mk < length (ls_index s)" "ls_mins s mk < length (ls_index s)"
      using c k(1) mo by (auto simp: clustered_def linked_def mins_ok_def subset_iff)
    ultimately show ?thesis
      using merge_closest_pair[OF c o k(1) refl k(2)] m(1) by (auto simp: merge_closest_def)
  next
    case False
    then have "merging_ends opts s m"
      using m(2) thr by (cases m; cases "lo_threshold opts") (auto simp: merging_ends_def js_le_def)
    moreover have "\<not> js_lt (ls_dists s k k') (lo_threshold opts)" if kk: "k \<in> set ks" "k' \<in> set ks" "k \<noteq> k'" for k k'
    proof -
      have "\<exists>x\<in>set ks. \<not> js_lt (ls_dists s k k') (ls_dists s x (ls_mins s x))"
        using mo kk unfolding mins_ok_def by meson
      then obtain x where x: "x \<in> set ks" "\<not> js_lt (ls_dists s k k') (ls_dists s x (ls_mins s x))" by blast
      moreover have "ls_dists s x (ls_mins s x) \<noteq> JNaN"
        using table_not_nan[OF t] mo x(1) by (auto simp: mins_ok_def)
      ultimately show ?thesis
        using js_lt_neg_trans least[OF x(1)] False m(2) by blast
    qed
    ultimately show ?thesis
      using m(1) by (auto simp: merge_closest_def)
  qed
qed

lemma merge_all_clusters:
  assumes "clustered opts ns s ks mem" "single_linkage opts"
  shows "\<exists>s' ks' mem'. merge_all opts s = Some s' \<and> clustered opts ns s' ks' mem' \<and>
           (\<forall>k\<in>set ks'. \<forall>k'\<in>set ks'. k \<noteq> k' \<longrightarrow> \<not> js_lt (ls_dists s' k k') (lo_threshold opts))"
  using assms(1)
proof (induction "length ks" arbitrary: s ks mem rule: less_induct)
  case less
  from merge_closest_cases[OF less.prems assms(2)] show ?case
  proof (elim disjE exE conjE)
    fix s' ks' mem'
    assume "merge_closest opts s = Some (True, s')" "clustered opts ns s' ks' mem'" "length ks' < length ks"
    then show ?thesis
      using less.hyps[of ks' s' mem'] by (simp add: merge_all.simps[of opts s])
  qed (use less.prems in \<open>auto simp: merge_all.simps[of opts s]\<close>)
qed

subsection \<open>The start\<close>

text \<open>The cells are filled row by row, each row from position 0.\<close>

definition zero_first :: "(nat \<times> nat) list \<Rightarrow> bool" where
  "zero_first L \<longleftrightarrow> (\<forall>m<length L. snd (L ! m) \<noteq> 0 \<longrightarrow> (fst (L ! m), 0) \<in> set (take m L))"

lemma zero_first_append: "zero_first xs \<Longrightarrow> zero_first ys \<Longrightarrow> zero_first (xs @ ys)"
  unfolding zero_first_def by (auto simp: nth_append not_less)

lemma zero_first_concat: "\<forall>xs\<in>set xss. zero_first xs \<Longrightarrow> zero_first (concat xss)"
  by (induction xss) (auto simp: zero_first_append, simp add: zero_first_def)

lemma zero_first_row: "zero_first (map (Pair i) [0..<Suc m])"
  unfolding zero_first_def
  by (auto simp: take_map nth_append simp del: upt_Suc intro!: image_eqI[of _ _ 0])

lemma zero_first_snoc:
  assumes "zero_first (xs @ [(i, j)])"
  shows "zero_first xs" "j \<noteq> 0 \<Longrightarrow> (i, 0) \<in> set xs"
  using assms unfolding zero_first_def by (auto simp: nth_append less_Suc_eq all_conj_distrib split: if_splits)

definition cell_value :: "linkage_options \<Rightarrow> collection \<Rightarrow> nat \<Rightarrow> nat \<Rightarrow> jsnum" where
  "cell_value opts ns i j = (if i = j then JInf else pair_distance opts ns i j)"

definition cells_ok ::
  "linkage_options \<Rightarrow> collection \<Rightarrow> (nat \<times> nat) set \<Rightarrow> dist_table \<times> (nat \<Rightarrow> nat) \<Rightarrow> bool" where
  "cells_ok opts ns L = (\<lambda>(D, mins).
     (\<forall>x y. (x, y) \<in> L \<or> (y, x) \<in> L \<longrightarrow> D x y = cell_value opts ns x y) \<and>
     (\<forall>i j. (i, j) \<in> L \<longrightarrow> (i, mins i) \<in> L \<and> \<not> js_lt (cell_value opts ns i j) (cell_value opts ns i (mins i))) \<and>
     (\<forall>i. (\<forall>j. (i, j) \<notin> L) \<longrightarrow> mins i = 0))"

lemma cells_ok_step:
  assumes ok: "cells_ok opts ns L (D, mins)" and "j \<le> i" and "j \<noteq> 0 \<Longrightarrow> (i, 0) \<in> L"
  shows "cells_ok opts ns (insert (i, j) L) (first_cell opts ns (D, mins) (i, j))"
proof -
  let ?v = "cell_value opts ns"
  define D' where "D' = set_dist D i j (?v i j)"
  define mins' where "mins' = (if js_lt (?v i j) (D' i (mins i)) then mins(i := j) else mins)"
  have "first_cell opts ns (D, mins) (i, j) = (D', mins')"
    using assms(2) by (simp add: first_cell_def cell_value_def pair_distance_def D'_def mins'_def max_def min_def Let_def)
  have sym: "?v x y = ?v y x" for x y
    by (simp add: cell_value_def pair_distance_sym)
  have D': "D' x y = ?v x y" if "(x, y) \<in> insert (i, j) L \<or> (y, x) \<in> insert (i, j) L" for x y
    using ok that sym by (auto simp: D'_def set_dist_def Let_def cells_ok_def)
  have start: "mins i = j" if "(i, mins i) \<notin> L"
  proof -
    have row: "\<forall>y. (i, y) \<notin> L"
      using that ok unfolding cells_ok_def by blast
    then have "mins i = 0"
      using ok unfolding cells_ok_def by blast
    then show ?thesis
      using row assms(3) by auto
  qed
  then have at: "D' i (mins i) = ?v i (mins i)"
    using D' by auto
  have "(x, mins' x) \<in> insert (i, j) L \<and> \<not> js_lt (?v x y) (?v x (mins' x))"
    if "(x, y) \<in> insert (i, j) L" for x y
  proof (cases "x = i")
    case True
    have old: "y = j \<or> \<not> js_lt (?v i y) (?v i (mins i))"
      using ok that True by (auto simp: cells_ok_def)
    show ?thesis
      using True start old lesser_le(1)[of "?v i y" "?v i (mins i)" "?v i j"] at
      by (auto simp: mins'_def)
  next
    case False
    then show ?thesis
      using ok that by (auto simp: mins'_def cells_ok_def)
  qed
  moreover have "mins' x = 0" if "\<forall>y. (x, y) \<notin> insert (i, j) L" for x
    using ok that by (auto simp: mins'_def cells_ok_def)
  ultimately show ?thesis
    using D' \<open>first_cell opts ns (D, mins) (i, j) = (D', mins')\<close> by (auto simp: cells_ok_def)
qed

lemma cells_ok_fold:
  assumes "zero_first L" "\<forall>(i, j)\<in>set L. j \<le> i"
  shows "cells_ok opts ns (set L) (foldl (first_cell opts ns) (\<lambda>i j. JNaN, \<lambda>i. 0) L)"
  using assms
proof (induction L rule: rev_induct)
  case Nil
  then show ?case by (simp add: cells_ok_def)
next
  case (snoc c L)
  obtain i j where c: "c = (i, j)" by fastforce
  obtain D mins where f: "foldl (first_cell opts ns) (\<lambda>i j. JNaN, \<lambda>i. 0) L = (D, mins)" by fastforce
  show ?case
    using cells_ok_step[of opts ns "set L" D mins j i] snoc zero_first_snoc[of L i j] by (simp add: c f)
qed

lemma start_clustered:
  assumes "\<And>i j. j < i \<Longrightarrow> i < length ns \<Longrightarrow> is_finite (node_distance (lo_distance opts) (lo_attributes opts) (ns ! i) (ns ! j))"
  shows "clustered opts ns (linkage_start opts ns) [0..<length ns] (\<lambda>k. [k])"
proof -
  let ?L = "concat (map (\<lambda>i. map (Pair i) [0..<Suc i]) [0..<length ns])"
  obtain D mins where f: "foldl (first_cell opts ns) (\<lambda>i j. JNaN, \<lambda>i. 0) ?L = (D, mins)" by fastforce
  have "zero_first ?L"
    using zero_first_row by (intro zero_first_concat) auto
  moreover have L: "(i, j) \<in> set ?L \<longleftrightarrow> i < length ns \<and> j \<le> i" for i j
    by (auto simp: image_iff less_Suc_eq_le simp del: upt_Suc)
  ultimately have ok: "cells_ok opts ns (set ?L) (D, mins)"
    using cells_ok_fold[of ?L opts ns] f by auto
  have fin: "is_finite (pair_distance opts ns i j)" if "i < length ns" "j < length ns" "i \<noteq> j" for i j
    using assms[of "min i j" "max i j"] that by (auto simp: pair_distance_def)
  have D: "D x y = cell_value opts ns x y" if "x < length ns" "y < length ns" for x y
    using ok that nle_le[of x y] unfolding cells_ok_def L by auto
  have m: "mins x \<le> x \<and> (\<forall>y\<le>x. \<not> js_lt (D x y) (D x (mins x)))" if "x < length ns" for x
  proof -
    have *: "mins x \<le> x" "\<And>y. y \<le> x \<Longrightarrow> \<not> js_lt (cell_value opts ns x y) (cell_value opts ns x (mins x))"
      using ok that unfolding cells_ok_def L by auto
    then show ?thesis
      using that D[of x] by auto
  qed
  have s: "linkage_start opts ns = \<lparr>ls_objects = map (\<lambda>i. live_object ns [i] i i) [0..<length ns],
      ls_clusters = [0..<length ns], ls_index = [0..<length ns], ls_dists = D, ls_mins = mins\<rparr>"
    by (simp add: linkage_start_def f Let_def live_object_def del: upt_Suc)
  have "linked ns (linkage_start opts ns) [0..<length ns] (\<lambda>k. [k])"
    by (auto simp: s linked_def intro: nth_equalityI)
  moreover have "table_ok (pair_distance opts ns) D {..<length ns} (\<lambda>k. set [k])"
    using fin by (auto simp: table_ok_def D cell_value_def pair_distance_sym least_between_def)
  moreover have "mins_ok D mins {..<length ns}"
    unfolding mins_ok_def
  proof (intro conjI ballI impI)
    fix k k' assume k: "k \<in> {..<length ns}" "k' \<in> {..<length ns}" "k \<noteq> k'"
    then have "D k k' = D k' k"
      by (simp add: D cell_value_def pair_distance_sym)
    then show "\<not> js_lt (D k k') (D k (mins k)) \<or> \<not> js_lt (D k k') (D k' (mins k'))"
      using m[of k] m[of k'] k nle_le[of k k'] by auto
  qed (use m in force)
  moreover have "parts_ok (closer opts ns) (length ns) [0..<length ns] (\<lambda>k. [k])"
    by (simp add: parts_ok_def)
  ultimately show ?thesis
    by (simp add: clustered_def s atLeast0LessThan)
qed

subsection \<open>The result\<close>

lemma parts_of_nodes:
  assumes "parts_ok R (length ns) ks mem"
  shows "mset (concat (map (\<lambda>k. map ((!) ns) (mem k)) ks)) = mset ns"
proof -
  have "concat (map (\<lambda>k. map ((!) ns) (mem k)) ks) = map ((!) ns) (concat (map mem ks))"
    by (simp add: map_concat comp_def)
  then have "mset (concat (map (\<lambda>k. map ((!) ns) (mem k)) ks)) = image_mset ((!) ns) (mset [0..<length ns])"
    using assms by (metis mset_map parts_ok_def)
  then show ?thesis
    by (metis map_nth mset_map)
qed

lemma parts_share:
  assumes p: "parts_ok R (length ns) ks mem" and ks: "distinct ks" and ns: "distinct ns"
    and R: "R \<subseteq> {..<length ns} \<times> {..<length ns}"
    and apart: "\<And>k k' i j. k \<in> set ks \<Longrightarrow> k' \<in> set ks \<Longrightarrow> k \<noteq> k' \<Longrightarrow> i \<in> set (mem k) \<Longrightarrow> j \<in> set (mem k') \<Longrightarrow>
                  (i, j) \<notin> R"
    and ij: "i < length ns" "j < length ns"
  shows "(\<exists>k\<in>set ks. ns ! i \<in> set (map ((!) ns) (mem k)) \<and> ns ! j \<in> set (map ((!) ns) (mem k))) \<longleftrightarrow> (i, j) \<in> R\<^sup>*"
proof -
  have inj: "ns ! x \<in> set (map ((!) ns) (mem k)) \<longleftrightarrow> x \<in> set (mem k)" if "k \<in> set ks" "x < length ns" for k x
    using parts_elements[OF p that(1)] that(2) ns by (auto simp: image_iff nth_eq_iff_index_eq subset_iff)
  have "set (concat (map mem ks)) = {..<length ns}"
    using p mset_eq_setD[of "concat (map mem ks)" "[0..<length ns]"] by (auto simp: parts_ok_def)
  then obtain k where k: "k \<in> set ks" "i \<in> set (mem k)"
    using ij(1) by auto
  have comp: "j \<in> set (mem k') \<longleftrightarrow> (i, j) \<in> R\<^sup>*" if "k' \<in> set ks" "i \<in> set (mem k')" for k'
    by (rule parts_components[OF p ks R _ that]) (fact apart)
  have "(\<exists>k\<in>set ks. ns ! i \<in> set (map ((!) ns) (mem k)) \<and> ns ! j \<in> set (map ((!) ns) (mem k))) \<longleftrightarrow>
      (\<exists>k\<in>set ks. i \<in> set (mem k) \<and> j \<in> set (mem k))"
    using inj ij by (intro bex_cong) simp_all
  then show ?thesis
    using comp k by blast
qed

lemma closer_apart:
  assumes "table_ok (pair_distance opts ns) D K (\<lambda>k. set (mem k))" "k \<in> K" "k' \<in> K" "k \<noteq> k'"
    and "i \<in> set (mem k)" "j \<in> set (mem k')" "\<not> js_lt (D k k') (lo_threshold opts)"
  shows "(i, j) \<notin> closer opts ns"
proof -
  have "\<not> js_lt (pair_distance opts ns i j) (D k k')" "D k k' \<noteq> JNaN"
    using assms(1-6) table_not_nan[OF assms(1-3)] by (auto simp: table_ok_def least_between_def)
  then have "\<not> js_lt (pair_distance opts ns i j) (lo_threshold opts)"
    using assms(7) js_lt_neg_trans by blast
  then show ?thesis
    by (simp add: closer_def)
qed

text \<open>
  C22.  With the linkage \<open>min\<close> or \<open>single\<close>, a threshold and finite distances, hierarchical clustering
  returns, and its clusters are the connected components of the nodes closer than the threshold: they
  hold every node once, and two nodes share a cluster exactly when a chain of nodes, each closer than
  the threshold to the one before, joins them.
\<close>

theorem single_linkage_components:
  assumes "lo_linkage opts \<in> {''min'', ''single''}" "lo_mode opts = ''threshold''" "lo_threshold opts \<noteq> JNaN"
    and "distinct (nodes_of c)"
    and "\<And>p q. p \<in> set (nodes_of c) \<Longrightarrow> q \<in> set (nodes_of c) \<Longrightarrow> p \<noteq> q \<Longrightarrow>
           is_finite (node_distance (lo_distance opts) (lo_attributes opts) p q)"
  shows "\<exists>parts. hierarchical_clustering c opts = Some (parts, []) \<and>
           mset (concat parts) = mset (nodes_of c) \<and> [] \<notin> set parts \<and>
           (\<forall>i<length (nodes_of c). \<forall>j<length (nodes_of c).
              (\<exists>part\<in>set parts. nodes_of c ! i \<in> set part \<and> nodes_of c ! j \<in> set part) \<longleftrightarrow>
              (i, j) \<in> (closer opts (nodes_of c))\<^sup>*)"
proof -
  let ?ns = "nodes_of c" and ?opts = "preferred_linkage opts"
  have o: "single_linkage ?opts" "lo_mode ?opts = ''threshold''" "closer ?opts ?ns = closer opts ?ns"
    using assms(1-3)
    by (auto simp: single_linkage_def preferred_linkage_def linkage_aliases_def the_or_def closer_def pair_distance_def)
  have "clustered ?opts ?ns (linkage_start ?opts ?ns) [0..<length ?ns] (\<lambda>k. [k])"
    using assms(4,5) by (intro start_clustered) (auto simp: preferred_linkage_def nth_eq_iff_index_eq)
  from merge_all_clusters[OF this o(1)] obtain s ks mem where s: "merge_all ?opts (linkage_start ?opts ?ns) = Some s"
    and cl: "clustered ?opts ?ns s ks mem"
    and apart: "\<And>k k'. k \<in> set ks \<Longrightarrow> k' \<in> set ks \<Longrightarrow> k \<noteq> k' \<Longrightarrow> \<not> js_lt (ls_dists s k k') (lo_threshold ?opts)"
    by blast
  let ?parts = "map (\<lambda>k. map ((!) ?ns) (mem k)) ks"
  have l: "linked ?ns s ks mem" and p: "parts_ok (closer opts ?ns) (length ?ns) ks mem"
    and t: "table_ok (pair_distance ?opts ?ns) (ls_dists s) (set ks) (\<lambda>k. set (mem k))"
    using cl o(3) by (auto simp: clustered_def)
  have "(a, b) \<notin> closer opts ?ns"
    if "k \<in> set ks" "k' \<in> set ks" "k \<noteq> k'" "a \<in> set (mem k)" "b \<in> set (mem k')" for k k' a b
    using closer_apart[OF t that(1-5) apart[OF that(1-3)]] o(3) by simp
  moreover have "distinct ks" "closer opts ?ns \<subseteq> {..<length ?ns} \<times> {..<length ?ns}"
    using l by (auto simp: linked_def closer_def)
  ultimately have share: "(\<exists>part\<in>set ?parts. ?ns ! i \<in> set part \<and> ?ns ! j \<in> set part) \<longleftrightarrow> (i, j) \<in> (closer opts ?ns)\<^sup>*"
    if "i < length ?ns" "j < length ?ns" for i j
    using parts_share[OF p _ assms(4) _ _ that] by (simp only: set_map bex_simps) blast
  have "hierarchical_clustering c opts = Some (?parts, [])"
    using s o(2) arg_cong[OF linked_bodies[OF l], of "map body_nodes"]
    by (simp add: hierarchical_clustering_def Let_def body_nodes_def comp_def)
  moreover have "[] \<notin> set ?parts"
    using p by (auto simp: parts_ok_def)
  ultimately show ?thesis
    using share parts_of_nodes[OF p] by blast
qed

definition line_options :: linkage_options where
  "line_options = linkage_defaults\<lparr>lo_distance := Method ''manhattan'', lo_threshold := JNum 3,
     lo_attributes := [\<lambda>e. JNum (real (length (ele_id e)))]\<rparr>"

lemma line_closer: "(0, 1) \<in> closer line_options [NodeE ''a'', NodeE ''bcd'', NodeE ''efghijk'']"
  by (simp add: closer_def pair_distance_def node_distance_def clustering_distance_def named_distance_def
      get_distance_def add_abs_diff_def abs_diff_def js_abs_def js_sub_def line_options_def linkage_defaults_def)

lemma single_linkage_components_witness:
  "\<exists>parts. hierarchical_clustering [NodeE ''a'', NodeE ''bcd'', NodeE ''efghijk''] line_options = Some (parts, []) \<and>
     (\<exists>part\<in>set parts. NodeE ''a'' \<in> set part \<and> NodeE ''bcd'' \<in> set part)"
proof -
  let ?c = "[NodeE ''a'', NodeE ''bcd'', NodeE ''efghijk'']"
  have n: "nodes_of ?c = ?c"
    by (simp add: nodes_of_def)
  have "is_finite (node_distance (lo_distance line_options) (lo_attributes line_options) p q)" for p q
    by (simp add: node_distance_def clustering_distance_def named_distance_def get_distance_def add_abs_diff_def
        abs_diff_def js_abs_def js_sub_def is_finite_def line_options_def linkage_defaults_def)
  then obtain parts where "hierarchical_clustering ?c line_options = Some (parts, [])"
    "\<forall>i<3. \<forall>j<3. (\<exists>part\<in>set parts. ?c ! i \<in> set part \<and> ?c ! j \<in> set part) \<longleftrightarrow> (i, j) \<in> (closer line_options ?c)\<^sup>*"
    using single_linkage_components[of line_options ?c]
    by (auto simp: n line_options_def linkage_defaults_def)
  then show ?thesis
    using line_closer by (metis (no_types, lifting) nth_Cons_0 nth_Cons_Suc One_nat_def r_into_rtrancl
        numeral_3_eq_3 zero_less_Suc Suc_less_eq)
qed

end
