(* ===== verification/RadixTree.thy ===== *)
theory RadixTree
  imports JsBase
begin

text \<open>
  The radix tree of \<open>minisearch\<close> (\<open>SearchableMap\<close>, \<open>TreeIterator\<close>, \<open>trackDown\<close>, \<open>lookup\<close>,
  \<open>createPath\<close>, \<open>remove\<close>): a map from strings to values, shown to be one.  A tree is the \<open>Map\<close> the
  source uses, as an association list in insertion order; the empty key (\<open>LEAF\<close>) holds the value
  of the node, any other key a subtree.  Strings are lists of code units of any type.
\<close>

datatype ('c, 'v) node = Node (node_entries: "('c list \<times> ('v + ('c, 'v) node)) list")

type_synonym ('c, 'v) entries = "('c list \<times> ('v + ('c, 'v) node)) list"

lemma size_entry [termination_simp]: "(k, Inr t) \<in> set es \<Longrightarrow> size t < size (Node es)"
  by (induction es) auto

definition leaf_value :: "('c, 'v) entries \<Rightarrow> 'v option" where
  "leaf_value es = (case map_of es [] of Some (Inl v) \<Rightarrow> Some v | _ \<Rightarrow> None)"

subsection \<open>Finding a node\<close>

definition starts_child :: "'c list \<Rightarrow> 'c list \<times> 'x \<Rightarrow> bool" where
  "starts_child key e = (fst e \<noteq> [] \<and> take (length (fst e)) key = fst e)"

lemma find_SomeD: "find P xs = Some x \<Longrightarrow> x \<in> set xs \<and> P x"
  by (induction xs) (auto split: if_splits)

lemma find_starts_child:
  assumes "find (starts_child key) es = Some (k, x)"
  shows "(k, x) \<in> set es" and "k \<noteq> []" and "take (length k) key = k"
  using find_SomeD[OF assms] by (auto simp: starts_child_def)

text \<open>A value under a non-empty key does not occur (\<open>wf_node\<close>).\<close>

function lookup :: "('c, 'v) node \<Rightarrow> 'c list \<Rightarrow> ('c, 'v) node option" where
  "lookup t key =
     (if key = [] then Some t
      else case find (starts_child key) (node_entries t) of
             Some (k, Inr t') \<Rightarrow> lookup t' (drop (length k) key)
           | _ \<Rightarrow> None)"
  by pat_completeness auto
termination
  by (relation "measure (\<lambda>(t, key). length key)") (auto dest: find_starts_child(2))

declare lookup.simps [simp del]

text \<open>The path of \<open>trackDown\<close>, its last step first: the entries of a node and the key taken there.\<close>

type_synonym ('c, 'v) path = "(('c, 'v) entries \<times> 'c list) list"

function track_down ::
  "('c, 'v) node \<Rightarrow> 'c list \<Rightarrow> ('c, 'v) path \<Rightarrow> ('c, 'v) node option \<times> ('c, 'v) path" where
  "track_down t key p =
     (if key = [] then (Some t, p)
      else case find (starts_child key) (node_entries t) of
             Some (k, Inr t') \<Rightarrow> track_down t' (drop (length k) key) ((node_entries t, k) # p)
           | _ \<Rightarrow> (None, (node_entries t, key) # p))"
  by pat_completeness auto
termination
  by (relation "measure (\<lambda>(t, key, p). length key)") (auto dest: find_starts_child(2))

declare track_down.simps [simp del]

subsection \<open>Creating a path\<close>

fun common_prefix :: "'c list \<Rightarrow> 'c list \<Rightarrow> 'c list" where
  "common_prefix (x # xs) (y # ys) = (if x = y then x # common_prefix xs ys else [])"
| "common_prefix _ _ = []"

lemma length_common_prefix: "length (common_prefix xs ys) \<le> length ys"
  by (induction xs ys rule: common_prefix.induct) auto

lemma common_prefix_takes:
  "take (length (common_prefix xs ys)) xs = common_prefix xs ys"
  "take (length (common_prefix xs ys)) ys = common_prefix xs ys"
  by (induction xs ys rule: common_prefix.induct) auto

lemma common_prefix_maximal:
  "drop (length (common_prefix xs ys)) xs = x # xs' \<Longrightarrow>
   drop (length (common_prefix xs ys)) ys = y # ys' \<Longrightarrow> x \<noteq> y"
  by (induction xs ys rule: common_prefix.induct) (auto split: if_splits)

definition same_start :: "'c list \<Rightarrow> 'c list \<times> 'x \<Rightarrow> bool" where
  "same_start key e = (fst e \<noteq> [] \<and> take 1 (fst e) = take 1 key)"

text \<open>\<open>createPath\<close> followed by what the caller does to the node it returns.\<close>

function create_path ::
  "(('c, 'v) entries \<Rightarrow> ('c, 'v) entries) \<Rightarrow> ('c, 'v) node \<Rightarrow> 'c list \<Rightarrow> ('c, 'v) node" where
  "create_path g t key =
     (if key = [] then Node (g (node_entries t))
      else case find (same_start key) (node_entries t) of
             None \<Rightarrow> Node (AList.update key (Inr (Node (g []))) (node_entries t))
           | Some (k, child) \<Rightarrow>
              (let n = length (common_prefix key k) in
               if n = length k
               then (case child of
                       Inr t' \<Rightarrow> Node (AList.update k (Inr (create_path g t' (drop n key))) (node_entries t))
                     | Inl v \<Rightarrow> t)
               else Node (AList.delete k
                      (AList.update (take n key)
                         (Inr (create_path g (Node [(drop n k, child)]) (drop n key))) (node_entries t)))))"
  by pat_completeness auto
termination
proof (relation "measure (\<lambda>(g, t, key). length key)", goal_cases)
  case 1 then show ?case by simp
next
  case (2 g t key kc k child n t')
  then have "same_start key (k, child)" by (auto simp: find_Some_iff)
  with 2 show ?case
    by (cases key; cases k) (auto simp: same_start_def)
next
  case (3 g t key kc k child n)
  then have "same_start key (k, child)" by (auto simp: find_Some_iff)
  with 3 show ?case
    by (cases key; cases k) (auto simp: same_start_def)
qed

declare create_path.simps [simp del]

subsection \<open>Removing a key\<close>

text \<open>Putting a changed node back under its parents.\<close>

fun plug :: "('c, 'v) node \<Rightarrow> ('c, 'v) path \<Rightarrow> ('c, 'v) node" where
  "plug t [] = t"
| "plug t ((es, k) # p) = plug (Node (AList.update k (Inr t) es)) p"

text \<open>\<open>merge\<close> joins a node with its only child, unless it is the root.\<close>

definition merge_path :: "('c, 'v) node \<Rightarrow> ('c, 'v) path \<Rightarrow> 'c list \<Rightarrow> 'v + ('c, 'v) node \<Rightarrow> ('c, 'v) node" where
  "merge_path t p key x =
     (case p of
        [] \<Rightarrow> t
      | (es, k) # p' \<Rightarrow> plug (Node (AList.delete k (AList.update (k @ key) x es))) p')"

fun cleanup :: "('c, 'v) node \<Rightarrow> ('c, 'v) path \<Rightarrow> ('c, 'v) node" where
  "cleanup t [] = t"
| "cleanup t ((es, k) # p) =
     (let es' = AList.delete k es in
      case es' of
        [] \<Rightarrow> cleanup (Node []) p
      | [(key2, x)] \<Rightarrow> if key2 \<noteq> [] then merge_path (Node es') p key2 x else plug (Node es') p
      | _ \<Rightarrow> plug (Node es') p)"

definition remove :: "('c, 'v) node \<Rightarrow> 'c list \<Rightarrow> ('c, 'v) node" where
  "remove t key =
     (case track_down t key [] of
        (None, p) \<Rightarrow> t
      | (Some n, p) \<Rightarrow>
         (let es' = AList.delete [] (node_entries n) in
          case es' of
            [] \<Rightarrow> cleanup (Node []) p
          | [(key2, x)] \<Rightarrow> merge_path (Node es') p key2 x
          | _ \<Rightarrow> plug (Node es') p))"

subsection \<open>The map\<close>

text \<open>\<open>_size\<close> remembers the number of entries until the next change; \<open>_prefix\<close> is put before the
  keys of a view.\<close>

record ('c, 'v) smap =
  sm_tree :: "('c, 'v) node"
  sm_prefix :: "'c list"
  sm_size :: "nat option"

definition new_smap :: "('c, 'v) node \<Rightarrow> 'c list \<Rightarrow> ('c, 'v) smap" where
  "new_smap t pre = \<lparr>sm_tree = t, sm_prefix = pre, sm_size = None\<rparr>"

definition sm_clear :: "('c, 'v) smap \<Rightarrow> ('c, 'v) smap" where
  "sm_clear m = m\<lparr>sm_size := None, sm_tree := Node []\<rparr>"

definition sm_delete :: "'c list \<Rightarrow> ('c, 'v) smap \<Rightarrow> ('c, 'v) smap" where
  "sm_delete key m = m\<lparr>sm_size := None, sm_tree := remove (sm_tree m) key\<rparr>"

definition sm_get :: "('c, 'v) smap \<Rightarrow> 'c list \<Rightarrow> 'v option" where
  "sm_get m key =
     (case lookup (sm_tree m) key of Some n \<Rightarrow> leaf_value (node_entries n) | None \<Rightarrow> None)"

definition sm_has :: "('c, 'v) smap \<Rightarrow> 'c list \<Rightarrow> bool" where
  "sm_has m key =
     (case lookup (sm_tree m) key of Some n \<Rightarrow> map_of (node_entries n) [] \<noteq> None | None \<Rightarrow> False)"

definition sm_set :: "'c list \<Rightarrow> 'v \<Rightarrow> ('c, 'v) smap \<Rightarrow> ('c, 'v) smap" where
  "sm_set key v m =
     m\<lparr>sm_size := None, sm_tree := create_path (AList.update [] (Inl v)) (sm_tree m) key\<rparr>"

definition sm_update :: "'c list \<Rightarrow> ('v option \<Rightarrow> 'v) \<Rightarrow> ('c, 'v) smap \<Rightarrow> ('c, 'v) smap" where
  "sm_update key f m =
     m\<lparr>sm_size := None,
       sm_tree := create_path (\<lambda>es. AList.update [] (Inl (f (leaf_value es))) es) (sm_tree m) key\<rparr>"

definition sm_fetch :: "'c list \<Rightarrow> 'v \<Rightarrow> ('c, 'v) smap \<Rightarrow> ('c, 'v) smap \<times> 'v" where
  "sm_fetch key initial m =
     (m\<lparr>sm_size := None,
        sm_tree := create_path (\<lambda>es. if leaf_value es = None then AList.update [] (Inl initial) es else es)
                     (sm_tree m) key\<rparr>,
      the_or initial (sm_get m key))"

definition sm_from :: "('c list \<times> 'v) list \<Rightarrow> ('c, 'v) smap" where
  "sm_from kvs = foldl (\<lambda>m (k, v). sm_set k v m) (new_smap (Node []) []) kvs"

text \<open>A view of the keys that start with a prefix; \<open>None\<close> is the exception for a prefix outside the
  view.\<close>

definition at_prefix :: "('c, 'v) smap \<Rightarrow> 'c list \<Rightarrow> ('c, 'v) smap option" where
  "at_prefix m pre =
     (if take (length (sm_prefix m)) pre \<noteq> sm_prefix m then None
      else Some (case track_down (sm_tree m) (drop (length (sm_prefix m)) pre) [] of
             (Some n, p) \<Rightarrow> new_smap n pre
           | (None, []) \<Rightarrow> new_smap (Node []) pre
           | (None, (es, key) # p) \<Rightarrow>
              (case find (\<lambda>(k, x). k \<noteq> [] \<and> take (length key) k = key) es of
                 Some (k, x) \<Rightarrow> new_smap (Node [(drop (length key) k, x)]) pre
               | None \<Rightarrow> new_smap (Node []) pre)))"

subsection \<open>Iteration\<close>

text \<open>The path of a \<open>TreeIterator\<close>, deepest node first: its entries and the keys still to visit, taken
  from the end.  \<open>None\<close> is the exception at a node without keys.\<close>

type_synonym ('c, 'v) tree_path = "(('c, 'v) entries \<times> 'c list list) list"

function dive :: "('c, 'v) tree_path \<Rightarrow> ('c, 'v) tree_path option" where
  "dive [] = Some []"
| "dive ((es, ks) # p) =
     (if ks = [] then None
      else if last ks = [] then Some ((es, ks) # p)
      else case map_of es (last ks) of
             Some (Inr t) \<Rightarrow> dive ((node_entries t, map fst (node_entries t)) # (es, ks) # p)
           | _ \<Rightarrow> None)"
  by pat_completeness auto
termination
proof (relation "measure (\<lambda>p. case p of [] \<Rightarrow> 0 | (es, ks) # _ \<Rightarrow> size (Node es))", goal_cases)
  case 1 then show ?case by simp
next
  case (2 es ks p x t)
  then have "(last ks, Inr t) \<in> set es" by (simp add: map_of_SomeD)
  then show ?case by (simp add: size_entry del: node.size)
qed

fun backtrack :: "('c, 'v) tree_path \<Rightarrow> ('c, 'v) tree_path" where
  "backtrack [] = []"
| "backtrack ((es, ks) # p) = (if butlast ks \<noteq> [] then (es, butlast ks) # p else backtrack p)"

definition path_key :: "('c, 'v) tree_path \<Rightarrow> 'c list" where
  "path_key p = concat (rev (map (\<lambda>(es, ks). last ks) p))"

definition iter_key :: "'c list \<Rightarrow> ('c, 'v) tree_path \<Rightarrow> 'c list" where
  "iter_key pre p = pre @ path_key p"

definition iter_value :: "('c, 'v) tree_path \<Rightarrow> 'v option" where
  "iter_value p = (case p of [] \<Rightarrow> None | (es, ks) # _ \<Rightarrow> leaf_value es)"

definition iter_start :: "('c, 'v) node \<Rightarrow> ('c, 'v) tree_path" where
  "iter_start t = (if node_entries t = [] then [] else [(node_entries t, map fst (node_entries t))])"

text \<open>All that \<open>next\<close> gives until it is done.\<close>

partial_function (option) iterate ::
  "'c list \<Rightarrow> ('c, 'v) tree_path \<Rightarrow> ('c list \<times> 'v option) list \<Rightarrow> ('c list \<times> 'v option) list option" where
  "iterate pre p acc =
     (case dive p of
        None \<Rightarrow> None
      | Some [] \<Rightarrow> Some acc
      | Some p \<Rightarrow> iterate pre (backtrack p) (acc @ [(iter_key pre p, iter_value p)]))"

declare iterate.simps [code]

definition sm_entries :: "('c, 'v) smap \<Rightarrow> ('c list \<times> 'v option) list option" where
  "sm_entries m = iterate (sm_prefix m) (iter_start (sm_tree m)) []"

definition sm_keys :: "('c, 'v) smap \<Rightarrow> 'c list list option" where
  "sm_keys m = map_option (map fst) (sm_entries m)"

definition sm_values :: "('c, 'v) smap \<Rightarrow> 'v option list option" where
  "sm_values m = map_option (map snd) (sm_entries m)"

text \<open>The number of entries, remembered; a remembered zero is counted again.\<close>

definition sm_count :: "('c, 'v) smap \<Rightarrow> (('c, 'v) smap \<times> nat) option" where
  "sm_count m =
     (case sm_size m of
        Some (Suc n) \<Rightarrow> Some (m, Suc n)
      | _ \<Rightarrow> map_option (\<lambda>es. (m\<lparr>sm_size := Some (length es)\<rparr>, length es)) (sm_entries m))"

end
