(* ===== verification/RadixMap.thy ===== *)
theory RadixMap
  imports RadixTree
begin

text \<open>
  The radix tree of \<open>minisearch\<close> is a map: its invariant, the set of entries it stands for, and what
  \<open>get\<close>, \<open>set\<close>, \<open>update\<close>, \<open>fetch\<close>, \<open>delete\<close> and iteration do to that set.
\<close>

subsection \<open>Association lists with distinct keys\<close>

lemma set_update:
  "distinct (map fst es) \<Longrightarrow>
   set (AList.update k x es) = insert (k, x) {e \<in> set es. fst e \<noteq> k}"
  by (induction es) (auto simp: image_iff)

lemma set_delete: "set (AList.delete k es) = {e \<in> set es. fst e \<noteq> k}"
  by (auto simp: AList.delete_eq)

lemma fst_in_set: "(k, x) \<in> set es \<Longrightarrow> k \<in> fst ` set es"
  by force

subsection \<open>The invariant\<close>

text \<open>The keys of a node start differently, the empty key alone holds a value, and a node below the
  root is a value or branches.\<close>

definition compact :: "('c, 'v) node \<Rightarrow> bool" where
  "compact t =
     (node_entries t \<noteq> [] \<and> (length (node_entries t) = 1 \<longrightarrow> fst (hd (node_entries t)) = []))"

function wf_node :: "('c, 'v) node \<Rightarrow> bool" where
  "wf_node (Node es) =
     (distinct (map (take 1) (map fst es)) \<and>
      list_all (\<lambda>(k, x). case x of Inl v \<Rightarrow> k = [] | Inr t \<Rightarrow> k \<noteq> [] \<and> compact t \<and> wf_node t) es)"
  by pat_completeness auto
termination
  by (relation "measure size") (auto simp del: node.size intro: size_entry)

lemma wf_node_iff:
  "wf_node (Node es) \<longleftrightarrow>
     distinct (map (take 1) (map fst es)) \<and>
     (\<forall>k v. (k, Inl v) \<in> set es \<longrightarrow> k = []) \<and>
     (\<forall>k t. (k, Inr t) \<in> set es \<longrightarrow> k \<noteq> [] \<and> compact t \<and> wf_node t)"
  by (auto simp: list_all_iff split: sum.splits; blast)

declare wf_node.simps [simp del]

lemma wf_distinct: "wf_node (Node es) \<Longrightarrow> distinct (map fst es)"
  unfolding wf_node_iff by (metis distinct_map)

lemma wf_unique:
  assumes "wf_node (Node es)" "(k, x) \<in> set es" "(k', x') \<in> set es" "take 1 k = take 1 k'"
  shows "k = k'" and "x = x'"
proof -
  have "inj_on (\<lambda>e. take 1 (fst e)) (set es)"
    using assms(1) by (simp add: wf_node_iff comp_def distinct_map)
  then have "(k, x) = (k', x')"
    by (rule inj_onD) (use assms in auto)
  then show "k = k'" "x = x'" by auto
qed

subsection \<open>The entries of a tree\<close>

text \<open>In the order of iteration: the keys of a node from the last.\<close>

function contents :: "('c, 'v) node \<Rightarrow> ('c list \<times> 'v) list" where
  "contents (Node es) =
     concat (map (\<lambda>(k, x). case x of Inl v \<Rightarrow> [(k, v)] | Inr t \<Rightarrow> map (\<lambda>(q, v). (k @ q, v)) (contents t)) (rev es))"
  by pat_completeness auto
termination
  by (relation "measure size") (auto simp del: node.size intro: size_entry)

declare contents.simps [simp del]

definition below :: "'c list \<Rightarrow> ('c list \<times> 'v) set \<Rightarrow> ('c list \<times> 'v) set" where
  "below k S = (\<lambda>(q, v). (k @ q, v)) ` S"

definition out :: "'c list \<times> ('v + ('c, 'v) node) \<Rightarrow> ('c list \<times> 'v) set" where
  "out e = (case snd e of Inl v \<Rightarrow> {(fst e, v)} | Inr t \<Rightarrow> below (fst e) (set (contents t)))"

lemma out_simps [simp]:
  "out (k, Inl v) = {(k, v)}"
  "out (k, Inr t) = below k (set (contents t))"
  by (simp_all add: out_def)

lemma set_contents:
  fixes es :: "('c, 'v) entries"
  shows "set (contents (Node es)) = \<Union> (out ` set es)"
proof -
  have one: "set (case snd e of Inl v \<Rightarrow> [(fst e, v)] | Inr t \<Rightarrow> map (\<lambda>(q, v). (fst e @ q, v)) (contents t)) = out e"
    for e :: "'c list \<times> ('v + ('c, 'v) node)"
    by (cases "snd e") (simp_all add: below_def out_def)
  show ?thesis by (simp add: contents.simps case_prod_beta image_image one)
qed

lemma below_Nil [simp]: "below [] S = S"
  by (auto simp: below_def)

lemma below_below [simp]: "below k (below k' S) = below (k @ k') S"
  by (auto simp: below_def image_iff)

lemma below_insert [simp]: "below k (insert (q, v) S) = insert (k @ q, v) (below k S)"
  by (simp add: below_def)

lemma below_Un: "below k (S \<union> T) = below k S \<union> below k T"
  by (simp add: below_def image_Un)

lemma below_empty [simp]: "below k {} = {}"
  by (simp add: below_def)

lemma in_below [simp]: "(k @ q, v) \<in> below k S \<longleftrightarrow> (q, v) \<in> S"
  by (force simp: below_def)

lemma belowE:
  assumes "(q, v) \<in> below k S"
  obtains r where "q = k @ r" and "(r, v) \<in> S"
  using assms by (auto simp: below_def)

lemma out_starts:
  assumes "wf_node (Node es)" and "(k, x) \<in> set es" and "(q, v) \<in> out (k, x)"
  shows "take 1 q = take 1 k" and "take (length k) q = k"
proof -
  have "take 1 q = take 1 k \<and> take (length k) q = k"
  proof (cases x)
    case (Inl v') with assms(3) show ?thesis by simp
  next
    case (Inr t)
    then obtain r where "q = k @ r" using assms(3) by (auto elim: belowE)
    moreover have "k \<noteq> []" using assms(1,2) Inr by (auto simp: wf_node_iff)
    ultimately show ?thesis by (cases k) auto
  qed
  then show "take 1 q = take 1 k" "take (length k) q = k" by auto
qed

lemma nil_in_out:
  assumes "wf_node (Node es)" and "(k, x) \<in> set es"
  shows "([], v) \<in> out (k, x) \<longleftrightarrow> k = [] \<and> x = Inl v"
  using assms by (cases x) (auto simp: wf_node_iff below_def)

lemma out_disjoint:
  assumes "wf_node (Node es)" "(k, x) \<in> set es" "(k', x') \<in> set es" "k \<noteq> k'"
    and "(q, v) \<in> out (k, x)"
  shows "(q, v') \<notin> out (k', x')"
  using assms out_starts wf_unique by metis

text \<open>One entry is found by the start of the key.\<close>

lemma in_contents_entry:
  assumes "wf_node (Node es)" and "(k, x) \<in> set es" and "take 1 q = take 1 k"
  shows "(q, v) \<in> set (contents (Node es)) \<longleftrightarrow> (q, v) \<in> out (k, x)"
proof
  assume "(q, v) \<in> set (contents (Node es))"
  then obtain k' x' where e: "(k', x') \<in> set es" "(q, v) \<in> out (k', x')"
    unfolding set_contents by fast
  then have "k' = k" "x' = x"
    using out_starts(1)[OF assms(1) e] assms(3) wf_unique[OF assms(1) e(1) assms(2)] by auto
  with e show "(q, v) \<in> out (k, x)" by simp
qed (use assms in \<open>auto simp: set_contents\<close>)

lemma not_in_contents:
  assumes "wf_node (Node es)" and "\<And>k x. (k, x) \<in> set es \<Longrightarrow> take 1 k \<noteq> take 1 q"
  shows "(q, v) \<notin> set (contents (Node es))"
  using assms out_starts(1) by (fastforce simp: set_contents)

subsection \<open>Reading\<close>

lemma leaf_value_iff:
  assumes "wf_node (Node es)"
  shows "leaf_value es = Some v \<longleftrightarrow> ([], Inl v) \<in> set es"
    and "leaf_value es = None \<longleftrightarrow> [] \<notin> fst ` set es"
proof -
  have m: "map_of es [] = Some x \<longleftrightarrow> ([], x) \<in> set es" for x
    using wf_distinct[OF assms] by (simp add: map_of_eq_Some_iff)
  have "leaf_value es = Some v \<longleftrightarrow> map_of es [] = Some (Inl v)"
    by (auto simp: leaf_value_def split: option.splits sum.splits)
  then show "leaf_value es = Some v \<longleftrightarrow> ([], Inl v) \<in> set es" by (simp add: m)
  have "map_of es [] \<noteq> Some (Inr t)" for t
    using assms m by (auto simp: wf_node_iff)
  then have "leaf_value es = None \<longleftrightarrow> map_of es [] = None"
    by (auto simp: leaf_value_def split: option.splits sum.splits)
  then show "leaf_value es = None \<longleftrightarrow> [] \<notin> fst ` set es" by (simp add: map_of_eq_None_iff)
qed

definition get_node :: "('c, 'v) node \<Rightarrow> 'c list \<Rightarrow> 'v option" where
  "get_node t key = (case lookup t key of Some n \<Rightarrow> leaf_value (node_entries n) | None \<Rightarrow> None)"

lemma find_starts_child_None:
  "find (starts_child key) es = None \<Longrightarrow> (k, x) \<in> set es \<Longrightarrow> k \<noteq> [] \<Longrightarrow> take (length k) key \<noteq> k"
  by (auto simp: find_None_iff starts_child_def)

lemma take_1_of_prefix: "take (length k) q = k \<Longrightarrow> k \<noteq> [] \<Longrightarrow> take 1 q = take 1 k"
  by (cases k; cases q) auto

theorem get_node_iff:
  "wf_node t \<Longrightarrow> get_node t key = Some v \<longleftrightarrow> (key, v) \<in> set (contents t)"
proof (induction t key rule: lookup.induct)
  case (1 t key)
  obtain es where t: "t = Node es" by (cases t)
  show ?case
  proof (cases "key = []")
    case True
    then have "get_node t key = leaf_value es" by (simp add: get_node_def lookup.simps t)
    moreover have "([], v) \<in> set (contents t) \<longleftrightarrow> ([], Inl v) \<in> set es"
      using "1.prems" nil_in_out unfolding t set_contents by fastforce
    ultimately show ?thesis using leaf_value_iff(1) "1.prems" True t by metis
  next
    case key: False
    show ?thesis
    proof (cases "find (starts_child key) es")
      case None
      then have "get_node t key = None" by (simp add: get_node_def lookup.simps t key)
      moreover have "(key, v) \<notin> set (contents t)"
      proof
        assume "(key, v) \<in> set (contents t)"
        then obtain k x where e: "(k, x) \<in> set es" "(key, v) \<in> out (k, x)"
          unfolding t set_contents by fast
        have "k \<noteq> []"
          using out_starts(1)[OF _ e] key "1.prems" t by (cases key) auto
        then show False
          using out_starts(2)[OF _ e] find_starts_child_None[OF None e(1)] "1.prems" t by blast
      qed
      ultimately show ?thesis by simp
    next
      case (Some e)
      obtain k x where e: "e = (k, x)" by (cases e)
      note found = find_starts_child[OF Some[unfolded e]]
      obtain t' where x: "x = Inr t'"
        using found(1,2) "1.prems" t by (cases x) (auto simp: wf_node_iff)
      have wf: "wf_node t'" using found(1) "1.prems" t x by (auto simp: wf_node_iff)
      have "get_node t key = get_node t' (drop (length k) key)"
        using lookup.simps[of t key] by (simp add: get_node_def t key Some e x)
      also have "\<dots> = Some v \<longleftrightarrow> (drop (length k) key, v) \<in> set (contents t')"
        using "1.IH"[OF key _ _ _ wf] Some e x t by auto
      also have "\<dots> \<longleftrightarrow> (key, v) \<in> out (k, x)"
        using in_below[of k "drop (length k) key" v] found(3) x by (metis append_take_drop_id out_simps(2))
      also have "\<dots> \<longleftrightarrow> (key, v) \<in> set (contents t)"
        using in_contents_entry[OF _ found(1) take_1_of_prefix[OF found(3,2)]] "1.prems" t by auto
      finally show ?thesis .
    qed
  qed
qed

corollary contents_unique:
  "wf_node t \<Longrightarrow> (q, v) \<in> set (contents t) \<Longrightarrow> (q, v') \<in> set (contents t) \<Longrightarrow> v = v'"
  using get_node_iff[of t q] by (metis option.inject)

subsection \<open>Writing\<close>

text \<open>What \<open>set\<close>, \<open>update\<close> and \<open>fetch\<close> do to the node they reach: its value becomes a function of
  the old one.\<close>

definition set_leaf :: "('v option \<Rightarrow> 'v) \<Rightarrow> ('c, 'v) entries \<Rightarrow> ('c, 'v) entries" where
  "set_leaf h es = AList.update [] (Inl (h (leaf_value es))) es"

lemma leaf_value_Nil [simp]: "leaf_value [] = None"
  by (simp add: leaf_value_def)

lemma wf_update:
  assumes "wf_node (Node es)" and "k \<in> fst ` set es \<or> (\<forall>k' \<in> fst ` set es. take 1 k' \<noteq> take 1 k)"
    and "case x of Inl v \<Rightarrow> k = [] | Inr t \<Rightarrow> k \<noteq> [] \<and> compact t \<and> wf_node t"
  shows "wf_node (Node (AList.update k x es))"
proof -
  have "distinct (map (take 1) (map fst (AList.update k x es)))"
    using assms(1,2) by (auto simp: wf_node_iff update_keys simp del: map_map)
  moreover have "(k', x') = (k, x) \<or> (k', x') \<in> set es" if "(k', x') \<in> set (AList.update k x es)" for k' x'
    using that by (auto simp: set_update[OF wf_distinct[OF assms(1)]])
  ultimately show ?thesis
    using assms(1,3) unfolding wf_node_iff by (auto split: sum.splits) blast+
qed

lemma wf_delete: "wf_node (Node es) \<Longrightarrow> wf_node (Node (AList.delete k es))"
  by (auto simp: wf_node_iff set_delete delete_keys distinct_map inj_on_def removeAll_filter_not_eq
           simp del: map_map)

lemma length_update: "length (AList.update k x es) = (if k \<in> fst ` set es then length es else Suc (length es))"
  by (metis length_map list.set_map update_keys length_append_singleton)

text \<open>The entries after a key is set to \<open>x\<close>: those outside, and those of \<open>x\<close>.\<close>

lemma contents_update:
  assumes "wf_node (Node es)"
  shows "set (contents (Node (AList.update k x es))) = out (k, x) \<union> \<Union> (out ` {e \<in> set es. fst e \<noteq> k})"
  by (simp add: set_contents set_update[OF wf_distinct[OF assms]])

lemma contents_delete: "set (contents (Node (AList.delete k es))) = \<Union> (out ` {e \<in> set es. fst e \<noteq> k})"
  by (simp add: set_contents set_delete)

lemma contents_split:
  assumes "wf_node (Node es)" and "(k, x) \<in> set es"
  shows "set (contents (Node es)) = out (k, x) \<union> \<Union> (out ` {e \<in> set es. fst e \<noteq> k})"
proof -
  have "set es = insert (k, x) {e \<in> set es. fst e \<noteq> k}"
    using assms(2) wf_unique[OF assms(1)] by (auto simp: fst_def split: prod.splits)
  then show ?thesis by (metis (no_types, lifting) SUP_insert set_contents)
qed

text \<open>No other entry of the node holds a key that starts like \<open>k\<close>.\<close>

lemma not_in_others:
  assumes "wf_node (Node es)" and "(k, x) \<in> set es" and "take 1 q = take 1 k"
  shows "(q, v) \<notin> \<Union> (out ` {e \<in> set es. fst e \<noteq> k})"
proof
  assume "(q, v) \<in> \<Union> (out ` {e \<in> set es. fst e \<noteq> k})"
  then obtain k' x' where e: "(k', x') \<in> set es" "k' \<noteq> k" "(q, v) \<in> out (k', x')" by auto
  then show False
    using out_starts(1)[OF assms(1) e(1,3)] wf_unique[OF assms(1) e(1) assms(2)] assms(3) by auto
qed

definition put :: "'c list \<Rightarrow> 'v \<Rightarrow> ('c list \<times> 'v) set \<Rightarrow> ('c list \<times> 'v) set" where
  "put key v S = insert (key, v) {e \<in> S. fst e \<noteq> key}"

lemma below_put: "below k (put q v S) = put (k @ q) v (below k S)"
  by (auto simp: put_def below_def)

lemma put_Un: "(\<And>w. (key, w) \<notin> T) \<Longrightarrow> put key v (S \<union> T) = put key v S \<union> T"
  by (auto simp: put_def)

lemma put_fresh: "(\<And>w. (key, w) \<notin> T) \<Longrightarrow> put key v T = insert (key, v) T"
  by (auto simp: put_def)

lemma find_same_start:
  "find (same_start key) es = Some (k, x) \<Longrightarrow> (k, x) \<in> set es \<and> k \<noteq> [] \<and> take 1 k = take 1 key"
  by (drule find_SomeD) (simp add: same_start_def)

lemma find_same_start_None:
  "find (same_start key) es = None \<Longrightarrow> key \<noteq> [] \<Longrightarrow> (k, x) \<in> set es \<Longrightarrow> take 1 k \<noteq> take 1 key"
  by (cases "k = []"; cases key) (auto simp: find_None_iff same_start_def)

lemma set_leaf_Nil [simp]: "set_leaf h [] = [([], Inl (h None))]"
  by (simp add: set_leaf_def)

lemma contents_leaf [simp]: "set (contents (Node [([], Inl v)])) = {([], v)}"
  by (simp add: set_contents)

lemma wf_leaf [simp]: "wf_node (Node [([], Inl v)])" "compact (Node [([], Inl v)])"
  by (simp_all add: wf_node_iff compact_def)

lemma get_node_None: "wf_node t \<Longrightarrow> get_node t key = None \<longleftrightarrow> (\<forall>v. (key, v) \<notin> set (contents t))"
  by (metis get_node_iff not_None_eq)

lemma get_node_cong:
  "wf_node t \<Longrightarrow> wf_node t' \<Longrightarrow> (\<And>v. (key, v) \<in> set (contents t) \<longleftrightarrow> (key', v) \<in> set (contents t')) \<Longrightarrow>
   get_node t key = get_node t' key'"
  by (metis get_node_iff not_None_eq)

text \<open>The new node between a parent and a child that share only a part of their key.\<close>

lemma create_path_split:
  assumes "k \<noteq> []" and "take 1 k \<noteq> take 1 rest" and "wf_node t" and "compact t"
  shows "wf_node (create_path (set_leaf h) (Node [(k, Inr t)]) rest)"
    and "compact (create_path (set_leaf h) (Node [(k, Inr t)]) rest)"
    and "set (contents (create_path (set_leaf h) (Node [(k, Inr t)]) rest)) =
           insert (rest, h None) (below k (set (contents t)))"
proof -
  let ?x = "if rest = [] then Inl (h None) else Inr (Node [([], Inl (h None))])"
  have "leaf_value [(k, Inr t)] = None" using assms(1) by (simp add: leaf_value_def)
  moreover have "\<not> same_start rest (k, Inr t)"
    using assms(2) by (simp add: same_start_def)
  ultimately have "create_path (set_leaf h) (Node [(k, Inr t)]) rest = Node [(k, Inr t), (rest, ?x)]"
    using assms(1,2) by (subst create_path.simps) (auto simp: set_leaf_def)
  moreover have "wf_node (Node [(k, Inr t), (rest, ?x)])" "compact (Node [(k, Inr t), (rest, ?x)])"
    using assms by (auto simp: wf_node_iff compact_def)
  moreover have "set (contents (Node [(k, Inr t), (rest, ?x)])) = insert (rest, h None) (below k (set (contents t)))"
    by (auto simp: set_contents)
  ultimately show "wf_node (create_path (set_leaf h) (Node [(k, Inr t)]) rest)"
    "compact (create_path (set_leaf h) (Node [(k, Inr t)]) rest)"
    "set (contents (create_path (set_leaf h) (Node [(k, Inr t)]) rest)) =
       insert (rest, h None) (below k (set (contents t)))"
    by simp_all
qed

definition created :: "('v option \<Rightarrow> 'v) \<Rightarrow> ('c, 'v) node \<Rightarrow> 'c list \<Rightarrow> ('c, 'v) node \<Rightarrow> bool" where
  "created h t key t' \<longleftrightarrow>
     wf_node t' \<and> (compact t \<longrightarrow> compact t') \<and>
     set (contents t') = put key (h (get_node t key)) (set (contents t))"

lemma without_leaf:
  assumes "wf_node (Node es)"
  shows "\<Union> (out ` {e \<in> set es. fst e \<noteq> []}) = {e \<in> set (contents (Node es)). fst e \<noteq> []}"
proof -
  have "k \<noteq> [] \<longleftrightarrow> q \<noteq> []" if "(k, x) \<in> set es" "(q, v) \<in> out (k, x)" for k x q v
    using out_starts(1)[OF assms that] by (cases k; cases q) auto
  then show ?thesis by (fastforce simp: set_contents)
qed

lemma created_here:
  assumes "wf_node (Node es)"
  shows "created h (Node es) [] (Node (set_leaf h es))"
proof -
  have wf: "wf_node (Node (set_leaf h es))"
    unfolding set_leaf_def using assms by (intro wf_update) (auto dest: fst_in_set)
  have cpt: "compact (Node es) \<longrightarrow> compact (Node (set_leaf h es))"
    by (cases es) (auto simp: compact_def set_leaf_def)
  have "get_node (Node es) [] = leaf_value es" by (simp add: get_node_def lookup.simps)
  moreover note without_leaf[OF assms]
  ultimately show ?thesis
    using wf cpt by (simp add: created_def put_def set_leaf_def contents_update[OF assms])
qed

lemma created_new:
  assumes "wf_node (Node es)" and "key \<noteq> []" and "find (same_start key) es = None"
  shows "created h (Node es) key (Node (AList.update key (Inr (Node [([], Inl (h None))])) es))"
proof -
  note other = find_same_start_None[OF assms(3,2)]
  have fresh: "(key, w) \<notin> set (contents (Node es))" for w
    using not_in_contents[OF assms(1)] other by metis
  have key: "key \<notin> fst ` set es" using other by force
  then have "{e \<in> set es. fst e \<noteq> key} = set es" by force
  moreover have "get_node (Node es) key = None" using fresh by (simp add: get_node_None assms(1))
  moreover have "compact (Node es) \<longrightarrow> compact (Node (AList.update key (Inr (Node [([], Inl (h None))])) es))"
    using key by (auto simp: compact_def length_update)
  moreover have "wf_node (Node (AList.update key (Inr (Node [([], Inl (h None))])) es))"
    using assms other by (intro wf_update) force+
  ultimately show ?thesis
    using fresh by (simp add: created_def contents_update[OF assms(1)] put_fresh set_contents[of es, symmetric])
qed

lemma created_below:
  assumes wf: "wf_node (Node es)" and k: "(k, Inr t) \<in> set es" and key: "key = k @ rest"
    and t': "created h t rest t'"
  shows "created h (Node es) key (Node (AList.update k (Inr t') es))"
proof -
  have t: "wf_node t" "compact t" "k \<noteq> []" using wf k by (auto simp: wf_node_iff)
  then have start: "take 1 key = take 1 k" by (cases k) (auto simp: key)
  have "get_node (Node es) key = get_node t rest"
    using in_contents_entry[OF wf k start] t(1) by (intro get_node_cong[OF wf]) (simp_all add: key)
  moreover have "set (contents (Node (AList.update k (Inr t') es))) =
      put key (h (get_node t rest)) (below k (set (contents t))) \<union> \<Union> (out ` {e \<in> set es. fst e \<noteq> k})"
    using t' by (simp add: contents_update[OF wf] created_def below_put key)
  moreover have "\<dots> = put key (h (get_node t rest)) (set (contents (Node es)))"
    using not_in_others[OF wf k start] by (subst contents_split[OF wf k]) (simp add: put_Un)
  moreover have "wf_node (Node (AList.update k (Inr t') es))"
    using t' t fst_in_set[OF k] by (intro wf_update[OF wf]) (auto simp: created_def)
  moreover have "compact (Node es) \<longrightarrow> compact (Node (AList.update k (Inr t') es))"
    using k fst_in_set[OF k] by (cases es) (auto simp: compact_def length_update)
  ultimately show ?thesis by (simp add: created_def)
qed

lemma created_between:
  assumes wf: "wf_node (Node es)" and k: "(k, Inr t) \<in> set es"
    and parts: "k = pre @ kr" "key = pre @ rest" "pre \<noteq> []" "kr \<noteq> []" "take 1 kr \<noteq> take 1 rest"
  shows "created h (Node es) key (Node (AList.delete k
           (AList.update pre (Inr (create_path (set_leaf h) (Node [(kr, Inr t)]) rest)) es)))"
proof -
  let ?n = "create_path (set_leaf h) (Node [(kr, Inr t)]) rest"
  let ?es = "AList.delete k es"
  have t: "wf_node t" "compact t" using wf k by (auto simp: wf_node_iff)
  note n = create_path_split[OF parts(4,5) t, of h]
  have start: "take 1 key = take 1 k" "take 1 pre = take 1 k" using parts by (cases pre; simp)+
  have eq: "AList.delete k (AList.update pre (Inr ?n) es) = AList.update pre (Inr ?n) ?es"
    using parts by (intro AList.delete_update) auto
  have other: "take 1 k' \<noteq> take 1 pre" if "(k', x') \<in> set ?es" for k' x'
    using that wf_unique[OF wf _ k, of k' x'] start by (auto simp: set_delete)
  have fresh: "(key, w) \<notin> set (contents (Node es))" for w
  proof
    assume "(key, w) \<in> set (contents (Node es))"
    then have "take (length k) key = k"
      using out_starts(2)[OF wf k] in_contents_entry[OF wf k start(1)] by blast
    then have "take (length kr) rest = kr" by (simp add: parts)
    then have "take 1 kr = take 1 rest" using parts(4) by (cases kr; cases rest) auto
    then show False using parts(5) by simp
  qed
  have nokey: "pre \<notin> fst ` set ?es" using other by force
  have "get_node (Node es) key = None" using fresh by (simp add: get_node_None wf)
  moreover have "wf_node (Node (AList.update pre (Inr ?n) ?es))"
    using other n parts by (intro wf_update[OF wf_delete[OF wf]]) force+
  moreover have "set (contents (Node (AList.update pre (Inr ?n) ?es))) = insert (key, h None) (set (contents (Node es)))"
  proof -
    have "{e \<in> set ?es. fst e \<noteq> pre} = {e \<in> set es. fst e \<noteq> k}" using nokey by (auto simp: set_delete)
    then show ?thesis
      by (simp add: contents_update[OF wf_delete[OF wf]] contents_split[OF wf k] n parts(1,2))
  qed
  moreover have "compact (Node es) \<longrightarrow> compact (Node (AList.update pre (Inr ?n) ?es))"
  proof
    assume c: "compact (Node es)"
    have "?es \<noteq> []"
    proof
      assume "?es = []"
      then have "\<forall>e \<in> set es. e = (k, Inr t)"
        using wf_unique[OF wf _ k] set_delete[of k es] by fastforce
      moreover have "distinct es" using wf_distinct[OF wf] by (simp add: distinct_map)
      ultimately have "es = [(k, Inr t)]" using k by (cases es; cases "tl es") auto
      then show False using c parts by (simp add: compact_def)
    qed
    then show "compact (Node (AList.update pre (Inr ?n) ?es))" using nokey by (simp add: compact_def length_update)
  qed
  ultimately show ?thesis using fresh by (simp add: created_def eq put_fresh)
qed

theorem create_path_created:
  fixes t :: "('c, 'v) node"
  shows "wf_node t \<Longrightarrow> created h t key (create_path (set_leaf h) t key)"
proof (induction "set_leaf h :: ('c, 'v) entries \<Rightarrow> _" t key rule: create_path.induct)
  case (1 t key)
  obtain es where t: "t = Node es" by (cases t)
  note eq = create_path.simps[of "set_leaf h" "Node es" key]
  show ?case
  proof (cases "key = []")
    case True
    then show ?thesis using created_here "1.prems" by (simp add: eq[unfolded True] t)
  next
    case key: False
    show ?thesis
    proof (cases "find (same_start key) es")
      case None
      then show ?thesis using created_new "1.prems" key by (simp add: eq t)
    next
      case (Some e)
      obtain k x where e: "e = (k, x)" by (cases e)
      note found = find_same_start[OF Some[unfolded e]]
      obtain t' where x: "x = Inr t'"
        using found "1.prems" t by (cases x) (auto simp: wf_node_iff)
      have wf': "wf_node t'" using found x "1.prems" t by (auto simp: wf_node_iff)
      let ?n = "length (common_prefix key k)"
      note pre = common_prefix_takes[of key k]
      show ?thesis
      proof (cases "?n = length k")
        case full: True
        then have "key = k @ drop ?n key"
          using pre by (metis append_take_drop_id take_all order_refl)
        moreover have "created h t' (drop ?n key) (create_path (set_leaf h) t' (drop ?n key))"
          using "1.hyps"(1)[of "(k, x)" k x ?n t'] key Some e x full wf' t by simp
        ultimately show ?thesis
          using created_below[of es k t' key "drop ?n key"] found x "1.prems" key Some e full
          by (simp add: eq t)
      next
        case part: False
        have n: "?n > 0" using found key by (cases key; cases k) auto
        have kr: "drop ?n k \<noteq> []" using part length_common_prefix[of key k] by simp
        have "take 1 (drop ?n k) \<noteq> take 1 (drop ?n key)"
          using kr common_prefix_maximal[of key k] by (cases "drop ?n k"; cases "drop ?n key") auto
        moreover have "k = take ?n key @ drop ?n k" "key = take ?n key @ drop ?n key"
          using pre by (metis append_take_drop_id)+
        moreover have "take ?n key \<noteq> []" using n key by simp
        ultimately show ?thesis
          using created_between[of es k t' "take ?n key" "drop ?n k" key "drop ?n key" h]
            found x "1.prems" key Some e part kr
          by (simp add: eq t Let_def)
      qed
    qed
  qed
qed

subsection \<open>Removing\<close>

text \<open>A path as a context: the key it spells, the entries beside it, and when it is well formed.\<close>

fun ctx_key :: "('c, 'v) path \<Rightarrow> 'c list" where
  "ctx_key [] = []"
| "ctx_key ((es, k) # p) = ctx_key p @ k"

fun ctx_contents :: "('c, 'v) path \<Rightarrow> ('c list \<times> 'v) set" where
  "ctx_contents [] = {}"
| "ctx_contents ((es, k) # p) =
     below (ctx_key p) (\<Union> (out ` {e \<in> set es. fst e \<noteq> k})) \<union> ctx_contents p"

fun wf_ctx :: "('c, 'v) path \<Rightarrow> bool" where
  "wf_ctx [] = True"
| "wf_ctx ((es, k) # p) =
     (wf_node (Node es) \<and> k \<noteq> [] \<and> k \<in> fst ` set es \<and> (p \<noteq> [] \<longrightarrow> compact (Node es)) \<and> wf_ctx p)"

lemma plug_wf:
  assumes "wf_ctx p" "wf_node t" "p \<noteq> [] \<longrightarrow> compact t"
  shows "wf_node (plug t p) \<and> set (contents (plug t p)) = ctx_contents p \<union> below (ctx_key p) (set (contents t))"
  using assms
proof (induction p arbitrary: t)
  case (Cons ek p)
  obtain es k where ek: "ek = (es, k)" by (cases ek)
  let ?t = "Node (AList.update k (Inr t) es)"
  have "wf_node ?t" using Cons.prems ek by (intro wf_update) auto
  moreover have "p \<noteq> [] \<longrightarrow> compact ?t"
    using Cons.prems ek by (cases es) (auto simp: compact_def length_update)
  ultimately show ?case
    using Cons.IH[of ?t] Cons.prems ek by (auto simp: contents_update below_Un)
qed simp

lemma ctx_free: "wf_ctx p \<Longrightarrow> (ctx_key p @ q, v) \<notin> ctx_contents p"
proof (induction p arbitrary: q)
  case (Cons ek p)
  obtain es k where ek: "ek = (es, k)" by (cases ek)
  then obtain x where "(k, x) \<in> set es" "k \<noteq> []" "wf_node (Node es)" using Cons.prems by auto
  then have "(k @ q, v) \<notin> \<Union> (out ` {e \<in> set es. fst e \<noteq> k})"
    by (intro not_in_others) (auto simp: Suc_le_eq)
  moreover have "(ctx_key p @ k @ q, v) \<notin> ctx_contents p" using Cons ek by simp
  ultimately show ?case by (simp add: ek)
qed simp

text \<open>\<open>trackDown\<close> takes a tree apart without loss, or the key is not there.\<close>

lemma track_down_ctx:
  assumes "wf_node t" "wf_ctx p" "p \<noteq> [] \<longrightarrow> compact t"
  shows "case track_down t key p of
      (Some n, p') \<Rightarrow> wf_node n \<and> wf_ctx p' \<and> (p' \<noteq> [] \<longrightarrow> compact n) \<and> ctx_key p' = ctx_key p @ key
        \<and> ctx_contents p' \<union> below (ctx_key p') (set (contents n)) = ctx_contents p \<union> below (ctx_key p) (set (contents t))
    | (None, p') \<Rightarrow> \<forall>v. (key, v) \<notin> set (contents t)"
  using assms
proof (induction t key p rule: track_down.induct)
  case (1 t key p)
  obtain es where t: "t = Node es" by (cases t)
  note eq = track_down.simps[of "Node es" key p]
  consider "key = []" | "key \<noteq> []" "find (starts_child key) es = None"
    | k x where "key \<noteq> []" "find (starts_child key) es = Some (k, x)"
    by (metis not_None_eq surj_pair)
  then show ?case
  proof cases
    case 1 then show ?thesis using "1.prems" by (simp add: track_down.simps)
  next
    case 2
    then have "lookup t key = None" by (simp add: lookup.simps[of "Node es" key] t)
    then have "get_node t key = None" by (simp add: get_node_def)
    then show ?thesis using get_node_None[of t key] "1.prems"(1) 2 by (simp add: eq t)
  next
    case (3 k x)
    note found = find_starts_child[OF 3(2)]
    obtain t' where x: "x = Inr t'" using found(1,2) "1.prems" t by (cases x) (auto simp: wf_node_iff)
    have t': "wf_node t'" "compact t'" using found(1) x "1.prems" t by (auto simp: wf_node_iff)
    have key: "key = k @ drop (length k) key" using found(3) by (metis append_take_drop_id)
    have step: "track_down t key p = track_down t' (drop (length k) key) ((es, k) # p)"
      using 3 x by (simp add: eq t)
    have "wf_ctx ((es, k) # p)" using "1.prems" t found fst_in_set by (auto simp: fst_in_set)
    note IH = "1.IH"[of "(k, x)" k x t', OF 3(1) _ refl x t'(1)]
    have IH': "case track_down t' (drop (length k) key) ((es, k) # p) of
      (Some n, p') \<Rightarrow> wf_node n \<and> wf_ctx p' \<and> (p' \<noteq> [] \<longrightarrow> compact n)
        \<and> ctx_key p' = ctx_key ((es, k) # p) @ drop (length k) key
        \<and> ctx_contents p' \<union> below (ctx_key p') (set (contents n))
           = ctx_contents ((es, k) # p) \<union> below (ctx_key ((es, k) # p)) (set (contents t'))
      | (None, p') \<Rightarrow> \<forall>v. (drop (length k) key, v) \<notin> set (contents t')"
      using IH[unfolded t node.sel] \<open>wf_ctx ((es, k) # p)\<close> t' 3 x t by simp
    have all: "ctx_contents ((es, k) # p) \<union> below (ctx_key ((es, k) # p)) (set (contents t'))
        = ctx_contents p \<union> below (ctx_key p) (set (contents t))"
      using "1.prems"(1) found(1) by (auto simp: t x contents_split[of es k] below_Un)
    have "(key, v) \<in> set (contents t) \<longleftrightarrow> (drop (length k) key, v) \<in> set (contents t')" for v
      using in_contents_entry[OF _ found(1) take_1_of_prefix[OF found(3,2)]] "1.prems"(1) t x key
      by (metis in_below out_simps(2))
    then show ?thesis
      using IH' key unfolding step all by (auto split: prod.splits option.splits)
  qed
qed

lemma compact_other:
  assumes "compact (Node es)" "wf_node (Node es)" "k \<noteq> []" "k \<in> fst ` set es"
  shows "AList.delete k es \<noteq> []"
proof
  assume none: "AList.delete k es = []"
  then have "\<forall>e \<in> set es. fst e = k" using set_delete[of k es] by auto
  then have "length es \<le> 1"
    using wf_distinct[OF assms(2)] by (cases es; cases "tl es") auto
  then show False using assms by (cases es) (auto simp: compact_def)
qed

lemma out_of_child:
  assumes "wf_node (Node es)" "(key, x) \<in> set es" "key \<noteq> []"
  obtains t where "x = Inr t" "wf_node t" "compact t"
  using assms by (cases x) (auto simp: wf_node_iff)

text \<open>A node with one child joins it; the child's entries keep their keys.\<close>

lemma merge_path_wf:
  assumes "wf_ctx p" "p \<noteq> []" "wf_node t" "compact t" "key \<noteq> []"
  shows "wf_node (merge_path n p key (Inr t)) \<and>
    set (contents (merge_path n p key (Inr t))) = ctx_contents p \<union> below (ctx_key p) (out (key, Inr t))"
proof -
  obtain es k p' where p: "p = (es, k) # p'" using assms(2) by (cases p) auto
  let ?es = "AList.delete k es"
  have ctx: "wf_node (Node es)" "k \<noteq> []" "k \<in> fst ` set es" "p' \<noteq> [] \<longrightarrow> compact (Node es)" "wf_ctx p'"
    using assms(1) p by auto
  then obtain x where k: "(k, x) \<in> set es" by auto
  have eq: "AList.delete k (AList.update (k @ key) (Inr t) es) = AList.update (k @ key) (Inr t) ?es"
    using assms(5) by (intro AList.delete_update) auto
  have start: "take 1 (k @ key) = take 1 k" using ctx(2) by (cases k) auto
  have other: "take 1 k' \<noteq> take 1 (k @ key)" if "(k', x') \<in> set ?es" for k' x'
    using that wf_unique(1)[OF ctx(1) _ k, of k' x'] start by (auto simp: set_delete)
  then have nokey: "k @ key \<notin> fst ` set ?es" by force
  let ?t = "Node (AList.update (k @ key) (Inr t) ?es)"
  have wf: "wf_node ?t"
    using other assms ctx by (intro wf_update[OF wf_delete]) force+
  have "p' \<noteq> [] \<longrightarrow> compact ?t"
    using compact_other[OF _ ctx(1,2,3)] ctx(4) nokey by (auto simp: compact_def length_update)
  note plugged = plug_wf[OF ctx(5) wf this]
  have "fst e \<noteq> k @ key" if "e \<in> set ?es" for e using nokey that by (metis imageI)
  then have "{e \<in> set ?es. fst e \<noteq> k @ key} = {e \<in> set es. fst e \<noteq> k}" by (auto simp: set_delete)
  then have "set (contents ?t) = below k (out (key, Inr t)) \<union> \<Union> (out ` {e \<in> set es. fst e \<noteq> k})"
    by (simp add: contents_update[OF wf_delete[OF ctx(1)]])
  then show ?thesis using plugged by (auto simp: merge_path_def p eq below_Un)
qed

text \<open>What is put in place of a node that lost an entry: nothing, its only child, or itself.\<close>

definition shrink :: "('c, 'v) entries \<Rightarrow> ('c, 'v) path \<Rightarrow> ('c, 'v) node" where
  "shrink es p =
     (case es of
        [(key2, x)] \<Rightarrow> if key2 \<noteq> [] then merge_path (Node es) p key2 x else plug (Node es) p
      | _ \<Rightarrow> plug (Node es) p)"

lemma shrink_wf:
  assumes "wf_ctx p" "wf_node (Node es)" "es \<noteq> []"
  shows "wf_node (shrink es p) \<and> set (contents (shrink es p)) = ctx_contents p \<union> below (ctx_key p) (set (contents (Node es)))"
proof (cases "\<exists>k x. es = [(k, x)] \<and> k \<noteq> []")
  case True
  then obtain k x where es: "es = [(k, x)]" "k \<noteq> []" by auto
  obtain t where t: "x = Inr t" "wf_node t" "compact t"
    using out_of_child[OF assms(2)] es by auto
  show ?thesis
  proof (cases "p = []")
    case True then show ?thesis using assms es by (simp add: shrink_def merge_path_def)
  next
    case False
    then show ?thesis
      using merge_path_wf[OF assms(1) False t(2,3) es(2), of "Node es"] es t by (simp add: shrink_def set_contents)
  qed
next
  case False
  then have "compact (Node es)" using assms(3) by (cases es; cases "tl es") (auto simp: compact_def)
  moreover have "shrink es p = plug (Node es) p"
    using False by (auto simp: shrink_def split: list.splits)
  ultimately show ?thesis using plug_wf[OF assms(1,2)] by simp
qed

lemma cleanup_Cons: "cleanup t ((es, k) # p) =
    (if AList.delete k es = [] then cleanup (Node []) p else shrink (AList.delete k es) p)"
  by (auto simp: shrink_def Let_def split: list.splits)

lemma cleanup_wf:
  assumes "wf_ctx p" "p = [] \<longrightarrow> t = Node []"
  shows "wf_node (cleanup t p) \<and> set (contents (cleanup t p)) = ctx_contents p"
  using assms
proof (induction p arbitrary: t)
  case Nil
  then show ?case by (simp add: wf_node_iff set_contents)
next
  case (Cons ek p)
  obtain es k where ek: "ek = (es, k)" by (cases ek)
  have others: "\<Union> (out ` {e \<in> set es. fst e \<noteq> k}) = set (contents (Node (AList.delete k es)))"
    by (simp add: contents_delete)
  have wf: "wf_node (Node (AList.delete k es))" "wf_ctx p" using Cons.prems ek wf_delete by auto
  show ?case
  proof (cases "AList.delete k es = []")
    case True
    then show ?thesis using Cons.IH[of "Node []"] wf(2) by (simp add: ek cleanup_Cons others set_contents del: cleanup.simps(2))
  next
    case False
    then show ?thesis using shrink_wf[OF wf(2,1)] by (auto simp: ek cleanup_Cons others simp del: cleanup.simps(2))
  qed
qed

theorem remove_wf:
  assumes "wf_node t"
  shows "wf_node (remove t key) \<and> set (contents (remove t key)) = {e \<in> set (contents t). fst e \<noteq> key}"
proof -
  obtain r p where td: "track_down t key [] = (r, p)" by (cases "track_down t key []")
  note down = track_down_ctx[OF assms, of "[]" key, simplified td]
  show ?thesis
  proof (cases r)
    case None
    then show ?thesis using down assms by (auto simp: remove_def td)
  next
    case (Some n)
    obtain es where n: "n = Node es" by (cases n)
    let ?es = "AList.delete [] es"
    have wf: "wf_node (Node es)" "wf_ctx p" "wf_node (Node ?es)" and key: "ctx_key p = key"
      and all: "set (contents t) = ctx_contents p \<union> below key (set (contents (Node es)))"
      using down Some n by (auto intro: wf_delete)
    have "set (contents (Node ?es)) = {e \<in> set (contents (Node es)). fst e \<noteq> []}"
      by (simp add: contents_delete without_leaf[OF wf(1)])
    moreover have "fst e \<noteq> key" if "e \<in> ctx_contents p" for e
      using ctx_free[OF wf(2), of "[]" "snd e"] that key by (cases e) auto
    ultimately have minus: "{e \<in> set (contents t). fst e \<noteq> key} = ctx_contents p \<union> below key (set (contents (Node ?es)))"
      unfolding all by (auto simp: below_def)
    have "remove t key = (if ?es = [] then cleanup (Node []) p else shrink ?es p)"
    proof -
      have "k \<noteq> []" if "?es = [(k, x)]" for k x
      proof
        assume "k = []"
        then have "([], x) \<in> {e \<in> set es. fst e \<noteq> []}"
          using that set_delete[of "[]" es] by (metis list.set_intros(1))
        then show False by simp
      qed
      then show ?thesis by (auto simp: remove_def td Some n shrink_def Let_def split: list.splits)
    qed
    then show ?thesis
      using cleanup_wf[OF wf(2), of "Node []"] shrink_wf[OF wf(2,3)] minus key
      by (auto simp: set_contents)
  qed
qed

subsection \<open>Iterating\<close>

definition out_list :: "'c list \<times> ('v + ('c, 'v) node) \<Rightarrow> ('c list \<times> 'v) list" where
  "out_list e =
     (case snd e of Inl v \<Rightarrow> [(fst e, v)] | Inr t \<Rightarrow> map (\<lambda>(q, v). (fst e @ q, v)) (contents t))"

lemma contents_out_list: "contents (Node es) = concat (map out_list (rev es))"
  unfolding contents.simps by (rule arg_cong[where f = concat]) (auto simp: out_list_def split: sum.split)

definition shift :: "'c list \<Rightarrow> ('c list \<times> 'v) list \<Rightarrow> ('c list \<times> 'v) list" where
  "shift k = map (\<lambda>(q, v). (k @ q, v))"

lemma shift_simps [simp]:
  "shift k [] = []" "shift k (xs @ ys) = shift k xs @ shift k ys" "shift k (shift k' xs) = shift (k @ k') xs"
  "shift k ((q, v) # xs) = (k @ q, v) # shift k xs"
  by (auto simp: shift_def)

text \<open>What an iterator has still to give: after its current entry, and with it.\<close>

fun rest_of :: "('c, 'v) tree_path \<Rightarrow> ('c list \<times> 'v) list" where
  "rest_of [] = []"
| "rest_of ((es, ks) # p) =
     shift (path_key p) (concat (map out_list (rev (take (length ks - 1) es)))) @ rest_of p"

fun pending :: "('c, 'v) tree_path \<Rightarrow> ('c list \<times> 'v) list" where
  "pending [] = []"
| "pending ((es, ks) # p) =
     shift (path_key p) (out_list (es ! (length ks - 1))) @ rest_of ((es, ks) # p)"

definition iter_ok :: "('c, 'v) tree_path \<Rightarrow> bool" where
  "iter_ok p = list_all (\<lambda>(es, ks). ks \<noteq> [] \<and> length ks \<le> length es \<and> ks = map fst (take (length ks) es)
                           \<and> wf_node (Node es)) p"

lemma iter_okD:
  assumes "iter_ok ((es, ks) # p)"
  shows "ks \<noteq> []" "wf_node (Node es)" "iter_ok p" "length ks \<le> length es"
    "(last ks, snd (es ! (length ks - 1))) \<in> set es" "es ! (length ks - 1) = (last ks, snd (es ! (length ks - 1)))"
    "map_of es (last ks) = Some (snd (es ! (length ks - 1)))"
proof -
  have ks: "ks \<noteq> []" "length ks \<le> length es" "ks = map fst (take (length ks) es)"
    and wf: "wf_node (Node es)" and p: "iter_ok p"
    using assms by (auto simp: iter_ok_def)
  let ?i = "length ks - 1"
  have "?i < length ks" using ks(1) by simp
  then have i: "?i < length es" using ks(2) by linarith
  have "last ks = map fst (take (length ks) es) ! ?i" using ks(1,3) by (metis last_conv_nth)
  then have l: "last ks = fst (es ! ?i)" using i \<open>?i < length ks\<close> by simp
  then have mem: "(last ks, snd (es ! ?i)) \<in> set es" using i by simp
  show "ks \<noteq> []" "wf_node (Node es)" "iter_ok p" "length ks \<le> length es"
    "(last ks, snd (es ! (length ks - 1))) \<in> set es" "es ! (length ks - 1) = (last ks, snd (es ! (length ks - 1)))"
    "map_of es (last ks) = Some (snd (es ! (length ks - 1)))"
    using ks wf p l mem wf_distinct[OF wf] by simp_all
qed

lemma pending_backtrack: "iter_ok p \<Longrightarrow> pending (backtrack p) = rest_of p \<and> iter_ok (backtrack p)"
proof (induction p rule: backtrack.induct)
  case (2 es ks p)
  note ok = iter_okD[OF 2(2)]
  show ?case
  proof (cases "butlast ks = []")
    case True
    then have "length ks = 1" using ok(1) by (cases ks) (auto split: if_splits)
    then show ?thesis using 2(1)[OF _ ok(3)] True by simp
  next
    case False
    then obtain m where m: "length ks = Suc (Suc m)"
      by (cases ks; cases "tl ks") auto
    have "ks = map fst (take (length ks) es)" using 2(2) by (simp add: iter_ok_def)
    then have "butlast ks = take (Suc m) (map fst (take (length ks) es))"
      by (metis butlast_conv_take diff_Suc_1 m)
    also have "\<dots> = map fst (take (Suc m) es)" using m by (simp add: take_map)
    finally have b: "butlast ks = map fst (take (Suc m) es)" .
    have "take (Suc m) es = take m es @ [es ! m]"
      using m ok(4) by (intro take_Suc_conv_app_nth) simp
    then show ?thesis
      using False ok(2,3,4) m b by (simp add: iter_ok_def)
  qed
qed simp

lemma path_key_Cons: "path_key ((es, ks) # p) = path_key p @ last ks"
  by (simp add: path_key_def)

lemma iter_ok_children:
  assumes "wf_node t" "node_entries t \<noteq> []" "iter_ok p"
  shows "iter_ok ((node_entries t, map fst (node_entries t)) # p)"
  using assms by (cases t) (simp add: iter_ok_def)

lemma pending_children:
  assumes "node_entries t \<noteq> []"
  shows "pending ((node_entries t, map fst (node_entries t)) # p) = shift (path_key p) (contents t) @ rest_of p"
proof -
  obtain es e where t: "t = Node (es @ [e])"
    using assms by (cases t; cases "node_entries t" rule: rev_cases) auto
  then show ?thesis by (simp add: contents_out_list)
qed

lemma dive_pending:
  assumes "iter_ok p" "p \<noteq> []"
  shows "\<exists>es ks p' v. dive p = Some ((es, ks) # p') \<and> iter_ok ((es, ks) # p') \<and> iter_value ((es, ks) # p') = Some v
    \<and> pending p = (path_key ((es, ks) # p'), v) # rest_of ((es, ks) # p')"
  using assms
proof (induction p rule: dive.induct)
  case (2 es ks p)
  note ok = iter_okD[OF 2(2)]
  let ?x = "snd (es ! (length ks - 1))"
  show ?case
  proof (cases "last ks = []")
    case True
    then obtain v where v: "?x = Inl v" using ok(2,5) by (cases ?x) (auto simp: wf_node_iff)
    have "es ! (length ks - 1) = ([], Inl v)" using ok(6) True v by simp
    then have "pending ((es, ks) # p) = (path_key ((es, ks) # p), v) # rest_of ((es, ks) # p)"
      using True by (simp add: out_list_def path_key_Cons)
    moreover have "iter_value ((es, ks) # p) = Some v"
      using ok(7) True v by (simp add: iter_value_def leaf_value_def)
    ultimately show ?thesis using ok(1) True 2(2) by simp
  next
    case False
    then obtain t where t: "?x = Inr t" "wf_node t" "compact t"
      using out_of_child[OF ok(2,5) False] by metis
    then have ne: "node_entries t \<noteq> []" by (simp add: compact_def)
    have "es ! (length ks - 1) = (last ks, Inr t)" using ok(6) t by simp
    then have "pending ((es, ks) # p) = shift (path_key ((es, ks) # p)) (contents t) @ rest_of ((es, ks) # p)"
      by (simp add: out_list_def path_key_Cons shift_def case_prod_beta)
    also have "\<dots> = pending ((node_entries t, map fst (node_entries t)) # (es, ks) # p)"
      using pending_children[OF ne] by metis
    finally show ?thesis
      using 2(1)[OF ok(1) False _ _ iter_ok_children[OF t(2) ne 2(2)]] ok(1,7) False t(1) by auto
  qed
qed simp

theorem iterate_pending:
  "iter_ok p \<Longrightarrow> iterate pre p acc = Some (acc @ map (\<lambda>(q, v). (pre @ q, Some v)) (pending p))"
proof (induction "pending p" arbitrary: p acc)
  case Nil
  then have "p = []" using dive_pending by (cases p) fastforce+
  then show ?case by (simp add: iterate.simps)
next
  case (Cons e l)
  then have "p \<noteq> []" by auto
  then obtain es ks p' v where d: "dive p = Some ((es, ks) # p')" "iter_ok ((es, ks) # p')"
      "iter_value ((es, ks) # p') = Some v" "pending p = (path_key ((es, ks) # p'), v) # rest_of ((es, ks) # p')"
    using dive_pending[OF Cons.prems] by blast
  let ?p = "backtrack ((es, ks) # p')"
  have rest: "rest_of ((es, ks) # p') = l" using d(4) Cons.hyps(2) by simp
  have "pending ?p = l" "iter_ok ?p"
    using pending_backtrack[OF d(2)] rest by auto
  then have "iterate pre ?p acc' = Some (acc' @ map (\<lambda>(q, v). (pre @ q, Some v)) l)" for acc'
    using Cons.hyps(1)[of ?p acc'] by simp
  then show ?case
    using d rest by (subst iterate.simps) (simp add: iter_key_def del: backtrack.simps rest_of.simps)
qed

lemma iter_start_ok:
  assumes "wf_node t"
  shows "iter_ok (iter_start t)" and "pending (iter_start t) = contents t"
proof -
  show "iter_ok (iter_start t)"
    using iter_ok_children[OF assms, of "[]"] by (simp add: iter_start_def iter_ok_def)
  show "pending (iter_start t) = contents t"
  proof (cases "node_entries t = []")
    case True
    then show ?thesis by (cases t) (simp add: iter_start_def contents.simps)
  next
    case False
    then show ?thesis
      using pending_children[OF False, of "[]"] by (simp add: iter_start_def path_key_def shift_def case_prod_beta)
  qed
qed

text \<open>No key comes twice.\<close>

lemma distinct_contents: "wf_node t \<Longrightarrow> distinct (map fst (contents t))"
proof (induction t rule: contents.induct)
  case (1 es)
  have "distinct (map fst (concat (map out_list xs)))"
    if "set xs \<subseteq> set es" "distinct xs" for xs
    using that
  proof (induction xs)
    case (Cons e xs)
    obtain k x where e: "e = (k, x)" by (cases e)
    have mem: "set (out_list e') = out e'" for e' :: "'a list \<times> ('b + ('a, 'b) node)"
      by (auto simp: out_list_def out_def below_def split: sum.split)
    have "distinct (map fst (out_list e))"
    proof (cases x)
      case (Inr t)
      then have "distinct (map fst (contents t))"
        using "1.IH"[of e k x t] "1.prems" Cons.prems(1) e by (auto simp: wf_node_iff)
      then have "distinct (map ((@) k) (map fst (contents t)))" by (subst distinct_map) (simp add: inj_on_def)
      then show ?thesis by (simp add: out_list_def e Inr comp_def case_prod_beta)
    qed (simp add: out_list_def e)
    moreover have "fst ` set (out_list e) \<inter> fst ` set (concat (map out_list xs)) = {}"
    proof -
      have "q \<noteq> q'" if qe: "(q, v) \<in> out e" and q': "(q', v') \<in> out e'" "e' \<in> set xs" for q v q' v' e'
      proof
        assume "q = q'"
        obtain k' x' where e': "e' = (k', x')" by (cases e')
        have in_es: "(k, x) \<in> set es" "(k', x') \<in> set es" using Cons.prems(1) e e' q' by auto
        have "k \<noteq> k'"
          using wf_unique(2)[OF "1.prems" in_es] Cons.prems(2) q'(2) e e' by auto
        then show False
          using out_disjoint[OF "1.prems" in_es _ qe[unfolded e], of v'] q' \<open>q = q'\<close> e' by simp
      qed
      then show ?thesis by (fastforce simp: mem)
    qed
    ultimately show ?case using Cons by simp
  qed simp
  from this[of "rev es"] show ?case
    using wf_distinct[OF "1.prems"] by (simp add: contents_out_list distinct_map)
qed

subsection \<open>The interface of a map\<close>

text \<open>What the search index asks of the map it keeps its terms in: reading after writing, and an
  invariant that every operation keeps.\<close>

locale map_store =
  fixes ok :: "'m \<Rightarrow> bool"
    and empty_store :: 'm
    and get_key :: "'m \<Rightarrow> 'k \<Rightarrow> 'v option"
    and set_key :: "'k \<Rightarrow> 'v \<Rightarrow> 'm \<Rightarrow> 'm"
    and delete_key :: "'k \<Rightarrow> 'm \<Rightarrow> 'm"
  assumes ok_empty: "ok empty_store"
    and ok_set: "ok m \<Longrightarrow> ok (set_key k v m)"
    and ok_delete: "ok m \<Longrightarrow> ok (delete_key k m)"
    and get_empty: "get_key empty_store k = None"
    and get_set: "ok m \<Longrightarrow> get_key (set_key k v m) = (get_key m)(k \<mapsto> v)"
    and get_delete: "ok m \<Longrightarrow> get_key (delete_key k m) = (get_key m)(k := None)"
begin

lemma set_all:
  "ok m \<Longrightarrow> ok (foldl (\<lambda>m (k, v). set_key k v m) m kvs) \<and>
   get_key (foldl (\<lambda>m (k, v). set_key k v m) m kvs) = get_key m ++ map_of (rev kvs)"
  by (induction kvs arbitrary: m) (auto simp: ok_set get_set map_add_def fun_eq_iff split: option.splits)

lemma delete_all:
  "ok m \<Longrightarrow> ok (fold delete_key ks m) \<and> get_key (fold delete_key ks m) = get_key m |` (- set ks)"
  by (induction ks arbitrary: m) (auto simp: ok_delete get_delete restrict_map_def fun_eq_iff)

end

lemma lookup_wf: "wf_node t \<Longrightarrow> lookup t key = Some n \<Longrightarrow> wf_node n"
proof (induction t key rule: lookup.induct)
  case (1 t key)
  obtain es where t: "t = Node es" by (cases t)
  show ?case
    using 1 find_starts_child(1)[of key es] unfolding t lookup.simps[of "Node es" key]
    by (fastforce simp: wf_node_iff split: if_splits option.splits sum.splits)
qed

lemma sm_get_node: "sm_get m = get_node (sm_tree m)"
  by (simp add: fun_eq_iff sm_get_def get_node_def)

lemma get_node_created:
  assumes "wf_node t" "created h t key t'"
  shows "get_node t' = (get_node t)(key \<mapsto> h (get_node t key))"
proof
  fix q
  have "get_node t' q = Some v \<longleftrightarrow> ((get_node t)(key \<mapsto> h (get_node t key))) q = Some v" for v
    using assms get_node_iff[of t q v] get_node_iff[of t' q v] by (auto simp: created_def put_def)
  then show "get_node t' q = ((get_node t)(key \<mapsto> h (get_node t key))) q" by (metis not_Some_eq)
qed

lemma get_node_remove:
  assumes "wf_node t"
  shows "get_node (remove t key) = (get_node t)(key := None)"
proof
  fix q
  have "get_node (remove t key) q = Some v \<longleftrightarrow> ((get_node t)(key := None)) q = Some v" for v
    using remove_wf[OF assms, of key] get_node_iff[of t q v] get_node_iff[of "remove t key" q v] assms by auto
  then show "get_node (remove t key) q = ((get_node t)(key := None)) q" by (metis not_Some_eq)
qed

lemma sm_set_created: "sm_tree (sm_set k v m) = create_path (set_leaf (\<lambda>_. v)) (sm_tree m) k"
  by (simp add: sm_set_def set_leaf_def[abs_def])

lemma sm_update_created: "sm_tree (sm_update k f m) = create_path (set_leaf f) (sm_tree m) k"
  by (simp add: sm_update_def set_leaf_def[abs_def])

lemma wf_new_smap [simp]: "wf_node (Node [])"
  by (simp add: wf_node_iff)

interpretation radix: map_store "\<lambda>m. wf_node (sm_tree m)" "new_smap (Node []) []" sm_get sm_set sm_delete
proof unfold_locales
  fix m :: "('a, 'b) smap" and k v
  assume wf: "wf_node (sm_tree m)"
  note c = create_path_created[OF wf, of "\<lambda>_. v" k]
  show "wf_node (sm_tree (sm_set k v m))" using c by (simp add: sm_set_created created_def)
  show "wf_node (sm_tree (sm_delete k m))" using remove_wf[OF wf] by (simp add: sm_delete_def)
  show "sm_get (sm_set k v m) = (sm_get m)(k \<mapsto> v)"
    using get_node_created[OF wf c] by (simp add: sm_get_node sm_set_created)
  show "sm_get (sm_delete k m) = (sm_get m)(k := None)"
    using get_node_remove[OF wf] by (simp add: sm_get_node sm_delete_def)
next
  show "sm_get (new_smap (Node []) []) k = None" for k :: "'a list"
    by (simp add: sm_get_node new_smap_def get_node_None contents.simps)
qed (simp add: new_smap_def)

lemma radix_one:
  "wf_node (sm_tree (sm_set k v (new_smap (Node []) [])))"
  "sm_get (sm_set k v (new_smap (Node []) [])) = [k \<mapsto> v]"
  by (rule radix.ok_set[OF radix.ok_empty])
    (simp add: fun_eq_iff radix.get_empty radix.get_set[OF radix.ok_empty])

text \<open>A \<open>Map\<close> of JavaScript keeps the contract as well.\<close>

interpretation js_map: map_store "\<lambda>_. True" "[]" map_of AList.update AList.delete
  by unfold_locales (auto simp: update_conv' AList.delete_conv' fun_eq_iff)

text \<open>\<open>fetch\<close> stores nothing when there is a value.\<close>

lemma update_present:
  "map_of es k = Some x \<Longrightarrow> AList.update k x es = es"
  by (induction es) auto

lemma fetch_created:
  "create_path (\<lambda>es. if leaf_value es = None then AList.update [] (Inl i) es else es) t k
     = create_path (set_leaf (the_or i)) t k"
proof -
  have "(if leaf_value es = None then AList.update [] (Inl i) es else es) = set_leaf (the_or i) es"
    for es :: "('a, 'b) entries"
    by (auto simp: set_leaf_def leaf_value_def update_present split: option.splits sum.splits)
  then show ?thesis by presburger
qed

text \<open>Where a search for a key stops.\<close>

lemma track_down_None:
  assumes "wf_node t" "wf_ctx p" "p \<noteq> [] \<longrightarrow> compact t" "track_down t key p = (None, p')"
  shows "\<exists>es rest p0. p' = (es, rest) # p0 \<and> wf_node (Node es) \<and> wf_ctx p0 \<and> rest \<noteq> [] \<and>
    ctx_key p0 @ rest = ctx_key p @ key \<and> find (starts_child rest) es = None \<and>
    ctx_contents p0 \<union> below (ctx_key p0) (set (contents (Node es))) = ctx_contents p \<union> below (ctx_key p) (set (contents t))"
  using assms
proof (induction t key p rule: track_down.induct)
  case (1 t key p)
  obtain es where t: "t = Node es" by (cases t)
  note eq = track_down.simps[of "Node es" key p]
  consider "key = []" | "key \<noteq> []" "find (starts_child key) es = None"
    | k x where "key \<noteq> []" "find (starts_child key) es = Some (k, x)"
    by (metis not_None_eq surj_pair)
  then show ?case
  proof cases
    case 1 then show ?thesis using "1.prems"(4) by (simp add: track_down.simps)
  next
    case 2 then show ?thesis using "1.prems" by (auto simp: eq t)
  next
    case (3 k x)
    note found = find_starts_child[OF 3(2)]
    obtain t' where x: "x = Inr t'" using found(1,2) "1.prems" t by (cases x) (auto simp: wf_node_iff)
    have t': "wf_node t'" "compact t'" using found(1) x "1.prems" t by (auto simp: wf_node_iff)
    have key: "key = k @ drop (length k) key" using found(3) by (metis append_take_drop_id)
    have step: "track_down t' (drop (length k) key) ((es, k) # p) = (None, p')"
      using 3 x "1.prems"(4) by (simp add: eq t)
    have ctx: "wf_ctx ((es, k) # p)" using "1.prems" t found by (auto simp: fst_in_set)
    have all: "ctx_contents ((es, k) # p) \<union> below (ctx_key ((es, k) # p)) (set (contents t'))
        = ctx_contents p \<union> below (ctx_key p) (set (contents t))"
      using "1.prems"(1) found(1) by (auto simp: t x contents_split[of es k] below_Un)
    have "ctx_key ((es, k) # p) @ drop (length k) key = ctx_key p @ key" using key by simp
    then show ?thesis
      using "1.IH"[of "(k, x)" k x t', unfolded t node.sel, OF 3 refl x t'(1) ctx _ step] t'(2)
      unfolding all by simp
  qed
qed

lemma get_node_in_ctx:
  assumes "wf_ctx p" "wf_node t" "wf_node n"
    and "ctx_contents p \<union> below (ctx_key p) (set (contents n)) = set (contents t)"
  shows "get_node t (ctx_key p @ q) = get_node n q"
  using ctx_free[OF assms(1), of q] by (intro get_node_cong[OF assms(2,3)]) (simp add: assms(4)[symmetric])

lemma at_prefix_view:
  assumes wf: "wf_node (sm_tree m)" and pre: "pre = sm_prefix m @ key"
  shows "\<exists>m'. at_prefix m pre = Some m' \<and> wf_node (sm_tree m') \<and> sm_prefix m' = pre \<and>
    (\<forall>q. sm_get m' q = sm_get m (key @ q))"
proof -
  let ?t = "sm_tree m"
  obtain r p where td: "track_down ?t key [] = (r, p)" by (cases "track_down ?t key []")
  have view: "at_prefix m pre = Some (case (r, p) of
             (Some n, p) \<Rightarrow> new_smap n pre
           | (None, []) \<Rightarrow> new_smap (Node []) pre
           | (None, (es, key) # p) \<Rightarrow>
              (case find (\<lambda>(k, x). k \<noteq> [] \<and> take (length key) k = key) es of
                 Some (k, x) \<Rightarrow> new_smap (Node [(drop (length key) k, x)]) pre
               | None \<Rightarrow> new_smap (Node []) pre))"
    unfolding at_prefix_def pre by (simp add: td)
  show ?thesis
  proof (cases r)
    case (Some n)
    then have n: "wf_node n" "wf_ctx p" "ctx_key p = key"
        "ctx_contents p \<union> below (ctx_key p) (set (contents n)) = set (contents ?t)"
      using track_down_ctx[OF wf, of "[]" key] td by auto
    then show ?thesis
      using get_node_in_ctx[OF n(2) wf n(1,4)] view Some by (simp add: new_smap_def sm_get_node)
  next
    case None
    then obtain es rest p0 where p: "p = (es, rest) # p0" "wf_node (Node es)" "wf_ctx p0" "rest \<noteq> []"
        "ctx_key p0 @ rest = key" "find (starts_child rest) es = None"
        "ctx_contents p0 \<union> below (ctx_key p0) (set (contents (Node es))) = set (contents ?t)"
      using track_down_None[OF wf, of "[]" key] td by auto
    have get: "sm_get m (key @ q) = get_node (Node es) (rest @ q)" for q
      using get_node_in_ctx[OF p(3) wf p(2,7), of "rest @ q"] by (simp add: sm_get_node p(5)[symmetric])
    let ?P = "\<lambda>(k, x). k \<noteq> [] \<and> take (length rest) k = rest"
    show ?thesis
    proof (cases "find ?P es")
      case (Some kx)
      then obtain k x where kx: "kx = (k, x)" "(k, x) \<in> set es" "k \<noteq> []" "take (length rest) k = rest"
        by (cases kx) (auto dest!: find_SomeD)
      let ?n = "Node [(drop (length rest) k, x)]"
      obtain t where x: "x = Inr t" "wf_node t" "compact t" using out_of_child[OF p(2) kx(2,3)] .
      have k: "k = rest @ drop (length rest) k" using kx(4) by (metis append_take_drop_id)
      then have "drop (length rest) k \<noteq> []"
        using find_starts_child_None[OF p(6) kx(2,3)] by (metis append.right_neutral order_refl take_all)
      then have wf': "wf_node ?n" using x by (simp add: wf_node_iff)
      have "get_node (Node es) (rest @ q) = get_node ?n q" for q
      proof (intro get_node_cong[OF p(2) wf'])
        fix v
        have "take 1 (rest @ q) = take 1 k" using p(4) kx(4) by (cases rest; cases k) auto
        then have "(rest @ q, v) \<in> set (contents (Node es)) \<longleftrightarrow> (rest @ q, v) \<in> below rest (out (drop (length rest) k, x))"
          using in_contents_entry[OF p(2) kx(2)] k x(1) by simp
        then show "(rest @ q, v) \<in> set (contents (Node es)) \<longleftrightarrow> (q, v) \<in> set (contents ?n)"
          by (simp add: set_contents)
      qed
      then show ?thesis using view None p(1) Some kx(1) wf' get by (simp add: new_smap_def sm_get_node)
    next
      case none: None
      have "get_node (Node es) (rest @ q) = None" for q
      proof -
        have "(rest @ q, v) \<notin> set (contents (Node es))" for v
        proof
          assume "(rest @ q, v) \<in> set (contents (Node es))"
          then obtain k x where e: "(k, x) \<in> set es" "(rest @ q, v) \<in> out (k, x)"
            unfolding set_contents by fast
          note o = out_starts[OF p(2) e]
          have "k \<noteq> []" using o(1) p(4) by (cases rest) auto
          moreover have "take (length rest) k = rest \<or> take (length k) rest = k"
            using o(2) by (metis append_eq_append_conv_if append_take_drop_id linorder_le_cases min.absorb2 take_all take_take)
          ultimately show False
            using find_starts_child_None[OF p(6) e(1)] none e(1) by (auto simp: find_None_iff)
        qed
        then show ?thesis by (simp add: get_node_None p(2))
      qed
      then show ?thesis
        using view None p(1) none get by (simp add: new_smap_def sm_get_node get_node_None contents.simps)
    qed
  qed
qed

lemma sm_has_get:
  assumes "wf_node (sm_tree m)"
  shows "sm_has m k = (sm_get m k \<noteq> None)"
proof (cases "lookup (sm_tree m) k")
  case (Some n)
  have "map_of (node_entries n) [] \<noteq> None \<longleftrightarrow> leaf_value (node_entries n) \<noteq> None"
    using leaf_value_iff(2)[of "node_entries n"] lookup_wf[OF assms Some]
    by (cases n) (simp add: map_of_eq_None_iff)
  then show ?thesis by (simp add: sm_has_def sm_get_def Some)
qed (simp add: sm_has_def sm_get_def)

text \<open>
  C14.  A \<open>SearchableMap\<close> is a map.  Under the invariant of its radix tree, which every operation
  keeps and the empty map has, reading after \<open>set\<close>, \<open>update\<close>, \<open>fetch\<close>, \<open>delete\<close> and \<open>clear\<close> is
  reading the updated partial function, for all keys, the empty one and keys that share prefixes
  included; \<open>has\<close> and \<open>fetch\<close> answer what the partial function says.
\<close>

theorem searchable_map_refines:
  assumes "wf_node (sm_tree m)"
  shows "sm_get (sm_set k v m) = (sm_get m)(k \<mapsto> v) \<and>
    sm_get (sm_update k f m) = (sm_get m)(k \<mapsto> f (sm_get m k)) \<and>
    sm_get (fst (sm_fetch k v m)) = (sm_get m)(k \<mapsto> snd (sm_fetch k v m)) \<and>
    snd (sm_fetch k v m) = the_or v (sm_get m k) \<and>
    sm_get (sm_delete k m) = (sm_get m)(k := None) \<and>
    sm_get (sm_clear m) = Map.empty \<and>
    sm_has m k = (sm_get m k \<noteq> None) \<and>
    list_all (\<lambda>m'. wf_node (sm_tree m'))
      [sm_set k v m, sm_update k f m, fst (sm_fetch k v m), sm_delete k m, sm_clear m]"
proof -
  note c = create_path_created[OF assms, of _ k]
  note tree = sm_set_created sm_update_created sm_fetch_def sm_delete_def sm_clear_def fetch_created
  have "sm_get (sm_set k v m) = (sm_get m)(k \<mapsto> v)" "sm_get (sm_delete k m) = (sm_get m)(k := None)"
    using assms by (rule radix.get_set radix.get_delete)+
  moreover have "sm_get (sm_update k f m) = (sm_get m)(k \<mapsto> f (sm_get m k))"
    "sm_get (fst (sm_fetch k v m)) = (sm_get m)(k \<mapsto> snd (sm_fetch k v m))"
    "snd (sm_fetch k v m) = the_or v (sm_get m k)"
    using get_node_created[OF assms c] by (simp_all add: sm_get_node tree)
  moreover have "sm_get (sm_clear m) = Map.empty"
    by (simp add: fun_eq_iff sm_get_node tree get_node_None contents.simps)
  moreover have "list_all (\<lambda>m'. wf_node (sm_tree m'))
      [sm_set k v m, sm_update k f m, fst (sm_fetch k v m), sm_delete k m, sm_clear m]"
    using c remove_wf[OF assms] by (simp add: created_def tree)
  moreover have "sm_has m k = (sm_get m k \<noteq> None)"
    using sm_has_get[OF assms] .
  ultimately show ?thesis by blast
qed

lemma searchable_map_refines_witness:
  "sm_get (sm_set ''uni'' (1 :: nat) (sm_set ''unique'' 2 (new_smap (Node []) []))) ''unique'' = Some 2
   \<and> sm_get (sm_delete ''uni'' (sm_set ''uni'' (1 :: nat) (new_smap (Node []) []))) ''uni'' = None"
  using searchable_map_refines[of "sm_set ''unique'' 2 (new_smap (Node []) [])" "''uni''" "1 :: nat"]
    searchable_map_refines[of "sm_set ''uni'' 1 (new_smap (Node []) [])" "''uni''" "1 :: nat"]
  by (simp add: radix_one)

lemma entries_once:
  assumes "wf_node (sm_tree m)"
  shows "\<exists>es. sm_entries m = Some es \<and> distinct (map fst es) \<and>
    set es = {(sm_prefix m @ k, sm_get m k) |k. sm_get m k \<noteq> None} \<and>
    (sm_size m = None \<longrightarrow> sm_count m = Some (m\<lparr>sm_size := Some (length es)\<rparr>, length es))"
proof -
  let ?es = "map (\<lambda>(q, v). (sm_prefix m @ q, Some v)) (contents (sm_tree m))"
  have es: "sm_entries m = Some ?es"
    using iterate_pending[OF iter_start_ok(1)[OF assms]] by (simp add: sm_entries_def iter_start_ok(2)[OF assms])
  have "distinct (map ((@) (sm_prefix m)) (map fst (contents (sm_tree m))))"
    using distinct_contents[OF assms] by (subst distinct_map) (simp add: inj_on_def)
  then have "distinct (map fst ?es)" by (simp add: comp_def case_prod_beta)
  moreover have "set ?es = {(sm_prefix m @ k, sm_get m k) |k. sm_get m k \<noteq> None}"
  proof -
    have "(q, v) \<in> set (contents (sm_tree m)) \<longleftrightarrow> sm_get m q = Some v" for q v
      using get_node_iff[OF assms] by (simp add: sm_get_node)
    then show ?thesis by (force simp: image_iff)
  qed
  ultimately show ?thesis using es by (auto simp: sm_count_def)
qed

text \<open>
  Iterating over a \<open>SearchableMap\<close> ends, and gives every entry once: a list of entries with
  distinct keys, the keys of the map with the prefix of the view before them, each with its value;
  when no size is remembered, \<open>size\<close> is the length of that list.
\<close>

theorem searchable_map_iterates:
  assumes "wf_node (sm_tree m)"
  shows "\<exists>es. sm_entries m = Some es \<and> distinct (map fst es) \<and>
    set es = {(sm_prefix m @ k, sm_get m k) |k. sm_get m k \<noteq> None} \<and>
    (sm_size m = None \<longrightarrow> sm_count m = Some (m\<lparr>sm_size := Some (length es)\<rparr>, length es))"
  using entries_once[OF assms] .

lemma searchable_map_iterates_witness:
  "\<exists>es. sm_entries (sm_set ''a'' (1 :: nat) (new_smap (Node []) [])) = Some es \<and> distinct (map fst es)"
  using searchable_map_iterates[OF radix_one(1), of "''a''" "1 :: nat"] by blast

text \<open>
  A view \<open>atPrefix(p)\<close> of a map answers \<open>get\<close> for the rest of a key after the prefix, and
  not, as its documentation says, for the key itself: with \<open>unique\<close> mapped to 4, the view at
  \<open>uni\<close> has nothing under \<open>unique\<close> and 4 under \<open>que\<close>.
\<close>

theorem view_reads_below_prefix:
  assumes "wf_node (sm_tree m)" and "sm_prefix m = []"
  shows "(\<exists>m'. at_prefix m pre = Some m' \<and> sm_prefix m' = pre \<and> (\<forall>q. sm_get m' q = sm_get m (pre @ q))) \<and>
    (\<exists>m'. at_prefix (sm_set ''unique'' (4 :: nat) (new_smap (Node []) [])) ''uni'' = Some m' \<and>
      sm_get m' ''unique'' = None \<and> sm_get m' ''que'' = Some 4)"
proof -
  let ?m = "sm_set ''unique'' (4 :: nat) (new_smap (Node []) [])"
  have "wf_node (sm_tree ?m)" "sm_prefix ?m = []"
    by (rule radix_one) (simp add: sm_set_def new_smap_def)
  then obtain m' where "at_prefix ?m ''uni'' = Some m'" "\<forall>q. sm_get m' q = sm_get ?m (''uni'' @ q)"
    using at_prefix_view[of ?m "''uni''" "''uni''"] by auto
  moreover have "sm_get ?m = [''unique'' \<mapsto> 4]"
    by (rule radix_one)
  ultimately show ?thesis using at_prefix_view[OF assms(1), of pre pre] assms(2) by auto
qed

lemma view_reads_below_prefix_witness:
  "\<exists>m'. at_prefix (sm_set ''ab'' True (new_smap (Node []) [])) ''a'' = Some m' \<and> sm_get m' ''b'' = Some True"
proof -
  let ?m = "sm_set ''ab'' True (new_smap (Node []) [])"
  have "sm_prefix ?m = []" by (simp add: sm_set_def new_smap_def)
  from view_reads_below_prefix[OF radix_one(1) this, of "''a''"] show ?thesis
    by (auto simp: radix_one(2))
qed

end
