(* ===== verification/FuzzySearch.thy ===== *)
theory FuzzySearch
  imports RadixMap
begin

text \<open>
  The fuzzy search of \<open>minisearch\<close> (\<open>fuzzySearch\<close>, \<open>recurse\<close>): all keys of a radix tree within a given
  Levenshtein distance of a query, by one matrix of bytes that every branch of the tree overwrites
  from its own depth on.  The matrix is a \<open>Uint8Array\<close>: a value is stored modulo 256, a write past
  the end is ignored, and \<open>None\<close> is what a read past the end gives (\<open>undefined\<close>, then \<open>NaN\<close>).
\<close>

subsection \<open>The code\<close>

definition u8_get :: "nat list \<Rightarrow> nat \<Rightarrow> nat option" where
  "u8_get M i = (if i < length M then Some (M ! i) else None)"

definition u8_set :: "nat list \<Rightarrow> nat \<Rightarrow> nat option \<Rightarrow> nat list" where
  "u8_set M i v = M[i := (case v of Some x \<Rightarrow> x mod 256 | None \<Rightarrow> 0)]"

definition nan_add :: "nat option \<Rightarrow> nat \<Rightarrow> nat option" where
  "nan_add a k = map_option (\<lambda>x. x + k) a"

definition nan_min :: "nat option \<Rightarrow> nat option \<Rightarrow> nat option" where
  "nan_min a b = (case (a, b) of (Some x, Some y) \<Rightarrow> Some (min x y) | _ \<Rightarrow> None)"

definition nan_less :: "nat option \<Rightarrow> nat option \<Rightarrow> bool" where
  "nan_less a b = (case (a, b) of (Some x, Some y) \<Rightarrow> x < y | _ \<Rightarrow> False)"

text \<open>One cell of row \<open>i\<close> and the smallest distance seen in the row; \<open>n\<close> is the length of a row.\<close>

definition fuzzy_cell ::
  "'c list \<Rightarrow> 'c \<Rightarrow> nat \<Rightarrow> nat \<Rightarrow> nat list \<times> nat option \<Rightarrow> nat \<Rightarrow> nat list \<times> nat option" where
  "fuzzy_cell query char n i = (\<lambda>(M, min_distance) j.
     (let this_row = n * i; prev_row = this_row - n;
          rpl = nan_add (u8_get M (prev_row + j)) (if char \<noteq> query ! j then 1 else 0);
          del = nan_add (u8_get M (prev_row + j + 1)) 1;
          ins = nan_add (u8_get M (this_row + j)) 1;
          dist = nan_min (nan_min rpl del) ins
      in (u8_set M (this_row + j + 1) dist, if nan_less dist min_distance then dist else min_distance)))"

definition fuzzy_row ::
  "'c list \<Rightarrow> nat \<Rightarrow> 'c \<Rightarrow> nat \<Rightarrow> nat list \<Rightarrow> nat list \<times> nat option" where
  "fuzzy_row query max_distance char i M =
     (let n = length query + 1
      in foldl (fuzzy_cell query char n i) (M, u8_get M (n * i))
           [i - max_distance - 1..<min (n - 1) (i + max_distance)])"

text \<open>The characters of an edge, from row \<open>i\<close>; \<open>None\<close> when a row shows that nothing below is near.\<close>

fun fuzzy_key ::
  "'c list \<Rightarrow> nat \<Rightarrow> 'c list \<Rightarrow> nat \<Rightarrow> nat list \<Rightarrow> nat list \<times> nat option" where
  "fuzzy_key query max_distance [] i M = (M, Some i)"
| "fuzzy_key query max_distance (char # key) i M =
     (let (M, min_distance) = fuzzy_row query max_distance char i M
      in if nan_less (Some max_distance) min_distance then (M, None)
         else fuzzy_key query max_distance key (i + 1) M)"

type_synonym ('c, 'v) fuzzy_results = "('c list \<times> 'v \<times> nat) list"

lemma size_tail: "size (Node es) < size (Node (e # es))"
  by simp

function fuzzy_entries ::
  "'c list \<Rightarrow> nat \<Rightarrow> ('c, 'v) entries \<Rightarrow> nat \<Rightarrow> 'c list \<Rightarrow> nat list \<times> ('c, 'v) fuzzy_results
   \<Rightarrow> nat list \<times> ('c, 'v) fuzzy_results" where
  "fuzzy_entries query max_distance [] m pre st = st"
| "fuzzy_entries query max_distance ((key, Inl v) # es) m pre st =
     fuzzy_entries query max_distance es m pre
       (fst st,
        case u8_get (fst st) (m * (length query + 1) - 1) of
          Some d \<Rightarrow> if d \<le> max_distance then AList.update pre (v, d) (snd st) else snd st
        | None \<Rightarrow> snd st)"
| "fuzzy_entries query max_distance ((key, Inr t) # es) m pre st =
     (case fuzzy_key query max_distance key m (fst st) of
        (M, None) \<Rightarrow> fuzzy_entries query max_distance es m pre (M, snd st)
      | (M, Some i) \<Rightarrow>
          fuzzy_entries query max_distance es m pre
            (fuzzy_entries query max_distance (node_entries t) i (pre @ key) (M, snd st)))"
  by pat_completeness auto
termination
  by (relation "measure (\<lambda>(query, max_distance, es, m, pre, st). size (Node es))")
    (auto simp del: node.size intro: size_entry size_tail)

definition fuzzy_matrix :: "nat \<Rightarrow> nat \<Rightarrow> nat list" where
  "fuzzy_matrix n max_distance =
     (let m = n + max_distance;
          M = replicate (m * n) ((max_distance + 1) mod 256);
          M = foldl (\<lambda>M j. u8_set M j (Some j)) M [0..<n]
      in foldl (\<lambda>M i. u8_set M (i * n) (Some i)) M [1..<m])"

definition fuzzy_search ::
  "('c, 'v) node \<Rightarrow> 'c list \<Rightarrow> nat \<Rightarrow> ('c, 'v) fuzzy_results" where
  "fuzzy_search t query max_distance =
     snd (fuzzy_entries query max_distance (node_entries t) 1 []
            (fuzzy_matrix (length query + 1) max_distance, []))"

definition fuzzy_get :: "('c, 'v) smap \<Rightarrow> 'c list \<Rightarrow> nat \<Rightarrow> ('c, 'v) fuzzy_results" where
  "fuzzy_get m key max_distance = fuzzy_search (sm_tree m) key max_distance"

subsection \<open>Levenshtein distance\<close>

text \<open>The least number of insertions, deletions and replacements, by the last characters.\<close>

fun lev_rev :: "'c list \<Rightarrow> 'c list \<Rightarrow> nat" where
  "lev_rev [] ys = length ys"
| "lev_rev xs [] = length xs"
| "lev_rev (x # xs) (y # ys) =
     min (min (lev_rev xs ys + (if x = y then 0 else 1)) (lev_rev xs (y # ys) + 1)) (lev_rev (x # xs) ys + 1)"

definition lev :: "'c list \<Rightarrow> 'c list \<Rightarrow> nat" where
  "lev xs ys = lev_rev (rev xs) (rev ys)"

lemma lev_rev_Nil2 [simp]: "lev_rev xs [] = length xs"
  by (cases xs) auto

lemma lev_Nil [simp]: "lev [] ys = length ys" "lev xs [] = length xs"
  by (simp_all add: lev_def)

lemma lev_snoc:
  "lev (xs @ [x]) (ys @ [y]) =
     min (min (lev xs ys + (if x = y then 0 else 1)) (lev xs (ys @ [y]) + 1)) (lev (xs @ [x]) ys + 1)"
  by (simp add: lev_def)

lemma lev_rev_lower: "length xs \<le> lev_rev xs ys + length ys \<and> length ys \<le> lev_rev xs ys + length xs"
  by (induction xs ys rule: lev_rev.induct) auto

lemma lev_lower: "length xs \<le> lev xs ys + length ys" "length ys \<le> lev xs ys + length xs"
  using lev_rev_lower[of "rev xs" "rev ys"] by (simp_all add: lev_def)

text \<open>The distance is the length of a shortest chain of single edits.\<close>

inductive edit :: "'c list \<Rightarrow> 'c list \<Rightarrow> bool" where
  replace: "edit (us @ x # vs) (us @ y # vs)"
| insert: "edit (us @ vs) (us @ y # vs)"
| delete: "edit (us @ x # vs) (us @ vs)"

lemma lev_rev_self [simp]: "lev_rev xs xs = 0"
  by (induction xs) auto

lemma lev_rev_step: "lev_rev (x # xs) ys \<le> lev_rev xs ys + 1" "lev_rev xs ys \<le> lev_rev (x # xs) ys + 1"
proof -
  show "lev_rev (x # xs) ys \<le> lev_rev xs ys + 1" by (cases ys) auto
  show "lev_rev xs ys \<le> lev_rev (x # xs) ys + 1"
  proof (induction ys)
    case Nil then show ?case by simp
  next
    case (Cons y ys)
    have "lev_rev xs (y # ys) \<le> lev_rev xs ys + 1" by (cases xs) auto
    then show ?case using Cons by (auto simp: min_def)
  qed
qed

lemma lev_rev_replace: "lev_rev (x # xs) zs \<le> lev_rev (y # xs) zs + 1"
  by (induction zs) (auto simp: min_def)

lemma lev_rev_context:
  assumes "\<And>zs. lev_rev xs zs \<le> lev_rev ys zs + 1"
  shows "lev_rev (us @ xs) zs \<le> lev_rev (us @ ys) zs + 1"
proof (induction us arbitrary: zs)
  case (Cons u us)
  note IH = Cons.IH
  show ?case
  proof (induction zs)
    case Nil
    show ?case using IH[of "[]"] by simp
  next
    case (Cons z zs)
    show ?case using Cons.IH IH[of zs] IH[of "z # zs"] by (auto simp: min_def)
  qed
next
  case Nil
  show ?case using assms by simp
qed

lemma edit_rev: "edit xs ys \<Longrightarrow> edit (rev xs) (rev ys)"
  by (induction rule: edit.induct) (use edit.intros in \<open>force+\<close>)

lemma lev_edit: "edit xs ys \<Longrightarrow> lev xs zs \<le> lev ys zs + 1"
  unfolding lev_def
proof (drule edit_rev, induction "rev xs" "rev ys" rule: edit.induct)
  case (replace us x vs y)
  show ?case unfolding replace[symmetric] by (rule lev_rev_context) (rule lev_rev_replace)
next
  case (insert us vs y)
  show ?case unfolding insert[symmetric] by (rule lev_rev_context) (rule lev_rev_step)
next
  case (delete us x vs)
  show ?case unfolding delete[symmetric] by (rule lev_rev_context) (rule lev_rev_step)
qed

lemma edits_Cons: "(edit ^^ n) xs ys \<Longrightarrow> (edit ^^ n) (z # xs) (z # ys)"
proof (induction n arbitrary: xs)
  case (Suc n)
  then obtain ws where ws: "edit xs ws" "(edit ^^ n) ws ys" by (metis relpowp_Suc_D2)
  from ws(1) have "edit (z # xs) (z # ws)"
    by cases (use edit.intros[of "z # _"] in \<open>force+\<close>)
  then show ?case using Suc.IH[OF ws(2)] by (rule relpowp_Suc_I2)
qed simp

lemma lev_rev_edits: "(edit ^^ lev_rev xs ys) xs ys"
proof (induction xs ys rule: lev_rev.induct)
  case (1 ys)
  have "(edit ^^ length ys) [] ys"
  proof (induction ys)
    case (Cons y ys)
    have "edit ys (y # ys)" using edit.insert[of "[]" ys y] by simp
    then show ?case using Cons relpowp_Suc_I by fastforce
  qed simp
  then show ?case by simp
next
  case (2 x xs)
  have "(edit ^^ length zs) zs []" for zs :: "'a list"
  proof (induction zs)
    case (Cons z zs)
    have "edit (z # zs) zs" using edit.delete[of "[]" z zs] by simp
    then show ?case using Cons relpowp_Suc_I2 by fastforce
  qed simp
  from this[of "x # xs"] show ?case by simp
next
  case (3 x xs y ys)
  have 1: "(edit ^^ (lev_rev xs ys + (if x = y then 0 else 1))) (x # xs) (y # ys)"
  proof (cases "x = y")
    case True then show ?thesis using edits_Cons[OF "3.IH"(1)] by simp
  next
    case False
    have "edit (x # xs) (y # xs)" using edit.replace[of "[]" x xs y] by simp
    then show ?thesis using edits_Cons[OF "3.IH"(1), of y] False relpowp_Suc_I2 by fastforce
  qed
  have ed: "edit (x # xs) xs" "edit ys (y # ys)"
    using edit.delete[of "[]" x xs] edit.insert[of "[]" ys y] by simp_all
  have 2: "(edit ^^ (lev_rev xs (y # ys) + 1)) (x # xs) (y # ys)"
    using relpowp_Suc_I2[OF ed(1) "3.IH"(2)] by (simp only: Suc_eq_plus1)
  have 3: "(edit ^^ (lev_rev (x # xs) ys + 1)) (x # xs) (y # ys)"
    using relpowp_Suc_I[OF "3.IH"(3) ed(2)] by (simp only: Suc_eq_plus1)
  define A B C where "A = lev_rev xs ys + (if x = y then 0 else 1)"
    and "B = lev_rev xs (y # ys) + 1" and "C = lev_rev (x # xs) ys + 1"
  have "lev_rev (x # xs) (y # ys) = min (min A B) C" by (simp add: A_def B_def C_def)
  then have "lev_rev (x # xs) (y # ys) \<in> {A, B, C}" by (simp add: min_def)
  then show ?case
    using 1 2 3 unfolding A_def[symmetric] B_def[symmetric] C_def[symmetric] by (elim insertE emptyE) simp_all
qed

lemma lev_is_least: "(edit ^^ lev xs ys) xs ys" "(edit ^^ n) xs ys \<Longrightarrow> lev xs ys \<le> n"
proof -
  have rev: "(edit ^^ n) xs ys \<Longrightarrow> (edit ^^ n) (rev xs) (rev ys)" for n and xs ys :: "'a list"
    by (induction n arbitrary: ys) (auto intro: edit_rev)
  show "(edit ^^ lev xs ys) xs ys"
    using rev[OF lev_rev_edits[of "rev xs" "rev ys"]] by (simp add: lev_def)
  show "(edit ^^ n) xs ys \<Longrightarrow> lev xs ys \<le> n"
  proof (induction n arbitrary: xs)
    case 0 then show ?case by (simp add: lev_def)
  next
    case (Suc n)
    then obtain ws where ws: "edit xs ws" "(edit ^^ n) ws ys" by (metis relpowp_Suc_D2)
    then show ?case using lev_edit[OF ws(1), of ys] Suc.IH[OF ws(2)] by simp
  qed
qed

subsection \<open>The matrix\<close>

text \<open>\<open>cell q M i j\<close>: row \<open>i\<close> of the matrix for a query.  A cell is right when it agrees with the
  distance of a key to a prefix of the query, both cut off above the maximum.\<close>

definition cell :: "'c list \<Rightarrow> nat list \<Rightarrow> nat \<Rightarrow> nat \<Rightarrow> nat" where
  "cell q M i j = M ! ((length q + 1) * i + j)"

definition right :: "'c list \<Rightarrow> nat \<Rightarrow> nat list \<Rightarrow> 'c list \<Rightarrow> nat \<Rightarrow> bool" where
  "right q K M p j \<longleftrightarrow>
     cell q M (length p) j \<le> max (length p) j \<and>
     min (cell q M (length p) j) (K + 1) = min (lev p (take j q)) (K + 1)"

definition right_row :: "'c list \<Rightarrow> nat \<Rightarrow> nat list \<Rightarrow> 'c list \<Rightarrow> bool" where
  "right_row q K M p = (\<forall>j \<le> length q. right q K M p j)"

text \<open>What no branch changes: the first column, and the cells farther from the diagonal than the
  maximum, which keep the value the matrix was filled with.\<close>

definition framed :: "'c list \<Rightarrow> nat \<Rightarrow> nat list \<Rightarrow> bool" where
  "framed q K M \<longleftrightarrow>
     length M = (length q + 1 + K) * (length q + 1) \<and>
     (\<forall>i < length q + 1 + K. 0 < i \<longrightarrow> cell q M i 0 = i) \<and>
     (\<forall>i < length q + 1 + K. \<forall>j \<le> length q. 0 < i \<longrightarrow> 0 < j \<longrightarrow> j + K < i \<or> i + K < j \<longrightarrow> cell q M i j = K + 1)"

lemma index_inj:
  assumes "j < n" "j' < n"
  shows "n * i + j = n * i' + j' \<longleftrightarrow> i = i' \<and> j = (j' :: nat)"
proof
  assume eq: "n * i + j = n * i' + j'"
  have "(n * i + j) mod n = j" "(n * i' + j') mod n = j'" using assms by simp_all
  then have "j = j'" using eq by metis
  then show "i = i' \<and> j = j'" using eq assms by simp
qed simp

lemma index_less:
  assumes "i < m" "j < n"
  shows "n * i + j < m * (n :: nat)"
proof -
  have "n * i + j < n * (i + 1)" using assms(2) by simp
  also have "\<dots> \<le> n * m" using assms(1) by (intro mult_le_mono2) simp
  finally show ?thesis by (simp add: mult.commute)
qed

lemma cell_update:
  assumes "length M = m * (length q + 1)" "i < m" "j \<le> length q" "j' \<le> length q"
  shows "cell q (M[(length q + 1) * i + j := v]) i' j' = (if i' = i \<and> j' = j then v else cell q M i' j')"
  using index_inj[of j "length q + 1" j' i i'] index_less[of i m j "length q + 1"] assms
  by (auto simp: cell_def nth_list_update)

lemma cut_min:
  assumes "min a k = min a' (k :: nat)" "min b k = min b' k"
  shows "min (min a b) k = min (min a' b') k"
  using assms by (simp add: min_def split: if_splits)

lemma cut_add: "min a k = min a' (k :: nat) \<Longrightarrow> min (a + d) k = min (a' + d) k"
  by (simp add: min_def split: if_splits)

definition same_above :: "'c list \<Rightarrow> nat \<Rightarrow> nat list \<Rightarrow> nat list \<Rightarrow> bool" where
  "same_above q i M M' = (\<forall>i' < i. \<forall>j \<le> length q. cell q M' i' j = cell q M i' j)"

lemma right_row_above: "same_above q i M M' \<Longrightarrow> length p < i \<Longrightarrow> right_row q K M p \<Longrightarrow> right_row q K M' p"
  by (auto simp: right_row_def right_def same_above_def)

text \<open>The state of a row while it is computed: cells up to \<open>j\<close> are right, and the smallest distance
  is at most every one of them that is not out of reach.\<close>

definition row_state ::
  "'c list \<Rightarrow> nat \<Rightarrow> nat list \<Rightarrow> 'c list \<Rightarrow> nat \<Rightarrow> nat list \<times> nat option \<Rightarrow> bool" where
  "row_state q K M p j st \<longleftrightarrow>
     framed q K (fst st) \<and> same_above q (length p) M (fst st) \<and>
     (\<exists>d. snd st = Some d \<and>
       (\<forall>j' \<le> length q. j' \<le> j \<longrightarrow>
          right q K (fst st) p j' \<and> (d \<le> cell q (fst st) (length p) j' \<or> K < cell q (fst st) (length p) j')))"

lemma row_start:
  assumes "framed q K M" "0 < length p" "length p < length q + 1 + K"
  shows "row_state q K M p (length p - K - 1) (M, u8_get M ((length q + 1) * length p))"
proof -
  let ?i = "length p"
  have "(length q + 1) * ?i < length M"
    using assms(1,3) index_less[of ?i "length q + 1 + K" 0 "length q + 1"] by (simp add: framed_def)
  then have get: "u8_get M ((length q + 1) * ?i) = Some ?i"
    using assms by (auto simp: u8_get_def framed_def cell_def)
  have "right q K M p j \<and> (?i \<le> cell q M ?i j \<or> K < cell q M ?i j)"
    if "j \<le> length q" "j \<le> ?i - K - 1" for j
  proof (cases "j = 0")
    case True
    then show ?thesis using assms by (simp add: framed_def right_def)
  next
    case False
    then have far: "j + K < ?i" using that(2) by linarith
    then have c: "cell q M ?i j = K + 1" using assms that(1) False by (simp add: framed_def)
    have "?i \<le> lev p (take j q) + j" using lev_lower(1)[of p "take j q"] that(1) by simp
    then show ?thesis using far c by (simp add: right_def)
  qed
  then show ?thesis using assms(1) get by (simp add: row_state_def same_above_def)
qed

lemma row_step:
  assumes small: "length q + 1 + K < 256" and i: "Suc (length p) < length q + 1 + K"
    and prev: "right_row q K M p"
    and st: "row_state q K M (p @ [c]) j st"
    and j: "j < length q" "Suc (length p) \<le> j + K + 1" "j < Suc (length p) + K"
  shows "row_state q K M (p @ [c]) (Suc j) (fuzzy_cell q c (length q + 1) (Suc (length p)) st j)"
proof -
  let ?n = "length q + 1" let ?i = "Suc (length p)" let ?p = "p @ [c]"
  obtain M' d where st': "st = (M', Some d)" and framed: "framed q K M'" and same: "same_above q ?i M M'"
    and upto: "\<And>j'. j' \<le> length q \<Longrightarrow> j' \<le> j \<Longrightarrow>
      right q K M' ?p j' \<and> (d \<le> cell q M' ?i j' \<or> K < cell q M' ?i j')"
    using st by (cases st) (auto simp: row_state_def)
  have len: "length M' = (length q + 1 + K) * ?n" using framed by (simp add: framed_def)
  have get: "u8_get M' (?n * i' + j') = Some (cell q M' i' j')" if "i' \<le> ?i" "j' \<le> length q" for i' j'
    using that index_less[of i' "length q + 1 + K" j' ?n] i len by (simp add: u8_get_def cell_def)
  have prev': "right q K M' p j'" if "j' \<le> length q" for j'
    using right_row_above[OF same _ prev] that by (simp add: right_row_def)
  define a b e where "a = cell q M' (length p) j" and "b = cell q M' (length p) (Suc j)" and "e = cell q M' ?i j"
  define v where "v = min (min (a + (if c = q ! j then 0 else 1)) (b + 1)) (e + 1)"
  have reads: "u8_get M' (?n * ?i - ?n + j) = Some a" "u8_get M' (?n * ?i - ?n + j + 1) = Some b"
      "u8_get M' (?n * ?i + j) = Some e"
    using get[of "length p" j] get[of "length p" "Suc j"] get[of ?i j] j(1) by (simp_all add: a_def b_def e_def)
  have near: "a \<le> max (length p) j" "min a (K + 1) = min (lev p (take j q)) (K + 1)"
      "min b (K + 1) = min (lev p (take (Suc j) q)) (K + 1)" "min e (K + 1) = min (lev ?p (take j q)) (K + 1)"
    using prev'[of j] prev'[of "Suc j"] upto[of j] j(1) by (simp_all add: right_def a_def b_def e_def)
  have bound: "v \<le> max ?i (Suc j)" using near(1) by (auto simp: v_def)
  then have v256: "v mod 256 = v" using small i j(1) by simp
  have lev: "lev ?p (take (Suc j) q) = min (min (lev p (take j q) + (if c = q ! j then 0 else 1))
      (lev p (take (Suc j) q) + 1)) (lev ?p (take j q) + 1)"
    using lev_snoc[of p c "take j q" "q ! j"] j(1) by (simp add: take_Suc_conv_app_nth)
  have vlev: "min v (K + 1) = min (lev ?p (take (Suc j) q)) (K + 1)"
    unfolding lev v_def by (intro cut_min cut_add near)
  let ?M = "M'[?n * ?i + Suc j := v]" let ?d = "if v < d then v else d"
  have dist: "nan_min (nan_min (nan_add (Some a) (if c \<noteq> q ! j then 1 else 0)) (nan_add (Some b) 1)) (nan_add (Some e) 1) = Some v"
    by (simp add: nan_add_def nan_min_def v_def)
  have "fuzzy_cell q c ?n ?i st j =
      (u8_set M' (?n * ?i + j + 1) (Some v), if nan_less (Some v) (Some d) then Some v else Some d)"
    unfolding fuzzy_cell_def st' by (simp only: Let_def case_prod_conv reads dist)
  then have res: "fuzzy_cell q c ?n ?i st j = (?M, Some ?d)"
    by (simp add: u8_set_def nan_less_def v256)
  note upd = cell_update[OF len i, of "Suc j" _ v]
  have cells: "cell q ?M i' j' = (if i' = ?i \<and> j' = Suc j then v else cell q M' i' j')" if "j' \<le> length q" for i' j'
    using upd[of j' i'] that j(1) by simp
  have "framed q K ?M"
    unfolding framed_def using framed cells j(1,2,3) by (auto simp: framed_def)
  moreover have "same_above q ?i M ?M" using same cells by (simp add: same_above_def)
  moreover have "right q K ?M ?p j' \<and> (?d \<le> cell q ?M ?i j' \<or> K < cell q ?M ?i j')"
    if "j' \<le> length q" "j' \<le> Suc j" for j'
  proof (cases "j' = Suc j")
    case True
    then show ?thesis using cells[of j' ?i] that bound vlev by (simp add: right_def)
  next
    case False
    then have "j' \<le> j" using that by simp
    then show ?thesis using upto[OF that(1)] cells[OF that(1), of ?i] False by (auto simp: right_def)
  qed
  ultimately show ?thesis unfolding res row_state_def by simp
qed

text \<open>A whole row: its cells are right, the rows above are untouched, and a smallest distance above
  the maximum means that the key so far is far from every prefix of the query.\<close>

lemma right_far:
  assumes "right q K M p j"
  shows "K < cell q M (length p) j \<longleftrightarrow> K < lev p (take j q)"
    and "\<not> K < lev p (take j q) \<Longrightarrow> cell q M (length p) j = lev p (take j q)"
  using assms by (auto simp: right_def min_def split: if_splits)

lemma fuzzy_row_right:
  assumes small: "length q + 1 + K < 256" and i: "Suc (length p) < length q + 1 + K"
    and framed: "framed q K M" and prev: "right_row q K M p"
  obtains M' d where "fuzzy_row q K c (Suc (length p)) M = (M', Some d)" "framed q K M'"
    "same_above q (Suc (length p)) M M'" "right_row q K M' (p @ [c])"
    "K < d \<Longrightarrow> \<forall>j \<le> length q. K < lev (p @ [c]) (take j q)"
proof -
  let ?i = "Suc (length p)" let ?p = "p @ [c]" let ?n = "length q + 1"
  let ?lo = "?i - K - 1" and ?hi = "min (?n - 1) (?i + K)"
  let ?st = "\<lambda>j. foldl (fuzzy_cell q c ?n ?i) (M, u8_get M (?n * ?i)) [?lo..<j]"
  have start: "row_state q K M ?p ?lo (?st ?lo)"
    using row_start[OF framed, of ?p] i by simp
  have "?lo \<le> j \<Longrightarrow> j \<le> ?hi \<Longrightarrow> row_state q K M ?p j (?st j)" for j
  proof (induction j)
    case (Suc j)
    show ?case
    proof (cases "?lo = Suc j")
      case True then show ?thesis using start by metis
    next
      case False
      then have "?lo \<le> j" "j < length q" "?i \<le> j + K + 1" "j < ?i + K" using Suc.prems by linarith+
      then show ?thesis
        using row_step[OF small i prev Suc.IH] Suc.prems by simp
    qed
  qed (use start in simp)
  note steps = this
  have "row_state q K M ?p (max ?lo ?hi) (?st ?hi)"
  proof (cases "?lo \<le> ?hi")
    case True
    then have "max ?lo ?hi = ?hi" by simp
    then show ?thesis using steps[OF True order_refl] by metis
  next
    case False
    then have "?hi \<le> ?lo" by linarith
    then have "max ?lo ?hi = ?lo" "?st ?hi = ?st ?lo" by (simp_all only: max_absorb1 upt_conv_Nil order_refl)
    then show ?thesis using start by metis
  qed
  then obtain M' d where st: "?st ?hi = (M', Some d)" "framed q K M'" "same_above q ?i M M'"
    and upto: "\<And>j. j \<le> length q \<Longrightarrow> j \<le> max ?lo ?hi \<Longrightarrow>
      right q K M' ?p j \<and> (d \<le> cell q M' ?i j \<or> K < cell q M' ?i j)"
    by (cases "?st ?hi") (auto simp: row_state_def)
  have all: "right q K M' ?p j \<and> (d \<le> cell q M' ?i j \<or> K < cell q M' ?i j)" if "j \<le> length q" for j
  proof (cases "j \<le> max ?lo ?hi")
    case True then show ?thesis using upto that by simp
  next
    case False
    then have far: "?i + K < j" using that by linarith
    then have "cell q M' ?i j = K + 1" using st(2) i that by (simp add: framed_def)
    moreover have "j \<le> lev ?p (take j q) + ?i" using lev_lower(2)[of "take j q" ?p] that by simp
    ultimately show ?thesis using far by (simp add: right_def)
  qed
  show ?thesis
  proof (rule that)
    show "fuzzy_row q K c ?i M = (M', Some d)" using st(1) by (simp add: fuzzy_row_def)
    show "right_row q K M' ?p" using all by (simp add: right_row_def)
    show "\<forall>j \<le> length q. K < lev ?p (take j q)" if "K < d"
      using all that right_far(1)[of q K M' ?p] by fastforce
  qed (use st in auto)
qed

lemma far_extends:
  assumes "\<forall>j \<le> length q. K < lev p (take j q)"
  shows "K < lev (p @ s) q"
proof -
  have "\<forall>j \<le> length q. K < lev (p @ s) (take j q)"
  proof (induction s rule: rev_induct)
    case (snoc c s)
    have "K < lev (p @ s @ [c]) (take j q)" if "j \<le> length q" for j
      using that
    proof (induction j)
      case 0
      have "K < lev (p @ s) (take 0 q)" using snoc by blast
      then show ?case by simp
    next
      case (Suc j)
      have "K < lev (p @ s) (take j q)" "K < lev (p @ s) (take (Suc j) q)" using snoc Suc.prems by auto
      then show ?case
        using Suc lev_snoc[of "p @ s" c "take j q" "q ! j"] by (simp add: take_Suc_conv_app_nth)
    qed
    then show ?case by simp
  qed (use assms in simp)
  then show ?thesis by (metis order_refl take_all)
qed

subsection \<open>The tree\<close>

text \<open>While the search stands at key \<open>p\<close>, the rows of its prefixes are right, as far as there are rows.\<close>

definition at_key :: "'c list \<Rightarrow> nat \<Rightarrow> nat list \<Rightarrow> 'c list \<Rightarrow> bool" where
  "at_key q K M p \<longleftrightarrow> framed q K M \<and>
     (\<forall>i \<le> length p. i < length q + 1 + K \<longrightarrow> right_row q K M (take i p))"

lemma at_key_above:
  assumes "at_key q K M p" "framed q K M'" "same_above q i M M'" "length p < i"
  shows "at_key q K M' p"
  using assms by (auto simp: at_key_def intro: right_row_above)

lemma same_above_trans: "same_above q i M M' \<Longrightarrow> same_above q i' M' M'' \<Longrightarrow> i \<le> i' \<Longrightarrow> same_above q i M M''"
  by (simp add: same_above_def)

text \<open>A row past the matrix changes nothing and prunes nothing.\<close>

lemma fuzzy_row_past:
  assumes "framed q K M" "length q + 1 + K \<le> i"
  shows "fuzzy_row q K c i M = (M, None)"
proof -
  have "length M \<le> (length q + 1) * i"
    using assms(1) mult_le_mono2[OF assms(2), of "length q + 1"] by (simp only: framed_def mult.commute)
  then have get: "u8_get M ((length q + 1) * i) = None" by (simp add: u8_get_def)
  have none: "[i - K - 1..<min (length q + 1 - 1) (i + K)] = []" using assms(2) by (intro upt_conv_Nil) simp
  show ?thesis unfolding fuzzy_row_def Let_def get none by simp
qed

lemma fuzzy_key_right:
  assumes small: "length q + 1 + K < 256" and "at_key q K M p"
  shows "case fuzzy_key q K key (length p + 1) M of
      (M', Some i) \<Rightarrow> i = length (p @ key) + 1 \<and> at_key q K M' (p @ key) \<and> same_above q (length p + 1) M M'
    | (M', None) \<Rightarrow> framed q K M' \<and> same_above q (length p + 1) M M' \<and> (\<forall>s. K < lev (p @ key @ s) q)"
  using assms(2)
proof (induction key arbitrary: p M)
  case Nil
  then show ?case by (simp add: same_above_def)
next
  case (Cons c key)
  let ?i = "length p + 1" let ?p = "p @ [c]"
  have framed: "framed q K M" using Cons.prems by (simp add: at_key_def)
  show ?case
  proof (cases "?i < length q + 1 + K")
    case True
    have prev: "right_row q K M p" using Cons.prems True by (auto simp: at_key_def dest!: spec[of _ "length p"])
    obtain M' d where row: "fuzzy_row q K c ?i M = (M', Some d)" "framed q K M'" "same_above q ?i M M'"
        "right_row q K M' ?p" "K < d \<Longrightarrow> \<forall>j \<le> length q. K < lev ?p (take j q)"
      using fuzzy_row_right[OF small _ framed prev] True by (metis Suc_eq_plus1)
    show ?thesis
    proof (cases "K < d")
      case far: True
      have "K < lev (?p @ key @ s) q" for s using far_extends row(5)[OF far] by blast
      then show ?thesis using far row(1-3) by (simp add: nan_less_def)
    next
      case False
      have at: "at_key q K M' ?p"
        unfolding at_key_def
      proof (intro conjI allI impI)
        fix i assume i: "i \<le> length ?p" "i < length q + 1 + K"
        show "right_row q K M' (take i ?p)"
        proof (cases "i = ?i")
          case True then show ?thesis using row(4) by simp
        next
          case False
          then have "right_row q K M (take i p)" using Cons.prems i by (simp add: at_key_def)
          then show ?thesis using right_row_above[OF row(3)] i False by simp
        qed
      qed (rule row)
      have "fuzzy_key q K (c # key) ?i M = fuzzy_key q K key (length ?p + 1) M'"
        using False row(1) by (simp add: nan_less_def)
      then show ?thesis
        using Cons.IH[OF at] same_above_trans[OF row(3), of _ _ ]
        by (auto split: prod.splits option.splits)
    qed
  next
    case past: False
    have "fuzzy_row q K c ?i M = (M, None)" using fuzzy_row_past[OF framed] past by simp
    then have step: "fuzzy_key q K (c # key) ?i M = fuzzy_key q K key (length ?p + 1) M"
      by (simp add: nan_less_def)
    have at: "at_key q K M ?p" using Cons.prems past by (auto simp: at_key_def)
    show ?thesis
      unfolding step using Cons.IH[OF at] by (auto simp: same_above_def split: prod.splits option.splits)
  qed
qed

text \<open>The results a set of entries gives below a key.\<close>

definition hits ::
  "'c list \<Rightarrow> nat \<Rightarrow> 'c list \<Rightarrow> ('c list \<times> 'v) set \<Rightarrow> ('c list \<times> 'v \<times> nat) set" where
  "hits q K p S = {(p @ k, v, lev (p @ k) q) |k v. (k, v) \<in> S \<and> lev (p @ k) q \<le> K}"

lemma hits_simps:
  "hits q K p (S \<union> T) = hits q K p S \<union> hits q K p T"
  "hits q K p (below k S) = hits q K (p @ k) S"
  "hits q K p {} = {}"
  by (force simp: hits_def below_def)+

lemma leaf_hit:
  assumes "at_key q K M p"
  shows "(case u8_get M ((length p + 1) * (length q + 1) - 1) of
            Some d \<Rightarrow> if d \<le> K then Some d else None | None \<Rightarrow> None)
         = (if lev p q \<le> K then Some (lev p q) else None)"
proof -
  have idx: "(length p + 1) * (length q + 1) - 1 = (length q + 1) * length p + length q" by simp
  have len: "length M = (length q + 1 + K) * (length q + 1)" using assms by (simp add: at_key_def framed_def)
  show ?thesis
  proof (cases "length p < length q + 1 + K")
    case True
    then have "right_row q K M p" using assms by (auto simp: at_key_def dest!: spec[of _ "length p"])
    then have "right q K M p (length q)" by (simp add: right_row_def)
    then have "K < cell q M (length p) (length q) \<longleftrightarrow> K < lev p q"
        "\<not> K < lev p q \<Longrightarrow> cell q M (length p) (length q) = lev p q"
      using right_far by fastforce+
    moreover have "u8_get M ((length q + 1) * length p + length q) = Some (cell q M (length p) (length q))"
      using index_less[OF True, of "length q" "length q + 1"] len by (simp add: u8_get_def cell_def)
    ultimately show ?thesis unfolding idx by (auto simp: not_le)
  next
    case False
    then have "K < lev p q" using lev_lower(1)[of p q] by linarith
    moreover have "length M \<le> (length q + 1) * length p"
      using False mult_le_mono2[of "length q + 1 + K" "length p" "length q + 1"] by (simp only: len mult.commute not_less)
    then have "u8_get M ((length q + 1) * length p + length q) = None" unfolding u8_get_def by simp
    ultimately show ?thesis unfolding idx by simp
  qed
qed

lemma update_fresh: "k \<notin> fst ` set al \<Longrightarrow> AList.update k v al = al @ [(k, v)]"
  by (induction al) auto

definition fresh_for :: "'c list \<Rightarrow> ('c list \<times> 'v) set \<Rightarrow> ('c, 'v) fuzzy_results \<Rightarrow> bool" where
  "fresh_for p S res \<longleftrightarrow> (\<forall>k v. (k, v) \<in> S \<longrightarrow> p @ k \<notin> fst ` set res)"

definition searched ::
  "'c list \<Rightarrow> nat \<Rightarrow> 'c list \<Rightarrow> ('c list \<times> 'v) set \<Rightarrow> nat list \<times> ('c, 'v) fuzzy_results
   \<Rightarrow> nat list \<times> ('c, 'v) fuzzy_results \<Rightarrow> bool" where
  "searched q K p S st st' \<longleftrightarrow>
     at_key q K (fst st') p \<and> same_above q (length p + 1) (fst st) (fst st') \<and>
     (distinct (map fst (snd st)) \<longrightarrow> distinct (map fst (snd st'))) \<and>
     set (snd st') = set (snd st) \<union> hits q K p S"

lemma wf_entries_tail:
  assumes "wf_node (Node (e # es))"
  shows "wf_node (Node es)"
  using assms by (auto simp: wf_node_iff)

lemma wf_entries_disjoint:
  assumes "wf_node (Node (e # es))" "(k, v) \<in> out e"
  shows "(k, v') \<notin> \<Union> (out ` set es)"
proof
  assume "(k, v') \<in> \<Union> (out ` set es)"
  then obtain e' where e': "e' \<in> set es" "(k, v') \<in> out e'" by auto
  have "fst e \<noteq> fst e'"
    using wf_distinct[OF assms(1)] e'(1) by auto
  then show False
    using out_disjoint[OF assms(1), of "fst e" "snd e" "fst e'" "snd e'"] assms(2) e' by simp
qed

lemma searched_step:
  assumes wf: "wf_node (Node (e # es))" and fresh: "fresh_for p (\<Union> (out ` set (e # es))) (snd st)"
    and one: "searched q K p (out e) st st1"
    and rest: "fresh_for p (\<Union> (out ` set es)) (snd st1) \<Longrightarrow> searched q K p (\<Union> (out ` set es)) st1 st2"
  shows "searched q K p (\<Union> (out ` set (e # es))) st st2"
proof -
  have "fresh_for p (\<Union> (out ` set es)) (snd st1)"
    unfolding fresh_for_def
  proof (intro allI impI notI)
    fix k v assume kv: "(k, v) \<in> \<Union> (out ` set es)" "p @ k \<in> fst ` set (snd st1)"
    then have "p @ k \<in> fst ` hits q K p (out e)"
      using one fresh unfolding searched_def fresh_for_def by (auto simp: image_Un)
    then obtain v' where "(k, v') \<in> out e" by (auto simp: hits_def)
    then show False using wf_entries_disjoint[OF wf] kv(1) by blast
  qed
  from rest[OF this] show ?thesis
    using one by (auto simp: searched_def hits_simps same_above_def)
qed

lemma searched_leaf:
  assumes "at_key q K (fst st) p" and "p \<notin> fst ` set (snd st)"
  shows "searched q K p {([], v)} st
    (fst st, case u8_get (fst st) ((length p + 1) * (length q + 1) - 1) of
          Some d \<Rightarrow> if d \<le> K then AList.update p (v, d) (snd st) else snd st | None \<Rightarrow> snd st)"
    (is "searched q K p _ st (_, ?res)")
proof -
  have "?res = (if lev p q \<le> K then snd st @ [(p, v, lev p q)] else snd st)"
    using leaf_hit[OF assms(1)] update_fresh[OF assms(2)] by (auto split: option.splits if_splits)
  moreover have "hits q K p {([], v)} = (if lev p q \<le> K then {(p, v, lev p q)} else {})"
    by (auto simp: hits_def)
  ultimately show ?thesis using assms by (simp add: searched_def same_above_def)
qed

theorem fuzzy_entries_right:
  assumes "length q + 1 + K < 256" "wf_node (Node es)" "at_key q K (fst st) p"
    and "fresh_for p (\<Union> (out ` set es)) (snd st)" "m = length p + 1"
  shows "searched q K p (\<Union> (out ` set es)) st (fuzzy_entries q K es m p st)"
  using assms
proof (induction q K es m p st rule: fuzzy_entries.induct)
  case (1 q K m p st)
  then show ?case by (simp add: searched_def hits_simps same_above_def)
next
  case (2 q K key v es m p st)
  let ?st = "(fst st, case u8_get (fst st) (m * (length q + 1) - 1) of
          Some d \<Rightarrow> if d \<le> K then AList.update p (v, d) (snd st) else snd st | None \<Rightarrow> snd st)"
  have key: "key = []" using "2.prems"(2) by (simp add: wf_node_iff)
  then have "p \<notin> fst ` set (snd st)" using "2.prems"(4) by (auto simp: fresh_for_def)
  then have leaf: "searched q K p (out (key, Inl v)) st ?st"
    using searched_leaf[OF "2.prems"(3)] "2.prems"(5) key by simp
  then have "at_key q K (fst ?st) p" by (simp add: searched_def)
  from searched_step[OF "2.prems"(2,4) leaf "2.IH"[OF "2.prems"(1) wf_entries_tail[OF "2.prems"(2)] this _ "2.prems"(5)]]
  show ?case by (simp only: fuzzy_entries.simps)
next
  case (3 q K key t es m p st)
  have t: "wf_node t" using "3.prems"(2) by (auto simp: wf_node_iff)
  then have tn: "wf_node (Node (node_entries t))" by simp
  have conts: "\<Union> (out ` set (node_entries t)) = set (contents t)"
    using set_contents[of "node_entries t"] by simp
  have fr: "fresh_for (p @ key) (set (contents t)) (snd st)"
    using "3.prems"(4) by (auto simp: fresh_for_def)
  obtain M r where walk: "fuzzy_key q K key m (fst st) = (M, r)" by (cases "fuzzy_key q K key m (fst st)")
  note right = fuzzy_key_right[OF "3.prems"(1,3), of key, folded "3.prems"(5), unfolded walk]
  show ?case
  proof (cases r)
    case None
    then have far: "framed q K M" "same_above q m (fst st) M" "\<forall>s. K < lev (p @ key @ s) q"
      using right by auto
    then have "hits q K p (out (key, Inr t)) = {}"
      by (simp add: hits_simps) (force simp: hits_def not_le)
    moreover have at: "at_key q K M p" using at_key_above[OF "3.prems"(3) far(1,2)] "3.prems"(5) by simp
    ultimately have one: "searched q K p (out (key, Inr t)) st (M, snd st)"
      using far "3.prems"(5) by (simp add: searched_def)
    have "searched q K p (\<Union> (out ` set es)) (M, snd st) (fuzzy_entries q K es m p (M, snd st))"
      if "fresh_for p (\<Union> (out ` set es)) (snd (M, snd st))"
      using "3.IH"(1)[OF walk[symmetric] None] "3.prems" wf_entries_tail[OF "3.prems"(2)] at that by simp
    from searched_step[OF "3.prems"(2,4) one this] show ?thesis by (simp add: walk None)
  next
    case (Some i)
    then have near: "i = length (p @ key) + 1" "at_key q K M (p @ key)" "same_above q m (fst st) M"
      using right by auto
    let ?st = "fuzzy_entries q K (node_entries t) i (p @ key) (M, snd st)"
    have "searched q K (p @ key) (set (contents t)) (M, snd st) ?st"
      using "3.IH"(2)[OF walk[symmetric] Some "3.prems"(1) tn] near fr conts by simp
    then have inner: "at_key q K (fst ?st) (p @ key)" "same_above q i M (fst ?st)"
        "distinct (map fst (snd st)) \<longrightarrow> distinct (map fst (snd ?st))"
        "set (snd ?st) = set (snd st) \<union> hits q K (p @ key) (set (contents t))"
      unfolding searched_def near(1) by simp_all
    have same: "same_above q m (fst st) (fst ?st)"
      using same_above_trans[OF near(3) inner(2)] near(1) "3.prems"(5) by simp
    have at: "at_key q K (fst ?st) p"
      using at_key_above[OF "3.prems"(3) _ same] inner(1) "3.prems"(5) by (simp add: at_key_def)
    then have one: "searched q K p (out (key, Inr t)) st ?st"
      using inner same "3.prems"(5) by (simp add: searched_def hits_simps)
    have "searched q K p (\<Union> (out ` set es)) ?st (fuzzy_entries q K es m p ?st)"
      if "fresh_for p (\<Union> (out ` set es)) (snd ?st)"
      using "3.IH"(3)[OF walk[symmetric] Some "3.prems"(1) wf_entries_tail[OF "3.prems"(2)] at that "3.prems"(5)] .
    from searched_step[OF "3.prems"(2,4) one this] show ?thesis by (simp add: walk Some)
  qed
qed

subsection \<open>The start\<close>

lemma first_row:
  "length (foldl (\<lambda>M j. u8_set M j (Some j)) M [0..<n]) = length M"
  "i < length M \<Longrightarrow> foldl (\<lambda>M j. u8_set M j (Some j)) M [0..<n] ! i = (if i < n then i mod 256 else M ! i)"
  by (induction n) (auto simp: u8_set_def nth_list_update less_Suc_eq)

lemma first_column:
  assumes "0 < n"
  shows "length (foldl (\<lambda>M i. u8_set M (i * n) (Some i)) M [1..<m]) = length M"
    and "k < length M \<Longrightarrow> foldl (\<lambda>M i. u8_set M (i * n) (Some i)) M [1..<m] ! k =
      (if k mod n = 0 \<and> 1 \<le> k div n \<and> k div n < m then k div n mod 256 else M ! k)"
proof -
  let ?f = "\<lambda>M i. u8_set M (i * n) (Some i)"
  show len: "length (foldl ?f M [1..<m]) = length M" for m by (induction m) (auto simp: u8_set_def)
  show "k < length M \<Longrightarrow> foldl ?f M [1..<m] ! k =
      (if k mod n = 0 \<and> 1 \<le> k div n \<and> k div n < m then k div n mod 256 else M ! k)"
  proof (induction m)
    case (Suc m)
    have at: "k = m * n \<longleftrightarrow> k mod n = 0 \<and> k div n = m"
      using assms by (auto simp: mult.commute dest: sym)
    show ?case
    proof (cases "1 \<le> m")
      case True
      then have "foldl ?f M [1..<Suc m] = (foldl ?f M [1..<m])[m * n := m mod 256]" by (simp add: u8_set_def)
      then show ?thesis using Suc at len[of m] True by (auto simp: nth_list_update)
    qed auto
  qed simp
qed

lemma fuzzy_matrix_nth:
  assumes "i < n + K" "j < n"
  shows "fuzzy_matrix n K ! (n * i + j) =
      (if i = 0 then j mod 256 else if j = 0 then i mod 256 else (K + 1) mod 256)"
proof -
  have n: "0 < n" using assms(2) by simp
  have k: "n * i + j < (n + K) * n" using index_less[OF assms] .
  have "(n * i + j) mod n = j" "(n * i + j) div n = i" using assms(2) by simp_all
  moreover have "n * i + j < n \<longleftrightarrow> i = 0" using assms(2) by (cases i) auto
  ultimately show ?thesis
    using k assms unfolding fuzzy_matrix_def Let_def
    by (subst first_column(2)[OF n]) (auto simp: first_row)
qed

lemma length_fuzzy_matrix: "0 < n \<Longrightarrow> length (fuzzy_matrix n K) = (n + K) * n"
  unfolding fuzzy_matrix_def Let_def by (subst first_column(1)) (simp_all add: first_row)

lemma fuzzy_matrix_start:
  assumes "length q + 1 + K < 256"
  shows "at_key q K (fuzzy_matrix (length q + 1) K) []"
proof -
  let ?M = "fuzzy_matrix (length q + 1) K"
  have c: "cell q ?M i j = (if i = 0 then j else if j = 0 then i else K + 1)"
    if "i < length q + 1 + K" "j \<le> length q" for i j
    using fuzzy_matrix_nth[of i "length q + 1" K j] that assms by (simp add: cell_def)
  have "framed q K ?M"
    using c length_fuzzy_matrix[of "length q + 1" K] by (simp add: framed_def)
  moreover have "right_row q K ?M []"
    using c[of 0] by (simp add: right_row_def right_def)
  ultimately show ?thesis by (simp add: at_key_def)
qed

theorem fuzzy_search_right:
  assumes "length q + 1 + K < 256" and "wf_node t"
  shows "distinct (map fst (fuzzy_search t q K))"
    and "set (fuzzy_search t q K) = {(k, v, lev k q) |k v. (k, v) \<in> set (contents t) \<and> lev k q \<le> K}"
proof -
  let ?st = "(fuzzy_matrix (length q + 1) K, [])"
  have "searched q K [] (\<Union> (out ` set (node_entries t))) ?st (fuzzy_entries q K (node_entries t) 1 [] ?st)"
    using fuzzy_entries_right[OF assms(1), of "node_entries t" ?st "[]" 1] assms fuzzy_matrix_start[OF assms(1)]
    by (simp add: fresh_for_def)
  moreover have "\<Union> (out ` set (node_entries t)) = set (contents t)"
    using set_contents[of "node_entries t"] by simp
  ultimately show "distinct (map fst (fuzzy_search t q K))"
    "set (fuzzy_search t q K) = {(k, v, lev k q) |k v. (k, v) \<in> set (contents t) \<and> lev k q \<le> K}"
    by (simp_all add: searched_def fuzzy_search_def hits_def)
qed

lemma lev_Least: "lev xs ys = (LEAST n. (edit ^^ n) xs ys)"
  by (rule Least_equality[symmetric]) (rule lev_is_least, assumption?)+

text \<open>
  C27.  \<open>fuzzyGet\<close> returns exactly the entries of the map within the given edit distance of the query,
  each key once, with the least number of insertions, deletions and replacements that turn the key
  into the query.  This holds as long as the length of the query plus the distance plus one is
  below 256, the range of a byte of the matrix.
\<close>

theorem fuzzy_get_levenshtein:
  assumes "length q + 1 + K < 256" and "wf_node (sm_tree m)"
  shows "distinct (map fst (fuzzy_get m q K)) \<and>
    ((k, v, d) \<in> set (fuzzy_get m q K) \<longleftrightarrow>
       sm_get m k = Some v \<and> d \<le> K \<and> d = (LEAST n. (edit ^^ n) k q))"
  using fuzzy_search_right[OF assms] get_node_iff[OF assms(2), of k v]
  by (auto simp: fuzzy_get_def sm_get_node lev_Least[symmetric])

lemma fuzzy_get_levenshtein_witness:
  "(''hello'', 7 :: nat, 1) \<in> set (fuzzy_get (sm_set ''hello'' 7 (new_smap (Node []) [])) ''hallo'' 2)"
proof -
  have "lev ''hello'' ''hallo'' = 1" by code_simp
  then show ?thesis
    using fuzzy_get_levenshtein[of "''hallo''" 2 "sm_set ''hello'' 7 (new_smap (Node []) [])" "''hello''" "7 :: nat" 1]
    by (simp add: radix_one lev_Least[symmetric])
qed

subsection \<open>The empty key and queries of any length\<close>

lemma u8_set_other: "i \<noteq> k \<Longrightarrow> u8_get (u8_set M k v) i = u8_get M i"
  by (simp add: u8_get_def u8_set_def)

text \<open>A row below the first leaves the first one alone, wherever its numbers wrap around.\<close>

lemma fuzzy_row_first:
  assumes "0 < i"
  shows "u8_get (fst (fuzzy_row q K c i M)) (length q) = u8_get M (length q)"
proof -
  have "length q + 1 \<le> (length q + 1) * i" using assms by (cases i) simp_all
  then have below: "length q \<noteq> (length q + 1) * i + j + 1" for j by linarith
  have cell: "u8_get (fst (fuzzy_cell q c (length q + 1) i st j)) (length q) = u8_get (fst st) (length q)" for st j
    by (cases st) (simp only: fuzzy_cell_def Let_def split fst_conv u8_set_other[OF below])
  have "u8_get (fst (foldl (fuzzy_cell q c (length q + 1) i) st js)) (length q) = u8_get (fst st) (length q)" for st js
    by (induction js arbitrary: st) (simp_all add: cell del: One_nat_def add_Suc_right)
  then show ?thesis by (simp add: fuzzy_row_def Let_def del: One_nat_def add_Suc_right)
qed

lemma fuzzy_key_first:
  "0 < i \<Longrightarrow> u8_get (fst (fuzzy_key q K key i M)) (length q) = u8_get M (length q) \<and>
     (\<forall>i'. snd (fuzzy_key q K key i M) = Some i' \<longrightarrow> i \<le> i')"
proof (induction key arbitrary: i M)
  case (Cons c key)
  obtain M' d where row: "fuzzy_row q K c i M = (M', d)" by (cases "fuzzy_row q K c i M")
  have "u8_get M' (length q) = u8_get M (length q)" using fuzzy_row_first[OF Cons.prems, of q K c M] row by simp
  then show ?case using Cons.IH[of "i + 1" M'] by (auto simp: row)
qed simp

lemma fuzzy_entries_first:
  "0 < m \<Longrightarrow> u8_get (fst (fuzzy_entries q K es m pre st)) (length q) = u8_get (fst st) (length q) \<and>
     (pre \<noteq> [] \<longrightarrow> map_of (snd (fuzzy_entries q K es m pre st)) [] = map_of (snd st) [])"
proof (induction q K es m pre st rule: fuzzy_entries.induct)
  case (3 q K key t es m pre st)
  obtain M r where walk: "fuzzy_key q K key m (fst st) = (M, r)" by (cases "fuzzy_key q K key m (fst st)")
  note row = fuzzy_key_first[OF "3.prems", of q K key "fst st", unfolded walk]
  show ?case
  proof (cases r)
    case None
    then show ?thesis using "3.IH"(1)[OF walk[symmetric] None "3.prems"] row by (simp add: walk)
  next
    case (Some i)
    then have "0 < i" using row "3.prems" by auto
    then show ?thesis
      using "3.IH"(2)[OF walk[symmetric] Some] "3.IH"(3)[OF walk[symmetric] Some "3.prems"] row Some
      by (simp add: walk)
  qed
qed (auto simp: update_conv' split: option.splits)

lemma fuzzy_entries_distinct:
  "distinct (map fst (snd st)) \<Longrightarrow> distinct (map fst (snd (fuzzy_entries q K es m pre st)))"
  by (induction q K es m pre st rule: fuzzy_entries.induct)
    (auto simp: distinct_update split: option.splits prod.splits)

text \<open>At the root the empty key is measured by the last cell of the first row.\<close>

lemma fuzzy_entries_root:
  assumes "wf_node (Node es)" "u8_get (fst st) (length q) = Some d"
  shows "map_of (snd (fuzzy_entries q K es 1 [] st)) [] =
    (case leaf_value es of Some v \<Rightarrow> if d \<le> K then Some (v, d) else map_of (snd st) [] | None \<Rightarrow> map_of (snd st) [])"
  using assms
proof (induction es arbitrary: st)
  case (Cons e es)
  obtain key x where e: "e = (key, x)" by (cases e)
  note tail = wf_entries_tail[OF Cons.prems(1)]
  show ?case
  proof (cases x)
    case (Inl v)
    then have key: "key = []" using Cons.prems(1) e by (simp add: wf_node_iff)
    then have "leaf_value es = None"
      using wf_distinct[OF Cons.prems(1)] e by (auto simp: leaf_value_def map_of_eq_None_iff[symmetric] split: option.splits)
    then show ?thesis using Cons.IH[OF tail] Cons.prems(2) by (simp add: e key Inl leaf_value_def update_conv')
  next
    case (Inr t)
    then have key: "key \<noteq> []" using Cons.prems(1) e by (auto simp: wf_node_iff)
    obtain M r where walk: "fuzzy_key q K key 1 (fst st) = (M, r)" by (cases "fuzzy_key q K key 1 (fst st)")
    note row = fuzzy_key_first[of 1 q K key "fst st", unfolded walk]
    let ?st = "case r of None \<Rightarrow> (M, snd st)
      | Some i \<Rightarrow> fuzzy_entries q K (node_entries t) i key (M, snd st)"
    have "fuzzy_entries q K (e # es) 1 [] st = fuzzy_entries q K es 1 [] ?st"
      by (cases r) (simp_all only: e Inr fuzzy_entries.simps walk split prod.case option.case append_Nil)
    moreover have "u8_get (fst ?st) (length q) = Some d" "map_of (snd ?st) [] = map_of (snd st) []"
      using row key Cons.prems(2) fuzzy_entries_first[of _ q K "node_entries t" key "(M, snd st)"]
      by (auto split: option.split)
    moreover have "leaf_value (e # es) = leaf_value es" using key by (simp add: leaf_value_def e)
    ultimately show ?thesis by (simp only: Cons.IH[OF tail])
  qed
qed (simp add: leaf_value_def)

text \<open>
  C28.  The bound on the query is needed.  Whatever the length of the query, the empty key is reported
  with that length modulo 256, where its distance is the length itself: the first row of the matrix is
  the numbers up to the length as bytes.  So a query of 256 characters matches the empty key exactly.
\<close>

theorem fuzzy_get_wraps:
  assumes "wf_node (sm_tree m)"
  shows "([], v, d) \<in> set (fuzzy_get m q K) \<longleftrightarrow>
    sm_get m [] = Some v \<and> d \<le> K \<and> d = (LEAST n. (edit ^^ n) [] q) mod 256"
proof -
  obtain es where es: "sm_tree m = Node es" by (cases "sm_tree m")
  let ?M = "fuzzy_matrix (length q + 1) K" and ?r = "fuzzy_get m q K"
  have leaf: "sm_get m [] = leaf_value es" by (simp add: sm_get_def es lookup.simps)
  have "u8_get ?M (length q) = Some (length q mod 256)"
    using fuzzy_matrix_nth[of 0 "length q + 1" K "length q"] length_fuzzy_matrix[of "length q + 1" K]
    by (simp add: u8_get_def)
  then have root: "u8_get (fst (?M, [] :: ('a, 'b) fuzzy_results)) (length q) = Some (length q mod 256)" by simp
  have "map_of ?r [] = (case sm_get m [] of
      Some v \<Rightarrow> if length q mod 256 \<le> K then Some (v, length q mod 256) else None | None \<Rightarrow> None)"
    using fuzzy_entries_root[OF assms[unfolded es] root, of K] leaf
    by (simp add: fuzzy_get_def fuzzy_search_def es split: option.split)
  moreover have "distinct (map fst ?r)"
    unfolding fuzzy_get_def fuzzy_search_def by (rule fuzzy_entries_distinct) simp
  then have "([], v, d) \<in> set ?r \<longleftrightarrow> map_of ?r [] = Some (v, d)" by simp
  moreover have "(LEAST n. (edit ^^ n) [] q) = length q" unfolding lev_Least[symmetric] by simp
  ultimately show ?thesis by (auto split: option.splits)
qed

lemma fuzzy_get_wraps_witness:
  "([], True, 0) \<in> set (fuzzy_get (sm_set [] True (new_smap (Node []) [])) (replicate 256 CHR ''a'') 1)"
  using fuzzy_get_wraps[of "sm_set [] True (new_smap (Node []) [])" True 0 "replicate 256 CHR ''a''" 1]
  by (simp add: radix_one lev_Least[symmetric])

end
