(* ===== verification/MiniIndex.thy ===== *)
theory MiniIndex
  imports FuzzySearch
begin

text \<open>
  The search index of \<open>minisearch\<close>: documents added, removed, discarded, and vacuumed.  The tokenizer,
  the term processor and the accessors of a document are options, so they are parameters; a value of
  a document is \<open>undefined\<close>, \<open>null\<close> or present.  A JavaScript \<open>Map\<close> is an association list, a number of
  documents an integer, an average a real number, \<open>None\<close> while it is \<open>undefined\<close> or after it became
  \<open>NaN\<close>; each step that updates an average is rounded to a double.  Calls of the logger are left out.
\<close>

datatype 'f field_value = Undefined | Null | Present 'f

definition present :: "'f field_value \<Rightarrow> 'f option" where
  "present v = (case v of Present x \<Rightarrow> Some x | _ \<Rightarrow> None)"

text \<open>What \<open>processTerm\<close> returns: an array, a string, or a falsy value.\<close>

datatype processed = Terms "string list" | OneTerm string | Dropped

definition processed_terms :: "processed \<Rightarrow> string list" where
  "processed_terms p = (case p of Terms ts \<Rightarrow> ts | OneTerm t \<Rightarrow> if t = [] then [] else [t] | Dropped \<Rightarrow> [])"

datatype ms_error =
    MissingId string
  | DuplicateId
  | UnknownId
  | InvalidOperator string
  | IncompatibleVersion nat
  | FieldsMissing
  | TypeError

record conditions =
  min_dirt_factor :: real
  min_dirt_count :: nat

record ('d, 'f) options =
  op_fields :: "string list"
  op_id_field :: string
  op_extract :: "'d \<Rightarrow> string \<Rightarrow> 'f field_value"
  op_stringify :: "'f \<Rightarrow> string \<Rightarrow> string"
  op_tokenize :: "string \<Rightarrow> string \<Rightarrow> string list"
  op_process :: "string \<Rightarrow> string \<Rightarrow> processed"
  op_store_fields :: "string list"
  op_auto_vacuum :: "conditions option"

text \<open>The postings of a term: for each field, how often it occurs in each document.\<close>

type_synonym postings = "(nat \<times> (nat \<times> nat) list) list"

type_synonym 'f stored = "(string \<times> 'f field_value) list"

record 'f minisearch =
  ms_index :: "(char, postings) smap"
  ms_document_count :: int
  ms_document_ids :: "(nat \<times> 'f) list"
  ms_id_to_short :: "('f \<times> nat) list"
  ms_field_ids :: "(string \<times> nat) list"
  ms_field_length :: "(nat \<times> (nat \<times> nat) list) list"
  ms_average :: "(nat \<times> real option) list"
  ms_next_id :: nat
  ms_stored :: "(nat \<times> 'f stored) list"
  ms_dirt :: nat

definition add_fields :: "string list \<Rightarrow> (string \<times> nat) list \<Rightarrow> (string \<times> nat) list" where
  "add_fields names ids = foldl (\<lambda>ids i. AList.update (names ! i) i ids) ids [0..<length names]"

definition new_index :: "(char, postings) smap" where
  "new_index = new_smap (Node []) []"

definition new_minisearch :: "string list option \<Rightarrow> ms_error + 'f minisearch" where
  "new_minisearch names =
     (case names of
        None \<Rightarrow> Inl FieldsMissing
      | Some names \<Rightarrow>
          Inr \<lparr>ms_index = new_index, ms_document_count = 0, ms_document_ids = [], ms_id_to_short = [],
               ms_field_ids = add_fields names [], ms_field_length = [], ms_average = [], ms_next_id = 0,
               ms_stored = [], ms_dirt = 0\<rparr>)"

subsection \<open>Terms\<close>

definition add_posting :: "nat \<Rightarrow> nat \<Rightarrow> postings \<Rightarrow> postings" where
  "add_posting fid doc ps =
     (case map_of ps fid of
        None \<Rightarrow> AList.update fid [(doc, 1)] ps
      | Some docs \<Rightarrow> AList.update fid (AList.update doc (the_or 0 (map_of docs doc) + 1) docs) ps)"

text \<open>The postings fetched are the ones in the index, so changing them is setting them.\<close>

definition add_term :: "nat \<Rightarrow> nat \<Rightarrow> (char, postings) smap \<Rightarrow> string \<Rightarrow> (char, postings) smap" where
  "add_term fid doc index term =
     (let (index, ps) = sm_fetch term [] index in sm_set term (add_posting fid doc ps) index)"

definition remove_posting :: "nat \<Rightarrow> nat \<Rightarrow> postings \<Rightarrow> postings" where
  "remove_posting fid doc ps =
     (case map_of ps fid of
        None \<Rightarrow> ps
      | Some docs \<Rightarrow>
         (case map_of docs doc of
            None \<Rightarrow> ps
          | Some n \<Rightarrow>
              if n \<le> 1 then
                (if length docs \<le> 1 then AList.delete fid ps else AList.update fid (AList.delete doc docs) ps)
              else AList.update fid (AList.update doc (n - 1) docs) ps))"

definition remove_term :: "nat \<Rightarrow> nat \<Rightarrow> (char, postings) smap \<Rightarrow> string \<Rightarrow> (char, postings) smap" where
  "remove_term fid doc index term =
     (if \<not> sm_has index term then index
      else
       (let (index, ps) = sm_fetch term [] index; ps = remove_posting fid doc ps;
            index = sm_set term ps index
        in if ps = [] then sm_delete term index else index))"

subsection \<open>Field lengths\<close>

text \<open>
  A double: 53 significant bits, the nearest one, and of two the one whose last bit is zero.  An average
  of counts of terms is neither large nor small enough for the limits of the exponent.
\<close>

definition round_even :: "real \<Rightarrow> int" where
  "round_even x =
     (let k = \<lfloor>x\<rfloor>; rest = x - real_of_int k
      in if rest < 1 / 2 \<or> (rest = 1 / 2 \<and> even k) then k else k + 1)"

definition double :: "real \<Rightarrow> real" where
  "double x =
     (if x = 0 then 0
      else (let unit = 2 powr real_of_int (\<lfloor>log 2 \<bar>x\<bar>\<rfloor> - 52) in real_of_int (round_even (x / unit)) * unit))"

definition add_average :: "nat \<Rightarrow> int \<Rightarrow> nat \<Rightarrow> (nat \<times> real option) list \<Rightarrow> (nat \<times> real option) list" where
  "add_average fid n len avgs =
     (let avg = the_or 0 (the_or None (map_of avgs fid));
          total = double (double (avg * real_of_int n) + real len)
      in AList.update fid (Some (double (total / (real_of_int n + 1)))) avgs)"

definition remove_average :: "nat \<Rightarrow> int \<Rightarrow> nat \<Rightarrow> (nat \<times> real option) list \<Rightarrow> (nat \<times> real option) list" where
  "remove_average fid n len avgs =
     (if n = 1 then AList.update fid (Some 0) avgs
      else AList.update fid
             (map_option
                (\<lambda>avg. double (double (double (avg * real_of_int n) - real len) / (real_of_int n - 1)))
                (the_or None (map_of avgs fid))) avgs)"

definition add_field_length :: "nat \<Rightarrow> nat \<Rightarrow> int \<Rightarrow> nat \<Rightarrow> 'f minisearch \<Rightarrow> 'f minisearch" where
  "add_field_length doc fid n len ms =
     ms\<lparr>ms_field_length :=
          AList.update doc (AList.update fid len (the_or [] (map_of (ms_field_length ms) doc))) (ms_field_length ms),
        ms_average := add_average fid n len (ms_average ms)\<rparr>"

definition remove_field_length :: "nat \<Rightarrow> int \<Rightarrow> nat \<Rightarrow> 'f minisearch \<Rightarrow> 'f minisearch" where
  "remove_field_length fid n len ms = ms\<lparr>ms_average := remove_average fid n len (ms_average ms)\<rparr>"

subsection \<open>Documents\<close>

definition add_document_id :: "'f \<Rightarrow> 'f minisearch \<Rightarrow> 'f minisearch \<times> nat" where
  "add_document_id i ms =
     (let doc = ms_next_id ms
      in (ms\<lparr>ms_id_to_short := AList.update i doc (ms_id_to_short ms),
             ms_document_ids := AList.update doc i (ms_document_ids ms),
             ms_document_count := ms_document_count ms + 1,
             ms_next_id := ms_next_id ms + 1\<rparr>, doc))"

definition save_stored_fields ::
  "('d, 'f) options \<Rightarrow> nat \<Rightarrow> 'd \<Rightarrow> 'f minisearch \<Rightarrow> 'f minisearch" where
  "save_stored_fields opts doc d ms =
     (if op_store_fields opts = [] then ms
      else
       (let saved = foldl (\<lambda>fs name. case op_extract opts d name of
                Undefined \<Rightarrow> fs | v \<Rightarrow> AList.update name v fs)
              (the_or [] (map_of (ms_stored ms) doc)) (op_store_fields opts)
        in ms\<lparr>ms_stored := AList.update doc saved (ms_stored ms)\<rparr>))"

text \<open>The tokens of a field and the terms they become; \<open>None\<close> when the document has no such field.\<close>

definition field_tokens :: "('d, 'f) options \<Rightarrow> 'd \<Rightarrow> string \<Rightarrow> string list option" where
  "field_tokens opts d field =
     map_option (\<lambda>v. op_tokenize opts (op_stringify opts v field) field) (present (op_extract opts d field))"

definition field_terms :: "('d, 'f) options \<Rightarrow> string \<Rightarrow> string list \<Rightarrow> string list" where
  "field_terms opts field tokens = concat (map (\<lambda>t. processed_terms (op_process opts t field)) tokens)"

definition field_id :: "'f minisearch \<Rightarrow> string \<Rightarrow> nat" where
  "field_id ms field = the_or 0 (map_of (ms_field_ids ms) field)"

definition add_field :: "('d, 'f) options \<Rightarrow> nat \<Rightarrow> 'd \<Rightarrow> 'f minisearch \<Rightarrow> string \<Rightarrow> 'f minisearch" where
  "add_field opts doc d ms field =
     (case field_tokens opts d field of
        None \<Rightarrow> ms
      | Some tokens \<Rightarrow>
         (let fid = field_id ms field;
              ms = add_field_length doc fid (ms_document_count ms - 1) (card (set tokens)) ms
          in ms\<lparr>ms_index := foldl (add_term fid doc) (ms_index ms) (field_terms opts field tokens)\<rparr>))"

definition ms_add :: "('d, 'f) options \<Rightarrow> 'd \<Rightarrow> 'f minisearch \<Rightarrow> ms_error + 'f minisearch" where
  "ms_add opts d ms =
     (case present (op_extract opts d (op_id_field opts)) of
        None \<Rightarrow> Inl (MissingId (op_id_field opts))
      | Some i \<Rightarrow>
          if map_of (ms_id_to_short ms) i \<noteq> None then Inl DuplicateId
          else
           (let (ms, doc) = add_document_id i ms; ms = save_stored_fields opts doc d ms
            in Inr (foldl (add_field opts doc d) ms (op_fields opts))))"

text \<open>A fold that stops at the first error; what was done before it stays done, so the state is part of
  the error.\<close>

fun each_document ::
  "('a \<Rightarrow> 's \<Rightarrow> ms_error + 's) \<Rightarrow> 'a list \<Rightarrow> 's \<Rightarrow> (ms_error \<times> 's) + 's" where
  "each_document f [] s = Inr s"
| "each_document f (d # ds) s =
     (case f d s of Inl e \<Rightarrow> Inl (e, s) | Inr s' \<Rightarrow> each_document f ds s')"

definition ms_add_all ::
  "('d, 'f) options \<Rightarrow> 'd list \<Rightarrow> 'f minisearch \<Rightarrow> (ms_error \<times> 'f minisearch) + 'f minisearch" where
  "ms_add_all opts = each_document (ms_add opts)"

definition remove_field :: "('d, 'f) options \<Rightarrow> nat \<Rightarrow> 'd \<Rightarrow> 'f minisearch \<Rightarrow> string \<Rightarrow> 'f minisearch" where
  "remove_field opts doc d ms field =
     (case field_tokens opts d field of
        None \<Rightarrow> ms
      | Some tokens \<Rightarrow>
         (let fid = field_id ms field;
              ms = remove_field_length fid (ms_document_count ms) (card (set tokens)) ms
          in ms\<lparr>ms_index := foldl (remove_term fid doc) (ms_index ms) (field_terms opts field tokens)\<rparr>))"

definition forget_document :: "'f \<Rightarrow> nat \<Rightarrow> 'f minisearch \<Rightarrow> 'f minisearch" where
  "forget_document i doc ms =
     ms\<lparr>ms_stored := AList.delete doc (ms_stored ms),
        ms_document_ids := AList.delete doc (ms_document_ids ms),
        ms_id_to_short := AList.delete i (ms_id_to_short ms),
        ms_field_length := AList.delete doc (ms_field_length ms),
        ms_document_count := ms_document_count ms - 1\<rparr>"

definition ms_remove :: "('d, 'f) options \<Rightarrow> 'd \<Rightarrow> 'f minisearch \<Rightarrow> ms_error + 'f minisearch" where
  "ms_remove opts d ms =
     (case present (op_extract opts d (op_id_field opts)) of
        None \<Rightarrow> Inl (MissingId (op_id_field opts))
      | Some i \<Rightarrow>
         (case map_of (ms_id_to_short ms) i of
            None \<Rightarrow> Inl UnknownId
          | Some doc \<Rightarrow>
              Inr (forget_document i doc (foldl (remove_field opts doc d) ms (op_fields opts)))))"

text \<open>\<open>removeAll\<close> with documents, and without arguments.\<close>

definition ms_remove_all ::
  "('d, 'f) options \<Rightarrow> 'd list \<Rightarrow> 'f minisearch \<Rightarrow> (ms_error \<times> 'f minisearch) + 'f minisearch" where
  "ms_remove_all opts = each_document (ms_remove opts)"

definition ms_clear :: "'f minisearch \<Rightarrow> 'f minisearch" where
  "ms_clear ms =
     ms\<lparr>ms_index := new_index, ms_document_count := 0, ms_document_ids := [], ms_id_to_short := [],
        ms_field_length := [], ms_average := [], ms_stored := [], ms_next_id := 0\<rparr>"

subsection \<open>Discarding and vacuuming\<close>

definition default_conditions :: conditions where
  "default_conditions = \<lparr>min_dirt_factor = 1 / 10, min_dirt_count = 20\<rparr>"

definition dirt_factor :: "'f minisearch \<Rightarrow> real" where
  "dirt_factor ms = real (ms_dirt ms) / (1 + real_of_int (ms_document_count ms) + real (ms_dirt ms))"

text \<open>A condition that is zero counts as not given.\<close>

definition vacuum_conditions_met :: "conditions option \<Rightarrow> 'f minisearch \<Rightarrow> bool" where
  "vacuum_conditions_met conds ms =
     (case conds of
        None \<Rightarrow> True
      | Some c \<Rightarrow>
         (let n = (if min_dirt_count c = 0 then min_dirt_count default_conditions else min_dirt_count c);
              x = (if min_dirt_factor c = 0 then min_dirt_factor default_conditions else min_dirt_factor c)
          in n \<le> ms_dirt ms \<and> x \<le> dirt_factor ms))"

text \<open>Whether a change starts a vacuum, when none is running.\<close>

definition maybe_auto_vacuum :: "('d, 'f) options \<Rightarrow> 'f minisearch \<Rightarrow> bool" where
  "maybe_auto_vacuum opts ms =
     (case op_auto_vacuum opts of None \<Rightarrow> False | Some c \<Rightarrow> vacuum_conditions_met (Some c) ms)"

definition discard_document :: "'f \<Rightarrow> 'f minisearch \<Rightarrow> ms_error + 'f minisearch" where
  "discard_document i ms =
     (case map_of (ms_id_to_short ms) i of
        None \<Rightarrow> Inl UnknownId
      | Some doc \<Rightarrow>
         (let lengths = sort_key fst (the_or [] (map_of (ms_field_length ms) doc));
              ms = foldl (\<lambda>ms (fid, len). remove_field_length fid (ms_document_count ms) len ms) ms lengths;
              ms = forget_document i doc ms
          in Inr (ms\<lparr>ms_dirt := ms_dirt ms + 1\<rparr>)))"

text \<open>The flag says that a vacuum starts.\<close>

definition ms_discard :: "('d, 'f) options \<Rightarrow> 'f \<Rightarrow> 'f minisearch \<Rightarrow> ms_error + ('f minisearch \<times> bool)" where
  "ms_discard opts i ms =
     (case discard_document i ms of Inl e \<Rightarrow> Inl e | Inr ms \<Rightarrow> Inr (ms, maybe_auto_vacuum opts ms))"

definition ms_discard_all ::
  "('d, 'f) options \<Rightarrow> 'f list \<Rightarrow> 'f minisearch \<Rightarrow> (ms_error \<times> 'f minisearch) + ('f minisearch \<times> bool)" where
  "ms_discard_all opts ids ms =
     (case each_document discard_document ids ms of
        Inl e \<Rightarrow> Inl e
      | Inr ms \<Rightarrow> Inr (ms, maybe_auto_vacuum opts ms))"

definition ms_replace :: "('d, 'f) options \<Rightarrow> 'd \<Rightarrow> 'f minisearch \<Rightarrow> ms_error + ('f minisearch \<times> bool)" where
  "ms_replace opts d ms =
     (case present (op_extract opts d (op_id_field opts)) of
        None \<Rightarrow> Inl UnknownId
      | Some i \<Rightarrow>
         (case ms_discard opts i ms of
            Inl e \<Rightarrow> Inl e
          | Inr (ms, due) \<Rightarrow> (case ms_add opts d ms of Inl e \<Rightarrow> Inl e | Inr ms \<Rightarrow> Inr (ms, due))))"

text \<open>The documents of a field that are gone; \<open>None\<close> when the field goes with the last of them.\<close>

definition vacuum_docs :: "nat set \<Rightarrow> (nat \<times> nat) list \<Rightarrow> (nat \<times> nat) list option" where
  "vacuum_docs live docs =
     foldl (\<lambda>r doc. case r of
          None \<Rightarrow> None
        | Some docs \<Rightarrow>
            if doc \<in> live then Some docs
            else if length docs \<le> 1 then None
            else Some (AList.delete doc docs)) (Some docs) (map fst docs)"

definition vacuum_field :: "nat set \<Rightarrow> postings \<Rightarrow> nat \<Rightarrow> postings" where
  "vacuum_field live ps fid =
     (case map_of ps fid of
        None \<Rightarrow> ps
      | Some docs \<Rightarrow>
         (case vacuum_docs live docs of None \<Rightarrow> AList.delete fid ps | Some docs \<Rightarrow> AList.update fid docs ps))"

definition vacuum_postings :: "nat set \<Rightarrow> postings \<Rightarrow> postings" where
  "vacuum_postings live ps = foldl (vacuum_field live) ps (map fst ps)"

definition vacuum_term :: "nat set \<Rightarrow> (char, postings) smap \<Rightarrow> string \<Rightarrow> (char, postings) smap" where
  "vacuum_term live index term =
     (let ps = vacuum_postings live (the_or [] (sm_get index term)); index = sm_set term ps index
      in if ps = [] then sm_delete term index else index)"

text \<open>
  A vacuum that nothing interrupts; its pauses after each batch are left out.  It goes over the terms there are when
  it starts; the code walks the tree while it deletes the term it has just come to, which the iterator has passed.
\<close>

definition perform_vacuuming :: "conditions option \<Rightarrow> 'f minisearch \<Rightarrow> ms_error + 'f minisearch" where
  "perform_vacuuming conds ms =
     (if \<not> vacuum_conditions_met conds ms then Inr ms
      else
       (case sm_keys (ms_index ms) of
          None \<Rightarrow> Inl TypeError
        | Some terms \<Rightarrow>
            Inr (ms\<lparr>ms_index := foldl (vacuum_term (set (map fst (ms_document_ids ms)))) (ms_index ms) terms,
                    ms_dirt := ms_dirt ms - ms_dirt ms\<rparr>)))"

definition ms_vacuum :: "'f minisearch \<Rightarrow> ms_error + 'f minisearch" where
  "ms_vacuum ms = perform_vacuuming None ms"

subsection \<open>Reading\<close>

definition ms_has :: "'f minisearch \<Rightarrow> 'f \<Rightarrow> bool" where
  "ms_has ms i = (map_of (ms_id_to_short ms) i \<noteq> None)"

definition get_stored_fields :: "'f minisearch \<Rightarrow> 'f \<Rightarrow> 'f stored option" where
  "get_stored_fields ms i =
     (case map_of (ms_id_to_short ms) i of None \<Rightarrow> None | Some doc \<Rightarrow> map_of (ms_stored ms) doc)"

subsection \<open>Serialization\<close>

text \<open>An object with numbers for keys lists them in ascending order.\<close>

definition num_object :: "(nat \<times> 'a) list \<Rightarrow> (nat \<times> 'a) list" where
  "num_object m = sort_key fst m"

record 'f serialized =
  sz_document_count :: int
  sz_next_id :: nat
  sz_document_ids :: "(nat \<times> 'f) list"
  sz_field_ids :: "(string \<times> nat) list"
  sz_field_length :: "(nat \<times> (nat \<times> nat) list) list"
  sz_average :: "(nat \<times> real option) list"
  sz_stored :: "(nat \<times> 'f stored) list"
  sz_dirt :: nat
  sz_index :: "(string \<times> postings) list"
  sz_version :: nat

definition to_json :: "'f minisearch \<Rightarrow> ms_error + 'f serialized" where
  "to_json ms =
     (case sm_entries (ms_index ms) of
        None \<Rightarrow> Inl TypeError
      | Some es \<Rightarrow>
          Inr \<lparr>sz_document_count = ms_document_count ms, sz_next_id = ms_next_id ms,
               sz_document_ids = num_object (ms_document_ids ms), sz_field_ids = ms_field_ids ms,
               sz_field_length = num_object (ms_field_length ms), sz_average = ms_average ms,
               sz_stored = num_object (ms_stored ms), sz_dirt = ms_dirt ms,
               sz_index = map (\<lambda>(term, ps). (term, num_object (map (\<lambda>(fid, docs). (fid, num_object docs)) (the_or [] ps)))) es,
               sz_version = 2\<rparr>)"

definition numeric_map :: "(nat \<times> 'a) list \<Rightarrow> (nat \<times> 'a) list" where
  "numeric_map m = foldl (\<lambda>m (k, v). AList.update k v m) [] m"

text \<open>The options given to \<open>loadJS\<close> name the fields of the index first created, whose field ids the
  serialized ones then replace.\<close>

definition instantiate_minisearch :: "'f serialized \<Rightarrow> string list option \<Rightarrow> ms_error + 'f minisearch" where
  "instantiate_minisearch js names =
     (if sz_version js \<noteq> 1 \<and> sz_version js \<noteq> 2 then Inl (IncompatibleVersion (sz_version js))
      else
       (case new_minisearch names of
          Inl e \<Rightarrow> Inl e
        | Inr ms \<Rightarrow>
            Inr (ms\<lparr>ms_document_count := sz_document_count js, ms_next_id := sz_next_id js, ms_id_to_short := [],
                    ms_field_ids := sz_field_ids js, ms_average := sz_average js, ms_dirt := sz_dirt js,
                    ms_index := new_index\<rparr>)))"

definition load_js :: "'f serialized \<Rightarrow> string list option \<Rightarrow> ms_error + 'f minisearch" where
  "load_js js names =
     (case instantiate_minisearch js names of
        Inl e \<Rightarrow> Inl e
      | Inr ms \<Rightarrow>
         (let ids = numeric_map (sz_document_ids js)
          in Inr (ms\<lparr>ms_document_ids := ids, ms_field_length := numeric_map (sz_field_length js),
                     ms_stored := numeric_map (sz_stored js),
                     ms_id_to_short := foldl (\<lambda>m (doc, i). AList.update i doc m) (ms_id_to_short ms) ids,
                     ms_index := foldl (\<lambda>index (term, data).
                        sm_set term (foldl (\<lambda>m (fid, docs). AList.update fid (numeric_map docs) m) [] data) index)
                       (ms_index ms) (sz_index js)\<rparr>)))"

end
