(* ===== verification/IndexTerms.thy ===== *)
theory IndexTerms
  imports MiniIndex
begin

text \<open>
  The inverted index of \<open>minisearch\<close> as what it counts: \<open>freq index t f d\<close> is how often term \<open>t\<close>
  occurs in field \<open>f\<close> of document \<open>d\<close>.  Each operation on terms is an update of that function, and
  keeps the postings tidy: no empty map, no count of zero, no key twice.
\<close>

definition posted :: "postings \<Rightarrow> nat \<Rightarrow> nat \<Rightarrow> nat" where
  "posted ps f d = the_or 0 (map_of (the_or [] (map_of ps f)) d)"

definition freq :: "(char, postings) smap \<Rightarrow> string \<Rightarrow> nat \<Rightarrow> nat \<Rightarrow> nat" where
  "freq index t f d = posted (the_or [] (sm_get index t)) f d"

definition tidy_docs :: "(nat \<times> nat) list \<Rightarrow> bool" where
  "tidy_docs docs \<longleftrightarrow> docs \<noteq> [] \<and> distinct (map fst docs) \<and> (\<forall>(d, n) \<in> set docs. 0 < n)"

definition tidy :: "postings \<Rightarrow> bool" where
  "tidy ps \<longleftrightarrow> distinct (map fst ps) \<and> (\<forall>(f, docs) \<in> set ps. tidy_docs docs)"

definition index_ok :: "(char, postings) smap \<Rightarrow> bool" where
  "index_ok index \<longleftrightarrow> wf_node (sm_tree index) \<and> sm_prefix index = [] \<and>
     (\<forall>t ps. sm_get index t = Some ps \<longrightarrow> ps \<noteq> [] \<and> tidy ps)"

named_theorems index_simps

lemma posted_Nil [simp, index_simps]: "posted [] f d = 0"
  by (simp add: posted_def)

lemma tidy_Nil [simp]: "tidy []"
  by (simp add: tidy_def)

lemma tidy_docs_one [simp]: "tidy_docs [(d, n)] \<longleftrightarrow> 0 < n"
  by (simp add: tidy_docs_def)

lemma tidy_docsD: "tidy ps \<Longrightarrow> map_of ps f = Some docs \<Longrightarrow> tidy_docs docs"
  by (fastforce simp: tidy_def dest: map_of_SomeD)

lemma in_update:
  "distinct (map fst m) \<Longrightarrow> e \<in> set (AList.update k v m) \<longleftrightarrow> e = (k, v) \<or> fst e \<noteq> k \<and> e \<in> set m"
  using set_update by fastforce

lemma update_not_Nil [simp]: "AList.update k v m \<noteq> []"
  by (cases m) auto

lemma tidy_update: "tidy ps \<Longrightarrow> tidy_docs docs \<Longrightarrow> tidy (AList.update f docs ps)"
  by (auto simp: tidy_def in_update)

lemma tidy_delete: "tidy ps \<Longrightarrow> tidy (AList.delete f ps)"
  by (auto simp: tidy_def set_delete)

lemma tidy_docs_update: "tidy_docs docs \<Longrightarrow> 0 < n \<Longrightarrow> tidy_docs (AList.update d n docs)"
  by (auto simp: tidy_docs_def in_update)

lemma delete_not_Nil:
  assumes "distinct (map fst m)" "1 < length m"
  shows "AList.delete k m \<noteq> []"
proof -
  obtain a b m' where "m = a # b # m'" using assms(2) by (cases m; cases "tl m") auto
  with assms(1) show ?thesis by (cases "fst a = k") (auto simp: AList.delete_eq)
qed

lemma tidy_docs_delete: "tidy_docs docs \<Longrightarrow> 1 < length docs \<Longrightarrow> tidy_docs (AList.delete d docs)"
  using delete_not_Nil[of docs d] by (auto simp: tidy_docs_def set_delete)

lemma posted_update [index_simps]:
  "posted (AList.update f docs ps) f' d = (if f' = f then the_or 0 (map_of docs d) else posted ps f' d)"
  by (simp add: posted_def js_simps)

lemma posted_delete [index_simps]: "posted (AList.delete f ps) f' d = (if f' = f then 0 else posted ps f' d)"
  by (simp add: posted_def js_simps)

subsection \<open>One posting\<close>

lemma add_posting_posted:
  "posted (add_posting f d ps) f' d' = posted ps f' d' + of_bool (f' = f \<and> d' = d)"
  by (simp add: add_posting_def index_simps js_simps posted_def split: option.split)

lemma add_posting_tidy: "tidy ps \<Longrightarrow> tidy (add_posting f d ps) \<and> add_posting f d ps \<noteq> []"
  by (auto simp: add_posting_def intro!: tidy_update tidy_docs_update dest: tidy_docsD split: option.split)

lemma short_docs: "length docs \<le> 1 \<Longrightarrow> map_of docs d = Some n \<Longrightarrow> docs = [(d, n)]"
  by (cases docs) (auto split: if_splits)

lemma remove_posting_posted:
  "posted (remove_posting f d ps) f' d' = posted ps f' d' - of_bool (f' = f \<and> d' = d)"
proof (cases "map_of ps f")
  case (Some docs)
  show ?thesis
  proof (cases "map_of docs d")
    case n: (Some n)
    have "posted ps f d = n" "posted ps f d' = the_or 0 (map_of docs d')" using Some n by (simp_all add: posted_def)
    moreover have "length docs \<le> 1 \<Longrightarrow> docs = [(d, n)]" using short_docs n by fast
    ultimately show ?thesis
      using Some n by (auto simp: remove_posting_def index_simps js_simps)
  qed (auto simp: remove_posting_def Some posted_def)
qed (auto simp: remove_posting_def posted_def)

lemma remove_posting_tidy: "tidy ps \<Longrightarrow> tidy (remove_posting f d ps)"
  by (auto simp: remove_posting_def intro!: tidy_update tidy_delete tidy_docs_update tidy_docs_delete
      dest: tidy_docsD split: option.split)

subsection \<open>One term\<close>

lemma index_okD:
  assumes "index_ok index"
  shows "wf_node (sm_tree index)" "sm_prefix index = []" "tidy (the_or [] (sm_get index t))"
  using assms by (auto simp: index_ok_def split: option.split) (cases "sm_get index t"; simp)

lemma index_ok_new [simp]: "index_ok new_index" "freq new_index t f d = 0"
  by (simp_all add: index_ok_def freq_def new_index_def new_smap_def[of _ "[]", symmetric] radix.get_empty)
    (simp_all add: new_smap_def)

lemma fetch_set:
  assumes "index_ok index"
  shows "wf_node (sm_tree (sm_set t ps (fst (sm_fetch t [] index))))"
    and "sm_get (sm_set t ps (fst (sm_fetch t [] index))) = (sm_get index)(t \<mapsto> ps)"
    and "snd (sm_fetch t [] index) = the_or [] (sm_get index t)"
    and "sm_prefix (sm_set t ps (fst (sm_fetch t [] index))) = []"
proof -
  note wf = index_okD(1)[OF assms]
  have c: "created (the_or []) (sm_tree index) t (sm_tree (fst (sm_fetch t [] index)))"
    using create_path_created[OF wf] by (simp add: sm_fetch_def fetch_created)
  then have wf': "wf_node (sm_tree (fst (sm_fetch t [] index)))" by (simp add: created_def)
  then show "wf_node (sm_tree (sm_set t ps (fst (sm_fetch t [] index))))" by (rule radix.ok_set)
  show "sm_get (sm_set t ps (fst (sm_fetch t [] index))) = (sm_get index)(t \<mapsto> ps)"
    using radix.get_set[OF wf'] get_node_created[OF wf c] by (simp add: sm_get_node)
  show "snd (sm_fetch t [] index) = the_or [] (sm_get index t)" by (simp add: sm_fetch_def)
  show "sm_prefix (sm_set t ps (fst (sm_fetch t [] index))) = []"
    using index_okD(2)[OF assms] by (simp add: sm_fetch_def sm_set_def)
qed

lemma add_term_ok:
  assumes "index_ok index"
  shows "index_ok (add_term f d index t)"
    and "freq (add_term f d index t) t' f' d' = freq index t' f' d' + of_bool (t' = t \<and> f' = f \<and> d' = d)"
proof -
  note fs = fetch_set(1,2,4)[OF assms, of t "add_posting f d (the_or [] (sm_get index t))"]
  have eq: "add_term f d index t
      = sm_set t (add_posting f d (the_or [] (sm_get index t))) (fst (sm_fetch t [] index))"
    by (simp add: add_term_def fetch_set(3)[OF assms] case_prod_beta)
  show "index_ok (add_term f d index t)"
    using assms fs add_posting_tidy[OF index_okD(3)[OF assms]] unfolding eq by (simp add: index_ok_def)
  show "freq (add_term f d index t) t' f' d' = freq index t' f' d' + of_bool (t' = t \<and> f' = f \<and> d' = d)"
    unfolding eq freq_def by (simp add: fs(2) add_posting_posted)
qed

text \<open>Storing postings, or taking the term out when there are none left.\<close>

definition put_postings :: "string \<Rightarrow> postings \<Rightarrow> (char, postings) smap \<Rightarrow> (char, postings) smap" where
  "put_postings t ps index = (if ps = [] then sm_delete t index else index)"

lemma put_postings_ok:
  assumes "wf_node (sm_tree index)" "sm_prefix index = []" "sm_get index = m(t \<mapsto> ps)" "tidy ps"
    and "\<And>t ps. m t = Some ps \<Longrightarrow> ps \<noteq> [] \<and> tidy ps"
  shows "index_ok (put_postings t ps index)"
    and "freq (put_postings t ps index) t' f d = (if t' = t then posted ps f d else posted (the_or [] (m t')) f d)"
proof -
  have "sm_prefix (sm_delete t index) = []" using assms(2) by (simp add: sm_delete_def)
  with assms(1) have del: "wf_node (sm_tree (sm_delete t index))" "sm_get (sm_delete t index) = (sm_get index)(t := None)"
      "sm_prefix (sm_delete t index) = []"
    by (simp_all add: radix.ok_delete radix.get_delete)
  show "index_ok (put_postings t ps index)"
    using assms del by (auto simp: put_postings_def index_ok_def split: if_splits)
  show "freq (put_postings t ps index) t' f d = (if t' = t then posted ps f d else posted (the_or [] (m t')) f d)"
    using assms(3) del(2) by (simp add: put_postings_def freq_def)
qed

lemma remove_term_ok:
  assumes "index_ok index"
  shows "index_ok (remove_term f d index t)"
    and "freq (remove_term f d index t) t' f' d' = freq index t' f' d' - of_bool (t' = t \<and> f' = f \<and> d' = d)"
proof -
  let ?ps = "remove_posting f d (the_or [] (sm_get index t))"
  have eq: "remove_term f d index t
      = (if sm_get index t = None then index else put_postings t ?ps (sm_set t ?ps (fst (sm_fetch t [] index))))"
    by (simp add: remove_term_def put_postings_def fetch_set(3)[OF assms] case_prod_beta Let_def
        sm_has_get[OF index_okD(1)[OF assms]])
  note fs = fetch_set(1,4,2)[OF assms, of t ?ps]
  have ok: "tidy ?ps" using remove_posting_tidy[OF index_okD(3)[OF assms]] .
  have all: "sm_get index t = Some ps \<Longrightarrow> ps \<noteq> [] \<and> tidy ps" for t ps
    using assms by (simp add: index_ok_def)
  note put = put_postings_ok[OF fs ok all]
  show "index_ok (remove_term f d index t)" using assms put(1) by (simp add: eq)
  show "freq (remove_term f d index t) t' f' d' = freq index t' f' d' - of_bool (t' = t \<and> f' = f \<and> d' = d)"
    by (simp add: eq put(2) remove_posting_posted) (auto simp: freq_def)
qed

subsection \<open>Many terms\<close>

lemma add_terms_ok:
  assumes "index_ok index"
  shows "index_ok (foldl (add_term f d) index ts)"
    and "freq (foldl (add_term f d) index ts) t f' d' = freq index t f' d' + (if f' = f \<and> d' = d then count_list ts t else 0)"
  using assms by (induction ts arbitrary: index) (auto simp: add_term_ok)

lemma remove_terms_ok:
  assumes "index_ok index"
  shows "index_ok (foldl (remove_term f d) index ts)"
    and "freq (foldl (remove_term f d) index ts) t f' d' = freq index t f' d' - (if f' = f \<and> d' = d then count_list ts t else 0)"
  using assms by (induction ts arbitrary: index) (auto simp: remove_term_ok)

subsection \<open>Vacuuming\<close>

lemma foldl_None: "(\<And>x. f None x = None) \<Longrightarrow> foldl f None xs = None"
  by (induction xs) auto

lemma vacuum_docs_fold:
  assumes "tidy_docs docs" "distinct ks" "set ks \<subseteq> fst ` set docs"
  shows "foldl (\<lambda>r doc. case r of
          None \<Rightarrow> None
        | Some docs \<Rightarrow>
            if doc \<in> live then Some docs
            else if length docs \<le> 1 then None
            else Some (AList.delete doc docs)) (Some docs) ks =
     (let left = filter (\<lambda>(d, n). d \<notin> set ks \<or> d \<in> live) docs in if left = [] then None else Some left)"
  (is "foldl ?f _ _ = _")
  using assms
proof (induction ks arbitrary: docs)
  case Nil then show ?case by (simp add: tidy_docs_def)
next
  case (Cons k ks)
  show ?case
  proof (cases "k \<in> live")
    case True
    then have "filter (\<lambda>(d, n). d \<notin> set (k # ks) \<or> d \<in> live) docs = filter (\<lambda>(d, n). d \<notin> set ks \<or> d \<in> live) docs"
      by (intro filter_cong) auto
    with Cons True show ?thesis by simp
  next
    case dead: False
    show ?thesis
    proof (cases "length docs \<le> 1")
      case True
      obtain n where "map_of docs k = Some n" using Cons.prems(3) by (cases "map_of docs k") (auto simp: map_of_eq_None_iff)
      then have docs: "docs = [(k, n)]" using short_docs[OF True] by simp
      have "foldl ?f None ks = None" by (rule foldl_None) simp
      then show ?thesis using dead Cons.prems by (simp add: docs)
    next
      case False
      then have "tidy_docs (AList.delete k docs)" using tidy_docs_delete Cons.prems(1) by simp
      moreover have "distinct ks" "set ks \<subseteq> fst ` set (AList.delete k docs)"
        using Cons.prems(2,3) by (force simp: set_delete)+
      moreover have "filter (\<lambda>(d, n). d \<notin> set ks \<or> d \<in> live) (AList.delete k docs)
          = filter (\<lambda>(d, n). d \<notin> set (k # ks) \<or> d \<in> live) docs"
        using dead by (auto simp: AList.delete_eq intro: filter_cong)
      ultimately show ?thesis using Cons.IH[of "AList.delete k docs"] dead False by simp
    qed
  qed
qed

lemma vacuum_docs_filter:
  assumes "tidy_docs docs"
  shows "vacuum_docs live docs =
    (let left = filter (\<lambda>(d, n). d \<in> live) docs in if left = [] then None else Some left)"
proof -
  have "filter (\<lambda>(d, n). d \<notin> set (map fst docs) \<or> d \<in> live) docs = filter (\<lambda>(d, n). d \<in> live) docs"
    by (intro filter_cong) force+
  then show ?thesis
    using vacuum_docs_fold[OF assms, of "map fst docs" live] assms by (simp add: vacuum_docs_def tidy_docs_def)
qed

lemma map_of_filter_fst: "map_of (filter (\<lambda>(d, n). d \<in> live) m) d = (if d \<in> live then map_of m d else None)"
  by (induction m) auto

lemma vacuum_docs_posted:
  assumes "tidy_docs docs"
  shows "case vacuum_docs live docs of
      None \<Rightarrow> \<forall>d \<in> live. map_of docs d = None
    | Some left \<Rightarrow> tidy_docs left \<and> (\<forall>d. map_of left d = (if d \<in> live then map_of docs d else None))"
proof (cases "filter (\<lambda>(d, n). d \<in> live) docs = []")
  case True
  then have "\<forall>d \<in> live. map_of docs d = None" by (auto simp: filter_empty_conv map_of_eq_None_iff)
  with True show ?thesis by (simp add: vacuum_docs_filter[OF assms])
next
  case False
  moreover have "tidy_docs (filter (\<lambda>(d, n). d \<in> live) docs)"
    using assms False by (auto simp: tidy_docs_def distinct_map_filter)
  ultimately show ?thesis by (simp add: vacuum_docs_filter[OF assms] map_of_filter_fst)
qed

lemma vacuum_field_posted:
  assumes "tidy ps"
  shows "tidy (vacuum_field live ps k)"
    and "posted (vacuum_field live ps k) f d = (if f = k \<and> d \<notin> live then 0 else posted ps f d)"
proof -
  have "tidy (vacuum_field live ps k) \<and>
    posted (vacuum_field live ps k) f d = (if f = k \<and> d \<notin> live then 0 else posted ps f d)"
  proof (cases "map_of ps k")
    case None then show ?thesis using assms by (auto simp: posted_def vacuum_field_def)
  next
    case (Some docs)
    note v = vacuum_docs_posted[OF tidy_docsD[OF assms Some], of live]
    have k: "posted ps k d = the_or 0 (map_of docs d)" by (simp add: posted_def Some)
    show ?thesis
    proof (cases "vacuum_docs live docs")
      case None
      then show ?thesis using v Some assms k by (auto simp: index_simps tidy_delete vacuum_field_def)
    next
      case left: (Some left)
      then show ?thesis using v Some assms k by (auto simp: index_simps tidy_update vacuum_field_def)
    qed
  qed
  then show "tidy (vacuum_field live ps k)"
    "posted (vacuum_field live ps k) f d = (if f = k \<and> d \<notin> live then 0 else posted ps f d)" by simp_all
qed

lemma vacuum_postings_fold:
  assumes "tidy ps"
  shows "tidy (foldl (vacuum_field live) ps fs)"
    and "posted (foldl (vacuum_field live) ps fs) f d = (if f \<in> set fs \<and> d \<notin> live then 0 else posted ps f d)"
  using assms by (induction fs arbitrary: ps) (auto simp: vacuum_field_posted)

lemma vacuum_postings_posted:
  assumes "tidy ps"
  shows "tidy (vacuum_postings live ps)"
    and "posted (vacuum_postings live ps) f d = (if d \<in> live then posted ps f d else 0)"
proof -
  show "tidy (vacuum_postings live ps)" unfolding vacuum_postings_def by (rule vacuum_postings_fold(1)[OF assms])
  have "f \<notin> fst ` set ps \<Longrightarrow> posted ps f d = 0" by (simp add: posted_def map_of_eq_None_iff[symmetric])
  then show "posted (vacuum_postings live ps) f d = (if d \<in> live then posted ps f d else 0)"
    unfolding vacuum_postings_def vacuum_postings_fold(2)[OF assms] by auto
qed

lemma set_postings_ok:
  assumes "index_ok index" "tidy ps"
  shows "index_ok (put_postings t ps (sm_set t ps index))"
    and "freq (put_postings t ps (sm_set t ps index)) t' f d = (if t' = t then posted ps f d else freq index t' f d)"
proof -
  note wf = index_okD(1)[OF assms(1)]
  have "sm_prefix (sm_set t ps index) = []" using index_okD(2)[OF assms(1)] by (simp add: sm_set_def)
  note put = put_postings_ok[OF radix.ok_set[OF wf] this radix.get_set[OF wf] assms(2)]
  show "index_ok (put_postings t ps (sm_set t ps index))"
    using assms by (intro put(1)) (simp add: index_ok_def)
  show "freq (put_postings t ps (sm_set t ps index)) t' f d = (if t' = t then posted ps f d else freq index t' f d)"
    using assms by (subst put(2)) (simp_all add: index_ok_def freq_def)
qed

lemma vacuum_term_ok:
  assumes "index_ok index"
  shows "index_ok (vacuum_term live index t)"
    and "freq (vacuum_term live index t) t' f d = (if t' = t \<and> d \<notin> live then 0 else freq index t' f d)"
proof -
  let ?ps = "vacuum_postings live (the_or [] (sm_get index t))"
  note v = vacuum_postings_posted[OF index_okD(3)[OF assms], of live t]
  have eq: "vacuum_term live index t = put_postings t ?ps (sm_set t ?ps index)"
    by (simp add: vacuum_term_def put_postings_def Let_def)
  show "index_ok (vacuum_term live index t)" unfolding eq by (rule set_postings_ok(1)[OF assms v(1)])
  show "freq (vacuum_term live index t) t' f d = (if t' = t \<and> d \<notin> live then 0 else freq index t' f d)"
    unfolding eq set_postings_ok(2)[OF assms v(1)] by (simp add: v(2) freq_def)
qed

lemma vacuum_terms_ok:
  assumes "index_ok index"
  shows "index_ok (foldl (vacuum_term live) index ts)"
    and "freq (foldl (vacuum_term live) index ts) t f d = (if t \<in> set ts \<and> d \<notin> live then 0 else freq index t f d)"
  using assms by (induction ts arbitrary: index) (auto simp: vacuum_term_ok)

lemma index_terms:
  assumes "index_ok index"
  shows "\<exists>es. sm_entries index = Some es \<and> distinct (map fst es) \<and> set es = {(t, sm_get index t) |t. sm_get index t \<noteq> None}"
  using entries_once[OF index_okD(1)[OF assms]] by (auto simp: index_okD(2)[OF assms])

lemma vacuum_index:
  assumes "index_ok index"
  shows "\<exists>ts. sm_keys index = Some ts \<and> index_ok (foldl (vacuum_term live) index ts) \<and>
    (\<forall>t f d. freq (foldl (vacuum_term live) index ts) t f d = (if d \<in> live then freq index t f d else 0))"
proof -
  obtain es where es: "sm_entries index = Some es" "set es = {(t, sm_get index t) |t. sm_get index t \<noteq> None}"
    using index_terms[OF assms] by blast
  have "t \<notin> set (map fst es) \<Longrightarrow> freq index t f d = 0" for t f d
    by (cases "sm_get index t") (auto simp: es(2) freq_def image_iff)
  then show ?thesis
    using es(1) vacuum_terms_ok[OF assms] by (auto simp: sm_keys_def)
qed

text \<open>A term of a tidy index occurs somewhere.\<close>

lemma index_term_occurs:
  assumes "index_ok index"
  shows "sm_has index t \<longleftrightarrow> (\<exists>f d. 0 < freq index t f d)"
proof
  assume "sm_has index t"
  then obtain ps where ps: "sm_get index t = Some ps" using sm_has_get[OF index_okD(1)[OF assms]] by auto
  then have "ps \<noteq> []" "tidy ps" using assms by (auto simp: index_ok_def)
  then obtain f docs ps' where "ps = (f, docs) # ps'" "tidy_docs docs" by (cases ps) (auto simp: tidy_def)
  moreover from this obtain d n docs' where "docs = (d, n) # docs'" "0 < n" by (cases docs) (auto simp: tidy_docs_def)
  ultimately have "0 < freq index t f d" by (simp add: freq_def ps posted_def)
  then show "\<exists>f d. 0 < freq index t f d" by blast
next
  assume "\<exists>f d. 0 < freq index t f d"
  then show "sm_has index t" 
    using sm_has_get[OF index_okD(1)[OF assms]] by (cases "sm_get index t") (auto simp: freq_def)
qed

end
