(* ===== verification/MiniQuery.thy ===== *)
theory MiniQuery
  imports MiniIndex
begin

text \<open>
  Queries on the index of \<open>minisearch\<close>: one term exactly, by prefix and by edit distance, scored by
  BM25; terms combined by \<open>or\<close>, \<open>and\<close>, \<open>and_not\<close>; suggestions.  A query may change the index: a posting
  of a document that was discarded is taken out when a query meets it.  Scores are numbers with the
  infinities and \<open>NaN\<close>.  A match object has terms for keys, none of them \<open>__proto__\<close>; the stored
  fields of a document, which the source copies over its result, are kept beside it, so none of them
  is named like a member of a result.
\<close>

record bm25 =
  bm_k :: real
  bm_b :: real
  bm_d :: real

definition default_bm25 :: bm25 where
  "default_bm25 = \<lparr>bm_k = 12 / 10, bm_b = 7 / 10, bm_d = 5 / 10\<rparr>"

text \<open>A length that was not recorded, or an average that is not a number, gives \<open>NaN\<close>.\<close>

definition calc_bm25_score :: "nat \<Rightarrow> int \<Rightarrow> int \<Rightarrow> nat option \<Rightarrow> real option \<Rightarrow> bm25 \<Rightarrow> jsnum" where
  "calc_bm25_score term_freq matching docs_total field_length avg p =
     (let num = (\<lambda>x. case x of None \<Rightarrow> JNaN | Some r \<Rightarrow> JNum r);
          matched = real_of_int matching + 1 / 2;
          inv_doc_freq = js_log (js_add (JNum 1) (js_div (JNum (real_of_int (docs_total - matching) + 1 / 2)) (JNum matched)));
          relative = js_div (js_mul (JNum (bm_b p)) (num (map_option real field_length))) (num avg);
          saturation = js_add (JNum (real term_freq)) (js_mul (JNum (bm_k p)) (js_add (JNum (1 - bm_b p)) relative))
      in js_mul inv_doc_freq
           (js_add (JNum (bm_d p)) (js_div (JNum (real term_freq * (bm_k p + 1))) saturation)))"

text \<open>What a query knows of a document: its score, the query terms, and for each matched term the fields.\<close>

record scored =
  rr_score :: jsnum
  rr_terms :: "string list"
  rr_match :: "(string \<times> string list) list"

type_synonym scored_docs = "(nat \<times> scored) list"

definition assign_unique_term :: "string list \<Rightarrow> string \<Rightarrow> string list" where
  "assign_unique_term target term = (if term \<in> set target then target else target @ [term])"

definition assign_unique_terms :: "string list \<Rightarrow> string list \<Rightarrow> string list" where
  "assign_unique_terms target terms = foldl assign_unique_term target terms"

type_synonym 'f boost_document = "'f \<Rightarrow> string \<Rightarrow> 'f stored option \<Rightarrow> jsnum"

definition js_truthy :: "jsnum \<Rightarrow> bool" where
  "js_truthy x = (x \<noteq> JNaN \<and> x \<noteq> JNum 0)"

definition add_score :: "string \<Rightarrow> string \<Rightarrow> string \<Rightarrow> nat \<Rightarrow> jsnum \<Rightarrow> scored_docs \<Rightarrow> scored_docs" where
  "add_score source_term derived_term field doc score results =
     AList.update doc
       (case map_of results doc of
          Some r \<Rightarrow>
            r\<lparr>rr_score := js_add (rr_score r) score,
              rr_terms := assign_unique_term (rr_terms r) source_term,
              rr_match := AList.update derived_term (the_or [] (map_of (rr_match r) derived_term) @ [field]) (rr_match r)\<rparr>
        | None \<Rightarrow> \<lparr>rr_score = score, rr_terms = [source_term], rr_match = [(derived_term, [field])]\<rparr>) results"

text \<open>One document of a posting.  The number of matching documents falls by one for each that is gone.\<close>

definition term_document ::
  "string \<Rightarrow> string \<Rightarrow> jsnum \<Rightarrow> string \<Rightarrow> nat \<Rightarrow> (nat \<times> nat) list \<Rightarrow> 'f boost_document option \<Rightarrow> bm25
   \<Rightarrow> int \<times> scored_docs \<times> 'f minisearch \<Rightarrow> nat \<Rightarrow> int \<times> scored_docs \<times> 'f minisearch" where
  "term_document source_term derived_term weight field fid freqs boost p = (\<lambda>(matching, results, ms) doc.
     (case map_of (ms_document_ids ms) doc of
        None \<Rightarrow> (matching - 1, results, ms\<lparr>ms_index := remove_term fid doc (ms_index ms) derived_term\<rparr>)
      | Some i \<Rightarrow>
         (let doc_boost = (case boost of None \<Rightarrow> JNum 1 | Some f \<Rightarrow> f i derived_term (map_of (ms_stored ms) doc))
          in if \<not> js_truthy doc_boost then (matching, results, ms)
             else
              (let raw = calc_bm25_score (the_or 0 (map_of freqs doc)) matching (ms_document_count ms)
                           (map_of (the_or [] (map_of (ms_field_length ms) doc)) fid)
                           (the_or None (map_of (ms_average ms) fid)) p;
                   score = js_mul (js_mul weight doc_boost) raw
               in (matching, add_score source_term derived_term field doc score results, ms)))))"

definition term_results ::
  "string \<Rightarrow> string \<Rightarrow> jsnum \<Rightarrow> jsnum \<Rightarrow> postings option \<Rightarrow> (string \<times> jsnum) list \<Rightarrow> 'f boost_document option \<Rightarrow> bm25
   \<Rightarrow> scored_docs \<times> 'f minisearch \<Rightarrow> scored_docs \<times> 'f minisearch" where
  "term_results source_term derived_term term_weight term_boost data boosts boost p st =
     (case data of
        None \<Rightarrow> st
      | Some ps \<Rightarrow>
          foldl (\<lambda>(results, ms) field.
             (case Option.bind (map_of (ms_field_ids ms) field) (map_of ps) of
                None \<Rightarrow> (results, ms)
              | Some freqs \<Rightarrow>
                 (let field_boost = the_or (JNum 1) (map_of boosts field);
                      weight = js_mul (js_mul term_weight term_boost) field_boost
                  in snd (foldl (term_document source_term derived_term weight field (field_id ms field) freqs boost p)
                            (int (length freqs), results, ms) (map fst freqs)))))
            st (object_keys boosts))"

subsection \<open>Search options\<close>

text \<open>\<open>fuzzy\<close>: off, on, a non-negative share of the length of the term below one, or a distance.\<close>

datatype fuzzy = FuzzyOff | FuzzyOn | FuzzyRatio real | FuzzyDistance nat

datatype combinator = Or | And | AndNot

record ('d, 'f) search_options =
  so_tokenize :: "(string \<Rightarrow> string list) option"
  so_process :: "(string \<Rightarrow> processed) option"
  so_fields :: "string list option"
  so_combine_with :: "string option"
  so_prefix :: "(string \<Rightarrow> nat \<Rightarrow> string list \<Rightarrow> bool) option"
  so_fuzzy :: "(string \<Rightarrow> nat \<Rightarrow> string list \<Rightarrow> fuzzy) option"
  so_max_fuzzy :: "nat option"
  so_boost :: "(string \<times> jsnum) list option"
  so_weights :: "(real option \<times> real option) option"
  so_bm25 :: "bm25 option"
  so_boost_term :: "(string \<Rightarrow> nat \<Rightarrow> string list \<Rightarrow> jsnum) option"
  so_boost_document :: "'f boost_document option"

definition first_some :: "'a option \<Rightarrow> 'a option \<Rightarrow> 'a option" where
  "first_some a b = (case a of Some x \<Rightarrow> Some x | None \<Rightarrow> b)"

text \<open>\<open>{ ...a, ...b }\<close>.\<close>

definition override :: "('d, 'f) search_options \<Rightarrow> ('d, 'f) search_options \<Rightarrow> ('d, 'f) search_options" where
  "override a b =
     \<lparr>so_tokenize = first_some (so_tokenize b) (so_tokenize a), so_process = first_some (so_process b) (so_process a),
      so_fields = first_some (so_fields b) (so_fields a), so_combine_with = first_some (so_combine_with b) (so_combine_with a),
      so_prefix = first_some (so_prefix b) (so_prefix a), so_fuzzy = first_some (so_fuzzy b) (so_fuzzy a),
      so_max_fuzzy = first_some (so_max_fuzzy b) (so_max_fuzzy a), so_boost = first_some (so_boost b) (so_boost a),
      so_weights = first_some (so_weights b) (so_weights a), so_bm25 = first_some (so_bm25 b) (so_bm25 a),
      so_boost_term = first_some (so_boost_term b) (so_boost_term a),
      so_boost_document = first_some (so_boost_document b) (so_boost_document a)\<rparr>"

definition no_options :: "('d, 'f) search_options" where
  "no_options =
     \<lparr>so_tokenize = None, so_process = None, so_fields = None, so_combine_with = None, so_prefix = None,
      so_fuzzy = None, so_max_fuzzy = None, so_boost = None, so_weights = None, so_bm25 = None,
      so_boost_term = None, so_boost_document = None\<rparr>"

definition default_search_options :: "('d, 'f) search_options" where
  "default_search_options =
     no_options\<lparr>so_combine_with := Some ''or'', so_prefix := Some (\<lambda>_ _ _. False), so_fuzzy := Some (\<lambda>_ _ _. FuzzyOff),
       so_max_fuzzy := Some 6, so_boost := Some [], so_weights := Some (Some (45 / 100), Some (375 / 1000)),
       so_bm25 := Some default_bm25\<rparr>"

definition default_auto_suggest_options :: "('d, 'f) search_options" where
  "default_auto_suggest_options =
     no_options\<lparr>so_combine_with := Some ''and'', so_prefix := Some (\<lambda>term i terms. i + 1 = length terms)\<rparr>"

record query_spec =
  qs_term :: string
  qs_fuzzy :: fuzzy
  qs_prefix :: bool
  qs_term_boost :: jsnum

definition term_to_query_spec :: "('d, 'f) search_options \<Rightarrow> string list \<Rightarrow> nat \<Rightarrow> query_spec" where
  "term_to_query_spec so terms i =
     (let term = terms ! i
      in \<lparr>qs_term = term,
          qs_fuzzy = (case so_fuzzy so of None \<Rightarrow> FuzzyOff | Some f \<Rightarrow> f term i terms),
          qs_prefix = (case so_prefix so of None \<Rightarrow> False | Some f \<Rightarrow> f term i terms),
          qs_term_boost = (case so_boost_term so of None \<Rightarrow> JNum 1 | Some f \<Rightarrow> f term i terms)\<rparr>)"

definition max_distance :: "fuzzy \<Rightarrow> nat \<Rightarrow> nat \<Rightarrow> nat" where
  "max_distance f max_fuzzy len =
     (case f of
        FuzzyOff \<Rightarrow> 0
      | FuzzyOn \<Rightarrow> min max_fuzzy (nat (js_round (real len * (2 / 10))))
      | FuzzyRatio r \<Rightarrow> min max_fuzzy (nat (js_round (real len * r)))
      | FuzzyDistance n \<Rightarrow> n)"

definition field_boosts :: "string list \<Rightarrow> (string \<times> jsnum) list \<Rightarrow> (string \<times> jsnum) list" where
  "field_boosts names boost =
     foldl (\<lambda>bs field. AList.update field
        (case map_of boost field of Some x \<Rightarrow> if js_truthy x then x else JNum 1 | None \<Rightarrow> JNum 1) bs) [] names"

text \<open>The terms of the index a query term stands for beside itself: those it is a prefix of, and those
  near it that are not among them; each with its weight.  The terms of a prefix are read at once; the code scores each
  as its iterator comes to it, and may delete that term on the way.\<close>

definition prefix_matches :: "'f minisearch \<Rightarrow> query_spec \<Rightarrow> ms_error + (string \<times> postings) list" where
  "prefix_matches ms q =
     (if \<not> qs_prefix q then Inr []
      else case Option.bind (at_prefix (ms_index ms) (qs_term q)) sm_entries of
             None \<Rightarrow> Inl TypeError
           | Some es \<Rightarrow>
               Inr (map (\<lambda>(t, ps). (t, the_or [] ps)) (filter (\<lambda>(t, ps). length t \<noteq> length (qs_term q)) es)))"

definition fuzzy_matches :: "'f minisearch \<Rightarrow> nat \<Rightarrow> query_spec \<Rightarrow> (string \<times> postings) list \<Rightarrow> (string \<times> postings \<times> nat) list" where
  "fuzzy_matches ms max_fuzzy q longer =
     (let n = max_distance (qs_fuzzy q) max_fuzzy (length (qs_term q))
      in if n = 0 then []
         else filter (\<lambda>(t, ps, d). d \<noteq> 0)
                (foldl (\<lambda>m (t, ps). AList.delete t m) (fuzzy_get (ms_index ms) (qs_term q) n) longer))"

definition prefix_weight :: "real \<Rightarrow> string \<Rightarrow> string \<Rightarrow> jsnum" where
  "prefix_weight w query_term t =
     js_div (JNum (w * real (length t)))
       (JNum (real (length t) + 3 / 10 * (real (length t) - real (length query_term))))"

definition fuzzy_weight :: "real \<Rightarrow> string \<Rightarrow> nat \<Rightarrow> jsnum" where
  "fuzzy_weight w t d = js_div (JNum (w * real (length t))) (JNum (real (length t) + real d))"

definition execute_query_spec ::
  "('d, 'f) options \<Rightarrow> ('d, 'f) search_options \<Rightarrow> query_spec \<Rightarrow> 'f minisearch \<Rightarrow> ms_error + (scored_docs \<times> 'f minisearch)" where
  "execute_query_spec opts so q ms =
     (let boosts = field_boosts (the_or (op_fields opts) (so_fields so)) (the_or [] (so_boost so));
          (fw, pw) = the_or (None, None) (so_weights so);
          fw = the_or (45 / 100) fw; pw = the_or (375 / 1000) pw;
          p = the_or default_bm25 (so_bm25 so);
          one = (\<lambda>derived weight data. term_results (qs_term q) derived weight (qs_term_boost q) data boosts
                   (so_boost_document so) p);
          st = one (qs_term q) (JNum 1) (sm_get (ms_index ms) (qs_term q)) ([], ms)
      in case prefix_matches (snd st) q of
           Inl e \<Rightarrow> Inl e
         | Inr longer \<Rightarrow>
            (let near = fuzzy_matches (snd st) (the_or 6 (so_max_fuzzy so)) q longer;
                 st = foldl (\<lambda>st (t, ps). one t (prefix_weight pw (qs_term q) t) (Some ps) st) st longer
             in Inr (foldl (\<lambda>st (t, ps, d). one t (fuzzy_weight fw t d) (Some ps) st) st near)))"

subsection \<open>Combining\<close>

definition merge_match :: "(string \<times> string list) list \<Rightarrow> (string \<times> string list) list \<Rightarrow> (string \<times> string list) list" where
  "merge_match a b = foldl (\<lambda>m (t, fs). AList.update t fs m) a b"

definition merge_result :: "scored \<Rightarrow> scored \<Rightarrow> scored" where
  "merge_result a b =
     \<lparr>rr_score = js_add (rr_score a) (rr_score b), rr_terms = assign_unique_terms (rr_terms a) (rr_terms b),
      rr_match = merge_match (rr_match a) (rr_match b)\<rparr>"

definition combine_or :: "scored_docs \<Rightarrow> scored_docs \<Rightarrow> scored_docs" where
  "combine_or a b =
     foldl (\<lambda>a (doc, r). AList.update doc (case map_of a doc of None \<Rightarrow> r | Some r0 \<Rightarrow> merge_result r0 r) a) a b"

definition combine_and :: "scored_docs \<Rightarrow> scored_docs \<Rightarrow> scored_docs" where
  "combine_and a b =
     foldl (\<lambda>c (doc, r). case map_of a doc of None \<Rightarrow> c | Some r0 \<Rightarrow> AList.update doc (merge_result r0 r) c) [] b"

definition combine_and_not :: "scored_docs \<Rightarrow> scored_docs \<Rightarrow> scored_docs" where
  "combine_and_not a b = foldl (\<lambda>a (doc, r). AList.delete doc a) a b"

text \<open>The operators by name; a member of \<open>Object.prototype\<close> is not a name that is given.\<close>

definition combinator_of :: "string \<Rightarrow> combinator option" where
  "combinator_of name =
     (let op = map ascii_lower name
      in if op = ''or'' then Some Or else if op = ''and'' then Some And
         else if op = ''and_not'' then Some AndNot else None)"

fun combine :: "combinator \<Rightarrow> scored_docs \<Rightarrow> scored_docs \<Rightarrow> scored_docs" where
  "combine Or = combine_or"
| "combine And = combine_and"
| "combine AndNot = combine_and_not"

definition combine_results :: "scored_docs list \<Rightarrow> string option \<Rightarrow> ms_error + scored_docs" where
  "combine_results results name =
     (case results of
        [] \<Rightarrow> Inr []
      | r # rs \<Rightarrow>
         (let name = the_or ''or'' name
          in case combinator_of name of
               None \<Rightarrow> Inl (InvalidOperator name)
             | Some c \<Rightarrow> Inr (foldl (combine c) r rs)))"

subsection \<open>Queries\<close>

datatype ('d, 'f) query =
    Wildcard
  | Text string
  | Combination "('d, 'f) search_options" "('d, 'f) query list"

definition execute_wildcard_query :: "('d, 'f) search_options \<Rightarrow> 'f minisearch \<Rightarrow> scored_docs" where
  "execute_wildcard_query so ms =
     foldl (\<lambda>results (doc, i). AList.update doc
        \<lparr>rr_score = (case so_boost_document so of None \<Rightarrow> JNum 1 | Some f \<Rightarrow> f i [] (map_of (ms_stored ms) doc)),
         rr_terms = [], rr_match = []\<rparr> results) [] (ms_document_ids ms)"

definition query_terms :: "('d, 'f) options \<Rightarrow> ('d, 'f) search_options \<Rightarrow> string \<Rightarrow> string list" where
  "query_terms opts so text =
     (let tokenize = the_or (\<lambda>s. op_tokenize opts s []) (so_tokenize so);
          process = the_or (\<lambda>t. op_process opts t []) (so_process so)
      in filter (\<lambda>t. t \<noteq> []) (concat (map (\<lambda>t. processed_terms (process t)) (tokenize text))))"

text \<open>A state threaded through a list of steps that may fail.\<close>

fun thread_list :: "('a \<Rightarrow> 's \<Rightarrow> 'e + ('b \<times> 's)) \<Rightarrow> 'a list \<Rightarrow> 's \<Rightarrow> 'e + ('b list \<times> 's)" where
  "thread_list f [] s = Inr ([], s)"
| "thread_list f (x # xs) s =
     (case f x s of
        Inl e \<Rightarrow> Inl e
      | Inr (y, s) \<Rightarrow> (case thread_list f xs s of Inl e \<Rightarrow> Inl e | Inr (ys, s) \<Rightarrow> Inr (y # ys, s)))"

lemma thread_list_cong [fundef_cong]:
  assumes "xs = ys" and "\<And>x s. x \<in> set ys \<Longrightarrow> f x s = g x s" and "s = s'"
  shows "thread_list f xs s = thread_list g ys s'"
  using assms(2) unfolding assms(1,3)
  by (induction ys arbitrary: s') (auto split: sum.splits prod.splits)

function execute_query ::
  "('d, 'f) options \<Rightarrow> ('d, 'f) search_options \<Rightarrow> ('d, 'f) search_options \<Rightarrow> ('d, 'f) query \<Rightarrow> 'f minisearch
   \<Rightarrow> ms_error + (scored_docs \<times> 'f minisearch)" where
  "execute_query opts global so Wildcard ms = Inr (execute_wildcard_query (override global so) ms, ms)"
| "execute_query opts global so (Combination so2 queries) ms =
     (let so = override so so2
      in case thread_list (execute_query opts global so) queries ms of
           Inl e \<Rightarrow> Inl e
         | Inr (results, ms) \<Rightarrow>
            (case combine_results results (so_combine_with so) of Inl e \<Rightarrow> Inl e | Inr r \<Rightarrow> Inr (r, ms)))"
| "execute_query opts global so (Text text) ms =
     (let so = override global so; terms = query_terms opts so text
      in case thread_list (execute_query_spec opts so) (map (term_to_query_spec so terms) [0..<length terms]) ms of
           Inl e \<Rightarrow> Inl e
         | Inr (results, ms) \<Rightarrow>
            (case combine_results results (so_combine_with so) of Inl e \<Rightarrow> Inl e | Inr r \<Rightarrow> Inr (r, ms)))"
  by pat_completeness auto
termination
  by (relation "measure (\<lambda>(opts, global, so, q, ms). size q)") (auto simp: less_Suc_eq_le size_list_estimation')

record 'f result =
  re_id :: "'f option"
  re_score :: jsnum
  re_terms :: "string list"
  re_query_terms :: "string list"
  re_match :: "(string \<times> string list) list"
  re_stored :: "'f stored"

definition by_score :: "'f result \<Rightarrow> 'f result \<Rightarrow> jsnum" where
  "by_score a b = js_sub (re_score b) (re_score a)"

definition search_result :: "'f minisearch \<Rightarrow> nat \<times> scored \<Rightarrow> 'f result" where
  "search_result ms = (\<lambda>(doc, r).
     (let quality = (if rr_terms r = [] then 1 else length (rr_terms r))
      in \<lparr>re_id = map_of (ms_document_ids ms) doc, re_score = js_mul (rr_score r) (JNum (real quality)),
          re_terms = object_keys (rr_match r), re_query_terms = rr_terms r, re_match = rr_match r,
          re_stored = the_or [] (map_of (ms_stored ms) doc)\<rparr>))"

definition ms_search ::
  "('d, 'f) options \<Rightarrow> ('d, 'f) search_options \<Rightarrow> ('d, 'f) search_options \<Rightarrow> ('f result \<Rightarrow> bool) option
   \<Rightarrow> ('d, 'f) query \<Rightarrow> 'f minisearch \<Rightarrow> ms_error + ('f result list \<times> 'f minisearch)" where
  "ms_search opts global so keep q ms =
     (case execute_query opts global so q ms of
        Inl e \<Rightarrow> Inl e
      | Inr (raw, ms) \<Rightarrow>
         (let results = filter (the_or (\<lambda>_. True) keep) (map (search_result ms) raw)
          in Inr (if (case q of Wildcard \<Rightarrow> so_boost_document (override global so) = None | _ \<Rightarrow> False) then results
                  else js_sort by_score results, ms)))"

record suggestion =
  su_suggestion :: string
  su_terms :: "string list"
  su_score :: jsnum

definition by_suggestion_score :: "suggestion \<Rightarrow> suggestion \<Rightarrow> jsnum" where
  "by_suggestion_score a b = js_sub (su_score b) (su_score a)"

definition note_suggestion ::
  "(string \<times> jsnum \<times> string list \<times> nat) list \<Rightarrow> 'f result \<Rightarrow> (string \<times> jsnum \<times> string list \<times> nat) list" where
  "note_suggestion m r =
     (let phrase = join_with '' '' (re_terms r)
      in AList.update phrase
           (case map_of m phrase of
              Some (score, terms, n) \<Rightarrow> (js_add score (re_score r), terms, n + 1)
            | None \<Rightarrow> (re_score r, re_terms r, 1)) m)"

definition auto_suggest ::
  "('d, 'f) options \<Rightarrow> ('d, 'f) search_options \<Rightarrow> ('d, 'f) search_options \<Rightarrow> ('f result \<Rightarrow> bool) option
   \<Rightarrow> string \<Rightarrow> 'f minisearch \<Rightarrow> ms_error + (suggestion list \<times> 'f minisearch)" where
  "auto_suggest opts global so keep text ms =
     (case ms_search opts global (override default_auto_suggest_options so) keep (Text text) ms of
        Inl e \<Rightarrow> Inl e
      | Inr (results, ms) \<Rightarrow>
          Inr (js_sort by_suggestion_score
                 (map (\<lambda>(phrase, score, terms, n). \<lparr>su_suggestion = phrase, su_terms = terms, su_score = js_div score (JNum (real n))\<rparr>)
                    (foldl note_suggestion [] results)), ms))"

end
