(* ===== verification/IndexState.thy ===== *)
theory IndexState
  imports IndexTerms MiniQuery
begin

text \<open>
  What an index of \<open>minisearch\<close> keeps true of its documents, and what each operation does to the
  documents, the counts of their terms, and the average lengths of their fields.
\<close>

definition ms_ok :: "'f minisearch \<Rightarrow> bool" where
  "ms_ok ms \<longleftrightarrow>
     index_ok (ms_index ms) \<and>
     (\<forall>t f d. 0 < freq (ms_index ms) t f d \<longrightarrow> d < ms_next_id ms) \<and>
     (\<forall>i d. map_of (ms_id_to_short ms) i = Some d \<longleftrightarrow> map_of (ms_document_ids ms) d = Some i) \<and>
     (\<forall>d \<in> fst ` set (ms_document_ids ms). d < ms_next_id ms) \<and>
     fst ` set (ms_stored ms) \<subseteq> fst ` set (ms_document_ids ms) \<and>
     fst ` set (ms_field_length ms) \<subseteq> fst ` set (ms_document_ids ms) \<and>
     distinct (map fst (ms_document_ids ms)) \<and> distinct (map fst (ms_stored ms)) \<and>
     distinct (map fst (ms_field_length ms)) \<and>
     ms_document_count ms = int (length (ms_document_ids ms))"

lemma ms_okD:
  assumes "ms_ok ms"
  shows "index_ok (ms_index ms)"
    and "0 < freq (ms_index ms) t f d \<Longrightarrow> d < ms_next_id ms"
    and "map_of (ms_id_to_short ms) i = Some d \<longleftrightarrow> map_of (ms_document_ids ms) d = Some i"
    and "d \<in> fst ` set (ms_document_ids ms) \<Longrightarrow> d < ms_next_id ms"
    and "fst ` set (ms_stored ms) \<subseteq> fst ` set (ms_document_ids ms)"
    and "fst ` set (ms_field_length ms) \<subseteq> fst ` set (ms_document_ids ms)"
    and "distinct (map fst (ms_document_ids ms))"
    and "distinct (map fst (ms_stored ms))"
    and "distinct (map fst (ms_field_length ms))"
    and "ms_document_count ms = int (length (ms_document_ids ms))"
  using assms unfolding ms_ok_def by (elim conjE, (assumption | simp only: | erule (1) bspec))+

lemma next_id_fresh: "ms_ok ms \<Longrightarrow> ms_next_id ms \<notin> fst ` set (ms_document_ids ms)"
  using ms_okD(4) by blast

lemma length_delete:
  "distinct (map fst m) \<Longrightarrow> k \<in> fst ` set m \<Longrightarrow> Suc (length (AList.delete k m)) = length m"
proof (induction m)
  case (Cons e m)
  show ?case
  proof (cases "fst e = k")
    case True
    with Cons.prems have "k \<notin> fst ` set m" by auto
    then have "AList.delete k m = m" by (simp add: delete_id)
    with True show ?thesis by (cases e) (simp add: AList.delete_eq)
  next
    case False
    with Cons show ?thesis by (cases e) (auto simp: AList.delete_eq)
  qed
qed simp

subsection \<open>The terms of a document\<close>

definition terms_of :: "('d, 'f) options \<Rightarrow> 'd \<Rightarrow> string \<Rightarrow> string list" where
  "terms_of opts d field = (case field_tokens opts d field of None \<Rightarrow> [] | Some ts \<Rightarrow> field_terms opts field ts)"

definition occurrences :: "('d, 'f) options \<Rightarrow> 'f minisearch \<Rightarrow> 'd \<Rightarrow> string list \<Rightarrow> string \<Rightarrow> nat \<Rightarrow> nat" where
  "occurrences opts ms d fs t f =
     (\<Sum>field\<leftarrow>fs. if f = field_id ms field then count_list (terms_of opts d field) t else 0)"

lemma occurrences_simps [simp]:
  "occurrences opts ms d [] t f = 0"
  "occurrences opts ms d (field # fs) t f =
     (if f = field_id ms field then count_list (terms_of opts d field) t else 0) + occurrences opts ms d fs t f"
  by (simp_all add: occurrences_def)

text \<open>What indexing the fields of a document leaves alone.\<close>

definition same_documents :: "'f minisearch \<Rightarrow> 'f minisearch \<Rightarrow> bool" where
  "same_documents ms ms' \<longleftrightarrow>
     ms_document_count ms' = ms_document_count ms \<and> ms_document_ids ms' = ms_document_ids ms \<and>
     ms_id_to_short ms' = ms_id_to_short ms \<and> ms_field_ids ms' = ms_field_ids ms \<and>
     ms_next_id ms' = ms_next_id ms \<and> ms_stored ms' = ms_stored ms \<and> ms_dirt ms' = ms_dirt ms"

lemma same_documents_refl [simp]: "same_documents ms ms"
  by (simp add: same_documents_def)

lemma same_documents_trans: "same_documents a b \<Longrightarrow> same_documents b c \<Longrightarrow> same_documents a c"
  by (simp add: same_documents_def)

lemma same_documents_field_id: "same_documents ms ms' \<Longrightarrow> field_id ms' field = field_id ms field"
  by (simp add: same_documents_def field_id_def)

lemma same_documents_occurrences:
  "same_documents ms ms' \<Longrightarrow> occurrences opts ms' d fs t f = occurrences opts ms d fs t f"
  by (simp add: occurrences_def same_documents_field_id)

text \<open>Two maps that may differ at one key.\<close>

definition same_but :: "'k \<Rightarrow> ('k \<times> 'v) list \<Rightarrow> ('k \<times> 'v) list \<Rightarrow> bool" where
  "same_but k m m' \<longleftrightarrow> distinct (map fst m') = distinct (map fst m) \<and> AList.delete k m' = AList.delete k m"

lemma same_but_refl [simp]: "same_but k m m"
  by (simp add: same_but_def)

lemma same_but_trans: "same_but k a b \<Longrightarrow> same_but k b c \<Longrightarrow> same_but k a c"
  by (simp add: same_but_def)

lemma fst_update: "fst ` set (AList.update k v m) = insert k (fst ` set m)"
  using dom_map_of_conv_image_fst[of "AList.update k v m"] dom_map_of_conv_image_fst[of m]
  by (simp add: js_simps)

lemma distinct_update: "distinct (map fst (AList.update k v m)) = distinct (map fst m)"
  by (induction m) (auto simp: fst_update image_iff)

lemma fst_delete: "fst ` set (AList.delete k m) = fst ` set m - {k}"
  by (auto simp: set_delete)

lemma same_but_update [simp]: "same_but k m (AList.update k v m)"
  by (simp add: same_but_def distinct_update AList.delete_update_same)

lemma same_but_dom: "same_but k m m' \<Longrightarrow> fst ` set m' \<subseteq> insert k (fst ` set m)"
  using fst_delete[of k m] fst_delete[of k m'] by (auto simp: same_but_def)

lemma same_but_map_of: "same_but k m m' \<Longrightarrow> k' \<noteq> k \<Longrightarrow> map_of m' k' = map_of m k'"
  by (metis AList.map_of_delete same_but_def)

lemma add_field_same:
  "same_documents ms (add_field opts doc d ms field)"
  "same_but doc (ms_field_length ms) (ms_field_length (add_field opts doc d ms field))"
  by (simp_all add: add_field_def add_field_length_def same_documents_def Let_def split: option.split)

lemma remove_field_same:
  "same_documents ms (remove_field opts doc d ms field)"
  "ms_field_length (remove_field opts doc d ms field) = ms_field_length ms"
  by (simp_all add: remove_field_def remove_field_length_def same_documents_def Let_def split: option.split)

lemma foldl_related:
  assumes "\<And>a. R a a" "\<And>a b c. R a b \<Longrightarrow> R b c \<Longrightarrow> R a c" "\<And>a x. R a (g a x)"
  shows "R a (foldl g a xs)"
  by (induction xs arbitrary: a) (auto simp: assms(1) intro: assms(2,3))

lemma add_fields_same:
  "same_documents ms (foldl (add_field opts doc d) ms fs)"
  "same_but doc (ms_field_length ms) (ms_field_length (foldl (add_field opts doc d) ms fs))"
  by (rule foldl_related, simp, blast intro: same_documents_trans same_but_trans, rule add_field_same)+

lemma remove_fields_same:
  "same_documents ms (foldl (remove_field opts doc d) ms fs)"
  "ms_field_length (foldl (remove_field opts doc d) ms fs) = ms_field_length ms"
  by (rule foldl_related, simp, blast intro: same_documents_trans, rule remove_field_same)
    (induction fs arbitrary: ms, simp_all add: remove_field_same)

lemma add_field_ok:
  assumes "index_ok (ms_index ms)"
  shows "index_ok (ms_index (add_field opts doc d ms field))"
    and "freq (ms_index (add_field opts doc d ms field)) t f e = freq (ms_index ms) t f e +
      (if f = field_id ms field \<and> e = doc then count_list (terms_of opts d field) t else 0)"
  using assms add_terms_ok[OF assms]
  by (auto simp: add_field_def add_field_length_def terms_of_def Let_def split: option.split)

lemma remove_field_ok:
  assumes "index_ok (ms_index ms)"
  shows "index_ok (ms_index (remove_field opts doc d ms field))"
    and "freq (ms_index (remove_field opts doc d ms field)) t f e = freq (ms_index ms) t f e -
      (if f = field_id ms field \<and> e = doc then count_list (terms_of opts d field) t else 0)"
  using assms remove_terms_ok[OF assms]
  by (auto simp: remove_field_def remove_field_length_def terms_of_def Let_def split: option.split)

lemma add_fields_ok:
  assumes "index_ok (ms_index ms)"
  shows "index_ok (ms_index (foldl (add_field opts doc d) ms fs))"
    and "freq (ms_index (foldl (add_field opts doc d) ms fs)) t f e =
      freq (ms_index ms) t f e + (if e = doc then occurrences opts ms d fs t f else 0)"
  using assms
  by (induction fs arbitrary: ms) (simp_all add: add_field_ok same_documents_occurrences[OF add_field_same(1)])

lemma remove_fields_ok:
  assumes "index_ok (ms_index ms)"
  shows "index_ok (ms_index (foldl (remove_field opts doc d) ms fs))"
    and "freq (ms_index (foldl (remove_field opts doc d) ms fs)) t f e =
      freq (ms_index ms) t f e - (if e = doc then occurrences opts ms d fs t f else 0)"
  using assms
  by (induction fs arbitrary: ms) (simp_all add: remove_field_ok same_documents_occurrences[OF remove_field_same(1)])

subsection \<open>Averages\<close>

lemma add_field_average:
  "field_tokens opts d field = None \<or> field_id ms field \<noteq> f \<Longrightarrow>
   map_of (ms_average (add_field opts doc d ms field)) f = map_of (ms_average ms) f"
  by (auto simp: add_field_def add_field_length_def add_average_def Let_def js_simps split: option.split)

lemma remove_field_average:
  "field_tokens opts d field = None \<or> field_id ms field \<noteq> f \<Longrightarrow>
   map_of (ms_average (remove_field opts doc d ms field)) f = map_of (ms_average ms) f"
  by (auto simp: remove_field_def remove_field_length_def remove_average_def Let_def js_simps split: option.split)

subsection \<open>Adding\<close>

lemma save_stored_fields_eq:
  "\<exists>saved. save_stored_fields opts doc d ms = ms\<lparr>ms_stored := saved\<rparr> \<and> same_but doc (ms_stored ms) saved"
proof (cases "op_store_fields opts = []")
  case True
  then show ?thesis by (intro exI[of _ "ms_stored ms"]) (simp add: save_stored_fields_def)
next
  case False
  then obtain v where "save_stored_fields opts doc d ms = ms\<lparr>ms_stored := AList.update doc v (ms_stored ms)\<rparr>"
    by (simp add: save_stored_fields_def Let_def)
  then show ?thesis by (intro exI[of _ "AList.update doc v (ms_stored ms)"]) simp
qed

lemma ms_add_Inr:
  assumes "ms_add opts d ms = Inr ms'"
  obtains i saved where
    "present (op_extract opts d (op_id_field opts)) = Some i" "map_of (ms_id_to_short ms) i = None"
    "same_but (ms_next_id ms) (ms_stored ms) saved"
    "ms' = foldl (add_field opts (ms_next_id ms) d)
       ((fst (add_document_id i ms))\<lparr>ms_stored := saved\<rparr>) (op_fields opts)"
proof -
  obtain i where i: "present (op_extract opts d (op_id_field opts)) = Some i" "map_of (ms_id_to_short ms) i = None"
    using assms by (auto simp: ms_add_def split: option.splits if_splits)
  obtain saved where saved:
    "save_stored_fields opts (ms_next_id ms) d (fst (add_document_id i ms)) = (fst (add_document_id i ms))\<lparr>ms_stored := saved\<rparr>"
    "same_but (ms_next_id ms) (ms_stored (fst (add_document_id i ms))) saved"
    using save_stored_fields_eq[of opts "ms_next_id ms" d "fst (add_document_id i ms)"] by (elim exE conjE)
  show thesis
    using assms i saved by (intro that[OF i, of saved]) (simp_all add: ms_add_def add_document_id_def Let_def)
qed

text \<open>The state after a document was added, field by field.\<close>

lemma ms_add_state:
  assumes "ms_add opts d ms = Inr ms'" "index_ok (ms_index ms)"
  obtains i where
    "present (op_extract opts d (op_id_field opts)) = Some i" "map_of (ms_id_to_short ms) i = None"
    "ms_document_ids ms' = AList.update (ms_next_id ms) i (ms_document_ids ms)"
    "ms_id_to_short ms' = AList.update i (ms_next_id ms) (ms_id_to_short ms)"
    "ms_document_count ms' = ms_document_count ms + 1" "ms_next_id ms' = ms_next_id ms + 1"
    "ms_field_ids ms' = ms_field_ids ms" "ms_dirt ms' = ms_dirt ms"
    "same_but (ms_next_id ms) (ms_stored ms) (ms_stored ms')"
    "same_but (ms_next_id ms) (ms_field_length ms) (ms_field_length ms')"
    "index_ok (ms_index ms')"
    "\<And>t f e. freq (ms_index ms') t f e =
       freq (ms_index ms) t f e + (if e = ms_next_id ms then occurrences opts ms d (op_fields opts) t f else 0)"
proof -
  obtain i saved where i: "present (op_extract opts d (op_id_field opts)) = Some i" "map_of (ms_id_to_short ms) i = None"
      "same_but (ms_next_id ms) (ms_stored ms) saved"
    and ms': "ms' = foldl (add_field opts (ms_next_id ms) d)
       ((fst (add_document_id i ms))\<lparr>ms_stored := saved\<rparr>) (op_fields opts)" (is "_ = foldl _ ?ms0 _")
    using ms_add_Inr[OF assms(1)] .
  have ms0: "ms_document_ids ?ms0 = AList.update (ms_next_id ms) i (ms_document_ids ms)"
      "ms_id_to_short ?ms0 = AList.update i (ms_next_id ms) (ms_id_to_short ms)"
      "ms_document_count ?ms0 = ms_document_count ms + 1" "ms_next_id ?ms0 = ms_next_id ms + 1"
      "ms_field_ids ?ms0 = ms_field_ids ms" "ms_dirt ?ms0 = ms_dirt ms" "ms_stored ?ms0 = saved"
      "ms_field_length ?ms0 = ms_field_length ms" "ms_index ?ms0 = ms_index ms"
    by (simp_all add: add_document_id_def Let_def)
  have occ: "occurrences opts ?ms0 d fs t f = occurrences opts ms d fs t f" for fs t f
    by (simp add: occurrences_def field_id_def ms0(5))
  have ok: "index_ok (ms_index ?ms0)" using assms(2) by (simp add: ms0(9))
  note same = add_fields_same[where ms = ?ms0 and opts = opts and doc = "ms_next_id ms" and d = d
      and fs = "op_fields opts", folded ms']
  note fine = add_fields_ok[OF ok, where opts = opts and doc = "ms_next_id ms" and d = d
      and fs = "op_fields opts", folded ms', unfolded ms0(9) occ]
  show thesis
    using same i(3) unfolding same_documents_def ms0 by (intro that[OF i(1,2)] fine) simp_all
qed

lemma add_keeps_ok:
  assumes "ms_ok ms" "ms_add opts d ms = Inr ms'"
  shows "ms_ok ms'"
proof -
  note ok = ms_okD[OF assms(1)]
  obtain i where i: "map_of (ms_id_to_short ms) i = None"
    and ids: "ms_document_ids ms' = AList.update (ms_next_id ms) i (ms_document_ids ms)"
      "ms_id_to_short ms' = AList.update i (ms_next_id ms) (ms_id_to_short ms)"
      "ms_document_count ms' = ms_document_count ms + 1" "ms_next_id ms' = ms_next_id ms + 1"
    and maps: "same_but (ms_next_id ms) (ms_stored ms) (ms_stored ms')"
      "same_but (ms_next_id ms) (ms_field_length ms) (ms_field_length ms')"
    and ix: "index_ok (ms_index ms')"
    and freq: "\<And>t f e. freq (ms_index ms') t f e =
       freq (ms_index ms) t f e + (if e = ms_next_id ms then occurrences opts ms d (op_fields opts) t f else 0)"
    using ms_add_state[OF assms(2) ok(1)] by metis
  note new = next_id_fresh[OF assms(1)]
  then have none: "map_of (ms_document_ids ms) (ms_next_id ms) = None" by (simp add: map_of_eq_None_iff)
  have i': "map_of (ms_document_ids ms) d \<noteq> Some i" for d using i ok(3)[of i d] by simp
  show ?thesis
    unfolding ms_ok_def
  proof (intro conjI allI ballI impI)
    show "d < ms_next_id ms'" if "0 < freq (ms_index ms') t f d" for t f d
      using that ok(2)[of t f d] unfolding ids freq by (auto split: if_splits)
    show "map_of (ms_id_to_short ms') j = Some d \<longleftrightarrow> map_of (ms_document_ids ms') d = Some j" for j d
      using ok(3)[of j d] i' none unfolding ids js_simps by (cases "j = i"; cases "d = ms_next_id ms") simp_all
    show "d < ms_next_id ms'" if "d \<in> fst ` set (ms_document_ids ms')" for d
      using that ok(4)[of d] unfolding ids fst_update by (elim insertE) simp_all
    show "fst ` set (ms_stored ms') \<subseteq> fst ` set (ms_document_ids ms')"
      "fst ` set (ms_field_length ms') \<subseteq> fst ` set (ms_document_ids ms')"
      unfolding ids fst_update
      by (rule subset_trans[OF same_but_dom[OF maps(1)] insert_mono[OF ok(5)]]
          subset_trans[OF same_but_dom[OF maps(2)] insert_mono[OF ok(6)]])+
    show "distinct (map fst (ms_document_ids ms'))" "distinct (map fst (ms_stored ms'))"
      "distinct (map fst (ms_field_length ms'))"
      using ok(7-9) maps unfolding ids same_but_def distinct_update by simp_all
    show "ms_document_count ms' = int (length (ms_document_ids ms'))"
      using ok(10) new unfolding ids by (simp add: length_update)
  qed (rule ix)
qed

subsection \<open>Removing, discarding, vacuuming\<close>

lemma ms_ok_less:
  assumes "ms_ok ms" "same_documents ms ms'" "ms_field_length ms' = ms_field_length ms" "index_ok (ms_index ms')"
    and "\<And>t f d. freq (ms_index ms') t f d \<le> freq (ms_index ms) t f d"
  shows "ms_ok ms'"
proof -
  note ok = ms_okD[OF assms(1)]
  have "d < ms_next_id ms'" if "0 < freq (ms_index ms') t f d" for t f d
    using ok(2)[of t f d] that assms(2) assms(5)[of t f d] unfolding same_documents_def by simp
  then show ?thesis
    using assms(1,2) unfolding ms_ok_def same_documents_def assms(3) by (simp add: assms(4) del: map_of_eq_Some_iff)
qed

lemma forget_document_ok:
  assumes "ms_ok ms" "map_of (ms_id_to_short ms) i = Some doc"
  shows "ms_ok (forget_document i doc ms)"
proof -
  note ok = ms_okD[OF assms(1)]
  let ?ms = "forget_document i doc ms"
  have f: "ms_index ?ms = ms_index ms" "ms_next_id ?ms = ms_next_id ms"
    "ms_document_ids ?ms = AList.delete doc (ms_document_ids ms)" "ms_id_to_short ?ms = AList.delete i (ms_id_to_short ms)"
    "ms_stored ?ms = AList.delete doc (ms_stored ms)" "ms_field_length ?ms = AList.delete doc (ms_field_length ms)"
    "ms_document_count ?ms = ms_document_count ms - 1"
    by (simp_all add: forget_document_def)
  have doc: "map_of (ms_document_ids ms) doc = Some i" using assms(2) ok(3)[of i doc] by simp
  then have inj: "map_of (ms_document_ids ms) e = Some i \<longleftrightarrow> e = doc" for e
    using assms(2) ok(3)[of i e] by auto
  have "doc \<in> fst ` set (ms_document_ids ms)" using doc by (metis domI dom_map_of_conv_image_fst)
  note len = length_delete[OF ok(7) this]
  show ?thesis
    unfolding ms_ok_def
  proof (intro conjI allI ballI impI)
    show "index_ok (ms_index ?ms)" using ok(1) by (simp add: f)
    show "d < ms_next_id ?ms" if "0 < freq (ms_index ?ms) t f d" for t f d
      using that ok(2)[of t f d] by (simp add: f)
    show "map_of (ms_id_to_short ?ms) j = Some d \<longleftrightarrow> map_of (ms_document_ids ?ms) d = Some j" for j d
      using ok(3)[of j d] inj[of d] doc unfolding f js_simps by (cases "j = i"; cases "d = doc") simp_all
    show "d < ms_next_id ?ms" if "d \<in> fst ` set (ms_document_ids ?ms)" for d
      using that ok(4)[of d] unfolding f fst_delete by blast
    show "fst ` set (ms_stored ?ms) \<subseteq> fst ` set (ms_document_ids ?ms)"
      "fst ` set (ms_field_length ?ms) \<subseteq> fst ` set (ms_document_ids ?ms)"
      using ok(5,6) unfolding f fst_delete by blast+
    show "distinct (map fst (ms_document_ids ?ms))" "distinct (map fst (ms_stored ?ms))"
      "distinct (map fst (ms_field_length ?ms))"
      using ok(7-9) unfolding f by simp_all
    show "ms_document_count ?ms = int (length (ms_document_ids ?ms))" using ok(10) len unfolding f by simp
  qed
qed

lemma ms_remove_Inr:
  assumes "ms_remove opts d ms = Inr ms'"
  obtains i doc where
    "present (op_extract opts d (op_id_field opts)) = Some i" "map_of (ms_id_to_short ms) i = Some doc"
    "ms' = forget_document i doc (foldl (remove_field opts doc d) ms (op_fields opts))"
  using assms by (auto simp: ms_remove_def split: option.splits)

lemma remove_fields_keep_ok:
  assumes "ms_ok ms"
  shows "ms_ok (foldl (remove_field opts doc d) ms fs)"
  using ms_ok_less[OF assms remove_fields_same remove_fields_ok(1)[OF ms_okD(1)[OF assms]]]
  by (simp add: remove_fields_ok(2)[OF ms_okD(1)[OF assms]])

lemma remove_keeps_ok:
  assumes "ms_ok ms" "ms_remove opts d ms = Inr ms'"
  shows "ms_ok ms'"
proof -
  obtain i doc where doc: "map_of (ms_id_to_short ms) i = Some doc"
      and ms': "ms' = forget_document i doc (foldl (remove_field opts doc d) ms (op_fields opts))"
    using ms_remove_Inr[OF assms(2)] .
  show ?thesis unfolding ms'
  proof (rule forget_document_ok)
    show "ms_ok (foldl (remove_field opts doc d) ms (op_fields opts))" by (rule remove_fields_keep_ok[OF assms(1)])
    show "map_of (ms_id_to_short (foldl (remove_field opts doc d) ms (op_fields opts))) i = Some doc"
      using doc remove_fields_same(1)[of ms opts doc d "op_fields opts"] by (simp add: same_documents_def)
  qed
qed

lemma discard_document_Inr:
  assumes "discard_document i ms = Inr ms'"
  obtains doc avgs where "map_of (ms_id_to_short ms) i = Some doc"
    "ms' = (forget_document i doc (ms\<lparr>ms_average := avgs\<rparr>))\<lparr>ms_dirt := Suc (ms_dirt ms)\<rparr>"
proof -
  obtain doc where doc: "map_of (ms_id_to_short ms) i = Some doc"
    using assms by (auto simp: discard_document_def split: option.splits)
  have "\<exists>avgs. foldl (\<lambda>ms (fid, len). remove_field_length fid (ms_document_count ms) len ms) ms ls = ms\<lparr>ms_average := avgs\<rparr>"
    for ls :: "(nat \<times> nat) list"
  proof (induction ls arbitrary: ms)
    case Nil then show ?case by (intro exI[of _ "ms_average ms"]) simp
  next
    case (Cons l ls)
    obtain fid len where l: "l = (fid, len)" by (cases l)
    obtain avgs where "foldl (\<lambda>ms (fid, len). remove_field_length fid (ms_document_count ms) len ms)
        (remove_field_length fid (ms_document_count ms) len ms) ls
        = (remove_field_length fid (ms_document_count ms) len ms)\<lparr>ms_average := avgs\<rparr>"
      using Cons.IH[of "remove_field_length fid (ms_document_count ms) len ms"] by (elim exE)
    then show ?case by (intro exI[of _ avgs]) (simp add: l, simp add: remove_field_length_def)
  qed
  then obtain avgs where "foldl (\<lambda>ms (fid, len). remove_field_length fid (ms_document_count ms) len ms) ms
      (sort_key fst (the_or [] (map_of (ms_field_length ms) doc))) = ms\<lparr>ms_average := avgs\<rparr>"
    by blast
  then show thesis using assms doc by (intro that[of doc avgs]) (auto simp: discard_document_def forget_document_def Let_def)
qed

lemma ms_ok_average [simp]: "ms_ok (ms\<lparr>ms_average := avgs\<rparr>) = ms_ok ms"
  and ms_ok_dirt [simp]: "ms_ok (ms\<lparr>ms_dirt := n\<rparr>) = ms_ok ms"
  by (simp_all add: ms_ok_def del: map_of_eq_Some_iff)

lemma discard_keeps_ok:
  assumes "ms_ok ms" "discard_document i ms = Inr ms'"
  shows "ms_ok ms'"
proof -
  obtain doc avgs where doc: "map_of (ms_id_to_short ms) i = Some doc"
      and ms': "ms' = (forget_document i doc (ms\<lparr>ms_average := avgs\<rparr>))\<lparr>ms_dirt := Suc (ms_dirt ms)\<rparr>"
    using discard_document_Inr[OF assms(2)] .
  have "ms_ok (forget_document i doc (ms\<lparr>ms_average := avgs\<rparr>))"
    using assms(1) doc by (intro forget_document_ok) simp_all
  then show ?thesis unfolding ms' by simp
qed

lemma clear_ok: "ms_ok (ms_clear ms)"
  by (simp add: ms_clear_def ms_ok_def)

lemma new_ok: "new_minisearch (Some names) = Inr ms \<Longrightarrow> ms_ok ms"
  by (auto simp: new_minisearch_def ms_ok_def)

definition live :: "'f minisearch \<Rightarrow> nat set" where
  "live ms = fst ` set (ms_document_ids ms)"

lemma vacuum_state:
  assumes "index_ok (ms_index ms)" "vacuum_conditions_met conds ms"
  shows "\<exists>index. perform_vacuuming conds ms = Inr (ms\<lparr>ms_index := index, ms_dirt := 0\<rparr>) \<and> index_ok index \<and>
    (\<forall>t f d. freq index t f d = (if d \<in> live ms then freq (ms_index ms) t f d else 0))"
proof -
  obtain ts where ts: "sm_keys (ms_index ms) = Some ts" "index_ok (foldl (vacuum_term (live ms)) (ms_index ms) ts)"
    "\<forall>t f d. freq (foldl (vacuum_term (live ms)) (ms_index ms) ts) t f d = (if d \<in> live ms then freq (ms_index ms) t f d else 0)"
    using vacuum_index[OF assms(1), of "live ms"] by (elim exE conjE)
  have "perform_vacuuming conds ms
      = Inr (ms\<lparr>ms_index := foldl (vacuum_term (live ms)) (ms_index ms) ts, ms_dirt := 0\<rparr>)"
    using ts(1) assms(2) by (simp add: perform_vacuuming_def live_def)
  with ts(2,3) show ?thesis by blast
qed

lemma vacuum_keeps_ok:
  assumes "ms_ok ms" "perform_vacuuming conds ms = Inr ms'"
  shows "ms_ok ms'"
proof (cases "vacuum_conditions_met conds ms")
  case True
  obtain index where index: "ms' = ms\<lparr>ms_index := index, ms_dirt := 0\<rparr>" "index_ok index"
      "\<And>t f d. freq index t f d = (if d \<in> live ms then freq (ms_index ms) t f d else 0)"
    using vacuum_state[OF ms_okD(1)[OF assms(1)] True] assms(2) by auto
  have "ms_ok (ms\<lparr>ms_index := index\<rparr>)"
    using assms(1) index(2,3) by (intro ms_ok_less[OF assms(1)]) (simp_all add: same_documents_def)
  then show ?thesis by (simp add: index(1))
qed (use assms in \<open>simp add: perform_vacuuming_def\<close>)

end
