(* ===== verification/IndexSearch.thy ===== *)
theory IndexSearch
  imports IndexState
begin

text \<open>
  Queries of \<open>minisearch\<close>: what a search answers and what it changes.  A search may take postings of
  discarded documents out of the index, and nothing else.
\<close>

definition searched :: "'f minisearch \<Rightarrow> 'f minisearch \<Rightarrow> bool" where
  "searched ms ms' \<longleftrightarrow>
     same_documents ms ms' \<and> ms_field_length ms' = ms_field_length ms \<and> ms_average ms' = ms_average ms \<and>
     (index_ok (ms_index ms) \<longrightarrow> index_ok (ms_index ms') \<and>
       (\<forall>t f d. freq (ms_index ms') t f d \<le> freq (ms_index ms) t f d \<and>
         (d \<in> live ms \<longrightarrow> freq (ms_index ms') t f d = freq (ms_index ms) t f d)))"

definition answers :: "'f minisearch \<Rightarrow> scored_docs \<Rightarrow> bool" where
  "answers ms results \<longleftrightarrow> distinct (map fst results) \<and> fst ` set results \<subseteq> live ms"

lemma searched_refl [simp]: "searched ms ms"
  by (simp add: searched_def)

lemma searched_live: "searched ms ms' \<Longrightarrow> live ms' = live ms"
  by (simp add: searched_def same_documents_def live_def)

lemma searched_trans:
  assumes "searched a b" "searched b c"
  shows "searched a c"
  using assms searched_live[OF assms(1)] unfolding searched_def
  by (auto intro: same_documents_trans) (metis le_trans)

lemma searched_answers: "searched ms ms' \<Longrightarrow> answers ms' results = answers ms results"
  by (simp add: answers_def searched_live)

lemma answers_Nil [simp]: "answers ms []"
  by (simp add: answers_def)

lemma answers_update: "answers ms results \<Longrightarrow> d \<in> live ms \<Longrightarrow> answers ms (AList.update d r results)"
  by (simp add: answers_def distinct_update fst_update)

lemma answers_delete: "answers ms results \<Longrightarrow> answers ms (AList.delete d results)"
  by (auto simp: answers_def set_delete)

lemma searched_ok:
  assumes "ms_ok ms" "searched ms ms'"
  shows "ms_ok ms'"
  using assms ms_okD(1)[OF assms(1)] by (intro ms_ok_less[OF assms(1)]) (simp_all add: searched_def)

text \<open>A step of a query on its results and the index.\<close>

definition goes_on :: "scored_docs \<times> 'f minisearch \<Rightarrow> scored_docs \<times> 'f minisearch \<Rightarrow> bool" where
  "goes_on a b \<longleftrightarrow> searched (snd a) (snd b) \<and> (answers (snd a) (fst a) \<longrightarrow> answers (snd a) (fst b))"

lemma goes_on_refl: "goes_on a a"
  by (simp add: goes_on_def)

lemma goes_on_trans: "goes_on a b \<Longrightarrow> goes_on b c \<Longrightarrow> goes_on a c"
  using searched_trans[of "snd a" "snd b" "snd c"] searched_answers[of "snd a" "snd b"] by (simp add: goes_on_def)

lemma foldl_goes_on:
  assumes "\<And>a x. goes_on a (g a x)"
  shows "goes_on a (foldl g a xs)"
  by (rule foldl_related, rule goes_on_refl, blast intro: goes_on_trans, rule assms)

lemma remove_dead_term:
  assumes "d \<notin> live ms"
  shows "searched ms (ms\<lparr>ms_index := remove_term f d (ms_index ms) t\<rparr>)"
  using assms by (auto simp: searched_def same_documents_def remove_term_ok)

lemma term_document_goes_on:
  "goes_on (snd st) (snd (term_document source derived weight field fid freqs boost p st doc))"
proof -
  obtain matching results ms where st: "st = (matching, results, ms)" by (metis surj_pair)
  show ?thesis
  proof (cases "map_of (ms_document_ids ms) doc")
    case None
    then have "doc \<notin> live ms" by (simp add: live_def map_of_eq_None_iff)
    from remove_dead_term[OF this] show ?thesis by (simp add: st term_document_def goes_on_def None)
  next
    case (Some i)
    then have "doc \<in> live ms" unfolding live_def by (metis domI dom_map_of_conv_image_fst)
    then show ?thesis
      by (auto simp: st term_document_def goes_on_def Some Let_def add_score_def intro: answers_update)
  qed
qed

lemma term_documents_goes_on:
  "goes_on (snd st) (snd (foldl (term_document source derived weight field fid freqs boost p) st docs))"
  by (rule foldl_related[where R = "\<lambda>a b. goes_on (snd a) (snd b)"])
    (rule goes_on_refl, blast intro: goes_on_trans, rule term_document_goes_on)

lemma term_results_goes_on:
  "goes_on st (term_results source derived w b data boosts boost p st)"
proof (cases data)
  case (Some ps)
  show ?thesis
    unfolding term_results_def Some option.case
  proof (rule foldl_goes_on)
    fix a :: "scored_docs \<times> 'a minisearch" and field
    obtain results ms where a: "a = (results, ms)" by (cases a)
    show "goes_on a ((\<lambda>(results, ms) field.
             (case Option.bind (map_of (ms_field_ids ms) field) (map_of ps) of
                None \<Rightarrow> (results, ms)
              | Some freqs \<Rightarrow>
                 (let field_boost = the_or (JNum 1) (map_of boosts field);
                      weight = js_mul (js_mul w b) field_boost
                  in snd (foldl (term_document source derived weight field (field_id ms field) freqs boost p)
                            (int (length freqs), results, ms) (map fst freqs))))) a field)"
      using term_documents_goes_on[of "(_, results, ms)"]
      by (simp add: a goes_on_refl Let_def split: option.split)
  qed
qed (simp add: term_results_def goes_on_refl)

lemma execute_query_spec_goes_on:
  "case execute_query_spec opts so q ms of Inl e \<Rightarrow> True | Inr st \<Rightarrow> goes_on ([], ms) st"
  unfolding execute_query_spec_def Let_def
  by (simp add: case_prod_beta split: sum.split del: split_paired_All, intro allI impI)
    (rule goes_on_trans[OF goes_on_trans[OF term_results_goes_on foldl_goes_on] foldl_goes_on],
      simp_all add: term_results_goes_on case_prod_beta)

lemma execute_query_spec_ok:
  "execute_query_spec opts so q ms = Inr (results, ms') \<Longrightarrow> searched ms ms' \<and> answers ms results"
  using execute_query_spec_goes_on[where opts = opts and so = so and q = q and ms = ms] by (simp add: goes_on_def)

text \<open>Several queries, one after the other.\<close>

lemma thread_list_ok:
  assumes "\<And>x s y s'. x \<in> set xs \<Longrightarrow> f x s = Inr (y, s') \<Longrightarrow> searched s s' \<and> answers s y"
    and "thread_list f xs ms = Inr (ys, ms')"
  shows "searched ms ms' \<and> list_all (answers ms) ys"
  using assms
proof (induction xs arbitrary: ms ys)
  case (Cons x xs)
  obtain y s ys' where y: "f x ms = Inr (y, s)" and ys: "thread_list f xs s = Inr (ys', ms')" "ys = y # ys'"
    using Cons.prems(2) by (auto split: sum.splits)
  have x: "searched ms s" "answers ms y" using Cons.prems(1)[OF _ y] by simp_all
  moreover have "searched s ms' \<and> list_all (answers s) ys'"
    by (rule Cons.IH[OF Cons.prems(1)[OF list.set_intros(2)] ys(1)])
  ultimately show ?case
    using searched_trans searched_answers[OF x(1)] by (auto simp: ys(2) list_all_iff)
qed simp

subsection \<open>Combining\<close>

lemma foldl_answers:
  assumes "answers ms a" "\<And>a x. x \<in> set xs \<Longrightarrow> answers ms a \<Longrightarrow> answers ms (g a x)"
  shows "answers ms (foldl g a xs)"
  using assms by (induction xs arbitrary: a) auto

lemma map_of_live: "answers ms a \<Longrightarrow> map_of a d = Some r \<Longrightarrow> d \<in> live ms"
  unfolding answers_def by (metis domI dom_map_of_conv_image_fst subset_iff)

lemma in_answers: "answers ms a \<Longrightarrow> (d, r) \<in> set a \<Longrightarrow> d \<in> live ms"
  by (force simp: answers_def)

lemma combine_answers:
  assumes "answers ms a" "answers ms b"
  shows "answers ms (combine c a b)"
proof (cases c)
  case Or
  show ?thesis unfolding Or combine.simps combine_or_def
    by (rule foldl_answers) (auto intro: answers_update dest: in_answers[OF assms(2)] simp: assms(1) split: prod.split)
next
  case And
  show ?thesis unfolding And combine.simps combine_and_def
    by (rule foldl_answers) (auto intro: answers_update dest: map_of_live[OF assms(1)] split: prod.split option.split)
next
  case AndNot
  show ?thesis unfolding AndNot combine.simps combine_and_not_def
    by (rule foldl_answers) (auto intro: answers_delete simp: assms(1) split: prod.split)
qed

lemma combine_results_answers:
  assumes "list_all (answers ms) results" "combine_results results name = Inr r"
  shows "answers ms r"
proof (cases results)
  case (Cons r0 rs)
  then obtain c where "r = foldl (combine c) r0 rs"
    using assms(2) by (auto simp: combine_results_def Let_def split: option.splits)
  then show ?thesis
    using assms(1) by (auto simp: Cons list_all_iff intro!: foldl_answers combine_answers)
qed (use assms(2) in \<open>simp add: combine_results_def\<close>)

lemma execute_wildcard_query_answers: "answers ms (execute_wildcard_query so ms)"
  unfolding execute_wildcard_query_def
  by (rule foldl_answers) (force intro: answers_update simp: live_def split: prod.split)+

lemma execute_query_ok:
  "execute_query opts global so q ms = Inr (r, ms') \<Longrightarrow> searched ms ms' \<and> answers ms r"
proof (induction opts global so q ms arbitrary: r ms' rule: execute_query.induct)
  case (1 opts global so ms)
  then show ?case by (auto simp: execute_wildcard_query_answers)
next
  case (2 opts global so so2 queries ms)
  obtain results where results: "thread_list (execute_query opts global (override so so2)) queries ms = Inr (results, ms')"
      "combine_results results (so_combine_with (override so so2)) = Inr r"
    using "2.prems" by (auto simp: Let_def split: sum.splits)
  have "searched ms ms' \<and> list_all (answers ms) results"
    by (rule thread_list_ok[OF _ results(1)]) (rule "2.IH"[OF refl])
  then show ?case using combine_results_answers results(2) by blast
next
  case (3 opts global so str ms)
  let ?so = "override global so"
  let ?ts = "query_terms opts ?so str"
  obtain results where results:
      "thread_list (execute_query_spec opts ?so) (map (term_to_query_spec ?so ?ts) [0..<length ?ts]) ms = Inr (results, ms')"
      "combine_results results (so_combine_with ?so) = Inr r"
    using "3.prems" by (auto simp: Let_def split: sum.splits)
  have "searched ms ms' \<and> list_all (answers ms) results"
    by (rule thread_list_ok[OF _ results(1)]) (rule execute_query_spec_ok)
  then show ?case using combine_results_answers results(2) by blast
qed

subsection \<open>Searching\<close>

lemma ms_search_ok:
  assumes "ms_search opts global so keep q ms = Inr (rs, ms')" "ms_ok ms"
  shows "searched ms ms'" and "distinct (map re_id rs)"
    and "\<forall>r \<in> set rs. \<exists>i. re_id r = Some i \<and> ms_has ms i"
proof -
  obtain raw where raw: "execute_query opts global so q ms = Inr (raw, ms')"
    using assms(1) by (auto simp: ms_search_def Let_def split: sum.splits)
  let ?rs = "map (search_result ms') raw"
  let ?kept = "filter (the_or (\<lambda>_. True) keep) ?rs"
  have "mset rs = mset ?kept"
    using assms(1) by (auto simp: ms_search_def Let_def raw simp del: mset_map mset_filter split: if_splits)
  then have rs: "mset (map re_id rs) = mset (map re_id ?kept)" by (simp only: mset_map)
  have ok: "searched ms ms'" "answers ms raw" using execute_query_ok[OF raw] by simp_all
  then show "searched ms ms'" by simp
  have ids: "ms_document_ids ms' = ms_document_ids ms" using ok(1) by (simp add: searched_def same_documents_def)
  have re: "map re_id ?rs = map (map_of (ms_document_ids ms)) (map fst raw)"
    by (simp add: search_result_def case_prod_beta Let_def ids)
  have lives: "\<exists>i. map_of (ms_document_ids ms) d = Some i \<and> map_of (ms_id_to_short ms) i = Some d" if "d \<in> fst ` set raw" for d
  proof -
    have "d \<in> live ms" using that ok(2) by (auto simp: answers_def)
    then obtain i where "map_of (ms_document_ids ms) d = Some i"
      by (auto simp: live_def map_of_eq_None_iff dest!: weak_map_of_SomeI)
    then show ?thesis using ms_okD(3)[OF assms(2), of i d] by blast
  qed
  have "inj_on (map_of (ms_document_ids ms)) (fst ` set raw)"
    by (rule inj_onI) (use lives in \<open>metis option.inject\<close>)
  then have "distinct (map re_id ?rs)"
    using ok(2) unfolding re by (subst distinct_map) (simp add: answers_def)
  then show "distinct (map re_id rs)"
    unfolding mset_eq_imp_distinct_iff[OF rs] by (rule distinct_map_filter)
  have sub: "re_id ` set rs \<subseteq> map_of (ms_document_ids ms) ` fst ` set raw"
    using mset_eq_setD[OF rs] re by (metis filter_is_subset image_mono list.set_map)
  show "\<forall>r \<in> set rs. \<exists>i. re_id r = Some i \<and> ms_has ms i"
  proof
    fix r assume "r \<in> set rs"
    then have "re_id r \<in> map_of (ms_document_ids ms) ` fst ` set raw" using sub by blast
    then obtain d where "d \<in> fst ` set raw" "re_id r = map_of (ms_document_ids ms) d" by (elim imageE) (metis image_eqI)
    with lives[of d] show "\<exists>i. re_id r = Some i \<and> ms_has ms i" by (metis ms_has_def option.distinct(1))
  qed
qed

end
