(* ===== verification/IndexProps.thy ===== *)
theory IndexProps
  imports IndexSearch
begin

text \<open>
  The promises of \<open>minisearch\<close>: every index that can be built is well formed, adding counts terms and
  removing takes the counts back, discarding then vacuuming is removing, a search answers with live
  documents, and an index survives serialization.
\<close>

subsection \<open>Reachable indexes\<close>

inductive ms_step :: "('d, 'f) options \<Rightarrow> 'f minisearch \<Rightarrow> 'f minisearch \<Rightarrow> bool" for opts where
  added: "ms_add opts d ms = Inr ms' \<Longrightarrow> ms_step opts ms ms'"
| removed: "ms_remove opts d ms = Inr ms' \<Longrightarrow> ms_step opts ms ms'"
| cleared: "ms_step opts ms (ms_clear ms)"
| discarded: "ms_discard opts i ms = Inr (ms', due) \<Longrightarrow> ms_step opts ms ms'"
| replaced: "ms_replace opts d ms = Inr (ms', due) \<Longrightarrow> ms_step opts ms ms'"
| vacuumed: "perform_vacuuming conds ms = Inr ms' \<Longrightarrow> ms_step opts ms ms'"
| queried: "ms_search opts global so keep q ms = Inr (rs, ms') \<Longrightarrow> ms_step opts ms ms'"

inductive reachable :: "('d, 'f) options \<Rightarrow> 'f minisearch \<Rightarrow> bool" for opts where
  created: "new_minisearch (Some (op_fields opts)) = Inr ms \<Longrightarrow> reachable opts ms"
| stepped: "reachable opts ms \<Longrightarrow> ms_step opts ms ms' \<Longrightarrow> reachable opts ms'"

lemma discarded_ok: "ms_ok ms \<Longrightarrow> ms_discard opts i ms = Inr (ms', due) \<Longrightarrow> ms_ok ms'"
  by (auto simp: ms_discard_def intro: discard_keeps_ok split: sum.splits)

lemma step_keeps_ok: "ms_step opts ms ms' \<Longrightarrow> ms_ok ms \<Longrightarrow> ms_ok ms'"
proof (induction rule: ms_step.induct)
  case (replaced d ms ms' due)
  then obtain i ms1 where "ms_discard opts i ms = Inr (ms1, due)" "ms_add opts d ms1 = Inr ms'"
    by (auto simp: ms_replace_def split: option.splits sum.splits)
  then show ?case using replaced.prems by (blast intro: discarded_ok add_keeps_ok)
qed (blast intro: add_keeps_ok remove_keeps_ok clear_ok discarded_ok vacuum_keeps_ok searched_ok ms_search_ok(1))+

lemma reachable_ok: "reachable opts ms \<Longrightarrow> ms_ok ms"
  by (induction rule: reachable.induct) (auto intro: new_ok step_keeps_ok)

subsection \<open>Averages of the fields a document lacks\<close>

definition lacks_field :: "('d, 'f) options \<Rightarrow> 'f minisearch \<Rightarrow> 'd \<Rightarrow> nat \<Rightarrow> bool" where
  "lacks_field opts ms d f \<longleftrightarrow>
     list_all (\<lambda>x. field_tokens opts d x = None \<or> field_id ms x \<noteq> f) (op_fields opts)"

lemma add_fields_average:
  "list_all (\<lambda>x. field_tokens opts d x = None \<or> field_id ms x \<noteq> f) fs \<Longrightarrow>
   map_of (ms_average (foldl (add_field opts doc d) ms fs)) f = map_of (ms_average ms) f"
proof (induction fs arbitrary: ms)
  case (Cons x fs)
  have "field_id (add_field opts doc d ms x) = field_id ms"
    by (intro ext same_documents_field_id[OF add_field_same(1)])
  then show ?case using Cons by (simp add: add_field_average)
qed simp

lemma remove_fields_average:
  "list_all (\<lambda>x. field_tokens opts d x = None \<or> field_id ms x \<noteq> f) fs \<Longrightarrow>
   map_of (ms_average (foldl (remove_field opts doc d) ms fs)) f = map_of (ms_average ms) f"
proof (induction fs arbitrary: ms)
  case (Cons x fs)
  have "field_id (remove_field opts doc d ms x) = field_id ms"
    by (intro ext same_documents_field_id[OF remove_field_same(1)])
  then show ?case using Cons by (simp add: remove_field_average)
qed simp

subsection \<open>Adding and removing\<close>

lemma ms_has_iff: "ms_ok ms \<Longrightarrow> ms_has ms i \<longleftrightarrow> (\<exists>d. map_of (ms_document_ids ms) d = Some i)"
  using ms_okD(3)[of ms i] by (auto simp: ms_has_def simp del: map_of_eq_Some_iff)

lemma distinct_ids:
  assumes "ms_ok ms"
  shows "distinct (map snd (ms_document_ids ms))"
proof -
  note ok = ms_okD[OF assms]
  have "inj_on snd (set (ms_document_ids ms))"
  proof (rule inj_onI)
    fix x y assume x: "x \<in> set (ms_document_ids ms)" and y: "y \<in> set (ms_document_ids ms)" and eq: "snd x = snd y"
    have "map_of (ms_document_ids ms) (fst x) = Some (snd x)" "map_of (ms_document_ids ms) (fst y) = Some (snd y)"
      using x y ok(7) by simp_all
    then have "map_of (ms_id_to_short ms) (snd x) = Some (fst x)" "map_of (ms_id_to_short ms) (snd y) = Some (fst y)"
      using ok(3) by blast+
    with eq show "x = y" by (simp add: prod_eq_iff)
  qed
  then show ?thesis using ok(7) by (simp add: distinct_map)
qed

lemma count_is_card:
  assumes "ms_ok ms"
  shows "ms_document_count ms = int (card {i. ms_has ms i})"
proof -
  have "{i. ms_has ms i} = set (map snd (ms_document_ids ms))"
    using ms_okD(7)[OF assms] by (force simp: ms_has_iff[OF assms] image_iff)
  then show ?thesis using ms_okD(10)[OF assms] distinct_card[OF distinct_ids[OF assms]] by simp
qed

lemma ms_add_cases:
  "ms_add opts d ms =
     (case present (op_extract opts d (op_id_field opts)) of
        None \<Rightarrow> Inl (MissingId (op_id_field opts))
      | Some i \<Rightarrow> if ms_has ms i then Inl DuplicateId else Inr (projr (ms_add opts d ms)))"
  by (simp add: ms_add_def ms_has_def Let_def split: option.split prod.split)

lemma add_document_effect:
  assumes "ms_ok ms" "ms_add opts d ms = Inr ms'" "present (op_extract opts d (op_id_field opts)) = Some i"
  shows "ms_has ms' = (ms_has ms)(i := True)"
    and "ms_document_count ms' = ms_document_count ms + 1"
    and "freq (ms_index ms') t f e =
       freq (ms_index ms) t f e + (if e = ms_next_id ms then occurrences opts ms d (op_fields opts) t f else 0)"
    and "j \<noteq> i \<Longrightarrow> get_stored_fields ms' j = get_stored_fields ms j"
proof -
  note st = ms_add_state[OF assms(2) ms_okD(1)[OF assms(1)]]
  show "ms_has ms' = (ms_has ms)(i := True)" "ms_document_count ms' = ms_document_count ms + 1"
    "freq (ms_index ms') t f e =
       freq (ms_index ms) t f e + (if e = ms_next_id ms then occurrences opts ms d (op_fields opts) t f else 0)"
    by (rule st, use assms(3) in \<open>auto simp: ms_has_def js_simps fun_eq_iff\<close>)+
  show "get_stored_fields ms' j = get_stored_fields ms j" if "j \<noteq> i"
  proof (rule st)
    fix i'
    assume "present (op_extract opts d (op_id_field opts)) = Some i'"
      and short: "ms_id_to_short ms' = AList.update i' (ms_next_id ms) (ms_id_to_short ms)"
      and stored: "same_but (ms_next_id ms) (ms_stored ms) (ms_stored ms')"
    then have j: "map_of (ms_id_to_short ms') j = map_of (ms_id_to_short ms) j"
      using that assms(3) by (simp add: js_simps)
    have "e \<noteq> ms_next_id ms" if "map_of (ms_id_to_short ms) j = Some e" for e
      using that ms_okD(3)[OF assms(1), of j e] next_id_fresh[OF assms(1)] by (metis domI dom_map_of_conv_image_fst)
    then show ?thesis
      using same_but_map_of[OF stored] by (auto simp: get_stored_fields_def j split: option.split)
  qed
qed

lemma add_remove_state:
  assumes "ms_ok ms" "ms_add opts d ms = Inr ms1"
  shows "\<exists>ms2. ms_remove opts d ms1 = Inr ms2 \<and>
    ms_document_ids ms2 = ms_document_ids ms \<and> ms_id_to_short ms2 = ms_id_to_short ms \<and>
    ms_stored ms2 = ms_stored ms \<and> ms_field_length ms2 = ms_field_length ms \<and>
    ms_document_count ms2 = ms_document_count ms \<and>
    (\<forall>t f e. freq (ms_index ms2) t f e = freq (ms_index ms) t f e) \<and>
    (\<forall>f. lacks_field opts ms d f \<longrightarrow> map_of (ms_average ms2) f = map_of (ms_average ms) f)"
proof -
  note ok = ms_okD[OF assms(1)]
  obtain i where i: "present (op_extract opts d (op_id_field opts)) = Some i" "map_of (ms_id_to_short ms) i = None"
    and ids: "ms_document_ids ms1 = AList.update (ms_next_id ms) i (ms_document_ids ms)"
      "ms_id_to_short ms1 = AList.update i (ms_next_id ms) (ms_id_to_short ms)"
      "ms_document_count ms1 = ms_document_count ms + 1" "ms_field_ids ms1 = ms_field_ids ms"
    and maps: "same_but (ms_next_id ms) (ms_stored ms) (ms_stored ms1)"
      "same_but (ms_next_id ms) (ms_field_length ms) (ms_field_length ms1)"
    and ix: "index_ok (ms_index ms1)"
    and freq: "\<And>t f e. freq (ms_index ms1) t f e =
       freq (ms_index ms) t f e + (if e = ms_next_id ms then occurrences opts ms d (op_fields opts) t f else 0)"
    using ms_add_state[OF assms(2) ok(1)] by metis
  let ?doc = "ms_next_id ms"
  let ?ms = "foldl (remove_field opts ?doc d) ms1 (op_fields opts)"
  let ?ms2 = "forget_document i ?doc ?ms"
  have fid: "field_id ms1 = field_id ms" by (simp add: fun_eq_iff field_id_def ids(4))
  have occ: "occurrences opts ms1 d fs t f = occurrences opts ms d fs t f" for fs t f
    by (simp add: occurrences_def fid)
  note same = remove_fields_same[where ms = ms1 and opts = opts and doc = ?doc and d = d and fs = "op_fields opts",
      unfolded same_documents_def]
  note new = next_id_fresh[OF assms(1)]
  have fresh: "?doc \<notin> fst ` set (ms_stored ms)" "?doc \<notin> fst ` set (ms_field_length ms)"
    "i \<notin> fst ` set (ms_id_to_short ms)"
    using new ok(5,6) i(2) by (blast, blast, simp add: map_of_eq_None_iff)
  have "ms_remove opts d ms1 = Inr ?ms2" by (simp add: ms_remove_def i(1) ids(2) js_simps)
  moreover have "ms_document_ids ?ms2 = ms_document_ids ms" "ms_id_to_short ?ms2 = ms_id_to_short ms"
    "ms_stored ?ms2 = ms_stored ms" "ms_field_length ?ms2 = ms_field_length ms"
    "ms_document_count ?ms2 = ms_document_count ms"
    using same maps new fresh ids by (simp_all add: forget_document_def AList.delete_update_same same_but_def)
  moreover have "freq (ms_index ?ms2) t f e = freq (ms_index ms) t f e" for t f e
    by (simp add: forget_document_def remove_fields_ok(2)[OF ix] freq occ)
  moreover have "map_of (ms_average ?ms2) f = map_of (ms_average ms) f" if "lacks_field opts ms d f" for f
  proof -
    obtain saved where ms1: "ms1 = foldl (add_field opts ?doc d)
        ((fst (add_document_id i ms))\<lparr>ms_stored := saved\<rparr>) (op_fields opts)" (is "_ = foldl _ ?ms0 _")
      using ms_add_Inr[OF assms(2)] i(1) by (metis option.inject)
    have ms0: "field_id ?ms0 = field_id ms" "ms_average ?ms0 = ms_average ms"
      by (simp_all add: fun_eq_iff field_id_def add_document_id_def Let_def)
    have "map_of (ms_average ms1) f = map_of (ms_average ms) f"
      unfolding ms1 using that by (subst add_fields_average) (simp_all add: lacks_field_def ms0)
    then show ?thesis
      using remove_fields_average[of opts d ms1 f "op_fields opts"] that
      by (simp add: lacks_field_def fid forget_document_def)
  qed
  ultimately show ?thesis by blast
qed

subsection \<open>Discarding\<close>

lemma discard_effect:
  assumes "ms_ok ms" "map_of (ms_id_to_short ms) i = Some doc"
  shows "\<exists>ms'. discard_document i ms = Inr ms' \<and> ms_index ms' = ms_index ms \<and> ms_dirt ms' = Suc (ms_dirt ms) \<and>
    ms_document_ids ms' = AList.delete doc (ms_document_ids ms) \<and>
    ms_id_to_short ms' = AList.delete i (ms_id_to_short ms) \<and>
    ms_stored ms' = AList.delete doc (ms_stored ms) \<and>
    ms_field_length ms' = AList.delete doc (ms_field_length ms) \<and>
    ms_document_count ms' = ms_document_count ms - 1"
proof -
  obtain ms' where ms': "discard_document i ms = Inr ms'" using assms(2) by (auto simp: discard_document_def Let_def)
  then obtain doc' avgs where "map_of (ms_id_to_short ms) i = Some doc'"
      "ms' = (forget_document i doc' (ms\<lparr>ms_average := avgs\<rparr>))\<lparr>ms_dirt := Suc (ms_dirt ms)\<rparr>"
    by (rule discard_document_Inr)
  with ms' show ?thesis by (intro exI[of _ ms']) (simp add: assms(2) forget_document_def)
qed

lemma remove_effect:
  assumes "ms_ok ms" "present (op_extract opts d (op_id_field opts)) = Some i" "map_of (ms_id_to_short ms) i = Some doc"
  shows "\<exists>ms'. ms_remove opts d ms = Inr ms' \<and>
    ms_document_ids ms' = AList.delete doc (ms_document_ids ms) \<and>
    ms_id_to_short ms' = AList.delete i (ms_id_to_short ms) \<and>
    ms_stored ms' = AList.delete doc (ms_stored ms) \<and>
    ms_field_length ms' = AList.delete doc (ms_field_length ms) \<and>
    ms_document_count ms' = ms_document_count ms - 1 \<and>
    (\<forall>t f e. freq (ms_index ms') t f e =
      freq (ms_index ms) t f e - (if e = doc then occurrences opts ms d (op_fields opts) t f else 0))"
  using remove_fields_same[where ms = ms and opts = opts and doc = doc and d = d and fs = "op_fields opts"]
  by (simp add: ms_remove_def assms(2,3) forget_document_def same_documents_def
      remove_fields_ok(2)[OF ms_okD(1)[OF assms(1)]])

text \<open>The postings of an index are of documents it has or of discarded ones.\<close>

definition clean :: "'f minisearch \<Rightarrow> bool" where
  "clean ms \<longleftrightarrow> (\<forall>t f d. 0 < freq (ms_index ms) t f d \<longrightarrow> d \<in> live ms)"

lemma discard_vacuum_state:
  assumes "ms_ok ms" "map_of (ms_id_to_short ms) i = Some doc"
    and "present (op_extract opts d (op_id_field opts)) = Some i"
    and "clean ms" and "\<And>t f. freq (ms_index ms) t f doc = occurrences opts ms d (op_fields opts) t f"
  shows "\<exists>removed gone vacuumed. ms_remove opts d ms = Inr removed \<and>
    discard_document i ms = Inr gone \<and> ms_vacuum gone = Inr vacuumed \<and>
    ms_document_ids vacuumed = ms_document_ids removed \<and> ms_id_to_short vacuumed = ms_id_to_short removed \<and>
    ms_stored vacuumed = ms_stored removed \<and> ms_field_length vacuumed = ms_field_length removed \<and>
    ms_document_count vacuumed = ms_document_count removed \<and>
    (\<forall>t f e. freq (ms_index vacuumed) t f e = freq (ms_index removed) t f e)"
proof -
  obtain removed where r: "ms_remove opts d ms = Inr removed"
    "ms_document_ids removed = AList.delete doc (ms_document_ids ms)"
    "ms_id_to_short removed = AList.delete i (ms_id_to_short ms)"
    "ms_stored removed = AList.delete doc (ms_stored ms)"
    "ms_field_length removed = AList.delete doc (ms_field_length ms)"
    "ms_document_count removed = ms_document_count ms - 1"
    "\<And>t f e. freq (ms_index removed) t f e =
      freq (ms_index ms) t f e - (if e = doc then occurrences opts ms d (op_fields opts) t f else 0)"
    using remove_effect[OF assms(1,3,2)] by (elim exE conjE) metis
  obtain gone where g: "discard_document i ms = Inr gone" "ms_index gone = ms_index ms"
    "ms_document_ids gone = AList.delete doc (ms_document_ids ms)"
    "ms_id_to_short gone = AList.delete i (ms_id_to_short ms)"
    "ms_stored gone = AList.delete doc (ms_stored ms)"
    "ms_field_length gone = AList.delete doc (ms_field_length ms)"
    "ms_document_count gone = ms_document_count ms - 1"
    using discard_effect[OF assms(1,2)] by blast
  have "index_ok (ms_index gone)" using ms_okD(1)[OF assms(1)] g(2) by simp
  then obtain index where v: "ms_vacuum gone = Inr (gone\<lparr>ms_index := index, ms_dirt := 0\<rparr>)"
    "\<And>t f e. freq index t f e = (if e \<in> live gone then freq (ms_index gone) t f e else 0)"
    using vacuum_state[of gone None] by (auto simp: ms_vacuum_def vacuum_conditions_met_def)
  have "live gone = live ms - {doc}" by (simp add: live_def g(3) fst_delete)
  moreover have "e \<notin> live ms \<Longrightarrow> freq (ms_index ms) t f e = 0" for t f e using assms(4) unfolding clean_def by blast
  ultimately have "freq index t f e = freq (ms_index removed) t f e" for t f e
    by (cases "e = doc") (simp_all add: v(2) r(7) g(2) assms(5))
  then show ?thesis
    by (intro exI[of _ removed] exI[of _ gone] exI[of _ "gone\<lparr>ms_index := index, ms_dirt := 0\<rparr>"])
      (simp add: r(1-6) g v(1))
qed

subsection \<open>Serialization\<close>

lemma update_fresh_key: "k \<notin> fst ` set m \<Longrightarrow> AList.update k v m = m @ [(k, v)]"
  by (induction m) auto

lemma numeric_map_id: "distinct (map fst m) \<Longrightarrow> numeric_map m = m"
proof -
  have "distinct (map fst (a @ m)) \<Longrightarrow> foldl (\<lambda>m (k, v). AList.update k v m) a m = a @ m" for a :: "(nat \<times> 'a) list"
    by (induction m arbitrary: a) (auto simp: update_fresh_key)
  from this[of "[]"] show "distinct (map fst m) \<Longrightarrow> numeric_map m = m" by (simp add: numeric_map_def)
qed

lemma num_object_perm: "mset (num_object m) = mset m" "set (num_object m) = set m"
  "distinct (map fst (num_object m)) = distinct (map fst m)" "length (num_object m) = length m"
  "(num_object m = []) = (m = [])"
proof -
  show m: "mset (num_object m) = mset m" by (simp add: num_object_def)
  show "set (num_object m) = set m" using m by (rule mset_eq_setD)
  have "mset (map fst (num_object m)) = mset (map fst m)" using m by (simp only: mset_map)
  then show "distinct (map fst (num_object m)) = distinct (map fst m)" by (rule mset_eq_imp_distinct_iff)
  show "length (num_object m) = length m" using m by (rule mset_eq_length)
  then show "(num_object m = []) = (m = [])" by (metis length_0_conv)
qed

lemma map_of_num_object: "distinct (map fst m) \<Longrightarrow> map_of (num_object m) = map_of m"
  using map_of_inject_set[of "num_object m" m] by (simp add: num_object_perm)

text \<open>The postings of a term, written and read back.\<close>

definition written :: "postings \<Rightarrow> postings" where
  "written ps = num_object (map (\<lambda>(fid, docs). (fid, num_object docs)) ps)"

definition read_back :: "postings \<Rightarrow> postings" where
  "read_back data = foldl (\<lambda>m (fid, docs). AList.update fid (numeric_map docs) m) [] data"

lemma map_of_map_snd: "map_of (map (\<lambda>(k, v). (k, g v)) m) k = map_option g (map_of m k)"
  by (induction m) auto

lemma read_back_map: "read_back data = numeric_map (map (\<lambda>(f, docs). (f, numeric_map docs)) data)"
  by (simp add: read_back_def numeric_map_def foldl_map case_prod_beta[abs_def])

lemma read_written:
  assumes "tidy ps"
  shows "tidy (read_back (written ps))"
    and "read_back (written ps) = [] \<longleftrightarrow> ps = []"
    and "posted (read_back (written ps)) f d = posted ps f d"
proof -
  let ?ps = "map (\<lambda>(fid, docs). (fid, num_object docs)) ps"
  have keys: "map fst ?ps = map fst ps" by (induction ps) auto
  have "numeric_map docs = docs" if "(f, docs) \<in> set (written ps)" for f docs
    using that assms by (intro numeric_map_id)
      (auto simp: written_def num_object_perm tidy_def tidy_docs_def)
  then have "map (\<lambda>(f, docs). (f, numeric_map docs)) (written ps) = written ps"
    by (intro map_idI) auto
  moreover have dist: "distinct (map fst (written ps))"
    using assms unfolding written_def num_object_perm keys by (simp add: tidy_def)
  ultimately have eq: "read_back (written ps) = written ps"
    by (simp add: read_back_map numeric_map_id)
  show "tidy (read_back (written ps))"
    using assms dist unfolding eq
    by (fastforce simp: tidy_def written_def num_object_perm tidy_docs_def)
  show "read_back (written ps) = [] \<longleftrightarrow> ps = []" unfolding eq by (simp add: written_def num_object_perm)
  have "map_of (written ps) f = map_option num_object (map_of ps f)"
    using assms keys map_of_num_object[of ?ps] by (simp add: written_def tidy_def map_of_map_snd del: map_map)
  then show "posted (read_back (written ps)) f d = posted ps f d"
    using assms tidy_docsD[OF assms, of f] unfolding eq posted_def
    by (cases "map_of ps f") (simp_all add: map_of_num_object tidy_docs_def)
qed

lemma set_all_terms:
  assumes "distinct (map fst es)" "\<forall>(t, ps) \<in> set es. ps \<noteq> [] \<and> tidy ps"
  shows "index_ok (foldl (\<lambda>index (t, ps). sm_set t ps index) new_index es)"
    and "sm_get (foldl (\<lambda>index (t, ps). sm_set t ps index) new_index es) = map_of es"
proof -
  let ?index = "foldl (\<lambda>index (t, ps). sm_set t ps index) new_index es"
  have "wf_node (sm_tree new_index)" by (rule index_okD(1)[OF index_ok_new(1)])
  note all = radix.set_all[OF this, of es]
  have "distinct (map fst (rev es))" using assms(1) by (simp flip: rev_map)
  then have "map_of (rev es) = map_of es" using assms(1) by (simp add: map_of_inject_set)
  moreover have "sm_get new_index t = None" for t unfolding new_index_def by (rule radix.get_empty)
  ultimately show get: "sm_get ?index = map_of es"
    using all by (simp add: map_add_def fun_eq_iff split: option.split)
  have "sm_prefix (foldl (\<lambda>index (t, ps). sm_set t ps index) ix es) = sm_prefix ix" for ix :: "(char, postings) smap"
    by (induction es arbitrary: ix) (auto simp: sm_set_def)
  then have "sm_prefix ?index = []" using index_okD(2)[OF index_ok_new(1)] by simp
  moreover have "ps \<noteq> [] \<and> tidy ps" if "map_of es t = Some ps" for t ps
    using assms(2) map_of_SomeD[OF that] by blast
  ultimately show "index_ok ?index"
    using all unfolding index_ok_def get by blast
qed

lemma option_eq_by_Some: "(\<And>d. x = Some d \<longleftrightarrow> y = Some d) \<Longrightarrow> x = y"
  by (cases y) auto

lemma short_ids:
  fixes m :: "('f \<times> nat) list"
  shows "map_of (foldl (\<lambda>m (doc, i). AList.update i doc m) m ids) = map_of m ++ map_of (rev (map prod.swap ids))"
proof -
  have "foldl (\<lambda>m (doc, i). AList.update i doc m) m ids
      = foldl (\<lambda>m (k, v). AList.update k v m) m (map prod.swap ids)"
    by (simp add: foldl_map case_prod_beta[abs_def])
  then show ?thesis using js_map.set_all[of m "map prod.swap ids"] by simp
qed

lemma json_state:
  assumes "ms_ok ms"
  shows "\<exists>js ms'. to_json ms = Inr js \<and> load_js js (Some names) = Inr ms' \<and> ms_ok ms' \<and>
    map_of (ms_document_ids ms') = map_of (ms_document_ids ms) \<and>
    map_of (ms_id_to_short ms') = map_of (ms_id_to_short ms) \<and>
    map_of (ms_stored ms') = map_of (ms_stored ms) \<and>
    map_of (ms_field_length ms') = map_of (ms_field_length ms) \<and>
    ms_document_count ms' = ms_document_count ms \<and> ms_field_ids ms' = ms_field_ids ms \<and>
    ms_average ms' = ms_average ms \<and> ms_next_id ms' = ms_next_id ms \<and> ms_dirt ms' = ms_dirt ms \<and>
    (\<forall>t f d. freq (ms_index ms') t f d = freq (ms_index ms) t f d)"
proof -
  note ok = ms_okD[OF assms]
  obtain es where es: "sm_entries (ms_index ms) = Some es" "distinct (map fst es)"
      "set es = {(t, sm_get (ms_index ms) t) |t. sm_get (ms_index ms) t \<noteq> None}"
    using index_terms[OF ok(1)] by blast
  let ?out = "map (\<lambda>(t, ps). (t, written (the_or [] ps))) es"
  let ?in = "map (\<lambda>(t, data). (t, read_back data)) ?out"
  have in_fst: "map fst ?in = map fst es" by (induction es) auto
  have all: "\<forall>(t, ps) \<in> set ?in. ps \<noteq> [] \<and> tidy ps"
    using ok(1) by (auto simp: es(3) read_written index_ok_def)
  note set_all = set_all_terms[OF _ all, unfolded in_fst, OF es(2)]
  let ?ids = "num_object (ms_document_ids ms)"
  let ?index = "foldl (\<lambda>index (t, ps). sm_set t ps index) new_index ?in"
  let ?short = "foldl (\<lambda>m (doc, i). AList.update i doc m) [] ?ids"
  have load: "foldl (\<lambda>index (term, data).
        sm_set term (foldl (\<lambda>m (fid, docs). AList.update fid (numeric_map docs) m) [] data) index) new_index ?out = ?index"
    by (simp add: foldl_map case_prod_beta[abs_def] read_back_def)
  define ms' where "ms' = ms\<lparr>ms_index := ?index, ms_document_ids := ?ids, ms_id_to_short := ?short,
    ms_field_length := num_object (ms_field_length ms), ms_stored := num_object (ms_stored ms)\<rparr>"
  have dist: "distinct (map fst ?ids)" "distinct (map fst (num_object (ms_field_length ms)))"
    "distinct (map fst (num_object (ms_stored ms)))"
    using ok(7-9) by (simp_all only: num_object_perm)
  obtain js where js: "to_json ms = Inr js" "load_js js (Some names) = Inr ms'"
    using es(1) by (simp add: to_json_def load_js_def instantiate_minisearch_def new_minisearch_def Let_def
        numeric_map_id dist written_def[symmetric] load ms'_def)
  have freq: "freq ?index t f d = freq (ms_index ms) t f d" for t f d
  proof (cases "sm_get (ms_index ms) t")
    case None
    then have "t \<notin> fst ` set ?in" by (auto simp: es(3))
    then show ?thesis by (simp only: freq_def set_all(2) None map_of_eq_None_iff[symmetric])
  next
    case (Some ps)
    then have "(t, read_back (written ps)) \<in> set ?in" by (force simp: es(3))
    moreover have "distinct (map fst ?in)" unfolding in_fst by (rule es(2))
    ultimately have "map_of ?in t = Some (read_back (written ps))" by (rule map_of_is_SomeI[rotated])
    then show ?thesis using ok(1) Some by (simp only: freq_def set_all(2)) (simp add: read_written index_ok_def)
  qed
  have short: "map_of ?short i = Some d \<longleftrightarrow> map_of (ms_document_ids ms) d = Some i" for i d
  proof -
    have "mset (map fst (rev (map prod.swap ?ids))) = mset (map snd (ms_document_ids ms))"
      by (simp add: multiset.map_comp comp_def num_object_perm)
    then have "distinct (map fst (rev (map prod.swap ?ids)))"
      using distinct_ids[OF assms] mset_eq_imp_distinct_iff by blast
    then have "map_of (rev (map prod.swap ?ids)) i = Some d \<longleftrightarrow> (i, d) \<in> set (rev (map prod.swap ?ids))"
      by (rule map_of_eq_Some_iff)
    moreover have "(i, d) \<in> set (rev (map prod.swap ?ids)) \<longleftrightarrow> (d, i) \<in> set (ms_document_ids ms)"
      by (force simp: num_object_perm image_iff prod.swap_def)
    ultimately show ?thesis
      unfolding short_ids map_of_eq_Some_iff[OF ok(7)] by (simp only: map_of.simps empty_map_add)
  qed
  have "map_of ?short = map_of (ms_id_to_short ms)"
  proof
    fix i
    have "map_of ?short i = Some d \<longleftrightarrow> map_of (ms_id_to_short ms) i = Some d" for d
      using short[of i d] ok(3)[of i d] by (rule trans[OF _ sym])
    then show "map_of ?short i = map_of (ms_id_to_short ms) i" by (rule option_eq_by_Some)
  qed
  moreover have "map_of ?ids = map_of (ms_document_ids ms)"
    "map_of (num_object (ms_stored ms)) = map_of (ms_stored ms)"
    "map_of (num_object (ms_field_length ms)) = map_of (ms_field_length ms)"
    using ok(7-9) by (simp_all only: map_of_num_object)
  moreover have "ms_ok ms'"
    unfolding ms_ok_def
  proof (intro conjI allI ballI impI)
    show "index_ok (ms_index ms')" using set_all(1) by (simp add: ms'_def)
    show "d < ms_next_id ms'" if "0 < freq (ms_index ms') t f d" for t f d
      using that ok(2)[of t f d] by (simp add: ms'_def freq del: map_map)
    show "map_of (ms_id_to_short ms') i = Some d \<longleftrightarrow> map_of (ms_document_ids ms') d = Some i" for i d
      using short[of i d] map_of_num_object[OF ok(7)] by (simp add: ms'_def del: map_of_eq_Some_iff)
    show "d < ms_next_id ms'" if "d \<in> fst ` set (ms_document_ids ms')" for d
      using that ok(4)[of d] by (simp add: ms'_def num_object_perm)
  qed (use ok(5-10) in \<open>simp_all add: ms'_def num_object_perm\<close>)
  ultimately show ?thesis using js freq by (intro exI[of _ js] exI[of _ ms']) (simp add: ms'_def del: map_map)
qed

subsection \<open>The promises\<close>

text \<open>
  C16.  Every index that can be reached from a new one by adding, removing, clearing, discarding,
  replacing, vacuuming and searching is well formed: its search tree and postings are, ids and short
  ids are inverse to each other, every short id is below the next one, stored fields and lengths are
  of documents it has.  Its document count is the number of ids it answers \<open>has\<close> for, and the terms
  of the tree are those that occur somewhere.
\<close>

theorem index_always_well_formed:
  assumes "reachable opts ms"
  shows "ms_ok ms \<and> ms_document_count ms = int (card {i. ms_has ms i}) \<and>
    (\<forall>t. sm_has (ms_index ms) t = (\<exists>f d. 0 < freq (ms_index ms) t f d))"
  using reachable_ok[OF assms] count_is_card index_term_occurs ms_okD(1) by blast

text \<open>Documents with string fields, tokens the whole field, every token a term.\<close>

definition demo_options :: "((string \<times> string) list, string) options" where
  "demo_options =
     \<lparr>op_fields = [''title''], op_id_field = ''id'',
      op_extract = (\<lambda>d field. case map_of d field of None \<Rightarrow> Undefined | Some v \<Rightarrow> Present v),
      op_stringify = (\<lambda>v _. v), op_tokenize = (\<lambda>v _. [v]), op_process = (\<lambda>t _. OneTerm t),
      op_store_fields = [], op_auto_vacuum = None\<rparr>"

definition demo_index :: "string minisearch" where
  "demo_index = projr (new_minisearch (Some (op_fields demo_options)))"

definition demo_document :: "(string \<times> string) list" where
  "demo_document = [(''id'', ''a''), (''title'', ''zen'')]"

definition demo_added :: "string minisearch" where
  "demo_added = projr (ms_add demo_options demo_document demo_index)"

lemma demo_new: "new_minisearch (Some (op_fields demo_options)) = Inr demo_index"
  by (simp add: demo_index_def new_minisearch_def)

lemma demo_reachable: "reachable demo_options demo_index"
  by (rule created[OF demo_new])

lemma demo_id: "present (op_extract demo_options demo_document (op_id_field demo_options)) = Some ''a''"
  by (simp add: demo_options_def demo_document_def present_def)

lemma demo_not_there: "\<not> ms_has demo_index i"
  by (simp add: demo_index_def new_minisearch_def ms_has_def)

lemma demo_add: "ms_add demo_options demo_document demo_index = Inr demo_added"
  using ms_add_cases[of demo_options demo_document demo_index] by (simp add: demo_id demo_not_there demo_added_def)

lemma demo_occurs: "occurrences demo_options ms demo_document (op_fields demo_options) ''zen'' (field_id ms ''title'') = 1"
  by (simp add: demo_options_def demo_document_def occurrences_def terms_of_def field_tokens_def field_terms_def
      present_def processed_terms_def)

lemma index_always_well_formed_witness:
  "ms_ok demo_added \<and> ms_document_count demo_added = int (card {i. ms_has demo_added i})"
  using index_always_well_formed[OF stepped[OF demo_reachable added[OF demo_add]]] by blast

text \<open>
  What \<open>add\<close> does, on every branch: a document without an id is refused, one whose id is in the
  index is refused, any other is added.  Then exactly its id is new, the count rises by one, the
  stored fields of the others stay, and the postings grow by the occurrences of the document's terms
  under its fresh short id.
\<close>

theorem add_counts_terms:
  assumes "reachable opts ms"
  shows "case present (op_extract opts d (op_id_field opts)) of
      None \<Rightarrow> ms_add opts d ms = Inl (MissingId (op_id_field opts))
    | Some i \<Rightarrow>
        if ms_has ms i then ms_add opts d ms = Inl DuplicateId
        else \<exists>ms'. ms_add opts d ms = Inr ms' \<and> ms_has ms' = (ms_has ms)(i := True) \<and>
          ms_document_count ms' = ms_document_count ms + 1 \<and>
          (\<forall>t f e. freq (ms_index ms') t f e = freq (ms_index ms) t f e +
             (if e = ms_next_id ms then occurrences opts ms d (op_fields opts) t f else 0)) \<and>
          (\<forall>t f. freq (ms_index ms) t f (ms_next_id ms) = 0) \<and>
          (\<forall>j \<in> - {i}. get_stored_fields ms' j = get_stored_fields ms j)"
proof (cases "present (op_extract opts d (op_id_field opts))")
  case (Some i)
  note ok = reachable_ok[OF assms]
  have "freq (ms_index ms) t f (ms_next_id ms) = 0" for t f using ms_okD(2)[OF ok, of t f "ms_next_id ms"] by auto
  moreover have "\<not> ms_has ms i \<Longrightarrow> \<exists>ms'. ms_add opts d ms = Inr ms'"
    using ms_add_cases[of opts d ms] by (simp add: Some) blast
  ultimately show ?thesis
    using ms_add_cases[of opts d ms] add_document_effect[OF ok _ Some] by (auto simp: Some)
qed (simp add: ms_add_def)

lemma add_counts_terms_witness:
  "ms_add demo_options demo_document demo_index = Inr demo_added \<and> ms_has demo_added ''a'' \<and>
   freq (ms_index demo_added) ''zen'' (field_id demo_index ''title'') (ms_next_id demo_index) = 1"
  using add_counts_terms[OF demo_reachable, of demo_document] demo_add
  by (auto simp: demo_id demo_not_there demo_occurs)

text \<open>
  C17.  Adding a document and removing it gives back the index there was, except for the short id
  spent and the average lengths of the document's own fields, which come back rounded: the same
  documents, ids, stored fields, lengths, count and postings, and the same average length of every
  field the document lacks.
\<close>

theorem add_then_remove:
  assumes "reachable opts ms" and "ms_add opts d ms = Inr ms1"
  shows "\<exists>ms2. ms_remove opts d ms1 = Inr ms2 \<and>
    ms_document_ids ms2 = ms_document_ids ms \<and> ms_id_to_short ms2 = ms_id_to_short ms \<and>
    ms_stored ms2 = ms_stored ms \<and> ms_field_length ms2 = ms_field_length ms \<and>
    ms_document_count ms2 = ms_document_count ms \<and>
    (\<forall>t f e. freq (ms_index ms2) t f e = freq (ms_index ms) t f e) \<and>
    (\<forall>f. lacks_field opts ms d f \<longrightarrow> map_of (ms_average ms2) f = map_of (ms_average ms) f)"
  using add_remove_state[OF reachable_ok[OF assms(1)] assms(2)] .

lemma add_then_remove_witness:
  "\<exists>ms2. ms_remove demo_options demo_document demo_added = Inr ms2 \<and> ms_document_ids ms2 = ms_document_ids demo_index"
  using add_then_remove[OF demo_reachable demo_add] by blast

text \<open>
  C18.  Discarding a document and vacuuming is removing it, as the documentation of \<open>discard\<close> says:
  for a document that has not changed since it was indexed, in an index without discarded documents,
  both leave the same documents, ids, stored fields, lengths, count and postings.
\<close>

theorem discard_and_vacuum_is_remove:
  assumes "reachable opts ms" and "present (op_extract opts d (op_id_field opts)) = Some i"
    and "map_of (ms_id_to_short ms) i = Some doc" and "clean ms"
    and "\<And>t f. freq (ms_index ms) t f doc = occurrences opts ms d (op_fields opts) t f"
  shows "\<exists>removed gone vacuumed. ms_remove opts d ms = Inr removed \<and>
    discard_document i ms = Inr gone \<and> ms_vacuum gone = Inr vacuumed \<and>
    ms_document_ids vacuumed = ms_document_ids removed \<and> ms_id_to_short vacuumed = ms_id_to_short removed \<and>
    ms_stored vacuumed = ms_stored removed \<and> ms_field_length vacuumed = ms_field_length removed \<and>
    ms_document_count vacuumed = ms_document_count removed \<and>
    (\<forall>t f e. freq (ms_index vacuumed) t f e = freq (ms_index removed) t f e)"
  using discard_vacuum_state[OF reachable_ok[OF assms(1)] assms(3,2,4,5)] .

lemma demo_state:
  "map_of (ms_id_to_short demo_added) ''a'' = Some (ms_next_id demo_index)"
  "freq (ms_index demo_added) t f e =
     (if e = ms_next_id demo_index then occurrences demo_options demo_added demo_document (op_fields demo_options) t f else 0)"
  "clean demo_added"
proof -
  have ok: "index_ok (ms_index demo_index)" by (rule ms_okD(1)[OF reachable_ok[OF demo_reachable]])
  have empty: "freq (ms_index demo_index) t f e = 0" for t f e by (simp add: demo_index_def new_minisearch_def)
  obtain i where i: "present (op_extract demo_options demo_document (op_id_field demo_options)) = Some i"
    and st: "ms_document_ids demo_added = AList.update (ms_next_id demo_index) i (ms_document_ids demo_index)"
      "ms_id_to_short demo_added = AList.update i (ms_next_id demo_index) (ms_id_to_short demo_index)"
      "ms_field_ids demo_added = ms_field_ids demo_index"
      "\<And>t f e. freq (ms_index demo_added) t f e = freq (ms_index demo_index) t f e +
         (if e = ms_next_id demo_index then occurrences demo_options demo_index demo_document (op_fields demo_options) t f else 0)"
    using ms_add_state[OF demo_add ok] by metis
  have occ: "occurrences demo_options demo_added demo_document fs t f = occurrences demo_options demo_index demo_document fs t f"
    for fs t f by (simp add: occurrences_def field_id_def st(3))
  show "map_of (ms_id_to_short demo_added) ''a'' = Some (ms_next_id demo_index)"
    using i by (simp add: demo_id st(2) js_simps)
  show "freq (ms_index demo_added) t f e =
     (if e = ms_next_id demo_index then occurrences demo_options demo_added demo_document (op_fields demo_options) t f else 0)"
    by (simp add: st(4) empty occ)
  show "clean demo_added" by (simp add: clean_def st(4) empty live_def st(1) fst_update)
qed

lemma discard_and_vacuum_is_remove_witness:
  "\<exists>removed gone vacuumed. ms_remove demo_options demo_document demo_added = Inr removed \<and>
    discard_document ''a'' demo_added = Inr gone \<and> ms_vacuum gone = Inr vacuumed \<and>
    ms_document_ids vacuumed = ms_document_ids removed"
proof -
  have "freq (ms_index demo_added) t f (ms_next_id demo_index)
      = occurrences demo_options demo_added demo_document (op_fields demo_options) t f" for t f
    by (simp add: demo_state(2))
  from discard_and_vacuum_is_remove[OF stepped[OF demo_reachable added[OF demo_add]] demo_id demo_state(1,3) this]
  show ?thesis by blast
qed

text \<open>
  C19.  A vacuum comes to an end and releases what it should: it succeeds, leaves the documents as they
  are and none discarded, keeps every posting of a live document and no other, so that the terms left
  in the tree are those of live documents.
\<close>

theorem vacuum_releases:
  assumes "reachable opts ms"
  shows "\<exists>ms'. ms_vacuum ms = Inr ms' \<and> ms_document_ids ms' = ms_document_ids ms \<and>
    ms_id_to_short ms' = ms_id_to_short ms \<and> ms_dirt ms' = 0 \<and>
    (\<forall>t f d. freq (ms_index ms') t f d = (if d \<in> live ms then freq (ms_index ms) t f d else 0)) \<and>
    (\<forall>t. sm_has (ms_index ms') t = (\<exists>f d. d \<in> live ms \<and> 0 < freq (ms_index ms) t f d))"
proof -
  obtain index where v: "ms_vacuum ms = Inr (ms\<lparr>ms_index := index, ms_dirt := 0\<rparr>)" "index_ok index"
    "\<And>t f d. freq index t f d = (if d \<in> live ms then freq (ms_index ms) t f d else 0)"
    using vacuum_state[OF ms_okD(1)[OF reachable_ok[OF assms]], of None]
    by (auto simp: ms_vacuum_def vacuum_conditions_met_def)
  then show ?thesis using index_term_occurs[OF v(2)] by (auto split: if_splits)
qed

lemma vacuum_releases_witness: "\<exists>ms'. ms_vacuum demo_added = Inr ms' \<and> ms_dirt ms' = 0"
  using vacuum_releases[OF stepped[OF demo_reachable added[OF demo_add]]] by blast

text \<open>
  C15.  A search answers with live documents, each at most once, whatever the query, its options and
  its filter.  It leaves the documents, their ids and lengths, and the averages as they are, and
  of the postings every one of a live document; it may lower those of discarded documents.
\<close>

theorem search_answers_live_documents:
  assumes "reachable opts ms" and "ms_search opts global so keep q ms = Inr (rs, ms')"
  shows "distinct (map re_id rs) \<and> list_all (\<lambda>r. \<exists>i. re_id r = Some i \<and> ms_has ms i) rs \<and>
    same_documents ms ms' \<and> ms_field_length ms' = ms_field_length ms \<and> ms_average ms' = ms_average ms \<and>
    (\<forall>t f d. freq (ms_index ms') t f d \<le> freq (ms_index ms) t f d \<and>
       (d \<in> live ms \<longrightarrow> freq (ms_index ms') t f d = freq (ms_index ms) t f d))"
  using ms_search_ok[OF assms(2) reachable_ok[OF assms(1)]] ms_okD(1)[OF reachable_ok[OF assms(1)]]
  by (simp add: searched_def list_all_iff)

lemma search_answers_live_documents_witness:
  "\<exists>rs ms'. ms_search demo_options default_search_options no_options None Wildcard demo_added = Inr (rs, ms') \<and>
     distinct (map re_id rs) \<and> list_all (\<lambda>r. \<exists>i. re_id r = Some i \<and> ms_has demo_added i) rs"
proof -
  obtain rs ms' where rs: "ms_search demo_options default_search_options no_options None Wildcard demo_added = Inr (rs, ms')"
    by (simp add: ms_search_def Let_def)
  from search_answers_live_documents[OF stepped[OF demo_reachable added[OF demo_add]] this] rs show ?thesis by blast
qed

text \<open>
  C29.  An index survives \<open>toJSON\<close> and \<open>loadJS\<close>: both succeed, and the index read back is well
  formed and has the same documents, ids, stored fields, lengths, averages, counters and postings.
\<close>

theorem json_roundtrip:
  assumes "reachable opts ms"
  shows "\<exists>js ms'. to_json ms = Inr js \<and> load_js js (Some names) = Inr ms' \<and> ms_ok ms' \<and>
    map_of (ms_document_ids ms') = map_of (ms_document_ids ms) \<and>
    map_of (ms_id_to_short ms') = map_of (ms_id_to_short ms) \<and>
    map_of (ms_stored ms') = map_of (ms_stored ms) \<and>
    map_of (ms_field_length ms') = map_of (ms_field_length ms) \<and>
    ms_document_count ms' = ms_document_count ms \<and> ms_field_ids ms' = ms_field_ids ms \<and>
    ms_average ms' = ms_average ms \<and> ms_next_id ms' = ms_next_id ms \<and> ms_dirt ms' = ms_dirt ms \<and>
    (\<forall>t f d. freq (ms_index ms') t f d = freq (ms_index ms) t f d)"
  using json_state[OF reachable_ok[OF assms]] .

lemma json_roundtrip_witness:
  "\<exists>js ms'. to_json demo_added = Inr js \<and> load_js js (Some [''title'']) = Inr ms' \<and>
     freq (ms_index ms') ''zen'' 0 0 = freq (ms_index demo_added) ''zen'' 0 0"
  using json_roundtrip[OF stepped[OF demo_reachable added[OF demo_add]], of "[''title'']"] by blast

end
