(* ===== verification/LayoutSort.thy ===== *)
theory LayoutSort
  imports JsBase "HOL-Library.Multiset"
begin

text \<open>
  \<open>Quicksort\<close> of \<open>layout-base\<close> (\<open>docs/.vitepress/cache/deps/cytoscape-cose-bilkent.js\<close>) on an array, in
  place, and that it sorts.  The comparison is always the default one, whatever the caller passes: the
  condition of the constructor holds of every argument.  On a \<open>LinkedList\<close> it throws, because
  \<open>get_object_at\<close> calls a number.
\<close>

subsection \<open>Definitions\<close>

text \<open>Reading outside the array gives \<open>undefined\<close>, which no comparison holds for.\<close>

definition qs_get :: "'a list \<Rightarrow> int \<Rightarrow> 'a option" where
  "qs_get A i = (if 0 \<le> i \<and> i < int (length A) then Some (A ! nat i) else None)"

fun default_compare :: "'a::linorder option \<Rightarrow> 'a option \<Rightarrow> bool" where
  "default_compare (Some a) (Some b) = (b > a)"
| "default_compare _ _ = False"

definition qs_swap :: "'a list \<Rightarrow> int \<Rightarrow> int \<Rightarrow> 'a list" where
  "qs_swap A i j = js_swap A (nat i) (nat j)"

function qs_down :: "'a::linorder list \<Rightarrow> 'a option \<Rightarrow> int \<Rightarrow> int" where
  "qs_down A x j = (if default_compare x (qs_get A j) then qs_down A x (j - 1) else j)"
  by pat_completeness auto
termination
  by (relation "measure (\<lambda>(A, x, j). nat (j + 1))")
    (auto simp: qs_get_def elim!: default_compare.elims split: if_splits)

function qs_up :: "'a::linorder list \<Rightarrow> 'a option \<Rightarrow> int \<Rightarrow> int" where
  "qs_up A x i = (if default_compare (qs_get A i) x then qs_up A x (i + 1) else i)"
  by pat_completeness auto
termination
  by (relation "measure (\<lambda>(A, x, i). nat (int (length A) - i))")
    (auto simp: qs_get_def elim!: default_compare.elims split: if_splits)

declare qs_down.simps [simp del] qs_up.simps [simp del]

lemma qs_down_le: "qs_down A x j \<le> j"
  by (induction A x j rule: qs_down.induct) (subst qs_down.simps, auto)

lemma qs_up_ge: "i \<le> qs_up A x i"
  by (induction A x i rule: qs_up.induct) (subst qs_up.simps, auto)

text \<open>The loop of \<open>_partition\<close>: the array and the place where it parts.\<close>

function partition_loop :: "'a::linorder list \<Rightarrow> 'a option \<Rightarrow> int \<Rightarrow> int \<Rightarrow> 'a list \<times> int" where
  "partition_loop A x i j =
     (let j' = qs_down A x j; i' = qs_up A x i
      in if i' < j' then partition_loop (qs_swap A i' j') x (i' + 1) (j' - 1) else (A, j'))"
  by pat_completeness auto
termination
proof (relation "measure (\<lambda>(A, x, i, j). nat (j - i))")
  fix A and x :: "'a option" and i j i' j' :: int
  assume "j' = qs_down A x j" "i' = qs_up A x i" "i' < j'"
  then show "((qs_swap A i' j', x, i' + 1, j' - 1), (A, x, i, j)) \<in> measure (\<lambda>(A, x, i, j). nat (j - i))"
    using qs_down_le[of A x j] qs_up_ge[of i A x] by auto
qed simp

declare partition_loop.simps [simp del]

definition qs_partition :: "'a::linorder list \<Rightarrow> int \<Rightarrow> int \<Rightarrow> 'a list \<times> int" where
  "qs_partition A p r = partition_loop A (qs_get A p) p r"

partial_function (option) qs_sort :: "'a::linorder list \<Rightarrow> int \<Rightarrow> int \<Rightarrow> 'a list option" where
  "qs_sort A p r =
     (if p < r then
        (case qs_partition A p r of
           (A, q) \<Rightarrow> Option.bind (qs_sort A p q) (\<lambda>A. qs_sort A (q + 1) r))
      else Some A)"

definition quicksort :: "'a::linorder list \<Rightarrow> 'a list option" where
  "quicksort A = qs_sort A 0 (int (length A) - 1)"

subsection \<open>The scans\<close>

lemma qs_get_in [simp]: "i < length A \<Longrightarrow> qs_get A (int i) = Some (A ! i)"
  by (simp add: qs_get_def)

lemma qs_down_step:
  "j < length A \<Longrightarrow> x < A ! j \<Longrightarrow> qs_down A (Some x) (int j) = qs_down A (Some x) (int j - 1)"
  "j < length A \<Longrightarrow> \<not> x < A ! j \<Longrightarrow> qs_down A (Some x) (int j) = int j"
  by (subst qs_down.simps, simp)+

lemma qs_up_step:
  "i < length A \<Longrightarrow> A ! i < x \<Longrightarrow> qs_up A (Some x) (int i) = qs_up A (Some x) (int (Suc i))"
  "i < length A \<Longrightarrow> \<not> A ! i < x \<Longrightarrow> qs_up A (Some x) (int i) = int i"
  by (subst qs_up.simps, simp add: add.commute)+

text \<open>A scan stops at the latest at an entry that is not beyond the pivot.\<close>

lemma qs_down_stops:
  assumes "k \<le> j" "j < length A" "A ! k \<le> x"
  shows "\<exists>m. qs_down A (Some x) (int j) = int m \<and> k \<le> m \<and> m \<le> j \<and> A ! m \<le> x \<and> (\<forall>l. m < l \<and> l \<le> j \<longrightarrow> x < A ! l)"
  using assms
proof (induction j)
  case 0
  then have "qs_down A (Some x) (int 0) = int 0" by (intro qs_down_step(2)) auto
  with 0 show ?case by (intro exI[of _ 0]) auto
next
  case (Suc j)
  show ?case
  proof (cases "x < A ! Suc j")
    case True
    with Suc.prems have "k \<le> j" by (metis le_Suc_eq linorder_not_less)
    with Suc obtain m where m: "qs_down A (Some x) (int j) = int m" "k \<le> m" "m \<le> j" "A ! m \<le> x"
      "\<forall>l. m < l \<and> l \<le> j \<longrightarrow> x < A ! l" by auto
    moreover have "qs_down A (Some x) (int (Suc j)) = qs_down A (Some x) (int j)"
      using qs_down_step(1)[OF Suc.prems(2) True] by simp
    ultimately show ?thesis using True by (intro exI[of _ m]) (auto simp: le_Suc_eq)
  next
    case False
    with qs_down_step(2)[OF Suc.prems(2) False] Suc.prems show ?thesis by (intro exI[of _ "Suc j"]) auto
  qed
qed

lemma qs_up_stops:
  assumes "i \<le> k" "k < length A" "x \<le> A ! k"
  shows "\<exists>m. qs_up A (Some x) (int i) = int m \<and> i \<le> m \<and> m \<le> k \<and> x \<le> A ! m \<and> (\<forall>l. i \<le> l \<and> l < m \<longrightarrow> A ! l < x)"
  using assms
proof (induction "k - i" arbitrary: i)
  case 0
  then have "qs_up A (Some x) (int i) = int i" by (intro qs_up_step(2)) auto
  with 0 show ?case by (intro exI[of _ i]) auto
next
  case (Suc n)
  show ?case
  proof (cases "A ! i < x")
    case True
    with Suc.prems have "i \<noteq> k" by auto
    with Suc have "n = k - Suc i" "Suc i \<le> k" by auto
    with Suc obtain m where m: "qs_up A (Some x) (int (Suc i)) = int m" "Suc i \<le> m" "m \<le> k"
      "x \<le> A ! m" "\<forall>l. Suc i \<le> l \<and> l < m \<longrightarrow> A ! l < x" by blast
    moreover have "qs_up A (Some x) (int i) = qs_up A (Some x) (int (Suc i))"
      using Suc.prems True by (intro qs_up_step(1)) auto
    moreover have "\<forall>l. i \<le> l \<and> l < m \<longrightarrow> A ! l < x"
      using True m(5) by (metis Suc_leI le_neq_implies_less)
    ultimately show ?thesis by (metis Suc_leD)
  next
    case False
    with qs_up_step(2)[of i A x] Suc.prems show ?thesis by (intro exI[of _ i]) auto
  qed
qed

subsection \<open>Partition\<close>

text \<open>\<open>permuted p r\<close>: only the entries from \<open>p\<close> up to \<open>r\<close> have moved, among themselves.\<close>

definition permuted :: "nat \<Rightarrow> nat \<Rightarrow> 'a list \<Rightarrow> 'a list \<Rightarrow> bool" where
  "permuted p n A B \<longleftrightarrow>
     length B = length A \<and> (\<forall>l < length A. l < p \<or> n \<le> l \<longrightarrow> B ! l = A ! l) \<and> mset B = mset A"

lemma permuted_refl [simp]: "permuted p n A A"
  by (simp add: permuted_def)

lemma permuted_trans: "permuted p n A B \<Longrightarrow> permuted p n B C \<Longrightarrow> permuted p n A C"
  by (simp add: permuted_def)

lemma permuted_swap: "p \<le> i \<Longrightarrow> i < n \<Longrightarrow> p \<le> j \<Longrightarrow> j < n \<Longrightarrow> n \<le> length A \<Longrightarrow> permuted p n A (js_swap A i j)"
  by (auto simp: permuted_def js_swap_def mset_swap nth_list_update)

lemma partition_loop_parts:
  assumes "p < n" "n \<le> length A" "p \<le> i" "j < n" "i \<le> Suc j"
    and "\<And>l. p \<le> l \<Longrightarrow> l < i \<Longrightarrow> A ! l \<le> x" "\<And>l. j < l \<Longrightarrow> l < n \<Longrightarrow> x \<le> A ! l"
    and "\<exists>k. p \<le> k \<and> k \<le> j \<and> A ! k \<le> x" "\<exists>k. i \<le> k \<and> k < n \<and> x \<le> A ! k"
  shows "\<exists>B q. partition_loop A (Some x) (int i) (int j) = (B, int q) \<and> permuted p n A B \<and> p \<le> q \<and> q \<le> j \<and>
    (q = j \<longrightarrow> (\<forall>l. i \<le> l \<and> l < j \<longrightarrow> A ! l < x)) \<and>
    (\<forall>l. p \<le> l \<and> l \<le> q \<longrightarrow> B ! l \<le> x) \<and> (\<forall>l. q < l \<and> l < n \<longrightarrow> x \<le> B ! l)"
  using assms
proof (induction "Suc j - i" arbitrary: A i j rule: less_induct)
  case less
  obtain k where k: "p \<le> k" "k \<le> j" "A ! k \<le> x" using less.prems(8) by blast
  obtain k2 where k2: "i \<le> k2" "k2 < n" "x \<le> A ! k2" using less.prems(9) by blast
  have inA: "j < length A" "k2 < length A" using less.prems(2,4) k2(2) by linarith+
  obtain j' where j': "qs_down A (Some x) (int j) = int j'" "k \<le> j'" "j' \<le> j" "A ! j' \<le> x"
    "\<forall>l. j' < l \<and> l \<le> j \<longrightarrow> x < A ! l"
    using qs_down_stops[OF k(2) inA(1) k(3)] by blast
  obtain i' where i': "qs_up A (Some x) (int i) = int i'" "i \<le> i'" "i' \<le> k2" "x \<le> A ! i'"
    "\<forall>l. i \<le> l \<and> l < i' \<longrightarrow> A ! l < x"
    using qs_up_stops[OF k2(1) inA(2) k2(3)] by blast
  have low: "A ! l \<le> x" if "p \<le> l" "l < i'" for l
    using that less.prems(6) i'(5) by (metis less_imp_le not_le)
  have high: "x \<le> A ! l" if "j' < l" "l < n" for l
    using that less.prems(7) j'(5) by (metis less_imp_le not_le)
  show ?case
  proof (cases "i' < j'")
    case False
    then have "partition_loop A (Some x) (int i) (int j) = (A, int j')"
      by (subst partition_loop.simps) (simp add: i'(1) j'(1))
    moreover have "A ! l \<le> x" if "p \<le> l" "l \<le> j'" for l
      using that low j'(4) False by (metis le_neq_implies_less less_le_trans not_le)
    moreover have "j' = j \<longrightarrow> (\<forall>l. i \<le> l \<and> l < j \<longrightarrow> A ! l < x)"
      using False i'(5) by (metis less_le_trans not_le)
    ultimately show ?thesis using high k j' by (intro exI[of _ A] exI[of _ j']) auto
  next
    case True
    let ?B = "js_swap A i' j'"
    have len: "i' < length A" "j' < length A" "p \<le> i'" "j' < n" "p \<le> j'" "i' < n"
      using True j' k less.prems i' by auto
    then have nth: "?B ! l = (if l = i' then A ! j' else if l = j' then A ! i' else A ! l)" if "l < n" for l
      using that less.prems(2) by (auto simp: js_swap_def nth_list_update)
    have step: "partition_loop A (Some x) (int i) (int j) = partition_loop ?B (Some x) (int (Suc i')) (int (j' - 1))"
      using True by (subst partition_loop.simps) (simp add: i'(1) j'(1) qs_swap_def of_nat_diff add.commute)
    have "\<exists>B q. partition_loop ?B (Some x) (int (Suc i')) (int (j' - 1)) = (B, int q) \<and> permuted p n ?B B \<and> p \<le> q \<and>
        q \<le> j' - 1 \<and> (q = j' - 1 \<longrightarrow> (\<forall>l. Suc i' \<le> l \<and> l < j' - 1 \<longrightarrow> ?B ! l < x)) \<and> (\<forall>l. p \<le> l \<and> l \<le> q \<longrightarrow> B ! l \<le> x) \<and> (\<forall>l. q < l \<and> l < n \<longrightarrow> x \<le> B ! l)"
    proof (rule less.hyps)
      show "Suc (j' - 1) - Suc i' < Suc j - i" using True j' i' by linarith
      show "?B ! l \<le> x" if "p \<le> l" "l < Suc i'" for l
        using that low j'(4) nth[of l] True len by (auto simp: less_Suc_eq)
      show "x \<le> ?B ! l" if "j' - 1 < l" "l < n" for l
        using that high i'(4) nth[of l] True by (cases "l = j'") auto
      show "\<exists>k. p \<le> k \<and> k \<le> j' - 1 \<and> ?B ! k \<le> x"
        using nth[of i'] len True j'(4) by (intro exI[of _ i']) auto
      show "\<exists>k. Suc i' \<le> k \<and> k < n \<and> x \<le> ?B ! k"
        using nth[of j'] len True i'(4) by (intro exI[of _ j']) auto
    qed (use less.prems len True in \<open>auto simp: js_swap_def\<close>)
    then obtain B q where "partition_loop ?B (Some x) (int (Suc i')) (int (j' - 1)) = (B, int q)" "permuted p n ?B B"
      "p \<le> q" "q \<le> j' - 1" "\<forall>l. p \<le> l \<and> l \<le> q \<longrightarrow> B ! l \<le> x" "\<forall>l. q < l \<and> l < n \<longrightarrow> x \<le> B ! l" by blast
    moreover have "q < j" using True j'(3) calculation(4) by linarith
    moreover have "permuted p n A ?B" using len less.prems(2) by (intro permuted_swap) auto
    ultimately show ?thesis unfolding step
      by (intro exI[of _ B] exI[of _ q]) (simp add: permuted_trans less_imp_le)
  qed
qed

lemma qs_partition_parts:
  assumes "p < r" "r < length A"
  obtains B q where "qs_partition A (int p) (int r) = (B, int q)" "permuted p (Suc r) A B" "p \<le> q" "q < r"
    "\<And>l m. p \<le> l \<Longrightarrow> l \<le> q \<Longrightarrow> q < m \<Longrightarrow> m \<le> r \<Longrightarrow> B ! l \<le> B ! m"
proof -
  have "\<exists>B q. partition_loop A (Some (A ! p)) (int p) (int r) = (B, int q) \<and> permuted p (Suc r) A B \<and> p \<le> q \<and> q \<le> r \<and>
      (q = r \<longrightarrow> (\<forall>l. p \<le> l \<and> l < r \<longrightarrow> A ! l < A ! p)) \<and>
      (\<forall>l. p \<le> l \<and> l \<le> q \<longrightarrow> B ! l \<le> A ! p) \<and> (\<forall>l. q < l \<and> l < Suc r \<longrightarrow> A ! p \<le> B ! l)"
    using assms by (intro partition_loop_parts) auto
  then obtain B q where *: "partition_loop A (Some (A ! p)) (int p) (int r) = (B, int q)" "permuted p (Suc r) A B"
    "p \<le> q" "q \<le> r" "q = r \<longrightarrow> A ! p < A ! p"
    "\<forall>l. p \<le> l \<and> l \<le> q \<longrightarrow> B ! l \<le> A ! p" "\<forall>l. q < l \<and> l < Suc r \<longrightarrow> A ! p \<le> B ! l"
    using assms(1) by blast
  show ?thesis
  proof (rule that)
    show "qs_partition A (int p) (int r) = (B, int q)" using * assms by (simp add: qs_partition_def)
    show "q < r" using *(4,5) by (metis le_neq_implies_less less_irrefl)
    show "B ! l \<le> B ! m" if "p \<le> l" "l \<le> q" "q < m" "m \<le> r" for l m
      using that *(6,7) by (meson le_imp_less_Suc order_trans)
  qed (use * in auto)
qed

subsection \<open>Sorting\<close>

lemma permuted_weaken:
  assumes "permuted p n A B" "p' \<le> p" "n \<le> n'"
  shows "permuted p' n' A B"
  using assms by (auto simp: permuted_def)

lemma permuted_nth:
  assumes "permuted p n A B" "l < length A" "l < p \<or> n \<le> l"
  shows "B ! l = A ! l"
  using assms unfolding permuted_def by blast

text \<open>What holds of all the entries of the moved part is kept.\<close>

lemma permuted_all:
  assumes "permuted p n A B" "n \<le> length A" "p \<le> n" "\<And>l. p \<le> l \<Longrightarrow> l < n \<Longrightarrow> P (A ! l)" "p \<le> l" "l < n"
  shows "P (B ! l)"
proof -
  have parts: "xs = take p xs @ drop p (take n xs) @ drop n xs" for xs :: "'a list"
    using assms(3) by (metis append.assoc append_take_drop_id take_take min.absorb_iff1)
  have "take p B = take p A" "drop n B = drop n A"
    using assms(1-3) by (auto simp: permuted_def intro!: nth_equalityI)
  then have "mset (drop p (take n A)) = mset (drop p (take n B))"
    using assms(1) arg_cong[OF parts[of A], of mset] arg_cong[OF parts[of B], of mset]
    by (simp add: permuted_def)
  then have "set (drop p (take n B)) = set (drop p (take n A))" by (metis mset_eq_setD)
  moreover have "B ! l \<in> set (drop p (take n B))"
    using assms by (auto simp: in_set_conv_nth permuted_def intro!: exI[of _ "l - p"])
  ultimately obtain m where "p + m < n" "B ! l = A ! (p + m)"
    using assms(2,3) by (auto simp: in_set_conv_nth) (metis less_diff_conv add.commute)
  then show ?thesis using assms(4)[of "p + m"] by simp
qed

lemma qs_sort_range:
  assumes "r < length A"
  shows "\<exists>B. qs_sort A (int p) (int r) = Some B \<and> permuted p (Suc r) A B \<and>
    (\<forall>l m. p \<le> l \<and> l \<le> m \<and> m \<le> r \<longrightarrow> B ! l \<le> B ! m)"
  using assms
proof (induction "r - p" arbitrary: A p r rule: less_induct)
  case less
  show ?case
  proof (cases "p < r")
    case False
    then have "l = m" if "p \<le> l" "l \<le> m" "m \<le> r" for l m using that by linarith
    then have "\<forall>l m. p \<le> l \<and> l \<le> m \<and> m \<le> r \<longrightarrow> A ! l \<le> A ! m" by blast
    with False show ?thesis by (subst qs_sort.simps) simp
  next
    case True
    obtain B q where B: "qs_partition A (int p) (int r) = (B, int q)" "permuted p (Suc r) A B" "p \<le> q" "q < r"
      "\<And>l m. p \<le> l \<Longrightarrow> l \<le> q \<Longrightarrow> q < m \<Longrightarrow> m \<le> r \<Longrightarrow> B ! l \<le> B ! m"
      using qs_partition_parts[OF True less.prems] by blast
    have lenB: "length B = length A" using B(2) by (simp add: permuted_def)
    obtain C where C: "qs_sort B (int p) (int q) = Some C" "permuted p (Suc q) B C"
      "\<forall>l m. p \<le> l \<and> l \<le> m \<and> m \<le> q \<longrightarrow> C ! l \<le> C ! m"
      using less.hyps[of q p B] B(3,4) less.prems lenB by force
    have lenC: "length C = length A" using C(2) lenB by (simp add: permuted_def)
    obtain D where D: "qs_sort C (int (Suc q)) (int r) = Some D" "permuted (Suc q) (Suc r) C D"
      "\<forall>l m. Suc q \<le> l \<and> l \<le> m \<and> m \<le> r \<longrightarrow> D ! l \<le> D ! m"
    proof -
      have "r - Suc q < r - p" using B(3,4) by linarith
      from less.hyps[OF this, of C] less.prems lenC that show thesis by fastforce
    qed
    have "qs_sort A (int p) (int r) = Some D"
      using True C(1) D(1) by (subst qs_sort.simps) (simp add: B(1) add.commute)
    moreover have "permuted p (Suc r) A D"
      using B C D permuted_weaken permuted_trans by (meson Suc_leI le_SucI less_imp_le_nat less_le_not_le order_refl)
    moreover have "D ! l \<le> D ! m" if "p \<le> l" "l \<le> m" "m \<le> r" for l m
    proof -
      have low: "D ! k = C ! k" if "k \<le> q" for k
        using permuted_nth[OF D(2), of k] that B(4) less.prems lenC by auto
      have high: "C ! k = B ! k" if "q < k" "k \<le> r" for k
        using permuted_nth[OF C(2), of k] that less.prems lenB by auto
      have apart: "C ! l \<le> C ! k" if "p \<le> l" "l \<le> q" "q < k" "k \<le> r" for l k
        using that B less.prems lenB high
        by (auto intro!: permuted_all[OF C(2), where P = "\<lambda>y. y \<le> B ! k"])
      show ?thesis
      proof (cases "m \<le> q")
        case True
        then show ?thesis using C(3) low that by auto
      next
        case m: False
        show ?thesis
        proof (cases "l \<le> q")
          case True
          have "C ! l \<le> D ! m"
            using that m True apart B less.prems lenC
            by (auto intro!: permuted_all[OF D(2), where P = "\<lambda>y. C ! l \<le> y"])
          then show ?thesis using low True by simp
        next
          case False
          then show ?thesis using D(3) that by auto
        qed
      qed
    qed
    ultimately show ?thesis by blast
  qed
qed

lemma quicksort_sort: "quicksort A = Some (sort A)"
proof (cases "A = []")
  case True
  then show ?thesis by (simp add: quicksort_def qs_sort.simps)
next
  case False
  then obtain B where B: "qs_sort A 0 (int (length A - 1)) = Some B" "permuted 0 (length A) A B"
    "\<forall>l m. l \<le> m \<and> m \<le> length A - 1 \<longrightarrow> B ! l \<le> B ! m"
    using qs_sort_range[of "length A - 1" A 0] by auto
  then have "sorted B" by (auto simp: sorted_iff_nth_mono permuted_def)
  then have "B = sort A" using B(2) by (metis permuted_def properties_for_sort)
  then show ?thesis using B(1) False by (simp add: quicksort_def of_nat_diff Suc_leI)
qed

end
