(* ===== verification/LayoutAlign.thy ===== *)
theory LayoutAlign
  imports JsBase "HOL-Library.Multiset"
begin

text \<open>
  \<open>NeedlemanWunsch\<close> of \<open>layout-base\<close> (\<open>docs/.vitepress/cache/deps/cytoscape-cose-bilkent.js\<close>): the grid of
  scores and the directions back through it, the alignments read off it, and that these are the best.
  The sequences are strings, and a score is a number without overflow or rounding.
\<close>

subsection \<open>The grid\<close>

record 'n scoring =
  sc_match :: 'n
  sc_mismatch :: 'n
  sc_gap :: 'n

definition default_scoring :: "int scoring" where
  "default_scoring = \<lparr>sc_match = 1, sc_mismatch = -1, sc_gap = -1\<rparr>"

text \<open>The directions of a cell: diagonal, up, left.  Those of the first cell are \<open>null\<close>.\<close>

type_synonym directions = "bool \<times> bool \<times> bool"
type_synonym 'n cell = "'n \<times> directions"

definition get_all_indexes :: "'a list \<Rightarrow> 'a \<Rightarrow> nat list" where
  "get_all_indexes arr v = filter (\<lambda>i. arr ! i = v) [0..<length arr]"

definition array_all_max_indexes :: "'n::linorder list \<Rightarrow> nat list" where
  "array_all_max_indexes array = get_all_indexes array (fold max array (hd array))"

definition grid_cell :: "'n::linordered_ab_group_add \<Rightarrow> 'n \<Rightarrow> 'n \<Rightarrow> 'n cell" where
  "grid_cell diag up left =
     (let max_of = [diag, up, left]; indices = array_all_max_indexes max_of
      in (max_of ! hd indices, (0 \<in> set indices, 1 \<in> set indices, 2 \<in> set indices)))"

fun top_row :: "'n::linordered_ab_group_add \<Rightarrow> 'n \<Rightarrow> nat \<Rightarrow> 'n cell list" where
  "top_row gap left 0 = []"
| "top_row gap left (Suc n) = (left + gap, (False, False, True)) # top_row gap (left + gap) n"

text \<open>The rest of a row: the letter of the row, the letters of the columns, the row above from the cell on the
  diagonal, and the score on the left.\<close>

fun grid_row ::
  "'n::linordered_ab_group_add scoring \<Rightarrow> char \<Rightarrow> string \<Rightarrow> 'n cell list \<Rightarrow> 'n \<Rightarrow> 'n cell list" where
  "grid_row sc a (b # bs) (d # u # over) left =
     (let c = grid_cell (fst d + (if a = b then sc_match sc else sc_mismatch sc)) (fst u + sc_gap sc) (left + sc_gap sc)
      in c # grid_row sc a bs (u # over) (fst c))"
| "grid_row sc a _ _ left = []"

fun grid_rows :: "'n::linordered_ab_group_add scoring \<Rightarrow> string \<Rightarrow> string \<Rightarrow> 'n cell list \<Rightarrow> 'n cell list list" where
  "grid_rows sc [] s2 over = []"
| "grid_rows sc (a # s1) s2 over =
     (let v = fst (hd over) + sc_gap sc; row = (v, (False, True, False)) # grid_row sc a s2 over v
      in row # grid_rows sc s1 s2 row)"

definition compute_grids :: "'n::linordered_ab_group_add scoring \<Rightarrow> string \<Rightarrow> string \<Rightarrow> 'n cell list list" where
  "compute_grids sc s1 s2 =
     (let top = (0, (False, False, False)) # top_row (sc_gap sc) 0 (length s2)
      in top # grid_rows sc s1 s2 top)"

record 'n needleman_wunsch =
  nw_sequence1 :: string
  nw_sequence2 :: string
  nw_grid :: "'n cell list list"
  nw_alignments :: "(string \<times> string) list"
  nw_score :: 'n

definition new_needleman_wunsch ::
  "'n::linordered_ab_group_add scoring \<Rightarrow> string \<Rightarrow> string \<Rightarrow> 'n needleman_wunsch" where
  "new_needleman_wunsch sc s1 s2 =
     (let grid = compute_grids sc s1 s2
      in \<lparr>nw_sequence1 = s1, nw_sequence2 = s2, nw_grid = grid, nw_alignments = [],
          nw_score = fst (grid ! length s1 ! length s2)\<rparr>)"

subsection \<open>The way back\<close>

text \<open>
  An alignment in process: a position and the two lines from there on.  No cell of the first row or column
  points out of the grid, so no position falls below 0.  \<open>None\<close>: the loop does not end, or reads outside.
\<close>

type_synonym in_process = "nat \<times> nat \<times> string \<times> string"

definition process_steps :: "string \<Rightarrow> string \<Rightarrow> in_process \<Rightarrow> directions \<Rightarrow> in_process list" where
  "process_steps s1 s2 current dirs =
     (case (current, dirs) of
        ((i, j, t1, t2), (diag, up, left)) \<Rightarrow>
          (if diag then [(i - 1, j - 1, s1 ! (i - 1) # t1, s2 ! (j - 1) # t2)] else [])
          @ (if up then [(i - 1, j, s1 ! (i - 1) # t1, CHR ''-'' # t2)] else [])
          @ (if left then [(i, j - 1, CHR ''-'' # t1, s2 ! (j - 1) # t2)] else []))"

definition grid_directions :: "'n cell list list \<Rightarrow> nat \<Rightarrow> nat \<Rightarrow> directions option" where
  "grid_directions grid i j = Option.bind (js_get grid i) (\<lambda>row. map_option snd (js_get row j))"

partial_function (option) traceback ::
  "'n cell list list \<Rightarrow> string \<Rightarrow> string \<Rightarrow> in_process list \<Rightarrow> (string \<times> string) list \<Rightarrow> (string \<times> string) list option"
  where
  "traceback grid s1 s2 queue alignments =
     (case queue of
        [] \<Rightarrow> Some alignments
      | current # rest \<Rightarrow>
         (case current of
            (i, j, t1, t2) \<Rightarrow>
              Option.bind (grid_directions grid i j) (\<lambda>dirs.
                traceback grid s1 s2 (rest @ process_steps s1 s2 current dirs)
                  (if i = 0 \<and> j = 0 then alignments @ [(t1, t2)] else alignments))))"

text \<open>The alignments of an earlier call are kept.\<close>

definition alignment_traceback :: "'n needleman_wunsch \<Rightarrow> 'n needleman_wunsch option" where
  "alignment_traceback nw =
     map_option (\<lambda>alignments. nw\<lparr>nw_alignments := alignments\<rparr>)
       (traceback (nw_grid nw) (nw_sequence1 nw) (nw_sequence2 nw)
          [(length (nw_sequence1 nw), length (nw_sequence2 nw), [], [])] (nw_alignments nw))"

subsection \<open>Alignments\<close>

text \<open>A column of an alignment: a letter of each sequence, or a letter of one against a gap.\<close>

datatype column = Both char char | First char | Second char

fun column_first :: "column \<Rightarrow> string" where
  "column_first (Both a b) = [a]"
| "column_first (First a) = [a]"
| "column_first (Second b) = []"

fun column_second :: "column \<Rightarrow> string" where
  "column_second (Both a b) = [b]"
| "column_second (First a) = []"
| "column_second (Second b) = [b]"

fun column_score :: "'n::linordered_ab_group_add scoring \<Rightarrow> column \<Rightarrow> 'n" where
  "column_score sc (Both a b) = (if a = b then sc_match sc else sc_mismatch sc)"
| "column_score sc _ = sc_gap sc"

fun column_lines :: "column \<Rightarrow> char \<times> char" where
  "column_lines (Both a b) = (a, b)"
| "column_lines (First a) = (a, CHR ''-'')"
| "column_lines (Second b) = (CHR ''-'', b)"

definition aligns :: "column list \<Rightarrow> string \<Rightarrow> string \<Rightarrow> bool" where
  "aligns cols s1 s2 \<longleftrightarrow> concat (map column_first cols) = s1 \<and> concat (map column_second cols) = s2"

definition alignment_score :: "'n::linordered_ab_group_add scoring \<Rightarrow> column list \<Rightarrow> 'n" where
  "alignment_score sc cols = sum_list (map (column_score sc) cols)"

definition shown :: "column list \<Rightarrow> string \<times> string" where
  "shown cols = (map (fst \<circ> column_lines) cols, map (snd \<circ> column_lines) cols)"

definition best_alignments :: "'n::linordered_ab_group_add scoring \<Rightarrow> string \<Rightarrow> string \<Rightarrow> column list set" where
  "best_alignments sc s1 s2 =
     {cols. aligns cols s1 s2 \<and> (\<forall>other. aligns other s1 s2 \<longrightarrow> alignment_score sc other \<le> alignment_score sc cols)}"

subsection \<open>The cells\<close>

fun best :: "'n::linordered_ab_group_add scoring \<Rightarrow> string \<Rightarrow> string \<Rightarrow> nat \<Rightarrow> nat \<Rightarrow> 'n cell" where
  "best sc s1 s2 0 0 = (0, (False, False, False))"
| "best sc s1 s2 0 (Suc j) = (fst (best sc s1 s2 0 j) + sc_gap sc, (False, False, True))"
| "best sc s1 s2 (Suc i) 0 = (fst (best sc s1 s2 i 0) + sc_gap sc, (False, True, False))"
| "best sc s1 s2 (Suc i) (Suc j) =
     grid_cell (fst (best sc s1 s2 i j) + column_score sc (Both (s1 ! i) (s2 ! j)))
       (fst (best sc s1 s2 i (Suc j)) + sc_gap sc) (fst (best sc s1 s2 (Suc i) j) + sc_gap sc)"

lemma grid_cell_eq:
  "grid_cell d u l = (let m = max d (max u l) in (m, (d = m, u = m, l = m)))"
proof -
  have "fold max [d, u, l] (hd [d, u, l]) = max d (max u l)" by (simp add: max.commute max.left_commute)
  moreover have "[0..<length [d, u, l]] = [0, 1, 2]" by (simp add: upt_rec)
  ultimately have "array_all_max_indexes [d, u, l] = filter (\<lambda>i. [d, u, l] ! i = max d (max u l)) [0, 1, 2]"
    by (simp only: array_all_max_indexes_def get_all_indexes_def)
  then show ?thesis by (auto simp: grid_cell_def Let_def max_def)
qed

lemma top_row_cells: "top_row (sc_gap sc) (fst (best sc s1 s2 0 k)) n = map (best sc s1 s2 0) [Suc k..<Suc (k + n)]"
proof (induction n arbitrary: k)
  case (Suc n)
  from Suc[of "Suc k"] show ?case by (simp add: upt_conv_Cons del: upt_Suc)
qed simp

lemma grid_row_cells:
  assumes "k + n = length s2"
  shows "grid_row sc (s1 ! i) (drop k s2) (map (best sc s1 s2 i) [k..<Suc (length s2)]) (fst (best sc s1 s2 (Suc i) k))
    = map (best sc s1 s2 (Suc i)) [Suc k..<Suc (length s2)]"
  using assms
proof (induction n arbitrary: k)
  case (Suc n)
  then have k: "k < length s2" by simp
  have "drop k s2 = s2 ! k # drop (Suc k) s2" using k by (simp add: Cons_nth_drop_Suc)
  moreover have "[k..<Suc (length s2)] = k # Suc k # [Suc (Suc k)..<Suc (length s2)]"
    using k by (simp add: upt_conv_Cons)
  moreover have "[Suc k..<Suc (length s2)] = Suc k # [Suc (Suc k)..<Suc (length s2)]"
    using k by (simp add: upt_conv_Cons)
  ultimately show ?case using Suc.IH[of "Suc k"] Suc.prems by (simp add: Let_def del: upt_Suc)
qed simp

lemma grid_rows_cells:
  assumes "k + n = length s1"
  shows "grid_rows sc (drop k s1) s2 (map (best sc s1 s2 k) [0..<Suc (length s2)])
    = map (\<lambda>i. map (best sc s1 s2 i) [0..<Suc (length s2)]) [Suc k..<Suc (length s1)]"
  using assms
proof (induction n arbitrary: k)
  case (Suc n)
  then have k: "k < length s1" by simp
  have "drop k s1 = s1 ! k # drop (Suc k) s1" using k by (simp add: Cons_nth_drop_Suc)
  moreover have "[Suc k..<Suc (length s1)] = Suc k # [Suc (Suc k)..<Suc (length s1)]"
    using k by (simp add: upt_conv_Cons)
  moreover have "[0..<Suc (length s2)] = 0 # [Suc 0..<Suc (length s2)]" by (rule upt_conv_Cons) simp
  ultimately show ?case
    using Suc.IH[of "Suc k"] Suc.prems grid_row_cells[of 0 "length s2" s2 sc s1 k] by (simp add: Let_def del: upt_Suc)
qed simp

lemma compute_grids_cells:
  "compute_grids sc s1 s2 = map (\<lambda>i. map (best sc s1 s2 i) [0..<Suc (length s2)]) [0..<Suc (length s1)]"
proof -
  have "(0, (False, False, False)) # top_row (sc_gap sc) 0 (length s2) = map (best sc s1 s2 0) [0..<Suc (length s2)]"
    using top_row_cells[of sc s1 s2 0 "length s2"] by (simp add: upt_conv_Cons del: upt_Suc)
  moreover have "[0..<Suc (length s1)] = 0 # [Suc 0..<Suc (length s1)]" by (rule upt_conv_Cons) simp
  ultimately show ?thesis
    using grid_rows_cells[of 0 "length s1" s1 sc s2] by (simp add: compute_grids_def Let_def del: upt_Suc)
qed

lemma cell_of_grid:
  assumes "i \<le> length s1" "j \<le> length s2"
  shows "compute_grids sc s1 s2 ! i ! j = best sc s1 s2 i j"
    "grid_directions (compute_grids sc s1 s2) i j = Some (snd (best sc s1 s2 i j))"
  using assms by (simp_all add: compute_grids_cells grid_directions_def less_Suc_eq_le del: upt_Suc)

subsection \<open>The best alignments\<close>

lemma aligns_Nil [simp]: "aligns [] s1 s2 \<longleftrightarrow> s1 = [] \<and> s2 = []"
  by (auto simp: aligns_def)

lemma score_simps [simp]:
  "alignment_score sc [] = 0" "alignment_score sc (cols @ [c]) = alignment_score sc cols + column_score sc c"
  by (simp_all add: alignment_score_def)

lemma aligns_snoc:
  assumes "i \<le> length s1" "j \<le> length s2"
  shows "aligns (cols @ [c]) (take i s1) (take j s2) \<longleftrightarrow>
    (case c of
       Both a b \<Rightarrow> \<exists>i' j'. i = Suc i' \<and> j = Suc j' \<and> a = s1 ! i' \<and> b = s2 ! j' \<and> aligns cols (take i' s1) (take j' s2)
     | First a \<Rightarrow> \<exists>i'. i = Suc i' \<and> a = s1 ! i' \<and> aligns cols (take i' s1) (take j s2)
     | Second b \<Rightarrow> \<exists>j'. j = Suc j' \<and> b = s2 ! j' \<and> aligns cols (take i s1) (take j' s2))"
  using assms by (cases i; cases j) (auto simp: aligns_def take_Suc_conv_app_nth split: column.splits)

lemma score_bound:
  assumes "i \<le> length s1" "j \<le> length s2" "aligns cols (take i s1) (take j s2)"
  shows "alignment_score sc cols \<le> fst (best sc s1 s2 i j)"
  using assms
proof (induction cols arbitrary: i j rule: rev_induct)
  case Nil
  then show ?case by auto
next
  case (snoc c cols)
  show ?case
  proof (cases c)
    case (Both a b)
    with snoc.prems obtain i' j' where *: "i = Suc i'" "j = Suc j'" "a = s1 ! i'" "b = s2 ! j'"
      "aligns cols (take i' s1) (take j' s2)" by (auto simp: aligns_snoc)
    with snoc.IH[OF _ _ *(5)] snoc.prems have "alignment_score sc cols \<le> fst (best sc s1 s2 i' j')" by simp
    then show ?thesis using * Both by (auto simp: grid_cell_eq Let_def le_max_iff_disj add_right_mono)
  next
    case (First a)
    with snoc.prems obtain i' where *: "i = Suc i'" "a = s1 ! i'" "aligns cols (take i' s1) (take j s2)"
      by (auto simp: aligns_snoc)
    with snoc.IH[OF _ _ *(3)] snoc.prems have "alignment_score sc cols \<le> fst (best sc s1 s2 i' j)" by simp
    then show ?thesis using * First
      by (cases j) (auto simp: grid_cell_eq Let_def le_max_iff_disj add_right_mono)
  next
    case (Second b)
    with snoc.prems obtain j' where *: "j = Suc j'" "b = s2 ! j'" "aligns cols (take i s1) (take j' s2)"
      by (auto simp: aligns_snoc)
    with snoc.IH[OF _ _ *(3)] snoc.prems have "alignment_score sc cols \<le> fst (best sc s1 s2 i j')" by simp
    then show ?thesis using * Second
      by (cases i) (auto simp: grid_cell_eq Let_def le_max_iff_disj add_right_mono)
  qed
qed

text \<open>The alignments of the first letters, in the order in which the cells lead back.\<close>

definition ending :: "column \<Rightarrow> bool \<Rightarrow> column list list \<Rightarrow> column list list" where
  "ending c b xs = (if b then map (\<lambda>cols. cols @ [c]) xs else [])"

fun ways :: "'n::linordered_ab_group_add scoring \<Rightarrow> string \<Rightarrow> string \<Rightarrow> nat \<Rightarrow> nat \<Rightarrow> column list list" where
  "ways sc s1 s2 0 0 = [[]]"
| "ways sc s1 s2 0 (Suc j) = ending (Second (s2 ! j)) True (ways sc s1 s2 0 j)"
| "ways sc s1 s2 (Suc i) 0 = ending (First (s1 ! i)) True (ways sc s1 s2 i 0)"
| "ways sc s1 s2 (Suc i) (Suc j) =
     ending (Both (s1 ! i) (s2 ! j)) (fst (snd (best sc s1 s2 (Suc i) (Suc j)))) (ways sc s1 s2 i j)
       @ ending (First (s1 ! i)) (fst (snd (snd (best sc s1 s2 (Suc i) (Suc j))))) (ways sc s1 s2 i (Suc j))
       @ ending (Second (s2 ! j)) (snd (snd (snd (best sc s1 s2 (Suc i) (Suc j))))) (ways sc s1 s2 (Suc i) j)"

lemma in_ending: "cols \<in> set (ending c b xs) \<longleftrightarrow> b \<and> (\<exists>cs. cols = cs @ [c] \<and> cs \<in> set xs)"
  by (auto simp: ending_def)

lemma distinct_ending: "distinct xs \<Longrightarrow> distinct (ending c b xs)"
  by (auto simp: ending_def distinct_map inj_on_def)

lemma distinct_ways: "distinct (ways sc s1 s2 i j)"
  by (induction sc s1 s2 i j rule: ways.induct)
    (auto simp: distinct_ending in_ending split: prod.splits)

lemma ways_not_Nil: "ways sc s1 s2 i j \<noteq> []"
  by (induction sc s1 s2 i j rule: ways.induct)
    (auto simp: ending_def grid_cell_eq Let_def max_def)

lemma tight_iff: "(x::'n::linordered_ab_group_add) \<le> y \<Longrightarrow> y + c \<le> m \<Longrightarrow> x + c = m \<longleftrightarrow> y + c = m \<and> x = y"
  by auto

lemma set_ways:
  assumes "i \<le> length s1" "j \<le> length s2"
  shows "set (ways sc s1 s2 i j) =
    {cols. aligns cols (take i s1) (take j s2) \<and> alignment_score sc cols = fst (best sc s1 s2 i j)}"
  using assms
proof (induction sc s1 s2 i j rule: ways.induct)
  case (1 sc s1 s2)
  then show ?case by (auto simp: aligns_def) (metis column_first.simps column_second.simps column.exhaust list.set_intros(1) neq_Nil_conv not_Cons_self2)
next
  case (2 sc s1 s2 j)
  have "cols \<in> set (ways sc s1 s2 0 (Suc j)) \<longleftrightarrow> aligns cols (take 0 s1) (take (Suc j) s2) \<and>
      alignment_score sc cols = fst (best sc s1 s2 0 (Suc j))" for cols
    using 2 aligns_snoc[of 0 s1 "Suc j" s2]
    by (cases cols rule: rev_cases) (auto simp: in_ending split: column.splits)
  then show ?case by blast
next
  case (3 sc s1 s2 i)
  have "cols \<in> set (ways sc s1 s2 (Suc i) 0) \<longleftrightarrow> aligns cols (take (Suc i) s1) (take 0 s2) \<and>
      alignment_score sc cols = fst (best sc s1 s2 (Suc i) 0)" for cols
    using 3 aligns_snoc[of "Suc i" s1 0 s2]
    by (cases cols rule: rev_cases) (auto simp: in_ending split: column.splits)
  then show ?case by blast
next
  case (4 sc s1 s2 i j)
  let ?M = "fst (best sc s1 s2 (Suc i) (Suc j))"
  let ?D = "fst (best sc s1 s2 i j) + column_score sc (Both (s1 ! i) (s2 ! j))"
  let ?U = "fst (best sc s1 s2 i (Suc j)) + sc_gap sc" and ?L = "fst (best sc s1 s2 (Suc i) j) + sc_gap sc"
  have M: "?D \<le> ?M" "?U \<le> ?M" "?L \<le> ?M" "snd (best sc s1 s2 (Suc i) (Suc j)) = (?D = ?M, ?U = ?M, ?L = ?M)"
    by (simp_all add: grid_cell_eq Let_def le_max_iff_disj)
  have IH: "cs \<in> set (ways sc s1 s2 i j) \<longleftrightarrow> aligns cs (take i s1) (take j s2) \<and> alignment_score sc cs = fst (best sc s1 s2 i j)"
    "cs \<in> set (ways sc s1 s2 i (Suc j)) \<longleftrightarrow>
       aligns cs (take i s1) (take (Suc j) s2) \<and> alignment_score sc cs = fst (best sc s1 s2 i (Suc j))"
    "cs \<in> set (ways sc s1 s2 (Suc i) j) \<longleftrightarrow>
       aligns cs (take (Suc i) s1) (take j s2) \<and> alignment_score sc cs = fst (best sc s1 s2 (Suc i) j)" for cs
    using 4 by auto
  have "cols \<in> set (ways sc s1 s2 (Suc i) (Suc j)) \<longleftrightarrow> aligns cols (take (Suc i) s1) (take (Suc j) s2) \<and>
      alignment_score sc cols = ?M" for cols
  proof (cases cols rule: rev_cases)
    case Nil
    with 4(4) show ?thesis by (auto simp: in_ending)
  next
    case (snoc cs c)
    show ?thesis
    proof (cases c)
      case (Both a b)
      then have "cols \<in> set (ways sc s1 s2 (Suc i) (Suc j)) \<longleftrightarrow>
          a = s1 ! i \<and> b = s2 ! j \<and> ?D = ?M \<and> cs \<in> set (ways sc s1 s2 i j)"
        by (auto simp: snoc in_ending M(4) simp del: best.simps column_score.simps)
      also have "\<dots> \<longleftrightarrow> a = s1 ! i \<and> b = s2 ! j \<and> aligns cs (take i s1) (take j s2) \<and>
          alignment_score sc cs + column_score sc (Both (s1 ! i) (s2 ! j)) = ?M"
        using tight_iff[OF score_bound M(1)] 4(4,5) unfolding IH by (metis Suc_leD)
      finally show ?thesis
        using aligns_snoc[OF 4(4,5), of cs c] by (auto simp: snoc Both simp del: best.simps column_score.simps)
    next
      case (First a)
      then have "cols \<in> set (ways sc s1 s2 (Suc i) (Suc j)) \<longleftrightarrow>
          a = s1 ! i \<and> ?U = ?M \<and> cs \<in> set (ways sc s1 s2 i (Suc j))"
        by (auto simp: snoc in_ending M(4) simp del: best.simps)
      also have "\<dots> \<longleftrightarrow> a = s1 ! i \<and> aligns cs (take i s1) (take (Suc j) s2) \<and> alignment_score sc cs + sc_gap sc = ?M"
        using tight_iff[OF score_bound M(2)] 4(4,5) unfolding IH by (metis Suc_leD)
      finally show ?thesis
        using aligns_snoc[OF 4(4,5), of cs c] by (auto simp: snoc First simp del: best.simps)
    next
      case (Second b)
      then have "cols \<in> set (ways sc s1 s2 (Suc i) (Suc j)) \<longleftrightarrow>
          b = s2 ! j \<and> ?L = ?M \<and> cs \<in> set (ways sc s1 s2 (Suc i) j)"
        by (auto simp: snoc in_ending M(4) simp del: best.simps)
      also have "\<dots> \<longleftrightarrow> b = s2 ! j \<and> aligns cs (take (Suc i) s1) (take j s2) \<and> alignment_score sc cs + sc_gap sc = ?M"
        using tight_iff[OF score_bound M(3)] 4(4,5) unfolding IH by (metis Suc_leD)
      finally show ?thesis
        using aligns_snoc[OF 4(4,5), of cs c] by (auto simp: snoc Second simp del: best.simps)
    qed
  qed
  then show ?case by blast
qed

lemma best_alignments_ways: "best_alignments sc s1 s2 = set (ways sc s1 s2 (length s1) (length s2))"
proof -
  let ?W = "ways sc s1 s2 (length s1) (length s2)" and ?B = "fst (best sc s1 s2 (length s1) (length s2))"
  have W: "set ?W = {cols. aligns cols s1 s2 \<and> alignment_score sc cols = ?B}"
    using set_ways[of "length s1" s1 "length s2" s2 sc] by simp
  have le: "aligns cols s1 s2 \<Longrightarrow> alignment_score sc cols \<le> ?B" for cols
    using score_bound[of "length s1" s1 "length s2" s2 cols sc] by simp
  obtain cols where "cols \<in> set ?W" using ways_not_Nil by (metis list.set_intros(1) neq_Nil_conv)
  then have "aligns cols s1 s2" "alignment_score sc cols = ?B" using W by auto
  then show ?thesis unfolding W best_alignments_def using le by (auto intro!: antisym)
qed

subsection \<open>The way back ends\<close>

definition completions :: "'n::linordered_ab_group_add scoring \<Rightarrow> string \<Rightarrow> string \<Rightarrow> in_process \<Rightarrow> (string \<times> string) list" where
  "completions sc s1 s2 a =
     (case a of (i, j, t1, t2) \<Rightarrow> map (\<lambda>cols. (fst (shown cols) @ t1, snd (shown cols) @ t2)) (ways sc s1 s2 i j))"

definition inside :: "string \<Rightarrow> string \<Rightarrow> in_process \<Rightarrow> bool" where
  "inside s1 s2 a = (case a of (i, j, t1, t2) \<Rightarrow> i \<le> length s1 \<and> j \<le> length s2)"

text \<open>A step is replaced by at most three that are nearer to the start.\<close>

definition far :: "in_process \<Rightarrow> nat" where
  "far a = (case a of (i, j, t1, t2) \<Rightarrow> 4 ^ (i + j))"

lemma steps_complete:
  fixes sc :: "'n::linordered_ab_group_add scoring"
  assumes "a = (i, j, t1, t2)"
  shows "completions sc s1 s2 a =
    (if i = 0 \<and> j = 0 then [(t1, t2)] else []) @
    concat (map (completions sc s1 s2) (process_steps s1 s2 a (snd (best sc s1 s2 i j))))"
  by (cases "(sc, s1, s2, i, j)" rule: ways.cases)
    (auto simp: assms completions_def process_steps_def ending_def shown_def split: prod.splits simp del: best.simps(4))

lemma steps_inside:
  "inside s1 s2 (i, j, t1, t2) \<Longrightarrow> b \<in> set (process_steps s1 s2 (i, j, t1, t2) dirs) \<Longrightarrow> inside s1 s2 b"
  by (cases dirs) (auto simp: inside_def process_steps_def split: if_splits)

lemma steps_nearer:
  fixes sc :: "'n::linordered_ab_group_add scoring"
  shows "sum_list (map far (process_steps s1 s2 (i, j, t1, t2) (snd (best sc s1 s2 i j)))) < far (i, j, t1, t2)"
  by (cases "(sc, s1, s2, i, j)" rule: ways.cases)
    (auto simp: process_steps_def far_def split: prod.splits simp del: best.simps(4))

lemma traceback_completions:
  fixes sc :: "'n::linordered_ab_group_add scoring"
  assumes "\<forall>a \<in> set queue. inside s1 s2 a"
  shows "\<exists>result. traceback (compute_grids sc s1 s2) s1 s2 queue alignments = Some result \<and>
    mset result = mset alignments + mset (concat (map (completions sc s1 s2) queue))"
  using assms
proof (induction "sum_list (map far queue)" arbitrary: queue alignments rule: less_induct)
  case less
  show ?case
  proof (cases queue)
    case Nil
    then show ?thesis by (subst traceback.simps) simp
  next
    case (Cons a rest)
    obtain i j t1 t2 where a: "a = (i, j, t1, t2)" by (cases a)
    let ?steps = "process_steps s1 s2 a (snd (best sc s1 s2 i j))"
    let ?al = "if i = 0 \<and> j = 0 then alignments @ [(t1, t2)] else alignments"
    have ins: "inside s1 s2 a" using less.prems Cons by simp
    have "sum_list (map far (rest @ ?steps)) < sum_list (map far queue)"
      using steps_nearer[where i = i and j = j and sc = sc and ?s1.0 = s1 and ?s2.0 = s2 and ?t1.0 = t1 and ?t2.0 = t2]
      by (simp add: Cons a)
    moreover have "\<forall>b \<in> set (rest @ ?steps). inside s1 s2 b"
      using less.prems steps_inside[OF ins[unfolded a]] unfolding Cons a by (metis Un_iff list.set_intros(2) set_append)
    ultimately obtain result where r: "traceback (compute_grids sc s1 s2) s1 s2 (rest @ ?steps) ?al = Some result"
      "mset result = mset ?al + mset (concat (map (completions sc s1 s2) (rest @ ?steps)))"
      using less.hyps by blast
    have "traceback (compute_grids sc s1 s2) s1 s2 queue alignments = Some result"
      using ins r(1) by (subst traceback.simps) (simp add: Cons a inside_def cell_of_grid)
    moreover have "mset result = mset alignments + mset (concat (map (completions sc s1 s2) queue))"
      using r(2) steps_complete[OF a, of sc s1 s2] by (simp add: Cons)
    ultimately show ?thesis by blast
  qed
qed

text \<open>C26. \<open>alignmentTraceback\<close> returns, and the alignments it notes are exactly those of the best score, each once,
  for scores in any linearly ordered group.\<close>

theorem traceback_best:
  fixes sc :: "'n::linordered_ab_group_add scoring"
  shows "\<exists>nw cols. alignment_traceback (new_needleman_wunsch sc s1 s2) = Some nw \<and> distinct cols \<and>
    set cols = best_alignments sc s1 s2 \<and> mset (nw_alignments nw) = mset (map shown cols)"
proof -
  let ?nw = "new_needleman_wunsch sc s1 s2"
  obtain result where r: "traceback (compute_grids sc s1 s2) s1 s2 [(length s1, length s2, [], [])] [] = Some result"
    "mset result = mset (map shown (ways sc s1 s2 (length s1) (length s2)))"
    using traceback_completions[of "[(length s1, length s2, [], [])]" s1 s2 sc "[]"]
    by (auto simp: inside_def completions_def)
  then have "alignment_traceback ?nw = Some (?nw\<lparr>nw_alignments := result\<rparr>)"
    by (simp add: alignment_traceback_def new_needleman_wunsch_def Let_def)
  then show ?thesis using r(2) distinct_ways[of sc s1 s2] best_alignments_ways[of sc s1 s2] by fastforce
qed

lemma score_best:
  fixes sc :: "'n::linordered_ab_group_add scoring"
  shows "\<exists>cols \<in> best_alignments sc s1 s2. alignment_score sc cols = nw_score (new_needleman_wunsch sc s1 s2)"
proof -
  obtain cols where "cols \<in> set (ways sc s1 s2 (length s1) (length s2))"
    using ways_not_Nil by (metis list.set_intros(1) neq_Nil_conv)
  then show ?thesis
    using set_ways[of "length s1" s1 "length s2" s2 sc] best_alignments_ways[of sc s1 s2]
    by (auto simp: new_needleman_wunsch_def Let_def cell_of_grid)
qed

end
