(* ===== verification/LayoutGeometry.thy ===== *)
theory LayoutGeometry
  imports JsBase
begin

text \<open>
  \<open>RectangleD\<close>, \<open>Point\<close>, \<open>PointD\<close>, \<open>DimensionD\<close>, \<open>Transform\<close>, \<open>IGeometry\<close>, \<open>IMath\<close> and \<open>RandomSeed\<close> of
  \<open>layout-base\<close> (\<open>docs/.vitepress/cache/deps/cytoscape-cose-bilkent.js\<close>).  Coordinates and sizes are finite
  numbers; a quotient that may not be finite is a \<open>jsnum\<close> (\<open>LayoutNumbers\<close> has the same on all numbers, for the
  forces).  The \<open>y\<close> axis points down.
\<close>

subsection \<open>Rectangles\<close>

record rectangle =
  rc_x :: real
  rc_y :: real
  rc_width :: real
  rc_height :: real

definition new_rectangle :: rectangle where
  "new_rectangle = \<lparr>rc_x = 0, rc_y = 0, rc_width = 0, rc_height = 0\<rparr>"

definition rc_right :: "rectangle \<Rightarrow> real" where
  "rc_right r = rc_x r + rc_width r"

definition rc_bottom :: "rectangle \<Rightarrow> real" where
  "rc_bottom r = rc_y r + rc_height r"

definition rc_intersects :: "rectangle \<Rightarrow> rectangle \<Rightarrow> bool" where
  "rc_intersects r a =
     (if rc_right r < rc_x a then False
      else if rc_bottom r < rc_y a then False
      else if rc_right a < rc_x r then False
      else if rc_bottom a < rc_y r then False
      else True)"

definition rc_center_x :: "rectangle \<Rightarrow> real" where
  "rc_center_x r = rc_x r + rc_width r / 2"

definition rc_center_y :: "rectangle \<Rightarrow> real" where
  "rc_center_y r = rc_y r + rc_height r / 2"

definition rc_min_x :: "rectangle \<Rightarrow> real" where
  "rc_min_x r = rc_x r"

definition rc_max_x :: "rectangle \<Rightarrow> real" where
  "rc_max_x r = rc_x r + rc_width r"

definition rc_min_y :: "rectangle \<Rightarrow> real" where
  "rc_min_y r = rc_y r"

definition rc_max_y :: "rectangle \<Rightarrow> real" where
  "rc_max_y r = rc_y r + rc_height r"

definition rc_width_half :: "rectangle \<Rightarrow> real" where
  "rc_width_half r = rc_width r / 2"

definition rc_height_half :: "rectangle \<Rightarrow> real" where
  "rc_height_half r = rc_height r / 2"

text \<open>The rectangle of a node, as the methods of \<open>LNode\<close> change it.\<close>

definition set_center :: "real \<Rightarrow> real \<Rightarrow> rectangle \<Rightarrow> rectangle" where
  "set_center cx cy r = r\<lparr>rc_x := cx - rc_width r / 2, rc_y := cy - rc_height r / 2\<rparr>"

definition set_location :: "real \<Rightarrow> real \<Rightarrow> rectangle \<Rightarrow> rectangle" where
  "set_location x y r = r\<lparr>rc_x := x, rc_y := y\<rparr>"

definition move_by :: "real \<Rightarrow> real \<Rightarrow> rectangle \<Rightarrow> rectangle" where
  "move_by dx dy r = r\<lparr>rc_x := rc_x r + dx, rc_y := rc_y r + dy\<rparr>"

definition get_diagonal :: "rectangle \<Rightarrow> real" where
  "get_diagonal r = sqrt (rc_width r * rc_width r + rc_height r * rc_height r)"

definition get_half_the_diagonal :: "rectangle \<Rightarrow> real" where
  "get_half_the_diagonal r = sqrt (rc_height r * rc_height r + rc_width r * rc_width r) / 2"

subsection \<open>Points and sizes\<close>

record layout_point =
  pt_x :: real
  pt_y :: real

record dimension =
  dim_width :: real
  dim_height :: real

definition get_difference :: "layout_point \<Rightarrow> layout_point \<Rightarrow> dimension" where
  "get_difference p q = \<lparr>dim_width = pt_x p - pt_x q, dim_height = pt_y p - pt_y q\<rparr>"

definition translate_by :: "dimension \<Rightarrow> layout_point \<Rightarrow> layout_point" where
  "translate_by d p = \<lparr>pt_x = pt_x p + dim_width d, pt_y = pt_y p + dim_height d\<rparr>"

definition set_rect :: "layout_point \<Rightarrow> dimension \<Rightarrow> rectangle \<Rightarrow> rectangle" where
  "set_rect p d r = \<lparr>rc_x = pt_x p, rc_y = pt_y p, rc_width = dim_width d, rc_height = dim_height d\<rparr>"

definition point_move :: "real \<Rightarrow> real \<Rightarrow> layout_point \<Rightarrow> layout_point" where
  "point_move x y p = \<lparr>pt_x = x, pt_y = y\<rparr>"

definition point_translate :: "real \<Rightarrow> real \<Rightarrow> layout_point \<Rightarrow> layout_point" where
  "point_translate dx dy p = \<lparr>pt_x = pt_x p + dx, pt_y = pt_y p + dy\<rparr>"

text \<open>\<open>Point.setLocation\<close> for two numbers: coordinates are rounded unless both are integers.\<close>

definition point_set_location :: "real \<Rightarrow> real \<Rightarrow> layout_point \<Rightarrow> layout_point" where
  "point_set_location x y p =
     (if of_int \<lfloor>x\<rfloor> = x \<and> of_int \<lfloor>y\<rfloor> = y then point_move x y p
      else \<lparr>pt_x = of_int \<lfloor>x + 1 / 2\<rfloor>, pt_y = of_int \<lfloor>y + 1 / 2\<rfloor>\<rparr>)"

definition point_equals :: "layout_point \<Rightarrow> layout_point \<Rightarrow> bool" where
  "point_equals p q = (pt_x p = pt_x q \<and> pt_y p = pt_y q)"

subsection \<open>Transformations\<close>

record transform =
  tr_world_org_x :: real
  tr_world_org_y :: real
  tr_device_org_x :: real
  tr_device_org_y :: real
  tr_world_ext_x :: real
  tr_world_ext_y :: real
  tr_device_ext_x :: real
  tr_device_ext_y :: real

definition new_transform :: transform where
  "new_transform =
     \<lparr>tr_world_org_x = 0, tr_world_org_y = 0, tr_device_org_x = 0, tr_device_org_y = 0,
      tr_world_ext_x = 1, tr_world_ext_y = 1, tr_device_ext_x = 1, tr_device_ext_y = 1\<rparr>"

definition transform_x :: "transform \<Rightarrow> real \<Rightarrow> real" where
  "transform_x t x =
     (if tr_world_ext_x t \<noteq> 0
      then tr_device_org_x t + (x - tr_world_org_x t) * tr_device_ext_x t / tr_world_ext_x t else 0)"

definition transform_y :: "transform \<Rightarrow> real \<Rightarrow> real" where
  "transform_y t y =
     (if tr_world_ext_y t \<noteq> 0
      then tr_device_org_y t + (y - tr_world_org_y t) * tr_device_ext_y t / tr_world_ext_y t else 0)"

definition inverse_transform_x :: "transform \<Rightarrow> real \<Rightarrow> real" where
  "inverse_transform_x t x =
     (if tr_device_ext_x t \<noteq> 0
      then tr_world_org_x t + (x - tr_device_org_x t) * tr_world_ext_x t / tr_device_ext_x t else 0)"

definition inverse_transform_y :: "transform \<Rightarrow> real \<Rightarrow> real" where
  "inverse_transform_y t y =
     (if tr_device_ext_y t \<noteq> 0
      then tr_world_org_y t + (y - tr_device_org_y t) * tr_world_ext_y t / tr_device_ext_y t else 0)"

definition inverse_transform_point :: "transform \<Rightarrow> layout_point \<Rightarrow> layout_point" where
  "inverse_transform_point t p = \<lparr>pt_x = inverse_transform_x t (pt_x p), pt_y = inverse_transform_y t (pt_y p)\<rparr>"

text \<open>\<open>LNode.transform\<close>, within the boundary of the world.\<close>

definition world_boundary :: real where
  "world_boundary = 1000000"

definition within_world :: "real \<Rightarrow> real" where
  "within_world v = (if v > world_boundary then world_boundary else if v < - world_boundary then - world_boundary else v)"

definition node_transform :: "transform \<Rightarrow> rectangle \<Rightarrow> rectangle" where
  "node_transform t r =
     (let p = inverse_transform_point t \<lparr>pt_x = within_world (rc_x r), pt_y = within_world (rc_y r)\<rparr>
      in set_location (pt_x p) (pt_y p) r)"

subsection \<open>Numbers\<close>

definition imath_sign :: "real \<Rightarrow> real" where
  "imath_sign v = (if v > 0 then 1 else if v < 0 then - 1 else 0)"

definition imath_floor :: "real \<Rightarrow> int" where
  "imath_floor v = (if v < 0 then \<lceil>v\<rceil> else \<lfloor>v\<rfloor>)"

definition imath_ceil :: "real \<Rightarrow> int" where
  "imath_ceil v = (if v < 0 then \<lfloor>v\<rfloor> else \<lceil>v\<rceil>)"

text \<open>The state of \<open>RandomSeed\<close> is its seed.\<close>

definition next_double :: "nat \<Rightarrow> real \<times> nat" where
  "next_double seed = (let x = sin (real seed) * 10000 in (x - of_int \<lfloor>x\<rfloor>, Suc seed))"

definition scatter :: "rectangle \<Rightarrow> nat \<Rightarrow> rectangle \<times> nat" where
  "scatter r seed =
     (let min_x = - (world_boundary / 1000); max_x = world_boundary / 1000;
          (a, seed) = next_double seed;
          center_x = 1200 + a * (max_x - min_x) + min_x;
          min_y = - (world_boundary / 1000); max_y = world_boundary / 1000;
          (b, seed) = next_double seed;
          center_y = 900 + b * (max_y - min_y) + min_y
      in (set_location center_x center_y r, seed))"

subsection \<open>Overlapping rectangles\<close>

definition decide_directions :: "rectangle \<Rightarrow> rectangle \<Rightarrow> real \<times> real" where
  "decide_directions a b =
     ((if rc_center_x a < rc_center_x b then - 1 else 1), (if rc_center_y a < rc_center_y b then - 1 else 1))"

definition calc_separation_amount :: "rectangle \<Rightarrow> rectangle \<Rightarrow> real \<Rightarrow> (jsnum \<times> jsnum) option" where
  "calc_separation_amount a b buffer =
     (if \<not> rc_intersects a b then None
      else
       (let (dir_x, dir_y) = decide_directions a b;
            over_x = min (rc_right a) (rc_right b) - max (rc_x a) (rc_x b);
            over_y = min (rc_bottom a) (rc_bottom b) - max (rc_y a) (rc_y b);
            over_x =
              (if rc_x a \<le> rc_x b \<and> rc_right a \<ge> rc_right b
               then over_x + min (rc_x b - rc_x a) (rc_right a - rc_right b)
               else if rc_x b \<le> rc_x a \<and> rc_right b \<ge> rc_right a
               then over_x + min (rc_x a - rc_x b) (rc_right b - rc_right a) else over_x);
            over_y =
              (if rc_y a \<le> rc_y b \<and> rc_bottom a \<ge> rc_bottom b
               then over_y + min (rc_y b - rc_y a) (rc_bottom a - rc_bottom b)
               else if rc_y b \<le> rc_y a \<and> rc_bottom b \<ge> rc_bottom a
               then over_y + min (rc_y a - rc_y b) (rc_bottom b - rc_bottom a) else over_y);
            slope =
              (if rc_center_y b = rc_center_y a \<and> rc_center_x b = rc_center_x a then JNum 1
               else js_abs (js_div (JNum (rc_center_y b - rc_center_y a)) (JNum (rc_center_x b - rc_center_x a))));
            move_y = js_mul slope (JNum over_x);
            move_x = js_div (JNum over_y) slope;
            (move_x, move_y) =
              (if js_lt (JNum over_x) move_x then (JNum over_x, move_y) else (move_x, JNum over_y))
        in Some (js_mul (JNum (- 1 * dir_x)) (js_add (js_div move_x (JNum 2)) (JNum buffer)),
                 js_mul (JNum (- 1 * dir_y)) (js_add (js_div move_y (JNum 2)) (JNum buffer)))))"

subsection \<open>Clipping points\<close>

definition get_cardinal_direction :: "jsnum \<Rightarrow> jsnum \<Rightarrow> nat \<Rightarrow> nat" where
  "get_cardinal_direction slope slope' line = (if js_lt slope' slope then line else 1 + line mod 4)"

text \<open>
  The line through both centers of a rectangle and another meets it in a corner when it runs along a
  diagonal; \<open>beyond\<close>: the rectangle lies to the right of the other.
\<close>

definition corner_clip :: "rectangle \<Rightarrow> bool \<Rightarrow> jsnum \<Rightarrow> jsnum \<Rightarrow> (real \<times> real) option" where
  "corner_clip r beyond slope slope' =
     (if js_eq (js_neg slope) slope' then
        Some (if beyond then (rc_x r, rc_bottom r) else (rc_right r, rc_y r))
      else if js_eq slope slope' then
        Some (if beyond then (rc_x r, rc_y r) else (rc_right r, rc_bottom r))
      else None)"

definition border_clip :: "rectangle \<Rightarrow> real \<Rightarrow> nat \<Rightarrow> (real \<times> real) option" where
  "border_clip r slope' direction =
     (if direction = 1 then Some (rc_center_x r + - rc_height_half r / slope', rc_y r)
      else if direction = 2 then Some (rc_right r, rc_center_y r + rc_width_half r * slope')
      else if direction = 3 then Some (rc_center_x r + rc_height_half r / slope', rc_bottom r)
      else if direction = 4 then Some (rc_x r, rc_center_y r + - rc_width_half r * slope')
      else None)"

text \<open>The clipping points written into the result, \<open>None\<close> where nothing is written.\<close>

definition get_intersection2 :: "rectangle \<Rightarrow> rectangle \<Rightarrow> bool \<times> (real \<times> real) option \<times> (real \<times> real) option" where
  "get_intersection2 a b =
     (let p1x = rc_center_x a; p1y = rc_center_y a; p2x = rc_center_x b; p2y = rc_center_y b
      in if rc_intersects a b then (True, Some (p1x, p1y), Some (p2x, p2y))
         else if p1x = p2x then
           (if p1y > p2y then (False, Some (p1x, rc_y a), Some (p2x, rc_bottom b))
            else if p1y < p2y then (False, Some (p1x, rc_bottom a), Some (p2x, rc_y b))
            else (False, None, None))
         else if p1y = p2y then
           (if p1x > p2x then (False, Some (rc_x a, p1y), Some (rc_right b, p2y))
            else (False, Some (rc_right a, p1y), Some (rc_x b, p2y)))
         else
          (let slope_a = js_div (JNum (rc_height a)) (JNum (rc_width a));
               slope_b = js_div (JNum (rc_height b)) (JNum (rc_width b));
               slope' = (p2y - p1y) / (p2x - p1x);
               clip_a = corner_clip a (p1x > p2x) slope_a (JNum slope');
               clip_b = corner_clip b (p2x > p1x) slope_b (JNum slope');
               (direction_a, direction_b) =
                 (if p1x > p2x then
                    (if p1y > p2y
                     then (get_cardinal_direction slope_a (JNum slope') 4, get_cardinal_direction slope_b (JNum slope') 2)
                     else (get_cardinal_direction (js_neg slope_a) (JNum slope') 3,
                           get_cardinal_direction (js_neg slope_b) (JNum slope') 1))
                  else
                    (if p1y > p2y
                     then (get_cardinal_direction (js_neg slope_a) (JNum slope') 1,
                           get_cardinal_direction (js_neg slope_b) (JNum slope') 3)
                     else (get_cardinal_direction slope_a (JNum slope') 2, get_cardinal_direction slope_b (JNum slope') 4)))
           in (False,
               (if clip_a = None then border_clip a slope' direction_a else clip_a),
               (if clip_b = None then border_clip b slope' direction_b else clip_b))))"

subsection \<open>Lines\<close>

definition get_intersection :: "layout_point \<Rightarrow> layout_point \<Rightarrow> layout_point \<Rightarrow> layout_point \<Rightarrow> layout_point option" where
  "get_intersection s1 s2 f1 f2 =
     (let a1 = pt_y s2 - pt_y s1; b1 = pt_x s1 - pt_x s2; c1 = pt_x s2 * pt_y s1 - pt_x s1 * pt_y s2;
          a2 = pt_y f2 - pt_y f1; b2 = pt_x f1 - pt_x f2; c2 = pt_x f2 * pt_y f1 - pt_x f1 * pt_y f2;
          denom = a1 * b2 - a2 * b1
      in if denom = 0 then None
         else Some \<lparr>pt_x = (b1 * c2 - b2 * c1) / denom, pt_y = (a2 * c1 - a1 * c2) / denom\<rparr>)"

definition angle_of_vector :: "real \<Rightarrow> real \<Rightarrow> real \<Rightarrow> real \<Rightarrow> real" where
  "angle_of_vector cx cy nx ny =
     (if cx \<noteq> nx then
        (let angle = arctan ((ny - cy) / (nx - cx))
         in if nx < cx then angle + pi else if ny < cy then angle + 2 * pi else angle)
      else if ny < cy then 3 / 2 * pi
      else pi / 2)"

definition do_intersect :: "layout_point \<Rightarrow> layout_point \<Rightarrow> layout_point \<Rightarrow> layout_point \<Rightarrow> bool" where
  "do_intersect p1 p2 p3 p4 =
     (let a = pt_x p1; b = pt_y p1; c = pt_x p2; d = pt_y p2; p = pt_x p3; q = pt_y p3; r = pt_x p4; s = pt_y p4;
          det = (c - a) * (s - q) - (r - p) * (d - b)
      in if det = 0 then False
         else
          (let lambda = ((s - q) * (r - a) + (p - r) * (s - b)) / det;
               gamma = ((b - d) * (r - a) + (c - a) * (s - b)) / det
           in 0 < lambda \<and> lambda < 1 \<and> 0 < gamma \<and> gamma < 1))"

subsection \<open>Rectangles as sets of points\<close>

definition in_rectangle :: "rectangle \<Rightarrow> real \<times> real \<Rightarrow> bool" where
  "in_rectangle r p \<longleftrightarrow> rc_x r \<le> fst p \<and> fst p \<le> rc_right r \<and> rc_y r \<le> snd p \<and> snd p \<le> rc_bottom r"

definition proper :: "rectangle \<Rightarrow> bool" where
  "proper r \<longleftrightarrow> 0 < rc_width r \<and> 0 < rc_height r"

lemmas rc_simps = rc_right_def rc_bottom_def rc_center_x_def rc_center_y_def rc_width_half_def rc_height_half_def

lemma intersects_iff_common_point:
  assumes "0 \<le> rc_width a" "0 \<le> rc_height a" "0 \<le> rc_width b" "0 \<le> rc_height b"
  shows "rc_intersects a b \<longleftrightarrow> (\<exists>p. in_rectangle a p \<and> in_rectangle b p)"
proof
  assume "rc_intersects a b"
  then have "in_rectangle a (max (rc_x a) (rc_x b), max (rc_y a) (rc_y b)) \<and>
      in_rectangle b (max (rc_x a) (rc_x b), max (rc_y a) (rc_y b))"
    using assms by (auto simp: rc_intersects_def in_rectangle_def rc_simps split: if_splits)
  then show "\<exists>p. in_rectangle a p \<and> in_rectangle b p" by blast
qed (auto simp: rc_intersects_def in_rectangle_def)

lemma transform_roundtrip:
  assumes "tr_world_ext_x t \<noteq> 0" "tr_device_ext_x t \<noteq> 0"
  shows "inverse_transform_x t (transform_x t x) = x" "transform_x t (inverse_transform_x t x) = x"
  using assms by (simp_all add: transform_x_def inverse_transform_x_def)

lemma point_set_location_near:
  "\<bar>pt_x (point_set_location x y p) - x\<bar> \<le> 1 / 2 \<and> \<bar>pt_y (point_set_location x y p) - y\<bar> \<le> 1 / 2"
proof -
  have "\<bar>of_int \<lfloor>v + 1 / 2\<rfloor> - v\<bar> \<le> 1 / 2" for v :: real by linarith
  then show ?thesis by (simp add: point_set_location_def point_move_def)
qed

lemma next_double_range: "0 \<le> fst (next_double seed) \<and> fst (next_double seed) < 1"
  unfolding next_double_def Let_def by (auto; linarith)

lemma scatter_range:
  "\<bar>rc_x (fst (scatter r seed)) - 1200\<bar> \<le> 1000 \<and> \<bar>rc_y (fst (scatter r seed)) - 900\<bar> \<le> 1000"
proof -
  have "0 \<le> fst (next_double s)" "fst (next_double s) < 1" for s using next_double_range by blast+
  from this[of seed] this[of "snd (next_double seed)"] show ?thesis
    by (auto simp: scatter_def set_location_def world_boundary_def Let_def abs_le_iff split: prod.splits)
qed

subsection \<open>Overlapping rectangles are moved apart\<close>

definition overlap :: "real \<Rightarrow> real \<Rightarrow> real \<Rightarrow> real \<Rightarrow> real" where
  "overlap la ra lb rb =
     (let v = min ra rb - max la lb
      in if la \<le> lb \<and> ra \<ge> rb then v + min (lb - la) (ra - rb)
         else if lb \<le> la \<and> rb \<ge> ra then v + min (la - lb) (rb - ra) else v)"

lemma overlap_eq:
  assumes "la \<le> ra" "lb \<le> rb"
  shows "overlap la ra lb rb = (if la + ra < lb + rb then ra - lb else rb - la)"
  using assms by (auto simp: overlap_def Let_def min_def max_def)

definition slope_of :: "rectangle \<Rightarrow> rectangle \<Rightarrow> jsnum" where
  "slope_of a b =
     (if rc_center_y b = rc_center_y a \<and> rc_center_x b = rc_center_x a then JNum 1
      else js_abs (js_div (JNum (rc_center_y b - rc_center_y a)) (JNum (rc_center_x b - rc_center_x a))))"

definition smaller_move :: "jsnum \<Rightarrow> real \<Rightarrow> real \<Rightarrow> jsnum \<times> jsnum" where
  "smaller_move slope over_x over_y =
     (if js_lt (JNum over_x) (js_div (JNum over_y) slope) then (JNum over_x, js_mul slope (JNum over_x))
      else (js_div (JNum over_y) slope, JNum over_y))"

lemma calc_separation_amount_eq:
  "rc_intersects a b \<Longrightarrow> calc_separation_amount a b buffer =
     (let (dir_x, dir_y) = decide_directions a b;
          (move_x, move_y) = smaller_move (slope_of a b) (overlap (rc_x a) (rc_right a) (rc_x b) (rc_right b))
            (overlap (rc_y a) (rc_bottom a) (rc_y b) (rc_bottom b))
      in Some (js_mul (JNum (- 1 * dir_x)) (js_add (js_div move_x (JNum 2)) (JNum buffer)),
               js_mul (JNum (- 1 * dir_y)) (js_add (js_div move_y (JNum 2)) (JNum buffer))))"
  by (simp add: calc_separation_amount_def smaller_move_def slope_of_def overlap_def Let_def)

lemma slope_of_cases: "(\<exists>s. slope_of a b = JNum s \<and> 0 \<le> s) \<or> slope_of a b = JInf"
  by (auto simp: slope_of_def js_div_def js_abs_def)

lemma slope_of_0: "slope_of a b = JNum 0 \<Longrightarrow> rc_center_y a = rc_center_y b"
  by (auto simp: slope_of_def js_div_def js_abs_def split: if_splits)

lemma smaller_move_finite:
  assumes "0 \<le> over_x" "0 \<le> over_y" "(\<exists>s. slope = JNum s \<and> 0 \<le> s) \<or> slope = JInf" "slope = JNum 0 \<Longrightarrow> 0 < over_y"
  shows "\<exists>mx my. smaller_move slope over_x over_y = (JNum mx, JNum my) \<and> (mx = over_x \<or> my = over_y)"
  using assms by (auto simp: smaller_move_def js_div_def js_mul_def)

theorem separation_separates:
  assumes "rc_intersects a b" "0 \<le> rc_width a" "0 \<le> rc_height a" "0 \<le> rc_width b" "0 \<le> rc_height b"
    and "0 < rc_height a + rc_height b" "0 < buffer"
  shows "\<exists>sx sy. calc_separation_amount a b buffer = Some (JNum sx, JNum sy) \<and>
    \<not> rc_intersects (move_by (- sx) (- sy) a) (move_by sx sy b)"
proof -
  let ?ox = "overlap (rc_x a) (rc_right a) (rc_x b) (rc_right b)"
  let ?oy = "overlap (rc_y a) (rc_bottom a) (rc_y b) (rc_bottom b)"
  have ox: "?ox = (if rc_center_x a < rc_center_x b then rc_right a - rc_x b else rc_right b - rc_x a)"
    using assms by (subst overlap_eq) (auto simp: rc_simps)
  have oy: "?oy = (if rc_center_y a < rc_center_y b then rc_bottom a - rc_y b else rc_bottom b - rc_y a)"
    using assms by (subst overlap_eq) (auto simp: rc_simps)
  have "0 < ?oy" if "slope_of a b = JNum 0"
    using slope_of_0[OF that] assms(3,5,6) unfolding oy by (simp add: rc_simps)
  moreover have "0 \<le> ?ox" "0 \<le> ?oy" using assms(1) unfolding ox oy by (auto simp: rc_intersects_def split: if_splits)
  ultimately obtain mx my where m: "smaller_move (slope_of a b) ?ox ?oy = (JNum mx, JNum my)" "mx = ?ox \<or> my = ?oy"
    using smaller_move_finite[OF _ _ slope_of_cases] by meson
  let ?dx = "if rc_center_x a < rc_center_x b then 1 else - 1 :: real"
  let ?dy = "if rc_center_y a < rc_center_y b then 1 else - 1 :: real"
  let ?sx = "?dx * (mx / 2 + buffer)" and ?sy = "?dy * (my / 2 + buffer)"
  have "calc_separation_amount a b buffer = Some (JNum ?sx, JNum ?sy)"
    using m(1) assms(1) by (simp add: calc_separation_amount_eq decide_directions_def js_mul_def js_div_def)
  moreover have "\<not> rc_intersects (move_by (- ?sx) (- ?sy) a) (move_by ?sx ?sy b)"
    using m(2) assms(7) unfolding ox oy
    by (auto simp: rc_intersects_def move_by_def rc_right_def rc_bottom_def split: if_splits)
  ultimately show ?thesis by blast
qed

text \<open>Two rectangles without height side by side get \<open>NaN\<close> instead of a distance.\<close>

lemma flat_rectangles_not_separated:
  assumes "rc_intersects a b" "rc_height a = 0" "rc_height b = 0" "0 < rc_width a" "0 < rc_width b"
    and "rc_center_x a \<noteq> rc_center_x b"
  shows "\<exists>sy. calc_separation_amount a b buffer = Some (JNaN, sy)"
proof -
  have y: "rc_y a = rc_y b" using assms(1-3) by (auto simp: rc_intersects_def rc_bottom_def split: if_splits)
  then have "slope_of a b = JNum 0" using assms(2,3,6) by (simp add: slope_of_def rc_simps js_div_def js_abs_def)
  then show ?thesis using assms(1-3) y
    by (simp add: calc_separation_amount_eq decide_directions_def smaller_move_def overlap_def rc_bottom_def
        js_div_def js_mul_def js_sign_def)
qed

subsection \<open>Clipping points lie between the rectangles\<close>

text \<open>Half the sizes of a rectangle; where the way of length 1 along \<open>(dx, dy)\<close> from the center leaves it.\<close>

definition leaves_at :: "rectangle \<Rightarrow> real \<Rightarrow> real \<Rightarrow> real \<Rightarrow> bool" where
  "leaves_at r dx dy t \<longleftrightarrow> 0 < t \<and> \<bar>t * dx\<bar> \<le> rc_width_half r \<and> \<bar>t * dy\<bar> \<le> rc_height_half r \<and>
     (\<bar>t * dx\<bar> = rc_width_half r \<or> \<bar>t * dy\<bar> = rc_height_half r)"

definition clip_direction :: "jsnum \<Rightarrow> jsnum \<Rightarrow> real \<Rightarrow> real \<Rightarrow> nat" where
  "clip_direction slope slope' dx dy =
     (if dx < 0 then (if dy < 0 then get_cardinal_direction slope slope' 4 else get_cardinal_direction (js_neg slope) slope' 3)
      else (if dy < 0 then get_cardinal_direction (js_neg slope) slope' 1 else get_cardinal_direction slope slope' 2))"

definition clip :: "rectangle \<Rightarrow> real \<Rightarrow> real \<Rightarrow> (real \<times> real) option" where
  "clip r dx dy =
     (let slope = js_div (JNum (rc_height r)) (JNum (rc_width r)); c = corner_clip r (dx < 0) slope (JNum (dy / dx))
      in if c = None then border_clip r (dy / dx) (clip_direction slope (JNum (dy / dx)) dx dy) else c)"

lemma get_intersection2_clip:
  assumes "\<not> rc_intersects a b" "rc_center_x a \<noteq> rc_center_x b" "rc_center_y a \<noteq> rc_center_y b"
  shows "get_intersection2 a b =
    (False, clip a (rc_center_x b - rc_center_x a) (rc_center_y b - rc_center_y a),
      clip b (rc_center_x a - rc_center_x b) (rc_center_y a - rc_center_y b))"
proof -
  have s: "(rc_center_y a - rc_center_y b) / (rc_center_x a - rc_center_x b) =
      (rc_center_y b - rc_center_y a) / (rc_center_x b - rc_center_x a)"
    by (metis minus_diff_eq minus_divide_divide)
  show ?thesis using assms
    by (auto simp: get_intersection2_def clip_def clip_direction_def Let_def s)
qed

lemma clip_leaves:
  assumes "proper r" "dx \<noteq> 0" "dy \<noteq> 0"
  shows "\<exists>t. clip r dx dy = Some (rc_center_x r + t * dx, rc_center_y r + t * dy) \<and> leaves_at r dx dy t"
proof -
  define a where "a = rc_width r / 2"
  define b where "b = rc_height r / 2"
  have ab: "0 < a" "0 < b" "rc_width r = 2 * a" "rc_height r = 2 * b" using assms(1) by (simp_all add: a_def b_def proper_def)
  let ?t = "if b * \<bar>dx\<bar> \<le> a * \<bar>dy\<bar> then b / \<bar>dy\<bar> else a / \<bar>dx\<bar>"
  have "leaves_at r dx dy ?t"
    using ab(1,2) assms(2,3) by (auto simp: leaves_at_def rc_width_half_def rc_height_half_def ab(3,4) abs_mult field_simps)
  have "0 < b * \<bar>dx\<bar> + a * \<bar>dy\<bar>" using ab(1,2) assms(2,3) by (simp add: add_pos_pos)
  then have "clip r dx dy = Some (rc_center_x r + ?t * dx, rc_center_y r + ?t * dy)"
    using ab(1,2) assms(2,3)
    by (cases "dx < 0"; cases "dy < 0")
       (auto simp: clip_def clip_direction_def corner_clip_def border_clip_def get_cardinal_direction_def rc_simps ab(3,4)
         js_div_def field_simps Let_def)
  with \<open>leaves_at r dx dy ?t\<close> show ?thesis by blast
qed

lemma way_to_side: "d \<noteq> 0 \<Longrightarrow> h / \<bar>d\<bar> * d = (if 0 < d then h else - h)" for d h :: real
  by (cases "0 < d") auto

lemma get_intersection2_leaves:
  assumes "proper a" "proper b" "\<not> rc_intersects a b"
  shows "\<exists>t u. get_intersection2 a b =
      (False, Some (rc_center_x a + t * (rc_center_x b - rc_center_x a), rc_center_y a + t * (rc_center_y b - rc_center_y a)),
        Some (rc_center_x b + u * (rc_center_x a - rc_center_x b), rc_center_y b + u * (rc_center_y a - rc_center_y b))) \<and>
    leaves_at a (rc_center_x b - rc_center_x a) (rc_center_y b - rc_center_y a) t \<and>
    leaves_at b (rc_center_x a - rc_center_x b) (rc_center_y a - rc_center_y b) u"
proof -
  let ?dx = "rc_center_x b - rc_center_x a" and ?dy = "rc_center_y b - rc_center_y a"
  have pos: "0 < rc_width a" "0 < rc_height a" "0 < rc_width b" "0 < rc_height b" using assms(1,2) by (auto simp: proper_def)
  consider "?dx = 0" "?dy \<noteq> 0" | "?dx \<noteq> 0" "?dy = 0" | "?dx \<noteq> 0" "?dy \<noteq> 0"
    using assms(3) pos by (auto simp: rc_intersects_def rc_simps split: if_splits)
  then show ?thesis
  proof cases
    case 1
    have way: "h / \<bar>?dy\<bar> * ?dy = (if 0 < ?dy then h else - h)" for h using 1(2) by (rule way_to_side)
    have "get_intersection2 a b =
        (False, Some (rc_center_x a, rc_center_y a + (if 0 < ?dy then rc_height_half a else - rc_height_half a)),
          Some (rc_center_x b, rc_center_y b - (if 0 < ?dy then rc_height_half b else - rc_height_half b)))"
      using 1 assms(3) by (auto simp: get_intersection2_def Let_def rc_simps)
    moreover have "leaves_at a ?dx ?dy (rc_height_half a / \<bar>?dy\<bar>)" "leaves_at b (- ?dx) (- ?dy) (rc_height_half b / \<bar>?dy\<bar>)"
      using 1 pos by (auto simp: leaves_at_def abs_mult abs_minus_commute[of "rc_center_y a"] rc_width_half_def rc_height_half_def)
    ultimately show ?thesis using way[of "rc_height_half a"] way[of "rc_height_half b"] 1(1)
      by (intro exI[of _ "rc_height_half a / \<bar>?dy\<bar>"] exI[of _ "rc_height_half b / \<bar>?dy\<bar>"]) (auto simp: right_diff_distrib)
  next
    case 2
    have way: "w / \<bar>?dx\<bar> * ?dx = (if 0 < ?dx then w else - w)" for w using 2(1) by (rule way_to_side)
    have "get_intersection2 a b =
        (False, Some (rc_center_x a + (if 0 < ?dx then rc_width_half a else - rc_width_half a), rc_center_y a),
          Some (rc_center_x b - (if 0 < ?dx then rc_width_half b else - rc_width_half b), rc_center_y b))"
      using 2 assms(3) by (auto simp: get_intersection2_def Let_def rc_simps)
    moreover have "leaves_at a ?dx ?dy (rc_width_half a / \<bar>?dx\<bar>)" "leaves_at b (- ?dx) (- ?dy) (rc_width_half b / \<bar>?dx\<bar>)"
      using 2 pos by (auto simp: leaves_at_def abs_mult abs_minus_commute[of "rc_center_x a"] rc_width_half_def rc_height_half_def)
    ultimately show ?thesis using way[of "rc_width_half a"] way[of "rc_width_half b"] 2(2)
      by (intro exI[of _ "rc_width_half a / \<bar>?dx\<bar>"] exI[of _ "rc_width_half b / \<bar>?dx\<bar>"]) (auto simp: right_diff_distrib)
  next
    case 3
    then show ?thesis
      using clip_leaves[OF assms(1), of ?dx ?dy] clip_leaves[OF assms(2), of "- ?dx" "- ?dy"]
        get_intersection2_clip[OF assms(3)] by auto
  qed
qed

definition between_centers :: "rectangle \<Rightarrow> rectangle \<Rightarrow> real \<Rightarrow> real \<times> real" where
  "between_centers a b t =
     (rc_center_x a + t * (rc_center_x b - rc_center_x a), rc_center_y a + t * (rc_center_y b - rc_center_y a))"

definition on_border :: "rectangle \<Rightarrow> real \<times> real \<Rightarrow> bool" where
  "on_border r p \<longleftrightarrow> in_rectangle r p \<and> (fst p = rc_x r \<or> fst p = rc_right r \<or> snd p = rc_y r \<or> snd p = rc_bottom r)"

lemma leaves_on_border:
  assumes "leaves_at r dx dy t"
  shows "on_border r (rc_center_x r + t * dx, rc_center_y r + t * dy)"
proof -
  have "rc_x r = rc_center_x r - rc_width_half r" "rc_right r = rc_center_x r + rc_width_half r"
    "rc_y r = rc_center_y r - rc_height_half r" "rc_bottom r = rc_center_y r + rc_height_half r"
    by (simp_all add: rc_simps)
  with assms show ?thesis by (auto simp: on_border_def in_rectangle_def leaves_at_def abs_le_iff abs_if split: if_splits)
qed

theorem clipping_points:
  assumes "proper a" "proper b" "\<not> rc_intersects a b"
  shows "\<exists>t u. get_intersection2 a b = (False, Some (between_centers a b t), Some (between_centers a b u)) \<and>
    0 < t \<and> t < u \<and> u < 1 \<and> on_border a (between_centers a b t) \<and> on_border b (between_centers a b u)"
proof -
  let ?dx = "rc_center_x b - rc_center_x a" and ?dy = "rc_center_y b - rc_center_y a"
  obtain t v where tv: "get_intersection2 a b =
      (False, Some (rc_center_x a + t * ?dx, rc_center_y a + t * ?dy), Some (rc_center_x b + v * - ?dx, rc_center_y b + v * - ?dy))"
    "leaves_at a ?dx ?dy t" "leaves_at b (- ?dx) (- ?dy) v"
    using get_intersection2_leaves[OF assms] by auto
  have l: "0 < t" "\<bar>t * ?dx\<bar> \<le> rc_width_half a" "\<bar>t * ?dy\<bar> \<le> rc_height_half a"
    "0 < v" "\<bar>v * ?dx\<bar> \<le> rc_width_half b" "\<bar>v * ?dy\<bar> \<le> rc_height_half b"
    using tv(2,3) by (auto simp: leaves_at_def abs_mult abs_minus_commute)
  have "rc_width_half a + rc_width_half b < \<bar>?dx\<bar> \<or> rc_height_half a + rc_height_half b < \<bar>?dy\<bar>"
    using assms(3) by (auto simp: rc_intersects_def rc_simps split: if_splits)
  then have "(t + v) * \<bar>?dx\<bar> < \<bar>?dx\<bar> \<or> (t + v) * \<bar>?dy\<bar> < \<bar>?dy\<bar>"
    using l by (auto simp: abs_mult distrib_right)
  then have "t + v < 1" using mult_right_mono[of 1 "t + v" "\<bar>?dx\<bar>"] mult_right_mono[of 1 "t + v" "\<bar>?dy\<bar>"] by fastforce
  moreover have "(rc_center_x b + v * - ?dx, rc_center_y b + v * - ?dy) = between_centers a b (1 - v)"
    by (simp add: between_centers_def algebra_simps)
  ultimately show ?thesis
    using tv l(1,4) leaves_on_border[OF tv(2)] leaves_on_border[OF tv(3)]
    by (intro exI[of _ t] exI[of _ "1 - v"]) (auto simp: between_centers_def)
qed

subsection \<open>Lines and angles\<close>

lemma get_intersection_on_lines:
  assumes "get_intersection s1 s2 f1 f2 = Some p"
  shows "(pt_y s2 - pt_y s1) * (pt_x p - pt_x s1) = (pt_x s2 - pt_x s1) * (pt_y p - pt_y s1)"
    and "(pt_y f2 - pt_y f1) * (pt_x p - pt_x f1) = (pt_x f2 - pt_x f1) * (pt_y p - pt_y f1)"
proof -
  define denom where "denom = (pt_y s2 - pt_y s1) * (pt_x f1 - pt_x f2) - (pt_y f2 - pt_y f1) * (pt_x s1 - pt_x s2)"
  have d: "denom \<noteq> 0"
    "pt_x p * denom = (pt_x s1 - pt_x s2) * (pt_x f2 * pt_y f1 - pt_x f1 * pt_y f2) -
      (pt_x f1 - pt_x f2) * (pt_x s2 * pt_y s1 - pt_x s1 * pt_y s2)"
    "pt_y p * denom = (pt_y f2 - pt_y f1) * (pt_x s2 * pt_y s1 - pt_x s1 * pt_y s2) -
      (pt_y s2 - pt_y s1) * (pt_x f2 * pt_y f1 - pt_x f1 * pt_y f2)"
    using assms by (auto simp: get_intersection_def denom_def Let_def split: if_splits)
  have "denom * ((pt_y s2 - pt_y s1) * (pt_x p - pt_x s1)) = denom * ((pt_x s2 - pt_x s1) * (pt_y p - pt_y s1))"
    using d(2,3) unfolding denom_def by algebra
  then show "(pt_y s2 - pt_y s1) * (pt_x p - pt_x s1) = (pt_x s2 - pt_x s1) * (pt_y p - pt_y s1)" using d(1) by simp
  have "denom * ((pt_y f2 - pt_y f1) * (pt_x p - pt_x f1)) = denom * ((pt_x f2 - pt_x f1) * (pt_y p - pt_y f1))"
    using d(2,3) unfolding denom_def by algebra
  then show "(pt_y f2 - pt_y f1) * (pt_x p - pt_x f1) = (pt_x f2 - pt_x f1) * (pt_y p - pt_y f1)" using d(1) by simp
qed

lemma do_intersect_iff:
  "do_intersect p1 p2 p3 p4 \<longleftrightarrow>
     (pt_x p2 - pt_x p1) * (pt_y p4 - pt_y p3) - (pt_x p4 - pt_x p3) * (pt_y p2 - pt_y p1) \<noteq> 0 \<and>
     (\<exists>l g. 0 < l \<and> l < 1 \<and> 0 < g \<and> g < 1 \<and>
        pt_x p1 + l * (pt_x p2 - pt_x p1) = pt_x p4 + g * (pt_x p3 - pt_x p4) \<and>
        pt_y p1 + l * (pt_y p2 - pt_y p1) = pt_y p4 + g * (pt_y p3 - pt_y p4))"
proof -
  obtain a b c d p q r s where P: "p1 = \<lparr>pt_x = a, pt_y = b\<rparr>" "p2 = \<lparr>pt_x = c, pt_y = d\<rparr>" "p3 = \<lparr>pt_x = p, pt_y = q\<rparr>"
    "p4 = \<lparr>pt_x = r, pt_y = s\<rparr>" by (metis layout_point.surjective old.unit.exhaust)
  define det where "det = (c - a) * (s - q) - (r - p) * (d - b)"
  define l0 where "l0 = ((s - q) * (r - a) + (p - r) * (s - b)) / det"
  define g0 where "g0 = ((b - d) * (r - a) + (c - a) * (s - b)) / det"
  have "a + l * (c - a) = r + g * (p - r) \<and> b + l * (d - b) = s + g * (q - s) \<longleftrightarrow> l = l0 \<and> g = g0" if "det \<noteq> 0" for l g
  proof
    assume lg: "a + l * (c - a) = r + g * (p - r) \<and> b + l * (d - b) = s + g * (q - s)"
    then have "l * det = (s - q) * (r - a) + (p - r) * (s - b)" "g * det = (b - d) * (r - a) + (c - a) * (s - b)"
      unfolding det_def by algebra+
    then show "l = l0 \<and> g = g0" using that by (simp add: l0_def g0_def eq_divide_eq)
  next
    assume "l = l0 \<and> g = g0"
    then have lg: "l * det = (s - q) * (r - a) + (p - r) * (s - b)" "g * det = (b - d) * (r - a) + (c - a) * (s - b)"
      using that by (simp_all add: l0_def g0_def)
    then have "det * (a + l * (c - a)) = det * (r + g * (p - r))" "det * (b + l * (d - b)) = det * (s + g * (q - s))"
      unfolding det_def by algebra+
    then show "a + l * (c - a) = r + g * (p - r) \<and> b + l * (d - b) = s + g * (q - s)" using that by simp
  qed
  then show ?thesis by (auto simp: P do_intersect_def Let_def det_def l0_def g0_def)
qed

lemma angle_of_vector_polar:
  assumes "(cx, cy) \<noteq> (nx, ny)"
  defines "r \<equiv> sqrt ((nx - cx)\<^sup>2 + (ny - cy)\<^sup>2)" and "angle \<equiv> angle_of_vector cx cy nx ny"
  shows "nx - cx = r * cos angle" "ny - cy = r * sin angle" "0 \<le> angle" "angle < 2 * pi"
proof -
  have "nx - cx = r * cos angle \<and> ny - cy = r * sin angle \<and> 0 \<le> angle \<and> angle < 2 * pi"
  proof (cases "cx = nx")
    case True
    have "cos (3 / 2 * pi) = 0" "sin (3 / 2 * pi) = - 1"
      using cos_periodic_pi[of "pi / 2"] sin_periodic_pi[of "pi / 2"] by (simp_all add: field_simps)
    then show ?thesis using True assms(1) pi_gt_zero
      by (auto simp: angle_def angle_of_vector_def r_def)
  next
    case False
    define q where "q = (ny - cy) / (nx - cx)"
    have q: "q * (nx - cx) = ny - cy" using False by (simp add: q_def)
    have r: "r = \<bar>nx - cx\<bar> * sqrt (1 + q\<^sup>2)"
      unfolding r_def by (simp add: q[symmetric] power_mult_distrib real_sqrt_mult[symmetric] distrib_left
          flip: real_sqrt_abs)
    have s: "sqrt (1 + q\<^sup>2) \<noteq> 0" using add_pos_nonneg[of 1 "q\<^sup>2"] by simp
    have b: "- (pi / 2) < arctan q" "arctan q < pi / 2" using arctan_bounded[of q] by auto
    have neg: "arctan q < 0 \<longleftrightarrow> q < 0" by simp
    show ?thesis
    proof (cases "nx < cx")
      case True
      then have "angle = arctan q + pi" using False by (simp add: angle_def angle_of_vector_def q_def)
      moreover from this have "r * cos angle = - \<bar>nx - cx\<bar>" "r * sin angle = - (q * \<bar>nx - cx\<bar>)"
        using s by (simp_all add: r cos_arctan sin_arctan)
      moreover have "- \<bar>nx - cx\<bar> = nx - cx" using True by simp
      then have "- (q * \<bar>nx - cx\<bar>) = ny - cy" unfolding q[symmetric] by (metis mult_minus_right)
      ultimately show ?thesis using True b by (auto intro: less_le_trans)
    next
      case right: False
      have "cos angle = cos (arctan q)" "sin angle = sin (arctan q)" "0 \<le> angle" "angle < 2 * pi"
        using False right b neg pi_gt_zero
        by (auto simp: angle_def angle_of_vector_def q_def Let_def divide_less_0_iff)
      moreover from this have "r * cos angle = \<bar>nx - cx\<bar>" "r * sin angle = q * \<bar>nx - cx\<bar>"
        using s by (simp_all add: r cos_arctan sin_arctan)
      ultimately show ?thesis using right q by simp
    qed
  qed
  then show "nx - cx = r * cos angle" "ny - cy = r * sin angle" "0 \<le> angle" "angle < 2 * pi" by auto
qed

end
