(* ===== verification/LayoutTiling.thy ===== *)
theory LayoutTiling
  imports LayoutGeometry "HOL-Library.Multiset"
begin

text \<open>
  Tiling of \<open>CoSELayout\<close> (\<open>docs/.vitepress/cache/deps/cytoscape-cose-bilkent.js\<close>): nodes without edges are packed
  into rows, which are laid out when the layout is done.  A node of type \<open>'n\<close> has its rectangle in a
  store, \<open>None\<close> is an exception.  What is proved: tiling returns, keeps every node once, its rows have the
  widths and heights it notes, and the nodes it lays out do not overlap and fit into the size it reports.
\<close>

subsection \<open>Rows\<close>

record 'n organization =
  og_rows :: "'n list list"
  og_row_width :: "real list"
  og_row_height :: "real list"
  og_width :: real
  og_height :: real
  og_vertical :: real
  og_horizontal :: real

text \<open>\<open>Number.MAX_VALUE\<close> and \<open>Number.MIN_VALUE\<close>, the least positive number.\<close>

definition number_max_value :: real where
  "number_max_value = (2 - 1 / 2 ^ 52) * 2 ^ 1023"

definition number_min_value :: real where
  "number_min_value = 1 / 2 ^ 1074"

fun shortest_row :: "nat \<Rightarrow> real list \<Rightarrow> nat option \<times> real \<Rightarrow> nat option \<times> real" where
  "shortest_row i [] best = best"
| "shortest_row i (w # ws) best = shortest_row (Suc i) ws (if w < snd best then (Some i, w) else best)"

fun longest_row :: "nat \<Rightarrow> real list \<Rightarrow> nat option \<times> real \<Rightarrow> nat option \<times> real" where
  "longest_row i [] best = best"
| "longest_row i (w # ws) best = longest_row (Suc i) ws (if w > snd best then (Some i, w) else best)"

text \<open>The index -1 is \<open>None\<close>.\<close>

definition get_shortest_row_index :: "'n organization \<Rightarrow> nat option" where
  "get_shortest_row_index org =
     fst (shortest_row 0 (take (length (og_rows org)) (og_row_width org)) (None, number_max_value))"

definition get_longest_row_index :: "'n organization \<Rightarrow> nat option" where
  "get_longest_row_index org =
     fst (longest_row 0 (take (length (og_rows org)) (og_row_width org)) (None, number_min_value))"

definition insert_node_to_row ::
  "('n \<Rightarrow> rectangle) \<Rightarrow> 'n organization \<Rightarrow> 'n \<Rightarrow> nat \<Rightarrow> real \<Rightarrow> 'n organization option" where
  "insert_node_to_row rect org node i min_width =
     (let org =
        (if i = length (og_rows org)
         then org\<lparr>og_rows := og_rows org @ [[]], og_row_width := og_row_width org @ [min_width],
                og_row_height := og_row_height org @ [0]\<rparr>
         else org)
      in if i \<ge> length (og_rows org) then None
         else
          (let w = og_row_width org ! i + rc_width (rect node);
               w = (if og_rows org ! i \<noteq> [] then w + og_horizontal org else w);
               h = rc_height (rect node);
               h = (if i > 0 then h + og_vertical org else h);
               extra_height = (if h > og_row_height org ! i then h - og_row_height org ! i else 0)
           in Some (org\<lparr>og_row_width := (og_row_width org)[i := w],
                  og_width := (if og_width org < w then w else og_width org),
                  og_row_height := (if h > og_row_height org ! i then (og_row_height org)[i := h] else og_row_height org),
                  og_height := og_height org + extra_height,
                  og_rows := (og_rows org)[i := og_rows org ! i @ [node]]\<rparr>)))"

definition can_add_horizontal :: "'n organization \<Rightarrow> real \<Rightarrow> real \<Rightarrow> bool" where
  "can_add_horizontal org extra_width extra_height =
     (case get_shortest_row_index org of
        None \<Rightarrow> True
      | Some sri \<Rightarrow>
         (let least = og_row_width org ! sri
          in if least + og_horizontal org + extra_width \<le> og_width org then True
             else
              (let h_diff =
                     (if og_row_height org ! sri < extra_height \<and> sri > 0
                      then extra_height + og_vertical org - og_row_height org ! sri else 0);
                   add_to_row_ratio =
                     (if og_width org - least \<ge> extra_width + og_horizontal org
                      then js_div (JNum (og_height org + h_diff)) (JNum (least + extra_width + og_horizontal org))
                      else js_div (JNum (og_height org + h_diff)) (JNum (og_width org)));
                   h_diff = extra_height + og_vertical org;
                   add_new_row_ratio =
                     (if og_width org < extra_width then js_div (JNum (og_height org + h_diff)) (JNum extra_width)
                      else js_div (JNum (og_height org + h_diff)) (JNum (og_width org)));
                   add_new_row_ratio =
                     (if js_lt add_new_row_ratio (JNum 1) then js_div (JNum 1) add_new_row_ratio else add_new_row_ratio);
                   add_to_row_ratio =
                     (if js_lt add_to_row_ratio (JNum 1) then js_div (JNum 1) add_to_row_ratio else add_to_row_ratio)
               in js_lt add_to_row_ratio add_new_row_ratio)))"

text \<open>
  \<open>shiftToLastRow\<close> reads the property \<open>width\<close> of a node, which nodes do not have, so the difference it compares
  with is \<open>NaN\<close>.  Past the comparison it would read \<open>instance\<close>, a name that is not bound.
\<close>

definition shift_to_last_row :: "'n organization \<Rightarrow> 'n organization option" where
  "shift_to_last_row org =
     (case get_longest_row_index org of
        None \<Rightarrow> None
      | Some longest \<Rightarrow>
         (let last_row = length (og_row_width org) - 1; row = og_rows org ! longest
          in if row = [] then None
             else
              (let node_width = JNaN; diff = js_add node_width (JNum (og_horizontal org))
               in if js_lt diff (JNum (og_width org - og_row_width org ! last_row)) \<and> longest \<noteq> last_row then None
                  else Some org)))"

definition by_area :: "('n \<Rightarrow> rectangle) \<Rightarrow> 'n \<Rightarrow> 'n \<Rightarrow> jsnum" where
  "by_area rect n1 n2 =
     (if rc_width (rect n1) * rc_height (rect n1) > rc_width (rect n2) * rc_height (rect n2) then JNum (- 1)
      else if rc_width (rect n1) * rc_height (rect n1) < rc_width (rect n2) * rc_height (rect n2) then JNum 1
      else JNum 0)"

definition tile_node :: "('n \<Rightarrow> rectangle) \<Rightarrow> real \<Rightarrow> 'n \<Rightarrow> 'n organization \<Rightarrow> 'n organization option" where
  "tile_node rect min_width node org =
     Option.bind
       (if og_rows org = [] then insert_node_to_row rect org node 0 min_width
        else if can_add_horizontal org (rc_width (rect node)) (rc_height (rect node)) then
          Option.bind (get_shortest_row_index org) (\<lambda>i. insert_node_to_row rect org node i min_width)
        else insert_node_to_row rect org node (length (og_rows org)) min_width)
       shift_to_last_row"

fun tile_each :: "('n \<Rightarrow> rectangle) \<Rightarrow> real \<Rightarrow> 'n list \<Rightarrow> 'n organization \<Rightarrow> 'n organization option" where
  "tile_each rect min_width [] org = Some org"
| "tile_each rect min_width (n # ns) org = Option.bind (tile_node rect min_width n org) (tile_each rect min_width ns)"

definition tile_nodes ::
  "('n \<Rightarrow> rectangle) \<Rightarrow> real \<Rightarrow> real \<Rightarrow> 'n list \<Rightarrow> real \<Rightarrow> 'n organization option" where
  "tile_nodes rect vertical horizontal nodes min_width =
     tile_each rect min_width (js_sort (by_area rect) nodes)
       \<lparr>og_rows = [], og_row_width = [], og_row_height = [], og_width = 0, og_height = min_width,
        og_vertical = vertical, og_horizontal = horizontal\<rparr>"

subsection \<open>Laying out\<close>

fun adjust_row ::
  "real \<Rightarrow> real \<Rightarrow> 'n list \<Rightarrow> real \<Rightarrow> real \<Rightarrow> ('n \<Rightarrow> rectangle) \<Rightarrow> ('n \<Rightarrow> rectangle) \<times> real" where
  "adjust_row horizontal y [] x max_height rect = (rect, max_height)"
| "adjust_row horizontal y (n # ns) x max_height rect =
     (let rect = rect(n := set_location x y (rect n))
      in adjust_row horizontal y ns (x + (rc_width (rect n) + horizontal))
           (if rc_height (rect n) > max_height then rc_height (rect n) else max_height) rect)"

fun adjust_rows ::
  "'n organization \<Rightarrow> real \<Rightarrow> 'n list list \<Rightarrow> real \<Rightarrow> ('n \<Rightarrow> rectangle) \<Rightarrow> 'n \<Rightarrow> rectangle" where
  "adjust_rows org left [] y rect = rect"
| "adjust_rows org left (row # rows) y rect =
     (let (rect, max_height) = adjust_row (og_horizontal org) y row left 0 rect
      in adjust_rows org left rows (y + (max_height + og_vertical org)) rect)"

definition adjust_locations ::
  "'n organization \<Rightarrow> real \<Rightarrow> real \<Rightarrow> real \<Rightarrow> real \<Rightarrow> ('n \<Rightarrow> rectangle) \<Rightarrow> 'n \<Rightarrow> rectangle" where
  "adjust_locations org x y horizontal_margin vertical_margin rect =
     adjust_rows org (x + horizontal_margin) (og_rows org) (y + vertical_margin) rect"

subsection \<open>What the rows note\<close>

definition widths :: "('n \<Rightarrow> rectangle) \<Rightarrow> real \<Rightarrow> 'n list \<Rightarrow> real" where
  "widths rect horizontal row = sum_list (map (\<lambda>n. rc_width (rect n)) row) + horizontal * real (length row - 1)"

definition tallest :: "('n \<Rightarrow> rectangle) \<Rightarrow> 'n list \<Rightarrow> real" where
  "tallest rect row = foldr (\<lambda>n m. max (rc_height (rect n)) m) row 0"

definition noted :: "('n \<Rightarrow> rectangle) \<Rightarrow> real \<Rightarrow> 'n organization \<Rightarrow> bool" where
  "noted rect min_width org \<longleftrightarrow>
     length (og_row_width org) = length (og_rows org) \<and> length (og_row_height org) = length (og_rows org) \<and>
     (\<forall>i < length (og_rows org). og_rows org ! i \<noteq> [] \<and>
        og_row_width org ! i = min_width + widths rect (og_horizontal org) (og_rows org ! i) \<and>
        og_row_height org ! i = tallest rect (og_rows org ! i) + (if i > 0 then og_vertical org else 0) \<and>
        og_row_width org ! i \<le> og_width org) \<and>
     og_height org = min_width + sum_list (og_row_height org)"

lemma shortest_row_range:
  "fst (shortest_row i ws best) = Some k \<Longrightarrow> fst best = Some k \<or> (i \<le> k \<and> k < i + length ws)"
  by (induction ws arbitrary: i best) (fastforce split: if_splits)+

lemma longest_row_range:
  "fst (longest_row i ws best) = Some k \<Longrightarrow> fst best = Some k \<or> (i \<le> k \<and> k < i + length ws)"
  by (induction ws arbitrary: i best) (fastforce split: if_splits)+

lemma shortest_row_found: "fst (shortest_row i ws best) = None \<Longrightarrow> fst best = None \<and> (\<forall>w \<in> set ws. snd best \<le> w)"
proof (induction ws arbitrary: i best)
  case (Cons w ws)
  from Cons.prems Cons.IH[of "Suc i" "if w < snd best then (Some i, w) else best"] show ?case by (auto split: if_splits)
qed simp

lemma longest_row_found: "fst (longest_row i ws best) = None \<Longrightarrow> fst best = None \<and> (\<forall>w \<in> set ws. w \<le> snd best)"
proof (induction ws arbitrary: i best)
  case (Cons w ws)
  from Cons.prems Cons.IH[of "Suc i" "if w > snd best then (Some i, w) else best"] show ?case by (auto split: if_splits)
qed simp

lemma sum_list_set: "i < length xs \<Longrightarrow> sum_list (xs[i := v]) = sum_list xs + v - xs ! i" for xs :: "real list"
  by (induction xs arbitrary: i) (auto split: nat.split)

lemma concat_snoc: "i < length rows \<Longrightarrow> mset (concat (rows[i := rows ! i @ [n]])) = add_mset n (mset (concat rows))"
  by (induction rows arbitrary: i) (auto split: nat.split)

lemma tallest_nonneg: "0 \<le> tallest rect row"
  unfolding tallest_def by (induction row) auto

lemma tallest_snoc: "tallest rect (row @ [n]) = max (tallest rect row) (rc_height (rect n))"
proof -
  have "foldr (\<lambda>n m. max (rc_height (rect n)) m) row (max v 0) = max (foldr (\<lambda>n m. max (rc_height (rect n)) m) row 0) v" for v
    by (induction row) auto
  then show ?thesis by (simp add: tallest_def)
qed

lemma tallest_Cons: "tallest rect (n # row) = max (rc_height (rect n)) (tallest rect row)"
  by (simp add: tallest_def)

lemma tallest_ge: "n \<in> set row \<Longrightarrow> rc_height (rect n) \<le> tallest rect row"
  unfolding tallest_def by (induction row) auto

lemma widths_snoc: "row \<noteq> [] \<Longrightarrow> widths rect h (row @ [n]) = widths rect h row + rc_width (rect n) + h"
  by (cases row) (auto simp: widths_def algebra_simps)

lemma insert_new_row:
  assumes "noted rect mw org" "0 \<le> rc_height (rect n)" "0 \<le> og_vertical org"
  shows "\<exists>org'. insert_node_to_row rect org n (length (og_rows org)) mw = Some org' \<and> noted rect mw org' \<and>
    og_rows org' = og_rows org @ [[n]] \<and> og_vertical org' = og_vertical org \<and> og_horizontal org' = og_horizontal org"
  using assms
  by (auto simp: insert_node_to_row_def Let_def noted_def nth_append less_Suc_eq widths_def tallest_def sum_list_set
      list_update_append)

lemma insert_old_row:
  assumes "noted rect mw org" "i < length (og_rows org)" "0 \<le> rc_height (rect n)" "0 \<le> og_vertical org"
  shows "\<exists>org'. insert_node_to_row rect org n i mw = Some org' \<and> noted rect mw org' \<and>
    og_rows org' = (og_rows org)[i := og_rows org ! i @ [n]] \<and> og_vertical org' = og_vertical org \<and>
    og_horizontal org' = og_horizontal org"
  using assms
  by (auto simp: insert_node_to_row_def Let_def noted_def nth_list_update widths_snoc tallest_snoc sum_list_set max_def)

subsection \<open>Tiling returns\<close>

definition weight :: "('n \<Rightarrow> rectangle) \<Rightarrow> real \<Rightarrow> 'n list \<Rightarrow> real" where
  "weight rect h ns = sum_list (map (\<lambda>n. rc_width (rect n) + h) ns)"

definition tileable :: "('n \<Rightarrow> rectangle) \<Rightarrow> 'n \<Rightarrow> bool" where
  "tileable rect n \<longleftrightarrow> number_min_value < rc_width (rect n) \<and> 0 \<le> rc_height (rect n)"

lemma tileable_width: "tileable rect n \<Longrightarrow> 0 < rc_width (rect n)"
  by (auto simp: tileable_def number_min_value_def intro: order_less_trans[rotated])

lemma weight_nonneg: "0 \<le> h \<Longrightarrow> \<forall>n \<in> set ns. tileable rect n \<Longrightarrow> 0 \<le> weight rect h ns"
proof (induction ns)
  case (Cons n ns)
  then show ?case using tileable_width[of rect n] by (simp add: weight_def)
qed (simp add: weight_def)

lemma widths_le_weight: "0 \<le> h \<Longrightarrow> widths rect h row \<le> weight rect h row"
  by (induction row) (auto simp: widths_def weight_def sum_list_addf algebra_simps sum_list_triv mult_left_mono)

lemma widths_ge:
  assumes "0 \<le> h" "n \<in> set row" "\<forall>m \<in> set row. tileable rect m"
  shows "rc_width (rect n) \<le> widths rect h row"
proof -
  have "rc_width (rect n) \<le> sum_list (map (\<lambda>n. rc_width (rect n)) row)"
    using assms(2,3) tileable_width by (intro member_le_sum_list) (fastforce intro: less_imp_le)+
  then show ?thesis using assms(1) by (simp add: widths_def add_increasing2)
qed

lemma weight_member:
  assumes "0 \<le> h" "row \<in> set rows" "\<forall>m \<in> set (concat rows). tileable rect m"
  shows "weight rect h row \<le> weight rect h (concat rows)"
proof -
  have "0 \<le> weight rect h r" if "r \<in> set rows" for r
    using assms(1,3) that by (intro weight_nonneg) auto
  then have "weight rect h row \<le> sum_list (map (weight rect h) rows)"
    using assms(2) by (intro member_le_sum_list) auto
  also have "\<dots> = weight rect h (concat rows)" by (induction rows) (auto simp: weight_def)
  finally show ?thesis .
qed

lemma weight_mset: "mset ns = mset ms \<Longrightarrow> weight rect h ns = weight rect h ms"
  unfolding weight_def by (metis mset_map sum_mset_sum_list)

lemma noted_first:
  assumes "noted rect mw org" "og_rows org \<noteq> []"
  shows "og_rows org ! 0 \<in> set (og_rows org)" "og_rows org ! 0 \<noteq> []"
    "og_row_width org ! 0 = mw + widths rect (og_horizontal org) (og_rows org ! 0)"
    "og_row_width org ! 0 \<in> set (og_row_width org)" "length (og_row_width org) = length (og_rows org)"
proof -
  have "0 < length (og_rows org)" "length (og_row_width org) = length (og_rows org)" using assms by (auto simp: noted_def)
  then show "og_rows org ! 0 \<in> set (og_rows org)" "og_rows org ! 0 \<noteq> []"
    "og_row_width org ! 0 = mw + widths rect (og_horizontal org) (og_rows org ! 0)"
    "og_row_width org ! 0 \<in> set (og_row_width org)" "length (og_row_width org) = length (og_rows org)"
    using assms(1) nth_mem[of 0 "og_row_width org"] unfolding noted_def by auto
qed

lemma shift_to_last_row_id:
  assumes "noted rect mw org" "og_rows org \<noteq> []" "0 \<le> mw" "0 \<le> og_horizontal org"
    and "\<forall>m \<in> set (concat (og_rows org)). tileable rect m"
  shows "shift_to_last_row org = Some org"
proof -
  note first = noted_first[OF assms(1,2)]
  then obtain n where n: "n \<in> set (og_rows org ! 0)" by (metis list.set_sel(1))
  then have "tileable rect n" "\<forall>m \<in> set (og_rows org ! 0). tileable rect m" using first(1) assms(5) by auto
  then have "number_min_value < og_row_width org ! 0"
    using widths_ge[OF assms(4) n, of rect] first(3) assms(3) by (auto simp: tileable_def)
  then obtain l where l: "get_longest_row_index org = Some l"
    using longest_row_found[of 0 "og_row_width org" "(None, number_min_value)"] first(4,5)
    by (cases "get_longest_row_index org") (auto simp: get_longest_row_index_def)
  then have "l < length (og_rows org)"
    using longest_row_range[of 0 "og_row_width org" "(None, number_min_value)" l] first(5)
    by (auto simp: get_longest_row_index_def)
  then show ?thesis using l assms(1) by (auto simp: shift_to_last_row_def Let_def noted_def)
qed

lemma tile_node_noted:
  assumes "noted rect mw org" "0 \<le> mw" "0 \<le> og_vertical org" "0 \<le> og_horizontal org" "tileable rect n"
    and "\<forall>m \<in> set (concat (og_rows org)). tileable rect m"
    and "mw + weight rect (og_horizontal org) (concat (og_rows org)) < number_max_value"
  shows "\<exists>org'. tile_node rect mw n org = Some org' \<and> noted rect mw org' \<and>
    mset (concat (og_rows org')) = add_mset n (mset (concat (og_rows org))) \<and>
    og_vertical org' = og_vertical org \<and> og_horizontal org' = og_horizontal org"
proof -
  have h: "0 \<le> rc_height (rect n)" using assms(5) by (simp add: tileable_def)
  have new: "\<exists>org'. insert_node_to_row rect org n (length (og_rows org)) mw = Some org' \<and> noted rect mw org' \<and>
      og_rows org' \<noteq> [] \<and> mset (concat (og_rows org')) = add_mset n (mset (concat (og_rows org))) \<and>
      og_vertical org' = og_vertical org \<and> og_horizontal org' = og_horizontal org"
    using insert_new_row[OF assms(1) h assms(3)] by auto
  have "\<exists>org'. (if og_rows org = [] then insert_node_to_row rect org n 0 mw
        else if can_add_horizontal org (rc_width (rect n)) (rc_height (rect n)) then
          Option.bind (get_shortest_row_index org) (\<lambda>i. insert_node_to_row rect org n i mw)
        else insert_node_to_row rect org n (length (og_rows org)) mw) = Some org' \<and> noted rect mw org' \<and>
      og_rows org' \<noteq> [] \<and> mset (concat (og_rows org')) = add_mset n (mset (concat (og_rows org))) \<and>
      og_vertical org' = og_vertical org \<and> og_horizontal org' = og_horizontal org"
  proof (cases "og_rows org = []")
    case False
    note first = noted_first[OF assms(1) this] and r = noted_first(3-5)[OF assms(1) this]
    have "og_row_width org ! 0 < number_max_value"
      using r(1) widths_le_weight[OF assms(4), of rect "og_rows org ! 0"] weight_member[OF assms(4) first(1) assms(6)] assms(7)
      by linarith
    then obtain i where i: "get_shortest_row_index org = Some i"
      using shortest_row_found[of 0 "og_row_width org" "(None, number_max_value)"] r(2,3)
      by (cases "get_shortest_row_index org") (auto simp: get_shortest_row_index_def)
    then have "i < length (og_rows org)"
      using shortest_row_range[of 0 "og_row_width org" "(None, number_max_value)" i] r(3)
      by (auto simp: get_shortest_row_index_def)
    from insert_old_row[OF assms(1) this h assms(3)] concat_snoc[OF this] new i False show ?thesis by auto
  qed (use new in auto)
  then obtain org' where o': "noted rect mw org'" "og_rows org' \<noteq> []"
    "mset (concat (og_rows org')) = add_mset n (mset (concat (og_rows org)))" "og_vertical org' = og_vertical org"
    "og_horizontal org' = og_horizontal org" "tile_node rect mw n org = shift_to_last_row org'"
    unfolding tile_node_def by auto
  have "\<forall>m \<in> set (concat (og_rows org')). tileable rect m"
    using assms(5,6) mset_eq_setD[of "concat (og_rows org')" "n # concat (og_rows org)"] o'(3) by auto
  from shift_to_last_row_id[OF o'(1,2) assms(2) _ this] o' assms(4) show ?thesis by auto
qed

lemma tile_each_noted:
  assumes "noted rect mw org" "0 \<le> mw" "0 \<le> og_vertical org" "0 \<le> og_horizontal org"
    and "\<forall>m \<in> set (concat (og_rows org) @ ns). tileable rect m"
    and "mw + weight rect (og_horizontal org) (concat (og_rows org) @ ns) < number_max_value"
  shows "\<exists>org'. tile_each rect mw ns org = Some org' \<and> noted rect mw org' \<and>
    mset (concat (og_rows org')) = mset (concat (og_rows org)) + mset ns \<and>
    og_vertical org' = og_vertical org \<and> og_horizontal org' = og_horizontal org"
  using assms
proof (induction ns arbitrary: org)
  case (Cons n ns)
  have "0 \<le> weight rect (og_horizontal org) (n # ns)"
    using Cons.prems(4,5) by (intro weight_nonneg) auto
  then have "mw + weight rect (og_horizontal org) (concat (og_rows org)) < number_max_value"
    using Cons.prems(6) by (simp add: weight_def)
  moreover have "tileable rect n" "\<forall>m \<in> set (concat (og_rows org)). tileable rect m" using Cons.prems(5) by auto
  ultimately obtain org1 where o1: "tile_node rect mw n org = Some org1"
    "noted rect mw org1" "mset (concat (og_rows org1)) = add_mset n (mset (concat (og_rows org)))"
    "og_vertical org1 = og_vertical org" "og_horizontal org1 = og_horizontal org"
    using tile_node_noted[OF Cons.prems(1-4)] by blast
  have m: "mset (concat (og_rows org1) @ ns) = mset (concat (og_rows org) @ n # ns)" using o1(3) by simp
  have "\<exists>org'. tile_each rect mw ns org1 = Some org' \<and> noted rect mw org' \<and>
      mset (concat (og_rows org')) = mset (concat (og_rows org1)) + mset ns \<and>
      og_vertical org' = og_vertical org1 \<and> og_horizontal org' = og_horizontal org1"
  proof (rule Cons.IH)
    show "noted rect mw org1" "0 \<le> mw" "0 \<le> og_vertical org1" "0 \<le> og_horizontal org1" using Cons.prems(2-4) o1 by simp_all
    show "\<forall>m \<in> set (concat (og_rows org1) @ ns). tileable rect m" unfolding mset_eq_setD[OF m] by (rule Cons.prems(5))
    show "mw + weight rect (og_horizontal org1) (concat (og_rows org1) @ ns) < number_max_value"
      unfolding weight_mset[OF m] o1(5) by (rule Cons.prems(6))
  qed
  then show ?case using o1 by auto
qed simp

lemma tile_nodes_noted:
  fixes nodes :: "'n list"
  assumes "0 \<le> mw" "0 \<le> v" "0 \<le> h" "\<forall>n \<in> set nodes. tileable rect n" "mw + weight rect h nodes < number_max_value"
  shows "\<exists>org. tile_nodes rect v h nodes mw = Some org \<and> noted rect mw org \<and> mset (concat (og_rows org)) = mset nodes \<and>
    og_vertical org = v \<and> og_horizontal org = h"
proof -
  let ?org = "\<lparr>og_rows = [], og_row_width = [], og_row_height = [], og_width = 0, og_height = mw, og_vertical = v,
      og_horizontal = h\<rparr> :: 'n organization"
  have "weight rect h (js_sort (by_area rect) nodes) = weight rect h nodes" by (rule weight_mset) simp
  moreover have "noted rect mw ?org" by (simp add: noted_def)
  ultimately show ?thesis
    using assms tile_each_noted[of rect mw ?org "js_sort (by_area rect) nodes"] by (simp add: tile_nodes_def)
qed

subsection \<open>Tiled nodes do not overlap\<close>

lemma widths_Cons: "widths rect h (n # ns) = rc_width (rect n) + (if ns = [] then 0 else h + widths rect h ns)"
  by (cases ns) (auto simp: widths_def algebra_simps)

lemma widths_nonneg: "0 \<le> h \<Longrightarrow> \<forall>n \<in> set row. 0 \<le> rc_width (rect n) \<Longrightarrow> 0 \<le> widths rect h row"
  unfolding widths_def by (intro add_nonneg_nonneg sum_list_nonneg mult_nonneg_nonneg) auto

definition same_sizes :: "('n \<Rightarrow> rectangle) \<Rightarrow> ('n \<Rightarrow> rectangle) \<Rightarrow> bool" where
  "same_sizes rect rect' \<longleftrightarrow> (\<forall>n. rc_width (rect' n) = rc_width (rect n) \<and> rc_height (rect' n) = rc_height (rect n))"

lemma same_sizes_sums:
  assumes "same_sizes rect rect'"
  shows "widths rect' h row = widths rect h row" "tallest rect' row = tallest rect row"
  using assms unfolding same_sizes_def widths_def tallest_def by (induction row) auto

definition row_laid :: "real \<Rightarrow> real \<Rightarrow> real \<Rightarrow> 'n list \<Rightarrow> ('n \<Rightarrow> rectangle) \<Rightarrow> ('n \<Rightarrow> rectangle) \<Rightarrow> bool" where
  "row_laid h x y row rect rect' \<longleftrightarrow>
     same_sizes rect rect' \<and> (\<forall>n. n \<notin> set row \<longrightarrow> rect' n = rect n) \<and>
     (\<forall>n \<in> set row. rc_y (rect' n) = y \<and> x \<le> rc_x (rect' n) \<and> rc_right (rect' n) \<le> x + widths rect h row) \<and>
     (\<forall>n \<in> set row. \<forall>m \<in> set row. n \<noteq> m \<longrightarrow>
        rc_right (rect' n) + h \<le> rc_x (rect' m) \<or> rc_right (rect' m) + h \<le> rc_x (rect' n))"

lemma adjust_row_laid:
  assumes "distinct row" "\<forall>n \<in> set row. 0 \<le> rc_width (rect n)" "0 \<le> h" "0 \<le> mh"
  shows "\<exists>rect'. adjust_row h y row x mh rect = (rect', max mh (tallest rect row)) \<and> row_laid h x y row rect rect'"
  using assms
proof (induction row arbitrary: x mh rect)
  case Nil
  then show ?case by (simp add: row_laid_def same_sizes_def tallest_def)
next
  case (Cons n ns)
  let ?r = "rect(n := set_location x y (rect n))" and ?w = "rc_width (rect n)" and ?mh = "max mh (rc_height (rect n))"
  have s: "same_sizes rect ?r" by (simp add: same_sizes_def set_location_def)
  then have sums: "widths ?r h ns = widths rect h ns" "tallest ?r ns = tallest rect ns" by (rule same_sizes_sums)+
  have "\<exists>rect'. adjust_row h y ns (x + (?w + h)) ?mh ?r = (rect', max ?mh (tallest ?r ns)) \<and> row_laid h (x + (?w + h)) y ns ?r rect'"
    using Cons.prems s by (intro Cons.IH) (auto simp: same_sizes_def)
  then obtain rect' where r': "adjust_row h y ns (x + (?w + h)) ?mh ?r = (rect', max ?mh (tallest ?r ns))"
    "row_laid h (x + (?w + h)) y ns ?r rect'" by blast
  have "adjust_row h y (n # ns) x mh rect = (rect', max mh (tallest rect (n # ns)))"
  proof -
    have "adjust_row h y (n # ns) x mh rect = adjust_row h y ns (x + (?w + h)) ?mh ?r"
      by (simp add: set_location_def Let_def max_def)
    then show ?thesis unfolding r'(1) sums(2) by (simp add: tallest_Cons max.assoc)
  qed
  moreover have "row_laid h x y (n # ns) rect rect'"
  proof -
    have n: "rect' n = set_location x y (rect n)" using r'(2) Cons.prems(1) by (simp add: row_laid_def)
    have w: "0 \<le> ?w" "0 \<le> widths rect h ns" using Cons.prems(2,3) by (auto intro: widths_nonneg)
    have ns: "rc_y (rect' m) = y \<and> x + (?w + h) \<le> rc_x (rect' m) \<and> rc_right (rect' m) \<le> x + (?w + h) + widths rect h ns"
      if "m \<in> set ns" for m using r'(2) that sums(1) by (simp add: row_laid_def)
    have "same_sizes rect rect'" "\<forall>m. m \<notin> set (n # ns) \<longrightarrow> rect' m = rect m"
      using r'(2) s by (auto simp: row_laid_def same_sizes_def)
    moreover have "\<forall>m \<in> set (n # ns). rc_y (rect' m) = y \<and> x \<le> rc_x (rect' m) \<and> rc_right (rect' m) \<le> x + widths rect h (n # ns)"
    proof
      fix m assume "m \<in> set (n # ns)"
      then consider "m = n" | "m \<in> set ns" by auto
      then show "rc_y (rect' m) = y \<and> x \<le> rc_x (rect' m) \<and> rc_right (rect' m) \<le> x + widths rect h (n # ns)"
      proof cases
        case 1
        then show ?thesis using n w Cons.prems(3) by (simp add: set_location_def rc_right_def widths_Cons)
      next
        case 2
        then have "widths rect h (n # ns) = ?w + (h + widths rect h ns)" by (auto simp: widths_Cons)
        then show ?thesis using ns[OF 2] w(1) Cons.prems(3) by simp
      qed
    qed
    moreover have "rc_right (rect' n) + h \<le> rc_x (rect' m)" if "m \<in> set ns" for m
      using ns[OF that] by (simp add: n set_location_def rc_right_def)
    moreover have "rc_right (rect' a) + h \<le> rc_x (rect' b) \<or> rc_right (rect' b) + h \<le> rc_x (rect' a)"
      if "a \<in> set ns" "b \<in> set ns" "a \<noteq> b" for a b using r'(2) that by (simp add: row_laid_def)
    ultimately show ?thesis unfolding row_laid_def by auto
  qed
  ultimately show ?case by blast
qed

definition heights :: "('n \<Rightarrow> rectangle) \<Rightarrow> real \<Rightarrow> 'n list list \<Rightarrow> real" where
  "heights rect v rows = sum_list (map (tallest rect) rows) + v * real (length rows - 1)"

definition rows_laid ::
  "real \<Rightarrow> real \<Rightarrow> real \<Rightarrow> real \<Rightarrow> 'n list list \<Rightarrow> ('n \<Rightarrow> rectangle) \<Rightarrow> ('n \<Rightarrow> rectangle) \<Rightarrow> bool" where
  "rows_laid x y w t rows rect rect' \<longleftrightarrow>
     same_sizes rect rect' \<and> (\<forall>n. n \<notin> set (concat rows) \<longrightarrow> rect' n = rect n) \<and>
     (\<forall>n \<in> set (concat rows). x \<le> rc_x (rect' n) \<and> rc_right (rect' n) \<le> x + w \<and>
        y \<le> rc_y (rect' n) \<and> rc_bottom (rect' n) \<le> y + t) \<and>
     (\<forall>n \<in> set (concat rows). \<forall>m \<in> set (concat rows). n \<noteq> m \<longrightarrow> \<not> rc_intersects (rect' n) (rect' m))"

lemma heights_Cons: "heights rect v (row # rows) = tallest rect row + (if rows = [] then 0 else v + heights rect v rows)"
  by (cases rows) (auto simp: heights_def algebra_simps)

lemma heights_nonneg: "0 \<le> v \<Longrightarrow> 0 \<le> heights rect v rows"
  unfolding heights_def using tallest_nonneg
  by (intro add_nonneg_nonneg sum_list_nonneg mult_nonneg_nonneg) auto

lemma same_sizes_heights: "same_sizes rect rect' \<Longrightarrow> heights rect' v rows = heights rect v rows"
  by (simp add: heights_def same_sizes_sums(2) fun_eq_iff cong: map_cong)

lemma adjust_rows_laid:
  assumes "distinct (concat rows)" "\<forall>n \<in> set (concat rows). 0 \<le> rc_width (rect n)" "0 < og_horizontal org" "0 < og_vertical org"
    and "\<forall>row \<in> set rows. widths rect (og_horizontal org) row \<le> w"
  shows "rows_laid x y w (heights rect (og_vertical org) rows) rows rect (adjust_rows org x rows y rect)"
  using assms(1,2,5)
proof (induction rows arbitrary: y rect)
  case Nil
  then show ?case by (simp add: rows_laid_def same_sizes_def)
next
  case (Cons row rows)
  let ?h = "og_horizontal org" and ?v = "og_vertical org" and ?t = "tallest rect row"
  obtain r1 where r1: "adjust_row ?h y row x 0 rect = (r1, max 0 ?t)" "row_laid ?h x y row rect r1"
    using adjust_row_laid[of row rect ?h 0 y x] Cons.prems(1,2) assms(3) by auto
  then have s1: "same_sizes rect r1" by (simp add: row_laid_def)
  let ?r = "adjust_rows org x rows (y + (?t + ?v)) r1"
  have "rows_laid x (y + (?t + ?v)) w (heights r1 ?v rows) rows r1 ?r"
    using Cons.prems s1 by (intro Cons.IH) (auto simp: same_sizes_def same_sizes_sums(1)[OF s1])
  then have r: "rows_laid x (y + (?t + ?v)) w (heights rect ?v rows) rows r1 ?r" by (simp add: same_sizes_heights[OF s1])
  have eq: "adjust_rows org x (row # rows) y rect = ?r" using r1(1) tallest_nonneg[of rect row] by (simp add: max_def)
  have kept: "?r n = r1 n" if "n \<in> set row" for n using r that Cons.prems(1) by (auto simp: rows_laid_def)
  have first: "rc_y (?r n) = y \<and> x \<le> rc_x (?r n) \<and> rc_right (?r n) \<le> x + w \<and> rc_bottom (?r n) \<le> y + ?t" if "n \<in> set row" for n
    using r1(2) that Cons.prems(3) tallest_ge[OF that, of rect]
    by (auto simp: kept[OF that] row_laid_def same_sizes_def rc_bottom_def)
  have later: "x \<le> rc_x (?r n) \<and> rc_right (?r n) \<le> x + w \<and> y + (?t + ?v) \<le> rc_y (?r n) \<and>
      rc_bottom (?r n) \<le> y + (?t + ?v) + heights rect ?v rows" if "n \<in> set (concat rows)" for n
    using r that unfolding rows_laid_def by blast
  have "same_sizes rect ?r" "\<forall>n. n \<notin> set (concat (row # rows)) \<longrightarrow> ?r n = rect n"
    using r r1(2) by (auto simp: rows_laid_def row_laid_def same_sizes_def)
  moreover have "x \<le> rc_x (?r n) \<and> rc_right (?r n) \<le> x + w \<and> y \<le> rc_y (?r n) \<and>
      rc_bottom (?r n) \<le> y + heights rect ?v (row # rows)" if "n \<in> set (concat (row # rows))" for n
  proof (cases "n \<in> set row")
    case True
    then show ?thesis using first[OF True] heights_nonneg[of ?v rect rows] assms(4) by (auto simp: heights_Cons)
  next
    case False
    then have n: "n \<in> set (concat rows)" using that by simp
    then have "heights rect ?v (row # rows) = ?t + (?v + heights rect ?v rows)" by (auto simp: heights_Cons)
    then show ?thesis using later[OF n] tallest_nonneg[of rect row] assms(4) by simp
  qed
  moreover have "\<not> rc_intersects (?r n) (?r m)"
    if nm: "n \<in> set (concat (row # rows))" "m \<in> set (concat (row # rows))" "n \<noteq> m" for n m
  proof -
    consider "n \<in> set row" "m \<in> set row" | "n \<in> set row" "m \<in> set (concat rows)" | "n \<in> set (concat rows)" "m \<in> set row"
      | "n \<in> set (concat rows)" "m \<in> set (concat rows)" using nm(1,2) by auto
    then show ?thesis
    proof cases
      case 1
      then have "rc_right (r1 n) + ?h \<le> rc_x (r1 m) \<or> rc_right (r1 m) + ?h \<le> rc_x (r1 n)"
        using r1(2) nm(3) by (simp add: row_laid_def)
      then show ?thesis using assms(3) by (auto simp: rc_intersects_def kept[OF 1(1)] kept[OF 1(2)])
    next
      case 2
      then show ?thesis using first[OF 2(1)] later[OF 2(2)] assms(4) by (auto simp: rc_intersects_def)
    next
      case 3
      then show ?thesis using first[OF 3(2)] later[OF 3(1)] assms(4) by (auto simp: rc_intersects_def)
    next
      case 4
      then show ?thesis using r nm(3) unfolding rows_laid_def by blast
    qed
  qed
  ultimately show ?case unfolding eq rows_laid_def by blast
qed

lemma noted_heights:
  assumes "noted rect mw org"
  shows "og_height org = mw + heights rect (og_vertical org) (og_rows org)"
proof -
  let ?k = "length (og_rows org)" and ?v = "og_vertical org"
  have "sum_list (og_row_height org) = (\<Sum>i < ?k. og_row_height org ! i)"
    using assms by (simp add: sum_list_sum_nth atLeast0LessThan noted_def)
  also have "\<dots> = (\<Sum>i < ?k. tallest rect (og_rows org ! i) + (if i > 0 then ?v else 0))"
    using assms by (intro sum.cong) (auto simp: noted_def)
  also have "\<dots> = (\<Sum>i < ?k. tallest rect (og_rows org ! i)) + (\<Sum>i < ?k. if i > 0 then ?v else 0)" by (rule sum.distrib)
  also have "(\<Sum>i < ?k. tallest rect (og_rows org ! i)) = sum_list (map (tallest rect) (og_rows org))"
    by (simp add: sum_list_sum_nth atLeast0LessThan)
  also have "(\<Sum>i < k. if i > 0 then ?v else 0) = ?v * real (k - 1)" for k
    by (induction k) (auto simp: algebra_simps of_nat_diff)
  finally show ?thesis using assms by (simp add: noted_def heights_def)
qed

text \<open>C25. \<open>tileNodes\<close> comes to an end, keeps every node once, and \<open>adjustLocations\<close> then sets the nodes of a row side
  by side and the rows below each other, without overlap, within the width and height the organization
  reports less the minimum it starts from, and without changing a node's size.\<close>

theorem tiling_lays_out:
  assumes "0 \<le> mw" "0 < v" "0 < h" "distinct nodes" "\<forall>n \<in> set nodes. tileable rect n"
    and "mw + weight rect h nodes < number_max_value"
  shows "\<exists>org. tile_nodes rect v h nodes mw = Some org \<and> mset (concat (og_rows org)) = mset nodes \<and>
    rows_laid (x + hm) (y + vm) (og_width org - mw) (og_height org - mw) (og_rows org) rect (adjust_locations org x y hm vm rect)"
proof -
  obtain org where org: "tile_nodes rect v h nodes mw = Some org" "noted rect mw org"
    "mset (concat (og_rows org)) = mset nodes" "og_vertical org = v" "og_horizontal org = h"
    using tile_nodes_noted[OF assms(1) less_imp_le[OF assms(2)] less_imp_le[OF assms(3)] assms(5,6)] by blast
  have set: "set (concat (og_rows org)) = set nodes" using org(3) mset_eq_setD by blast
  have w: "widths rect h row \<le> og_width org - mw" if row: "row \<in> set (og_rows org)" for row
  proof -
    obtain i where i: "i < length (og_rows org)" "og_rows org ! i = row" using row by (auto simp: in_set_conv_nth)
    then have "og_row_width org ! i = mw + widths rect h row" "og_row_width org ! i \<le> og_width org"
      using org(2,5) by (auto simp: noted_def)
    then show ?thesis by linarith
  qed
  have d: "distinct (concat (og_rows org))" using org(3) assms(4) by (metis mset_eq_imp_distinct_iff)
  have "0 \<le> rc_width (rect n)" if "n \<in> set nodes" for n using assms(5) that tileable_width[of rect n] by simp
  then have "\<forall>n \<in> set (concat (og_rows org)). 0 \<le> rc_width (rect n)" unfolding set by blast
  from adjust_rows_laid[OF d this, of org "og_width org - mw" "x + hm" "y + vm"]
  have "rows_laid (x + hm) (y + vm) (og_width org - mw) (heights rect v (og_rows org)) (og_rows org) rect
      (adjust_locations org x y hm vm rect)" using w assms(2,3) unfolding org(4,5) adjust_locations_def by simp
  then show ?thesis using org noted_heights[OF org(2)] by auto
qed

lemma tiling_lays_out_witness:
  "\<exists>org. tile_nodes (\<lambda>n::nat. \<lparr>rc_x = 0, rc_y = 0, rc_width = real n, rc_height = 1\<rparr>) 10 10 [1, 2, 3] 0 = Some org \<and>
     mset (concat (og_rows org)) = mset [1, 2, 3] \<and>
     rows_laid (5 + 0) (5 + 0) (og_width org - 0) (og_height org - 0) (og_rows org)
       (\<lambda>n. \<lparr>rc_x = 0, rc_y = 0, rc_width = real n, rc_height = 1\<rparr>)
       (adjust_locations org 5 5 0 0 (\<lambda>n. \<lparr>rc_x = 0, rc_y = 0, rc_width = real n, rc_height = 1\<rparr>))"
  by (rule tiling_lays_out)
    (auto simp: tileable_def number_min_value_def number_max_value_def weight_def field_simps)

end
