(* ===== verification/LayoutNumbers.thy ===== *)
theory LayoutNumbers
  imports LayoutGeometry
begin

text \<open>
  The forces of a layout (\<open>docs/.vitepress/cache/deps/cytoscape-cose-bilkent.js\<close>) compute with whatever numbers
  come up, infinities and \<open>NaN\<close> included.  Here are the arithmetic of \<open>jsnum\<close> in the usual notation,
  \<open>parseInt\<close> of a rounded number, and the parts of \<open>RectangleD\<close>, \<open>LNode\<close>, \<open>IMath\<close> and \<open>IGeometry\<close> that the forces
  use, on such numbers.  On finite numbers they are the definitions of \<open>LayoutGeometry\<close>.  A comparison is the
  one of the code, since the negation of a comparison with \<open>NaN\<close> is not the opposite one.
\<close>

subsection \<open>Arithmetic\<close>

instantiation jsnum :: "{zero, one, plus, minus, uminus, times, inverse, abs, ord}"
begin

definition zero_jsnum :: jsnum where
  "0 = JNum 0"

definition one_jsnum :: jsnum where
  "1 = JNum 1"

definition plus_jsnum :: "jsnum \<Rightarrow> jsnum \<Rightarrow> jsnum" where
  "a + b = js_add a b"

definition minus_jsnum :: "jsnum \<Rightarrow> jsnum \<Rightarrow> jsnum" where
  "a - b = js_sub a b"

definition uminus_jsnum :: "jsnum \<Rightarrow> jsnum" where
  "- a = js_neg a"

definition times_jsnum :: "jsnum \<Rightarrow> jsnum \<Rightarrow> jsnum" where
  "a * b = js_mul a b"

definition divide_jsnum :: "jsnum \<Rightarrow> jsnum \<Rightarrow> jsnum" where
  "divide a b = js_div a b"

definition inverse_jsnum :: "jsnum \<Rightarrow> jsnum" where
  "inverse a = js_div (JNum 1) a"

definition abs_jsnum :: "jsnum \<Rightarrow> jsnum" where
  "\<bar>a\<bar> = js_abs a"

definition less_jsnum :: "jsnum \<Rightarrow> jsnum \<Rightarrow> bool" where
  "a < b = js_lt a b"

definition less_eq_jsnum :: "jsnum \<Rightarrow> jsnum \<Rightarrow> bool" where
  "a \<le> b = js_le a b"

instance ..

end

instance jsnum :: semigroup_add
proof
  fix a b c :: jsnum
  show "a + b + c = a + (b + c)"
    by (cases a; cases b; cases c) (simp_all add: plus_jsnum_def)
qed

instance jsnum :: numeral ..

lemma numeral_jsnum: "(numeral k :: jsnum) = JNum (numeral k)"
proof (induction k)
  case One
  then show ?case by (simp add: one_jsnum_def numeral_One)
next
  case (Bit0 k)
  then show ?case by (simp only: numeral_Bit0 plus_jsnum_def js_add.simps)
next
  case (Bit1 k)
  then show ?case by (simp only: numeral_Bit1 plus_jsnum_def one_jsnum_def js_add.simps)
qed

text \<open>On finite numbers.\<close>

lemma jsnum_finite:
  "(0 :: jsnum) = JNum 0" "(1 :: jsnum) = JNum 1" "(numeral k :: jsnum) = JNum (numeral k)"
  "JNum x + JNum y = JNum (x + y)" "JNum x - JNum y = JNum (x - y)" "- JNum x = JNum (- x)"
  "JNum x * JNum y = JNum (x * y)" "y \<noteq> 0 \<Longrightarrow> JNum x / JNum y = JNum (x / y)" "\<bar>JNum x\<bar> = JNum \<bar>x\<bar>"
  "JNum x < JNum y \<longleftrightarrow> x < y" "JNum x \<le> JNum y \<longleftrightarrow> x \<le> y" "js_eq (JNum x) (JNum y) \<longleftrightarrow> x = y"
  "js_min (JNum x) (JNum y) = JNum (min x y)" "js_max (JNum x) (JNum y) = JNum (max x y)"
  by (auto simp: zero_jsnum_def one_jsnum_def numeral_jsnum plus_jsnum_def minus_jsnum_def js_sub_def uminus_jsnum_def
      times_jsnum_def js_mul_def divide_jsnum_def js_div_def abs_jsnum_def js_abs_def less_jsnum_def
      less_eq_jsnum_def js_le_def js_min_def js_max_def)

text \<open>What is not finite stays so in a sum.\<close>

lemma add_finite: "is_finite (a + b) \<longleftrightarrow> is_finite a \<and> is_finite b"
  by (cases a; cases b) (simp_all add: plus_jsnum_def is_finite_def)

text \<open>
  \<open>parseInt\<close> of what \<open>Math.ceil\<close> or \<open>Math.floor\<close> gives; \<open>None\<close> is \<open>NaN\<close>.  From \<open>1e21\<close> on a number is written
  with an exponent, and \<open>parseInt\<close> reads the digit before the point.
\<close>

definition parse_rounded :: "(real \<Rightarrow> int) \<Rightarrow> jsnum \<Rightarrow> int option" where
  "parse_rounded rounded v =
     (case v of
        JNum x \<Rightarrow>
          (let n = rounded x
           in if \<bar>n\<bar> < 10 ^ 21 then Some n
              else Some (sgn n * \<lfloor>real_of_int \<bar>n\<bar> / 10 powr real_of_int \<lfloor>log 10 (real_of_int \<bar>n\<bar>)\<rfloor>\<rfloor>))
      | _ \<Rightarrow> None)"

definition sign_of :: "jsnum \<Rightarrow> jsnum" where
  "sign_of v = (if v > 0 then 1 else if v < 0 then - 1 else 0)"

subsection \<open>Rectangles\<close>

record num_rect =
  nr_x :: jsnum
  nr_y :: jsnum
  nr_width :: jsnum
  nr_height :: jsnum

definition nr_right :: "num_rect \<Rightarrow> jsnum" where
  "nr_right r = nr_x r + nr_width r"

definition nr_bottom :: "num_rect \<Rightarrow> jsnum" where
  "nr_bottom r = nr_y r + nr_height r"

definition nr_intersects :: "num_rect \<Rightarrow> num_rect \<Rightarrow> bool" where
  "nr_intersects r a =
     (if nr_right r < nr_x a then False
      else if nr_bottom r < nr_y a then False
      else if nr_right a < nr_x r then False
      else if nr_bottom a < nr_y r then False
      else True)"

definition nr_center_x :: "num_rect \<Rightarrow> jsnum" where
  "nr_center_x r = nr_x r + nr_width r / 2"

definition nr_center_y :: "num_rect \<Rightarrow> jsnum" where
  "nr_center_y r = nr_y r + nr_height r / 2"

definition nr_width_half :: "num_rect \<Rightarrow> jsnum" where
  "nr_width_half r = nr_width r / 2"

definition nr_height_half :: "num_rect \<Rightarrow> jsnum" where
  "nr_height_half r = nr_height r / 2"

definition nr_set_center :: "jsnum \<Rightarrow> jsnum \<Rightarrow> num_rect \<Rightarrow> num_rect" where
  "nr_set_center cx cy r = r\<lparr>nr_x := cx - nr_width r / 2, nr_y := cy - nr_height r / 2\<rparr>"

definition nr_move_by :: "jsnum \<Rightarrow> jsnum \<Rightarrow> num_rect \<Rightarrow> num_rect" where
  "nr_move_by dx dy r = r\<lparr>nr_x := nr_x r + dx, nr_y := nr_y r + dy\<rparr>"

subsection \<open>Overlapping rectangles\<close>

definition overlap_directions :: "num_rect \<Rightarrow> num_rect \<Rightarrow> jsnum \<times> jsnum" where
  "overlap_directions a b =
     ((if nr_center_x a < nr_center_x b then - 1 else 1), (if nr_center_y a < nr_center_y b then - 1 else 1))"

text \<open>\<open>None\<close> is the assertion that fails.\<close>

definition separation_amount :: "num_rect \<Rightarrow> num_rect \<Rightarrow> jsnum \<Rightarrow> (jsnum \<times> jsnum) option" where
  "separation_amount a b buffer =
     (if \<not> nr_intersects a b then None
      else
       (let (dir_x, dir_y) = overlap_directions a b;
            over_x = js_min (nr_right a) (nr_right b) - js_max (nr_x a) (nr_x b);
            over_y = js_min (nr_bottom a) (nr_bottom b) - js_max (nr_y a) (nr_y b);
            over_x =
              (if nr_x a \<le> nr_x b \<and> nr_right a \<ge> nr_right b
               then over_x + js_min (nr_x b - nr_x a) (nr_right a - nr_right b)
               else if nr_x b \<le> nr_x a \<and> nr_right b \<ge> nr_right a
               then over_x + js_min (nr_x a - nr_x b) (nr_right b - nr_right a) else over_x);
            over_y =
              (if nr_y a \<le> nr_y b \<and> nr_bottom a \<ge> nr_bottom b
               then over_y + js_min (nr_y b - nr_y a) (nr_bottom a - nr_bottom b)
               else if nr_y b \<le> nr_y a \<and> nr_bottom b \<ge> nr_bottom a
               then over_y + js_min (nr_y a - nr_y b) (nr_bottom b - nr_bottom a) else over_y);
            slope =
              (if js_eq (nr_center_y b) (nr_center_y a) \<and> js_eq (nr_center_x b) (nr_center_x a) then 1
               else \<bar>(nr_center_y b - nr_center_y a) / (nr_center_x b - nr_center_x a)\<bar>);
            move_y = slope * over_x;
            move_x = over_y / slope;
            (move_x, move_y) = (if over_x < move_x then (over_x, move_y) else (move_x, over_y))
        in Some (- 1 * dir_x * (move_x / 2 + buffer), - 1 * dir_y * (move_y / 2 + buffer))))"

subsection \<open>Clipping points\<close>

definition num_corner_clip :: "num_rect \<Rightarrow> bool \<Rightarrow> jsnum \<Rightarrow> jsnum \<Rightarrow> (jsnum \<times> jsnum) option" where
  "num_corner_clip r beyond slope slope' =
     (if js_eq (- slope) slope' then
        Some (if beyond then (nr_x r, nr_bottom r) else (nr_right r, nr_y r))
      else if js_eq slope slope' then
        Some (if beyond then (nr_x r, nr_y r) else (nr_right r, nr_bottom r))
      else None)"

definition num_border_clip :: "num_rect \<Rightarrow> jsnum \<Rightarrow> nat \<Rightarrow> (jsnum \<times> jsnum) option" where
  "num_border_clip r slope' direction =
     (if direction = 1 then Some (nr_center_x r + - nr_height_half r / slope', nr_y r)
      else if direction = 2 then Some (nr_right r, nr_center_y r + nr_width_half r * slope')
      else if direction = 3 then Some (nr_center_x r + nr_height_half r / slope', nr_bottom r)
      else if direction = 4 then Some (nr_x r, nr_center_y r + - nr_width_half r * slope')
      else None)"

text \<open>Whether the rectangles overlap, and the points written into the result, \<open>None\<close> where nothing is.\<close>

definition clip_points :: "num_rect \<Rightarrow> num_rect \<Rightarrow> bool \<times> (jsnum \<times> jsnum) option \<times> (jsnum \<times> jsnum) option" where
  "clip_points a b =
     (let p1x = nr_center_x a; p1y = nr_center_y a; p2x = nr_center_x b; p2y = nr_center_y b
      in if nr_intersects a b then (True, Some (p1x, p1y), Some (p2x, p2y))
         else if js_eq p1x p2x then
           (if p1y > p2y then (False, Some (p1x, nr_y a), Some (p2x, nr_bottom b))
            else if p1y < p2y then (False, Some (p1x, nr_bottom a), Some (p2x, nr_y b))
            else (False, None, None))
         else if js_eq p1y p2y then
           (if p1x > p2x then (False, Some (nr_x a, p1y), Some (nr_right b, p2y))
            else if p1x < p2x then (False, Some (nr_right a, p1y), Some (nr_x b, p2y))
            else (False, None, None))
         else
          (let slope_a = nr_height a / nr_width a; slope_b = nr_height b / nr_width b;
               slope' = (p2y - p1y) / (p2x - p1x);
               clip_a = num_corner_clip a (p1x > p2x) slope_a slope';
               clip_b = num_corner_clip b (p2x > p1x) slope_b slope';
               (direction_a, direction_b) =
                 (if p1x > p2x then
                    (if p1y > p2y
                     then (get_cardinal_direction slope_a slope' 4, get_cardinal_direction slope_b slope' 2)
                     else (get_cardinal_direction (- slope_a) slope' 3, get_cardinal_direction (- slope_b) slope' 1))
                  else
                    (if p1y > p2y
                     then (get_cardinal_direction (- slope_a) slope' 1, get_cardinal_direction (- slope_b) slope' 3)
                     else (get_cardinal_direction slope_a slope' 2, get_cardinal_direction slope_b slope' 4)))
           in (False,
               (if clip_a = None then num_border_clip a slope' direction_a else clip_a),
               (if clip_b = None then num_border_clip b slope' direction_b else clip_b))))"

subsection \<open>On finite numbers\<close>

definition lift_rect :: "rectangle \<Rightarrow> num_rect" where
  "lift_rect r = \<lparr>nr_x = JNum (rc_x r), nr_y = JNum (rc_y r), nr_width = JNum (rc_width r), nr_height = JNum (rc_height r)\<rparr>"

definition lift_pair :: "real \<times> real \<Rightarrow> jsnum \<times> jsnum" where
  "lift_pair p = (JNum (fst p), JNum (snd p))"

lemma lift_rect_simps:
  "nr_x (lift_rect r) = JNum (rc_x r)" "nr_y (lift_rect r) = JNum (rc_y r)"
  "nr_width (lift_rect r) = JNum (rc_width r)" "nr_height (lift_rect r) = JNum (rc_height r)"
  "nr_right (lift_rect r) = JNum (rc_right r)" "nr_bottom (lift_rect r) = JNum (rc_bottom r)"
  "nr_center_x (lift_rect r) = JNum (rc_center_x r)" "nr_center_y (lift_rect r) = JNum (rc_center_y r)"
  "nr_width_half (lift_rect r) = JNum (rc_width_half r)" "nr_height_half (lift_rect r) = JNum (rc_height_half r)"
  by (simp_all add: lift_rect_def nr_right_def nr_bottom_def nr_center_x_def nr_center_y_def nr_width_half_def
      nr_height_half_def rc_simps jsnum_finite)

lemma lift_intersects [simp]: "nr_intersects (lift_rect a) (lift_rect b) = rc_intersects a b"
  by (simp add: nr_intersects_def rc_intersects_def lift_rect_simps jsnum_finite)

lemma lift_move_by: "nr_move_by (JNum dx) (JNum dy) (lift_rect r) = lift_rect (move_by dx dy r)"
  by (simp add: nr_move_by_def move_by_def lift_rect_def jsnum_finite)

lemma lift_set_center: "nr_set_center (JNum cx) (JNum cy) (lift_rect r) = lift_rect (set_center cx cy r)"
  by (simp add: nr_set_center_def set_center_def lift_rect_def jsnum_finite)

lemma lift_directions:
  "overlap_directions (lift_rect a) (lift_rect b) = lift_pair (decide_directions a b)"
  by (simp add: overlap_directions_def decide_directions_def lift_pair_def lift_rect_simps jsnum_finite)

theorem separation_amount_finite:
  "separation_amount (lift_rect a) (lift_rect b) (JNum buffer) = calc_separation_amount a b buffer"
proof -
  obtain dx dy where d: "decide_directions a b = (dx, dy)" by fastforce
  show ?thesis
    unfolding separation_amount_def calc_separation_amount_def lift_intersects lift_directions lift_rect_simps Let_def d
    by (simp only: jsnum_finite lift_pair_def split times_jsnum_def[symmetric] plus_jsnum_def[symmetric]
        divide_jsnum_def[symmetric] abs_jsnum_def[symmetric] less_jsnum_def[symmetric] if_distrib[where f = JNum, symmetric]
        fst_conv snd_conv)
qed

lemma lift_corner_clip:
  "num_corner_clip (lift_rect r) beyond s s' = map_option lift_pair (corner_clip r beyond s s')"
  by (simp add: num_corner_clip_def corner_clip_def lift_rect_simps lift_pair_def uminus_jsnum_def)

lemma lift_border_clip:
  "s \<noteq> 0 \<Longrightarrow> num_border_clip (lift_rect r) (JNum s) d = map_option lift_pair (border_clip r s d)"
  by (simp add: num_border_clip_def border_clip_def lift_rect_simps lift_pair_def jsnum_finite)

theorem clip_points_finite:
  "clip_points (lift_rect a) (lift_rect b) = map_prod id (map_prod (map_option lift_pair) (map_option lift_pair)) (get_intersection2 a b)"
proof -
  note unfolds = clip_points_def get_intersection2_def Let_def lift_intersects lift_rect_simps
  consider "rc_intersects a b" | "\<not> rc_intersects a b" "rc_center_x a = rc_center_x b"
    | "\<not> rc_intersects a b" "rc_center_x a \<noteq> rc_center_x b" "rc_center_y a = rc_center_y b"
    | "\<not> rc_intersects a b" "rc_center_x a \<noteq> rc_center_x b" "rc_center_y a \<noteq> rc_center_y b" by blast
  then show ?thesis
  proof cases
    case 1
    then show ?thesis by (simp add: unfolds lift_pair_def)
  next
    case 2
    then show ?thesis unfolding unfolds by (simp only: jsnum_finite if_True if_False) (simp add: lift_pair_def)
  next
    case 3
    then have "rc_center_x a < rc_center_x b \<or> rc_center_x b < rc_center_x a" by linarith
    then show ?thesis using 3 unfolding unfolds
      by (simp only: jsnum_finite if_True if_False) (auto simp: lift_pair_def)
  next
    case 4
    let ?s = "(rc_center_y b - rc_center_y a) / (rc_center_x b - rc_center_x a)"
    have s: "?s \<noteq> 0" "JNum (rc_center_y b - rc_center_y a) / JNum (rc_center_x b - rc_center_x a) = JNum ?s"
      using 4 by (simp_all add: jsnum_finite)
    note border = lift_border_clip[OF s(1)]
    have opt: "(if map_option lift_pair c = None then map_option lift_pair d else map_option lift_pair c) =
        map_option lift_pair (if c = None then d else c)" for c d by simp
    show ?thesis
      using 4 unfolding unfolds
      by (simp only: jsnum_finite s(2) lift_corner_clip border opt divide_jsnum_def[symmetric] uminus_jsnum_def[symmetric]
          if_False if_True simp_thms map_prod_simp id_apply split: prod.split) simp
  qed
qed

end
