(* ===== verification/LayoutGraph.thy ===== *)
theory LayoutGraph
  imports JsBase "HOL-Library.Multiset"
begin

text \<open>
  \<open>LGraphManager\<close>, \<open>LGraph\<close>, \<open>LNode\<close> and \<open>LEdge\<close> of \<open>layout-base\<close>
  (\<open>docs/.vitepress/cache/deps/cytoscape-cose-bilkent.js\<close>): the graphs a layout works on, nested in each
  other through compound nodes, and that the lists of nodes, edges and incidences agree.  Objects live in
  a store, where every reference points to one; an object nobody has touched is as its constructor left
  it.  There is one manager, which every graph belongs to.  What a call that throws has already changed is lost.
\<close>

subsection \<open>Objects\<close>

record lnode =
  nd_owner :: "nat option"
  nd_child :: "nat option"
  nd_edges :: "nat list"

text \<open>Before an edge is added, \<open>isInterGraph\<close> is the method of that name, which counts as true.\<close>

record ledge =
  ed_source :: "nat option"
  ed_target :: "nat option"
  ed_inter :: bool

record lgraph =
  gr_parent :: "nat option"
  gr_nodes :: "nat list"
  gr_edges :: "nat list"

record manager =
  gm_node :: "nat \<Rightarrow> lnode"
  gm_edge :: "nat \<Rightarrow> ledge"
  gm_graph :: "nat \<Rightarrow> lgraph"
  gm_fresh :: nat
  gm_graphs :: "nat list"
  gm_inter :: "nat list"
  gm_root :: "nat option"
  gm_all_nodes :: "nat list option"
  gm_all_edges :: "nat list option"
  gm_gravitated :: "nat list option"

definition new_manager :: manager where
  "new_manager =
     \<lparr>gm_node = \<lambda>_. \<lparr>nd_owner = None, nd_child = None, nd_edges = []\<rparr>,
      gm_edge = \<lambda>_. \<lparr>ed_source = None, ed_target = None, ed_inter = True\<rparr>,
      gm_graph = \<lambda>_. \<lparr>gr_parent = None, gr_nodes = [], gr_edges = []\<rparr>,
      gm_fresh = 0, gm_graphs = [], gm_inter = [], gm_root = None,
      gm_all_nodes = None, gm_all_edges = None, gm_gravitated = None\<rparr>"

datatype layout_error = Thrown string | NullRead

text \<open>A new node, edge or graph: an object nobody has touched.\<close>

definition new_object :: "manager \<Rightarrow> manager \<times> nat" where
  "new_object s = (s\<lparr>gm_fresh := Suc (gm_fresh s)\<rparr>, gm_fresh s)"

definition upd_node :: "nat \<Rightarrow> (lnode \<Rightarrow> lnode) \<Rightarrow> manager \<Rightarrow> manager" where
  "upd_node n f s = s\<lparr>gm_node := (gm_node s)(n := f (gm_node s n))\<rparr>"

definition upd_edge :: "nat \<Rightarrow> (ledge \<Rightarrow> ledge) \<Rightarrow> manager \<Rightarrow> manager" where
  "upd_edge e f s = s\<lparr>gm_edge := (gm_edge s)(e := f (gm_edge s e))\<rparr>"

definition upd_graph :: "nat \<Rightarrow> (lgraph \<Rightarrow> lgraph) \<Rightarrow> manager \<Rightarrow> manager" where
  "upd_graph g f s = s\<lparr>gm_graph := (gm_graph s)(g := f (gm_graph s g))\<rparr>"

definition know_edge :: "nat \<Rightarrow> nat \<Rightarrow> manager \<Rightarrow> manager" where
  "know_edge n e = upd_node n (\<lambda>x. x\<lparr>nd_edges := nd_edges x @ [e]\<rparr>)"

text \<open>\<open>splice(index, 1)\<close> where \<open>index\<close> is that of an entry, or -1, which takes the last entry out.\<close>

definition splice_index_of :: "'a \<Rightarrow> 'a list \<Rightarrow> 'a list" where
  "splice_index_of x xs = (if x \<in> set xs then remove1 x xs else butlast xs)"

definition forget_edge :: "nat \<Rightarrow> nat \<Rightarrow> manager \<Rightarrow> manager" where
  "forget_edge n e = upd_node n (\<lambda>x. x\<lparr>nd_edges := splice_index_of e (nd_edges x)\<rparr>)"

definition knows :: "manager \<Rightarrow> nat \<Rightarrow> nat \<Rightarrow> bool" where
  "knows s n e = (e \<in> set (nd_edges (gm_node s n)))"

subsection \<open>Graphs\<close>

definition graph_add_node :: "nat \<Rightarrow> nat \<Rightarrow> manager \<Rightarrow> layout_error + manager" where
  "graph_add_node g n s =
     (if n \<in> set (gr_nodes (gm_graph s g)) then Inl (Thrown ''Node already in graph!'')
      else Inr (upd_graph g (\<lambda>x. x\<lparr>gr_nodes := gr_nodes x @ [n]\<rparr>) (upd_node n (\<lambda>x. x\<lparr>nd_owner := Some g\<rparr>) s)))"

definition graph_add_edge :: "nat \<Rightarrow> nat \<Rightarrow> nat \<Rightarrow> nat \<Rightarrow> manager \<Rightarrow> layout_error + manager" where
  "graph_add_edge g e a b s =
     (if \<not> (a \<in> set (gr_nodes (gm_graph s g)) \<and> b \<in> set (gr_nodes (gm_graph s g)))
      then Inl (Thrown ''Source or target not in graph!'')
      else if \<not> (nd_owner (gm_node s a) = nd_owner (gm_node s b) \<and> nd_owner (gm_node s a) = Some g)
      then Inl (Thrown ''Both owners must be this graph!'')
      else
       (let s = upd_edge e (\<lambda>x. x\<lparr>ed_source := Some a, ed_target := Some b, ed_inter := False\<rparr>) s;
            s = upd_graph g (\<lambda>x. x\<lparr>gr_edges := gr_edges x @ [e]\<rparr>) s;
            s = know_edge a e s
        in Inr (if b \<noteq> a then know_edge b e s else s)))"

definition graph_remove_edge :: "nat \<Rightarrow> nat \<Rightarrow> manager \<Rightarrow> layout_error + manager" where
  "graph_remove_edge g e s =
     (case (ed_source (gm_edge s e), ed_target (gm_edge s e)) of
        (Some a, Some b) \<Rightarrow>
          if \<not> (nd_owner (gm_node s a) = Some g \<and> nd_owner (gm_node s b) = Some g)
          then Inl (Thrown ''Source and/or target owner is invalid!'')
          else if \<not> (knows s a e \<and> knows s b e) then Inl (Thrown ''Source and/or target doesn't know this edge!'')
          else
           (let s = forget_edge a e s; s = (if b \<noteq> a then forget_edge b e s else s)
            in if e \<notin> set (gr_edges (gm_graph s g)) then Inl (Thrown ''Not in owner's edge list!'')
               else Inr (upd_graph g (\<lambda>x. x\<lparr>gr_edges := remove1 e (gr_edges x)\<rparr>) s))
      | _ \<Rightarrow> Inl (Thrown ''Source and/or target is null!''))"

definition manager_remove_edge :: "nat \<Rightarrow> manager \<Rightarrow> layout_error + manager" where
  "manager_remove_edge e s =
     (if \<not> ed_inter (gm_edge s e) then Inl (Thrown ''Not an inter-graph edge!'')
      else
       (case (ed_source (gm_edge s e), ed_target (gm_edge s e)) of
          (Some a, Some b) \<Rightarrow>
            if \<not> (knows s a e \<and> knows s b e) then Inl (Thrown ''Source and/or target doesn't know this edge!'')
            else
             (let s = forget_edge b e (forget_edge a e s)
              in if nd_owner (gm_node s a) = None then Inl (Thrown ''Edge owner graph or owner graph manager is null!'')
                 else if e \<notin> set (gm_inter s) then Inl (Thrown ''Not in owner graph manager's edge list!'')
                 else Inr (s\<lparr>gm_inter := remove1 e (gm_inter s)\<rparr>))
        | _ \<Rightarrow> Inl (Thrown ''Source and/or target is null!'')))"

text \<open>A loop over a list whose body may throw.\<close>

fun each :: "('a \<Rightarrow> 's \<Rightarrow> 'e + 's) \<Rightarrow> 'a list \<Rightarrow> 's \<Rightarrow> 'e + 's" where
  "each f [] s = Inr s"
| "each f (x # xs) s = (case f x s of Inl e \<Rightarrow> Inl e | Inr s' \<Rightarrow> each f xs s')"

text \<open>An edge of a node that goes: the manager's, or that of the graph of its source.\<close>

definition remove_incident :: "nat \<Rightarrow> manager \<Rightarrow> layout_error + manager" where
  "remove_incident e s =
     (if ed_inter (gm_edge s e) then manager_remove_edge e s
      else
       (case Option.bind (ed_source (gm_edge s e)) (\<lambda>a. nd_owner (gm_node s a)) of
          None \<Rightarrow> Inl NullRead
        | Some g \<Rightarrow> graph_remove_edge g e s))"

definition graph_remove_node :: "nat \<Rightarrow> nat \<Rightarrow> manager \<Rightarrow> layout_error + manager" where
  "graph_remove_node g n s =
     (if nd_owner (gm_node s n) \<noteq> Some g then Inl (Thrown ''Owner graph is invalid!'')
      else
       (case each remove_incident (nd_edges (gm_node s n)) s of
          Inl e \<Rightarrow> Inl e
        | Inr s \<Rightarrow>
           if n \<notin> set (gr_nodes (gm_graph s g)) then Inl (Thrown ''Node not in owner node list!'')
           else Inr (upd_graph g (\<lambda>x. x\<lparr>gr_nodes := remove1 n (gr_nodes x)\<rparr>) s)))"

subsection \<open>The manager\<close>

definition manager_add_graph :: "nat \<Rightarrow> nat \<Rightarrow> manager \<Rightarrow> layout_error + manager" where
  "manager_add_graph g p s =
     (if g \<in> set (gm_graphs s) then Inl (Thrown ''Graph already in this graph mgr!'')
      else if gr_parent (gm_graph s g) \<noteq> None then Inl (Thrown ''Already has a parent!'')
      else if nd_child (gm_node s p) \<noteq> None then Inl (Thrown ''Already has a child!'')
      else Inr (upd_node p (\<lambda>x. x\<lparr>nd_child := Some g\<rparr>) (upd_graph g (\<lambda>x. x\<lparr>gr_parent := Some p\<rparr>)
             (s\<lparr>gm_graphs := gm_graphs s @ [g]\<rparr>))))"

definition manager_add_edge :: "nat \<Rightarrow> nat \<Rightarrow> nat \<Rightarrow> manager \<Rightarrow> layout_error + manager" where
  "manager_add_edge e a b s =
     (case (nd_owner (gm_node s a), nd_owner (gm_node s b)) of
        (None, _) \<Rightarrow> Inl (Thrown ''Source not in this graph mgr!'')
      | (_, None) \<Rightarrow> Inl (Thrown ''Target not in this graph mgr!'')
      | (Some g, Some h) \<Rightarrow>
          if g = h then graph_add_edge g e a b s
          else
           (let s = upd_edge e (\<lambda>x. x\<lparr>ed_inter := True, ed_source := Some a, ed_target := Some b\<rparr>) s
            in if e \<in> set (gm_inter s) then Inl (Thrown ''Edge already in inter-graph edge list!'')
               else if knows s a e \<or> knows s b e
               then Inl (Thrown ''Edge already in source and/or target incidency list!'')
               else Inr (know_edge b e (know_edge a e (s\<lparr>gm_inter := gm_inter s @ [e]\<rparr>)))))"

text \<open>\<open>setRootGraph\<close>; the graph may be \<open>null\<close>.\<close>

definition set_root_graph :: "nat option \<Rightarrow> manager \<Rightarrow> layout_error + manager" where
  "set_root_graph graph s =
     (case graph of
        None \<Rightarrow> Inl NullRead
      | Some g \<Rightarrow>
         (let s = s\<lparr>gm_root := Some g\<rparr>
          in if gr_parent (gm_graph s g) = None then
               (let (s, n) = new_object s in Inr (upd_graph g (\<lambda>x. x\<lparr>gr_parent := Some n\<rparr>) s))
             else Inr s))"

definition add_root :: "manager \<Rightarrow> layout_error + manager \<times> nat" where
  "add_root s =
     (let (s, g) = new_object s; (s, n) = new_object s
      in case manager_add_graph g n s of
           Inl e \<Rightarrow> Inl e
         | Inr s \<Rightarrow> map_sum id (\<lambda>s. (s, g)) (set_root_graph (Some g) s))"

definition manager_remove_graph :: "nat \<Rightarrow> manager \<Rightarrow> layout_error + manager" where
  "manager_remove_graph g s =
     (if \<not> (gm_root s = Some g \<or> gr_parent (gm_graph s g) \<noteq> None) then Inl (Thrown ''Invalid parent node!'')
      else
       (case each (graph_remove_edge g) (gr_edges (gm_graph s g)) s of
          Inl e \<Rightarrow> Inl e
        | Inr s \<Rightarrow>
           (case each (graph_remove_node g) (gr_nodes (gm_graph s g)) s of
              Inl e \<Rightarrow> Inl e
            | Inr s \<Rightarrow>
               (case (if gm_root s = Some g then set_root_graph None s else Inr s) of
                  Inl e \<Rightarrow> Inl e
                | Inr s \<Rightarrow>
                    Inr (upd_graph g (\<lambda>x. x\<lparr>gr_parent := None\<rparr>)
                      (s\<lparr>gm_graphs := splice_index_of g (gm_graphs s)\<rparr>))))))"

text \<open>The lists of all nodes and edges are kept until they are reset.\<close>

definition get_all_nodes :: "manager \<Rightarrow> manager \<times> nat list" where
  "get_all_nodes s =
     (case gm_all_nodes s of
        Some ns \<Rightarrow> (s, ns)
      | None \<Rightarrow> (let ns = concat (map (\<lambda>g. gr_nodes (gm_graph s g)) (gm_graphs s)) in (s\<lparr>gm_all_nodes := Some ns\<rparr>, ns)))"

definition get_all_edges :: "manager \<Rightarrow> manager \<times> nat list" where
  "get_all_edges s =
     (case gm_all_edges s of
        Some es \<Rightarrow> (s, es)
      | None \<Rightarrow>
         (let es = concat (map (\<lambda>g. gr_edges (gm_graph s g)) (gm_graphs s)) @ gm_inter s
          in (s\<lparr>gm_all_edges := Some es\<rparr>, es)))"

definition reset_all_nodes :: "manager \<Rightarrow> manager" where
  "reset_all_nodes s = s\<lparr>gm_all_nodes := None\<rparr>"

definition reset_all_edges :: "manager \<Rightarrow> manager" where
  "reset_all_edges s = s\<lparr>gm_all_edges := None\<rparr>"

definition reset_gravitated :: "manager \<Rightarrow> manager" where
  "reset_gravitated s = s\<lparr>gm_gravitated := None\<rparr>"

definition set_gravitated :: "nat list \<Rightarrow> manager \<Rightarrow> layout_error + manager" where
  "set_gravitated ns s =
     (if gm_gravitated s \<noteq> None then Inl (Thrown ''assert failed'') else Inr (s\<lparr>gm_gravitated := Some ns\<rparr>))"

subsection \<open>Consistency\<close>

definition nodes_in :: "manager \<Rightarrow> nat \<Rightarrow> nat list" where
  "nodes_in s g = gr_nodes (gm_graph s g)"

definition edges_in :: "manager \<Rightarrow> nat \<Rightarrow> nat list" where
  "edges_in s g = gr_edges (gm_graph s g)"

definition live :: "manager \<Rightarrow> nat \<Rightarrow> bool" where
  "live s e \<longleftrightarrow> e \<in> set (gm_inter s) \<or> (\<exists>g. e \<in> set (edges_in s g))"

definition touches :: "manager \<Rightarrow> nat \<Rightarrow> nat \<Rightarrow> bool" where
  "touches s e n \<longleftrightarrow> ed_source (gm_edge s e) = Some n \<or> ed_target (gm_edge s e) = Some n"

text \<open>An edge of graph \<open>g\<close> stays in it; one of the manager joins two graphs.\<close>

definition inner_edge :: "manager \<Rightarrow> nat \<Rightarrow> nat \<Rightarrow> bool" where
  "inner_edge s g e \<longleftrightarrow> \<not> ed_inter (gm_edge s e) \<and>
     (\<exists>a b. ed_source (gm_edge s e) = Some a \<and> ed_target (gm_edge s e) = Some b \<and>
       a \<in> set (nodes_in s g) \<and> b \<in> set (nodes_in s g))"

definition outer_edge :: "manager \<Rightarrow> nat \<Rightarrow> bool" where
  "outer_edge s e \<longleftrightarrow> ed_inter (gm_edge s e) \<and>
     (\<exists>a b g h. ed_source (gm_edge s e) = Some a \<and> ed_target (gm_edge s e) = Some b \<and> g \<noteq> h \<and>
       a \<in> set (nodes_in s g) \<and> b \<in> set (nodes_in s h))"

definition consistent :: "manager \<Rightarrow> bool" where
  "consistent s \<longleftrightarrow>
     distinct (gm_graphs s) \<and> distinct (gm_inter s) \<and>
     (\<forall>g. distinct (nodes_in s g) \<and> distinct (edges_in s g) \<and>
       (\<forall>n \<in> set (nodes_in s g). nd_owner (gm_node s n) = Some g) \<and>
       (\<forall>e \<in> set (edges_in s g). inner_edge s g e) \<and>
       (g \<notin> set (gm_graphs s) \<longrightarrow> nodes_in s g = [] \<and> edges_in s g = [])) \<and>
     (\<forall>e \<in> set (gm_inter s). outer_edge s e) \<and>
     (\<forall>n. distinct (nd_edges (gm_node s n)) \<and> (\<forall>e. knows s n e \<longleftrightarrow> live s e \<and> touches s e n))"

named_theorems store_simps

lemmas [store_simps] = upd_node_def upd_edge_def upd_graph_def nodes_in_def edges_in_def knows_def know_edge_def
  forget_edge_def Let_def

lemma splice_in: "x \<in> set xs \<Longrightarrow> splice_index_of x xs = remove1 x xs"
  by (simp add: splice_index_of_def)

lemma consistentD:
  assumes "consistent s"
  shows "distinct (gm_graphs s)" "distinct (gm_inter s)" "distinct (nodes_in s g)" "distinct (edges_in s g)"
    "n \<in> set (nodes_in s g) \<Longrightarrow> nd_owner (gm_node s n) = Some g" "e \<in> set (edges_in s g) \<Longrightarrow> inner_edge s g e"
    "g \<notin> set (gm_graphs s) \<Longrightarrow> nodes_in s g = []" "g \<notin> set (gm_graphs s) \<Longrightarrow> edges_in s g = []"
    "e \<in> set (gm_inter s) \<Longrightarrow> outer_edge s e" "distinct (nd_edges (gm_node s n))"
    "knows s n e \<longleftrightarrow> live s e \<and> touches s e n"
  using assms by (auto simp: consistent_def)

lemma in_graphs: "consistent s \<Longrightarrow> n \<in> set (nodes_in s g) \<Longrightarrow> g \<in> set (gm_graphs s)"
  using consistentD(7)[of s g] by fastforce

subsection \<open>Adding\<close>

lemma new_manager_consistent: "consistent new_manager"
  by (simp add: consistent_def new_manager_def nodes_in_def edges_in_def live_def knows_def)

lemma add_node_consistent:
  assumes "consistent s" "g \<in> set (gm_graphs s)" "\<And>h. n \<notin> set (nodes_in s h)"
  shows "\<exists>s'. graph_add_node g n s = Inr s' \<and> consistent s'"
proof -
  let ?s = "upd_graph g (\<lambda>x. x\<lparr>gr_nodes := gr_nodes x @ [n]\<rparr>) (upd_node n (\<lambda>x. x\<lparr>nd_owner := Some g\<rparr>) s)"
  have "graph_add_node g n s = Inr ?s" using assms(3)[of g] by (simp add: graph_add_node_def nodes_in_def)
  moreover have N: "nodes_in ?s = (nodes_in s)(g := nodes_in s g @ [n])" "edges_in ?s = edges_in s" "gm_edge ?s = gm_edge s"
    "gm_inter ?s = gm_inter s" "gm_graphs ?s = gm_graphs s" "nd_edges (gm_node ?s m) = nd_edges (gm_node s m)"
    "nd_owner (gm_node ?s m) = (if m = n then Some g else nd_owner (gm_node s m))" for m
    by (auto simp: store_simps)
  have L: "live ?s = live s" "touches ?s = touches s" "knows ?s = knows s"
    by (auto simp: live_def touches_def knows_def N fun_eq_iff)
  have "inner_edge s h e \<Longrightarrow> inner_edge ?s h e" "outer_edge s e \<Longrightarrow> outer_edge ?s e" for h e
    by (auto simp: inner_edge_def outer_edge_def N) metis+
  then have "consistent ?s"
    using assms consistentD[OF assms(1)] unfolding consistent_def L N by auto
  ultimately show ?thesis by blast
qed

text \<open>How a state looks once an edge between two nodes has come.\<close>

definition edge_added :: "nat \<Rightarrow> nat \<Rightarrow> nat \<Rightarrow> manager \<Rightarrow> manager \<Rightarrow> bool" where
  "edge_added e a b s s' \<longleftrightarrow>
     gm_graphs s' = gm_graphs s \<and> nodes_in s' = nodes_in s \<and>
     (\<forall>n. nd_owner (gm_node s' n) = nd_owner (gm_node s n)) \<and>
     (\<forall>n. nd_edges (gm_node s' n) = nd_edges (gm_node s n) @ (if n = a \<or> n = b then [e] else [])) \<and>
     (\<forall>f. f \<noteq> e \<longrightarrow> gm_edge s' f = gm_edge s f) \<and>
     ed_source (gm_edge s' e) = Some a \<and> ed_target (gm_edge s' e) = Some b"

lemma edge_added_keeps:
  assumes "edge_added e a b s s'" "f \<noteq> e"
  shows "inner_edge s' g f = inner_edge s g f" "outer_edge s' f = outer_edge s f" "touches s' f n = touches s f n"
  using assms by (auto simp: edge_added_def inner_edge_def outer_edge_def touches_def)

lemma edge_added_knows:
  assumes "edge_added e a b s s'" "consistent s" "\<not> live s e" "\<And>f. live s' f \<longleftrightarrow> live s f \<or> f = e"
  shows "distinct (nd_edges (gm_node s' n))" "knows s' n f \<longleftrightarrow> live s' f \<and> touches s' f n"
proof -
  have t: "touches s' e n \<longleftrightarrow> n = a \<or> n = b" using assms(1) by (auto simp: edge_added_def touches_def)
  have k: "knows s' n f \<longleftrightarrow> knows s n f \<or> f = e \<and> (n = a \<or> n = b)"
    using assms(1) by (auto simp: edge_added_def knows_def)
  have "\<not> knows s n e" using assms(2,3) consistentD(11) by blast
  then show "distinct (nd_edges (gm_node s' n))"
    using assms(1) consistentD(10)[OF assms(2), of n] by (auto simp: edge_added_def knows_def)
  show "knows s' n f \<longleftrightarrow> live s' f \<and> touches s' f n"
    using assms(3,4) consistentD(11)[OF assms(2), of n f] edge_added_keeps(3)[OF assms(1), of f n] t k by (cases "f = e") auto
qed

lemma edge_added_consistent:
  assumes "edge_added e a b s s'" "consistent s" "\<not> live s e"
    and "edges_in s' = (edges_in s)(g := edges_in s g @ [e]) \<and> gm_inter s' = gm_inter s \<and> g \<in> set (gm_graphs s) \<and>
        inner_edge s' g e \<or>
      edges_in s' = edges_in s \<and> gm_inter s' = gm_inter s @ [e] \<and> outer_edge s' e"
  shows "consistent s'"
proof -
  have live: "live s' f \<longleftrightarrow> live s f \<or> f = e" for f
    using assms(4) by (auto simp: live_def split: if_splits)
  have new: "e \<notin> set (gm_inter s)" "\<And>h. e \<notin> set (edges_in s h)" using assms(3) by (auto simp: live_def)
  have N: "gm_graphs s' = gm_graphs s" "nodes_in s' = nodes_in s" "\<And>n. nd_owner (gm_node s' n) = nd_owner (gm_node s n)"
    using assms(1) by (auto simp: edge_added_def)
  have inner: "inner_edge s' h f" if "f \<in> set (edges_in s h)" for h f
    using edge_added_keeps(1)[OF assms(1), of f h] consistentD(6)[OF assms(2) that] new that by metis
  have outer: "outer_edge s' f" if "f \<in> set (gm_inter s)" for f
    using edge_added_keeps(2)[OF assms(1), of f] consistentD(9)[OF assms(2) that] new that by metis
  note kn = edge_added_knows[OF assms(1-3) live]
  show ?thesis
    using assms(4)
  proof (elim disjE conjE)
    assume E: "edges_in s' = (edges_in s)(g := edges_in s g @ [e])" "gm_inter s' = gm_inter s" "g \<in> set (gm_graphs s)"
      "inner_edge s' g e"
    show ?thesis unfolding consistent_def N E
      using consistentD(1-5,7,8)[OF assms(2)] kn new inner outer E(3,4) by auto
  next
    assume E: "edges_in s' = edges_in s" "gm_inter s' = gm_inter s @ [e]" "outer_edge s' e"
    show ?thesis unfolding consistent_def N E
      using consistentD(1-5,7,8)[OF assms(2)] kn new inner outer E(3) by auto
  qed
qed

lemma add_inner_consistent:
  assumes "consistent s" "\<not> live s e" "graph_add_edge g e a b s = Inr s'"
  shows "consistent s'"
proof (rule edge_added_consistent)
  have ab: "a \<in> set (nodes_in s g)" "b \<in> set (nodes_in s g)"
    using assms(3) by (auto simp: graph_add_edge_def nodes_in_def split: if_splits)
  define s1 where "s1 = know_edge a e (upd_graph g (\<lambda>x. x\<lparr>gr_edges := gr_edges x @ [e]\<rparr>)
    (upd_edge e (\<lambda>x. x\<lparr>ed_source := Some a, ed_target := Some b, ed_inter := False\<rparr>) s))"
  have s': "s' = (if b \<noteq> a then know_edge b e s1 else s1)"
    using assms(3) unfolding graph_add_edge_def Let_def s1_def by (simp split: if_splits)
  show "edge_added e a b s s'"
    unfolding s' by (cases "b = a") (auto simp: s1_def edge_added_def store_simps fun_eq_iff)
  have "edges_in s' = (edges_in s)(g := edges_in s g @ [e])" "gm_inter s' = gm_inter s" "nodes_in s' = nodes_in s"
    "gm_edge s' e = \<lparr>ed_source = Some a, ed_target = Some b, ed_inter = False\<rparr>"
    unfolding s' by (auto simp: s1_def store_simps fun_eq_iff)
  moreover from this have "inner_edge s' g e" using ab by (auto simp: inner_edge_def)
  ultimately show "edges_in s' = (edges_in s)(g := edges_in s g @ [e]) \<and> gm_inter s' = gm_inter s \<and> g \<in> set (gm_graphs s) \<and>
        inner_edge s' g e \<or>
      edges_in s' = edges_in s \<and> gm_inter s' = gm_inter s @ [e] \<and> outer_edge s' e"
    using in_graphs[OF assms(1) ab(1)] by blast
qed (use assms in auto)

text \<open>\<open>placed\<close>: a node is in a graph, which its owner names.\<close>

definition placed :: "manager \<Rightarrow> nat \<Rightarrow> bool" where
  "placed s n \<longleftrightarrow> (\<exists>g. n \<in> set (nodes_in s g))"

lemma placed_owner: "consistent s \<Longrightarrow> placed s n \<Longrightarrow> nd_owner (gm_node s n) = Some g \<Longrightarrow> n \<in> set (nodes_in s g)"
  using consistentD(5) by (fastforce simp: placed_def)

lemma add_edge_consistent:
  assumes "consistent s" "\<not> live s e" "placed s a" "placed s b" "manager_add_edge e a b s = Inr s'"
  shows "consistent s'"
proof -
  obtain g h where gh: "nd_owner (gm_node s a) = Some g" "nd_owner (gm_node s b) = Some h"
    using assms(5) by (auto simp: manager_add_edge_def split: option.splits)
  show ?thesis
  proof (cases "g = h")
    case True
    with gh assms(5) have "graph_add_edge g e a b s = Inr s'" by (simp add: manager_add_edge_def)
    then show ?thesis using add_inner_consistent assms(1,2) by blast
  next
    case False
    have ab: "a \<in> set (nodes_in s g)" "b \<in> set (nodes_in s h)"
      using placed_owner assms(1,3,4) gh by blast+
    show ?thesis
    proof (rule edge_added_consistent)
      have "a \<noteq> b" using False gh by auto
      then show "edge_added e a b s s'"
        using assms(5) gh False
        by (auto simp: manager_add_edge_def edge_added_def store_simps fun_eq_iff split: if_splits)
      have "edges_in s' = edges_in s" "gm_inter s' = gm_inter s @ [e]" "nodes_in s' = nodes_in s"
        "gm_edge s' e = \<lparr>ed_source = Some a, ed_target = Some b, ed_inter = True\<rparr>"
        using assms(5) gh False
        by (auto simp: manager_add_edge_def store_simps fun_eq_iff split: if_splits)
      moreover from this have "outer_edge s' e" using ab False by (auto simp: outer_edge_def)
      ultimately show "edges_in s' = (edges_in s)(g := edges_in s g @ [e]) \<and> gm_inter s' = gm_inter s \<and> g \<in> set (gm_graphs s) \<and>
          inner_edge s' g e \<or>
        edges_in s' = edges_in s \<and> gm_inter s' = gm_inter s @ [e] \<and> outer_edge s' e"
        by blast
    qed (use assms in auto)
  qed
qed

subsection \<open>Removing\<close>

text \<open>How a state looks once edges have gone.\<close>

definition same_nodes :: "manager \<Rightarrow> manager \<Rightarrow> bool" where
  "same_nodes s s' \<longleftrightarrow>
     gm_graphs s' = gm_graphs s \<and> nodes_in s' = nodes_in s \<and> gm_edge s' = gm_edge s \<and> gm_root s' = gm_root s \<and>
     (\<forall>g. gr_parent (gm_graph s' g) = gr_parent (gm_graph s g)) \<and>
     (\<forall>n. nd_owner (gm_node s' n) = nd_owner (gm_node s n) \<and> nd_child (gm_node s' n) = nd_child (gm_node s n))"

definition edge_removed :: "nat \<Rightarrow> manager \<Rightarrow> manager \<Rightarrow> bool" where
  "edge_removed e s s' \<longleftrightarrow> same_nodes s s' \<and>
     (\<forall>n. nd_edges (gm_node s' n) = remove1 e (nd_edges (gm_node s n))) \<and>
     (\<forall>g. edges_in s' g = remove1 e (edges_in s g)) \<and> gm_inter s' = remove1 e (gm_inter s)"

lemma same_nodes_refl [simp]: "same_nodes s s"
  by (simp add: same_nodes_def)

lemma same_nodes_trans: "same_nodes s s' \<Longrightarrow> same_nodes s' s'' \<Longrightarrow> same_nodes s s''"
  by (simp add: same_nodes_def)

lemma edge_removed_live:
  assumes "consistent s" "edge_removed e s s'"
  shows "live s' f \<longleftrightarrow> live s f \<and> f \<noteq> e"
  using assms consistentD(2,4)[OF assms(1)] by (auto simp: live_def edge_removed_def)

lemma edge_removed_consistent:
  assumes "consistent s" "edge_removed e s s'"
  shows "consistent s'"
proof -
  have N: "gm_graphs s' = gm_graphs s" "nodes_in s' = nodes_in s" "gm_edge s' = gm_edge s" "gm_inter s' = remove1 e (gm_inter s)"
    "edges_in s' g = remove1 e (edges_in s g)" "nd_owner (gm_node s' n) = nd_owner (gm_node s n)"
    "nd_edges (gm_node s' n) = remove1 e (nd_edges (gm_node s n))" for g n
    using assms(2) by (auto simp: edge_removed_def same_nodes_def)
  have K: "knows s' n f \<longleftrightarrow> knows s n f \<and> f \<noteq> e" for n f
    using consistentD(10)[OF assms(1), of n] by (auto simp: knows_def N)
  have L: "inner_edge s' = inner_edge s" "outer_edge s' = outer_edge s" "touches s' = touches s"
    by (auto simp: inner_edge_def outer_edge_def touches_def N fun_eq_iff)
  show ?thesis
    using consistentD[OF assms(1)] unfolding consistent_def L K N edge_removed_live[OF assms]
    by (auto simp: N dest: notin_set_remove1)
qed

lemma live_unique:
  assumes "consistent s" "e \<in> set (edges_in s g)"
  shows "e \<notin> set (gm_inter s)" "h \<noteq> g \<Longrightarrow> e \<notin> set (edges_in s h)"
proof -
  from consistentD(6)[OF assms] obtain a where a: "ed_source (gm_edge s e) = Some a" "a \<in> set (nodes_in s g)"
    "\<not> ed_inter (gm_edge s e)" by (auto simp: inner_edge_def)
  then show "e \<notin> set (gm_inter s)" using consistentD(9)[OF assms(1)] by (auto simp: outer_edge_def)
  show "e \<notin> set (edges_in s h)" if "h \<noteq> g"
  proof
    assume "e \<in> set (edges_in s h)"
    with consistentD(6)[OF assms(1)] a(1) have "a \<in> set (nodes_in s h)" by (fastforce simp: inner_edge_def)
    with consistentD(5)[OF assms(1), of a h] consistentD(5)[OF assms(1), of a g] a(2) that show False by simp
  qed
qed

lemma graph_remove_edge_removes:
  assumes "consistent s" "e \<in> set (edges_in s g)"
  shows "\<exists>s'. graph_remove_edge g e s = Inr s' \<and> edge_removed e s s'"
proof -
  from consistentD(6)[OF assms] obtain a b where ab: "ed_source (gm_edge s e) = Some a" "ed_target (gm_edge s e) = Some b"
    "a \<in> set (nodes_in s g)" "b \<in> set (nodes_in s g)" by (auto simp: inner_edge_def)
  have own: "nd_owner (gm_node s a) = Some g" "nd_owner (gm_node s b) = Some g"
    using ab consistentD(5)[OF assms(1)] by auto
  have kn: "knows s n e \<longleftrightarrow> n = a \<or> n = b" for n
    using consistentD(11)[OF assms(1), of n e] assms(2) ab by (auto simp: live_def touches_def)
  let ?s1 = "if b \<noteq> a then forget_edge b e (forget_edge a e s) else forget_edge a e s"
  let ?s = "upd_graph g (\<lambda>x. x\<lparr>gr_edges := remove1 e (gr_edges x)\<rparr>) ?s1"
  have "graph_remove_edge g e s = Inr ?s"
    using ab(1,2) own kn assms(2)
    by (auto simp: graph_remove_edge_def edges_in_def forget_edge_def upd_node_def Let_def)
  moreover have "edges_in ?s h = remove1 e (edges_in s h)" for h
    using live_unique(2)[OF assms, of h] by (auto simp: store_simps remove1_idem)
  moreover have "nd_edges (gm_node ?s n) = remove1 e (nd_edges (gm_node s n))" for n
    using kn[of n] kn[of a] kn[of b] by (auto simp: store_simps splice_in remove1_idem)
  moreover have "gm_inter ?s = remove1 e (gm_inter s)"
    using live_unique(1)[OF assms] by (auto simp: store_simps remove1_idem)
  moreover have "same_nodes s ?s" by (auto simp: same_nodes_def store_simps fun_eq_iff)
  ultimately show ?thesis unfolding edge_removed_def by blast
qed

lemma manager_remove_edge_removes:
  assumes "consistent s" "e \<in> set (gm_inter s)"
  shows "\<exists>s'. manager_remove_edge e s = Inr s' \<and> edge_removed e s s'"
proof -
  from consistentD(9)[OF assms] obtain a b g h where ab: "ed_inter (gm_edge s e)" "ed_source (gm_edge s e) = Some a"
    "ed_target (gm_edge s e) = Some b" "g \<noteq> h" "a \<in> set (nodes_in s g)" "b \<in> set (nodes_in s h)"
    by (auto simp: outer_edge_def)
  have own: "nd_owner (gm_node s a) = Some g" "nd_owner (gm_node s b) = Some h"
    using ab consistentD(5)[OF assms(1)] by auto
  then have ne: "a \<noteq> b" using ab(4) by auto
  have kn: "knows s n e \<longleftrightarrow> n = a \<or> n = b" for n
    using consistentD(11)[OF assms(1), of n e] assms(2) ab by (auto simp: live_def touches_def)
  have free: "e \<notin> set (edges_in s k)" for k using live_unique(1)[OF assms(1), of e k] assms(2) by blast
  let ?s1 = "forget_edge b e (forget_edge a e s)"
  let ?s = "?s1\<lparr>gm_inter := remove1 e (gm_inter s)\<rparr>"
  have "manager_remove_edge e s = Inr ?s"
    using ab own kn assms(2) by (auto simp: manager_remove_edge_def forget_edge_def upd_node_def Let_def)
  moreover have "edges_in ?s k = remove1 e (edges_in s k)" for k
    using free by (auto simp: store_simps remove1_idem)
  moreover have "nd_edges (gm_node ?s n) = remove1 e (nd_edges (gm_node s n))" for n
    using kn[of n] kn[of a] kn[of b] ne by (auto simp: store_simps splice_in remove1_idem)
  moreover have "same_nodes s ?s" by (auto simp: same_nodes_def store_simps fun_eq_iff)
  ultimately show ?thesis unfolding edge_removed_def by (intro exI[of _ ?s]) simp
qed

lemma remove_incident_removes:
  assumes "consistent s" "live s e"
  shows "\<exists>s'. remove_incident e s = Inr s' \<and> edge_removed e s s'"
proof (cases "e \<in> set (gm_inter s)")
  case True
  with consistentD(9)[OF assms(1)] have "ed_inter (gm_edge s e)" by (auto simp: outer_edge_def)
  with manager_remove_edge_removes[OF assms(1) True] show ?thesis by (simp add: remove_incident_def)
next
  case False
  with assms(2) obtain g where g: "e \<in> set (edges_in s g)" by (auto simp: live_def)
  from consistentD(6)[OF assms(1) g] consistentD(5)[OF assms(1)] graph_remove_edge_removes[OF assms(1) g]
  show ?thesis by (auto simp: remove_incident_def inner_edge_def)
qed

text \<open>A loop that removes edges, each of which is there.\<close>

lemma each_removes:
  assumes "\<And>s e. consistent s \<Longrightarrow> P s e \<Longrightarrow> \<exists>s'. f e s = Inr s' \<and> edge_removed e s s'"
    and "\<And>s s' e d. P s e \<Longrightarrow> edge_removed d s s' \<Longrightarrow> d \<noteq> e \<Longrightarrow> P s' e"
    and "consistent s" "distinct es" "\<forall>e \<in> set es. P s e"
  shows "\<exists>s'. each f es s = Inr s' \<and> consistent s' \<and> same_nodes s s' \<and> (\<forall>d. live s' d \<longleftrightarrow> live s d \<and> d \<notin> set es)"
  using assms(3-5)
proof (induction es arbitrary: s)
  case (Cons e es)
  then obtain s1 where s1: "f e s = Inr s1" "edge_removed e s s1" using assms(1)[of s e] by auto
  have "consistent s1" using edge_removed_consistent[OF Cons.prems(1) s1(2)] .
  moreover have "\<forall>d \<in> set es. P s1 d" using Cons.prems s1(2) assms(2) by fastforce
  ultimately obtain s' where s': "each f es s1 = Inr s'" "consistent s'" "same_nodes s1 s'"
    "\<forall>d. live s' d \<longleftrightarrow> live s1 d \<and> d \<notin> set es" using Cons.IH[of s1] Cons.prems(2) by auto
  have "same_nodes s s'" using s1(2) s'(3) same_nodes_trans by (auto simp: edge_removed_def)
  then show ?case using s1 s' edge_removed_live[OF Cons.prems(1) s1(2)] by auto
qed simp

text \<open>A node that goes takes its edges with it.\<close>

definition node_removed :: "nat \<Rightarrow> nat \<Rightarrow> manager \<Rightarrow> manager \<Rightarrow> bool" where
  "node_removed g n s s' \<longleftrightarrow>
     gm_graphs s' = gm_graphs s \<and> gm_root s' = gm_root s \<and> gm_edge s' = gm_edge s \<and>
     (\<forall>h. gr_parent (gm_graph s' h) = gr_parent (gm_graph s h)) \<and>
     (\<forall>m. nd_child (gm_node s' m) = nd_child (gm_node s m)) \<and>
     nodes_in s' = (nodes_in s)(g := remove1 n (nodes_in s g)) \<and>
     (\<forall>e. live s' e \<longleftrightarrow> live s e \<and> \<not> touches s e n)"

lemma remove_node_removes:
  assumes "consistent s" "n \<in> set (nodes_in s g)"
  shows "\<exists>s'. graph_remove_node g n s = Inr s' \<and> consistent s' \<and> node_removed g n s s'"
proof -
  have kn: "e \<in> set (nd_edges (gm_node s n)) \<longleftrightarrow> live s e \<and> touches s e n" for e
    using consistentD(11)[OF assms(1)] by (auto simp: knows_def)
  have "\<exists>s1. each remove_incident (nd_edges (gm_node s n)) s = Inr s1 \<and> consistent s1 \<and> same_nodes s s1 \<and>
      (\<forall>d. live s1 d \<longleftrightarrow> live s d \<and> d \<notin> set (nd_edges (gm_node s n)))"
  proof (rule each_removes[where P = live])
    show "live s' e" if "live s e" "edge_removed d s s'" "d \<noteq> e" for s s' e d
      using that by (auto simp: live_def edge_removed_def in_set_remove1)
  qed (use assms consistentD(10)[OF assms(1)] kn remove_incident_removes in auto)
  then obtain s1 where s1: "each remove_incident (nd_edges (gm_node s n)) s = Inr s1" "consistent s1" "same_nodes s s1"
    "\<forall>d. live s1 d \<longleftrightarrow> live s d \<and> \<not> touches s d n" using kn by auto
  let ?s = "upd_graph g (\<lambda>x. x\<lparr>gr_nodes := remove1 n (gr_nodes x)\<rparr>) s1"
  have same: "nodes_in s1 = nodes_in s" "gm_edge s1 = gm_edge s" using s1(3) by (auto simp: same_nodes_def)
  have N: "nodes_in ?s = (nodes_in s)(g := remove1 n (nodes_in s g))" "edges_in ?s = edges_in s1" "gm_edge ?s = gm_edge s1"
    "gm_inter ?s = gm_inter s1" "gm_graphs ?s = gm_graphs s1" "gm_node ?s = gm_node s1" "gm_root ?s = gm_root s1"
    "gr_parent (gm_graph ?s h) = gr_parent (gm_graph s1 h)" for h
    using same by (auto simp: store_simps fun_eq_iff)
  have L: "live ?s = live s1" "touches ?s = touches s1" "knows ?s = knows s1"
    by (auto simp: live_def touches_def knows_def N fun_eq_iff)
  have "nd_owner (gm_node s n) = Some g" using consistentD(5)[OF assms] .
  moreover have "n \<in> set (gr_nodes (gm_graph s1 g))"
    using assms(2) unfolding same(1)[symmetric] by (simp add: nodes_in_def)
  ultimately have "graph_remove_node g n s = Inr ?s" using s1(1) by (simp add: graph_remove_node_def)
  moreover have "consistent ?s"
  proof -
    have keep: "m \<in> set (nodes_in ?s h) \<longleftrightarrow> m \<in> set (nodes_in s1 h) \<and> m \<noteq> n" for m h
    proof -
      have "n \<notin> set (nodes_in s h)" if "h \<noteq> g"
        using that consistentD(5)[OF assms(1), of n h] consistentD(5)[OF assms] by auto
      then show ?thesis using consistentD(3)[OF assms(1)] by (auto simp: N same)
    qed
    have free: "\<not> touches s1 e n" if "live s1 e" for e using that s1(4) same by (auto simp: touches_def)
    have "inner_edge ?s h e" if "e \<in> set (edges_in s1 h)" for h e
      using consistentD(6)[OF s1(2) that] free[of e] that
      by (auto simp: inner_edge_def keep N(3) live_def touches_def)
    moreover have "outer_edge ?s e" if "e \<in> set (gm_inter s1)" for e
      using consistentD(9)[OF s1(2) that] free[of e] that
      by (auto simp: outer_edge_def keep N(3) live_def touches_def)
    moreover have "distinct (nodes_in ?s h)" for h using consistentD(3)[OF assms(1)] by (simp add: N)
    moreover have "h \<notin> set (gm_graphs s1) \<Longrightarrow> nodes_in ?s h = []" for h
      using consistentD(7)[OF s1(2)] same by (auto simp: N)
    ultimately show ?thesis
      using consistentD[OF s1(2)] keep unfolding consistent_def L N(2-6) by auto
  qed
  moreover have "node_removed g n s ?s"
    using s1(3,4) same by (auto simp: node_removed_def L N same_nodes_def)
  ultimately show ?thesis by blast
qed

text \<open>A loop that removes nodes of a graph.\<close>

lemma each_node_removes:
  assumes "consistent s" "distinct ns" "set ns \<subseteq> set (nodes_in s g)"
  shows "\<exists>s'. each (graph_remove_node g) ns s = Inr s' \<and> consistent s' \<and>
    gm_graphs s' = gm_graphs s \<and> gm_root s' = gm_root s \<and>
    (\<forall>h. h \<noteq> g \<longrightarrow> nodes_in s' h = nodes_in s h) \<and> set (nodes_in s' g) = set (nodes_in s g) - set ns \<and>
    (\<forall>e. live s' e \<longrightarrow> live s e)"
  using assms
proof (induction ns arbitrary: s)
  case (Cons n ns)
  then obtain s1 where s1: "graph_remove_node g n s = Inr s1" "consistent s1" "node_removed g n s s1"
    using remove_node_removes[of s n g] by auto
  have "set (nodes_in s1 g) = set (nodes_in s g) - {n}"
    using s1(3) consistentD(3)[OF Cons.prems(1), of g] by (auto simp: node_removed_def)
  moreover from this have "set ns \<subseteq> set (nodes_in s1 g)" using Cons.prems by auto
  ultimately obtain s' where "each (graph_remove_node g) ns s1 = Inr s'" "consistent s'" "gm_graphs s' = gm_graphs s1"
    "gm_root s' = gm_root s1" "\<forall>h. h \<noteq> g \<longrightarrow> nodes_in s' h = nodes_in s1 h"
    "set (nodes_in s' g) = set (nodes_in s g) - {n} - set ns" "\<forall>e. live s' e \<longrightarrow> live s1 e"
    using Cons.IH[OF s1(2)] Cons.prems(2) by auto
  then show ?case using s1 by (auto simp: node_removed_def)
qed simp

lemma graph_emptied:
  assumes "consistent s"
  obtains s1 s2 where "each (graph_remove_edge g) (gr_edges (gm_graph s g)) s = Inr s1"
    "each (graph_remove_node g) (gr_nodes (gm_graph s1 g)) s1 = Inr s2" "consistent s2" "gm_graphs s2 = gm_graphs s"
    "gm_root s2 = gm_root s" "nodes_in s2 = (nodes_in s)(g := [])" "edges_in s2 g = []"
proof -
  have "\<exists>s1. each (graph_remove_edge g) (edges_in s g) s = Inr s1 \<and> consistent s1 \<and> same_nodes s s1 \<and>
      (\<forall>d. live s1 d \<longleftrightarrow> live s d \<and> d \<notin> set (edges_in s g))"
  proof (rule each_removes[where P = "\<lambda>s e. e \<in> set (edges_in s g)"])
    show "e \<in> set (edges_in s' g)" if "e \<in> set (edges_in s g)" "edge_removed d s s'" "d \<noteq> e" for s s' e d
      using that by (auto simp: edge_removed_def in_set_remove1)
  qed (use assms consistentD(4)[OF assms] graph_remove_edge_removes in auto)
  then obtain s1 where s1: "each (graph_remove_edge g) (edges_in s g) s = Inr s1" "consistent s1" "same_nodes s s1"
    "\<forall>d. live s1 d \<longleftrightarrow> live s d \<and> d \<notin> set (edges_in s g)" by blast
  have same: "nodes_in s1 = nodes_in s" "gm_graphs s1 = gm_graphs s" "gm_root s1 = gm_root s"
    using s1(3) by (auto simp: same_nodes_def)
  obtain s2 where s2: "each (graph_remove_node g) (nodes_in s g) s1 = Inr s2" "consistent s2"
    "gm_graphs s2 = gm_graphs s" "gm_root s2 = gm_root s" "\<forall>h. h \<noteq> g \<longrightarrow> nodes_in s2 h = nodes_in s h"
    "nodes_in s2 g = []" "\<forall>e. live s2 e \<longrightarrow> live s1 e"
    using each_node_removes[OF s1(2), of "nodes_in s g" g] consistentD(3)[OF assms] same by auto
  moreover have "edges_in s2 g = []"
    using consistentD(6)[OF s2(2), of _ g] s2(6) by (cases "edges_in s2 g") (auto simp: inner_edge_def)
  moreover have "nodes_in s2 = (nodes_in s)(g := [])" using s2(5,6) by auto
  ultimately show ?thesis using that s1(1) same(1) by (simp add: edges_in_def nodes_in_def fun_eq_iff)
qed

lemma remove_graph_removes:
  assumes "consistent s" "g \<in> set (gm_graphs s)" "gr_parent (gm_graph s g) \<noteq> None" "gm_root s \<noteq> Some g"
  shows "\<exists>s'. manager_remove_graph g s = Inr s' \<and> consistent s' \<and> gm_graphs s' = remove1 g (gm_graphs s) \<and>
    nodes_in s' = (nodes_in s)(g := [])"
proof -
  obtain s1 s2 where s2: "each (graph_remove_edge g) (gr_edges (gm_graph s g)) s = Inr s1"
    "each (graph_remove_node g) (gr_nodes (gm_graph s1 g)) s1 = Inr s2" "consistent s2" "gm_graphs s2 = gm_graphs s"
    "gm_root s2 = gm_root s" "nodes_in s2 = (nodes_in s)(g := [])" "edges_in s2 g = []"
    using graph_emptied[OF assms(1)] by blast
  let ?s = "upd_graph g (\<lambda>x. x\<lparr>gr_parent := None\<rparr>) (s2\<lparr>gm_graphs := splice_index_of g (gm_graphs s2)\<rparr>)"
  have "manager_remove_graph g s = Inr ?s"
    using assms(3,4) s2(1,2,5) by (simp add: manager_remove_graph_def)
  moreover have N: "nodes_in ?s = nodes_in s2" "edges_in ?s = edges_in s2" "gm_edge ?s = gm_edge s2" "gm_inter ?s = gm_inter s2"
    "gm_node ?s = gm_node s2" "gm_graphs ?s = remove1 g (gm_graphs s2)"
    using assms(2) s2(4) by (auto simp: store_simps splice_in fun_eq_iff)
  moreover have "consistent ?s"
  proof -
    have L: "live ?s = live s2" "touches ?s = touches s2" "knows ?s = knows s2" "inner_edge ?s = inner_edge s2"
      "outer_edge ?s = outer_edge s2"
      by (auto simp: live_def touches_def knows_def inner_edge_def outer_edge_def N fun_eq_iff)
    have "nodes_in s2 g = []" using s2(6) by simp
    then show ?thesis
      using consistentD[OF s2(3)] s2(7) unfolding consistent_def L N by (auto simp: in_set_remove1)
  qed
  ultimately show ?thesis using s2(4,6) by (intro exI[of _ ?s]) simp
qed

text \<open>Removing the root always throws: it sets the root to \<open>null\<close>, whose manager is asked for.\<close>

lemma remove_root_throws:
  assumes "consistent s" "gm_root s = Some g"
  shows "manager_remove_graph g s = Inl NullRead"
proof -
  obtain s1 s2 where s2: "each (graph_remove_edge g) (gr_edges (gm_graph s g)) s = Inr s1"
    "each (graph_remove_node g) (gr_nodes (gm_graph s1 g)) s1 = Inr s2" "gm_root s2 = gm_root s"
    using graph_emptied[OF assms(1)] by blast
  then show ?thesis using assms(2) by (simp add: manager_remove_graph_def set_root_graph_def)
qed

lemma add_graph_consistent:
  assumes "consistent s" "nodes_in s g = []" "edges_in s g = []" "manager_add_graph g p s = Inr s'"
  shows "consistent s'"
proof -
  have s': "s' = upd_node p (\<lambda>x. x\<lparr>nd_child := Some g\<rparr>) (upd_graph g (\<lambda>x. x\<lparr>gr_parent := Some p\<rparr>)
      (s\<lparr>gm_graphs := gm_graphs s @ [g]\<rparr>))" "g \<notin> set (gm_graphs s)"
    using assms(4) by (auto simp: manager_add_graph_def split: if_splits)
  have N: "nodes_in s' = nodes_in s" "edges_in s' = edges_in s" "gm_edge s' = gm_edge s" "gm_inter s' = gm_inter s"
    "gm_graphs s' = gm_graphs s @ [g]" "nd_owner (gm_node s' n) = nd_owner (gm_node s n)"
    "nd_edges (gm_node s' n) = nd_edges (gm_node s n)" for n
    unfolding s'(1) by (auto simp: store_simps fun_eq_iff)
  have L: "live s' = live s" "touches s' = touches s" "knows s' = knows s" "inner_edge s' = inner_edge s"
    "outer_edge s' = outer_edge s"
    by (auto simp: live_def touches_def knows_def inner_edge_def outer_edge_def N fun_eq_iff)
  show ?thesis using consistentD[OF assms(1)] s'(2) unfolding consistent_def L N by auto
qed

subsection \<open>States a layout reaches\<close>

inductive layout_step :: "manager \<Rightarrow> manager \<Rightarrow> bool" where
  add_graph: "nodes_in s g = [] \<Longrightarrow> edges_in s g = [] \<Longrightarrow> manager_add_graph g p s = Inr s' \<Longrightarrow> layout_step s s'"
| add_node: "g \<in> set (gm_graphs s) \<Longrightarrow> \<not> placed s n \<Longrightarrow> graph_add_node g n s = Inr s' \<Longrightarrow> layout_step s s'"
| add_edge: "\<not> live s e \<Longrightarrow> placed s a \<Longrightarrow> placed s b \<Longrightarrow> manager_add_edge e a b s = Inr s' \<Longrightarrow> layout_step s s'"
| add_inner: "\<not> live s e \<Longrightarrow> graph_add_edge g e a b s = Inr s' \<Longrightarrow> layout_step s s'"
| remove_edge: "live s e \<Longrightarrow> remove_incident e s = Inr s' \<Longrightarrow> layout_step s s'"
| remove_node: "n \<in> set (nodes_in s g) \<Longrightarrow> graph_remove_node g n s = Inr s' \<Longrightarrow> layout_step s s'"
| remove_graph: "g \<in> set (gm_graphs s) \<Longrightarrow> manager_remove_graph g s = Inr s' \<Longrightarrow> layout_step s s'"
| new_id: "layout_step s (fst (new_object s))"
| root: "set_root_graph (Some g) s = Inr s' \<Longrightarrow> layout_step s s'"
| list_nodes: "layout_step s (fst (get_all_nodes s))"
| list_edges: "layout_step s (fst (get_all_edges s))"
| forget_nodes: "layout_step s (reset_all_nodes s)"
| forget_edges: "layout_step s (reset_all_edges s)"
| forget_gravitated: "layout_step s (reset_gravitated s)"
| gravitated: "set_gravitated ns s = Inr s' \<Longrightarrow> layout_step s s'"

inductive reached :: "manager \<Rightarrow> bool" where
  start: "reached new_manager"
| step: "reached s \<Longrightarrow> layout_step s s' \<Longrightarrow> reached s'"

lemma same_lists_consistent:
  assumes "consistent s" "gm_node s' = gm_node s" "gm_edge s' = gm_edge s" "gm_graphs s' = gm_graphs s"
    "gm_inter s' = gm_inter s" "nodes_in s' = nodes_in s" "edges_in s' = edges_in s"
  shows "consistent s'"
proof -
  have L: "live s' = live s" "touches s' = touches s" "knows s' = knows s" "inner_edge s' = inner_edge s"
    "outer_edge s' = outer_edge s"
    using assms(2-7) by (auto simp: live_def touches_def knows_def inner_edge_def outer_edge_def fun_eq_iff)
  show ?thesis using assms(1) unfolding consistent_def L assms(2-7) .
qed

text \<open>The kept lists are no part of the graphs.\<close>

lemma kept_lists_consistent:
  assumes "consistent s"
  shows "consistent (s\<lparr>gm_all_nodes := a\<rparr>)" "consistent (s\<lparr>gm_all_edges := b\<rparr>)"
    "consistent (s\<lparr>gm_gravitated := c\<rparr>)"
  by (rule same_lists_consistent[OF assms]; simp add: nodes_in_def edges_in_def fun_eq_iff)+

lemma step_consistent:
  assumes "layout_step s s'" "consistent s"
  shows "consistent s'"
  using assms
proof (induction rule: layout_step.induct)
  case (add_node g s n s')
  then show ?case using add_node_consistent[of s g n] by (auto simp: placed_def)
next
  case (remove_edge s e s')
  then show ?case using remove_incident_removes[of s e] edge_removed_consistent by auto
next
  case (remove_node n s g s')
  then show ?case using remove_node_removes[of s n g] by auto
next
  case (remove_graph g s s')
  moreover from this have "gm_root s \<noteq> Some g" using remove_root_throws[of s g] by auto
  moreover from this remove_graph have "gr_parent (gm_graph s g) \<noteq> None"
    by (auto simp: manager_remove_graph_def split: if_splits)
  ultimately show ?case using remove_graph_removes[of s g] by auto
next
  case (new_id s)
  then show ?case by (auto intro!: same_lists_consistent[of s] simp: new_object_def store_simps)
next
  case (root g s s')
  then show ?case
    by (auto simp: set_root_graph_def new_object_def store_simps fun_eq_iff intro!: same_lists_consistent[of s]
        split: if_splits)
next
  case (list_nodes s)
  then show ?case by (auto simp: get_all_nodes_def Let_def kept_lists_consistent split: option.split)
next
  case (list_edges s)
  then show ?case by (auto simp: get_all_edges_def Let_def kept_lists_consistent split: option.split)
next
  case (gravitated ns s s')
  then show ?case by (auto simp: set_gravitated_def kept_lists_consistent split: if_splits)
qed (use add_graph_consistent add_edge_consistent add_inner_consistent in blast |
  simp add: reset_all_nodes_def reset_all_edges_def reset_gravitated_def kept_lists_consistent)+

lemma reached_consistent: "reached s \<Longrightarrow> consistent s"
  by (induction rule: reached.induct) (auto intro: new_manager_consistent step_consistent)

end
