(* ===== verification/LayoutList.thy ===== *)
theory LayoutList
  imports JsBase
begin

text \<open>
  \<open>LinkedList\<close> of \<open>layout-base\<close> (\<open>docs/.vitepress/cache/deps/cytoscape-cose-bilkent.js\<close>): nodes that point to
  their neighbours, in a store, and that the operations do what they do on a plain list.  \<open>get_object_at\<close>
  and \<open>set_object_at\<close> call \<open>this.length\<close>, which is a number, so they throw.
\<close>

subsection \<open>Nodes and operations\<close>

record 'v list_node =
  ln_value :: 'v
  ln_next :: "nat option"
  ln_prev :: "nat option"

record 'v linked_list =
  ll_nodes :: "nat \<rightharpoonup> 'v list_node"
  ll_fresh :: nat
  ll_head :: "nat option"
  ll_tail :: "nat option"
  ll_length :: int

definition no_list :: "'v linked_list" where
  "no_list = \<lparr>ll_nodes = Map.empty, ll_fresh = 0, ll_head = None, ll_tail = None, ll_length = 0\<rparr>"

definition set_node :: "nat \<Rightarrow> ('v list_node \<Rightarrow> 'v list_node) \<Rightarrow> 'v linked_list \<Rightarrow> 'v linked_list" where
  "set_node a f l = l\<lparr>ll_nodes := (ll_nodes l)(a := map_option f (ll_nodes l a))\<rparr>"

definition node_from :: "'v \<Rightarrow> 'v linked_list \<Rightarrow> 'v linked_list \<times> nat" where
  "node_from v l =
     (l\<lparr>ll_nodes := (ll_nodes l)(ll_fresh l \<mapsto> \<lparr>ln_value = v, ln_next = None, ln_prev = None\<rparr>),
       ll_fresh := Suc (ll_fresh l)\<rparr>, ll_fresh l)"

definition link_prev :: "nat option \<Rightarrow> nat option \<Rightarrow> 'v linked_list \<Rightarrow> 'v linked_list" where
  "link_prev p node l =
     (case p of Some a \<Rightarrow> set_node a (\<lambda>n. n\<lparr>ln_next := node\<rparr>) l | None \<Rightarrow> l\<lparr>ll_head := node\<rparr>)"

definition link_next :: "nat option \<Rightarrow> nat option \<Rightarrow> 'v linked_list \<Rightarrow> 'v linked_list" where
  "link_next n node l =
     (case n of Some a \<Rightarrow> set_node a (\<lambda>n. n\<lparr>ln_prev := node\<rparr>) l | None \<Rightarrow> l\<lparr>ll_tail := node\<rparr>)"

definition list_add :: "nat option \<Rightarrow> nat \<Rightarrow> nat option \<Rightarrow> 'v linked_list \<Rightarrow> 'v linked_list" where
  "list_add p node n l =
     (let l = link_next n (Some node) (link_prev p (Some node) l);
          l = set_node node (\<lambda>m. m\<lparr>ln_prev := p, ln_next := n\<rparr>) l
      in l\<lparr>ll_length := ll_length l + 1\<rparr>)"

text \<open>\<open>None\<close>: the node is \<open>null\<close>, whose neighbours cannot be read.\<close>

definition list_remove :: "nat option \<Rightarrow> 'v linked_list \<Rightarrow> ('v linked_list \<times> nat) option" where
  "list_remove node l =
     Option.bind node (\<lambda>a. Option.bind (ll_nodes l a) (\<lambda>m.
       let l = link_next (ln_next m) (ln_prev m) (link_prev (ln_prev m) (ln_next m) l);
           l = set_node a (\<lambda>m. m\<lparr>ln_prev := None, ln_next := None\<rparr>) l
       in Some (l\<lparr>ll_length := ll_length l - 1\<rparr>, a)))"

definition node_value :: "'v linked_list \<times> nat \<Rightarrow> ('v linked_list \<times> 'v) option" where
  "node_value la = map_option (\<lambda>m. (fst la, ln_value m)) (ll_nodes (fst la) (snd la))"

definition list_push :: "'v \<Rightarrow> 'v linked_list \<Rightarrow> 'v linked_list \<times> nat" where
  "list_push v l = (let (l', a) = node_from v l in (list_add (ll_tail l) a None l', a))"

definition list_unshift :: "'v \<Rightarrow> 'v linked_list \<Rightarrow> 'v linked_list \<times> nat" where
  "list_unshift v l = (let (l', a) = node_from v l in (list_add None a (ll_head l) l', a))"

definition insert_node_before :: "nat \<Rightarrow> nat \<Rightarrow> 'v linked_list \<Rightarrow> 'v linked_list option" where
  "insert_node_before node other l = map_option (\<lambda>m. list_add (ln_prev m) node (Some other) l) (ll_nodes l other)"

definition insert_node_after :: "nat \<Rightarrow> nat \<Rightarrow> 'v linked_list \<Rightarrow> 'v linked_list option" where
  "insert_node_after node other l = map_option (\<lambda>m. list_add (Some other) node (ln_next m) l) (ll_nodes l other)"

definition insert_before :: "'v \<Rightarrow> nat \<Rightarrow> 'v linked_list \<Rightarrow> ('v linked_list \<times> nat) option" where
  "insert_before v other l =
     (let (l', a) = node_from v l in map_option (\<lambda>l. (l, a)) (insert_node_before a other l'))"

definition insert_after :: "'v \<Rightarrow> nat \<Rightarrow> 'v linked_list \<Rightarrow> ('v linked_list \<times> nat) option" where
  "insert_after v other l =
     (let (l', a) = node_from v l in map_option (\<lambda>l. (l, a)) (insert_node_after a other l'))"

definition list_pop :: "'v linked_list \<Rightarrow> ('v linked_list \<times> 'v) option" where
  "list_pop l = Option.bind (list_remove (ll_tail l) l) node_value"

definition list_shift :: "'v linked_list \<Rightarrow> ('v linked_list \<times> 'v) option" where
  "list_shift l = Option.bind (list_remove (ll_head l) l) node_value"

definition new_linked_list :: "'v list \<Rightarrow> 'v linked_list" where
  "new_linked_list vals = foldl (\<lambda>l v. fst (list_push v l)) no_list vals"

subsection \<open>What a list represents\<close>

fun first_id :: "(nat \<times> 'v) list \<Rightarrow> nat option \<Rightarrow> nat option" where
  "first_id [] n = n"
| "first_id (x # xs) n = Some (fst x)"

definition last_id :: "(nat \<times> 'v) list \<Rightarrow> nat option \<Rightarrow> nat option" where
  "last_id xs p = (if xs = [] then p else Some (fst (last xs)))"

fun chained :: "(nat \<rightharpoonup> 'v list_node) \<Rightarrow> nat option \<Rightarrow> (nat \<times> 'v) list \<Rightarrow> nat option \<Rightarrow> bool" where
  "chained h p [] n = True"
| "chained h p ((a, v) # xs) n =
     (h a = Some \<lparr>ln_value = v, ln_next = first_id xs n, ln_prev = p\<rparr> \<and> chained h (Some a) xs n)"

definition represents :: "'v linked_list \<Rightarrow> (nat \<times> 'v) list \<Rightarrow> bool" where
  "represents l xs \<longleftrightarrow>
     chained (ll_nodes l) None xs None \<and> distinct (map fst xs) \<and> (\<forall>a. ll_nodes l a \<noteq> None \<longrightarrow> a < ll_fresh l) \<and>
     ll_head l = first_id xs None \<and> ll_tail l = last_id xs None \<and> ll_length l = int (length xs)"

lemma last_id_simps [simp]:
  "last_id [] p = p" "last_id (xs @ [x]) p = Some (fst x)" "last_id (x # xs) p = last_id xs (Some (fst x))"
  by (auto simp: last_id_def)

lemma first_id_append: "first_id (xs @ ys) n = first_id xs (first_id ys n)"
  by (cases xs) auto

lemma last_id_append: "last_id (xs @ ys) p = last_id ys (last_id xs p)"
  by (auto simp: last_id_def)

lemma chained_append:
  "chained h p (xs @ ys) n \<longleftrightarrow> chained h p xs (first_id ys n) \<and> chained h (last_id xs p) ys n"
  by (induction h p xs n rule: chained.induct) (auto simp: first_id_append)

text \<open>Only the nodes of a chain matter to it.\<close>

lemma chained_cong: "(\<And>a. a \<in> fst ` set xs \<Longrightarrow> h a = h' a) \<Longrightarrow> chained h p xs n \<longleftrightarrow> chained h' p xs n"
  by (induction h p xs n rule: chained.induct) auto

lemma chained_update [simp]: "a \<notin> fst ` set xs \<Longrightarrow> chained (h(a := y)) p xs n \<longleftrightarrow> chained h p xs n"
  by (rule chained_cong) auto

lemma represents_new [simp]: "represents no_list []"
  by (simp add: represents_def no_list_def)

lemma node_from_represents:
  assumes "represents l xs" "node_from v l = (l', a)"
  shows "represents l' xs" "ll_nodes l' a = Some \<lparr>ln_value = v, ln_next = None, ln_prev = None\<rparr>" "a \<notin> fst ` set xs"
    "ll_head l' = ll_head l" "ll_tail l' = ll_tail l" "\<forall>b \<in> fst ` set xs. ll_nodes l' b = ll_nodes l b"
proof -
  have in_store: "ll_nodes l b \<noteq> None" if "b \<in> fst ` set xs" "chained (ll_nodes l) p xs n" for b p n
    using that(2,1) by (induction "ll_nodes l" p xs n rule: chained.induct) auto
  then have "ll_fresh l \<notin> fst ` set xs"
    using assms(1) unfolding represents_def by (metis less_irrefl)
  then have "\<And>v. (ll_fresh l, v) \<notin> set xs" "ll_fresh l \<notin> fst ` set xs" by force+
  with assms show "represents l' xs" "ll_nodes l' a = Some \<lparr>ln_value = v, ln_next = None, ln_prev = None\<rparr>" "a \<notin> fst ` set xs"
    "ll_head l' = ll_head l" "ll_tail l' = ll_tail l" "\<forall>b \<in> fst ` set xs. ll_nodes l' b = ll_nodes l b"
    by (auto simp: node_from_def represents_def less_Suc_eq image_iff)
qed

text \<open>A node is put between two that are neighbours.\<close>

lemma add_represents:
  assumes "represents l (xs @ ys)" "ll_nodes l a = Some m" "a \<notin> fst ` set (xs @ ys)"
  shows "represents (list_add (last_id xs None) a (first_id ys None) l) (xs @ (a, ln_value m) # ys)"
proof (cases xs rule: rev_cases)
  case Nil
  with assms show ?thesis
    by (cases ys) (auto simp: represents_def list_add_def link_prev_def link_next_def set_node_def chained_append Let_def)
next
  case (snoc zs b)
  with assms show ?thesis
    by (cases b; cases ys)
      (auto simp: represents_def list_add_def link_prev_def link_next_def set_node_def chained_append first_id_append
        last_id_append Let_def image_iff)
qed

text \<open>A node is taken out, and its neighbours meet.\<close>

lemma remove_represents:
  assumes "represents l (xs @ (a, v) # ys)"
  shows "\<exists>l' m. list_remove (Some a) l = Some (l', a) \<and> represents l' (xs @ ys) \<and> ll_nodes l' a = Some m \<and> ln_value m = v"
proof (cases xs rule: rev_cases)
  case Nil
  with assms show ?thesis
    by (cases ys) (auto simp: represents_def list_remove_def link_prev_def link_next_def set_node_def chained_append Let_def)
next
  case (snoc zs b)
  with assms show ?thesis
    by (cases b; cases ys)
      (auto simp: represents_def list_remove_def link_prev_def link_next_def set_node_def chained_append first_id_append
        last_id_append Let_def image_iff)
qed

subsection \<open>The operations\<close>

lemma push_represents:
  assumes "represents l xs"
  shows "\<exists>l' a. list_push v l = (l', a) \<and> represents l' (xs @ [(a, v)])"
proof -
  obtain l' a where n: "node_from v l = (l', a)" by (cases "node_from v l")
  from node_from_represents[OF assms n] add_represents[of l' xs "[]" a] show ?thesis
    using assms n by (auto simp: list_push_def represents_def)
qed

lemma unshift_represents:
  assumes "represents l xs"
  shows "\<exists>l' a. list_unshift v l = (l', a) \<and> represents l' ((a, v) # xs)"
proof -
  obtain l' a where n: "node_from v l = (l', a)" by (cases "node_from v l")
  from node_from_represents[OF assms n] add_represents[of l' "[]" xs a] show ?thesis
    using assms n by (auto simp: list_unshift_def represents_def)
qed

lemma chained_node:
  "chained h p (xs @ (b, w) # ys) n \<Longrightarrow>
   h b = Some \<lparr>ln_value = w, ln_next = first_id ys n, ln_prev = last_id xs p\<rparr>"
  by (simp add: chained_append)

lemma insert_before_represents:
  assumes "represents l (xs @ (b, w) # ys)"
  shows "\<exists>l' a. insert_before v b l = Some (l', a) \<and> represents l' (xs @ (a, v) # (b, w) # ys)"
proof -
  obtain l' a where n: "node_from v l = (l', a)" by (cases "node_from v l")
  note * = node_from_represents[OF assms n]
  have "ll_nodes l' b = Some \<lparr>ln_value = w, ln_next = first_id ys None, ln_prev = last_id xs None\<rparr>"
    using *(1) unfolding represents_def by (metis chained_node)
  with add_represents[OF *(1,2,3)] n show ?thesis by (simp add: insert_before_def insert_node_before_def)
qed

lemma insert_after_represents:
  assumes "represents l (xs @ (b, w) # ys)"
  shows "\<exists>l' a. insert_after v b l = Some (l', a) \<and> represents l' (xs @ (b, w) # (a, v) # ys)"
proof -
  obtain l' a where n: "node_from v l = (l', a)" by (cases "node_from v l")
  note * = node_from_represents[OF assms n]
  have "ll_nodes l' b = Some \<lparr>ln_value = w, ln_next = first_id ys None, ln_prev = last_id xs None\<rparr>"
    using *(1) unfolding represents_def by (metis chained_node)
  with add_represents[of l' "xs @ [(b, w)]" ys a] *(1,2,3) n show ?thesis
    by (simp add: insert_after_def insert_node_after_def)
qed

lemma shift_represents:
  assumes "represents l xs"
  shows "case xs of [] \<Rightarrow> list_shift l = None
    | (a, v) # ys \<Rightarrow> \<exists>l'. list_shift l = Some (l', v) \<and> represents l' ys"
proof (cases xs)
  case Nil
  with assms show ?thesis by (simp add: list_shift_def list_remove_def represents_def)
next
  case (Cons x ys)
  obtain a v where x: "x = (a, v)" by (cases x)
  with Cons assms have "ll_head l = Some a" by (simp add: represents_def)
  with remove_represents[of l "[]" a v ys] assms Cons x show ?thesis
    by (auto simp: list_shift_def node_value_def)
qed

lemma pop_represents:
  assumes "represents l xs"
  shows "if xs = [] then list_pop l = None
    else \<exists>l'. list_pop l = Some (l', snd (last xs)) \<and> represents l' (butlast xs)"
proof (cases xs rule: rev_cases)
  case Nil
  with assms show ?thesis by (simp add: list_pop_def list_remove_def represents_def)
next
  case (snoc ys x)
  obtain a v where x: "x = (a, v)" by (cases x)
  with snoc assms have "ll_tail l = Some a" by (simp add: represents_def)
  with remove_represents[of l ys a v "[]"] assms snoc x show ?thesis
    by (auto simp: list_pop_def node_value_def)
qed

subsection \<open>Runs\<close>

text \<open>Calls of the operations at the ends, with what they return; a call that throws ends the run.\<close>

datatype 'v deque_call = Push 'v | Unshift 'v | Pop | Shift

fun list_call :: "'v deque_call \<Rightarrow> 'v linked_list \<Rightarrow> ('v linked_list \<times> 'v option) option" where
  "list_call (Push v) l = Some (fst (list_push v l), None)"
| "list_call (Unshift v) l = Some (fst (list_unshift v l), None)"
| "list_call Pop l = map_option (\<lambda>(l, v). (l, Some v)) (list_pop l)"
| "list_call Shift l = map_option (\<lambda>(l, v). (l, Some v)) (list_shift l)"

fun plain_call :: "'v deque_call \<Rightarrow> 'v list \<Rightarrow> ('v list \<times> 'v option) option" where
  "plain_call (Push v) xs = Some (xs @ [v], None)"
| "plain_call (Unshift v) xs = Some (v # xs, None)"
| "plain_call Pop xs = (if xs = [] then None else Some (butlast xs, Some (last xs)))"
| "plain_call Shift xs = (case xs of [] \<Rightarrow> None | x # ys \<Rightarrow> Some (ys, Some x))"

fun run_calls :: "('c \<Rightarrow> 's \<Rightarrow> ('s \<times> 'o) option) \<Rightarrow> 'c list \<Rightarrow> 's \<Rightarrow> 'o list \<times> 's option" where
  "run_calls call [] s = ([], Some s)"
| "run_calls call (c # cs) s =
     (case call c s of
        None \<Rightarrow> ([], None)
      | Some (s', out) \<Rightarrow> (case run_calls call cs s' of (outs, r) \<Rightarrow> (out # outs, r)))"

definition stands_for :: "'v linked_list \<Rightarrow> 'v list \<Rightarrow> bool" where
  "stands_for l vs \<longleftrightarrow> (\<exists>xs. represents l xs \<and> vs = map snd xs)"

text \<open>A call of the one answers as the call of the other, and leads to states that stand for each other.\<close>

lemma call_refines:
  assumes "stands_for l vs"
  shows "rel_option (\<lambda>(l', out) (vs', out'). stands_for l' vs' \<and> out = out') (list_call c l) (plain_call c vs)"
proof -
  obtain xs where xs: "represents l xs" "vs = map snd xs" using assms by (auto simp: stands_for_def)
  show ?thesis
  proof (cases c)
    case (Push v)
    with push_represents[OF xs(1), of v] xs(2) show ?thesis by (fastforce simp: stands_for_def)
  next
    case (Unshift v)
    with unshift_represents[OF xs(1), of v] xs(2) show ?thesis by (fastforce simp: stands_for_def)
  next
    case Pop
    with pop_represents[OF xs(1)] xs(2) show ?thesis
      by (cases "xs = []") (auto simp: stands_for_def map_butlast last_map intro!: exI[of _ "butlast xs"])
  next
    case Shift
    with shift_represents[OF xs(1)] xs(2) show ?thesis by (cases xs) (auto simp: stands_for_def)
  qed
qed

lemma runs_refine:
  assumes "stands_for l vs"
  shows "fst (run_calls list_call cs l) = fst (run_calls plain_call cs vs) \<and>
    rel_option stands_for (snd (run_calls list_call cs l)) (snd (run_calls plain_call cs vs))"
  using assms
proof (induction cs arbitrary: l vs)
  case (Cons c cs)
  from call_refines[OF Cons.prems, of c] Cons.IH show ?case
    by (cases "list_call c l"; cases "plain_call c vs") (fastforce split: prod.splits)+
qed simp

lemma new_stands_for: "stands_for (new_linked_list vs) vs"
proof (induction vs rule: rev_induct)
  case Nil
  show ?case by (auto simp: new_linked_list_def stands_for_def intro!: exI[of _ "[]"])
next
  case (snoc v vs)
  then obtain xs where "represents (new_linked_list vs) xs" "vs = map snd xs" by (auto simp: stands_for_def)
  with push_represents[of "new_linked_list vs" xs v] obtain l' a where
    "list_push v (new_linked_list vs) = (l', a)" "represents l' (xs @ [(a, v)])" by blast
  with \<open>vs = map snd xs\<close> show ?case
    by (auto simp: new_linked_list_def stands_for_def intro!: exI[of _ "xs @ [(a, v)]"])
qed

lemma stands_for_push: "stands_for l vs \<Longrightarrow> stands_for (fst (list_push v l)) (vs @ [v])"
  using call_refines[of l vs "Push v"] by simp

lemma stands_for_shift: "stands_for l (v # vs) \<Longrightarrow> \<exists>l'. list_shift l = Some (l', v) \<and> stands_for l' vs"
  using call_refines[of l "v # vs" Shift] by (cases "list_shift l") auto

lemma stands_for_length: "stands_for l vs \<Longrightarrow> ll_length l = int (length vs)"
  by (auto simp: stands_for_def represents_def)

lemma no_list_stands_for: "stands_for no_list []"
  using new_stands_for[of "[]"] by (simp add: new_linked_list_def)

end
