(* ===== verification/LayoutNest.thy ===== *)
theory LayoutNest
  imports LayoutGraph LayoutList
begin

text \<open>
  What \<open>layout-base\<close> asks of nested graphs (\<open>docs/.vitepress/cache/deps/cytoscape-cose-bilkent.js\<close>, \<open>LEdge\<close>,
  \<open>LNode\<close>, \<open>LGraph\<close>, \<open>LGraphManager\<close>): the other end of an edge, neighbours, the nodes inside a compound,
  ancestors, depths and connectedness.  A walk up or down the nesting that need not end is a partial
  function, whose \<open>None\<close> is not returning; inside, \<open>Inl\<close> is an exception.  A \<open>Set\<close> is the list of its elements
  in the order of their insertion.
\<close>

subsection \<open>Edges and neighbours\<close>

definition edge_other_end :: "manager \<Rightarrow> nat \<Rightarrow> nat \<Rightarrow> layout_error + nat option" where
  "edge_other_end s e n =
     (if ed_source (gm_edge s e) = Some n then Inr (ed_target (gm_edge s e))
      else if ed_target (gm_edge s e) = Some n then Inr (ed_source (gm_edge s e))
      else Inl (Thrown ''Node is not incident with this edge''))"

text \<open>From a node up to the one that contains it in a graph, or \<open>null\<close> at the root.\<close>

partial_function (option) climb_to :: "manager \<Rightarrow> nat \<Rightarrow> nat option \<Rightarrow> (layout_error + nat option) option" where
  "climb_to s graph node =
     (case node of
        None \<Rightarrow> Some (Inl NullRead)
      | Some n \<Rightarrow>
          if nd_owner (gm_node s n) = Some graph then Some (Inr (Some n))
          else if nd_owner (gm_node s n) = gm_root s then Some (Inr None)
          else
           (case nd_owner (gm_node s n) of
              None \<Rightarrow> Some (Inl NullRead)
            | Some g \<Rightarrow> climb_to s graph (gr_parent (gm_graph s g))))"

definition other_end_in_graph :: "manager \<Rightarrow> nat \<Rightarrow> nat \<Rightarrow> nat \<Rightarrow> (layout_error + nat option) option" where
  "other_end_in_graph s e n graph =
     (case edge_other_end s e n of Inl er \<Rightarrow> Some (Inl er) | Inr m \<Rightarrow> climb_to s graph m)"

fun edges_to :: "manager \<Rightarrow> nat \<Rightarrow> nat \<Rightarrow> nat list \<Rightarrow> layout_error + nat list" where
  "edges_to s n to [] = Inr []"
| "edges_to s n to (e # es) =
     (if ed_target (gm_edge s e) = Some to then
        if ed_source (gm_edge s e) \<noteq> Some n then Inl (Thrown ''Incorrect edge source!'')
        else map_sum id ((#) e) (edges_to s n to es)
      else edges_to s n to es)"

definition get_edge_list_to_node :: "manager \<Rightarrow> nat \<Rightarrow> nat \<Rightarrow> layout_error + nat list" where
  "get_edge_list_to_node s n to = edges_to s n to (nd_edges (gm_node s n))"

fun edges_with_end :: "manager \<Rightarrow> nat \<Rightarrow> nat option \<Rightarrow> nat list \<Rightarrow> layout_error + nat list" where
  "edges_with_end s n other [] = Inr []"
| "edges_with_end s n other (e # es) =
     (if \<not> (ed_source (gm_edge s e) = Some n \<or> ed_target (gm_edge s e) = Some n)
      then Inl (Thrown ''Incorrect edge source and/or target'')
      else if ed_target (gm_edge s e) = other \<or> ed_source (gm_edge s e) = other
      then map_sum id ((#) e) (edges_with_end s n other es)
      else edges_with_end s n other es)"

text \<open>The other node may be \<open>null\<close>.\<close>

definition get_edges_between :: "manager \<Rightarrow> nat \<Rightarrow> nat option \<Rightarrow> layout_error + nat list" where
  "get_edges_between s n other = edges_with_end s n other (nd_edges (gm_node s n))"

definition set_add :: "'a \<Rightarrow> 'a list \<Rightarrow> 'a list" where
  "set_add x xs = (if x \<in> set xs then xs else xs @ [x])"

fun neighbors_of :: "manager \<Rightarrow> nat \<Rightarrow> nat list \<Rightarrow> nat option list \<Rightarrow> layout_error + nat option list" where
  "neighbors_of s n [] found = Inr found"
| "neighbors_of s n (e # es) found =
     (if ed_source (gm_edge s e) = Some n then neighbors_of s n es (set_add (ed_target (gm_edge s e)) found)
      else if ed_target (gm_edge s e) \<noteq> Some n then Inl (Thrown ''Incorrect incidency!'')
      else neighbors_of s n es (set_add (ed_source (gm_edge s e)) found))"

definition get_neighbors_list :: "manager \<Rightarrow> nat \<Rightarrow> layout_error + nat option list" where
  "get_neighbors_list s n = neighbors_of s n (nd_edges (gm_node s n)) []"

subsection \<open>Inside a compound\<close>

text \<open>\<open>withChildren\<close>: the nodes still to enter are the stack of the recursion.\<close>

partial_function (option) with_children_from :: "manager \<Rightarrow> nat list \<Rightarrow> nat list \<Rightarrow> nat list option" where
  "with_children_from s stack found =
     (case stack of
        [] \<Rightarrow> Some found
      | n # rest \<Rightarrow>
          with_children_from s
            ((case nd_child (gm_node s n) of None \<Rightarrow> [] | Some g \<Rightarrow> gr_nodes (gm_graph s g)) @ rest) (set_add n found))"

definition with_children :: "manager \<Rightarrow> nat \<Rightarrow> nat list option" where
  "with_children s n = with_children_from s [n] []"

text \<open>\<open>getNoOfChildren\<close>, summed over nodes: leaves, and compounds without any.\<close>

partial_function (option) no_of_children_sum :: "manager \<Rightarrow> nat list \<Rightarrow> nat option" where
  "no_of_children_sum s ns =
     (case ns of
        [] \<Rightarrow> Some 0
      | n # rest \<Rightarrow>
          Option.bind
            (case nd_child (gm_node s n) of
               None \<Rightarrow> Some 1
             | Some g \<Rightarrow> Option.bind (no_of_children_sum s (gr_nodes (gm_graph s g))) (\<lambda>k. Some (if k = 0 then 1 else k)))
            (\<lambda>a. Option.bind (no_of_children_sum s rest) (\<lambda>b. Some (a + b))))"

definition get_no_of_children :: "manager \<Rightarrow> nat \<Rightarrow> nat option" where
  "get_no_of_children s n = no_of_children_sum s [n]"

text \<open>\<open>calcInclusionTreeDepths\<close>: the depth written into each node.\<close>

partial_function (option) inclusion_depths :: "manager \<Rightarrow> nat \<Rightarrow> nat list \<Rightarrow> (nat \<times> nat) list option" where
  "inclusion_depths s depth ns =
     (case ns of
        [] \<Rightarrow> Some []
      | n # rest \<Rightarrow>
          Option.bind
            (case nd_child (gm_node s n) of
               None \<Rightarrow> Some []
             | Some g \<Rightarrow> inclusion_depths s (depth + 1) (gr_nodes (gm_graph s g)))
            (\<lambda>below. Option.bind (inclusion_depths s depth rest) (\<lambda>ds. Some ((n, depth) # below @ ds))))"

definition calc_inclusion_tree_depths :: "manager \<Rightarrow> (layout_error + (nat \<times> nat) list) option" where
  "calc_inclusion_tree_depths s =
     (case gm_root s of
        None \<Rightarrow> Some (Inl NullRead)
      | Some g \<Rightarrow> map_option Inr (inclusion_depths s 1 (gr_nodes (gm_graph s g))))"

subsection \<open>Ancestors\<close>

text \<open>Whether a node is met on the way up from a graph.\<close>

partial_function (option) parent_above :: "manager \<Rightarrow> nat \<Rightarrow> nat \<Rightarrow> bool option" where
  "parent_above s g m =
     (case gr_parent (gm_graph s g) of
        None \<Rightarrow> Some False
      | Some p \<Rightarrow>
          if p = m then Some True
          else (case nd_owner (gm_node s p) of None \<Rightarrow> Some False | Some h \<Rightarrow> parent_above s h m))"

definition is_one_ancestor_of_other :: "manager \<Rightarrow> nat \<Rightarrow> nat \<Rightarrow> (layout_error + bool) option" where
  "is_one_ancestor_of_other s n m =
     (if n = m then Some (Inr True)
      else
       (case nd_owner (gm_node s n) of
          None \<Rightarrow> Some (Inl NullRead)
        | Some g \<Rightarrow> Option.bind (parent_above s g m) (\<lambda>b.
            if b then Some (Inr True)
            else
             (case nd_owner (gm_node s m) of
                None \<Rightarrow> Some (Inl NullRead)
              | Some h \<Rightarrow> map_option Inr (parent_above s h n)))))"

fun includes_invalid_from :: "manager \<Rightarrow> nat list \<Rightarrow> (layout_error + bool) option" where
  "includes_invalid_from s [] = Some (Inr False)"
| "includes_invalid_from s (e # es) =
     (case (ed_source (gm_edge s e), ed_target (gm_edge s e)) of
        (Some a, Some b) \<Rightarrow>
          Option.bind (is_one_ancestor_of_other s a b) (\<lambda>r.
            case r of Inr False \<Rightarrow> includes_invalid_from s es | _ \<Rightarrow> Some r)
      | _ \<Rightarrow> Some (Inl (Thrown ''assert failed'')))"

definition includes_invalid_edge :: "manager \<Rightarrow> (layout_error + bool) option" where
  "includes_invalid_edge s = includes_invalid_from s (gm_inter s)"

text \<open>\<open>graph.getParent().getOwner()\<close>.\<close>

definition outer_graph :: "manager \<Rightarrow> nat \<Rightarrow> layout_error + nat option" where
  "outer_graph s g =
     (case gr_parent (gm_graph s g) of None \<Rightarrow> Inl NullRead | Some p \<Rightarrow> Inr (nd_owner (gm_node s p)))"

text \<open>\<open>calcLowestCommonAncestor\<close>: the inner loop looks for a graph among those around the second node.\<close>

partial_function (option) meets :: "manager \<Rightarrow> nat \<Rightarrow> nat option \<Rightarrow> (layout_error + bool) option" where
  "meets s g second =
     (case second of
        None \<Rightarrow> Some (Inr False)
      | Some h \<Rightarrow>
          if h = g then Some (Inr True)
          else (case outer_graph s h of Inl er \<Rightarrow> Some (Inl er) | Inr k \<Rightarrow> meets s g k))"

partial_function (option) lowest_common :: "manager \<Rightarrow> nat option \<Rightarrow> nat option \<Rightarrow> (layout_error + nat option) option" where
  "lowest_common s first second =
     (case first of
        None \<Rightarrow> Some (Inr None)
      | Some g \<Rightarrow>
          Option.bind (meets s g second) (\<lambda>r.
            case r of
              Inl er \<Rightarrow> Some (Inl er)
            | Inr b \<Rightarrow>
                if b then Some (Inr (Some g))
                else (case outer_graph s g of Inl er \<Rightarrow> Some (Inl er) | Inr k \<Rightarrow> lowest_common s k second)))"

definition calc_lowest_common_ancestor :: "manager \<Rightarrow> nat \<Rightarrow> nat \<Rightarrow> (layout_error + nat option) option" where
  "calc_lowest_common_ancestor s n m =
     (if n = m then Some (Inr (nd_owner (gm_node s n)))
      else lowest_common s (nd_owner (gm_node s n)) (nd_owner (gm_node s m)))"

text \<open>
  \<open>calcLowestCommonAncestors\<close> for one edge: the graph, and the nodes of it that the ends are in.  The walk of
  the target stops at the root, as that of the source does.
\<close>

partial_function (option) target_walk ::
  "manager \<Rightarrow> nat option \<Rightarrow> nat \<Rightarrow> nat option \<Rightarrow> (layout_error + (nat option \<times> nat)) option" where
  "target_walk s sg tn tg =
     (if tg = sg then Some (Inr (tg, tn))
      else if tg = gm_root s then Some (Inr (None, tn))
      else
       (case tg of
          None \<Rightarrow> Some (Inl NullRead)
        | Some g \<Rightarrow>
           (case gr_parent (gm_graph s g) of
              None \<Rightarrow> Some (Inl NullRead)
            | Some p \<Rightarrow> target_walk s sg p (nd_owner (gm_node s p)))))"

record edge_lca =
  lca_graph :: "nat option"
  lca_source :: nat
  lca_target :: nat

partial_function (option) source_walk ::
  "manager \<Rightarrow> nat \<Rightarrow> nat option \<Rightarrow> nat \<Rightarrow> (layout_error + edge_lca) option" where
  "source_walk s sn sg tn =
     Option.bind (target_walk s sg tn (nd_owner (gm_node s tn))) (\<lambda>r.
       case r of
         Inl er \<Rightarrow> Some (Inl er)
       | Inr met \<Rightarrow>
           if fst met \<noteq> None then Some (Inr \<lparr>lca_graph = fst met, lca_source = sn, lca_target = snd met\<rparr>)
           else if sg = gm_root s then Some (Inl (Thrown ''assert failed''))
           else
            (case sg of
               None \<Rightarrow> Some (Inl NullRead)
             | Some g \<Rightarrow>
                (case gr_parent (gm_graph s g) of
                   None \<Rightarrow> Some (Inl NullRead)
                 | Some p \<Rightarrow> source_walk s p (nd_owner (gm_node s p)) tn)))"

definition edge_lowest_common_ancestor :: "manager \<Rightarrow> nat \<Rightarrow> (layout_error + edge_lca) option" where
  "edge_lowest_common_ancestor s e =
     (case (ed_source (gm_edge s e), ed_target (gm_edge s e)) of
        (Some a, Some b) \<Rightarrow>
          if a = b then Some (Inr \<lparr>lca_graph = nd_owner (gm_node s a), lca_source = a, lca_target = b\<rparr>)
          else source_walk s a (nd_owner (gm_node s a)) b
      | _ \<Rightarrow> Some (Inl NullRead))"

subsection \<open>Connectedness\<close>

text \<open>\<open>updateConnected\<close>: the queue is a \<open>LinkedList\<close>.\<close>

definition enqueue_all :: "nat list \<Rightarrow> nat linked_list \<times> nat list \<Rightarrow> nat linked_list \<times> nat list" where
  "enqueue_all ns qv = foldl (\<lambda>(q, visited) n. (fst (list_push n q), set_add n visited)) qv ns"

fun visit_edges ::
  "manager \<Rightarrow> nat \<Rightarrow> nat \<Rightarrow> nat list \<Rightarrow> nat linked_list \<times> nat list \<Rightarrow> (layout_error + nat linked_list \<times> nat list) option"
  where
  "visit_edges s g n [] qv = Some (Inr qv)"
| "visit_edges s g n (e # es) qv =
     Option.bind (other_end_in_graph s e n g) (\<lambda>r.
       case r of
         Inl er \<Rightarrow> Some (Inl er)
       | Inr None \<Rightarrow> visit_edges s g n es qv
       | Inr (Some m) \<Rightarrow>
           if m \<in> set (snd qv) then visit_edges s g n es qv
           else Option.bind (with_children s m) (\<lambda>ms. visit_edges s g n es (enqueue_all ms qv)))"

partial_function (option) visit_all ::
  "manager \<Rightarrow> nat \<Rightarrow> nat linked_list \<times> nat list \<Rightarrow> (layout_error + nat list) option" where
  "visit_all s g qv =
     (if ll_length (fst qv) = 0 then Some (Inr (snd qv))
      else
       (case list_shift (fst qv) of
          None \<Rightarrow> Some (Inl NullRead)
        | Some qn \<Rightarrow>
            Option.bind (visit_edges s g (snd qn) (nd_edges (gm_node s (snd qn))) (fst qn, snd qv)) (\<lambda>r.
              case r of Inl er \<Rightarrow> Some (Inl er) | Inr qv' \<Rightarrow> visit_all s g qv')))"

definition update_connected :: "manager \<Rightarrow> nat \<Rightarrow> (layout_error + bool) option" where
  "update_connected s g =
     (case gr_nodes (gm_graph s g) of
        [] \<Rightarrow> Some (Inr True)
      | n # ns \<Rightarrow>
          Option.bind (with_children s n) (\<lambda>ms.
            map_option (map_sum id (\<lambda>visited.
              length visited \<ge> length (n # ns) \<and>
              length (filter (\<lambda>m. nd_owner (gm_node s m) = Some g) visited) = length (n # ns)))
              (visit_all s g (enqueue_all ms (no_list, [])))))"

subsection \<open>The lowest common graph\<close>

text \<open>\<open>around s g h\<close>: graph \<open>h\<close> is \<open>g\<close> or contains it; \<open>enclosed\<close>: the nesting around a graph ends.\<close>

inductive around :: "manager \<Rightarrow> nat \<Rightarrow> nat \<Rightarrow> bool" for s where
  here: "around s g g"
| out: "outer_graph s g = Inr (Some h) \<Longrightarrow> around s h k \<Longrightarrow> around s g k"

inductive enclosed :: "manager \<Rightarrow> nat \<Rightarrow> bool" for s where
  outermost: "outer_graph s g = Inr None \<Longrightarrow> enclosed s g"
| inside: "outer_graph s g = Inr (Some h) \<Longrightarrow> enclosed s h \<Longrightarrow> enclosed s g"

inductive_cases aroundE: "around s g k"

lemma meets_around: "enclosed s h \<Longrightarrow> meets s g (Some h) = Some (Inr (around s h g))"
proof (induction rule: enclosed.induct)
  case (outermost h)
  have "meets s g None = Some (Inr False)" by (subst meets.simps) simp
  with outermost show ?case by (subst meets.simps) (auto intro: here elim: aroundE)
next
  case (inside h k)
  then show ?case
    by (subst meets.simps) (auto intro: here out elim: aroundE)
qed

definition lowest_of :: "manager \<Rightarrow> nat \<Rightarrow> nat \<Rightarrow> nat option \<Rightarrow> bool" where
  "lowest_of s g h r \<longleftrightarrow>
     (case r of
        None \<Rightarrow> \<forall>k. \<not> (around s g k \<and> around s h k)
      | Some k \<Rightarrow> around s g k \<and> around s h k \<and> (\<forall>m. around s g m \<and> around s h m \<longrightarrow> around s k m))"

lemma lowest_common_lowest:
  assumes "enclosed s g" "enclosed s h"
  shows "\<exists>r. lowest_common s (Some g) (Some h) = Some (Inr r) \<and> lowest_of s g h r"
  using assms(1)
proof (induction rule: enclosed.induct)
  case (outermost g)
  have e: "lowest_common s None (Some h) = Some (Inr None)" by (subst lowest_common.simps) simp
  show ?case
  proof (cases "around s h g")
    case True
    then have "lowest_common s (Some g) (Some h) = Some (Inr (Some g))"
      using meets_around[OF assms(2)] by (subst lowest_common.simps) simp
    then show ?thesis using True by (auto simp: lowest_of_def intro: here)
  next
    case False
    then have "lowest_common s (Some g) (Some h) = Some (Inr None)"
      using meets_around[OF assms(2)] outermost e by (subst lowest_common.simps) simp
    then show ?thesis using False outermost by (auto simp: lowest_of_def elim: aroundE)
  qed
next
  case (inside g k)
  then obtain r where r: "lowest_common s (Some k) (Some h) = Some (Inr r)" "lowest_of s k h r" by blast
  show ?case
  proof (cases "around s h g")
    case True
    then have "lowest_common s (Some g) (Some h) = Some (Inr (Some g))"
      using meets_around[OF assms(2)] by (subst lowest_common.simps) simp
    then show ?thesis using True by (auto simp: lowest_of_def intro: here)
  next
    case False
    then have "lowest_common s (Some g) (Some h) = Some (Inr r)"
      using meets_around[OF assms(2)] inside(1) r(1) by (subst lowest_common.simps) simp
    moreover have "around s g m \<and> around s h m \<longleftrightarrow> around s k m \<and> around s h m" for m
      using False inside(1) by (auto intro: out elim: aroundE)
    ultimately show ?thesis using r(2) inside(1) by (auto simp: lowest_of_def split: option.splits)
  qed
qed

subsection \<open>What \<open>updateConnected\<close> finds\<close>

text \<open>The edges of a graph, seen from both ends; a flat graph has no compound and no edge that leaves it.\<close>

definition joined :: "manager \<Rightarrow> nat \<Rightarrow> nat \<Rightarrow> nat \<Rightarrow> bool" where
  "joined s g n m \<longleftrightarrow> (\<exists>e \<in> set (edges_in s g).
     ed_source (gm_edge s e) = Some n \<and> ed_target (gm_edge s e) = Some m \<or>
     ed_source (gm_edge s e) = Some m \<and> ed_target (gm_edge s e) = Some n)"

definition flat :: "manager \<Rightarrow> nat \<Rightarrow> bool" where
  "flat s g \<longleftrightarrow> consistent s \<and> gm_inter s = [] \<and> (\<forall>n \<in> set (nodes_in s g). nd_child (gm_node s n) = None)"

lemma joined_nodes: "flat s g \<Longrightarrow> joined s g n m \<Longrightarrow> n \<in> set (nodes_in s g) \<and> m \<in> set (nodes_in s g)"
  using consistentD(6)[of s _ g] by (fastforce simp: joined_def flat_def inner_edge_def)

lemma joined_sym: "joined s g n m \<Longrightarrow> joined s g m n"
  by (auto simp: joined_def)

lemma with_children_leaf: "nd_child (gm_node s n) = None \<Longrightarrow> with_children s n = Some [n]"
  by (simp add: with_children_def with_children_from.simps set_add_def)

lemma far_end:
  assumes "flat s g" "n \<in> set (nodes_in s g)" "e \<in> set (nd_edges (gm_node s n))"
  obtains m where "other_end_in_graph s e n g = Some (Inr (Some m))" "joined s g n m"
    "\<And>k. ed_source (gm_edge s e) = Some n \<and> ed_target (gm_edge s e) = Some k \<or>
      ed_source (gm_edge s e) = Some k \<and> ed_target (gm_edge s e) = Some n \<Longrightarrow> k = m"
proof -
  have c: "consistent s" using assms(1) by (simp add: flat_def)
  have e: "live s e" "touches s e n" using assms(3) consistentD(11)[OF c, of n e] by (auto simp: knows_def)
  then obtain h where h: "e \<in> set (edges_in s h)" using assms(1) by (auto simp: live_def flat_def)
  from consistentD(6)[OF c h] obtain a b where ab: "ed_source (gm_edge s e) = Some a" "ed_target (gm_edge s e) = Some b"
    "a \<in> set (nodes_in s h)" "b \<in> set (nodes_in s h)" by (auto simp: inner_edge_def)
  have n: "n = a \<or> n = b" using e(2) ab by (auto simp: touches_def)
  then have "h = g"
    using ab(3,4) consistentD(5)[OF c, of n h] consistentD(5)[OF c, of n g] assms(2) by auto
  let ?m = "if n = a then b else a"
  have "edge_other_end s e n = Inr (Some ?m)" using ab n by (auto simp: edge_other_end_def)
  moreover have "nd_owner (gm_node s ?m) = Some g" using ab consistentD(5)[OF c] \<open>h = g\<close> by auto
  ultimately have "other_end_in_graph s e n g = Some (Inr (Some ?m))"
    by (simp add: other_end_in_graph_def climb_to.simps)
  moreover have "joined s g n ?m" using ab n h \<open>h = g\<close> by (auto simp: joined_def intro!: bexI[of _ e])
  moreover have "k = ?m" if "ed_source (gm_edge s e) = Some n \<and> ed_target (gm_edge s e) = Some k \<or>
      ed_source (gm_edge s e) = Some k \<and> ed_target (gm_edge s e) = Some n" for k
    using that ab(1,2) n by auto
  ultimately show ?thesis by (rule that)
qed

lemma visit_edges_flat:
  assumes "flat s g" "n \<in> set (nodes_in s g)" "set es \<subseteq> set (nd_edges (gm_node s n))" "stands_for q vs" "distinct visited"
  shows "\<exists>q' new. visit_edges s g n es (q, visited) = Some (Inr (q', visited @ new)) \<and> stands_for q' (vs @ new) \<and>
    distinct (visited @ new) \<and> (\<forall>m \<in> set new. joined s g n m) \<and>
    (\<forall>e \<in> set es. \<forall>m. other_end_in_graph s e n g = Some (Inr (Some m)) \<longrightarrow> m \<in> set (visited @ new))"
  using assms(3-5)
proof (induction es arbitrary: q vs visited)
  case Nil
  then show ?case by (intro exI[of _ q] exI[of _ "[]"]) simp
next
  case (Cons e es)
  from Cons.prems(1) have "e \<in> set (nd_edges (gm_node s n))" by simp
  from far_end[OF assms(1,2) this] obtain m where m: "other_end_in_graph s e n g = Some (Inr (Some m))" "joined s g n m" .
  show ?case
  proof (cases "m \<in> set visited")
    case True
    from Cons.IH[OF _ Cons.prems(2,3)] Cons.prems(1) obtain q' new where
      "visit_edges s g n es (q, visited) = Some (Inr (q', visited @ new))" "stands_for q' (vs @ new)"
      "distinct (visited @ new)" "\<forall>m \<in> set new. joined s g n m"
      "\<forall>e \<in> set es. \<forall>m. other_end_in_graph s e n g = Some (Inr (Some m)) \<longrightarrow> m \<in> set (visited @ new)" by auto
    then show ?thesis using m(1) True by (intro exI[of _ q'] exI[of _ new]) auto
  next
    case False
    have "with_children s m = Some [m]"
      using joined_nodes[OF assms(1) m(2)] assms(1) by (intro with_children_leaf) (auto simp: flat_def)
    then have step: "visit_edges s g n (e # es) (q, visited) = visit_edges s g n es (fst (list_push m q), visited @ [m])"
      using m(1) False by (simp add: enqueue_all_def set_add_def)
    from Cons.IH[OF _ stands_for_push[OF Cons.prems(2)], of "visited @ [m]" m] Cons.prems(1,3) False obtain q' new where
      "visit_edges s g n es (fst (list_push m q), visited @ [m]) = Some (Inr (q', (visited @ [m]) @ new))"
      "stands_for q' ((vs @ [m]) @ new)" "distinct ((visited @ [m]) @ new)" "\<forall>k \<in> set new. joined s g n k"
      "\<forall>e \<in> set es. \<forall>k. other_end_in_graph s e n g = Some (Inr (Some k)) \<longrightarrow> k \<in> set ((visited @ [m]) @ new)" by auto
    then show ?thesis using m step by (intro exI[of _ q'] exI[of _ "m # new"]) auto
  qed
qed

lemma joined_edge:
  assumes "flat s g" "joined s g n m"
  shows "\<exists>e \<in> set (nd_edges (gm_node s n)). other_end_in_graph s e n g = Some (Inr (Some m))"
proof -
  have n: "n \<in> set (nodes_in s g)" using joined_nodes[OF assms] by blast
  from assms(2) obtain e where e: "e \<in> set (edges_in s g)"
    "ed_source (gm_edge s e) = Some n \<and> ed_target (gm_edge s e) = Some m \<or>
     ed_source (gm_edge s e) = Some m \<and> ed_target (gm_edge s e) = Some n" by (auto simp: joined_def)
  then have "e \<in> set (nd_edges (gm_node s n))"
    using assms(1) consistentD(11)[of s n e] by (auto simp: flat_def knows_def live_def touches_def)
  from far_end[OF assms(1) n this] e(2) \<open>e \<in> set (nd_edges (gm_node s n))\<close> show ?thesis by blast
qed

lemma visit_all_flat:
  assumes "flat s g" "stands_for q vs" "distinct visited" "set vs \<subseteq> set visited" "set visited \<subseteq> set (nodes_in s g)"
    and "\<forall>n \<in> set visited - set vs. \<forall>m. joined s g n m \<longrightarrow> m \<in> set visited"
    and "\<forall>m \<in> set visited. (joined s g)\<^sup>*\<^sup>* n0 m" "n0 \<in> set visited"
  shows "\<exists>v. visit_all s g (q, visited) = Some (Inr v) \<and> distinct v \<and> set v = {m. (joined s g)\<^sup>*\<^sup>* n0 m}"
  using assms(2-)
proof (induction "(card (set (nodes_in s g)) - card (set visited)) + length vs" arbitrary: q vs visited rule: less_induct)
  case less
  show ?case
  proof (cases vs)
    case Nil
    then have "visit_all s g (q, visited) = Some (Inr visited)"
      using stands_for_length[OF less.prems(1)] by (subst visit_all.simps) simp
    moreover have "m \<in> set visited" if "(joined s g)\<^sup>*\<^sup>* n0 m" for m
      using that by (induction rule: rtranclp_induct) (use less.prems(5,7) Nil in auto)
    ultimately show ?thesis using less.prems(2,6) by auto
  next
    case (Cons n ns)
    obtain q1 where q1: "list_shift q = Some (q1, n)" "stands_for q1 ns"
      using stands_for_shift[OF less.prems(1)[unfolded Cons]] by (elim exE conjE) (rule that; assumption)
    have n: "n \<in> set (nodes_in s g)" "n \<in> set visited" using less.prems(3,4) Cons by auto
    from visit_edges_flat[OF assms(1) n(1) order_refl q1(2) less.prems(2)]
    obtain q' new where v: "visit_edges s g n (nd_edges (gm_node s n)) (q1, visited) = Some (Inr (q', visited @ new))"
      "stands_for q' (ns @ new)" "distinct (visited @ new)" "\<forall>m \<in> set new. joined s g n m"
      "\<forall>e \<in> set (nd_edges (gm_node s n)). \<forall>m. other_end_in_graph s e n g = Some (Inr (Some m)) \<longrightarrow> m \<in> set (visited @ new)"
      by (elim exE conjE) (rule that; assumption)
    have step: "visit_all s g (q, visited) = visit_all s g (q', visited @ new)"
      using stands_for_length[OF less.prems(1)] Cons q1(1) v(1) by (subst visit_all.simps) simp
    have new: "set new \<subseteq> set (nodes_in s g)" using v(4) joined_nodes[OF assms(1)] by blast
    have "\<exists>v. visit_all s g (q', visited @ new) = Some (Inr v) \<and> distinct v \<and> set v = {m. (joined s g)\<^sup>*\<^sup>* n0 m}"
    proof (rule less.hyps[OF _ v(2,3)])
      have "card (set (visited @ new)) = length visited + length new" using v(3) distinct_card by fastforce
      moreover have "card (set visited) = length visited" using less.prems(2) distinct_card by blast
      moreover have "card (set (visited @ new)) \<le> card (set (nodes_in s g))"
        using new less.prems(4) by (intro card_mono) auto
      ultimately show "card (set (nodes_in s g)) - card (set (visited @ new)) + length (ns @ new)
          < card (set (nodes_in s g)) - card (set visited) + length vs" using Cons by simp
      show "set (ns @ new) \<subseteq> set (visited @ new)" using less.prems(3) Cons by auto
      show "set (visited @ new) \<subseteq> set (nodes_in s g)" using new less.prems(4) by auto
      show "\<forall>x \<in> set (visited @ new) - set (ns @ new). \<forall>m. joined s g x m \<longrightarrow> m \<in> set (visited @ new)"
      proof (intro ballI allI impI)
        fix x m assume x: "x \<in> set (visited @ new) - set (ns @ new)" "joined s g x m"
        show "m \<in> set (visited @ new)"
        proof (cases "x = n")
          case True
          then show ?thesis using joined_edge[OF assms(1) x(2)] v(5) by blast
        next
          case False
          then have "x \<in> set visited - set vs" using x(1) unfolding Cons by auto
          from bspec[OF less.prems(5) this] x(2) show ?thesis by simp
        qed
      qed
      have "(joined s g)\<^sup>*\<^sup>* n0 n" using n(2) less.prems(6) by blast
      then show "\<forall>m \<in> set (visited @ new). (joined s g)\<^sup>*\<^sup>* n0 m"
        using less.prems(6) v(4) by (auto intro: rtranclp.rtrancl_into_rtrancl)
    qed (use less.prems(7) in auto)
    then show ?thesis using step by simp
  qed
qed

lemma connected_flat:
  assumes "flat s g"
  shows "update_connected s g =
    Some (Inr (\<forall>n \<in> set (nodes_in s g). \<forall>m \<in> set (nodes_in s g). (joined s g)\<^sup>*\<^sup>* n m))"
proof (cases "nodes_in s g")
  case Nil
  then show ?thesis by (simp add: update_connected_def nodes_in_def)
next
  case (Cons n ns)
  have c: "consistent s" using assms by (simp add: flat_def)
  have "with_children s n = Some [n]" using assms Cons by (intro with_children_leaf) (auto simp: flat_def)
  moreover have "enqueue_all [n] (no_list, []) = (fst (list_push n no_list), [n])" by (simp add: enqueue_all_def set_add_def)
  moreover obtain v where v: "visit_all s g (fst (list_push n no_list), [n]) = Some (Inr v)" "distinct v"
    "set v = {m. (joined s g)\<^sup>*\<^sup>* n m}"
    using visit_all_flat[OF assms stands_for_push[OF no_list_stands_for], of "[n]" n n] Cons by auto
  moreover have sub: "set v \<subseteq> set (n # ns)"
  proof
    fix m assume "m \<in> set v"
    then have "(joined s g)\<^sup>*\<^sup>* n m" using v(3) by simp
    then show "m \<in> set (n # ns)"
      by (induction rule: rtranclp_induct) (use joined_nodes[OF assms] Cons in auto)
  qed
  moreover have "filter (\<lambda>m. nd_owner (gm_node s m) = Some g) v = v"
    using sub consistentD(5)[OF c, of _ g] Cons by (auto simp: filter_id_conv)
  ultimately have "update_connected s g = Some (Inr (length v = length (n # ns)))"
    using Cons by (auto simp: update_connected_def nodes_in_def)
  also have "length v = length (n # ns) \<longleftrightarrow> set v = set (n # ns)"
    using sub v(2) consistentD(3)[OF c, of g] Cons by (metis card_subset_eq distinct_card List.finite_set)
  also have "\<dots> \<longleftrightarrow> (\<forall>m \<in> set (n # ns). (joined s g)\<^sup>*\<^sup>* n m)" using sub v(3) by auto
  also have "\<dots> \<longleftrightarrow> (\<forall>n \<in> set (nodes_in s g). \<forall>m \<in> set (nodes_in s g). (joined s g)\<^sup>*\<^sup>* n m)"
  proof -
    have "symp ((joined s g)\<^sup>*\<^sup>*)" using joined_sym by (intro symp_rtranclp) (auto intro: sympI)
    then show ?thesis unfolding Cons by (metis list.set_intros(1) rtranclp_trans sympD)
  qed
  finally show ?thesis .
qed

end
