(* ===== verification/LayoutForces.thy ===== *)
theory LayoutForces
  imports LayoutNumbers LayoutNest
begin

text \<open>
  The force-directed part of the layout (\<open>docs/.vitepress/cache/deps/cytoscape-cose-bilkent.js\<close>): bounds of nested
  graphs, springs along edges, repulsion between nodes near each other on a grid, gravity towards the
  center of a graph, and the moves they cause (\<open>LEdge\<close>, \<open>LNode\<close>, \<open>LGraph\<close>, \<open>FDLayout\<close>, \<open>CoSENode\<close>).  The world of
  a layout is its graphs with what the forces need of each object.  Numbers are \<open>jsnum\<close>: a force that is
  infinite or \<open>NaN\<close> is carried on like any other.  \<open>Inl\<close> is an exception, and the outer \<open>option\<close> is \<open>None\<close> where the
  nesting of graphs does not end.
\<close>

subsection \<open>The world\<close>

text \<open>\<open>bd_estimated\<close> and \<open>bd_depth\<close> start with \<open>Integer.MIN_VALUE\<close> and \<open>Integer.MAX_VALUE\<close>.\<close>

record body =
  bd_rect :: num_rect
  bd_spring_x :: jsnum
  bd_spring_y :: jsnum
  bd_repulsion_x :: jsnum
  bd_repulsion_y :: jsnum
  bd_gravitation_x :: jsnum
  bd_gravitation_y :: jsnum
  bd_displacement_x :: jsnum
  bd_displacement_y :: jsnum
  bd_start_x :: int
  bd_finish_x :: int
  bd_start_y :: int
  bd_finish_y :: int
  bd_surrounding :: "nat list"
  bd_children :: nat
  bd_estimated :: jsnum
  bd_depth :: int
  bd_padding_left :: "jsnum option"
  bd_label_width :: "jsnum option"
  bd_label_height :: "jsnum option"
  bd_label_pos :: string

record bounds =
  bx_left :: jsnum
  bx_right :: jsnum
  bx_top :: jsnum
  bx_bottom :: jsnum

record graph_box =
  bx_bounds :: bounds
  bx_margin :: jsnum
  bx_estimated :: jsnum

record line =
  ln_ideal :: jsnum
  ln_x :: jsnum
  ln_y :: jsnum
  ln_length :: jsnum
  ln_overlapping :: bool

record world =
  wd_gm :: manager
  wd_body :: "nat \<Rightarrow> body"
  wd_box :: "nat \<Rightarrow> graph_box"
  wd_line :: "nat \<Rightarrow> line"
  wd_grid :: "nat list list list"

record force_options =
  fo_labels :: bool
  fo_uniform_leaves :: bool
  fo_smart_lengths :: bool
  fo_ideal_length :: jsnum
  fo_spring :: jsnum
  fo_repulsion :: jsnum
  fo_gravity :: jsnum
  fo_compound_gravity :: jsnum
  fo_gravity_range :: jsnum
  fo_compound_gravity_range :: jsnum
  fo_repulsion_range :: jsnum
  fo_grid_variant :: bool

definition default_options :: force_options where
  "default_options =
     \<lparr>fo_labels = False, fo_uniform_leaves = False, fo_smart_lengths = True, fo_ideal_length = JNum 50,
      fo_spring = JNum (45 / 100), fo_repulsion = JNum 4500, fo_gravity = JNum (4 / 10), fo_compound_gravity = JNum 1,
      fo_gravity_range = JNum (38 / 10), fo_compound_gravity_range = JNum (15 / 10), fo_repulsion_range = JNum 100,
      fo_grid_variant = True\<rparr>"

definition min_integer :: jsnum where
  "min_integer = JNum (- 2147483648)"

definition max_integer :: jsnum where
  "max_integer = JNum 2147483647"

definition new_body :: "num_rect \<Rightarrow> body" where
  "new_body r =
     \<lparr>bd_rect = r, bd_spring_x = 0, bd_spring_y = 0, bd_repulsion_x = 0, bd_repulsion_y = 0, bd_gravitation_x = 0,
      bd_gravitation_y = 0, bd_displacement_x = 0, bd_displacement_y = 0, bd_start_x = 0, bd_finish_x = 0,
      bd_start_y = 0, bd_finish_y = 0, bd_surrounding = [], bd_children = 1, bd_estimated = min_integer,
      bd_depth = 2147483647, bd_padding_left = None, bd_label_width = None, bd_label_height = None, bd_label_pos = []\<rparr>"

definition upd_body :: "nat \<Rightarrow> (body \<Rightarrow> body) \<Rightarrow> world \<Rightarrow> world" where
  "upd_body n f w = w\<lparr>wd_body := (wd_body w)(n := f (wd_body w n))\<rparr>"

definition upd_box :: "nat \<Rightarrow> (graph_box \<Rightarrow> graph_box) \<Rightarrow> world \<Rightarrow> world" where
  "upd_box g f w = w\<lparr>wd_box := (wd_box w)(g := f (wd_box w g))\<rparr>"

definition upd_line :: "nat \<Rightarrow> (line \<Rightarrow> line) \<Rightarrow> world \<Rightarrow> world" where
  "upd_line e f w = w\<lparr>wd_line := (wd_line w)(e := f (wd_line w e))\<rparr>"

definition rect_of :: "world \<Rightarrow> nat \<Rightarrow> num_rect" where
  "rect_of w n = bd_rect (wd_body w n)"

definition owner_of :: "world \<Rightarrow> nat \<Rightarrow> nat option" where
  "owner_of w n = nd_owner (gm_node (wd_gm w) n)"

definition child_of :: "world \<Rightarrow> nat \<Rightarrow> nat option" where
  "child_of w n = nd_child (gm_node (wd_gm w) n)"

definition graph_nodes :: "world \<Rightarrow> nat \<Rightarrow> nat list" where
  "graph_nodes w g = gr_nodes (gm_graph (wd_gm w) g)"

subsection \<open>Bounds\<close>

definition no_bounds :: bounds where
  "no_bounds = \<lparr>bx_left = max_integer, bx_right = - max_integer, bx_top = max_integer, bx_bottom = - max_integer\<rparr>"

definition extend_bounds :: "num_rect \<Rightarrow> bounds \<Rightarrow> bounds" where
  "extend_bounds r b =
     \<lparr>bx_left = (if bx_left b > nr_x r then nr_x r else bx_left b),
      bx_right = (if bx_right b < nr_right r then nr_right r else bx_right b),
      bx_top = (if bx_top b > nr_y r then nr_y r else bx_top b),
      bx_bottom = (if bx_bottom b < nr_bottom r then nr_bottom r else bx_bottom b)\<rparr>"

text \<open>The margin: the left padding of the node around the graph, if there is one.\<close>

definition graph_margin :: "world \<Rightarrow> nat \<Rightarrow> layout_error + jsnum" where
  "graph_margin w g =
     (case graph_nodes w g of
        [] \<Rightarrow> Inl NullRead
      | n # _ \<Rightarrow>
         (case Option.bind (owner_of w n) (\<lambda>h. gr_parent (gm_graph (wd_gm w) h)) of
            None \<Rightarrow> Inl NullRead
          | Some p \<Rightarrow> Inr (case bd_padding_left (wd_body w p) of None \<Rightarrow> bx_margin (wd_box w g) | Some v \<Rightarrow> v)))"

text \<open>
  The end of \<open>LGraph.updateBounds\<close>, once the bounds of the nodes are known.  With no node to the left of
  \<open>Integer.MAX_VALUE\<close> the parent is read; what is written then is overwritten.
\<close>

definition set_bounds :: "nat \<Rightarrow> bounds \<Rightarrow> world \<Rightarrow> layout_error + world" where
  "set_bounds g b w =
     (let r = \<lparr>nr_x = bx_left b, nr_y = bx_top b, nr_width = bx_right b - bx_left b, nr_height = bx_bottom b - bx_top b\<rparr>
      in if js_eq (bx_left b) max_integer \<and> gr_parent (gm_graph (wd_gm w) g) = None then Inl NullRead
         else
           map_sum id
             (\<lambda>margin. upd_box g (\<lambda>x. x\<lparr>bx_bounds :=
                \<lparr>bx_left = nr_x r - margin, bx_right = nr_x r + nr_width r + margin,
                 bx_top = nr_y r - margin, bx_bottom = nr_y r + nr_height r + margin\<rparr>\<rparr>) w)
             (graph_margin w g))"

text \<open>\<open>LNode.updateBounds\<close>, once its graph has bounds: the node gets them, and room for its label.\<close>

definition fit_label :: "jsnum \<Rightarrow> jsnum \<Rightarrow> body \<Rightarrow> body" where
  "fit_label width height x =
     (let x =
        (case bd_label_width x of
           None \<Rightarrow> x
         | Some lw \<Rightarrow>
             if lw > width
             then x\<lparr>bd_rect := (bd_rect x)\<lparr>nr_x := nr_x (bd_rect x) - (lw - width) / 2, nr_width := lw\<rparr>\<rparr> else x)
      in (case bd_label_height x of
            None \<Rightarrow> x
          | Some lh \<Rightarrow>
              if lh > height
              then x\<lparr>bd_rect := (bd_rect x)\<lparr>nr_y :=
                  (if bd_label_pos x = ''center'' then nr_y (bd_rect x) - (lh - height) / 2
                   else if bd_label_pos x = ''top'' then nr_y (bd_rect x) - (lh - height) else nr_y (bd_rect x)),
                  nr_height := lh\<rparr>\<rparr>
              else x))"

definition fit_node :: "force_options \<Rightarrow> nat \<Rightarrow> nat \<Rightarrow> world \<Rightarrow> world" where
  "fit_node opts n g w =
     (let b = bx_bounds (wd_box w g); width = bx_right b - bx_left b; height = bx_bottom b - bx_top b;
          w = upd_body n (\<lambda>x. x\<lparr>bd_rect := \<lparr>nr_x = bx_left b, nr_y = bx_top b, nr_width = width, nr_height = height\<rparr>\<rparr>) w
      in if fo_labels opts then upd_body n (fit_label width height) w else w)"

partial_function (option) bounds_from ::
  "force_options \<Rightarrow> nat list \<Rightarrow> bounds \<Rightarrow> world \<Rightarrow> (layout_error + world \<times> bounds) option" where
  "bounds_from opts ns b w =
     (case ns of
        [] \<Rightarrow> Some (Inr (w, b))
      | n # rest \<Rightarrow>
          Option.bind
            (case child_of w n of
               None \<Rightarrow> Some (Inr w)
             | Some g \<Rightarrow>
                 if graph_nodes w g = [] then Some (Inr w)
                 else
                   Option.bind (bounds_from opts (graph_nodes w g) no_bounds w) (\<lambda>r.
                     case r of
                       Inl er \<Rightarrow> Some (Inl er)
                     | Inr wb \<Rightarrow> Some (map_sum id (fit_node opts n g) (set_bounds g (snd wb) (fst wb)))))
            (\<lambda>r. case r of
                   Inl er \<Rightarrow> Some (Inl er)
                 | Inr w' \<Rightarrow> bounds_from opts rest (extend_bounds (rect_of w' n) b) w'))"

definition graph_update_bounds :: "force_options \<Rightarrow> nat \<Rightarrow> world \<Rightarrow> (layout_error + world) option" where
  "graph_update_bounds opts g w =
     map_option (\<lambda>r. case r of Inl er \<Rightarrow> Inl er | Inr wb \<Rightarrow> set_bounds g (snd wb) (fst wb))
       (bounds_from opts (graph_nodes w g) no_bounds w)"

definition update_bounds :: "force_options \<Rightarrow> world \<Rightarrow> (layout_error + world) option" where
  "update_bounds opts w =
     (case gm_root (wd_gm w) of
        None \<Rightarrow> Some (Inl NullRead)
      | Some g \<Rightarrow> graph_update_bounds opts g w)"

text \<open>\<open>LGraph.updateLeftTop\<close>; \<open>None\<close> is \<open>null\<close>.\<close>

definition update_left_top :: "nat \<Rightarrow> world \<Rightarrow> layout_error + world \<times> (jsnum \<times> jsnum) option" where
  "update_left_top g w =
     (let b = foldl (\<lambda>b n. extend_bounds (rect_of w n) b) no_bounds (graph_nodes w g)
      in if js_eq (bx_top b) max_integer then Inr (w, None)
         else
           map_sum id
             (\<lambda>margin.
                (upd_box g (\<lambda>x. x\<lparr>bx_bounds := (bx_bounds x)\<lparr>bx_left := bx_left b - margin, bx_top := bx_top b - margin\<rparr>\<rparr>) w,
                 Some (bx_left b - margin, bx_top b - margin)))
             (graph_margin w g))"

text \<open>\<open>LGraph.calculateBounds\<close>\<close>

definition calculate_bounds :: "world \<Rightarrow> nat list \<Rightarrow> num_rect" where
  "calculate_bounds w ns =
     (let b = foldl (\<lambda>b n. extend_bounds (rect_of w n) b) no_bounds ns
      in \<lparr>nr_x = bx_left b, nr_y = bx_top b, nr_width = bx_right b - bx_left b, nr_height = bx_bottom b - bx_top b\<rparr>)"

text \<open>\<open>LNode.calcEstimatedSize\<close> of each node, and their sum.\<close>

partial_function (option) estimated_sizes :: "nat list \<Rightarrow> jsnum \<Rightarrow> world \<Rightarrow> (world \<times> jsnum) option" where
  "estimated_sizes ns acc w =
     (case ns of
        [] \<Rightarrow> Some (w, acc)
      | n # rest \<Rightarrow>
          Option.bind
            (case child_of w n of
               None \<Rightarrow>
                 (let v = (nr_width (rect_of w n) + nr_height (rect_of w n)) / 2
                  in Some (upd_body n (\<lambda>x. x\<lparr>bd_estimated := v\<rparr>) w, v))
             | Some g \<Rightarrow>
                 Option.bind (estimated_sizes (graph_nodes w g) 0 w) (\<lambda>ws.
                   let v = (if js_eq (snd ws) 0 then 40 else snd ws / js_sqrt (JNum (real (length (graph_nodes (fst ws) g)))))
                   in Some (upd_body n (\<lambda>x. x\<lparr>bd_estimated := v,
                              bd_rect := (bd_rect x)\<lparr>nr_width := v, nr_height := v\<rparr>\<rparr>)
                            (upd_box g (\<lambda>x. x\<lparr>bx_estimated := v\<rparr>) (fst ws)), v)))
            (\<lambda>wv. estimated_sizes rest (acc + snd wv) (fst wv)))"

definition calc_estimated_size :: "nat \<Rightarrow> world \<Rightarrow> (world \<times> jsnum) option" where
  "calc_estimated_size g w =
     map_option
       (\<lambda>ws. let v = (if js_eq (snd ws) 0 then 40 else snd ws / js_sqrt (JNum (real (length (graph_nodes (fst ws) g)))))
             in (upd_box g (\<lambda>x. x\<lparr>bx_estimated := v\<rparr>) (fst ws), v))
       (estimated_sizes (graph_nodes w g) 0 w)"

subsection \<open>Springs\<close>

definition edge_ends :: "world \<Rightarrow> nat \<Rightarrow> layout_error + nat \<times> nat" where
  "edge_ends w e =
     (case (ed_source (gm_edge (wd_gm w) e), ed_target (gm_edge (wd_gm w) e)) of
        (Some a, Some b) \<Rightarrow> Inr (a, b)
      | _ \<Rightarrow> Inl NullRead)"

definition at_least_1 :: "jsnum \<Rightarrow> jsnum" where
  "at_least_1 v = (if \<bar>v\<bar> < 1 then sign_of v else v)"

definition set_length :: "nat \<Rightarrow> jsnum \<Rightarrow> jsnum \<Rightarrow> world \<Rightarrow> world" where
  "set_length e dx dy w =
     (let lx = at_least_1 dx; ly = at_least_1 dy
      in upd_line e (\<lambda>l. l\<lparr>ln_x := lx, ln_y := ly, ln_length := js_sqrt (lx * lx + ly * ly)\<rparr>) w)"

text \<open>A point that was not written: its coordinates are \<open>undefined\<close>, which computes as \<open>NaN\<close>.\<close>

definition point_or_nan :: "(jsnum \<times> jsnum) option \<Rightarrow> jsnum \<times> jsnum" where
  "point_or_nan p = (case p of Some p \<Rightarrow> p | None \<Rightarrow> (JNaN, JNaN))"

definition update_length :: "nat \<Rightarrow> nat \<Rightarrow> nat \<Rightarrow> world \<Rightarrow> world" where
  "update_length e a b w =
     (let (overlapping, p, q) = clip_points (rect_of w b) (rect_of w a); p = point_or_nan p; q = point_or_nan q;
          w = upd_line e (\<lambda>l. l\<lparr>ln_overlapping := overlapping\<rparr>) w
      in if overlapping then w else set_length e (fst p - fst q) (snd p - snd q) w)"

definition update_length_simple :: "nat \<Rightarrow> nat \<Rightarrow> nat \<Rightarrow> world \<Rightarrow> world" where
  "update_length_simple e a b w =
     set_length e (nr_center_x (rect_of w b) - nr_center_x (rect_of w a))
       (nr_center_y (rect_of w b) - nr_center_y (rect_of w a)) w"

definition add_spring :: "nat \<Rightarrow> jsnum \<Rightarrow> jsnum \<Rightarrow> world \<Rightarrow> world" where
  "add_spring n fx fy = upd_body n (\<lambda>x. x\<lparr>bd_spring_x := bd_spring_x x + fx, bd_spring_y := bd_spring_y x + fy\<rparr>)"

text \<open>The force once the length is known.\<close>

definition pull_together :: "force_options \<Rightarrow> nat \<Rightarrow> nat \<Rightarrow> nat \<Rightarrow> world \<Rightarrow> world" where
  "pull_together opts e a b w =
     (let l = wd_line w e
      in if js_eq (ln_length l) 0 then w
         else
          (let force = fo_spring opts * (ln_length l - ln_ideal l);
               fx = force * (ln_x l / ln_length l); fy = force * (ln_y l / ln_length l)
           in add_spring b (- fx) (- fy) (add_spring a fx fy w)))"

definition calc_spring_force :: "force_options \<Rightarrow> nat \<Rightarrow> world \<Rightarrow> layout_error + world" where
  "calc_spring_force opts e w =
     (case edge_ends w e of
        Inl er \<Rightarrow> Inl er
      | Inr (a, b) \<Rightarrow>
          if fo_uniform_leaves opts \<and> child_of w a = None \<and> child_of w b = None
          then Inr (pull_together opts e a b (update_length_simple e a b w))
          else
            (let w = update_length e a b w
             in Inr (if ln_overlapping (wd_line w e) then w else pull_together opts e a b w)))"

definition calc_spring_forces :: "force_options \<Rightarrow> world \<Rightarrow> layout_error + world" where
  "calc_spring_forces opts w =
     (let (gm, es) = get_all_edges (wd_gm w) in each (calc_spring_force opts) es (w\<lparr>wd_gm := gm\<rparr>))"

subsection \<open>Repulsion\<close>

definition add_repulsion :: "nat \<Rightarrow> jsnum \<Rightarrow> jsnum \<Rightarrow> world \<Rightarrow> world" where
  "add_repulsion n fx fy =
     upd_body n (\<lambda>x. x\<lparr>bd_repulsion_x := bd_repulsion_x x + fx, bd_repulsion_y := bd_repulsion_y x + fy\<rparr>)"

definition at_least_min :: "jsnum \<Rightarrow> jsnum" where
  "at_least_min v = (if \<bar>v\<bar> < 5 then sign_of v * 5 else v)"

text \<open>How far two rectangles are apart: their centers, or the clipping points between them.\<close>

definition gap_between :: "force_options \<Rightarrow> nat \<Rightarrow> nat \<Rightarrow> world \<Rightarrow> jsnum \<times> jsnum" where
  "gap_between opts a b w =
     (if fo_uniform_leaves opts \<and> child_of w a = None \<and> child_of w b = None
      then (nr_center_x (rect_of w b) - nr_center_x (rect_of w a), nr_center_y (rect_of w b) - nr_center_y (rect_of w a))
      else
       (let (overlapping, p, q) = clip_points (rect_of w a) (rect_of w b); p = point_or_nan p; q = point_or_nan q
        in (fst q - fst p, snd q - snd p)))"

definition calc_repulsion_force :: "force_options \<Rightarrow> nat \<Rightarrow> nat \<Rightarrow> world \<Rightarrow> layout_error + world" where
  "calc_repulsion_force opts a b w =
     (let na = JNum (real (bd_children (wd_body w a))); nb = JNum (real (bd_children (wd_body w b)))
      in if nr_intersects (rect_of w a) (rect_of w b) then
          (case separation_amount (rect_of w a) (rect_of w b) (JNum (50 / 2)) of
             None \<Rightarrow> Inl (Thrown ''assert failed'')
           | Some (ox, oy) \<Rightarrow>
              (let fx = na * nb / (na + nb) * (2 * ox); fy = na * nb / (na + nb) * (2 * oy)
               in Inr (add_repulsion b fx fy (add_repulsion a (- fx) (- fy) w))))
         else
          (let (dx, dy) = gap_between opts a b w; dx = at_least_min dx; dy = at_least_min dy;
               squared = dx * dx + dy * dy; distance = js_sqrt squared; force = fo_repulsion opts * na * nb / squared;
               fx = force * dx / distance; fy = force * dy / distance
           in Inr (add_repulsion b fx fy (add_repulsion a (- fx) (- fy) w))))"

subsection \<open>The grid\<close>

text \<open>\<open>new Array(n)\<close>: whether \<open>n\<close> is a length an array can have.\<close>

definition array_length :: "int option \<Rightarrow> nat option" where
  "array_length n = (case n of None \<Rightarrow> None | Some k \<Rightarrow> if 0 \<le> k \<and> k < 2 ^ 32 then Some (nat k) else None)"

definition calc_grid :: "force_options \<Rightarrow> nat \<Rightarrow> world \<Rightarrow> layout_error + nat list list list" where
  "calc_grid opts g w =
     (let b = bx_bounds (wd_box w g); range = fo_repulsion_range opts
      in case array_length (parse_rounded ceiling ((bx_right b - bx_left b) / range)) of
           None \<Rightarrow> Inl (Thrown ''Invalid array length'')
         | Some columns \<Rightarrow>
             if columns = 0 then Inr []
             else
              (case array_length (parse_rounded ceiling ((bx_bottom b - bx_top b) / range)) of
                 None \<Rightarrow> Inl (Thrown ''Invalid array length'')
               | Some rows \<Rightarrow> Inr (replicate columns (replicate rows []))))"

definition push_to_cell :: "nat \<Rightarrow> int \<times> int \<Rightarrow> nat list list list \<Rightarrow> layout_error + nat list list list" where
  "push_to_cell v ij grid =
     (let i = fst ij; j = snd ij
      in if i < 0 \<or> j < 0 \<or> nat i \<ge> length grid \<or> nat j \<ge> length (grid ! nat i) then Inl NullRead
         else Inr (grid[nat i := (grid ! nat i)[nat j := (grid ! nat i) ! nat j @ [v]]]))"

definition cells :: "int \<Rightarrow> int \<Rightarrow> int \<Rightarrow> int \<Rightarrow> (int \<times> int) list" where
  "cells i i' j j' = List.product [i..i'] [j..j']"

text \<open>Where a border is \<open>NaN\<close> no comparison holds, and the loops do nothing.\<close>

definition add_node_to_grid :: "force_options \<Rightarrow> jsnum \<Rightarrow> jsnum \<Rightarrow> nat \<Rightarrow> world \<Rightarrow> layout_error + world" where
  "add_node_to_grid opts left_x top_y v w =
     (let r = rect_of w v; range = fo_repulsion_range opts
      in case (parse_rounded floor ((nr_x r - left_x) / range), parse_rounded floor ((nr_width r + nr_x r - left_x) / range),
               parse_rounded floor ((nr_y r - top_y) / range), parse_rounded floor ((nr_height r + nr_y r - top_y) / range)) of
           (Some start_x, Some finish_x, Some start_y, Some finish_y) \<Rightarrow>
             map_sum id
               (\<lambda>grid.
                  let w = w\<lparr>wd_grid := grid\<rparr>
                  in if start_x \<le> finish_x \<and> start_y \<le> finish_y
                     then upd_body v (\<lambda>x. x\<lparr>bd_start_x := start_x, bd_finish_x := finish_x, bd_start_y := start_y,
                            bd_finish_y := finish_y\<rparr>) w
                     else w)
               (each (push_to_cell v) (cells start_x finish_x start_y finish_y) (wd_grid w))
         | _ \<Rightarrow> Inr w)"

definition update_grid :: "force_options \<Rightarrow> world \<Rightarrow> layout_error + world" where
  "update_grid opts w =
     (let (gm, ns) = get_all_nodes (wd_gm w); w = w\<lparr>wd_gm := gm\<rparr>
      in case gm_root gm of
           None \<Rightarrow> Inl NullRead
         | Some g \<Rightarrow>
            (case calc_grid opts g w of
               Inl er \<Rightarrow> Inl er
             | Inr grid \<Rightarrow>
                 each (add_node_to_grid opts (bx_left (bx_bounds (wd_box w g))) (bx_top (bx_bounds (wd_box w g)))) ns
                   (w\<lparr>wd_grid := grid\<rparr>)))"

text \<open>Whether a node of a cell enters the surrounding of another.\<close>

definition near :: "force_options \<Rightarrow> world \<Rightarrow> nat \<Rightarrow> nat \<Rightarrow> bool" where
  "near opts w a b =
     (let dx = \<bar>nr_center_x (rect_of w a) - nr_center_x (rect_of w b)\<bar> -
            (nr_width (rect_of w a) / 2 + nr_width (rect_of w b) / 2);
          dy = \<bar>nr_center_y (rect_of w a) - nr_center_y (rect_of w b)\<bar> -
            (nr_height (rect_of w a) / 2 + nr_height (rect_of w b) / 2)
      in dx \<le> fo_repulsion_range opts \<and> dy \<le> fo_repulsion_range opts)"

definition add_surrounding :: "force_options \<Rightarrow> world \<Rightarrow> nat \<Rightarrow> nat list \<Rightarrow> nat list \<Rightarrow> nat \<Rightarrow> nat list" where
  "add_surrounding opts w a processed surrounding b =
     (if owner_of w a \<noteq> owner_of w b \<or> a = b then surrounding
      else if b \<notin> set processed \<and> b \<notin> set surrounding \<and> near opts w a b then surrounding @ [b]
      else surrounding)"

text \<open>The check of an index is against the first column; all columns of a grid have the same length.\<close>

definition cell_at :: "nat list list list \<Rightarrow> int \<times> int \<Rightarrow> nat list" where
  "cell_at grid ij =
     (let i = fst ij; j = snd ij
      in if i < 0 \<or> j < 0 \<or> i \<ge> int (length grid) \<or> j \<ge> int (length (grid ! 0)) then []
         else if nat j < length (grid ! nat i) then grid ! nat i ! nat j else [])"

definition find_surrounding :: "force_options \<Rightarrow> world \<Rightarrow> nat \<Rightarrow> nat list \<Rightarrow> nat list" where
  "find_surrounding opts w a processed =
     (let x = wd_body w a
      in foldl (add_surrounding opts w a processed) []
           (concat (map (cell_at (wd_grid w))
             (cells (bd_start_x x - 1) (bd_finish_x x + 1) (bd_start_y x - 1) (bd_finish_y x + 1)))))"

definition repulsion_of_node ::
  "force_options \<Rightarrow> nat \<Rightarrow> bool \<Rightarrow> bool \<Rightarrow> nat \<Rightarrow> nat list \<Rightarrow> world \<Rightarrow> layout_error + world" where
  "repulsion_of_node opts iterations grid_allowed forced a processed w =
     (let w =
        (if iterations mod 10 = 1 \<and> grid_allowed \<or> forced
         then upd_body a (\<lambda>x. x\<lparr>bd_surrounding := find_surrounding opts w a processed\<rparr>) w else w)
      in each (calc_repulsion_force opts a) (bd_surrounding (wd_body w a)) w)"

fun repulsion_on_grid ::
  "force_options \<Rightarrow> nat \<Rightarrow> bool \<Rightarrow> bool \<Rightarrow> nat list \<Rightarrow> nat list \<Rightarrow> world \<Rightarrow> layout_error + world" where
  "repulsion_on_grid opts iterations grid_allowed forced [] processed w = Inr w"
| "repulsion_on_grid opts iterations grid_allowed forced (a # ns) processed w =
     (case repulsion_of_node opts iterations grid_allowed forced a processed w of
        Inl er \<Rightarrow> Inl er
      | Inr w' \<Rightarrow> repulsion_on_grid opts iterations grid_allowed forced ns (processed @ [a]) w')"

definition repulsion_in_graph :: "force_options \<Rightarrow> nat \<Rightarrow> nat \<Rightarrow> world \<Rightarrow> layout_error + world" where
  "repulsion_in_graph opts a b w = (if owner_of w a \<noteq> owner_of w b then Inr w else calc_repulsion_force opts a b w)"

fun repulsion_of_pairs :: "force_options \<Rightarrow> nat list \<Rightarrow> world \<Rightarrow> layout_error + world" where
  "repulsion_of_pairs opts [] w = Inr w"
| "repulsion_of_pairs opts (a # ns) w =
     (case each (repulsion_in_graph opts a) ns w of Inl er \<Rightarrow> Inl er | Inr w' \<Rightarrow> repulsion_of_pairs opts ns w')"

definition calc_repulsion_forces :: "force_options \<Rightarrow> nat \<Rightarrow> bool \<Rightarrow> bool \<Rightarrow> world \<Rightarrow> layout_error + world" where
  "calc_repulsion_forces opts iterations grid_allowed forced w =
     (let (gm, ns) = get_all_nodes (wd_gm w); w = w\<lparr>wd_gm := gm\<rparr>
      in if fo_grid_variant opts then
           (case (if iterations mod 10 = 1 \<and> grid_allowed then update_grid opts w else Inr w) of
              Inl er \<Rightarrow> Inl er
            | Inr w' \<Rightarrow> repulsion_on_grid opts iterations grid_allowed forced ns [] w')
         else repulsion_of_pairs opts ns w)"

subsection \<open>Gravity\<close>

definition calc_gravitational_force :: "force_options \<Rightarrow> nat \<Rightarrow> world \<Rightarrow> layout_error + world" where
  "calc_gravitational_force opts n w =
     (case owner_of w n of
        None \<Rightarrow> Inl NullRead
      | Some g \<Rightarrow>
         (let b = bx_bounds (wd_box w g); r = rect_of w n;
              dx = nr_center_x r - (bx_right b + bx_left b) / 2; dy = nr_center_y r - (bx_top b + bx_bottom b) / 2;
              abs_dx = \<bar>dx\<bar> + nr_width r / 2; abs_dy = \<bar>dy\<bar> + nr_height r / 2; estimated = bx_estimated (wd_box w g)
          in if js_eq estimated min_integer then Inl (Thrown ''assert failed'')
             else if Some g = gm_root (wd_gm w) then
              (let size = estimated * fo_gravity_range opts
               in Inr (if abs_dx > size \<or> abs_dy > size
                       then upd_body n (\<lambda>x. x\<lparr>bd_gravitation_x := (- fo_gravity opts) * dx,
                              bd_gravitation_y := (- fo_gravity opts) * dy\<rparr>) w
                       else w))
             else
              (let size = estimated * fo_compound_gravity_range opts
               in Inr (if abs_dx > size \<or> abs_dy > size
                       then upd_body n (\<lambda>x. x\<lparr>bd_gravitation_x := (- fo_gravity opts) * dx * fo_compound_gravity opts,
                              bd_gravitation_y := (- fo_gravity opts) * dy * fo_compound_gravity opts\<rparr>) w
                       else w))))"

definition calc_gravitational_forces :: "force_options \<Rightarrow> world \<Rightarrow> layout_error + world" where
  "calc_gravitational_forces opts w =
     (case gm_gravitated (wd_gm w) of
        None \<Rightarrow> Inl NullRead
      | Some ns \<Rightarrow> each (calc_gravitational_force opts) ns w)"

subsection \<open>Moves\<close>

partial_function (option) propagate_displacement :: "jsnum \<Rightarrow> jsnum \<Rightarrow> nat list \<Rightarrow> world \<Rightarrow> world option" where
  "propagate_displacement dx dy stack w =
     (case stack of
        [] \<Rightarrow> Some w
      | n # rest \<Rightarrow>
         (case child_of w n of
            None \<Rightarrow>
              propagate_displacement dx dy rest
                (upd_body n (\<lambda>x. x\<lparr>bd_rect := nr_move_by dx dy (bd_rect x), bd_displacement_x := bd_displacement_x x + dx,
                   bd_displacement_y := bd_displacement_y x + dy\<rparr>) w)
          | Some g \<Rightarrow> propagate_displacement dx dy (graph_nodes w g @ rest) w))"

definition limited :: "jsnum \<Rightarrow> jsnum \<Rightarrow> jsnum" where
  "limited bound v = (if \<bar>v\<bar> > bound then bound * sign_of v else v)"

definition rest_node :: "body \<Rightarrow> body" where
  "rest_node x =
     x\<lparr>bd_spring_x := 0, bd_spring_y := 0, bd_repulsion_x := 0, bd_repulsion_y := 0, bd_gravitation_x := 0,
       bd_gravitation_y := 0, bd_displacement_x := 0, bd_displacement_y := 0\<rparr>"

definition displacement_of :: "jsnum \<Rightarrow> jsnum \<Rightarrow> body \<Rightarrow> jsnum \<times> jsnum" where
  "displacement_of cooling max_displacement x =
     (limited (cooling * max_displacement)
        (cooling * (bd_spring_x x + bd_repulsion_x x + bd_gravitation_x x) / JNum (real (bd_children x))),
      limited (cooling * max_displacement)
        (cooling * (bd_spring_y x + bd_repulsion_y x + bd_gravitation_y x) / JNum (real (bd_children x))))"

text \<open>\<open>CoSENode.move\<close>, with the displacement it adds to that of the layout.\<close>

definition move_node :: "jsnum \<Rightarrow> jsnum \<Rightarrow> nat \<Rightarrow> world \<Rightarrow> (world \<times> jsnum) option" where
  "move_node cooling max_displacement n w =
     (let (dx, dy) = displacement_of cooling max_displacement (wd_body w n);
          leaf = (case child_of w n of None \<Rightarrow> True | Some g \<Rightarrow> graph_nodes w g = []);
          moved =
            (if leaf then Some (upd_body n (\<lambda>x. x\<lparr>bd_rect := nr_move_by dx dy (bd_rect x)\<rparr>) w)
             else propagate_displacement dx dy (graph_nodes w (the (child_of w n))) w)
      in map_option (\<lambda>w. (upd_body n rest_node w, \<bar>dx\<bar> + \<bar>dy\<bar>)) moved)"

fun move_each :: "jsnum \<Rightarrow> jsnum \<Rightarrow> nat list \<Rightarrow> jsnum \<Rightarrow> world \<Rightarrow> (world \<times> jsnum) option" where
  "move_each cooling max_displacement [] moved w = Some (w, moved)"
| "move_each cooling max_displacement (n # ns) moved w =
     Option.bind (move_node cooling max_displacement n w)
       (\<lambda>wd. move_each cooling max_displacement ns (moved + snd wd) (fst wd))"

definition move_nodes :: "jsnum \<Rightarrow> jsnum \<Rightarrow> world \<Rightarrow> (world \<times> jsnum) option" where
  "move_nodes cooling max_displacement w =
     (let (gm, ns) = get_all_nodes (wd_gm w) in move_each cooling max_displacement ns 0 (w\<lparr>wd_gm := gm\<rparr>))"

subsection \<open>Forces come in pairs\<close>

named_theorems body_simps

lemmas [body_simps] = upd_body_def upd_line_def upd_box_def rect_of_def child_of_def owner_of_def graph_nodes_def

lemma map_sum_Inr: "map_sum id f x = Inr y \<longleftrightarrow> (\<exists>z. x = Inr z \<and> y = f z)"
  by (cases x) auto

lemma each_keeps:
  assumes "each f xs s = Inr s'" "P s" "\<And>x s s'. x \<in> set xs \<Longrightarrow> P s \<Longrightarrow> f x s = Inr s' \<Longrightarrow> P s'"
  shows "P s'"
  using assms
proof (induction xs arbitrary: s)
  case (Cons x xs)
  from Cons.prems(1) obtain s1 where "f x s = Inr s1" "each f xs s1 = Inr s'" by (auto split: sum.splits)
  then show ?case using Cons.prems(2,3) by (intro Cons.IH[of s1]) auto
qed simp

definition num_value :: "jsnum \<Rightarrow> real" where
  "num_value v = (case v of JNum x \<Rightarrow> x | _ \<Rightarrow> 0)"

text \<open>
  One number of each node.  If it is finite for all of them in the end, it was so before, and their sum did not
  change: this is what \<open>sum_kept\<close> says of two worlds.
\<close>

definition sum_kept :: "(body \<Rightarrow> jsnum) \<Rightarrow> nat set \<Rightarrow> world \<Rightarrow> world \<Rightarrow> bool" where
  "sum_kept f N w w' \<longleftrightarrow>
     ((\<forall>n \<in> N. is_finite (f (wd_body w' n))) \<longrightarrow>
        (\<forall>n \<in> N. is_finite (f (wd_body w n))) \<and>
        (\<Sum>n \<in> N. num_value (f (wd_body w' n))) = (\<Sum>n \<in> N. num_value (f (wd_body w n))))"

lemma sum_kept_refl [simp]: "sum_kept f N w w"
  by (simp add: sum_kept_def)

lemma sum_kept_trans: "sum_kept f N u v \<Longrightarrow> sum_kept f N v w \<Longrightarrow> sum_kept f N u w"
  by (auto simp: sum_kept_def)

lemma sum_kept_same:
  assumes "\<And>n. f (wd_body w' n) = f (wd_body w n)"
  shows "sum_kept f N w w'"
  by (simp add: sum_kept_def assms)

lemma value_add: "is_finite a \<Longrightarrow> is_finite b \<Longrightarrow> num_value (a + b) = num_value a + num_value b"
  by (cases a; cases b) (simp_all add: is_finite_def num_value_def jsnum_finite)

lemma value_neg: "is_finite (- a) = is_finite a" "is_finite a \<Longrightarrow> num_value (- a) = - num_value a"
  by (cases a; simp add: is_finite_def num_value_def uminus_jsnum_def)+

lemma sum_changed:
  fixes g :: "'b \<Rightarrow> real"
  assumes "finite N" "a \<in> N" "\<And>n. n \<noteq> a \<Longrightarrow> h n = g n"
  shows "(\<Sum>n \<in> N. h n) = (\<Sum>n \<in> N. g n) - g a + h a"
proof -
  have "(\<Sum>n \<in> N - {a}. h n) = (\<Sum>n \<in> N - {a}. g n)" by (rule sum.cong) (auto simp: assms(3))
  then show ?thesis using sum.remove[OF assms(1,2), of h] sum.remove[OF assms(1,2), of g] by simp
qed

text \<open>What one node gains another loses.\<close>

lemma pair_kept:
  assumes "finite N" "a \<in> N" "b \<in> N"
    and one: "\<And>n. f (wd_body v n) = (if n = a then f (wd_body w n) + x else f (wd_body w n))"
    and two: "\<And>n. f (wd_body u n) = (if n = b then f (wd_body v n) + y else f (wd_body v n))"
    and opposite: "y = - x \<or> x = - y"
  shows "sum_kept f N w u"
  unfolding sum_kept_def
proof (intro impI)
  assume fin: "\<forall>n \<in> N. is_finite (f (wd_body u n))"
  then have v: "\<forall>n \<in> N. is_finite (f (wd_body v n))" and y: "is_finite y"
    using two assms(3) by (auto simp: add_finite split: if_splits)
  then have w: "\<forall>n \<in> N. is_finite (f (wd_body w n))" and x: "is_finite x"
    using one assms(2) by (auto simp: add_finite split: if_splits)
  have zero: "num_value x + num_value y = 0" using opposite x y value_neg by auto
  have first: "(\<Sum>n \<in> N. num_value (f (wd_body v n))) = (\<Sum>n \<in> N. num_value (f (wd_body w n))) + num_value x"
    by (subst sum_changed[OF assms(1,2), where g = "\<lambda>n. num_value (f (wd_body w n))"])
      (use w x assms(2) in \<open>simp_all add: one value_add\<close>)
  have "(\<Sum>n \<in> N. num_value (f (wd_body u n))) = (\<Sum>n \<in> N. num_value (f (wd_body v n))) + num_value y"
    by (subst sum_changed[OF assms(1,3), where g = "\<lambda>n. num_value (f (wd_body v n))"])
      (use v y assms(3) in \<open>simp_all add: two value_add\<close>)
  then show "(\<forall>n \<in> N. is_finite (f (wd_body w n))) \<and>
      (\<Sum>n \<in> N. num_value (f (wd_body u n))) = (\<Sum>n \<in> N. num_value (f (wd_body w n)))"
    using w first zero by simp
qed

definition springs_kept :: "nat set \<Rightarrow> world \<Rightarrow> world \<Rightarrow> bool" where
  "springs_kept N w w' \<longleftrightarrow> sum_kept bd_spring_x N w w' \<and> sum_kept bd_spring_y N w w'"

definition repulsions_kept :: "nat set \<Rightarrow> world \<Rightarrow> world \<Rightarrow> bool" where
  "repulsions_kept N w w' \<longleftrightarrow> sum_kept bd_repulsion_x N w w' \<and> sum_kept bd_repulsion_y N w w'"

lemma springs_kept_trans: "springs_kept N u v \<Longrightarrow> springs_kept N v w \<Longrightarrow> springs_kept N u w"
  by (auto simp: springs_kept_def intro: sum_kept_trans)

lemma repulsions_kept_trans: "repulsions_kept N u v \<Longrightarrow> repulsions_kept N v w \<Longrightarrow> repulsions_kept N u w"
  by (auto simp: repulsions_kept_def intro: sum_kept_trans)

lemma springs_kept_same: "wd_body w' = wd_body w \<Longrightarrow> springs_kept N w w'"
  by (simp add: springs_kept_def sum_kept_same)

lemma springs_in_pairs:
  assumes "finite N" "a \<in> N" "b \<in> N"
  shows "springs_kept N w (add_spring b (- fx) (- fy) (add_spring a fx fy w))"
proof -
  let ?v = "add_spring a fx fy w"
  note changes = add_spring_def upd_body_def
  have "sum_kept bd_spring_x N w (add_spring b (- fx) (- fy) ?v)"
    by (rule pair_kept[OF assms, where v = ?v and x = "fx" and y = "- fx"]) (simp_all add: changes)
  moreover have "sum_kept bd_spring_y N w (add_spring b (- fx) (- fy) ?v)"
    by (rule pair_kept[OF assms, where v = ?v and x = "fy" and y = "- fy"]) (simp_all add: changes)
  ultimately show ?thesis by (simp add: springs_kept_def)
qed

lemma repulsions_in_pairs:
  assumes "finite N" "a \<in> N" "b \<in> N"
  shows "repulsions_kept N w (add_repulsion b fx fy (add_repulsion a (- fx) (- fy) w))"
proof -
  let ?v = "add_repulsion a (- fx) (- fy) w"
  note changes = add_repulsion_def upd_body_def
  have "sum_kept bd_repulsion_x N w (add_repulsion b fx fy ?v)"
    by (rule pair_kept[OF assms, where v = ?v and x = "- fx" and y = "fx"]) (simp_all add: changes)
  moreover have "sum_kept bd_repulsion_y N w (add_repulsion b fx fy ?v)"
    by (rule pair_kept[OF assms, where v = ?v and x = "- fy" and y = "fy"]) (simp_all add: changes)
  ultimately show ?thesis by (simp add: repulsions_kept_def)
qed

lemma pull_together_kept:
  "finite N \<Longrightarrow> a \<in> N \<Longrightarrow> b \<in> N \<Longrightarrow> springs_kept N w (pull_together opts e a b w)"
  by (auto simp: pull_together_def Let_def springs_in_pairs springs_kept_same)

lemma pull_together_gm: "wd_gm (pull_together opts e a b w) = wd_gm w"
  by (simp add: pull_together_def Let_def add_spring_def upd_body_def)

lemma upd_line_body: "wd_body (upd_line e f w) = wd_body w" "wd_gm (upd_line e f w) = wd_gm w"
  by (simp_all add: upd_line_def)

lemma set_length_body: "wd_body (set_length e dx dy w) = wd_body w" "wd_gm (set_length e dx dy w) = wd_gm w"
  by (simp_all add: set_length_def Let_def upd_line_body)

lemma update_length_body: "wd_body (update_length e a b w) = wd_body w" "wd_gm (update_length e a b w) = wd_gm w"
  by (simp_all add: update_length_def Let_def upd_line_body set_length_body split: prod.split)

lemma calc_spring_force_gm:
  assumes "calc_spring_force opts e w = Inr w'"
  shows "wd_gm w' = wd_gm w"
  using assms
  by (auto simp: calc_spring_force_def Let_def pull_together_gm update_length_simple_def set_length_body update_length_body
      split: sum.splits if_splits)

lemma calc_spring_force_kept:
  assumes "calc_spring_force opts e w = Inr w'" "finite N" "\<And>a b. edge_ends w e = Inr (a, b) \<Longrightarrow> a \<in> N \<and> b \<in> N"
  shows "springs_kept N w w'"
proof -
  obtain a b where ab: "edge_ends w e = Inr (a, b)" using assms(1) by (auto simp: calc_spring_force_def split: sum.splits)
  then have N: "a \<in> N" "b \<in> N" using assms(3) by blast+
  have body: "springs_kept N w v \<Longrightarrow> springs_kept N w (pull_together opts e a b v)" for v
    using pull_together_kept[OF assms(2) N] springs_kept_trans by blast
  have "springs_kept N w (update_length_simple e a b w)" "springs_kept N w (update_length e a b w)"
    by (simp_all add: springs_kept_same update_length_simple_def set_length_body update_length_body)
  then show ?thesis using assms(1) ab body by (auto simp: calc_spring_force_def Let_def split: if_splits)
qed

lemma get_all_edges_gm: "fst (get_all_edges gm) = gm\<lparr>gm_all_edges := Some (snd (get_all_edges gm))\<rparr>"
  by (auto simp: get_all_edges_def Let_def split: option.splits)

theorem springs_balance:
  assumes "calc_spring_forces opts w = Inr w'" "finite N"
    and "\<And>e a b. e \<in> set (snd (get_all_edges (wd_gm w))) \<Longrightarrow> edge_ends w e = Inr (a, b) \<Longrightarrow> a \<in> N \<and> b \<in> N"
  shows "springs_kept N w w'"
proof -
  let ?w = "w\<lparr>wd_gm := fst (get_all_edges (wd_gm w))\<rparr>"
  have ends: "edge_ends ?w e = edge_ends w e" for e by (simp add: edge_ends_def get_all_edges_gm)
  have run: "each (calc_spring_force opts) (snd (get_all_edges (wd_gm w))) ?w = Inr w'"
    using assms(1) by (simp add: calc_spring_forces_def case_prod_unfold Let_def)
  have "springs_kept N w w' \<and> wd_gm w' = wd_gm ?w"
  proof (rule each_keeps[OF run])
    fix e w1 w2
    assume e: "e \<in> set (snd (get_all_edges (wd_gm w)))" "springs_kept N w w1 \<and> wd_gm w1 = wd_gm ?w"
      "calc_spring_force opts e w1 = Inr w2"
    then have "edge_ends w1 e = edge_ends w e" using ends[of e] by (simp add: edge_ends_def)
    then have "springs_kept N w1 w2" using calc_spring_force_kept[OF e(3) assms(2)] assms(3)[OF e(1)] by simp
    then show "springs_kept N w w2 \<and> wd_gm w2 = wd_gm ?w"
      using e(2) springs_kept_trans calc_spring_force_gm[OF e(3)] by auto
  qed (simp add: springs_kept_same)
  then show ?thesis by simp
qed

text \<open>What a repulsion adds to one node it takes from the other.\<close>

lemma repulsion_in_pairs:
  assumes "calc_repulsion_force opts a b w = Inr w'"
  shows "\<exists>fx fy. w' = add_repulsion b fx fy (add_repulsion a (- fx) (- fy) w)"
  using assms by (auto simp: calc_repulsion_force_def Let_def split: option.splits prod.splits if_splits)

text \<open>The nodes a repulsion can reach: those of the grid and of the surroundings.\<close>

definition reaches_only :: "nat set \<Rightarrow> world \<Rightarrow> bool" where
  "reaches_only N w \<longleftrightarrow>
     (\<forall>column \<in> set (wd_grid w). \<forall>cell \<in> set column. set cell \<subseteq> N) \<and> (\<forall>n. set (bd_surrounding (wd_body w n)) \<subseteq> N)"

definition balanced :: "nat set \<Rightarrow> world \<Rightarrow> world \<Rightarrow> bool" where
  "balanced N c w \<longleftrightarrow> reaches_only N w \<and> repulsions_kept N c w"

lemma balanced_step:
  "balanced N c w \<Longrightarrow> reaches_only N w' \<Longrightarrow> repulsions_kept N w w' \<Longrightarrow> balanced N c w'"
  by (auto simp: balanced_def intro: repulsions_kept_trans)

lemma repulsion_balanced:
  assumes "calc_repulsion_force opts a b w = Inr w'" "finite N" "a \<in> N" "b \<in> N" "balanced N c w"
  shows "balanced N c w'"
proof -
  obtain fx fy where w': "w' = add_repulsion b fx fy (add_repulsion a (- fx) (- fy) w)"
    using repulsion_in_pairs[OF assms(1)] by blast
  have "reaches_only N (add_repulsion n gx gy v)" if "reaches_only N v" for n gx gy v
    using that by (simp add: reaches_only_def add_repulsion_def upd_body_def)
  then have "reaches_only N w'" using assms(5) by (simp add: w' balanced_def)
  then show ?thesis using balanced_step[OF assms(5)] repulsions_in_pairs[OF assms(2-4)] by (simp add: w')
qed

lemma add_surrounding_subset: "b \<in> N \<Longrightarrow> set s \<subseteq> N \<Longrightarrow> set (add_surrounding opts w a processed s b) \<subseteq> N"
  by (simp add: add_surrounding_def)

lemma find_surrounding_subset:
  assumes "reaches_only N w"
  shows "set (find_surrounding opts w a processed) \<subseteq> N"
proof -
  have fold: "set (foldl (add_surrounding opts w a processed) s bs) \<subseteq> N" if "set bs \<subseteq> N" "set s \<subseteq> N" for s bs
    using that by (induction bs arbitrary: s) (simp_all add: add_surrounding_subset)
  have "set (cell_at (wd_grid w) ij) \<subseteq> N" for ij
  proof -
    have "set cell \<subseteq> N" if "i < length (wd_grid w)" "j < length (wd_grid w ! i)" "cell = wd_grid w ! i ! j" for cell i j
      using assms nth_mem[OF that(1)] nth_mem[OF that(2)] that(3) unfolding reaches_only_def by blast
    from this[of "nat (fst ij)" "nat (snd ij)"] show ?thesis by (auto simp: cell_at_def Let_def nat_less_iff)
  qed
  then show ?thesis unfolding find_surrounding_def Let_def by (intro fold) auto
qed

lemma push_to_cell_subset:
  assumes "push_to_cell v ij grid = Inr grid'" "v \<in> N" "\<forall>column \<in> set grid. \<forall>cell \<in> set column. set cell \<subseteq> N"
  shows "\<forall>column \<in> set grid'. \<forall>cell \<in> set column. set cell \<subseteq> N"
proof -
  let ?i = "nat (fst ij)" and ?j = "nat (snd ij)"
  have i: "?i < length grid" "?j < length (grid ! ?i)" and g: "grid' = grid[?i := (grid ! ?i)[?j := grid ! ?i ! ?j @ [v]]]"
    using assms(1) by (auto simp: push_to_cell_def Let_def split: if_splits)
  have column: "\<forall>cell \<in> set (grid ! ?i). set cell \<subseteq> N" using assms(3) nth_mem[OF i(1)] by blast
  then have "set (grid ! ?i ! ?j) \<subseteq> N" using nth_mem[OF i(2)] by blast
  then have "\<forall>cell \<in> set ((grid ! ?i)[?j := grid ! ?i ! ?j @ [v]]). set cell \<subseteq> N"
  proof (intro ballI)
    fix cell assume "cell \<in> set ((grid ! ?i)[?j := grid ! ?i ! ?j @ [v]])"
    then have "cell = grid ! ?i ! ?j @ [v] \<or> cell \<in> set (grid ! ?i)" using set_update_subset_insert by fastforce
    then show "set cell \<subseteq> N" using column assms(2) \<open>set (grid ! ?i ! ?j) \<subseteq> N\<close> by auto
  qed
  then show ?thesis unfolding g using assms(3) set_update_subset_insert[of grid ?i] by blast
qed

lemma repulsions_kept_same:
  "(\<And>n. bd_repulsion_x (wd_body w' n) = bd_repulsion_x (wd_body w n) \<and>
     bd_repulsion_y (wd_body w' n) = bd_repulsion_y (wd_body w n)) \<Longrightarrow> repulsions_kept N w w'"
  by (simp add: repulsions_kept_def sum_kept_same)

lemma add_node_to_grid_balanced:
  assumes "add_node_to_grid opts l t v w = Inr w'" "v \<in> N" "balanced N c w"
  shows "balanced N c w'"
proof -
  consider "w' = w" | i i' j j' grid where "each (push_to_cell v) (cells i i' j j') (wd_grid w) = Inr grid"
    "w' = (let w = w\<lparr>wd_grid := grid\<rparr>
       in if i \<le> i' \<and> j \<le> j'
          then upd_body v (\<lambda>x. x\<lparr>bd_start_x := i, bd_finish_x := i', bd_start_y := j, bd_finish_y := j'\<rparr>) w else w)"
    using assms(1) unfolding add_node_to_grid_def Let_def by (fastforce simp: map_sum_Inr split: option.splits)
  then show ?thesis
  proof cases
    case (2 i i' j j' grid)
    have "\<forall>column \<in> set grid. \<forall>cell \<in> set column. set cell \<subseteq> N"
      by (rule each_keeps[OF 2(1)]) (use assms(2,3) push_to_cell_subset in \<open>auto simp: balanced_def reaches_only_def\<close>)
    then have "reaches_only N w'"
      using assms(3) by (auto simp: 2(2) Let_def balanced_def reaches_only_def upd_body_def)
    then show ?thesis
      by (rule balanced_step[OF assms(3)]) (rule repulsions_kept_same, simp add: 2(2) Let_def upd_body_def)
  qed (simp add: assms(3))
qed

lemma get_all_nodes_gm: "fst (get_all_nodes gm) = gm\<lparr>gm_all_nodes := Some (snd (get_all_nodes gm))\<rparr>"
  by (auto simp: get_all_nodes_def Let_def split: option.splits)

lemma get_all_nodes_again: "snd (get_all_nodes (fst (get_all_nodes gm))) = snd (get_all_nodes gm)"
  by (auto simp: get_all_nodes_def Let_def split: option.splits)

lemma update_grid_balanced:
  assumes "update_grid opts w = Inr w'" "set (snd (get_all_nodes (wd_gm w))) \<subseteq> N" "balanced N c w"
  shows "balanced N c w'"
proof -
  obtain l t grid where g: "calc_grid opts (the (gm_root (fst (get_all_nodes (wd_gm w))))) (w\<lparr>wd_gm := fst (get_all_nodes (wd_gm w))\<rparr>) = Inr grid"
    "each (add_node_to_grid opts l t) (snd (get_all_nodes (wd_gm w))) (w\<lparr>wd_gm := fst (get_all_nodes (wd_gm w)), wd_grid := grid\<rparr>) = Inr w'"
    using assms(1) by (auto simp: update_grid_def Let_def case_prod_unfold split: option.splits sum.splits)
  have "balanced N c (w\<lparr>wd_gm := fst (get_all_nodes (wd_gm w)), wd_grid := grid\<rparr>)"
    using assms(3) g(1)
    by (auto simp: balanced_def reaches_only_def calc_grid_def Let_def split: if_splits option.splits
        elim!: repulsions_kept_trans intro: repulsions_kept_same)
  with each_keeps[OF g(2), of "balanced N c"] show ?thesis using assms(2) add_node_to_grid_balanced by blast
qed

lemma repulsion_of_node_balanced:
  assumes "repulsion_of_node opts k allowed forced a processed w = Inr w'" "finite N" "a \<in> N" "balanced N c w"
  shows "balanced N c w'"
proof -
  let ?w = "if k mod 10 = 1 \<and> allowed \<or> forced
      then upd_body a (\<lambda>x. x\<lparr>bd_surrounding := find_surrounding opts w a processed\<rparr>) w else w"
  have b: "balanced N c ?w"
  proof (rule balanced_step[OF assms(4)])
    show "reaches_only N ?w" using assms(4) find_surrounding_subset[of N w opts a processed]
      by (auto simp: balanced_def reaches_only_def upd_body_def)
    show "repulsions_kept N w ?w" by (rule repulsions_kept_same) (simp add: upd_body_def)
  qed
  then have "set (bd_surrounding (wd_body ?w a)) \<subseteq> N" by (simp add: balanced_def reaches_only_def)
  moreover have "each (calc_repulsion_force opts a) (bd_surrounding (wd_body ?w a)) ?w = Inr w'"
    using assms(1) by (simp add: repulsion_of_node_def Let_def)
  ultimately show ?thesis
    using each_keeps[of "calc_repulsion_force opts a" _ ?w w' "balanced N c"] b repulsion_balanced assms(2,3) by blast
qed

lemma repulsion_on_grid_balanced:
  "repulsion_on_grid opts k allowed forced ns processed w = Inr w' \<Longrightarrow> finite N \<Longrightarrow> set ns \<subseteq> N \<Longrightarrow> balanced N c w \<Longrightarrow>
     balanced N c w'"
proof (induction ns arbitrary: processed w)
  case (Cons a ns)
  from Cons.prems(1) obtain w1 where "repulsion_of_node opts k allowed forced a processed w = Inr w1"
    "repulsion_on_grid opts k allowed forced ns (processed @ [a]) w1 = Inr w'" by (auto split: sum.splits)
  with Cons repulsion_of_node_balanced[of opts k allowed forced a processed w w1 N c] show ?case by auto
qed simp

lemma repulsion_of_pairs_balanced:
  "repulsion_of_pairs opts ns w = Inr w' \<Longrightarrow> finite N \<Longrightarrow> set ns \<subseteq> N \<Longrightarrow> balanced N c w \<Longrightarrow> balanced N c w'"
proof (induction ns arbitrary: w)
  case (Cons a ns)
  from Cons.prems(1) obtain w1 where w1: "each (repulsion_in_graph opts a) ns w = Inr w1" "repulsion_of_pairs opts ns w1 = Inr w'"
    by (auto split: sum.splits)
  have "balanced N c v'" if "b \<in> set ns" "balanced N c v" "repulsion_in_graph opts a b v = Inr v'" for b v v'
    using that Cons.prems(2,3) repulsion_balanced[of opts a b v v' N c] by (auto simp: repulsion_in_graph_def split: if_splits)
  with each_keeps[OF w1(1), of "balanced N c"] Cons.prems(4) have "balanced N c w1" by blast
  with Cons.IH[OF w1(2)] Cons.prems(2,3) show ?case by simp
qed simp

theorem repulsions_balance:
  assumes "calc_repulsion_forces opts k allowed forced w = Inr w'" "finite N" "set (snd (get_all_nodes (wd_gm w))) \<subseteq> N"
    and "reaches_only N w"
  shows "repulsions_kept N w w'"
proof -
  let ?w = "w\<lparr>wd_gm := fst (get_all_nodes (wd_gm w))\<rparr>" and ?ns = "snd (get_all_nodes (wd_gm w))"
  have b: "balanced N w ?w" using assms(4) by (auto simp: balanced_def reaches_only_def intro: repulsions_kept_same)
  have ns: "set (snd (get_all_nodes (wd_gm ?w))) \<subseteq> N" using assms(3) by (simp add: get_all_nodes_again)
  have "balanced N w w'"
  proof (cases "fo_grid_variant opts")
    case True
    then obtain w1 where w1: "(if k mod 10 = 1 \<and> allowed then update_grid opts ?w else Inr ?w) = Inr w1"
      "repulsion_on_grid opts k allowed forced ?ns [] w1 = Inr w'"
      using assms(1) by (auto simp: calc_repulsion_forces_def Let_def case_prod_unfold split: sum.splits)
    then have "balanced N w w1" using b update_grid_balanced[OF _ ns] by (auto split: if_splits)
    then show ?thesis using repulsion_on_grid_balanced[OF w1(2) assms(2,3)] by blast
  next
    case False
    then show ?thesis using assms(1) b repulsion_of_pairs_balanced[OF _ assms(2,3)]
      by (auto simp: calc_repulsion_forces_def Let_def case_prod_unfold)
  qed
  then show ?thesis by (simp add: balanced_def)
qed

subsection \<open>How far nodes move\<close>

lemma limited_bound: "0 \<le> bound \<Longrightarrow> \<not> \<bar>limited (JNum bound) v\<bar> > JNum bound"
  by (cases v) (auto simp: limited_def sign_of_def jsnum_finite less_jsnum_def abs_jsnum_def js_abs_def times_jsnum_def
      js_mul_def zero_jsnum_def one_jsnum_def uminus_jsnum_def)

lemma limited_still: "limited (JNum 0) v = JNum 0 \<or> limited (JNum 0) v = JNaN"
  by (cases v) (auto simp: limited_def sign_of_def less_jsnum_def abs_jsnum_def js_abs_def times_jsnum_def js_mul_def
      zero_jsnum_def one_jsnum_def uminus_jsnum_def)

text \<open>Without cooling left a node stays where it is, unless its displacement is \<open>NaN\<close>.\<close>

lemma displacement_still:
  assumes "displacement_of (JNum 0) (JNum m) x = (dx, dy)"
  shows "(dx = JNum 0 \<or> dx = JNaN) \<and> (dy = JNum 0 \<or> dy = JNaN)"
  using assms limited_still by (auto simp: displacement_of_def jsnum_finite)

lemma move_node_distance:
  "move_node cooling m n w = Some (w', d) \<Longrightarrow>
     d = \<bar>fst (displacement_of cooling m (wd_body w n))\<bar> + \<bar>snd (displacement_of cooling m (wd_body w n))\<bar>"
  by (auto simp: move_node_def Let_def split: prod.splits)

lemma move_each_Cons:
  assumes "move_each cooling m (n # ns) d w = Some r"
  obtains w1 d1 where "move_node cooling m n w = Some (w1, d1)" "move_each cooling m ns (d + d1) w1 = Some r"
  using assms by (cases "move_node cooling m n w") auto

lemma still_sum: "a = JNum 0 \<or> a = JNaN \<Longrightarrow> b = JNum 0 \<or> b = JNaN \<Longrightarrow> a + b = JNum 0 \<or> a + b = JNaN"
  by (auto simp: plus_jsnum_def)

lemma move_node_still:
  assumes "move_node (JNum 0) (JNum m) n w = Some (w', d)"
  shows "d = JNum 0 \<or> d = JNaN"
proof -
  obtain dx dy where d: "displacement_of (JNum 0) (JNum m) (wd_body w n) = (dx, dy)" by fastforce
  have "\<bar>dx\<bar> = JNum 0 \<or> \<bar>dx\<bar> = JNaN" "\<bar>dy\<bar> = JNum 0 \<or> \<bar>dy\<bar> = JNaN"
    using displacement_still[OF d] by (auto simp: abs_jsnum_def js_abs_def)
  from still_sum[OF this] show ?thesis using move_node_distance[OF assms] d by simp
qed

lemma move_each_still:
  "move_each (JNum 0) (JNum m) ns d w = Some (w', d') \<Longrightarrow> d = JNum 0 \<or> d = JNaN \<Longrightarrow> d' = JNum 0 \<or> d' = JNaN"
proof (induction ns arbitrary: d w)
  case (Cons n ns)
  from move_each_Cons[OF Cons.prems(1)] obtain w1 d1 where w1: "move_node (JNum 0) (JNum m) n w = Some (w1, d1)"
    "move_each (JNum 0) (JNum m) ns (d + d1) w1 = Some (w', d')" by blast
  from Cons.IH[OF w1(2) still_sum[OF Cons.prems(2) move_node_still[OF w1(1)]]] show ?case .
qed auto

lemma move_nodes_still: "move_nodes (JNum 0) (JNum m) w = Some (w', d) \<Longrightarrow> d = JNum 0 \<or> d = JNaN"
  by (auto simp: move_nodes_def case_prod_unfold Let_def zero_jsnum_def dest: move_each_still)

definition flat_world :: "world \<Rightarrow> bool" where
  "flat_world w \<longleftrightarrow> (\<forall>n. child_of w n = None)"

lemma move_leaf:
  assumes "move_node cooling m n w = Some (w', d)" "child_of w n = None"
  shows "w' = upd_body n (\<lambda>x. rest_node (x\<lparr>bd_rect :=
    nr_move_by (fst (displacement_of cooling m x)) (snd (displacement_of cooling m x)) (bd_rect x)\<rparr>)) w"
  using assms by (auto simp: move_node_def Let_def upd_body_def case_prod_unfold split: if_splits)

text \<open>A layout without compounds: each node moves by its displacement and comes to rest.\<close>

lemma move_each_flat:
  assumes "move_each cooling m ns d w = Some (w', d')" "flat_world w" "distinct ns"
  shows "wd_body w' = (\<lambda>n. if n \<in> set ns
      then rest_node ((wd_body w n)\<lparr>bd_rect := nr_move_by (fst (displacement_of cooling m (wd_body w n)))
        (snd (displacement_of cooling m (wd_body w n))) (rect_of w n)\<rparr>)
      else wd_body w n)"
  using assms
proof (induction ns arbitrary: d w)
  case (Cons n ns)
  from move_each_Cons[OF Cons.prems(1)] obtain w1 d1 where w1: "move_node cooling m n w = Some (w1, d1)"
    "move_each cooling m ns (d + d1) w1 = Some (w', d')" by blast
  have eq: "w1 = upd_body n (\<lambda>x. rest_node (x\<lparr>bd_rect :=
      nr_move_by (fst (displacement_of cooling m x)) (snd (displacement_of cooling m x)) (bd_rect x)\<rparr>)) w"
    using move_leaf[OF w1(1)] Cons.prems(2) by (simp add: flat_world_def)
  then have "flat_world w1" using Cons.prems(2) by (simp add: flat_world_def upd_body_def child_of_def)
  from Cons.IH[OF w1(2) this] Cons.prems(3) show ?case
    by (auto simp: eq upd_body_def rect_of_def fun_eq_iff)
qed (auto simp: fun_eq_iff)

text \<open>A displacement that is a number stays within the bound.\<close>

theorem moves_bounded:
  assumes "move_nodes (JNum cooling) (JNum m) w = Some (w', d)" "flat_world w" "distinct (snd (get_all_nodes (wd_gm w)))"
    and "0 \<le> cooling * m"
  shows "\<exists>dx dy. rect_of w' n = (if n \<in> set (snd (get_all_nodes (wd_gm w))) then nr_move_by dx dy (rect_of w n) else rect_of w n) \<and>
    \<not> \<bar>dx\<bar> > JNum (cooling * m) \<and> \<not> \<bar>dy\<bar> > JNum (cooling * m)"
proof -
  let ?w = "w\<lparr>wd_gm := fst (get_all_nodes (wd_gm w))\<rparr>" and ?ns = "snd (get_all_nodes (wd_gm w))"
  let ?d = "displacement_of (JNum cooling) (JNum m) (wd_body w n)"
  have "move_each (JNum cooling) (JNum m) ?ns 0 ?w = Some (w', d)"
    using assms(1) by (simp add: move_nodes_def case_prod_unfold Let_def)
  moreover have "flat_world ?w" using assms(2) by (simp add: flat_world_def child_of_def get_all_nodes_gm)
  ultimately have b: "wd_body w' n = (if n \<in> set ?ns
      then rest_node ((wd_body w n)\<lparr>bd_rect := nr_move_by (fst ?d) (snd ?d) (rect_of w n)\<rparr>) else wd_body w n)"
    using move_each_flat[of "JNum cooling" "JNum m" ?ns 0 ?w w' d] assms(3) by (simp add: rect_of_def)
  have "\<not> \<bar>fst ?d\<bar> > JNum (cooling * m)" "\<not> \<bar>snd ?d\<bar> > JNum (cooling * m)"
    by (simp_all add: displacement_of_def jsnum_finite(7) limited_bound[OF assms(4)])
  then show ?thesis
    by (intro exI[of _ "fst ?d"] exI[of _ "snd ?d"]) (simp add: rect_of_def b rest_node_def)
qed

end
