(* ===== verification/LayoutTrees.thy ===== *)
theory LayoutTrees
  imports LayoutForces
begin

text \<open>
  Trees of \<open>CoSELayout\<close> (\<open>docs/.vitepress/cache/deps/cytoscape-cose-bilkent.js\<close>): \<open>reduceTrees\<close> takes leaves out of
  the graphs, round by round, and \<open>growTree\<close> puts a round back, next to the nodes they were connected to.
  What is proved: the reduction ends, without a leaf left, and growing all rounds back gives the graphs
  there were.
\<close>

subsection \<open>Reducing\<close>

record pruned =
  pn_node :: nat
  pn_edge :: nat
  pn_graph :: "nat option"

definition leaf_node :: "manager \<Rightarrow> nat \<Rightarrow> bool" where
  "leaf_node s n \<longleftrightarrow>
     length (nd_edges (gm_node s n)) = 1 \<and> \<not> ed_inter (gm_edge s (hd (nd_edges (gm_node s n)))) \<and> nd_child (gm_node s n) = None"

definition find_leaves :: "manager \<Rightarrow> nat list \<Rightarrow> pruned list" where
  "find_leaves s ns =
     map (\<lambda>n. \<lparr>pn_node = n, pn_edge = hd (nd_edges (gm_node s n)), pn_graph = nd_owner (gm_node s n)\<rparr>) (filter (leaf_node s) ns)"

fun prune_step :: "pruned list \<Rightarrow> manager \<Rightarrow> layout_error + manager \<times> pruned list" where
  "prune_step [] s = Inr (s, [])"
| "prune_step (p # ps) s =
     (if length (nd_edges (gm_node s (pn_node p))) = 1 then
       (case nd_owner (gm_node s (pn_node p)) of
          None \<Rightarrow> Inl NullRead
        | Some g \<Rightarrow>
           (case graph_remove_node g (pn_node p) s of
              Inl er \<Rightarrow> Inl er
            | Inr s' \<Rightarrow> map_sum id (\<lambda>(s, qs). (s, p # qs)) (prune_step ps s')))
      else prune_step ps s)"

partial_function (option) reduce_loop ::
  "manager \<Rightarrow> pruned list list \<Rightarrow> (layout_error + manager \<times> pruned list list) option" where
  "reduce_loop s acc =
     (let s1 = fst (get_all_nodes s); leaves = find_leaves s1 (snd (get_all_nodes s))
      in if leaves = [] then Some (Inr (s1, acc))
         else
          (case prune_step leaves s1 of
             Inl er \<Rightarrow> Some (Inl er)
           | Inr r \<Rightarrow> reduce_loop (reset_all_edges (reset_all_nodes (fst r))) (acc @ [snd r])))"

definition reduce_trees :: "manager \<Rightarrow> (layout_error + manager \<times> pruned list list) option" where
  "reduce_trees s = reduce_loop s []"

subsection \<open>Growing\<close>

definition regrow :: "pruned \<Rightarrow> manager \<Rightarrow> layout_error + manager" where
  "regrow p s =
     (case pn_graph p of
        None \<Rightarrow> Inl NullRead
      | Some g \<Rightarrow>
         (case graph_add_node g (pn_node p) s of
            Inl er \<Rightarrow> Inl er
          | Inr s \<Rightarrow>
             (case (ed_source (gm_edge s (pn_edge p)), ed_target (gm_edge s (pn_edge p))) of
                (Some a, Some b) \<Rightarrow> graph_add_edge g (pn_edge p) a b s
              | _ \<Rightarrow> Inl (Thrown ''Source or target not in graph!''))))"

text \<open>How many nodes there are in cells next to those of a node, on one side.\<close>

definition cell_length :: "nat list list list \<Rightarrow> int \<Rightarrow> int \<Rightarrow> layout_error + int" where
  "cell_length grid i j =
     (if i < 0 \<or> j < 0 \<or> nat i \<ge> length grid \<or> nat j \<ge> length (grid ! nat i) then Inl NullRead
      else Inr (int (length (grid ! nat i ! nat j))))"

fun count_region :: "nat list list list \<Rightarrow> ((int \<times> int) \<times> (int \<times> int)) list \<Rightarrow> int \<Rightarrow> layout_error + int" where
  "count_region grid [] c = Inr c"
| "count_region grid ((p, q) # ps) c =
     (case cell_length grid (fst p) (snd p) of
        Inl er \<Rightarrow> Inl er
      | Inr a \<Rightarrow>
         (case cell_length grid (fst q) (snd q) of
            Inl er \<Rightarrow> Inl er
          | Inr b \<Rightarrow> count_region grid ps (c + (a + b - 1))))"

definition control_regions :: "nat list list list \<Rightarrow> body \<Rightarrow> layout_error + int list" where
  "control_regions grid x =
     (let sx = bd_start_x x; fx = bd_finish_x x; sy = bd_start_y x; fy = bd_finish_y x
      in case count_region grid (if sy > 0 then map (\<lambda>i. ((i, sy - 1), (i, sy))) [sx..fx] else []) 0 of
           Inl er \<Rightarrow> Inl er
         | Inr up \<Rightarrow>
          (case count_region grid (if fx < int (length grid) - 1 then map (\<lambda>i. ((fx + 1, i), (fx, i))) [sy..fy] else []) 0 of
             Inl er \<Rightarrow> Inl er
           | Inr right \<Rightarrow>
             if grid = [] then Inl NullRead
             else
              (case count_region grid
                      (if fy < int (length (grid ! 0)) - 1 then map (\<lambda>i. ((i, fy + 1), (i, fy))) [sx..fx] else []) 0 of
                 Inl er \<Rightarrow> Inl er
               | Inr down \<Rightarrow>
                  map_sum id (\<lambda>left. [up, right, down, left])
                    (count_region grid (if sx > 0 then map (\<lambda>i. ((sx - 1, i), (sx, i))) [sy..fy] else []) 0))))"

text \<open>The least count below \<open>Integer.MAX_VALUE\<close>, how often it occurs, and where it occurs first.\<close>

fun least_region :: "nat \<Rightarrow> int list \<Rightarrow> int \<times> nat \<times> nat option \<Rightarrow> int \<times> nat \<times> nat option" where
  "least_region j [] best = best"
| "least_region j (c # cs) (m, k, i) =
     least_region (Suc j) cs (if c < m then (c, 1, Some j) else if c = m then (m, k + 1, i) else (m, k, i))"

definition choose_region :: "real \<Rightarrow> int list \<Rightarrow> nat option" where
  "choose_region random cs =
     (let (least, k, i) = least_region 0 cs (2147483647, 0, None);
          free = (\<lambda>j. cs ! j = 0); coin = (\<lambda>a b. Some (if \<lfloor>random * 2\<rfloor> = 0 then a else b))
      in if k = 3 \<and> least = 0 then
           (if free 0 \<and> free 1 \<and> free 2 then Some 1
            else if free 0 \<and> free 1 \<and> free 3 then Some 0
            else if free 0 \<and> free 2 \<and> free 3 then Some 3
            else if free 1 \<and> free 2 \<and> free 3 then Some 2 else None)
         else if k = 2 \<and> least = 0 then
           (if free 0 \<and> free 1 then coin 0 1
            else if free 0 \<and> free 2 then coin 0 2
            else if free 0 \<and> free 3 then coin 0 3
            else if free 1 \<and> free 2 then coin 1 2
            else if free 1 \<and> free 3 then coin 1 3
            else coin 2 3)
         else if k = 4 \<and> least = 0 then Some (nat \<lfloor>random * 4\<rfloor>)
         else i)"

text \<open>\<open>random\<close> is what \<open>Math.random()\<close> returns.\<close>

definition find_place_for_pruned_node :: "real \<Rightarrow> pruned \<Rightarrow> world \<Rightarrow> layout_error + world" where
  "find_place_for_pruned_node random p w =
     (let e = gm_edge (wd_gm w) (pn_edge p)
      in case (if ed_source e = Some (pn_node p) then ed_target e else ed_source e) of
           None \<Rightarrow> Inl NullRead
         | Some m \<Rightarrow>
            (case control_regions (wd_grid w) (wd_body w m) of
               Inl er \<Rightarrow> Inl er
             | Inr cs \<Rightarrow>
                (let r = rect_of w m; n = pn_node p; x = rect_of w n; cx = nr_center_x r; cy = nr_center_y r;
                     place = (\<lambda>a b. upd_body n (\<lambda>v. v\<lparr>bd_rect := nr_set_center a b (bd_rect v)\<rparr>) w);
                     choice = choose_region random cs
                 in Inr (if choice = Some 0 then place cx (cy - nr_height r / 2 - 50 - nr_height x / 2)
                         else if choice = Some 1 then place (cx + nr_width r / 2 + 50 + nr_width x / 2) cy
                         else if choice = Some 2 then place cx (cy + nr_height r / 2 + 50 + nr_height x / 2)
                         else place (cx - nr_width r / 2 - 50 - nr_width x / 2) cy))))"

definition grow_node :: "(nat \<Rightarrow> real) \<Rightarrow> pruned \<Rightarrow> world \<Rightarrow> layout_error + world" where
  "grow_node random p w =
     (case find_place_for_pruned_node (random (pn_node p)) p w of
        Inl er \<Rightarrow> Inl er
      | Inr w' \<Rightarrow> map_sum id (\<lambda>gm. w'\<lparr>wd_gm := gm\<rparr>) (regrow p (wd_gm w')))"

definition grow_tree :: "(nat \<Rightarrow> real) \<Rightarrow> pruned list list \<Rightarrow> world \<Rightarrow> layout_error + world \<times> pruned list list" where
  "grow_tree random steps w =
     (if steps = [] then Inl NullRead
      else
        map_sum id (\<lambda>w. (w\<lparr>wd_gm := reset_all_edges (reset_all_nodes (wd_gm w))\<rparr>, butlast steps))
          (each (grow_node random) (last steps) w))"

subsection \<open>A round of pruning\<close>

definition same_shape :: "manager \<Rightarrow> manager \<Rightarrow> bool" where
  "same_shape s t \<longleftrightarrow>
     gm_graphs t = gm_graphs s \<and> gm_edge t = gm_edge s \<and> (\<forall>g. set (nodes_in t g) = set (nodes_in s g)) \<and>
     (\<forall>e. live t e \<longleftrightarrow> live s e)"

text \<open>An inner edge of a node, with the other end not among some nodes.\<close>

definition hangs :: "manager \<Rightarrow> nat set \<Rightarrow> pruned \<Rightarrow> bool" where
  "hangs s gone p \<longleftrightarrow>
     (\<exists>g a b. pn_graph p = Some g \<and> g \<in> set (gm_graphs s) \<and> pn_node p \<in> set (nodes_in s g) \<and>
        gm_edge s (pn_edge p) = \<lparr>ed_source = Some a, ed_target = Some b, ed_inter = False\<rparr> \<and> live s (pn_edge p) \<and>
        a \<in> set (nodes_in s g) \<and> b \<in> set (nodes_in s g) \<and>
        (a \<noteq> pn_node p \<longrightarrow> a \<notin> gone) \<and> (b \<noteq> pn_node p \<longrightarrow> b \<notin> gone))"

definition cut_off :: "manager \<Rightarrow> pruned list \<Rightarrow> manager \<Rightarrow> bool" where
  "cut_off s qs t \<longleftrightarrow>
     consistent t \<and> gm_graphs t = gm_graphs s \<and> gm_edge t = gm_edge s \<and>
     (\<forall>g. set (nodes_in t g) = set (nodes_in s g) - pn_node ` set qs) \<and>
     (\<forall>e. live t e \<longleftrightarrow> live s e \<and> e \<notin> pn_edge ` set qs) \<and>
     distinct (map pn_node qs) \<and> distinct (map pn_edge qs) \<and> (\<forall>q \<in> set qs. hangs s (pn_node ` set qs) q)"

definition hanging :: "manager \<Rightarrow> pruned \<Rightarrow> bool" where
  "hanging s p \<longleftrightarrow>
     (\<exists>g. pn_graph p = Some g \<and> pn_node p \<in> set (nodes_in s g)) \<and>
     (nd_edges (gm_node s (pn_node p)) = [pn_edge p] \<or> nd_edges (gm_node s (pn_node p)) = []) \<and>
     \<not> ed_inter (gm_edge s (pn_edge p))"

lemma edges_left:
  assumes "consistent s" "consistent t" "node_removed g n s t"
  shows "set (nd_edges (gm_node t m)) = {f \<in> set (nd_edges (gm_node s m)). \<not> touches s f n}"
  using consistentD(11)[OF assms(1), of m] consistentD(11)[OF assms(2), of m] assms(3)
  by (auto simp: knows_def node_removed_def touches_def)

lemma node_of_graph:
  assumes "consistent s" "n \<in> set (nodes_in s g)" "n \<in> set (nodes_in s h)"
  shows "h = g"
  using consistentD(5)[OF assms(1,2)] consistentD(5)[OF assms(1,3)] by simp

lemma nodes_left:
  assumes "consistent s" "n \<in> set (nodes_in s g)" "node_removed g n s t"
  shows "set (nodes_in t h) = set (nodes_in s h) - {n}"
  using assms(3) consistentD(3)[OF assms(1), of h] node_of_graph[OF assms(1,2), of h] by (auto simp: node_removed_def)

lemma inner_of_node:
  assumes "consistent s" "n \<in> set (nodes_in s g)" "e \<in> set (nd_edges (gm_node s n))" "\<not> ed_inter (gm_edge s e)"
  obtains a b where "gm_edge s e = \<lparr>ed_source = Some a, ed_target = Some b, ed_inter = False\<rparr>"
    "a \<in> set (nodes_in s g)" "b \<in> set (nodes_in s g)" "n = a \<or> n = b" "live s e"
proof -
  have e: "live s e" "touches s e n" using assms(3) consistentD(11)[OF assms(1), of n e] by (auto simp: knows_def)
  have "e \<notin> set (gm_inter s)" using consistentD(9)[OF assms(1)] assms(4) by (auto simp: outer_edge_def)
  then obtain h where h: "e \<in> set (edges_in s h)" using e(1) by (auto simp: live_def)
  from consistentD(6)[OF assms(1) h] obtain a b where ab: "ed_source (gm_edge s e) = Some a" "ed_target (gm_edge s e) = Some b"
    "a \<in> set (nodes_in s h)" "b \<in> set (nodes_in s h)" by (auto simp: inner_edge_def)
  have n: "n = a \<or> n = b" using e(2) ab by (auto simp: touches_def)
  then have "h = g" using node_of_graph[OF assms(1,2)] ab(3,4) by blast
  moreover have "gm_edge s e = \<lparr>ed_source = Some a, ed_target = Some b, ed_inter = False\<rparr>"
    using ab(1,2) assms(4) by (cases "gm_edge s e") simp
  ultimately show ?thesis using that ab(3,4) n e(1) by blast
qed

lemma cut_off_more:
  assumes "consistent s" "consistent s1" "n \<in> set (nodes_in s g)" "node_removed g n s s1" "nd_edges (gm_node s n) = [e]"
    "\<not> ed_inter (gm_edge s e)" "cut_off s1 qs t" "n \<notin> pn_node ` set qs"
    "\<And>q. q \<in> set qs \<Longrightarrow> hanging s q \<and> nd_edges (gm_node s1 (pn_node q)) = [pn_edge q]"
  shows "cut_off s (\<lparr>pn_node = n, pn_edge = e, pn_graph = Some g\<rparr> # qs) t"
proof -
  let ?p = "\<lparr>pn_node = n, pn_edge = e, pn_graph = Some g\<rparr>"
  have S: "gm_graphs s1 = gm_graphs s" "gm_edge s1 = gm_edge s" "\<And>f. live s1 f \<longleftrightarrow> live s f \<and> \<not> touches s f n"
    using assms(4) by (auto simp: node_removed_def)
  have kn: "live s f \<and> touches s f n \<longleftrightarrow> f = e" for f
    using consistentD(11)[OF assms(1), of n f] assms(5) by (auto simp: knows_def)
  have nodes: "set (nodes_in s1 h) = set (nodes_in s h) - {n}" for h by (rule nodes_left[OF assms(1,3,4)])
  have edge: "pn_edge q \<noteq> e \<and> live s1 (pn_edge q)" if "q \<in> set qs" for q
    using assms(9)[OF that] consistentD(11)[OF assms(2), of "pn_node q" "pn_edge q"] kn[of "pn_edge q"] S(3)
    by (auto simp: knows_def)
  obtain a b where ab: "gm_edge s e = \<lparr>ed_source = Some a, ed_target = Some b, ed_inter = False\<rparr>"
    "a \<in> set (nodes_in s g)" "b \<in> set (nodes_in s g)" "n = a \<or> n = b" "live s e"
    using inner_of_node[OF assms(1,3) _ assms(6)] assms(5) by auto
  have "x \<notin> pn_node ` set qs" if x: "x = a \<or> x = b" "x \<noteq> n" for x
  proof
    assume "x \<in> pn_node ` set qs"
    then obtain q where q: "q \<in> set qs" "x = pn_node q" by blast
    have "e \<in> set (nd_edges (gm_node s x))"
      using consistentD(11)[OF assms(1), of x e] ab(1,5) x(1) by (auto simp: knows_def touches_def)
    then have "pn_edge q = e" using assms(9)[OF q(1)] q(2) by (auto simp: hanging_def)
    then show False using edge[OF q(1)] by blast
  qed
  then have "hangs s (pn_node ` set (?p # qs)) ?p"
    using ab in_graphs[OF assms(1,3)] assms(3) by (auto simp: hangs_def)
  moreover have "hangs s (pn_node ` set (?p # qs)) q" if q: "q \<in> set qs" for q
  proof -
    have "hangs s1 (pn_node ` set qs) q" using assms(7) q by (simp add: cut_off_def)
    then show ?thesis unfolding hangs_def S nodes by auto
  qed
  moreover have "consistent t" "gm_graphs t = gm_graphs s" "gm_edge t = gm_edge s"
    "set (nodes_in t h) = set (nodes_in s h) - pn_node ` set (?p # qs)"
    "live t f \<longleftrightarrow> live s f \<and> f \<notin> pn_edge ` set (?p # qs)" "distinct (map pn_node (?p # qs))" for h f
    using assms(7,8) S nodes[of h] kn[of f] by (auto simp: cut_off_def)
  moreover have "distinct (map pn_edge (?p # qs))" using assms(7) edge by (auto simp: cut_off_def)
  ultimately show ?thesis unfolding cut_off_def by auto
qed

lemma prune_step_cuts:
  assumes "consistent s" "distinct (map pn_node ps)" "\<And>p. p \<in> set ps \<Longrightarrow> hanging s p"
  shows "\<exists>t qs. prune_step ps s = Inr (t, qs) \<and> cut_off s qs t \<and>
    (\<forall>q \<in> set qs. q \<in> set ps \<and> nd_edges (gm_node s (pn_node q)) = [pn_edge q]) \<and>
    (ps \<noteq> [] \<and> nd_edges (gm_node s (pn_node (hd ps))) \<noteq> [] \<longrightarrow> qs \<noteq> [])"
  using assms
proof (induction ps arbitrary: s)
  case Nil
  then show ?case by (auto simp: cut_off_def)
next
  case (Cons p ps)
  let ?n = "pn_node p" and ?e = "pn_edge p"
  from Cons.prems(3)[of p] obtain g where g: "pn_graph p = Some g" "?n \<in> set (nodes_in s g)"
    "nd_edges (gm_node s ?n) = [?e] \<or> nd_edges (gm_node s ?n) = []" "\<not> ed_inter (gm_edge s ?e)" by (auto simp: hanging_def)
  show ?case
  proof (cases "nd_edges (gm_node s ?n) = []")
    case True
    have "\<exists>t qs. prune_step ps s = Inr (t, qs) \<and> cut_off s qs t \<and>
        (\<forall>q \<in> set qs. q \<in> set ps \<and> nd_edges (gm_node s (pn_node q)) = [pn_edge q])"
      using Cons.IH[of s] Cons.prems by auto
    then show ?thesis using True by auto
  next
    case False
    with g(3) have e: "nd_edges (gm_node s ?n) = [?e]" by blast
    obtain s1 where s1: "graph_remove_node g ?n s = Inr s1" "consistent s1" "node_removed g ?n s s1"
      using remove_node_removes[OF Cons.prems(1) g(2)] by blast
    have own: "nd_owner (gm_node s ?n) = Some g" by (rule consistentD(5)[OF Cons.prems(1) g(2)])
    have hang: "hanging s1 q" if q: "q \<in> set ps" for q
    proof -
      have ne: "pn_node q \<noteq> ?n" using Cons.prems(2) q by (auto simp: rev_image_eqI)
      from Cons.prems(3)[of q] q obtain h where h: "pn_graph q = Some h" "pn_node q \<in> set (nodes_in s h)"
        "nd_edges (gm_node s (pn_node q)) = [pn_edge q] \<or> nd_edges (gm_node s (pn_node q)) = []"
        "\<not> ed_inter (gm_edge s (pn_edge q))" by (auto simp: hanging_def)
      have "set (nd_edges (gm_node s1 (pn_node q))) \<subseteq> {pn_edge q}"
        using edges_left[OF Cons.prems(1) s1(2,3), of "pn_node q"] h(3) by auto
      then have "nd_edges (gm_node s1 (pn_node q)) = [pn_edge q] \<or> nd_edges (gm_node s1 (pn_node q)) = []"
        using consistentD(10)[OF s1(2), of "pn_node q"]
        by (cases "nd_edges (gm_node s1 (pn_node q))"; cases "tl (nd_edges (gm_node s1 (pn_node q)))") auto
      then show ?thesis
        using h nodes_left[OF Cons.prems(1) g(2) s1(3), of h] ne s1(3) by (auto simp: hanging_def node_removed_def)
    qed
    obtain t qs where t: "prune_step ps s1 = Inr (t, qs)" "cut_off s1 qs t"
      "\<forall>q \<in> set qs. q \<in> set ps \<and> nd_edges (gm_node s1 (pn_node q)) = [pn_edge q]"
      using Cons.IH[OF s1(2) _ hang] Cons.prems(2) by auto
    have p: "\<lparr>pn_node = ?n, pn_edge = ?e, pn_graph = Some g\<rparr> = p" using g(1) by (cases p) simp
    have "?n \<notin> pn_node ` set qs" using t(3) Cons.prems(2) by auto
    moreover have hq: "hanging s q \<and> nd_edges (gm_node s1 (pn_node q)) = [pn_edge q]" if "q \<in> set qs" for q
      using t(3) that Cons.prems(3) by auto
    ultimately have "cut_off s (p # qs) t"
      using cut_off_more[OF Cons.prems(1) s1(2) g(2) s1(3) e g(4) t(2)] p by simp
    moreover have "nd_edges (gm_node s (pn_node q)) = [pn_edge q]" if "q \<in> set qs" for q
      using hq[OF that] edges_left[OF Cons.prems(1) s1(2,3), of "pn_node q"] by (auto simp: hanging_def)
    ultimately show ?thesis using t(1,3) e own s1(1) by (intro exI[of _ t] exI[of _ "p # qs"]) auto
  qed
qed

subsection \<open>Growing a round back\<close>

lemma add_node_facts:
  assumes "n \<notin> set (nodes_in t g)"
  shows "\<exists>t'. graph_add_node g n t = Inr t' \<and> nodes_in t' = (nodes_in t)(g := nodes_in t g @ [n]) \<and>
    edges_in t' = edges_in t \<and> gm_inter t' = gm_inter t \<and> gm_edge t' = gm_edge t \<and> gm_graphs t' = gm_graphs t"
  using assms by (auto simp: graph_add_node_def store_simps fun_eq_iff)

lemma add_inner_facts:
  assumes "a \<in> set (nodes_in t g)" "b \<in> set (nodes_in t g)" "nd_owner (gm_node t a) = Some g" "nd_owner (gm_node t b) = Some g"
  shows "\<exists>t'. graph_add_edge g e a b t = Inr t' \<and> nodes_in t' = nodes_in t \<and> edges_in t' = (edges_in t)(g := edges_in t g @ [e]) \<and>
    gm_inter t' = gm_inter t \<and> gm_graphs t' = gm_graphs t \<and>
    gm_edge t' = (gm_edge t)(e := \<lparr>ed_source = Some a, ed_target = Some b, ed_inter = False\<rparr>)"
  using assms by (auto simp: graph_add_edge_def store_simps fun_eq_iff)

lemma regrow_one:
  assumes "consistent t" "pn_graph p = Some g" "g \<in> set (gm_graphs t)" "\<And>h. pn_node p \<notin> set (nodes_in t h)"
    "\<not> live t (pn_edge p)" "gm_edge t (pn_edge p) = \<lparr>ed_source = Some a, ed_target = Some b, ed_inter = False\<rparr>"
    "a = pn_node p \<or> a \<in> set (nodes_in t g)" "b = pn_node p \<or> b \<in> set (nodes_in t g)"
  shows "\<exists>t'. regrow p t = Inr t' \<and> consistent t' \<and> gm_graphs t' = gm_graphs t \<and> gm_edge t' = gm_edge t \<and>
    (\<forall>h. set (nodes_in t' h) = set (nodes_in t h) \<union> (if h = g then {pn_node p} else {})) \<and>
    (\<forall>f. live t' f \<longleftrightarrow> live t f \<or> f = pn_edge p)"
proof -
  let ?n = "pn_node p" and ?e = "pn_edge p"
  obtain t1 where t1: "graph_add_node g ?n t = Inr t1" "nodes_in t1 = (nodes_in t)(g := nodes_in t g @ [?n])"
    "edges_in t1 = edges_in t" "gm_inter t1 = gm_inter t" "gm_edge t1 = gm_edge t" "gm_graphs t1 = gm_graphs t"
    using add_node_facts[OF assms(4)] by blast
  have c1: "consistent t1" using add_node_consistent[OF assms(1,3,4)] t1(1) by auto
  have ab: "a \<in> set (nodes_in t1 g)" "b \<in> set (nodes_in t1 g)" using assms(7,8) t1(2) by auto
  obtain t2 where t2: "graph_add_edge g ?e a b t1 = Inr t2" "nodes_in t2 = nodes_in t1"
    "edges_in t2 = (edges_in t1)(g := edges_in t1 g @ [?e])" "gm_inter t2 = gm_inter t1" "gm_graphs t2 = gm_graphs t1"
    "gm_edge t2 = (gm_edge t1)(?e := \<lparr>ed_source = Some a, ed_target = Some b, ed_inter = False\<rparr>)"
    using add_inner_facts[OF ab consistentD(5)[OF c1 ab(1)] consistentD(5)[OF c1 ab(2)]] by blast
  have "\<not> live t1 ?e" using assms(5) t1(3,4) by (simp add: live_def)
  then have "consistent t2" using add_inner_consistent[OF c1 _ t2(1)] by blast
  moreover have "regrow p t = Inr t2" using assms(2,6) t1(1,5) t2(1) by (simp add: regrow_def)
  moreover have "gm_edge t2 = gm_edge t" using assms(6) t1(5) t2(6) by auto
  moreover have "live t2 f \<longleftrightarrow> live t f \<or> f = ?e" for f using t1(3,4) t2(3,4) by (auto simp: live_def split: if_splits)
  ultimately show ?thesis using t1(2,6) t2(2,5) by (intro exI[of _ t2]) auto
qed

lemma regrow_rest:
  assumes "distinct (map pn_node qs)" "distinct (map pn_edge qs)" "\<And>q. q \<in> set qs \<Longrightarrow> hangs s gone q"
    "pn_node ` set qs \<subseteq> gone" "consistent s"
    and "consistent t" "gm_graphs t = gm_graphs s" "gm_edge t = gm_edge s"
    "\<And>g. set (nodes_in t g) = set (nodes_in s g) - pn_node ` set qs" "\<And>e. live t e \<longleftrightarrow> live s e \<and> e \<notin> pn_edge ` set qs"
  shows "\<exists>t'. each regrow qs t = Inr t' \<and> consistent t' \<and> same_shape s t'"
  using assms(1-4,6-)
proof (induction qs arbitrary: t)
  case Nil
  then show ?case by (simp add: same_shape_def)
next
  case (Cons q qs)
  from Cons.prems(3)[of q] obtain g a b where q: "pn_graph q = Some g" "g \<in> set (gm_graphs s)" "pn_node q \<in> set (nodes_in s g)"
    "gm_edge s (pn_edge q) = \<lparr>ed_source = Some a, ed_target = Some b, ed_inter = False\<rparr>" "live s (pn_edge q)"
    "a \<in> set (nodes_in s g)" "b \<in> set (nodes_in s g)" "a \<noteq> pn_node q \<longrightarrow> a \<notin> gone" "b \<noteq> pn_node q \<longrightarrow> b \<notin> gone"
    by (auto simp: hangs_def)
  have ends: "x = pn_node q \<or> x \<in> set (nodes_in t g)" if "x \<in> set (nodes_in s g)" "x \<noteq> pn_node q \<longrightarrow> x \<notin> gone" for x
    using that Cons.prems(4) Cons.prems(8)[of g] by auto
  have "\<exists>t1. regrow q t = Inr t1 \<and> consistent t1 \<and> gm_graphs t1 = gm_graphs t \<and> gm_edge t1 = gm_edge t \<and>
      (\<forall>h. set (nodes_in t1 h) = set (nodes_in t h) \<union> (if h = g then {pn_node q} else {})) \<and>
      (\<forall>f. live t1 f \<longleftrightarrow> live t f \<or> f = pn_edge q)"
  proof (rule regrow_one[OF Cons.prems(5) q(1)])
    show "g \<in> set (gm_graphs t)" using q(2) Cons.prems(6) by simp
    show "pn_node q \<notin> set (nodes_in t h)" for h using Cons.prems(8)[of h] by simp
    show "\<not> live t (pn_edge q)" using Cons.prems(9) by simp
    show "gm_edge t (pn_edge q) = \<lparr>ed_source = Some a, ed_target = Some b, ed_inter = False\<rparr>" using q(4) Cons.prems(7) by simp
    show "a = pn_node q \<or> a \<in> set (nodes_in t g)" "b = pn_node q \<or> b \<in> set (nodes_in t g)"
      using ends[OF q(6,8)] ends[OF q(7,9)] by blast+
  qed
  then obtain t1 where t1: "regrow q t = Inr t1" "consistent t1" "gm_graphs t1 = gm_graphs t" "gm_edge t1 = gm_edge t"
    "\<And>h. set (nodes_in t1 h) = set (nodes_in t h) \<union> (if h = g then {pn_node q} else {})"
    "\<And>f. live t1 f \<longleftrightarrow> live t f \<or> f = pn_edge q" by blast
  have "set (nodes_in t1 h) = set (nodes_in s h) - pn_node ` set qs" for h
  proof -
    have "pn_node q \<notin> pn_node ` set qs" using Cons.prems(1) by auto
    moreover have "h \<noteq> g \<Longrightarrow> pn_node q \<notin> set (nodes_in s h)" using node_of_graph[OF assms(5) q(3)] by blast
    ultimately show ?thesis using t1(5)[of h] Cons.prems(8)[of h] q(3) by auto
  qed
  moreover have "live t1 f \<longleftrightarrow> live s f \<and> f \<notin> pn_edge ` set qs" for f
    using t1(6)[of f] Cons.prems(9)[of f] Cons.prems(2) q(5) by auto
  ultimately have "\<exists>t'. each regrow qs t1 = Inr t' \<and> consistent t' \<and> same_shape s t'"
    using Cons.prems t1 by (intro Cons.IH) auto
  then show ?case using t1(1) by simp
qed

lemma cut_off_grows_back:
  assumes "consistent s" "cut_off s qs t0" "consistent t" "same_shape t0 t"
  shows "\<exists>t'. each regrow qs t = Inr t' \<and> consistent t' \<and> same_shape s t'"
  using assms by (intro regrow_rest[where gone = "pn_node ` set qs"]) (auto simp: cut_off_def same_shape_def)

subsection \<open>All rounds\<close>

definition fresh_nodes :: "manager \<Rightarrow> bool" where
  "fresh_nodes s \<longleftrightarrow> gm_all_nodes s = None \<or> gm_all_nodes s = Some (concat (map (nodes_in s) (gm_graphs s)))"

lemma nodes_listed: "fresh_nodes s \<Longrightarrow> snd (get_all_nodes s) = concat (map (nodes_in s) (gm_graphs s))"
  by (auto simp: fresh_nodes_def get_all_nodes_def nodes_in_def Let_def split: option.splits intro!: arg_cong[where f = concat])

lemma placed_listed: "consistent s \<Longrightarrow> placed s n \<longleftrightarrow> n \<in> set (concat (map (nodes_in s) (gm_graphs s)))"
  using in_graphs by (fastforce simp: placed_def)

lemma distinct_listed:
  assumes "consistent s"
  shows "distinct (concat (map (nodes_in s) (gm_graphs s)))"
proof -
  have "distinct (concat (map (nodes_in s) gs))" if "distinct gs" for gs
    using that
  proof (induction gs)
    case (Cons g gs)
    have "set (nodes_in s g) \<inter> set (concat (map (nodes_in s) gs)) = {}"
    proof (rule ccontr)
      assume "\<not> ?thesis"
      then obtain n h where "n \<in> set (nodes_in s g)" "h \<in> set gs" "n \<in> set (nodes_in s h)" by auto
      then have "g \<in> set gs" using node_of_graph[OF assms] by metis
      then show False using Cons.prems by simp
    qed
    then show ?case using Cons consistentD(3)[OF assms, of g] by simp
  qed simp
  then show ?thesis using consistentD(1)[OF assms] by blast
qed

lemma leaves_hang:
  assumes "consistent s" "p \<in> set (find_leaves s ns)" "\<forall>n \<in> set ns. placed s n"
  shows "hanging s p" "nd_edges (gm_node s (pn_node p)) \<noteq> []"
proof -
  obtain n where n: "p = \<lparr>pn_node = n, pn_edge = hd (nd_edges (gm_node s n)), pn_graph = nd_owner (gm_node s n)\<rparr>"
    "n \<in> set ns" "leaf_node s n" using assms(2) by (auto simp: find_leaves_def)
  then obtain g where g: "n \<in> set (nodes_in s g)" using assms(3) by (auto simp: placed_def)
  have "nd_edges (gm_node s n) = [hd (nd_edges (gm_node s n))]"
    using n(3) by (cases "nd_edges (gm_node s n)") (auto simp: leaf_node_def)
  then show "hanging s p" "nd_edges (gm_node s (pn_node p)) \<noteq> []"
    using n(1,3) g consistentD(5)[OF assms(1) g] by (auto simp: hanging_def leaf_node_def)
qed

lemma same_lists:
  assumes "gm_node s' = gm_node s" "gm_edge s' = gm_edge s" "gm_graph s' = gm_graph s" "gm_graphs s' = gm_graphs s"
    "gm_inter s' = gm_inter s"
  shows "consistent s' = consistent s" "same_shape s s'" "placed s' = placed s" "leaf_node s' = leaf_node s"
    "find_leaves s' = find_leaves s"
proof -
  have "nodes_in s' = nodes_in s" "edges_in s' = edges_in s" using assms(3) by (auto simp: nodes_in_def edges_in_def)
  note eq = assms this
  have live: "live s' = live s" by (auto simp: live_def eq fun_eq_iff)
  show "consistent s' = consistent s"
    using same_lists_consistent[of s s'] same_lists_consistent[of s' s] eq by auto
  show "same_shape s s'" by (simp add: same_shape_def live eq)
  show "placed s' = placed s" by (simp add: placed_def eq fun_eq_iff)
  show leaf: "leaf_node s' = leaf_node s" by (simp add: leaf_node_def eq fun_eq_iff)
  show "find_leaves s' = find_leaves s" by (simp add: find_leaves_def leaf eq fun_eq_iff)
qed

lemma same_shape_trans: "same_shape s t \<Longrightarrow> same_shape t u \<Longrightarrow> same_shape s u"
  by (simp add: same_shape_def)

lemma each_append: "each f (xs @ ys) s = (case each f xs s of Inl er \<Rightarrow> Inl er | Inr s' \<Rightarrow> each f ys s')"
  by (induction xs arbitrary: s) (auto split: sum.splits)

definition trees_reduced :: "manager \<Rightarrow> manager \<Rightarrow> pruned list list \<Rightarrow> bool" where
  "trees_reduced s s' steps \<longleftrightarrow>
     consistent s' \<and> (\<forall>n. placed s' n \<longrightarrow> \<not> leaf_node s' n) \<and>
     (\<forall>t. consistent t \<and> same_shape s' t \<longrightarrow>
        (\<exists>t'. each (each regrow) (rev steps) t = Inr t' \<and> consistent t' \<and> same_shape s t'))"

lemma reduce_loop_ends:
  assumes "consistent s" "fresh_nodes s"
  shows "\<exists>s' steps. reduce_loop s acc = Some (Inr (s', acc @ steps)) \<and> trees_reduced s s' steps"
  using assms
proof (induction "card {n. placed s n}" arbitrary: s acc rule: less_induct)
  case less
  let ?s = "fst (get_all_nodes s)" and ?ns = "snd (get_all_nodes s)"
  have S: "consistent ?s" "same_shape s ?s" "placed ?s = placed s" "leaf_node ?s = leaf_node s" "find_leaves ?s = find_leaves s"
    using same_lists[of ?s s] less.prems(1) by (auto simp: get_all_nodes_gm)
  have ns: "?ns = concat (map (nodes_in s) (gm_graphs s))" by (rule nodes_listed[OF less.prems(2)])
  then have placed: "placed s n \<longleftrightarrow> n \<in> set ?ns" for n using placed_listed[OF less.prems(1)] by simp
  show ?case
  proof (cases "find_leaves s ?ns = []")
    case True
    then have "\<not> leaf_node s n" if "placed s n" for n
      using that unfolding placed by (auto simp: find_leaves_def filter_empty_conv)
    moreover have "reduce_loop s acc = Some (Inr (?s, acc))"
      using True S(5) by (subst reduce_loop.simps) (simp add: Let_def)
    moreover have "\<exists>t'. each (each regrow) (rev []) t = Inr t' \<and> consistent t' \<and> same_shape s t'"
      if "consistent t" "same_shape ?s t" for t using that same_shape_trans[OF S(2)] by simp
    ultimately show ?thesis using S by (intro exI[of _ ?s] exI[of _ "[]"]) (simp add: trees_reduced_def)
  next
    case False
    have hang: "hanging ?s p" "nd_edges (gm_node ?s (pn_node p)) \<noteq> []" if "p \<in> set (find_leaves s ?ns)" for p
      using leaves_hang[OF S(1), of p ?ns] that placed S(3,5) by auto
    have "map pn_node (find_leaves s ?ns) = filter (leaf_node s) ?ns" by (simp add: find_leaves_def comp_def)
    then have "distinct (map pn_node (find_leaves s ?ns))" using distinct_listed[OF less.prems(1)] ns by simp
    then obtain t qs where t: "prune_step (find_leaves s ?ns) ?s = Inr (t, qs)" "cut_off ?s qs t"
      "\<forall>q \<in> set qs. q \<in> set (find_leaves s ?ns)" "qs \<noteq> []"
      using prune_step_cuts[OF S(1) _ hang(1)] hang(2)[of "hd (find_leaves s ?ns)"] False by fastforce
    let ?t = "reset_all_edges (reset_all_nodes t)"
    have T: "consistent ?t = consistent t" "same_shape t ?t" "placed ?t = placed t"
      using same_lists[of ?t t] by (auto simp: reset_all_edges_def reset_all_nodes_def)
    have "placed t n \<longleftrightarrow> placed s n \<and> n \<notin> pn_node ` set qs" for n
      using t(2) S(3) by (auto simp: cut_off_def placed_def fun_eq_iff)
    moreover obtain q where "q \<in> set qs" using t(4) by (cases qs) auto
    moreover from this have "placed s (pn_node q)"
      using t(3) placed by (auto simp: find_leaves_def)
    ultimately have "{n. placed t n} \<subset> {n. placed s n}" by auto
    moreover have "finite {n. placed s n}" unfolding placed by simp
    ultimately have "card {n. placed ?t n} < card {n. placed s n}" unfolding T(3) by (rule psubset_card_mono[rotated])
    moreover have "consistent ?t" "fresh_nodes ?t" using t(2) T(1)
      by (auto simp: cut_off_def fresh_nodes_def reset_all_edges_def reset_all_nodes_def)
    ultimately obtain s' steps where s': "reduce_loop ?t (acc @ [qs]) = Some (Inr (s', (acc @ [qs]) @ steps))"
      "trees_reduced ?t s' steps" using less.hyps by blast
    have "reduce_loop s acc = Some (Inr (s', acc @ qs # steps))"
      using False t(1) s'(1) S(5) by (subst reduce_loop.simps) (simp add: Let_def)
    moreover have "trees_reduced s s' (qs # steps)"
      unfolding trees_reduced_def
    proof (intro conjI allI impI)
      fix u assume "consistent u \<and> same_shape s' u"
      then obtain u1 where u1: "each (each regrow) (rev steps) u = Inr u1" "consistent u1" "same_shape ?t u1"
        using s'(2) by (auto simp: trees_reduced_def)
      obtain u2 where "each regrow qs u1 = Inr u2" "consistent u2" "same_shape ?s u2"
        using cut_off_grows_back[OF S(1) t(2) u1(2) same_shape_trans[OF T(2) u1(3)]] by blast
      then show "\<exists>t'. each (each regrow) (rev (qs # steps)) u = Inr t' \<and> consistent t' \<and> same_shape s t'"
        using u1(1) same_shape_trans[OF S(2)] by (auto simp: each_append)
    qed (use s'(2) in \<open>auto simp: trees_reduced_def\<close>)
    ultimately show ?thesis by blast
  qed
qed

text \<open>Where growing a round finds places, the graphs come back as \<open>regrow\<close> puts them.\<close>

lemma find_place_gm: "find_place_for_pruned_node random p w = Inr w' \<Longrightarrow> wd_gm w' = wd_gm w"
  by (auto simp: find_place_for_pruned_node_def Let_def upd_body_def split: option.splits sum.splits if_splits)

lemma grow_node_cases:
  assumes "grow_node random p w = Inr w'"
  obtains w1 gm where "find_place_for_pruned_node (random (pn_node p)) p w = Inr w1" "wd_gm w1 = wd_gm w"
    "regrow p (wd_gm w) = Inr gm" "w' = w1\<lparr>wd_gm := gm\<rparr>"
proof -
  obtain w1 where w1: "find_place_for_pruned_node (random (pn_node p)) p w = Inr w1"
    using assms by (cases "find_place_for_pruned_node (random (pn_node p)) p w") (auto simp: grow_node_def)
  moreover obtain gm where "regrow p (wd_gm w1) = Inr gm" "w' = w1\<lparr>wd_gm := gm\<rparr>"
    using assms w1 by (cases "regrow p (wd_gm w1)") (auto simp: grow_node_def)
  ultimately show ?thesis using that find_place_gm[OF w1] by simp
qed

lemma grow_nodes_regrow: "each (grow_node random) ps w = Inr w' \<Longrightarrow> each regrow ps (wd_gm w) = Inr (wd_gm w')"
proof (induction ps arbitrary: w)
  case (Cons p ps)
  from Cons.prems obtain w1 where w1: "grow_node random p w = Inr w1" "each (grow_node random) ps w1 = Inr w'"
    by (auto split: sum.splits)
  from w1(1) have "regrow p (wd_gm w) = Inr (wd_gm w1)" by (elim grow_node_cases) simp
  then show ?case using Cons.IH[OF w1(2)] by simp
qed simp

text \<open>Before \<open>reduceTrees\<close> runs, \<open>classicLayout\<close> has listed all nodes, and none is added or removed in between.\<close>

lemma listed_fresh: "fresh_nodes s \<Longrightarrow> fresh_nodes (fst (get_all_nodes s))"
  by (auto simp: fresh_nodes_def get_all_nodes_def nodes_in_def Let_def fun_eq_iff split: option.splits
      intro!: arg_cong[where f = concat])

text \<open>C24. On every reachable state of the graphs whose list of all nodes, if it is kept, is the current one,
  \<open>reduceTrees\<close> ends, no leaf is left, and putting the rounds back in reverse order, as \<open>growTree\<close> does, never
  fails and gives the graphs, edges and nodes there were.\<close>

theorem trees_grow_back:
  assumes "reached s" "fresh_nodes s"
  shows "\<exists>s' steps. reduce_trees s = Some (Inr (s', steps)) \<and> trees_reduced s s' steps"
  using reduce_loop_ends[OF reached_consistent[OF assms(1)] assms(2), of "[]"]
  by (auto simp: reduce_trees_def)

text \<open>Two nodes and an edge: one of them goes and comes back.\<close>

lemma two_nodes_reached:
  obtains s where "reached s" "gm_all_nodes s = None" "nodes_in s 0 = [2, 3]" "edges_in s 0 = [4]"
proof -
  note step = store_simps new_manager_def
  obtain s1 where s1: "manager_add_graph 0 1 new_manager = Inr s1" "nodes_in s1 0 = []" "edges_in s1 0 = []"
    "gm_graphs s1 = [0]" "gm_all_nodes s1 = None" "gm_inter s1 = []" "\<And>g. nodes_in s1 g = []" "\<And>g. edges_in s1 g = []"
    by (auto simp: manager_add_graph_def step)
  have r1: "reached s1"
    by (rule reached.step[OF reached.start layout_step.add_graph[OF _ _ s1(1)]]) (auto simp: step)
  obtain s2 where s2: "graph_add_node 0 2 s1 = Inr s2" "\<And>g. nodes_in s2 g = (if g = 0 then [2] else [])"
    "\<And>g. edges_in s2 g = []" "gm_graphs s2 = [0]" "gm_all_nodes s2 = None" "gm_inter s2 = []"
    using s1 by (auto simp: graph_add_node_def step)
  have r2: "reached s2"
    by (rule reached.step[OF r1 layout_step.add_node[OF _ _ s2(1)]]) (auto simp: s1 placed_def)
  obtain s3 where s3: "graph_add_node 0 3 s2 = Inr s3" "\<And>g. nodes_in s3 g = (if g = 0 then [2, 3] else [])"
    "\<And>g. edges_in s3 g = []" "gm_graphs s3 = [0]" "gm_all_nodes s3 = None" "gm_inter s3 = []"
    using s2 by (auto simp: graph_add_node_def step)
  have r3: "reached s3"
    by (rule reached.step[OF r2 layout_step.add_node[OF _ _ s3(1)]]) (auto simp: s2 placed_def)
  have own: "nd_owner (gm_node s3 2) = Some 0" "nd_owner (gm_node s3 3) = Some 0"
    using consistentD(5)[OF reached_consistent[OF r3], of _ 0] s3(2) by auto
  obtain s4 where s4: "graph_add_edge 0 4 2 3 s3 = Inr s4" "nodes_in s4 0 = [2, 3]" "edges_in s4 0 = [4]" "gm_all_nodes s4 = None"
    using own s3 by (auto simp: graph_add_edge_def step)
  have "\<not> live s3 4" by (simp add: live_def s3)
  then have "reached s4" by (rule reached.step[OF r3 layout_step.add_inner[OF _ s4(1)]])
  then show ?thesis using that s4 by blast
qed

lemma trees_grow_back_witness:
  "\<exists>s s' steps. nodes_in s 0 = [2, 3] \<and> edges_in s 0 = [4] \<and> gm_all_nodes s \<noteq> None \<and>
     reduce_trees s = Some (Inr (s', steps)) \<and> trees_reduced s s' steps"
proof -
  obtain s where s: "reached s" "gm_all_nodes s = None" "nodes_in s 0 = [2, 3]" "edges_in s 0 = [4]"
    by (rule two_nodes_reached)
  let ?s = "fst (get_all_nodes s)"
  have "reached ?s" by (rule reached.step[OF s(1) layout_step.list_nodes])
  moreover have "fresh_nodes ?s" using s(2) by (intro listed_fresh) (simp add: fresh_nodes_def)
  moreover have "nodes_in ?s 0 = [2, 3]" "edges_in ?s 0 = [4]" "gm_all_nodes ?s \<noteq> None"
    using s by (auto simp: get_all_nodes_gm nodes_in_def edges_in_def)
  ultimately show ?thesis using trees_grow_back[of ?s] by blast
qed

end
