(* ===== verification/LayoutTick.thy ===== *)
theory LayoutTick
  imports LayoutTrees
begin

text \<open>
  The spring embedder of \<open>CoSELayout\<close> (\<open>docs/.vitepress/cache/deps/cytoscape-cose-bilkent.js\<close>): \<open>tick\<close> counts
  iterations, cools, grows the trees back round by round and moves the nodes, and \<open>runSpringEmbedder\<close>
  ticks until a tick says it is done.  What is proved: the loop ends, and after how many ticks at most, unless it
  comes to a displacement that is \<open>NaN\<close> at the end of the phase after growth, which no check takes for
  convergence.  The outer \<open>option\<close> is \<open>None\<close> where the code does not return; \<open>Inl\<close> is an exception.  The
  animation between ticks is left out.
\<close>

subsection \<open>Control\<close>

text \<open>The fields of the layout that control the loop.  \<open>ct_gravity\<close> is \<open>nodesWithGravity\<close>.\<close>

record control =
  ct_iterations :: nat
  ct_max_iterations :: nat
  ct_pruned :: "pruned list list"
  ct_grow_iterations :: nat
  ct_after_growth :: nat
  ct_growing :: bool
  ct_finished :: bool
  ct_cycle :: nat
  ct_max_cycle :: jsnum
  ct_final_temperature :: jsnum
  ct_adjuster :: real
  ct_quality :: nat
  ct_incremental_cooling :: real
  ct_cooling :: jsnum
  ct_initial_cooling :: real
  ct_total_displacement :: jsnum
  ct_old_displacement :: jsnum
  ct_threshold :: real
  ct_max_displacement :: real
  ct_gravity :: "nat list"

text \<open>After the constructors and \<open>initParameters\<close>.\<close>

definition init_parameters :: "nat \<Rightarrow> nat \<Rightarrow> real \<Rightarrow> control" where
  "init_parameters quality max_iterations cooling =
     \<lparr>ct_iterations = 0, ct_max_iterations = max_iterations, ct_pruned = [], ct_grow_iterations = 0, ct_after_growth = 0,
      ct_growing = False, ct_finished = False, ct_cycle = 0, ct_max_cycle = js_div (JNum (real max_iterations)) (JNum 100),
      ct_final_temperature = js_div (JNum 100) (JNum (real max_iterations)), ct_adjuster = 1, ct_quality = quality,
      ct_incremental_cooling = cooling, ct_cooling = JNum cooling, ct_initial_cooling = cooling,
      ct_total_displacement = 0, ct_old_displacement = 0, ct_threshold = 0, ct_max_displacement = 0, ct_gravity = []\<rparr>"

definition init_spring_embedder :: "bool \<Rightarrow> nat \<Rightarrow> control \<Rightarrow> control" where
  "init_spring_embedder incremental s c =
     (let adaptation = (real s - 1000) / (5000 - 1000);
          many = s > 1000; old = ct_initial_cooling c;
          cooling =
            (if incremental then
               if many then max (old * (33 / 100)) (old - adaptation * old * (1 - 33 / 100)) else old
             else if many then max (33 / 100) (1 - adaptation * (1 - 33 / 100)) else 1)
      in c\<lparr>ct_cooling := JNum cooling, ct_initial_cooling := (if incremental then old else cooling),
           ct_max_displacement := (if incremental then 100 else 100 * 3),
           ct_max_iterations := max (s * 5) (ct_max_iterations c), ct_threshold := 3 * 50 / 100 * real s\<rparr>)"

definition is_converged :: "control \<Rightarrow> bool \<times> control" where
  "is_converged c =
     (let oscillating = real (ct_iterations c) > real (ct_max_iterations c) / 3 \<and>
            \<bar>ct_total_displacement c - ct_old_displacement c\<bar> < 2;
          converged = ct_total_displacement c < JNum (ct_threshold c)
      in (converged \<or> oscillating, c\<lparr>ct_old_displacement := ct_total_displacement c\<rparr>))"

text \<open>\<open>Math.pow\<close> of a number that counts cycles, from 1.\<close>

definition cycle_power :: "nat \<Rightarrow> jsnum \<Rightarrow> jsnum" where
  "cycle_power n v =
     (case v of
        JNum r \<Rightarrow> JNum (real n powr r)
      | JInf \<Rightarrow> if n = 1 then JNaN else JInf
      | JNegInf \<Rightarrow> if n = 1 then JNaN else JNum 0
      | JNaN \<Rightarrow> JNaN)"

definition next_cooling :: "control \<Rightarrow> jsnum" where
  "next_cooling c =
     (let exponent = js_div
            (js_log (js_mul (JNum 100) (js_sub (JNum (ct_initial_cooling c)) (ct_final_temperature c)))) (js_log (ct_max_cycle c))
      in js_max
           (js_sub (JNum (ct_initial_cooling c))
             (js_mul (js_div (cycle_power (ct_cycle c) exponent) (JNum 100)) (JNum (ct_adjuster c))))
           (ct_final_temperature c))"

definition cool :: "control \<Rightarrow> control" where
  "cool c =
     (let c = c\<lparr>ct_cycle := ct_cycle c + 1\<rparr>;
          c = (if ct_quality c = 0 then c\<lparr>ct_adjuster := real (ct_cycle c)\<rparr>
               else if ct_quality c = 1 then c\<lparr>ct_adjuster := real (ct_cycle c) / 3\<rparr> else c)
      in c\<lparr>ct_cooling := next_cooling c\<rparr>)"

subsection \<open>A tick\<close>

definition start_growing :: "control \<Rightarrow> bool \<times> control" where
  "start_growing c = (if ct_pruned c \<noteq> [] then (False, c\<lparr>ct_growing := True\<rparr>) else (True, c))"

text \<open>The checks a tick starts with: whether it is done, and the control from there.\<close>

definition last_iteration :: "control \<Rightarrow> bool \<times> control" where
  "last_iteration c =
     (if ct_iterations c = ct_max_iterations c \<and> \<not> ct_growing c \<and> \<not> ct_finished c then start_growing c else (False, c))"

definition check_convergence :: "control \<Rightarrow> bool \<times> control" where
  "check_convergence c =
     (if ct_iterations c mod 100 = 0 \<and> \<not> ct_growing c \<and> \<not> ct_finished c then
        (let (converged, c) = is_converged c; (done_now, c) = (if converged then start_growing c else (False, c))
         in if done_now then (True, c) else (False, cool c))
      else (False, c))"

definition and_then :: "('e + 'a) option \<Rightarrow> ('a \<Rightarrow> ('e + 'b) option) \<Rightarrow> ('e + 'b) option" where
  "and_then r f = (case r of None \<Rightarrow> None | Some (Inl er) \<Rightarrow> Some (Inl er) | Some (Inr x) \<Rightarrow> f x)"

definition bounds_and_grid :: "force_options \<Rightarrow> world \<Rightarrow> (layout_error + world) option" where
  "bounds_and_grid opts w = and_then (update_bounds opts w) (\<lambda>w. Some (update_grid opts w))"

text \<open>The nodes gravity applies to again, out of those there are now.\<close>

definition restore_gravity :: "nat list \<Rightarrow> world \<Rightarrow> layout_error + world" where
  "restore_gravity gravity w =
     (let (gm, ns) = get_all_nodes (reset_gravitated (wd_gm w))
      in map_sum id (\<lambda>gm. w\<lparr>wd_gm := gm\<rparr>) (set_gravitated (filter (\<lambda>n. n \<in> set ns) gravity) gm))"

definition grow_round ::
  "force_options \<Rightarrow> (nat \<Rightarrow> real) \<Rightarrow> control \<Rightarrow> world \<Rightarrow> (layout_error + control \<times> world) option" where
  "grow_round opts random c w =
     and_then (bounds_and_grid opts w) (\<lambda>w.
     and_then (Some (grow_tree random (ct_pruned c) w)) (\<lambda>(w, steps).
     and_then (Some (restore_gravity (ct_gravity c) w)) (\<lambda>w.
     and_then (bounds_and_grid opts w) (\<lambda>w.
       Some (Inr (c\<lparr>ct_pruned := steps, ct_cooling := JNum (ct_incremental_cooling c)\<rparr>, w))))))"

definition tree_growing ::
  "force_options \<Rightarrow> (nat \<Rightarrow> real) \<Rightarrow> control \<Rightarrow> world \<Rightarrow> (layout_error + control \<times> world) option" where
  "tree_growing opts random c w =
     (if ct_growing c then
        and_then
          (if ct_grow_iterations c mod 10 = 0 then
             if ct_pruned c \<noteq> [] then grow_round opts random c w
             else Some (Inr (c\<lparr>ct_growing := False, ct_finished := True\<rparr>, w))
           else Some (Inr (c, w)))
          (\<lambda>(c, w). Some (Inr (c\<lparr>ct_grow_iterations := ct_grow_iterations c + 1\<rparr>, w)))
      else Some (Inr (c, w)))"

definition after_growth :: "force_options \<Rightarrow> control \<Rightarrow> world \<Rightarrow> (layout_error + bool \<times> control \<times> world) option" where
  "after_growth opts c w =
     (if ct_finished c then
        (let (converged, c) = is_converged c
         in if converged then Some (Inr (True, c, w))
            else
              and_then (if ct_after_growth c mod 10 = 0 then bounds_and_grid opts w else Some (Inr w)) (\<lambda>w.
                Some (Inr (False,
                  c\<lparr>ct_cooling := JNum (ct_incremental_cooling c * ((100 - real (ct_after_growth c)) / 100)),
                    ct_after_growth := ct_after_growth c + 1\<rparr>, w))))
      else Some (Inr (False, c, w)))"

definition apply_forces :: "force_options \<Rightarrow> control \<Rightarrow> world \<Rightarrow> (layout_error + control \<times> world) option" where
  "apply_forces opts c w =
     (let grid_allowed = \<not> ct_growing c \<and> \<not> ct_finished c;
          forced = ct_grow_iterations c mod 10 = 1 \<and> ct_growing c \<or> ct_after_growth c mod 10 = 1 \<and> ct_finished c
      in and_then (update_bounds opts w) (\<lambda>w.
         and_then (Some (calc_spring_forces opts w)) (\<lambda>w.
         and_then (Some (calc_repulsion_forces opts (ct_iterations c) grid_allowed forced w)) (\<lambda>w.
         and_then (Some (calc_gravitational_forces opts w)) (\<lambda>w.
         map_option (\<lambda>(w, d). Inr (c\<lparr>ct_total_displacement := d\<rparr>, w))
           (move_nodes (ct_cooling c) (JNum (ct_max_displacement c)) w))))))"

text \<open>\<open>random\<close> is what \<open>Math.random()\<close> returns in an iteration, for a node that is placed.\<close>

definition tick ::
  "force_options \<Rightarrow> (nat \<Rightarrow> nat \<Rightarrow> real) \<Rightarrow> control \<Rightarrow> world \<Rightarrow> (layout_error + bool \<times> control \<times> world) option" where
  "tick opts random c w =
     (let c = c\<lparr>ct_iterations := ct_iterations c + 1\<rparr>; (over, c) = last_iteration c
      in if over then Some (Inr (True, c, w))
         else
          (let (over, c) = check_convergence c
           in if over then Some (Inr (True, c, w))
              else
                and_then (tree_growing opts (random (ct_iterations c)) c w) (\<lambda>(c, w).
                and_then (after_growth opts c w) (\<lambda>(over, c, w).
                  if over then Some (Inr (True, c, w))
                  else and_then (apply_forces opts c w) (\<lambda>(c, w). Some (Inr (False, c, w)))))))"

partial_function (option) tick_until_done ::
  "force_options \<Rightarrow> (nat \<Rightarrow> nat \<Rightarrow> real) \<Rightarrow> nat \<Rightarrow> control \<Rightarrow> world \<Rightarrow> (layout_error + nat \<times> control \<times> world) option" where
  "tick_until_done opts random k c w =
     Option.bind (tick opts random c w) (\<lambda>r.
       case r of
         Inl er \<Rightarrow> Some (Inl er)
       | Inr x \<Rightarrow>
           if fst x then Some (Inr (k + 1, snd x))
           else tick_until_done opts random (k + 1) (fst (snd x)) (snd (snd x)))"

text \<open>The ticks are counted from \<open>k\<close>.  \<open>runSpringEmbedder\<close>, when the layout is not animated during it:\<close>

definition run_spring_embedder ::
  "force_options \<Rightarrow> (nat \<Rightarrow> nat \<Rightarrow> real) \<Rightarrow> control \<Rightarrow> world \<Rightarrow> (layout_error + nat \<times> control \<times> world) option" where
  "run_spring_embedder opts random c w =
     and_then (tick_until_done opts random 0 c w) (\<lambda>(k, c, w).
     and_then (update_bounds opts w) (\<lambda>w. Some (Inr (k, c, w))))"

subsection \<open>How many ticks are left\<close>

text \<open>
  Up to the last iteration, then ten ticks a round of growth and one to end it, then a hundred until the
  layout has cooled to 0, and one that finds that nothing moved.
\<close>

definition to_round :: "nat \<Rightarrow> nat" where
  "to_round n = (10 - n mod 10) mod 10"

definition ticks_left :: "control \<Rightarrow> nat" where
  "ticks_left c =
     (if ct_finished c then 102 - ct_after_growth c
      else if ct_growing c then 10 * length (ct_pruned c) + to_round (ct_grow_iterations c) + 102
      else (ct_max_iterations c - ct_iterations c - 1) + 10 * length (ct_pruned c) + 102)"

lemma to_round:
  "to_round 0 = 0"
  "n mod 10 = 0 \<Longrightarrow> to_round (Suc n) = 9"
  "n mod 10 = 0 \<Longrightarrow> to_round n = 0"
  "n mod 10 \<noteq> 0 \<Longrightarrow> Suc (to_round (Suc n)) = to_round n"
proof -
  show "to_round (Suc n) = 9" if "n mod 10 = 0" using that by (simp add: to_round_def mod_Suc)
  show "Suc (to_round (Suc n)) = to_round n" if "n mod 10 \<noteq> 0"
  proof (cases "n mod 10 = 9")
    case False
    moreover have "n mod 10 < 10" by simp
    ultimately have "n mod 10 < 9" by linarith
    moreover have "Suc n mod 10 = Suc (n mod 10)" using False by (simp add: mod_Suc)
    ultimately show ?thesis using that by (simp add: to_round_def)
  qed (simp add: to_round_def mod_Suc)
qed (simp_all add: to_round_def)

definition phases :: "control \<Rightarrow> bool" where
  "phases c \<longleftrightarrow>
     (ct_finished c \<longrightarrow> \<not> ct_growing c) \<and> (\<not> ct_finished c \<longrightarrow> ct_after_growth c = 0) \<and> ct_after_growth c \<le> 101 \<and>
     (ct_after_growth c = 101 \<longrightarrow> ct_total_displacement c = JNum 0 \<or> ct_total_displacement c = JNaN) \<and>
     (\<not> ct_growing c \<and> \<not> ct_finished c \<longrightarrow> ct_iterations c < ct_max_iterations c \<and> ct_grow_iterations c = 0) \<and>
     0 < ct_threshold c"

text \<open>Cooled down, and nobody knows how far the nodes moved.\<close>

definition stuck :: "control \<Rightarrow> bool" where
  "stuck c \<longleftrightarrow> ct_after_growth c = 101 \<and> ct_total_displacement c = JNaN"

text \<open>Growth starts only where there are trees to grow back.\<close>

definition started :: "pruned list list \<Rightarrow> control \<Rightarrow> bool" where
  "started steps c \<longleftrightarrow> set (ct_pruned c) \<subseteq> set steps \<and> (ct_growing c \<or> ct_finished c \<longrightarrow> steps \<noteq> [])"

definition same_moves :: "control \<Rightarrow> control \<Rightarrow> bool" where
  "same_moves c c' \<longleftrightarrow> ct_total_displacement c' = ct_total_displacement c \<and> ct_after_growth c' = ct_after_growth c"

text \<open>Within a tick, which has counted its iteration.\<close>

definition room :: "control \<Rightarrow> nat" where
  "room c = (if \<not> ct_growing c \<and> \<not> ct_finished c then ticks_left c + 1 else ticks_left c)"

lemma last_iteration_phases:
  assumes "phases c" "last_iteration (c\<lparr>ct_iterations := ct_iterations c + 1\<rparr>) = (False, c')"
  shows "phases c' \<and> room c' \<le> ticks_left c \<and> ct_pruned c' = ct_pruned c \<and> same_moves c c' \<and>
    (started steps c \<longrightarrow> started steps c')"
proof (cases "ct_growing c \<or> ct_finished c")
  case True
  then have "c' = c\<lparr>ct_iterations := ct_iterations c + 1\<rparr>" using assms(2) by (auto simp: last_iteration_def)
  then show ?thesis using assms(1) True by (auto simp: phases_def room_def ticks_left_def same_moves_def started_def)
next
  case False
  then have c: "ct_iterations c < ct_max_iterations c" "ct_grow_iterations c = 0" using assms(1) by (auto simp: phases_def)
  show ?thesis
  proof (cases "ct_iterations c + 1 = ct_max_iterations c")
    case True
    then have "c' = c\<lparr>ct_iterations := ct_iterations c + 1, ct_growing := True\<rparr>"
      using assms(2) False by (auto simp: last_iteration_def start_growing_def split: if_splits)
    moreover have "ct_pruned c \<noteq> []"
      using assms(2) False True by (auto simp: last_iteration_def start_growing_def split: if_splits)
    ultimately show ?thesis using assms(1) False c to_round(1)
      by (auto simp: phases_def room_def ticks_left_def same_moves_def started_def)
  next
    case other: False
    then have "c' = c\<lparr>ct_iterations := ct_iterations c + 1\<rparr>" using assms(2) by (auto simp: last_iteration_def)
    then show ?thesis using assms(1) False c other
      by (simp add: phases_def room_def ticks_left_def same_moves_def started_def)
  qed
qed

lemma cool_phases:
  "phases (cool c) = phases c" "room (cool c) = room c" "ct_pruned (cool c) = ct_pruned c"
  "same_moves d (cool c) = same_moves d c" "started steps (cool c) = started steps c"
  by (auto simp: cool_def Let_def phases_def room_def ticks_left_def same_moves_def started_def)

lemma check_convergence_phases:
  assumes "phases c" "check_convergence c = (False, c')"
  shows "phases c' \<and> room c' \<le> room c \<and> ct_pruned c' = ct_pruned c \<and> same_moves c c' \<and>
    (started steps c \<longrightarrow> started steps c')"
proof (cases "ct_iterations c mod 100 = 0 \<and> \<not> ct_growing c \<and> \<not> ct_finished c")
  case True
  obtain conv c1 where c1: "is_converged c = (conv, c1)" by fastforce
  then have "phases c1" "room c1 = room c" "ct_pruned c1 = ct_pruned c" "\<not> ct_growing c1" "\<not> ct_finished c1"
    "same_moves c c1" "started steps c1 = started steps c"
    using assms(1) True by (auto simp: is_converged_def phases_def room_def ticks_left_def Let_def same_moves_def started_def)
  moreover obtain c2 where "(if conv then start_growing c1 else (False, c1)) = (False, c2)" "c' = cool c2"
    using assms(2) True c1 by (auto simp: check_convergence_def split: prod.splits if_splits)
  moreover from this have "c2 = c1 \<or> c2 = c1\<lparr>ct_growing := True\<rparr> \<and> ct_pruned c1 \<noteq> []"
    by (auto simp: start_growing_def split: if_splits)
  moreover have "same_moves c (c1\<lparr>ct_growing := True\<rparr>) = same_moves c c1"
    "ct_pruned c1 \<noteq> [] \<Longrightarrow> started steps c1 \<Longrightarrow> started steps (c1\<lparr>ct_growing := True\<rparr>)"
    by (auto simp: same_moves_def started_def)
  moreover have "phases (c1\<lparr>ct_growing := True\<rparr>)" "room (c1\<lparr>ct_growing := True\<rparr>) \<le> room c1"
    using calculation(1,4,5) to_round(1) by (auto simp: phases_def room_def ticks_left_def)
  ultimately show ?thesis by (auto simp: cool_phases)
next
  case False
  then have "c' = c" using assms(2) by (auto simp: check_convergence_def split: if_splits)
  then show ?thesis using assms(1) by (simp add: same_moves_def)
qed

lemma and_then_Inr: "and_then r f = Some (Inr y) \<longleftrightarrow> (\<exists>x. r = Some (Inr x) \<and> f x = Some (Inr y))"
  by (auto simp: and_then_def split: option.splits sum.splits)

lemma grow_tree_steps: "grow_tree random steps w = Inr (w', steps') \<Longrightarrow> steps' = butlast steps"
  by (auto simp: grow_tree_def map_sum_Inr split: if_splits)

lemma grow_round_control:
  assumes "grow_round opts random c w = Some (Inr (c', w'))"
  shows "c' = c\<lparr>ct_pruned := butlast (ct_pruned c), ct_cooling := JNum (ct_incremental_cooling c)\<rparr>"
  using assms by (auto simp: grow_round_def and_then_Inr dest!: grow_tree_steps)

lemma tree_growing_phases:
  assumes "phases c" "tree_growing opts random c w = Some (Inr (c', w'))"
  shows "phases c' \<and> ticks_left c' \<le> room c \<and> (\<not> ct_finished c' \<longrightarrow> ticks_left c' < room c) \<and>
    set (ct_pruned c') \<subseteq> set (ct_pruned c) \<and> same_moves c c' \<and> (started steps c \<longrightarrow> started steps c')"
proof (cases "ct_growing c")
  case True
  then have c: "\<not> ct_finished c" "ct_after_growth c = 0" "0 < ct_threshold c"
    "room c = 10 * length (ct_pruned c) + to_round (ct_grow_iterations c) + 102"
    using assms(1) by (auto simp: phases_def room_def ticks_left_def)
  obtain c1 w1 where c1: "c' = c1\<lparr>ct_grow_iterations := ct_grow_iterations c1 + 1\<rparr>"
    "(if ct_grow_iterations c mod 10 = 0 then
        if ct_pruned c \<noteq> [] then grow_round opts random c w else Some (Inr (c\<lparr>ct_growing := False, ct_finished := True\<rparr>, w))
      else Some (Inr (c, w))) = Some (Inr (c1, w1))"
    using assms(2) True by (auto simp: tree_growing_def and_then_Inr)
  consider "ct_grow_iterations c mod 10 \<noteq> 0" "c1 = c"
    | "ct_grow_iterations c mod 10 = 0" "ct_pruned c = []" "c1 = c\<lparr>ct_growing := False, ct_finished := True\<rparr>"
    | "ct_grow_iterations c mod 10 = 0" "ct_pruned c \<noteq> []" "grow_round opts random c w = Some (Inr (c1, w1))"
    using c1(2) by (auto split: if_splits)
  then show ?thesis
  proof cases
    case 1
    then show ?thesis using True c c1(1) to_round(4)[of "ct_grow_iterations c"]
      by (simp add: phases_def ticks_left_def same_moves_def started_def)
  next
    case 2
    then show ?thesis using True c c1(1) to_round(3)[of "ct_grow_iterations c"]
      by (simp add: phases_def ticks_left_def same_moves_def started_def)
  next
    case 3
    then have "Suc (length (butlast (ct_pruned c))) = length (ct_pruned c)" by simp
    then have "9 + 10 * length (butlast (ct_pruned c)) < 10 * length (ct_pruned c)" by linarith
    then show ?thesis
      using True c c1(1) 3 grow_round_control[OF 3(3)] to_round(2,3)[of "ct_grow_iterations c"]
      by (auto simp: phases_def ticks_left_def same_moves_def started_def simp del: length_butlast dest: in_set_butlastD)
  qed
next
  case False
  then show ?thesis using assms by (auto simp: tree_growing_def room_def same_moves_def)
qed

lemma after_growth_phases:
  assumes "phases c" "\<not> stuck c" "after_growth opts c w = Some (Inr (False, c', w'))"
  shows "phases (c'\<lparr>ct_total_displacement := JNum 0\<rparr>) \<and> (ct_after_growth c' = 101 \<longrightarrow> ct_cooling c' = JNum 0) \<and>
    ct_pruned c' = ct_pruned c \<and> (started steps c \<longrightarrow> started steps c') \<and> ticks_left c' \<le> ticks_left c \<and> (ct_finished c \<longrightarrow> ticks_left c' < ticks_left c)"
proof (cases "ct_finished c")
  case True
  obtain conv c1 where c1: "is_converged c = (conv, c1)" by fastforce
  then have c: "c1 = c\<lparr>ct_old_displacement := ct_total_displacement c\<rparr>"
    "ct_total_displacement c < JNum (ct_threshold c) \<Longrightarrow> conv" by (auto simp: is_converged_def Let_def)
  have "\<not> conv" and c': "c' = c1\<lparr>ct_cooling := JNum (ct_incremental_cooling c1 * ((100 - real (ct_after_growth c1)) / 100)),
      ct_after_growth := ct_after_growth c1 + 1\<rparr>"
    using assms(3) True c1 by (auto simp: after_growth_def and_then_Inr split: if_splits)
  then have "ct_after_growth c \<noteq> 101" using c(2) assms(1,2) by (auto simp: phases_def stuck_def jsnum_finite)
  then show ?thesis using assms(1) True by (auto simp: c' c(1) phases_def ticks_left_def started_def)
next
  case False
  then have "c' = c" using assms(3) by (auto simp: after_growth_def)
  then show ?thesis using assms(1) False by (auto simp: phases_def)
qed

lemma apply_forces_control:
  assumes "apply_forces opts c w = Some (Inr (c', w'))"
  shows "\<exists>d. c' = c\<lparr>ct_total_displacement := d\<rparr> \<and> (ct_cooling c = JNum 0 \<longrightarrow> d = JNum 0 \<or> d = JNaN)"
proof -
  obtain v d where "move_nodes (ct_cooling c) (JNum (ct_max_displacement c)) v = Some (w', d)"
    "c' = c\<lparr>ct_total_displacement := d\<rparr>"
    using assms by (auto simp: apply_forces_def and_then_Inr Let_def)
  then show ?thesis using move_nodes_still[of "ct_max_displacement c" v w' d] by (intro exI[of _ d]) auto
qed

lemma tick_phases:
  assumes "phases c" "started steps c" "\<not> stuck c" "tick opts random c w = Some (Inr (False, c', w'))"
  shows "phases c' \<and> ticks_left c' < ticks_left c \<and> started steps c'"
proof -
  let ?c = "c\<lparr>ct_iterations := ct_iterations c + 1\<rparr>"
  obtain c1 c2 where c1: "last_iteration ?c = (False, c1)" and c2: "check_convergence c1 = (False, c2)"
    using assms(4) by (auto simp: tick_def Let_def split: prod.splits if_splits)
  then obtain c3 w3 c4 w4 where c3: "tree_growing opts (random (ct_iterations c2)) c2 w = Some (Inr (c3, w3))"
    and c4: "after_growth opts c3 w3 = Some (Inr (False, c4, w4))" and c5: "apply_forces opts c4 w4 = Some (Inr (c', w'))"
    using assms(4) by (auto simp: tick_def Let_def and_then_Inr split: if_splits)
  have p1: "phases c1" "room c1 \<le> ticks_left c" "same_moves c c1" "started steps c1"
    using last_iteration_phases[OF assms(1) c1, of steps] assms(2) by auto
  have p2: "phases c2" "room c2 \<le> room c1" "same_moves c1 c2" "started steps c2"
    using check_convergence_phases[OF p1(1) c2, of steps] p1(4) by auto
  have p3: "phases c3" "ticks_left c3 \<le> room c2" "\<not> ct_finished c3 \<Longrightarrow> ticks_left c3 < room c2"
    "same_moves c2 c3" "started steps c3" using tree_growing_phases[OF p2(1) c3, of steps] p2(4) by auto
  have "\<not> stuck c3" using assms(3) p1(3) p2(3) p3(4) by (simp add: stuck_def same_moves_def)
  then have p4: "phases (c4\<lparr>ct_total_displacement := JNum 0\<rparr>)" "ct_after_growth c4 = 101 \<Longrightarrow> ct_cooling c4 = JNum 0"
    "started steps c4" "ticks_left c4 \<le> ticks_left c3" "ct_finished c3 \<Longrightarrow> ticks_left c4 < ticks_left c3"
    using after_growth_phases[OF p3(1) _ c4, of steps] p3(5) by auto
  obtain d where d: "c' = c4\<lparr>ct_total_displacement := d\<rparr>" "ct_cooling c4 = JNum 0 \<Longrightarrow> d = JNum 0 \<or> d = JNaN"
    using apply_forces_control[OF c5] by auto
  have "ticks_left c' = ticks_left c4" "started steps c'" using p4(3) by (simp_all add: d(1) ticks_left_def started_def)
  moreover have "phases c'" using p4(1,2) d by (auto simp: phases_def)
  ultimately show ?thesis using p1 p2 p3 p4 by (cases "ct_finished c3") auto
qed

text \<open>While the displacement is \<open>NaN\<close> no tick after growth is the last one.\<close>

lemma nan_never_converges:
  assumes "ct_finished c" "ct_total_displacement c = JNaN" "\<not> ct_growing c" "tick opts random c w = Some (Inr (over, c', w'))"
  shows "\<not> over"
proof -
  have conv: "is_converged d = (False, d\<lparr>ct_old_displacement := JNaN\<rparr>)" if "ct_total_displacement d = JNaN" for d
    using that by (auto simp: is_converged_def Let_def less_jsnum_def minus_jsnum_def js_sub_def abs_jsnum_def js_abs_def)
  show ?thesis using assms
    by (auto simp: conv tick_def Let_def last_iteration_def check_convergence_def tree_growing_def after_growth_def and_then_Inr
        split: prod.splits if_splits)
qed

subsection \<open>Each tick returns\<close>

text \<open>Graphs nest: those inside the nodes of a graph rank below it.\<close>

definition nests :: "(nat \<Rightarrow> nat) \<Rightarrow> manager \<Rightarrow> bool" where
  "nests rank s \<longleftrightarrow> (\<forall>g n h. n \<in> set (nodes_in s g) \<longrightarrow> nd_child (gm_node s n) = Some h \<longrightarrow> rank h < rank g)"

definition below :: "(nat \<Rightarrow> nat) \<Rightarrow> manager \<Rightarrow> nat \<Rightarrow> nat list \<Rightarrow> bool" where
  "below rank s k ns \<longleftrightarrow> (\<forall>n \<in> set ns. \<forall>h. nd_child (gm_node s n) = Some h \<longrightarrow> rank h < k)"

definition same_nesting :: "manager \<Rightarrow> manager \<Rightarrow> bool" where
  "same_nesting s t \<longleftrightarrow> (\<forall>n. nd_child (gm_node t n) = nd_child (gm_node s n)) \<and> (\<forall>g. nodes_in t g = nodes_in s g)"

lemma below_graph: "nests rank s \<Longrightarrow> below rank s (rank g) (nodes_in s g)"
  by (auto simp: nests_def below_def)

lemma below_Cons: "below rank s k (n # ns) \<longleftrightarrow> (\<forall>h. nd_child (gm_node s n) = Some h \<longrightarrow> rank h < k) \<and> below rank s k ns"
  by (auto simp: below_def)

lemma set_bounds_gm: "set_bounds g b w = Inr w' \<Longrightarrow> wd_gm w' = wd_gm w"
  by (auto simp: set_bounds_def map_sum_Inr upd_box_def Let_def split: if_splits)

lemma fit_node_gm: "wd_gm (fit_node opts n g w) = wd_gm w"
  by (simp add: fit_node_def Let_def upd_body_def)

lemma bounds_from_returns:
  assumes "nests rank (wd_gm w)" "below rank (wd_gm w) k ns"
  shows "\<exists>r. bounds_from opts ns b w = Some r \<and> (\<forall>w' b'. r = Inr (w', b') \<longrightarrow> wd_gm w' = wd_gm w)"
  using assms
proof (induction k arbitrary: ns b w rule: less_induct)
  case (less k)
  from less.prems show ?case
  proof (induction ns arbitrary: b w)
    case Nil
    then show ?case by (simp add: bounds_from.simps)
  next
    case (Cons n ns)
    let ?inside = "case child_of w n of
        None \<Rightarrow> Some (Inr w)
      | Some g \<Rightarrow>
          if graph_nodes w g = [] then Some (Inr w)
          else Option.bind (bounds_from opts (graph_nodes w g) no_bounds w) (\<lambda>r.
            case r of Inl er \<Rightarrow> Some (Inl er)
            | Inr wb \<Rightarrow> Some (map_sum id (fit_node opts n g) (set_bounds g (snd wb) (fst wb))))"
    have "\<exists>r. ?inside = Some r \<and> (\<forall>w'. r = Inr w' \<longrightarrow> wd_gm w' = wd_gm w)"
    proof (cases "child_of w n")
      case None
      then show ?thesis by simp
    next
      case (Some g)
      then have "rank g < k" using Cons.prems(2) by (simp add: below_Cons child_of_def)
      moreover have "below rank (wd_gm w) (rank g) (graph_nodes w g)"
        using below_graph[OF Cons.prems(1), of g] by (simp add: graph_nodes_def nodes_in_def)
      ultimately obtain r where "bounds_from opts (graph_nodes w g) no_bounds w = Some r"
        "\<And>w' b'. r = Inr (w', b') \<Longrightarrow> wd_gm w' = wd_gm w"
        using less.IH[of "rank g" w "graph_nodes w g" no_bounds] Cons.prems(1) by auto
      then show ?thesis using Some
        by (cases r) (auto simp: map_sum_Inr fit_node_gm dest!: set_bounds_gm)
    qed
    then obtain r where r: "?inside = Some r" "\<And>w'. r = Inr w' \<Longrightarrow> wd_gm w' = wd_gm w" by blast
    show ?case
    proof (cases r)
      case (Inl er)
      then show ?thesis using r(1) by (subst bounds_from.simps) simp
    next
      case (Inr w1)
      then have w1: "wd_gm w1 = wd_gm w" using r(2) by simp
      then obtain r' where "bounds_from opts ns (extend_bounds (rect_of w1 n) b) w1 = Some r'"
        "\<forall>w' b'. r' = Inr (w', b') \<longrightarrow> wd_gm w' = wd_gm w1"
        using Cons.IH[of w1 "extend_bounds (rect_of w1 n) b"] Cons.prems by (auto simp: below_Cons)
      then show ?thesis using r(1) Inr w1 by (subst bounds_from.simps) simp
    qed
  qed
qed

lemma update_bounds_returns:
  assumes "nests rank (wd_gm w)"
  shows "\<exists>r. update_bounds opts w = Some r \<and> (\<forall>w'. r = Inr w' \<longrightarrow> wd_gm w' = wd_gm w)"
proof (cases "gm_root (wd_gm w)")
  case None
  then show ?thesis by (simp add: update_bounds_def)
next
  case (Some g)
  have "below rank (wd_gm w) (rank g) (graph_nodes w g)"
    using below_graph[OF assms, of g] by (simp add: graph_nodes_def nodes_in_def)
  then obtain r where "bounds_from opts (graph_nodes w g) no_bounds w = Some r"
    "\<And>w' b'. r = Inr (w', b') \<Longrightarrow> wd_gm w' = wd_gm w"
    using bounds_from_returns[OF assms] by blast
  then show ?thesis using Some
    by (cases r) (auto simp: update_bounds_def graph_update_bounds_def dest!: set_bounds_gm)
qed

lemma propagate_returns:
  assumes "nests rank (wd_gm w)" "below rank (wd_gm w) k ns"
  shows "\<exists>w'. propagate_displacement dx dy (ns @ rest) w = propagate_displacement dx dy rest w' \<and> wd_gm w' = wd_gm w"
  using assms
proof (induction k arbitrary: ns rest w rule: less_induct)
  case (less k)
  from less.prems show ?case
  proof (induction ns arbitrary: w)
    case Nil
    then show ?case by auto
  next
    case (Cons n ns)
    show ?case
    proof (cases "child_of w n")
      case None
      let ?w = "upd_body n (\<lambda>x. x\<lparr>bd_rect := nr_move_by dx dy (bd_rect x), bd_displacement_x := bd_displacement_x x + dx,
        bd_displacement_y := bd_displacement_y x + dy\<rparr>) w"
      have "wd_gm ?w = wd_gm w" by (simp add: upd_body_def)
      then obtain w' where "propagate_displacement dx dy (ns @ rest) ?w = propagate_displacement dx dy rest w'" "wd_gm w' = wd_gm w"
        using Cons.IH[of ?w] Cons.prems by (auto simp: below_Cons)
      then show ?thesis using None by (subst propagate_displacement.simps) auto
    next
      case (Some g)
      then have "rank g < k" using Cons.prems(2) by (simp add: below_Cons child_of_def)
      moreover have "below rank (wd_gm w) (rank g) (graph_nodes w g)"
        using below_graph[OF Cons.prems(1), of g] by (simp add: graph_nodes_def nodes_in_def)
      ultimately obtain w1 where w1: "propagate_displacement dx dy (graph_nodes w g @ ns @ rest) w =
          propagate_displacement dx dy (ns @ rest) w1" "wd_gm w1 = wd_gm w"
        using less.IH[of "rank g" w "graph_nodes w g" "ns @ rest"] Cons.prems(1) by auto
      moreover obtain w' where "propagate_displacement dx dy (ns @ rest) w1 = propagate_displacement dx dy rest w'"
        "wd_gm w' = wd_gm w1" using Cons.IH[of w1] Cons.prems w1(2) by (auto simp: below_Cons)
      ultimately show ?thesis using Some by (subst propagate_displacement.simps) auto
    qed
  qed
qed

lemma move_node_returns:
  assumes "nests rank (wd_gm w)"
  shows "\<exists>w' d. move_node cooling m n w = Some (w', d) \<and> wd_gm w' = wd_gm w"
proof (cases "child_of w n = None \<or> graph_nodes w (the (child_of w n)) = []")
  case True
  then have "(case child_of w n of None \<Rightarrow> True | Some g \<Rightarrow> graph_nodes w g = [])" by (auto split: option.splits)
  then show ?thesis by (auto simp: move_node_def Let_def case_prod_unfold upd_body_def)
next
  case False
  then obtain g where g: "child_of w n = Some g" "graph_nodes w g \<noteq> []" by auto
  have "below rank (wd_gm w) (rank g) (graph_nodes w g)"
    using below_graph[OF assms, of g] by (simp add: graph_nodes_def nodes_in_def)
  then have "\<exists>w'. propagate_displacement dx dy (graph_nodes w g @ []) w = propagate_displacement dx dy [] w' \<and> wd_gm w' = wd_gm w"
    for dx dy using propagate_returns[OF assms] by blast
  then have "\<exists>w'. propagate_displacement dx dy (graph_nodes w g) w = Some w' \<and> wd_gm w' = wd_gm w" for dx dy
    by (simp add: propagate_displacement.simps)
  from this[of "fst (displacement_of cooling m (wd_body w n))" "snd (displacement_of cooling m (wd_body w n))"]
  show ?thesis using g by (auto simp: move_node_def Let_def case_prod_unfold upd_body_def)
qed

lemma move_each_returns:
  assumes "nests rank (wd_gm w)"
  shows "\<exists>w' d'. move_each cooling m ns d w = Some (w', d') \<and> wd_gm w' = wd_gm w"
  using assms
proof (induction ns arbitrary: d w)
  case (Cons n ns)
  obtain w1 d1 where w1: "move_node cooling m n w = Some (w1, d1)" "wd_gm w1 = wd_gm w"
    using move_node_returns[OF Cons.prems] by blast
  then show ?case using Cons.IH[of w1 "d + d1"] Cons.prems by auto
qed simp

text \<open>A run of steps, each of which keeps the graphs.\<close>

definition returns_kept :: "world \<Rightarrow> (layout_error + world) option \<Rightarrow> bool" where
  "returns_kept w r \<longleftrightarrow> (\<exists>x. r = Some x \<and> (\<forall>w'. x = Inr w' \<longrightarrow> same_nesting (wd_gm w) (wd_gm w')))"

lemma same_nesting_refl [simp]: "same_nesting s s"
  by (simp add: same_nesting_def)

lemma same_nesting_trans: "same_nesting s t \<Longrightarrow> same_nesting t u \<Longrightarrow> same_nesting s u"
  by (simp add: same_nesting_def)

lemma same_nesting_nests: "same_nesting s t \<Longrightarrow> nests rank t = nests rank s"
  by (simp add: same_nesting_def nests_def)

lemma get_all_nodes_nesting: "same_nesting s (fst (get_all_nodes s))"
  by (simp add: get_all_nodes_gm same_nesting_def nodes_in_def)

lemma get_all_edges_nesting: "same_nesting s (fst (get_all_edges s))"
  by (simp add: get_all_edges_gm same_nesting_def nodes_in_def)

lemma calc_spring_forces_nesting:
  assumes "calc_spring_forces opts w = Inr w'"
  shows "same_nesting (wd_gm w) (wd_gm w')"
proof -
  have "each (calc_spring_force opts) (snd (get_all_edges (wd_gm w))) (w\<lparr>wd_gm := fst (get_all_edges (wd_gm w))\<rparr>) = Inr w'"
    using assms by (simp add: calc_spring_forces_def case_prod_unfold Let_def)
  then have "wd_gm w' = fst (get_all_edges (wd_gm w))"
    by (rule each_keeps[where P = "\<lambda>v. wd_gm v = fst (get_all_edges (wd_gm w))"]) (auto dest: calc_spring_force_gm)
  then show ?thesis by (simp add: get_all_edges_nesting)
qed

lemma calc_repulsion_force_gm: "calc_repulsion_force opts a b w = Inr w' \<Longrightarrow> wd_gm w' = wd_gm w"
  by (auto simp: calc_repulsion_force_def Let_def add_repulsion_def upd_body_def
      split: option.splits prod.splits jsnum.splits sum.splits if_splits)

lemma each_gm:
  assumes "each f xs w = Inr w'" "\<And>x v v'. f x v = Inr v' \<Longrightarrow> wd_gm v' = wd_gm (v :: world)"
  shows "wd_gm w' = wd_gm w"
  by (rule each_keeps[OF assms(1), of "\<lambda>v. wd_gm v = wd_gm w"]) (auto dest: assms(2))

lemma repulsion_of_node_gm: "repulsion_of_node opts i ga f a ps w = Inr w' \<Longrightarrow> wd_gm w' = wd_gm w"
  by (auto simp: repulsion_of_node_def Let_def upd_body_def dest!: each_gm[OF _ calc_repulsion_force_gm] split: if_splits)

lemma repulsion_on_grid_gm: "repulsion_on_grid opts i ga f ns ps w = Inr w' \<Longrightarrow> wd_gm w' = wd_gm w"
  by (induction ns arbitrary: ps w) (auto dest!: repulsion_of_node_gm split: sum.splits)

lemma repulsion_in_graph_gm: "repulsion_in_graph opts a b w = Inr w' \<Longrightarrow> wd_gm w' = wd_gm w"
  by (auto simp: repulsion_in_graph_def dest!: calc_repulsion_force_gm split: if_splits)

lemma repulsion_of_pairs_gm: "repulsion_of_pairs opts ns w = Inr w' \<Longrightarrow> wd_gm w' = wd_gm w"
  by (induction ns arbitrary: w) (auto dest!: each_gm[OF _ repulsion_in_graph_gm] split: sum.splits)

lemma add_node_to_grid_gm: "add_node_to_grid opts x y v w = Inr w' \<Longrightarrow> wd_gm w' = wd_gm w"
  unfolding add_node_to_grid_def Let_def by (auto simp: map_sum_Inr upd_body_def split: option.splits if_splits)

lemma update_grid_nesting:
  assumes "update_grid opts w = Inr w'"
  shows "same_nesting (wd_gm w) (wd_gm w')"
proof -
  let ?gm = "fst (get_all_nodes (wd_gm w))"
  obtain g grid where "each (add_node_to_grid opts (bx_left (bx_bounds (wd_box w g))) (bx_top (bx_bounds (wd_box w g))))
      (snd (get_all_nodes (wd_gm w))) (w\<lparr>wd_gm := ?gm, wd_grid := grid\<rparr>) = Inr w'"
    using assms by (simp add: update_grid_def case_prod_unfold Let_def split: option.splits sum.splits)
  then have "wd_gm w' = ?gm" by (drule_tac each_gm[OF _ add_node_to_grid_gm]) simp_all
  then show ?thesis by (simp add: get_all_nodes_nesting)
qed

lemma calc_repulsion_forces_nesting:
  assumes "calc_repulsion_forces opts i ga f w = Inr w'"
  shows "same_nesting (wd_gm w) (wd_gm w')"
proof -
  let ?w = "w\<lparr>wd_gm := fst (get_all_nodes (wd_gm w))\<rparr>"
  have "same_nesting (wd_gm ?w) (wd_gm w')"
    using assms
    by (auto simp: calc_repulsion_forces_def case_prod_unfold Let_def split: if_splits sum.splits
        dest!: repulsion_on_grid_gm repulsion_of_pairs_gm update_grid_nesting)
  then show ?thesis using same_nesting_trans[OF get_all_nodes_nesting] by simp
qed

lemma calc_gravitational_forces_gm: "calc_gravitational_forces opts w = Inr w' \<Longrightarrow> wd_gm w' = wd_gm w"
proof -
  have "calc_gravitational_force opts n v = Inr v' \<Longrightarrow> wd_gm v' = wd_gm v" for n v v'
    by (auto simp: calc_gravitational_force_def Let_def upd_body_def split: option.splits if_splits)
  then show "calc_gravitational_forces opts w = Inr w' \<Longrightarrow> wd_gm w' = wd_gm w"
    by (auto simp: calc_gravitational_forces_def split: option.splits dest!: each_gm)
qed

lemma move_nodes_returns:
  assumes "nests rank (wd_gm w)"
  shows "\<exists>w' d. move_nodes cooling m w = Some (w', d) \<and> same_nesting (wd_gm w) (wd_gm w')"
proof -
  let ?w = "w\<lparr>wd_gm := fst (get_all_nodes (wd_gm w))\<rparr>"
  have kept: "same_nesting (wd_gm w) (wd_gm ?w)" by (simp add: get_all_nodes_nesting)
  then have "nests rank (wd_gm ?w)" using assms same_nesting_nests by blast
  then obtain w' d where "move_each cooling m (snd (get_all_nodes (wd_gm w))) 0 ?w = Some (w', d)" "wd_gm w' = wd_gm ?w"
    using move_each_returns by blast
  then show ?thesis using kept by (simp add: move_nodes_def case_prod_unfold Let_def)
qed

subsection \<open>Growing keeps the nesting\<close>

definition leaves_only :: "manager \<Rightarrow> pruned list list \<Rightarrow> bool" where
  "leaves_only s steps \<longleftrightarrow> (\<forall>ps \<in> set steps. \<forall>p \<in> set ps. nd_child (gm_node s (pn_node p)) = None)"

text \<open>What a tick relies on: graphs nest, and the nodes to come back are not compounds.\<close>

definition growable :: "(nat \<Rightarrow> nat) \<Rightarrow> pruned list list \<Rightarrow> world \<Rightarrow> bool" where
  "growable rank steps w \<longleftrightarrow> nests rank (wd_gm w) \<and> leaves_only (wd_gm w) steps"

lemma growable_kept: "growable rank steps w \<Longrightarrow> same_nesting (wd_gm w) (wd_gm w') \<Longrightarrow> growable rank steps w'"
  using same_nesting_nests by (auto simp: growable_def leaves_only_def same_nesting_def)

lemma growable_subset: "growable rank steps w \<Longrightarrow> set steps' \<subseteq> set steps \<Longrightarrow> growable rank steps' w"
  by (auto simp: growable_def leaves_only_def)

lemma graph_add_edge_nesting: "graph_add_edge g e a b s = Inr s' \<Longrightarrow> same_nesting s s'"
  by (auto simp: graph_add_edge_def same_nesting_def store_simps split: if_splits)

lemma graph_add_node_nests:
  assumes "graph_add_node g n s = Inr s'" "nests rank s" "nd_child (gm_node s n) = None"
  shows "nests rank s' \<and> (\<forall>m. nd_child (gm_node s' m) = nd_child (gm_node s m))"
proof -
  have c: "nd_child (gm_node s' m) = nd_child (gm_node s m)" for m
    using assms(1) by (auto simp: graph_add_node_def store_simps split: if_splits)
  have "n' \<in> set (nodes_in s' h) \<Longrightarrow> n' \<in> set (nodes_in s h) \<or> n' = n" for n' h
    using assms(1) by (auto simp: graph_add_node_def store_simps split: if_splits)
  then show ?thesis using assms(2,3) unfolding nests_def c by fastforce
qed

lemma regrow_nests:
  assumes "regrow p s = Inr s'" "nests rank s" "nd_child (gm_node s (pn_node p)) = None"
  shows "nests rank s' \<and> (\<forall>m. nd_child (gm_node s' m) = nd_child (gm_node s m))"
proof -
  obtain g s1 a b where s1: "graph_add_node g (pn_node p) s = Inr s1" "graph_add_edge g (pn_edge p) a b s1 = Inr s'"
    using assms(1) by (auto simp: regrow_def split: option.splits sum.splits)
  from graph_add_node_nests[OF s1(1) assms(2,3)] graph_add_edge_nesting[OF s1(2)] show ?thesis
    using same_nesting_nests[of s1 s' rank] by (simp add: same_nesting_def)
qed

lemma grow_node_growable:
  assumes "grow_node random p w = Inr w'" "growable rank steps w" "nd_child (gm_node (wd_gm w) (pn_node p)) = None"
  shows "growable rank steps w' \<and> (\<forall>m. nd_child (gm_node (wd_gm w') m) = nd_child (gm_node (wd_gm w) m))"
proof -
  obtain w1 gm where w1: "wd_gm w1 = wd_gm w" "regrow p (wd_gm w) = Inr gm" "w' = w1\<lparr>wd_gm := gm\<rparr>"
    using assms(1) by (elim grow_node_cases)
  from regrow_nests[OF w1(2), of rank] assms(2,3) show ?thesis
    by (auto simp: w1(3) growable_def leaves_only_def)
qed

lemma grow_all_growable:
  assumes "each (grow_node random) ps w = Inr w'" "growable rank steps w"
    "\<forall>p \<in> set ps. nd_child (gm_node (wd_gm w) (pn_node p)) = None"
  shows "growable rank steps w'"
  using assms
proof (induction ps arbitrary: w)
  case (Cons p ps)
  from Cons.prems(1) obtain w1 where "grow_node random p w = Inr w1" "each (grow_node random) ps w1 = Inr w'"
    by (auto split: sum.splits)
  with Cons.IH[of w1] grow_node_growable[of random p w w1] Cons.prems show ?case by auto
qed simp

lemma grow_tree_growable:
  assumes "grow_tree random steps w = Inr (w', steps')" "growable rank steps w"
  shows "growable rank steps' w'"
proof -
  obtain w1 where w1: "each (grow_node random) (last steps) w = Inr w1" "steps \<noteq> []"
    "w' = w1\<lparr>wd_gm := reset_all_edges (reset_all_nodes (wd_gm w1))\<rparr>" "steps' = butlast steps"
    using assms(1) by (auto simp: grow_tree_def map_sum_Inr split: if_splits)
  moreover have "\<forall>p \<in> set (last steps). nd_child (gm_node (wd_gm w) (pn_node p)) = None"
    using assms(2) last_in_set[OF w1(2)] by (auto simp: growable_def leaves_only_def)
  ultimately have "growable rank steps w1" using grow_all_growable[OF w1(1) assms(2)] by blast
  then have "growable rank steps w'"
    by (rule growable_kept) (simp add: w1(3) same_nesting_def nodes_in_def reset_all_edges_def reset_all_nodes_def)
  then show ?thesis using growable_subset w1(4) by (metis in_set_butlastD subsetI)
qed

lemma restore_gravity_nesting: "restore_gravity gravity w = Inr w' \<Longrightarrow> same_nesting (wd_gm w) (wd_gm w')"
  by (auto simp: restore_gravity_def case_prod_unfold Let_def get_all_nodes_gm set_gravitated_def reset_gravitated_def
      same_nesting_def nodes_in_def split: if_splits)

subsection \<open>The loop ends\<close>

lemma bounds_and_grid_returns:
  assumes "growable rank steps w"
  shows "\<exists>r. bounds_and_grid opts w = Some r \<and> (\<forall>w'. r = Inr w' \<longrightarrow> growable rank steps w')"
proof -
  obtain r where r: "update_bounds opts w = Some r" "\<And>w'. r = Inr w' \<Longrightarrow> wd_gm w' = wd_gm w"
    using update_bounds_returns assms by (metis growable_def)
  show ?thesis
  proof (cases r)
    case (Inr w1)
    have "growable rank steps w1" using growable_kept[OF assms, of w1] r(2)[OF Inr] by simp
    then show ?thesis using r(1) Inr growable_kept update_grid_nesting
      by (auto simp: bounds_and_grid_def and_then_def)
  qed (use r(1) in \<open>simp add: bounds_and_grid_def and_then_def\<close>)
qed

lemma and_then_returns:
  assumes "\<exists>r. x = Some r \<and> (\<forall>y. r = Inr y \<longrightarrow> P y)" "\<And>y. P y \<Longrightarrow> \<exists>r. f y = Some r \<and> (\<forall>z. r = Inr z \<longrightarrow> Q z)"
  shows "\<exists>r. and_then x f = Some r \<and> (\<forall>z. r = Inr z \<longrightarrow> Q z)"
proof -
  obtain r where r: "x = Some r" "\<And>y. r = Inr y \<Longrightarrow> P y" using assms(1) by blast
  show ?thesis
  proof (cases r)
    case (Inr y)
    then show ?thesis using r assms(2)[of y] by (simp add: and_then_def)
  qed (use r(1) in \<open>simp add: and_then_def\<close>)
qed

lemma returns_Some: "(\<And>y. r = Inr y \<Longrightarrow> P y) \<Longrightarrow> \<exists>r'. Some r = Some r' \<and> (\<forall>y. r' = Inr y \<longrightarrow> P y)"
  by simp

lemma grow_round_returns:
  assumes "growable rank (ct_pruned c) w"
  shows "\<exists>r. grow_round opts random c w = Some r \<and> (\<forall>cw. r = Inr cw \<longrightarrow> growable rank (ct_pruned (fst cw)) (snd cw))"
  unfolding grow_round_def
proof (rule and_then_returns[OF bounds_and_grid_returns[OF assms]], rule and_then_returns)
  fix w1 assume w1: "growable rank (ct_pruned c) w1"
  show "\<exists>r. Some (grow_tree random (ct_pruned c) w1) = Some r \<and> (\<forall>y. r = Inr y \<longrightarrow> growable rank (snd y) (fst y))"
    by (rule returns_Some) (use grow_tree_growable[OF _ w1] in \<open>metis prod.collapse\<close>)
next
  fix y :: "world \<times> pruned list list" assume y: "growable rank (snd y) (fst y)"
  obtain w2 steps where y': "y = (w2, steps)" by fastforce
  have "\<exists>r. Some (restore_gravity (ct_gravity c) w2) = Some r \<and> (\<forall>z. r = Inr z \<longrightarrow> growable rank steps z)"
    by (rule returns_Some) (use growable_kept[of rank steps w2] restore_gravity_nesting y y' in auto)
  then have "\<exists>r. and_then (Some (restore_gravity (ct_gravity c) w2))
     (\<lambda>w. and_then (bounds_and_grid opts w)
        (\<lambda>w. Some (Inr (c\<lparr>ct_pruned := steps, ct_cooling := JNum (ct_incremental_cooling c)\<rparr>, w)))) = Some r \<and>
     (\<forall>cw. r = Inr cw \<longrightarrow> growable rank (ct_pruned (fst cw)) (snd cw))"
    by (rule and_then_returns) (rule and_then_returns[OF bounds_and_grid_returns], assumption, simp)
  then show "\<exists>r. (case y of (w, steps) \<Rightarrow> and_then (Some (restore_gravity (ct_gravity c) w))
     (\<lambda>w. and_then (bounds_and_grid opts w)
        (\<lambda>w. Some (Inr (c\<lparr>ct_pruned := steps, ct_cooling := JNum (ct_incremental_cooling c)\<rparr>, w))))) = Some r \<and>
     (\<forall>cw. r = Inr cw \<longrightarrow> growable rank (ct_pruned (fst cw)) (snd cw))" by (simp add: y')
qed

lemma tree_growing_returns:
  assumes "growable rank (ct_pruned c) w"
  shows "\<exists>r. tree_growing opts random c w = Some r \<and> (\<forall>cw. r = Inr cw \<longrightarrow> growable rank (ct_pruned (fst cw)) (snd cw))"
proof (cases "ct_growing c")
  case True
  let ?growth = "if ct_grow_iterations c mod 10 = 0 then
      if ct_pruned c \<noteq> [] then grow_round opts random c w else Some (Inr (c\<lparr>ct_growing := False, ct_finished := True\<rparr>, w))
    else Some (Inr (c, w))"
  have "\<exists>r. ?growth = Some r \<and> (\<forall>cw. r = Inr cw \<longrightarrow> growable rank (ct_pruned (fst cw)) (snd cw))"
    using grow_round_returns[OF assms] assms by (cases "ct_pruned c = []") auto
  then have "\<exists>r. and_then ?growth (\<lambda>(c, w). Some (Inr (c\<lparr>ct_grow_iterations := ct_grow_iterations c + 1\<rparr>, w))) = Some r \<and>
      (\<forall>cw. r = Inr cw \<longrightarrow> growable rank (ct_pruned (fst cw)) (snd cw))"
    by (rule and_then_returns) auto
  then show ?thesis using True by (simp add: tree_growing_def)
qed (use assms in \<open>simp add: tree_growing_def\<close>)

lemma after_growth_returns:
  assumes "growable rank steps w"
  shows "\<exists>r. after_growth opts c w = Some r \<and> (\<forall>x. r = Inr x \<longrightarrow> growable rank steps (snd (snd x)))"
proof (cases "ct_finished c \<and> \<not> fst (is_converged c)")
  case True
  obtain c1 where c1: "is_converged c = (False, c1)" using True by (cases "is_converged c") auto
  have "\<exists>r. (if ct_after_growth c1 mod 10 = 0 then bounds_and_grid opts w else Some (Inr w)) = Some r \<and>
      (\<forall>w. r = Inr w \<longrightarrow> growable rank steps w)" using bounds_and_grid_returns[OF assms] assms by simp
  then have "\<exists>r. and_then (if ct_after_growth c1 mod 10 = 0 then bounds_and_grid opts w else Some (Inr w)) (\<lambda>w.
      Some (Inr (False, c1\<lparr>ct_cooling := JNum (ct_incremental_cooling c1 * ((100 - real (ct_after_growth c1)) / 100)),
        ct_after_growth := ct_after_growth c1 + 1\<rparr>, w))) = Some r \<and> (\<forall>x. r = Inr x \<longrightarrow> growable rank steps (snd (snd x)))"
    by (rule and_then_returns) simp
  then show ?thesis using True c1 by (simp only: after_growth_def) simp
qed (use assms in \<open>auto simp: after_growth_def case_prod_unfold Let_def\<close>)

lemma apply_forces_returns:
  assumes "growable rank steps w"
  shows "\<exists>r. apply_forces opts c w = Some r \<and> (\<forall>x. r = Inr x \<longrightarrow> growable rank steps (snd x))"
proof -
  have bounds: "\<exists>r. update_bounds opts w = Some r \<and> (\<forall>w'. r = Inr w' \<longrightarrow> growable rank steps w')"
  proof -
    obtain r where r: "update_bounds opts w = Some r" "\<forall>w'. r = Inr w' \<longrightarrow> wd_gm w' = wd_gm w"
      using update_bounds_returns[of rank w opts] assms unfolding growable_def by blast
    have "growable rank steps w'" if "r = Inr w'" for w'
    proof (rule growable_kept[OF assms])
      have "wd_gm w' = wd_gm w" using r(2) that by blast
      then show "same_nesting (wd_gm w) (wd_gm w')" by simp
    qed
    then show ?thesis using r(1) by blast
  qed
  have moves: "\<exists>r. map_option (\<lambda>(w, d). Inr (c\<lparr>ct_total_displacement := d\<rparr>, w)) (move_nodes cooling m v) =
      Some (r :: layout_error + control \<times> world) \<and> (\<forall>x. r = Inr x \<longrightarrow> growable rank steps (snd x))"
    if v: "growable rank steps v" for cooling m v
  proof -
    obtain w' d where "move_nodes cooling m v = Some (w', d)" "same_nesting (wd_gm v) (wd_gm w')"
      using move_nodes_returns[of rank v] v unfolding growable_def by blast
    then show ?thesis using growable_kept[OF v] by simp
  qed
  show ?thesis
    unfolding apply_forces_def Let_def
    by (intro and_then_returns[OF bounds] and_then_returns[where P = "growable rank steps"] returns_Some moves)
      (auto intro: growable_kept calc_spring_forces_nesting calc_repulsion_forces_nesting
        simp: calc_gravitational_forces_gm)
qed

lemma after_growth_pruned: "after_growth opts c w = Some (Inr x) \<Longrightarrow> ct_pruned (fst (snd x)) = ct_pruned c"
  by (auto simp: after_growth_def is_converged_def Let_def and_then_Inr split: if_splits)

definition ready :: "(nat \<Rightarrow> nat) \<Rightarrow> control \<times> world \<Rightarrow> bool" where
  "ready rank cw \<longleftrightarrow> growable rank (ct_pruned (fst cw)) (snd cw)"

lemma forces_ready:
  assumes "ready rank (c, w)"
  shows "\<exists>r. and_then (apply_forces opts c w) (\<lambda>(c, w). Some (Inr (False, c, w))) = Some r \<and> (\<forall>x. r = Inr x \<longrightarrow> ready rank (snd x))"
proof (rule and_then_returns[where P = "ready rank"])
  obtain r where r: "apply_forces opts c w = Some r" "\<forall>x. r = Inr x \<longrightarrow> growable rank (ct_pruned c) (snd x)"
    using apply_forces_returns assms unfolding ready_def by fastforce
  have "ready rank x" if "r = Inr x" for x
    using apply_forces_control[of opts c w "fst x" "snd x"] r that by (auto simp: ready_def)
  then show "\<exists>r. apply_forces opts c w = Some r \<and> (\<forall>x. r = Inr x \<longrightarrow> ready rank x)" using r(1) by blast
qed auto

lemma after_growth_ready:
  assumes "ready rank (c, w)"
  shows "\<exists>r. after_growth opts c w = Some r \<and> (\<forall>x. r = Inr x \<longrightarrow> ready rank (snd x))"
proof -
  obtain r where r: "after_growth opts c w = Some r" "\<forall>x. r = Inr x \<longrightarrow> growable rank (ct_pruned c) (snd (snd x))"
    using after_growth_returns assms unfolding ready_def by fastforce
  have "ready rank (snd x)" if "r = Inr x" for x
    using after_growth_pruned[of opts c w x] r that by (simp add: ready_def)
  then show ?thesis using r(1) by blast
qed

lemma tick_returns:
  assumes "ready rank (c, w)" "phases c"
  shows "\<exists>r. tick opts random c w = Some r \<and> (\<forall>x. r = Inr x \<longrightarrow> ready rank (snd x))"
proof -
  let ?c = "c\<lparr>ct_iterations := ct_iterations c + 1\<rparr>"
  obtain over1 c1 where c1: "last_iteration ?c = (over1, c1)" by fastforce
  obtain over2 c2 where c2: "check_convergence c1 = (over2, c2)" by fastforce
  have p1: "ct_pruned c1 = ct_pruned c"
    using c1 by (auto simp: last_iteration_def start_growing_def split: if_splits)
  have p2: "ct_pruned c2 = ct_pruned c1"
    using c2 by (auto simp: check_convergence_def start_growing_def is_converged_def Let_def cool_phases split: if_splits prod.splits)
  have grown: "\<exists>r. tree_growing opts (random (ct_iterations c2)) c2 w = Some r \<and> (\<forall>cw. r = Inr cw \<longrightarrow> ready rank cw)"
    using tree_growing_returns[of rank c2 w] assms(1) p1 p2 by (simp add: ready_def)
  have rest: "\<exists>r. and_then (after_growth opts c w) (\<lambda>(over, c, w).
      if over then Some (Inr (True, c, w)) else and_then (apply_forces opts c w) (\<lambda>(c, w). Some (Inr (False, c, w)))) = Some r \<and>
      (\<forall>x. r = Inr x \<longrightarrow> ready rank (snd x))" if "ready rank (c, w)" for c w
  proof (rule and_then_returns[OF after_growth_ready[OF that]])
    fix y :: "bool \<times> control \<times> world" assume "ready rank (snd y)"
    then show "\<exists>r. (case y of (over, c, w) \<Rightarrow>
        if over then Some (Inr (True, c, w)) else and_then (apply_forces opts c w) (\<lambda>(c, w). Some (Inr (False, c, w)))) = Some r \<and>
        (\<forall>x. r = Inr x \<longrightarrow> ready rank (snd x))"
      using forces_ready[of rank "fst (snd y)" "snd (snd y)"] by (cases y; cases "fst y") simp_all
  qed
  have "\<exists>r. and_then (tree_growing opts (random (ct_iterations c2)) c2 w) (\<lambda>(c, w).
      and_then (after_growth opts c w) (\<lambda>(over, c, w).
        if over then Some (Inr (True, c, w)) else and_then (apply_forces opts c w) (\<lambda>(c, w). Some (Inr (False, c, w))))) = Some r \<and>
      (\<forall>x. r = Inr x \<longrightarrow> ready rank (snd x))"
    by (rule and_then_returns[OF grown]) (use rest in auto)
  then show ?thesis using c1 c2 p1 p2 assms(1) by (cases "over1 \<or> over2") (auto simp: tick_def Let_def ready_def)
qed

text \<open>Ticks that are not the last one.\<close>

inductive tick_run ::
  "force_options \<Rightarrow> (nat \<Rightarrow> nat \<Rightarrow> real) \<Rightarrow> nat \<Rightarrow> control \<times> world \<Rightarrow> control \<times> world \<Rightarrow> bool" where
  "tick_run opts random 0 s s"
| "tick opts random (fst s) (snd s) = Some (Inr (False, s')) \<Longrightarrow> tick_run opts random n s' t \<Longrightarrow>
     tick_run opts random (Suc n) s t"

lemma tick_until_done_ends:
  assumes "ready rank (c, w)" "phases c" "started steps c"
  shows "(\<exists>r. tick_until_done opts random k c w = Some r \<and>
      (\<forall>n c' w'. r = Inr (n, c', w') \<longrightarrow> ready rank (c', w') \<and> n \<le> k + ticks_left c + 1)) \<or>
    (\<exists>n c' w'. tick_run opts random n (c, w) (c', w') \<and> n \<le> ticks_left c \<and> stuck c' \<and> ct_finished c' \<and> started steps c')"
  using assms
proof (induction "ticks_left c" arbitrary: c w k rule: less_induct)
  case less
  obtain r where r: "tick opts random c w = Some r" "\<And>x. r = Inr x \<Longrightarrow> ready rank (snd x)"
    using tick_returns[OF less.prems(1,2)] by blast
  show ?case
  proof (cases "stuck c")
    case True
    then have "ct_finished c" using less.prems(2) by (auto simp: phases_def stuck_def)
    then show ?thesis using True less.prems(3) tick_run.intros(1)[of opts random "(c, w)"] by blast
  next
    case unstuck: False
    show ?thesis
    proof (cases r)
      case (Inl er)
      then show ?thesis using r(1) by (subst tick_until_done.simps) simp
    next
      case (Inr x)
      obtain over c1 w1 where x: "x = (over, c1, w1)" by (cases x)
      show ?thesis
      proof (cases over)
        case True
        then show ?thesis using r Inr x by (subst tick_until_done.simps) auto
      next
        case False
        then have one: "tick opts random c w = Some (Inr (False, c1, w1))" using r(1) Inr x by simp
        have p: "phases c1" "ticks_left c1 < ticks_left c" "started steps c1"
          using tick_phases[OF less.prems(2,3) unstuck one] by auto
        have "ready rank (c1, w1)" using r(2)[OF Inr] x by simp
        from less.hyps[OF p(2) this p(1,3), of "k + 1"] show ?thesis
        proof
          assume "\<exists>r'. tick_until_done opts random (k + 1) c1 w1 = Some r' \<and>
            (\<forall>n c' w'. r' = Inr (n, c', w') \<longrightarrow> ready rank (c', w') \<and> n \<le> k + 1 + ticks_left c1 + 1)"
          moreover have "tick_until_done opts random k c w = tick_until_done opts random (k + 1) c1 w1"
            by (subst tick_until_done.simps) (simp add: one)
          ultimately show ?thesis using p(2) by fastforce
        next
          assume "\<exists>n c' w'. tick_run opts random n (c1, w1) (c', w') \<and> n \<le> ticks_left c1 \<and> stuck c' \<and> ct_finished c' \<and> started steps c'"
          then obtain n c' w' where n: "tick_run opts random n (c1, w1) (c', w')" "n \<le> ticks_left c1"
            "stuck c'" "ct_finished c'" "started steps c'" by blast
          have "tick_run opts random (Suc n) (c, w) (c', w')"
            by (rule tick_run.intros(2)[OF _ n(1)]) (simp add: one)
          moreover have "Suc n \<le> ticks_left c" using n(2) p(2) by simp
          ultimately show ?thesis using n(3-5) by blast
        qed
      qed
    qed
  qed
qed

text \<open>The control \<open>classicLayout\<close> runs the embedder with, after \<open>reduceTrees\<close>.\<close>

definition embedder_control :: "bool \<Rightarrow> nat \<Rightarrow> nat \<Rightarrow> real \<Rightarrow> nat \<Rightarrow> pruned list list \<Rightarrow> nat list \<Rightarrow> control" where
  "embedder_control incremental quality max_iterations cooling s steps gravity =
     init_spring_embedder incremental s
       ((init_parameters quality max_iterations cooling)\<lparr>ct_pruned := steps, ct_gravity := gravity\<rparr>)"

lemma embedder_control_phases:
  assumes "0 < s"
  shows "phases (embedder_control incremental quality max_iterations cooling s steps gravity)"
    "ticks_left (embedder_control incremental quality max_iterations cooling s steps gravity) + 1 =
       max (s * 5) max_iterations + 10 * length steps + 102"
  using assms
  by (simp_all add: embedder_control_def init_spring_embedder_def init_parameters_def Let_def phases_def ticks_left_def)

text \<open>C23. Where graphs nest, and whatever the forces and \<open>Math.random\<close> do, \<open>runSpringEmbedder\<close> on a layout that has
  nodes returns (or throws) after at most the iterations allowed, ten ticks for each round of trees to grow back
  and 102 to cool down.  The one exception: trees were taken out, and within that bound a tick after growth leaves
  the layout cooled down to 0 with \<open>NaN\<close> for its total displacement.\<close>

theorem spring_embedder_ends:
  assumes "nests rank (wd_gm w)" "leaves_only (wd_gm w) steps" "0 < s"
  shows "(\<exists>r. run_spring_embedder opts random
        (embedder_control incremental quality max_iterations cooling s steps gravity) w = Some r \<and>
      (\<forall>k c' w'. r = Inr (k, c', w') \<longrightarrow> k \<le> max (s * 5) max_iterations + 10 * length steps + 102)) \<or>
    (\<exists>n c' w'. tick_run opts random n
        (embedder_control incremental quality max_iterations cooling s steps gravity, w) (c', w') \<and>
      n \<le> max (s * 5) max_iterations + 10 * length steps + 101 \<and> steps \<noteq> [] \<and>
      ct_finished c' \<and> ct_after_growth c' = 101 \<and> ct_total_displacement c' = JNaN)"
proof -
  let ?start = "embedder_control incremental quality max_iterations cooling s steps gravity"
  let ?bound = "max (s * 5) max_iterations + 10 * length steps + 102"
  have "ct_pruned ?start = steps" "\<not> ct_growing ?start" "\<not> ct_finished ?start"
    by (simp_all add: embedder_control_def init_spring_embedder_def init_parameters_def Let_def)
  then have "ready rank (?start, w)" "started steps ?start"
    using assms(1,2) by (simp_all add: ready_def growable_def started_def)
  note ends = tick_until_done_ends[OF this(1) _ this(2), of opts random 0]
  have phases: "phases ?start" "ticks_left ?start + 1 = ?bound"
    by (rule embedder_control_phases[OF assms(3)])+
  from ends[OF phases(1)] show ?thesis
  proof (elim disjE exE conjE)
    fix r
    assume r: "tick_until_done opts random 0 ?start w = Some r"
      "\<forall>n c' w'. r = Inr (n, c', w') \<longrightarrow> ready rank (c', w') \<and> n \<le> 0 + ticks_left ?start + 1"
    have "\<exists>r. run_spring_embedder opts random ?start w = Some r \<and> (\<forall>k c' w'. r = Inr (k, c', w') \<longrightarrow> k \<le> ?bound)"
    proof (cases r)
      case (Inl er)
      then show ?thesis using r(1) by (simp add: run_spring_embedder_def and_then_def)
    next
      case (Inr x)
      obtain n c1 w1 where x: "x = (n, c1, w1)" by (cases x)
      then have n: "nests rank (wd_gm w1)" "n \<le> ?bound"
        using r(2) Inr phases(2) by (auto simp: ready_def growable_def)
      obtain r' where r': "update_bounds opts w1 = Some r'" using update_bounds_returns[OF n(1)] by blast
      show ?thesis
        by (cases r') (use r(1) r' n(2) Inr x in \<open>simp_all add: run_spring_embedder_def and_then_def\<close>)
    qed
    then show ?thesis ..
  next
    fix n c' w'
    assume n: "tick_run opts random n (?start, w) (c', w')" "n \<le> ticks_left ?start"
      "stuck c'" "ct_finished c'" "started steps c'"
    then show ?thesis using phases(2) by (fastforce simp: stuck_def started_def)
  qed
qed

lemma spring_embedder_ends_witness:
  "\<exists>w. gm_graphs (wd_gm w) \<noteq> [] \<and>
     (\<exists>r. run_spring_embedder default_options (\<lambda>_ _. 1 / 2) (embedder_control False 1 2500 (3 / 10) 2 [] [2]) w = Some r \<and>
        (\<forall>k c' w'. r = Inr (k, c', w') \<longrightarrow> k \<le> 2602)) \<and>
     ((\<exists>r. run_spring_embedder default_options (\<lambda>_ _. 1 / 2)
         (embedder_control False 1 2500 (3 / 10) 2 [[\<lparr>pn_node = 3, pn_edge = 4, pn_graph = Some 0\<rparr>]] [2]) w = Some r \<and>
        (\<forall>k c' w'. r = Inr (k, c', w') \<longrightarrow> k \<le> 2612)) \<or>
      (\<exists>n c' w'. tick_run default_options (\<lambda>_ _. 1 / 2) n
         (embedder_control False 1 2500 (3 / 10) 2 [[\<lparr>pn_node = 3, pn_edge = 4, pn_graph = Some 0\<rparr>]] [2], w) (c', w') \<and>
        n \<le> 2611 \<and> ct_finished c' \<and> ct_after_growth c' = 101 \<and> ct_total_displacement c' = JNaN))"
proof -
  let ?s = "new_manager\<lparr>gm_graphs := [0], gm_root := Some 0,
    gm_graph := (gm_graph new_manager)(0 := \<lparr>gr_parent = Some 1, gr_nodes = [2], gr_edges = []\<rparr>)\<rparr>"
  let ?w = "\<lparr>wd_gm = ?s, wd_body = \<lambda>_. new_body (lift_rect new_rectangle),
    wd_box = \<lambda>_. \<lparr>bx_bounds = no_bounds, bx_margin = 15, bx_estimated = 40\<rparr>,
    wd_line = \<lambda>_. \<lparr>ln_ideal = 50, ln_x = 0, ln_y = 0, ln_length = 0, ln_overlapping = False\<rparr>, wd_grid = []\<rparr>"
  have n: "nests (\<lambda>_. 0) (wd_gm ?w)" and l: "leaves_only (wd_gm ?w) []"
    "leaves_only (wd_gm ?w) [[\<lparr>pn_node = 3, pn_edge = 4, pn_graph = Some 0\<rparr>]]"
    by (auto simp: nests_def leaves_only_def nodes_in_def new_manager_def)
  note at = spring_embedder_ends[OF n _, of _ 2 default_options "\<lambda>_ _. 1 / 2" False 1 2500 "3 / 10" "[2]"]
  from at[OF l(1)] have none: "\<exists>r. run_spring_embedder default_options (\<lambda>_ _. 1 / 2)
      (embedder_control False 1 2500 (3 / 10) 2 [] [2]) ?w = Some r \<and> (\<forall>k c' w'. r = Inr (k, c', w') \<longrightarrow> k \<le> 2602)" by simp
  from at[OF l(2)] none show ?thesis by (intro exI[of _ ?w]) simp
qed

end
