(* ===== verification/LayoutCenter.thy ===== *)
theory LayoutCenter
  imports LayoutNest
begin

text \<open>
  \<open>Layout.findCenterOfTree\<close> (\<open>docs/.vitepress/cache/deps/cytoscape-cose-bilkent.js\<close>), which is to strip the leaves
  of a tree until one or two nodes are left.  What is proved: it returns, but as its loop goes over the
  list it takes nodes out of, each pass takes out every second node, whatever the edges are; the node it
  returns depends on the length of the list alone.  The degrees are a map in which \<open>None\<close> is \<open>undefined\<close> and
  \<open>NaN\<close>; \<open>None\<close> as a result is not returning.
\<close>

subsection \<open>The search\<close>

record center_search =
  cs_removed :: "nat option list"
  cs_degrees :: "nat option \<Rightarrow> int option"
  cs_leaves :: "nat option list"

text \<open>A neighbour of a node that is taken out.\<close>

definition lose_neighbor :: "nat option \<Rightarrow> center_search \<Rightarrow> center_search" where
  "lose_neighbor m c =
     (if m \<in> set (cs_removed c) then c
      else
       (let degree = map_option (\<lambda>d. d - 1) (cs_degrees c m)
        in c\<lparr>cs_leaves := (if degree = Some 1 then cs_leaves c @ [m] else cs_leaves c),
             cs_degrees := (cs_degrees c)(m := degree)\<rparr>))"

text \<open>The loop over the list, from an index on; the list shrinks as it goes.\<close>

function center_pass :: "manager \<Rightarrow> nat \<Rightarrow> nat list \<Rightarrow> center_search \<Rightarrow> layout_error + nat list \<times> center_search" where
  "center_pass s i ns c =
     (if i < length ns then
        (case get_neighbors_list s (ns ! i) of
           Inl er \<Rightarrow> Inl er
         | Inr ms \<Rightarrow> center_pass s (Suc i) (remove1 (ns ! i) ns) (foldl (\<lambda>c m. lose_neighbor m c) c ms))
      else Inr (ns, c))"
  by pat_completeness auto
termination
  by (relation "measure (\<lambda>(s, i, ns, c). length ns - i)") (auto simp: length_remove1)

declare center_pass.simps [simp del]

partial_function (option) strip_leaves :: "manager \<Rightarrow> nat list \<Rightarrow> center_search \<Rightarrow> (layout_error + nat) option" where
  "strip_leaves s ns c =
     (case center_pass s 0 ns (c\<lparr>cs_leaves := []\<rparr>) of
        Inl er \<Rightarrow> Some (Inl er)
      | Inr x \<Rightarrow>
          if length (fst x) = 1 \<or> length (fst x) = 2 then Some (Inr (hd (fst x)))
          else strip_leaves s (fst x) ((snd x)\<lparr>cs_removed := cs_removed (snd x) @ cs_leaves (snd x)\<rparr>))"

fun note_degrees :: "manager \<Rightarrow> nat list \<Rightarrow> center_search \<Rightarrow> layout_error + center_search" where
  "note_degrees s [] c = Inr c"
| "note_degrees s (n # ns) c =
     (case get_neighbors_list s n of
        Inl er \<Rightarrow> Inl er
      | Inr ms \<Rightarrow>
          note_degrees s ns
            (c\<lparr>cs_degrees := (cs_degrees c)(Some n \<mapsto> int (length ms)),
               cs_removed := (if length ms = 1 then cs_removed c @ [Some n] else cs_removed c)\<rparr>))"

definition find_center_of_tree :: "manager \<Rightarrow> nat list \<Rightarrow> (layout_error + nat) option" where
  "find_center_of_tree s ns =
     (case note_degrees s ns \<lparr>cs_removed = [], cs_degrees = Map.empty, cs_leaves = []\<rparr> of
        Inl er \<Rightarrow> Some (Inl er)
      | Inr c \<Rightarrow> if length ns = 1 \<or> length ns = 2 then Some (Inr (hd ns)) else strip_leaves s ns c)"

subsection \<open>What it finds\<close>

text \<open>The entries at odd places of a list, and the place that is left in the end.\<close>

fun seconds :: "'a list \<Rightarrow> 'a list" where
  "seconds [] = []"
| "seconds [x] = []"
| "seconds (x # y # xs) = y # seconds xs"

fun place_left :: "nat \<Rightarrow> nat" where
  "place_left n = (if n \<le> 2 then 0 else 2 * place_left (n div 2) + 1)"

declare place_left.simps [simp del]

lemma length_seconds: "length (seconds xs) = length xs div 2"
  by (induction xs rule: seconds.induct) auto

lemma nth_seconds: "i < length xs div 2 \<Longrightarrow> seconds xs ! i = xs ! (2 * i + 1)"
proof (induction xs arbitrary: i rule: seconds.induct)
  case (3 x y xs)
  then show ?case by (cases i) auto
qed auto

lemma seconds_subset: "set (seconds xs) \<subseteq> set xs"
  by (induction xs rule: seconds.induct) auto

lemma distinct_seconds: "distinct xs \<Longrightarrow> distinct (seconds xs)"
proof (induction xs rule: seconds.induct)
  case (3 x y xs)
  then show ?case using seconds_subset[of xs] by auto
qed auto

text \<open>Every node knows its edges.\<close>

definition neighborly :: "manager \<Rightarrow> nat list \<Rightarrow> bool" where
  "neighborly s ns \<longleftrightarrow> (\<forall>n \<in> set ns. \<exists>ms. get_neighbors_list s n = Inr ms)"

lemma center_pass_seconds:
  assumes "distinct (kept @ ns)" "neighborly s ns"
  shows "\<exists>c'. center_pass s (length kept) (kept @ ns) c = Inr (kept @ seconds ns, c')"
  using assms
proof (induction ns arbitrary: kept c rule: seconds.induct)
  case (3 x y xs)
  obtain ms where ms: "get_neighbors_list s x = Inr ms" using "3.prems"(2) by (auto simp: neighborly_def)
  have "remove1 x (kept @ x # y # xs) = (kept @ [y]) @ xs" using "3.prems"(1) by (simp add: remove1_append)
  then have step: "center_pass s (length kept) (kept @ x # y # xs) c =
      center_pass s (length (kept @ [y])) ((kept @ [y]) @ xs) (foldl (\<lambda>c m. lose_neighbor m c) c ms)"
    by (subst center_pass.simps) (simp add: ms nth_append)
  have "distinct ((kept @ [y]) @ xs)" "neighborly s xs" using "3.prems" by (auto simp: neighborly_def)
  from "3.IH"[OF this] show ?case unfolding step by simp
next
  case (2 x)
  obtain ms where "get_neighbors_list s x = Inr ms" using "2.prems"(2) by (auto simp: neighborly_def)
  moreover have "remove1 x (kept @ [x]) = kept" using "2.prems"(1) by (simp add: remove1_append)
  ultimately show ?case by (subst center_pass.simps) (simp add: nth_append center_pass.simps)
qed (simp add: center_pass.simps)

lemma strip_leaves_place:
  assumes "distinct ns" "neighborly s ns" "2 < length ns"
  shows "strip_leaves s ns c = Some (Inr (ns ! place_left (length ns)))"
  using assms
proof (induction "length ns" arbitrary: ns c rule: less_induct)
  case less
  let ?ns = "seconds ns"
  obtain c' where pass: "center_pass s 0 ns (c\<lparr>cs_leaves := []\<rparr>) = Inr (?ns, c')"
    using center_pass_seconds[of "[]" ns s] less.prems by auto
  have len: "length ?ns = length ns div 2" "0 < length ?ns" using less.prems(3) by (simp_all add: length_seconds)
  have place: "place_left (length ns) = 2 * place_left (length ?ns) + 1"
    using less.prems(3) len(1) by (subst place_left.simps) simp
  show ?case
  proof (cases "length ?ns \<le> 2")
    case True
    then have "place_left (length ?ns) = 0" by (simp add: place_left.simps)
    moreover have "hd ?ns = ns ! 1" using nth_seconds[of 0 ns] len hd_conv_nth[of ?ns] by (cases ?ns) auto
    moreover have "length ?ns = 1 \<or> length ?ns = 2" using True len(2) by linarith
    ultimately show ?thesis using pass place by (subst strip_leaves.simps) simp
  next
    case False
    have "place_left n < n" if "0 < n" for n
      using that
    proof (induction n rule: less_induct)
      case (less n)
      show ?case
      proof (cases "n \<le> 2")
        case False
        then have "place_left (n div 2) < n div 2" using less.IH[of "n div 2"] by simp
        moreover have "2 * (n div 2) \<le> n" by simp
        ultimately have "2 * place_left (n div 2) + 1 < n" by linarith
        then show ?thesis using False by (subst place_left.simps) simp
      qed (use less.prems in \<open>simp add: place_left.simps\<close>)
    qed
    then have "?ns ! place_left (length ?ns) = ns ! place_left (length ns)"
      using nth_seconds[of "place_left (length ?ns)" ns] len unfolding place by simp
    moreover have "neighborly s ?ns" using less.prems(2) seconds_subset[of ns] by (auto simp: neighborly_def)
    moreover have "length ?ns < length ns" using len(1) less.prems(3) by linarith
    ultimately have "strip_leaves s ?ns c'' = Some (Inr (ns ! place_left (length ns)))" for c''
      using less.hyps[of ?ns c''] distinct_seconds[OF less.prems(1)] False by simp
    moreover have "length ?ns \<noteq> 1" "length ?ns \<noteq> 2" using False by auto
    ultimately show ?thesis using pass by (subst strip_leaves.simps) simp
  qed
qed

text \<open>The center does not depend on the tree, only on the order its nodes are listed in.\<close>

theorem center_ignores_edges:
  assumes "distinct ns" "neighborly s ns" "ns \<noteq> []"
  shows "find_center_of_tree s ns = Some (Inr (ns ! place_left (length ns)))"
proof -
  have "\<exists>c'. note_degrees s ns c = Inr c'" for c
    using assms(2) by (induction ns arbitrary: c) (auto simp: neighborly_def split: sum.splits)
  then obtain c where c: "note_degrees s ns \<lparr>cs_removed = [], cs_degrees = Map.empty, cs_leaves = []\<rparr> = Inr c" by blast
  show ?thesis
  proof (cases "length ns \<le> 2")
    case True
    moreover have "0 < length ns" using assms(3) by simp
    ultimately have "length ns = 1 \<or> length ns = 2" by linarith
    moreover have "place_left (length ns) = 0" using True by (simp add: place_left.simps)
    ultimately show ?thesis using c assms(3) by (simp add: find_center_of_tree_def hd_conv_nth)
  next
    case False
    then show ?thesis using c strip_leaves_place[OF assms(1,2)] by (auto simp: find_center_of_tree_def)
  qed
qed

text \<open>Of a path of three nodes listed from the middle, it is an end.\<close>

lemma center_of_star:
  assumes "neighborly s [hub, a, b]" "distinct [hub, a, b]"
  shows "find_center_of_tree s [hub, a, b] = Some (Inr a)"
  using center_ignores_edges[OF assms(2,1)] by (simp add: place_left.simps)

end
