(* ===== verification/Spec2Isabelle.thy ===== *)
theory Spec2Isabelle
  imports HandleRequest PathMapping Sts Metering NativeHost CyCentral ShortestPaths SpanningForest
    LinkageFacts IndexProps LayoutSort LayoutAlign LayoutTiling LayoutTick LayoutCenter
begin

text \<open>
  A verification development for multistore, a gateway that speaks the S3 protocol in front of
  several object stores.  Sources are named relative to \<open>src/\<close>.

  \<^bold>\<open>The program.\<close>  A request is parsed to an S3 operation, its caller is identified (a SigV4
  signature under a registered credential or under a session the gateway minted, or nobody), the
  bucket registry resolves the bucket and authorizes the operation, a chain of middleware runs, and
  dispatch answers: a presigned forward, a signed streaming forward, a listing, a multipart control
  request, a batch delete, or a server-side copy.  Sessions come from the STS routes, which exchange
  an identity provider's token for temporary credentials sealed into a session token.  Towards cloud
  backends the gateway is an identity provider itself: it signs assertions and trades them for
  credentials, which it caches.  The documentation site in \<open>docs/\<close> ships three JavaScript libraries
  whose algorithms are modelled as well: the search index \<open>minisearch\<close>, the graph library
  \<open>cytoscape\<close> and its layout \<open>cose-bilkent\<close> (all under \<open>docs/.vitepress/cache/deps/\<close>).

  \<^bold>\<open>Theories and what they model.\<close>
  \<^item> \<open>Prelude\<close>: byte strings with the operations of Rust's \<open>str\<close>, header maps, results; the lemma
    collections \<open>str_simps\<close>, \<open>hdr_simps\<close>, \<open>prefix_simps\<close>.  \<open>Json\<close>: JSON values and \<open>i64\<close> arithmetic.
  \<^item> \<open>Types\<close> (\<open>core/src/types.rs\<close>, \<open>error.rs\<close>), \<open>Authorize\<close> (\<open>auth/authorize.rs\<close>), \<open>Request\<close>
    (\<open>api/request.rs\<close>), \<open>SigV4\<close> (\<open>auth/sigv4.rs\<close>, \<open>backend/request_signer.rs\<close>), \<open>Identity\<close>
    (\<open>auth/identity.rs\<close>), \<open>Response\<close> (\<open>api/response.rs\<close>), \<open>Listing\<close> (\<open>api/list.rs\<close>,
    \<open>list_rewrite.rs\<close>), \<open>BatchDelete\<close> (\<open>api/delete.rs\<close>), \<open>Backend\<close> (\<open>backend/*\<close>,
    \<open>aws_chunked.rs\<close>), \<open>RouteHandler\<close> (\<open>route_handler.rs\<close>, \<open>router.rs\<close>), \<open>Middleware\<close>
    (\<open>middleware.rs\<close>).
  \<^item> The gateway (\<open>core/src/proxy.rs\<close>): \<open>GatewayBase\<close> (the object, its interfaces, the helpers),
    \<open>Dispatch\<close> (each operation), \<open>Gateway\<close> (dispatch, resolution, completion with a body),
    \<open>HandleRequest\<close> (the whole request).
  \<^item> \<open>Registry\<close> states the contract of a bucket registry, \<open>StaticConfig\<close> (\<open>static-config\<close>) and
    \<open>PathMapping\<close> (\<open>path-mapping\<close>) fulfil it.
  \<^item> The token service (\<open>sts/src\<close>): \<open>StsRequest\<close> (\<open>request.rs\<close>, \<open>responses.rs\<close>), \<open>SealedToken\<close>
    (\<open>sealed_token.rs\<close>, \<open>caller_identity.rs\<close>), \<open>Jwks\<close> (\<open>jwks.rs\<close>), \<open>Sts\<close> (\<open>lib.rs\<close>, \<open>sts.rs\<close>,
    \<open>route_handler.rs\<close>).  \<open>Metering\<close> (\<open>metering/src/lib.rs\<close>).
  \<^item> The identity provider (\<open>oidc-provider/src\<close>): \<open>CredentialCache\<close> (\<open>cache.rs\<close>, concurrent callers as
    a step relation), \<open>OidcProvider\<close> (assertions, published keys, discovery, the exchanges with
    AWS, Azure and GCP, the provider, and the middleware that puts credentials into a bucket's options).
  \<^item> The hosts: \<open>Bandwidth\<close> (\<open>examples/cf-workers/src/bandwidth.rs\<close>, \<open>metering.rs\<close>: a counter of bytes in
    a sliding window over durable storage, with its alarm and restarts as a step relation), \<open>Workers\<close>
    (\<open>crates/cf-workers/src\<close>: headers and requests; \<open>rate_limit.rs\<close>), \<open>CachedRegistry\<close>
    (\<open>examples/server/src/cached.rs\<close>), \<open>HostSetup\<close> (stores, signers, routes and the gateway as every host
    builds them), \<open>WorkerHost\<close> (\<open>crates/cf-workers/src\<close>: \<open>backend.rs\<close>, \<open>body.rs\<close>, \<open>response.rs\<close>,
    \<open>fetch_connector.rs\<close>, \<open>tracing_layer.rs\<close>; \<open>examples/cf-workers/src/lib.rs\<close>), \<open>NativeHost\<close> (the server
    and Lambda: backends, programs and request handlers).
  \<^item> \<open>JsBase\<close>: JavaScript numbers, arrays, objects and strings.
  \<^item> The search index (\<open>vitepress___minisearch.js\<close>): \<open>RadixTree\<close> and \<open>RadixMap\<close> (\<open>SearchableMap\<close> and its
    iterators), \<open>FuzzySearch\<close> (\<open>fuzzySearch\<close>), \<open>MiniIndex\<close> (adding, removing, discarding and vacuuming
    documents, \<open>toJSON\<close> and \<open>loadJSON\<close>), \<open>MiniQuery\<close> (tokens, scoring, \<open>search\<close>, \<open>autoSuggest\<close>).
    \<open>IndexTerms\<close>, \<open>IndexState\<close> and \<open>IndexSearch\<close> hold the invariant of the index and the lemmas of
    each operation, \<open>IndexProps\<close> the properties.
  \<^item> The graph library (\<open>cytoscape.js\<close>): \<open>CyHeap\<close> (the array heap), \<open>CyUtil\<close> (strings, colours, hashes,
    sets), \<open>CyMath\<close> (geometry), \<open>CyGraph\<close> (collections, traversal), \<open>CyPaths\<close> (Dijkstra, Kruskal, A*,
    Floyd-Warshall, Bellman-Ford, Karger-Stein), \<open>CyConnect\<close> (components), \<open>CyCentral\<close> (centralities,
    PageRank), \<open>CyCluster\<close> (Markov clustering, k-means, k-medoids, fuzzy c-means), \<open>CyLinkage\<close>
    (hierarchical clustering, affinity propagation).  \<open>PathFacts\<close>, \<open>ShortestPaths\<close>, \<open>SpanningForest\<close> and
    \<open>LinkageFacts\<close> hold what is proved of Dijkstra, Kruskal and single linkage.
  \<^item> The layout (\<open>cytoscape-cose-bilkent.js\<close>): \<open>LayoutGraph\<close> (\<open>LNode\<close>, \<open>LEdge\<close>, \<open>LGraph\<close> and their manager,
    with a step relation), \<open>LayoutNest\<close> (walks over nested graphs), \<open>LayoutList\<close> (\<open>LinkedList\<close>), \<open>LayoutSort\<close>
    (\<open>Quicksort\<close>), \<open>LayoutAlign\<close> (\<open>NeedlemanWunsch\<close>), \<open>LayoutGeometry\<close> (\<open>RectangleD\<close>, \<open>Transform\<close>,
    \<open>IGeometry\<close> on finite numbers), \<open>LayoutTiling\<close> (\<open>tileNodes\<close>, \<open>adjustLocations\<close>), \<open>LayoutNumbers\<close> (rectangles and
    clipping on any numbers, \<open>NaN\<close> included, equal to \<open>LayoutGeometry\<close> on finite ones), \<open>LayoutForces\<close> (bounds,
    springs, repulsion on a grid, gravity, moves: \<open>FDLayout\<close>, \<open>CoSENode\<close>), \<open>LayoutTrees\<close> (\<open>reduceTrees\<close>, \<open>growTree\<close>), \<open>LayoutTick\<close>
    (\<open>tick\<close>, \<open>runSpringEmbedder\<close>), \<open>LayoutCenter\<close> (\<open>findCenterOfTree\<close>).

  \<^bold>\<open>How code becomes definitions.\<close>  A \<open>str\<close> is its bytes, a \<open>HashMap\<close> a partial function, a
  \<open>HeaderMap\<close> the list of its pairs, a time a number of nanoseconds, \<open>u64\<close> and \<open>u32\<close> are words.
  \<open>Result\<close> is a sum with \<open>proxy_error\<close> on the left; where the code can panic the result is an
  \<open>outcome\<close>.  What reaches the outside world is a trace: every asynchronous step returns its outcome
  with the list of backend calls it made, in order.  Libraries (HTTP, XML, URL and form parsing,
  percent coding, cryptography, \<open>object_store\<close>, \<open>matchit\<close>) are arguments or fields of records
  (\<open>libs\<close>, \<open>crypto\<close>, \<open>sealing\<close>, \<open>jwt_libs\<close>); a property that needs one of their laws names it as a
  hypothesis and its witness supplies a function with that law.  Clock readings and random bytes are
  inputs.  In the JavaScript theories a \<open>Map\<close> or an object used as one is an association list in
  insertion order (no key is the name of a member of \<open>Object.prototype\<close>), a number is a real, an
  infinity or \<open>NaN\<close> with one zero (rounding is left out, except in the average field lengths of the index, which
  are rounded to doubles; counters and typed arrays that wrap do so), \<open>undefined\<close> and an
  exception are \<open>None\<close> or the left of a sum, and a vacuum runs to its end without a pause.  A vacuum and a prefix
  search take the terms of the index before they change it; the code reads them one by one while it deletes
  only the term it is at.

  \<^bold>\<open>Interfaces.\<close>  \<open>authorizing_registry\<close>: a resolved bucket has passed the scope check, and a key
  the registry authorizes is one the scopes grant; fulfilled by the static provider and preserved by
  the path mapping and the caching provider (\<open>mapped_over_registry\<close>,
  \<open>cached_over_registry\<close>, sublocales).  \<open>fetch_cache\<close>: a cache answers what was fetched for the same key and
  is still live; fulfilled by the credential cache and the caching provider.  \<open>lawful_middleware\<close>: a middleware answers
  itself or hands the request on once, with the same operation and identity; fulfilled by metering,
  the rate limiter and the backend-auth middleware.
  \<open>session_resolver\<close>: a resolver of session tokens answers only with unexpired credentials somebody
  sealed; fulfilled by the sealed token.  \<open>map_store\<close>: what a lookup returns after an insertion or a
  removal; fulfilled by the radix tree and by the plain map.  \<open>comparator\<close> and \<open>priority_queue\<close>: a
  comparison that orders, and a queue that gives up its least item first; fulfilled by the heap.

  \<^bold>\<open>What is proved.\<close>  No backend call without authorization, end to end through routing, middleware
  and dispatch; the scope check against a specification over path segments; what an authenticated
  identity has proven; safe keys; batch delete and copy key by key; the body of a request available
  exactly where it is used; signing against verification; listings mapped back to the client's keys
  and staying in scope, with the two cases where they do not; the exchange of a token, from the
  signature to the sealed session; the key cache under concurrent exchanges; subject conditions
  against a glob; the template loop, and what a claim with braces does to it; rewriting of paths and back; the
  key a backend URL names; cached credentials that fit their caller, and at most one renewal while a claim
  to renew stands; the bytes a bandwidth window counts.

  Of the search index: the radix tree refines a map and its iterators end with every entry once; a
  well-formed index stays so under every operation; adding a document counts its terms, removing it
  undoes that but for the rounding of the averages of its fields, discarding and vacuuming amounts to removing; a search answers with live documents;
  fuzzy lookup finds exactly the keys within the edit distance as long as the matrix does not wrap
  (query length plus distance plus one below 256), and the empty key modulo 256 in any case; the JSON form reads back.
  Of the graph library: Dijkstra ends with the weights of lightest walks, Kruskal returns a spanning
  forest of least total weight, hierarchical clustering with single linkage returns the components of
  the nodes closer than its threshold.  The heap is a priority queue and sorts; boxes and convex polygons
  that are reported apart have no point in common (lemmas of \<open>CyHeap\<close> and \<open>CyMath\<close>).
  Of the layout: the spring embedder returns, within a bound on its ticks, where graphs nest, unless the phase
  after growth ends with a displacement of \<open>NaN\<close>; pruning
  trees ends without a leaf and growing them back restores the graphs; tiled nodes do not overlap;
  the traceback of an alignment lists exactly the best ones.  Further (lemmas of their theories): the
  graphs stay consistent under every operation, springs and repulsions balance where they stay finite, no displacement
  exceeds the cooled maximum, overlapping rectangles are pushed apart, Quicksort sorts, the linked list
  refines a list, connectedness and lowest common ancestors are what their names say; and the center of a
  tree is a node that depends on the length of the list alone, not on the edges.

  \<^bold>\<open>Bounds.\<close>  There is no fuel: loops are structural recursions, \<open>split_str\<close> and \<open>subst_template\<close>
  recurse on the length of the text, and the template loop, which may not end, is a partial function
  whose value \<open>None\<close> is not returning.  The loops of the JavaScript theories that the source does not
  bound (iterators, queues, paths back to a root) are partial functions as well; that the iterators,
  Dijkstra's loop, the merges of single linkage and the loops of the index return is proved, and of the spring
  embedder up to the case of \<open>NaN\<close>.  The walks of the layout go down or up the nesting of graphs, which the code does not
  keep from being circular; that they return is proved where the nesting has a rank.

  \<^bold>\<open>Not modelled.\<close>  Sockets, the asynchronous runtimes and the JavaScript objects the hosts talk to (the fetch,
  the HTTP client, the constructors of requests and responses and the readers of bodies are parameters
  that may fail; a stream is the bytes it yields), the log lines of the core, the typed extension map of
  a dispatch context, and the configuration of the documentation site.  Of
  \<open>minisearch\<close>, the asynchronous variants (\<open>addAllAsync\<close>, \<open>loadJSONAsync\<close>) and the scheduling of
  automatic vacuums.  Of \<open>cytoscape\<close>, the renderer, styles, layouts, events and animation.  Of
  \<open>cose-bilkent\<close>, the radial placement of forests, the grouping of compounds before they are tiled, bend
  points, the hash containers, the emitter and the adapter to \<open>cytoscape\<close>.  The other
  prebundled packages (the Vue runtime and devtools, \<open>mark.js\<close>, the focus trap) are
  user interface code over the browser's objects.
\<close>

end
